(* ===== verification/Prelude.thy ===== *)
theory Prelude
  imports Main "HOL-Library.Multiset"
begin

text \<open>
  Shared vocabulary of the development.
  \<^item> Python strings are HOL strings whose characters are read as the code points below 256
    (Latin-1); the string methods the program uses are defined on them with Python's meaning.
  \<^item> A database table is a record of its rows in primary-key order and the next key of its
    autoincrement sequence; the query shapes of the program (first match, bulk update with a
    row count, bulk delete, count) are list functions over the rows.
  \<^item> The collections \<open>table_simps\<close> and \<open>py_simps\<close> hold the rewrite rules that carry the
    component proofs.
\<close>

named_theorems table_simps "rewrite rules for rows, keys and bulk updates"
named_theorems py_simps "definitions of the Python string operations"

section \<open>Python values\<close>

text \<open>Truthiness of an optional string: \<open>None\<close> and the empty string are false.\<close>

definition truthy :: "string option \<Rightarrow> bool" where
  "truthy v = (case v of None \<Rightarrow> False | Some s \<Rightarrow> s \<noteq> [])"

text \<open>\<open>a or b\<close> on optional strings.\<close>

definition py_or :: "string option \<Rightarrow> string option \<Rightarrow> string option" where
  "py_or a b = (if truthy a then a else b)"

lemma truthy_simps [simp]:
  "\<not> truthy None" "truthy (Some s) \<longleftrightarrow> s \<noteq> []"
  by (simp_all add: truthy_def)

lemma py_or_simps [simp]:
  "py_or None b = b" "py_or (Some []) b = b" "s \<noteq> [] \<Longrightarrow> py_or (Some s) b = Some s"
  by (simp_all add: py_or_def)

text \<open>\<open>x\<close> where it is given, else the old value; a page of a query (\<open>OFFSET (page - 1) * limit\<close>).\<close>

fun the_default :: "'a \<Rightarrow> 'a option \<Rightarrow> 'a" where
  "the_default d None = d"
| "the_default d (Some x) = x"

definition page_slice :: "nat \<Rightarrow> nat \<Rightarrow> 'a list \<Rightarrow> 'a list" where
  "page_slice page limit xs = take limit (drop ((page - 1) * limit) xs)"

lemma length_page_slice [simp]: "length (page_slice page limit xs) = min limit (length xs - (page - 1) * limit)"
  by (simp add: page_slice_def min.commute)

section \<open>Python string methods\<close>

definition code_point :: "char \<Rightarrow> nat" where
  "code_point c = of_char c"

definition py_lower_char :: "char \<Rightarrow> char" where
  "py_lower_char c =
     (let n = code_point c in
      if (65 \<le> n \<and> n \<le> 90) \<or> (192 \<le> n \<and> n \<le> 222 \<and> n \<noteq> 215) then char_of (n + 32) else c)"

text \<open>Code equations over the integers, whose numerals are binary.\<close>

lemma code_point_le_numeral: "code_point c \<le> numeral k \<longleftrightarrow> (of_char c :: int) \<le> numeral k"
  "numeral k \<le> code_point c \<longleftrightarrow> numeral k \<le> (of_char c :: int)" "code_point c = numeral k \<longleftrightarrow> (of_char c :: int) = numeral k"
proof -
  have "(of_char c :: int) = int (code_point c)" by (simp add: code_point_def of_nat_of_char)
  then show "code_point c \<le> numeral k \<longleftrightarrow> (of_char c :: int) \<le> numeral k"
    "numeral k \<le> code_point c \<longleftrightarrow> numeral k \<le> (of_char c :: int)" "code_point c = numeral k \<longleftrightarrow> (of_char c :: int) = numeral k"
    by simp_all
qed

lemma char_of_int: "(char_of (int n) :: char) = char_of n"
proof (rule of_char_eqI)
  have "(of_char (char_of n :: char) :: int) = int (of_char (char_of n :: char))" by (rule of_nat_of_char [symmetric])
  also have "\<dots> = int n mod 256" by (simp only: of_char_of of_nat_mod of_nat_numeral)
  finally show "(of_char (char_of (int n) :: char) :: int) = of_char (char_of n :: char)" by (simp only: of_char_of)
qed

lemma py_lower_char_code [code]:
  "py_lower_char c =
     (let n = (of_char c :: int) in
      if (65 \<le> n \<and> n \<le> 90) \<or> (192 \<le> n \<and> n \<le> 222 \<and> n \<noteq> 215) then char_of (n + 32) else c)"
proof -
  have "(of_char c :: int) + 32 = int (code_point c + 32)" by (simp add: code_point_def of_nat_of_char)
  then have "char_of ((of_char c :: int) + 32) = (char_of (code_point c + 32) :: char)" by (simp only: char_of_int)
  then show ?thesis by (simp add: py_lower_char_def Let_def code_point_le_numeral)
qed

definition py_lower :: "string \<Rightarrow> string" where
  "py_lower s = map py_lower_char s"

definition py_isspace :: "char \<Rightarrow> bool" where
  "py_isspace c =
     (let n = code_point c in (9 \<le> n \<and> n \<le> 13) \<or> (28 \<le> n \<and> n \<le> 32) \<or> n = 133 \<or> n = 160)"

lemma py_isspace_code [code]:
  "py_isspace c =
     (let n = (of_char c :: int) in (9 \<le> n \<and> n \<le> 13) \<or> (28 \<le> n \<and> n \<le> 32) \<or> n = 133 \<or> n = 160)"
  by (simp add: py_isspace_def Let_def code_point_le_numeral)

definition py_strip_by :: "(char \<Rightarrow> bool) \<Rightarrow> string \<Rightarrow> string" where
  "py_strip_by p s = rev (dropWhile p (rev (dropWhile p s)))"

definition py_strip :: "string \<Rightarrow> string" where
  "py_strip = py_strip_by py_isspace"

text \<open>\<open>str.isascii\<close> and \<open>str.isdigit\<close>; the superscript digits are digits for Python.\<close>

definition py_isascii :: "string \<Rightarrow> bool" where
  "py_isascii s = list_all (\<lambda>c. code_point c < 128) s"

definition py_isdigit_char :: "char \<Rightarrow> bool" where
  "py_isdigit_char c =
     (let n = code_point c in (48 \<le> n \<and> n \<le> 57) \<or> n = 178 \<or> n = 179 \<or> n = 185)"

definition py_isdigit :: "string \<Rightarrow> bool" where
  "py_isdigit s = (s \<noteq> [] \<and> list_all py_isdigit_char s)"

definition py_startswith :: "string \<Rightarrow> string \<Rightarrow> bool" where
  "py_startswith s p = (take (length p) s = p)"

definition py_endswith :: "string \<Rightarrow> string \<Rightarrow> bool" where
  "py_endswith s p = (length p \<le> length s \<and> drop (length s - length p) s = p)"

definition py_removeprefix :: "string \<Rightarrow> string \<Rightarrow> string" where
  "py_removeprefix s p = (if py_startswith s p then drop (length p) s else s)"

text \<open>\<open>p in s\<close> for strings.\<close>

fun py_contains :: "string \<Rightarrow> string \<Rightarrow> bool" where
  "py_contains [] p = (p = [])"
| "py_contains (c # s) p = (py_startswith (c # s) p \<or> py_contains s p)"

text \<open>\<open>s.split(c)\<close> for a single separator character: never the empty list.\<close>

fun py_split :: "char \<Rightarrow> string \<Rightarrow> string list" where
  "py_split d [] = [[]]"
| "py_split d (c # s) =
     (if c = d then [] # py_split d s
      else case py_split d s of [] \<Rightarrow> [[c]] | w # ws \<Rightarrow> (c # w) # ws)"

text \<open>\<open>sep.join(xs)\<close>.\<close>

fun py_join :: "string \<Rightarrow> string list \<Rightarrow> string" where
  "py_join sep [] = []"
| "py_join sep [x] = x"
| "py_join sep (x # y # xs) = x @ sep @ py_join sep (y # xs)"

text \<open>\<open>s.split(c, 1)\<close> as a pair: the part before the first \<open>c\<close> and, if there is one, the rest.\<close>

fun py_cut :: "char \<Rightarrow> string \<Rightarrow> string \<times> string option" where
  "py_cut d [] = ([], None)"
| "py_cut d (c # s) =
     (if c = d then ([], Some s) else case py_cut d s of (a, b) \<Rightarrow> (c # a, b))"

text \<open>\<open>str(n)\<close> of a natural number.\<close>

fun py_str_nat :: "nat \<Rightarrow> string" where
  "py_str_nat n =
     (if n < 10 then [char_of (n + 48)] else py_str_nat (n div 10) @ [char_of (n mod 10 + 48)])"

definition py_str_int :: "int \<Rightarrow> string" where
  "py_str_int i = (if i < 0 then CHR ''-'' # py_str_nat (nat (- i)) else py_str_nat (nat i))"

declare py_str_nat.simps [simp del]

text \<open>SQL \<open>LIKE\<close>: percent matches any text, underscore one character, backslash escapes.\<close>

fun sql_like :: "string \<Rightarrow> string \<Rightarrow> bool" where
  "sql_like [] t = (t = [])"
| "sql_like (p # ps) [] = (p = CHR ''%'' \<and> sql_like ps [])"
| "sql_like (p # ps) (c # t) =
     (if p = CHR ''%'' then sql_like ps (c # t) \<or> sql_like (p # ps) t
      else if p = CHR ''_'' then sql_like ps t
      else if p = CHR 0x5C \<and> ps \<noteq> [] then hd ps = c \<and> sql_like (tl ps) t
      else p = c \<and> sql_like ps t)"

lemma sql_like_percent [simp]: "sql_like ''%'' t"
  by (induction t) auto

lemma sql_like_prefix: "\<forall>c \<in> set p. c \<notin> {CHR ''%'', CHR ''_'', CHR 0x5C} \<Longrightarrow> sql_like (p @ ''%'') t = py_startswith t p"
proof (induction p arbitrary: t)
  case Nil
  then show ?case by (simp add: py_startswith_def)
next
  case (Cons a p)
  then show ?case by (cases t) (auto simp: py_startswith_def)
qed

text \<open>\<open>s.split()\<close> and \<open>" ".join(s.split())\<close>.\<close>

fun py_words_acc :: "string \<Rightarrow> string \<Rightarrow> string list" where
  "py_words_acc w [] = (if w = [] then [] else [w])"
| "py_words_acc w (c # s) =
     (if py_isspace c then (if w = [] then py_words_acc [] s else w # py_words_acc [] s)
      else py_words_acc (w @ [c]) s)"

definition squeeze :: "string \<Rightarrow> string" where
  "squeeze s = py_join '' '' (py_words_acc [] s)"

lemma set_py_join_space: "set (py_join '' '' ws) \<subseteq> insert (CHR '' '') (\<Union> (set ` set ws))"
  by (induction "'' ''" ws rule: py_join.induct) auto

lemma words_subset: "w \<in> set (py_words_acc a s) \<Longrightarrow> set w \<subseteq> set a \<union> set s"
proof (induction s arbitrary: a)
  case Nil
  then show ?case by (simp split: if_splits)
next
  case (Cons c s)
  then have "w = a \<or> (\<exists>b. w \<in> set (py_words_acc b s) \<and> set b \<subseteq> insert c (set a))"
    by (auto split: if_splits)
  then show ?case
  proof (elim disjE exE conjE)
    fix b assume "w \<in> set (py_words_acc b s)" "set b \<subseteq> insert c (set a)"
    then show ?thesis using Cons.IH [of b] by auto
  qed auto
qed

lemma squeeze_subset: "set (squeeze s) \<subseteq> insert (CHR '' '') (set s)"
  using set_py_join_space [of "py_words_acc [] s"] words_subset [of _ "[]" s] unfolding squeeze_def by fastforce

text \<open>A dictionary in insertion order: assigning to a key that is there keeps its place.\<close>

fun dict_put :: "'k \<Rightarrow> 'v \<Rightarrow> ('k \<times> 'v) list \<Rightarrow> ('k \<times> 'v) list" where
  "dict_put k v [] = [(k, v)]"
| "dict_put k v ((k1, v1) # d) = (if k1 = k then (k, v) # d else (k1, v1) # dict_put k v d)"

definition dict_of :: "('k \<times> 'v) list \<Rightarrow> ('k \<times> 'v) list" where
  "dict_of kvs = foldl (\<lambda>d (k, v). dict_put k v d) [] kvs"

lemma map_of_dict_put: "map_of (dict_put k v d) = (map_of d)(k \<mapsto> v)"
  by (induction d) auto

lemma map_of_dict_of: "map_of (dict_of kvs) = map_of (rev kvs)"
proof -
  have "map_of (foldl (\<lambda>d (k, v). dict_put k v d) acc kvs) = map_of (rev kvs @ acc)" for acc
  proof (induction kvs arbitrary: acc)
    case (Cons kv kvs)
    obtain k v where "kv = (k, v)" by (cases kv)
    with Cons.IH [of "dict_put k v acc"] show ?case by (simp add: map_of_dict_put)
  qed simp
  from this [of "[]"] show ?thesis by (simp add: dict_of_def)
qed

text \<open>JSON values; \<open>JDec m e\<close> is the number m / 10 ^ e written with a fraction.\<close>

datatype json =
  JNull
| JBool bool
| JInt int
| JDec int nat
| JStr string
| JList "json list"
| JObj "(string \<times> json) list"

definition j_opt_str :: "string option \<Rightarrow> json" where
  "j_opt_str v = (case v of None \<Rightarrow> JNull | Some s \<Rightarrow> JStr s)"

lemmas py_string_defs [py_simps] =
  code_point_def py_lower_char_def py_lower_def py_isspace_def py_strip_by_def py_strip_def
  py_isascii_def py_isdigit_char_def py_isdigit_def py_startswith_def py_endswith_def
  py_removeprefix_def

lemma py_split_nonempty [simp]: "py_split d s \<noteq> []"
  by (cases s) (auto split: list.splits)

lemma py_join_Cons: "xs \<noteq> [] \<Longrightarrow> py_join sep (x # xs) = x @ sep @ py_join sep xs"
  by (cases xs) auto

lemma py_join_Cons_char: "py_join sep ((c # w) # ws) = c # py_join sep (w # ws)"
  by (cases ws) auto

lemma py_join_split [simp]: "py_join [d] (py_split d s) = s"
proof (induction s)
  case Nil
  then show ?case by simp
next
  case (Cons c s)
  obtain w ws where "py_split d s = w # ws"
    by (cases "py_split d s") auto
  with Cons show ?case
    by (simp add: py_join_Cons py_join_Cons_char)
qed

lemma length_py_lower [simp]: "length (py_lower s) = length s"
  by (simp add: py_lower_def)

lemma py_lower_append [simp]: "py_lower (s @ t) = py_lower s @ py_lower t"
  by (simp add: py_lower_def)

lemma code_point_less [simp]: "code_point c < 256"
  by (simp add: code_point_def)

lemma code_point_char_of: "n < 256 \<Longrightarrow> code_point (char_of n) = n"
  by (simp add: code_point_def)

lemma py_lower_char_idem [simp]: "py_lower_char (py_lower_char c) = py_lower_char c"
  using code_point_less [of c] by (auto simp: py_lower_char_def Let_def code_point_char_of)

lemma py_lower_idem [simp]: "py_lower (py_lower s) = py_lower s"
  by (simp add: py_lower_def)

lemma py_startswith_append [simp]: "py_startswith (p @ s) p"
  by (simp add: py_startswith_def)

lemma py_endswith_append [simp]: "py_endswith (s @ p) p"
  by (simp add: py_endswith_def)

section \<open>Tables\<close>

text \<open>
  A table: its rows in primary-key order and the next value of its key sequence. A row is
  inserted with the next key; \<open>insert_row\<close> returns that key as \<open>c.id\<close> after the commit.
\<close>

record 'r table =
  rows :: "'r list"
  next_id :: nat

definition insert_row :: "(nat \<Rightarrow> 'r) \<Rightarrow> 'r table \<Rightarrow> 'r table \<times> nat" where
  "insert_row mk t = (t\<lparr>rows := rows t @ [mk (next_id t)], next_id := Suc (next_id t)\<rparr>, next_id t)"

text \<open>\<open>session.add_all\<close> and \<open>bulk_insert_mappings\<close>.\<close>

definition insert_all :: "('a \<Rightarrow> nat \<Rightarrow> 'r) \<Rightarrow> 'a list \<Rightarrow> 'r table \<Rightarrow> 'r table" where
  "insert_all mk xs t = foldl (\<lambda>t x. fst (insert_row (mk x) t)) t xs"

definition first_where :: "('r \<Rightarrow> bool) \<Rightarrow> 'r table \<Rightarrow> 'r option" where
  "first_where p t = List.find p (rows t)"

definition select_where :: "('r \<Rightarrow> bool) \<Rightarrow> 'r table \<Rightarrow> 'r list" where
  "select_where p t = filter p (rows t)"

definition count_where :: "('r \<Rightarrow> bool) \<Rightarrow> 'r table \<Rightarrow> nat" where
  "count_where p t = length (filter p (rows t))"

definition update_where :: "('r \<Rightarrow> bool) \<Rightarrow> ('r \<Rightarrow> 'r) \<Rightarrow> 'r table \<Rightarrow> 'r table" where
  "update_where p f t = t\<lparr>rows := map (\<lambda>r. if p r then f r else r) (rows t)\<rparr>"

definition delete_where :: "('r \<Rightarrow> bool) \<Rightarrow> 'r table \<Rightarrow> 'r table" where
  "delete_where p t = t\<lparr>rows := filter (\<lambda>r. \<not> p r) (rows t)\<rparr>"

lemma snd_insert_row [simp]: "snd (insert_row mk t) = next_id t"
  by (simp add: insert_row_def)

lemma rows_insert_row [table_simps]: "rows (fst (insert_row mk t)) = rows t @ [mk (next_id t)]"
  by (simp add: insert_row_def)

lemma next_id_insert_row [table_simps]: "next_id (fst (insert_row mk t)) = Suc (next_id t)"
  by (simp add: insert_row_def)

lemma insert_all_Cons [table_simps]: "insert_all mk (x # xs) t = insert_all mk xs (fst (insert_row (mk x) t))"
  by (simp add: insert_all_def)

lemma insert_all_Nil [table_simps]: "insert_all mk [] t = t"
  by (simp add: insert_all_def)

lemma rows_insert_all [table_simps]:
  "rows (insert_all mk xs t) = rows t @ map (\<lambda>(i, x). mk x i) (enumerate (next_id t) xs)"
  by (induction xs arbitrary: t) (simp_all add: insert_all_Nil insert_all_Cons rows_insert_row next_id_insert_row)

lemma next_id_insert_all [table_simps]: "next_id (insert_all mk xs t) = next_id t + length xs"
  by (induction xs arbitrary: t) (simp_all add: insert_all_Nil insert_all_Cons next_id_insert_row)

lemma rows_update_where [table_simps]:
  "rows (update_where p f t) = map (\<lambda>r. if p r then f r else r) (rows t)"
  by (simp add: update_where_def)

lemma rows_delete_where [table_simps]: "rows (delete_where p t) = filter (\<lambda>r. \<not> p r) (rows t)"
  by (simp add: delete_where_def)

lemma next_id_update_where [table_simps]: "next_id (update_where p f t) = next_id t"
  by (simp add: update_where_def)

lemma next_id_delete_where [table_simps]: "next_id (delete_where p t) = next_id t"
  by (simp add: delete_where_def)

lemma first_where_SomeD: "first_where p t = Some r \<Longrightarrow> r \<in> set (rows t) \<and> p r"
  by (auto simp: first_where_def find_Some_iff)

lemma first_where_None_iff: "first_where p t = None \<longleftrightarrow> (\<forall>r \<in> set (rows t). \<not> p r)"
  by (auto simp: first_where_def find_None_iff)

lemma count_where_pos_iff: "0 < count_where p t \<longleftrightarrow> (\<exists>r \<in> set (rows t). p r)"
  by (auto simp: count_where_def filter_empty_conv)

lemma count_where_zero_iff: "count_where p t = 0 \<longleftrightarrow> (\<forall>r \<in> set (rows t). \<not> p r)"
  by (auto simp: count_where_def filter_empty_conv)

lemma set_update_where:
  "set (rows (update_where p f t)) = (\<lambda>r. if p r then f r else r) ` set (rows t)"
  by (simp add: update_where_def)

lemma bex_update_where:
  "(\<exists>r \<in> set (rows (update_where p f t)). P r) \<longleftrightarrow> (\<exists>r \<in> set (rows t). P (if p r then f r else r))"
  by (auto simp: set_update_where)

lemma ball_update_where:
  "(\<forall>r \<in> set (rows (update_where p f t)). P r) \<longleftrightarrow> (\<forall>r \<in> set (rows t). P (if p r then f r else r))"
  by (auto simp: set_update_where)

text \<open>
  Reading a row by key after a bulk update that leaves the key alone, after an insert with
  another key and after a delete that spares the row.
\<close>

lemma first_where_update_where:
  assumes "\<And>r. q (f r) = q r"
  shows "first_where q (update_where p f t) = map_option (\<lambda>r. if p r then f r else r) (first_where q t)"
proof -
  have "List.find q (map (\<lambda>r. if p r then f r else r) xs) =
        map_option (\<lambda>r. if p r then f r else r) (List.find q xs)" for xs
    by (induction xs) (auto simp: assms)
  then show ?thesis
    by (simp add: first_where_def table_simps)
qed

lemma first_where_insert_row:
  "first_where q (fst (insert_row mk t)) =
     (case first_where q t of Some r \<Rightarrow> Some r
      | None \<Rightarrow> if q (mk (next_id t)) then Some (mk (next_id t)) else None)"
proof -
  have "List.find q (xs @ [y]) =
        (case List.find q xs of Some r \<Rightarrow> Some r | None \<Rightarrow> if q y then Some y else None)" for xs y
    by (induction xs) auto
  then show ?thesis
    by (simp add: first_where_def insert_row_def)
qed

lemma first_where_delete_where:
  assumes "first_where q t = Some r" "\<not> p r"
  shows "first_where q (delete_where p t) = Some r"
proof -
  have "List.find q xs = Some r \<Longrightarrow> List.find q (filter (\<lambda>r. \<not> p r) xs) = Some r" for xs
    using assms(2) by (induction xs) (auto split: if_splits)
  with assms(1) show ?thesis
    by (simp add: first_where_def table_simps)
qed

text \<open>
  The primary-key discipline, as a locale over the key column: keys are distinct and below
  the sequence. Each table of the model interprets it with its own key column; the
  \<open>assumes\<close> is what an insert of that table promises.
\<close>

locale keyed_rows =
  fixes row_key :: "'r \<Rightarrow> nat"
    and mk_row :: "'a \<Rightarrow> nat \<Rightarrow> 'r"
  assumes key_of_new: "row_key (mk_row a i) = i"
begin

definition keys_ok :: "'r table \<Rightarrow> bool" where
  "keys_ok t = (distinct (map row_key (rows t)) \<and> (\<forall>r \<in> set (rows t). row_key r < next_id t))"

lemma keys_ok_insert: "keys_ok t \<Longrightarrow> keys_ok (fst (insert_row (mk_row a) t))"
  by (auto simp: keys_ok_def insert_row_def key_of_new less_Suc_eq)

lemma keys_ok_update:
  assumes "keys_ok t" "\<And>r. row_key (f r) = row_key r"
  shows "keys_ok (update_where p f t)"
proof -
  have "row_key \<circ> (\<lambda>r. if p r then f r else r) = row_key"
    using assms(2) by auto
  then show ?thesis
    using assms by (auto simp: keys_ok_def table_simps)
qed

lemma keys_ok_delete: "keys_ok t \<Longrightarrow> keys_ok (delete_where p t)"
  by (auto simp: keys_ok_def table_simps distinct_map inj_on_def)

lemma keys_ok_unique:
  "keys_ok t \<Longrightarrow> r \<in> set (rows t) \<Longrightarrow> r' \<in> set (rows t) \<Longrightarrow> row_key r = row_key r' \<Longrightarrow> r = r'"
  by (auto simp: keys_ok_def distinct_map inj_on_def)

lemma keys_ok_fresh: "keys_ok t \<Longrightarrow> r \<in> set (rows t) \<Longrightarrow> row_key r \<noteq> snd (insert_row (mk_row a) t)"
  by (auto simp: keys_ok_def insert_row_def)

lemma first_by_key:
  assumes "keys_ok t" "r \<in> set (rows t)"
  shows "first_where (\<lambda>x. row_key x = row_key r) t = Some r"
proof (cases "first_where (\<lambda>x. row_key x = row_key r) t")
  case None
  with assms(2) show ?thesis by (auto simp: first_where_None_iff)
next
  case (Some x)
  with first_where_SomeD [OF Some] assms show ?thesis
    by (auto dest: keys_ok_unique)
qed

end

section \<open>Time and exceptions\<close>

text \<open>
  A \<open>datetime\<close> or \<open>timedelta\<close> counts microseconds, the resolution of both types; the clock
  is an argument of every operation that reads it. \<open>py_exn\<close> lists the exceptions the modelled
  code raises or lets escape, carried by the left side of a sum.
\<close>

type_synonym datetime = int

definition seconds :: "int \<Rightarrow> int" where
  "seconds n = n * 1000000"

definition day_start :: "datetime \<Rightarrow> datetime" where
  "day_start now = now - now mod seconds 86400"

lemma day_start_le: "day_start now \<le> now" "now < day_start now + seconds 86400"
  by (simp_all add: day_start_def seconds_def)

lemma day_start_idem [simp]: "day_start (day_start now) = day_start now"
  by (simp add: day_start_def mod_diff_eq [symmetric])

datatype py_exn = IntegrityError | ValueError | KeyError | TypeError | PermissionError | AttributeError | CsvError | OSError | OperationalError

end
