(* ===== verification/Shared.thy ===== *)
theory Shared
  imports Prelude
begin

text \<open>
  The \<open>shared/\<close> tier: the enums of \<open>shared/enums.py\<close> with their stored values, the
  permission catalog and built-in roles of \<open>shared/permissions.py\<close>, the lead score of
  \<open>shared/scoring.py\<close>, \<open>strip_www\<close> of \<open>shared/urls.py\<close> and the validation-error
  flattening of \<open>shared/errors.py\<close>.
\<close>

section \<open>Enums\<close>

datatype campaign_status = C_RUNNING | C_PAUSED | C_CANCELLED | C_COMPLETED

fun campaign_status_value :: "campaign_status \<Rightarrow> string" where
  "campaign_status_value C_RUNNING = ''RUNNING''"
| "campaign_status_value C_PAUSED = ''PAUSED''"
| "campaign_status_value C_CANCELLED = ''CANCELLED''"
| "campaign_status_value C_COMPLETED = ''COMPLETED''"

datatype campaign_kind = K_PRODUCTION | K_TEST

fun campaign_kind_value :: "campaign_kind \<Rightarrow> string" where
  "campaign_kind_value K_PRODUCTION = ''production''"
| "campaign_kind_value K_TEST = ''test''"

datatype email_status = E_DRAFT | E_QUEUED | E_SENDING | E_SENT | E_FAILED

fun email_status_value :: "email_status \<Rightarrow> string" where
  "email_status_value E_DRAFT = ''DRAFT''"
| "email_status_value E_QUEUED = ''QUEUED''"
| "email_status_value E_SENDING = ''SENDING''"
| "email_status_value E_SENT = ''SENT''"
| "email_status_value E_FAILED = ''FAILED''"

datatype job_status =
  J_PENDING | J_RUNNING | J_DONE | J_FAILED | J_CANCELLED | J_INTERRUPTED | J_MANUAL_UPLOAD

fun job_status_value :: "job_status \<Rightarrow> string" where
  "job_status_value J_PENDING = ''pending''"
| "job_status_value J_RUNNING = ''running''"
| "job_status_value J_DONE = ''done''"
| "job_status_value J_FAILED = ''failed''"
| "job_status_value J_CANCELLED = ''cancelled''"
| "job_status_value J_INTERRUPTED = ''interrupted''"
| "job_status_value J_MANUAL_UPLOAD = ''manual_upload''"

text \<open>Constructing an enum from a value, as \<open>CampaignStatus(s)\<close>: \<open>None\<close> is the \<open>ValueError\<close>.\<close>

definition campaign_status_of :: "string \<Rightarrow> campaign_status option" where
  "campaign_status_of s =
     List.find (\<lambda>v. campaign_status_value v = s) [C_RUNNING, C_PAUSED, C_CANCELLED, C_COMPLETED]"

definition email_status_of :: "string \<Rightarrow> email_status option" where
  "email_status_of s =
     List.find (\<lambda>v. email_status_value v = s) [E_DRAFT, E_QUEUED, E_SENDING, E_SENT, E_FAILED]"

lemma campaign_status_of_value [simp]: "campaign_status_of (campaign_status_value v) = Some v"
  by (cases v) (simp_all add: campaign_status_of_def)

lemma email_status_of_value [simp]: "email_status_of (email_status_value v) = Some v"
  by (cases v) (simp_all add: email_status_of_def)

lemma campaign_status_of_SomeD: "campaign_status_of s = Some v \<Longrightarrow> s = campaign_status_value v"
  by (auto simp: campaign_status_of_def split: if_splits)

section \<open>Permissions\<close>

definition PERMISSIONS :: "string list" where
  "PERMISSIONS =
     [''users.manage'', ''roles.manage'', ''audit.view'', ''settings.manage'', ''domains.view'',
      ''domains.import'', ''crawl.run'', ''crawl.cancel_all'', ''jobs.view_all'', ''leads.view'',
      ''leads.edit'', ''leads.export'', ''leads.import'', ''campaigns.manage'',
      ''campaigns.dispatch'', ''campaigns.view_all'', ''templates.manage'',
      ''credentials.manage'', ''blacklist.manage'']"

definition ROLE_DEFAULTS :: "(string \<times> string list) list" where
  "ROLE_DEFAULTS =
     [(''Admin'', PERMISSIONS),
      (''Operator'',
       [''domains.view'', ''domains.import'', ''crawl.run'', ''leads.view'', ''leads.edit'',
        ''leads.export'', ''leads.import'', ''campaigns.manage'', ''campaigns.dispatch'',
        ''templates.manage'', ''credentials.manage'', ''blacklist.manage'']),
      (''Viewer'', [''domains.view'', ''leads.view''])]"

definition BUILTIN_ROLES :: "string list" where
  "BUILTIN_ROLES = map fst ROLE_DEFAULTS"

lemma role_defaults_in_catalog:
  "\<forall>(r, ps) \<in> set ROLE_DEFAULTS. set ps \<subseteq> set PERMISSIONS"
  by (auto simp: ROLE_DEFAULTS_def PERMISSIONS_def)

lemma distinct_PERMISSIONS: "distinct PERMISSIONS"
  by (simp add: PERMISSIONS_def)

section \<open>Lead scoring\<close>

record weights =
  w_email_high :: int
  w_email_low :: int
  w_person_name :: int
  w_designation :: int
  w_phone :: int

definition DEFAULT_WEIGHTS :: weights where
  "DEFAULT_WEIGHTS =
     \<lparr>w_email_high = 20, w_email_low = 10, w_person_name = 40, w_designation = 30, w_phone = 10\<rparr>"

text \<open>The fields the score reads, each \<open>None\<close> when the key is missing or null.\<close>

record score_fields =
  sf_email :: "string option"
  sf_phone :: "string option"
  sf_person_name :: "string option"
  sf_designation :: "string option"

text \<open>\<open>str(fields.get(k) or "").strip()\<close> is true.\<close>

definition field_present :: "string option \<Rightarrow> bool" where
  "field_present v = (case v of None \<Rightarrow> False | Some s \<Rightarrow> py_strip s \<noteq> [])"

definition compute_lead_score ::
  "score_fields \<Rightarrow> string option \<Rightarrow> string option \<Rightarrow> weights \<Rightarrow> int" where
  "compute_lead_score f band channel w =
     (if channel = Some ''manual'' then 0
      else (if field_present (sf_email f)
            then (if band = Some ''HIGH'' then w_email_high w else w_email_low w) else 0)
         + (if field_present (sf_person_name f) then w_person_name w else 0)
         + (if field_present (sf_designation f) then w_designation w else 0)
         + (if field_present (sf_phone f) then w_phone w else 0))"

lemma field_present_None [simp]: "\<not> field_present None"
  by (simp add: field_present_def)

lemma compute_lead_score_manual [simp]: "compute_lead_score f b (Some ''manual'') w = 0"
  by (simp add: compute_lead_score_def)

lemma compute_lead_score_default_bounds:
  "0 \<le> compute_lead_score f b c DEFAULT_WEIGHTS \<and> compute_lead_score f b c DEFAULT_WEIGHTS \<le> 100"
  by (simp add: compute_lead_score_def DEFAULT_WEIGHTS_def)

section \<open>URL and error helpers\<close>

definition strip_www :: "string \<Rightarrow> string" where
  "strip_www netloc = py_removeprefix netloc ''www.''"

text \<open>One entry of \<open>exc.errors()\<close>: its location path and its message (\<open>None\<close> when absent).\<close>

record validation_error =
  ve_loc :: "string list"
  ve_msg :: "string option"

definition validation_field :: "string list \<Rightarrow> string" where
  "validation_field loc =
     (let f = py_join ''.'' (drop 1 loc); g = py_join ''.'' loc
      in if f \<noteq> [] then f else if g \<noteq> [] then g else ''value'')"

definition format_validation_errors :: "validation_error list \<Rightarrow> string" where
  "format_validation_errors errs =
     (let parts = map (\<lambda>e. validation_field (ve_loc e) @ '': '' @
                         (case ve_msg e of None \<Rightarrow> ''invalid value'' | Some m \<Rightarrow> m)) errs
      in if parts \<noteq> [] then py_join ''; '' parts else ''Invalid request.'')"

lemma format_validation_errors_nonempty: "format_validation_errors errs \<noteq> []"
proof (cases errs)
  case Nil
  then show ?thesis by (simp add: format_validation_errors_def)
next
  case (Cons e es)
  then show ?thesis by (cases es) (simp_all add: format_validation_errors_def Let_def)
qed

end
