(* ===== verification/Outreach.thy ===== *)
theory Outreach
  imports Shared
begin

text \<open>
  The outreach tables of \<open>cloud/db/tables/outreach.py\<close> and the template, blacklist, campaign
  and campaign-email operations of \<open>OutreachMixin\<close> (\<open>cloud/db/mixins/outreach_mixin.py\<close>).
  Each operation is one database session: it takes the tables and returns them updated with its
  result. A commit that breaks a unique or foreign-key constraint is the left side of a sum and
  leaves the caller with the old tables. The lemma groups state the life cycle of an email:
  which statuses each operation may move and what it leaves alone.
\<close>

section \<open>Tables\<close>

record campaign =
  cp_id :: nat
  cp_name :: string
  cp_template_id :: "nat option"
  cp_kind :: string
  cp_test_credential_id :: "nat option"
  cp_status :: campaign_status
  cp_owner_id :: "nat option"
  cp_created_at :: datetime
  cp_pause_reason :: "string option"

record email_template =
  tp_id :: nat
  tp_name :: string
  tp_subject :: string
  tp_raw_body :: string

record smtp_credential =
  cr_id :: nat
  cr_host :: string
  cr_port :: int
  cr_username :: string
  cr_password_encrypted :: "string option"
  cr_is_active :: bool
  cr_cooldown_until :: "datetime option"
  cr_daily_send_limit :: "int option"
  cr_provider :: string
  cr_refresh_token_encrypted :: "string option"
  cr_access_token_encrypted :: "string option"
  cr_token_expires_at :: "datetime option"

record oauth_flow =
  of_id :: nat
  of_state :: string
  of_credential_id :: nat
  of_provider :: string
  of_code_verifier :: string
  of_created_at :: datetime

record campaign_credential =
  cc_id :: nat
  cc_campaign_id :: nat
  cc_credential_id :: nat

record campaign_email =
  em_id :: nat
  em_campaign_id :: nat
  em_lead_id :: "nat option"
  em_recipient_email :: string
  em_subject :: string
  em_body :: string
  em_status :: email_status
  em_is_selected :: bool
  em_missing_fields :: "string option"
  em_error_message :: "string option"
  em_sent_at :: "datetime option"
  em_sending_since :: "datetime option"
  em_credential_id :: "nat option"

record blacklist_row =
  bl_id :: nat
  bl_email :: string
  bl_domain :: string
  bl_reason :: "string option"

record outreach_db =
  templates :: "email_template table"
  blacklist :: "blacklist_row table"
  campaigns :: "campaign table"
  campaign_credentials :: "campaign_credential table"
  emails :: "campaign_email table"
  credentials :: "smtp_credential table"
  oauth_flows :: "oauth_flow table"

text \<open>The tables of a fresh installation.\<close>

definition empty_table :: "'r table" where
  "empty_table = \<lparr>rows = [], next_id = 1\<rparr>"

definition empty_outreach :: outreach_db where
  "empty_outreach =
     \<lparr>templates = empty_table, blacklist = empty_table, campaigns = empty_table,
      campaign_credentials = empty_table, emails = empty_table, credentials = empty_table,
      oauth_flows = empty_table\<rparr>"

section \<open>Templates\<close>

definition mk_template :: "string \<times> string \<times> string \<Rightarrow> nat \<Rightarrow> email_template" where
  "mk_template a i =
     \<lparr>tp_id = i, tp_name = fst a, tp_subject = fst (snd a), tp_raw_body = snd (snd a)\<rparr>"

definition create_template ::
  "string \<Rightarrow> string \<Rightarrow> string \<Rightarrow> outreach_db \<Rightarrow> outreach_db \<times> nat" where
  "create_template name subject raw_body db =
     (let (t, i) = insert_row (mk_template (name, subject, raw_body)) (templates db)
      in (db\<lparr>templates := t\<rparr>, i))"

definition get_template :: "nat \<Rightarrow> outreach_db \<Rightarrow> email_template option" where
  "get_template template_id db = first_where (\<lambda>t. tp_id t = template_id) (templates db)"

definition list_templates :: "outreach_db \<Rightarrow> email_template list" where
  "list_templates db = rev (sort_key tp_id (rows (templates db)))"

text \<open>
  The update writes the arguments that are not \<open>None\<close>; both callers refuse a call without any.
\<close>

definition update_template ::
  "nat \<Rightarrow> string option \<Rightarrow> string option \<Rightarrow> string option \<Rightarrow> outreach_db \<Rightarrow> outreach_db \<times> bool" where
  "update_template template_id name subject raw_body db =
     (let hit = (\<lambda>t. tp_id t = template_id);
          f = (\<lambda>t. t\<lparr>tp_name := the_default (tp_name t) name,
                     tp_subject := the_default (tp_subject t) subject,
                     tp_raw_body := the_default (tp_raw_body t) raw_body\<rparr>)
      in (db\<lparr>templates := update_where hit f (templates db)\<rparr>, 0 < count_where hit (templates db)))"

definition delete_template :: "nat \<Rightarrow> outreach_db \<Rightarrow> py_exn + outreach_db \<times> bool" where
  "delete_template template_id db =
     (let hit = (\<lambda>t. tp_id t = template_id) in
      if 0 < count_where hit (templates db) \<and>
         0 < count_where (\<lambda>c. cp_template_id c = Some template_id) (campaigns db)
      then Inl IntegrityError
      else Inr (db\<lparr>templates := delete_where hit (templates db)\<rparr>,
                0 < count_where hit (templates db)))"

section \<open>Blacklist\<close>

definition mk_blacklist :: "string \<times> string \<times> string option \<Rightarrow> nat \<Rightarrow> blacklist_row" where
  "mk_blacklist a i =
     \<lparr>bl_id = i, bl_email = fst a, bl_domain = fst (snd a), bl_reason = snd (snd a)\<rparr>"

text \<open>A duplicate email breaks the unique constraint; the handler rolls back and returns False.\<close>

definition add_to_blacklist ::
  "string \<Rightarrow> string \<Rightarrow> string option \<Rightarrow> outreach_db \<Rightarrow> outreach_db \<times> bool" where
  "add_to_blacklist email domain reason db =
     (if 0 < count_where (\<lambda>b. bl_email b = py_lower email) (blacklist db) then (db, False)
      else (let (t, i) = insert_row (mk_blacklist (py_lower email, py_lower domain, reason)) (blacklist db)
            in (db\<lparr>blacklist := t\<rparr>, True)))"

definition remove_from_blacklist :: "nat \<Rightarrow> outreach_db \<Rightarrow> outreach_db \<times> bool" where
  "remove_from_blacklist blacklist_id db =
     (let hit = (\<lambda>b. bl_id b = blacklist_id)
      in (db\<lparr>blacklist := delete_where hit (blacklist db)\<rparr>, 0 < count_where hit (blacklist db)))"

definition list_blacklist :: "nat \<Rightarrow> nat \<Rightarrow> outreach_db \<Rightarrow> blacklist_row list \<times> nat" where
  "list_blacklist page limit db =
     (page_slice page limit (rev (sort_key bl_id (rows (blacklist db)))), length (rows (blacklist db)))"

definition get_blacklisted_emails_set :: "outreach_db \<Rightarrow> string set" where
  "get_blacklisted_emails_set db = set (map bl_email (rows (blacklist db)))"

definition get_blacklisted_domains_set :: "outreach_db \<Rightarrow> string set" where
  "get_blacklisted_domains_set db = set (map bl_domain (rows (blacklist db)))"

section \<open>Campaigns\<close>

record new_campaign =
  nc_name :: string
  nc_template_id :: nat
  nc_kind :: string
  nc_test_credential_id :: "nat option"
  nc_status :: campaign_status
  nc_owner_id :: "nat option"

definition mk_campaign :: "new_campaign \<times> datetime \<Rightarrow> nat \<Rightarrow> campaign" where
  "mk_campaign a i =
     \<lparr>cp_id = i, cp_name = nc_name (fst a), cp_template_id = Some (nc_template_id (fst a)),
      cp_kind = nc_kind (fst a), cp_test_credential_id = nc_test_credential_id (fst a),
      cp_status = nc_status (fst a), cp_owner_id = nc_owner_id (fst a), cp_created_at = snd a,
      cp_pause_reason = None\<rparr>"

text \<open>The commit fails when the template or the test credential does not exist.\<close>

definition create_campaign ::
  "datetime \<Rightarrow> string \<Rightarrow> nat \<Rightarrow> string \<Rightarrow> nat option \<Rightarrow> campaign_status option \<Rightarrow> nat option \<Rightarrow>
   outreach_db \<Rightarrow> py_exn + outreach_db \<times> nat" where
  "create_campaign now name template_id kind test_credential_id status owner_id db =
     (let c = \<lparr>nc_name = name, nc_template_id = template_id, nc_kind = kind,
               nc_test_credential_id = test_credential_id,
               nc_status = the_default C_RUNNING status, nc_owner_id = owner_id\<rparr>
      in if count_where (\<lambda>t. tp_id t = template_id) (templates db) = 0 \<or>
            (case test_credential_id of None \<Rightarrow> False
             | Some k \<Rightarrow> count_where (\<lambda>r. cr_id r = k) (credentials db) = 0)
         then Inl IntegrityError
         else (let (t, i) = insert_row (mk_campaign (c, now)) (campaigns db)
               in Inr (db\<lparr>campaigns := t\<rparr>, i)))"

text \<open>
  The owner filter. \<open>Campaign.owner_id == owner_id\<close> with \<open>owner_id\<close> None compiles to
  \<open>IS NULL\<close>, so it is equality of optional keys.
\<close>

definition get_campaign :: "nat \<Rightarrow> nat option \<Rightarrow> bool \<Rightarrow> outreach_db \<Rightarrow> campaign option" where
  "get_campaign campaign_id owner_id view_all db =
     first_where (\<lambda>c. cp_id c = campaign_id \<and> (view_all \<or> cp_owner_id c = owner_id)) (campaigns db)"

definition list_campaigns ::
  "nat \<Rightarrow> nat \<Rightarrow> string option \<Rightarrow> nat option \<Rightarrow> bool \<Rightarrow> outreach_db \<Rightarrow> campaign list \<times> nat" where
  "list_campaigns page limit kind owner_id view_all db =
     (let q = select_where (\<lambda>c. (truthy kind \<longrightarrow> kind = Some (cp_kind c)) \<and>
                                (view_all \<or> cp_owner_id c = owner_id)) (campaigns db)
      in (page_slice page limit (sort_key (\<lambda>c. - cp_created_at c) q), length q))"

definition update_campaign_status ::
  "nat \<Rightarrow> campaign_status \<Rightarrow> string option \<Rightarrow> outreach_db \<Rightarrow> outreach_db \<times> bool" where
  "update_campaign_status campaign_id new_status reason db =
     (let hit = (\<lambda>c. cp_id c = campaign_id);
          f = (\<lambda>c. c\<lparr>cp_status := new_status, cp_pause_reason := reason\<rparr>)
      in (db\<lparr>campaigns := update_where hit f (campaigns db)\<rparr>, 0 < count_where hit (campaigns db)))"

section \<open>Campaign credentials\<close>

definition mk_campaign_credential :: "nat \<times> nat \<Rightarrow> nat \<Rightarrow> campaign_credential" where
  "mk_campaign_credential a i =
     \<lparr>cc_id = i, cc_campaign_id = fst a, cc_credential_id = snd a\<rparr>"

fun add_campaign_credentials ::
  "nat \<Rightarrow> nat list \<Rightarrow> campaign_credential table \<Rightarrow> campaign_credential table" where
  "add_campaign_credentials campaign_id [] t = t"
| "add_campaign_credentials campaign_id (k # ks) t =
     add_campaign_credentials campaign_id ks
       (fst (insert_row (mk_campaign_credential (campaign_id, k)) t))"

definition set_campaign_credentials ::
  "nat \<Rightarrow> nat list \<Rightarrow> outreach_db \<Rightarrow> py_exn + outreach_db" where
  "set_campaign_credentials campaign_id credential_ids db =
     (let known = (\<lambda>k. 0 < count_where (\<lambda>r. cr_id r = k) (credentials db)) in
      case first_where (\<lambda>c. cp_id c = campaign_id) (campaigns db) of
        None \<Rightarrow> Inr db
      | Some c \<Rightarrow>
          if cp_kind c = campaign_kind_value K_TEST then
            (case credential_ids of
               [] \<Rightarrow> Inr (db\<lparr>campaigns := update_where (\<lambda>c. cp_id c = campaign_id)
                              (\<lambda>c. c\<lparr>cp_test_credential_id := None\<rparr>) (campaigns db)\<rparr>)
             | k # ks \<Rightarrow>
                 if known k
                 then Inr (db\<lparr>campaigns := update_where (\<lambda>c. cp_id c = campaign_id)
                              (\<lambda>c. c\<lparr>cp_test_credential_id := Some k\<rparr>) (campaigns db)\<rparr>)
                 else Inl IntegrityError)
          else if list_all known credential_ids \<and> distinct credential_ids then
            Inr (db\<lparr>campaign_credentials :=
                      add_campaign_credentials campaign_id credential_ids
                        (delete_where (\<lambda>a. cc_campaign_id a = campaign_id) (campaign_credentials db))\<rparr>)
          else Inl IntegrityError)"

definition get_campaign_credential_ids :: "nat \<Rightarrow> outreach_db \<Rightarrow> nat list" where
  "get_campaign_credential_ids campaign_id db =
     (case first_where (\<lambda>c. cp_id c = campaign_id) (campaigns db) of
        None \<Rightarrow> []
      | Some c \<Rightarrow>
          if cp_kind c = campaign_kind_value K_TEST then
            (case cp_test_credential_id c of None \<Rightarrow> [] | Some k \<Rightarrow> if k = 0 then [] else [k])
          else map cc_credential_id
                 (select_where (\<lambda>a. cc_campaign_id a = campaign_id) (campaign_credentials db)))"

section \<open>Campaign emails\<close>

record draft_email =
  de_lead_id :: "nat option"
  de_recipient_email :: string
  de_subject :: string
  de_body :: string
  de_is_selected :: bool
  de_missing_fields :: "string option"

definition mk_email :: "nat \<times> draft_email \<Rightarrow> nat \<Rightarrow> campaign_email" where
  "mk_email a i =
     \<lparr>em_id = i, em_campaign_id = fst a, em_lead_id = de_lead_id (snd a),
      em_recipient_email = de_recipient_email (snd a), em_subject = de_subject (snd a),
      em_body = de_body (snd a), em_status = E_DRAFT, em_is_selected = de_is_selected (snd a),
      em_missing_fields = de_missing_fields (snd a), em_error_message = None, em_sent_at = None,
      em_sending_since = None, em_credential_id = None\<rparr>"

definition get_campaign_recipient_emails :: "nat \<Rightarrow> outreach_db \<Rightarrow> string set" where
  "get_campaign_recipient_emails campaign_id db =
     set (map em_recipient_email (select_where (\<lambda>e. em_campaign_id e = campaign_id) (emails db)))"

fun add_emails :: "nat \<Rightarrow> draft_email list \<Rightarrow> campaign_email table \<Rightarrow> campaign_email table" where
  "add_emails campaign_id [] t = t"
| "add_emails campaign_id (e # es) t =
     add_emails campaign_id es (fst (insert_row (mk_email (campaign_id, e)) t))"

definition bulk_create_campaign_emails ::
  "nat \<Rightarrow> draft_email list \<Rightarrow> outreach_db \<Rightarrow> outreach_db \<times> nat" where
  "bulk_create_campaign_emails campaign_id es db =
     (db\<lparr>emails := add_emails campaign_id es (emails db)\<rparr>, length es)"

definition create_campaign_email ::
  "nat \<Rightarrow> string \<Rightarrow> string \<Rightarrow> string \<Rightarrow> nat option \<Rightarrow> outreach_db \<Rightarrow> outreach_db \<times> nat" where
  "create_campaign_email campaign_id recipient_email subject body lead_id db =
     (let e = \<lparr>de_lead_id = lead_id, de_recipient_email = recipient_email, de_subject = subject,
               de_body = body, de_is_selected = True, de_missing_fields = None\<rparr>;
          (t, i) = insert_row (mk_email (campaign_id, e)) (emails db)
      in (db\<lparr>emails := t\<rparr>, i))"

text \<open>\<open>EmailStatus(status)\<close> raises on an unknown value; an empty filter lists every status.\<close>

definition get_campaign_emails ::
  "nat \<Rightarrow> string option \<Rightarrow> nat \<Rightarrow> nat \<Rightarrow> outreach_db \<Rightarrow> py_exn + campaign_email list \<times> nat" where
  "get_campaign_emails campaign_id status page limit db =
     (let page_of = (\<lambda>p. let q = select_where (\<lambda>e. em_campaign_id e = campaign_id \<and> p e) (emails db)
                         in (page_slice page limit (sort_key em_id q), length q))
      in case status of
           None \<Rightarrow> Inr (page_of (\<lambda>e. True))
         | Some v \<Rightarrow>
             if v = [] then Inr (page_of (\<lambda>e. True))
             else (case email_status_of v of
                     None \<Rightarrow> Inl ValueError
                   | Some st \<Rightarrow> Inr (page_of (\<lambda>e. em_status e = st))))"

definition update_email :: "nat \<Rightarrow> string \<Rightarrow> string \<Rightarrow> outreach_db \<Rightarrow> outreach_db \<times> bool" where
  "update_email email_id new_subject new_body db =
     (let hit = (\<lambda>e. em_id e = email_id);
          f = (\<lambda>e. e\<lparr>em_subject := new_subject, em_body := new_body\<rparr>)
      in (db\<lparr>emails := update_where hit f (emails db)\<rparr>, 0 < count_where hit (emails db)))"

text \<open>
  The statistics dictionary. The key \<open>sending\<close> is not among the initial ones: it appears only
  when an email of the campaign is being sent.
\<close>

record email_stats =
  st_draft :: int
  st_queued :: int
  st_sent :: int
  st_failed :: int
  st_skipped :: int
  st_total :: int
  st_sending :: "int option"

fun stats_add :: "email_stats \<Rightarrow> email_status \<times> nat \<Rightarrow> email_stats" where
  "stats_add st (E_DRAFT, n) = st\<lparr>st_draft := int n, st_total := st_total st + int n\<rparr>"
| "stats_add st (E_QUEUED, n) = st\<lparr>st_queued := int n, st_total := st_total st + int n\<rparr>"
| "stats_add st (E_SENDING, n) = st\<lparr>st_sending := Some (int n), st_total := st_total st + int n\<rparr>"
| "stats_add st (E_SENT, n) = st\<lparr>st_sent := int n, st_total := st_total st + int n\<rparr>"
| "stats_add st (E_FAILED, n) = st\<lparr>st_failed := int n, st_total := st_total st + int n\<rparr>"

definition email_group_counts :: "(campaign_email \<Rightarrow> bool) \<Rightarrow> outreach_db \<Rightarrow> (email_status \<times> nat) list" where
  "email_group_counts p db =
     filter (\<lambda>g. 0 < snd g)
       (map (\<lambda>st. (st, count_where (\<lambda>e. p e \<and> em_status e = st) (emails db)))
         [E_DRAFT, E_QUEUED, E_SENDING, E_SENT, E_FAILED])"

definition get_campaign_stats :: "nat \<Rightarrow> outreach_db \<Rightarrow> email_stats" where
  "get_campaign_stats campaign_id db =
     (let st0 = \<lparr>st_draft = 0, st_queued = 0, st_sent = 0, st_failed = 0, st_skipped = 0,
                 st_total = 0, st_sending = None\<rparr>;
          st = foldl stats_add st0 (email_group_counts (\<lambda>e. em_campaign_id e = campaign_id) db);
          skipped = int (count_where (\<lambda>e. em_campaign_id e = campaign_id \<and> em_status e = E_DRAFT \<and>
                                          \<not> em_is_selected e) (emails db))
      in st\<lparr>st_skipped := skipped, st_draft := st_draft st - skipped\<rparr>)"

text \<open>
  The selection of one email: the status is read first (\<open>selection_check\<close>), and the update that
  follows (\<open>selection_write\<close>) carries the status that was read and no guard of its own. The
  session \<open>set_email_selection\<close> is the one after the other; \<open>race\<close> is what other sessions commit
  between the two.
\<close>

definition selection_check :: "nat \<Rightarrow> outreach_db \<Rightarrow> email_status option" where
  "selection_check email_id db =
     (case first_where (\<lambda>e. em_id e = email_id) (emails db) of
        None \<Rightarrow> None
      | Some email \<Rightarrow> if em_status email \<notin> {E_DRAFT, E_QUEUED} then None else Some (em_status email))"

definition selection_write :: "nat \<Rightarrow> bool \<Rightarrow> email_status \<Rightarrow> outreach_db \<Rightarrow> outreach_db" where
  "selection_write email_id is_selected status db =
     (let f = (\<lambda>e. e\<lparr>em_is_selected := is_selected,
                    em_status := (if status = E_QUEUED \<and> \<not> is_selected then E_DRAFT
                                  else em_status e)\<rparr>)
      in db\<lparr>emails := update_where (\<lambda>e. em_id e = email_id) f (emails db)\<rparr>)"

definition set_email_selection ::
  "(outreach_db \<Rightarrow> outreach_db) \<Rightarrow> nat \<Rightarrow> bool \<Rightarrow> outreach_db \<Rightarrow> outreach_db \<times> bool" where
  "set_email_selection race email_id is_selected db =
     (case selection_check email_id db of
        None \<Rightarrow> (db, False)
      | Some status \<Rightarrow> (selection_write email_id is_selected status (race db), True))"

definition set_all_email_selection :: "nat \<Rightarrow> bool \<Rightarrow> outreach_db \<Rightarrow> outreach_db \<times> nat" where
  "set_all_email_selection campaign_id is_selected db =
     (let drafts = (\<lambda>e. em_campaign_id e = campaign_id \<and> em_status e = E_DRAFT);
          queued = (\<lambda>e. em_campaign_id e = campaign_id \<and> em_status e = E_QUEUED);
          t1 = update_where drafts (\<lambda>e. e\<lparr>em_is_selected := is_selected\<rparr>) (emails db);
          n1 = count_where drafts (emails db)
      in if is_selected then (db\<lparr>emails := t1\<rparr>, n1)
         else (db\<lparr>emails := update_where queued
                   (\<lambda>e. e\<lparr>em_status := E_DRAFT, em_is_selected := False\<rparr>) t1\<rparr>,
               n1 + count_where queued t1))"

definition delete_campaign_email :: "nat \<Rightarrow> outreach_db \<Rightarrow> outreach_db \<times> bool" where
  "delete_campaign_email email_id db =
     (let hit = (\<lambda>e. em_id e = email_id \<and> em_status e = E_DRAFT)
      in (db\<lparr>emails := delete_where hit (emails db)\<rparr>, 0 < count_where hit (emails db)))"

section \<open>Queue operations of the dispatcher\<close>

definition queue_campaign_emails :: "nat \<Rightarrow> outreach_db \<Rightarrow> outreach_db \<times> nat" where
  "queue_campaign_emails campaign_id db =
     (let hit = (\<lambda>e. em_campaign_id e = campaign_id \<and> em_status e = E_DRAFT \<and> em_is_selected e)
      in (db\<lparr>emails := update_where hit (\<lambda>e. e\<lparr>em_status := E_QUEUED\<rparr>) (emails db)\<rparr>,
          count_where hit (emails db)))"

definition has_remaining_drafts :: "nat \<Rightarrow> outreach_db \<Rightarrow> bool" where
  "has_remaining_drafts campaign_id db =
     (first_where (\<lambda>e. em_campaign_id e = campaign_id \<and> em_status e = E_DRAFT) (emails db) \<noteq> None)"

definition has_queued_email :: "nat \<Rightarrow> outreach_db \<Rightarrow> bool" where
  "has_queued_email campaign_id db =
     (first_where (\<lambda>e. em_campaign_id e = campaign_id \<and> em_status e = E_QUEUED) (emails db) \<noteq> None)"

text \<open>
  The claim. Each of the at most five attempts reads the first queued row and updates it under
  the guard that it is still queued; between the read and the update another session may have
  changed the tables: \<open>races n\<close> is what other sessions commit between the two in attempt \<open>n\<close>.
\<close>

definition first_queued :: "nat \<Rightarrow> outreach_db \<Rightarrow> campaign_email option" where
  "first_queued campaign_id db =
     (case sort_key em_id (select_where (\<lambda>e. em_campaign_id e = campaign_id \<and> em_status e = E_QUEUED)
                            (emails db)) of
        [] \<Rightarrow> None
      | e # _ \<Rightarrow> Some e)"

definition claim_guarded :: "datetime \<Rightarrow> nat \<Rightarrow> outreach_db \<Rightarrow> outreach_db \<times> nat" where
  "claim_guarded now email_id db =
     (let hit = (\<lambda>e. em_id e = email_id \<and> em_status e = E_QUEUED)
      in (db\<lparr>emails := update_where hit
               (\<lambda>e. e\<lparr>em_status := E_SENDING, em_sending_since := Some now\<rparr>) (emails db)\<rparr>,
          count_where hit (emails db)))"

fun claim_attempts ::
  "(outreach_db \<Rightarrow> outreach_db) list \<Rightarrow> datetime \<Rightarrow> nat \<Rightarrow> outreach_db \<Rightarrow>
   outreach_db \<times> campaign_email option" where
  "claim_attempts [] now campaign_id db = (db, None)"
| "claim_attempts (other # others) now campaign_id db =
     (case first_queued campaign_id db of
        None \<Rightarrow> (db, None)
      | Some e \<Rightarrow>
          (case claim_guarded now (em_id e) (other db) of
             (db', n) \<Rightarrow> if 0 < n then (db', Some e) else claim_attempts others now campaign_id db'))"

definition claim_next_queued_email ::
  "(nat \<Rightarrow> outreach_db \<Rightarrow> outreach_db) \<Rightarrow> datetime \<Rightarrow> nat \<Rightarrow> outreach_db \<Rightarrow>
   outreach_db \<times> campaign_email option" where
  "claim_next_queued_email races now campaign_id db =
     claim_attempts (map races [0..<5]) now campaign_id db"

text \<open>
  The recovery sweep: the query for the stuck emails, then an update of the keys it found, again
  without a guard on the status.
\<close>

definition stuck_sending :: "datetime \<Rightarrow> int \<Rightarrow> outreach_db \<Rightarrow> nat list" where
  "stuck_sending now threshold_seconds db =
     (let cutoff = now - seconds threshold_seconds
      in map em_id (select_where (\<lambda>e. em_status e = E_SENDING \<and>
           (case em_sending_since e of None \<Rightarrow> False | Some t \<Rightarrow> t < cutoff)) (emails db)))"

definition sweep_write :: "nat list \<Rightarrow> outreach_db \<Rightarrow> outreach_db" where
  "sweep_write ids db =
     db\<lparr>emails := update_where (\<lambda>e. em_id e \<in> set ids)
          (\<lambda>e. e\<lparr>em_status := E_QUEUED, em_sending_since := None\<rparr>) (emails db)\<rparr>"

definition recover_stuck_sending ::
  "(outreach_db \<Rightarrow> outreach_db) \<Rightarrow> datetime \<Rightarrow> int \<Rightarrow> outreach_db \<Rightarrow> outreach_db \<times> nat list" where
  "recover_stuck_sending race now threshold_seconds db =
     (let ids = stuck_sending now threshold_seconds db
      in if ids = [] then (db, ids) else (sweep_write ids (race db), ids))"

definition mark_email_sent :: "datetime \<Rightarrow> nat \<Rightarrow> nat option \<Rightarrow> outreach_db \<Rightarrow> outreach_db" where
  "mark_email_sent now email_id credential_id db =
     db\<lparr>emails := update_where (\<lambda>e. em_id e = email_id)
          (\<lambda>e. e\<lparr>em_status := E_SENT, em_sent_at := Some now, em_credential_id := credential_id\<rparr>)
          (emails db)\<rparr>"

definition mark_email_failed :: "nat \<Rightarrow> string \<Rightarrow> nat option \<Rightarrow> outreach_db \<Rightarrow> outreach_db" where
  "mark_email_failed email_id error_message credential_id db =
     db\<lparr>emails := update_where (\<lambda>e. em_id e = email_id)
          (\<lambda>e. e\<lparr>em_status := E_FAILED, em_error_message := Some error_message,
                 em_credential_id := credential_id\<rparr>) (emails db)\<rparr>"

definition requeue_email :: "nat \<Rightarrow> outreach_db \<Rightarrow> outreach_db" where
  "requeue_email email_id db =
     db\<lparr>emails := update_where (\<lambda>e. em_id e = email_id)
          (\<lambda>e. e\<lparr>em_status := E_QUEUED, em_sending_since := None\<rparr>) (emails db)\<rparr>"

definition cancel_remaining_queued :: "nat \<Rightarrow> outreach_db \<Rightarrow> outreach_db \<times> nat" where
  "cancel_remaining_queued campaign_id db =
     (let hit = (\<lambda>e. em_campaign_id e = campaign_id \<and> em_status e = E_QUEUED)
      in (db\<lparr>emails := update_where hit
               (\<lambda>e. e\<lparr>em_status := E_FAILED, em_error_message := Some ''Campaign cancelled''\<rparr>)
               (emails db)\<rparr>,
          count_where hit (emails db)))"

section \<open>Primary keys\<close>

interpretation template_keys: keyed_rows tp_id mk_template
  by unfold_locales (simp add: mk_template_def)

interpretation blacklist_keys: keyed_rows bl_id mk_blacklist
  by unfold_locales (simp add: mk_blacklist_def)

interpretation campaign_keys: keyed_rows cp_id mk_campaign
  by unfold_locales (simp add: mk_campaign_def)

interpretation campaign_credential_keys: keyed_rows cc_id mk_campaign_credential
  by unfold_locales (simp add: mk_campaign_credential_def)

interpretation email_keys: keyed_rows em_id mk_email
  by unfold_locales (simp add: mk_email_def)

definition outreach_ok :: "outreach_db \<Rightarrow> bool" where
  "outreach_ok db =
     (template_keys.keys_ok (templates db) \<and> blacklist_keys.keys_ok (blacklist db) \<and>
      campaign_keys.keys_ok (campaigns db) \<and> email_keys.keys_ok (emails db) \<and>
      campaign_credential_keys.keys_ok (campaign_credentials db) \<and>
      distinct (map bl_email (rows (blacklist db))))"

section \<open>Reading one email after an operation\<close>

text \<open>
  \<open>email_at db i\<close> is the row of email \<open>i\<close>. The equations below say what every operation does
  to it; they carry the life-cycle proofs here and in the dispatcher.
\<close>

definition email_at :: "outreach_db \<Rightarrow> nat \<Rightarrow> campaign_email option" where
  "email_at db i = first_where (\<lambda>e. em_id e = i) (emails db)"

lemma email_at_SomeD: "email_at db i = Some e \<Longrightarrow> e \<in> set (rows (emails db)) \<and> em_id e = i"
  unfolding email_at_def by (drule first_where_SomeD) simp

lemma email_at_memI:
  "email_keys.keys_ok (emails db) \<Longrightarrow> e \<in> set (rows (emails db)) \<Longrightarrow> email_at db (em_id e) = Some e"
  unfolding email_at_def by (rule email_keys.first_by_key)

lemma email_at_update:
  assumes "\<And>e. em_id (f e) = em_id e"
  shows "email_at (db\<lparr>emails := update_where p f (emails db)\<rparr>) i =
         map_option (\<lambda>e. if p e then f e else e) (email_at db i)"
  unfolding email_at_def using assms by (simp add: first_where_update_where)

lemma email_at_other_tables [simp]:
  "email_at (db\<lparr>templates := a\<rparr>) = email_at db"
  "email_at (db\<lparr>blacklist := b\<rparr>) = email_at db"
  "email_at (db\<lparr>campaigns := c\<rparr>) = email_at db"
  "email_at (db\<lparr>campaign_credentials := d\<rparr>) = email_at db"
  "email_at (db\<lparr>credentials := k\<rparr>) = email_at db"
  "email_at (db\<lparr>oauth_flows := o'\<rparr>) = email_at db"
  by (simp_all add: email_at_def fun_eq_iff)

lemma email_at_update_email:
  "email_at (fst (update_email j s b db)) i =
     map_option (\<lambda>e. if em_id e = j then e\<lparr>em_subject := s, em_body := b\<rparr> else e) (email_at db i)"
  by (simp add: update_email_def Let_def email_at_update)

lemma email_at_mark_email_sent:
  "email_at (mark_email_sent now j k db) i =
     map_option (\<lambda>e. if em_id e = j
                     then e\<lparr>em_status := E_SENT, em_sent_at := Some now, em_credential_id := k\<rparr> else e)
       (email_at db i)"
  by (simp add: mark_email_sent_def email_at_update)

lemma email_at_mark_email_failed:
  "email_at (mark_email_failed j msg k db) i =
     map_option (\<lambda>e. if em_id e = j
                     then e\<lparr>em_status := E_FAILED, em_error_message := Some msg, em_credential_id := k\<rparr>
                     else e)
       (email_at db i)"
  by (simp add: mark_email_failed_def email_at_update)

lemma email_at_requeue_email:
  "email_at (requeue_email j db) i =
     map_option (\<lambda>e. if em_id e = j then e\<lparr>em_status := E_QUEUED, em_sending_since := None\<rparr> else e)
       (email_at db i)"
  by (simp add: requeue_email_def email_at_update)

lemma email_at_cancel_remaining_queued:
  "email_at (fst (cancel_remaining_queued c db)) i =
     map_option (\<lambda>e. if em_campaign_id e = c \<and> em_status e = E_QUEUED
                     then e\<lparr>em_status := E_FAILED, em_error_message := Some ''Campaign cancelled''\<rparr>
                     else e)
       (email_at db i)"
  by (simp add: cancel_remaining_queued_def Let_def email_at_update)

lemma email_at_queue_campaign_emails:
  "email_at (fst (queue_campaign_emails c db)) i =
     map_option (\<lambda>e. if em_campaign_id e = c \<and> em_status e = E_DRAFT \<and> em_is_selected e
                     then e\<lparr>em_status := E_QUEUED\<rparr> else e)
       (email_at db i)"
  by (simp add: queue_campaign_emails_def Let_def email_at_update)

lemma email_at_claim_guarded:
  "email_at (fst (claim_guarded now j db)) i =
     map_option (\<lambda>e. if em_id e = j \<and> em_status e = E_QUEUED
                     then e\<lparr>em_status := E_SENDING, em_sending_since := Some now\<rparr> else e)
       (email_at db i)"
  by (simp add: claim_guarded_def Let_def email_at_update)

lemmas email_at_simps =
  email_at_update_email email_at_mark_email_sent email_at_mark_email_failed
  email_at_requeue_email email_at_cancel_remaining_queued email_at_queue_campaign_emails
  email_at_claim_guarded

text \<open>
  Rows a task or the log of sent mail relies on: no operation of the campaign screens moves an
  email that is being sent or was sent.
\<close>

definition in_flight :: "campaign_email \<Rightarrow> bool" where
  "in_flight e = (em_status e \<in> {E_SENDING, E_SENT})"

lemmas set_email_selection_defs = set_email_selection_def selection_check_def selection_write_def

lemmas recover_stuck_sending_defs = recover_stuck_sending_def stuck_sending_def sweep_write_def

lemma set_email_selection_in_flight:
  assumes "email_at db i = Some e" "in_flight e"
  shows "email_at (fst (set_email_selection id j b db)) i = Some e"
proof (cases "email_at db j")
  case None
  then show ?thesis
    using assms(1) by (simp add: set_email_selection_defs email_at_def)
next
  case (Some x)
  show ?thesis
  proof (cases "em_status x \<in> {E_DRAFT, E_QUEUED}")
    case True
    then have "em_id e \<noteq> j"
      using assms email_at_SomeD [OF assms(1)] Some by (auto simp: in_flight_def)
    moreover have "first_where (\<lambda>e. em_id e = j) (emails db) = Some x"
      using Some by (simp add: email_at_def)
    ultimately show ?thesis
      using True assms(1) by (simp add: set_email_selection_defs Let_def email_at_update)
  next
    case False
    then show ?thesis
      using Some assms(1) by (simp add: set_email_selection_defs email_at_def)
  qed
qed

lemma set_all_email_selection_in_flight:
  assumes "email_at db i = Some e" "in_flight e"
  shows "email_at (fst (set_all_email_selection c b db)) i = Some e"
  using assms unfolding email_at_def in_flight_def
  by (auto simp: set_all_email_selection_def Let_def first_where_update_where)

lemma delete_campaign_email_in_flight:
  assumes "email_at db i = Some e" "in_flight e"
  shows "email_at (fst (delete_campaign_email j db)) i = Some e"
  using assms unfolding email_at_def in_flight_def
  by (auto simp: delete_campaign_email_def Let_def intro!: first_where_delete_where)

lemma add_emails_keeps:
  "first_where (\<lambda>e. em_id e = i) t = Some e \<Longrightarrow>
   first_where (\<lambda>e. em_id e = i) (add_emails c es t) = Some e"
  by (induction es arbitrary: t) (simp_all add: first_where_insert_row)

lemma bulk_create_keeps:
  "email_at db i = Some e \<Longrightarrow> email_at (fst (bulk_create_campaign_emails c es db)) i = Some e"
  by (simp add: bulk_create_campaign_emails_def email_at_def add_emails_keeps)

lemma create_campaign_email_keeps:
  "email_at db i = Some e \<Longrightarrow> email_at (fst (create_campaign_email c r s b l db)) i = Some e"
  unfolding create_campaign_email_def
  by (simp add: email_at_def Let_def split_beta first_where_insert_row)

lemma queue_campaign_emails_in_flight:
  "email_at db i = Some e \<Longrightarrow> in_flight e \<Longrightarrow> email_at (fst (queue_campaign_emails c db)) i = Some e"
  by (auto simp: email_at_simps in_flight_def)

lemma cancel_remaining_queued_in_flight:
  "email_at db i = Some e \<Longrightarrow> in_flight e \<Longrightarrow> email_at (fst (cancel_remaining_queued c db)) i = Some e"
  by (auto simp: email_at_simps in_flight_def)

lemma email_at_recover_stuck_sending:
  "email_at (fst (recover_stuck_sending id now th db)) i =
     map_option (\<lambda>e. if em_id e \<in> set (snd (recover_stuck_sending id now th db))
                     then e\<lparr>em_status := E_QUEUED, em_sending_since := None\<rparr> else e)
       (email_at db i)"
  by (auto simp: recover_stuck_sending_defs Let_def email_at_update option.map_ident_strong)

lemma snd_recover_stuck_sending:
  "snd (recover_stuck_sending id now th db) =
     map em_id (select_where (\<lambda>e. em_status e = E_SENDING \<and>
        (case em_sending_since e of None \<Rightarrow> False | Some t \<Rightarrow> t < now - seconds th)) (emails db))"
  by (simp add: recover_stuck_sending_defs Let_def)

lemma recovered_ids:
  "i \<in> set (snd (recover_stuck_sending id now th db)) \<longleftrightarrow>
     (\<exists>e \<in> set (rows (emails db)). em_id e = i \<and> em_status e = E_SENDING \<and>
        (\<exists>t. em_sending_since e = Some t \<and> t < now - seconds th))"
  by (force simp: snd_recover_stuck_sending select_where_def split: option.splits)

subsection \<open>The claim\<close>

lemma first_queued_None_iff:
  "first_queued c db = None \<longleftrightarrow> (\<forall>e \<in> set (rows (emails db)). \<not> (em_campaign_id e = c \<and> em_status e = E_QUEUED))"
proof -
  let ?q = "filter (\<lambda>e. em_campaign_id e = c \<and> em_status e = E_QUEUED) (rows (emails db))"
  have "first_queued c db = None \<longleftrightarrow> sort_key em_id ?q = []"
    by (cases "sort_key em_id ?q") (simp_all add: first_queued_def select_where_def)
  also have "\<dots> \<longleftrightarrow> ?q = []"
    using set_sort [of em_id ?q] set_empty by fastforce
  finally show ?thesis
    unfolding filter_empty_conv .
qed

lemma first_queued_SomeD:
  assumes "first_queued c db = Some e"
  shows "e \<in> set (rows (emails db))" "em_campaign_id e = c" "em_status e = E_QUEUED"
    "\<forall>x \<in> set (rows (emails db)). em_campaign_id x = c \<longrightarrow> em_status x = E_QUEUED \<longrightarrow> em_id e \<le> em_id x"
proof -
  let ?q = "filter (\<lambda>e. em_campaign_id e = c \<and> em_status e = E_QUEUED) (rows (emails db))"
  obtain es where es: "sort_key em_id ?q = e # es"
    using assms by (auto simp: first_queued_def select_where_def split: list.splits)
  then have "set (e # es) = set ?q"
    by (metis set_sort)
  then show "e \<in> set (rows (emails db))" "em_campaign_id e = c" "em_status e = E_QUEUED"
    by auto
  have "sorted (map em_id (e # es))"
    by (metis es sorted_sort_key)
  then have "\<forall>x \<in> set (e # es). em_id e \<le> em_id x"
    by auto
  then show "\<forall>x \<in> set (rows (emails db)). em_campaign_id x = c \<longrightarrow> em_status x = E_QUEUED \<longrightarrow> em_id e \<le> em_id x"
    using \<open>set (e # es) = set ?q\<close> by auto
qed

lemma claim_one_session:
  "claim_next_queued_email (\<lambda>_. id) now c db =
     (case first_queued c db of None \<Rightarrow> (db, None)
      | Some e \<Rightarrow> (fst (claim_guarded now (em_id e) db), Some e))"
proof (cases "first_queued c db")
  case None
  then show ?thesis
    by (simp add: claim_next_queued_email_def numeral_eq_Suc)
next
  case (Some e)
  then have "0 < snd (claim_guarded now (em_id e) db)"
    using first_queued_SomeD [OF Some] by (auto simp: claim_guarded_def Let_def count_where_pos_iff)
  with Some show ?thesis
    by (simp add: claim_next_queued_email_def numeral_eq_Suc split_beta)
qed

text \<open>
  Claiming an email: when the campaign has a queued email the claim returns the one with the
  least key, that row and only that row becomes SENDING with the time of the claim, and when it
  has none the claim returns None and changes nothing.
\<close>

theorem claim_takes_least_queued:
  assumes "email_keys.keys_ok (emails db)" "claim_next_queued_email (\<lambda>_. id) now c db = (db', r)"
  shows "(r = None \<longrightarrow> db' = db \<and> \<not> has_queued_email c db) \<and>
     (\<forall>e. r = Some e \<longrightarrow>
        email_at db (em_id e) = Some e \<and> em_campaign_id e = c \<and> em_status e = E_QUEUED \<and>
        (\<forall>x \<in> set (rows (emails db)).
           em_campaign_id x = c \<longrightarrow> em_status x = E_QUEUED \<longrightarrow> em_id e \<le> em_id x) \<and>
        email_at db' (em_id e) = Some (e\<lparr>em_status := E_SENDING, em_sending_since := Some now\<rparr>) \<and>
        (\<forall>i. i \<noteq> em_id e \<longrightarrow> email_at db' i = email_at db i))"
proof (cases "first_queued c db")
  case None
  then have "db' = db" "r = None"
    using assms(2) by (simp_all add: claim_one_session)
  moreover have "\<not> has_queued_email c db"
    using None by (simp add: has_queued_email_def first_where_None_iff first_queued_None_iff)
  ultimately show ?thesis
    by simp
next
  case (Some e)
  note q = first_queued_SomeD [OF Some]
  have at: "email_at db (em_id e) = Some e"
    using assms(1) q(1) by (rule email_at_memI)
  have db': "db' = fst (claim_guarded now (em_id e) db)" "r = Some e"
    using assms(2) Some by (auto simp: claim_one_session)
  have "email_at db' i = email_at db i" if "i \<noteq> em_id e" for i
    using that email_at_SomeD [of db i] by (cases "email_at db i") (auto simp: db' email_at_claim_guarded)
  with q at show ?thesis
    by (simp add: db' email_at_claim_guarded)
qed

lemma claim_takes_least_queued_witness:
  "let db = fst (queue_campaign_emails 7 (fst (create_campaign_email 7 ''a@x'' ''s'' ''b'' None empty_outreach)))
   in map_option em_status (email_at (fst (claim_next_queued_email (\<lambda>_. id) 5 7 db)) 1) = Some E_SENDING"
proof -
  define db where
    "db = fst (queue_campaign_emails 7 (fst (create_campaign_email 7 ''a@x'' ''s'' ''b'' None empty_outreach)))"
  have ok: "email_keys.keys_ok (emails db)"
    by (simp add: db_def queue_campaign_emails_def create_campaign_email_def insert_row_def Let_def
        split_beta empty_outreach_def empty_table_def update_where_def email_keys.keys_ok_def mk_email_def)
  obtain db' e where c: "claim_next_queued_email (\<lambda>_. id) 5 7 db = (db', Some e)" and e: "em_id e = 1"
    by (simp add: db_def claim_one_session first_queued_def select_where_def queue_campaign_emails_def
        create_campaign_email_def insert_row_def Let_def split_beta empty_outreach_def empty_table_def
        update_where_def mk_email_def)
  show ?thesis
    using claim_takes_least_queued [OF ok c] e c by (simp add: db_def [symmetric] Let_def)
qed

section \<open>Statistics\<close>

lemma count_where_split:
  "count_where p t = count_where (\<lambda>r. p r \<and> q r) t + count_where (\<lambda>r. p r \<and> \<not> q r) t"
proof -
  have "length (filter p xs) =
      length (filter (\<lambda>r. p r \<and> q r) xs) + length (filter (\<lambda>r. p r \<and> \<not> q r) xs)" for xs
    by (induction xs) auto
  then show ?thesis
    by (simp add: count_where_def)
qed

lemma count_by_status:
  "count_where p (t :: campaign_email table) =
     (\<Sum>st \<leftarrow> [E_DRAFT, E_QUEUED, E_SENDING, E_SENT, E_FAILED]. count_where (\<lambda>e. p e \<and> em_status e = st) t)"
proof -
  have "length (filter p xs) =
     (\<Sum>st \<leftarrow> [E_DRAFT, E_QUEUED, E_SENDING, E_SENT, E_FAILED].
        length (filter (\<lambda>e. p e \<and> em_status e = st) xs))" for xs
  proof (induction xs)
    case (Cons x xs)
    then show ?case
      by (cases "em_status x") auto
  qed simp
  then show ?thesis
    by (simp add: count_where_def)
qed

definition status_count :: "nat \<Rightarrow> email_status \<Rightarrow> outreach_db \<Rightarrow> nat" where
  "status_count c st db = count_where (\<lambda>e. em_campaign_id e = c \<and> em_status e = st) (emails db)"

lemma get_campaign_stats_fields:
  "st_queued (get_campaign_stats c db) = int (status_count c E_QUEUED db)"
  "st_sent (get_campaign_stats c db) = int (status_count c E_SENT db)"
  "st_failed (get_campaign_stats c db) = int (status_count c E_FAILED db)"
  "st_sending (get_campaign_stats c db) =
     (if status_count c E_SENDING db = 0 then None else Some (int (status_count c E_SENDING db)))"
  "st_draft (get_campaign_stats c db) =
     int (count_where (\<lambda>e. (em_campaign_id e = c \<and> em_status e = E_DRAFT) \<and> em_is_selected e) (emails db))"
  "st_total (get_campaign_stats c db) =
     int (\<Sum>st \<leftarrow> [E_DRAFT, E_QUEUED, E_SENDING, E_SENT, E_FAILED]. status_count c st db)"
proof -
  have d: "status_count c E_DRAFT db =
      count_where (\<lambda>e. (em_campaign_id e = c \<and> em_status e = E_DRAFT) \<and> em_is_selected e) (emails db) +
      count_where (\<lambda>e. em_campaign_id e = c \<and> em_status e = E_DRAFT \<and> \<not> em_is_selected e) (emails db)"
    unfolding status_count_def by (subst count_where_split [where q = em_is_selected]) simp
  show "st_draft (get_campaign_stats c db) =
     int (count_where (\<lambda>e. (em_campaign_id e = c \<and> em_status e = E_DRAFT) \<and> em_is_selected e) (emails db))"
    using d by (simp add: get_campaign_stats_def email_group_counts_def Let_def status_count_def)
qed (simp_all add: get_campaign_stats_def email_group_counts_def Let_def status_count_def)

text \<open>
  The statistics of a campaign partition its emails: the counters are not negative and their
  sum, with \<open>sending\<close> read as 0 when the key is absent, is \<open>total\<close>, the number of its emails.
\<close>

theorem stats_partition:
  "let s = get_campaign_stats c db in
     st_draft s + st_skipped s + st_queued s + the_default 0 (st_sending s) + st_sent s + st_failed s
       = st_total s \<and>
     st_total s = int (count_where (\<lambda>e. em_campaign_id e = c) (emails db)) \<and>
     0 \<le> st_draft s \<and> 0 \<le> st_skipped s"
proof -
  let ?s = "get_campaign_stats c db"
  have total: "st_total ?s = int (count_where (\<lambda>e. em_campaign_id e = c) (emails db))"
    by (simp add: get_campaign_stats_fields count_by_status [of "\<lambda>e. em_campaign_id e = c"] status_count_def)
  have skipped: "st_skipped ?s =
      int (count_where (\<lambda>e. (em_campaign_id e = c \<and> em_status e = E_DRAFT) \<and> \<not> em_is_selected e) (emails db))"
    by (simp add: get_campaign_stats_def Let_def)
  have draft: "st_draft ?s + st_skipped ?s = int (status_count c E_DRAFT db)"
    unfolding get_campaign_stats_fields skipped status_count_def
    by (subst (3) count_where_split [where q = em_is_selected]) simp
  have "st_draft ?s + st_skipped ?s + st_queued ?s + the_default 0 (st_sending ?s) + st_sent ?s +
      st_failed ?s = st_total ?s"
    unfolding draft by (simp add: get_campaign_stats_fields)
  then show ?thesis
    using total skipped by (simp add: Let_def get_campaign_stats_fields(5))
qed

end
