(* ===== verification/Credentials.thy ===== *)
theory Credentials
  imports Outreach
begin

text \<open>
  SMTP credentials: encryption at rest (\<open>cloud/security/crypto.py\<close>), the credential and
  OAuth-flow operations of \<open>OutreachMixin\<close>, and the token resolution of
  \<open>cloud/security/oauth.py\<close>. Fernet is a parameter: a record of its two functions, encryption
  under a key and authenticated decryption, which is None on \<open>InvalidToken\<close>. The token
  endpoint of the provider is a function argument too.
\<close>

section \<open>Encryption at rest\<close>

record fernet =
  fernet_encrypt :: "string \<Rightarrow> string \<Rightarrow> string"
  fernet_decrypt :: "string \<Rightarrow> string \<Rightarrow> string option"

text \<open>
  The key chain: the primary from the environment, else from the config, else a fresh one that
  is written to the config file; then the previous key. The result is the chain, the two config
  entries and whether the file was written.
\<close>

definition ensure_credential_enc_key ::
  "string option \<Rightarrow> string option \<Rightarrow> string option \<Rightarrow> string option \<Rightarrow> string \<Rightarrow>
   string list \<times> string option \<times> string option \<times> bool" where
  "ensure_credential_enc_key env env_prev cfg cfg_prev fresh =
     (let primary = (if truthy env then the env else if truthy cfg then the cfg else fresh);
          written = (\<not> truthy env \<and> \<not> truthy cfg);
          prev = py_or env_prev cfg_prev
      in if truthy prev then ([primary, the prev], Some primary, prev, written)
         else ([primary], Some primary, cfg_prev, written))"

definition encrypt_password :: "fernet \<Rightarrow> string list \<Rightarrow> string \<Rightarrow> string" where
  "encrypt_password fe keys plain = fernet_encrypt fe (hd keys) plain"

fun multi_fernet_decrypt :: "fernet \<Rightarrow> string list \<Rightarrow> string \<Rightarrow> string option" where
  "multi_fernet_decrypt fe [] blob = None"
| "multi_fernet_decrypt fe (k # ks) blob =
     (case fernet_decrypt fe k blob of None \<Rightarrow> multi_fernet_decrypt fe ks blob | Some p \<Rightarrow> Some p)"

definition decrypt_password :: "fernet \<Rightarrow> string list \<Rightarrow> string \<Rightarrow> py_exn + string" where
  "decrypt_password fe keys blob =
     (case multi_fernet_decrypt fe keys blob of None \<Rightarrow> Inl ValueError | Some p \<Rightarrow> Inr p)"

definition decrypt_optional :: "fernet \<Rightarrow> string list \<Rightarrow> string option \<Rightarrow> py_exn + string option" where
  "decrypt_optional fe keys blob =
     (if truthy blob
      then (case decrypt_password fe keys (the blob) of Inl x \<Rightarrow> Inl x | Inr p \<Rightarrow> Inr (Some p))
      else Inr None)"

text \<open>Fernet's documented behaviour: a token opens under its own key and under no other.\<close>

definition fernet_authentic :: "fernet \<Rightarrow> bool" where
  "fernet_authentic fe =
     (\<forall>k k' p. fernet_decrypt fe k' (fernet_encrypt fe k p) = (if k' = k then Some p else None))"

section \<open>Credentials\<close>

record send_credential =
  sc_id :: nat
  sc_host :: string
  sc_port :: int
  sc_username :: string
  sc_provider :: string
  sc_password :: "string option"
  sc_refresh_token :: "string option"
  sc_access_token :: "string option"
  sc_token_expires_at :: "datetime option"
  sc_daily_send_limit :: "int option"

record key_ring =
  kr_fernet :: fernet
  kr_keys :: "string list"

definition credential_send_dict :: "key_ring \<Rightarrow> smtp_credential \<Rightarrow> py_exn + send_credential" where
  "credential_send_dict kr c =
     (let dec = decrypt_optional (kr_fernet kr) (kr_keys kr) in
      case dec (cr_password_encrypted c) of
        Inl x \<Rightarrow> Inl x
      | Inr pw \<Rightarrow>
          (case dec (cr_refresh_token_encrypted c) of
             Inl x \<Rightarrow> Inl x
           | Inr rt \<Rightarrow>
               (case dec (cr_access_token_encrypted c) of
                  Inl x \<Rightarrow> Inl x
                | Inr acc \<Rightarrow>
                    Inr \<lparr>sc_id = cr_id c, sc_host = cr_host c, sc_port = cr_port c,
                         sc_username = cr_username c, sc_provider = cr_provider c, sc_password = pw,
                         sc_refresh_token = rt, sc_access_token = acc,
                         sc_token_expires_at = cr_token_expires_at c,
                         sc_daily_send_limit = cr_daily_send_limit c\<rparr>)))"

fun send_dicts :: "key_ring \<Rightarrow> smtp_credential list \<Rightarrow> py_exn + send_credential list" where
  "send_dicts kr [] = Inr []"
| "send_dicts kr (c # cs) =
     (case credential_send_dict kr c of
        Inl x \<Rightarrow> Inl x
      | Inr d \<Rightarrow> (case send_dicts kr cs of Inl x \<Rightarrow> Inl x | Inr ds \<Rightarrow> Inr (d # ds)))"

text \<open>
  The filter of the two credential queries. The source writes
  \<open>or_(SMTPCredential.cooldown_until is None, SMTPCredential.cooldown_until < now)\<close>: Python's
  \<open>is\<close> compares the column object with None and gives False, so the first disjunct is the
  constant false, and the second is not true for a NULL column.
\<close>

definition cooldown_over :: "datetime \<Rightarrow> smtp_credential \<Rightarrow> bool" where
  "cooldown_over now c =
     (False \<or> (case cr_cooldown_until c of None \<Rightarrow> False | Some u \<Rightarrow> u < now))"

definition get_credentials_by_ids ::
  "key_ring \<Rightarrow> datetime \<Rightarrow> nat list \<Rightarrow> outreach_db \<Rightarrow> py_exn + send_credential list" where
  "get_credentials_by_ids kr now credential_ids db =
     (if credential_ids = [] then Inr []
      else send_dicts kr
             (select_where (\<lambda>c. cr_id c \<in> set credential_ids \<and> cr_is_active c \<and> cooldown_over now c)
               (credentials db)))"

definition get_active_credentials ::
  "key_ring \<Rightarrow> datetime \<Rightarrow> outreach_db \<Rightarrow> py_exn + send_credential list" where
  "get_active_credentials kr now db =
     send_dicts kr (select_where (\<lambda>c. cr_is_active c \<and> cooldown_over now c) (credentials db))"

record new_credential =
  nr_host :: string
  nr_port :: int
  nr_username :: string
  nr_password_encrypted :: "string option"
  nr_provider :: string
  nr_daily_send_limit :: "int option"

definition mk_credential :: "new_credential \<Rightarrow> nat \<Rightarrow> smtp_credential" where
  "mk_credential a i =
     \<lparr>cr_id = i, cr_host = nr_host a, cr_port = nr_port a, cr_username = nr_username a,
      cr_password_encrypted = nr_password_encrypted a, cr_is_active = True, cr_cooldown_until = None,
      cr_daily_send_limit = nr_daily_send_limit a, cr_provider = nr_provider a,
      cr_refresh_token_encrypted = None, cr_access_token_encrypted = None, cr_token_expires_at = None\<rparr>"

interpretation credential_keys: keyed_rows cr_id mk_credential
  by unfold_locales (simp add: mk_credential_def)

definition create_credential ::
  "key_ring \<Rightarrow> string \<Rightarrow> int \<Rightarrow> string \<Rightarrow> string option \<Rightarrow> string \<Rightarrow> int option \<Rightarrow>
   outreach_db \<Rightarrow> outreach_db \<times> nat" where
  "create_credential kr host port username password provider daily_send_limit db =
     (let a = \<lparr>nr_host = host, nr_port = port, nr_username = username,
               nr_password_encrypted =
                 (if truthy password
                  then Some (encrypt_password (kr_fernet kr) (kr_keys kr) (the password)) else None),
               nr_provider = provider, nr_daily_send_limit = daily_send_limit\<rparr>;
          (t, i) = insert_row (mk_credential a) (credentials db)
      in (db\<lparr>credentials := t\<rparr>, i))"

definition get_credential ::
  "key_ring \<Rightarrow> nat \<Rightarrow> outreach_db \<Rightarrow> py_exn + (send_credential \<times> bool \<times> datetime option) option" where
  "get_credential kr credential_id db =
     (case first_where (\<lambda>c. cr_id c = credential_id) (credentials db) of
        None \<Rightarrow> Inr None
      | Some c \<Rightarrow> (case credential_send_dict kr c of
                    Inl x \<Rightarrow> Inl x
                  | Inr d \<Rightarrow> Inr (Some (d, cr_is_active c, cr_cooldown_until c))))"

text \<open>\<open>update_credential(**kwargs)\<close>: the arguments that are not None are written.\<close>

record credential_update =
  cu_host :: "string option"
  cu_port :: "int option"
  cu_username :: "string option"
  cu_provider :: "string option"
  cu_password :: "string option"
  cu_is_active :: "bool option"
  cu_daily_send_limit :: "int option"

definition update_credential ::
  "key_ring \<Rightarrow> nat \<Rightarrow> credential_update \<Rightarrow> outreach_db \<Rightarrow> outreach_db \<times> bool" where
  "update_credential kr credential_id u db =
     (let hit = (\<lambda>c. cr_id c = credential_id);
          f = (\<lambda>c. c\<lparr>cr_host := the_default (cr_host c) (cu_host u),
                     cr_port := the_default (cr_port c) (cu_port u),
                     cr_username := the_default (cr_username c) (cu_username u),
                     cr_provider := the_default (cr_provider c) (cu_provider u),
                     cr_password_encrypted :=
                       (case cu_password u of
                          None \<Rightarrow> cr_password_encrypted c
                        | Some p \<Rightarrow> Some (encrypt_password (kr_fernet kr) (kr_keys kr) p)),
                     cr_is_active := the_default (cr_is_active c) (cu_is_active u),
                     cr_daily_send_limit :=
                       (case cu_daily_send_limit u of None \<Rightarrow> cr_daily_send_limit c | Some n \<Rightarrow> Some n)\<rparr>)
      in (db\<lparr>credentials := update_where hit f (credentials db)\<rparr>, 0 < count_where hit (credentials db)))"

definition set_active :: "bool \<Rightarrow> credential_update" where
  "set_active b =
     \<lparr>cu_host = None, cu_port = None, cu_username = None, cu_provider = None, cu_password = None,
      cu_is_active = Some b, cu_daily_send_limit = None\<rparr>"

definition update_credential_tokens ::
  "key_ring \<Rightarrow> nat \<Rightarrow> string \<Rightarrow> string \<Rightarrow> datetime option \<Rightarrow> outreach_db \<Rightarrow> outreach_db" where
  "update_credential_tokens kr credential_id access_token refresh_token expires_at db =
     (let enc = encrypt_password (kr_fernet kr) (kr_keys kr) in
      db\<lparr>credentials := update_where (\<lambda>c. cr_id c = credential_id)
           (\<lambda>c. c\<lparr>cr_access_token_encrypted := Some (enc access_token),
                  cr_refresh_token_encrypted := Some (enc refresh_token),
                  cr_token_expires_at := expires_at\<rparr>) (credentials db)\<rparr>)"

text \<open>
  Deleting a credential first drops its pending flows, then the row; a campaign, an assignment
  or an email that still refers to it breaks the foreign key and the session is rolled back.
\<close>

definition credential_referenced :: "nat \<Rightarrow> outreach_db \<Rightarrow> bool" where
  "credential_referenced credential_id db =
     (0 < count_where (\<lambda>c. cp_test_credential_id c = Some credential_id) (campaigns db) \<or>
      0 < count_where (\<lambda>a. cc_credential_id a = credential_id) (campaign_credentials db) \<or>
      0 < count_where (\<lambda>e. em_credential_id e = Some credential_id) (emails db))"

definition delete_credential :: "nat \<Rightarrow> outreach_db \<Rightarrow> py_exn + outreach_db \<times> bool" where
  "delete_credential credential_id db =
     (let flows = delete_where (\<lambda>f. of_credential_id f = credential_id) (oauth_flows db);
          hit = (\<lambda>c. cr_id c = credential_id);
          n = count_where hit (credentials db)
      in if 0 < n \<and> credential_referenced credential_id db then Inl IntegrityError
         else Inr (db\<lparr>oauth_flows := flows, credentials := delete_where hit (credentials db)\<rparr>, 0 < n))"

definition disable_credential :: "nat \<Rightarrow> outreach_db \<Rightarrow> outreach_db" where
  "disable_credential credential_id db =
     db\<lparr>credentials := update_where (\<lambda>c. cr_id c = credential_id)
          (\<lambda>c. c\<lparr>cr_is_active := False\<rparr>) (credentials db)\<rparr>"

definition set_credential_cooldown :: "nat \<Rightarrow> datetime \<Rightarrow> outreach_db \<Rightarrow> outreach_db" where
  "set_credential_cooldown credential_id until db =
     db\<lparr>credentials := update_where (\<lambda>c. cr_id c = credential_id)
          (\<lambda>c. c\<lparr>cr_cooldown_until := Some until\<rparr>) (credentials db)\<rparr>"

definition sent_today :: "datetime \<Rightarrow> nat \<Rightarrow> campaign_email \<Rightarrow> bool" where
  "sent_today now credential_id e =
     (em_credential_id e = Some credential_id \<and> em_status e = E_SENT \<and>
      (case em_sent_at e of None \<Rightarrow> False | Some t \<Rightarrow> day_start now \<le> t))"

definition get_credential_sent_count_today :: "datetime \<Rightarrow> nat \<Rightarrow> outreach_db \<Rightarrow> nat" where
  "get_credential_sent_count_today now credential_id db =
     count_where (sent_today now credential_id) (emails db)"

text \<open>The health counters, summed over the grouped rows like the loop of the source.\<close>

fun health_add :: "nat \<times> nat \<Rightarrow> email_status \<times> nat \<Rightarrow> nat \<times> nat" where
  "health_add (s, f) (E_SENT, n) = (s + n, f)"
| "health_add (s, f) (E_FAILED, n) = (s, f + n)"
| "health_add (s, f) (_, n) = (s, f)"

definition get_credential_health :: "datetime \<Rightarrow> nat \<Rightarrow> outreach_db \<Rightarrow> nat \<times> nat \<times> nat" where
  "get_credential_health now credential_id db =
     (let (s, f) = foldl health_add (0, 0)
                     (email_group_counts (\<lambda>e. em_credential_id e = Some credential_id) db)
      in (s, f, get_credential_sent_count_today now credential_id db))"

record credential_view =
  cv_id :: nat
  cv_host :: string
  cv_port :: int
  cv_username :: string
  cv_provider :: string
  cv_oauth_connected :: bool
  cv_is_active :: bool
  cv_cooldown_until :: "datetime option"
  cv_daily_send_limit :: "int option"
  cv_health :: "nat \<times> nat \<times> nat"

definition list_credentials :: "datetime \<Rightarrow> outreach_db \<Rightarrow> credential_view list" where
  "list_credentials now db =
     map (\<lambda>c. \<lparr>cv_id = cr_id c, cv_host = cr_host c, cv_port = cr_port c,
               cv_username = cr_username c, cv_provider = cr_provider c,
               cv_oauth_connected = (cr_refresh_token_encrypted c \<noteq> None),
               cv_is_active = cr_is_active c, cv_cooldown_until = cr_cooldown_until c,
               cv_daily_send_limit = cr_daily_send_limit c,
               cv_health = get_credential_health now (cr_id c) db\<rparr>)
       (sort_key cr_id (rows (credentials db)))"

section \<open>OAuth\<close>

definition mk_oauth_flow :: "string \<times> nat \<times> string \<times> string \<times> datetime \<Rightarrow> nat \<Rightarrow> oauth_flow" where
  "mk_oauth_flow a i =
     (case a of (state, credential_id, provider, code_verifier, now) \<Rightarrow>
        \<lparr>of_id = i, of_state = state, of_credential_id = credential_id, of_provider = provider,
         of_code_verifier = code_verifier, of_created_at = now\<rparr>)"

interpretation oauth_flow_keys: keyed_rows of_id mk_oauth_flow
  by unfold_locales (simp add: mk_oauth_flow_def split_beta)

definition create_oauth_flow ::
  "datetime \<Rightarrow> string \<Rightarrow> nat \<Rightarrow> string \<Rightarrow> string \<Rightarrow> outreach_db \<Rightarrow> py_exn + outreach_db" where
  "create_oauth_flow now state credential_id provider code_verifier db =
     (let swept = delete_where (\<lambda>f. of_created_at f < now - seconds 3600) (oauth_flows db) in
      if count_where (\<lambda>c. cr_id c = credential_id) (credentials db) = 0 \<or>
         0 < count_where (\<lambda>f. of_state f = state) swept
      then Inl IntegrityError
      else Inr (db\<lparr>oauth_flows :=
                 fst (insert_row (mk_oauth_flow (state, credential_id, provider, code_verifier, now)) swept)\<rparr>))"

definition consume_oauth_flow ::
  "string \<Rightarrow> outreach_db \<Rightarrow> outreach_db \<times> (nat \<times> string \<times> string) option" where
  "consume_oauth_flow state db =
     (case first_where (\<lambda>f. of_state f = state) (oauth_flows db) of
        None \<Rightarrow> (db, None)
      | Some flow \<Rightarrow>
          (db\<lparr>oauth_flows := delete_where (\<lambda>f. of_id f = of_id flow) (oauth_flows db)\<rparr>,
           Some (of_credential_id flow, of_provider flow, of_code_verifier flow)))"

record oauth_token =
  ot_access_token :: string
  ot_refresh_token :: "string option"
  ot_expires_at :: "datetime option"

text \<open>
  A live access token. \<open>refresh\<close> is the provider's refresh grant, None when it fails; the left
  side of the result is \<open>OAuthTokenError\<close> with its message.
\<close>

definition get_valid_access_token ::
  "key_ring \<Rightarrow> datetime \<Rightarrow> (string \<Rightarrow> string \<Rightarrow> oauth_token option) \<Rightarrow> send_credential \<Rightarrow>
   outreach_db \<Rightarrow> outreach_db \<times> (string + string)" where
  "get_valid_access_token kr now refresh c db =
     (if truthy (sc_access_token c) \<and>
         (case sc_token_expires_at c of None \<Rightarrow> False | Some e \<Rightarrow> now + seconds 60 < e)
      then (db, Inr (the (sc_access_token c)))
      else if \<not> truthy (sc_refresh_token c)
      then (db, Inl ''Credential has no refresh token - connect it via OAuth first'')
      else (case refresh (sc_provider c) (the (sc_refresh_token c)) of
              None \<Rightarrow> (db, Inl (sc_provider c @ '' token refresh failed''))
            | Some fresh \<Rightarrow>
                (update_credential_tokens kr (sc_id c) (ot_access_token fresh)
                   (the (py_or (ot_refresh_token fresh) (sc_refresh_token c))) (ot_expires_at fresh) db,
                 Inr (ot_access_token fresh))))"

section \<open>Properties\<close>

lemma multi_fernet_decrypt_authentic:
  "fernet_authentic fe \<Longrightarrow>
   multi_fernet_decrypt fe chain (fernet_encrypt fe k p) = (if k \<in> set chain then Some p else None)"
  by (induction chain) (auto simp: fernet_authentic_def)

text \<open>
  Key rotation: what was encrypted under one key chain opens under another exactly when the
  other chain still holds the first chain's primary key; otherwise the operation raises
  \<open>ValueError\<close> and never returns a wrong plaintext.
\<close>

theorem decrypt_after_rotation:
  assumes "fernet_authentic fe"
  shows "decrypt_password fe chain (encrypt_password fe old plain) =
         (if hd old \<in> set chain then Inr plain else Inl ValueError)"
  using assms by (simp add: decrypt_password_def encrypt_password_def multi_fernet_decrypt_authentic)

text \<open>A concrete cipher: the key and a separator in front of the text.\<close>

definition tagged_fernet :: fernet where
  "tagged_fernet =
     \<lparr>fernet_encrypt = (\<lambda>k p. concat (map (\<lambda>c. [c, CHR ''0'']) k) @ ''11'' @ p),
      fernet_decrypt = (\<lambda>k b. let t = concat (map (\<lambda>c. [c, CHR ''0'']) k) @ ''11'' in
                                 if take (length t) b = t then Some (drop (length t) b) else None)\<rparr>"

lemma tag_prefix_free:
  "take (length (concat (map (\<lambda>c. [c, CHR ''0'']) k') @ ''11''))
     (concat (map (\<lambda>c. [c, CHR ''0'']) k) @ ''11'' @ p) = concat (map (\<lambda>c. [c, CHR ''0'']) k') @ ''11'' \<longleftrightarrow>
   k' = k"
proof (induction k arbitrary: k')
  case Nil
  then show ?case by (cases k') auto
next
  case (Cons a k)
  then show ?case by (cases k') auto
qed

lemma tagged_fernet_authentic: "fernet_authentic tagged_fernet"
  unfolding fernet_authentic_def tagged_fernet_def Let_def fernet.simps tag_prefix_free by auto

theorem decrypt_after_rotation_witness:
  "decrypt_password tagged_fernet [''new'', ''old''] (encrypt_password tagged_fernet [''old''] ''pw'') = Inr ''pw''"
  by (simp add: decrypt_after_rotation [OF tagged_fernet_authentic])

lemma send_dicts_ids: "send_dicts kr cs = Inr ds \<Longrightarrow> map sc_id ds = map cr_id cs"
proof (induction cs arbitrary: ds)
  case (Cons c cs)
  then obtain d ds' where "credential_send_dict kr c = Inr d" "send_dicts kr cs = Inr ds'" "ds = d # ds'"
    by (auto split: sum.splits)
  moreover have "sc_id d = cr_id c"
    using \<open>credential_send_dict kr c = Inr d\<close>
    by (auto simp: credential_send_dict_def Let_def split: sum.splits)
  ultimately show ?case
    using Cons.IH by simp
qed simp

lemma send_dicts_source:
  assumes "send_dicts kr cs = Inr ds" "d \<in> set ds"
  obtains c where "c \<in> set cs" "cr_id c = sc_id d"
proof -
  have "sc_id d \<in> set (map sc_id ds)"
    using assms(2) by simp
  then have "sc_id d \<in> cr_id ` set cs"
    by (simp add: send_dicts_ids [OF assms(1)])
  then show thesis
    using that by auto
qed

lemma cooldown_over_iff: "cooldown_over now c \<longleftrightarrow> (\<exists>u. cr_cooldown_until c = Some u \<and> u < now)"
  by (simp add: cooldown_over_def split: option.split)

lemma active_credentials_cooled:
  assumes "get_active_credentials kr now db = Inr ds" "d \<in> set ds"
  shows "\<exists>c \<in> set (rows (credentials db)). cr_id c = sc_id d \<and> cr_is_active c \<and>
           (\<exists>u. cr_cooldown_until c = Some u \<and> u < now)"
  by (rule send_dicts_source [OF assms(1) [unfolded get_active_credentials_def] assms(2)])
    (auto simp: select_where_def cooldown_over_iff)

lemma credentials_by_ids_cooled:
  assumes "get_credentials_by_ids kr now ids db = Inr ds" "d \<in> set ds"
  shows "\<exists>c \<in> set (rows (credentials db)). cr_id c = sc_id d \<and> cr_id c \<in> set ids \<and> cr_is_active c \<and>
           (\<exists>u. cr_cooldown_until c = Some u \<and> u < now)"
proof (cases "ids = []")
  case True
  with assms show ?thesis by (simp add: get_credentials_by_ids_def)
next
  case False
  with assms(1) show ?thesis
    by (auto simp: get_credentials_by_ids_def select_where_def cooldown_over_iff
        elim!: send_dicts_source [OF _ assms(2)])
qed

text \<open>
  A credential that was just created is in neither send pool, the campaign's own or the one of
  all active credentials: its \<open>cooldown_until\<close> is NULL and the queries, written with Python's
  \<open>is None\<close>, select only credentials whose cooldown has expired.
\<close>

theorem fresh_credential_not_selected:
  assumes "credential_keys.keys_ok (credentials db)"
    and "create_credential kr host port username password provider lim db = (db', i)"
    and "get_active_credentials kr now db' = Inr ds \<or> get_credentials_by_ids kr now ids db' = Inr ds"
  shows "i \<notin> sc_id ` set ds"
proof
  assume "i \<in> sc_id ` set ds"
  then obtain d where d: "d \<in> set ds" "sc_id d = i"
    by auto
  obtain c u where c: "c \<in> set (rows (credentials db'))" "cr_id c = i" "cr_cooldown_until c = Some u"
    using assms(3) active_credentials_cooled [of kr now db' ds d]
      credentials_by_ids_cooled [of kr now ids db' ds d] d by metis
  from assms(2) have db': "rows (credentials db') = rows (credentials db) @ [mk_credential
      \<lparr>nr_host = host, nr_port = port, nr_username = username,
       nr_password_encrypted = (if truthy password
         then Some (encrypt_password (kr_fernet kr) (kr_keys kr) (the password)) else None),
       nr_provider = provider, nr_daily_send_limit = lim\<rparr> i]" "i = next_id (credentials db)"
    by (simp_all add: create_credential_def Let_def insert_row_def prod_eq_iff split: prod.splits) auto
  from c(1) consider "c \<in> set (rows (credentials db))" | "cr_cooldown_until c = None"
    unfolding db'(1) by (auto simp: mk_credential_def)
  then show False
  proof cases
    case 1
    then show False
      using assms(1) c(2) db'(2) by (auto simp: credential_keys.keys_ok_def)
  qed (use c(3) in simp)
qed

theorem fresh_credential_not_selected_witness:
  "\<exists>db' ds. create_credential \<lparr>kr_fernet = tagged_fernet, kr_keys = [''k'']\<rparr> ''h'' 587 ''u'' (Some ''pw'') ''basic''
       None empty_outreach = (db', 1) \<and>
     get_active_credentials \<lparr>kr_fernet = tagged_fernet, kr_keys = [''k'']\<rparr> 10 db' = Inr ds \<and> 1 \<notin> sc_id ` set ds"
proof -
  let ?kr = "\<lparr>kr_fernet = tagged_fernet, kr_keys = [''k'']\<rparr>"
  have ok: "credential_keys.keys_ok (credentials empty_outreach)"
    by (simp add: empty_outreach_def empty_table_def credential_keys.keys_ok_def)
  obtain db' where c: "create_credential ?kr ''h'' 587 ''u'' (Some ''pw'') ''basic'' None empty_outreach = (db', 1)"
    by (simp add: create_credential_def Let_def insert_row_def empty_outreach_def empty_table_def)
  then have g: "get_active_credentials ?kr 10 db' = Inr []"
    by (auto simp: create_credential_def Let_def insert_row_def empty_outreach_def empty_table_def
        get_active_credentials_def select_where_def cooldown_over_def mk_credential_def)
  show ?thesis
    using fresh_credential_not_selected [OF ok c, of 10 "[]" "[]"] c g by blast
qed

text \<open>
  An OAuth state is single use: once it is consumed a second callback with it finds nothing,
  and the flows of other states are untouched.
\<close>

theorem oauth_state_single_use:
  assumes "distinct (map of_state (rows (oauth_flows db)))" "oauth_flow_keys.keys_ok (oauth_flows db)"
    and "consume_oauth_flow state db = (db', Some r)"
  shows "consume_oauth_flow state db' = (db', None) \<and>
    (\<forall>s. s \<noteq> state \<longrightarrow> first_where (\<lambda>f. of_state f = s) (oauth_flows db') =
       first_where (\<lambda>f. of_state f = s) (oauth_flows db))"
proof -
  obtain flow where flow: "first_where (\<lambda>f. of_state f = state) (oauth_flows db) = Some flow"
    and db': "db' = db\<lparr>oauth_flows := delete_where (\<lambda>f. of_id f = of_id flow) (oauth_flows db)\<rparr>"
    using assms(3) by (auto simp: consume_oauth_flow_def split: option.splits)
  note f = first_where_SomeD [OF flow]
  have same: "of_id g = of_id flow \<longleftrightarrow> of_state g = state" if "g \<in> set (rows (oauth_flows db))" for g
    using that f assms(1) oauth_flow_keys.keys_ok_unique [OF assms(2)]
    by (metis distinct_map inj_on_eq_iff)
  then have "first_where (\<lambda>f. of_state f = state) (oauth_flows db') = None"
    by (auto simp: db' first_where_None_iff table_simps)
  then have "consume_oauth_flow state db' = (db', None)"
    by (simp add: consume_oauth_flow_def)
  moreover have "List.find (\<lambda>f. of_state f = s) (filter (\<lambda>g. of_id g \<noteq> of_id flow) xs) = List.find (\<lambda>f. of_state f = s) xs"
    if "s \<noteq> state" "set xs \<subseteq> set (rows (oauth_flows db))" for xs s
    using that same by (induction xs) auto
  ultimately show ?thesis
    by (simp add: db' first_where_def table_simps)
qed

theorem oauth_state_single_use_witness:
  "let flow = mk_oauth_flow (''st'', 1, ''google'', ''v'', 0) 1;
       db = empty_outreach\<lparr>oauth_flows := \<lparr>rows = [flow], next_id = 2\<rparr>\<rparr>;
       db' = fst (consume_oauth_flow ''st'' db)
   in consume_oauth_flow ''st'' db = (db', Some (1, ''google'', ''v'')) \<and>
      consume_oauth_flow ''st'' db' = (db', None)"
proof -
  let ?flow = "mk_oauth_flow (''st'', 1, ''google'', ''v'', 0) 1"
  let ?db = "empty_outreach\<lparr>oauth_flows := \<lparr>rows = [?flow], next_id = 2\<rparr>\<rparr>"
  have ok: "distinct (map of_state (rows (oauth_flows ?db)))" "oauth_flow_keys.keys_ok (oauth_flows ?db)"
    by (simp_all add: oauth_flow_keys.keys_ok_def mk_oauth_flow_def)
  have c: "consume_oauth_flow ''st'' ?db = (fst (consume_oauth_flow ''st'' ?db), Some (1, ''google'', ''v''))"
    by (simp add: consume_oauth_flow_def first_where_def mk_oauth_flow_def)
  show ?thesis
    using oauth_state_single_use [OF ok c] c by (simp add: Let_def)
qed

end
