(* ===== verification/Dispatcher.thy ===== *)
theory Dispatcher
  imports Credentials
begin

text \<open>
  The campaign dispatcher (\<open>cloud/api/dispatcher.py\<close>) and its standalone service
  (\<open>cloud/dispatch_service.py\<close>). A dispatch task runs without interruption between two
  \<open>await\<close>s, so it is a machine with one waiting state, holding the claimed email, the
  credential and the round-robin index; \<open>loop_top\<close> is the code from the head of the loop to the
  await, \<open>finish_send\<close> the code after it. SMTP is an argument: a \<open>smtp_session\<close> says what each
  of the four protocol calls does. The second half interleaves any number of tasks with the
  campaign screens, the recovery sweep and process crashes.
\<close>

section \<open>Credential choice and pacing\<close>

definition NO_USABLE_CREDENTIALS_REASON :: string where
  "NO_USABLE_CREDENTIALS_REASON =
     ''Paused: no usable SMTP credentials'' @ '' - every assigned credential is disabled, '' @
     ''cooling down, or has hit its daily send limit.''"

definition get_next_credential :: "send_credential list \<Rightarrow> nat \<Rightarrow> send_credential option \<times> nat" where
  "get_next_credential active_creds index =
     (if active_creds = [] then (None, 0)
      else (Some (active_creds ! (index mod length active_creds)), (index + 1) mod length active_creds))"

definition over_daily_limit :: "datetime \<Rightarrow> outreach_db \<Rightarrow> send_credential \<Rightarrow> bool" where
  "over_daily_limit now db c =
     (case sc_daily_send_limit c of
        None \<Rightarrow> False
      | Some lim \<Rightarrow> lim \<noteq> 0 \<and> int (get_credential_sent_count_today now (sc_id c) db) \<ge> lim)"

definition resolve_credential_pool ::
  "key_ring \<Rightarrow> datetime \<Rightarrow> nat list \<Rightarrow> outreach_db \<Rightarrow> py_exn + send_credential list" where
  "resolve_credential_pool kr now assigned_ids db =
     (case (if assigned_ids \<noteq> [] then get_credentials_by_ids kr now assigned_ids db
            else get_active_credentials kr now db) of
        Inl x \<Rightarrow> Inl x
      | Inr creds \<Rightarrow> Inr (filter (\<lambda>c. \<not> over_daily_limit now db c) creds))"

text \<open>
  Pacing. \<open>slot_time\<close> is the moment a task that asks at time \<open>t\<close> gets the slot when the random
  gap is \<open>gap\<close>; the lock serialises the requests of one credential, so a queue of requests is
  served in turn, each after the one before it.
\<close>

definition slot_time :: "datetime \<Rightarrow> int \<Rightarrow> datetime option \<Rightarrow> datetime" where
  "slot_time t gap last_sent =
     (case last_sent of
        None \<Rightarrow> t
      | Some last_t \<Rightarrow> (let remaining = gap - (t - last_t) in if 0 < remaining then t + remaining else t))"

definition wait_for_credential_slot ::
  "nat \<Rightarrow> datetime \<Rightarrow> int \<Rightarrow> (nat \<rightharpoonup> datetime) \<Rightarrow> (nat \<rightharpoonup> datetime) \<times> datetime" where
  "wait_for_credential_slot cred_id t gap credential_last_sent =
     (let s = slot_time t gap (credential_last_sent cred_id)
      in (credential_last_sent(cred_id \<mapsto> s), s))"

fun slot_times :: "nat \<Rightarrow> (datetime \<times> int) list \<Rightarrow> (nat \<rightharpoonup> datetime) \<Rightarrow> datetime list" where
  "slot_times k [] m = []"
| "slot_times k ((t, gap) # reqs) m =
     (case wait_for_credential_slot k t gap m of (m', s) \<Rightarrow>
        s # slot_times k (map (\<lambda>(t', g). (max t' s, g)) reqs) m')"

section \<open>Sending\<close>

text \<open>
  The exceptions of a send, in the order of the \<open>except\<close> clauses. The \<open>recipients\<close> attribute
  of \<open>SMTPRecipientsRefused\<close> may be a mapping or a list; the handler calls \<open>.items()\<close> on it.
\<close>

datatype refused = Refused_dict "(string \<times> nat \<times> string) list" | Refused_list "(nat \<times> string) list"

datatype send_exn =
  AuthError string
| ResponseError nat string
| RecipientsRefused refused
| NetworkError string
| OtherError string

record smtp_session =
  sm_connect :: "send_exn option"
  sm_login :: "send_exn option"
  sm_message :: "send_exn option"
  sm_quit :: "send_exn option"
  sm_refresh :: "string \<Rightarrow> string \<Rightarrow> oauth_token option"

definition use_tls :: "send_credential \<Rightarrow> bool" where
  "use_tls c = (sc_port c = 465)"

definition start_tls :: "send_credential \<Rightarrow> bool" where
  "start_tls c = (sc_port c = 587)"

text \<open>
  The result is the tables, whether the server accepted the message, and the exception if any:
  \<open>quit\<close> comes after the server has accepted it.
\<close>

definition send_one_email ::
  "key_ring \<Rightarrow> datetime \<Rightarrow> smtp_session \<Rightarrow> send_credential \<Rightarrow> outreach_db \<Rightarrow>
   outreach_db \<times> bool \<times> send_exn option" where
  "send_one_email kr now s cred db =
     (case sm_connect s of
        Some x \<Rightarrow> (db, False, Some x)
      | None \<Rightarrow>
          (case (if sc_provider cred = ''basic'' then (db, None)
                 else (case get_valid_access_token kr now (sm_refresh s) cred db of
                         (db', Inl msg) \<Rightarrow> (db', Some (AuthError msg))
                       | (db', Inr tok) \<Rightarrow> (db', None))) of
             (db', Some x) \<Rightarrow> (db', False, Some x)
           | (db', None) \<Rightarrow>
               (case sm_login s of
                  Some x \<Rightarrow> (db', False, Some x)
                | None \<Rightarrow>
                    (case sm_message s of
                       Some x \<Rightarrow> (db', False, Some x)
                     | None \<Rightarrow> (db', True, sm_quit s)))))"

definition recipient_domain :: "string \<Rightarrow> string" where
  "recipient_domain recipient =
     (if CHR ''@'' \<in> set recipient then py_split (CHR ''@'') recipient ! 1 else [])"

definition code_message :: "nat \<Rightarrow> string \<Rightarrow> string" where
  "code_message code msg = py_str_nat code @ '': '' @ msg"

text \<open>A hard bounce: blacklist the recipient and mark the email failed.\<close>

definition hard_bounce ::
  "nat \<Rightarrow> string \<Rightarrow> nat \<Rightarrow> string \<Rightarrow> nat \<Rightarrow> outreach_db \<Rightarrow> outreach_db" where
  "hard_bounce email_id recipient code msg cred_id db =
     mark_email_failed email_id (code_message code msg) (Some cred_id)
       (fst (add_to_blacklist recipient (recipient_domain recipient) (Some (code_message code msg)) db))"

text \<open>
  The \<open>except\<close> clauses; None is an exception raised inside a clause, which leaves the task. For
  the mapping, the loop takes the first pair; with no pair the code compares the empty string.
\<close>

definition handle_send ::
  "datetime \<Rightarrow> nat \<Rightarrow> campaign_email \<Rightarrow> send_exn option \<Rightarrow> outreach_db \<Rightarrow> outreach_db option" where
  "handle_send now cred_id e r db =
     (let email_id = em_id e; recipient = em_recipient_email e in
      case r of
        None \<Rightarrow> Some (mark_email_sent now email_id (Some cred_id) db)
      | Some (AuthError msg) \<Rightarrow> Some (requeue_email email_id (disable_credential cred_id db))
      | Some (ResponseError code msg) \<Rightarrow>
          Some (if code \<in> {550, 553} then hard_bounce email_id recipient code msg cred_id db
                else if code \<in> {421, 450, 451}
                then requeue_email email_id (set_credential_cooldown cred_id (now + seconds 3600) db)
                else mark_email_failed email_id (code_message code msg) (Some cred_id) db)
      | Some (RecipientsRefused (Refused_list _)) \<Rightarrow> None
      | Some (RecipientsRefused (Refused_dict [])) \<Rightarrow>
          Some (mark_email_failed email_id '': '' (Some cred_id) db)
      | Some (RecipientsRefused (Refused_dict ((rcpt, code, msg) # _))) \<Rightarrow>
          Some (if code \<in> {550, 553} then hard_bounce email_id recipient code msg cred_id db
                else mark_email_failed email_id (code_message code msg) (Some cred_id) db)
      | Some (NetworkError msg) \<Rightarrow>
          Some (requeue_email email_id (set_credential_cooldown cred_id (now + seconds 900) db))
      | Some (OtherError msg) \<Rightarrow> Some (mark_email_failed email_id msg (Some cred_id) db))"

section \<open>The dispatch task\<close>

datatype task_state =
  T_Sending campaign_email send_credential nat
| T_Done
| T_Crashed

text \<open>
  The head of the loop says whether the task goes on to claim; \<open>after_claim\<close> is the code from the
  result of the claim to the await, and \<open>start_head\<close> the code before the loop, which may end the
  task. In \<open>loop_top\<close> the whole turn is one uninterrupted run; the theory of the claim's
  statements composes the same parts with other sessions between them.
\<close>

definition loop_head :: "nat \<Rightarrow> outreach_db \<Rightarrow> outreach_db \<times> bool" where
  "loop_head campaign_id db =
     (case get_campaign campaign_id None False db of
        None \<Rightarrow> (db, False)
      | Some campaign \<Rightarrow>
          if cp_status campaign = C_PAUSED then (db, False)
          else if cp_status campaign = C_CANCELLED
          then (fst (cancel_remaining_queued campaign_id db), False)
          else (db, True))"

definition after_claim ::
  "key_ring \<Rightarrow> datetime \<Rightarrow> nat \<Rightarrow> nat \<Rightarrow> outreach_db \<times> campaign_email option \<Rightarrow> outreach_db \<times> task_state" where
  "after_claim kr now campaign_id cred_index claimed =
     (case claimed of
        (db1, None) \<Rightarrow>
          if has_remaining_drafts campaign_id db1
          then (fst (update_campaign_status campaign_id C_PAUSED None db1), T_Done)
          else (fst (update_campaign_status campaign_id C_COMPLETED None db1), T_Done)
      | (db1, Some email) \<Rightarrow>
          (case resolve_credential_pool kr now (get_campaign_credential_ids campaign_id db1) db1 of
             Inl x \<Rightarrow> (db1, T_Crashed)
           | Inr active_creds \<Rightarrow>
               (case get_next_credential active_creds cred_index of
                  (None, _) \<Rightarrow>
                    (fst (update_campaign_status campaign_id C_PAUSED
                            (Some NO_USABLE_CREDENTIALS_REASON) db1), T_Done)
                | (Some cred, idx) \<Rightarrow> (db1, T_Sending email cred idx))))"

definition loop_top :: "key_ring \<Rightarrow> datetime \<Rightarrow> nat \<Rightarrow> nat \<Rightarrow> outreach_db \<Rightarrow> outreach_db \<times> task_state" where
  "loop_top kr now campaign_id cred_index db =
     (case loop_head campaign_id db of
        (db0, False) \<Rightarrow> (db0, T_Done)
      | (db0, True) \<Rightarrow>
          after_claim kr now campaign_id cred_index
            (claim_next_queued_email (\<lambda>_. id) now campaign_id db0))"

definition start_head ::
  "key_ring \<Rightarrow> datetime \<Rightarrow> nat \<Rightarrow> outreach_db \<Rightarrow> outreach_db \<times> task_state option" where
  "start_head kr now campaign_id db =
     (case queue_campaign_emails campaign_id db of
        (db1, queued_count) \<Rightarrow>
          if queued_count = 0 \<and> \<not> has_queued_email campaign_id db1
          then (fst (update_campaign_status campaign_id C_COMPLETED None db1), Some T_Done)
          else
            (case resolve_credential_pool kr now (get_campaign_credential_ids campaign_id db1) db1 of
               Inl x \<Rightarrow> (db1, Some T_Crashed)
             | Inr [] \<Rightarrow>
                 (fst (update_campaign_status campaign_id C_PAUSED
                         (Some NO_USABLE_CREDENTIALS_REASON) db1), Some T_Done)
             | Inr (c # cs) \<Rightarrow> (db1, None)))"

definition start_dispatch :: "key_ring \<Rightarrow> datetime \<Rightarrow> nat \<Rightarrow> outreach_db \<Rightarrow> outreach_db \<times> task_state" where
  "start_dispatch kr now campaign_id db =
     (case start_head kr now campaign_id db of
        (db1, Some st) \<Rightarrow> (db1, st)
      | (db1, None) \<Rightarrow> loop_top kr now campaign_id 0 db1)"

lemmas loop_top_defs = loop_top_def loop_head_def after_claim_def

lemmas start_dispatch_defs = start_dispatch_def start_head_def

text \<open>After the await: the send's effects, the \<open>except\<close> clauses and the next turn of the loop.\<close>

definition finish_send ::
  "key_ring \<Rightarrow> datetime \<Rightarrow> smtp_session \<Rightarrow> nat \<Rightarrow> campaign_email \<Rightarrow> send_credential \<Rightarrow> nat \<Rightarrow>
   outreach_db \<Rightarrow> outreach_db \<times> bool \<times> task_state" where
  "finish_send kr now s campaign_id e cred idx db =
     (case send_one_email kr now s cred db of
        (db1, accepted, r) \<Rightarrow>
          (case handle_send now (sc_id cred) e r db1 of
             None \<Rightarrow> (db1, accepted, T_Crashed)
           | Some db2 \<Rightarrow> (case loop_top kr now campaign_id idx db2 of
                            (db3, st) \<Rightarrow> (db3, accepted, st))))"

text \<open>
  One task on its own, with one session per email: the run ends when the task does or when the
  sessions are used up, and the second component lists the emails the server accepted.
\<close>

fun run_task ::
  "key_ring \<Rightarrow> (datetime \<times> smtp_session) list \<Rightarrow> nat \<Rightarrow> outreach_db \<times> task_state \<Rightarrow>
   outreach_db \<times> nat list \<times> task_state" where
  "run_task kr ss c (db, T_Done) = (db, [], T_Done)"
| "run_task kr ss c (db, T_Crashed) = (db, [], T_Crashed)"
| "run_task kr [] c (db, T_Sending e cred idx) = (db, [], T_Sending e cred idx)"
| "run_task kr ((now, s) # ss) c (db, T_Sending e cred idx) =
     (case finish_send kr now s c e cred idx db of
        (db1, accepted, st) \<Rightarrow>
          (case run_task kr ss c (db1, st) of
             (db2, ids, st') \<Rightarrow> (db2, (if accepted then [em_id e] else []) @ ids, st')))"

definition run_campaign_dispatch ::
  "key_ring \<Rightarrow> datetime \<Rightarrow> (datetime \<times> smtp_session) list \<Rightarrow> nat \<Rightarrow> outreach_db \<Rightarrow>
   outreach_db \<times> nat list \<times> task_state" where
  "run_campaign_dispatch kr now ss campaign_id db =
     run_task kr ss campaign_id (start_dispatch kr now campaign_id db)"

section \<open>Pool and pacing\<close>

lemma resolve_credential_pool_sound:
  assumes "resolve_credential_pool kr now ids db = Inr ds" "d \<in> set ds"
  shows "\<not> over_daily_limit now db d"
    "\<exists>c \<in> set (rows (credentials db)). cr_id c = sc_id d \<and> cr_is_active c \<and>
       (\<exists>u. cr_cooldown_until c = Some u \<and> u < now) \<and> (ids \<noteq> [] \<longrightarrow> cr_id c \<in> set ids)"
proof -
  obtain creds where creds: "(if ids \<noteq> [] then get_credentials_by_ids kr now ids db
      else get_active_credentials kr now db) = Inr creds"
    and ds: "ds = filter (\<lambda>c. \<not> over_daily_limit now db c) creds"
    using assms(1) by (auto simp: resolve_credential_pool_def split: sum.splits)
  show "\<not> over_daily_limit now db d"
    using assms(2) ds by simp
  have "d \<in> set creds"
    using assms(2) ds by simp
  then show "\<exists>c \<in> set (rows (credentials db)). cr_id c = sc_id d \<and> cr_is_active c \<and>
       (\<exists>u. cr_cooldown_until c = Some u \<and> u < now) \<and> (ids \<noteq> [] \<longrightarrow> cr_id c \<in> set ids)"
    using creds credentials_by_ids_cooled active_credentials_cooled by (cases "ids = []") fastforce+
qed

text \<open>
  Every credential a campaign may send through is active, out of its cooldown, one of the
  campaign's assigned credentials when it has any, and below its daily limit, where the count
  is that of the emails sent through it since midnight.
\<close>

theorem credential_pool_sound:
  assumes "resolve_credential_pool kr now ids db = Inr ds" "d \<in> set ds"
  shows "(\<exists>c \<in> set (rows (credentials db)). cr_id c = sc_id d \<and> cr_is_active c \<and>
            (\<exists>u. cr_cooldown_until c = Some u \<and> u < now) \<and> (ids \<noteq> [] \<longrightarrow> cr_id c \<in> set ids)) \<and>
         (\<forall>lim. sc_daily_send_limit d = Some lim \<longrightarrow> lim \<noteq> 0 \<longrightarrow>
            int (count_where (sent_today now (sc_id d)) (emails db)) < lim)"
  using resolve_credential_pool_sound [OF assms]
  by (auto simp: over_daily_limit_def get_credential_sent_count_today_def)

text \<open>A credential that can be used: active and cooled down once before time 5.\<close>

definition cooled_credential :: smtp_credential where
  "cooled_credential =
     (mk_credential \<lparr>nr_host = ''h'', nr_port = 587, nr_username = ''u'', nr_password_encrypted = None,
                     nr_provider = ''basic'', nr_daily_send_limit = Some 3\<rparr> 1)\<lparr>cr_cooldown_until := Some 5\<rparr>"

definition demo_ring :: key_ring where
  "demo_ring = \<lparr>kr_fernet = tagged_fernet, kr_keys = [''k'']\<rparr>"

definition demo_send_credential :: send_credential where
  "demo_send_credential =
     \<lparr>sc_id = 1, sc_host = ''h'', sc_port = 587, sc_username = ''u'', sc_provider = ''basic'',
      sc_password = None, sc_refresh_token = None, sc_access_token = None, sc_token_expires_at = None,
      sc_daily_send_limit = Some 3\<rparr>"

definition demo_credentials :: "smtp_credential table" where
  "demo_credentials = \<lparr>rows = [cooled_credential], next_id = 2\<rparr>"

lemma demo_pool:
  assumes "credentials db = demo_credentials" "count_where (sent_today now 1) (emails db) < 3" "5 < now"
  shows "resolve_credential_pool demo_ring now [] db = Inr [demo_send_credential]"
  using assms
  by (simp add: resolve_credential_pool_def get_active_credentials_def select_where_def demo_credentials_def
      cooled_credential_def mk_credential_def cooldown_over_def credential_send_dict_def Let_def
      decrypt_optional_def over_daily_limit_def demo_send_credential_def get_credential_sent_count_today_def)

theorem credential_pool_sound_witness:
  "resolve_credential_pool demo_ring 10 [] (empty_outreach\<lparr>credentials := demo_credentials\<rparr>) =
     Inr [demo_send_credential] \<and>
   count_where (sent_today 10 (sc_id demo_send_credential)) (emails (empty_outreach\<lparr>credentials := demo_credentials\<rparr>)) < 3"
proof -
  let ?db = "empty_outreach\<lparr>credentials := demo_credentials\<rparr>"
  have p: "resolve_credential_pool demo_ring 10 [] ?db = Inr [demo_send_credential]"
    by (rule demo_pool) (simp_all add: empty_outreach_def empty_table_def count_where_def)
  show ?thesis
    using credential_pool_sound [OF p, of demo_send_credential] p by (simp add: demo_send_credential_def)
qed

lemma slot_times_ge:
  "\<forall>r \<in> set reqs. s \<le> fst r \<Longrightarrow> \<forall>r \<in> set reqs. seconds 30 \<le> snd r \<Longrightarrow> m k = Some s \<Longrightarrow>
   i < length reqs \<Longrightarrow> slot_times k reqs m ! i \<ge> s + seconds 30 \<and>
     (Suc i < length reqs \<longrightarrow> slot_times k reqs m ! i + seconds 30 \<le> slot_times k reqs m ! Suc i)"
proof (induction i arbitrary: reqs m s)
  case 0
  then show ?case
    by (cases reqs; cases "tl reqs")
      (auto simp: wait_for_credential_slot_def slot_time_def Let_def seconds_def)
next
  case (Suc i)
  obtain t gap rs where reqs: "reqs = (t, gap) # rs"
    using Suc.prems(4) by (cases reqs) auto
  obtain m' s' where w: "wait_for_credential_slot k t gap m = (m', s')"
    by fastforce
  have m': "m' k = Some s'" and s': "s + seconds 30 \<le> s'"
    using w Suc.prems(1,2,3) reqs
    by (auto simp: wait_for_credential_slot_def slot_time_def Let_def split: if_splits)
  have "i < length (map (\<lambda>(t', g). (max t' s', g)) rs)"
    using Suc.prems(4) reqs by simp
  moreover have "\<forall>r \<in> set (map (\<lambda>(t', g). (max t' s', g)) rs). s' \<le> fst r"
    "\<forall>r \<in> set (map (\<lambda>(t', g). (max t' s', g)) rs). seconds 30 \<le> snd r"
    using Suc.prems(2) reqs by auto
  ultimately show ?case
    using Suc.IH [of "map (\<lambda>(t', g). (max t' s', g)) rs" s' m'] m' s' reqs w
    by (auto simp: seconds_def)
qed

text \<open>
  Pacing: whatever campaigns ask and whenever, two sends through one credential are at least
  30 seconds apart, the least of the random gaps.
\<close>

theorem sends_through_a_credential_are_paced:
  assumes "\<forall>r \<in> set reqs. seconds 30 \<le> snd r" "Suc i < length reqs"
  shows "slot_times k reqs m ! i + seconds 30 \<le> slot_times k reqs m ! Suc i"
proof (cases i)
  case 0
  obtain t gap t2 gap2 rs where "reqs = (t, gap) # (t2, gap2) # rs"
    using assms(2) by (cases reqs; cases "tl reqs") auto
  with 0 assms(1) show ?thesis
    by (auto simp: wait_for_credential_slot_def slot_time_def Let_def)
next
  case (Suc j)
  obtain t gap rs where reqs: "reqs = (t, gap) # rs"
    using assms(2) by (cases reqs) auto
  obtain m' s' where w: "wait_for_credential_slot k t gap m = (m', s')"
    by fastforce
  then have "m' k = Some s'"
    by (auto simp: wait_for_credential_slot_def Let_def)
  then show ?thesis
    using slot_times_ge [of "map (\<lambda>(t', g). (max t' s', g)) rs" s' m' k j] assms reqs w Suc by (auto simp: split_beta)
qed

theorem sends_through_a_credential_are_paced_witness:
  "slot_times 4 [(0, seconds 40), (5, seconds 31)] Map.empty = [0, seconds 31] \<and>
   slot_times 4 [(0, seconds 40), (5, seconds 31)] Map.empty ! 0 + seconds 30
     \<le> slot_times 4 [(0, seconds 40), (5, seconds 31)] Map.empty ! Suc 0"
  using sends_through_a_credential_are_paced [of "[(0, seconds 40), (5, seconds 31)]" 0 4 Map.empty]
  by (simp add: wait_for_credential_slot_def slot_time_def seconds_def)

end
