(* ===== verification/Interleaving.thy ===== *)
theory Interleaving
  imports Dispatcher
begin

text \<open>
  Everything that runs against the outreach tables at once: dispatch tasks, the campaign
  screens, the recovery sweep of \<open>dispatch_service.py\<close> and \<open>server.py\<close>, and process deaths. A
  world holds the tables, the clock, the live tasks and the log of messages the mail server
  accepted; \<open>act\<close> performs one uninterrupted action. The invariant of the claim is proved by
  rule induction over the reachable worlds.
\<close>

section \<open>Actions of the screens\<close>

datatype screen_op =
  O_create_template string string string
| O_update_template nat "string option" "string option" "string option"
| O_delete_template nat
| O_add_to_blacklist string string "string option"
| O_remove_from_blacklist nat
| O_create_campaign datetime string nat string "nat option" "campaign_status option" "nat option"
| O_campaign_status nat campaign_status "string option"
| O_set_credentials nat "nat list"
| O_add_emails nat "draft_email list"
| O_add_email nat string string string "nat option"
| O_update_email nat string string
| O_select_email nat bool
| O_select_all nat bool
| O_delete_email nat
| O_create_credential string int string "string option" string "int option"
| O_update_credential nat credential_update
| O_delete_credential nat
| O_start_oauth datetime string nat string string
| O_consume_oauth string
| O_tokens nat string string "datetime option"

fun apply_screen :: "key_ring \<Rightarrow> screen_op \<Rightarrow> outreach_db \<Rightarrow> outreach_db" where
  "apply_screen kr (O_create_template n s b) db = fst (create_template n s b db)"
| "apply_screen kr (O_update_template i n s b) db = fst (update_template i n s b db)"
| "apply_screen kr (O_delete_template i) db =
     (case delete_template i db of Inl _ \<Rightarrow> db | Inr (db', _) \<Rightarrow> db')"
| "apply_screen kr (O_add_to_blacklist e d r) db = fst (add_to_blacklist e d r db)"
| "apply_screen kr (O_remove_from_blacklist i) db = fst (remove_from_blacklist i db)"
| "apply_screen kr (O_create_campaign t n tp k tc st ow) db =
     (case create_campaign t n tp k tc st ow db of Inl _ \<Rightarrow> db | Inr (db', _) \<Rightarrow> db')"
| "apply_screen kr (O_campaign_status c st r) db = fst (update_campaign_status c st r db)"
| "apply_screen kr (O_set_credentials c ks) db =
     (case set_campaign_credentials c ks db of Inl _ \<Rightarrow> db | Inr db' \<Rightarrow> db')"
| "apply_screen kr (O_add_emails c es) db = fst (bulk_create_campaign_emails c es db)"
| "apply_screen kr (O_add_email c r s b l) db = fst (create_campaign_email c r s b l db)"
| "apply_screen kr (O_update_email i s b) db = fst (update_email i s b db)"
| "apply_screen kr (O_select_email i b) db = fst (set_email_selection id i b db)"
| "apply_screen kr (O_select_all c b) db = fst (set_all_email_selection c b db)"
| "apply_screen kr (O_delete_email i) db = fst (delete_campaign_email i db)"
| "apply_screen kr (O_create_credential h p u pw pv l) db = fst (create_credential kr h p u pw pv l db)"
| "apply_screen kr (O_update_credential i u) db = fst (update_credential kr i u db)"
| "apply_screen kr (O_delete_credential i) db =
     (case delete_credential i db of Inl _ \<Rightarrow> db | Inr (db', _) \<Rightarrow> db')"
| "apply_screen kr (O_start_oauth t s i p v) db =
     (case create_oauth_flow t s i p v db of Inl _ \<Rightarrow> db | Inr db' \<Rightarrow> db')"
| "apply_screen kr (O_consume_oauth s) db = fst (consume_oauth_flow s db)"
| "apply_screen kr (O_tokens i a r x) db = update_credential_tokens kr i a r x db"

section \<open>Worlds\<close>

record world =
  wd_db :: outreach_db
  wd_now :: datetime
  wd_tasks :: "nat \<rightharpoonup> nat \<times> task_state"
  wd_accepted :: "nat list"

datatype action =
  A_screen screen_op
| A_dispatch nat nat
| A_finish nat smtp_session
| A_recover int
| A_crash
| A_die nat smtp_session
| A_tick int

text \<open>
  \<open>A_dispatch k c\<close> creates task \<open>k\<close> for campaign \<open>c\<close>. \<open>A_crash\<close> ends the process, \<open>A_die k s\<close>
  ends it after the server accepted the message of task \<open>k\<close> and before the tables say so.
\<close>

fun act :: "key_ring \<Rightarrow> action \<Rightarrow> world \<Rightarrow> world" where
  "act kr (A_screen op) w = w\<lparr>wd_db := apply_screen kr op (wd_db w)\<rparr>"
| "act kr (A_dispatch k c) w =
     (case wd_tasks w k of
        Some _ \<Rightarrow> w
      | None \<Rightarrow>
          (case start_dispatch kr (wd_now w) c (wd_db w) of
             (db, st) \<Rightarrow> w\<lparr>wd_db := db, wd_tasks := (wd_tasks w)(k \<mapsto> (c, st))\<rparr>))"
| "act kr (A_finish k s) w =
     (case wd_tasks w k of
        Some (c, T_Sending e cred idx) \<Rightarrow>
          (case finish_send kr (wd_now w) s c e cred idx (wd_db w) of
             (db, accepted, st) \<Rightarrow>
               w\<lparr>wd_db := db, wd_tasks := (wd_tasks w)(k \<mapsto> (c, st)),
                 wd_accepted := (if accepted then [em_id e] else []) @ wd_accepted w\<rparr>)
      | _ \<Rightarrow> w)"
| "act kr (A_recover threshold) w =
     w\<lparr>wd_db := fst (recover_stuck_sending id (wd_now w) threshold (wd_db w))\<rparr>"
| "act kr A_crash w = w\<lparr>wd_tasks := Map.empty\<rparr>"
| "act kr (A_die k s) w =
     (case wd_tasks w k of
        Some (c, T_Sending e cred idx) \<Rightarrow>
          (case send_one_email kr (wd_now w) s cred (wd_db w) of
             (db, accepted, r) \<Rightarrow>
               w\<lparr>wd_db := db, wd_tasks := Map.empty,
                 wd_accepted := (if accepted then [em_id e] else []) @ wd_accepted w\<rparr>)
      | _ \<Rightarrow> w)"
| "act kr (A_tick d) w = w\<lparr>wd_now := wd_now w + max 0 d\<rparr>"

definition holds :: "world \<Rightarrow> nat \<Rightarrow> nat \<Rightarrow> bool" where
  "holds w k i = (\<exists>c e cred idx. wd_tasks w k = Some (c, T_Sending e cred idx) \<and> em_id e = i)"

text \<open>The recovery sweep finds only emails no live task holds.\<close>

definition recover_spares :: "world \<Rightarrow> action \<Rightarrow> bool" where
  "recover_spares w a =
     (case a of
        A_recover th \<Rightarrow> (\<forall>i \<in> set (snd (recover_stuck_sending id (wd_now w) th (wd_db w))). \<forall>k. \<not> holds w k i)
      | _ \<Rightarrow> True)"

text \<open>The send is recorded: no exception after the server accepts, no death in between.\<close>

definition send_recorded :: "action \<Rightarrow> bool" where
  "send_recorded a = (case a of A_finish k s \<Rightarrow> sm_quit s = None | A_die k s \<Rightarrow> False | _ \<Rightarrow> True)"

inductive reach :: "key_ring \<Rightarrow> (world \<Rightarrow> action \<Rightarrow> bool) \<Rightarrow> world \<Rightarrow> world \<Rightarrow> bool"
  for kr allowed w0 where
  reach_start: "reach kr allowed w0 w0"
| reach_act: "reach kr allowed w0 w \<Longrightarrow> allowed w a \<Longrightarrow> reach kr allowed w0 (act kr a w)"

section \<open>What an action does to an email that is being sent or was sent\<close>

text \<open>\<open>flight db i\<close> is the status of email \<open>i\<close> when it is SENDING or SENT.\<close>

definition flight :: "outreach_db \<Rightarrow> nat \<Rightarrow> email_status option" where
  "flight db i =
     (case email_at db i of None \<Rightarrow> None | Some e \<Rightarrow> if in_flight e then Some (em_status e) else None)"

lemma flight_SomeE:
  assumes "flight db i = Some st"
  obtains e where "email_at db i = Some e" "in_flight e" "em_status e = st" "em_id e = i"
  using assms email_at_SomeD by (fastforce simp: flight_def split: option.splits if_splits)

lemma flight_SomeI: "email_at db i = Some e \<Longrightarrow> in_flight e \<Longrightarrow> flight db i = Some (em_status e)"
  by (simp add: flight_def)

definition keeps_flight :: "outreach_db \<Rightarrow> outreach_db \<Rightarrow> bool" where
  "keeps_flight db db' =
     ((\<forall>i st. flight db i = Some st \<longrightarrow> flight db' i = Some st) \<and>
      (email_keys.keys_ok (emails db) \<longrightarrow> email_keys.keys_ok (emails db')))"

lemma keeps_flight_refl [simp]: "keeps_flight db db"
  by (simp add: keeps_flight_def)

lemma keeps_flight_trans: "keeps_flight a b \<Longrightarrow> keeps_flight b c \<Longrightarrow> keeps_flight a c"
  by (simp add: keeps_flight_def)

lemma keeps_flight_same: "emails db' = emails db \<Longrightarrow> keeps_flight db db'"
  by (simp add: keeps_flight_def flight_def email_at_def)

lemma keeps_flightI:
  assumes "\<And>i e. email_at db i = Some e \<Longrightarrow> in_flight e \<Longrightarrow>
      \<exists>e'. email_at db' i = Some e' \<and> em_status e' = em_status e"
    and "email_keys.keys_ok (emails db) \<Longrightarrow> email_keys.keys_ok (emails db')"
  shows "keeps_flight db db'"
proof -
  have "flight db' i = Some st" if f: "flight db i = Some st" for i st
  proof (rule flight_SomeE [OF f])
    fix e
    assume e: "email_at db i = Some e" "in_flight e" "em_status e = st" "em_id e = i"
    then obtain e' where "email_at db' i = Some e'" "em_status e' = em_status e"
      using assms(1) by blast
    with e show ?thesis
      by (simp add: flight_def in_flight_def)
  qed
  with assms(2) show ?thesis
    by (simp add: keeps_flight_def)
qed

lemma keys_ok_add_emails:
  "email_keys.keys_ok t \<Longrightarrow> email_keys.keys_ok (add_emails c es t)"
  by (induction es arbitrary: t) (simp_all add: email_keys.keys_ok_insert)

lemma keeps_flight_update:
  assumes "\<And>e. em_id (f e) = em_id e"
    and "\<And>e. p e \<Longrightarrow> in_flight e \<Longrightarrow> em_status (f e) = em_status e"
  shows "keeps_flight db (db\<lparr>emails := update_where p f (emails db)\<rparr>)"
  by (rule keeps_flightI) (use assms in \<open>auto simp: email_at_update email_keys.keys_ok_update\<close>)

lemma keeps_flight_queue: "keeps_flight db (fst (queue_campaign_emails c db))"
  unfolding queue_campaign_emails_def Let_def fst_conv by (rule keeps_flight_update) (auto simp: in_flight_def)

lemma keeps_flight_cancel: "keeps_flight db (fst (cancel_remaining_queued c db))"
  unfolding cancel_remaining_queued_def Let_def fst_conv by (rule keeps_flight_update) (auto simp: in_flight_def)

lemma keeps_flight_update_email: "keeps_flight db (fst (update_email i s b db))"
  by (simp add: update_email_def Let_def keeps_flight_update)

lemma keeps_flight_select: "keeps_flight db (fst (set_email_selection id i b db))"
proof (rule keeps_flightI)
  show "email_keys.keys_ok (emails db) \<Longrightarrow> email_keys.keys_ok (emails (fst (set_email_selection id i b db)))"
    by (simp add: set_email_selection_defs Let_def email_keys.keys_ok_update split: option.split)
qed (blast dest: set_email_selection_in_flight)

lemma keeps_flight_select_all: "keeps_flight db (fst (set_all_email_selection c b db))"
proof (rule keeps_flightI)
  show "email_keys.keys_ok (emails db) \<Longrightarrow> email_keys.keys_ok (emails (fst (set_all_email_selection c b db)))"
    by (simp add: set_all_email_selection_def Let_def email_keys.keys_ok_update)
qed (blast dest: set_all_email_selection_in_flight)

lemma keeps_flight_delete: "keeps_flight db (fst (delete_campaign_email i db))"
proof (rule keeps_flightI)
  show "email_keys.keys_ok (emails db) \<Longrightarrow> email_keys.keys_ok (emails (fst (delete_campaign_email i db)))"
    by (simp add: delete_campaign_email_def Let_def email_keys.keys_ok_delete)
qed (blast dest: delete_campaign_email_in_flight)

lemma keeps_flight_bulk: "keeps_flight db (fst (bulk_create_campaign_emails c es db))"
proof (rule keeps_flightI)
  show "email_keys.keys_ok (emails db) \<Longrightarrow> email_keys.keys_ok (emails (fst (bulk_create_campaign_emails c es db)))"
    by (simp add: bulk_create_campaign_emails_def keys_ok_add_emails)
qed (blast dest: bulk_create_keeps)

lemma keeps_flight_create: "keeps_flight db (fst (create_campaign_email c r s b l db))"
proof (rule keeps_flightI)
  show "email_keys.keys_ok (emails db) \<Longrightarrow> email_keys.keys_ok (emails (fst (create_campaign_email c r s b l db)))"
    by (simp add: create_campaign_email_def Let_def split_beta email_keys.keys_ok_insert)
qed (blast dest: create_campaign_email_keeps)

lemma emails_add_to_blacklist [simp]: "emails (fst (add_to_blacklist e d r db)) = emails db"
  by (simp add: add_to_blacklist_def Let_def split_beta)

lemma emails_update_campaign_status [simp]: "emails (fst (update_campaign_status c st r db)) = emails db"
  by (simp add: update_campaign_status_def Let_def)

lemma emails_tokens [simp]: "emails (update_credential_tokens kr i a r x db) = emails db"
  by (simp add: update_credential_tokens_def Let_def)

lemma emails_disable [simp]: "emails (disable_credential i db) = emails db"
  by (simp add: disable_credential_def)

lemma emails_cooldown [simp]: "emails (set_credential_cooldown i t db) = emails db"
  by (simp add: set_credential_cooldown_def)

lemma emails_create_campaign: "create_campaign t n tp k tc st ow db = Inr (db', i) \<Longrightarrow> emails db' = emails db"
  by (auto simp: create_campaign_def Let_def split_beta split: if_splits)

lemma emails_set_campaign_credentials: "set_campaign_credentials c ks db = Inr db' \<Longrightarrow> emails db' = emails db"
  by (auto simp: set_campaign_credentials_def Let_def split: option.splits if_splits list.splits)

lemma emails_delete_credential: "delete_credential i db = Inr (db', b) \<Longrightarrow> emails db' = emails db"
  by (auto simp: delete_credential_def Let_def split: if_splits)

lemma emails_delete_template: "delete_template i db = Inr (db', b) \<Longrightarrow> emails db' = emails db"
  by (auto simp: delete_template_def Let_def split: if_splits)

lemma emails_create_oauth_flow: "create_oauth_flow t s i p v db = Inr db' \<Longrightarrow> emails db' = emails db"
  by (auto simp: create_oauth_flow_def Let_def split: if_splits)

lemmas emails_of_result =
  emails_create_campaign emails_set_campaign_credentials emails_delete_credential
  emails_delete_template emails_create_oauth_flow

lemma screen_keeps_flight: "keeps_flight db (apply_screen kr op db)"
proof (cases op)
  case (O_create_campaign t n tp k tc st ow)
  then show ?thesis
    by (auto intro: keeps_flight_same dest: emails_of_result split: sum.splits)
next
  case (O_set_credentials c ks)
  then show ?thesis
    by (auto intro: keeps_flight_same dest: emails_of_result split: sum.splits)
next
  case (O_delete_credential i)
  then show ?thesis
    by (auto intro: keeps_flight_same dest: emails_of_result split: sum.splits)
next
  case (O_delete_template i)
  then show ?thesis
    by (auto intro: keeps_flight_same dest: emails_of_result split: sum.splits)
next
  case (O_start_oauth t s i p v)
  then show ?thesis
    by (auto intro: keeps_flight_same dest: emails_of_result split: sum.splits)
qed (simp_all add: keeps_flight_bulk keeps_flight_create keeps_flight_update_email keeps_flight_select
      keeps_flight_select_all keeps_flight_delete keeps_flight_same create_template_def
      update_template_def remove_from_blacklist_def create_credential_def update_credential_def
      consume_oauth_flow_def Let_def split_beta split: option.split)

section \<open>What a task does\<close>

text \<open>
  \<open>claims db db' st\<close>: from \<open>db\<close> to \<open>db'\<close> the mail in flight stays, and a task that ends up
  waiting took an email that was not in flight and is SENDING now.
\<close>

definition claims :: "outreach_db \<Rightarrow> outreach_db \<Rightarrow> task_state \<Rightarrow> bool" where
  "claims db db' st =
     (keeps_flight db db' \<and>
      (case st of
         T_Sending e cred idx \<Rightarrow> flight db (em_id e) = None \<and> flight db' (em_id e) = Some E_SENDING
       | _ \<Rightarrow> True))"

lemma keeps_flight_back: "keeps_flight a b \<Longrightarrow> flight b i = None \<Longrightarrow> flight a i = None"
  by (cases "flight a i") (auto simp: keeps_flight_def)

lemma claims_after: "keeps_flight a b \<Longrightarrow> claims b c st \<Longrightarrow> claims a c st"
  by (auto simp: claims_def intro: keeps_flight_trans keeps_flight_back split: task_state.splits)

lemma claims_not_waiting:
  "keeps_flight db db' \<Longrightarrow> claims db db' T_Done" "keeps_flight db db' \<Longrightarrow> claims db db' T_Crashed"
  by (simp_all add: claims_def)

lemma claim_guarded_flight:
  assumes "email_at db i = Some e" "em_status e = E_QUEUED"
  shows "keeps_flight db (fst (claim_guarded now i db))" "flight db i = None"
    "flight (fst (claim_guarded now i db)) i = Some E_SENDING"
proof -
  show "keeps_flight db (fst (claim_guarded now i db))"
    unfolding claim_guarded_def Let_def fst_conv
    by (rule keeps_flight_update) (auto simp: in_flight_def)
  show "flight db i = None"
    using assms by (simp add: flight_def in_flight_def)
  show "flight (fst (claim_guarded now i db)) i = Some E_SENDING"
    using assms email_at_SomeD [OF assms(1)]
    by (simp add: flight_def in_flight_def email_at_claim_guarded)
qed

lemma loop_top_claims:
  assumes "email_keys.keys_ok (emails db)" "loop_top kr now c idx db = (db', st)"
  shows "claims db db' st"
proof (cases "first_queued c db")
  case None
  then have "claim_next_queued_email (\<lambda>_. id) now c db = (db, None)"
    by (simp add: claim_one_session)
  then show ?thesis
    using assms(2)
    by (auto simp: loop_top_defs claims_not_waiting keeps_flight_same keeps_flight_cancel
        split: option.splits if_splits)
next
  case (Some e)
  note q = first_queued_SomeD [OF Some]
  have at: "email_at db (em_id e) = Some e"
    using assms(1) q(1) by (rule email_at_memI)
  note f = claim_guarded_flight [OF at q(3)]
  define db1 where "db1 = fst (claim_guarded now (em_id e) db)"
  have claim: "claim_next_queued_email (\<lambda>_. id) now c db = (db1, Some e)"
    using Some by (simp add: claim_one_session db1_def)
  have "claims db db1 (T_Sending e cred i)" for cred i
    using f by (simp add: claims_def db1_def)
  moreover have "keeps_flight db db1"
    using f by (simp add: db1_def)
  moreover have "keeps_flight db (fst (update_campaign_status c st' r db1))" for st' r
    by (rule keeps_flight_trans [OF \<open>keeps_flight db db1\<close> keeps_flight_same]) simp
  ultimately show ?thesis
    using assms(2) claim
    by (auto simp: loop_top_defs claims_not_waiting keeps_flight_cancel
        split: option.splits if_splits sum.splits prod.splits)
qed

lemma start_dispatch_claims:
  assumes "email_keys.keys_ok (emails db)" "start_dispatch kr now c db = (db', st)"
  shows "claims db db' st"
proof -
  obtain db1 n where q: "queue_campaign_emails c db = (db1, n)"
    by fastforce
  have k: "keeps_flight db db1"
    using keeps_flight_queue [of db c] q by simp
  then have ok: "email_keys.keys_ok (emails db1)"
    using assms(1) by (simp add: keeps_flight_def)
  have "claims db1 db' st"
    using assms(2) q loop_top_claims [OF ok]
    by (auto simp: start_dispatch_defs claims_not_waiting keeps_flight_same
        split: if_splits sum.splits list.splits)
  then show ?thesis
    by (rule claims_after [OF k])
qed

lemma send_one_email_emails: "send_one_email kr now s cred db = (db', a, r) \<Longrightarrow> emails db' = emails db"
  by (auto simp: send_one_email_def get_valid_access_token_def
      split: option.splits if_splits sum.splits prod.splits)

text \<open>The handler touches the row of its own email only; without an exception it is SENT.\<close>

definition row_only :: "outreach_db \<Rightarrow> nat \<Rightarrow> bool \<Rightarrow> outreach_db \<Rightarrow> bool" where
  "row_only db i sent db' =
     (\<exists>f. emails db' = update_where (\<lambda>x. em_id x = i) f (emails db) \<and> (\<forall>x. em_id (f x) = em_id x) \<and>
          (sent \<longrightarrow> (\<forall>x. em_status (f x) = E_SENT)))"

lemma row_only_sent: "emails d = emails db \<Longrightarrow> row_only db i b (mark_email_sent now i k d)"
  unfolding row_only_def mark_email_sent_def
  by (rule exI [of _ "\<lambda>e. e\<lparr>em_status := E_SENT, em_sent_at := Some now, em_credential_id := k\<rparr>"]) simp

lemma row_only_failed: "emails d = emails db \<Longrightarrow> row_only db i False (mark_email_failed i m k d)"
  unfolding row_only_def mark_email_failed_def
  by (rule exI [of _ "\<lambda>e. e\<lparr>em_status := E_FAILED, em_error_message := Some m, em_credential_id := k\<rparr>"]) simp

lemma row_only_requeued: "emails d = emails db \<Longrightarrow> row_only db i False (requeue_email i d)"
  unfolding row_only_def requeue_email_def
  by (rule exI [of _ "\<lambda>e. e\<lparr>em_status := E_QUEUED, em_sending_since := None\<rparr>"]) simp

lemma handle_send_row_only:
  assumes "handle_send now k e r db = Some db'"
  shows "row_only db (em_id e) (r = None) db'"
proof (cases r)
  case None
  then show ?thesis
    using assms by (auto simp: handle_send_def Let_def intro: row_only_sent)
next
  case (Some x)
  have "row_only db (em_id e) False db'"
    using assms Some
    by (auto simp: handle_send_def Let_def hard_bounce_def simp del: insert_iff
        intro!: row_only_failed row_only_requeued
        split: send_exn.splits refused.splits list.splits prod.splits if_splits)
  then show ?thesis
    using Some by simp
qed

lemma row_only_flight:
  assumes "row_only db i sent db'" "email_keys.keys_ok (emails db)"
  shows "email_keys.keys_ok (emails db')"
    "j \<noteq> i \<Longrightarrow> flight db j = Some st \<Longrightarrow> flight db' j = Some st"
    "sent \<Longrightarrow> flight db i = Some st' \<Longrightarrow> flight db' i = Some E_SENT"
proof -
  obtain f where e: "emails db' = update_where (\<lambda>x. em_id x = i) f (emails db)"
    and f: "\<And>x. em_id (f x) = em_id x" and s: "sent \<Longrightarrow> \<forall>x. em_status (f x) = E_SENT"
    using assms(1) by (auto simp: row_only_def)
  have at: "email_at db' j = map_option (\<lambda>x. if em_id x = i then f x else x) (email_at db j)" for j
    by (simp add: email_at_def e f first_where_update_where)
  show "email_keys.keys_ok (emails db')"
    using assms(2) f by (simp add: e email_keys.keys_ok_update)
  show "flight db' j = Some st" if "j \<noteq> i" "flight db j = Some st"
    by (rule flight_SomeE [OF that(2)]) (use that in \<open>auto simp: flight_def at\<close>)
  show "flight db' i = Some E_SENT" if "sent" "flight db i = Some st'"
    by (rule flight_SomeE [OF that(2)]) (use s [OF that(1)] in \<open>auto simp: flight_def at in_flight_def\<close>)
qed

lemma finish_send_cases:
  assumes "finish_send kr now s c e cred idx db = (db', accepted, st)"
  obtains (crash) db1 r where "send_one_email kr now s cred db = (db1, accepted, r)"
      "handle_send now (sc_id cred) e r db1 = None" "db' = db1" "st = T_Crashed"
  | (go_on) db1 r db2 where "send_one_email kr now s cred db = (db1, accepted, r)"
      "handle_send now (sc_id cred) e r db1 = Some db2" "loop_top kr now c idx db2 = (db', st)"
  using assms by (auto simp: finish_send_def split: prod.splits option.splits)

lemma accepted_no_exception:
  "send_one_email kr now s cred db = (db', True, r) \<Longrightarrow> r = sm_quit s"
  by (auto simp: send_one_email_def split: option.splits prod.splits)

lemma flight_same: "emails db' = emails db \<Longrightarrow> flight db' = flight db"
  by (simp add: fun_eq_iff flight_def email_at_def)

lemma handle_accepted: "handle_send now k e None db \<noteq> None"
  by (simp add: handle_send_def Let_def)

lemma finish_send_flight:
  assumes "email_keys.keys_ok (emails db)" "flight db (em_id e) = Some E_SENDING"
    and "finish_send kr now s c e cred idx db = (db', accepted, st)"
  shows "email_keys.keys_ok (emails db') \<and>
    (\<forall>i v. i \<noteq> em_id e \<longrightarrow> flight db i = Some v \<longrightarrow> flight db' i = Some v) \<and>
    (case st of T_Sending e' _ _ \<Rightarrow>
       (em_id e' = em_id e \<or> flight db (em_id e') = None) \<and> flight db' (em_id e') = Some E_SENDING
     | _ \<Rightarrow> True) \<and>
    (accepted \<longrightarrow> sm_quit s = None \<longrightarrow> flight db' (em_id e) = Some E_SENT)"
  using assms(3)
proof (cases rule: finish_send_cases)
  case (crash db1 r)
  have "flight db' = flight db" "emails db' = emails db"
    using flight_same [OF send_one_email_emails [OF crash(1)]] send_one_email_emails [OF crash(1)] crash(3)
    by simp_all
  moreover have "\<not> (accepted \<and> sm_quit s = None)"
  proof
    assume a: "accepted \<and> sm_quit s = None"
    then have "r = None"
      using crash(1) accepted_no_exception by simp
    then show False
      using crash(2) handle_accepted by simp
  qed
  ultimately show ?thesis
    using crash(4) assms(1) by auto
next
  case (go_on db1 r db2)
  note same = flight_same [OF send_one_email_emails [OF go_on(1)]]
  have ok1: "email_keys.keys_ok (emails db1)"
    using assms(1) send_one_email_emails [OF go_on(1)] by simp
  note row = row_only_flight [OF handle_send_row_only [OF go_on(2)] ok1]
  have cl: "claims db2 db' st"
    by (rule loop_top_claims [OF row(1) go_on(3)])
  then have k: "\<And>i v. flight db2 i = Some v \<Longrightarrow> flight db' i = Some v" "email_keys.keys_ok (emails db')"
    using row(1) by (auto simp: claims_def keeps_flight_def)
  have unclaimed: "i = em_id e \<or> flight db i = None" if "flight db2 i = None" for i
    using that row(2) [of i] same by (cases "flight db i") auto
  with cl have waiting: "case st of T_Sending e' _ _ \<Rightarrow>
       (em_id e' = em_id e \<or> flight db (em_id e') = None) \<and> flight db' (em_id e') = Some E_SENDING
     | _ \<Rightarrow> True"
    by (cases st) (auto simp: claims_def dest: unclaimed)
  have sent: "flight db' (em_id e) = Some E_SENT" if a: "accepted" "sm_quit s = None"
  proof -
    have "r = None"
      using go_on(1) a accepted_no_exception by simp
    then show ?thesis
      using row(3) assms(2) same by (auto intro: k(1))
  qed
  have other: "flight db' i = Some v" if "i \<noteq> em_id e" "flight db i = Some v" for i v
    using row(2) [OF that(1)] that(2) same by (auto intro: k(1))
  show ?thesis
    by (intro conjI allI impI) (fact k(2) | fact waiting | erule (1) sent | erule (1) other)+
qed

section \<open>The invariant of the claim\<close>

text \<open>
  Held emails are SENDING and have one holder.
\<close>

definition claim_inv :: "world \<Rightarrow> bool" where
  "claim_inv w =
     (email_keys.keys_ok (emails (wd_db w)) \<and>
      (\<forall>k i. holds w k i \<longrightarrow> flight (wd_db w) i = Some E_SENDING) \<and>
      (\<forall>k k' i. holds w k i \<longrightarrow> holds w k' i \<longrightarrow> k = k'))"

definition sent_inv :: "world \<Rightarrow> bool" where
  "sent_inv w =
     (distinct (wd_accepted w) \<and> (\<forall>i \<in> set (wd_accepted w). flight (wd_db w) i = Some E_SENT))"

lemma holds_upd:
  "holds (w\<lparr>wd_db := d, wd_tasks := (wd_tasks w)(k \<mapsto> (c, st)), wd_accepted := l\<rparr>) k' i \<longleftrightarrow>
     (if k' = k then (\<exists>e cred idx. st = T_Sending e cred idx \<and> em_id e = i) else holds w k' i)"
  by (auto simp: holds_def)

lemma holds_simps [simp]:
  "holds (w\<lparr>wd_db := d\<rparr>) = holds w"
  "holds (w\<lparr>wd_now := t\<rparr>) = holds w"
  "\<not> holds (w\<lparr>wd_tasks := Map.empty\<rparr>) k i"
  "\<not> holds (w\<lparr>wd_db := d, wd_tasks := Map.empty, wd_accepted := l\<rparr>) k i"
  by (auto simp: holds_def fun_eq_iff)

lemma claim_inv_keeps:
  "claim_inv w \<Longrightarrow> keeps_flight (wd_db w) d \<Longrightarrow> claim_inv (w\<lparr>wd_db := d\<rparr>)"
  by (simp add: claim_inv_def keeps_flight_def)

lemma sent_inv_keeps:
  "sent_inv w \<Longrightarrow> keeps_flight (wd_db w) d \<Longrightarrow> sent_inv (w\<lparr>wd_db := d\<rparr>)"
  by (simp add: sent_inv_def keeps_flight_def)

text \<open>A step of task \<open>k\<close> that keeps the mail other tasks hold and waits, if it does, on its own
  or on an email nobody had in flight.\<close>

lemma claim_inv_task_step:
  assumes inv: "claim_inv w"
    and ok: "email_keys.keys_ok (emails d)"
    and keep: "\<And>i v. \<not> holds w k i \<Longrightarrow> flight (wd_db w) i = Some v \<Longrightarrow> flight d i = Some v"
    and wait: "case st of T_Sending e cred idx \<Rightarrow>
       (holds w k (em_id e) \<or> flight (wd_db w) (em_id e) = None) \<and> flight d (em_id e) = Some E_SENDING
     | _ \<Rightarrow> True"
  shows "claim_inv (w\<lparr>wd_db := d, wd_tasks := (wd_tasks w)(k \<mapsto> (c, st)), wd_accepted := l\<rparr>)"
proof -
  let ?w = "w\<lparr>wd_db := d, wd_tasks := (wd_tasks w)(k \<mapsto> (c, st)), wd_accepted := l\<rparr>"
  have inv1: "holds w k' i \<Longrightarrow> flight (wd_db w) i = Some E_SENDING"
    and inv2: "holds w k' i \<Longrightarrow> holds w k'' i \<Longrightarrow> k' = k''" for k' k'' i
    using inv by (auto simp: claim_inv_def)
  have h: "holds ?w k' i \<longleftrightarrow>
      (if k' = k then (\<exists>e cred idx. st = T_Sending e cred idx \<and> em_id e = i) else holds w k' i)" for k' i
    by (rule holds_upd)
  have own: "(holds w k i \<or> flight (wd_db w) i = None) \<and> flight d i = Some E_SENDING" if "holds ?w k i" for i
    using that wait by (auto simp: h)
  have "flight d i = Some E_SENDING" if "holds ?w k' i" for k' i
  proof (cases "k' = k")
    case False
    then have "holds w k' i" using that h by simp
    then show ?thesis using keep [of i] inv1 inv2 False by metis
  qed (use own that in auto)
  moreover have "k' = k''" if hs: "holds ?w k' i" "holds ?w k'' i" for k' k'' i
  proof (rule ccontr)
    assume ne: "k' \<noteq> k''"
    then consider "k' = k" "holds w k'' i" "holds ?w k i" | "k'' = k" "holds w k' i" "holds ?w k i"
      | "holds w k' i" "holds w k'' i"
      using hs h by metis
    then show False
      using own inv1 inv2 ne by cases (metis option.distinct(1))+
  qed
  ultimately show ?thesis
    using ok by (simp add: claim_inv_def)
qed

lemma act_finish_eq:
  assumes "wd_tasks w k = Some (c, T_Sending e cred idx)"
    and "finish_send kr (wd_now w) s c e cred idx (wd_db w) = (d, acc, st)"
  shows "act kr (A_finish k s) w =
     w\<lparr>wd_db := d, wd_tasks := (wd_tasks w)(k \<mapsto> (c, st)),
       wd_accepted := (if acc then [em_id e] else []) @ wd_accepted w\<rparr>"
  using assms by simp

lemma finish_cases:
  obtains (idle) "act kr (A_finish k s) w = w"
  | (waiting) c e cred idx d acc st where "wd_tasks w k = Some (c, T_Sending e cred idx)"
      "finish_send kr (wd_now w) s c e cred idx (wd_db w) = (d, acc, st)" "holds w k (em_id e)"
proof (cases "wd_tasks w k")
  case (Some p)
  obtain c st where p: "p = (c, st)" by (cases p)
  show thesis
  proof (cases st)
    case (T_Sending e cred idx)
    obtain d acc st' where "finish_send kr (wd_now w) s c e cred idx (wd_db w) = (d, acc, st')"
      by (metis surj_pair)
    with Some p T_Sending show thesis
      by (intro waiting) (auto simp: holds_def)
  qed (use Some p idle in auto)
qed (use idle in auto)

lemma dispatch_cases:
  obtains (busy) "act kr (A_dispatch k c) w = w"
  | (fresh) d st where "wd_tasks w k = None" "start_dispatch kr (wd_now w) c (wd_db w) = (d, st)"
      "act kr (A_dispatch k c) w =
         w\<lparr>wd_db := d, wd_tasks := (wd_tasks w)(k \<mapsto> (c, st)), wd_accepted := wd_accepted w\<rparr>"
proof (cases "wd_tasks w k")
  case None
  obtain d st where "start_dispatch kr (wd_now w) c (wd_db w) = (d, st)"
    by fastforce
  with None show thesis
    by (intro fresh) auto
qed (use busy in auto)

lemma recover_flight:
  assumes "i \<notin> set (snd (recover_stuck_sending id now th db))" "flight db i = Some v"
  shows "flight (fst (recover_stuck_sending id now th db)) i = Some v"
  by (rule flight_SomeE [OF assms(2)]) (use assms in \<open>auto simp: flight_def email_at_recover_stuck_sending\<close>)

lemma recover_sent:
  assumes "email_keys.keys_ok (emails db)" "flight db i = Some E_SENT"
  shows "i \<notin> set (snd (recover_stuck_sending id now th db))"
proof
  assume "i \<in> set (snd (recover_stuck_sending id now th db))"
  then obtain e where "e \<in> set (rows (emails db))" "em_id e = i" "em_status e = E_SENDING"
    by (auto simp: recovered_ids)
  moreover from this have "email_at db i = Some e"
    using email_at_memI [OF assms(1)] by blast
  ultimately show False
    using assms(2) by (simp add: flight_def split: if_splits)
qed

lemma keys_ok_recover:
  "email_keys.keys_ok (emails db) \<Longrightarrow> email_keys.keys_ok (emails (fst (recover_stuck_sending id now th db)))"
  by (simp add: recover_stuck_sending_defs Let_def email_keys.keys_ok_update)

lemma claim_inv_act:
  assumes inv: "claim_inv w" and spares: "recover_spares w a"
  shows "claim_inv (act kr a w)"
proof (cases a)
  case (A_screen op)
  then show ?thesis
    using claim_inv_keeps [OF inv screen_keeps_flight] by simp
next
  case (A_dispatch k c)
  show ?thesis
  proof (cases rule: dispatch_cases [of kr k c w])
    case busy
    with inv A_dispatch show ?thesis by simp
  next
    case (fresh d st)
    have cl: "claims (wd_db w) d st"
      using start_dispatch_claims fresh(2) inv by (auto simp: claim_inv_def)
    then have "claim_inv (w\<lparr>wd_db := d, wd_tasks := (wd_tasks w)(k \<mapsto> (c, st)), wd_accepted := wd_accepted w\<rparr>)"
      using inv by (intro claim_inv_task_step)
        (auto simp: claims_def keeps_flight_def claim_inv_def split: task_state.splits)
    then show ?thesis
      using A_dispatch fresh(3) by simp
  qed
next
  case (A_finish k s)
  show ?thesis
  proof (cases rule: finish_cases [of kr k s w])
    case idle
    with inv A_finish show ?thesis by simp
  next
    case (waiting c e cred idx d acc st)
    have ok: "email_keys.keys_ok (emails (wd_db w))" "flight (wd_db w) (em_id e) = Some E_SENDING"
      using inv waiting(3) by (auto simp: claim_inv_def)
    note fin = finish_send_flight [OF ok waiting(2)]
    have keep: "flight d i = Some v" if "\<not> holds w k i" "flight (wd_db w) i = Some v" for i v
      using fin that waiting(3) by metis
    have wait: "case st of T_Sending e cred idx \<Rightarrow>
       (holds w k (em_id e) \<or> flight (wd_db w) (em_id e) = None) \<and> flight d (em_id e) = Some E_SENDING
     | _ \<Rightarrow> True"
      using fin waiting(3) by (auto split: task_state.splits)
    have "claim_inv (w\<lparr>wd_db := d, wd_tasks := (wd_tasks w)(k \<mapsto> (c, st)),
            wd_accepted := (if acc then [em_id e] else []) @ wd_accepted w\<rparr>)"
      using fin by (intro claim_inv_task_step [OF inv _ keep wait]) auto
    then show ?thesis
      using A_finish act_finish_eq [OF waiting(1,2)] by simp
  qed
next
  case (A_recover th)
  have "\<forall>k i. holds w k i \<longrightarrow> flight (fst (recover_stuck_sending id (wd_now w) th (wd_db w))) i = Some E_SENDING"
    using inv spares A_recover recover_flight by (auto simp: recover_spares_def claim_inv_def)
  with inv A_recover show ?thesis
    by (simp add: claim_inv_def keys_ok_recover)
next
  case A_crash
  with inv show ?thesis by (simp add: claim_inv_def)
next
  case (A_die k s)
  show ?thesis
  proof (cases "act kr a w = w")
    case False
    then obtain c e cred idx db acc r where "wd_tasks w k = Some (c, T_Sending e cred idx)"
      and send: "send_one_email kr (wd_now w) s cred (wd_db w) = (db, acc, r)"
      using A_die by (fastforce split: option.splits prod.splits task_state.splits)
    then show ?thesis
      using A_die inv send_one_email_emails [OF send] by (simp add: claim_inv_def)
  qed (use inv in simp)
next
  case (A_tick t)
  with inv show ?thesis by (simp add: claim_inv_def)
qed

lemma sent_inv_act:
  assumes inv: "claim_inv w" "sent_inv w" and "send_recorded a"
  shows "sent_inv (act kr a w)"
proof (cases a)
  case (A_screen op)
  then show ?thesis
    using sent_inv_keeps [OF inv(2) screen_keeps_flight] by simp
next
  case (A_dispatch k c)
  show ?thesis
  proof (cases rule: dispatch_cases [of kr k c w])
    case busy
    with inv A_dispatch show ?thesis by simp
  next
    case (fresh d st)
    have "claims (wd_db w) d st"
      using start_dispatch_claims fresh(2) inv by (auto simp: claim_inv_def)
    then have "sent_inv (w\<lparr>wd_db := d, wd_tasks := (wd_tasks w)(k \<mapsto> (c, st)), wd_accepted := wd_accepted w\<rparr>)"
      using inv(2) by (simp add: sent_inv_def claims_def keeps_flight_def)
    then show ?thesis
      using A_dispatch fresh(3) by simp
  qed
next
  case (A_finish k s)
  show ?thesis
  proof (cases rule: finish_cases [of kr k s w])
    case idle
    with inv A_finish show ?thesis by simp
  next
    case (waiting c e cred idx d acc st)
    have ok: "email_keys.keys_ok (emails (wd_db w))" "flight (wd_db w) (em_id e) = Some E_SENDING"
      using inv(1) waiting(3) by (auto simp: claim_inv_def)
    note fin = finish_send_flight [OF ok waiting(2)]
    have new: "em_id e \<notin> set (wd_accepted w)"
      using inv(2) ok(2) by (auto simp: sent_inv_def)
    have "flight d i = Some E_SENT" if "i \<in> set (wd_accepted w)" for i
      using fin inv(2) that new by (metis sent_inv_def)
    with new have "sent_inv (w\<lparr>wd_db := d, wd_tasks := (wd_tasks w)(k \<mapsto> (c, st)),
            wd_accepted := (if acc then [em_id e] else []) @ wd_accepted w\<rparr>)"
      using fin inv(2) assms(3) A_finish by (simp add: sent_inv_def send_recorded_def)
    then show ?thesis
      using A_finish act_finish_eq [OF waiting(1,2)] by simp
  qed
next
  case (A_recover th)
  then show ?thesis
    using inv recover_flight recover_sent by (auto simp: sent_inv_def claim_inv_def)
qed (use inv assms(3) in \<open>auto simp: sent_inv_def send_recorded_def\<close>)

text \<open>The world after a start of the service: no task, nothing accepted yet.\<close>

definition fresh_world :: "outreach_db \<Rightarrow> world" where
  "fresh_world db = \<lparr>wd_db = db, wd_now = 0, wd_tasks = Map.empty, wd_accepted = []\<rparr>"

lemma fresh_world_inv:
  "email_keys.keys_ok (emails db) \<Longrightarrow> claim_inv (fresh_world db)" "sent_inv (fresh_world db)"
  by (simp_all add: fresh_world_def claim_inv_def sent_inv_def holds_def)

lemma reach_claim_inv:
  assumes "reach kr allowed w0 w" "claim_inv w0" "\<And>w a. allowed w a \<Longrightarrow> recover_spares w a"
  shows "claim_inv w"
  using assms(1) by induction (auto simp: assms claim_inv_act simp del: act.simps)

lemma reach_sent_inv:
  assumes "reach kr allowed w0 w" "claim_inv w0" "sent_inv w0"
    "\<And>w a. allowed w a \<Longrightarrow> recover_spares w a \<and> send_recorded a"
  shows "sent_inv w"
  using assms(1)
  by induction (auto simp: assms intro!: sent_inv_act reach_claim_inv [OF _ assms(2)] simp del: act.simps)

section \<open>At most once\<close>

text \<open>A campaign without an owner, one draft and one usable credential.\<close>

definition demo_campaign :: campaign where
  "demo_campaign =
     \<lparr>cp_id = 1, cp_name = ''c'', cp_template_id = None, cp_kind = ''production'',
      cp_test_credential_id = None, cp_status = C_RUNNING, cp_owner_id = None, cp_created_at = 0,
      cp_pause_reason = None\<rparr>"

definition demo_draft :: draft_email where
  "demo_draft =
     \<lparr>de_lead_id = None, de_recipient_email = ''a@x'', de_subject = ''s'', de_body = ''b'',
      de_is_selected = True, de_missing_fields = None\<rparr>"

definition demo_db :: outreach_db where
  "demo_db =
     empty_outreach\<lparr>campaigns := \<lparr>rows = [demo_campaign], next_id = 2\<rparr>,
       emails := \<lparr>rows = [mk_email (1, demo_draft) 1], next_id = 2\<rparr>, credentials := demo_credentials\<rparr>"

definition good_session :: smtp_session where
  "good_session =
     \<lparr>sm_connect = None, sm_login = None, sm_message = None, sm_quit = None, sm_refresh = (\<lambda>_ _. None)\<rparr>"

definition run_actions :: "key_ring \<Rightarrow> action list \<Rightarrow> world \<Rightarrow> world" where
  "run_actions kr as w = foldl (\<lambda>w a. act kr a w) w as"

lemma demo_keys_ok: "email_keys.keys_ok (emails demo_db)"
  by (simp add: demo_db_def email_keys.keys_ok_def mk_email_def)

lemma demo_run:
  "wd_accepted (run_actions demo_ring [A_tick 10, A_dispatch 0 1, A_finish 0 good_session] (fresh_world demo_db)) = [1]"
  by code_simp

lemma reach_run:
  "\<forall>a \<in> set as. \<forall>w. allowed w a \<Longrightarrow> reach kr allowed w0 (run_actions kr as w0)"
proof (induction as rule: rev_induct)
  case Nil
  then show ?case by (simp add: run_actions_def reach_start)
next
  case (snoc a as)
  then have "reach kr allowed w0 (act kr a (run_actions kr as w0))"
    by (intro reach_act) auto
  then show ?case by (simp add: run_actions_def)
qed



definition failing_quit :: smtp_session where
  "failing_quit = good_session\<lparr>sm_quit := Some (NetworkError ''disconnected'')\<rparr>"

definition stale_recovery_run :: "action list" where
  "stale_recovery_run =
     [A_tick 10, A_dispatch 0 1, A_screen (O_campaign_status 1 C_PAUSED None), A_tick 600000001,
      A_recover 600, A_screen (O_campaign_status 1 C_RUNNING None), A_dispatch 1 1,
      A_finish 0 good_session, A_finish 1 good_session]"

definition failing_quit_run :: "action list" where
  "failing_quit_run =
     [A_tick 10, A_dispatch 0 1, A_finish 0 failing_quit, A_tick 900000001, A_recover 600,
      A_screen (O_campaign_status 1 C_RUNNING None), A_dispatch 1 1, A_finish 1 good_session]"

text \<open>
  The two provisos are needed. A task may wait for its credential's slot longer than the 600
  seconds of the sweep: the sweep then requeues the email it holds, a second dispatch of the
  campaign (paused and started again) claims it, and the server accepts it twice. The same
  happens when the connection fails at \<open>quit\<close>, after the server accepted the message.
\<close>

theorem duplicate_sends:
  "wd_accepted (run_actions demo_ring stale_recovery_run (fresh_world demo_db)) = [1, 1] \<and>
   wd_accepted (run_actions demo_ring failing_quit_run (fresh_world demo_db)) = [1, 1]"
  by (rule conjI) code_simp+

section \<open>The polling service\<close>

text \<open>
  \<open>_poll_loop\<close> keys its tasks by campaign: each turn starts a dispatch for every RUNNING
  campaign without an unfinished task, in the order of the query.
\<close>

definition running_campaign_ids :: "outreach_db \<Rightarrow> nat list" where
  "running_campaign_ids db = map cp_id (select_where (\<lambda>c. cp_status c = C_RUNNING) (campaigns db))"

definition task_live :: "world \<Rightarrow> nat \<Rightarrow> bool" where
  "task_live w c =
     (case wd_tasks w c of Some (_, T_Sending _ _ _) \<Rightarrow> True | _ \<Rightarrow> False)"

definition poll_one :: "key_ring \<Rightarrow> world \<Rightarrow> nat \<Rightarrow> world" where
  "poll_one kr w c =
     (if task_live w c then w
      else act kr (A_dispatch c c) (w\<lparr>wd_tasks := (wd_tasks w)(c := None)\<rparr>))"

definition poll_iteration :: "key_ring \<Rightarrow> world \<Rightarrow> world" where
  "poll_iteration kr w = foldl (poll_one kr) w (running_campaign_ids (wd_db w))"

lemma poll_one_other:
  "c' \<noteq> c \<or> task_live w c' \<Longrightarrow> wd_tasks (poll_one kr w c) c' = wd_tasks w c'"
  by (auto simp: poll_one_def split: prod.splits)

lemma poll_keeps_live_tasks: "task_live w c \<Longrightarrow> wd_tasks (poll_iteration kr w) c = wd_tasks w c"
proof -
  have "task_live w c \<Longrightarrow> wd_tasks (foldl (poll_one kr) w cs) c = wd_tasks w c" for cs
  proof (induction cs arbitrary: w)
    case (Cons a cs)
    have "wd_tasks (poll_one kr w a) c = wd_tasks w c"
      using Cons.prems by (simp add: poll_one_other)
    then show ?case
      using Cons by (simp add: task_live_def)
  qed simp
  then show "task_live w c \<Longrightarrow> wd_tasks (poll_iteration kr w) c = wd_tasks w c"
    by (simp add: poll_iteration_def)
qed

end
