(* ===== verification/ClaimSteps.thy ===== *)
theory ClaimSteps
  imports Interleaving
begin

text \<open>
  The claim of \<open>claim_next_queued_email\<close> at the level of its SQL statements. A session of
  \<open>cloud/db/mixins/outreach_mixin.py\<close> that reads and then writes is two steps here, with any other
  session between them: the query of a claim and its guarded update, the status check of
  \<open>set_email_selection\<close> and its unguarded update, the query of the recovery sweep and its update.
  The rest of a task's turn is that of the theory of the dispatcher (\<open>start_head\<close>, \<open>loop_head\<close>,
  \<open>after_claim\<close>, \<open>send_one_email\<close>, \<open>handle_send\<close>), and sessions of one statement or whose updates
  all carry a guard on the status stay whole.
\<close>

section \<open>The machine\<close>

text \<open>
  A task selects a queued row with \<open>n\<close> attempts left, updates the row it has read, or waits for
  the mail server holding the claimed email.
\<close>

datatype stage =
  S_Select nat nat
| S_Update nat nat campaign_email
| S_Sending campaign_email send_credential nat
| S_Over

record claim_world =
  cw_db :: outreach_db
  cw_now :: datetime
  cw_tasks :: "nat \<rightharpoonup> nat \<times> stage"
  cw_selections :: "nat \<rightharpoonup> nat \<times> bool \<times> email_status"
  cw_sweeps :: "nat \<rightharpoonup> nat list"

fun stage_of :: "task_state \<Rightarrow> stage" where
  "stage_of (T_Sending e cred idx) = S_Sending e cred idx"
| "stage_of T_Done = S_Over"
| "stage_of T_Crashed = S_Over"

definition leave :: "outreach_db \<times> task_state \<Rightarrow> outreach_db \<times> stage" where
  "leave r = (fst r, stage_of (snd r))"

definition enter_loop :: "nat \<Rightarrow> nat \<Rightarrow> outreach_db \<Rightarrow> outreach_db \<times> stage" where
  "enter_loop campaign_id cred_index db =
     (case loop_head campaign_id db of
        (db0, False) \<Rightarrow> (db0, S_Over)
      | (db0, True) \<Rightarrow> (db0, S_Select cred_index 5))"

definition claim_select ::
  "key_ring \<Rightarrow> datetime \<Rightarrow> nat \<Rightarrow> nat \<Rightarrow> nat \<Rightarrow> outreach_db \<Rightarrow> outreach_db \<times> stage" where
  "claim_select kr now campaign_id cred_index attempts db =
     (case attempts of
        0 \<Rightarrow> leave (after_claim kr now campaign_id cred_index (db, None))
      | Suc n \<Rightarrow>
          (case first_queued campaign_id db of
             None \<Rightarrow> leave (after_claim kr now campaign_id cred_index (db, None))
           | Some e \<Rightarrow> (db, S_Update cred_index n e)))"

definition claim_update ::
  "key_ring \<Rightarrow> datetime \<Rightarrow> nat \<Rightarrow> nat \<Rightarrow> nat \<Rightarrow> campaign_email \<Rightarrow> outreach_db \<Rightarrow> outreach_db \<times> stage" where
  "claim_update kr now campaign_id cred_index attempts e db =
     (case claim_guarded now (em_id e) db of
        (db', claimed) \<Rightarrow>
          if 0 < claimed then leave (after_claim kr now campaign_id cred_index (db', Some e))
          else (db', S_Select cred_index attempts))"

definition send_turn ::
  "key_ring \<Rightarrow> datetime \<Rightarrow> smtp_session \<Rightarrow> nat \<Rightarrow> campaign_email \<Rightarrow> send_credential \<Rightarrow> nat \<Rightarrow>
   outreach_db \<Rightarrow> outreach_db \<times> stage" where
  "send_turn kr now s campaign_id e cred idx db =
     (case send_one_email kr now s cred db of
        (db1, accepted, r) \<Rightarrow>
          (case handle_send now (sc_id cred) e r db1 of
             None \<Rightarrow> (db1, S_Over)
           | Some db2 \<Rightarrow> enter_loop campaign_id idx db2))"

definition set_task :: "nat \<Rightarrow> nat \<Rightarrow> outreach_db \<times> stage \<Rightarrow> claim_world \<Rightarrow> claim_world" where
  "set_task k c r w = w\<lparr>cw_db := fst r, cw_tasks := (cw_tasks w)(k \<mapsto> (c, snd r))\<rparr>"

text \<open>
  \<open>V_check j i b\<close> is the read of a session \<open>j\<close> that selects or deselects email \<open>i\<close>, \<open>V_write j\<close>
  its update; \<open>V_look j th\<close> and \<open>V_sweep j\<close> are the two statements of a sweep.
\<close>

datatype claim_event =
  V_screen screen_op
| V_check nat nat bool
| V_write nat
| V_look nat int
| V_sweep nat
| V_dispatch nat nat
| V_select nat
| V_update nat
| V_send nat smtp_session
| V_die nat smtp_session
| V_crash
| V_tick int

fun claim_event_step :: "key_ring \<Rightarrow> claim_event \<Rightarrow> claim_world \<Rightarrow> claim_world" where
  "claim_event_step kr (V_screen op) w = w\<lparr>cw_db := apply_screen kr op (cw_db w)\<rparr>"
| "claim_event_step kr (V_check j i b) w =
     w\<lparr>cw_selections := (cw_selections w)(j := map_option (\<lambda>st. (i, b, st)) (selection_check i (cw_db w)))\<rparr>"
| "claim_event_step kr (V_write j) w =
     (case cw_selections w j of
        None \<Rightarrow> w
      | Some (i, b, st) \<Rightarrow>
          w\<lparr>cw_db := selection_write i b st (cw_db w), cw_selections := (cw_selections w)(j := None)\<rparr>)"
| "claim_event_step kr (V_look j th) w =
     w\<lparr>cw_sweeps := (cw_sweeps w)(j \<mapsto> stuck_sending (cw_now w) th (cw_db w))\<rparr>"
| "claim_event_step kr (V_sweep j) w =
     (case cw_sweeps w j of
        None \<Rightarrow> w
      | Some ids \<Rightarrow> w\<lparr>cw_db := sweep_write ids (cw_db w), cw_sweeps := (cw_sweeps w)(j := None)\<rparr>)"
| "claim_event_step kr (V_dispatch k c) w =
     (case cw_tasks w k of
        Some _ \<Rightarrow> w
      | None \<Rightarrow>
          (case start_head kr (cw_now w) c (cw_db w) of
             (db, Some st) \<Rightarrow> set_task k c (leave (db, st)) w
           | (db, None) \<Rightarrow> set_task k c (enter_loop c 0 db) w))"
| "claim_event_step kr (V_select k) w =
     (case cw_tasks w k of
        Some (c, S_Select idx n) \<Rightarrow> set_task k c (claim_select kr (cw_now w) c idx n (cw_db w)) w
      | _ \<Rightarrow> w)"
| "claim_event_step kr (V_update k) w =
     (case cw_tasks w k of
        Some (c, S_Update idx n e) \<Rightarrow> set_task k c (claim_update kr (cw_now w) c idx n e (cw_db w)) w
      | _ \<Rightarrow> w)"
| "claim_event_step kr (V_send k s) w =
     (case cw_tasks w k of
        Some (c, S_Sending e cred idx) \<Rightarrow>
          set_task k c (send_turn kr (cw_now w) s c e cred idx (cw_db w)) w
      | _ \<Rightarrow> w)"
| "claim_event_step kr (V_die k s) w =
     (case cw_tasks w k of
        Some (c, S_Sending e cred idx) \<Rightarrow>
          w\<lparr>cw_db := fst (send_one_email kr (cw_now w) s cred (cw_db w)), cw_tasks := Map.empty\<rparr>
      | _ \<Rightarrow> w)"
| "claim_event_step kr V_crash w = w\<lparr>cw_tasks := Map.empty\<rparr>"
| "claim_event_step kr (V_tick d) w = w\<lparr>cw_now := cw_now w + max 0 d\<rparr>"

definition claim_holds :: "claim_world \<Rightarrow> nat \<Rightarrow> nat \<Rightarrow> bool" where
  "claim_holds w k i =
     (case cw_tasks w k of Some (c, S_Sending e cred idx) \<Rightarrow> em_id e = i | _ \<Rightarrow> False)"

text \<open>
  The two unguarded updates: a deselection whose check found the email QUEUED writes DRAFT
  whatever the email is by then, and a sweep requeues whatever its query found. The events spare
  the claims when neither hits an email a task holds.
\<close>

definition spares_claims :: "claim_world \<Rightarrow> claim_event \<Rightarrow> bool" where
  "spares_claims w v =
     (case v of
        V_write j \<Rightarrow>
          (case cw_selections w j of
             None \<Rightarrow> True
           | Some (i, b, st) \<Rightarrow> st = E_QUEUED \<and> \<not> b \<longrightarrow> (\<forall>k. \<not> claim_holds w k i))
      | V_sweep j \<Rightarrow>
          (case cw_sweeps w j of None \<Rightarrow> True | Some ids \<Rightarrow> \<forall>i \<in> set ids. \<forall>k. \<not> claim_holds w k i)
      | _ \<Rightarrow> True)"

inductive claim_reach :: "key_ring \<Rightarrow> claim_world \<Rightarrow> claim_world \<Rightarrow> bool" for kr w0 where
  claim_start: "claim_reach kr w0 w0"
| claim_step: "claim_reach kr w0 w \<Longrightarrow> spares_claims w v \<Longrightarrow> claim_reach kr w0 (claim_event_step kr v w)"

definition claim_run :: "key_ring \<Rightarrow> claim_event list \<Rightarrow> claim_world \<Rightarrow> claim_world" where
  "claim_run kr vs w = foldl (\<lambda>w v. claim_event_step kr v w) w vs"

definition quiet_world :: "outreach_db \<Rightarrow> claim_world" where
  "quiet_world db =
     \<lparr>cw_db = db, cw_now = 0, cw_tasks = Map.empty, cw_selections = Map.empty, cw_sweeps = Map.empty\<rparr>"

section \<open>The turn without interference\<close>

text \<open>
  With nothing between its statements, the claim of a turn is the uninterrupted one: the first
  attempt selects and updates, and the task is where \<open>loop_top\<close> takes it.
\<close>

lemma undisturbed_turn:
  assumes "loop_head c db = (db0, True)"
  shows "(case claim_select kr now c idx 5 db0 of
            (db1, S_Update i n e) \<Rightarrow> claim_update kr now c i n e db1
          | r \<Rightarrow> r) = leave (loop_top kr now c idx db)"
proof (cases "first_queued c db0")
  case None
  then have "claim_next_queued_email (\<lambda>_. id) now c db0 = (db0, None)"
    by (simp add: claim_one_session)
  then show ?thesis
    using assms None
    by (auto simp: claim_select_def loop_top_def leave_def after_claim_def numeral_eq_Suc split: prod.split)
next
  case (Some e)
  have "0 < snd (claim_guarded now (em_id e) db0)"
    using first_queued_SomeD [OF Some] by (auto simp: claim_guarded_def Let_def count_where_pos_iff)
  then show ?thesis
    using assms Some
    by (simp add: claim_select_def claim_update_def loop_top_def claim_one_session numeral_eq_Suc split_beta)
qed

section \<open>The invariant\<close>

text \<open>
  \<open>coarse\<close> forgets the steps of the claim: a task that has not claimed counts as idle. The
  invariant is that of the uninterrupted machine, read through it.
\<close>

fun stage_task :: "stage \<Rightarrow> task_state" where
  "stage_task (S_Sending e cred idx) = T_Sending e cred idx"
| "stage_task (S_Select idx n) = T_Done"
| "stage_task (S_Update idx n e) = T_Done"
| "stage_task S_Over = T_Done"

definition coarse :: "claim_world \<Rightarrow> world" where
  "coarse w =
     \<lparr>wd_db = cw_db w, wd_now = cw_now w,
      wd_tasks = (\<lambda>k. map_option (\<lambda>(c, st). (c, stage_task st)) (cw_tasks w k)), wd_accepted = []\<rparr>"

lemma coarse_sel [simp]: "wd_db (coarse w) = cw_db w" "wd_accepted (coarse w) = []"
  by (simp_all add: coarse_def)

lemma holds_coarse: "holds (coarse w) k i \<longleftrightarrow> claim_holds w k i"
  by (auto simp: holds_def claim_holds_def coarse_def elim: stage_task.elims split: option.splits stage.splits)

lemma coarse_set_task:
  "coarse (set_task k c r w) =
     (coarse w)\<lparr>wd_db := fst r, wd_tasks := (wd_tasks (coarse w))(k \<mapsto> (c, stage_task (snd r))),
                wd_accepted := []\<rparr>"
  by (simp add: coarse_def set_task_def fun_eq_iff)

lemma claim_inv_claims:
  assumes "claim_inv w" "claims (wd_db w) d st"
  shows "claim_inv (w\<lparr>wd_db := d, wd_tasks := (wd_tasks w)(k \<mapsto> (c, st)), wd_accepted := l\<rparr>)"
  using assms
  by (intro claim_inv_task_step) (auto simp: claims_def keeps_flight_def claim_inv_def split: task_state.splits)

lemma claims_idle: "keeps_flight db d \<Longrightarrow> stage_task st = T_Done \<Longrightarrow> claims db d (stage_task st)"
  by (simp add: claims_def)

lemma claims_leave: "claims db d st \<Longrightarrow> claims db (fst (leave (d, st))) (stage_task (snd (leave (d, st))))"
  by (cases st) (simp_all add: leave_def claims_def)

lemma enter_loop_claims: "claims db (fst (enter_loop c idx db)) (stage_task (snd (enter_loop c idx db)))"
  by (auto simp: enter_loop_def loop_head_def claims_def keeps_flight_cancel split: option.splits)

lemma after_claim_None:
  "claims db (fst (leave (after_claim kr now c idx (db, None))))
     (stage_task (snd (leave (after_claim kr now c idx (db, None)))))"
  by (auto simp: after_claim_def leave_def claims_def keeps_flight_same)

lemma claim_select_claims:
  "claims db (fst (claim_select kr now c idx n db)) (stage_task (snd (claim_select kr now c idx n db)))"
  by (auto simp: claim_select_def after_claim_None claims_not_waiting split: nat.splits option.splits)

text \<open>The guard: the update claims a row only if it is QUEUED now, so no other task holds it.\<close>

lemma claim_update_claims:
  assumes "email_keys.keys_ok (emails db)"
  shows "claims db (fst (claim_update kr now c idx n e db)) (stage_task (snd (claim_update kr now c idx n e db)))"
proof (cases "\<exists>x \<in> set (rows (emails db)). em_id x = em_id e \<and> em_status x = E_QUEUED")
  case True
  then obtain x where x: "x \<in> set (rows (emails db))" "em_id x = em_id e" "em_status x = E_QUEUED"
    by blast
  then have at: "email_at db (em_id e) = Some x"
    using email_at_memI [OF assms x(1)] by simp
  obtain d m where g: "claim_guarded now (em_id e) db = (d, m)"
    by fastforce
  then have m: "0 < m"
    using x by (auto simp: claim_guarded_def Let_def count_where_pos_iff)
  have f: "keeps_flight db d" "flight db (em_id e) = None" "flight d (em_id e) = Some E_SENDING"
    using claim_guarded_flight [OF at x(3)] g by (metis fst_conv)+
  have "claims db d (T_Sending e cred i)" for cred i
    using f by (simp add: claims_def)
  moreover have "keeps_flight db (fst (update_campaign_status c s r d))" for s r
    by (rule keeps_flight_trans [OF f(1) keeps_flight_same]) simp
  ultimately show ?thesis
    using g m f(1)
    by (auto simp: claim_update_def after_claim_def leave_def claims_not_waiting
        split: sum.splits prod.splits option.splits)
next
  case False
  then have "snd (claim_guarded now (em_id e) db) = 0"
    by (auto simp: claim_guarded_def Let_def count_where_def filter_empty_conv)
  moreover have "keeps_flight db (fst (claim_guarded now (em_id e) db))"
    unfolding claim_guarded_def Let_def fst_conv by (rule keeps_flight_update) (auto simp: in_flight_def)
  ultimately show ?thesis
    by (simp add: claim_update_def split_beta claims_not_waiting)
qed

lemma start_head_keeps: "keeps_flight db (fst (start_head kr now c db))"
proof -
  obtain d n where q: "queue_campaign_emails c db = (d, n)"
    by fastforce
  then have k: "keeps_flight db d"
    using keeps_flight_queue [of db c] by simp
  moreover have "keeps_flight db (fst (update_campaign_status c s r d))" for s r
    by (rule keeps_flight_trans [OF k keeps_flight_same]) simp
  ultimately show ?thesis
    using q by (auto simp: start_head_def split: sum.splits list.splits)
qed

lemma claim_inv_set_task:
  assumes "claim_inv (coarse w)" "claims (cw_db w) (fst r) (stage_task (snd r))"
  shows "claim_inv (coarse (set_task k c r w))"
  unfolding coarse_set_task by (rule claim_inv_claims) (use assms in simp_all)

lemma claim_inv_send:
  assumes inv: "claim_inv (coarse w)" and t: "cw_tasks w k = Some (c, S_Sending e cred idx)"
  shows "claim_inv (coarse (set_task k c (send_turn kr now s c e cred idx (cw_db w)) w))"
proof -
  have h: "claim_holds w k (em_id e)"
    using t by (simp add: claim_holds_def)
  obtain db1 acc r where send: "send_one_email kr now s cred (cw_db w) = (db1, acc, r)"
    by (metis surj_pair)
  note same = send_one_email_emails [OF send]
  have ok: "email_keys.keys_ok (emails db1)"
    using inv same by (simp add: claim_inv_def)
  show ?thesis
  proof (cases "handle_send now (sc_id cred) e r db1")
    case None
    have "send_turn kr now s c e cred idx (cw_db w) = (db1, S_Over)"
      using None send by (simp add: send_turn_def)
    moreover have "claims (cw_db w) db1 T_Done"
      by (rule claims_not_waiting(1) [OF keeps_flight_same [OF same]])
    ultimately show ?thesis
      using claim_inv_set_task [OF inv] by simp
  next
    case (Some db2)
    note row = row_only_flight [OF handle_send_row_only [OF Some] ok]
    define R where "R = enter_loop c idx db2"
    have R: "claims db2 (fst R) (stage_task (snd R))"
      unfolding R_def by (rule enter_loop_claims)
    have idle: "stage_task (snd R) = T_Done"
      by (simp add: R_def enter_loop_def split: prod.split bool.split)
    have "claim_inv ((coarse w)\<lparr>wd_db := fst R, wd_tasks := (wd_tasks (coarse w))(k \<mapsto> (c, stage_task (snd R))),
        wd_accepted := []\<rparr>)"
    proof (rule claim_inv_task_step [OF inv])
      show "email_keys.keys_ok (emails (fst R))"
        using R row(1) by (simp add: claims_def keeps_flight_def)
      fix i v
      assume "\<not> holds (coarse w) k i" "flight (wd_db (coarse w)) i = Some v"
      then have "flight db2 i = Some v"
        using h row(2) [of i] flight_same [OF same] by (auto simp: holds_coarse)
      then show "flight (fst R) i = Some v"
        using R by (simp add: claims_def keeps_flight_def)
    qed (simp add: idle)
    moreover have "send_turn kr now s c e cred idx (cw_db w) = R"
      using send Some by (simp add: send_turn_def R_def)
    ultimately show ?thesis
      by (simp add: coarse_set_task)
  qed
qed

text \<open>The unguarded updates leave every email they do not hit as it is.\<close>

lemma unguarded_update:
  assumes inv: "claim_inv w" and f: "\<And>e. em_id (f e) = em_id e"
    and hit: "\<And>e k. p e \<Longrightarrow> holds w k (em_id e) \<Longrightarrow> em_status (f e) = em_status e"
  shows "claim_inv (w\<lparr>wd_db := (wd_db w)\<lparr>emails := update_where p f (emails (wd_db w))\<rparr>\<rparr>)"
proof -
  let ?d = "(wd_db w)\<lparr>emails := update_where p f (emails (wd_db w))\<rparr>"
  have "flight ?d i = Some E_SENDING" if h: "holds w k i" for k i
  proof -
    have "flight (wd_db w) i = Some E_SENDING"
      using inv h by (simp add: claim_inv_def)
    then obtain e where e: "email_at (wd_db w) i = Some e" "em_status e = E_SENDING" "em_id e = i"
      by (elim flight_SomeE)
    then have "em_status (if p e then f e else e) = E_SENDING"
      using hit [of e k] h by simp
    then show ?thesis
      using e(1) by (simp add: flight_def email_at_update [OF f] in_flight_def)
  qed
  with inv f show ?thesis
    by (simp add: claim_inv_def email_keys.keys_ok_update)
qed

lemma selection_write_inv:
  assumes "claim_inv w" "st = E_QUEUED \<and> \<not> b \<longrightarrow> (\<forall>k. \<not> holds w k i)"
  shows "claim_inv (w\<lparr>wd_db := selection_write i b st (wd_db w)\<rparr>)"
  unfolding selection_write_def Let_def
  by (rule unguarded_update) (use assms in auto)

lemma sweep_write_inv:
  assumes "claim_inv w" "\<forall>i \<in> set ids. \<forall>k. \<not> holds w k i"
  shows "claim_inv (w\<lparr>wd_db := sweep_write ids (wd_db w)\<rparr>)"
  unfolding sweep_write_def by (rule unguarded_update) (use assms in auto)

lemma coarse_upd [simp]:
  "coarse (w\<lparr>cw_db := d\<rparr>) = (coarse w)\<lparr>wd_db := d\<rparr>"
  "coarse (w\<lparr>cw_selections := s\<rparr>) = coarse w"
  "coarse (w\<lparr>cw_sweeps := r\<rparr>) = coarse w"
  "coarse (w\<lparr>cw_now := t\<rparr>) = (coarse w)\<lparr>wd_now := t\<rparr>"
  "coarse (w\<lparr>cw_tasks := Map.empty\<rparr>) = (coarse w)\<lparr>wd_tasks := Map.empty\<rparr>"
  by (simp_all add: coarse_def)

lemma claim_inv_quiet: "claim_inv v \<Longrightarrow> claim_inv (v\<lparr>wd_now := t\<rparr>)" "claim_inv v \<Longrightarrow> claim_inv (v\<lparr>wd_tasks := Map.empty\<rparr>)"
  by (simp_all add: claim_inv_def)

lemma claim_inv_step:
  assumes inv: "claim_inv (coarse w)" and spares: "spares_claims w v"
  shows "claim_inv (coarse (claim_event_step kr v w))"
proof (cases v)
  case (V_screen op)
  then show ?thesis
    using claim_inv_keeps [OF inv] screen_keeps_flight by simp
next
  case (V_check j i b)
  with inv show ?thesis by simp
next
  case (V_write j)
  with inv spares show ?thesis
    using selection_write_inv [OF inv]
    by (auto simp: spares_claims_def holds_coarse split: option.splits prod.splits)
next
  case (V_look j th)
  with inv show ?thesis by simp
next
  case (V_sweep j)
  with inv spares show ?thesis
    using sweep_write_inv [OF inv]
    by (auto simp: spares_claims_def holds_coarse split: option.splits)
next
  case (V_dispatch k c)
  obtain d r where s: "start_head kr (cw_now w) c (cw_db w) = (d, r)"
    by fastforce
  have k: "keeps_flight (cw_db w) d"
    using start_head_keeps [of "cw_db w" kr "cw_now w" c] s by simp
  have "r = None \<or> r = Some T_Done \<or> r = Some T_Crashed"
    using s by (auto simp: start_head_def split: prod.splits if_splits sum.splits list.splits)
  then have "claims (cw_db w) (fst (leave (d, st))) (stage_task (snd (leave (d, st))))" if "r = Some st" for st
    using k that by (auto simp: leave_def claims_def)
  moreover have "claims (cw_db w) (fst (enter_loop c 0 d)) (stage_task (snd (enter_loop c 0 d)))"
    by (rule claims_after [OF k enter_loop_claims])
  ultimately show ?thesis
    using V_dispatch inv s by (auto intro!: claim_inv_set_task split: option.splits)
next
  case (V_select k)
  with inv show ?thesis
    using claim_inv_set_task [OF inv claim_select_claims] by (auto split: option.splits stage.splits)
next
  case (V_update k)
  have "email_keys.keys_ok (emails (cw_db w))"
    using inv by (simp add: claim_inv_def)
  with V_update inv show ?thesis
    using claim_inv_set_task [OF inv claim_update_claims] by (auto split: option.splits stage.splits)
next
  case (V_send k s)
  with inv show ?thesis
    using claim_inv_send [OF inv] by (auto split: option.splits stage.splits)
next
  case (V_die k s)
  have "claim_inv (coarse (w\<lparr>cw_db := fst (send_one_email kr (cw_now w) s cred (cw_db w)), cw_tasks := Map.empty\<rparr>))"
    for cred
  proof -
    obtain d a r where send: "send_one_email kr (cw_now w) s cred (cw_db w) = (d, a, r)"
      by (metis surj_pair)
    have "keeps_flight (cw_db w) d"
      by (rule keeps_flight_same [OF send_one_email_emails [OF send]])
    then have "claim_inv ((coarse w)\<lparr>wd_db := d\<rparr>)"
      using claim_inv_keeps [OF inv] by simp
    then show ?thesis
      using claim_inv_quiet(2) [of "(coarse w)\<lparr>wd_db := d\<rparr>"] send by simp
  qed
  with V_die inv show ?thesis
    by (auto split: option.splits stage.splits)
next
  case V_crash
  with inv show ?thesis by (simp add: claim_inv_quiet)
next
  case (V_tick d)
  with inv show ?thesis by (simp add: claim_inv_quiet)
qed

lemma claim_reach_inv:
  assumes "claim_reach kr w0 w" "claim_inv (coarse w0)"
  shows "claim_inv (coarse w)"
  using assms(1) by induction (auto simp: assms claim_inv_step simp del: claim_event_step.simps)

lemma quiet_world_inv: "email_keys.keys_ok (emails db) \<Longrightarrow> claim_inv (coarse (quiet_world db))"
  by (simp add: quiet_world_def claim_inv_def coarse_def holds_def)

section \<open>Exclusive claim\<close>

text \<open>C4.
  Exclusive claim, at the level of the SQL statements: however the queries and updates of
  dispatch tasks, selections and sweeps, the other screens, deaths and crashes interleave, so
  that the query of one claim and its update may have another claim of the same row between
  them, no two tasks ever hold the same email and every email a task holds is SENDING in the
  tables. The proviso \<open>spares_claims\<close> is about the two updates that carry no guard: a
  deselection whose check found the email still QUEUED, and a sweep, do not hit an email a task
  holds by then.
\<close>

theorem claim_is_exclusive:
  assumes "claim_reach kr (quiet_world db) w" "email_keys.keys_ok (emails db)"
  shows "\<forall>k i. claim_holds w k i \<longrightarrow>
           map_option em_status (email_at (cw_db w) i) = Some E_SENDING \<and>
           (\<forall>k'. claim_holds w k' i \<longrightarrow> k' = k)"
proof -
  have "claim_inv (coarse w)"
    using claim_reach_inv [OF assms(1) quiet_world_inv [OF assms(2)]] .
  then show ?thesis
    by (fastforce simp: claim_inv_def holds_coarse elim: flight_SomeE)
qed

text \<open>Two tasks of one campaign read the same row before either updates it; one of them claims it.\<close>

definition racing_claims :: "claim_event list" where
  "racing_claims =
     [V_tick 10, V_dispatch 0 1, V_dispatch 1 1, V_select 0, V_select 1, V_update 1, V_update 0]"

lemma reach_claim_run:
  assumes "\<And>v w. v \<in> set vs \<Longrightarrow> spares_claims w v"
  shows "claim_reach kr w0 (claim_run kr vs w0)"
  using assms
proof (induction vs rule: rev_induct)
  case (snoc v vs)
  then show ?case
    using claim_step [of kr w0 "claim_run kr vs w0" v] by (simp add: claim_run_def)
qed (simp add: claim_run_def claim_start)

theorem claim_is_exclusive_witness:
  "let w = claim_run demo_ring racing_claims (quiet_world demo_db) in
   claim_holds w 1 1 \<and> \<not> claim_holds w 0 1 \<and>
   map_option em_status (email_at (cw_db w) 1) = Some E_SENDING"
proof -
  let ?w = "claim_run demo_ring racing_claims (quiet_world demo_db)"
  have r: "claim_reach demo_ring (quiet_world demo_db) ?w"
    by (rule reach_claim_run) (auto simp: racing_claims_def spares_claims_def)
  have "claim_holds ?w 1 1"
    by code_simp
  then show ?thesis
    using claim_is_exclusive [OF r demo_keys_ok] by (auto simp: Let_def)
qed

text \<open>
  The proviso is needed: a deselection reads the email QUEUED, a task claims it, and the update
  that follows writes DRAFT over the claim. When the email is selected again and the campaign
  dispatched once more, a second task claims what the first one still holds.
\<close>

definition stale_deselection :: "claim_event list" where
  "stale_deselection =
     [V_tick 10, V_dispatch 0 1, V_check 0 1 False, V_select 0, V_update 0, V_write 0]"

definition claimed_again :: "claim_event list" where
  "claimed_again =
     [V_check 0 1 True, V_write 0, V_dispatch 1 1, V_select 1, V_update 1]"

theorem deselection_overwrites_claim:
  "let w = claim_run demo_ring stale_deselection (quiet_world demo_db) in
     claim_holds w 0 1 \<and> map_option em_status (email_at (cw_db w) 1) = Some E_DRAFT"
  "let w = claim_run demo_ring (stale_deselection @ claimed_again) (quiet_world demo_db) in
     claim_holds w 0 1 \<and> claim_holds w 1 1"
  by code_simp+

end
