(* ===== verification/DispatchRun.thy ===== *)
theory DispatchRun
  imports Interleaving
begin

text \<open>
  One dispatch task from its start to its end: what each outcome of a send does to the email,
  the run in which every send succeeds, and the runs the code does not mean to have: the
  campaign with an owner, and the email claimed when no credential is left.
\<close>

section \<open>Outcomes of one send\<close>

text \<open>
  The outcome table of a send. The email of the task becomes SENT when nothing was raised, QUEUED
  again after an authentication failure, a temporary code (421, 450, 451) or a network failure,
  FAILED after any other exception, and stays as it was when the handler itself raises, which it
  does exactly when \<open>recipients\<close> is not a mapping.
\<close>

theorem send_outcome:
  assumes "email_at db (em_id e) = Some row"
  shows "case handle_send now k e r db of
     None \<Rightarrow> \<exists>l. r = Some (RecipientsRefused (Refused_list l))
   | Some db' \<Rightarrow>
       map_option em_status (email_at db' (em_id e)) = Some
         (case r of
            None \<Rightarrow> E_SENT
          | Some (AuthError _) \<Rightarrow> E_QUEUED
          | Some (NetworkError _) \<Rightarrow> E_QUEUED
          | Some (ResponseError code _) \<Rightarrow> if code \<in> {421, 450, 451} then E_QUEUED else E_FAILED
          | Some (RecipientsRefused _) \<Rightarrow> E_FAILED
          | Some (OtherError _) \<Rightarrow> E_FAILED)"
proof -
  have at: "email_at d (em_id e) = Some row" if "emails d = emails db" for d
    using assms that by (simp add: email_at_def)
  have row: "em_id row = em_id e"
    using email_at_SomeD [OF assms] by simp
  have others: "emails (fst (add_to_blacklist a b c db)) = emails db" "emails (disable_credential k db) = emails db"
    "emails (set_credential_cooldown k t db) = emails db" for a b c t
    by (simp_all add: add_to_blacklist_def disable_credential_def set_credential_cooldown_def Let_def split_beta)
  show ?thesis
  proof (cases r)
    case None
    then show ?thesis
      using assms row by (simp add: handle_send_def Let_def email_at_simps)
  next
    case (Some x)
    then show ?thesis
      using assms row at [OF others(1)] at [OF others(2)] at [OF others(3)]
      by (cases x; simp add: handle_send_def Let_def email_at_simps hard_bounce_def
          split: refused.split list.split prod.split)
  qed
qed

theorem send_outcome_witness:
  "let db = fst (create_campaign_email 7 ''a@x'' ''s'' ''b'' None empty_outreach) in
   \<exists>e db'. em_id e = 1 \<and> handle_send 5 3 e (Some (ResponseError 451 ''later'')) db = Some db' \<and>
     map_option em_status (email_at db' 1) = Some E_QUEUED"
proof -
  let ?db = "fst (create_campaign_email 7 ''a@x'' ''s'' ''b'' None empty_outreach)"
  obtain e where e: "email_at ?db 1 = Some e" "em_id e = 1"
    by (simp add: create_campaign_email_def insert_row_def Let_def empty_outreach_def empty_table_def
        email_at_def first_where_def mk_email_def)
  have at: "email_at ?db (em_id e) = Some e"
    using e by simp
  have "handle_send 5 3 e (Some (ResponseError 451 ''later'')) ?db \<noteq> None"
    by (simp add: handle_send_def Let_def)
  then obtain db' where "handle_send 5 3 e (Some (ResponseError 451 ''later'')) ?db = Some db'"
    by blast
  then show ?thesis
    using send_outcome [OF at, where now = 5 and k = 3 and r = "Some (ResponseError 451 ''later'')"] e by (auto simp: Let_def)
qed

section \<open>A campaign with an owner\<close>

lemma has_queued_email_iff:
  "has_queued_email c db \<longleftrightarrow> (\<exists>e \<in> set (rows (emails db)). em_campaign_id e = c \<and> em_status e = E_QUEUED)"
proof -
  have "has_queued_email c db \<longleftrightarrow> \<not> (\<forall>e \<in> set (rows (emails db)). \<not> (em_campaign_id e = c \<and> em_status e = E_QUEUED))"
    unfolding has_queued_email_def first_where_None_iff [symmetric] ..
  then show ?thesis by blast
qed

text \<open>
  The loop reads its campaign with \<open>get_campaign(campaign_id)\<close>, which without an owner and
  without \<open>view_all\<close> sees only campaigns whose owner is NULL. So for a campaign with an owner
  a dispatch that has mail and credentials queues the selected drafts, sends nothing and ends,
  and the campaign keeps its status.
\<close>

theorem owned_campaign_not_sent:
  assumes "\<forall>cp \<in> set (rows (campaigns db)). cp_id cp = c \<longrightarrow> cp_owner_id cp \<noteq> None"
    and "queue_campaign_emails c db = (db1, n)" "0 < n"
    and "resolve_credential_pool kr now (get_campaign_credential_ids c db1) db1 = Inr (cred # creds)"
  shows "run_campaign_dispatch kr now sessions c db = (db1, [], T_Done) \<and> campaigns db1 = campaigns db \<and>
         has_queued_email c db1"
proof -
  have same: "campaigns db1 = campaigns db"
    using assms(2) by (auto simp: queue_campaign_emails_def Let_def)
  have none: "get_campaign c None False db1 = None"
    using assms(1) by (auto simp: get_campaign_def same first_where_None_iff)
  obtain e where "e \<in> set (rows (emails db))" "em_campaign_id e = c" "em_status e = E_DRAFT" "em_is_selected e"
    using assms(2,3) by (auto simp: queue_campaign_emails_def Let_def count_where_pos_iff)
  then have "e\<lparr>em_status := E_QUEUED\<rparr> \<in> set (rows (emails db1))"
    using assms(2) by (force simp: queue_campaign_emails_def Let_def set_update_where)
  then have "has_queued_email c db1"
    unfolding has_queued_email_iff by (rule rev_bexI) (simp add: \<open>em_campaign_id e = c\<close>)
  then show ?thesis
    using assms none same by (simp add: run_campaign_dispatch_def start_dispatch_defs loop_top_defs)
qed

text \<open>An owned campaign with one draft, and a credential that can send.\<close>

definition owned_db :: outreach_db where
  "owned_db =
     empty_outreach\<lparr>campaigns := \<lparr>rows = [mk_campaign
         (\<lparr>nc_name = ''c'', nc_template_id = 1, nc_kind = ''production'', nc_test_credential_id = None,
           nc_status = C_RUNNING, nc_owner_id = Some 4\<rparr>, 0) 1], next_id = 2\<rparr>,
       emails := fst (insert_row (mk_email (1,
         \<lparr>de_lead_id = None, de_recipient_email = ''a@x'', de_subject = ''s'', de_body = ''b'',
          de_is_selected = True, de_missing_fields = None\<rparr>)) empty_table),
       credentials := demo_credentials\<rparr>"

theorem owned_campaign_not_sent_witness:
  "run_campaign_dispatch demo_ring 10 [] 1 owned_db = (fst (queue_campaign_emails 1 owned_db), [], T_Done)"
proof -
  let ?db1 = "fst (queue_campaign_emails 1 owned_db)"
  have own: "\<forall>cp \<in> set (rows (campaigns owned_db)). cp_id cp = 1 \<longrightarrow> cp_owner_id cp \<noteq> None"
    by (simp add: owned_db_def mk_campaign_def)
  have q: "queue_campaign_emails 1 owned_db = (?db1, 1)"
    by (simp add: queue_campaign_emails_def Let_def owned_db_def count_where_def insert_row_def
        empty_table_def mk_email_def)
  have ids: "get_campaign_credential_ids 1 ?db1 = []"
    by (simp add: queue_campaign_emails_def Let_def owned_db_def get_campaign_credential_ids_def
        first_where_def mk_campaign_def select_where_def empty_outreach_def empty_table_def)
  have "resolve_credential_pool demo_ring 10 [] ?db1 = Inr [demo_send_credential]"
    by (rule demo_pool) (simp_all add: queue_campaign_emails_def Let_def owned_db_def count_where_def
        insert_row_def empty_table_def mk_email_def update_where_def sent_today_def)
  then show ?thesis
    using owned_campaign_not_sent [OF own q] ids by simp
qed

section \<open>The run in which every send succeeds\<close>

definition queued_ids :: "nat \<Rightarrow> outreach_db \<Rightarrow> nat list" where
  "queued_ids c db =
     map em_id (sort_key em_id (select_where (\<lambda>e. em_campaign_id e = c \<and> em_status e = E_QUEUED) (emails db)))"

text \<open>
  The campaign is running and visible to the loop, and its pool is never empty and needs no
  OAuth, whatever the emails are.
\<close>

definition steady :: "key_ring \<Rightarrow> datetime \<Rightarrow> nat \<Rightarrow> outreach_db \<Rightarrow> bool" where
  "steady kr now c db =
     ((\<exists>cp. get_campaign c None False db = Some cp \<and> cp_status cp = C_RUNNING) \<and>
      (\<exists>d ds. (\<forall>t em. now \<le> t \<longrightarrow>
                 resolve_credential_pool kr t (get_campaign_credential_ids c db) (db\<lparr>emails := em\<rparr>) = Inr (d # ds)) \<and>
              (\<forall>x \<in> set (d # ds). sc_provider x = ''basic'')))"

definition all_good :: "datetime \<Rightarrow> (datetime \<times> smtp_session) list \<Rightarrow> bool" where
  "all_good now ss =
     (\<forall>(t, s) \<in> set ss. now \<le> t \<and> sm_connect s = None \<and> sm_login s = None \<and> sm_message s = None \<and> sm_quit s = None)"

lemma credential_ids_emails [simp]:
  "get_campaign_credential_ids c (db\<lparr>emails := em\<rparr>) = get_campaign_credential_ids c db"
  by (simp add: get_campaign_credential_ids_def cong: option.case_cong if_cong)

lemma steady_emails: "steady kr now c db \<Longrightarrow> steady kr now c (db\<lparr>emails := em\<rparr>)"
  by (simp add: steady_def get_campaign_def)

lemma steady_pool:
  assumes "steady kr now c db" "now \<le> t"
  obtains d ds where "resolve_credential_pool kr t (get_campaign_credential_ids c db) db = Inr (d # ds)"
    "\<forall>x \<in> set (d # ds). sc_provider x = ''basic''"
proof -
  obtain d ds where p: "\<And>t em. now \<le> t \<Longrightarrow>
      resolve_credential_pool kr t (get_campaign_credential_ids c db) (db\<lparr>emails := em\<rparr>) = Inr (d # ds)"
    and b: "\<forall>x \<in> set (d # ds). sc_provider x = ''basic''"
    using assms(1) by (auto simp: steady_def)
  have "db\<lparr>emails := emails db\<rparr> = db"
    by simp
  then show thesis
    using p [OF assms(2), of "emails db"] b that by metis
qed

lemma get_next_credential_in:
  "creds \<noteq> [] \<Longrightarrow> \<exists>x i. get_next_credential creds idx = (Some x, i) \<and> x \<in> set creds"
  by (simp add: get_next_credential_def)

lemma first_queued_ids: "first_queued c db = None \<longleftrightarrow> queued_ids c db = []"
  by (simp add: first_queued_def queued_ids_def split: list.split)

lemma queued_ids_claim:
  assumes "email_keys.keys_ok (emails db)" "first_queued c db = Some e"
  shows "queued_ids c db = em_id e # queued_ids c (fst (claim_guarded now (em_id e) db))"
proof -
  let ?q = "\<lambda>e. em_campaign_id e = c \<and> em_status e = E_QUEUED"
  let ?f = "\<lambda>x. if em_id x = em_id e \<and> em_status x = E_QUEUED
                then x\<lparr>em_status := E_SENDING, em_sending_since := Some now\<rparr> else x"
  have filter_f: "filter ?q (map ?f xs) = filter (\<lambda>x. em_id x \<noteq> em_id e) (filter ?q xs)" for xs
    by (induction xs) auto
  obtain es where es: "sort_key em_id (filter ?q (rows (emails db))) = e # es"
    using assms(2) by (auto simp: first_queued_def select_where_def split: list.splits)
  have "distinct (map em_id (filter ?q (rows (emails db))))"
    using assms(1) by (simp add: email_keys.keys_ok_def distinct_map_filter)
  moreover have "mset (map em_id (e # es)) = mset (map em_id (filter ?q (rows (emails db))))"
    by (simp only: es [symmetric] mset_map mset_sort)
  ultimately have "distinct (map em_id (e # es))"
    using mset_eq_imp_distinct_iff by blast
  then have drop: "filter (\<lambda>x. em_id x \<noteq> em_id e) (e # es) = es"
    by (auto simp: filter_id_conv) (metis imageI)
  have "queued_ids c (fst (claim_guarded now (em_id e) db)) =
      map em_id (sort_key em_id (filter (\<lambda>x. em_id x \<noteq> em_id e) (filter ?q (rows (emails db)))))"
    by (simp add: queued_ids_def claim_guarded_def Let_def select_where_def table_simps filter_f)
  also have "sort_key em_id (filter (\<lambda>x. em_id x \<noteq> em_id e) (filter ?q (rows (emails db)))) =
      filter (\<lambda>x. em_id x \<noteq> em_id e) (e # es)"
    by (simp only: es [symmetric] filter_sort)
  also have "\<dots> = es"
    by (rule drop)
  finally show ?thesis
    by (simp add: queued_ids_def select_where_def es)
qed

lemma queued_ids_mark_sent:
  assumes "email_keys.keys_ok (emails db)" "flight db i = Some E_SENDING"
  shows "queued_ids c (mark_email_sent now i k db) = queued_ids c db"
proof -
  have "\<forall>e \<in> set (rows (emails db)). em_id e = i \<longrightarrow> em_status e \<noteq> E_QUEUED"
  proof (intro ballI impI)
    fix e assume "e \<in> set (rows (emails db))" "em_id e = i"
    then have "email_at db i = Some e"
      using email_at_memI [OF assms(1)] by blast
    then show "em_status e \<noteq> E_QUEUED"
      using assms(2) by (auto simp: flight_def in_flight_def)
  qed
  then have "filter (\<lambda>e. em_campaign_id e = c \<and> em_status e = E_QUEUED)
       (map (\<lambda>e. if em_id e = i then e\<lparr>em_status := E_SENT, em_sent_at := Some now, em_credential_id := k\<rparr> else e) xs) =
     filter (\<lambda>e. em_campaign_id e = c \<and> em_status e = E_QUEUED) xs" if "set xs \<subseteq> set (rows (emails db))" for xs
    using that by (induction xs) auto
  then show ?thesis
    by (simp add: queued_ids_def mark_email_sent_def select_where_def table_simps)
qed

lemma loop_top_empty:
  assumes "steady kr now c db" "queued_ids c db = []"
  shows "\<exists>db' cp. loop_top kr t c idx db = (db', T_Done) \<and> emails db' = emails db \<and>
    get_campaign c None False db' = Some cp \<and>
    cp_status cp = (if has_remaining_drafts c db' then C_PAUSED else C_COMPLETED)"
proof -
  obtain cp where cp: "get_campaign c None False db = Some cp" "cp_status cp = C_RUNNING"
    using assms(1) by (auto simp: steady_def)
  have id: "cp_id cp = c"
    using first_where_SomeD cp(1) by (fastforce simp: get_campaign_def)
  have claim: "claim_next_queued_email (\<lambda>_. id) t c db = (db, None)"
    using assms(2) by (simp add: claim_one_session first_queued_ids [symmetric])
  let ?st = "if has_remaining_drafts c db then C_PAUSED else C_COMPLETED"
  let ?db' = "fst (update_campaign_status c ?st None db)"
  have "loop_top kr t c idx db = (?db', T_Done)"
    using cp claim by (simp add: loop_top_defs)
  moreover have "get_campaign c None False ?db' = Some (cp\<lparr>cp_status := ?st, cp_pause_reason := None\<rparr>)"
    using cp(1) id by (simp add: get_campaign_def update_campaign_status_def Let_def first_where_update_where)
  moreover have "emails ?db' = emails db"
    by simp
  moreover from this have "has_remaining_drafts c ?db' = has_remaining_drafts c db"
    by (simp add: has_remaining_drafts_def)
  ultimately show ?thesis
    by auto
qed

lemma loop_top_next:
  assumes "steady kr now c db" "now \<le> t" "email_keys.keys_ok (emails db)" "queued_ids c db \<noteq> []"
  shows "\<exists>em e cred idx'. loop_top kr t c idx db = (db\<lparr>emails := em\<rparr>, T_Sending e cred idx') \<and>
    queued_ids c db = em_id e # queued_ids c (db\<lparr>emails := em\<rparr>) \<and> sc_provider cred = ''basic''"
proof -
  obtain cp where cp: "get_campaign c None False db = Some cp" "cp_status cp = C_RUNNING"
    using assms(1) by (auto simp: steady_def)
  obtain e where e: "first_queued c db = Some e"
    using assms(4) by (auto simp: first_queued_ids [symmetric])
  obtain em where em: "fst (claim_guarded t (em_id e) db) = db\<lparr>emails := em\<rparr>"
    by (auto simp: claim_guarded_def Let_def)
  obtain d ds where pool: "resolve_credential_pool kr t
       (get_campaign_credential_ids c (db\<lparr>emails := em\<rparr>)) (db\<lparr>emails := em\<rparr>) = Inr (d # ds)"
    and basic: "\<forall>x \<in> set (d # ds). sc_provider x = ''basic''"
    using steady_pool [OF steady_emails [OF assms(1)] assms(2)] by blast
  obtain cred idx' where cred: "get_next_credential (d # ds) idx = (Some cred, idx')" "cred \<in> set (d # ds)"
    using get_next_credential_in [of "d # ds" idx] by auto
  have claim: "claim_next_queued_email (\<lambda>_. id) t c db = (db\<lparr>emails := em\<rparr>, Some e)"
    using e em by (simp add: claim_one_session)
  have "loop_top kr t c idx db = (db\<lparr>emails := em\<rparr>, T_Sending e cred idx')"
    using cp claim pool cred(1) by (simp add: loop_top_defs)
  then show ?thesis
    using queued_ids_claim [OF assms(3) e, of t] em basic cred(2) by auto
qed

lemma finish_send_good:
  assumes "sm_connect s = None" "sm_login s = None" "sm_message s = None" "sm_quit s = None"
    "sc_provider cred = ''basic''"
  shows "finish_send kr t s c e cred idx db =
     (case loop_top kr t c idx (mark_email_sent t (em_id e) (Some (sc_id cred)) db) of (db', st) \<Rightarrow> (db', True, st))"
  using assms by (simp add: finish_send_def send_one_email_def handle_send_def Let_def)

text \<open>The drained state: every email of \<open>ids\<close> is SENT and the campaign has its final status.\<close>

definition drained :: "nat \<Rightarrow> nat list \<Rightarrow> outreach_db \<Rightarrow> outreach_db \<Rightarrow> bool" where
  "drained c ids db db' =
     ((\<forall>i \<in> set ids. flight db' i = Some E_SENT) \<and>
      (\<forall>i. flight db i = Some E_SENT \<longrightarrow> flight db' i = Some E_SENT) \<and>
      (\<exists>cp. get_campaign c None False db' = Some cp \<and>
            cp_status cp = (if has_remaining_drafts c db' then C_PAUSED else C_COMPLETED)))"

lemma run_task_drains:
  assumes "steady kr now c db" "email_keys.keys_ok (emails db)" "flight db (em_id e) = Some E_SENDING"
    "sc_provider cred = ''basic''" "all_good now ss" "length (queued_ids c db) < length ss"
  shows "\<exists>db'. run_task kr ss c (db, T_Sending e cred idx) = (db', em_id e # queued_ids c db, T_Done) \<and>
     drained c (em_id e # queued_ids c db) db db'"
  using assms
proof (induction ss arbitrary: db e cred idx)
  case Nil
  then show ?case by simp
next
  case (Cons p ss)
  obtain t s where p: "p = (t, s)" by (cases p)
  define db1 where "db1 = mark_email_sent t (em_id e) (Some (sc_id cred)) db"
  have s: "now \<le> t" "sm_connect s = None" "sm_login s = None" "sm_message s = None" "sm_quit s = None"
    and good: "all_good now ss"
    using Cons.prems(5) p by (auto simp: all_good_def)
  have st1: "steady kr now c db1"
    using steady_emails [OF Cons.prems(1)] by (simp add: db1_def mark_email_sent_def)
  have q1: "queued_ids c db1 = queued_ids c db"
    unfolding db1_def by (rule queued_ids_mark_sent [OF Cons.prems(2,3)])
  note row = row_only_flight [OF row_only_sent [OF refl, of db "em_id e" True t "Some (sc_id cred)"] Cons.prems(2)]
  have ok1: "email_keys.keys_ok (emails db1)" and sent: "flight db1 (em_id e) = Some E_SENT"
    using row(1) row(3) [OF TrueI Cons.prems(3)] by (simp_all add: db1_def)
  have keep: "flight db1 i = Some E_SENT" if "flight db i = Some E_SENT" for i
    using that row(2) sent by (cases "i = em_id e") (auto simp: db1_def)
  note fin = finish_send_good [OF s(2-5) Cons.prems(4), of kr t c e idx db, folded db1_def]
  show ?case
  proof (cases "queued_ids c db1 = []")
    case True
    obtain db' cp where l: "loop_top kr t c idx db1 = (db', T_Done)" "emails db' = emails db1"
        "get_campaign c None False db' = Some cp"
        "cp_status cp = (if has_remaining_drafts c db' then C_PAUSED else C_COMPLETED)"
      using loop_top_empty [OF st1 True] by blast
    have "drained c (em_id e # queued_ids c db) db db'"
      using l(3,4) keep sent True q1 by (simp add: drained_def flight_same [OF l(2)])
    then show ?thesis
      using p fin l(1) True q1 by simp
  next
    case False
    obtain em e' cred' idx' where l: "loop_top kr t c idx db1 = (db1\<lparr>emails := em\<rparr>, T_Sending e' cred' idx')"
        "queued_ids c db1 = em_id e' # queued_ids c (db1\<lparr>emails := em\<rparr>)" "sc_provider cred' = ''basic''"
      using loop_top_next [OF st1 s(1) ok1 False] by blast
    let ?db2 = "db1\<lparr>emails := em\<rparr>"
    have cl: "claims db1 ?db2 (T_Sending e' cred' idx')"
      by (rule loop_top_claims [OF ok1 l(1)])
    then have keep2: "\<And>i. flight db1 i = Some E_SENT \<Longrightarrow> flight ?db2 i = Some E_SENT"
      and ok2: "email_keys.keys_ok (emails ?db2)" and f2: "flight ?db2 (em_id e') = Some E_SENDING"
      using ok1 by (auto simp: claims_def keeps_flight_def)
    have len: "length (queued_ids c ?db2) < length ss"
    proof -
      have "length (queued_ids c db) = Suc (length (queued_ids c ?db2))"
        using q1 l(2) by (metis length_Cons)
      with Cons.prems(6) show ?thesis by simp
    qed
    obtain db' where run: "run_task kr ss c (?db2, T_Sending e' cred' idx') =
         (db', em_id e' # queued_ids c ?db2, T_Done)"
      and dr: "drained c (em_id e' # queued_ids c ?db2) ?db2 db'"
      using Cons.IH [OF steady_emails [OF st1] ok2 f2 l(3) good len] by blast
    have qd: "queued_ids c db = em_id e' # queued_ids c ?db2"
      using q1 l(2) by simp
    have "drained c (em_id e # queued_ids c db) db db'"
      using dr keep keep2 sent by (simp add: drained_def qd)
    then show ?thesis
      using p fin l(1,2) run q1 by simp
  qed
qed

lemma length_queued_ids: "length (queued_ids c db) = status_count c E_QUEUED db"
  by (simp add: queued_ids_def status_count_def count_where_def select_where_def)


definition unlimited_db :: outreach_db where
  "unlimited_db = demo_db\<lparr>credentials := \<lparr>rows = [cooled_credential\<lparr>cr_daily_send_limit := None\<rparr>], next_id = 2\<rparr>\<rparr>"

lemma unlimited_steady: "steady demo_ring 10 1 (fst (queue_campaign_emails 1 unlimited_db))"
proof -
  define d where "d = fst (queue_campaign_emails 1 unlimited_db)"
  have same: "campaigns d = \<lparr>rows = [demo_campaign], next_id = 2\<rparr>" "campaign_credentials d = empty_table"
    "credentials d = \<lparr>rows = [cooled_credential\<lparr>cr_daily_send_limit := None\<rparr>], next_id = 2\<rparr>"
    by (simp_all add: d_def queue_campaign_emails_def Let_def unlimited_db_def demo_db_def empty_outreach_def)
  have ids: "get_campaign_credential_ids 1 d = []"
    by (simp add: get_campaign_credential_ids_def same first_where_def demo_campaign_def select_where_def empty_table_def)
  have "resolve_credential_pool demo_ring t [] (d\<lparr>emails := em\<rparr>) =
      Inr [demo_send_credential\<lparr>sc_daily_send_limit := None\<rparr>]" if "10 \<le> t" for t em
    using that
    by (simp add: resolve_credential_pool_def get_active_credentials_def select_where_def same
        cooled_credential_def mk_credential_def cooldown_over_def credential_send_dict_def Let_def
        decrypt_optional_def over_daily_limit_def demo_send_credential_def)
  moreover have "get_campaign 1 None False d = Some demo_campaign" "cp_status demo_campaign = C_RUNNING"
    by (simp_all add: get_campaign_def same first_where_def demo_campaign_def)
  ultimately show ?thesis
    using ids unfolding d_def [symmetric] steady_def
    by (intro conjI exI [of _ "demo_send_credential\<lparr>sc_daily_send_limit := None\<rparr>"]
        exI [of _ "[] :: send_credential list"] exI [of _ demo_campaign])
      (auto simp: demo_send_credential_def)
qed


end
