(* ===== verification/Auth.thy ===== *)
theory Auth
  imports Shared "HOL-Library.List_Lexorder" "HOL-Library.Char_ord"
begin

text \<open>
  Users, roles, permissions, refresh sessions and the audit trail: the tables of
  \<open>cloud/db/tables/auth.py\<close> and the operations of \<open>AuthMixin\<close>
  (\<open>cloud/db/mixins/auth_mixin.py\<close>). The password hash (argon2id) is a function argument.
\<close>

section \<open>Tables\<close>

record role =
  ro_id :: nat
  ro_name :: string
  ro_description :: "string option"
  ro_is_system :: bool

record user =
  us_id :: nat
  us_email :: string
  us_password_hash :: string
  us_full_name :: "string option"
  us_is_active :: bool
  us_is_admin :: bool
  us_role_id :: "nat option"
  us_token_version :: nat
  us_failed_logins :: nat
  us_locked_until :: "datetime option"
  us_last_login_at :: "datetime option"
  us_created_by :: "nat option"
  us_created_at :: datetime

record role_permission =
  rp_id :: nat
  rp_role_id :: nat
  rp_permission_key :: string

record user_permission =
  up_id :: nat
  up_user_id :: nat
  up_permission_key :: string
  up_effect :: string

record user_session =
  se_id :: nat
  se_user_id :: nat
  se_refresh_token_hash :: string
  se_user_agent :: "string option"
  se_ip :: "string option"
  se_created_at :: datetime
  se_last_used_at :: "datetime option"
  se_expires_at :: datetime
  se_revoked_at :: "datetime option"

record audit_row =
  ad_id :: nat
  ad_user_id :: "nat option"
  ad_action :: string
  ad_target_type :: "string option"
  ad_target_id :: "string option"
  ad_detail :: "(string \<times> json) list option"
  ad_ip :: "string option"
  ad_created_at :: datetime

record auth_db =
  permissions :: "string list"
  roles :: "role table"
  role_permissions :: "role_permission table"
  users :: "user table"
  user_permissions :: "user_permission table"
  sessions :: "user_session table"
  audit_log :: "audit_row table"

section \<open>Seeding\<close>

definition mk_role :: "string \<times> string option \<times> bool \<Rightarrow> nat \<Rightarrow> role" where
  "mk_role a i = \<lparr>ro_id = i, ro_name = fst a, ro_description = fst (snd a), ro_is_system = snd (snd a)\<rparr>"

definition mk_role_permission :: "nat \<times> string \<Rightarrow> nat \<Rightarrow> role_permission" where
  "mk_role_permission a i = \<lparr>rp_id = i, rp_role_id = fst a, rp_permission_key = snd a\<rparr>"

definition role_perm_keys :: "nat \<Rightarrow> auth_db \<Rightarrow> string list" where
  "role_perm_keys role_id db =
     map rp_permission_key (select_where (\<lambda>p. rp_role_id p = role_id) (role_permissions db))"

fun add_role_permissions :: "nat \<Rightarrow> string list \<Rightarrow> role_permission table \<Rightarrow> role_permission table" where
  "add_role_permissions role_id [] t = t"
| "add_role_permissions role_id (k # ks) t =
     add_role_permissions role_id ks (fst (insert_row (mk_role_permission (role_id, k)) t))"

definition seed_permissions :: "auth_db \<Rightarrow> auth_db" where
  "seed_permissions db =
     db\<lparr>permissions := permissions db @ filter (\<lambda>k. k \<notin> set (permissions db)) PERMISSIONS\<rparr>"

definition seed_role :: "auth_db \<Rightarrow> string \<times> string list \<Rightarrow> auth_db" where
  "seed_role db d =
     (let (role_name, perm_keys) = d;
          (db1, role_id) =
            (case first_where (\<lambda>r. ro_name r = role_name) (roles db) of
               Some r \<Rightarrow> (db, ro_id r)
             | None \<Rightarrow> (case insert_row (mk_role (role_name, None, True)) (roles db) of
                          (t, i) \<Rightarrow> (db\<lparr>roles := t\<rparr>, i)));
          missing = filter (\<lambda>k. k \<notin> set (role_perm_keys role_id db1)) perm_keys
      in db1\<lparr>role_permissions := add_role_permissions role_id missing (role_permissions db1)\<rparr>)"

definition seed_rbac :: "auth_db \<Rightarrow> auth_db" where
  "seed_rbac db = foldl seed_role (seed_permissions db) ROLE_DEFAULTS"

section \<open>Users\<close>

record new_user =
  nu_email :: string
  nu_password_hash :: string
  nu_full_name :: "string option"
  nu_is_admin :: bool
  nu_role_id :: "nat option"
  nu_created_by :: "nat option"

definition mk_user :: "new_user \<times> datetime \<Rightarrow> nat \<Rightarrow> user" where
  "mk_user a i =
     \<lparr>us_id = i, us_email = nu_email (fst a), us_password_hash = nu_password_hash (fst a),
      us_full_name = nu_full_name (fst a), us_is_active = True, us_is_admin = nu_is_admin (fst a),
      us_role_id = nu_role_id (fst a), us_token_version = 0, us_failed_logins = 0,
      us_locked_until = None, us_last_login_at = None, us_created_by = nu_created_by (fst a),
      us_created_at = snd a\<rparr>"

definition normal_email :: "string \<Rightarrow> string" where
  "normal_email email = py_lower (py_strip email)"

definition role_by_name :: "string \<Rightarrow> auth_db \<Rightarrow> role option" where
  "role_by_name name db = first_where (\<lambda>r. ro_name r = name) (roles db)"

text \<open>An unknown role name leaves the new user without a role.\<close>

definition create_user ::
  "(string \<Rightarrow> string) \<Rightarrow> datetime \<Rightarrow> string \<Rightarrow> string \<Rightarrow> string option \<Rightarrow> bool \<Rightarrow> string option \<Rightarrow>
   nat option \<Rightarrow> auth_db \<Rightarrow> py_exn + auth_db \<times> nat" where
  "create_user hash_password now email password full_name is_admin role_name created_by db =
     (let e = normal_email email;
          role_id = (if truthy role_name then map_option ro_id (role_by_name (the role_name) db) else None);
          a = \<lparr>nu_email = e, nu_password_hash = hash_password password, nu_full_name = full_name,
               nu_is_admin = is_admin, nu_role_id = role_id, nu_created_by = created_by\<rparr>
      in if 0 < count_where (\<lambda>u. us_email u = e) (users db) then Inl IntegrityError
         else (let (t, i) = insert_row (mk_user (a, now)) (users db) in Inr (db\<lparr>users := t\<rparr>, i)))"

definition get_user_by_email :: "string \<Rightarrow> auth_db \<Rightarrow> user option" where
  "get_user_by_email email db = first_where (\<lambda>u. us_email u = normal_email email) (users db)"

definition get_user_by_id :: "nat \<Rightarrow> auth_db \<Rightarrow> user option" where
  "get_user_by_id user_id db = first_where (\<lambda>u. us_id u = user_id) (users db)"

definition list_users :: "auth_db \<Rightarrow> user list" where
  "list_users db = sort_key us_created_at (rows (users db))"

definition update_user :: "nat \<Rightarrow> (user \<Rightarrow> user) \<Rightarrow> auth_db \<Rightarrow> auth_db" where
  "update_user user_id f db = db\<lparr>users := update_where (\<lambda>u. us_id u = user_id) f (users db)\<rparr>"

definition revoke_sessions_except ::
  "datetime \<Rightarrow> nat \<Rightarrow> nat option \<Rightarrow> auth_db \<Rightarrow> auth_db \<times> nat" where
  "revoke_sessions_except now user_id keep_session_id db =
     (let hit = (\<lambda>s. se_user_id s = user_id \<and> se_revoked_at s = None \<and>
                     (case keep_session_id of None \<Rightarrow> True | Some k \<Rightarrow> se_id s \<noteq> k))
      in (db\<lparr>sessions := update_where hit (\<lambda>s. s\<lparr>se_revoked_at := Some now\<rparr>) (sessions db)\<rparr>,
          count_where hit (sessions db)))"

definition revoke_session_family :: "datetime \<Rightarrow> nat \<Rightarrow> auth_db \<Rightarrow> auth_db" where
  "revoke_session_family now user_id db = fst (revoke_sessions_except now user_id None db)"

definition set_password ::
  "(string \<Rightarrow> string) \<Rightarrow> datetime \<Rightarrow> nat \<Rightarrow> string \<Rightarrow> auth_db \<Rightarrow> auth_db \<times> bool" where
  "set_password hash_password now user_id password db =
     (case get_user_by_id user_id db of
        None \<Rightarrow> (db, False)
      | Some _ \<Rightarrow>
          (revoke_session_family now user_id
             (update_user user_id (\<lambda>u. u\<lparr>us_password_hash := hash_password password,
                                        us_token_version := us_token_version u + 1\<rparr>) db), True))"

definition set_user_active :: "datetime \<Rightarrow> nat \<Rightarrow> bool \<Rightarrow> auth_db \<Rightarrow> auth_db \<times> bool" where
  "set_user_active now user_id is_active db =
     (case get_user_by_id user_id db of
        None \<Rightarrow> (db, False)
      | Some _ \<Rightarrow>
          (let db1 = update_user user_id
                       (\<lambda>u. u\<lparr>us_is_active := is_active,
                              us_token_version := (if is_active then us_token_version u
                                                   else us_token_version u + 1)\<rparr>) db
           in (if is_active then db1 else revoke_session_family now user_id db1, True)))"

definition count_active_admins :: "auth_db \<Rightarrow> nat" where
  "count_active_admins db = count_where (\<lambda>u. us_is_admin u \<and> us_is_active u) (users db)"

definition set_user_role :: "nat \<Rightarrow> string option \<Rightarrow> auth_db \<Rightarrow> auth_db \<times> bool" where
  "set_user_role user_id role_name db =
     (case get_user_by_id user_id db of
        None \<Rightarrow> (db, False)
      | Some _ \<Rightarrow>
          if truthy role_name
          then (case role_by_name (the role_name) db of
                  None \<Rightarrow> (db, False)
                | Some r \<Rightarrow> (update_user user_id (\<lambda>u. u\<lparr>us_role_id := Some (ro_id r)\<rparr>) db, True))
          else (update_user user_id (\<lambda>u. u\<lparr>us_role_id := None\<rparr>) db, True))"

definition record_login_success :: "datetime \<Rightarrow> nat \<Rightarrow> auth_db \<Rightarrow> auth_db" where
  "record_login_success now user_id db =
     update_user user_id (\<lambda>u. u\<lparr>us_failed_logins := 0, us_locked_until := None,
                                us_last_login_at := Some now\<rparr>) db"

definition record_login_failure :: "datetime \<Rightarrow> nat \<Rightarrow> nat \<Rightarrow> int \<Rightarrow> auth_db \<Rightarrow> auth_db" where
  "record_login_failure now user_id threshold lockout_minutes db =
     update_user user_id
       (\<lambda>u. u\<lparr>us_failed_logins := us_failed_logins u + 1,
              us_locked_until := (if threshold \<le> us_failed_logins u + 1
                                  then Some (now + seconds (60 * lockout_minutes))
                                  else us_locked_until u)\<rparr>) db"

section \<open>Permissions\<close>

definition user_overrides :: "nat \<Rightarrow> auth_db \<Rightarrow> user_permission list" where
  "user_overrides user_id db = select_where (\<lambda>o'. up_user_id o' = user_id) (user_permissions db)"

definition apply_override :: "string set \<Rightarrow> user_permission \<Rightarrow> string set" where
  "apply_override perms ov =
     (if up_effect ov = ''grant'' then insert (up_permission_key ov) perms
      else if up_effect ov = ''deny'' then perms - {up_permission_key ov}
      else perms)"

definition resolve_effective_permissions :: "nat \<Rightarrow> auth_db \<Rightarrow> string set" where
  "resolve_effective_permissions user_id db =
     (case get_user_by_id user_id db of
        None \<Rightarrow> {}
      | Some user \<Rightarrow>
          if us_is_admin user then set PERMISSIONS
          else
            (let perms = (case us_role_id user of
                            None \<Rightarrow> {}
                          | Some r \<Rightarrow> if r = 0 then {} else set (role_perm_keys r db))
             in foldl apply_override perms (user_overrides user_id db)))"

definition get_role_name :: "nat option \<Rightarrow> auth_db \<Rightarrow> string option" where
  "get_role_name role_id db =
     (case role_id of
        None \<Rightarrow> None
      | Some r \<Rightarrow> if r = 0 then None
                  else map_option ro_name (first_where (\<lambda>x. ro_id x = r) (roles db)))"

definition list_roles :: "auth_db \<Rightarrow> (role \<times> string list) list" where
  "list_roles db = map (\<lambda>r. (r, sort (role_perm_keys (ro_id r) db))) (rows (roles db))"

definition get_role :: "nat \<Rightarrow> auth_db \<Rightarrow> (role \<times> string list) option" where
  "get_role role_id db =
     map_option (\<lambda>r. (r, sort (role_perm_keys role_id db))) (first_where (\<lambda>r. ro_id r = role_id) (roles db))"

text \<open>
  A role row and its bundle are committed together: a duplicate name, a duplicate key in the
  bundle or an unknown key breaks a constraint.
\<close>

definition create_role ::
  "string \<Rightarrow> string option \<Rightarrow> string list \<Rightarrow> auth_db \<Rightarrow> py_exn + auth_db \<times> nat" where
  "create_role name description permission_keys db =
     (if role_by_name name db \<noteq> None \<or> \<not> distinct permission_keys \<or>
         \<not> set permission_keys \<subseteq> set (permissions db)
      then Inl IntegrityError
      else (let (t, i) = insert_row (mk_role (name, description, False)) (roles db)
            in Inr (db\<lparr>roles := t,
                       role_permissions := add_role_permissions i permission_keys (role_permissions db)\<rparr>, i)))"

definition update_role ::
  "nat \<Rightarrow> string option \<Rightarrow> string list option \<Rightarrow> auth_db \<Rightarrow> py_exn + auth_db \<times> bool" where
  "update_role role_id description permission_keys db =
     (case first_where (\<lambda>r. ro_id r = role_id) (roles db) of
        None \<Rightarrow> Inr (db, False)
      | Some role \<Rightarrow>
          if ro_is_system role then Inl ValueError
          else
            (let db1 = (case description of
                          None \<Rightarrow> db
                        | Some d \<Rightarrow> db\<lparr>roles := update_where (\<lambda>r. ro_id r = role_id)
                                              (\<lambda>r. r\<lparr>ro_description := Some d\<rparr>) (roles db)\<rparr>)
             in case permission_keys of
                  None \<Rightarrow> Inr (db1, True)
                | Some keys \<Rightarrow>
                    if \<not> distinct keys \<or> \<not> set keys \<subseteq> set (permissions db) then Inl IntegrityError
                    else Inr (db1\<lparr>role_permissions := add_role_permissions role_id keys
                                (delete_where (\<lambda>p. rp_role_id p = role_id) (role_permissions db1))\<rparr>, True)))"

definition role_in_use :: "nat \<Rightarrow> auth_db \<Rightarrow> bool" where
  "role_in_use role_id db = (first_where (\<lambda>u. us_role_id u = Some role_id) (users db) \<noteq> None)"

text \<open>The two \<open>ValueError\<close>s of the source carry their message.\<close>

definition delete_role :: "nat \<Rightarrow> auth_db \<Rightarrow> string + auth_db \<times> bool" where
  "delete_role role_id db =
     (case first_where (\<lambda>r. ro_id r = role_id) (roles db) of
        None \<Rightarrow> Inr (db, False)
      | Some role \<Rightarrow>
          if ro_is_system role then Inl ''system_role''
          else if role_in_use role_id db then Inl ''in_use''
          else Inr (db\<lparr>role_permissions := delete_where (\<lambda>p. rp_role_id p = role_id) (role_permissions db),
                       roles := delete_where (\<lambda>r. ro_id r = role_id) (roles db)\<rparr>, True))"

definition mk_user_permission :: "nat \<times> string \<times> string \<Rightarrow> nat \<Rightarrow> user_permission" where
  "mk_user_permission a i =
     \<lparr>up_id = i, up_user_id = fst a, up_permission_key = fst (snd a), up_effect = snd (snd a)\<rparr>"

definition set_user_permission_override ::
  "nat \<Rightarrow> string \<Rightarrow> string option \<Rightarrow> auth_db \<Rightarrow> auth_db \<times> bool" where
  "set_user_permission_override user_id permission_key effect db =
     (if get_user_by_id user_id db = None then (db, False)
      else
        (let hit = (\<lambda>o'. up_user_id o' = user_id \<and> up_permission_key o' = permission_key);
             existing = first_where hit (user_permissions db)
         in case effect of
              None \<Rightarrow>
                (case existing of
                   None \<Rightarrow> (db, True)
                 | Some o' \<Rightarrow> (db\<lparr>user_permissions :=
                                  delete_where (\<lambda>x. up_id x = up_id o') (user_permissions db)\<rparr>, True))
            | Some e \<Rightarrow>
                (case existing of
                   Some o' \<Rightarrow> (db\<lparr>user_permissions := update_where (\<lambda>x. up_id x = up_id o')
                                  (\<lambda>x. x\<lparr>up_effect := e\<rparr>) (user_permissions db)\<rparr>, True)
                 | None \<Rightarrow> (db\<lparr>user_permissions :=
                              fst (insert_row (mk_user_permission (user_id, permission_key, e))
                                     (user_permissions db))\<rparr>, True))))"

definition list_user_permission_overrides :: "nat \<Rightarrow> auth_db \<Rightarrow> (string \<times> string) list" where
  "list_user_permission_overrides user_id db =
     map (\<lambda>o'. (up_permission_key o', up_effect o')) (user_overrides user_id db)"

section \<open>Sessions\<close>

record new_session =
  ns_user_id :: nat
  ns_refresh_token_hash :: string
  ns_expires_at :: datetime
  ns_user_agent :: "string option"
  ns_ip :: "string option"

definition mk_session :: "new_session \<times> datetime \<Rightarrow> nat \<Rightarrow> user_session" where
  "mk_session a i =
     \<lparr>se_id = i, se_user_id = ns_user_id (fst a), se_refresh_token_hash = ns_refresh_token_hash (fst a),
      se_user_agent = ns_user_agent (fst a), se_ip = ns_ip (fst a), se_created_at = snd a,
      se_last_used_at = None, se_expires_at = ns_expires_at (fst a), se_revoked_at = None\<rparr>"

definition create_session :: "datetime \<Rightarrow> new_session \<Rightarrow> auth_db \<Rightarrow> auth_db \<times> nat" where
  "create_session now a db =
     (case insert_row (mk_session (a, now)) (sessions db) of (t, i) \<Rightarrow> (db\<lparr>sessions := t\<rparr>, i))"

definition get_session_by_hash :: "string \<Rightarrow> auth_db \<Rightarrow> user_session option" where
  "get_session_by_hash h db = first_where (\<lambda>s. se_refresh_token_hash s = h) (sessions db)"

definition get_session_by_id :: "nat \<Rightarrow> auth_db \<Rightarrow> user_session option" where
  "get_session_by_id session_id db = first_where (\<lambda>s. se_id s = session_id) (sessions db)"

definition list_active_sessions :: "datetime \<Rightarrow> nat \<Rightarrow> auth_db \<Rightarrow> user_session list" where
  "list_active_sessions now user_id db =
     sort_key (\<lambda>s. - se_created_at s)
       (select_where (\<lambda>s. se_user_id s = user_id \<and> se_revoked_at s = None \<and> now < se_expires_at s) (sessions db))"

definition rotate_session :: "datetime \<Rightarrow> nat \<Rightarrow> string \<Rightarrow> datetime \<Rightarrow> auth_db \<Rightarrow> auth_db" where
  "rotate_session now session_id new_hash new_expires_at db =
     db\<lparr>sessions := update_where (\<lambda>s. se_id s = session_id)
          (\<lambda>s. s\<lparr>se_refresh_token_hash := new_hash, se_expires_at := new_expires_at,
                 se_last_used_at := Some now\<rparr>) (sessions db)\<rparr>"

definition revoke_session :: "datetime \<Rightarrow> nat \<Rightarrow> auth_db \<Rightarrow> auth_db" where
  "revoke_session now session_id db =
     db\<lparr>sessions := update_where (\<lambda>s. se_id s = session_id)
          (\<lambda>s. s\<lparr>se_revoked_at := Some now\<rparr>) (sessions db)\<rparr>"

section \<open>Audit trail\<close>

record audit_entry =
  ae_user_id :: "nat option"
  ae_action :: string
  ae_target_type :: "string option"
  ae_target_id :: "string option"
  ae_detail :: "(string \<times> json) list option"
  ae_ip :: "string option"

definition mk_audit :: "audit_entry \<times> datetime \<Rightarrow> nat \<Rightarrow> audit_row" where
  "mk_audit a i =
     \<lparr>ad_id = i, ad_user_id = ae_user_id (fst a), ad_action = ae_action (fst a),
      ad_target_type = ae_target_type (fst a), ad_target_id = ae_target_id (fst a),
      ad_detail = (case ae_detail (fst a) of None \<Rightarrow> None | Some d \<Rightarrow> if d = [] then None else Some d),
      ad_ip = ae_ip (fst a), ad_created_at = snd a\<rparr>"

definition write_audit :: "datetime \<Rightarrow> audit_entry \<Rightarrow> auth_db \<Rightarrow> auth_db" where
  "write_audit now a db = db\<lparr>audit_log := fst (insert_row (mk_audit (a, now)) (audit_log db))\<rparr>"

definition list_audit_log ::
  "nat option \<Rightarrow> string option \<Rightarrow> datetime option \<Rightarrow> datetime option \<Rightarrow> nat \<Rightarrow> nat \<Rightarrow> auth_db \<Rightarrow>
   (audit_row \<times> string option) list \<times> nat" where
  "list_audit_log user_id action_prefix date_from date_to page limit db =
     (let q = select_where (\<lambda>a.
                (case user_id of None \<Rightarrow> True | Some u \<Rightarrow> ad_user_id a = Some u) \<and>
                (truthy action_prefix \<longrightarrow> sql_like (the action_prefix @ ''%'') (ad_action a)) \<and>
                (case date_from of None \<Rightarrow> True | Some d \<Rightarrow> d \<le> ad_created_at a) \<and>
                (case date_to of None \<Rightarrow> True | Some d \<Rightarrow> ad_created_at a \<le> d)) (audit_log db);
          newest_first = sort_key (\<lambda>a. - ad_created_at a) (sort_key (\<lambda>a. - int (ad_id a)) q);
          email_of = (\<lambda>a. case ad_user_id a of None \<Rightarrow> None
                          | Some u \<Rightarrow> map_option us_email (get_user_by_id u db))
      in (map (\<lambda>a. (a, email_of a)) (page_slice page limit newest_first), length q))"

section \<open>Primary keys\<close>

interpretation role_keys: keyed_rows ro_id mk_role
  by unfold_locales (simp add: mk_role_def)

interpretation user_keys: keyed_rows us_id mk_user
  by unfold_locales (simp add: mk_user_def)

interpretation session_keys: keyed_rows se_id mk_session
  by unfold_locales (simp add: mk_session_def)

interpretation audit_keys: keyed_rows ad_id mk_audit
  by unfold_locales (simp add: mk_audit_def)

interpretation role_permission_keys: keyed_rows rp_id mk_role_permission
  by unfold_locales (simp add: mk_role_permission_def)

interpretation user_permission_keys: keyed_rows up_id mk_user_permission
  by unfold_locales (simp add: mk_user_permission_def)

section \<open>Effective permissions\<close>

lemma foldl_overrides_other:
  "k \<notin> up_permission_key ` set os \<Longrightarrow> k \<in> foldl apply_override P os \<longleftrightarrow> k \<in> P"
proof (induction os arbitrary: P)
  case (Cons ov os)
  have "k \<in> apply_override P ov \<longleftrightarrow> k \<in> P"
    using Cons.prems by (auto simp: apply_override_def)
  with Cons show ?case by simp
qed simp

lemma apply_override_own:
  "k \<in> apply_override P ov \<longleftrightarrow>
     (if up_permission_key ov = k then up_effect ov = ''grant'' \<or> (k \<in> P \<and> up_effect ov \<noteq> ''deny'')
      else k \<in> P)"
  by (auto simp: apply_override_def)

lemma foldl_overrides_iff:
  assumes "distinct (map up_permission_key os)"
  shows "k \<in> foldl apply_override P os \<longleftrightarrow>
    (\<exists>ov \<in> set os. up_permission_key ov = k \<and> up_effect ov = ''grant'') \<or>
    (k \<in> P \<and> \<not> (\<exists>ov \<in> set os. up_permission_key ov = k \<and> up_effect ov = ''deny''))"
  using assms
proof (induction os arbitrary: P)
  case (Cons ov os)
  show ?case
  proof (cases "up_permission_key ov = k")
    case True
    then have out: "k \<notin> up_permission_key ` set os"
      using Cons.prems by auto
    then have none: "\<forall>o' \<in> set os. up_permission_key o' \<noteq> k"
      by auto
    from True none show ?thesis
      by (simp add: foldl_overrides_other [OF out] apply_override_own)
  next
    case False
    then show ?thesis
      using Cons by (auto simp: apply_override_own)
  qed
qed simp

text \<open>
  Effective permissions: an admin has the whole catalog; anyone else has a permission exactly
  when a personal override grants it, or the role's bundle holds it and no override denies it.
\<close>

theorem effective_permissions_iff:
  assumes "get_user_by_id u db = Some user" "distinct (map up_permission_key (user_overrides u db))"
  shows "k \<in> resolve_effective_permissions u db \<longleftrightarrow>
    (if us_is_admin user then k \<in> set PERMISSIONS
     else (\<exists>ov \<in> set (user_overrides u db). up_permission_key ov = k \<and> up_effect ov = ''grant'') \<or>
          ((\<exists>r. us_role_id user = Some r \<and> r \<noteq> 0 \<and> k \<in> set (role_perm_keys r db)) \<and>
           \<not> (\<exists>ov \<in> set (user_overrides u db). up_permission_key ov = k \<and> up_effect ov = ''deny'')))"
  using assms
  by (auto simp: resolve_effective_permissions_def foldl_overrides_iff Let_def split: option.splits if_splits)

definition empty_auth :: auth_db where
  "empty_auth =
     \<lparr>permissions = [], roles = \<lparr>rows = [], next_id = 1\<rparr>, role_permissions = \<lparr>rows = [], next_id = 1\<rparr>,
      users = \<lparr>rows = [], next_id = 1\<rparr>, user_permissions = \<lparr>rows = [], next_id = 1\<rparr>,
      sessions = \<lparr>rows = [], next_id = 1\<rparr>, audit_log = \<lparr>rows = [], next_id = 1\<rparr>\<rparr>"

text \<open>A viewer-like user with one granted and one denied permission.\<close>

definition demo_user :: user where
  "demo_user = mk_user (\<lparr>nu_email = ''a@x'', nu_password_hash = ''h'', nu_full_name = None, nu_is_admin = False,
                         nu_role_id = Some 1, nu_created_by = None\<rparr>, 0) 1"

definition demo_auth :: auth_db where
  "demo_auth = empty_auth\<lparr>users := \<lparr>rows = [demo_user], next_id = 2\<rparr>,
     role_permissions := add_role_permissions 1 [''domains.view'', ''leads.view''] (role_permissions empty_auth),
     user_permissions := \<lparr>rows = [mk_user_permission (1, ''leads.view'', ''deny'') 1,
                                 mk_user_permission (1, ''crawl.run'', ''grant'') 2], next_id = 3\<rparr>\<rparr>"

theorem effective_permissions_iff_witness:
  "''crawl.run'' \<in> resolve_effective_permissions 1 demo_auth \<and>
   ''domains.view'' \<in> resolve_effective_permissions 1 demo_auth \<and>
   ''leads.view'' \<notin> resolve_effective_permissions 1 demo_auth"
proof -
  have u: "get_user_by_id 1 demo_auth = Some demo_user"
    by (simp add: get_user_by_id_def first_where_def demo_auth_def demo_user_def mk_user_def)
  have ov: "user_overrides 1 demo_auth = [mk_user_permission (1, ''leads.view'', ''deny'') 1,
      mk_user_permission (1, ''crawl.run'', ''grant'') 2]"
    by (simp add: user_overrides_def select_where_def demo_auth_def mk_user_permission_def)
  have keys: "role_perm_keys 1 demo_auth = [''domains.view'', ''leads.view'']"
    by (simp add: role_perm_keys_def select_where_def demo_auth_def empty_auth_def insert_row_def
        mk_role_permission_def)
  have d: "distinct (map up_permission_key (user_overrides 1 demo_auth))"
    unfolding ov by (simp add: mk_user_permission_def)
  show ?thesis
    using effective_permissions_iff [OF u d, of "''crawl.run''"] effective_permissions_iff [OF u d, of "''domains.view''"]
      effective_permissions_iff [OF u d, of "''leads.view''"]
    by (simp add: ov keys demo_user_def mk_user_def mk_user_permission_def del: One_nat_def)
qed

section \<open>Seeding is idempotent\<close>

definition seeded :: "string \<times> string list \<Rightarrow> auth_db \<Rightarrow> bool" where
  "seeded d db =
     (\<exists>r. first_where (\<lambda>r. ro_name r = fst d) (roles db) = Some r \<and>
          set (snd d) \<subseteq> set (role_perm_keys (ro_id r) db))"

lemma rows_add_role_permissions:
  "\<exists>new. rows (add_role_permissions i ks t) = rows t @ new \<and>
     map rp_permission_key new = ks \<and> (\<forall>p \<in> set new. rp_role_id p = i)"
proof (induction ks arbitrary: t)
  case (Cons k ks)
  obtain new where "rows (add_role_permissions i ks (fst (insert_row (mk_role_permission (i, k)) t))) =
      rows (fst (insert_row (mk_role_permission (i, k)) t)) @ new"
    "map rp_permission_key new = ks" "\<forall>p \<in> set new. rp_role_id p = i"
    using Cons.IH by blast
  then show ?case
    by (intro exI [of _ "mk_role_permission (i, k) (next_id t) # new"])
      (simp add: insert_row_def mk_role_permission_def)
qed simp

lemma role_perm_keys_add:
  "set (role_perm_keys j (db\<lparr>role_permissions := add_role_permissions i ks (role_permissions db)\<rparr>)) =
     set (role_perm_keys j db) \<union> (if j = i then set ks else {})"
proof -
  obtain new where "rows (add_role_permissions i ks (role_permissions db)) = rows (role_permissions db) @ new"
    "map rp_permission_key new = ks" "\<forall>p \<in> set new. rp_role_id p = i"
    using rows_add_role_permissions by blast
  then show ?thesis
    by (auto simp: role_perm_keys_def select_where_def)
qed

lemma seed_role_fixed: "seeded d db \<Longrightarrow> seed_role db d = db"
  by (auto simp: seeded_def seed_role_def split_beta Let_def filter_False subset_iff)

lemma seed_role_seeds: "seeded d (seed_role db d)"
proof (cases "first_where (\<lambda>r. ro_name r = fst d) (roles db)")
  case None
  define r where "r = mk_role (fst d, None, True) (next_id (roles db))"
  have id: "ro_id r = next_id (roles db)"
    by (simp add: r_def mk_role_def)
  have "first_where (\<lambda>r. ro_name r = fst d) (fst (insert_row (mk_role (fst d, None, True)) (roles db))) = Some r"
    using None by (simp add: first_where_insert_row r_def mk_role_def)
  moreover define db1 where "db1 = db\<lparr>roles := fst (insert_row (mk_role (fst d, None, True)) (roles db))\<rparr>"
  moreover have "seed_role db d = db1\<lparr>role_permissions := add_role_permissions (ro_id r)
      (filter (\<lambda>k. k \<notin> set (role_perm_keys (ro_id r) db1)) (snd d)) (role_permissions db1)\<rparr>"
    by (simp add: seed_role_def split_beta Let_def None id db1_def)
  ultimately show ?thesis
    unfolding seeded_def by (intro exI [of _ r]) (auto simp only: role_perm_keys_add; simp)
next
  case (Some r)
  then show ?thesis
    by (auto simp: seeded_def seed_role_def split_beta Let_def role_perm_keys_add)
qed

lemma seed_role_shape:
  "\<exists>db1 i ms. seed_role db d' =
       db1\<lparr>role_permissions := add_role_permissions i ms (role_permissions db1)\<rparr> \<and>
     role_permissions db1 = role_permissions db \<and>
     (\<forall>q r. first_where q (roles db) = Some r \<longrightarrow> first_where q (roles db1) = Some r)"
proof (cases "first_where (\<lambda>r. ro_name r = fst d') (roles db)")
  case None
  let ?t = "fst (insert_row (mk_role (fst d', None, True)) (roles db))"
  have "seed_role db d' = (db\<lparr>roles := ?t\<rparr>)\<lparr>role_permissions :=
      add_role_permissions (next_id (roles db))
        (filter (\<lambda>k. k \<notin> set (role_perm_keys (next_id (roles db)) (db\<lparr>roles := ?t\<rparr>))) (snd d'))
        (role_permissions (db\<lparr>roles := ?t\<rparr>))\<rparr>"
    using None by (simp add: seed_role_def split_beta Let_def)
  then show ?thesis
    by (intro exI [of _ "db\<lparr>roles := ?t\<rparr>"] exI conjI) (auto simp: first_where_insert_row)
next
  case (Some r)
  then have "seed_role db d' = db\<lparr>role_permissions := add_role_permissions (ro_id r)
      (filter (\<lambda>k. k \<notin> set (role_perm_keys (ro_id r) db)) (snd d')) (role_permissions db)\<rparr>"
    unfolding seed_role_def split_beta Let_def by simp
  then show ?thesis
    by blast
qed

lemma seed_role_keeps: "seeded d db \<Longrightarrow> seeded d (seed_role db d')"
proof -
  assume "seeded d db"
  then obtain r where r: "first_where (\<lambda>r. ro_name r = fst d) (roles db) = Some r"
      "set (snd d) \<subseteq> set (role_perm_keys (ro_id r) db)"
    by (auto simp: seeded_def)
  obtain db1 i ms where shape: "seed_role db d' =
       db1\<lparr>role_permissions := add_role_permissions i ms (role_permissions db1)\<rparr>"
    and same: "role_permissions db1 = role_permissions db"
    and keep: "first_where (\<lambda>r. ro_name r = fst d) (roles db1) = Some r"
    using seed_role_shape [of db d'] r(1) by blast
  have "role_perm_keys (ro_id r) db1 = role_perm_keys (ro_id r) db"
    by (simp add: role_perm_keys_def same)
  then show ?thesis
    using r(2) keep unfolding seeded_def shape by (intro exI [of _ r]) (auto simp: role_perm_keys_add)
qed

lemma foldl_seed_keeps: "seeded d db \<Longrightarrow> seeded d (foldl seed_role db ds)"
  by (induction ds arbitrary: db) (simp_all add: seed_role_keeps)

lemma foldl_seed_seeds: "d \<in> set ds \<Longrightarrow> seeded d (foldl seed_role db ds)"
  by (induction ds arbitrary: db) (auto intro: foldl_seed_keeps seed_role_seeds)

lemma foldl_seed_fixed: "\<forall>d \<in> set ds. seeded d db \<Longrightarrow> foldl seed_role db ds = db"
  by (induction ds) (simp_all add: seed_role_fixed)

lemma seed_role_permissions: "permissions (foldl seed_role db ds) = permissions db"
proof (induction ds arbitrary: db)
  case (Cons d ds)
  have "permissions (seed_role db d) = permissions db"
    by (simp add: seed_role_def split_beta Let_def split: option.split)
  with Cons show ?case by simp
qed simp

text \<open>
  Seeding the permission catalog and the built-in roles is idempotent, and after it every
  built-in role exists with at least its default bundle.
\<close>

theorem seed_rbac_idempotent:
  "seed_rbac (seed_rbac db) = seed_rbac db \<and>
   list_all (\<lambda>d. seeded d (seed_rbac db)) ROLE_DEFAULTS \<and>
   set PERMISSIONS \<subseteq> set (permissions (seed_rbac db))"
proof -
  have all: "\<forall>d \<in> set ROLE_DEFAULTS. seeded d (seed_rbac db)"
    by (simp add: seed_rbac_def foldl_seed_seeds)
  have perms: "set PERMISSIONS \<subseteq> set (permissions (seed_rbac db))"
    by (auto simp: seed_rbac_def seed_role_permissions seed_permissions_def)
  then have "seed_permissions (seed_rbac db) = seed_rbac db"
    by (auto simp: seed_permissions_def filter_False subset_iff)
  with all have "seed_rbac (seed_rbac db) = seed_rbac db"
    by (simp add: seed_rbac_def [of "seed_rbac db"] foldl_seed_fixed)
  with all perms show ?thesis by (simp add: list_all_iff)
qed

end
