(* ===== verification/Deps.thy ===== *)
theory Deps
  imports Auth
begin

text \<open>
  The request dependencies of the cloud API (\<open>cloud/api/deps.py\<close>): token extraction and
  decoding with secret rotation, the current user, permission and ownership checks, the client
  address and the CSRF check. PyJWT, SHA-256 and argon2 are the functions of a record
  \<open>auth_fns\<close>; \<open>fn_decode\<close> is None on any \<open>PyJWTError\<close>, an expired token included.
\<close>

datatype http_exn = HTTPException nat string | ServerError py_exn

record http_request =
  rq_method :: string
  rq_authorization :: "string option"
  rq_access_cookie :: "string option"
  rq_refresh_cookie :: "string option"
  rq_csrf_cookie :: "string option"
  rq_csrf_header :: "string option"
  rq_forwarded_for :: "string option"
  rq_user_agent :: "string option"
  rq_client_host :: "string option"

record jwt_payload =
  jp_sub :: nat
  jp_tv :: "nat option"
  jp_type :: "string option"
  jp_iat :: int
  jp_exp :: int

record auth_fns =
  fn_encode :: "jwt_payload \<Rightarrow> string \<Rightarrow> string"
  fn_decode :: "datetime \<Rightarrow> string \<Rightarrow> string \<Rightarrow> jwt_payload option"
  fn_hash_refresh :: "string \<Rightarrow> string"
  fn_hash_password :: "string \<Rightarrow> string"
  fn_verify_password :: "string \<Rightarrow> string \<Rightarrow> bool"

record auth_config =
  ac_jwt_secret :: string
  ac_jwt_secret_prev :: "string option"
  ac_access_ttl_minutes :: int
  ac_refresh_ttl_days :: int
  ac_lockout_threshold :: nat
  ac_lockout_minutes :: int
  ac_rate_limit_attempts :: nat
  ac_rate_limit_window_minutes :: int

definition decode_token_with_rotation ::
  "auth_fns \<Rightarrow> auth_config \<Rightarrow> datetime \<Rightarrow> string \<Rightarrow> jwt_payload option" where
  "decode_token_with_rotation fn cfg now token =
     (case fn_decode fn now token (ac_jwt_secret cfg) of
        Some p \<Rightarrow> Some p
      | None \<Rightarrow>
          if \<not> truthy (ac_jwt_secret_prev cfg) then None
          else fn_decode fn now token (the (ac_jwt_secret_prev cfg)))"

section \<open>The current user\<close>

record current_user =
  me_id :: nat
  me_email :: string
  me_is_admin :: bool
  me_permissions :: "string set"

definition can :: "current_user \<Rightarrow> string \<Rightarrow> bool" where
  "can u perm = (me_is_admin u \<or> perm \<in> me_permissions u)"

definition has_all :: "current_user \<Rightarrow> string list \<Rightarrow> bool" where
  "has_all u perms = (me_is_admin u \<or> list_all (\<lambda>p. p \<in> me_permissions u) perms)"

definition extract_token :: "http_request \<Rightarrow> string option" where
  "extract_token rq =
     (let auth_header = the_default [] (rq_authorization rq) in
      if py_startswith auth_header ''Bearer '' then Some (drop (length ''Bearer '') auth_header)
      else rq_access_cookie rq)"

definition get_current_user ::
  "auth_fns \<Rightarrow> auth_config \<Rightarrow> datetime \<Rightarrow> http_request \<Rightarrow> auth_db \<Rightarrow> http_exn + current_user" where
  "get_current_user fn cfg now rq db =
     (let token = extract_token rq in
      if \<not> truthy token then Inl (HTTPException 401 ''Not authenticated'')
      else
        (case decode_token_with_rotation fn cfg now (the token) of
           None \<Rightarrow> Inl (HTTPException 401 ''Invalid or expired token'')
         | Some payload \<Rightarrow>
             if jp_type payload \<noteq> Some ''access'' then Inl (HTTPException 401 ''Invalid token type'')
             else
               (case get_user_by_id (jp_sub payload) db of
                  None \<Rightarrow> Inl (HTTPException 401 ''User not found or inactive'')
                | Some user \<Rightarrow>
                    if \<not> us_is_active user then Inl (HTTPException 401 ''User not found or inactive'')
                    else if jp_tv payload \<noteq> Some (us_token_version user)
                    then Inl (HTTPException 401 ''Token has been revoked'')
                    else Inr \<lparr>me_id = us_id user, me_email = us_email user, me_is_admin = us_is_admin user,
                              me_permissions = resolve_effective_permissions (us_id user) db\<rparr>)))"

definition require ::
  "string list \<Rightarrow> http_exn + current_user \<Rightarrow> http_exn + current_user" where
  "require perms r =
     (case r of
        Inl x \<Rightarrow> Inl x
      | Inr u \<Rightarrow> if has_all u perms then Inr u else Inl (HTTPException 403 ''Insufficient permissions''))"

text \<open>The page variants answer with a redirect or a page instead of an API error.\<close>

datatype page_answer = Page_user current_user | Page_redirect string | Page_forbidden

definition current_user_or_redirect :: "http_exn + current_user \<Rightarrow> page_answer" where
  "current_user_or_redirect r =
     (case r of Inl _ \<Rightarrow> Page_redirect ''/login?notice=login_required'' | Inr u \<Rightarrow> Page_user u)"

definition require_page :: "string list \<Rightarrow> http_exn + current_user \<Rightarrow> page_answer" where
  "require_page perms r =
     (case r of
        Inl _ \<Rightarrow> Page_redirect ''/login?notice=login_required''
      | Inr u \<Rightarrow> if has_all u perms then Page_user u else Page_forbidden)"

text \<open>None is the return without an exception.\<close>

definition forbid_unless_owner :: "nat option \<Rightarrow> current_user \<Rightarrow> string option \<Rightarrow> http_exn option" where
  "forbid_unless_owner owner_id u allow =
     (if owner_id = Some (me_id u) \<or> me_is_admin u then None
      else if truthy allow \<and> can u (the allow) then None
      else Some (HTTPException 403 ''Insufficient permissions''))"

definition client_ip :: "http_request \<Rightarrow> string option" where
  "client_ip rq =
     (if truthy (rq_forwarded_for rq)
      then Some (py_strip (hd (py_split (CHR '','') (the (rq_forwarded_for rq)))))
      else rq_client_host rq)"

definition SAFE_METHODS :: "string list" where
  "SAFE_METHODS = [''GET'', ''HEAD'', ''OPTIONS'']"

definition verify_csrf :: "http_request \<Rightarrow> http_exn option" where
  "verify_csrf rq =
     (if rq_method rq \<in> set SAFE_METHODS then None
      else if truthy (rq_authorization rq) then None
      else if \<not> truthy (rq_csrf_cookie rq) \<or> \<not> truthy (rq_csrf_header rq) \<or>
              rq_csrf_cookie rq \<noteq> rq_csrf_header rq
      then Some (HTTPException 403 ''Missing or invalid CSRF token'')
      else None)"

section \<open>Lemmas\<close>

lemma get_current_user_InrD:
  assumes "get_current_user fn cfg now rq db = Inr u"
  obtains token payload user where "extract_token rq = Some token"
    "decode_token_with_rotation fn cfg now token = Some payload"
    "get_user_by_id (jp_sub payload) db = Some user" "us_is_active user"
    "jp_tv payload = Some (us_token_version user)" "jp_type payload = Some ''access''"
    "u = \<lparr>me_id = us_id user, me_email = us_email user, me_is_admin = us_is_admin user,
          me_permissions = resolve_effective_permissions (us_id user) db\<rparr>"
proof -
  obtain token where "extract_token rq = Some token"
    using assms by (cases "extract_token rq") (auto simp: get_current_user_def)
  with assms that show thesis
    by (auto simp: get_current_user_def Let_def split: option.splits if_splits)
qed

text \<open>
  A request that is not authenticated by a Bearer header and carries no matching pair of CSRF
  tokens is refused for every method that can change state, and a safe method never is.
\<close>

lemma csrf_guard:
  "verify_csrf rq = None \<longleftrightarrow>
     rq_method rq \<in> {''GET'', ''HEAD'', ''OPTIONS''} \<or> truthy (rq_authorization rq) \<or>
     (\<exists>t. t \<noteq> [] \<and> rq_csrf_cookie rq = Some t \<and> rq_csrf_header rq = Some t)"
proof (cases "rq_csrf_cookie rq")
  case None
  then show ?thesis by (simp add: verify_csrf_def SAFE_METHODS_def)
next
  case (Some c)
  then show ?thesis by (cases "rq_csrf_header rq") (auto simp: verify_csrf_def SAFE_METHODS_def)
qed

end
