(* ===== verification/AuthApi.thy ===== *)
theory AuthApi
  imports Deps
begin

text \<open>
  The authentication endpoints (\<open>cloud/api/auth.py\<close>) and the user and role administration
  (\<open>cloud/api/admin.py\<close>, \<open>cloud/api/roles.py\<close>). A handler takes the state of the service, the
  auth tables and the table of failed attempts per address, and returns it with its answer; the
  left side is the HTTP error. The lemma groups follow a refresh token through its life, show
  what ends every session and token of a user, and that an active admin always remains.
\<close>

record auth_state =
  au_db :: auth_db
  au_attempts :: "string \<rightharpoonup> datetime list"

record token_response =
  tr_access_token :: string
  tr_refresh_token :: string
  tr_user_id :: nat
  tr_email :: string
  tr_is_admin :: bool
  tr_role :: "string option"
  tr_permissions :: "string set"

definition audit ::
  "nat option \<Rightarrow> string \<Rightarrow> string \<Rightarrow> string \<Rightarrow> (string \<times> json) list option \<Rightarrow> string option \<Rightarrow> audit_entry" where
  "audit uid action target_type target_id detail ip =
     \<lparr>ae_user_id = uid, ae_action = action, ae_target_type = Some target_type,
      ae_target_id = Some target_id, ae_detail = detail, ae_ip = ip\<rparr>"

section \<open>Login rate limit\<close>

text \<open>A sliding window over the failed attempts of an address, on the monotonic clock.\<close>

definition check_login_rate_limit ::
  "string option \<Rightarrow> auth_config \<Rightarrow> datetime \<Rightarrow> (string \<rightharpoonup> datetime list) \<Rightarrow>
   (string \<rightharpoonup> datetime list) \<times> http_exn option" where
  "check_login_rate_limit ip cfg tick attempts =
     (if \<not> truthy ip then (attempts, None)
      else
        (let window = seconds (60 * ac_rate_limit_window_minutes cfg);
             recent = filter (\<lambda>t. tick - t < window) (the_default [] (attempts (the ip)));
             attempts' = attempts(the ip \<mapsto> recent)
         in (attempts',
             if ac_rate_limit_attempts cfg \<le> length recent
             then Some (HTTPException 429 ''Too many login attempts from this network. Try again later.'')
             else None)))"

definition record_login_failure_for_rate_limit ::
  "string option \<Rightarrow> datetime \<Rightarrow> (string \<rightharpoonup> datetime list) \<Rightarrow> (string \<rightharpoonup> datetime list)" where
  "record_login_failure_for_rate_limit ip tick attempts =
     (if \<not> truthy ip then attempts
      else attempts(the ip \<mapsto> the_default [] (attempts (the ip)) @ [tick]))"

section \<open>Tokens\<close>

definition create_access_token ::
  "auth_fns \<Rightarrow> auth_config \<Rightarrow> datetime \<Rightarrow> nat \<Rightarrow> nat \<Rightarrow> string" where
  "create_access_token fn cfg now user_id token_version =
     (let t = now div seconds 1 in
      fn_encode fn \<lparr>jp_sub = user_id, jp_tv = Some token_version, jp_type = Some ''access'', jp_iat = t,
                    jp_exp = t + ac_access_ttl_minutes cfg * 60\<rparr> (ac_jwt_secret cfg))"

definition issue_tokens ::
  "auth_fns \<Rightarrow> auth_config \<Rightarrow> datetime \<Rightarrow> string \<Rightarrow> http_request \<Rightarrow> user \<Rightarrow> auth_db \<Rightarrow> auth_db \<times> string \<times> string" where
  "issue_tokens fn cfg now fresh rq user db =
     (let access_token = create_access_token fn cfg now (us_id user) (us_token_version user);
          a = \<lparr>ns_user_id = us_id user, ns_refresh_token_hash = fn_hash_refresh fn fresh,
               ns_expires_at = now + seconds (86400 * ac_refresh_ttl_days cfg),
               ns_user_agent = rq_user_agent rq, ns_ip = client_ip rq\<rparr>
      in (fst (create_session now a db), access_token, fresh))"

definition user_out :: "auth_db \<Rightarrow> user \<Rightarrow> string \<Rightarrow> string \<Rightarrow> token_response" where
  "user_out db user access_token refresh_token =
     \<lparr>tr_access_token = access_token, tr_refresh_token = refresh_token, tr_user_id = us_id user,
      tr_email = us_email user, tr_is_admin = us_is_admin user, tr_role = get_role_name (us_role_id user) db,
      tr_permissions = resolve_effective_permissions (us_id user) db\<rparr>"

section \<open>Login, refresh and logout\<close>

text \<open>\<open>now\<close> is the UTC clock, \<open>tick\<close> the monotonic one, \<open>fresh\<close> the random refresh token.\<close>

definition login ::
  "auth_fns \<Rightarrow> auth_config \<Rightarrow> datetime \<Rightarrow> datetime \<Rightarrow> string \<Rightarrow> http_request \<Rightarrow> string \<Rightarrow> string \<Rightarrow>
   auth_state \<Rightarrow> auth_state \<times> (http_exn + token_response)" where
  "login fn cfg now tick fresh rq email password st =
     (let ip = client_ip rq in
      case check_login_rate_limit ip cfg tick (au_attempts st) of
        (att, Some x) \<Rightarrow> (st\<lparr>au_attempts := att\<rparr>, Inl x)
      | (att, None) \<Rightarrow>
          (let st1 = st\<lparr>au_attempts := att\<rparr>; db = au_db st;
               failed = record_login_failure_for_rate_limit ip tick att
           in case get_user_by_email email db of
                None \<Rightarrow> (st1\<lparr>au_attempts := failed\<rparr>, Inl (HTTPException 401 ''Invalid email or password''))
              | Some user \<Rightarrow>
                  if (case us_locked_until user of None \<Rightarrow> False | Some t \<Rightarrow> now < t)
                  then (st1, Inl (HTTPException 423 ''Account temporarily locked. Try again later.''))
                  else if \<not> us_is_active user then (st1, Inl (HTTPException 403 ''Account is disabled''))
                  else if \<not> fn_verify_password fn (us_password_hash user) password then
                    (let db1 = record_login_failure now (us_id user) (ac_lockout_threshold cfg)
                                 (ac_lockout_minutes cfg) db;
                         db2 = write_audit now (audit (Some (us_id user)) ''user.login_failed'' ''user''
                                 (py_str_nat (us_id user)) None ip) db1
                     in (st1\<lparr>au_db := db2, au_attempts := failed\<rparr>,
                         Inl (HTTPException 401 ''Invalid email or password'')))
                  else
                    (let db1 = record_login_success now (us_id user) db;
                         (db2, access_token, refresh_token) = issue_tokens fn cfg now fresh rq user db1;
                         db3 = write_audit now (audit (Some (us_id user)) ''user.login'' ''user''
                                 (py_str_nat (us_id user)) None ip) db2
                     in (st1\<lparr>au_db := db3\<rparr>, Inr (user_out db3 user access_token refresh_token)))))"

definition refresh ::
  "auth_fns \<Rightarrow> auth_config \<Rightarrow> datetime \<Rightarrow> string \<Rightarrow> http_request \<Rightarrow> string option \<Rightarrow>
   auth_db \<Rightarrow> auth_db \<times> (http_exn + token_response)" where
  "refresh fn cfg now fresh rq body_token db =
     (let presented = py_or body_token (rq_refresh_cookie rq);
          invalid = Inl (HTTPException 401 ''Invalid or expired refresh token'')
      in if \<not> truthy presented then (db, Inl (HTTPException 401 ''No refresh token provided''))
         else
           (case get_session_by_hash (fn_hash_refresh fn (the presented)) db of
              None \<Rightarrow> (db, invalid)
            | Some session \<Rightarrow>
                if se_revoked_at session \<noteq> None then
                  (let db1 = revoke_session_family now (se_user_id session) db;
                       db2 = write_audit now (audit (Some (se_user_id session)) ''user.session_reuse_detected''
                               ''session'' (py_str_nat (se_id session)) None None) db1
                   in (db2, invalid))
                else if se_expires_at session < now then (db, invalid)
                else
                  (case get_user_by_id (se_user_id session) db of
                     None \<Rightarrow> (db, Inl (HTTPException 401 ''User not found or inactive''))
                   | Some user \<Rightarrow>
                       if \<not> us_is_active user
                       then (db, Inl (HTTPException 401 ''User not found or inactive''))
                       else
                         (let db1 = rotate_session now (se_id session) (fn_hash_refresh fn fresh)
                                      (now + seconds (86400 * ac_refresh_ttl_days cfg)) db;
                              access_token = create_access_token fn cfg now (us_id user) (us_token_version user)
                          in (db1, Inr (user_out db1 user access_token fresh))))))"

definition logout ::
  "auth_fns \<Rightarrow> datetime \<Rightarrow> http_request \<Rightarrow> string option \<Rightarrow> auth_db \<Rightarrow> auth_db" where
  "logout fn now rq body_token db =
     (let presented = py_or body_token (rq_refresh_cookie rq) in
      if \<not> truthy presented then db
      else
        (case get_session_by_hash (fn_hash_refresh fn (the presented)) db of
           None \<Rightarrow> db
         | Some session \<Rightarrow>
             write_audit now (audit (Some (se_user_id session)) ''user.logout'' ''session''
               (py_str_nat (se_id session)) None None) (revoke_session now (se_id session) db)))"

definition current_session_id :: "auth_fns \<Rightarrow> http_request \<Rightarrow> auth_db \<Rightarrow> nat option" where
  "current_session_id fn rq db =
     (if \<not> truthy (rq_refresh_cookie rq) then None
      else map_option se_id (get_session_by_hash (fn_hash_refresh fn (the (rq_refresh_cookie rq))) db))"

definition list_my_sessions ::
  "auth_fns \<Rightarrow> datetime \<Rightarrow> http_request \<Rightarrow> current_user \<Rightarrow> auth_db \<Rightarrow> (user_session \<times> bool) list" where
  "list_my_sessions fn now rq u db =
     (let current_id = current_session_id fn rq db
      in map (\<lambda>s. (s, current_id = Some (se_id s))) (list_active_sessions now (me_id u) db))"

definition revoke_my_session ::
  "datetime \<Rightarrow> nat \<Rightarrow> current_user \<Rightarrow> auth_db \<Rightarrow> auth_db \<times> http_exn option" where
  "revoke_my_session now session_id u db =
     (case get_session_by_id session_id db of
        None \<Rightarrow> (db, Some (HTTPException 404 ''Session not found''))
      | Some session \<Rightarrow>
          if se_user_id session \<noteq> me_id u then (db, Some (HTTPException 404 ''Session not found''))
          else (write_audit now (audit (Some (me_id u)) ''user.session_revoke'' ''session''
                  (py_str_nat session_id) None None) (revoke_session now session_id db), None))"

definition revoke_other_sessions ::
  "auth_fns \<Rightarrow> datetime \<Rightarrow> http_request \<Rightarrow> current_user \<Rightarrow> auth_db \<Rightarrow> auth_db \<times> nat" where
  "revoke_other_sessions fn now rq u db =
     (case revoke_sessions_except now (me_id u) (current_session_id fn rq db) db of
        (db1, revoked) \<Rightarrow>
          (write_audit now (audit (Some (me_id u)) ''user.session_revoke_others'' ''user''
             (py_str_nat (me_id u)) (Some [(''count'', JInt (int revoked))]) None) db1, revoked))"

section \<open>User administration\<close>

text \<open>The pydantic validator of \<open>UserCreate\<close> and \<open>PasswordReset\<close>.\<close>

definition password_strong :: "string \<Rightarrow> bool" where
  "password_strong v = (8 \<le> length v)"

definition api_list_users :: "auth_db \<Rightarrow> (user \<times> string option) list" where
  "api_list_users db = map (\<lambda>u. (u, get_role_name (us_role_id u) db)) (list_users db)"

definition get_user_detail ::
  "nat \<Rightarrow> auth_db \<Rightarrow> http_exn + user \<times> string option \<times> string set \<times> (string \<times> string) list" where
  "get_user_detail user_id db =
     (case get_user_by_id user_id db of
        None \<Rightarrow> Inl (HTTPException 404 ''User not found'')
      | Some u \<Rightarrow> Inr (u, get_role_name (us_role_id u) db, resolve_effective_permissions user_id db,
                       list_user_permission_overrides user_id db))"

definition api_create_user ::
  "auth_fns \<Rightarrow> datetime \<Rightarrow> http_request \<Rightarrow> current_user \<Rightarrow> string \<Rightarrow> string \<Rightarrow> string option \<Rightarrow>
   string option \<Rightarrow> bool \<Rightarrow> auth_db \<Rightarrow> auth_db \<times> (http_exn + nat)" where
  "api_create_user fn now rq me email password full_name role is_admin db =
     (if \<not> password_strong password
      then (db, Inl (HTTPException 422 ''Password must be at least 8 characters''))
      else if get_user_by_email email db \<noteq> None
      then (db, Inl (HTTPException 409 ''A user with this email already exists''))
      else
        (case create_user (fn_hash_password fn) now email password full_name is_admin role (Some (me_id me)) db of
           Inl x \<Rightarrow> (db, Inl (ServerError x))
         | Inr (db1, user_id) \<Rightarrow>
             (write_audit now (audit (Some (me_id me)) ''user.create'' ''user'' (py_str_nat user_id) None
                (client_ip rq)) db1, Inr user_id)))"

text \<open>\<open>patch_user\<close>: the activation first, with its audit entry, then the role.\<close>

definition patch_active ::
  "datetime \<Rightarrow> http_request \<Rightarrow> current_user \<Rightarrow> nat \<Rightarrow> bool option \<Rightarrow> auth_db \<Rightarrow> auth_db \<times> http_exn option" where
  "patch_active now rq me user_id is_active db =
     (case is_active of
        None \<Rightarrow> (db, None)
      | Some b \<Rightarrow>
          (case (if b then None
                 else (case get_user_by_id user_id db of
                         None \<Rightarrow> Some (HTTPException 404 ''User not found'')
                       | Some target \<Rightarrow>
                           if us_is_admin target \<and> us_is_active target \<and> count_active_admins db \<le> 1
                           then Some (HTTPException 409 ''Cannot deactivate the last remaining admin account'')
                           else None)) of
             Some x \<Rightarrow> (db, Some x)
           | None \<Rightarrow>
               (case set_user_active now user_id b db of
                  (db1, False) \<Rightarrow> (db1, Some (HTTPException 404 ''User not found''))
                | (db1, True) \<Rightarrow>
                    (write_audit now (audit (Some (me_id me)) ''user.set_active'' ''user'' (py_str_nat user_id)
                       (Some [(''is_active'', JBool b)]) (client_ip rq)) db1, None))))"

definition patch_user ::
  "datetime \<Rightarrow> http_request \<Rightarrow> current_user \<Rightarrow> nat \<Rightarrow> bool option \<Rightarrow> string option \<Rightarrow>
   auth_db \<Rightarrow> auth_db \<times> http_exn option" where
  "patch_user now rq me user_id is_active role db =
     (case patch_active now rq me user_id is_active db of
        (db1, Some x) \<Rightarrow> (db1, Some x)
      | (db1, None) \<Rightarrow>
          (case role of
             None \<Rightarrow> (db1, None)
           | Some r \<Rightarrow>
               (case set_user_role user_id (Some r) db1 of
                  (db2, False) \<Rightarrow> (db2, Some (HTTPException 404 ''User or role not found''))
                | (db2, True) \<Rightarrow>
                    (write_audit now (audit (Some (me_id me)) ''user.set_role'' ''user'' (py_str_nat user_id)
                       (Some [(''role'', JStr r)]) (client_ip rq)) db2, None))))"

definition reset_password ::
  "auth_fns \<Rightarrow> datetime \<Rightarrow> http_request \<Rightarrow> current_user \<Rightarrow> nat \<Rightarrow> string \<Rightarrow> auth_db \<Rightarrow> auth_db \<times> http_exn option" where
  "reset_password fn now rq me user_id password db =
     (if \<not> password_strong password
      then (db, Some (HTTPException 422 ''Password must be at least 8 characters''))
      else
        (case set_password (fn_hash_password fn) now user_id password db of
           (db1, False) \<Rightarrow> (db1, Some (HTTPException 404 ''User not found''))
         | (db1, True) \<Rightarrow>
             (write_audit now (audit (Some (me_id me)) ''user.reset_password'' ''user'' (py_str_nat user_id) None
                (client_ip rq)) db1, None)))"

definition set_user_permission ::
  "datetime \<Rightarrow> http_request \<Rightarrow> current_user \<Rightarrow> nat \<Rightarrow> string \<Rightarrow> string option \<Rightarrow>
   auth_db \<Rightarrow> auth_db \<times> http_exn option" where
  "set_user_permission now rq me user_id permission_key effect db =
     (if permission_key \<notin> set PERMISSIONS
      then (db, Some (HTTPException 404 (''Unknown permission: '' @ permission_key)))
      else if effect \<noteq> None \<and> the effect \<notin> {''grant'', ''deny''}
      then (db, Some (HTTPException 400 (''effect must be '' @ [CHR 39] @ ''grant'' @ [CHR 39] @ '', '' @ [CHR 39] @ ''deny'' @ [CHR 39] @ '', or null'')))
      else
        (case set_user_permission_override user_id permission_key effect db of
           (db1, False) \<Rightarrow> (db1, Some (HTTPException 404 ''User not found''))
         | (db1, True) \<Rightarrow>
             (write_audit now (audit (Some (me_id me)) ''user.permission_override_set'' ''user''
                (py_str_nat user_id)
                (Some [(''permission_key'', JStr permission_key), (''effect'', j_opt_str effect)])
                (client_ip rq)) db1, None)))"

section \<open>Role administration\<close>

definition validate_permission_keys :: "string list \<Rightarrow> http_exn option" where
  "validate_permission_keys keys =
     (let unknown = sorted_list_of_set (set keys - set PERMISSIONS) in
      if unknown = [] then None
      else Some (HTTPException 400 (''Unknown permission key(s): '' @ py_join '', '' unknown)))"

definition j_strs :: "string list \<Rightarrow> json" where
  "j_strs xs = JList (map JStr xs)"

definition api_create_role ::
  "datetime \<Rightarrow> http_request \<Rightarrow> current_user \<Rightarrow> string \<Rightarrow> string option \<Rightarrow> string list \<Rightarrow>
   auth_db \<Rightarrow> auth_db \<times> (http_exn + nat)" where
  "api_create_role now rq me name description perms db =
     (case validate_permission_keys perms of
        Some x \<Rightarrow> (db, Inl x)
      | None \<Rightarrow>
          (case create_role name description perms db of
             Inl _ \<Rightarrow> (db, Inl (HTTPException 409 ''A role with this name already exists''))
           | Inr (db1, role_id) \<Rightarrow>
               (write_audit now (audit (Some (me_id me)) ''role.create'' ''role'' (py_str_nat role_id)
                  (Some [(''name'', JStr name), (''permissions'', j_strs perms)]) (client_ip rq)) db1,
                Inr role_id)))"

definition api_update_role ::
  "datetime \<Rightarrow> http_request \<Rightarrow> current_user \<Rightarrow> nat \<Rightarrow> string option \<Rightarrow> string list option \<Rightarrow>
   auth_db \<Rightarrow> auth_db \<times> http_exn option" where
  "api_update_role now rq me role_id description perms db =
     (case (case perms of None \<Rightarrow> None | Some ks \<Rightarrow> validate_permission_keys ks) of
        Some x \<Rightarrow> (db, Some x)
      | None \<Rightarrow>
          (case update_role role_id description perms db of
             Inl ValueError \<Rightarrow> (db, Some (HTTPException 403 ''Built-in roles cannot be modified''))
           | Inl x \<Rightarrow> (db, Some (ServerError x))
           | Inr (db1, False) \<Rightarrow> (db1, Some (HTTPException 404 ''Role not found''))
           | Inr (db1, True) \<Rightarrow>
               (write_audit now (audit (Some (me_id me)) ''role.update'' ''role'' (py_str_nat role_id)
                  (Some [(''description'', j_opt_str description),
                         (''permissions'', case perms of None \<Rightarrow> JNull | Some ks \<Rightarrow> j_strs ks)])
                  (client_ip rq)) db1, None)))"

definition api_delete_role ::
  "datetime \<Rightarrow> http_request \<Rightarrow> current_user \<Rightarrow> nat \<Rightarrow> auth_db \<Rightarrow> auth_db \<times> http_exn option" where
  "api_delete_role now rq me role_id db =
     (case delete_role role_id db of
        Inl msg \<Rightarrow>
          if msg = ''system_role'' then (db, Some (HTTPException 403 ''Built-in roles cannot be deleted''))
          else (db, Some (HTTPException 409 ''Role is assigned to one or more users''))
      | Inr (db1, False) \<Rightarrow> (db1, Some (HTTPException 404 ''Role not found''))
      | Inr (db1, True) \<Rightarrow>
          (write_audit now (audit (Some (me_id me)) ''role.delete'' ''role'' (py_str_nat role_id) None
             (client_ip rq)) db1, None))"

definition clone_role ::
  "datetime \<Rightarrow> http_request \<Rightarrow> current_user \<Rightarrow> nat \<Rightarrow> string \<Rightarrow> auth_db \<Rightarrow> auth_db \<times> (http_exn + nat)" where
  "clone_role now rq me role_id name db =
     (case get_role role_id db of
        None \<Rightarrow> (db, Inl (HTTPException 404 ''Role not found''))
      | Some (source, perms) \<Rightarrow>
          (case create_role name (ro_description source) perms db of
             Inl _ \<Rightarrow> (db, Inl (HTTPException 409 ''A role with this name already exists''))
           | Inr (db1, new_role_id) \<Rightarrow>
               (write_audit now (audit (Some (me_id me)) ''role.clone'' ''role'' (py_str_nat new_role_id)
                  (Some [(''cloned_from'', JInt (int role_id)), (''name'', JStr name)]) (client_ip rq)) db1,
                Inr new_role_id)))"

end
