(* ===== verification/AuthProps.thy ===== *)
theory AuthProps
  imports AuthApi
begin

text \<open>
  Properties of the authentication service: what a password reset ends, the lockout of an
  account, the bound on failed logins from one address, refresh-token rotation, and the
  invariant that an active administrator remains.
\<close>

section \<open>Reading after an operation\<close>

lemma users_write_audit [simp]: "users (write_audit now a db) = users db"
  by (simp add: write_audit_def)

lemma sessions_write_audit [simp]: "sessions (write_audit now a db) = sessions db"
  by (simp add: write_audit_def)

lemma get_user_write_audit [simp]: "get_user_by_id u (write_audit now a db) = get_user_by_id u db"
  by (simp add: get_user_by_id_def)

lemma get_user_by_email_write_audit [simp]: "get_user_by_email e (write_audit now a db) = get_user_by_email e db"
  by (simp add: get_user_by_email_def)

lemma get_session_write_audit [simp]: "get_session_by_hash h (write_audit now a db) = get_session_by_hash h db"
  by (simp add: get_session_by_hash_def)

lemma users_revoke_family [simp]: "users (revoke_session_family now u db) = users db"
  by (simp add: revoke_session_family_def revoke_sessions_except_def Let_def)

lemma sessions_update_user [simp]: "sessions (update_user u f db) = sessions db"
  by (simp add: update_user_def)

lemma get_user_update_user:
  assumes "\<And>x. us_id (f x) = us_id x"
  shows "get_user_by_id i (update_user u f db) =
         map_option (\<lambda>x. if us_id x = u then f x else x) (get_user_by_id i db)"
  by (simp add: get_user_by_id_def update_user_def first_where_update_where assms)

lemma get_user_by_id_SomeD: "get_user_by_id i db = Some x \<Longrightarrow> x \<in> set (rows (users db)) \<and> us_id x = i"
  unfolding get_user_by_id_def by (drule first_where_SomeD) simp

lemma family_revoked:
  "\<forall>s \<in> set (rows (sessions (revoke_session_family now u db))). se_user_id s = u \<longrightarrow> se_revoked_at s \<noteq> None"
  by (simp add: revoke_session_family_def revoke_sessions_except_def Let_def ball_update_where)

section \<open>A password reset ends every session and token\<close>

text \<open>The payload of a token is what was signed, whenever and under whatever key it verifies.\<close>

definition decode_stable :: "auth_fns \<Rightarrow> bool" where
  "decode_stable fn =
     (\<forall>tok t t' s s' p p'. fn_decode fn t tok s = Some p \<longrightarrow> fn_decode fn t' tok s' = Some p' \<longrightarrow> p = p')"

lemma rotation_stable:
  assumes "decode_stable fn" "decode_token_with_rotation fn cfg t tok = Some p"
    "decode_token_with_rotation fn cfg' t' tok = Some p'"
  shows "p = p'"
  using assms
  by (auto simp: decode_token_with_rotation_def decode_stable_def split: option.splits if_splits)

lemma refresh_InrD:
  assumes "refresh fn cfg now fresh rq body db = (db', Inr tr)"
  obtains s user where "s \<in> set (rows (sessions db))" "se_revoked_at s = None" "now \<le> se_expires_at s"
    "get_session_by_hash (fn_hash_refresh fn (the (py_or body (rq_refresh_cookie rq)))) db = Some s"
    "get_user_by_id (se_user_id s) db = Some user" "us_is_active user" "tr_user_id tr = se_user_id s"
    "db' = rotate_session now (se_id s) (fn_hash_refresh fn fresh)
             (now + seconds (86400 * ac_refresh_ttl_days cfg)) db" "tr_refresh_token tr = fresh"
proof -
  let ?p = "py_or body (rq_refresh_cookie rq)"
  have tr: "truthy ?p"
    using assms by (auto simp: refresh_def Let_def split: if_splits)
  obtain s where s: "get_session_by_hash (fn_hash_refresh fn (the ?p)) db = Some s"
    using assms tr by (cases "get_session_by_hash (fn_hash_refresh fn (the ?p)) db") (simp_all add: refresh_def Let_def)
  have rev: "se_revoked_at s = None"
    using assms tr s by (cases "se_revoked_at s") (simp_all add: refresh_def Let_def)
  have exp: "\<not> se_expires_at s < now"
    using assms tr s rev by (cases "se_expires_at s < now") (simp_all add: refresh_def Let_def)
  obtain user where user: "get_user_by_id (se_user_id s) db = Some user"
    using assms tr s rev exp
    by (cases "get_user_by_id (se_user_id s) db") (simp_all add: refresh_def Let_def)
  have act: "us_is_active user"
    using assms tr s rev exp user by (cases "us_is_active user") (simp_all add: refresh_def Let_def)
  have mem: "s \<in> set (rows (sessions db))"
    using first_where_SomeD [OF s [unfolded get_session_by_hash_def]] by simp
  have uid: "us_id user = se_user_id s"
    using get_user_by_id_SomeD [OF user] by simp
  let ?db1 = "rotate_session now (se_id s) (fn_hash_refresh fn fresh)
             (now + seconds (86400 * ac_refresh_ttl_days cfg)) db"
  have "refresh fn cfg now fresh rq body db = (?db1, Inr (user_out ?db1 user
          (create_access_token fn cfg now (us_id user) (us_token_version user)) fresh))"
    using tr s rev exp user act by (simp add: refresh_def Let_def)
  then have "?db1 = db'" "user_out ?db1 user
          (create_access_token fn cfg now (us_id user) (us_token_version user)) fresh = tr"
    using assms by simp_all
  then have "db' = ?db1 \<and> tr_user_id tr = us_id user \<and> tr_refresh_token tr = fresh"
    unfolding user_out_def by (metis token_response.select_convs(2,3))
  then show thesis
    using that [OF mem rev _ s user act] exp uid by simp
qed

lemma set_password_ends:
  assumes "set_password h now uid pw db = (db', True)"
  shows "users db' = users (update_user uid (\<lambda>u. u\<lparr>us_password_hash := h pw,
      us_token_version := us_token_version u + 1\<rparr>) db)"
    "\<forall>s \<in> set (rows (sessions db')). se_user_id s = uid \<longrightarrow> se_revoked_at s \<noteq> None"
  using assms family_revoked
  by (auto simp: set_password_def get_user_by_id_def split: option.splits)

text \<open>C10.
  After an administrator resets a user's password, no access token that was accepted for the
  user before is accepted again, at any time and whichever of the two signing secrets it was
  made with, and no refresh token yields tokens for the user.
\<close>

theorem reset_password_ends_access:
  assumes "decode_stable fn" "reset_password fn now rq me uid pw db = (db', None)"
  shows "(\<forall>cfg t rq' u. get_current_user fn cfg t rq' db = Inr u \<longrightarrow> me_id u = uid \<longrightarrow>
            (\<forall>t'. \<exists>x. get_current_user fn cfg t' rq' db' = Inl x)) \<and>
         (\<forall>cfg t fresh rq' body tr. snd (refresh fn cfg t fresh rq' body db') = Inr tr \<longrightarrow> tr_user_id tr \<noteq> uid)"
proof (intro conjI allI impI)
  obtain db1 where set: "set_password (fn_hash_password fn) now uid pw db = (db1, True)"
    and db': "users db' = users db1" "sessions db' = sessions db1"
    using assms(2) by (auto simp: reset_password_def split: if_splits prod.splits bool.splits)
  note ends = set_password_ends [OF set]
  {
    fix cfg t rq' u t'
    assume "get_current_user fn cfg t rq' db = Inr u" "me_id u = uid"
    then obtain tok p user where before: "extract_token rq' = Some tok"
        "decode_token_with_rotation fn cfg t tok = Some p" "get_user_by_id (jp_sub p) db = Some user"
        "jp_tv p = Some (us_token_version user)" "us_id user = uid"
      by (elim get_current_user_InrD) auto
    have "get_user_by_id (jp_sub p) db' = Some (user\<lparr>us_password_hash := fn_hash_password fn pw,
        us_token_version := us_token_version user + 1\<rparr>)"
      using before(3,5) db' ends(1)
      by (simp add: get_user_by_id_def update_user_def first_where_update_where)
    then show "\<exists>x. get_current_user fn cfg t' rq' db' = Inl x"
    proof (cases "get_current_user fn cfg t' rq' db'")
      case (Inr u')
      then obtain tok' p' user' where after: "extract_token rq' = Some tok'"
          "decode_token_with_rotation fn cfg t' tok' = Some p'" "get_user_by_id (jp_sub p') db' = Some user'"
          "jp_tv p' = Some (us_token_version user')"
        by (elim get_current_user_InrD) auto
      have "p' = p"
        using rotation_stable [OF assms(1)] before(1,2) after(1,2) by simp
      then have "us_token_version user' = us_token_version user + 1"
        using after(3) \<open>get_user_by_id (jp_sub p) db' = _\<close> by auto
      then show ?thesis
        using after(4) before(4) \<open>p' = p\<close> by simp
    qed simp
  }
  fix cfg t fresh rq' body tr
  assume "snd (refresh fn cfg t fresh rq' body db') = Inr tr"
  then obtain db2 where "refresh fn cfg t fresh rq' body db' = (db2, Inr tr)"
    by (metis prod.collapse)
  then obtain s where "s \<in> set (rows (sessions db'))" "se_revoked_at s = None" "tr_user_id tr = se_user_id s"
    by (elim refresh_InrD) auto
  then show "tr_user_id tr \<noteq> uid"
    using ends(2) db'(2) by auto
qed

text \<open>Concrete functions: one known token, and hashes that tag their argument.\<close>

definition demo_fns :: auth_fns where
  "demo_fns =
     \<lparr>fn_encode = (\<lambda>p s. ''t''),
      fn_decode = (\<lambda>t tok s. if tok = ''t'' then
         Some \<lparr>jp_sub = 1, jp_tv = Some 0, jp_type = Some ''access'', jp_iat = 0, jp_exp = 9\<rparr> else None),
      fn_hash_refresh = (\<lambda>t. CHR ''r'' # t), fn_hash_password = (\<lambda>p. CHR ''h'' # p),
      fn_verify_password = (\<lambda>h p. h = CHR ''h'' # p)\<rparr>"

definition demo_cfg :: auth_config where
  "demo_cfg =
     \<lparr>ac_jwt_secret = ''s'', ac_jwt_secret_prev = None, ac_access_ttl_minutes = 15, ac_refresh_ttl_days = 14,
      ac_lockout_threshold = 2, ac_lockout_minutes = 10, ac_rate_limit_attempts = 20,
      ac_rate_limit_window_minutes = 15\<rparr>"

definition demo_request :: http_request where
  "demo_request =
     \<lparr>rq_method = ''POST'', rq_authorization = Some ''Bearer t'', rq_access_cookie = None,
      rq_refresh_cookie = None, rq_csrf_cookie = None, rq_csrf_header = None, rq_forwarded_for = None,
      rq_user_agent = None, rq_client_host = Some ''ip''\<rparr>"

definition demo_me :: current_user where
  "demo_me = \<lparr>me_id = 1, me_email = ''a@x'', me_is_admin = True, me_permissions = {}\<rparr>"

definition one_user :: auth_db where
  "one_user = empty_auth\<lparr>users := \<lparr>rows = [demo_user], next_id = 2\<rparr>\<rparr>"

lemma one_user_get: "get_user_by_id 1 one_user = Some demo_user"
  by (simp add: one_user_def get_user_by_id_def first_where_def demo_user_def mk_user_def)

theorem reset_password_ends_access_witness:
  "let db' = fst (reset_password demo_fns 5 demo_request demo_me 1 ''new password'' one_user) in
   (\<exists>u. get_current_user demo_fns demo_cfg 6 demo_request one_user = Inr u) \<and>
   (\<exists>x. get_current_user demo_fns demo_cfg 6 demo_request db' = Inl x)"
proof -
  have st: "decode_stable demo_fns"
    by (simp add: decode_stable_def demo_fns_def)
  obtain db' where r: "reset_password demo_fns 5 demo_request demo_me 1 ''new password'' one_user = (db', None)"
    by (simp add: reset_password_def password_strong_def set_password_def one_user_get del: One_nat_def)
  obtain u where u: "get_current_user demo_fns demo_cfg 6 demo_request one_user = Inr u" "me_id u = 1"
    by (simp add: get_current_user_def extract_token_def demo_request_def py_startswith_def demo_fns_def
        demo_cfg_def decode_token_with_rotation_def one_user_get del: One_nat_def)
      (simp add: demo_user_def mk_user_def)
  show ?thesis
    using reset_password_ends_access [OF st r] u r by (auto simp: Let_def)
qed

section \<open>Lockout\<close>

lemma login_bad_password_db:
  assumes "get_user_by_email email (au_db st) = Some user"
    and "login fn cfg now tick fresh rq email password st = (st', Inl (HTTPException 401 msg))"
  shows "\<exists>a. au_db st' = write_audit now a (record_login_failure now (us_id user) (ac_lockout_threshold cfg)
             (ac_lockout_minutes cfg) (au_db st))"
  using assms
  by (auto simp: login_def Let_def check_login_rate_limit_def split: prod.splits option.splits if_splits)

lemma login_locked:
  assumes "get_user_by_email email (au_db st) = Some user" "us_locked_until user = Some u" "t < u"
  shows "\<exists>code detail st'. login fn cfg t tick fresh rq email password st = (st', Inl (HTTPException code detail)) \<and>
           code \<in> {423, 429} \<and> au_db st' = au_db st"
  using assms
  by (auto simp: login_def Let_def check_login_rate_limit_def split: prod.splits option.splits if_splits)

text \<open>
  Lockout: a wrong password that brings the account to the threshold of failed logins locks it;
  until the lock expires every login for it is refused, with the right password too, and no
  session is created.
\<close>

theorem lockout_after_threshold:
  assumes "get_user_by_email email (au_db st) = Some user"
    and "login fn cfg now tick fresh rq email password st = (st', Inl (HTTPException 401 msg))"
    and "ac_lockout_threshold cfg \<le> us_failed_logins user + 1"
    and "t < now + seconds (60 * ac_lockout_minutes cfg)"
  shows "\<exists>code detail st''. login fn cfg t tick' fresh' rq' email password' st' = (st'', Inl (HTTPException code detail)) \<and>
           code \<in> {423, 429} \<and> au_db st'' = au_db st'"
proof -
  obtain a where a: "au_db st' = write_audit now a (record_login_failure now (us_id user)
      (ac_lockout_threshold cfg) (ac_lockout_minutes cfg) (au_db st))"
    using login_bad_password_db [OF assms(1,2)] ..
  have "\<exists>u'. get_user_by_email email (au_db st') = Some u' \<and>
      us_locked_until u' = Some (now + seconds (60 * ac_lockout_minutes cfg))"
    using assms(1,3)
    by (simp add: a get_user_by_email_def record_login_failure_def update_user_def write_audit_def
        first_where_update_where)
  then show ?thesis
    using login_locked assms(4) by blast
qed

definition one_failure :: auth_state where
  "one_failure = \<lparr>au_db = update_user 1 (\<lambda>u. u\<lparr>us_failed_logins := 1\<rparr>) one_user, au_attempts = Map.empty\<rparr>"

theorem lockout_after_threshold_witness:
  "\<exists>st' msg. login demo_fns demo_cfg 5 0 ''r'' demo_request ''a@x'' ''bad'' one_failure = (st', Inl (HTTPException 401 msg)) \<and>
     (\<exists>code d st''. login demo_fns demo_cfg 6 1 ''r'' demo_request ''a@x'' ''pw'' st' = (st'', Inl (HTTPException code d)) \<and>
        code \<in> {423, 429})"
proof -
  let ?u = "demo_user\<lparr>us_failed_logins := 1\<rparr>"
  have u: "get_user_by_email ''a@x'' (au_db one_failure) = Some ?u"
    by (simp add: one_failure_def get_user_by_email_def update_user_def table_simps
        one_user_def first_where_def demo_user_def mk_user_def normal_email_def py_string_defs)
  have ip: "client_ip demo_request = Some ''ip''"
    by (simp add: client_ip_def demo_request_def)
  have att: "au_attempts one_failure = Map.empty"
    by (simp add: one_failure_def)
  obtain st' where l: "login demo_fns demo_cfg 5 0 ''r'' demo_request ''a@x'' ''bad'' one_failure =
      (st', Inl (HTTPException 401 ''Invalid email or password''))"
    using u by (simp add: login_def Let_def ip check_login_rate_limit_def att
        demo_cfg_def demo_fns_def demo_user_def mk_user_def)
  show ?thesis
    using lockout_after_threshold [OF u l, of 6 1 "''r''" demo_request "''pw''"] l
    by (auto simp: demo_cfg_def demo_user_def mk_user_def seconds_def)
qed

section \<open>An active administrator remains\<close>

text \<open>Every endpoint of the service that changes the tables, with its arguments.\<close>

datatype auth_op =
  AO_login datetime datetime string http_request string string
| AO_refresh datetime string http_request "string option"
| AO_logout datetime http_request "string option"
| AO_revoke_session datetime nat current_user
| AO_revoke_others datetime http_request current_user
| AO_create_user datetime http_request current_user string string "string option" "string option" bool
| AO_patch_user datetime http_request current_user nat "bool option" "string option"
| AO_reset_password datetime http_request current_user nat string
| AO_set_permission datetime http_request current_user nat string "string option"
| AO_create_role datetime http_request current_user string "string option" "string list"
| AO_update_role datetime http_request current_user nat "string option" "string list option"
| AO_delete_role datetime http_request current_user nat
| AO_clone_role datetime http_request current_user nat string

fun auth_act :: "auth_fns \<Rightarrow> auth_config \<Rightarrow> auth_op \<Rightarrow> auth_state \<Rightarrow> auth_state" where
  "auth_act fn cfg (AO_login t k f rq e p) st = fst (login fn cfg t k f rq e p st)"
| "auth_act fn cfg (AO_refresh t f rq b) st = st\<lparr>au_db := fst (refresh fn cfg t f rq b (au_db st))\<rparr>"
| "auth_act fn cfg (AO_logout t rq b) st = st\<lparr>au_db := logout fn t rq b (au_db st)\<rparr>"
| "auth_act fn cfg (AO_revoke_session t i me) st = st\<lparr>au_db := fst (revoke_my_session t i me (au_db st))\<rparr>"
| "auth_act fn cfg (AO_revoke_others t rq me) st = st\<lparr>au_db := fst (revoke_other_sessions fn t rq me (au_db st))\<rparr>"
| "auth_act fn cfg (AO_create_user t rq me e p n r a) st =
     st\<lparr>au_db := fst (api_create_user fn t rq me e p n r a (au_db st))\<rparr>"
| "auth_act fn cfg (AO_patch_user t rq me i b r) st = st\<lparr>au_db := fst (patch_user t rq me i b r (au_db st))\<rparr>"
| "auth_act fn cfg (AO_reset_password t rq me i p) st = st\<lparr>au_db := fst (reset_password fn t rq me i p (au_db st))\<rparr>"
| "auth_act fn cfg (AO_set_permission t rq me i k e) st =
     st\<lparr>au_db := fst (set_user_permission t rq me i k e (au_db st))\<rparr>"
| "auth_act fn cfg (AO_create_role t rq me n d ps) st = st\<lparr>au_db := fst (api_create_role t rq me n d ps (au_db st))\<rparr>"
| "auth_act fn cfg (AO_update_role t rq me i d ps) st = st\<lparr>au_db := fst (api_update_role t rq me i d ps (au_db st))\<rparr>"
| "auth_act fn cfg (AO_delete_role t rq me i) st = st\<lparr>au_db := fst (api_delete_role t rq me i (au_db st))\<rparr>"
| "auth_act fn cfg (AO_clone_role t rq me i n) st = st\<lparr>au_db := fst (clone_role t rq me i n (au_db st))\<rparr>"

definition admin_inv :: "auth_db \<Rightarrow> bool" where
  "admin_inv db = (user_keys.keys_ok (users db) \<and> 0 < count_active_admins db)"

lemma admin_inv_same: "users db' = users db \<Longrightarrow> admin_inv db' = admin_inv db"
  by (simp add: admin_inv_def count_active_admins_def)

lemma admin_inv_audit [simp]: "admin_inv (write_audit t a db) = admin_inv db"
  by (rule admin_inv_same) simp

lemma admin_inv_update_user:
  assumes "admin_inv db" "\<And>u. us_id (f u) = us_id u \<and> us_is_admin (f u) = us_is_admin u \<and> us_is_active (f u) = us_is_active u"
  shows "admin_inv (update_user i f db)"
  using assms
  by (auto simp: admin_inv_def count_active_admins_def update_user_def user_keys.keys_ok_update
      count_where_pos_iff set_update_where)

lemma admin_inv_insert:
  "admin_inv db \<Longrightarrow> admin_inv (db\<lparr>users := fst (insert_row (mk_user a) (users db))\<rparr>)"
  by (auto simp: admin_inv_def count_active_admins_def user_keys.keys_ok_insert count_where_pos_iff table_simps)

lemma admin_inv_set_active:
  assumes "admin_inv db" "get_user_by_id i db = Some target"
    and "b \<or> \<not> (us_is_admin target \<and> us_is_active target) \<or> 1 < count_active_admins db"
  shows "admin_inv (fst (set_user_active t i b db))"
proof -
  let ?f = "\<lambda>u. u\<lparr>us_is_active := b, us_token_version := (if b then us_token_version u else us_token_version u + 1)\<rparr>"
  let ?adm = "\<lambda>u. us_is_admin u \<and> us_is_active u"
  have users: "users (fst (set_user_active t i b db)) = update_where (\<lambda>u. us_id u = i) ?f (users db)"
    using assms(2) by (simp add: set_user_active_def Let_def update_user_def)
  have ok: "user_keys.keys_ok (users db)" and pos: "0 < count_where ?adm (users db)"
    using assms(1) by (simp_all add: admin_inv_def count_active_admins_def)
  note t = get_user_by_id_SomeD [OF assms(2)]
  have "\<exists>u \<in> set (rows (users db)). ?adm (if us_id u = i then ?f u else u)"
  proof (cases "\<exists>u \<in> set (rows (users db)). us_id u \<noteq> i \<and> ?adm u")
    case False
    then have only: "\<forall>u \<in> set (rows (users db)). ?adm u \<longrightarrow> u = target"
      using t user_keys.keys_ok_unique [OF ok] by blast
    then have "?adm target"
      using pos by (auto simp: count_where_pos_iff)
    moreover have "\<not> 1 < count_active_admins db"
    proof -
      have "distinct (rows (users db))"
        using ok by (auto simp: user_keys.keys_ok_def distinct_map)
      then have "length (filter ?adm (rows (users db))) = card (set (filter ?adm (rows (users db))))"
        by (simp only: distinct_card distinct_filter)
      also have "\<dots> \<le> card {target}"
        using only by (intro card_mono) auto
      finally show ?thesis
        by (simp add: count_active_admins_def count_where_def)
    qed
    ultimately have b using assms(3) by simp
    then show ?thesis
      using t \<open>?adm target\<close> by (intro bexI [of _ target]) auto
  qed auto
  then show ?thesis
    using ok users
    by (simp add: admin_inv_def count_active_admins_def user_keys.keys_ok_update count_where_pos_iff bex_update_where)
qed

lemma admin_inv_revoke_family [simp]: "admin_inv (revoke_session_family t u db) = admin_inv db"
  by (rule admin_inv_same) simp

lemma users_of_role_ops:
  "create_role n d ps db = Inr (db', i) \<Longrightarrow> users db' = users db"
  "update_role r d' qs db = Inr (db', b) \<Longrightarrow> users db' = users db"
  "delete_role r db = Inr (db', b) \<Longrightarrow> users db' = users db"
  "users (fst (set_user_permission_override u k e db)) = users db"
  by (auto simp: create_role_def update_role_def delete_role_def set_user_permission_override_def Let_def
      split: if_splits option.splits prod.splits)

lemma admin_inv_set_user_role: "admin_inv db \<Longrightarrow> admin_inv (fst (set_user_role i r db))"
  by (simp add: set_user_role_def admin_inv_update_user split: option.split)

lemma admin_inv_patch_active: "admin_inv db \<Longrightarrow> admin_inv (fst (patch_active t rq me i b db))"
proof (cases b)
  case (Some v)
  assume inv: "admin_inv db"
  show ?thesis
  proof (cases "get_user_by_id i db")
    case None
    then show ?thesis
      using inv Some by (cases v) (simp_all add: patch_active_def set_user_active_def)
  next
    case (Some target)
    let ?last = "us_is_admin target \<and> us_is_active target \<and> count_active_admins db \<le> 1"
    have "admin_inv (fst (set_user_active t i v db))" if "v \<or> \<not> ?last"
      using admin_inv_set_active [OF inv Some] that by auto
    moreover have "set_user_active t i v db = (fst (set_user_active t i v db), True)"
      using Some by (simp add: set_user_active_def Let_def)
    ultimately show ?thesis
      using inv Some \<open>b = Some v\<close>
      by (cases v; cases ?last) (simp_all add: patch_active_def split_beta split: bool.split)
  qed
qed (simp add: patch_active_def)

lemma admin_inv_patch_user:
  assumes "admin_inv db"
  shows "admin_inv (fst (patch_user t rq me i b r db))"
proof -
  obtain db1 x where p: "patch_active t rq me i b db = (db1, x)"
    by fastforce
  have inv1: "admin_inv db1"
    using admin_inv_patch_active [OF assms, of t rq me i b] p by simp
  show ?thesis
  proof (cases x)
    case (Some e)
    then show ?thesis using p inv1 by (simp add: patch_user_def)
  next
    case None
    show ?thesis
    proof (cases r)
      case (Some v)
      obtain db2 ok where q: "set_user_role i (Some v) db1 = (db2, ok)"
        by fastforce
      then have "admin_inv db2"
        using admin_inv_set_user_role [OF inv1, of i "Some v"] by simp
      then show ?thesis
        using p None Some q by (cases ok) (simp_all add: patch_user_def)
    qed (use p None inv1 in \<open>simp add: patch_user_def\<close>)
  qed
qed

lemma admin_inv_login: "admin_inv (au_db st) \<Longrightarrow> admin_inv (au_db (fst (login fn cfg now tick f rq e p st)))"
  by (simp add: login_def Let_def issue_tokens_def create_session_def split_beta record_login_failure_def
      record_login_success_def admin_inv_update_user
      admin_inv_same [of "d\<lparr>sessions := s\<rparr>" d for d s] split: option.split)

lemma users_refresh: "users (fst (refresh fn cfg now f rq b db)) = users db"
  by (simp add: refresh_def Let_def rotate_session_def split: option.split)

lemma users_logout: "users (logout fn now rq b db) = users db"
  by (simp add: logout_def Let_def revoke_session_def split: option.split)

lemma users_revoke: "users (fst (revoke_my_session t i me db)) = users db"
  "users (fst (revoke_other_sessions fn t rq me db)) = users db"
  by (simp_all add: revoke_my_session_def revoke_session_def revoke_other_sessions_def
      revoke_sessions_except_def Let_def split: option.split)

lemma admin_inv_create_user: "admin_inv db \<Longrightarrow> admin_inv (fst (api_create_user fn t rq me e p n r a db))"
  by (auto simp: api_create_user_def create_user_def Let_def split_beta intro: admin_inv_insert
      split: sum.splits if_splits)

lemma admin_inv_reset: "admin_inv db \<Longrightarrow> admin_inv (fst (reset_password fn t rq me i p db))"
  by (simp add: reset_password_def set_password_def admin_inv_update_user split: option.split)

lemma users_set_permission: "users (fst (set_user_permission t rq me i k e db)) = users db"
proof -
  obtain db' b where "set_user_permission_override i k e db = (db', b)"
    by fastforce
  moreover from this have "users db' = users db"
    using users_of_role_ops(4) [of i k e db] by simp
  ultimately show ?thesis
    by (cases b) (simp_all add: set_user_permission_def)
qed

lemma users_roles:
  "users (fst (api_create_role t rq me n d ps db)) = users db"
  "users (fst (clone_role t rq me i n db)) = users db"
  "users (fst (api_delete_role t rq me i db)) = users db"
  "users (fst (api_update_role t rq me i d qs db)) = users db"
  by (auto simp: api_create_role_def clone_role_def api_delete_role_def api_update_role_def
      dest: users_of_role_ops(1-3) split: option.splits sum.splits prod.splits bool.splits py_exn.splits)

lemma admin_inv_act: "admin_inv (au_db st) \<Longrightarrow> admin_inv (au_db (auth_act fn cfg op st))"
  by (cases op)
    (simp_all add: admin_inv_login admin_inv_create_user admin_inv_patch_user admin_inv_reset
      admin_inv_same [OF users_refresh] admin_inv_same [OF users_logout] admin_inv_same [OF users_revoke(1)]
      admin_inv_same [OF users_revoke(2)] admin_inv_same [OF users_set_permission]
      admin_inv_same [OF users_roles(1)] admin_inv_same [OF users_roles(2)] admin_inv_same [OF users_roles(3)]
      admin_inv_same [OF users_roles(4)])

text \<open>C9.
  From tables with an active administrator, any sequence of requests to the authentication,
  user and role endpoints leaves at least one active administrator.
\<close>

theorem active_admin_remains:
  assumes "user_keys.keys_ok (users (au_db st))" "0 < count_active_admins (au_db st)"
  shows "0 < count_active_admins (au_db (foldl (\<lambda>s op. auth_act fn cfg op s) st ops))"
proof -
  have "admin_inv (au_db st)"
    using assms by (simp add: admin_inv_def)
  then have "admin_inv (au_db (foldl (\<lambda>s op. auth_act fn cfg op s) st ops))"
    by (induction ops arbitrary: st) (simp_all add: admin_inv_act)
  then show ?thesis
    by (simp add: admin_inv_def)
qed

theorem active_admin_remains_witness:
  "let st = \<lparr>au_db = one_user\<lparr>users := \<lparr>rows = [demo_user\<lparr>us_is_admin := True\<rparr>], next_id = 2\<rparr>\<rparr>,
             au_attempts = Map.empty\<rparr>
   in 0 < count_active_admins (au_db (foldl (\<lambda>s op. auth_act demo_fns demo_cfg op s) st
        [AO_patch_user 3 demo_request demo_me 1 (Some False) None]))"
  unfolding Let_def
  by (rule active_admin_remains)
    (simp_all add: user_keys.keys_ok_def demo_user_def mk_user_def count_active_admins_def count_where_def)

section \<open>Refresh rotation\<close>

text \<open>What a refresh leaves in the session table: the old hash is gone, the new one is live.\<close>

lemma rotation_lookup:
  assumes "refresh fn cfg now fresh rq (Some tokA) db = (db', Inr tr)" "tokA \<noteq> []"
    and "fn_hash_refresh fn fresh \<noteq> fn_hash_refresh fn tokA"
    and "\<forall>s \<in> set (rows (sessions db)). se_refresh_token_hash s \<noteq> fn_hash_refresh fn fresh"
    and "distinct (map se_refresh_token_hash (rows (sessions db)))" "session_keys.keys_ok (sessions db)"
  shows "get_session_by_hash (fn_hash_refresh fn tokA) db' = None"
    "\<exists>s. get_session_by_hash (fn_hash_refresh fn fresh) db' = Some s \<and> se_revoked_at s = None \<and>
       se_user_id s = tr_user_id tr \<and> se_expires_at s = now + seconds (86400 * ac_refresh_ttl_days cfg)"
    "length (rows (sessions db')) = length (rows (sessions db))"
proof -
  let ?hA = "fn_hash_refresh fn tokA" and ?hF = "fn_hash_refresh fn fresh"
  have "py_or (Some tokA) x = Some tokA" for x
    using assms(2) by simp
  then obtain s where s: "s \<in> set (rows (sessions db))" "se_revoked_at s = None"
      "get_session_by_hash ?hA db = Some s" "tr_user_id tr = se_user_id s"
      "db' = rotate_session now (se_id s) ?hF (now + seconds (86400 * ac_refresh_ttl_days cfg)) db"
    using assms(1) by (elim refresh_InrD) auto
  let ?f = "\<lambda>s. s\<lparr>se_refresh_token_hash := ?hF, se_expires_at := now + seconds (86400 * ac_refresh_ttl_days cfg),
                 se_last_used_at := Some now\<rparr>"
  have db': "sessions db' = update_where (\<lambda>x. se_id x = se_id s) ?f (sessions db)"
    by (simp add: s(5) rotate_session_def)
  have hs: "se_refresh_token_hash s = ?hA"
    using first_where_SomeD [OF s(3) [unfolded get_session_by_hash_def]] by simp
  have "se_refresh_token_hash x \<noteq> ?hA" if "x \<in> set (rows (sessions db))" "se_id x \<noteq> se_id s" for x
  proof
    assume "se_refresh_token_hash x = ?hA"
    then have "x = s"
      using that(1) s(1) hs assms(5) by (metis distinct_map inj_onD)
    with that(2) show False by simp
  qed
  then show gone: "get_session_by_hash ?hA db' = None"
    using assms(3) by (simp add: get_session_by_hash_def first_where_None_iff db' ball_update_where)
  have "get_session_by_hash ?hF db' = Some (?f s)"
  proof (cases "get_session_by_hash ?hF db'")
    case None
    then show ?thesis
      using s(1) by (auto simp: get_session_by_hash_def first_where_None_iff db' ball_update_where)
  next
    case (Some y)
    then have "y \<in> set (rows (sessions db'))" "se_refresh_token_hash y = ?hF"
      using first_where_SomeD [OF Some [unfolded get_session_by_hash_def]] by auto
    then obtain x where "x \<in> set (rows (sessions db))" "se_id x = se_id s" "y = ?f x"
      using assms(4) by (auto simp: db' set_update_where split: if_splits)
    then show ?thesis
      using Some session_keys.keys_ok_unique [OF assms(6)] s(1) by blast
  qed
  with s(2,4) show "\<exists>s. get_session_by_hash ?hF db' = Some s \<and> se_revoked_at s = None \<and>
       se_user_id s = tr_user_id tr \<and> se_expires_at s = now + seconds (86400 * ac_refresh_ttl_days cfg)"
    by simp
  show "length (rows (sessions db')) = length (rows (sessions db))"
    by (simp add: db' table_simps)
qed

text \<open>
  Rotation: a refresh with token \<open>A\<close> moves its session to the new token, and \<open>A\<close> is worth
  nothing afterwards. Presenting \<open>A\<close> again is answered with 401 and changes nothing: the new
  session stays live, no session of the family is revoked and no reuse is recorded.
\<close>

theorem rotated_token_replay:
  assumes "refresh fn cfg now fresh rq (Some tokA) db = (db', Inr tr)" "tokA \<noteq> []"
    and "fn_hash_refresh fn fresh \<noteq> fn_hash_refresh fn tokA"
    and "\<forall>s \<in> set (rows (sessions db)). se_refresh_token_hash s \<noteq> fn_hash_refresh fn fresh"
    and "distinct (map se_refresh_token_hash (rows (sessions db)))" "session_keys.keys_ok (sessions db)"
  shows "refresh fn cfg t fresh2 rq' (Some tokA) db' = (db', Inl (HTTPException 401 ''Invalid or expired refresh token'')) \<and>
         (\<exists>s. get_session_by_hash (fn_hash_refresh fn fresh) db' = Some s \<and> se_revoked_at s = None \<and>
              se_user_id s = tr_user_id tr) \<and>
         length (rows (sessions db')) = length (rows (sessions db))"
  using rotation_lookup [OF assms] assms(2) by (auto simp: refresh_def Let_def)

definition one_session :: auth_db where
  "one_session = one_user\<lparr>sessions := \<lparr>rows = [mk_session (\<lparr>ns_user_id = 1, ns_refresh_token_hash = ''rA'',
     ns_expires_at = 100, ns_user_agent = None, ns_ip = None\<rparr>, 0) 1], next_id = 2\<rparr>\<rparr>"

lemma one_session_refresh:
  "\<exists>db' tr. refresh demo_fns demo_cfg 5 ''B'' demo_request (Some ''A'') one_session = (db', Inr tr)"
proof -
  have g: "get_session_by_hash ''rA'' one_session = Some (hd (rows (sessions one_session)))"
    by (simp add: one_session_def get_session_by_hash_def first_where_def mk_session_def)
  have u: "get_user_by_id 1 one_session = Some demo_user"
    using one_user_get by (simp add: one_session_def get_user_by_id_def)
  show ?thesis
    using g u by (simp add: refresh_def Let_def demo_fns_def one_session_def mk_session_def
        demo_user_def mk_user_def del: One_nat_def)
qed

lemma one_session_keys:
  "fn_hash_refresh demo_fns ''B'' \<noteq> fn_hash_refresh demo_fns ''A''"
  "\<forall>s \<in> set (rows (sessions one_session)). se_refresh_token_hash s \<noteq> fn_hash_refresh demo_fns ''B''"
  "distinct (map se_refresh_token_hash (rows (sessions one_session)))" "session_keys.keys_ok (sessions one_session)"
  by (simp_all add: demo_fns_def one_session_def mk_session_def session_keys.keys_ok_def)

theorem rotated_token_replay_witness:
  "let db' = fst (refresh demo_fns demo_cfg 5 ''B'' demo_request (Some ''A'') one_session) in
   refresh demo_fns demo_cfg 6 ''C'' demo_request (Some ''A'') db' =
     (db', Inl (HTTPException 401 ''Invalid or expired refresh token''))"
proof -
  obtain db' tr where r: "refresh demo_fns demo_cfg 5 ''B'' demo_request (Some ''A'') one_session = (db', Inr tr)"
    using one_session_refresh by blast
  with rotated_token_replay [OF r _ one_session_keys] show ?thesis by simp
qed

section \<open>Failed logins from one address\<close>

text \<open>A run of login requests; the second component counts the answers 401.\<close>

fun login_run ::
  "auth_fns \<Rightarrow> auth_config \<Rightarrow> (datetime \<times> datetime \<times> string \<times> http_request \<times> string \<times> string) list \<Rightarrow>
   auth_state \<Rightarrow> auth_state \<times> nat" where
  "login_run fn cfg [] st = (st, 0)"
| "login_run fn cfg ((now, tick, fresh, rq, email, pw) # rs) st =
     (case login fn cfg now tick fresh rq email pw st of
        (st1, r) \<Rightarrow>
          (case login_run fn cfg rs st1 of
             (st2, n) \<Rightarrow>
               (st2, (case r of Inl (HTTPException code _) \<Rightarrow> if code = 401 then n + 1 else n | _ \<Rightarrow> n))))"

lemma login_attempts:
  assumes "client_ip rq = Some ip" "ip \<noteq> []"
    and "login fn cfg now tick fresh rq email pw st = (st', r)"
  defines "recent \<equiv> filter (\<lambda>t. tick - t < seconds (60 * ac_rate_limit_window_minutes cfg))
                     (the_default [] (au_attempts st ip))"
  shows "(\<exists>d. r = Inl (HTTPException 401 d)) \<and> length recent < ac_rate_limit_attempts cfg \<and>
           au_attempts st' ip = Some (recent @ [tick]) \<or>
         \<not> (\<exists>d. r = Inl (HTTPException 401 d)) \<and> au_attempts st' ip = Some recent"
  using assms(1-3) unfolding recent_def
  by (auto simp: login_def Let_def check_login_rate_limit_def record_login_failure_for_rate_limit_def
      split: prod.splits option.splits if_splits)

text \<open>
  Rate limit: within one window, at most \<open>login_rate_limit_attempts\<close> requests from one address
  are answered 401, whatever accounts they name; every further request is refused with 429
  before a password is checked.
\<close>

theorem failed_logins_bounded:
  assumes "\<forall>(now, tick, fresh, rq, email, pw) \<in> set rs. client_ip rq = Some ip \<and> t0 \<le> tick \<and>
             tick < t0 + seconds (60 * ac_rate_limit_window_minutes cfg)"
    and "ip \<noteq> []" "au_attempts st ip = None"
  shows "snd (login_run fn cfg rs st) \<le> ac_rate_limit_attempts cfg"
proof -
  let ?w = "seconds (60 * ac_rate_limit_window_minutes cfg)"
  have "snd (login_run fn cfg rs st) \<le> ac_rate_limit_attempts cfg - length (the_default [] (au_attempts st ip))"
    if "\<forall>(now, tick, fresh, rq, email, pw) \<in> set rs. client_ip rq = Some ip \<and> t0 \<le> tick \<and> tick < t0 + ?w"
      "\<forall>t \<in> set (the_default [] (au_attempts st ip)). t0 \<le> t" for st
    using that
  proof (induction rs arbitrary: st)
    case (Cons q rs)
    obtain now tick fresh rq email pw where q: "q = (now, tick, fresh, rq, email, pw)"
      by (cases q)
    have ip: "client_ip rq = Some ip" and tick: "t0 \<le> tick" "tick < t0 + ?w"
      using Cons.prems(1) q by auto
    obtain st1 r where l: "login fn cfg now tick fresh rq email pw st = (st1, r)"
      by fastforce
    have recent: "filter (\<lambda>t. tick - t < ?w) (the_default [] (au_attempts st ip)) = the_default [] (au_attempts st ip)"
      using Cons.prems(2) tick by (auto simp: filter_id_conv)
    have st1: "(\<exists>d. r = Inl (HTTPException 401 d)) \<and> length (the_default [] (au_attempts st ip)) < ac_rate_limit_attempts cfg \<and>
           au_attempts st1 ip = Some (the_default [] (au_attempts st ip) @ [tick]) \<or>
         \<not> (\<exists>d. r = Inl (HTTPException 401 d)) \<and> au_attempts st1 ip = Some (the_default [] (au_attempts st ip))"
      using login_attempts [OF ip assms(2) l] unfolding recent .
    have "snd (login_run fn cfg rs st1) \<le> ac_rate_limit_attempts cfg - length (the_default [] (au_attempts st1 ip))"
      using Cons.prems tick st1 by (intro Cons.IH) auto
    with st1 show ?case
      unfolding q by (auto simp: l split_beta split: sum.splits http_exn.splits)
  qed simp
  from this [OF assms(1), of st] show ?thesis
    using assms(3) by simp
qed

theorem failed_logins_bounded_witness:
  "snd (login_run demo_fns demo_cfg [(5, 0, ''r'', demo_request, ''no@x'', ''p'')] one_failure) \<le> 20"
  using failed_logins_bounded [of "[(5, 0, ''r'', demo_request, ''no@x'', ''p'')]" "''ip''" 0 demo_cfg one_failure demo_fns]
  by (simp add: client_ip_def demo_request_def demo_cfg_def one_failure_def seconds_def)

end
