(* ===== verification/Urls.thy ===== *)
theory Urls
  imports Prelude Shared
begin

text \<open>
  \<open>urllib.parse.urlsplit\<close> of CPython 3.11, the version of \<open>deploy/Dockerfile\<close>, on strings whose
  characters are below 256 (its NFKC check of the netloc accepts all of those), and the
  functions of the program over it: the attribution of a page to a catalog domain
  (\<open>cloud/db/domain_resolution.py\<close>) and the normalisation of the URLs a user types
  (\<open>cloud/api/jobs.py\<close>, \<open>cloud/api/domains.py\<close>).
\<close>

section \<open>urlsplit\<close>

record split_result =
  ur_scheme :: string
  ur_netloc :: string
  ur_path :: string
  ur_query :: string
  ur_fragment :: string

definition is_alpha :: "char \<Rightarrow> bool" where
  "is_alpha c = (let n = code_point c in (65 \<le> n \<and> n \<le> 90) \<or> (97 \<le> n \<and> n \<le> 122))"

definition is_hex_digit :: "char \<Rightarrow> bool" where
  "is_hex_digit c = (let n = code_point c in
     (48 \<le> n \<and> n \<le> 57) \<or> (65 \<le> n \<and> n \<le> 70) \<or> (97 \<le> n \<and> n \<le> 102))"

definition is_decimal :: "char \<Rightarrow> bool" where
  "is_decimal c = (let n = code_point c in 48 \<le> n \<and> n \<le> 57)"

lemma is_alpha_code [code]:
  "is_alpha c = (let n = (of_char c :: int) in (65 \<le> n \<and> n \<le> 90) \<or> (97 \<le> n \<and> n \<le> 122))"
  by (simp add: is_alpha_def Let_def code_point_le_numeral)

lemma is_decimal_code [code]: "is_decimal c = (let n = (of_char c :: int) in 48 \<le> n \<and> n \<le> 57)"
  by (simp add: is_decimal_def Let_def code_point_le_numeral)

definition scheme_char :: "char \<Rightarrow> bool" where
  "scheme_char c = (is_alpha c \<or> is_decimal c \<or> c \<in> {CHR ''+'', CHR ''-'', CHR ''.''})"

text \<open>\<open>ipaddress\<close>: the dotted quad, one group of an IPv6 address, and the address.\<close>

fun decimal_value :: "string \<Rightarrow> nat \<Rightarrow> nat" where
  "decimal_value [] a = a"
| "decimal_value (c # s) a = decimal_value s (10 * a + (code_point c - 48))"

definition ip4_octet :: "string \<Rightarrow> bool" where
  "ip4_octet s = (s \<noteq> [] \<and> list_all is_decimal s \<and> length s \<le> 3 \<and>
     (s = ''0'' \<or> hd s \<noteq> CHR ''0'') \<and> decimal_value s 0 \<le> 255)"

definition ip4_ok :: "string \<Rightarrow> bool" where
  "ip4_ok s = (let os = py_split (CHR ''.'') s in length os = 4 \<and> list_all ip4_octet os)"

definition hextet :: "string \<Rightarrow> bool" where
  "hextet s = (s \<noteq> [] \<and> list_all is_hex_digit s \<and> length s \<le> 4)"

definition ip6_groups_ok :: "string list \<Rightarrow> bool" where
  "ip6_groups_ok parts =
     (let gaps = filter (\<lambda>i. parts ! i = []) [1..<length parts - 1]
      in length parts \<le> 9 \<and>
         (case gaps of
            [] \<Rightarrow> length parts = 8 \<and> list_all hextet parts
          | [i] \<Rightarrow>
              (let hi = (if hd parts = [] then i - 1 else i);
                   lo = (if last parts = [] then length parts - i - 2 else length parts - i - 1)
               in (hd parts = [] \<longrightarrow> hi = 0) \<and> (last parts = [] \<longrightarrow> lo = 0) \<and> hi + lo \<le> 7 \<and>
                  list_all hextet (take hi parts) \<and> list_all hextet (drop (length parts - lo) parts))
          | _ \<Rightarrow> False))"

definition ip6_ok :: "string \<Rightarrow> bool" where
  "ip6_ok host =
     (let (addr, scope) = py_cut (CHR ''%'') host;
          parts = py_split (CHR '':'') addr
      in CHR ''/'' \<notin> set host \<and>
         (case scope of None \<Rightarrow> True | Some z \<Rightarrow> z \<noteq> [] \<and> CHR ''%'' \<notin> set z) \<and>
         3 \<le> length parts \<and>
         (if CHR ''.'' \<in> set (last parts)
          then ip4_ok (last parts) \<and> ip6_groups_ok (butlast parts @ [''0'', ''0''])
          else ip6_groups_ok parts))"

definition check_bracketed_host :: "string \<Rightarrow> bool" where
  "check_bracketed_host h =
     (if py_startswith h ''v''
      then (case py_cut (CHR ''.'') (tl h) of
              (ver, Some rest) \<Rightarrow> ver \<noteq> [] \<and> list_all is_hex_digit ver \<and> rest \<noteq> []
            | (_, None) \<Rightarrow> False)
      else ip6_ok h)"

definition bracketed_host :: "string \<Rightarrow> string" where
  "bracketed_host netloc = fst (py_cut (CHR '']'') (the_default [] (snd (py_cut (CHR ''['') netloc))))"

definition urlsplit :: "string \<Rightarrow> py_exn + split_result" where
  "urlsplit raw =
     (let url = filter (\<lambda>c. c \<notin> {CHR 0x09, CHR 0x0D, CHR 0x0A})
                  (dropWhile (\<lambda>c. code_point c \<le> 32) raw);
          (before, after) = py_cut (CHR '':'') url;
          has_scheme = (after \<noteq> None \<and> before \<noteq> [] \<and> is_alpha (hd before) \<and> list_all scheme_char before);
          scheme = (if has_scheme then py_lower before else []);
          rest = (if has_scheme then the after else url);
          has_netloc = py_startswith rest ''//'';
          is_end = (\<lambda>c. c \<in> {CHR ''/'', CHR ''?'', CHR ''#''});
          netloc = (if has_netloc then takeWhile (\<lambda>c. \<not> is_end c) (drop 2 rest) else []);
          tail = (if has_netloc then dropWhile (\<lambda>c. \<not> is_end c) (drop 2 rest) else rest);
          (path_query, fragment) = py_cut (CHR ''#'') tail;
          (path, query) = py_cut (CHR ''?'') path_query
      in if (CHR ''['' \<in> set netloc) \<noteq> (CHR '']'' \<in> set netloc) then Inl ValueError
         else if CHR ''['' \<in> set netloc \<and> \<not> check_bracketed_host (bracketed_host netloc) then Inl ValueError
         else Inr \<lparr>ur_scheme = scheme, ur_netloc = netloc, ur_path = path,
                   ur_query = the_default [] query, ur_fragment = the_default [] fragment\<rparr>)"

text \<open>\<open>urlparse\<close> keeps the netloc, query and fragment of \<open>urlsplit\<close>, the only parts used of it.\<close>

definition url_netloc :: "string \<Rightarrow> py_exn + string" where
  "url_netloc url = (case urlsplit url of Inl x \<Rightarrow> Inl x | Inr r \<Rightarrow> Inr (ur_netloc r))"

lemma urlsplit_examples:
  "url_netloc ''http://www.foo.gov.in:80/a?b#c'' = Inr ''www.foo.gov.in:80''"
  "url_netloc ''foo.gov.in/x'' = Inr []"
  "url_netloc ''http://[::1]/'' = Inr ''[::1]''"
  "url_netloc ''http://[1.2.3.4]/'' = Inl ValueError"
  "url_netloc ''http://[::1/'' = Inl ValueError"
  by code_simp+

section \<open>Attribution of a page to a catalog domain\<close>

definition url_host :: "string \<Rightarrow> string option" where
  "url_host url =
     (case url_netloc url of
        Inl _ \<Rightarrow> None
      | Inr n \<Rightarrow> Some (strip_www (hd (py_split (CHR '':'') (py_lower n)))))"

definition public_suffixes :: "string list \<Rightarrow> string set" where
  "public_suffixes target_suffixes = set (map (dropWhile (\<lambda>c. c = CHR ''.'')) target_suffixes)"

function walk_up :: "string set \<Rightarrow> (string \<rightharpoonup> 'd) \<Rightarrow> string list \<Rightarrow> 'd option" where
  "walk_up public netloc_map labels =
     (if length labels < 2 then None
      else let candidate = py_join ''.'' labels in
           if candidate \<in> public then None
           else case netloc_map candidate of
                  Some hit \<Rightarrow> Some hit
                | None \<Rightarrow> walk_up public netloc_map (tl labels))"
  by pat_completeness auto
termination
  by (relation "measure (\<lambda>(_, _, labels). length labels)") auto

declare walk_up.simps [simp del]

text \<open>
  A missing source URL makes \<open>urlparse\<close> answer bytes, whose \<open>split(":")\<close> raises inside the
  \<open>try\<close>: the answer is None as for a malformed URL.
\<close>

definition resolve_domain_for_url ::
  "string option \<Rightarrow> (string \<rightharpoonup> 'd) \<Rightarrow> string list \<Rightarrow> 'd option" where
  "resolve_domain_for_url source_url netloc_map target_suffixes =
     (case Option.bind source_url url_host of
        None \<Rightarrow> None
      | Some host \<Rightarrow>
          if host = [] then None
          else walk_up (public_suffixes target_suffixes) netloc_map (py_split (CHR ''.'') host))"

text \<open>
  The specification of the walk: the parents of a host, longest first, cut off at the first
  public suffix; the answer is the first of them in the catalog.
\<close>

definition host_parents :: "string \<Rightarrow> string list" where
  "host_parents host =
     (let ls = py_split (CHR ''.'') host in map (\<lambda>i. py_join ''.'' (drop i ls)) [0..<length ls - 1])"

definition first_hit :: "(string \<rightharpoonup> 'd) \<Rightarrow> string list \<Rightarrow> 'd option" where
  "first_hit m ks = (case dropWhile (\<lambda>k. m k = None) ks of [] \<Rightarrow> None | k # _ \<Rightarrow> m k)"

lemma first_hit_Cons: "first_hit m (k # ks) = (case m k of Some d \<Rightarrow> Some d | None \<Rightarrow> first_hit m ks)"
  by (auto simp: first_hit_def split: option.splits)

lemma first_hit_Nil [simp]: "first_hit m [] = None"
  by (simp add: first_hit_def)

lemma first_hit_SomeD: "first_hit m ks = Some d \<Longrightarrow> \<exists>k \<in> set ks. m k = Some d"
  by (induction ks) (auto simp: first_hit_Cons split: option.splits)

lemma walk_up_first_hit:
  "walk_up public m ls =
     first_hit m (takeWhile (\<lambda>k. k \<notin> public) (map (\<lambda>i. py_join ''.'' (drop i ls)) [0..<length ls - 1]))"
proof (induction public m ls rule: walk_up.induct)
  case (1 public m ls)
  show ?case
  proof (cases "length ls < 2")
    case True
    then show ?thesis by (simp add: walk_up.simps [of _ _ ls])
  next
    case False
    then have len: "length ls - 1 = Suc (length (tl ls) - 1)" by simp
    have shift: "map (\<lambda>i. py_join ''.'' (drop i ls)) [0..<length ls - 1] =
        py_join ''.'' ls # map (\<lambda>i. py_join ''.'' (drop i (tl ls))) [0..<length (tl ls) - 1]"
      unfolding len upt_conv_Cons [OF zero_less_Suc]
      by (simp add: map_Suc_upt [symmetric] drop_Suc del: upt_Suc)
    show ?thesis
      unfolding walk_up.simps [of _ _ ls] shift
      using False 1 [OF False refl] by (simp add: Let_def first_hit_Cons split: option.splits)
  qed
qed

lemma resolve_first_hit:
  assumes "url_host url = Some host" "host \<noteq> []"
  shows "resolve_domain_for_url (Some url) m sfx =
    first_hit m (takeWhile (\<lambda>k. k \<notin> public_suffixes sfx) (host_parents host))"
  using assms by (simp add: resolve_domain_for_url_def walk_up_first_hit host_parents_def Let_def)

text \<open>
  A host never holds a colon, so a catalog entry whose netloc carries a port or credentials
  is reached by no lead.
\<close>

lemma py_split_parts: "w \<in> set (py_split d s) \<Longrightarrow> set w \<subseteq> set s - {d}"
proof (induction s arbitrary: w)
  case Nil
  then show ?case by simp
next
  case (Cons c s)
  obtain v vs where v: "py_split d s = v # vs" by (cases "py_split d s") auto
  show ?case
  proof (cases "c = d")
    case True
    with Cons show ?thesis by (auto dest!: Cons.IH)
  next
    case False
    with Cons.prems v have "w = c # v \<or> w \<in> set vs" by auto
    then show ?thesis
      using Cons.IH [of v] Cons.IH [of w] v False by auto
  qed
qed

lemma set_py_join: "set (py_join sep ws) \<subseteq> set sep \<union> \<Union> (set ` set ws)"
  by (induction sep ws rule: py_join.induct) auto

lemma set_py_removeprefix: "set (py_removeprefix s p) \<subseteq> set s"
  by (auto simp: py_removeprefix_def dest: in_set_dropD)

lemma url_host_no_colon: "url_host url = Some host \<Longrightarrow> CHR '':'' \<notin> set host"
  using py_split_parts [OF hd_in_set [OF py_split_nonempty]] set_py_removeprefix
  by (fastforce simp: url_host_def strip_www_def split: sum.splits)

lemma host_parents_no_colon: "CHR '':'' \<notin> set host \<Longrightarrow> k \<in> set (host_parents host) \<Longrightarrow> CHR '':'' \<notin> set k"
proof -
  assume colon: "CHR '':'' \<notin> set host" and "k \<in> set (host_parents host)"
  then obtain i where k: "k = py_join ''.'' (drop i (py_split (CHR ''.'') host))"
    by (auto simp: host_parents_def Let_def)
  have "CHR '':'' \<notin> set w" if "w \<in> set (drop i (py_split (CHR ''.'') host))" for w
    using py_split_parts [OF in_set_dropD [OF that]] colon by blast
  then show "CHR '':'' \<notin> set k"
    using set_py_join [of "''.''" "drop i (py_split (CHR ''.'') host)"] k by force
qed

lemma first_hit_restrict: "set ks \<subseteq> A \<Longrightarrow> first_hit (m |` A) ks = first_hit m ks"
  by (induction ks) (simp_all add: first_hit_Cons split: option.split)

lemma resolve_None_host: "url_host url = None \<or> url_host url = Some [] \<Longrightarrow> resolve_domain_for_url (Some url) m sfx = None"
  by (auto simp: resolve_domain_for_url_def)

text \<open>C16.
  A page is attributed to the first of its parent hosts, longest first, that is in the catalog,
  as long as no public suffix was met before; a catalog entry whose netloc carries a port is
  never the answer.
\<close>

theorem attribution_is_most_specific:
  assumes "url_host url = Some host" "host \<noteq> []"
  shows "resolve_domain_for_url (Some url) m sfx =
      first_hit m (takeWhile (\<lambda>k. k \<notin> public_suffixes sfx) (host_parents host)) \<and>
    resolve_domain_for_url (Some url) m sfx =
      resolve_domain_for_url (Some url) (m |` {k. CHR '':'' \<notin> set k}) sfx"
proof -
  have "first_hit (m |` {k. CHR '':'' \<notin> set k}) (takeWhile (\<lambda>k. k \<notin> public_suffixes sfx) (host_parents host)) =
        first_hit m (takeWhile (\<lambda>k. k \<notin> public_suffixes sfx) (host_parents host))"
    using host_parents_no_colon [OF url_host_no_colon [OF assms(1)]]
    by (intro first_hit_restrict) (auto dest: set_takeWhileD)
  then show ?thesis
    by (simp only: resolve_first_hit [OF assms])
qed

lemma attribution_is_most_specific_witness:
  "resolve_domain_for_url (Some ''https://www.x.dept.gov.in/p'')
     [''dept.gov.in'' \<mapsto> 1, ''gov.in'' \<mapsto> (2::nat)] [''.gov.in''] = Some 1"
proof -
  have "url_host ''https://www.x.dept.gov.in/p'' = Some ''x.dept.gov.in''" by code_simp
  from attribution_is_most_specific [OF this, of "[''dept.gov.in'' \<mapsto> 1, ''gov.in'' \<mapsto> (2::nat)]" "[''.gov.in'']"]
  have "resolve_domain_for_url (Some ''https://www.x.dept.gov.in/p'')
      [''dept.gov.in'' \<mapsto> 1, ''gov.in'' \<mapsto> (2::nat)] [''.gov.in''] =
    first_hit [''dept.gov.in'' \<mapsto> 1, ''gov.in'' \<mapsto> 2]
      (takeWhile (\<lambda>k. k \<notin> public_suffixes [''.gov.in'']) (host_parents ''x.dept.gov.in''))" by simp
  also have "\<dots> = Some 1" by code_simp
  finally show ?thesis .
qed

end
