(* ===== verification/CrawlTables.thy ===== *)
theory CrawlTables
  imports Urls "HOL-Library.List_Lexorder" "HOL-Library.Char_ord" "HOL-Library.Product_Lexorder"
begin

text \<open>
  The crawl side of the cloud database: the tables of \<open>cloud/db/tables/crawl.py\<close>,
  \<open>leads.py\<close>, \<open>lookups.py\<close> and \<open>settings.py\<close>, and the query shapes shared by the mixins over
  them. A domain, its dict and a frozen snapshot of it share the nine catalog columns of
  \<open>domain_entry\<close>; an unordered query returns its rows in key order.
\<close>

record domain_entry =
  de_category_code :: string
  de_category_title :: "string option"
  de_state :: "string option"
  de_org_type :: "string option"
  de_org_type_title :: "string option"
  de_title :: "string option"
  de_main_url :: "string option"
  de_contact_url :: "string option"
  de_external_id :: "string option"

record domain_dict = domain_entry +
  dm_id :: nat

record domain = domain_dict +
  dm_imported_at :: datetime

record crawl_snapshot = domain_entry +
  sn_id :: nat
  sn_job_id :: nat
  sn_source_domain_id :: "nat option"
  sn_is_seed :: bool
  sn_created_at :: datetime

record crawl_metrics =
  cm_queued_urls :: int
  cm_visited_urls :: int
  cm_skipped_urls :: int
  cm_leads_found :: int
  cm_crawled_domains :: int
  cm_current_depth :: int
  cm_active_workers :: int

record crawl_job = crawl_metrics +
  jb_id :: nat
  jb_category_filter :: "string option"
  jb_title_filter :: "string option"
  jb_domain_ids :: "nat list option"
  jb_source_type :: string
  jb_status :: string
  jb_total_domains :: nat
  jb_seed_domains :: nat
  jb_error_message :: "string option"
  jb_owner_id :: "nat option"
  jb_cancel_requested :: bool
  jb_agent_hostname :: "string option"
  jb_last_heartbeat_at :: "datetime option"
  jb_created_at :: datetime
  jb_started_at :: "datetime option"
  jb_finished_at :: "datetime option"

record job_custom_url =
  cu_id :: nat
  cu_job_id :: nat
  cu_url :: string
  cu_created_at :: datetime

record lead =
  ld_id :: nat
  ld_job_id :: nat
  ld_snapshot_id :: "nat option"
  ld_email :: string
  ld_person_name :: "string option"
  ld_designation :: "string option"
  ld_department :: "string option"
  ld_source_url :: "string option"
  ld_source_title :: "string option"
  ld_context_snippet :: "string option"
  ld_manual_state :: "string option"
  ld_entity_kind :: "string option"
  ld_phone :: "string option"
  ld_channel_tag :: "string option"
  ld_confidence_band :: "string option"
  ld_field_provenance :: "string option"
  ld_lead_score :: int
  ld_depth :: int
  ld_captured_at :: datetime

record lead_occurrence =
  lo_id :: nat
  lo_lead_id :: nat
  lo_job_id :: nat
  lo_captured_by :: "nat option"
  lo_source_url :: "string option"
  lo_captured_at :: datetime

text \<open>The JSON value of the one setting the program keeps, with its optional sections.\<close>

record crawl_policy =
  cp_extraction :: "json option"
  cp_weights :: "weights option"
  cp_crawler :: "(string \<rightharpoonup> json) option"

record app_setting =
  as_key :: string
  as_value :: crawl_policy
  as_updated_by :: "nat option"
  as_updated_at :: datetime

text \<open>
  \<open>job_domains\<close> is the junction \<open>crawl_job_domains\<close> as its key pairs; \<open>netloc_cache\<close> is the
  attribute \<open>_netloc_map_cache\<close> of the database object.
\<close>

record crawl_db =
  domains :: "domain table"
  categories :: "(string \<times> string) list"
  org_types :: "(string \<times> string) list"
  netloc_cache :: "(string \<rightharpoonup> domain_dict) option"
  jobs :: "crawl_job table"
  job_domains :: "(nat \<times> nat) list"
  custom_urls :: "job_custom_url table"
  snapshots :: "crawl_snapshot table"
  leads :: "lead table"
  occurrences :: "lead_occurrence table"
  settings :: "app_setting list"

section \<open>Query shapes\<close>

text \<open>\<open>column.ilike("%text%")\<close>, which is not true of NULL.\<close>

definition ilike_contains :: "string option \<Rightarrow> string \<Rightarrow> bool" where
  "ilike_contains column s =
     (case column of None \<Rightarrow> False | Some t \<Rightarrow> sql_like (py_lower (''%'' @ s @ ''%'')) (py_lower t))"

text \<open>An optional equality filter: \<open>if v: q.filter(column == v)\<close>.\<close>

definition eq_filter :: "string option \<Rightarrow> string option \<Rightarrow> bool" where
  "eq_filter v column = (truthy v \<longrightarrow> column = v)"

text \<open>\<open>GROUP BY key\<close> with \<open>count\<close>, most frequent first; the order of ties is left to the database.\<close>

definition group_count :: "('r \<Rightarrow> 'k) \<Rightarrow> 'r list \<Rightarrow> ('k \<times> nat) list" where
  "group_count key rs =
     sort_key (\<lambda>kn. - int (snd kn))
       (map (\<lambda>k. (k, length (filter (\<lambda>r. key r = k) rs))) (remdups (map key rs)))"

text \<open>\<open>ORDER BY column\<close> puts NULL last.\<close>

definition null_last :: "string option \<Rightarrow> bool \<times> string" where
  "null_last v = (v = None, the_default [] v)"

lemma set_group_count:
  "(k, n) \<in> set (group_count key rs) \<longleftrightarrow> k \<in> key ` set rs \<and> n = length (filter (\<lambda>r. key r = k) rs)"
  by (auto simp: group_count_def)

lemma mset_map_group_count:
  "mset (map f (group_count key rs)) =
     mset (map (\<lambda>k. f (k, length (filter (\<lambda>r. key r = k) rs))) (remdups (map key rs)))"
  by (simp add: group_count_def image_mset.compositionality comp_def)

lemma group_count_distinct: "distinct (map fst (group_count key rs))"
proof -
  have "mset (map fst (group_count key rs)) = mset (remdups (map key rs))"
    by (simp add: mset_map_group_count del: mset_map)
  then show ?thesis
    using mset_eq_imp_distinct_iff by fastforce
qed

lemma group_count_total: "sum_list (map snd (group_count key rs)) = length rs"
proof -
  have "sum_list (map snd (group_count key rs)) =
        sum_list (map (\<lambda>k. length (filter (\<lambda>r. key r = k) rs)) (remdups (map key rs)))"
    using arg_cong [OF mset_map_group_count [of snd key rs], of sum_mset] by (simp add: sum_mset_sum_list del: mset_map)
  also have "\<dots> = (\<Sum>k \<in> key ` set rs. length (filter (\<lambda>r. key r = k) rs))"
    by (simp add: sum_list_distinct_conv_sum_set)
  also have "\<dots> = length rs"
  proof (induction rs)
    case Nil
    then show ?case by simp
  next
    case (Cons r rs)
    have "(\<Sum>k \<in> key ` set (r # rs). length (filter (\<lambda>x. key x = k) (r # rs))) =
          (\<Sum>k \<in> key ` set (r # rs). (if k = key r then 1 else 0) + length (filter (\<lambda>x. key x = k) rs))"
      by (rule sum.cong) auto
    also have "\<dots> = 1 + (\<Sum>k \<in> key ` set (r # rs). length (filter (\<lambda>x. key x = k) rs))"
      by (simp add: sum.distrib sum.delta)
    also have "(\<Sum>k \<in> key ` set (r # rs). length (filter (\<lambda>x. key x = k) rs)) =
          (\<Sum>k \<in> key ` set rs. length (filter (\<lambda>x. key x = k) rs))"
      by (rule sum.mono_neutral_right) (auto simp: filter_empty_conv)
    finally show ?case
      using Cons by simp
  qed
  finally show ?thesis .
qed

section \<open>An empty database\<close>

definition empty_crawl_db :: crawl_db where
  "empty_crawl_db =
     \<lparr>domains = \<lparr>rows = [], next_id = 1\<rparr>, categories = [], org_types = [], netloc_cache = None,
      jobs = \<lparr>rows = [], next_id = 1\<rparr>, job_domains = [], custom_urls = \<lparr>rows = [], next_id = 1\<rparr>,
      snapshots = \<lparr>rows = [], next_id = 1\<rparr>, leads = \<lparr>rows = [], next_id = 1\<rparr>,
      occurrences = \<lparr>rows = [], next_id = 1\<rparr>, settings = []\<rparr>"

end
