(* ===== verification/Catalog.thy ===== *)
theory Catalog
  imports CrawlTables
begin

text \<open>
  The domain catalog (\<open>DomainMixin\<close>), the frozen snapshots of it (\<open>CrawlSnapshotMixin\<close>) and the
  settings row (\<open>AppSettingsMixin\<close>). Shown here: the cached netloc index always equals a fresh
  build, a catalog rebuild keeps the last entry of every key and no snapshot changes once
  written.
\<close>

section \<open>The netloc index\<close>

definition catalog_netloc :: "string \<Rightarrow> string option" where
  "catalog_netloc main_url =
     (case url_netloc main_url of Inl _ \<Rightarrow> None | Inr n \<Rightarrow> Some (strip_www (py_lower n)))"

definition index_domain :: "(string \<rightharpoonup> domain_dict) \<Rightarrow> domain \<Rightarrow> (string \<rightharpoonup> domain_dict)" where
  "index_domain by_netloc d =
     (case Option.bind (de_main_url d) catalog_netloc of
        None \<Rightarrow> by_netloc
      | Some netloc \<Rightarrow>
          if netloc = [] then by_netloc
          else
            (case by_netloc netloc of
               Some existing \<Rightarrow>
                 if dm_id existing \<le> dm_id d then by_netloc
                 else by_netloc(netloc \<mapsto> domain_dict.truncate d)
             | None \<Rightarrow> by_netloc(netloc \<mapsto> domain_dict.truncate d)))"

definition build_netloc_domain_map :: "crawl_db \<Rightarrow> (string \<rightharpoonup> domain_dict)" where
  "build_netloc_domain_map db =
     foldl index_domain Map.empty (select_where (\<lambda>d. de_main_url d \<noteq> None) (domains db))"

definition get_netloc_domain_map :: "crawl_db \<Rightarrow> crawl_db \<times> (string \<rightharpoonup> domain_dict)" where
  "get_netloc_domain_map db =
     (case netloc_cache db of
        Some m \<Rightarrow> (db, m)
      | None \<Rightarrow> let m = build_netloc_domain_map db in (db\<lparr>netloc_cache := Some m\<rparr>, m))"

definition invalidate_netloc_domain_map :: "crawl_db \<Rightarrow> crawl_db" where
  "invalidate_netloc_domain_map db = db\<lparr>netloc_cache := None\<rparr>"

section \<open>Writing the catalog\<close>

text \<open>Update the title of a code, or add the code.\<close>

definition upsert_lookup :: "string \<times> string \<Rightarrow> (string \<times> string) list \<Rightarrow> (string \<times> string) list" where
  "upsert_lookup ct t =
     (if fst ct \<in> set (map fst t) then map (\<lambda>r. if fst r = fst ct then ct else r) t else t @ [ct])"

definition upsert_category :: "string \<Rightarrow> string \<Rightarrow> crawl_db \<Rightarrow> crawl_db" where
  "upsert_category code title db = db\<lparr>categories := upsert_lookup (code, title) (categories db)\<rparr>"

definition upsert_org_type :: "string \<Rightarrow> string \<Rightarrow> crawl_db \<Rightarrow> crawl_db" where
  "upsert_org_type code title db = db\<lparr>org_types := upsert_lookup (code, title) (org_types db)\<rparr>"

definition mk_domain :: "domain_entry \<times> datetime \<Rightarrow> nat \<Rightarrow> domain" where
  "mk_domain a i = domain_entry.extend (fst a) \<lparr>dm_id = i, dm_imported_at = snd a\<rparr>"

definition set_entry :: "domain_entry \<Rightarrow> domain \<Rightarrow> domain" where
  "set_entry e d = domain_entry.extend e (domain_entry.more d)"

definition find_domain_for :: "domain_entry \<Rightarrow> crawl_db \<Rightarrow> domain option" where
  "find_domain_for e db =
     (if truthy (de_external_id e) then first_where (\<lambda>d. de_external_id d = de_external_id e) (domains db)
      else if truthy (de_main_url e) then first_where (\<lambda>d. de_main_url d = de_main_url e) (domains db)
      else None)"

definition upsert_domain :: "domain_entry \<Rightarrow> datetime \<Rightarrow> crawl_db \<Rightarrow> crawl_db \<times> nat" where
  "upsert_domain e now db =
     (case find_domain_for e db of
        Some existing \<Rightarrow>
          (invalidate_netloc_domain_map
             (db\<lparr>domains := update_where (\<lambda>d. dm_id d = dm_id existing) (set_entry e) (domains db)\<rparr>),
           dm_id existing)
      | None \<Rightarrow>
          (case insert_row (mk_domain (e, now)) (domains db) of
             (t, i) \<Rightarrow> (invalidate_netloc_domain_map (db\<lparr>domains := t\<rparr>), i)))"

definition set_urls :: "string \<Rightarrow> string option \<Rightarrow> domain \<Rightarrow> domain" where
  "set_urls main_url contact_url d =
     d\<lparr>de_main_url := Some main_url,
       de_contact_url := (if contact_url \<noteq> None then contact_url else de_contact_url d)\<rparr>"

definition update_domain_url ::
  "nat \<Rightarrow> string \<Rightarrow> string option \<Rightarrow> crawl_db \<Rightarrow> crawl_db \<times> domain_dict option" where
  "update_domain_url domain_id main_url contact_url db =
     (case first_where (\<lambda>d. dm_id d = domain_id) (domains db) of
        None \<Rightarrow> (db, None)
      | Some d \<Rightarrow>
          (invalidate_netloc_domain_map
             (db\<lparr>domains := update_where (\<lambda>x. dm_id x = domain_id) (set_urls main_url contact_url) (domains db)\<rparr>),
           Some (domain_dict.truncate (set_urls main_url contact_url d))))"

text \<open>Deleting a domain removes its rows of \<open>crawl_job_domains\<close> (\<open>ON DELETE CASCADE\<close>).\<close>

definition delete_all_domains :: "crawl_db \<Rightarrow> crawl_db" where
  "delete_all_domains db =
     db\<lparr>domains := delete_where (\<lambda>_. True) (domains db),
        job_domains := filter (\<lambda>jd. snd jd \<notin> dm_id ` set (rows (domains db))) (job_domains db)\<rparr>"

definition clear_domains :: "crawl_db \<Rightarrow> crawl_db" where
  "clear_domains db = invalidate_netloc_domain_map (delete_all_domains db)"

definition catalog_key :: "nat \<Rightarrow> domain_entry \<Rightarrow> string" where
  "catalog_key i e =
     (if truthy (de_external_id e) then ''ext:'' @ the (de_external_id e)
      else if truthy (de_main_url e) then ''url:'' @ the (de_main_url e)
      else ''row:'' @ py_str_nat i)"

fun dedupe_entries ::
  "nat \<Rightarrow> domain_entry list \<Rightarrow> string list \<times> (string \<rightharpoonup> domain_entry) \<Rightarrow> string list \<times> (string \<rightharpoonup> domain_entry)" where
  "dedupe_entries i [] acc = acc"
| "dedupe_entries i (e # es) (order, by_key) =
     (let key = catalog_key i e in
      dedupe_entries (Suc i) es
        (if by_key key = None then order @ [key] else order, by_key(key \<mapsto> e)))"

definition deduped :: "domain_entry list \<Rightarrow> domain_entry list" where
  "deduped entries =
     (case dedupe_entries 0 entries ([], Map.empty) of (order, by_key) \<Rightarrow> map (\<lambda>k. the (by_key k)) order)"

definition replace_catalog ::
  "domain_entry list \<Rightarrow> (string \<times> string) list \<Rightarrow> (string \<times> string) list \<Rightarrow> datetime \<Rightarrow> crawl_db \<Rightarrow> crawl_db \<times> nat" where
  "replace_catalog entries cats orgs now db =
     (let es = deduped entries;
          db1 = delete_all_domains db;
          db2 = db1\<lparr>categories := fold upsert_lookup cats (categories db1),
                    org_types := fold upsert_lookup orgs (org_types db1),
                    domains := insert_all mk_domain (map (\<lambda>e. (e, now)) es) (domains db1)\<rparr>
      in (invalidate_netloc_domain_map db2, length es))"

section \<open>Reading the catalog\<close>

record domain_filter =
  df_category :: "string option"
  df_state :: "string option"
  df_org_type :: "string option"
  df_search :: "string option"

definition domain_matches :: "domain_filter \<Rightarrow> domain \<Rightarrow> bool" where
  "domain_matches f d =
     (eq_filter (df_category f) (Some (de_category_code d)) \<and>
      eq_filter (df_state f) (de_state d) \<and>
      eq_filter (df_org_type f) (de_org_type d) \<and>
      (truthy (df_search f) \<longrightarrow>
         ilike_contains (de_title d) (the (df_search f)) \<or> ilike_contains (de_main_url d) (the (df_search f))))"

definition count_domains :: "crawl_db \<Rightarrow> nat" where
  "count_domains db = length (rows (domains db))"

record domain_stats =
  ds_total :: nat
  ds_crawlable :: nat
  ds_not_crawlable :: nat
  ds_duplicate :: nat

definition get_domain_stats :: "domain_filter \<Rightarrow> crawl_db \<Rightarrow> domain_stats" where
  "get_domain_stats f db =
     (let total = count_where (domain_matches f) (domains db);
          crawlable = count_where (\<lambda>d. domain_matches f d \<and> de_main_url d \<noteq> None) (domains db);
          groups = group_count de_main_url
                     (select_where (\<lambda>d. domain_matches f d \<and> de_main_url d \<noteq> None) (domains db));
          dup_groups = filter (\<lambda>kn. snd kn > 1) groups
      in \<lparr>ds_total = total, ds_crawlable = crawlable, ds_not_crawlable = total - crawlable,
          ds_duplicate = sum_list (map (\<lambda>kn. snd kn - 1) dup_groups)\<rparr>)"

record facet =
  fc_code :: "string option"
  fc_title :: "string option"
  fc_count :: nat

definition facet_of :: "(string option \<times> string option) \<times> nat \<Rightarrow> facet" where
  "facet_of g = \<lparr>fc_code = fst (fst g), fc_title = py_or (snd (fst g)) (fst (fst g)), fc_count = snd g\<rparr>"

definition get_categories :: "crawl_db \<Rightarrow> facet list" where
  "get_categories db =
     map facet_of (group_count (\<lambda>d. (Some (de_category_code d), de_category_title d)) (rows (domains db)))"

definition get_states :: "string option \<Rightarrow> crawl_db \<Rightarrow> string list" where
  "get_states category db =
     filter (\<lambda>s. s \<noteq> []) (sort (remdups (List.map_filter de_state
       (select_where (\<lambda>d. eq_filter category (Some (de_category_code d))) (domains db)))))"

definition get_org_types :: "string option \<Rightarrow> string option \<Rightarrow> crawl_db \<Rightarrow> facet list" where
  "get_org_types category state db =
     map facet_of (group_count (\<lambda>d. (de_org_type d, de_org_type_title d))
       (select_where (\<lambda>d. de_org_type d \<noteq> None \<and> eq_filter category (Some (de_category_code d)) \<and>
                          eq_filter state (de_state d)) (domains db)))"

definition get_domains ::
  "domain_filter \<Rightarrow> nat \<Rightarrow> nat \<Rightarrow> string option \<Rightarrow> string \<Rightarrow> crawl_db \<Rightarrow> domain_dict list \<times> nat" where
  "get_domains f page limit sort_by sort_dir db =
     (let found = select_where (domain_matches f) (domains db);
          crawl_key = (\<lambda>d. if sort_by = Some ''crawlable''
                           then (if (de_main_url d \<noteq> None) = (sort_dir = ''asc'') then 1 else 0) else (0::nat));
          ordered = sort_key (\<lambda>d. (crawl_key d, null_last (de_state d), null_last (de_main_url d))) found
      in (map domain_dict.truncate (page_slice page limit ordered), length found))"

definition get_domain_ids :: "domain_filter \<Rightarrow> crawl_db \<Rightarrow> nat list" where
  "get_domain_ids f db =
     map dm_id (select_where (\<lambda>d. de_main_url d \<noteq> None \<and> domain_matches f d) (domains db))"

definition get_domains_by_ids :: "nat list \<Rightarrow> crawl_db \<Rightarrow> domain_dict list" where
  "get_domains_by_ids ids db = map domain_dict.truncate (select_where (\<lambda>d. dm_id d \<in> set ids) (domains db))"

section \<open>Snapshots\<close>

definition mk_snapshot :: "domain_dict \<times> nat \<times> bool \<times> datetime \<Rightarrow> nat \<Rightarrow> crawl_snapshot" where
  "mk_snapshot a i =
     (case a of (d, job_id, is_seed, now) \<Rightarrow>
        domain_entry.extend (domain_entry.truncate d)
          \<lparr>sn_id = i, sn_job_id = job_id, sn_source_domain_id = Some (dm_id d), sn_is_seed = is_seed,
           sn_created_at = now\<rparr>)"

definition find_snapshot :: "nat \<Rightarrow> nat \<Rightarrow> crawl_db \<Rightarrow> crawl_snapshot option" where
  "find_snapshot job_id domain_id db =
     first_where (\<lambda>s. sn_job_id s = job_id \<and> sn_source_domain_id s = Some domain_id) (snapshots db)"

definition job_exists :: "nat \<Rightarrow> crawl_db \<Rightarrow> bool" where
  "job_exists job_id db = list_ex (\<lambda>j. jb_id j = job_id) (rows (jobs db))"

text \<open>
  \<open>race\<close> is what other transactions commit between the query and the insert. An insert that
  breaks \<open>uq_snapshot_job_domain\<close> or the foreign key to the job is rolled back, and the row is
  read again; without one, \<open>existing.id\<close> raises.
\<close>

definition create_crawl_snapshot ::
  "(crawl_db \<Rightarrow> crawl_db) \<Rightarrow> nat \<Rightarrow> domain_dict \<Rightarrow> bool \<Rightarrow> datetime \<Rightarrow> crawl_db \<Rightarrow> crawl_db \<times> (py_exn + nat)" where
  "create_crawl_snapshot race job_id d is_seed now db =
     (case find_snapshot job_id (dm_id d) db of
        Some existing \<Rightarrow> (db, Inr (sn_id existing))
      | None \<Rightarrow>
          (let db1 = race db in
           if find_snapshot job_id (dm_id d) db1 = None \<and> job_exists job_id db1
           then (case insert_row (mk_snapshot (d, job_id, is_seed, now)) (snapshots db1) of
                   (t, i) \<Rightarrow> (db1\<lparr>snapshots := t\<rparr>, Inr i))
           else (case find_snapshot job_id (dm_id d) db1 of
                   Some existing \<Rightarrow> (db1, Inr (sn_id existing))
                 | None \<Rightarrow> (db1, Inl AttributeError))))"

definition get_crawl_snapshots :: "nat \<Rightarrow> bool \<Rightarrow> crawl_db \<Rightarrow> crawl_snapshot list" where
  "get_crawl_snapshots job_id seeds_only db =
     select_where (\<lambda>s. sn_job_id s = job_id \<and> (seeds_only \<longrightarrow> sn_is_seed s)) (snapshots db)"

section \<open>The settings row\<close>

definition get_app_setting :: "string \<Rightarrow> crawl_db \<Rightarrow> app_setting option" where
  "get_app_setting key db = List.find (\<lambda>r. as_key r = key) (settings db)"

text \<open>An assignment of equal values leaves the row clean: nothing is written, \<open>updated_at\<close> included.\<close>

definition set_app_setting ::
  "string \<Rightarrow> crawl_policy \<Rightarrow> nat option \<Rightarrow> datetime option \<Rightarrow> datetime \<Rightarrow> crawl_db \<Rightarrow> crawl_db \<times> bool" where
  "set_app_setting key val updated_by expected_updated_at now db =
     (case get_app_setting key db of
        Some row \<Rightarrow>
          if expected_updated_at \<noteq> None \<and> expected_updated_at \<noteq> Some (as_updated_at row) then (db, False)
          else if as_value row = val \<and> as_updated_by row = updated_by then (db, True)
          else (db\<lparr>settings := map (\<lambda>r. if as_key r = key
                  then r\<lparr>as_value := val, as_updated_by := updated_by, as_updated_at := now\<rparr> else r) (settings db)\<rparr>, True)
      | None \<Rightarrow>
          (db\<lparr>settings := settings db @
             [\<lparr>as_key = key, as_value = val, as_updated_by = updated_by, as_updated_at = now\<rparr>]\<rparr>, True))"

definition EMPTY_POLICY :: crawl_policy where
  "EMPTY_POLICY = \<lparr>cp_extraction = Some (JObj []), cp_weights = Some DEFAULT_WEIGHTS, cp_crawler = Some Map.empty\<rparr>"

definition get_crawl_policy :: "crawl_db \<Rightarrow> crawl_policy" where
  "get_crawl_policy db =
     (case get_app_setting ''crawl_policy'' db of None \<Rightarrow> EMPTY_POLICY | Some s \<Rightarrow> as_value s)"

definition lead_score_weights :: "crawl_db \<Rightarrow> weights" where
  "lead_score_weights db = the_default DEFAULT_WEIGHTS (cp_weights (get_crawl_policy db))"

text \<open>The first-run seed from the configuration file.\<close>

definition CRAWLER_POLICY_KEYS :: "string list" where
  "CRAWLER_POLICY_KEYS =
     [''target_suffixes'', ''priority_keywords'', ''skip_extensions'', ''pagination'', ''js_indicators'',
      ''max_links_per_page'', ''max_depth'', ''recrawl_days'', ''request_delay'', ''user_agent'',
      ''max_custom_urls'']"

record app_config =
  cf_crawler :: "(string \<rightharpoonup> json) option"
  cf_extraction :: "json option"
  cf_weights :: "weights option"

definition seed_app_settings :: "app_config \<Rightarrow> datetime \<Rightarrow> crawl_db \<Rightarrow> crawl_db" where
  "seed_app_settings config now db =
     (if get_app_setting ''crawl_policy'' db \<noteq> None then db
      else fst (set_app_setting ''crawl_policy''
        \<lparr>cp_extraction = Some (the_default (JObj []) (cf_extraction config)),
         cp_weights = Some (the_default DEFAULT_WEIGHTS (cf_weights config)),
         cp_crawler = Some (the_default Map.empty (cf_crawler config) |` set CRAWLER_POLICY_KEYS)\<rparr>
        None None now db))"

section \<open>The index is never stale\<close>

datatype catalog_op =
  Op_upsert_domain domain_entry datetime
| Op_update_url nat string "string option"
| Op_clear
| Op_replace "domain_entry list" "(string \<times> string) list" "(string \<times> string) list" datetime
| Op_category string string
| Op_org_type string string
| Op_snapshot nat domain_dict bool datetime
| Op_setting string crawl_policy "nat option" "datetime option" datetime
| Op_index

fun catalog_step :: "crawl_db \<Rightarrow> catalog_op \<Rightarrow> crawl_db" where
  "catalog_step db (Op_upsert_domain e now) = fst (upsert_domain e now db)"
| "catalog_step db (Op_update_url i m c) = fst (update_domain_url i m c db)"
| "catalog_step db Op_clear = clear_domains db"
| "catalog_step db (Op_replace es cs os now) = fst (replace_catalog es cs os now db)"
| "catalog_step db (Op_category c t) = upsert_category c t db"
| "catalog_step db (Op_org_type c t) = upsert_org_type c t db"
| "catalog_step db (Op_snapshot j d s now) = fst (create_crawl_snapshot id j d s now db)"
| "catalog_step db (Op_setting k v u x now) = fst (set_app_setting k v u x now db)"
| "catalog_step db Op_index = fst (get_netloc_domain_map db)"

definition cache_fresh :: "crawl_db \<Rightarrow> bool" where
  "cache_fresh db = (netloc_cache db = None \<or> netloc_cache db = Some (build_netloc_domain_map db))"

lemma build_cong: "domains db' = domains db \<Longrightarrow> build_netloc_domain_map db' = build_netloc_domain_map db"
  by (simp add: build_netloc_domain_map_def)

lemma cache_fresh_frame:
  "domains db' = domains db \<Longrightarrow> netloc_cache db' = netloc_cache db \<Longrightarrow> cache_fresh db' = cache_fresh db"
  by (simp add: cache_fresh_def build_netloc_domain_map_def)

lemma cache_fresh_None: "netloc_cache db = None \<Longrightarrow> cache_fresh db"
  by (simp add: cache_fresh_def)

lemma create_crawl_snapshot_frame:
  assumes "create_crawl_snapshot id j d s now db = (db', r)"
  shows "domains db' = domains db" "netloc_cache db' = netloc_cache db" "jobs db' = jobs db"
    "leads db' = leads db" "occurrences db' = occurrences db" "settings db' = settings db"
  using assms by (auto simp: create_crawl_snapshot_def insert_row_def Let_def split: option.splits if_splits)

lemma set_app_setting_frame:
  "domains (fst (set_app_setting k v u x now db)) = domains db"
  "netloc_cache (fst (set_app_setting k v u x now db)) = netloc_cache db"
  by (auto simp: set_app_setting_def split: option.splits)

lemma get_netloc_domain_map_fresh:
  assumes "cache_fresh db"
  shows "snd (get_netloc_domain_map db) = build_netloc_domain_map db"
    "cache_fresh (fst (get_netloc_domain_map db))"
    "domains (fst (get_netloc_domain_map db)) = domains db"
  using assms by (auto simp: get_netloc_domain_map_def cache_fresh_def Let_def build_netloc_domain_map_def
      split: option.splits)

lemma catalog_step_invalidates:
  "netloc_cache (fst (upsert_domain e now db)) = None"
  "netloc_cache (clear_domains db) = None"
  "netloc_cache (fst (replace_catalog es cs os now db)) = None"
  by (auto simp: upsert_domain_def clear_domains_def replace_catalog_def Let_def insert_row_def
      invalidate_netloc_domain_map_def split: option.split)

lemma update_domain_url_fresh: "cache_fresh db \<Longrightarrow> cache_fresh (fst (update_domain_url i m c db))"
  by (simp add: update_domain_url_def invalidate_netloc_domain_map_def cache_fresh_None split: option.split)

lemma upsert_lookup_fresh:
  "cache_fresh (upsert_category c t db) = cache_fresh db"
  "cache_fresh (upsert_org_type c t db) = cache_fresh db"
  by (simp_all add: upsert_category_def upsert_org_type_def cache_fresh_def build_netloc_domain_map_def)

lemma catalog_step_fresh: "cache_fresh db \<Longrightarrow> cache_fresh (catalog_step db op)"
proof (cases op)
  case (Op_snapshot j d s now)
  assume "cache_fresh db"
  then show ?thesis
    using cache_fresh_frame [OF create_crawl_snapshot_frame(1,2) [OF prod.collapse [symmetric], of j d s now db]]
      Op_snapshot by simp
next
  case (Op_setting k v u x now)
  assume "cache_fresh db"
  then show ?thesis
    using cache_fresh_frame [OF set_app_setting_frame, of k v u x now db] Op_setting by simp
qed (simp_all add: get_netloc_domain_map_fresh catalog_step_invalidates cache_fresh_None
    update_domain_url_fresh upsert_lookup_fresh)

text \<open>
  After any sequence of catalog operations on a database object that starts with an empty
  cache, the netloc index used for attribution is the one built from the current catalog.
\<close>

theorem netloc_index_is_fresh:
  "snd (get_netloc_domain_map (foldl catalog_step (db\<lparr>netloc_cache := None\<rparr>) ops)) =
   build_netloc_domain_map (foldl catalog_step (db\<lparr>netloc_cache := None\<rparr>) ops)"
proof -
  have "cache_fresh (foldl catalog_step db' ops)" if "cache_fresh db'" for db'
    using that by (induction ops arbitrary: db') (auto simp: catalog_step_fresh)
  then show ?thesis
    by (simp add: get_netloc_domain_map_fresh cache_fresh_None)
qed

section \<open>A catalog rebuild\<close>

definition catalog_keys :: "nat \<Rightarrow> domain_entry list \<Rightarrow> string list" where
  "catalog_keys i es = map (\<lambda>(j, e). catalog_key j e) (enumerate i es)"

lemma catalog_keys_Cons: "catalog_keys i (e # es) = catalog_key i e # catalog_keys (Suc i) es"
  by (simp add: catalog_keys_def)

lemma dedupe_entries_spec:
  assumes "dedupe_entries i es (order, m) = (order', m')" "distinct order" "set order = dom m"
  shows "distinct order' \<and> set order' = dom m' \<and> m' = m ++ map_of (rev (zip (catalog_keys i es) es))"
  using assms
proof (induction i es "(order, m)" arbitrary: order m rule: dedupe_entries.induct)
  case (1 i order m)
  then show ?case by simp
next
  case (2 i e es order m)
  let ?k = "catalog_key i e"
  let ?order = "if m ?k = None then order @ [?k] else order"
  have "distinct ?order" "set ?order = dom (m(?k \<mapsto> e))"
    using 2(3,4) by auto
  with 2(1) [OF refl] 2(2) have
    "distinct order' \<and> set order' = dom m' \<and> m' = m(?k \<mapsto> e) ++ map_of (rev (zip (catalog_keys (Suc i) es) es))"
    by (simp add: Let_def)
  then show ?case
    by (simp add: catalog_keys_Cons map_of_append map_add_def fun_eq_iff split: option.splits)
qed

lemma dedupe_entries_top:
  assumes "dedupe_entries 0 es ([], Map.empty) = (order, m)"
  shows "distinct order \<and> set order = set (catalog_keys 0 es) \<and> m = map_of (rev (zip (catalog_keys 0 es) es))"
proof -
  have "dom (map_of (rev (zip (catalog_keys 0 es) es))) = set (map fst (zip (catalog_keys 0 es) es))"
    by (simp only: dom_map_of_conv_image_fst set_map set_rev)
  then show ?thesis
    using dedupe_entries_spec [OF assms] by (simp add: catalog_keys_def)
qed

text \<open>
  A catalog rebuild leaves one row per key (external id, else URL, else position), in the order
  the keys first appear and with the content of the last entry of the key, under new ids; it
  reports their number and touches no snapshot and no lead.
\<close>

theorem replace_catalog_last_entry_wins:
  "\<exists>order. distinct order \<and> set order = set (catalog_keys 0 entries) \<and>
     map domain_entry.truncate (rows (domains (fst (replace_catalog entries cats orgs now db)))) =
       map (\<lambda>k. the (map_of (rev (zip (catalog_keys 0 entries) entries)) k)) order \<and>
     map dm_id (rows (domains (fst (replace_catalog entries cats orgs now db)))) =
       [next_id (domains db)..<next_id (domains db) + length order] \<and>
     snd (replace_catalog entries cats orgs now db) = length order \<and>
     snapshots (fst (replace_catalog entries cats orgs now db)) = snapshots db \<and>
     leads (fst (replace_catalog entries cats orgs now db)) = leads db"
proof -
  obtain order m where d: "dedupe_entries 0 entries ([], Map.empty) = (order, m)"
    by fastforce
  have ext: "map domain_entry.truncate (map (\<lambda>(i, a). mk_domain a i) zs) = map fst (map snd zs)"
    "map dm_id (map (\<lambda>(i, a). mk_domain a i) zs) = map fst zs" for zs
    by (simp_all add: mk_domain_def domain_entry.defs split_def)
  have es: "deduped entries = map (\<lambda>k. the (m k)) order"
    by (simp add: deduped_def d)
  have rows: "rows (domains (fst (replace_catalog entries cats orgs now db))) =
      map (\<lambda>(i, a). mk_domain a i) (enumerate (next_id (domains db)) (map (\<lambda>e. (e, now)) (deduped entries)))"
    by (simp add: replace_catalog_def Let_def invalidate_netloc_domain_map_def delete_all_domains_def table_simps)
  have trunc: "map domain_entry.truncate (rows (domains (fst (replace_catalog entries cats orgs now db)))) = deduped entries"
    unfolding rows ext by (simp add: comp_def)
  have ids: "map dm_id (rows (domains (fst (replace_catalog entries cats orgs now db)))) =
      [next_id (domains db)..<next_id (domains db) + length order]"
    unfolding rows ext by (simp add: es)
  have rest: "snd (replace_catalog entries cats orgs now db) = length order"
    "snapshots (fst (replace_catalog entries cats orgs now db)) = snapshots db"
    "leads (fst (replace_catalog entries cats orgs now db)) = leads db"
    by (simp_all add: replace_catalog_def Let_def invalidate_netloc_domain_map_def delete_all_domains_def es)
  show ?thesis
    using dedupe_entries_top [OF d] trunc ids rest es by (intro exI [of _ order]) simp
qed

section \<open>Snapshots are frozen\<close>

definition snapshots_unique :: "crawl_db \<Rightarrow> bool" where
  "snapshots_unique db = distinct (map (\<lambda>s. (sn_job_id s, sn_source_domain_id s)) (rows (snapshots db)))"

lemma find_snapshot_None_iff:
  "find_snapshot j d db = None \<longleftrightarrow>
     (j, Some d) \<notin> (\<lambda>s. (sn_job_id s, sn_source_domain_id s)) ` set (rows (snapshots db))"
  by (auto simp: find_snapshot_def first_where_None_iff)

lemma find_snapshot_SomeD:
  "find_snapshot j d db = Some s \<Longrightarrow> s \<in> set (rows (snapshots db)) \<and> sn_job_id s = j \<and> sn_source_domain_id s = Some d"
  unfolding find_snapshot_def by (drule first_where_SomeD) simp

lemma mk_snapshot_sel [simp]:
  "sn_id (mk_snapshot (d, j, b, now) i) = i" "sn_job_id (mk_snapshot (d, j, b, now) i) = j"
  "sn_source_domain_id (mk_snapshot (d, j, b, now) i) = Some (dm_id d)"
  "sn_is_seed (mk_snapshot (d, j, b, now) i) = b"
  by (simp_all add: mk_snapshot_def domain_entry.defs)

text \<open>
  Whatever other transactions insert meanwhile, creating the snapshot of a domain for an
  existing job returns the one row of that job and domain, keeps every row that was there as it
  was, and changes nothing when the row exists.
\<close>

theorem snapshot_get_or_insert:
  assumes race: "rows (snapshots (race db)) = rows (snapshots db) @ extra"
    and unique: "snapshots_unique (race db)" and job: "job_exists job_id (race db)"
    and run: "create_crawl_snapshot race job_id d is_seed now db = (db', r)"
  shows "\<exists>s extra'. r = Inr (sn_id s) \<and> find_snapshot job_id (dm_id d) db' = Some s \<and>
    snapshots_unique db' \<and> rows (snapshots db') = rows (snapshots db) @ extra' \<and>
    (find_snapshot job_id (dm_id d) db \<noteq> None \<longrightarrow> db' = db)"
proof (cases "find_snapshot job_id (dm_id d) db")
  case (Some s)
  moreover have "snapshots_unique db"
    using unique race by (simp add: snapshots_unique_def)
  ultimately show ?thesis
    using run by (auto simp: create_crawl_snapshot_def)
next
  case None
  show ?thesis
  proof (cases "find_snapshot job_id (dm_id d) (race db)")
    case (Some s)
    with None run have "db' = race db" "r = Inr (sn_id s)"
      by (auto simp: create_crawl_snapshot_def Let_def)
    with Some None race unique show ?thesis by auto
  next
    case free: None
    let ?t = "insert_row (mk_snapshot (d, job_id, is_seed, now)) (snapshots (race db))"
    let ?s = "mk_snapshot (d, job_id, is_seed, now) (next_id (snapshots (race db)))"
    have db': "db' = race db\<lparr>snapshots := fst ?t\<rparr>" "r = Inr (sn_id ?s)"
      using None free run job by (auto simp: create_crawl_snapshot_def Let_def insert_row_def)
    have "find_snapshot job_id (dm_id d) db' = Some ?s"
      using free by (simp add: db' find_snapshot_def first_where_insert_row)
    moreover have "snapshots_unique db'"
      using unique free [unfolded find_snapshot_None_iff]
      by (simp add: db' snapshots_unique_def table_simps)
    ultimately show ?thesis
      using None race by (auto simp: db' table_simps)
  qed
qed

section \<open>Conditional writes of a setting\<close>

text \<open>
  Of two writers of a setting that read the same version, the second is refused once the first
  has changed the row; the row then holds what the first wrote.
\<close>

theorem stale_setting_write_refused:
  assumes read: "get_app_setting k db = Some row"
    and first: "set_app_setting k v u (Some (as_updated_at row)) t db = (db1, ok)"
    and changed: "v \<noteq> as_value row" "t \<noteq> as_updated_at row"
  shows "ok \<and> set_app_setting k v' u' (Some (as_updated_at row)) t' db1 = (db1, False) \<and>
    get_app_setting k db1 = Some (row\<lparr>as_value := v, as_updated_by := u, as_updated_at := t\<rparr>)"
proof -
  let ?f = "\<lambda>r. if as_key r = k then r\<lparr>as_value := v, as_updated_by := u, as_updated_at := t\<rparr> else r"
  have db1: "ok" "settings db1 = map ?f (settings db)"
    using read first changed by (auto simp: set_app_setting_def)
  have "List.find (\<lambda>r. as_key r = k) (map ?f xs) =
      map_option (\<lambda>r. r\<lparr>as_value := v, as_updated_by := u, as_updated_at := t\<rparr>) (List.find (\<lambda>r. as_key r = k) xs)" for xs
    by (induction xs) auto
  from this [of "settings db"] have "get_app_setting k db1 = Some (row\<lparr>as_value := v, as_updated_by := u, as_updated_at := t\<rparr>)"
    using read unfolding get_app_setting_def db1(2) by simp
  with db1(1) changed show ?thesis
    by (simp add: set_app_setting_def)
qed

lemma stale_setting_write_refused_witness:
  "snd (set_app_setting ''p'' EMPTY_POLICY (Some 2) (Some 10) 30
     (fst (set_app_setting ''p'' (EMPTY_POLICY\<lparr>cp_weights := None\<rparr>) (Some 1) (Some 10) 20
        (empty_crawl_db\<lparr>settings := [\<lparr>as_key = ''p'', as_value = EMPTY_POLICY, as_updated_by = None, as_updated_at = 10\<rparr>]\<rparr>)))) = False"
proof -
  let ?row = "\<lparr>as_key = ''p'', as_value = EMPTY_POLICY, as_updated_by = None, as_updated_at = 10\<rparr>"
  let ?db = "empty_crawl_db\<lparr>settings := [?row]\<rparr>"
  have "get_app_setting ''p'' ?db = Some ?row" by (simp add: get_app_setting_def)
  from stale_setting_write_refused [OF this prod.collapse [symmetric], of "EMPTY_POLICY\<lparr>cp_weights := None\<rparr>" 20 "Some 1" EMPTY_POLICY "Some 2" 30]
  show ?thesis by (simp add: EMPTY_POLICY_def)
qed

end
