(* ===== verification/Jobs.thy ===== *)
theory Jobs
  imports Catalog
begin

text \<open>
  Crawl jobs (\<open>JobMixin\<close>): creation with the junction rows, the liveness pulse and the reaper,
  finish, cancel, resume and the binding to one agent. \<open>race\<close> is what other transactions commit
  between the read and the write of an operation that checks before it writes.
\<close>

section \<open>Creation\<close>

definition TERMINAL_STATUSES :: "string set" where
  "TERMINAL_STATUSES = {''done'', ''failed'', ''cancelled''}"

definition zero_metrics :: crawl_metrics where
  "zero_metrics = \<lparr>cm_queued_urls = 0, cm_visited_urls = 0, cm_skipped_urls = 0, cm_leads_found = 0,
     cm_crawled_domains = 0, cm_current_depth = 0, cm_active_workers = 0\<rparr>"

record job_request =
  jq_domain_ids :: "nat list option"
  jq_custom_urls :: "string list option"
  jq_category_filter :: "string option"
  jq_title_filter :: "string option"
  jq_agent_id :: "string option"

definition has_items :: "'a list option \<Rightarrow> bool" where
  "has_items v = (case v of None \<Rightarrow> False | Some xs \<Rightarrow> xs \<noteq> [])"

definition mk_job :: "job_request \<times> nat option \<times> datetime \<Rightarrow> nat \<Rightarrow> crawl_job" where
  "mk_job a i =
     (case a of (rq, owner_id, now) \<Rightarrow>
        let seeds = (if has_items (jq_custom_urls rq) then length (the (jq_custom_urls rq))
                     else length (the_default [] (jq_domain_ids rq)))
        in crawl_metrics.extend zero_metrics
          \<lparr>jb_id = i, jb_category_filter = jq_category_filter rq, jb_title_filter = jq_title_filter rq,
           jb_domain_ids = Some (the_default [] (jq_domain_ids rq)),
           jb_source_type = (if has_items (jq_custom_urls rq) then ''custom_urls'' else ''domains''),
           jb_status = ''pending'', jb_total_domains = seeds, jb_seed_domains = seeds,
           jb_error_message = None, jb_owner_id = owner_id, jb_cancel_requested = False,
           jb_agent_hostname = jq_agent_id rq, jb_last_heartbeat_at = None, jb_created_at = now,
           jb_started_at = None, jb_finished_at = None\<rparr>)"

text \<open>
  The job row is committed before its junction rows: an unknown or repeated domain id raises
  and leaves the pending job behind.
\<close>

definition create_job ::
  "job_request \<Rightarrow> nat option \<Rightarrow> datetime \<Rightarrow> crawl_db \<Rightarrow> crawl_db \<times> (py_exn + nat)" where
  "create_job rq owner_id now db =
     (case insert_row (mk_job (rq, owner_id, now)) (jobs db) of
        (t, i) \<Rightarrow>
          (let db1 = db\<lparr>jobs := t\<rparr>; ids = the_default [] (jq_domain_ids rq) in
           if distinct ids \<and> set ids \<subseteq> dm_id ` set (rows (domains db1))
           then (db1\<lparr>job_domains := job_domains db1 @ map (\<lambda>d. (i, d)) ids\<rparr>, Inr i)
           else (db1, Inl IntegrityError)))"

definition get_job_domain_ids :: "nat \<Rightarrow> crawl_db \<Rightarrow> nat list" where
  "get_job_domain_ids job_id db = map snd (filter (\<lambda>jd. fst jd = job_id) (job_domains db))"

definition mk_custom_url :: "nat \<times> string \<times> datetime \<Rightarrow> nat \<Rightarrow> job_custom_url" where
  "mk_custom_url a i = \<lparr>cu_id = i, cu_job_id = fst a, cu_url = fst (snd a), cu_created_at = snd (snd a)\<rparr>"

definition add_job_custom_urls ::
  "nat \<Rightarrow> string list \<Rightarrow> datetime \<Rightarrow> crawl_db \<Rightarrow> crawl_db \<times> py_exn option" where
  "add_job_custom_urls job_id urls now db =
     (if distinct urls \<and> job_exists job_id db \<and>
         (\<forall>r \<in> set (rows (custom_urls db)). cu_job_id r = job_id \<longrightarrow> cu_url r \<notin> set urls)
      then (db\<lparr>custom_urls := insert_all mk_custom_url (map (\<lambda>u. (job_id, u, now)) urls) (custom_urls db)\<rparr>, None)
      else (db, Some IntegrityError))"

definition get_job_custom_urls :: "nat \<Rightarrow> crawl_db \<Rightarrow> job_custom_url list" where
  "get_job_custom_urls job_id db = sort_key cu_id (select_where (\<lambda>r. cu_job_id r = job_id) (custom_urls db))"

section \<open>Status\<close>

definition update_job :: "nat \<Rightarrow> (crawl_job \<Rightarrow> crawl_job) \<Rightarrow> crawl_db \<Rightarrow> crawl_db" where
  "update_job job_id f db = db\<lparr>jobs := update_where (\<lambda>j. jb_id j = job_id) f (jobs db)\<rparr>"

definition find_job :: "nat \<Rightarrow> crawl_db \<Rightarrow> crawl_job option" where
  "find_job job_id db = first_where (\<lambda>j. jb_id j = job_id) (jobs db)"

definition start_job :: "nat \<Rightarrow> datetime \<Rightarrow> crawl_db \<Rightarrow> crawl_db" where
  "start_job job_id now = update_job job_id (\<lambda>j. j\<lparr>jb_status := ''running'', jb_started_at := Some now\<rparr>)"

definition finish_job ::
  "(crawl_db \<Rightarrow> crawl_db) \<Rightarrow> nat \<Rightarrow> string \<Rightarrow> string option \<Rightarrow> datetime \<Rightarrow> crawl_db \<Rightarrow> crawl_db" where
  "finish_job race job_id status error now db =
     (case find_job job_id db of
        None \<Rightarrow> db
      | Some job \<Rightarrow>
          if jb_status job \<in> TERMINAL_STATUSES then db
          else update_job job_id
            (\<lambda>j. j\<lparr>jb_status := status, jb_finished_at := Some now, jb_error_message := error\<rparr>) (race db))"

definition set_cancel_requested :: "nat \<Rightarrow> crawl_db \<Rightarrow> crawl_db" where
  "set_cancel_requested job_id = update_job job_id (\<lambda>j. j\<lparr>jb_cancel_requested := True\<rparr>)"

definition pulse :: "crawl_metrics \<Rightarrow> datetime \<Rightarrow> bool \<Rightarrow> crawl_job \<Rightarrow> crawl_job" where
  "pulse m now revive j =
     (let j1 = (crawl_metrics.extend m (crawl_metrics.more j))\<lparr>jb_last_heartbeat_at := Some now\<rparr>
      in if revive then j1\<lparr>jb_status := ''running''\<rparr> else j1)"

definition heartbeat ::
  "(crawl_db \<Rightarrow> crawl_db) \<Rightarrow> nat \<Rightarrow> crawl_metrics \<Rightarrow> datetime \<Rightarrow> crawl_db \<Rightarrow> crawl_db \<times> bool" where
  "heartbeat race job_id metrics now db =
     (let revive = (case find_job job_id db of None \<Rightarrow> False | Some j \<Rightarrow> jb_status j = ''interrupted'');
          db1 = update_job job_id (pulse metrics now revive) (race db)
      in (db1, case find_job job_id db1 of None \<Rightarrow> False | Some j \<Rightarrow> jb_cancel_requested j))"

definition stale_job :: "datetime \<Rightarrow> crawl_job \<Rightarrow> bool" where
  "stale_job cutoff j =
     (jb_status j = ''running'' \<and>
      (case jb_last_heartbeat_at j of
         Some t \<Rightarrow> t < cutoff
       | None \<Rightarrow> (case jb_started_at j of Some t \<Rightarrow> t < cutoff | None \<Rightarrow> False)))"

definition reap_stale_jobs ::
  "(crawl_db \<Rightarrow> crawl_db) \<Rightarrow> int \<Rightarrow> datetime \<Rightarrow> crawl_db \<Rightarrow> crawl_db \<times> nat list" where
  "reap_stale_jobs race threshold_seconds now db =
     (let cutoff = now - seconds threshold_seconds;
          ids = map jb_id (select_where (stale_job cutoff) (jobs db));
          db1 = race db
      in (if ids = [] then db1
          else db1\<lparr>jobs := update_where (\<lambda>j. jb_id j \<in> set ids) (\<lambda>j. j\<lparr>jb_status := ''interrupted''\<rparr>) (jobs db1)\<rparr>,
          ids))"

definition resume_job :: "nat \<Rightarrow> crawl_db \<Rightarrow> crawl_db" where
  "resume_job job_id = update_job job_id (\<lambda>j. j\<lparr>jb_status := ''running'', jb_cancel_requested := False\<rparr>)"

definition claim_or_verify_job_agent :: "nat \<Rightarrow> string \<Rightarrow> crawl_db \<Rightarrow> crawl_db \<times> bool" where
  "claim_or_verify_job_agent job_id agent_id db =
     (case find_job job_id db of
        None \<Rightarrow> (db, False)
      | Some job \<Rightarrow>
          (case jb_agent_hostname job of
             None \<Rightarrow> (update_job job_id (\<lambda>j. j\<lparr>jb_agent_hostname := Some agent_id\<rparr>) db, True)
           | Some a \<Rightarrow> (db, a = agent_id)))"

definition mk_manual_job :: "datetime \<Rightarrow> nat \<Rightarrow> crawl_job" where
  "mk_manual_job now i =
     (mk_job (\<lparr>jq_domain_ids = None, jq_custom_urls = None, jq_category_filter = None,
        jq_title_filter = None, jq_agent_id = None\<rparr>, None, now) i)\<lparr>jb_domain_ids := None, jb_status := ''manual_upload''\<rparr>"

definition get_or_create_manual_upload_job :: "datetime \<Rightarrow> crawl_db \<Rightarrow> crawl_db \<times> nat" where
  "get_or_create_manual_upload_job now db =
     (case first_where (\<lambda>j. jb_status j = ''manual_upload'') (jobs db) of
        Some job \<Rightarrow> (db, jb_id job)
      | None \<Rightarrow> (case insert_row (mk_manual_job now) (jobs db) of (t, i) \<Rightarrow> (db\<lparr>jobs := t\<rparr>, i)))"

section \<open>Reading jobs\<close>

definition get_job :: "nat \<Rightarrow> nat option \<Rightarrow> bool \<Rightarrow> crawl_db \<Rightarrow> crawl_job option" where
  "get_job job_id owner_id view_all db =
     first_where (\<lambda>j. jb_id j = job_id \<and> (view_all \<or> jb_owner_id j = owner_id)) (jobs db)"

definition list_jobs :: "nat \<Rightarrow> nat \<Rightarrow> nat option \<Rightarrow> bool \<Rightarrow> crawl_db \<Rightarrow> crawl_job list \<times> nat" where
  "list_jobs limit page owner_id view_all db =
     (let q = select_where (\<lambda>j. view_all \<or> jb_owner_id j = owner_id) (jobs db)
      in (page_slice page limit (sort_key (\<lambda>j. - jb_created_at j) q), length q))"

definition get_running_jobs :: "crawl_db \<Rightarrow> crawl_job list" where
  "get_running_jobs db = sort_key jb_id (select_where (\<lambda>j. jb_status j = ''running'') (jobs db))"

definition get_agent_summary :: "crawl_db \<Rightarrow> (string option \<times> nat \<times> datetime) list" where
  "get_agent_summary db =
     (let js = select_where (\<lambda>j. jb_agent_hostname j \<noteq> None) (jobs db);
          last_at = (\<lambda>a. Max (set (map jb_created_at (filter (\<lambda>j. jb_agent_hostname j = a) js))))
      in sort_key (\<lambda>r. - snd (snd r)) (map (\<lambda>an. (fst an, snd an, last_at (fst an))) (group_count jb_agent_hostname js)))"

section \<open>Lemmas\<close>

lemma metrics_extend_sel [simp]:
  "jb_id (crawl_metrics.extend m (crawl_metrics.more j)) = jb_id j"
  "jb_status (crawl_metrics.extend m (crawl_metrics.more j)) = jb_status j"
  "jb_agent_hostname (crawl_metrics.extend m (crawl_metrics.more j)) = jb_agent_hostname j"
  "jb_error_message (crawl_metrics.extend m (crawl_metrics.more j)) = jb_error_message j"
  "jb_finished_at (crawl_metrics.extend m (crawl_metrics.more j)) = jb_finished_at j"
  "jb_owner_id (crawl_metrics.extend m (crawl_metrics.more j)) = jb_owner_id j"
  "jb_cancel_requested (crawl_metrics.extend m (crawl_metrics.more j)) = jb_cancel_requested j"
  by (cases j; simp add: crawl_metrics.defs)+

lemma pulse_sel [simp]:
  "jb_id (pulse m now b j) = jb_id j" "jb_agent_hostname (pulse m now b j) = jb_agent_hostname j"
  "jb_error_message (pulse m now b j) = jb_error_message j"
  "jb_finished_at (pulse m now b j) = jb_finished_at j"
  "jb_owner_id (pulse m now b j) = jb_owner_id j"
  "jb_cancel_requested (pulse m now b j) = jb_cancel_requested j"
  "jb_status (pulse m now b j) = (if b then ''running'' else jb_status j)"
  by (simp_all add: pulse_def Let_def)

lemma mk_job_sel [simp]:
  "jb_id (mk_job a i) = i" "jb_status (mk_job a i) = ''pending''"
  "jb_owner_id (mk_job (rq, ow, now) i) = ow" "jb_agent_hostname (mk_job (rq, ow, now) i) = jq_agent_id rq"
  "jb_cancel_requested (mk_job (rq, ow, now) i) = False"
  by (simp_all add: mk_job_def crawl_metrics.defs Let_def split: prod.split)

lemma mk_manual_job_id [simp]: "jb_id (mk_manual_job now i) = i"
  by (simp add: mk_manual_job_def)

interpretation job_keys: keyed_rows jb_id mk_job
  by unfold_locales simp

interpretation manual_job_keys: keyed_rows jb_id mk_manual_job
  by unfold_locales simp

interpretation snapshot_keys: keyed_rows sn_id mk_snapshot
  by unfold_locales (auto simp: mk_snapshot_def domain_entry.defs split: prod.split)

lemma find_job_update:
  assumes "\<And>j. jb_id (f j) = jb_id j"
  shows "find_job i (update_job k f db) = map_option (\<lambda>j. if jb_id j = k then f j else j) (find_job i db)"
  using assms by (simp add: find_job_def update_job_def first_where_update_where)

lemma find_job_SomeD: "find_job i db = Some j \<Longrightarrow> j \<in> set (rows (jobs db)) \<and> jb_id j = i"
  unfolding find_job_def by (drule first_where_SomeD) simp

lemma find_job_frame: "jobs db' = jobs db \<Longrightarrow> find_job i db' = find_job i db"
  by (simp add: find_job_def)

lemma find_job_insert:
  "find_job i db = Some j \<Longrightarrow> find_job i (db\<lparr>jobs := fst (insert_row mk (jobs db))\<rparr>) = Some j"
  by (simp add: find_job_def first_where_insert_row)

lemma find_job_reap:
  assumes "job_keys.keys_ok (jobs db)"
  shows "find_job i (fst (reap_stale_jobs id t now db)) =
     map_option (\<lambda>j. if stale_job (now - seconds t) j then j\<lparr>jb_status := ''interrupted''\<rparr> else j) (find_job i db)"
proof -
  let ?ids = "map jb_id (select_where (stale_job (now - seconds t)) (jobs db))"
  have member: "jb_id j \<in> set ?ids \<longleftrightarrow> stale_job (now - seconds t) j" if "find_job i db = Some j" for j
    using find_job_SomeD [OF that] job_keys.keys_ok_unique [OF assms]
    by (auto simp: select_where_def)
  have "find_job i (fst (reap_stale_jobs id t now db)) =
      map_option (\<lambda>j. if jb_id j \<in> set ?ids then j\<lparr>jb_status := ''interrupted''\<rparr> else j) (find_job i db)"
    by (cases "?ids = []")
      (simp_all add: reap_stale_jobs_def Let_def find_job_def first_where_update_where option.map_ident)
  with member show ?thesis
    by (cases "find_job i db") auto
qed

section \<open>Sequences of job operations\<close>

datatype job_op =
  J_create job_request "nat option" datetime
| J_urls nat "string list" datetime
| J_start nat datetime
| J_finish "crawl_db \<Rightarrow> crawl_db" nat string "string option" datetime
| J_heartbeat "crawl_db \<Rightarrow> crawl_db" nat crawl_metrics datetime
| J_reap "crawl_db \<Rightarrow> crawl_db" int datetime
| J_cancel nat
| J_resume nat
| J_claim nat string
| J_manual datetime

fun job_step :: "crawl_db \<Rightarrow> job_op \<Rightarrow> crawl_db" where
  "job_step db (J_create rq ow now) = fst (create_job rq ow now db)"
| "job_step db (J_urls i us now) = fst (add_job_custom_urls i us now db)"
| "job_step db (J_start i now) = start_job i now db"
| "job_step db (J_finish race i st e now) = finish_job race i st e now db"
| "job_step db (J_heartbeat race i m now) = fst (heartbeat race i m now db)"
| "job_step db (J_reap race t now) = fst (reap_stale_jobs race t now db)"
| "job_step db (J_cancel i) = set_cancel_requested i db"
| "job_step db (J_resume i) = resume_job i db"
| "job_step db (J_claim i a) = fst (claim_or_verify_job_agent i a db)"
| "job_step db (J_manual now) = fst (get_or_create_manual_upload_job now db)"

fun restarts :: "nat \<Rightarrow> job_op \<Rightarrow> bool" where
  "restarts i (J_start k now) = (k = i)"
| "restarts i (J_resume k) = (k = i)"
| "restarts i op = False"

text \<open>
  What other transactions commit inside an operation. They respect a job when they keep its owner and
  the agent it is bound to, and they spare a finished one when they also keep its outcome; every
  sequence of operations of the program respects every job and spares the jobs it does not restart.
\<close>

fun interference :: "job_op \<Rightarrow> crawl_db \<Rightarrow> crawl_db" where
  "interference (J_finish race i st e now) = race"
| "interference (J_heartbeat race i m now) = race"
| "interference (J_reap race t now) = race"
| "interference op = id"

definition same_binding :: "crawl_job \<Rightarrow> crawl_job \<Rightarrow> bool" where
  "same_binding j j' =
     (jb_owner_id j' = jb_owner_id j \<and> (jb_agent_hostname j \<noteq> None \<longrightarrow> jb_agent_hostname j' = jb_agent_hostname j))"

definition same_outcome :: "crawl_job \<Rightarrow> crawl_job \<Rightarrow> bool" where
  "same_outcome j j' =
     (jb_status j' = jb_status j \<and> jb_finished_at j' = jb_finished_at j \<and> jb_error_message j' = jb_error_message j)"

definition respects_job :: "nat \<Rightarrow> (crawl_db \<Rightarrow> crawl_db) \<Rightarrow> bool" where
  "respects_job i f =
     (\<forall>d. job_keys.keys_ok (jobs d) \<longrightarrow> job_keys.keys_ok (jobs (f d)) \<and>
        (\<forall>j. find_job i d = Some j \<longrightarrow> (\<exists>j'. find_job i (f d) = Some j' \<and> same_binding j j')))"

definition spares_finished_job :: "nat \<Rightarrow> (crawl_db \<Rightarrow> crawl_db) \<Rightarrow> bool" where
  "spares_finished_job i f =
     (\<forall>d j. job_keys.keys_ok (jobs d) \<and> find_job i d = Some j \<and> jb_status j \<in> TERMINAL_STATUSES \<longrightarrow>
        (\<exists>j'. find_job i (f d) = Some j' \<and> same_outcome j j'))"

lemma respects_id [simp]: "respects_job i id" "spares_finished_job i id"
  by (simp_all add: respects_job_def spares_finished_job_def same_binding_def same_outcome_def)

lemma find_job_create:
  "find_job i db = Some j \<Longrightarrow> find_job i (fst (create_job rq ow now db)) = Some j"
  using find_job_insert [of i db j "mk_job (rq, ow, now)"]
  by (auto simp: create_job_def Let_def insert_row_def find_job_def)

lemma find_job_manual:
  "find_job i db = Some j \<Longrightarrow> find_job i (fst (get_or_create_manual_upload_job now db)) = Some j"
  using find_job_insert [of i db j "mk_manual_job now"]
  by (auto simp: get_or_create_manual_upload_job_def insert_row_def split: option.split)

lemma find_job_urls: "find_job i (fst (add_job_custom_urls k us now db)) = find_job i db"
  by (simp add: add_job_custom_urls_def find_job_def)

lemma find_job_claim:
  assumes "find_job i db = Some j"
  shows "find_job i (fst (claim_or_verify_job_agent k a db)) =
    Some (if jb_id j = k \<and> jb_agent_hostname j = None then j\<lparr>jb_agent_hostname := Some a\<rparr> else j)"
  using assms find_job_SomeD [OF assms]
  by (cases "k = i") (auto simp: claim_or_verify_job_agent_def find_job_update split: option.split)

lemma find_job_heartbeat:
  "find_job i (fst (heartbeat race k m now db)) =
     map_option (\<lambda>j. if jb_id j = k then pulse m now
       (case find_job k db of None \<Rightarrow> False | Some j \<Rightarrow> jb_status j = ''interrupted'') j else j) (find_job i (race db))"
  by (simp add: heartbeat_def Let_def find_job_update)

lemma find_job_finish:
  "find_job i (finish_job race k st e now db) =
     (case find_job k db of
        None \<Rightarrow> find_job i db
      | Some j \<Rightarrow>
          if jb_status j \<in> TERMINAL_STATUSES then find_job i db
          else map_option (\<lambda>j. if jb_id j = k
            then j\<lparr>jb_status := st, jb_finished_at := Some now, jb_error_message := e\<rparr> else j) (find_job i (race db)))"
  by (simp add: finish_job_def find_job_update split: option.split)

lemma find_job_reap_race:
  "find_job i (fst (reap_stale_jobs race t now db)) =
     map_option (\<lambda>j. if jb_id j \<in> jb_id ` set (select_where (stale_job (now - seconds t)) (jobs db))
       then j\<lparr>jb_status := ''interrupted''\<rparr> else j) (find_job i (race db))"
proof -
  let ?ids = "map jb_id (select_where (stale_job (now - seconds t)) (jobs db))"
  show ?thesis
    by (cases "?ids = []")
      (simp_all add: reap_stale_jobs_def Let_def find_job_def first_where_update_where option.map_ident)
qed

lemmas find_job_ops =
  find_job_create find_job_manual find_job_urls find_job_claim find_job_heartbeat find_job_finish find_job_reap_race

lemma job_keys_step:
  assumes ok: "job_keys.keys_ok (jobs db)" and race: "job_keys.keys_ok (jobs (interference op db))"
  shows "job_keys.keys_ok (jobs (job_step db op))"
proof (cases op)
  case (J_create rq ow now)
  from job_keys.keys_ok_insert [OF ok, of "(rq, ow, now)"] J_create show ?thesis
    by (simp add: create_job_def Let_def insert_row_def)
next
  case (J_manual now)
  then show ?thesis
    using ok manual_job_keys.keys_ok_insert [of "jobs db" now]
    by (simp add: get_or_create_manual_upload_job_def insert_row_def split: option.split)
qed (use ok race in \<open>simp_all add: job_keys.keys_ok_update add_job_custom_urls_def start_job_def finish_job_def heartbeat_def
    Let_def reap_stale_jobs_def set_cancel_requested_def resume_job_def claim_or_verify_job_agent_def
    update_job_def split: option.split\<close>)

text \<open>The row of a job after one operation: what a step can change in it.\<close>

lemma job_step_binding:
  assumes "find_job i db = Some j" "job_keys.keys_ok (jobs db)" "respects_job i (interference op)"
  shows "\<exists>j'. find_job i (job_step db op) = Some j' \<and> same_binding j j'"
proof -
  obtain r where r: "find_job i (interference op db) = Some r" "same_binding j r"
    using assms by (auto simp: respects_job_def)
  then show ?thesis
    using assms(1) find_job_SomeD [OF assms(1)]
    by (cases op) (auto simp: same_binding_def find_job_ops find_job_update start_job_def set_cancel_requested_def
        resume_job_def split: option.splits)
qed

lemma job_step_outcome:
  assumes "find_job i db = Some j" "job_keys.keys_ok (jobs db)" "jb_status j \<in> TERMINAL_STATUSES"
    and "spares_finished_job i (interference op)" "\<not> restarts i op"
  shows "\<exists>j'. find_job i (job_step db op) = Some j' \<and> same_outcome j j'"
proof -
  obtain r where r: "find_job i (interference op db) = Some r" "same_outcome j r"
    using assms by (auto simp: spares_finished_job_def)
  have ids: "jb_id j = i" "jb_id r = i"
    using find_job_SomeD [OF assms(1)] find_job_SomeD [OF r(1)] by simp_all
  have fresh: "i \<notin> jb_id ` set (select_where (stale_job c) (jobs db))" for c
  proof
    assume "i \<in> jb_id ` set (select_where (stale_job c) (jobs db))"
    then obtain k where k: "k \<in> set (rows (jobs db))" "jb_id k = i" "stale_job c k"
      by (auto simp: select_where_def)
    then have "k = j"
      using job_keys.keys_ok_unique [OF assms(2)] find_job_SomeD [OF assms(1)] by blast
    with k(3) assms(3) show False by (auto simp: stale_job_def TERMINAL_STATUSES_def)
  qed
  have alive: "jb_status j \<noteq> ''interrupted''" using assms(3) by (auto simp: TERMINAL_STATUSES_def)
  show ?thesis
    using assms(1,3,5) r ids alive
    by (cases op) (auto simp: same_outcome_def find_job_ops find_job_update start_job_def set_cancel_requested_def
        resume_job_def fresh split: option.splits if_splits)
qed

lemma respects_job_step: "respects_job i (interference op) \<Longrightarrow> respects_job i (\<lambda>d. job_step d op)"
  using job_step_binding job_keys_step unfolding respects_job_def by metis

lemma job_run_binding:
  assumes "find_job i db = Some j" "job_keys.keys_ok (jobs db)" "list_all (\<lambda>op. respects_job i (interference op)) ops"
  shows "\<exists>j'. find_job i (foldl job_step db ops) = Some j' \<and> same_binding j j' \<and> job_keys.keys_ok (jobs (foldl job_step db ops))"
  using assms
proof (induction ops arbitrary: db j)
  case Nil
  then show ?case by (simp add: same_binding_def)
next
  case (Cons op ops)
  then have op: "respects_job i (interference op)" by simp
  then have keys: "job_keys.keys_ok (jobs (job_step db op))"
    using job_keys_step Cons.prems(2) by (simp add: respects_job_def)
  obtain j1 where j1: "find_job i (job_step db op) = Some j1" "same_binding j j1"
    using job_step_binding [OF Cons.prems(1,2) op] by blast
  with Cons.IH [OF j1(1) keys] Cons.prems(3) show ?case
    by (auto simp: same_binding_def)
qed

lemma job_run_outcome:
  assumes "find_job i db = Some j" "job_keys.keys_ok (jobs db)" "jb_status j \<in> TERMINAL_STATUSES"
    and "list_all (\<lambda>op. \<not> restarts i op \<and> respects_job i (interference op) \<and> spares_finished_job i (interference op)) ops"
  shows "\<exists>j'. find_job i (foldl job_step db ops) = Some j' \<and> same_outcome j j'"
  using assms
proof (induction ops arbitrary: db j)
  case Nil
  then show ?case by (simp add: same_outcome_def)
next
  case (Cons op ops)
  then have op: "\<not> restarts i op" "respects_job i (interference op)" "spares_finished_job i (interference op)" by simp_all
  then have keys: "job_keys.keys_ok (jobs (job_step db op))"
    using job_keys_step Cons.prems(2) by (simp add: respects_job_def)
  obtain j1 where j1: "find_job i (job_step db op) = Some j1" "same_outcome j j1"
    using job_step_outcome [OF Cons.prems(1-3) op(3,1)] by blast
  with Cons.IH [OF j1(1) keys] Cons.prems(3,4) show ?case
    by (auto simp: same_outcome_def)
qed

text \<open>Other operations of the program are interference that respects every job.\<close>

lemma respects_job_run:
  "list_all (\<lambda>op. respects_job i (interference op)) ops \<Longrightarrow> respects_job i (\<lambda>d. foldl job_step d ops)"
  "list_all (\<lambda>op. \<not> restarts i op \<and> respects_job i (interference op) \<and> spares_finished_job i (interference op)) ops \<Longrightarrow>
     spares_finished_job i (\<lambda>d. foldl job_step d ops)"
proof -
  have keys: "job_keys.keys_ok (jobs (foldl job_step d ops))"
    if "list_all (\<lambda>op. respects_job i (interference op)) ops" "job_keys.keys_ok (jobs d)" for d
    using that by (induction ops arbitrary: d) (auto simp: respects_job_def job_keys_step)
  show "list_all (\<lambda>op. respects_job i (interference op)) ops \<Longrightarrow> respects_job i (\<lambda>d. foldl job_step d ops)"
    using job_run_binding keys unfolding respects_job_def by blast
  show "list_all (\<lambda>op. \<not> restarts i op \<and> respects_job i (interference op) \<and> spares_finished_job i (interference op)) ops \<Longrightarrow>
     spares_finished_job i (\<lambda>d. foldl job_step d ops)"
    using job_run_outcome unfolding spares_finished_job_def by blast
qed

section \<open>Properties\<close>

definition demo_job_db :: crawl_db where
  "demo_job_db = fst (create_job \<lparr>jq_domain_ids = None, jq_custom_urls = Some [''http://a.gov.in''],
     jq_category_filter = None, jq_title_filter = None, jq_agent_id = None\<rparr> (Some 7) 0 empty_crawl_db)"

lemma demo_job_db_keys: "job_keys.keys_ok (jobs demo_job_db)"
  by (simp add: demo_job_db_def job_keys.keys_ok_def create_job_def insert_row_def empty_crawl_db_def Let_def)

definition demo_row :: crawl_job where
  "demo_row = mk_job (\<lparr>jq_domain_ids = None, jq_custom_urls = Some [''http://a.gov.in''],
     jq_category_filter = None, jq_title_filter = None, jq_agent_id = None\<rparr>, Some 7, 0) 1"

lemma demo_job_found: "find_job 1 demo_job_db = Some demo_row"
  by (simp add: demo_job_db_def demo_row_def find_job_def first_where_def create_job_def insert_row_def
      empty_crawl_db_def Let_def)

text \<open>C24.
  A job that is finished when an operation starts stays as it ended. Its status, finish time and
  error are kept by every sequence of operations that does not restart it, late heartbeats, the
  reaper, a second finish, cancel requests and agent claims included, and whatever other transactions
  commit between the statements of an operation, as long as these commits do not restart it either.
  Its owner never changes. A job that finishes between the two statements of the reaper or of a
  heartbeat is not covered: \<open>finished_job_overwritten_by_race\<close>.
\<close>

theorem terminal_job_is_final:
  assumes "find_job i db = Some j" "job_keys.keys_ok (jobs db)" "jb_status j \<in> TERMINAL_STATUSES"
    and "\<forall>op \<in> set ops. \<not> restarts i op \<and> respects_job i (interference op) \<and> spares_finished_job i (interference op)"
  shows "\<exists>j'. find_job i (foldl job_step db ops) = Some j' \<and> jb_status j' = jb_status j \<and>
    jb_finished_at j' = jb_finished_at j \<and> jb_error_message j' = jb_error_message j \<and> jb_owner_id j' = jb_owner_id j"
proof -
  have ops: "list_all (\<lambda>op. respects_job i (interference op)) ops"
    "list_all (\<lambda>op. \<not> restarts i op \<and> respects_job i (interference op) \<and> spares_finished_job i (interference op)) ops"
    using assms(4) by (simp_all add: list_all_iff)
  show ?thesis
    using job_run_binding [OF assms(1,2) ops(1)] job_run_outcome [OF assms(1-3) ops(2)]
    by (auto simp: same_binding_def same_outcome_def)
qed

definition finished_demo_db :: crawl_db where
  "finished_demo_db = finish_job id 1 ''done'' None 5 demo_job_db"

lemma finished_demo_row:
  "find_job 1 finished_demo_db = Some (demo_row\<lparr>jb_status := ''done'', jb_finished_at := Some 5, jb_error_message := None\<rparr>)"
proof -
  have "jb_id demo_row = 1" "jb_status demo_row \<notin> TERMINAL_STATUSES"
    by (simp_all add: demo_row_def TERMINAL_STATUSES_def)
  then show ?thesis
    by (simp add: finished_demo_db_def find_job_finish demo_job_found del: One_nat_def)
qed

lemma finished_demo_keys: "job_keys.keys_ok (jobs finished_demo_db)"
  using job_keys_step [OF demo_job_db_keys, of "J_finish id 1 ''done'' None 5"] demo_job_db_keys
  by (simp add: finished_demo_db_def)

lemma terminal_job_is_final_witness:
  "\<exists>j'. find_job 1 (foldl job_step finished_demo_db
      [J_heartbeat (\<lambda>d. foldl job_step d [J_reap id 1 7, J_cancel 1]) 1 zero_metrics 6, J_reap id 1 9,
       J_finish id 1 ''failed'' (Some ''late'') 10]) = Some j' \<and>
    jb_status j' = ''done'' \<and> jb_finished_at j' = Some 5 \<and> jb_error_message j' = None \<and> jb_owner_id j' = Some 7"
proof -
  have race: "respects_job 1 (\<lambda>d. foldl job_step d [J_reap id 1 7, J_cancel 1])"
    "spares_finished_job 1 (\<lambda>d. foldl job_step d [J_reap id 1 7, J_cancel 1])"
    by (intro respects_job_run; simp)+
  show ?thesis
    using terminal_job_is_final [OF finished_demo_row finished_demo_keys, of
        "[J_heartbeat (\<lambda>d. foldl job_step d [J_reap id 1 7, J_cancel 1]) 1 zero_metrics 6, J_reap id 1 9,
          J_finish id 1 ''failed'' (Some ''late'') 10]"] race
    by (simp add: TERMINAL_STATUSES_def demo_row_def del: foldl_Cons)
qed

text \<open>
  Once a job is bound to an agent it stays bound: after any sequence of operations, restarts
  included, the claim succeeds for that agent and for no other, and changes nothing.
\<close>

theorem job_bound_to_one_agent:
  assumes "find_job i db = Some j" "job_keys.keys_ok (jobs db)" "jb_agent_hostname j = Some a"
    and "list_all (\<lambda>op. respects_job i (interference op)) ops"
  shows "claim_or_verify_job_agent i b (foldl job_step db ops) = (foldl job_step db ops, b = a)"
proof -
  obtain j' where "find_job i (foldl job_step db ops) = Some j'" "jb_agent_hostname j' = Some a"
    using job_run_binding [OF assms(1,2,4)] assms(3) by (auto simp: same_binding_def)
  then show ?thesis
    by (auto simp: claim_or_verify_job_agent_def)
qed

lemma claimed_demo_row:
  "find_job 1 (fst (claim_or_verify_job_agent 1 ''a'' demo_job_db)) = Some (demo_row\<lparr>jb_agent_hostname := Some ''a''\<rparr>)"
  "job_keys.keys_ok (jobs (fst (claim_or_verify_job_agent 1 ''a'' demo_job_db)))"
proof -
  show "find_job 1 (fst (claim_or_verify_job_agent 1 ''a'' demo_job_db)) = Some (demo_row\<lparr>jb_agent_hostname := Some ''a''\<rparr>)"
    unfolding find_job_claim [OF demo_job_found] by (simp add: demo_row_def)
  show "job_keys.keys_ok (jobs (fst (claim_or_verify_job_agent 1 ''a'' demo_job_db)))"
    using job_keys_step [OF demo_job_db_keys, of "J_claim 1 ''a''"] demo_job_db_keys by simp
qed

lemma job_bound_to_one_agent_witness:
  "snd (claim_or_verify_job_agent 1 ''b'' (foldl job_step (fst (claim_or_verify_job_agent 1 ''a'' demo_job_db))
     [J_finish id 1 ''done'' None 5, J_claim 1 ''b'', J_resume 1])) = False"
  using job_bound_to_one_agent [OF claimed_demo_row, of "''a''" "[J_finish id 1 ''done'' None 5, J_claim 1 ''b'', J_resume 1]" "''b''"]
  by simp

text \<open>
  Reaping is not destructive: a running job that was silent too long becomes interrupted and
  nothing else of it changes, and a late heartbeat restores the row it would have had.
\<close>

theorem reaped_job_revived_by_heartbeat:
  assumes "find_job i db = Some j" "job_keys.keys_ok (jobs db)" "stale_job (now - seconds t) j"
  shows "find_job i (fst (reap_stale_jobs id t now db)) = Some (j\<lparr>jb_status := ''interrupted''\<rparr>) \<and>
    i \<in> set (snd (reap_stale_jobs id t now db)) \<and>
    find_job i (fst (heartbeat id i m later (fst (reap_stale_jobs id t now db)))) =
      find_job i (fst (heartbeat id i m later db))"
proof -
  have j: "j \<in> set (rows (jobs db))" "jb_id j = i" "jb_status j = ''running''"
    using find_job_SomeD [OF assms(1)] assms(3) by (simp_all add: stale_job_def)
  have reaped: "find_job i (fst (reap_stale_jobs id t now db)) = Some (j\<lparr>jb_status := ''interrupted''\<rparr>)"
    using assms by (simp add: find_job_reap)
  have "pulse m later True (j\<lparr>jb_status := ''interrupted''\<rparr>) = pulse m later False j"
    using j(3) by (cases j) (simp add: pulse_def crawl_metrics.defs)
  then show ?thesis
    using reaped j assms(1,3) by (auto simp: find_job_heartbeat reap_stale_jobs_def Let_def select_where_def)
qed

lemma reaped_job_revived_by_heartbeat_witness:
  "find_job 1 (fst (reap_stale_jobs id 120 200000000 (start_job 1 5 demo_job_db))) =
     Some (demo_row\<lparr>jb_status := ''interrupted'', jb_started_at := Some 5\<rparr>)"
proof -
  have row: "find_job 1 (start_job 1 5 demo_job_db) = Some (demo_row\<lparr>jb_status := ''running'', jb_started_at := Some 5\<rparr>)"
    unfolding start_job_def using find_job_update [of "\<lambda>j. j\<lparr>jb_status := ''running'', jb_started_at := Some 5\<rparr>" 1 1 demo_job_db]
    by (simp add: demo_job_found del: One_nat_def) (simp add: demo_row_def)
  have keys: "job_keys.keys_ok (jobs (start_job 1 5 demo_job_db))"
    using job_keys_step [OF demo_job_db_keys, of "J_start 1 5"] demo_job_db_keys by simp
  have stale: "stale_job (200000000 - seconds 120) (demo_row\<lparr>jb_status := ''running'', jb_started_at := Some 5\<rparr>)"
    by (simp add: stale_job_def seconds_def demo_row_def mk_job_def crawl_metrics.defs)
  show ?thesis
    using reaped_job_revived_by_heartbeat [OF row keys stale, of zero_metrics 0] by simp
qed

text \<open>
  Creating a job always adds one pending row; the call raises exactly when a requested domain is
  unknown or repeated, and then the pending row is left behind without its junction rows.
\<close>

theorem create_job_outcome:
  "rows (jobs (fst (create_job rq ow now db))) = rows (jobs db) @ [mk_job (rq, ow, now) (next_id (jobs db))] \<and>
   (snd (create_job rq ow now db) = Inr (next_id (jobs db)) \<or> snd (create_job rq ow now db) = Inl IntegrityError) \<and>
   (snd (create_job rq ow now db) = Inl IntegrityError \<longleftrightarrow>
     \<not> (distinct (the_default [] (jq_domain_ids rq)) \<and>
        set (the_default [] (jq_domain_ids rq)) \<subseteq> dm_id ` set (rows (domains db)))) \<and>
   job_domains (fst (create_job rq ow now db)) = job_domains db @
     (if snd (create_job rq ow now db) = Inl IntegrityError then []
      else map (\<lambda>d. (next_id (jobs db), d)) (the_default [] (jq_domain_ids rq)))"
  by (simp add: create_job_def insert_row_def Let_def)

text \<open>
  The reaper and the heartbeat check a status and write it in two statements. When the agent
  finishes the job in between, the reaper turns a finished job into an interrupted one and the
  heartbeat into a running one.
\<close>

theorem finished_job_overwritten_by_race:
  "map_option jb_status (find_job 1 (fst (reap_stale_jobs (finish_job id 1 ''done'' None 300000000) 120 200000000
     (start_job 1 5 demo_job_db)))) = Some ''interrupted'' \<and>
   map_option jb_status (find_job 1 (fst (heartbeat (finish_job id 1 ''done'' None 300000000) 1 zero_metrics 300000001
     (fst (reap_stale_jobs id 120 200000000 (start_job 1 5 demo_job_db)))))) = Some ''running''"
  by code_simp

definition demo_domain :: domain_dict where
  "demo_domain = domain_entry.extend \<lparr>de_category_code = ''sg'', de_category_title = None, de_state = Some ''Goa'',
     de_org_type = None, de_org_type_title = None, de_title = Some ''Org'', de_main_url = Some ''http://a.gov.in'',
     de_contact_url = None, de_external_id = None\<rparr> \<lparr>dm_id = 3\<rparr>"

lemma snapshot_get_or_insert_witness:
  "\<exists>(s::crawl_snapshot) extra. snd (create_crawl_snapshot id 1 demo_domain True 9 demo_job_db) = Inr (sn_id s) \<and>
     rows (snapshots (fst (create_crawl_snapshot id 1 demo_domain True 9 demo_job_db))) = rows (snapshots demo_job_db) @ extra \<and>
     snapshots_unique (fst (create_crawl_snapshot id 1 demo_domain True 9 demo_job_db))"
proof -
  have "snapshots_unique (id demo_job_db)" "job_exists 1 (id demo_job_db)"
    "rows (snapshots (id demo_job_db)) = rows (snapshots demo_job_db) @ []"
    by (simp_all add: demo_job_db_def snapshots_unique_def job_exists_def create_job_def insert_row_def
        empty_crawl_db_def Let_def)
  from snapshot_get_or_insert [where race = id, OF this(3,1,2) prod.collapse [symmetric], of demo_domain True 9]
  show ?thesis by blast
qed

end
