(* ===== verification/Leads.thy ===== *)
theory Leads
  imports Jobs
begin

text \<open>
  The shared lead pool (\<open>LeadMixin\<close>): capture with enrichment and attribution, the manual
  upload, editing, filters, facets and export, and the score recomputation of \<open>Database\<close>.
  \<open>race\<close> is what other transactions commit between the look-up of a lead and the write that
  follows it; \<open>loads\<close> is \<open>json.loads\<close>, None where it raises.
\<close>

section \<open>Capture\<close>

record lead_item =
  li_job_id :: nat
  li_snapshot_id :: "nat option"
  li_email :: "string option"
  li_person_name :: "string option"
  li_designation :: "string option"
  li_department :: "string option"
  li_source_url :: "string option"
  li_source_title :: "string option"
  li_context_snippet :: "string option"
  li_entity_kind :: "string option"
  li_phone :: "string option"
  li_channel_tag :: "string option"
  li_confidence_band :: "string option"
  li_field_provenance :: "string option"
  li_depth :: int

definition UNKNOWN :: string where
  "UNKNOWN = ''Unknown''"

definition UNKNOWN_CODE :: string where
  "UNKNOWN_CODE = ''__unknown__''"

definition band_rank :: "string option \<Rightarrow> int" where
  "band_rank b = (if b = Some ''LOW'' then 0 else if b = Some ''HIGH'' then 1 else -1)"

text \<open>A provenance that parses to anything but an object has no \<open>get\<close>.\<close>

definition department_is_url_fallback :: "(string \<Rightarrow> json option) \<Rightarrow> string option \<Rightarrow> py_exn + bool" where
  "department_is_url_fallback loads field_provenance =
     (if \<not> truthy field_provenance then Inr False
      else
        (case loads (the field_provenance) of
           None \<Rightarrow> Inr False
         | Some (JObj kvs) \<Rightarrow> Inr (map_of kvs ''department'' = Some (JStr ''url_default''))
         | Some _ \<Rightarrow> Inl AttributeError))"

definition lead_fields :: "lead \<Rightarrow> score_fields" where
  "lead_fields l = \<lparr>sf_email = Some (ld_email l), sf_phone = ld_phone l,
     sf_person_name = ld_person_name l, sf_designation = ld_designation l\<rparr>"

definition score_of :: "weights \<Rightarrow> lead \<Rightarrow> int" where
  "score_of w l = compute_lead_score (lead_fields l) (ld_confidence_band l) (ld_channel_tag l) w"

definition rescore :: "weights \<Rightarrow> lead \<Rightarrow> lead" where
  "rescore w l = l\<lparr>ld_lead_score := score_of w l\<rparr>"

definition mk_occurrence :: "nat \<times> nat \<times> string option \<times> nat option \<times> datetime \<Rightarrow> nat \<Rightarrow> lead_occurrence" where
  "mk_occurrence a i =
     (case a of (lead_id, job_id, source_url, captured_by, now) \<Rightarrow>
        \<lparr>lo_id = i, lo_lead_id = lead_id, lo_job_id = job_id, lo_captured_by = captured_by,
         lo_source_url = source_url, lo_captured_at = now\<rparr>)"

definition record_occurrence ::
  "nat \<Rightarrow> nat \<Rightarrow> string option \<Rightarrow> nat option \<Rightarrow> datetime \<Rightarrow> crawl_db \<Rightarrow> crawl_db" where
  "record_occurrence lead_id job_id source_url captured_by now db =
     (if list_ex (\<lambda>x. lo_lead_id x = lead_id \<and> lo_job_id x = job_id) (rows (occurrences db)) \<or> \<not> job_exists job_id db
      then db
      else db\<lparr>occurrences := fst (insert_row (mk_occurrence (lead_id, job_id, source_url, captured_by, now)) (occurrences db))\<rparr>)"

text \<open>Enrichment of a stored lead: fill the blank fields, raise the band, score again if anything changed.\<close>

definition fills :: "string option \<Rightarrow> string option \<Rightarrow> bool" where
  "fills v old = (truthy v \<and> \<not> truthy old)"

definition fill :: "string option \<Rightarrow> string option \<Rightarrow> string option" where
  "fill v old = (if fills v old then v else old)"

definition better_band :: "lead_item \<Rightarrow> lead \<Rightarrow> bool" where
  "better_band it l = (truthy (li_confidence_band it) \<and> band_rank (ld_confidence_band l) < band_rank (li_confidence_band it))"

definition enrich_changes :: "lead_item \<Rightarrow> lead \<Rightarrow> bool" where
  "enrich_changes it l =
     (fills (li_person_name it) (ld_person_name l) \<or> fills (li_designation it) (ld_designation l) \<or>
      fills (li_department it) (ld_department l) \<or> fills (li_source_title it) (ld_source_title l) \<or>
      fills (li_context_snippet it) (ld_context_snippet l) \<or> fills (li_phone it) (ld_phone l) \<or>
      fills (li_entity_kind it) (ld_entity_kind l) \<or> better_band it l)"

definition enrich_lead :: "weights \<Rightarrow> lead_item \<Rightarrow> lead \<Rightarrow> lead" where
  "enrich_lead w it l =
     (let l1 = l\<lparr>ld_person_name := fill (li_person_name it) (ld_person_name l),
                 ld_designation := fill (li_designation it) (ld_designation l),
                 ld_department := fill (li_department it) (ld_department l),
                 ld_source_title := fill (li_source_title it) (ld_source_title l),
                 ld_context_snippet := fill (li_context_snippet it) (ld_context_snippet l),
                 ld_phone := fill (li_phone it) (ld_phone l),
                 ld_entity_kind := fill (li_entity_kind it) (ld_entity_kind l)\<rparr>;
          l2 = (if better_band it l
                then l1\<lparr>ld_confidence_band := li_confidence_band it,
                        ld_field_provenance := py_or (li_field_provenance it) (ld_field_provenance l)\<rparr>
                else l1)
      in if enrich_changes it l then rescore w l2 else l)"

text \<open>
  The session writes back what it has read: an UPDATE of the columns whose value has changed, to the
  values computed from the row as it was read, on the row as it is when the UPDATE runs. No transaction
  of the program deletes a lead, so the row is still there.
\<close>

definition net_change :: "'a \<Rightarrow> 'a \<Rightarrow> 'a \<Rightarrow> 'a" where
  "net_change old new x = (if new \<noteq> old then new else x)"

definition write_columns :: "lead \<Rightarrow> lead \<Rightarrow> lead \<Rightarrow> lead" where
  "write_columns old new l =
     l\<lparr>ld_person_name := net_change (ld_person_name old) (ld_person_name new) (ld_person_name l),
       ld_designation := net_change (ld_designation old) (ld_designation new) (ld_designation l),
       ld_department := net_change (ld_department old) (ld_department new) (ld_department l),
       ld_source_title := net_change (ld_source_title old) (ld_source_title new) (ld_source_title l),
       ld_context_snippet := net_change (ld_context_snippet old) (ld_context_snippet new) (ld_context_snippet l),
       ld_manual_state := net_change (ld_manual_state old) (ld_manual_state new) (ld_manual_state l),
       ld_entity_kind := net_change (ld_entity_kind old) (ld_entity_kind new) (ld_entity_kind l),
       ld_phone := net_change (ld_phone old) (ld_phone new) (ld_phone l),
       ld_confidence_band := net_change (ld_confidence_band old) (ld_confidence_band new) (ld_confidence_band l),
       ld_field_provenance := net_change (ld_field_provenance old) (ld_field_provenance new) (ld_field_provenance l),
       ld_lead_score := net_change (ld_lead_score old) (ld_lead_score new) (ld_lead_score l)\<rparr>"

definition update_leads :: "(lead \<Rightarrow> bool) \<Rightarrow> (lead \<Rightarrow> lead) \<Rightarrow> crawl_db \<Rightarrow> crawl_db" where
  "update_leads p f db = db\<lparr>leads := update_where p f (leads db)\<rparr>"

definition store_lead :: "(crawl_db \<Rightarrow> crawl_db) \<Rightarrow> lead \<Rightarrow> lead \<Rightarrow> crawl_db \<Rightarrow> crawl_db" where
  "store_lead race old new db = update_leads (\<lambda>l. ld_id l = ld_id old) (write_columns old new) (race db)"

definition find_lead_by_email :: "string \<Rightarrow> crawl_db \<Rightarrow> lead option" where
  "find_lead_by_email email db = first_where (\<lambda>l. ld_email l = email) (leads db)"

text \<open>The snapshot of a new lead: the one of the domain its page belongs to, or none.\<close>

definition j_strings :: "json option \<Rightarrow> string list" where
  "j_strings v = (case v of Some (JList xs) \<Rightarrow> [s. JStr s \<leftarrow> xs] | _ \<Rightarrow> [])"

definition policy_suffixes :: "crawl_db \<Rightarrow> string list" where
  "policy_suffixes db =
     (case the_default Map.empty (cp_crawler (get_crawl_policy db)) ''target_suffixes'' of
        None \<Rightarrow> [''.gov.in'', ''.nic.in'']
      | Some v \<Rightarrow> j_strings (Some v))"

definition snapshot_by_id :: "nat \<Rightarrow> crawl_db \<Rightarrow> crawl_snapshot option" where
  "snapshot_by_id i db = first_where (\<lambda>s. sn_id s = i) (snapshots db)"

definition inherited_source_domain :: "nat option \<Rightarrow> crawl_db \<Rightarrow> nat option" where
  "inherited_source_domain snapshot_id db =
     Option.bind (Option.bind snapshot_id (\<lambda>i. snapshot_by_id i db)) sn_source_domain_id"

definition attribute_lead ::
  "lead_item \<Rightarrow> datetime \<Rightarrow> crawl_db \<Rightarrow> crawl_db \<times> (py_exn + nat option)" where
  "attribute_lead it now db =
     (let (db1, index) = get_netloc_domain_map db in
      case resolve_domain_for_url (li_source_url it) index (policy_suffixes db1) of
        None \<Rightarrow> (db1, Inr None)
      | Some d \<Rightarrow>
          if inherited_source_domain (li_snapshot_id it) db1 \<noteq> Some (dm_id d)
          then (case create_crawl_snapshot id (li_job_id it) d False now db1 of
                  (db2, Inl x) \<Rightarrow> (db2, Inl x)
                | (db2, Inr i) \<Rightarrow> (db2, Inr (Some i)))
          else (db1, Inr (li_snapshot_id it)))"

definition mk_lead :: "weights \<Rightarrow> lead_item \<times> nat option \<times> string option \<times> datetime \<Rightarrow> nat \<Rightarrow> lead" where
  "mk_lead w a i =
     (case a of (it, snapshot_id, department, now) \<Rightarrow>
        rescore w
          \<lparr>ld_id = i, ld_job_id = li_job_id it, ld_snapshot_id = snapshot_id,
           ld_email = py_lower (the_default [] (li_email it)), ld_person_name = li_person_name it,
           ld_designation = li_designation it, ld_department = department, ld_source_url = li_source_url it,
           ld_source_title = li_source_title it, ld_context_snippet = li_context_snippet it,
           ld_manual_state = None, ld_entity_kind = li_entity_kind it, ld_phone = li_phone it,
           ld_channel_tag = li_channel_tag it, ld_confidence_band = li_confidence_band it,
           ld_field_provenance = li_field_provenance it, ld_lead_score = 0, ld_depth = li_depth it,
           ld_captured_at = now\<rparr>)"

text \<open>
  Where the database may fail with anything but a violated constraint (a lost connection, a locked
  file, a character the column does not take), and what other transactions commit before the write.
\<close>

datatype save_point = At_query | At_attribution | At_write | At_occurrence

type_synonym save_env = "save_point option \<times> (crawl_db \<Rightarrow> crawl_db)"

definition calm :: save_env where
  "calm = (None, id)"

text \<open>The insert, refused by the unique email or the foreign key to the job.\<close>

definition insert_lead ::
  "save_point option \<Rightarrow> weights \<Rightarrow> lead_item \<Rightarrow> nat option \<Rightarrow> string option \<Rightarrow> nat option \<Rightarrow> datetime \<Rightarrow>
   crawl_db \<Rightarrow> crawl_db \<times> (py_exn + bool)" where
  "insert_lead fault w it snapshot_id department captured_by now db =
     (if fault = Some At_write then (db, Inl OperationalError)
      else if find_lead_by_email (py_lower (the_default [] (li_email it))) db \<noteq> None \<or> \<not> job_exists (li_job_id it) db
      then (db, Inr False)
      else
        (case insert_row (mk_lead w (it, snapshot_id, department, now)) (leads db) of
           (t, i) \<Rightarrow>
             if fault = Some At_occurrence then (db\<lparr>leads := t\<rparr>, Inl OperationalError)
             else (record_occurrence i (li_job_id it) (li_source_url it) captured_by now (db\<lparr>leads := t\<rparr>), Inr True)))"

definition lead_department ::
  "(string \<Rightarrow> json option) \<Rightarrow> lead_item \<Rightarrow> nat option \<Rightarrow> crawl_db \<Rightarrow> py_exn + string option" where
  "lead_department loads it snapshot_id db =
     (case snapshot_id of
        None \<Rightarrow> Inr (li_department it)
      | Some i \<Rightarrow>
          (case department_is_url_fallback loads (li_field_provenance it) of
             Inl x \<Rightarrow> Inl x
           | Inr False \<Rightarrow> Inr (li_department it)
           | Inr True \<Rightarrow> Inr (py_or (Option.bind (snapshot_by_id i db) de_title) (li_department it))))"

definition save_lead ::
  "save_env \<Rightarrow> (string \<Rightarrow> json option) \<Rightarrow> lead_item \<Rightarrow> nat option \<Rightarrow> datetime \<Rightarrow>
   crawl_db \<Rightarrow> crawl_db \<times> (py_exn + bool)" where
  "save_lead env loads it captured_by now db =
     (let (fault, race) = env in
      if \<not> truthy (li_email it) then (db, Inr False)
      else if fault = Some At_query then (db, Inl OperationalError)
      else
        (case find_lead_by_email (py_lower (the (li_email it))) db of
           Some existing \<Rightarrow>
             if enrich_changes it existing \<and> fault = Some At_write then (race db, Inl OperationalError)
             else
               (let db1 = store_lead race existing (enrich_lead (lead_score_weights db) it existing) db in
                if fault = Some At_occurrence then (db1, Inl OperationalError)
                else (record_occurrence (ld_id existing) (li_job_id it) (li_source_url it) captured_by now db1, Inr True))
         | None \<Rightarrow>
             if fault = Some At_attribution then (db, Inl OperationalError)
             else
               (case attribute_lead it now db of
                  (db1, Inl x) \<Rightarrow> (db1, Inl x)
                | (db1, Inr snapshot_id) \<Rightarrow>
                    (case lead_department loads it snapshot_id db1 of
                       Inl x \<Rightarrow> (db1, Inl x)
                     | Inr department \<Rightarrow>
                         insert_lead fault (lead_score_weights db1) it snapshot_id department captured_by now (race db1)))))"

text \<open>
  An item of a batch is None when its keys do not fit the signature of \<open>save_lead\<close>; that and
  every exception count as not accepted. \<open>env n\<close> is the environment of the item that \<open>n\<close> others follow.
\<close>

fun bulk_save_leads ::
  "(nat \<Rightarrow> save_env) \<Rightarrow> (string \<Rightarrow> json option) \<Rightarrow> lead_item option list \<Rightarrow> nat option \<Rightarrow> datetime \<Rightarrow>
   crawl_db \<Rightarrow> crawl_db \<times> bool list" where
  "bulk_save_leads env loads [] captured_by now db = (db, [])"
| "bulk_save_leads env loads (item # items) captured_by now db =
     (let (db1, ok) =
            (case item of
               None \<Rightarrow> (db, False)
             | Some it \<Rightarrow> (case save_lead (env (length items)) loads it captured_by now db of
                             (db1, r) \<Rightarrow> (db1, case r of Inl _ \<Rightarrow> False | Inr b \<Rightarrow> b)));
          (db2, rs) = bulk_save_leads env loads items captured_by now db1
      in (db2, ok # rs))"

section \<open>Filters and reads\<close>

record lead_filter =
  lf_job_ids :: "nat list"
  lf_categories :: "string list"
  lf_states :: "string list"
  lf_search :: "string option"
  lf_complete_only :: bool
  lf_min_score :: "int option"
  lf_org_types :: "string list"
  lf_entry_type :: string
  lf_require_name :: bool
  lf_require_designation :: bool
  lf_require_phone :: bool

definition is_manual :: "lead \<Rightarrow> bool" where
  "is_manual l = (ld_channel_tag l = Some ''manual'')"

definition unattributed :: "lead \<Rightarrow> bool" where
  "unattributed l = (ld_snapshot_id l = None \<and> \<not> is_manual l)"

definition col_in :: "string option \<Rightarrow> string list \<Rightarrow> bool" where
  "col_in column vs = (case column of None \<Rightarrow> False | Some v \<Rightarrow> v \<in> set vs)"

text \<open>A lead beside its snapshot row, the outer join of every lead query.\<close>

definition lead_snapshot :: "crawl_db \<Rightarrow> lead \<Rightarrow> crawl_snapshot option" where
  "lead_snapshot db l = Option.bind (ld_snapshot_id l) (\<lambda>i. snapshot_by_id i db)"

definition lead_matches :: "lead_filter \<Rightarrow> lead \<Rightarrow> crawl_snapshot option \<Rightarrow> bool" where
  "lead_matches f l s =
     ((lf_job_ids f \<noteq> [] \<longrightarrow> ld_job_id l \<in> set (lf_job_ids f)) \<and>
      (if lf_entry_type f = ''manual'' then is_manual l
       else lf_entry_type f = ''extracted'' \<longrightarrow> \<not> is_manual l) \<and>
      (lf_categories f \<noteq> [] \<longrightarrow>
         is_manual l \<or> col_in (map_option de_category_code s) (lf_categories f) \<or>
         UNKNOWN_CODE \<in> set (lf_categories f) \<and> unattributed l) \<and>
      (lf_states f \<noteq> [] \<longrightarrow>
         is_manual l \<or> col_in (Option.bind s de_state) (lf_states f) \<or> col_in (ld_manual_state l) (lf_states f) \<or>
         UNKNOWN \<in> set (lf_states f) \<and> unattributed l) \<and>
      (lf_org_types f \<noteq> [] \<longrightarrow>
         is_manual l \<or> col_in (Option.bind s de_org_type) (lf_org_types f) \<or>
         UNKNOWN_CODE \<in> set (lf_org_types f) \<and> unattributed l) \<and>
      (truthy (lf_search f) \<longrightarrow>
         (let q = the (lf_search f) in
          ilike_contains (Some (ld_email l)) q \<or> ilike_contains (ld_person_name l) q \<or>
          ilike_contains (ld_department l) q \<or> ilike_contains (ld_designation l) q)) \<and>
      (lf_complete_only f \<longrightarrow> truthy (ld_person_name l) \<and> truthy (ld_designation l) \<and> truthy (ld_department l)) \<and>
      (lf_require_name f \<longrightarrow> truthy (ld_person_name l)) \<and>
      (lf_require_designation f \<longrightarrow> truthy (ld_designation l)) \<and>
      (lf_require_phone f \<longrightarrow> truthy (ld_phone l)) \<and>
      (case lf_min_score f of None \<Rightarrow> True | Some n \<Rightarrow> is_manual l \<or> n \<le> ld_lead_score l))"

definition lead_sort_key :: "string option \<Rightarrow> string \<Rightarrow> lead \<Rightarrow> int \<times> int" where
  "lead_sort_key sort_by sort_dir l =
     (let flag = (\<lambda>b. if b then 1 else (0::int));
          column = (if sort_by = Some ''score'' then Some (ld_lead_score l)
                    else if sort_by = Some ''contact'' then Some (flag (truthy (ld_phone l)))
                    else if sort_by = Some ''name'' then Some (flag (truthy (ld_person_name l)))
                    else None)
      in (case column of None \<Rightarrow> 0 | Some c \<Rightarrow> if sort_dir = ''asc'' then c else - c, - ld_captured_at l))"

record lead_view =
  lv_lead :: lead
  lv_domain_title :: "string option"
  lv_category_code :: "string option"
  lv_domain_state :: "string option"
  lv_domain_org_type :: "string option"
  lv_is_manual :: bool

definition shown_state :: "lead \<Rightarrow> crawl_snapshot option \<Rightarrow> string option" where
  "shown_state l s = (if is_manual l then ld_manual_state l else py_or (Option.bind s de_state) (Some UNKNOWN))"

definition view_lead :: "crawl_db \<Rightarrow> lead \<Rightarrow> lead_view" where
  "view_lead db l =
     (let s = lead_snapshot db l in
      \<lparr>lv_lead = l, lv_domain_title = Option.bind s de_title, lv_category_code = map_option de_category_code s,
       lv_domain_state = shown_state l s, lv_domain_org_type = Option.bind s de_org_type_title,
       lv_is_manual = is_manual l\<rparr>)"

definition filtered_leads :: "lead_filter \<Rightarrow> crawl_db \<Rightarrow> lead list" where
  "filtered_leads f db = select_where (\<lambda>l. lead_matches f l (lead_snapshot db l)) (leads db)"

definition get_leads ::
  "lead_filter \<Rightarrow> nat \<Rightarrow> nat \<Rightarrow> string option \<Rightarrow> string \<Rightarrow> crawl_db \<Rightarrow> lead_view list \<times> nat" where
  "get_leads f page limit sort_by sort_dir db =
     (let q = filtered_leads f db
      in (map (view_lead db) (page_slice page limit (sort_key (lead_sort_key sort_by sort_dir) q)), length q))"

definition get_lead_ids :: "lead_filter \<Rightarrow> crawl_db \<Rightarrow> nat list" where
  "get_lead_ids f db = map ld_id (filtered_leads f db)"

definition build_export_query :: "lead_filter \<Rightarrow> nat list \<Rightarrow> crawl_db \<Rightarrow> lead list" where
  "build_export_query f lead_ids db =
     sort_key (\<lambda>l. (let d = Option.bind (lead_snapshot db l) sn_source_domain_id
                    in (d = None, the_default 0 d, ld_captured_at l)))
       (if lead_ids \<noteq> [] then select_where (\<lambda>l. ld_id l \<in> set lead_ids) (leads db) else filtered_leads f db)"

record export_row =
  ex_email :: string
  ex_person_name :: string
  ex_designation :: string
  ex_department :: string
  ex_domain_title :: string
  ex_domain_state :: string
  ex_domain_org_type :: string
  ex_category_title :: string
  ex_source_url :: string
  ex_source_title :: string
  ex_context_snippet :: string
  ex_confidence_band :: string
  ex_field_provenance :: string
  ex_phone :: string
  ex_lead_score :: int
  ex_depth :: int
  ex_captured_at :: datetime

definition export_row_dict :: "crawl_db \<Rightarrow> lead \<Rightarrow> export_row" where
  "export_row_dict db l =
     (let s = lead_snapshot db l; blank = the_default []
      in \<lparr>ex_email = ld_email l, ex_person_name = blank (ld_person_name l),
          ex_designation = blank (ld_designation l), ex_department = blank (ld_department l),
          ex_domain_title = blank (Option.bind s de_title), ex_domain_state = blank (shown_state l s),
          ex_domain_org_type = blank (Option.bind s de_org_type_title),
          ex_category_title = blank (py_or (Option.bind s de_category_title) (map_option de_category_code s)),
          ex_source_url = blank (ld_source_url l), ex_source_title = blank (ld_source_title l),
          ex_context_snippet = blank (ld_context_snippet l), ex_confidence_band = blank (ld_confidence_band l),
          ex_field_provenance = blank (ld_field_provenance l), ex_phone = blank (ld_phone l),
          ex_lead_score = ld_lead_score l, ex_depth = ld_depth l, ex_captured_at = ld_captured_at l\<rparr>)"

definition get_all_leads_for_export :: "lead_filter \<Rightarrow> nat list \<Rightarrow> crawl_db \<Rightarrow> export_row list" where
  "get_all_leads_for_export f lead_ids db = map (export_row_dict db) (build_export_query f lead_ids db)"

section \<open>Facets\<close>

definition in_jobs :: "nat list \<Rightarrow> lead \<Rightarrow> bool" where
  "in_jobs job_ids l = (job_ids \<noteq> [] \<longrightarrow> ld_job_id l \<in> set job_ids)"

definition unattributed_count :: "nat list \<Rightarrow> crawl_db \<Rightarrow> nat" where
  "unattributed_count job_ids db = count_where (\<lambda>l. unattributed l \<and> in_jobs job_ids l) (leads db)"

definition joined_snapshots :: "nat list \<Rightarrow> crawl_db \<Rightarrow> crawl_snapshot list" where
  "joined_snapshots job_ids db = List.map_filter (lead_snapshot db) (select_where (in_jobs job_ids) (leads db))"

definition unknown_facet :: "nat list \<Rightarrow> crawl_db \<Rightarrow> facet list" where
  "unknown_facet job_ids db =
     (let n = unattributed_count job_ids db in
      if n \<noteq> 0 then [\<lparr>fc_code = Some UNKNOWN_CODE, fc_title = Some UNKNOWN, fc_count = n\<rparr>] else [])"

definition get_lead_categories :: "nat list \<Rightarrow> crawl_db \<Rightarrow> facet list" where
  "get_lead_categories job_ids db =
     map facet_of (group_count (\<lambda>s. (Some (de_category_code s), de_category_title s)) (joined_snapshots job_ids db)) @
     unknown_facet job_ids db"

definition get_lead_org_types :: "nat list \<Rightarrow> crawl_db \<Rightarrow> facet list" where
  "get_lead_org_types job_ids db =
     map facet_of (group_count (\<lambda>s. (de_org_type s, de_org_type_title s))
       (filter (\<lambda>s. de_org_type s \<noteq> None) (joined_snapshots job_ids db))) @
     unknown_facet job_ids db"

definition get_lead_states :: "nat list \<Rightarrow> string list \<Rightarrow> crawl_db \<Rightarrow> string list" where
  "get_lead_states job_ids cats db =
     (let from_snapshots = List.map_filter de_state
            (filter (\<lambda>s. cats \<noteq> [] \<longrightarrow> de_category_code s \<in> set cats) (joined_snapshots job_ids db));
          manual = List.map_filter ld_manual_state (select_where (in_jobs job_ids) (leads db));
          unknown = (if unattributed_count job_ids db \<noteq> 0 then [UNKNOWN] else [])
      in sort (remdups (filter (\<lambda>s. s \<noteq> []) (from_snapshots @ manual) @ unknown)))"

section \<open>Manual leads, edits and scores\<close>

record contact_row =
  cr_row :: nat
  cr_email :: string
  cr_name :: "string option"
  cr_designation :: "string option"
  cr_department :: "string option"
  cr_phone :: "string option"

record skipped_row =
  sk_row :: nat
  sk_email :: "string option"
  sk_reason :: string

record upsert_result =
  ur_imported :: nat
  ur_updated :: nat
  ur_skipped :: "skipped_row list"

definition manual_update :: "weights \<Rightarrow> contact_row \<Rightarrow> lead \<Rightarrow> lead" where
  "manual_update w r l =
     rescore w (l\<lparr>ld_person_name := py_or (cr_name r) (ld_person_name l),
                  ld_designation := py_or (cr_designation r) (ld_designation l),
                  ld_department := py_or (cr_department r) (ld_department l),
                  ld_phone := py_or (cr_phone r) (ld_phone l)\<rparr>)"

definition mk_manual_lead :: "weights \<Rightarrow> nat \<times> contact_row \<times> datetime \<Rightarrow> nat \<Rightarrow> lead" where
  "mk_manual_lead w a i =
     (case a of (job_id, r, now) \<Rightarrow>
        rescore w
          \<lparr>ld_id = i, ld_job_id = job_id, ld_snapshot_id = None, ld_email = cr_email r, ld_person_name = cr_name r,
           ld_designation = cr_designation r, ld_department = cr_department r,
           ld_source_url = Some ''manual-csv-upload'', ld_source_title = None, ld_context_snippet = None,
           ld_manual_state = None, ld_entity_kind = None, ld_phone = cr_phone r, ld_channel_tag = Some ''manual'',
           ld_confidence_band = None, ld_field_provenance = None, ld_lead_score = 0, ld_depth = 0,
           ld_captured_at = now\<rparr>)"

definition upsert_manual_row ::
  "(crawl_db \<Rightarrow> crawl_db) \<Rightarrow> nat \<Rightarrow> nat option \<Rightarrow> datetime \<Rightarrow> crawl_db \<times> upsert_result \<Rightarrow> contact_row \<Rightarrow>
   crawl_db \<times> upsert_result" where
  "upsert_manual_row race job_id captured_by now st r =
     (let (db, res) = st;
          occur = (\<lambda>i. record_occurrence i job_id (Some ''manual-csv-upload'') captured_by now);
          skip = (\<lambda>reason. res\<lparr>ur_skipped := ur_skipped res @
                    [\<lparr>sk_row = cr_row r, sk_email = Some (cr_email r), sk_reason = reason\<rparr>]\<rparr>)
      in case find_lead_by_email (cr_email r) db of
           Some existing \<Rightarrow>
             if is_manual existing
             then (occur (ld_id existing)
                     (store_lead race existing (manual_update (lead_score_weights db) r existing) db),
                   res\<lparr>ur_updated := ur_updated res + 1\<rparr>)
             else (occur (ld_id existing) db, skip ''email already exists as a crawled lead'')
         | None \<Rightarrow>
             (let db1 = race db in
              if find_lead_by_email (cr_email r) db1 \<noteq> None \<or> \<not> job_exists job_id db1
              then (db1, skip ''email inserted concurrently by another job'')
              else
                (case insert_row (mk_manual_lead (lead_score_weights db) (job_id, r, now)) (leads db1) of
                   (t, i) \<Rightarrow> (occur i (db1\<lparr>leads := t\<rparr>), res\<lparr>ur_imported := ur_imported res + 1\<rparr>))))"

definition bulk_upsert_manual_leads ::
  "(crawl_db \<Rightarrow> crawl_db) \<Rightarrow> nat \<Rightarrow> contact_row list \<Rightarrow> nat option \<Rightarrow> datetime \<Rightarrow> crawl_db \<Rightarrow> crawl_db \<times> upsert_result" where
  "bulk_upsert_manual_leads race job_id rs captured_by now db =
     foldl (upsert_manual_row race job_id captured_by now) (db, \<lparr>ur_imported = 0, ur_updated = 0, ur_skipped = []\<rparr>) rs"

definition LEAD_EDITABLE :: "string set" where
  "LEAD_EDITABLE = {''person_name'', ''designation'', ''department'', ''manual_state''}"

definition set_lead_field :: "string \<times> string option \<Rightarrow> lead \<Rightarrow> lead" where
  "set_lead_field kv l =
     (if fst kv = ''person_name'' then l\<lparr>ld_person_name := snd kv\<rparr>
      else if fst kv = ''designation'' then l\<lparr>ld_designation := snd kv\<rparr>
      else if fst kv = ''department'' then l\<lparr>ld_department := snd kv\<rparr>
      else if fst kv = ''manual_state'' then l\<lparr>ld_manual_state := snd kv\<rparr>
      else l)"

definition safe_updates :: "(string \<times> string) list \<Rightarrow> (string \<times> string option) list" where
  "safe_updates updates =
     map (\<lambda>kv. (fst kv, if py_strip (snd kv) \<noteq> [] then Some (py_strip (snd kv)) else None))
       (filter (\<lambda>kv. fst kv \<in> LEAD_EDITABLE) updates)"

datatype update_result = Updated | No_such_lead | Not_manual

definition update_lead :: "(crawl_db \<Rightarrow> crawl_db) \<Rightarrow> nat \<Rightarrow> (string \<times> string) list \<Rightarrow> crawl_db \<Rightarrow> crawl_db \<times> update_result" where
  "update_lead race lead_id updates db =
     (let safe = safe_updates updates in
      if safe = [] then (db, No_such_lead)
      else
        (case first_where (\<lambda>l. ld_id l = lead_id) (leads db) of
           None \<Rightarrow> (db, No_such_lead)
         | Some l \<Rightarrow>
             if ''manual_state'' \<in> set (map fst safe) \<and> \<not> is_manual l then (db, Not_manual)
             else (store_lead race l (rescore (lead_score_weights db) (fold set_lead_field safe l)) db, Updated)))"

text \<open>All rows are read first; then the score of each is computed and written by its key.\<close>

definition recompute_lead_scores :: "(crawl_db \<Rightarrow> crawl_db) \<Rightarrow> crawl_db \<Rightarrow> crawl_db" where
  "recompute_lead_scores race db =
     (let db1 = race db; w = lead_score_weights db1 in
      update_leads (\<lambda>_. True)
        (\<lambda>l. case first_where (\<lambda>r. ld_id r = ld_id l) (leads db) of
               None \<Rightarrow> l
             | Some r \<Rightarrow> l\<lparr>ld_lead_score := score_of w r\<rparr>) db1)"

end
