(* ===== verification/LeadPool.thy ===== *)
theory LeadPool
  imports Leads
begin

text \<open>
  What the lead pool guarantees: one row per email and one occurrence per lead and job under every
  interference, scores that match the fields unless another transaction rewrites the lead between a
  read and its write, enrichment that loses no value it has read, attribution to the domain of the page, batch items that cannot harm each other, and
  facets that count every lead once.
\<close>

section \<open>Frames\<close>

lemma rescore_sel [simp]:
  "ld_id (rescore w l) = ld_id l" "ld_email (rescore w l) = ld_email l"
  "ld_channel_tag (rescore w l) = ld_channel_tag l" "ld_snapshot_id (rescore w l) = ld_snapshot_id l"
  "ld_lead_score (rescore w l) = score_of w l" "score_of w (rescore w l) = score_of w l"
  "ld_person_name (rescore w l) = ld_person_name l" "ld_designation (rescore w l) = ld_designation l"
  "ld_department (rescore w l) = ld_department l" "ld_phone (rescore w l) = ld_phone l"
  "ld_confidence_band (rescore w l) = ld_confidence_band l"
  by (simp_all add: rescore_def score_of_def lead_fields_def)

lemma mk_lead_sel [simp]:
  "ld_id (mk_lead w a i) = i"
  "ld_email (mk_lead w (it, sn, dp, now) i) = py_lower (the_default [] (li_email it))"
  "ld_snapshot_id (mk_lead w (it, sn, dp, now) i) = sn"
  "ld_lead_score (mk_lead w a i) = score_of w (mk_lead w a i)"
  by (auto simp: mk_lead_def split: prod.split)

lemma mk_manual_lead_sel [simp]:
  "ld_id (mk_manual_lead w a i) = i"
  "ld_email (mk_manual_lead w (job_id, r, now) i) = cr_email r"
  "ld_lead_score (mk_manual_lead w a i) = score_of w (mk_manual_lead w a i)"
  by (auto simp: mk_manual_lead_def split: prod.split)

interpretation lead_keys: keyed_rows ld_id "mk_lead w"
  by unfold_locales simp

interpretation manual_lead_keys: keyed_rows ld_id "mk_manual_lead w"
  by unfold_locales simp

lemma weights_frame: "settings db' = settings db \<Longrightarrow> lead_score_weights db' = lead_score_weights db"
  by (simp add: lead_score_weights_def get_crawl_policy_def get_app_setting_def)

lemma record_occurrence_frame [simp]:
  "leads (record_occurrence i j u c now db) = leads db" "settings (record_occurrence i j u c now db) = settings db"
  "jobs (record_occurrence i j u c now db) = jobs db" "snapshots (record_occurrence i j u c now db) = snapshots db"
  by (simp_all add: record_occurrence_def)

lemma update_leads_frame [simp]:
  "settings (update_leads p f db) = settings db" "jobs (update_leads p f db) = jobs db"
  "occurrences (update_leads p f db) = occurrences db" "snapshots (update_leads p f db) = snapshots db"
  "rows (leads (update_leads p f db)) = map (\<lambda>l. if p l then f l else l) (rows (leads db))"
  by (simp_all add: update_leads_def table_simps)

lemma attribute_lead_frame:
  assumes "attribute_lead it now db = (db', r)"
  shows "leads db' = leads db" "settings db' = settings db" "occurrences db' = occurrences db" "jobs db' = jobs db"
proof -
  obtain db1 m where m: "get_netloc_domain_map db = (db1, m)" by fastforce
  then have f1: "leads db1 = leads db" "settings db1 = settings db" "occurrences db1 = occurrences db" "jobs db1 = jobs db"
    by (auto simp: get_netloc_domain_map_def Let_def split: option.splits)
  have "leads db' = leads db1 \<and> settings db' = settings db1 \<and> occurrences db' = occurrences db1 \<and> jobs db' = jobs db1"
    using assms m create_crawl_snapshot_frame(3-6)
    by (auto simp: attribute_lead_def split: option.splits if_splits prod.splits sum.splits)
  with f1 show "leads db' = leads db" "settings db' = settings db" "occurrences db' = occurrences db" "jobs db' = jobs db"
    by simp_all
qed

section \<open>The invariant of the pool\<close>

definition pool_unique :: "crawl_db \<Rightarrow> bool" where
  "pool_unique db =
     (lead_keys.keys_ok (leads db) \<and> distinct (map ld_email (rows (leads db))) \<and>
      distinct (map (\<lambda>x. (lo_lead_id x, lo_job_id x)) (rows (occurrences db))))"

definition scores_ok :: "weights \<Rightarrow> crawl_db \<Rightarrow> bool" where
  "scores_ok w db = (lead_score_weights db = w \<and> (\<forall>l \<in> set (rows (leads db)). ld_lead_score l = score_of w l))"

definition lead_pool_ok :: "weights \<Rightarrow> crawl_db \<Rightarrow> bool" where
  "lead_pool_ok w db = (pool_unique db \<and> scores_ok w db)"

lemma pool_frame:
  assumes "leads db' = leads db"
  shows "occurrences db' = occurrences db \<Longrightarrow> pool_unique db' \<longleftrightarrow> pool_unique db"
    and "settings db' = settings db \<Longrightarrow> scores_ok w db' \<longleftrightarrow> scores_ok w db"
  using assms weights_frame [of db' db] by (simp_all add: pool_unique_def scores_ok_def)

lemma occurrence_unique: "pool_unique db \<Longrightarrow> pool_unique (record_occurrence i j u c now db)"
  by (auto simp: pool_unique_def record_occurrence_def table_simps mk_occurrence_def list_ex_iff)

lemma occurrence_scores: "scores_ok w (record_occurrence i j u c now db) \<longleftrightarrow> scores_ok w db"
  by (rule pool_frame(2)) simp_all

lemma update_leads_unique:
  assumes "pool_unique db" and keep: "\<And>l. ld_id (f l) = ld_id l \<and> ld_email (f l) = ld_email l"
  shows "pool_unique (update_leads p f db)"
proof -
  have "map ld_email (rows (leads (update_leads p f db))) = map ld_email (rows (leads db))"
    using keep by simp
  moreover have "lead_keys.keys_ok (leads (update_leads p f db))"
    using assms(1) keep by (simp add: pool_unique_def update_leads_def lead_keys.keys_ok_update)
  ultimately show ?thesis
    using assms(1) by (simp only: pool_unique_def update_leads_frame(3) simp_thms)
qed

lemma update_leads_scores:
  assumes "scores_ok w db"
    and "\<And>l. l \<in> set (rows (leads db)) \<Longrightarrow> p l \<Longrightarrow> ld_lead_score (f l) = score_of w (f l)"
  shows "scores_ok w (update_leads p f db)"
  using assms weights_frame [of "update_leads p f db" db] by (auto simp: scores_ok_def)

lemma insert_lead_row_ok:
  assumes "pool_unique db" "find_lead_by_email (ld_email (mk (next_id (leads db)))) db = None"
    and "\<And>i. ld_id (mk i) = i" "\<And>i. ld_lead_score (mk i) = score_of w (mk i)"
  shows "pool_unique (db\<lparr>leads := fst (insert_row mk (leads db))\<rparr>)"
    and "scores_ok w db \<Longrightarrow> scores_ok w (db\<lparr>leads := fst (insert_row mk (leads db))\<rparr>)"
proof -
  show "pool_unique (db\<lparr>leads := fst (insert_row mk (leads db))\<rparr>)"
    using assms by (auto simp: pool_unique_def table_simps find_lead_by_email_def first_where_None_iff lead_keys.keys_ok_def)
  have "lead_score_weights (db\<lparr>leads := fst (insert_row mk (leads db))\<rparr>) = lead_score_weights db"
    by (rule weights_frame) simp
  then show "scores_ok w db \<Longrightarrow> scores_ok w (db\<lparr>leads := fst (insert_row mk (leads db))\<rparr>)"
    using assms(4) by (auto simp: scores_ok_def table_simps)
qed

lemma enrich_lead_keeps: "ld_id (enrich_lead w it l) = ld_id l \<and> ld_email (enrich_lead w it l) = ld_email l"
  by (simp add: enrich_lead_def Let_def)

lemma enrich_lead_score: "ld_lead_score l = score_of w l \<Longrightarrow> ld_lead_score (enrich_lead w it l) = score_of w (enrich_lead w it l)"
  by (simp add: enrich_lead_def Let_def)

lemma insert_lead_ok:
  assumes "pool_unique db"
  shows "pool_unique (fst (insert_lead fault w it sn dp c now db))"
    and "scores_ok w db \<Longrightarrow> scores_ok w (fst (insert_lead fault w it sn dp c now db))"
  using assms insert_lead_row_ok [OF assms, of "mk_lead w (it, sn, dp, now)" w]
  by (auto simp: insert_lead_def insert_row_def occurrence_scores intro!: occurrence_unique)

section \<open>Writing back what was read\<close>

lemma net_change_simps [simp]: "net_change x x y = y" "net_change x y x = y"
  by (simp_all add: net_change_def)

lemma write_columns_frame [simp]:
  "ld_id (write_columns old new l) = ld_id l" "ld_email (write_columns old new l) = ld_email l"
  "ld_channel_tag (write_columns old new l) = ld_channel_tag l"
  "ld_snapshot_id (write_columns old new l) = ld_snapshot_id l" "ld_job_id (write_columns old new l) = ld_job_id l"
  by (simp_all add: write_columns_def)

lemma write_columns_same: "write_columns l (enrich_lead w it l) l = enrich_lead w it l"
  by (cases l) (simp add: write_columns_def enrich_lead_def Let_def rescore_def)

definition score_inputs :: "lead \<Rightarrow> score_fields \<times> string option \<times> string option" where
  "score_inputs l = (lead_fields l, ld_confidence_band l, ld_channel_tag l)"

lemma score_of_inputs: "score_inputs x = score_inputs y \<Longrightarrow> score_of w x = score_of w y"
  by (simp add: score_inputs_def score_of_def)

lemma write_columns_inputs:
  assumes "score_inputs x = score_inputs old" "ld_email new = ld_email old" "ld_channel_tag new = ld_channel_tag old"
  shows "score_inputs (write_columns old new x) = score_inputs new"
  using assms by (simp add: score_inputs_def lead_fields_def write_columns_def)

text \<open>Another transaction leaves what the scores of some leads are computed from as it is.\<close>

definition keeps_inputs :: "(lead \<Rightarrow> bool) \<Rightarrow> (crawl_db \<Rightarrow> crawl_db) \<Rightarrow> bool" where
  "keeps_inputs P race =
     (\<forall>d. \<forall>l \<in> set (rows (leads d)). P l \<longrightarrow>
        (\<exists>l' \<in> set (rows (leads (race d))). ld_id l' = ld_id l \<and> score_inputs l' = score_inputs l))"

lemma keeps_inputs_id [simp]: "keeps_inputs P id" "keeps_inputs P (\<lambda>d. d)"
  by (auto simp: keeps_inputs_def)

lemma keeps_inputs_row:
  assumes "keeps_inputs P race" "pool_unique (race d)" "old \<in> set (rows (leads d))" "P old"
    and "x \<in> set (rows (leads (race d)))" "ld_id x = ld_id old"
  shows "score_inputs x = score_inputs old"
proof -
  obtain l' where l': "l' \<in> set (rows (leads (race d)))" "ld_id l' = ld_id old" "score_inputs l' = score_inputs old"
    using assms(1,3,4) by (auto simp: keeps_inputs_def)
  then have "x = l'"
    using lead_keys.keys_ok_unique [of "leads (race d)"] assms(2,5,6) by (auto simp: pool_unique_def)
  with l'(3) show ?thesis by simp
qed

lemma store_lead_unique: "pool_unique (race db) \<Longrightarrow> pool_unique (store_lead race old new db)"
  by (simp add: store_lead_def update_leads_unique)

lemma store_lead_scores:
  assumes "scores_ok w db" "scores_ok w (race db)" "pool_unique (race db)" "keeps_inputs P race"
    and "old \<in> set (rows (leads db))" "P old"
    and "ld_email new = ld_email old" "ld_channel_tag new = ld_channel_tag old" "ld_lead_score new = score_of w new"
  shows "scores_ok w (store_lead race old new db)"
  unfolding store_lead_def
proof (rule update_leads_scores [OF assms(2)])
  fix x
  assume x: "x \<in> set (rows (leads (race db)))" "ld_id x = ld_id old"
  have inputs: "score_inputs x = score_inputs old"
    by (rule keeps_inputs_row [OF assms(4,3,5,6) x])
  have "ld_lead_score x = score_of w x" "ld_lead_score old = score_of w old"
    using assms(1,2,5) x(1) by (simp_all add: scores_ok_def)
  then have "ld_lead_score x = ld_lead_score old"
    using score_of_inputs [OF inputs] by simp
  then have "ld_lead_score (write_columns old new x) = ld_lead_score new"
    by (simp add: write_columns_def)
  then show "ld_lead_score (write_columns old new x) = score_of w (write_columns old new x)"
    using assms(9) score_of_inputs [OF write_columns_inputs [OF inputs assms(7,8)]] by simp
qed

text \<open>The demand on the other transactions, and on those that write between a read and a write.\<close>

definition race_unique :: "(crawl_db \<Rightarrow> crawl_db) \<Rightarrow> bool" where
  "race_unique race = (\<forall>d. pool_unique d \<longrightarrow> pool_unique (race d))"

definition race_scores :: "weights \<Rightarrow> (lead \<Rightarrow> bool) \<Rightarrow> (crawl_db \<Rightarrow> crawl_db) \<Rightarrow> bool" where
  "race_scores w P race = ((\<forall>d. lead_pool_ok w d \<longrightarrow> lead_pool_ok w (race d)) \<and> keeps_inputs P race)"

lemma race_calm [simp]: "race_unique id" "race_scores w P id" "race_unique (snd calm)" "race_scores w P (snd calm)"
  by (simp_all add: race_unique_def race_scores_def calm_def)

lemma race_scores_mono: "race_scores w P race \<Longrightarrow> (\<And>l. Q l \<Longrightarrow> P l) \<Longrightarrow> race_scores w Q race"
  by (simp add: race_scores_def keeps_inputs_def)

section \<open>The operations keep it\<close>

lemma find_lead_SomeD: "find_lead_by_email e db = Some l \<Longrightarrow> l \<in> set (rows (leads db)) \<and> ld_email l = e"
  unfolding find_lead_by_email_def by (drule first_where_SomeD) simp

lemma save_lead_unique:
  assumes ok: "pool_unique db" and race: "race_unique (snd env)"
  shows "pool_unique (fst (save_lead env loads it c now db))"
proof -
  have ok_race: "pool_unique (snd env d)" if "pool_unique d" for d
    using race that by (simp add: race_unique_def)
  obtain db1 r where a: "attribute_lead it now db = (db1, r)" by fastforce
  have ok1: "pool_unique db1"
    using ok pool_frame(1) [OF attribute_lead_frame(1,3) [OF a]] by simp
  note new = insert_lead_ok(1) [OF ok_race [OF ok1]]
  show ?thesis
    using ok ok1 a ok_race [OF ok] new
    by (auto simp: save_lead_def Let_def split_def intro!: occurrence_unique store_lead_unique
        split: option.split sum.split)
qed

lemma save_lead_scores:
  assumes ok: "lead_pool_ok w db" and race: "race_scores w (\<lambda>l. ld_email l = py_lower (the (li_email it))) (snd env)"
  shows "scores_ok w (fst (save_lead env loads it c now db))"
proof -
  have ok_race: "lead_pool_ok w (snd env d)" if "lead_pool_ok w d" for d
    using race that by (simp add: race_scores_def)
  have w: "lead_score_weights db = w" "scores_ok w db" using ok by (simp_all add: lead_pool_ok_def scores_ok_def)
  have enriched: "scores_ok w (store_lead (snd env) l (enrich_lead w it l) db)"
    if "find_lead_by_email (py_lower (the (li_email it))) db = Some l" for l
  proof (rule store_lead_scores)
    show "keeps_inputs (\<lambda>l. ld_email l = py_lower (the (li_email it))) (snd env)"
      using race by (simp add: race_scores_def)
    show "ld_lead_score (enrich_lead w it l) = score_of w (enrich_lead w it l)"
      using ok find_lead_SomeD [OF that] by (intro enrich_lead_score) (simp add: lead_pool_ok_def scores_ok_def)
  qed (use ok ok_race [OF ok] find_lead_SomeD [OF that] in
      \<open>simp_all add: lead_pool_ok_def enrich_lead_keeps enrich_lead_def Let_def\<close>)
  obtain db1 r where a: "attribute_lead it now db = (db1, r)" by fastforce
  have ok1: "lead_pool_ok w db1"
    using ok pool_frame(1) [OF attribute_lead_frame(1,3) [OF a]] pool_frame(2) [OF attribute_lead_frame(1,2) [OF a]]
    by (simp add: lead_pool_ok_def)
  then have w1: "lead_score_weights db1 = w" "scores_ok w db1" by (simp_all add: lead_pool_ok_def scores_ok_def)
  have new: "scores_ok w (fst (insert_lead fault w it sn dp c now (snd env db1)))" for fault sn dp
    using insert_lead_ok(2) ok_race [OF ok1] by (simp add: lead_pool_ok_def)
  show ?thesis
    using w w1 a ok_race [OF ok] new enriched
    by (auto simp: save_lead_def Let_def split_def occurrence_scores lead_pool_ok_def split: option.split sum.split)
qed

lemma manual_update_keeps:
  "ld_id (manual_update w r l) = ld_id l" "ld_email (manual_update w r l) = ld_email l"
  "ld_channel_tag (manual_update w r l) = ld_channel_tag l"
  "ld_lead_score (manual_update w r l) = score_of w (manual_update w r l)"
  by (simp_all add: manual_update_def)

lemma upsert_manual_row_ok:
  assumes ok: "pool_unique db" and race: "race_unique race"
  shows "pool_unique (fst (upsert_manual_row race job_id c now (db, res) r))"
    and "scores_ok w db \<Longrightarrow> race_scores w (\<lambda>l. ld_email l = cr_email r) race \<Longrightarrow>
      scores_ok w (fst (upsert_manual_row race job_id c now (db, res) r))"
proof -
  have ok1: "pool_unique (race db)" using ok race by (simp add: race_unique_def)
  have new: "find_lead_by_email (cr_email r) (race db) = None \<Longrightarrow>
      pool_unique (race db\<lparr>leads := fst (insert_row (mk_manual_lead w' (job_id, r, now)) (leads (race db)))\<rparr>)" for w'
    by (rule insert_lead_row_ok(1) [OF ok1]) simp_all
  show "pool_unique (fst (upsert_manual_row race job_id c now (db, res) r))"
    using ok ok1 new
    by (auto simp: upsert_manual_row_def Let_def insert_row_def intro!: occurrence_unique store_lead_unique split: option.split)
  assume sc: "scores_ok w db" and rs: "race_scores w (\<lambda>l. ld_email l = cr_email r) race"
  then have sc1: "scores_ok w (race db)" and k: "keeps_inputs (\<lambda>l. ld_email l = cr_email r) race"
    using ok by (simp_all add: race_scores_def lead_pool_ok_def)
  have w: "lead_score_weights db = w" using sc by (simp add: scores_ok_def)
  have up: "scores_ok w (store_lead race l (manual_update w r l) db)" if "find_lead_by_email (cr_email r) db = Some l" for l
    using find_lead_SomeD [OF that]
    by (intro store_lead_scores [OF sc sc1 ok1 k]) (simp_all add: manual_update_keeps)
  have ins: "find_lead_by_email (cr_email r) (race db) = None \<Longrightarrow>
      scores_ok w (race db\<lparr>leads := fst (insert_row (mk_manual_lead w (job_id, r, now)) (leads (race db)))\<rparr>)"
    by (rule insert_lead_row_ok(2) [OF ok1 _ _ _ sc1]) simp_all
  show "scores_ok w (fst (upsert_manual_row race job_id c now (db, res) r))"
    using sc sc1 up ins w
    by (auto simp: upsert_manual_row_def Let_def insert_row_def occurrence_scores split: option.split)
qed

lemma bulk_upsert_ok:
  assumes "pool_unique db" "race_unique race"
  shows "pool_unique (fst (bulk_upsert_manual_leads race job_id rs c now db))"
    and "scores_ok w db \<Longrightarrow> race_scores w (\<lambda>l. ld_email l \<in> cr_email ` set rs) race \<Longrightarrow>
      scores_ok w (fst (bulk_upsert_manual_leads race job_id rs c now db))"
proof -
  have run: "pool_unique (fst (foldl (upsert_manual_row race job_id c now) st rs)) \<and>
      (scores_ok w (fst st) \<longrightarrow> race_scores w (\<lambda>l. ld_email l \<in> cr_email ` set rs) race \<longrightarrow>
       scores_ok w (fst (foldl (upsert_manual_row race job_id c now) st rs)))"
    if "pool_unique (fst st)" for st
    using that
  proof (induction rs arbitrary: st)
    case (Cons r rs)
    let ?st = "upsert_manual_row race job_id c now (fst st, snd st) r"
    have "pool_unique (fst ?st)"
      by (rule upsert_manual_row_ok(1) [OF Cons.prems assms(2)])
    moreover have "scores_ok w (fst ?st)"
      if "scores_ok w (fst st)" "race_scores w (\<lambda>l. ld_email l \<in> cr_email ` set (r # rs)) race"
      by (rule upsert_manual_row_ok(2) [OF Cons.prems assms(2) that(1) race_scores_mono [OF that(2)]]) simp
    moreover have "race_scores w (\<lambda>l. ld_email l \<in> cr_email ` set rs) race"
      if "race_scores w (\<lambda>l. ld_email l \<in> cr_email ` set (r # rs)) race"
      using that by (rule race_scores_mono) simp
    ultimately show ?case using Cons.IH [of ?st] by simp
  qed simp
  from run [of "(db, \<lparr>ur_imported = 0, ur_updated = 0, ur_skipped = []\<rparr>)"] assms(1)
  show "pool_unique (fst (bulk_upsert_manual_leads race job_id rs c now db))"
    and "scores_ok w db \<Longrightarrow> race_scores w (\<lambda>l. ld_email l \<in> cr_email ` set rs) race \<Longrightarrow>
      scores_ok w (fst (bulk_upsert_manual_leads race job_id rs c now db))"
    by (simp_all add: bulk_upsert_manual_leads_def)
qed

definition item_race_ok :: "weights \<Rightarrow> save_env \<Rightarrow> lead_item \<Rightarrow> bool" where
  "item_race_ok w env it = race_scores w (\<lambda>l. ld_email l = py_lower (the (li_email it))) (snd env)"

fun batch_race_ok :: "weights \<Rightarrow> (nat \<Rightarrow> save_env) \<Rightarrow> lead_item option list \<Rightarrow> bool" where
  "batch_race_ok w env [] = True"
| "batch_race_ok w env (item # items) =
     ((case item of None \<Rightarrow> True | Some it \<Rightarrow> item_race_ok w (env (length items)) it) \<and> batch_race_ok w env items)"

lemma bulk_save_leads_ok:
  assumes "pool_unique db" "\<And>n. race_unique (snd (env n))"
  shows "pool_unique (fst (bulk_save_leads env loads items c now db))"
    and "scores_ok w db \<Longrightarrow> batch_race_ok w env items \<Longrightarrow> scores_ok w (fst (bulk_save_leads env loads items c now db))"
proof -
  have "pool_unique (fst (bulk_save_leads env loads items c now db)) \<and>
      (scores_ok w db \<longrightarrow> batch_race_ok w env items \<longrightarrow> scores_ok w (fst (bulk_save_leads env loads items c now db)))"
    using assms(1)
  proof (induction items arbitrary: db)
    case Nil
    then show ?case by simp
  next
    case (Cons item items)
    let ?db1 = "case item of None \<Rightarrow> db | Some it \<Rightarrow> fst (save_lead (env (length items)) loads it c now db)"
    have "pool_unique ?db1"
      using Cons.prems assms(2) by (auto simp: save_lead_unique split: option.split)
    moreover have "scores_ok w ?db1" if "scores_ok w db" "batch_race_ok w env (item # items)"
      using that Cons.prems by (auto simp: save_lead_scores item_race_ok_def lead_pool_ok_def split: option.splits)
    ultimately show ?case
      using Cons.IH [of ?db1] by (auto simp: Let_def split: option.split prod.split)
  qed
  then show "pool_unique (fst (bulk_save_leads env loads items c now db))"
    and "scores_ok w db \<Longrightarrow> batch_race_ok w env items \<Longrightarrow> scores_ok w (fst (bulk_save_leads env loads items c now db))"
    by simp_all
qed

lemma set_lead_field_keeps [simp]:
  "ld_id (fold set_lead_field us l) = ld_id l" "ld_email (fold set_lead_field us l) = ld_email l"
  "ld_channel_tag (fold set_lead_field us l) = ld_channel_tag l"
  by (induction us arbitrary: l) (auto simp: set_lead_field_def)

lemma update_lead_ok:
  assumes ok: "pool_unique db" and race: "race_unique race"
  shows "pool_unique (fst (update_lead race i us db))"
    and "scores_ok w db \<Longrightarrow> race_scores w (\<lambda>l. ld_id l = i) race \<Longrightarrow> scores_ok w (fst (update_lead race i us db))"
proof -
  have ok1: "pool_unique (race db)" using ok race by (simp add: race_unique_def)
  show "pool_unique (fst (update_lead race i us db))"
    using ok ok1 by (auto simp: update_lead_def Let_def store_lead_unique split: option.split)
  assume sc: "scores_ok w db" and rs: "race_scores w (\<lambda>l. ld_id l = i) race"
  then have sc1: "scores_ok w (race db)" and k: "keeps_inputs (\<lambda>l. ld_id l = i) race"
    using ok by (simp_all add: race_scores_def lead_pool_ok_def)
  have w: "lead_score_weights db = w" using sc by (simp add: scores_ok_def)
  have "scores_ok w (store_lead race l (rescore w (fold set_lead_field us' l)) db)"
    if "first_where (\<lambda>l. ld_id l = i) (leads db) = Some l" for l us'
    using first_where_SomeD [OF that] by (intro store_lead_scores [OF sc sc1 ok1 k]) simp_all
  with sc w show "scores_ok w (fst (update_lead race i us db))"
    by (auto simp: update_lead_def Let_def split: option.split)
qed

lemma recompute_ok:
  assumes ok: "pool_unique db" and race: "race_unique race"
  shows "pool_unique (recompute_lead_scores race db)"
    and "scores_ok w (race db) \<Longrightarrow> keeps_inputs (\<lambda>_. True) race \<Longrightarrow> scores_ok w (recompute_lead_scores race db)"
proof -
  have ok1: "pool_unique (race db)" using ok race by (simp add: race_unique_def)
  show "pool_unique (recompute_lead_scores race db)"
    unfolding recompute_lead_scores_def Let_def by (rule update_leads_unique [OF ok1]) (simp split: option.split)
  assume sc: "scores_ok w (race db)" and k: "keeps_inputs (\<lambda>_. True) race"
  then have w: "lead_score_weights (race db) = w" by (simp add: scores_ok_def)
  have same: "score_of w r = score_of w x"
    if "x \<in> set (rows (leads (race db)))" "first_where (\<lambda>r. ld_id r = ld_id x) (leads db) = Some r" for x r
  proof -
    have "score_inputs x = score_inputs r"
      by (rule keeps_inputs_row [OF k ok1 _ _ that(1)]) (use first_where_SomeD [OF that(2)] in simp_all)
    then show ?thesis by (metis score_of_inputs)
  qed
  have upd: "score_of w (x\<lparr>ld_lead_score := n\<rparr>) = score_of w x" for x n
    by (simp add: score_of_def lead_fields_def)
  show "scores_ok w (recompute_lead_scores race db)"
    unfolding recompute_lead_scores_def Let_def w
  proof (rule update_leads_scores [OF sc])
    fix x
    assume x: "x \<in> set (rows (leads (race db)))"
    let ?y = "case first_where (\<lambda>r. ld_id r = ld_id x) (leads db) of None \<Rightarrow> x | Some r \<Rightarrow> x\<lparr>ld_lead_score := score_of w r\<rparr>"
    show "ld_lead_score ?y = score_of w ?y"
      using sc x same [OF x] by (auto simp: scores_ok_def upd split: option.split)
  qed
qed

datatype lead_op =
  L_save save_env lead_item "nat option" datetime
| L_bulk "nat \<Rightarrow> save_env" "lead_item option list" "nat option" datetime
| L_manual "crawl_db \<Rightarrow> crawl_db" nat "contact_row list" "nat option" datetime
| L_edit "crawl_db \<Rightarrow> crawl_db" nat "(string \<times> string) list"
| L_recompute "crawl_db \<Rightarrow> crawl_db"

fun lead_step :: "(string \<Rightarrow> json option) \<Rightarrow> crawl_db \<Rightarrow> lead_op \<Rightarrow> crawl_db" where
  "lead_step loads db (L_save env it c now) = fst (save_lead env loads it c now db)"
| "lead_step loads db (L_bulk env items c now) = fst (bulk_save_leads env loads items c now db)"
| "lead_step loads db (L_manual race j rs c now) = fst (bulk_upsert_manual_leads race j rs c now db)"
| "lead_step loads db (L_edit race i us) = fst (update_lead race i us db)"
| "lead_step loads db (L_recompute race) = recompute_lead_scores race db"

text \<open>The other transactions keep the pool in order themselves.\<close>

fun race_ok :: "lead_op \<Rightarrow> bool" where
  "race_ok (L_save env it c now) = race_unique (snd env)"
| "race_ok (L_bulk env items c now) = (\<forall>n. race_unique (snd (env n)))"
| "race_ok (L_manual race j rs c now) = race_unique race"
| "race_ok (L_edit race i us) = race_unique race"
| "race_ok (L_recompute race) = race_unique race"

text \<open>They do not rewrite what the score of a lead is computed from while the operation holds it.\<close>

fun undisturbed :: "weights \<Rightarrow> lead_op \<Rightarrow> bool" where
  "undisturbed w (L_save env it c now) = item_race_ok w env it"
| "undisturbed w (L_bulk env items c now) = batch_race_ok w env items"
| "undisturbed w (L_manual race j rs c now) = race_scores w (\<lambda>l. ld_email l \<in> cr_email ` set rs) race"
| "undisturbed w (L_edit race i us) = race_scores w (\<lambda>l. ld_id l = i) race"
| "undisturbed w (L_recompute race) = race_scores w (\<lambda>_. True) race"

lemma lead_step_unique: "pool_unique db \<Longrightarrow> race_ok op \<Longrightarrow> pool_unique (lead_step loads db op)"
  by (cases op) (simp_all add: save_lead_unique bulk_save_leads_ok bulk_upsert_ok update_lead_ok recompute_ok)

lemma lead_step_scores:
  "lead_pool_ok w db \<Longrightarrow> race_ok op \<Longrightarrow> undisturbed w op \<Longrightarrow> scores_ok w (lead_step loads db op)"
  by (cases op) (simp_all add: save_lead_scores item_race_ok_def bulk_save_leads_ok bulk_upsert_ok update_lead_ok recompute_ok
      race_scores_def lead_pool_ok_def)

text \<open>C8.
  Under every sequence of captures, batches, manual uploads, edits and recomputations, with every
  failure of the database and whatever other transactions commit between a read and the write that
  follows it, as long as they keep the unique keys themselves: the pool has one lead per email and one
  occurrence per lead and job. Every score is the score of the fields the lead holds, when besides
  nobody rewrites the scored fields of a lead between the read and the write of an operation on it;
  \<open>racing_captures_leave_wrong_score\<close> shows that this is needed.
\<close>

theorem lead_pool_invariant:
  assumes "pool_unique db" "\<forall>op \<in> set ops. race_ok op"
  shows "pool_unique (foldl (lead_step loads) db ops) \<and>
    (if scores_ok w db \<and> list_all (undisturbed w) ops then scores_ok w (foldl (lead_step loads) db ops) else True)"
  using assms
proof (induction ops arbitrary: db)
  case (Cons op ops)
  have "pool_unique (lead_step loads db op)"
    using Cons.prems by (simp add: lead_step_unique)
  moreover have "scores_ok w (lead_step loads db op)" if "scores_ok w db" "undisturbed w op"
    using lead_step_scores [of w db op] Cons.prems that by (simp add: lead_pool_ok_def)
  ultimately show ?case
    using Cons.IH [of "lead_step loads db op"] Cons.prems(2) by simp
qed simp

definition demo_item :: lead_item where
  "demo_item = \<lparr>li_job_id = 1, li_snapshot_id = None, li_email = Some ''A@x.gov.in'', li_person_name = None,
     li_designation = Some ''Director'', li_department = None, li_source_url = Some ''http://x.gov.in/p'',
     li_source_title = None, li_context_snippet = None, li_entity_kind = None, li_phone = None,
     li_channel_tag = None, li_confidence_band = Some ''LOW'', li_field_provenance = None, li_depth = 0\<rparr>"

lemma demo_job_db_pool: "pool_unique demo_job_db" "scores_ok DEFAULT_WEIGHTS demo_job_db"
  by (simp_all add: pool_unique_def scores_ok_def lead_keys.keys_ok_def demo_job_db_def create_job_def insert_row_def Let_def
      empty_crawl_db_def lead_score_weights_def get_crawl_policy_def get_app_setting_def EMPTY_POLICY_def)

lemma lead_pool_invariant_witness:
  "let db = foldl (lead_step (\<lambda>_. None)) demo_job_db
     [L_save (None, \<lambda>d. fst (save_lead calm (\<lambda>_. None) demo_item (Some 7) 4 d)) demo_item (Some 7) 5,
      L_bulk (\<lambda>_. (Some At_write, id)) [None, Some demo_item] (Some 7) 6, L_recompute id]
   in pool_unique db"
proof -
  have "\<forall>op \<in> set [L_save (None, \<lambda>d. fst (save_lead calm (\<lambda>_. None) demo_item (Some 7) 4 d)) demo_item (Some 7) 5,
      L_bulk (\<lambda>_. (Some At_write, id)) [None, Some demo_item] (Some 7) 6, L_recompute id]. race_ok op"
    using save_lead_unique [OF _ race_calm(3)] by (auto simp: race_unique_def)
  from lead_pool_invariant [OF demo_job_db_pool(1) this] show ?thesis by (simp only: Let_def)
qed

text \<open>
  Two captures of one address at the same time, one with a name and one with a designation: the later
  commit writes a score computed without what the other has filled in. The unique keys survive.
\<close>

lemma racing_captures_leave_wrong_score:
  "let blank = demo_item\<lparr>li_designation := None\<rparr>;
       db = fst (save_lead calm (\<lambda>_. None) blank (Some 7) 4 demo_job_db);
       named = blank\<lparr>li_person_name := Some ''Asha''\<rparr>;
       db' = fst (save_lead (None, \<lambda>d. fst (save_lead calm (\<lambda>_. None) named (Some 7) 5 d)) (\<lambda>_. None) demo_item (Some 7) 5 db)
   in list_all (\<lambda>l. ld_person_name l = Some ''Asha'' \<and> ld_designation l = Some ''Director'' \<and>
        ld_lead_score l \<noteq> score_of DEFAULT_WEIGHTS l) (rows (leads db')) \<and> length (rows (leads db')) = 1"
  by code_simp

section \<open>Enrichment\<close>

lemma band_rank_simps: "band_rank (Some ''LOW'') = 0" "band_rank (Some ''HIGH'') = 1" "band_rank None = -1"
  by (simp_all add: band_rank_def)

text \<open>The stored value stays unless it was blank and the capture has one.\<close>

definition enriched :: "string option \<Rightarrow> string option \<Rightarrow> string option \<Rightarrow> bool" where
  "enriched v old new = (new = (if truthy old \<or> \<not> truthy v then old else v))"

lemma enriched_fill [simp]: "enriched v old (fill v old)"
  by (simp add: enriched_def fill_def fills_def)

lemma enrich_lead_fields:
  "enriched (li_person_name it) (ld_person_name l) (ld_person_name (enrich_lead w it l))"
  "enriched (li_designation it) (ld_designation l) (ld_designation (enrich_lead w it l))"
  "enriched (li_department it) (ld_department l) (ld_department (enrich_lead w it l))"
  "enriched (li_source_title it) (ld_source_title l) (ld_source_title (enrich_lead w it l))"
  "enriched (li_context_snippet it) (ld_context_snippet l) (ld_context_snippet (enrich_lead w it l))"
  "enriched (li_phone it) (ld_phone l) (ld_phone (enrich_lead w it l))"
  "enriched (li_entity_kind it) (ld_entity_kind l) (ld_entity_kind (enrich_lead w it l))"
  by (auto simp: enrich_lead_def enrich_changes_def enriched_def fill_def fills_def Let_def rescore_def)

lemma enrich_lead_rest:
  "ld_snapshot_id (enrich_lead w it l) = ld_snapshot_id l" "ld_job_id (enrich_lead w it l) = ld_job_id l"
  "ld_channel_tag (enrich_lead w it l) = ld_channel_tag l" "ld_captured_at (enrich_lead w it l) = ld_captured_at l"
  by (simp_all add: enrich_lead_def Let_def rescore_def)

lemma enrich_lead_band:
  "band_rank (ld_confidence_band (enrich_lead w it l)) =
     max (band_rank (ld_confidence_band l)) (band_rank (li_confidence_band it))"
proof (cases "better_band it l")
  case True
  then show ?thesis
    by (simp add: enrich_lead_def enrich_changes_def Let_def better_band_def)
next
  case False
  have "truthy (li_confidence_band it)" if "band_rank (li_confidence_band it) \<ge> 0"
    using that by (auto simp: band_rank_def split: if_splits)
  moreover have "band_rank b \<ge> -1" for b
    by (simp add: band_rank_def)
  ultimately have "band_rank (li_confidence_band it) \<le> band_rank (ld_confidence_band l)"
    using False by (metis better_band_def linorder_not_le order.strict_trans1 zle_add1_eq_le add.commute add.right_inverse minus_add_distrib not_less)
  with False show ?thesis
    by (simp add: enrich_lead_def Let_def)
qed

lemma find_lead_update:
  assumes "\<And>l. ld_email (f l) = ld_email l"
  shows "find_lead_by_email e (update_leads p f db) = map_option (\<lambda>l. if p l then f l else l) (find_lead_by_email e db)"
  using assms by (simp add: find_lead_by_email_def update_leads_def first_where_update_where)

lemma find_lead_occurrence [simp]: "find_lead_by_email e (record_occurrence i j u c now db) = find_lead_by_email e db"
  by (simp add: find_lead_by_email_def)

text \<open>C17.
  Capturing an email that is already in the pool succeeds and only enriches its lead: a value
  that is there stays, a blank one is filled, the confidence band never falls, and the lead
  keeps its identity, its job, its snapshot and its channel, whatever other transactions do to the
  rest of the database meanwhile.
\<close>

theorem recapture_only_enriches:
  assumes "li_email it = Some e" "e \<noteq> []" "find_lead_by_email (py_lower e) db = Some l"
    and "find_lead_by_email (py_lower e) (race db) = Some l"
  shows "snd (save_lead (None, race) loads it c now db) = Inr True \<and>
    (\<exists>l'. find_lead_by_email (py_lower e) (fst (save_lead (None, race) loads it c now db)) = Some l' \<and>
      ld_id l' = ld_id l \<and> ld_job_id l' = ld_job_id l \<and> ld_snapshot_id l' = ld_snapshot_id l \<and>
      ld_channel_tag l' = ld_channel_tag l \<and>
      enriched (li_person_name it) (ld_person_name l) (ld_person_name l') \<and>
      enriched (li_designation it) (ld_designation l) (ld_designation l') \<and>
      enriched (li_department it) (ld_department l) (ld_department l') \<and>
      enriched (li_source_title it) (ld_source_title l) (ld_source_title l') \<and>
      enriched (li_context_snippet it) (ld_context_snippet l) (ld_context_snippet l') \<and>
      enriched (li_phone it) (ld_phone l) (ld_phone l') \<and>
      enriched (li_entity_kind it) (ld_entity_kind l) (ld_entity_kind l') \<and>
      band_rank (ld_confidence_band l') = max (band_rank (ld_confidence_band l)) (band_rank (li_confidence_band it)))"
proof -
  let ?l = "enrich_lead (lead_score_weights db) it l"
  have "find_lead_by_email (py_lower e) (fst (save_lead (None, race) loads it c now db)) = Some ?l"
    "snd (save_lead (None, race) loads it c now db) = Inr True"
    using assms by (simp_all add: save_lead_def store_lead_def find_lead_update write_columns_same)
  then show ?thesis
    by (simp add: enrich_lead_keeps enrich_lead_rest enrich_lead_fields enrich_lead_band)
qed

definition demo_lead_db :: crawl_db where
  "demo_lead_db = fst (save_lead calm (\<lambda>_. None) demo_item (Some 7) 4 demo_job_db)"

lemma recapture_only_enriches_witness:
  "\<exists>l'. find_lead_by_email ''a@x.gov.in'' (fst (save_lead (None, id) (\<lambda>_. None)
      (demo_item\<lparr>li_person_name := Some ''Asha'', li_designation := Some ''Clerk'', li_confidence_band := Some ''HIGH''\<rparr>)
      (Some 7) 9 demo_lead_db)) = Some l' \<and> band_rank (ld_confidence_band l') = 1"
proof -
  have "py_lower ''A@x.gov.in'' = ''a@x.gov.in''" by code_simp
  moreover have "map_option ld_confidence_band (find_lead_by_email (py_lower ''A@x.gov.in'') demo_lead_db) = Some (Some ''LOW'')"
    by code_simp
  then obtain l where "find_lead_by_email (py_lower ''A@x.gov.in'') demo_lead_db = Some l" "ld_confidence_band l = Some ''LOW''"
    by auto
  ultimately show ?thesis
    using recapture_only_enriches [of "demo_item\<lparr>li_person_name := Some ''Asha'', li_designation := Some ''Clerk'',
        li_confidence_band := Some ''HIGH''\<rparr>" "''A@x.gov.in''" demo_lead_db l id "\<lambda>_. None" "Some 7" 9]
    by (auto simp: demo_item_def band_rank_simps)
qed

section \<open>Attribution of a new lead\<close>

lemma find_snapshot_by_id:
  assumes "snapshot_keys.keys_ok (snapshots db)" "find_snapshot j d db = Some s"
  shows "snapshot_by_id (sn_id s) db = Some s"
  using snapshot_keys.first_by_key [OF assms(1)] find_snapshot_SomeD [OF assms(2)] by (simp add: snapshot_by_id_def)

lemma create_snapshot_result:
  assumes "create_crawl_snapshot id j d b now db = (db', Inr i)" "snapshot_keys.keys_ok (snapshots db)"
  shows "\<exists>s. snapshot_by_id i db' = Some s \<and> sn_source_domain_id s = Some (dm_id d)"
proof (cases "find_snapshot j (dm_id d) db")
  case (Some s)
  with assms find_snapshot_by_id [OF assms(2) Some] find_snapshot_SomeD [OF Some] show ?thesis
    by (auto simp: create_crawl_snapshot_def)
next
  case None
  let ?mk = "mk_snapshot (d, j, b, now)"
  from None assms(1) have db': "db' = db\<lparr>snapshots := fst (insert_row ?mk (snapshots db))\<rparr>" "i = next_id (snapshots db)"
    by (auto simp: create_crawl_snapshot_def Let_def insert_row_def split: if_splits)
  have "?mk i \<in> set (rows (snapshots db'))"
    by (simp add: db' table_simps)
  moreover have "snapshot_keys.keys_ok (snapshots db')"
    using snapshot_keys.keys_ok_insert [OF assms(2), of "(d, j, b, now)"] by (simp add: db')
  ultimately have "snapshot_by_id i db' = Some (?mk i)"
    using snapshot_keys.first_by_key [of "snapshots db'" "?mk i"] by (simp add: snapshot_by_id_def)
  then show ?thesis by simp
qed

definition attributed :: "domain_dict option \<Rightarrow> nat option \<Rightarrow> crawl_db \<Rightarrow> bool" where
  "attributed resolved snapshot_id db =
     (case resolved of
        None \<Rightarrow> snapshot_id = None
      | Some d \<Rightarrow> (\<exists>s. Option.bind snapshot_id (\<lambda>i. snapshot_by_id i db) = Some s \<and> sn_source_domain_id s = Some (dm_id d)))"

lemma policy_suffixes_frame: "settings db' = settings db \<Longrightarrow> policy_suffixes db' = policy_suffixes db"
  by (simp add: policy_suffixes_def get_crawl_policy_def get_app_setting_def)

lemma attribute_lead_attributed:
  assumes "attribute_lead it now db = (db', Inr sid)" "cache_fresh db" "snapshot_keys.keys_ok (snapshots db)"
  shows "attributed (resolve_domain_for_url (li_source_url it) (build_netloc_domain_map db) (policy_suffixes db)) sid db'"
proof -
  obtain db1 m where m: "get_netloc_domain_map db = (db1, m)" by fastforce
  have same: "m = build_netloc_domain_map db" "settings db1 = settings db" "snapshots db1 = snapshots db"
    using m get_netloc_domain_map_fresh(1) [OF assms(2)]
    by (auto simp: get_netloc_domain_map_def Let_def split: option.splits)
  let ?r = "resolve_domain_for_url (li_source_url it) m (policy_suffixes db)"
  have sfx: "policy_suffixes db1 = policy_suffixes db"
    using same(2) by (rule policy_suffixes_frame)
  show ?thesis
  proof (cases ?r)
    case None
    with assms(1) m sfx same(1) show ?thesis by (simp add: attribute_lead_def attributed_def)
  next
    case (Some d)
    show ?thesis
    proof (cases "inherited_source_domain (li_snapshot_id it) db1 = Some (dm_id d)")
      case True
      then obtain s where "Option.bind (li_snapshot_id it) (\<lambda>i. snapshot_by_id i db1) = Some s"
        "sn_source_domain_id s = Some (dm_id d)"
        by (auto simp: inherited_source_domain_def bind_eq_Some_conv)
      with True Some assms(1) m sfx same(1) show ?thesis by (simp add: attribute_lead_def attributed_def)
    next
      case False
      with Some assms(1) m sfx obtain i where "create_crawl_snapshot id (li_job_id it) d False now db1 = (db', Inr i)" "sid = Some i"
        by (auto simp: attribute_lead_def split: prod.splits sum.splits)
      with create_snapshot_result [of "li_job_id it" d False now db1 db' i] assms(3) same Some show ?thesis
        by (simp add: attributed_def)
    qed
  qed
qed

text \<open>
  A new lead points at a snapshot of the catalog domain its page belongs to, whatever snapshot
  the crawl passed on; when the page belongs to no domain of the catalog it has no snapshot.
\<close>

theorem new_lead_attributed_to_page:
  assumes "save_lead calm loads it c now db = (db', Inr True)"
    and "li_email it = Some e" "find_lead_by_email (py_lower e) db = None"
    and "cache_fresh db" "snapshot_keys.keys_ok (snapshots db)"
  shows "\<exists>l. find_lead_by_email (py_lower e) db' = Some l \<and>
    attributed (resolve_domain_for_url (li_source_url it) (build_netloc_domain_map db) (policy_suffixes db))
      (ld_snapshot_id l) db'"
proof -
  have "e \<noteq> []" using assms(1,2) by (auto simp: save_lead_def calm_def)
  with assms(1-3) obtain db1 sid dp where a: "attribute_lead it now db = (db1, Inr sid)"
    and i: "insert_lead None (lead_score_weights db1) it sid dp c now db1 = (db', Inr True)"
    by (auto simp: save_lead_def calm_def split: prod.splits sum.splits)
  let ?mk = "mk_lead (lead_score_weights db1) (it, sid, dp, now)"
  from i assms(2) have free: "find_lead_by_email (py_lower e) db1 = None"
    and db': "db' = record_occurrence (next_id (leads db1)) (li_job_id it) (li_source_url it) c now
      (db1\<lparr>leads := fst (insert_row ?mk (leads db1))\<rparr>)"
    by (auto simp: insert_lead_def insert_row_def split: if_splits)
  have "find_lead_by_email (py_lower e) db' = Some (?mk (next_id (leads db1)))"
    using free assms(2) by (simp add: db' find_lead_by_email_def first_where_insert_row)
  moreover have "snapshot_by_id i db' = snapshot_by_id i db1" for i
    by (simp add: db' snapshot_by_id_def)
  then have "attributed r sid db' = attributed r sid db1" for r
    by (simp add: attributed_def split: option.split)
  ultimately show ?thesis
    using attribute_lead_attributed [OF a assms(4,5)] by (intro exI [of _ "?mk (next_id (leads db1))"]) simp
qed

lemma new_lead_attributed_to_page_witness:
  "\<exists>l. find_lead_by_email (py_lower ''A@x.gov.in'') (fst (save_lead calm (\<lambda>_. None) demo_item (Some 7) 4 demo_job_db)) = Some l \<and>
     attributed (resolve_domain_for_url (Some ''http://x.gov.in/p'') (build_netloc_domain_map demo_job_db)
       (policy_suffixes demo_job_db)) (ld_snapshot_id l) (fst (save_lead calm (\<lambda>_. None) demo_item (Some 7) 4 demo_job_db))"
proof -
  have "snd (save_lead calm (\<lambda>_. None) demo_item (Some 7) 4 demo_job_db) = Inr True" by code_simp
  then have run: "save_lead calm (\<lambda>_. None) demo_item (Some 7) 4 demo_job_db =
      (fst (save_lead calm (\<lambda>_. None) demo_item (Some 7) 4 demo_job_db), Inr True)"
    by (metis prod.collapse)
  have "cache_fresh demo_job_db" "snapshot_keys.keys_ok (snapshots demo_job_db)" "find_lead_by_email (py_lower ''A@x.gov.in'') demo_job_db = None"
    by (simp_all add: cache_fresh_def demo_job_db_def create_job_def insert_row_def Let_def empty_crawl_db_def
        snapshot_keys.keys_ok_def find_lead_by_email_def first_where_def)
  from new_lead_attributed_to_page [OF run _ this(3,1,2)] show ?thesis
    by (simp add: demo_item_def)
qed

section \<open>Batches\<close>

text \<open>
  A malformed item of a batch is reported as not accepted and is otherwise as if it had not been
  sent: the other items are stored, and answered, exactly as in the batch without it.
\<close>

theorem malformed_items_are_isolated:
  "length (snd (bulk_save_leads (\<lambda>_. env) loads items c now db)) = length items \<and>
   fst (bulk_save_leads (\<lambda>_. env) loads items c now db) =
     fst (bulk_save_leads (\<lambda>_. env) loads (filter (\<lambda>i. i \<noteq> None) items) c now db) \<and>
   map snd (filter (\<lambda>p. fst p \<noteq> None) (zip items (snd (bulk_save_leads (\<lambda>_. env) loads items c now db)))) =
     snd (bulk_save_leads (\<lambda>_. env) loads (filter (\<lambda>i. i \<noteq> None) items) c now db) \<and>
   filter (\<lambda>p. fst p = None \<and> snd p) (zip items (snd (bulk_save_leads (\<lambda>_. env) loads items c now db))) = []"
proof (induction items arbitrary: db)
  case Nil
  then show ?case by simp
next
  case (Cons item items)
  let ?db1 = "case item of None \<Rightarrow> db | Some it \<Rightarrow> fst (save_lead env loads it c now db)"
  show ?case
    using Cons [of ?db1] by (cases item) (simp_all add: Let_def split_def)
qed

section \<open>Facets\<close>

lemma length_map_filter: "length (List.map_filter f xs) = length (filter (\<lambda>x. f x \<noteq> None) xs)"
  by (induction xs) (auto simp: List.map_filter_simps split: option.split)

lemma facet_counts: "map fc_count (map facet_of gs) = map snd gs"
  by (simp add: facet_of_def comp_def)

text \<open>
  The category facet counts every lead once: the leads with a snapshot under its category, the
  unattributed ones under Unknown, and only manual leads without a snapshot are in no group.
\<close>

theorem category_facet_counts_every_lead:
  assumes fk: "\<forall>l \<in> set (rows (leads db)). ld_snapshot_id l \<noteq> None \<longrightarrow> lead_snapshot db l \<noteq> None"
  shows "sum_list (map fc_count (get_lead_categories job_ids db)) +
      count_where (\<lambda>l. in_jobs job_ids l \<and> is_manual l \<and> ld_snapshot_id l = None) (leads db) =
    count_where (in_jobs job_ids) (leads db)"
proof -
  let ?q = "filter (in_jobs job_ids) (rows (leads db))"
  have joined: "length (joined_snapshots job_ids db) = length (filter (\<lambda>l. ld_snapshot_id l \<noteq> None) ?q)"
  proof -
    have "filter (\<lambda>l. lead_snapshot db l \<noteq> None) ?q = filter (\<lambda>l. ld_snapshot_id l \<noteq> None) ?q"
      using fk by (intro filter_cong) (auto simp: lead_snapshot_def bind_eq_Some_conv)
    then show ?thesis
      by (simp add: joined_snapshots_def select_where_def length_map_filter)
  qed
  have unknown: "sum_list (map fc_count (unknown_facet job_ids db)) = unattributed_count job_ids db"
    by (simp add: unknown_facet_def Let_def)
  have groups: "sum_list (map fc_count (get_lead_categories job_ids db)) =
      length (joined_snapshots job_ids db) + unattributed_count job_ids db"
    unfolding get_lead_categories_def map_append sum_list_append unknown facet_counts group_count_total ..
  have "length (filter (\<lambda>l. ld_snapshot_id l \<noteq> None) xs) + length (filter (\<lambda>l. ld_snapshot_id l = None \<and> \<not> is_manual l) xs) +
      length (filter (\<lambda>l. is_manual l \<and> ld_snapshot_id l = None) xs) = length xs" for xs
    by (induction xs) auto
  from this [of ?q] show ?thesis
    unfolding groups joined unattributed_count_def count_where_def
    by (simp add: unattributed_def conj_commute conj_left_commute)
qed

lemma category_facet_counts_every_lead_witness:
  "sum_list (map fc_count (get_lead_categories [1] demo_lead_db)) +
     count_where (\<lambda>l. in_jobs [1] l \<and> is_manual l \<and> ld_snapshot_id l = None) (leads demo_lead_db) =
   count_where (in_jobs [1]) (leads demo_lead_db)"
proof -
  have "list_all (\<lambda>l. ld_snapshot_id l \<noteq> None \<longrightarrow> lead_snapshot demo_lead_db l \<noteq> None) (rows (leads demo_lead_db))"
    by code_simp
  then show ?thesis
    by (intro category_facet_counts_every_lead) (simp add: list_all_iff)
qed

end
