(* ===== verification/Coordination.thy ===== *)
theory Coordination
  imports Deps LeadPool
begin

text \<open>
  The contract between an agent and the cloud: the job endpoints of
  \<open>cloud/api/coordination.py\<close>, the read endpoints of \<open>cloud/api/jobs.py\<close> and the URL
  normalisation they use, over the crawl tables and the audit trail. A handler takes the state
  and returns it with its answer; the left side is the HTTP error.
\<close>

record cloud_db =
  cd_crawl :: crawl_db
  cd_auth :: auth_db

definition with_audit :: "datetime \<Rightarrow> audit_entry \<Rightarrow> cloud_db \<Rightarrow> cloud_db" where
  "with_audit now a db = db\<lparr>cd_auth := write_audit now a (cd_auth db)\<rparr>"

definition audit_of ::
  "current_user \<Rightarrow> string \<Rightarrow> string \<Rightarrow> nat \<Rightarrow> (string \<times> json) list option \<Rightarrow> http_request \<Rightarrow> audit_entry" where
  "audit_of me action target_type target_id detail rq =
     \<lparr>ae_user_id = Some (me_id me), ae_action = action, ae_target_type = Some target_type,
      ae_target_id = Some (py_str_nat target_id), ae_detail = detail, ae_ip = client_ip rq\<rparr>"

section \<open>Custom URLs\<close>

definition default_scheme :: "string \<Rightarrow> string" where
  "default_scheme candidate = (if py_contains candidate ''://'' then candidate else ''http://'' @ candidate)"

text \<open>The loop of \<open>_normalize_custom_urls\<close>: accepted and invalid entries; \<open>urlsplit\<close> may raise.\<close>

fun normalize_loop :: "string list \<Rightarrow> string list \<Rightarrow> string list \<Rightarrow> py_exn + string list \<times> string list" where
  "normalize_loop [] normalized invalid = Inr (normalized, invalid)"
| "normalize_loop (raw # urls) normalized invalid =
     (if py_strip raw = [] then normalize_loop urls normalized invalid
      else
        (case url_netloc (default_scheme (py_strip raw)) of
           Inl x \<Rightarrow> Inl x
         | Inr netloc \<Rightarrow>
             if netloc = [] then normalize_loop urls normalized (invalid @ [raw])
             else
               (let candidate = default_scheme (py_strip raw) in
                normalize_loop urls (if candidate \<in> set normalized then normalized else normalized @ [candidate]) invalid)))"

definition normalize_custom_urls :: "string list \<Rightarrow> nat \<Rightarrow> http_exn + string list" where
  "normalize_custom_urls urls max_urls =
     (case normalize_loop urls [] [] of
        Inl x \<Rightarrow> Inl (ServerError x)
      | Inr (normalized, invalid) \<Rightarrow>
          if invalid \<noteq> [] then Inl (HTTPException 422 (''Invalid URL(s): '' @ py_join '', '' invalid))
          else if normalized = [] then Inl (HTTPException 422 ''No valid custom URLs provided'')
          else if max_urls < length normalized
          then Inl (HTTPException 422 (''Too many custom URLs ('' @ py_str_nat (length normalized) @
                 ''); max is '' @ py_str_nat max_urls))
          else Inr normalized)"

section \<open>Policy\<close>

fun j_truthy :: "json \<Rightarrow> bool" where
  "j_truthy JNull = False"
| "j_truthy (JBool b) = b"
| "j_truthy (JInt i) = (i \<noteq> 0)"
| "j_truthy (JDec m e) = (m \<noteq> 0)"
| "j_truthy (JStr s) = (s \<noteq> [])"
| "j_truthy (JList xs) = (xs \<noteq> [])"
| "j_truthy (JObj kvs) = (kvs \<noteq> [])"

record engine_policy =
  ep_crawler :: "string \<rightharpoonup> json"
  ep_extraction :: json
  ep_weights :: weights

definition build_crawl_policy :: "app_config \<Rightarrow> bool \<Rightarrow> crawl_db \<Rightarrow> py_exn + engine_policy" where
  "build_crawl_policy config strip_target_suffixes db =
     (let stored = get_crawl_policy db in
      case cf_crawler config of
        None \<Rightarrow> Inl KeyError
      | Some local \<Rightarrow>
          (let crawler = local ++ the_default Map.empty (cp_crawler stored)
           in Inr \<lparr>ep_crawler = (if strip_target_suffixes then crawler(''target_suffixes'' \<mapsto> JList []) else crawler),
                   ep_extraction = (case cp_extraction stored of
                        Some e \<Rightarrow> if j_truthy e then e else the_default (JObj []) (cf_extraction config)
                      | None \<Rightarrow> the_default (JObj []) (cf_extraction config)),
                   ep_weights = lead_score_weights db\<rparr>))"

definition max_custom_urls :: "engine_policy \<Rightarrow> nat" where
  "max_custom_urls p = (case ep_crawler p ''max_custom_urls'' of Some (JInt n) \<Rightarrow> nat n | _ \<Rightarrow> 50)"

section \<open>Jobs\<close>

definition authorized_job ::
  "nat \<Rightarrow> current_user \<Rightarrow> string option \<Rightarrow> cloud_db \<Rightarrow> http_exn + crawl_job" where
  "authorized_job job_id me allow db =
     (case get_job job_id None True (cd_crawl db) of
        None \<Rightarrow> Inl (HTTPException 404 ''Job not found'')
      | Some job \<Rightarrow>
          (case forbid_unless_owner (jb_owner_id job) me allow of
             Some x \<Rightarrow> Inl x
           | None \<Rightarrow> Inr job))"

record job_started =
  js_job_id :: nat
  js_seeds :: "(string \<times> nat option) list"
  js_policy :: engine_policy

text \<open>Snapshots for the selected domains, in order; a domain without a URL is passed over.\<close>

fun seed_domains :: "nat \<Rightarrow> datetime \<Rightarrow> domain_dict list \<Rightarrow> crawl_db \<Rightarrow> crawl_db \<times> (py_exn + (string \<times> nat option) list)" where
  "seed_domains job_id now [] db = (db, Inr [])"
| "seed_domains job_id now (d # ds) db =
     (let url = py_or (de_contact_url d) (de_main_url d) in
      if \<not> truthy url then seed_domains job_id now ds db
      else
        (case create_crawl_snapshot id job_id d True now db of
           (db1, Inl x) \<Rightarrow> (db1, Inl x)
         | (db1, Inr i) \<Rightarrow>
             (case seed_domains job_id now ds db1 of
                (db2, Inl x) \<Rightarrow> (db2, Inl x)
              | (db2, Inr seeds) \<Rightarrow> (db2, Inr ((the url, Some i) # seeds)))))"

definition launch_job ::
  "datetime \<Rightarrow> http_request \<Rightarrow> current_user \<Rightarrow> nat \<Rightarrow> (string \<times> nat option) list \<Rightarrow> engine_policy \<Rightarrow>
   cloud_db \<Rightarrow> cloud_db \<times> (http_exn + job_started)" where
  "launch_job now rq me job_id seeds policy db =
     (with_audit now (audit_of me ''job.create'' ''job'' job_id (Some [(''seed_count'', JInt (int (length seeds)))]) rq)
        (db\<lparr>cd_crawl := start_job job_id now (cd_crawl db)\<rparr>),
      Inr \<lparr>js_job_id = job_id, js_seeds = seeds, js_policy = policy\<rparr>)"

definition create_custom_job ::
  "app_config \<Rightarrow> datetime \<Rightarrow> http_request \<Rightarrow> current_user \<Rightarrow> job_request \<Rightarrow>
   cloud_db \<Rightarrow> cloud_db \<times> (http_exn + job_started)" where
  "create_custom_job config now rq me req db =
     (case build_crawl_policy config True (cd_crawl db) of
        Inl x \<Rightarrow> (db, Inl (ServerError x))
      | Inr policy \<Rightarrow>
          (case normalize_custom_urls (the_default [] (jq_custom_urls req)) (max_custom_urls policy) of
             Inl x \<Rightarrow> (db, Inl x)
           | Inr urls \<Rightarrow>
               (case create_job (req\<lparr>jq_custom_urls := Some urls, jq_domain_ids := None\<rparr>) (Some (me_id me)) now (cd_crawl db) of
                  (c1, Inl x) \<Rightarrow> (db\<lparr>cd_crawl := c1\<rparr>, Inl (ServerError x))
                | (c1, Inr job_id) \<Rightarrow>
                    (case add_job_custom_urls job_id urls now c1 of
                       (c2, Some x) \<Rightarrow> (db\<lparr>cd_crawl := c2\<rparr>, Inl (ServerError x))
                     | (c2, None) \<Rightarrow>
                         launch_job now rq me job_id (map (\<lambda>u. (u, None)) urls) policy (db\<lparr>cd_crawl := c2\<rparr>)))))"

definition create_domain_job ::
  "app_config \<Rightarrow> datetime \<Rightarrow> http_request \<Rightarrow> current_user \<Rightarrow> job_request \<Rightarrow>
   cloud_db \<Rightarrow> cloud_db \<times> (http_exn + job_started)" where
  "create_domain_job config now rq me req db =
     (if \<not> has_items (jq_domain_ids req) then (db, Inl (HTTPException 422 ''Provide domain_ids or custom_urls''))
      else
        (let ds = get_domains_by_ids (the (jq_domain_ids req)) (cd_crawl db) in
         if ds = [] then (db, Inl (HTTPException 404 ''No matching domains found''))
         else
           (case create_job (req\<lparr>jq_custom_urls := None\<rparr>) (Some (me_id me)) now (cd_crawl db) of
              (c1, Inl x) \<Rightarrow> (db\<lparr>cd_crawl := c1\<rparr>, Inl (ServerError x))
            | (c1, Inr job_id) \<Rightarrow>
                (case seed_domains job_id now ds c1 of
                   (c2, Inl x) \<Rightarrow> (db\<lparr>cd_crawl := c2\<rparr>, Inl (ServerError x))
                 | (c2, Inr seeds) \<Rightarrow>
                     if seeds = []
                     then (db\<lparr>cd_crawl := finish_job id job_id ''failed'' (Some ''No valid URLs for selected domains'') now c2\<rparr>,
                           Inl (HTTPException 422 ''Selected domains have no crawlable URLs''))
                     else
                       (case build_crawl_policy config False c2 of
                          Inl x \<Rightarrow> (db\<lparr>cd_crawl := c2\<rparr>, Inl (ServerError x))
                        | Inr policy \<Rightarrow> launch_job now rq me job_id seeds policy (db\<lparr>cd_crawl := c2\<rparr>))))))"

definition coordination_create_job ::
  "app_config \<Rightarrow> datetime \<Rightarrow> http_request \<Rightarrow> current_user \<Rightarrow> job_request \<Rightarrow>
   cloud_db \<Rightarrow> cloud_db \<times> (http_exn + job_started)" where
  "coordination_create_job config now rq me req db =
     (if has_items (jq_custom_urls req) then create_custom_job config now rq me req db
      else create_domain_job config now rq me req db)"

text \<open>The answer is the numbers of accepted and of all items.\<close>

definition coordination_save_leads ::
  "(nat \<Rightarrow> save_env) \<Rightarrow> (string \<Rightarrow> json option) \<Rightarrow> datetime \<Rightarrow> current_user \<Rightarrow> nat \<Rightarrow> lead_item option list \<Rightarrow>
   cloud_db \<Rightarrow> cloud_db \<times> (http_exn + nat \<times> nat)" where
  "coordination_save_leads env loads now me job_id items db =
     (case authorized_job job_id me None db of
        Inl x \<Rightarrow> (db, Inl x)
      | Inr _ \<Rightarrow>
          (case bulk_save_leads env loads (map (map_option (\<lambda>it. it\<lparr>li_job_id := job_id\<rparr>)) items) (Some (me_id me)) now (cd_crawl db) of
             (c1, results) \<Rightarrow> (db\<lparr>cd_crawl := c1\<rparr>, Inr (length (filter id results), length results))))"

definition coordination_heartbeat ::
  "datetime \<Rightarrow> current_user \<Rightarrow> nat \<Rightarrow> crawl_metrics \<Rightarrow> cloud_db \<Rightarrow> cloud_db \<times> (http_exn + bool)" where
  "coordination_heartbeat now me job_id metrics db =
     (case authorized_job job_id me None db of
        Inl x \<Rightarrow> (db, Inl x)
      | Inr _ \<Rightarrow> (case heartbeat id job_id metrics now (cd_crawl db) of
                    (c1, cancel) \<Rightarrow> (db\<lparr>cd_crawl := c1\<rparr>, Inr cancel)))"

definition coordination_finish_job ::
  "datetime \<Rightarrow> http_request \<Rightarrow> current_user \<Rightarrow> nat \<Rightarrow> string \<Rightarrow> string option \<Rightarrow> cloud_db \<Rightarrow> cloud_db \<times> http_exn option" where
  "coordination_finish_job now rq me job_id status error db =
     (case authorized_job job_id me None db of
        Inl x \<Rightarrow> (db, Some x)
      | Inr _ \<Rightarrow>
          (with_audit now (audit_of me ''job.finish'' ''job'' job_id
               (Some [(''status'', JStr status), (''error'', j_opt_str error)]) rq)
             (db\<lparr>cd_crawl := finish_job id job_id status error now (cd_crawl db)\<rparr>), None))"

definition coordination_cancel_job ::
  "datetime \<Rightarrow> http_request \<Rightarrow> current_user \<Rightarrow> nat \<Rightarrow> cloud_db \<Rightarrow> cloud_db \<times> http_exn option" where
  "coordination_cancel_job now rq me job_id db =
     (case authorized_job job_id me (Some ''crawl.cancel_all'') db of
        Inl x \<Rightarrow> (db, Some x)
      | Inr _ \<Rightarrow>
          (with_audit now (audit_of me ''job.cancel'' ''job'' job_id None rq)
             (db\<lparr>cd_crawl := set_cancel_requested job_id (cd_crawl db)\<rparr>), None))"

text \<open>Snapshots built again from the catalog for a job that has none.\<close>

fun rebuild_snapshots :: "nat \<Rightarrow> datetime \<Rightarrow> domain_dict list \<Rightarrow> crawl_db \<Rightarrow> crawl_db \<times> py_exn option" where
  "rebuild_snapshots job_id now [] db = (db, None)"
| "rebuild_snapshots job_id now (d # ds) db =
     (if truthy (de_contact_url d) \<or> truthy (de_main_url d)
      then (case create_crawl_snapshot id job_id d True now db of
              (db1, Inl x) \<Rightarrow> (db1, Some x)
            | (db1, Inr _) \<Rightarrow> rebuild_snapshots job_id now ds db1)
      else rebuild_snapshots job_id now ds db)"

text \<open>A seed of a resumed job may have no URL at all; the answer then carries a null.\<close>

record job_resumed =
  jr_job_id :: nat
  jr_seeds :: "(string option \<times> nat option) list"
  jr_policy :: engine_policy

definition resume_seeds ::
  "datetime \<Rightarrow> crawl_job \<Rightarrow> crawl_db \<Rightarrow> crawl_db \<times> (py_exn + (string option \<times> nat option) list)" where
  "resume_seeds now job db =
     (if jb_source_type job = ''custom_urls''
      then (db, Inr (map (\<lambda>c. (Some (cu_url c), None)) (get_job_custom_urls (jb_id job) db)))
      else
        (let (db1, err) =
           (if get_crawl_snapshots (jb_id job) True db = []
            then rebuild_snapshots (jb_id job) now (get_domains_by_ids (get_job_domain_ids (jb_id job) db) db) db
            else (db, None))
         in case err of
              Some x \<Rightarrow> (db1, Inl x)
            | None \<Rightarrow> (db1, Inr (map (\<lambda>s. (py_or (de_main_url s) (de_contact_url s), Some (sn_id s)))
                (get_crawl_snapshots (jb_id job) True db1)))))"

definition coordination_resume_job ::
  "app_config \<Rightarrow> datetime \<Rightarrow> http_request \<Rightarrow> current_user \<Rightarrow> nat \<Rightarrow> string option \<Rightarrow>
   cloud_db \<Rightarrow> cloud_db \<times> (http_exn + job_resumed)" where
  "coordination_resume_job config now rq me job_id agent_id db =
     (case authorized_job job_id me None db of
        Inl x \<Rightarrow> (db, Inl x)
      | Inr job \<Rightarrow>
          (let (c1, claimed) = (if truthy agent_id then claim_or_verify_job_agent job_id (the agent_id) (cd_crawl db)
                                else (cd_crawl db, True))
           in if \<not> claimed
              then (db\<lparr>cd_crawl := c1\<rparr>, Inl (HTTPException 403
                ''This job was started by a different agent and can only be resumed from that machine''))
              else
                (case resume_seeds now job (resume_job job_id c1) of
                   (c2, Inl x) \<Rightarrow> (db\<lparr>cd_crawl := c2\<rparr>, Inl (ServerError x))
                 | (c2, Inr seeds) \<Rightarrow>
                     (case build_crawl_policy config False c2 of
                        Inl x \<Rightarrow> (db\<lparr>cd_crawl := c2\<rparr>, Inl (ServerError x))
                      | Inr policy \<Rightarrow>
                          (with_audit now (audit_of me ''job.resume'' ''job'' job_id None rq) (db\<lparr>cd_crawl := c2\<rparr>),
                           Inr \<lparr>jr_job_id = job_id, jr_seeds = seeds, jr_policy = policy\<rparr>)))))"

section \<open>Reads\<close>

definition api_list_jobs :: "nat \<Rightarrow> nat \<Rightarrow> current_user \<Rightarrow> cloud_db \<Rightarrow> crawl_job list \<times> nat" where
  "api_list_jobs limit page me db = list_jobs limit page (Some (me_id me)) (can me ''jobs.view_all'') (cd_crawl db)"

definition api_get_job :: "nat \<Rightarrow> current_user \<Rightarrow> cloud_db \<Rightarrow> http_exn + crawl_job" where
  "api_get_job job_id me db =
     (case get_job job_id (Some (me_id me)) (can me ''jobs.view_all'') (cd_crawl db) of
        None \<Rightarrow> Inl (HTTPException 404 ''Job not found'')
      | Some job \<Rightarrow> Inr job)"

datatype job_seed = Custom_seed job_custom_url | Domain_seed crawl_snapshot

definition get_job_seeds :: "nat \<Rightarrow> current_user \<Rightarrow> cloud_db \<Rightarrow> http_exn + job_seed list" where
  "get_job_seeds job_id me db =
     (case api_get_job job_id me db of
        Inl x \<Rightarrow> Inl x
      | Inr job \<Rightarrow>
          Inr (if jb_source_type job = ''custom_urls'' then map Custom_seed (get_job_custom_urls job_id (cd_crawl db))
               else map Domain_seed (get_crawl_snapshots job_id True (cd_crawl db))))"

section \<open>Ownership\<close>

lemma authorized_job_InrD:
  "authorized_job job_id me allow db = Inr job \<Longrightarrow>
     find_job job_id (cd_crawl db) = Some job \<and>
     (jb_owner_id job = Some (me_id me) \<or> me_is_admin me \<or> truthy allow \<and> can me (the allow))"
  by (auto simp: authorized_job_def get_job_def find_job_def forbid_unless_owner_def split: option.splits if_splits)

lemma authorized_job_refused:
  assumes "find_job job_id (cd_crawl db) = Some job" "jb_owner_id job \<noteq> Some (me_id me)" "\<not> me_is_admin me"
    "\<not> (truthy allow \<and> can me (the allow))"
  shows "authorized_job job_id me allow db = Inl (HTTPException 403 ''Insufficient permissions'')"
  using assms by (auto simp: authorized_job_def get_job_def find_job_def forbid_unless_owner_def)

text \<open>The writes an agent makes on a job, with the permission that widens ownership.\<close>

datatype write_kind =
  W_leads "nat \<Rightarrow> save_env" "lead_item option list"
| W_heartbeat crawl_metrics
| W_finish string "string option"
| W_cancel
| W_resume "string option"

fun write_allow :: "write_kind \<Rightarrow> string option" where
  "write_allow W_cancel = Some ''crawl.cancel_all''"
| "write_allow _ = None"

fun job_write ::
  "(string \<Rightarrow> json option) \<Rightarrow> app_config \<Rightarrow> datetime \<Rightarrow> http_request \<Rightarrow> current_user \<Rightarrow> nat \<Rightarrow> write_kind \<Rightarrow>
   cloud_db \<Rightarrow> cloud_db \<times> http_exn option" where
  "job_write loads config now rq me i (W_leads env items) db =
     (case coordination_save_leads env loads now me i items db of (db', r) \<Rightarrow> (db', case r of Inl x \<Rightarrow> Some x | Inr _ \<Rightarrow> None))"
| "job_write loads config now rq me i (W_heartbeat m) db =
     (case coordination_heartbeat now me i m db of (db', r) \<Rightarrow> (db', case r of Inl x \<Rightarrow> Some x | Inr _ \<Rightarrow> None))"
| "job_write loads config now rq me i (W_finish st e) db = coordination_finish_job now rq me i st e db"
| "job_write loads config now rq me i W_cancel db = coordination_cancel_job now rq me i db"
| "job_write loads config now rq me i (W_resume a) db =
     (case coordination_resume_job config now rq me i a db of (db', r) \<Rightarrow> (db', case r of Inl x \<Rightarrow> Some x | Inr _ \<Rightarrow> None))"

text \<open>C22.
  A user who does not own a job and is no administrator can neither write to it nor change
  anything through the job endpoints: every write is answered 403 and leaves the database as it
  was. One write is excepted: a holder of the permission \<open>crawl.cancel_all\<close> may cancel any job.
\<close>

theorem job_writes_need_ownership:
  assumes "find_job i (cd_crawl db) = Some job" "jb_owner_id job \<noteq> Some (me_id me)" "\<not> me_is_admin me"
    and "wr \<noteq> W_cancel \<or> ''crawl.cancel_all'' \<notin> me_permissions me"
  shows "job_write loads config now rq me i wr db = (db, Some (HTTPException 403 ''Insufficient permissions''))"
proof -
  have "authorized_job i me (write_allow wr) db = Inl (HTTPException 403 ''Insufficient permissions'')"
  proof (rule authorized_job_refused [OF assms(1-3)])
    show "\<not> (truthy (write_allow wr) \<and> can me (the (write_allow wr)))"
      using assms(3,4) by (cases wr) (auto simp: can_def)
  qed
  then show ?thesis
    by (cases wr) (simp_all add: coordination_save_leads_def coordination_heartbeat_def coordination_finish_job_def
        coordination_cancel_job_def coordination_resume_job_def)
qed

definition demo_cloud :: cloud_db where
  "demo_cloud = \<lparr>cd_crawl = demo_job_db, cd_auth = empty_auth\<rparr>"

definition agent_request :: http_request where
  "agent_request = \<lparr>rq_method = ''POST'', rq_authorization = Some ''Bearer t'', rq_access_cookie = None,
     rq_refresh_cookie = None, rq_csrf_cookie = None, rq_csrf_header = None, rq_forwarded_for = None,
     rq_user_agent = None, rq_client_host = None\<rparr>"

definition demo_config :: app_config where
  "demo_config = \<lparr>cf_crawler = Some [''target_suffixes'' \<mapsto> JList [JStr ''.gov.in'']], cf_extraction = None, cf_weights = None\<rparr>"

definition demo_operator :: "nat \<Rightarrow> current_user" where
  "demo_operator i = \<lparr>me_id = i, me_email = ''op@x.in'', me_is_admin = False, me_permissions = {''crawl.run''}\<rparr>"

lemma job_writes_need_ownership_witness:
  "job_write (\<lambda>_. None) demo_config 9 agent_request (demo_operator 8) 1 (W_finish ''done'' None) demo_cloud =
     (demo_cloud, Some (HTTPException 403 ''Insufficient permissions'')) \<and>
   snd (job_write (\<lambda>_. None) demo_config 9 agent_request (demo_operator 7) 1 (W_finish ''done'' None) demo_cloud) = None"
proof
  have row: "find_job 1 (cd_crawl demo_cloud) = Some demo_row"
    using demo_job_found by (simp add: demo_cloud_def)
  then show "job_write (\<lambda>_. None) demo_config 9 agent_request (demo_operator 8) 1 (W_finish ''done'' None) demo_cloud =
     (demo_cloud, Some (HTTPException 403 ''Insufficient permissions''))"
    by (rule job_writes_need_ownership) (simp_all add: demo_operator_def demo_row_def)
  show "snd (job_write (\<lambda>_. None) demo_config 9 agent_request (demo_operator 7) 1 (W_finish ''done'' None) demo_cloud) = None"
    using row by (simp add: coordination_finish_job_def authorized_job_def get_job_def find_job_def
        forbid_unless_owner_def demo_operator_def demo_row_def)
qed

section \<open>Creating and resuming a job of custom URLs\<close>

definition custom_fk :: "crawl_db \<Rightarrow> bool" where
  "custom_fk db = (\<forall>r \<in> set (rows (custom_urls db)). cu_job_id r < next_id (jobs db))"

lemma sort_key_inserted:
  "sort_key cu_id (map (\<lambda>(i, x). mk_custom_url x i) (enumerate n xs)) = map (\<lambda>(i, x). mk_custom_url x i) (enumerate n xs)"
  by (rule sort_key_id_if_sorted)
    (auto simp: comp_def split_def mk_custom_url_def sorted_iff_nth_mono enumerate_eq_zip)

lemma urls_of_new_job:
  assumes "custom_fk db" "add_job_custom_urls i urls now c = (c', None)" "custom_urls c = custom_urls db"
    "i = next_id (jobs db)"
  shows "map cu_url (get_job_custom_urls i c') = urls"
proof -
  have none: "filter (\<lambda>r. cu_job_id r = i) (rows (custom_urls c)) = []"
    using assms(1,3,4) by (auto simp: custom_fk_def filter_empty_conv)
  have c': "rows (custom_urls c') = rows (custom_urls c) @
      map (\<lambda>(i, x). mk_custom_url x i) (enumerate (next_id (custom_urls c)) (map (\<lambda>u. (i, u, now)) urls))"
    using assms(2) by (auto simp: add_job_custom_urls_def table_simps split: if_splits)
  have all: "filter (\<lambda>r. cu_job_id r = i) (map (\<lambda>(i, x). mk_custom_url x i) (enumerate n (map (\<lambda>u. (i, u, now)) urls))) =
      map (\<lambda>(i, x). mk_custom_url x i) (enumerate n (map (\<lambda>u. (i, u, now)) urls))" for n
    by (rule filter_True) (auto simp: mk_custom_url_def enumerate_eq_zip set_zip)
  have "map cu_url (map (\<lambda>(i, x). mk_custom_url x i) (enumerate n xs)) = map (\<lambda>x. fst (snd x)) xs" for n xs
    by (induction xs arbitrary: n) (auto simp: mk_custom_url_def)
  then show ?thesis
    by (simp add: get_job_custom_urls_def select_where_def c' none all sort_key_inserted comp_def)
qed

lemma normalize_custom_urls_nonempty: "normalize_custom_urls raw n = Inr urls \<Longrightarrow> urls \<noteq> []"
  by (auto simp: normalize_custom_urls_def split: sum.splits prod.splits if_splits)

lemma create_job_shape:
  assumes "create_job rq ow now c = (c', Inr i)"
  shows "i = next_id (jobs c)" "custom_urls c' = custom_urls c" "settings c' = settings c"
    "jobs c' = fst (insert_row (mk_job (rq, ow, now)) (jobs c))"
  using assms by (auto simp: create_job_def insert_row_def Let_def split: if_splits)

lemma add_urls_frame:
  assumes "add_job_custom_urls i us now c = (c', r)"
  shows "jobs c' = jobs c" "settings c' = settings c"
  using assms by (auto simp: add_job_custom_urls_def split: if_splits)

lemma update_job_frame [simp]:
  "custom_urls (update_job i f c) = custom_urls c" "settings (update_job i f c) = settings c"
  by (simp_all add: update_job_def)

lemma find_new_job:
  assumes "job_keys.keys_ok (jobs c)"
  shows "first_where (\<lambda>j. jb_id j = next_id (jobs c)) (fst (insert_row (mk_job a) (jobs c))) = Some (mk_job a (next_id (jobs c)))"
proof -
  have "first_where (\<lambda>j. jb_id j = next_id (jobs c)) (jobs c) = None"
    using assms by (auto simp: first_where_None_iff job_keys.keys_ok_def)
  then show ?thesis by (simp add: first_where_insert_row)
qed

lemma resume_custom_job:
  assumes row: "find_job i c = Some job" and owner: "jb_owner_id job = Some (me_id me)"
    and custom: "jb_source_type job = ''custom_urls''" and agent: "jb_agent_hostname job = agent_id"
    and config: "cf_crawler config = Some local"
  shows "\<exists>db' jr. coordination_resume_job config now rq me i agent_id \<lparr>cd_crawl = c, cd_auth = au\<rparr> = (db', Inr jr) \<and>
    jr_seeds jr = map (\<lambda>u. (Some u, None)) (map cu_url (get_job_custom_urls i c)) \<and>
    ep_crawler (jr_policy jr) = local ++ the_default Map.empty (cp_crawler (get_crawl_policy c))"
proof -
  have id: "jb_id job = i" using find_job_SomeD [OF row] by simp
  have auth: "authorized_job i me None \<lparr>cd_crawl = c, cd_auth = au\<rparr> = Inr job"
    using row owner by (simp add: authorized_job_def get_job_def find_job_def forbid_unless_owner_def)
  have claim: "truthy agent_id \<Longrightarrow> claim_or_verify_job_agent i (the agent_id) c = (c, True)"
    using row agent by (cases agent_id) (auto simp: claim_or_verify_job_agent_def)
  have policy: "get_crawl_policy (resume_job i c) = get_crawl_policy c"
    by (simp add: get_crawl_policy_def get_app_setting_def resume_job_def)
  have urls: "get_job_custom_urls i (resume_job i c) = get_job_custom_urls i c"
    by (simp add: get_job_custom_urls_def resume_job_def)
  show ?thesis
    by (simp add: coordination_resume_job_def auth claim resume_seeds_def custom id urls build_crawl_policy_def
        policy config Let_def)
qed

text \<open>
  Resuming a job of custom URLs hands back the seeds it was created with, in order. The policy is
  not the one it was created with: at creation the suffix filter is switched off, on resume it is
  the stored one, so that custom URLs outside the government domains are dropped again.
\<close>

theorem custom_job_resumes_with_same_seeds:
  assumes run: "coordination_create_job config now rq me req db = (db1, Inr js)" and custom: "has_items (jq_custom_urls req)"
    and keys: "job_keys.keys_ok (jobs (cd_crawl db))" and fk: "custom_fk (cd_crawl db)"
  shows "\<exists>db2 jr local. coordination_resume_job config later rq me (js_job_id js) (jq_agent_id req) db1 = (db2, Inr jr) \<and>
    jr_seeds jr = map (\<lambda>s. (Some (fst s), snd s)) (js_seeds js) \<and> js_seeds js \<noteq> [] \<and>
    ep_crawler (js_policy js) ''target_suffixes'' = Some (JList []) \<and>
    cf_crawler config = Some local \<and>
    ep_crawler (jr_policy jr) = local ++ the_default Map.empty (cp_crawler (get_crawl_policy (cd_crawl db)))"
proof -
  let ?c = "cd_crawl db"
  from run custom obtain policy urls i c1 c2 where
    policy: "build_crawl_policy config True ?c = Inr policy" and
    urls: "normalize_custom_urls (the_default [] (jq_custom_urls req)) (max_custom_urls policy) = Inr urls" and
    job: "create_job (req\<lparr>jq_custom_urls := Some urls, jq_domain_ids := None\<rparr>) (Some (me_id me)) now ?c = (c1, Inr i)" and
    added: "add_job_custom_urls i urls now c1 = (c2, None)" and
    launch: "launch_job now rq me i (map (\<lambda>u. (u, None)) urls) policy (db\<lparr>cd_crawl := c2\<rparr>) = (db1, Inr js)"
    by (auto simp: coordination_create_job_def create_custom_job_def split: sum.splits prod.splits option.splits)
  note shape = create_job_shape [OF job] and frame = add_urls_frame [OF added]
  let ?row = "mk_job (req\<lparr>jq_custom_urls := Some urls, jq_domain_ids := None\<rparr>, Some (me_id me), now) i"
  have c3: "db1 = \<lparr>cd_crawl = start_job i now c2, cd_auth = cd_auth db1\<rparr>" "js_job_id js = i"
    "js_seeds js = map (\<lambda>u. (u, None)) urls" "js_policy js = policy"
    using launch by (auto simp: launch_job_def with_audit_def)
  have found: "find_job i (start_job i now c2) = Some (?row\<lparr>jb_status := ''running'', jb_started_at := Some now\<rparr>)"
  proof -
    have "find_job i c2 = Some ?row"
      using find_new_job [OF keys] by (simp add: find_job_def frame shape)
    then show ?thesis by (simp add: start_job_def find_job_update)
  qed
  have row: "jb_source_type ?row = ''custom_urls''" "jb_owner_id ?row = Some (me_id me)" "jb_agent_hostname ?row = jq_agent_id req"
    using normalize_custom_urls_nonempty [OF urls] by (simp_all add: mk_job_def Let_def has_items_def crawl_metrics.defs)
  from policy obtain local where local: "cf_crawler config = Some local"
    by (auto simp: build_crawl_policy_def Let_def split: option.splits)
  have stripped: "ep_crawler policy ''target_suffixes'' = Some (JList [])"
    using policy local by (auto simp: build_crawl_policy_def Let_def)
  have stored: "get_crawl_policy (start_job i now c2) = get_crawl_policy ?c"
    by (simp add: get_crawl_policy_def get_app_setting_def start_job_def frame shape)
  have list: "map cu_url (get_job_custom_urls i (start_job i now c2)) = urls"
    using urls_of_new_job [OF fk added shape(2,1)] by (simp add: get_job_custom_urls_def start_job_def)
  obtain db2 jr where res: "coordination_resume_job config later rq me i (jq_agent_id req) db1 = (db2, Inr jr)"
    "jr_seeds jr = map (\<lambda>u. (Some u, None)) urls"
    "ep_crawler (jr_policy jr) = local ++ the_default Map.empty (cp_crawler (get_crawl_policy ?c))"
    using resume_custom_job [OF found, of me "jq_agent_id req" config local later rq "cd_auth db1"] row local
    unfolding list stored c3(1) [symmetric] by auto
  then show ?thesis
    using c3 stripped local normalize_custom_urls_nonempty [OF urls] by (intro exI [of _ db2] exI [of _ jr] exI [of _ local]) simp
qed

definition demo_urls_request :: job_request where
  "demo_urls_request = \<lparr>jq_domain_ids = None, jq_custom_urls = Some [''example.org/x'', '' http://b.in ''],
     jq_category_filter = None, jq_title_filter = None, jq_agent_id = Some ''m1''\<rparr>"

lemma custom_job_resumes_with_same_seeds_witness:
  "\<exists>db1 js db2 jr. coordination_create_job demo_config 5 agent_request (demo_operator 7) demo_urls_request demo_cloud = (db1, Inr js) \<and>
     coordination_resume_job demo_config 6 agent_request (demo_operator 7) (js_job_id js) (Some ''m1'') db1 = (db2, Inr jr) \<and>
     js_seeds js = [(''http://example.org/x'', None), (''http://b.in'', None)] \<and>
     jr_seeds jr = [(Some ''http://example.org/x'', None), (Some ''http://b.in'', None)] \<and>
     ep_crawler (js_policy js) ''target_suffixes'' = Some (JList []) \<and>
     ep_crawler (jr_policy jr) ''target_suffixes'' = Some (JList [JStr ''.gov.in''])"
proof -
  let ?run = "coordination_create_job demo_config 5 agent_request (demo_operator 7) demo_urls_request demo_cloud"
  have "(case snd ?run of Inl _ \<Rightarrow> None | Inr js \<Rightarrow> Some (js_seeds js)) = Some [(''http://example.org/x'', None), (''http://b.in'', None)]"
    by code_simp
  then obtain db1 js where run: "?run = (db1, Inr js)" "js_seeds js = [(''http://example.org/x'', None), (''http://b.in'', None)]"
    by (cases ?run) (auto split: sum.splits)
  have pre: "has_items (jq_custom_urls demo_urls_request)" "job_keys.keys_ok (jobs (cd_crawl demo_cloud))" "custom_fk (cd_crawl demo_cloud)"
    using demo_job_db_keys by (simp_all add: demo_urls_request_def has_items_def demo_cloud_def custom_fk_def demo_job_db_def
        create_job_def insert_row_def empty_crawl_db_def Let_def)
  have stored: "cp_crawler (get_crawl_policy (cd_crawl demo_cloud)) = Some Map.empty"
    by (simp add: demo_cloud_def demo_job_db_def create_job_def insert_row_def empty_crawl_db_def Let_def
        get_crawl_policy_def get_app_setting_def EMPTY_POLICY_def)
  from custom_job_resumes_with_same_seeds [OF run(1) pre, of 6] show ?thesis
    using run by (auto simp: stored demo_config_def demo_urls_request_def)
qed

end
