(* ===== verification/Outbox.thy ===== *)
theory Outbox
  imports Prelude
begin

text \<open>
  The durable outbox of a crawl (\<open>agent/local_store.py\<close>) and the client that drains it
  (\<open>agent/cloud_client.py\<close>). The payload and frontier types are parameters: a payload is stored
  as JSON text and read back as it was. What the network does to one flush is a \<open>delivery\<close>;
  what the server does with a delivered batch is the contract \<open>lead_sink\<close>.
\<close>

section \<open>LocalOutbox\<close>

definition MAX_ATTEMPTS :: nat where
  "MAX_ATTEMPTS = 8"

record 'p outbox_row =
  ob_id :: nat
  ob_job_id :: nat
  ob_kind :: string
  ob_payload :: 'p
  ob_created_at :: datetime
  ob_attempts :: nat
  ob_last_error :: "string option"

record 'p dead_row =
  de_id :: nat
  de_job_id :: nat
  de_kind :: string
  de_payload :: 'p
  de_last_error :: "string option"
  de_died_at :: datetime

record ('p, 'f) outbox =
  bx_rows :: "'p outbox_row table"
  bx_dead :: "'p dead_row table"
  bx_frontier :: "nat \<rightharpoonup> 'f"

definition mk_outbox_row :: "nat \<times> string \<times> 'p \<times> datetime \<Rightarrow> nat \<Rightarrow> 'p outbox_row" where
  "mk_outbox_row a i =
     (case a of (job_id, kind, payload, now) \<Rightarrow>
        \<lparr>ob_id = i, ob_job_id = job_id, ob_kind = kind, ob_payload = payload, ob_created_at = now,
         ob_attempts = 0, ob_last_error = None\<rparr>)"

definition mk_dead_row :: "nat \<times> string \<times> 'p \<times> string \<times> datetime \<Rightarrow> nat \<Rightarrow> 'p dead_row" where
  "mk_dead_row a i =
     (case a of (job_id, kind, payload, error, now) \<Rightarrow>
        \<lparr>de_id = i, de_job_id = job_id, de_kind = kind, de_payload = payload, de_last_error = Some error,
         de_died_at = now\<rparr>)"

definition enqueue :: "nat \<Rightarrow> string \<Rightarrow> 'p \<Rightarrow> datetime \<Rightarrow> ('p, 'f) outbox \<Rightarrow> ('p, 'f) outbox" where
  "enqueue job_id kind payload now bx =
     bx\<lparr>bx_rows := fst (insert_row (mk_outbox_row (job_id, kind, payload, now)) (bx_rows bx))\<rparr>"

definition pending_batch :: "string \<Rightarrow> nat \<Rightarrow> ('p, 'f) outbox \<Rightarrow> 'p outbox_row list" where
  "pending_batch kind limit bx = take limit (sort_key ob_id (select_where (\<lambda>r. ob_kind r = kind) (bx_rows bx)))"

definition ack :: "nat list \<Rightarrow> ('p, 'f) outbox \<Rightarrow> ('p, 'f) outbox" where
  "ack ids bx = bx\<lparr>bx_rows := delete_where (\<lambda>r. ob_id r \<in> set ids) (bx_rows bx)\<rparr>"

definition attempts_of :: "nat \<Rightarrow> ('p, 'f) outbox \<Rightarrow> nat" where
  "attempts_of row_id bx =
     (case first_where (\<lambda>r. ob_id r = row_id) (bx_rows bx) of None \<Rightarrow> 0 | Some r \<Rightarrow> ob_attempts r)"

definition fail_row :: "nat \<Rightarrow> nat \<Rightarrow> string \<Rightarrow> 'p \<Rightarrow> string \<Rightarrow> datetime \<Rightarrow> ('p, 'f) outbox \<Rightarrow> ('p, 'f) outbox" where
  "fail_row row_id job_id kind payload error now bx =
     (let attempts = attempts_of row_id bx + 1 in
      if MAX_ATTEMPTS \<le> attempts
      then bx\<lparr>bx_dead := fst (insert_row (mk_dead_row (job_id, kind, payload, error, now)) (bx_dead bx)),
              bx_rows := delete_where (\<lambda>r. ob_id r = row_id) (bx_rows bx)\<rparr>
      else bx\<lparr>bx_rows := update_where (\<lambda>r. ob_id r = row_id)
                (\<lambda>r. r\<lparr>ob_attempts := attempts, ob_last_error := Some error\<rparr>) (bx_rows bx)\<rparr>)"

definition is_drained :: "nat \<Rightarrow> ('p, 'f) outbox \<Rightarrow> bool" where
  "is_drained job_id bx = (count_where (\<lambda>r. ob_job_id r = job_id) (bx_rows bx) = 0)"

definition pending_count :: "('p, 'f) outbox \<Rightarrow> nat" where
  "pending_count bx = length (rows (bx_rows bx))"

definition save_frontier :: "nat \<Rightarrow> 'f \<Rightarrow> ('p, 'f) outbox \<Rightarrow> ('p, 'f) outbox" where
  "save_frontier job_id snapshot bx = bx\<lparr>bx_frontier := (bx_frontier bx)(job_id \<mapsto> snapshot)\<rparr>"

definition load_frontier :: "nat \<Rightarrow> ('p, 'f) outbox \<Rightarrow> 'f option" where
  "load_frontier job_id bx = bx_frontier bx job_id"

definition clear_frontier :: "nat \<Rightarrow> ('p, 'f) outbox \<Rightarrow> ('p, 'f) outbox" where
  "clear_frontier job_id bx = bx\<lparr>bx_frontier := (bx_frontier bx)(job_id := None)\<rparr>"

definition empty_outbox :: "('p, 'f) outbox" where
  "empty_outbox = \<lparr>bx_rows = \<lparr>rows = [], next_id = 1\<rparr>, bx_dead = \<lparr>rows = [], next_id = 1\<rparr>, bx_frontier = Map.empty\<rparr>"

section \<open>CloudApiClient\<close>

definition BATCH_SIZE :: nat where
  "BATCH_SIZE = 100"

definition BACKPRESSURE_THRESHOLD :: nat where
  "BACKPRESSURE_THRESHOLD = 5000"

definition is_backpressured :: "('p, 'f) outbox \<Rightarrow> bool" where
  "is_backpressured bx = (BACKPRESSURE_THRESHOLD < pending_count bx)"

text \<open>
  \<open>Replied\<close>: the server handled the batch and its success answer arrived. \<open>Reply_lost\<close>: it
  handled the batch and the client saw an error. \<open>Unreached\<close>: an error without any effect, an
  HTTP error status included.
\<close>

datatype delivery = Replied | Reply_lost | Unreached

definition flush_kind ::
  "('p list \<Rightarrow> 's \<Rightarrow> 's) \<Rightarrow> string \<Rightarrow> datetime \<Rightarrow> delivery \<Rightarrow> ('p, 'f) outbox \<times> 's \<Rightarrow> (('p, 'f) outbox \<times> 's) \<times> bool" where
  "flush_kind deliver kind now d st =
     (let (bx, s) = st; batch = pending_batch kind BATCH_SIZE bx in
      if batch = [] then (st, False)
      else
        (let s' = (if d = Unreached then s else deliver (map ob_payload batch) s) in
         if d = Replied then ((ack (map ob_id batch) bx, s'), True)
         else ((foldl (\<lambda>b r. fail_row (ob_id r) (ob_job_id r) kind (ob_payload r) ''error'' now b) bx batch, s'), False)))"

text \<open>
  The drain loops of \<open>finish_job\<close> and \<open>best_effort_drain\<close>: flush until the job is drained or the
  deadline is over; the list gives the clock and the network of every turn.
\<close>

fun drain ::
  "('p list \<Rightarrow> 's \<Rightarrow> 's) \<Rightarrow> nat \<Rightarrow> datetime \<Rightarrow> (datetime \<times> delivery) list \<Rightarrow> ('p, 'f) outbox \<times> 's \<Rightarrow> ('p, 'f) outbox \<times> 's" where
  "drain deliver job_id deadline [] st = st"
| "drain deliver job_id deadline ((now, d) # turns) st =
     (if is_drained job_id (fst st) \<or> deadline \<le> now then st
      else drain deliver job_id deadline turns (fst (flush_kind deliver ''lead'' now d st)))"

text \<open>
  One HTTP call with the retry on 401: \<open>send\<close> takes the token and answers a status, \<open>refresh\<close> is
  None where it raises. The answer is None when the refresh raised.
\<close>

definition request_with_retry ::
  "(string \<Rightarrow> 's \<Rightarrow> 's \<times> nat) \<Rightarrow> ('s \<Rightarrow> string) \<Rightarrow> ('s \<Rightarrow> 's option) \<Rightarrow> 's \<Rightarrow> 's \<times> nat option" where
  "request_with_retry send token_provider refresh_token s =
     (case send (token_provider s) s of
        (s1, status) \<Rightarrow>
          if status = 401
          then (case refresh_token s1 of
                  None \<Rightarrow> (s1, None)
                | Some s2 \<Rightarrow> (case send (token_provider s2) s2 of (s3, status') \<Rightarrow> (s3, Some status')))
          else (s1, Some status))"

text \<open>
  A run of the client: a lead saved by the engine, a turn of the flush loop, and \<open>C_env\<close>, what
  other clients and the cloud itself do to the server in between.
\<close>

datatype ('p, 's) client_op =
  C_save nat 'p datetime
| C_flush datetime delivery
| C_env "'s \<Rightarrow> 's"

fun client_step ::
  "('p list \<Rightarrow> 's \<Rightarrow> 's) \<Rightarrow> ('p, 'f) outbox \<times> 's \<Rightarrow> ('p, 's) client_op \<Rightarrow> ('p, 'f) outbox \<times> 's" where
  "client_step deliver (bx, s) (C_save job_id p now) = (enqueue job_id ''lead'' p now bx, s)"
| "client_step deliver (bx, s) (C_flush now d) = fst (flush_kind deliver ''lead'' now d (bx, s))"
| "client_step deliver (bx, s) (C_env f) = (bx, f s)"

section \<open>Lemmas\<close>

interpretation outbox_keys: keyed_rows ob_id mk_outbox_row
  by unfold_locales (simp add: mk_outbox_row_def split: prod.split)

lemma mk_outbox_row_sel [simp]:
  "ob_id (mk_outbox_row a i) = i" "ob_payload (mk_outbox_row (j, k, p, now) i) = p"
  "ob_job_id (mk_outbox_row (j, k, p, now) i) = j" "ob_kind (mk_outbox_row (j, k, p, now) i) = k"
  by (simp_all add: mk_outbox_row_def split: prod.split)

lemma pending_batch_subset: "r \<in> set (pending_batch k n bx) \<Longrightarrow> r \<in> set (rows (bx_rows bx))"
  by (auto simp: pending_batch_def select_where_def dest: in_set_takeD)

lemma fail_row_ids: "ob_id ` set (rows (bx_rows (fail_row i j k p e now bx))) \<subseteq> ob_id ` set (rows (bx_rows bx))"
  by (auto simp: fail_row_def Let_def table_simps)

lemma keys_fail_row: "outbox_keys.keys_ok (bx_rows bx) \<Longrightarrow> outbox_keys.keys_ok (bx_rows (fail_row i j k p e now bx))"
  by (simp add: fail_row_def Let_def outbox_keys.keys_ok_delete outbox_keys.keys_ok_update)

definition fail_batch :: "string \<Rightarrow> datetime \<Rightarrow> 'p outbox_row list \<Rightarrow> ('p, 'f) outbox \<Rightarrow> ('p, 'f) outbox" where
  "fail_batch kind now batch bx = foldl (\<lambda>b r. fail_row (ob_id r) (ob_job_id r) kind (ob_payload r) ''error'' now b) bx batch"

lemma keys_fail_batch: "outbox_keys.keys_ok (bx_rows bx) \<Longrightarrow> outbox_keys.keys_ok (bx_rows (fail_batch k now batch bx))"
  unfolding fail_batch_def by (induction batch arbitrary: bx) (simp_all add: keys_fail_row)

lemma flush_kind_cases:
  "flush_kind deliver kind now d (bx, s) =
     (let batch = pending_batch kind BATCH_SIZE bx in
      if batch = [] then ((bx, s), False)
      else if d = Replied then ((ack (map ob_id batch) bx, deliver (map ob_payload batch) s), True)
      else ((fail_batch kind now batch bx, if d = Unreached then s else deliver (map ob_payload batch) s), False))"
  by (simp add: flush_kind_def fail_batch_def Let_def)

lemma keys_client_step:
  "outbox_keys.keys_ok (bx_rows bx) \<Longrightarrow> outbox_keys.keys_ok (bx_rows (fst (client_step deliver (bx, s) op)))"
  by (cases op) (auto simp: enqueue_def outbox_keys.keys_ok_insert flush_kind_cases Let_def ack_def
      outbox_keys.keys_ok_delete keys_fail_batch)

section \<open>The contract of the receiving server\<close>

text \<open>
  \<open>deliver\<close> is the effect of a batch on the server, \<open>holds\<close> what the server owes the client for a
  payload, \<open>ready\<close> the state in which it keeps its promise.
\<close>

locale lead_sink =
  fixes deliver :: "'p list \<Rightarrow> 's \<Rightarrow> 's"
    and holds :: "'p \<Rightarrow> 's \<Rightarrow> bool"
    and ready :: "'s \<Rightarrow> bool"
  assumes stored: "ready s \<Longrightarrow> p \<in> set ps \<Longrightarrow> holds p (deliver ps s)"
    and kept: "ready s \<Longrightarrow> holds p s \<Longrightarrow> holds p (deliver ps s)"
    and stays_ready: "ready s \<Longrightarrow> ready (deliver ps s)"
begin

text \<open>A payload is safe when it is pending, dead-lettered or held by the server.\<close>

definition safe :: "('p, 'f) outbox \<times> 's \<Rightarrow> 'p \<Rightarrow> bool" where
  "safe st p \<longleftrightarrow>
     (\<exists>r \<in> set (rows (bx_rows (fst st))). ob_payload r = p) \<or>
     (\<exists>r \<in> set (rows (bx_dead (fst st))). de_payload r = p) \<or> holds p (snd st)"

definition env_ok :: "('s \<Rightarrow> 's) \<Rightarrow> bool" where
  "env_ok f \<longleftrightarrow> (\<forall>s. ready s \<longrightarrow> ready (f s) \<and> (\<forall>p. holds p s \<longrightarrow> holds p (f s)))"

lemma safe_fail_row:
  assumes "safe (bx, s) p"
    and same: "\<And>x. x \<in> set (rows (bx_rows bx)) \<Longrightarrow> ob_id x = ob_id r \<Longrightarrow> ob_payload x = ob_payload r"
  shows "safe (fail_row (ob_id r) j k (ob_payload r) e now bx, s) p"
proof (cases "MAX_ATTEMPTS \<le> attempts_of (ob_id r) bx + 1")
  case True
  with assms(1) same show ?thesis
    by (fastforce simp: safe_def fail_row_def Let_def table_simps mk_dead_row_def)
next
  case False
  with assms(1) show ?thesis
    by (auto simp: safe_def fail_row_def Let_def bex_update_where)
qed

lemma same_payload_fail_row:
  assumes "\<And>x. x \<in> set (rows (bx_rows bx)) \<Longrightarrow> ob_id x = ob_id r \<Longrightarrow> ob_payload x = ob_payload r"
    and "x \<in> set (rows (bx_rows (fail_row i j k p e now bx)))" "ob_id x = ob_id r"
  shows "ob_payload x = ob_payload r"
  using assms by (auto simp: fail_row_def Let_def table_simps split: if_splits)

lemma safe_fail_batch:
  assumes "safe (bx, s) p"
    and "\<And>r x. r \<in> set batch \<Longrightarrow> x \<in> set (rows (bx_rows bx)) \<Longrightarrow> ob_id x = ob_id r \<Longrightarrow> ob_payload x = ob_payload r"
  shows "safe (fail_batch k now batch bx, s) p"
  using assms
proof (induction batch arbitrary: bx)
  case Nil
  then show ?case by (simp add: fail_batch_def)
next
  case (Cons r batch)
  let ?bx = "fail_row (ob_id r) (ob_job_id r) k (ob_payload r) ''error'' now bx"
  have "safe (fail_batch k now batch ?bx, s) p"
  proof (rule Cons.IH)
    show "safe (?bx, s) p"
    proof (rule safe_fail_row [OF Cons.prems(1)])
      show "ob_payload x = ob_payload r" if "x \<in> set (rows (bx_rows bx))" "ob_id x = ob_id r" for x
        by (rule Cons.prems(2) [OF _ that]) simp
    qed
    show "ob_payload x = ob_payload q" if "q \<in> set batch" "x \<in> set (rows (bx_rows ?bx))" "ob_id x = ob_id q" for q x
    proof (rule same_payload_fail_row [OF _ that(2,3)])
      show "ob_payload y = ob_payload q" if "y \<in> set (rows (bx_rows bx))" "ob_id y = ob_id q" for y
        by (rule Cons.prems(2) [OF _ that]) (simp add: \<open>q \<in> set batch\<close>)
    qed
  qed
  then show ?case by (simp add: fail_batch_def)
qed

lemma safe_flush:
  assumes "safe (bx, s) p" "ready s" "outbox_keys.keys_ok (bx_rows bx)"
  shows "safe (fst (flush_kind deliver kind now d (bx, s))) p"
proof -
  let ?batch = "pending_batch kind BATCH_SIZE bx"
  let ?s = "if d = Unreached then s else deliver (map ob_payload ?batch) s"
  have held: "safe (bx, ?s) p"
    using assms(1,2) kept by (auto simp: safe_def)
  have failed: "safe (fail_batch kind now ?batch bx, ?s) p"
    using outbox_keys.keys_ok_unique [OF assms(3)] pending_batch_subset [of _ kind BATCH_SIZE bx]
    by (intro safe_fail_batch [OF held]) metis
  have acked: "safe (ack (map ob_id ?batch) bx, deliver (map ob_payload ?batch) s) p"
  proof (cases "p \<in> ob_payload ` set ?batch")
    case True
    with stored [OF assms(2)] show ?thesis by (auto simp: safe_def)
  next
    case False
    have "r \<in> set (rows (bx_rows (ack (map ob_id ?batch) bx)))" if "r \<in> set (rows (bx_rows bx))" "ob_payload r = p" for r
      using that False outbox_keys.keys_ok_unique [OF assms(3) that(1)] pending_batch_subset [of _ kind BATCH_SIZE bx]
      by (auto simp: ack_def table_simps)
    with assms(1) kept [OF assms(2)] show ?thesis
      by (auto simp: safe_def ack_def)
  qed
  show ?thesis
    using failed acked assms(1) by (cases d) (simp_all add: flush_kind_cases Let_def)
qed

lemma ready_flush: "ready s \<Longrightarrow> ready (snd (fst (flush_kind deliver kind now d (bx, s))))"
  by (simp add: flush_kind_cases Let_def stays_ready)

lemma client_step_safe:
  assumes "safe (bx, s) p \<or> (\<exists>j now. op = C_save j p now)" "ready s" "outbox_keys.keys_ok (bx_rows bx)"
    and "\<And>f. op = C_env f \<Longrightarrow> env_ok f"
  shows "safe (client_step deliver (bx, s) op) p" "ready (snd (client_step deliver (bx, s) op))"
proof -
  show "safe (client_step deliver (bx, s) op) p"
  proof (cases op)
    case (C_save j q now)
    with assms(1) show ?thesis
      by (auto simp: safe_def enqueue_def table_simps)
  next
    case (C_flush now d)
    with assms(1) safe_flush [OF _ assms(2,3)] show ?thesis by simp
  next
    case (C_env f)
    with assms(1,2,4) show ?thesis by (auto simp: safe_def env_ok_def)
  qed
  show "ready (snd (client_step deliver (bx, s) op))"
    using assms(2,4) by (cases op) (simp_all add: ready_flush env_ok_def)
qed

lemma client_run_safe:
  assumes "safe st p \<or> (\<exists>j now. C_save j p now \<in> set ops)" "ready (snd st)" "outbox_keys.keys_ok (bx_rows (fst st))"
    and "\<And>f. C_env f \<in> set ops \<Longrightarrow> env_ok f"
  shows "safe (foldl (client_step deliver) st ops) p"
  using assms
proof (induction ops arbitrary: st)
  case Nil
  then show ?case by simp
next
  case (Cons op ops)
  obtain bx s where st: "st = (bx, s)" by fastforce
  have env: "env_ok f" if "op = C_env f" for f
    using that Cons.prems(4) by simp
  have "safe (client_step deliver st op) p \<or> (\<exists>j now. C_save j p now \<in> set ops)"
    using Cons.prems(1-3) client_step_safe(1) [of bx s p op] env by (auto simp: st)
  moreover have "ready (snd (client_step deliver st op))"
    using Cons.prems(2,3) env
    by (cases op) (simp_all add: st ready_flush env_ok_def)
  moreover have "outbox_keys.keys_ok (bx_rows (fst (client_step deliver st op)))"
    using Cons.prems(3) by (simp add: st keys_client_step)
  ultimately show ?case
    using Cons.IH [of "client_step deliver st op"] Cons.prems(4) by simp
qed

end

section \<open>Draining\<close>

definition all_leads :: "('p, 'f) outbox \<Rightarrow> bool" where
  "all_leads bx = list_all (\<lambda>r. ob_kind r = ''lead'') (rows (bx_rows bx))"

lemma pending_batch_all_leads:
  "all_leads bx \<Longrightarrow> pending_batch ''lead'' n bx = take n (sort_key ob_id (rows (bx_rows bx)))"
  by (simp add: pending_batch_def select_where_def all_leads_def list_all_iff filter_id_conv [THEN iffD2])

lemma length_after_ack:
  assumes "outbox_keys.keys_ok (bx_rows bx)" "all_leads bx"
  shows "length (rows (bx_rows (ack (map ob_id (pending_batch ''lead'' n bx)) bx))) = length (rows (bx_rows bx)) - n"
proof -
  let ?xs = "rows (bx_rows bx)" and ?ys = "sort_key ob_id (rows (bx_rows bx))"
  let ?in = "\<lambda>r. ob_id r \<in> set (map ob_id (take n ?ys))"
  have dist: "distinct (map ob_id ?ys)"
    using assms(1) mset_eq_imp_distinct_iff [of "map ob_id ?ys" "map ob_id ?xs"]
    by (simp add: outbox_keys.keys_ok_def)
  then have disj: "ob_id ` set (take n ?ys) \<inter> ob_id ` set (drop n ?ys) = {}"
    by (metis append_take_drop_id distinct_append map_append set_map)
  have "filter (\<lambda>r. \<not> ?in r) (drop n ?ys) = drop n ?ys" "filter (\<lambda>r. \<not> ?in r) (take n ?ys) = []"
    using disj by (auto simp: filter_id_conv filter_empty_conv)
  then have "filter (\<lambda>r. \<not> ?in r) (take n ?ys @ drop n ?ys) = drop n ?ys"
    by (simp only: filter_append append_Nil)
  then have "filter (\<lambda>r. \<not> ?in r) ?ys = drop n ?ys"
    by (subst (asm) append_take_drop_id)
  moreover have "length (filter (\<lambda>r. \<not> ?in r) ?xs) = length (filter (\<lambda>r. \<not> ?in r) ?ys)"
    by (metis mset_filter mset_sort size_mset)
  ultimately show ?thesis
    by (simp add: ack_def table_simps pending_batch_all_leads [OF assms(2)])
qed

text \<open>
  A drain over a working connection ends: with at most 100 pending leads for every turn before
  the deadline, the outbox of the job is empty afterwards.
\<close>

theorem drain_empties_outbox:
  assumes "outbox_keys.keys_ok (bx_rows bx)" "all_leads bx"
    and "\<forall>turn \<in> set turns. fst turn < deadline \<and> snd turn = Replied"
    and "length (rows (bx_rows bx)) \<le> BATCH_SIZE * length turns"
  shows "is_drained job_id (fst (drain deliver job_id deadline turns (bx, s)))"
  using assms
proof (induction turns arbitrary: bx s)
  case Nil
  then show ?case by (simp add: is_drained_def count_where_def)
next
  case (Cons turn turns)
  obtain now where turn: "turn = (now, Replied)" "now < deadline"
    using Cons.prems(3) by (cases turn) auto
  let ?batch = "pending_batch ''lead'' BATCH_SIZE bx"
  show ?case
  proof (cases "is_drained job_id bx")
    case True
    then show ?thesis by (simp add: turn)
  next
    case False
    then have "rows (bx_rows bx) \<noteq> []"
      by (auto simp: is_drained_def count_where_def)
    then have "sort_key ob_id (rows (bx_rows bx)) \<noteq> []"
      by (metis length_0_conv length_sort)
    then have batch: "?batch \<noteq> []"
      by (simp add: pending_batch_all_leads [OF Cons.prems(2)] BATCH_SIZE_def)
    let ?bx = "ack (map ob_id ?batch) bx"
    have "is_drained job_id (fst (drain deliver job_id deadline turns (?bx, deliver (map ob_payload ?batch) s)))"
    proof (rule Cons.IH)
      show "outbox_keys.keys_ok (bx_rows ?bx)"
        using Cons.prems(1) by (simp add: ack_def outbox_keys.keys_ok_delete)
      show "all_leads ?bx"
        using Cons.prems(2) by (auto simp: all_leads_def ack_def table_simps list_all_iff)
      show "\<forall>turn \<in> set turns. fst turn < deadline \<and> snd turn = Replied"
        using Cons.prems(3) by simp
      show "length (rows (bx_rows ?bx)) \<le> BATCH_SIZE * length turns"
        using Cons.prems(4) by (simp add: length_after_ack [OF Cons.prems(1,2)])
    qed
    then show ?thesis
      using False turn batch by (simp add: flush_kind_cases Let_def)
  qed
qed

definition demo_outbox :: "nat \<Rightarrow> (nat, unit) outbox" where
  "demo_outbox n = fold (\<lambda>p bx. enqueue 1 ''lead'' p 0 bx) [0..<n] empty_outbox"

lemma drain_empties_outbox_witness:
  "is_drained 1 (fst (drain (\<lambda>ps s. s @ ps) 1 30 [(1, Replied)] (demo_outbox 3, []))) \<and> \<not> is_drained 1 (demo_outbox 3)"
proof
  have keys: "outbox_keys.keys_ok (bx_rows (demo_outbox 3))"
    by (simp add: demo_outbox_def upt_rec enqueue_def empty_outbox_def insert_row_def outbox_keys.keys_ok_def)
  have "all_leads (demo_outbox 3)" "length (rows (bx_rows (demo_outbox 3))) \<le> BATCH_SIZE * length [(1::datetime, Replied)]"
    by (simp_all add: demo_outbox_def upt_rec enqueue_def empty_outbox_def insert_row_def all_leads_def BATCH_SIZE_def)
  note size = this
  have "\<forall>turn \<in> set [(1::datetime, Replied)]. fst turn < 30 \<and> snd turn = Replied" by simp
  from drain_empties_outbox [OF keys size(1) this size(2), of 1 "\<lambda>ps s. s @ ps" "[]"]
  show "is_drained 1 (fst (drain (\<lambda>ps s. s @ ps) 1 30 [(1, Replied)] (demo_outbox 3, [])))" .
  show "\<not> is_drained 1 (demo_outbox 3)" by code_simp
qed

section \<open>An outage\<close>

definition with_attempts :: "nat \<Rightarrow> ('p, 'f) outbox \<Rightarrow> bool" where
  "with_attempts n bx = list_all (\<lambda>r. ob_attempts r = n) (rows (bx_rows bx))"

definition bump :: "nat \<Rightarrow> 'p outbox_row \<Rightarrow> 'p outbox_row" where
  "bump n r = r\<lparr>ob_attempts := n, ob_last_error := Some ''error''\<rparr>"

lemma bump_sel [simp]:
  "ob_id (bump n r) = ob_id r" "ob_payload (bump n r) = ob_payload r" "ob_kind (bump n r) = ob_kind r"
  "ob_attempts (bump n r) = n" "ob_job_id (bump n r) = ob_job_id r"
  by (simp_all add: bump_def)

lemma attempts_of_row:
  assumes "outbox_keys.keys_ok (bx_rows bx)" "r \<in> set (rows (bx_rows bx))"
  shows "attempts_of (ob_id r) bx = ob_attempts r"
proof -
  have "first_where (\<lambda>x. ob_id x = ob_id r) (bx_rows bx) = Some r"
  proof (cases "first_where (\<lambda>x. ob_id x = ob_id r) (bx_rows bx)")
    case None
    with assms(2) show ?thesis by (auto simp: first_where_def find_None_iff)
  next
    case (Some x)
    then have "x \<in> set (rows (bx_rows bx))" "ob_id x = ob_id r"
      by (auto simp: first_where_def find_Some_iff)
    with outbox_keys.keys_ok_unique [OF assms(1)] assms(2) Some show ?thesis by auto
  qed
  then show ?thesis by (simp add: attempts_of_def)
qed

lemma fail_row_bumps:
  assumes "outbox_keys.keys_ok (bx_rows bx)" "r \<in> set (rows (bx_rows bx))" "Suc (ob_attempts r) < MAX_ATTEMPTS"
  shows "fail_row (ob_id r) j k p ''error'' now bx =
    bx\<lparr>bx_rows := update_where (\<lambda>x. ob_id x = ob_id r) (bump (Suc (ob_attempts r))) (bx_rows bx)\<rparr>"
  using assms(3) by (simp add: fail_row_def attempts_of_row [OF assms(1,2)] bump_def [abs_def])

lemma fail_row_buries:
  assumes "outbox_keys.keys_ok (bx_rows bx)" "r \<in> set (rows (bx_rows bx))" "MAX_ATTEMPTS \<le> Suc (ob_attempts r)"
  shows "rows (bx_rows (fail_row (ob_id r) j k p ''error'' now bx)) = filter (\<lambda>x. ob_id x \<noteq> ob_id r) (rows (bx_rows bx))"
    and "map de_payload (rows (bx_dead (fail_row (ob_id r) j k p ''error'' now bx))) = map de_payload (rows (bx_dead bx)) @ [p]"
  using assms(3) by (simp_all add: fail_row_def attempts_of_row [OF assms(1,2)] table_simps mk_dead_row_def)

lemma fail_batch_Cons:
  "fail_batch k now (r # batch) bx =
     fail_batch k now batch (fail_row (ob_id r) (ob_job_id r) k (ob_payload r) ''error'' now bx)"
  by (simp add: fail_batch_def)

lemma fail_batch_bumps:
  assumes "outbox_keys.keys_ok (bx_rows bx)" "set batch \<subseteq> set (rows (bx_rows bx))" "distinct (map ob_id batch)"
    "\<forall>r \<in> set batch. ob_attempts r = n" "Suc n < MAX_ATTEMPTS"
  shows "rows (bx_rows (fail_batch k now batch bx)) =
      map (\<lambda>r. if ob_id r \<in> ob_id ` set batch then bump (Suc n) r else r) (rows (bx_rows bx)) \<and>
    bx_dead (fail_batch k now batch bx) = bx_dead bx"
  using assms(1-4)
proof (induction batch arbitrary: bx)
  case Nil
  then show ?case by (simp add: fail_batch_def)
next
  case (Cons r batch)
  let ?bx = "fail_row (ob_id r) (ob_job_id r) k (ob_payload r) ''error'' now bx"
  have r: "r \<in> set (rows (bx_rows bx))" "ob_attempts r = n" using Cons.prems by auto
  note step = fail_row_bumps [OF Cons.prems(1) r(1)]
  have rows: "rows (bx_rows ?bx) = map (\<lambda>x. if ob_id x = ob_id r then bump (Suc n) x else x) (rows (bx_rows bx))"
    "bx_dead ?bx = bx_dead bx"
    using assms(5) r(2) by (simp_all add: step table_simps)
  have "x \<in> set (rows (bx_rows ?bx))" if "x \<in> set batch" for x
    using that Cons.prems(2,3) by (force simp: rows image_iff)
  then have IH: "rows (bx_rows (fail_batch k now batch ?bx)) =
      map (\<lambda>r. if ob_id r \<in> ob_id ` set batch then bump (Suc n) r else r) (rows (bx_rows ?bx)) \<and>
      bx_dead (fail_batch k now batch ?bx) = bx_dead ?bx"
    using Cons.prems by (intro Cons.IH) (auto simp: keys_fail_row)
  then show ?case
    using Cons.prems(3) by (auto simp: fail_batch_Cons rows)
qed

lemma fail_batch_buries:
  assumes "outbox_keys.keys_ok (bx_rows bx)" "set batch \<subseteq> set (rows (bx_rows bx))" "distinct (map ob_id batch)"
    "\<forall>r \<in> set batch. ob_attempts r = n" "MAX_ATTEMPTS \<le> Suc n"
  shows "rows (bx_rows (fail_batch k now batch bx)) = filter (\<lambda>r. ob_id r \<notin> ob_id ` set batch) (rows (bx_rows bx)) \<and>
    map de_payload (rows (bx_dead (fail_batch k now batch bx))) = map de_payload (rows (bx_dead bx)) @ map ob_payload batch"
  using assms(1-4)
proof (induction batch arbitrary: bx)
  case Nil
  then show ?case by (simp add: fail_batch_def)
next
  case (Cons r batch)
  let ?bx = "fail_row (ob_id r) (ob_job_id r) k (ob_payload r) ''error'' now bx"
  have r: "r \<in> set (rows (bx_rows bx))" "MAX_ATTEMPTS \<le> Suc (ob_attempts r)" using Cons.prems assms(5) by auto
  note rows = fail_row_buries [OF Cons.prems(1) r]
  have "x \<in> set (rows (bx_rows ?bx))" if "x \<in> set batch" for x
    using that Cons.prems(2,3) by (force simp: rows image_iff)
  then have IH: "rows (bx_rows (fail_batch k now batch ?bx)) = filter (\<lambda>r. ob_id r \<notin> ob_id ` set batch) (rows (bx_rows ?bx)) \<and>
    map de_payload (rows (bx_dead (fail_batch k now batch ?bx))) = map de_payload (rows (bx_dead ?bx)) @ map ob_payload batch"
    using Cons.prems by (intro Cons.IH) (auto simp: keys_fail_row)
  show ?case
    unfolding fail_batch_Cons using IH by (simp add: rows conj_commute)
qed

text \<open>One failing flush of an outbox whose rows share their attempt count and fit one batch.\<close>

lemma failed_flush:
  assumes ok: "outbox_keys.keys_ok (bx_rows bx)" "all_leads bx" "with_attempts n bx"
    and small: "length (rows (bx_rows bx)) \<le> BATCH_SIZE"
    and bx'_def: "bx' = fst (fst (flush_kind deliver ''lead'' now Unreached (bx, s)))"
  shows "Suc n < MAX_ATTEMPTS \<Longrightarrow> rows (bx_rows bx') = map (bump (Suc n)) (rows (bx_rows bx)) \<and> bx_dead bx' = bx_dead bx"
    and "MAX_ATTEMPTS \<le> Suc n \<Longrightarrow> rows (bx_rows bx') = [] \<and>
      map de_payload (rows (bx_dead bx')) = map de_payload (rows (bx_dead bx)) @ map ob_payload (sort_key ob_id (rows (bx_rows bx)))"
    and "snd (fst (flush_kind deliver ''lead'' now Unreached (bx, s))) = s"
proof -
  let ?xs = "rows (bx_rows bx)" let ?ys = "sort_key ob_id ?xs"
  have batch: "pending_batch ''lead'' BATCH_SIZE bx = ?ys"
    using small by (simp add: pending_batch_all_leads [OF ok(2)])
  have bx': "bx' = fail_batch ''lead'' now ?ys bx"
    by (cases "?ys = []") (simp_all add: bx'_def flush_kind_cases batch fail_batch_def)
  have dist: "distinct (map ob_id ?ys)"
    using ok(1) mset_eq_imp_distinct_iff [of "map ob_id ?ys" "map ob_id ?xs"]
    by (simp add: outbox_keys.keys_ok_def)
  have sub: "set ?ys \<subseteq> set ?xs" and att: "\<forall>r \<in> set ?ys. ob_attempts r = n"
    using ok(3) by (auto simp: with_attempts_def list_all_iff)
  show "rows (bx_rows bx') = map (bump (Suc n)) ?xs \<and> bx_dead bx' = bx_dead bx" if "Suc n < MAX_ATTEMPTS"
    using fail_batch_bumps [OF ok(1) sub dist att that, of "''lead''" now] by (simp add: bx' cong: map_cong)
  show "rows (bx_rows bx') = [] \<and>
      map de_payload (rows (bx_dead bx')) = map de_payload (rows (bx_dead bx)) @ map ob_payload ?ys" if "MAX_ATTEMPTS \<le> Suc n"
    using fail_batch_buries [OF ok(1) sub dist att that, of "''lead''" now] by (simp add: bx' filter_empty_conv)
  show "snd (fst (flush_kind deliver ''lead'' now Unreached (bx, s))) = s"
    by (simp add: flush_kind_cases Let_def)
qed

lemma sort_key_map_bump: "sort_key ob_id (map (bump n) xs) = map (bump n) (sort_key ob_id xs)"
proof -
  have ins: "insort_key ob_id (bump n x) (map (bump n) ys) = map (bump n) (insort_key ob_id x ys)" for x and ys :: "'a outbox_row list"
    by (induction ys) simp_all
  show ?thesis by (induction xs) (simp_all add: ins)
qed

lemma outage:
  assumes "outbox_keys.keys_ok (bx_rows bx)" "all_leads bx" "with_attempts n bx" "length (rows (bx_rows bx)) \<le> BATCH_SIZE"
    "length ts = MAX_ATTEMPTS - n" "n < MAX_ATTEMPTS"
  shows "let st = foldl (client_step deliver) (bx, s) (map (\<lambda>t. C_flush t Unreached) ts) in
      rows (bx_rows (fst st)) = [] \<and> snd st = s \<and>
      map de_payload (rows (bx_dead (fst st))) = map de_payload (rows (bx_dead bx)) @ map ob_payload (sort_key ob_id (rows (bx_rows bx)))"
  using assms
proof (induction ts arbitrary: bx n)
  case Nil
  then show ?case by simp
next
  case (Cons t ts)
  obtain bx' s' b where step: "flush_kind deliver ''lead'' t Unreached (bx, s) = ((bx', s'), b)"
    by (metis surj_pair)
  note flushed = failed_flush [OF Cons.prems(1-4), of bx' deliver t s, unfolded step fst_conv snd_conv, OF refl]
  show ?case
  proof (cases "Suc n < MAX_ATTEMPTS")
    case True
    then have rows: "rows (bx_rows bx') = map (bump (Suc n)) (rows (bx_rows bx))" "bx_dead bx' = bx_dead bx"
      using flushed(1) by auto
    have "outbox_keys.keys_ok (bx_rows bx')"
      using keys_client_step [OF Cons.prems(1), of deliver s "C_flush t Unreached"] by (simp add: step)
    moreover have "all_leads bx'" "with_attempts (Suc n) bx'"
      using Cons.prems(2) by (simp_all add: all_leads_def with_attempts_def rows list_all_iff)
    ultimately show ?thesis
      using Cons.IH [of bx' "Suc n"] Cons.prems(4,5) True flushed(3)
      by (simp add: step rows sort_key_map_bump comp_def)
  next
    case False
    then have "length ts = 0" using Cons.prems(5,6) unfolding list.size by arith
    then have "ts = []" by (rule length_0_conv [THEN iffD1])
    with False flushed(2,3) show ?thesis by (simp add: step)
  qed
qed

text \<open>
  A server that cannot be reached for eight turns of the flush loop costs the client the batch:
  every pending lead is in the dead-letter table, none is pending any more, and the server has
  none of them.
\<close>

theorem outage_dead_letters_the_batch:
  assumes "outbox_keys.keys_ok (bx_rows bx)" "all_leads bx" "with_attempts 0 bx"
    and "length (rows (bx_rows bx)) \<le> BATCH_SIZE" "length ts = MAX_ATTEMPTS"
  shows "let st = foldl (client_step deliver) (bx, s) (map (\<lambda>t. C_flush t Unreached) ts) in
    rows (bx_rows (fst st)) = [] \<and> snd st = s \<and>
    map de_payload (rows (bx_dead (fst st))) =
      map de_payload (rows (bx_dead bx)) @ map ob_payload (sort_key ob_id (rows (bx_rows bx)))"
  using outage [OF assms(1-4), of ts deliver s] assms(5) by (simp add: MAX_ATTEMPTS_def)

lemma outage_dead_letters_the_batch_witness:
  "let st = foldl (client_step (\<lambda>ps s. s @ ps)) (demo_outbox 2, []) (map (\<lambda>t. C_flush t Unreached) [1, 2, 3, 4, 5, 6, 7, 8]) in
   rows (bx_rows (fst st)) = [] \<and> snd st = [] \<and> map de_payload (rows (bx_dead (fst st))) = [0, 1]"
proof -
  have ok: "outbox_keys.keys_ok (bx_rows (demo_outbox 2))" "all_leads (demo_outbox 2)" "with_attempts 0 (demo_outbox 2)"
    "length (rows (bx_rows (demo_outbox 2))) \<le> BATCH_SIZE" "length [1, 2, 3, 4, 5, 6, 7, 8 :: datetime] = MAX_ATTEMPTS"
    by (simp_all add: demo_outbox_def upt_rec enqueue_def empty_outbox_def insert_row_def outbox_keys.keys_ok_def
        all_leads_def with_attempts_def BATCH_SIZE_def MAX_ATTEMPTS_def mk_outbox_row_def)
  have "map de_payload (rows (bx_dead (demo_outbox 2))) @ map ob_payload (sort_key ob_id (rows (bx_rows (demo_outbox 2)))) = [0, 1]"
    by (simp add: demo_outbox_def upt_rec enqueue_def empty_outbox_def insert_row_def)
  with outage_dead_letters_the_batch [OF ok, of "\<lambda>ps s. s @ ps" "[]"] show ?thesis
    by (simp only: Let_def)
qed

end
