(* ===== verification/Delivery.thy ===== *)
theory Delivery
  imports Coordination Outbox
begin

text \<open>
  The outbox against the cloud: the coordination endpoint provides the contract \<open>lead_sink\<close>, so
  that every lead the engine saved is pending, dead-lettered, in the pool, or was refused by a failing
  database.
\<close>

section \<open>The cloud as a lead sink\<close>

text \<open>
  The server has a clock, the number of batches it has served, its database and, for the statements
  below, the items it has answered as not accepted, each with its batch and its place. \<open>env k n\<close> is the
  environment of the item that \<open>n\<close> others follow in batch \<open>k\<close>: where the database fails, and what other
  transactions commit before the write. A malformed item is owed nothing: one without an email, or whose
  provenance text is JSON but no object.
\<close>

record sink =
  sk_clock :: datetime
  sk_calls :: nat
  sk_cloud :: cloud_db
  sk_refused :: "(nat \<times> nat \<times> lead_item) list"

type_synonym sink_env = "nat \<Rightarrow> nat \<Rightarrow> save_env"

definition item_ok :: "(string \<Rightarrow> json option) \<Rightarrow> lead_item \<Rightarrow> bool" where
  "item_ok loads it = (truthy (li_email it) \<and> (\<exists>b. department_is_url_fallback loads (li_field_provenance it) = Inr b))"

fun refused_items ::
  "(nat \<Rightarrow> save_env) \<Rightarrow> (string \<Rightarrow> json option) \<Rightarrow> lead_item list \<Rightarrow> nat option \<Rightarrow> datetime \<Rightarrow> crawl_db \<Rightarrow> (nat \<times> lead_item) list" where
  "refused_items env loads [] c now db = []"
| "refused_items env loads (it # items) c now db =
     (case save_lead (env (length items)) loads it c now db of
        (db1, r) \<Rightarrow> (if r = Inr True then [] else [(length items, it)]) @ refused_items env loads items c now db1)"

lemma refused_items_flags:
  "map fst (refused_items env loads items c now db) =
     map fst (filter (\<lambda>p. \<not> snd p) (zip (rev [0..<length items]) (snd (bulk_save_leads env loads (map Some items) c now db))))"
proof (induction items arbitrary: db)
  case (Cons it items)
  obtain db1 r where "save_lead (env (length items)) loads it c now db = (db1, r)" by fastforce
  with Cons.IH [of db1] show ?case by (cases r) (auto simp: split_def Let_def)
qed simp

definition deliver_leads ::
  "sink_env \<Rightarrow> (string \<Rightarrow> json option) \<Rightarrow> current_user \<Rightarrow> nat \<Rightarrow> lead_item list \<Rightarrow> sink \<Rightarrow> sink" where
  "deliver_leads env loads me job_id items st =
     (let k = sk_calls st;
          sent = map (\<lambda>it. it\<lparr>li_job_id := job_id\<rparr>) items
      in st\<lparr>sk_calls := k + 1,
            sk_cloud := fst (coordination_save_leads (env k) loads (sk_clock st) me job_id (map Some items) (sk_cloud st)),
            sk_refused := sk_refused st @
              map (Pair k) (refused_items (env k) loads sent (Some (me_id me)) (sk_clock st) (cd_crawl (sk_cloud st)))\<rparr>)"

definition found :: "lead_item \<Rightarrow> crawl_db \<Rightarrow> bool" where
  "found it db = (find_lead_by_email (py_lower (the (li_email it))) db \<noteq> None)"

text \<open>The lead is in the pool, or a failure of the database has refused it.\<close>

definition in_pool :: "sink_env \<Rightarrow> (string \<Rightarrow> json option) \<Rightarrow> nat \<Rightarrow> lead_item \<Rightarrow> sink \<Rightarrow> bool" where
  "in_pool env loads job_id it st =
     (item_ok loads it \<longrightarrow> found it (cd_crawl (sk_cloud st)) \<or>
        (\<exists>k n. (k, n, it\<lparr>li_job_id := job_id\<rparr>) \<in> set (sk_refused st) \<and> fst (env k n) \<noteq> None))"

definition owns :: "current_user \<Rightarrow> nat \<Rightarrow> crawl_db \<Rightarrow> bool" where
  "owns me job_id db =
     (case find_job job_id db of None \<Rightarrow> False | Some j \<Rightarrow> jb_owner_id j = Some (me_id me) \<or> me_is_admin me)"

text \<open>Other transactions neither delete a lead nor take the job away.\<close>

definition spares_leads :: "current_user \<Rightarrow> nat \<Rightarrow> (crawl_db \<Rightarrow> crawl_db) \<Rightarrow> bool" where
  "spares_leads me job_id f =
     (\<forall>d. (owns me job_id d \<longrightarrow> owns me job_id (f d)) \<and>
          (\<forall>e. find_lead_by_email e d \<noteq> None \<longrightarrow> find_lead_by_email e (f d) \<noteq> None))"

definition own_job :: "sink_env \<Rightarrow> current_user \<Rightarrow> nat \<Rightarrow> sink \<Rightarrow> bool" where
  "own_job env me job_id st =
     (owns me job_id (cd_crawl (sk_cloud st)) \<and> (\<forall>k n. spares_leads me job_id (snd (env k n))))"

lemma find_lead_insert:
  "find_lead_by_email e db \<noteq> None \<Longrightarrow> find_lead_by_email e (db\<lparr>leads := fst (insert_row mk (leads db))\<rparr>) \<noteq> None"
  by (auto simp: find_lead_by_email_def first_where_insert_row)

lemma insert_lead_keeps:
  "find_lead_by_email e db \<noteq> None \<Longrightarrow> find_lead_by_email e (fst (insert_lead fault w it sn dp c now db)) \<noteq> None"
  using find_lead_insert [of e db "mk_lead w (it, sn, dp, now)"] by (auto simp: insert_lead_def insert_row_def)

lemma insert_lead_jobs: "jobs (fst (insert_lead fault w it sn dp c now db)) = jobs db"
  by (simp add: insert_lead_def insert_row_def)

lemma attribute_lead_keeps: "find_lead_by_email e (fst (attribute_lead it now db)) = find_lead_by_email e db"
  using attribute_lead_frame(1) [OF prod.collapse [symmetric]] by (simp add: find_lead_by_email_def)

lemma store_lead_keeps: "find_lead_by_email e (store_lead race old new db) \<noteq> None \<longleftrightarrow> find_lead_by_email e (race db) \<noteq> None"
  by (simp add: store_lead_def find_lead_update)

lemma save_lead_fst_cases:
  obtains "fst (save_lead env loads it c now db) = db"
  | "fst (save_lead env loads it c now db) = snd env db"
  | l d where "fst (save_lead env loads it c now db) = store_lead (snd env) l d db"
  | l d i where "fst (save_lead env loads it c now db) =
         record_occurrence i (li_job_id it) (li_source_url it) c now (store_lead (snd env) l d db)"
  | "fst (save_lead env loads it c now db) = fst (attribute_lead it now db)"
  | sn dp w where "fst (save_lead env loads it c now db) =
      fst (insert_lead (fst env) w it sn dp c now (snd env (fst (attribute_lead it now db))))"
proof (cases "truthy (li_email it) \<and> fst env \<noteq> Some At_query")
  case False
  with that(1) show thesis by (auto simp: save_lead_def split_def)
next
  case True
  note start = this
  show thesis
  proof (cases "find_lead_by_email (py_lower (the (li_email it))) db")
    case (Some l)
    let ?new = "enrich_lead (lead_score_weights db) it l"
    consider "enrich_changes it l \<and> fst env = Some At_write" | "fst env = Some At_occurrence"
      | "\<not> (enrich_changes it l \<and> fst env = Some At_write)" "fst env \<noteq> Some At_occurrence" by blast
    then show thesis
    proof cases
      case 1
      with start Some that(2) show thesis by (simp add: save_lead_def split_def)
    next
      case 2
      with start Some that(3) [of l ?new] show thesis by (simp add: save_lead_def split_def)
    next
      case 3
      with start Some that(4) [of "ld_id l" l ?new] show thesis by (simp add: save_lead_def split_def Let_def)
    qed
  next
    case None
    obtain db1 r where a: "attribute_lead it now db = (db1, r)" by fastforce
    show thesis
    proof (cases "fst env = Some At_attribution")
      case True
      with start None that(1) show thesis by (simp add: save_lead_def split_def)
    next
      case False
      show thesis
      proof (cases r)
        case (Inl x)
        with start False None a that(5) show thesis by (simp add: save_lead_def split_def)
      next
        case (Inr sn)
        show thesis
        proof (cases "lead_department loads it sn db1")
          case (Inl x)
          with start False None a Inr that(5) show thesis by (simp add: save_lead_def split_def)
        next
          case dp: (Inr dp)
          with start False None a Inr that(6) [of "lead_score_weights db1" sn dp] show thesis
            by (simp add: save_lead_def split_def)
        qed
      qed
    qed
  qed
qed

lemma create_snapshot_returns:
  assumes "job_exists j db"
  shows "\<exists>db' i. create_crawl_snapshot id j d b now db = (db', Inr i)"
  using assms by (auto simp: create_crawl_snapshot_def Let_def insert_row_def split: option.split)

lemma attribute_lead_returns:
  assumes "job_exists (li_job_id it) db"
  shows "\<exists>db' s. attribute_lead it now db = (db', Inr s) \<and> jobs db' = jobs db \<and> leads db' = leads db"
proof -
  obtain db1 m where m: "get_netloc_domain_map db = (db1, m)" by fastforce
  then have "jobs db1 = jobs db"
    by (auto simp: get_netloc_domain_map_def Let_def split: option.splits)
  then have "job_exists (li_job_id it) db1" using assms by (simp add: job_exists_def)
  note job = this
  have "\<exists>db' s. attribute_lead it now db = (db', Inr s)"
  proof (cases "resolve_domain_for_url (li_source_url it) m (policy_suffixes db1)")
    case None
    with m show ?thesis by (simp add: attribute_lead_def)
  next
    case (Some d)
    obtain db2 i where "create_crawl_snapshot id (li_job_id it) d False now db1 = (db2, Inr i)"
      using create_snapshot_returns [OF job] by blast
    with m Some show ?thesis by (simp add: attribute_lead_def)
  qed
  then obtain db' s where "attribute_lead it now db = (db', Inr s)" by blast
  with attribute_lead_frame [OF this] show ?thesis by blast
qed

lemma save_lead_keeps:
  assumes "find_lead_by_email e db \<noteq> None" and race: "\<And>d. find_lead_by_email e d \<noteq> None \<Longrightarrow> find_lead_by_email e (snd env d) \<noteq> None"
  shows "find_lead_by_email e (fst (save_lead env loads it c now db)) \<noteq> None"
proof -
  have kept: "find_lead_by_email e (fst (attribute_lead it now db)) \<noteq> None"
    using assms(1) by (simp add: attribute_lead_keeps)
  note new = insert_lead_keeps [OF race [OF kept]]
  show ?thesis
    by (rule save_lead_fst_cases [of env loads it c now db])
      (use assms(1) race [OF assms(1)] kept new in \<open>simp_all only: store_lead_keeps find_lead_occurrence simp_thms\<close>)
qed

lemma save_lead_owns:
  assumes "owns me job_id db" and race: "\<And>d. owns me job_id d \<Longrightarrow> owns me job_id (snd env d)"
  shows "owns me job_id (fst (save_lead env loads it c now db))"
proof -
  have frame: "owns me job_id d' = owns me job_id d" if "jobs d' = jobs d" for d d'
    using find_job_frame [OF that] by (simp add: owns_def)
  have attr: "owns me job_id (fst (attribute_lead it now db))"
    using assms(1) frame [OF attribute_lead_frame(4) [OF prod.collapse [symmetric]]] by simp
  have store: "owns me job_id (store_lead (snd env) l d db)" for l d
    using race [OF assms(1)] frame [of "store_lead (snd env) l d db" "snd env db"] by (simp add: store_lead_def)
  have occ: "owns me job_id (record_occurrence i j u c now d) = owns me job_id d" for i j u d
    by (rule frame) simp
  have ins: "owns me job_id (fst (insert_lead fault w it sn dp c now d)) = owns me job_id d" for fault w sn dp d
    by (rule frame) (rule insert_lead_jobs)
  show ?thesis
    by (rule save_lead_fst_cases [of env loads it c now db])
      (use assms(1) race [OF assms(1)] attr race [OF attr] store in \<open>simp_all only: occ ins\<close>)
qed

lemma owns_job_exists: "owns me job_id d \<Longrightarrow> job_exists job_id d"
  by (auto simp: owns_def job_exists_def list_ex_iff dest: find_job_SomeD split: option.splits)

text \<open>A well-formed item is in the pool after the call, or the database has failed.\<close>

lemma save_lead_stores:
  assumes ok: "item_ok loads it" and job: "owns me (li_job_id it) db" and env: "spares_leads me (li_job_id it) (snd env)"
  shows "found it (fst (save_lead env loads it c now db)) \<or> snd (save_lead env loads it c now db) \<noteq> Inr True \<and> fst env \<noteq> None"
proof (cases "find_lead_by_email (py_lower (the (li_email it))) db")
  case (Some l)
  then show ?thesis using save_lead_keeps [of _ db env] env by (auto simp: found_def spares_leads_def)
next
  case None
  obtain db1 s where a: "attribute_lead it now db = (db1, Inr s)" "jobs db1 = jobs db"
    using attribute_lead_returns [OF owns_job_exists [OF job]] by blast
  obtain b where "department_is_url_fallback loads (li_field_provenance it) = Inr b"
    using ok by (auto simp: item_ok_def)
  then obtain dp where d: "lead_department loads it s db1 = Inr dp"
    by (cases s; cases b) (auto simp: lead_department_def)
  have "owns me (li_job_id it) db1" using job find_job_frame [OF a(2)] by (simp add: owns_def)
  then have job1: "job_exists (li_job_id it) (snd env db1)"
    using env owns_job_exists by (auto simp: spares_leads_def)
  obtain e where e: "li_email it = Some e" "e \<noteq> []"
    using ok by (cases "li_email it") (auto simp: item_ok_def)
  let ?mk = "mk_lead (lead_score_weights db1) (it, s, dp, now)"
  have stored: "find_lead_by_email (py_lower e) (d\<lparr>leads := fst (insert_row ?mk (leads d))\<rparr>) \<noteq> None" for d
    using e by (simp add: find_lead_by_email_def first_where_insert_row split: option.split)
  have run: "save_lead env loads it c now db =
      (if fst env = Some At_query then (db, Inl OperationalError)
       else if fst env = Some At_attribution then (db, Inl OperationalError)
       else insert_lead (fst env) (lead_score_weights db1) it s dp c now (snd env db1))"
    using None a(1) d e by (simp add: save_lead_def split_def)
  show ?thesis
    unfolding run found_def using e job1 stored [of "snd env db1"]
    by (auto simp: insert_lead_def insert_row_def)
qed

lemma refused_in_batch:
  assumes "it \<in> set items" "list_all (\<lambda>it. li_job_id it = job_id) items" "item_ok loads it" "owns me job_id db"
    and env: "\<And>n. spares_leads me job_id (snd (env n))"
  shows "found it (fst (bulk_save_leads env loads (map Some items) c now db)) \<or>
    (\<exists>n. (n, it) \<in> set (refused_items env loads items c now db) \<and> fst (env n) \<noteq> None)"
  using assms(1,2,4)
proof (induction items arbitrary: db)
  case (Cons x items)
  let ?e = "env (length items)"
  obtain db1 r where x: "save_lead ?e loads x c now db = (db1, r)" by fastforce
  have sp: "spares_leads me job_id (snd ?e)" by (rule env)
  have own1: "owns me job_id db1"
    using save_lead_owns [OF Cons.prems(3), of ?e loads x c now] sp x by (simp add: spares_leads_def)
  have kept: "found it (fst (bulk_save_leads env loads (map Some xs) c now d))" if "found it d" for xs d
    using that
  proof (induction xs arbitrary: d)
    case (Cons y xs)
    have "found it (fst (save_lead (env (length xs)) loads y c now d))"
      using save_lead_keeps [of _ d "env (length xs)"] Cons.prems env [of "length xs"] by (simp add: found_def spares_leads_def)
    from Cons.IH [OF this] show ?case by (simp add: Let_def split_def)
  qed simp
  show ?case
  proof (cases "it = x")
    case True
    then have "found it db1 \<or> r \<noteq> Inr True \<and> fst ?e \<noteq> None"
      using save_lead_stores [OF assms(3), of me db ?e c now] Cons.prems sp x by auto
    then show ?thesis
      using kept [of db1 items] x True by (auto simp: Let_def split_def)
  next
    case False
    then have "it \<in> set items" "list_all (\<lambda>it. li_job_id it = job_id) items" using Cons.prems by auto
    from Cons.IH [OF this own1] show ?thesis by (auto simp: x Let_def split_def)
  qed
qed simp

lemma bulk_keeps:
  assumes "\<And>n. spares_leads me job_id (snd (env n))"
  shows "find_lead_by_email e db \<noteq> None \<Longrightarrow> find_lead_by_email e (fst (bulk_save_leads env loads items c now db)) \<noteq> None"
    and "owns me job_id db \<Longrightarrow> owns me job_id (fst (bulk_save_leads env loads items c now db))"
proof -
  let ?next = "\<lambda>item items db. case item of None \<Rightarrow> db | Some it \<Rightarrow> fst (save_lead (env (length items)) loads it c now db)"
  have run: "fst (bulk_save_leads env loads (item # items) c now db) =
      fst (bulk_save_leads env loads items c now (?next item items db))" for item items db
    by (cases item) (simp_all add: Let_def split_def)
  show "find_lead_by_email e db \<noteq> None \<Longrightarrow> find_lead_by_email e (fst (bulk_save_leads env loads items c now db)) \<noteq> None"
  proof (induction items arbitrary: db)
    case (Cons item items)
    have "find_lead_by_email e (?next item items db) \<noteq> None"
      using Cons.prems assms save_lead_keeps [of e db] by (auto simp: spares_leads_def split: option.split)
    from Cons.IH [OF this] show ?case unfolding run .
  qed simp
  show "owns me job_id db \<Longrightarrow> owns me job_id (fst (bulk_save_leads env loads items c now db))"
  proof (induction items arbitrary: db)
    case (Cons item items)
    have "owns me job_id (?next item items db)"
      using Cons.prems assms save_lead_owns [of me job_id db] by (auto simp: spares_leads_def split: option.split)
    from Cons.IH [OF this] show ?case unfolding run .
  qed simp
qed

lemma deliver_leads_own_job:
  assumes "owns me job_id (cd_crawl (sk_cloud st))"
  shows "cd_crawl (sk_cloud (deliver_leads env loads me job_id items st)) =
    fst (bulk_save_leads (env (sk_calls st)) loads (map Some (map (\<lambda>it. it\<lparr>li_job_id := job_id\<rparr>) items))
      (Some (me_id me)) (sk_clock st) (cd_crawl (sk_cloud st)))"
proof -
  obtain job where "authorized_job job_id me None (sk_cloud st) = Inr job"
    using assms by (auto simp: owns_def authorized_job_def get_job_def find_job_def forbid_unless_owner_def
        split: option.splits)
  then show ?thesis
    by (simp add: deliver_leads_def coordination_save_leads_def split_def comp_def Let_def)
qed

lemma deliver_leads_sel [simp]:
  "sk_refused (deliver_leads env loads me job_id items st) = sk_refused st @
     map (Pair (sk_calls st)) (refused_items (env (sk_calls st)) loads (map (\<lambda>it. it\<lparr>li_job_id := job_id\<rparr>) items)
       (Some (me_id me)) (sk_clock st) (cd_crawl (sk_cloud st)))"
  by (simp add: deliver_leads_def Let_def)

interpretation cloud_sink: lead_sink "deliver_leads env loads me job_id" "in_pool env loads job_id" "own_job env me job_id"
proof unfold_locales
  fix st :: sink and it :: lead_item and items :: "lead_item list"
  assume own: "own_job env me job_id st"
  let ?k = "sk_calls st" and ?sent = "map (\<lambda>it. it\<lparr>li_job_id := job_id\<rparr>) items"
  have job: "owns me job_id (cd_crawl (sk_cloud st))" and env: "\<And>n. spares_leads me job_id (snd (env ?k n))"
    using own by (simp_all add: own_job_def)
  show "in_pool env loads job_id it (deliver_leads env loads me job_id items st)" if "it \<in> set items"
  proof -
    let ?it = "it\<lparr>li_job_id := job_id\<rparr>"
    have "?it \<in> set ?sent" "list_all (\<lambda>it. li_job_id it = job_id) ?sent"
      using that by (auto simp: list_all_iff)
    note batch = refused_in_batch [OF this _ job env, where loads = loads and c = "Some (me_id me)" and now = "sk_clock st"]
    show ?thesis
      unfolding in_pool_def
    proof
      assume "item_ok loads it"
      then have "item_ok loads ?it" by (simp add: item_ok_def)
      from batch [OF this] show "found it (cd_crawl (sk_cloud (deliver_leads env loads me job_id items st))) \<or>
          (\<exists>k n. (k, n, ?it) \<in> set (sk_refused (deliver_leads env loads me job_id items st)) \<and> fst (env k n) \<noteq> None)"
      proof
        assume "found ?it (fst (bulk_save_leads (env ?k) loads (map Some ?sent) (Some (me_id me)) (sk_clock st) (cd_crawl (sk_cloud st))))"
        then show ?thesis by (simp add: deliver_leads_own_job [OF job] found_def)
      next
        assume "\<exists>n. (n, ?it) \<in> set (refused_items (env ?k) loads ?sent (Some (me_id me)) (sk_clock st) (cd_crawl (sk_cloud st))) \<and>
          fst (env ?k n) \<noteq> None"
        then show ?thesis unfolding deliver_leads_sel set_append set_map by blast
      qed
    qed
  qed
  show "in_pool env loads job_id it (deliver_leads env loads me job_id items st)" if "in_pool env loads job_id it st"
    using that bulk_keeps(1) [of me job_id "env ?k", OF env] unfolding in_pool_def found_def deliver_leads_own_job [OF job]
      deliver_leads_sel set_append by blast
  show "own_job env me job_id (deliver_leads env loads me job_id items st)"
    using own bulk_keeps(2) [of me job_id "env ?k", OF env job] by (simp add: own_job_def deliver_leads_own_job [OF job])
qed

text \<open>C1.
  No lead of an owned job is lost silently, a failing database apart. A client that owns its job saves
  leads and flushes through any sequence of answers and lost answers, while others work on the cloud,
  between the requests and inside them, without deleting leads or jobs: every well-formed lead it saved is
  pending in the outbox, in its dead-letter table, in the pool of the cloud, or it was answered as not
  accepted because the database failed at it. The client acknowledges such an answer like any other:
  \<open>refused_lead_is_lost\<close>.
\<close>

theorem no_lead_lost_silently:
  fixes ops :: "(lead_item, sink) client_op list"
  assumes own: "own_job env me job_id st" and saved: "C_save j it now \<in> set ops" and ok: "item_ok loads it"
    and others: "\<And>f st'. C_env f \<in> set ops \<Longrightarrow> spares_leads me job_id (\<lambda>d. cd_crawl (sk_cloud (f (st'\<lparr>sk_cloud := (sk_cloud st')\<lparr>cd_crawl := d\<rparr>\<rparr>)))) \<and>
      sk_refused (f st') = sk_refused st'"
    and run: "foldl (client_step (deliver_leads env loads me job_id)) (empty_outbox, st) ops = (bx, st')"
  shows "(\<exists>r \<in> set (rows (bx_rows bx)). ob_payload r = it) \<or> (\<exists>r \<in> set (rows (bx_dead bx)). de_payload r = it) \<or>
    find_lead_by_email (py_lower (the (li_email it))) (cd_crawl (sk_cloud st')) \<noteq> None \<or>
    (\<exists>k n. (k, n, it\<lparr>li_job_id := job_id\<rparr>) \<in> set (sk_refused st') \<and> fst (env k n) \<noteq> None)"
proof -
  have "cloud_sink.safe env loads job_id (bx, st') it"
    unfolding run [symmetric]
  proof (rule cloud_sink.client_run_safe)
    show "cloud_sink.safe env loads job_id (empty_outbox, st) it \<or> (\<exists>j now. C_save j it now \<in> set ops)"
      using saved by blast
    show "own_job env me job_id (snd (empty_outbox, st))" using own by simp
    show "outbox_keys.keys_ok (bx_rows (fst (empty_outbox, st)))"
      by (simp add: empty_outbox_def outbox_keys.keys_ok_def)
    show "cloud_sink.env_ok env loads job_id me f" if f: "C_env f \<in> set ops" for f
      unfolding cloud_sink.env_ok_def
    proof (intro allI impI conjI)
      fix s p
      assume s: "own_job env me job_id s"
      have sp: "spares_leads me job_id (\<lambda>d. cd_crawl (sk_cloud (f (s\<lparr>sk_cloud := (sk_cloud s)\<lparr>cd_crawl := d\<rparr>\<rparr>))))"
        "sk_refused (f s) = sk_refused s"
        using others [OF f] by simp_all
      note at = sp(1) [unfolded spares_leads_def, rule_format, of "cd_crawl (sk_cloud s)"]
      show "own_job env me job_id (f s)" using s at by (simp add: own_job_def)
      show "in_pool env loads job_id p (f s)" if "in_pool env loads job_id p s"
        using that at sp(2) by (auto simp: in_pool_def found_def)
    qed
  qed
  then show ?thesis
    using ok by (auto simp: cloud_sink.safe_def in_pool_def found_def)
qed

definition agent_item :: lead_item where
  "agent_item = demo_item\<lparr>li_job_id := 1\<rparr>"

definition demo_sink :: sink where
  "demo_sink = \<lparr>sk_clock = 5, sk_calls = 0, sk_cloud = demo_cloud, sk_refused = []\<rparr>"

definition tick_clock :: "sink \<Rightarrow> sink" where
  "tick_clock st = st\<lparr>sk_clock := sk_clock st + 1\<rparr>"

lemma agent_item_ok: "item_ok (\<lambda>_. None) agent_item"
  by (simp add: item_ok_def agent_item_def demo_item_def department_is_url_fallback_def, rule exI [of _ False], simp)

lemma no_lead_lost_silently_witness:
  "\<exists>(bx :: (lead_item, unit) outbox) st'.
    foldl (client_step (deliver_leads (\<lambda>_ _. calm) (\<lambda>_. None) (demo_operator 7) 1)) (empty_outbox, demo_sink)
      [C_save 1 agent_item 5, C_flush 6 Unreached, C_flush 7 Reply_lost, C_env tick_clock, C_flush 8 Replied] = (bx, st') \<and>
    ((\<exists>r \<in> set (rows (bx_rows bx)). ob_payload r = agent_item) \<or> (\<exists>r \<in> set (rows (bx_dead bx)). de_payload r = agent_item) \<or>
     find_lead_by_email (py_lower (the (li_email agent_item))) (cd_crawl (sk_cloud st')) \<noteq> None)"
proof -
  let ?ops = "[C_save 1 agent_item 5, C_flush 6 Unreached, C_flush 7 Reply_lost, C_env tick_clock, C_flush 8 Replied]
    :: (lead_item, sink) client_op list"
  obtain bx :: "(lead_item, unit) outbox" and st' where
    run: "foldl (client_step (deliver_leads (\<lambda>_ _. calm) (\<lambda>_. None) (demo_operator 7) 1)) (empty_outbox, demo_sink) ?ops = (bx, st')"
    by fastforce
  have own: "own_job (\<lambda>_ _. calm) (demo_operator 7) 1 demo_sink"
    using demo_job_found
    by (simp add: own_job_def owns_def demo_sink_def demo_cloud_def demo_operator_def demo_row_def spares_leads_def calm_def)
  have "C_save 1 agent_item 5 \<in> set ?ops" by simp
  moreover have "spares_leads (demo_operator 7) 1 (\<lambda>d. cd_crawl (sk_cloud (f (st\<lparr>sk_cloud := (sk_cloud st)\<lparr>cd_crawl := d\<rparr>\<rparr>)))) \<and>
      sk_refused (f st) = sk_refused st"
    if "C_env f \<in> set ?ops" for f st
    using that by (auto simp: tick_clock_def spares_leads_def)
  ultimately show ?thesis
    using no_lead_lost_silently [OF own _ agent_item_ok _ run] run by (auto simp: calm_def)
qed

text \<open>
  A database that fails at the insert: the batch is answered, the client acknowledges it, and the lead is
  neither pending nor dead-lettered nor in the pool.
\<close>

lemma refused_lead_is_lost:
  "let (bx :: (lead_item, unit) outbox, st) =
      foldl (client_step (deliver_leads (\<lambda>_ _. (Some At_write, id)) (\<lambda>_. None) (demo_operator 7) 1)) (empty_outbox, demo_sink)
        [C_save 1 agent_item 5, C_flush 6 Replied]
   in rows (bx_rows bx) = [] \<and> rows (bx_dead bx) = [] \<and> rows (leads (cd_crawl (sk_cloud st))) = [] \<and>
      sk_refused st = [(0, 0, agent_item)]"
  by code_simp

end
