(* ===== verification/Pagination.thy ===== *)
theory Pagination
  imports Urls
begin

text \<open>
  The pagination classifiers of \<open>agent/crawler/pagination.py\<close> with the part of
  \<open>urllib.parse.parse_qs\<close> they rest on. A decoded query is a list of Unicode code points,
  because percent escapes reach beyond the characters of the model.
\<close>

section \<open>Percent decoding\<close>

definition hex_value :: "char \<Rightarrow> nat" where
  "hex_value c = (let n = code_point c in if n \<le> 57 then n - 48 else if n \<le> 70 then n - 55 else n - 87)"

text \<open>\<open>unquote_to_bytes\<close>: an escape without two hexadecimal digits stays as it is.\<close>

fun unquote_to_bytes :: "string \<Rightarrow> nat list" where
  "unquote_to_bytes [] = []"
| "unquote_to_bytes [c] = [code_point c]"
| "unquote_to_bytes [c, d] = [code_point c, code_point d]"
| "unquote_to_bytes (c # h # l # s) =
     (if c = CHR ''%'' \<and> is_hex_digit h \<and> is_hex_digit l
      then (16 * hex_value h + hex_value l) # unquote_to_bytes s
      else code_point c # unquote_to_bytes (h # l # s))"

text \<open>UTF-8 with \<open>errors='replace'\<close>: the number of continuation bytes and the range of the first.\<close>

definition REPLACEMENT :: nat where
  "REPLACEMENT = 0xFFFD"

definition utf8_lead :: "nat \<Rightarrow> (nat \<times> nat \<times> nat) option" where
  "utf8_lead b =
     (if 0xC2 \<le> b \<and> b \<le> 0xDF then Some (1, 0x80, 0xBF)
      else if b = 0xE0 then Some (2, 0xA0, 0xBF)
      else if b = 0xED then Some (2, 0x80, 0x9F)
      else if 0xE1 \<le> b \<and> b \<le> 0xEF then Some (2, 0x80, 0xBF)
      else if b = 0xF0 then Some (3, 0x90, 0xBF)
      else if 0xF1 \<le> b \<and> b \<le> 0xF3 then Some (3, 0x80, 0xBF)
      else if b = 0xF4 then Some (3, 0x80, 0x8F)
      else None)"

fun utf8_tail :: "nat \<Rightarrow> nat \<Rightarrow> nat \<Rightarrow> nat \<Rightarrow> nat list \<Rightarrow> nat option \<times> nat list" where
  "utf8_tail 0 lo hi acc bs = (Some acc, bs)"
| "utf8_tail (Suc n) lo hi acc [] = (None, [])"
| "utf8_tail (Suc n) lo hi acc (b # bs) =
     (if lo \<le> b \<and> b \<le> hi then utf8_tail n 0x80 0xBF (64 * acc + (b - 0x80)) bs else (None, b # bs))"

lemma utf8_tail_length: "length (snd (utf8_tail n lo hi acc bs)) \<le> length bs"
  by (induction n lo hi acc bs rule: utf8_tail.induct) auto

function utf8_decode :: "nat list \<Rightarrow> nat list" where
  "utf8_decode [] = []"
| "utf8_decode (b # bs) =
     (if b < 0x80 then b # utf8_decode bs
      else case utf8_lead b of
             None \<Rightarrow> REPLACEMENT # utf8_decode bs
           | Some (n, lo, hi) \<Rightarrow>
               (let r = utf8_tail n lo hi (b mod (2 ^ (6 - n))) bs
                in the_default REPLACEMENT (fst r) # utf8_decode (snd r)))"
  by pat_completeness auto
termination
  by (relation "measure length") (auto simp: less_Suc_eq_le utf8_tail_length)

text \<open>\<open>unquote\<close> decodes each maximal run of ASCII characters and keeps the others.\<close>

function unquote_runs :: "string \<Rightarrow> nat list" where
  "unquote_runs [] = []"
| "unquote_runs (c # s) =
     (if code_point c < 128
      then utf8_decode (unquote_to_bytes (takeWhile (\<lambda>d. code_point d < 128) (c # s))) @
           unquote_runs (dropWhile (\<lambda>d. code_point d < 128) s)
      else code_point c # unquote_runs s)"
  by pat_completeness auto
termination
  by (relation "measure length") (auto simp: less_Suc_eq_le length_dropWhile_le)

definition unquote :: "string \<Rightarrow> nat list" where
  "unquote s = (if CHR ''%'' \<in> set s then unquote_runs s else map code_point s)"

definition plus_to_space :: "string \<Rightarrow> string" where
  "plus_to_space s = map (\<lambda>c. if c = CHR ''+'' then CHR '' '' else c) s"

text \<open>\<open>parse_qsl(query, keep_blank_values=True)\<close>.\<close>

definition parse_qsl :: "string \<Rightarrow> (nat list \<times> nat list) list" where
  "parse_qsl query =
     map (\<lambda>nv. case py_cut (CHR ''='') nv of
            (name, value) \<Rightarrow> (unquote (plus_to_space name), unquote (plus_to_space (the_default [] value))))
       (filter (\<lambda>nv. nv \<noteq> []) (py_split (CHR ''&'') query))"

text \<open>
  \<open>str.lower\<close> on code points. Above 255 only the five letters whose lower case has a character
  of the model in it matter for a comparison with a string of the model.
\<close>

definition lower_code_point :: "nat \<Rightarrow> nat list" where
  "lower_code_point n =
     (if n < 256 then [code_point (py_lower_char (char_of n))]
      else if n = 0x130 then [0x69, 0x307]
      else if n = 0x178 then [0xFF]
      else if n = 0x1E9E then [0xDF]
      else if n = 0x212A then [0x6B]
      else if n = 0x212B then [0xE5]
      else [n])"

definition lower_code_points :: "nat list \<Rightarrow> nat list" where
  "lower_code_points s = concat (map lower_code_point s)"

section \<open>Classifiers\<close>

definition is_plain_int :: "string \<Rightarrow> bool" where
  "is_plain_int value = (value \<noteq> [] \<and> py_isascii value \<and> py_isdigit value)"

definition is_plain_int_points :: "nat list \<Rightarrow> bool" where
  "is_plain_int_points value = (value \<noteq> [] \<and> list_all (\<lambda>n. 48 \<le> n \<and> n \<le> 57) value)"

lemma is_plain_int_points: "is_plain_int value = is_plain_int_points (map code_point value)"
proof -
  have "(list_all (\<lambda>c. code_point c < 128) s \<and> list_all py_isdigit_char s) =
    list_all (\<lambda>n. 48 \<le> n \<and> n \<le> 57) (map code_point s)" for s
    by (induction s) (auto simp: py_isdigit_char_def Let_def)
  then show ?thesis
    by (auto simp: is_plain_int_def is_plain_int_points_def py_isascii_def py_isdigit_def)
qed

text \<open>
  \<open>parse_qs\<close> groups the values by name in the order the names first appear, and
  \<open>query_lower\<close> lets the last name of every lower-case form win: the values of the parameter are
  those of the last name among the distinct ones that matches. The first value decides.
\<close>

definition query_value :: "(nat list \<times> nat list) list \<Rightarrow> nat list \<Rightarrow> nat list option" where
  "query_value qs p =
     (case filter (\<lambda>k. lower_code_points k = p) (rev (remdups (rev (map fst qs)))) of
        [] \<Rightarrow> None
      | ks \<Rightarrow> map_of qs (last ks))"

text \<open>A signal list of the configuration may be written as one bare string.\<close>

definition signals :: "(string list + string) option \<Rightarrow> string list" where
  "signals v = (case v of None \<Rightarrow> [] | Some (Inl ss) \<Rightarrow> ss | Some (Inr s) \<Rightarrow> [s])"

record pag_cfg =
  pg_enabled :: bool
  pg_param_signals :: "(string list + string) option"
  pg_text_signals :: "(string list + string) option"
  pg_max_pagination_pages :: json
  pg_max_chain_children :: json

type_synonym raw_link = "string \<times> string \<times> string list"

definition url_query :: "string \<Rightarrow> py_exn + string" where
  "url_query url = (case urlsplit url of Inl x \<Rightarrow> Inl x | Inr r \<Rightarrow> Inr (ur_query r))"

definition matched_values :: "string list \<Rightarrow> string \<Rightarrow> nat list list" where
  "matched_values params query =
     List.map_filter (\<lambda>p. query_value (parse_qsl query) (map code_point (py_lower p))) params"

definition text_is_paging :: "pag_cfg \<Rightarrow> string \<Rightarrow> bool" where
  "text_is_paging cfg anchor_text =
     (let text = py_lower (py_strip anchor_text)
      in text \<noteq> [] \<and> (text \<in> set (signals (pg_text_signals cfg)) \<or> is_plain_int text))"

definition is_pagination_link :: "pag_cfg \<Rightarrow> string \<Rightarrow> string \<Rightarrow> string list \<Rightarrow> py_exn + bool" where
  "is_pagination_link cfg url anchor_text rel =
     (let params = signals (pg_param_signals cfg) in
      case (if params = [] then Inr [] else (case url_query url of Inl x \<Rightarrow> Inl x | Inr q \<Rightarrow> Inr (matched_values params q))) of
        Inl x \<Rightarrow> Inl x
      | Inr values \<Rightarrow>
          Inr (if values \<noteq> [] then list_all is_plain_int_points values
               else ''next'' \<in> set rel \<or> text_is_paging cfg anchor_text))"

text \<open>\<open>int(s)\<close> of a string: surrounding blanks, a sign, digits with single underscores.\<close>

fun int_digits :: "string \<Rightarrow> int \<Rightarrow> int option" where
  "int_digits [] a = Some a"
| "int_digits (c # s) a =
     (if is_decimal c then int_digits s (10 * a + int (code_point c - 48))
      else if c = CHR ''_'' \<and> s \<noteq> [] \<and> is_decimal (hd s) then int_digits s a
      else None)"

definition int_of_string :: "string \<Rightarrow> int option" where
  "int_of_string raw =
     (let s = py_strip raw;
          (neg, ds) = (case s of [] \<Rightarrow> (False, [])
                       | c # t \<Rightarrow> if c = CHR ''-'' then (True, t) else if c = CHR ''+'' then (False, t) else (False, s))
      in if ds = [] \<or> \<not> is_decimal (hd ds) then None
         else map_option (\<lambda>n. if neg then - n else n) (int_digits ds 0))"

definition safe_int :: "json \<Rightarrow> int \<Rightarrow> int" where
  "safe_int value dflt =
     (case value of
        JInt i \<Rightarrow> i
      | JBool b \<Rightarrow> (if b then 1 else 0)
      | JDec m e \<Rightarrow> (if 0 \<le> m then m div 10 ^ e else - ((- m) div 10 ^ e))
      | JStr s \<Rightarrow> the_default dflt (int_of_string s)
      | _ \<Rightarrow> dflt)"

fun elect_loop :: "pag_cfg \<Rightarrow> raw_link list \<Rightarrow> string option \<Rightarrow> py_exn + string option" where
  "elect_loop cfg [] first_match = Inr first_match"
| "elect_loop cfg ((absolute, text, rel) # links) first_match =
     (case is_pagination_link cfg absolute text rel of
        Inl x \<Rightarrow> Inl x
      | Inr p \<Rightarrow>
          if \<not> p then elect_loop cfg links first_match
          else if ''next'' \<in> set rel then Inr (Some absolute)
          else elect_loop cfg links (if first_match = None then Some absolute else first_match))"

definition elect_pagination_target :: "pag_cfg \<Rightarrow> raw_link list \<Rightarrow> bool \<Rightarrow> py_exn + string option" where
  "elect_pagination_target cfg raw_links pagination_on =
     (if pagination_on then elect_loop cfg raw_links None else Inr None)"

lemma pagination_examples:
  "safe_int (JStr '' -1_0 '') 50 = -10" "safe_int (JStr ''ten'') 50 = 50" "safe_int (JDec (-25) 1) 50 = -2"
  "is_plain_int ''20''" "\<not> is_plain_int ''2a''"
  by (simp_all add: safe_int_def int_of_string_def is_plain_int_def py_simps is_decimal_def)

section \<open>Properties\<close>

lemma elect_loop_sound:
  "elect_loop cfg links first = Inr (Some t) \<Longrightarrow> first = Some t \<or>
     (\<exists>text rel. (t, text, rel) \<in> set links \<and> is_pagination_link cfg t text rel = Inr True)"
  by (induction cfg links first rule: elect_loop.induct) (fastforce split: sum.splits if_splits)+

text \<open>The elected target is a link of the page that the classifier accepts.\<close>

lemma elected_link_is_pagination:
  assumes "elect_pagination_target cfg links on = Inr (Some t)"
  shows "on" "\<exists>text rel. (t, text, rel) \<in> set links \<and> is_pagination_link cfg t text rel = Inr True"
  using assms elect_loop_sound [of cfg links None t] by (auto simp: elect_pagination_target_def split: if_splits)

text \<open>
  A configured paging parameter decides: with a value that is not a plain number the link is no
  pagination link, whatever its text and its \<open>rel\<close> say.
\<close>

lemma paging_parameter_decides:
  assumes "url_query url = Inr q" "v \<in> set (matched_values (signals (pg_param_signals cfg)) q)" "\<not> is_plain_int_points v"
  shows "is_pagination_link cfg url text rel = Inr False"
proof -
  have "signals (pg_param_signals cfg) \<noteq> []" "matched_values (signals (pg_param_signals cfg)) q \<noteq> []"
    using assms(2) by (auto simp: matched_values_def map_filter_def filter_empty_conv)
  with assms show ?thesis
    by (auto simp: is_pagination_link_def list_all_iff)
qed

end
