(* ===== verification/LeadExtraction.thy ===== *)
theory LeadExtraction
  imports Urls
begin

text \<open>
  The lead extraction of \<open>agent/crawler/parser.py\<close>.
\<close>

record parsed_lead =
  pl_email :: "string option"
  pl_person_name :: "string option"
  pl_designation :: "string option"
  pl_department :: "string option"
  pl_source_url :: string
  pl_source_title :: string
  pl_context_snippet :: string
  pl_entity_kind :: "string option"
  pl_phone :: "string option"
  pl_channel_tag :: "string option"
  pl_confidence_band :: "string option"
  pl_field_provenance :: "string option"

end
