(* ===== verification/Engine.thy ===== *)
theory Engine
  imports Pagination LeadExtraction Leads Outbox
begin

text \<open>
  The crawl engine (\<open>agent/crawler/engine.py\<close>): the queue, the visited set, link discovery with
  its caps, and the frontier checkpoint. The engine runs on one event loop, so what happens
  between two awaits is one function here; \<open>engine_step\<close> puts them together. A pagination chain
  shares one mutable cell between its queue items: a cell is an address into \<open>en_cells\<close>.
\<close>

section \<open>State\<close>

record queue_item =
  qi_priority :: nat
  qi_counter :: nat
  qi_url :: string
  qi_depth :: nat
  qi_domain_id :: "nat option"
  qi_is_seed :: bool
  qi_page_hops :: nat
  qi_chain :: "nat option"

text \<open>Where the worker that took an item stands: waiting for the page, the parser, the leads.\<close>

datatype phase =
  Fetching
| Parsing
| Linking "raw_link list" "nat option"

record engine =
  en_queue :: "queue_item list"
  en_taken :: "(queue_item \<times> phase) list"
  en_pending :: "queue_item list"
  en_visited :: "string set"
  en_counter :: nat
  en_skipped :: nat
  en_session_visited :: nat
  en_max_depth_seen :: nat
  en_leads_found :: nat
  en_crawled_domains :: nat
  en_cells :: "nat list"
  en_netloc :: "string \<rightharpoonup> nat"

text \<open>The settings, with the types and the defaults of the shipped \<open>config.yaml\<close>.\<close>

record engine_cfg =
  ec_priority_keywords :: "string list"
  ec_skip_extensions :: "string list"
  ec_target_suffixes :: "string list"
  ec_max_links_per_page :: "string \<rightharpoonup> int"
  ec_max_depth :: int
  ec_pagination :: pag_cfg
  ec_request_delay :: int

definition new_engine :: engine where
  "new_engine = \<lparr>en_queue = [], en_taken = [], en_pending = [], en_visited = {}, en_counter = 0, en_skipped = 0,
     en_session_visited = 0, en_max_depth_seen = 0, en_leads_found = 0, en_crawled_domains = 0, en_cells = [],
     en_netloc = Map.empty\<rparr>"

section \<open>URL tests\<close>

definition url_key :: "string \<Rightarrow> string" where
  "url_key url =
     (case urlsplit url of
        Inl _ \<Rightarrow> url
      | Inr p \<Rightarrow>
          (let netloc = py_removeprefix (py_lower (ur_netloc p)) ''www.'';
               stripped = rev (dropWhile (\<lambda>c. c = CHR ''/'') (rev (ur_path p)));
               path = (if stripped = [] then ''/'' else stripped)
           in netloc @ path @ (if ur_query p = [] then [] else ''?'' @ ur_query p)))"

definition is_skippable :: "engine_cfg \<Rightarrow> string \<Rightarrow> py_exn + bool" where
  "is_skippable cfg url =
     (if ec_skip_extensions cfg = [] then Inr False
      else case urlsplit url of
             Inl x \<Rightarrow> Inl x
           | Inr p \<Rightarrow> Inr (list_ex (\<lambda>ext. py_endswith (py_lower (ur_path p)) ext) (ec_skip_extensions cfg)))"

definition is_gov_domain :: "engine_cfg \<Rightarrow> string \<Rightarrow> py_exn + bool" where
  "is_gov_domain cfg url =
     (if ec_target_suffixes cfg = [] then Inr True
      else case url_netloc url of
             Inl x \<Rightarrow> Inl x
           | Inr n \<Rightarrow> Inr (list_ex (\<lambda>s. py_endswith (py_lower n) s) (ec_target_suffixes cfg)))"

text \<open>\<open>_is_skippable(url) or not _is_gov_domain(url)\<close>, negated; the second test is lazy.\<close>

definition in_scope :: "engine_cfg \<Rightarrow> string \<Rightarrow> py_exn + bool" where
  "in_scope cfg url =
     (case is_skippable cfg url of
        Inl x \<Rightarrow> Inl x
      | Inr True \<Rightarrow> Inr False
      | Inr False \<Rightarrow> is_gov_domain cfg url)"

definition url_priority :: "engine_cfg \<Rightarrow> string \<Rightarrow> nat" where
  "url_priority cfg url =
     (if ec_priority_keywords cfg = [] then 0
      else if list_ex (\<lambda>kw. py_contains (py_lower url) kw) (ec_priority_keywords cfg) then 0 else 1)"

definition is_priority_url :: "engine_cfg \<Rightarrow> string \<Rightarrow> string \<Rightarrow> bool" where
  "is_priority_url cfg url anchor_text =
     (if ec_priority_keywords cfg = [] then True
      else list_ex (\<lambda>kw. py_contains (py_lower (url @ '' '' @ anchor_text)) kw) (ec_priority_keywords cfg))"

section \<open>The queue\<close>

definition skip :: "nat \<Rightarrow> engine \<Rightarrow> engine" where
  "skip n en = en\<lparr>en_skipped := en_skipped en + n\<rparr>"

definition enqueue_url ::
  "engine_cfg \<Rightarrow> string \<Rightarrow> nat \<Rightarrow> nat option \<Rightarrow> bool \<Rightarrow> nat \<Rightarrow> nat option \<Rightarrow> engine \<Rightarrow> engine \<times> py_exn option" where
  "enqueue_url cfg url depth domain_id is_seed page_hops chain en =
     (case in_scope cfg url of
        Inl x \<Rightarrow> (en, Some x)
      | Inr False \<Rightarrow> (skip 1 en, None)
      | Inr True \<Rightarrow>
          (let key = url_key url in
           if key \<in> en_visited en then (skip 1 en, None)
           else
             (let item = \<lparr>qi_priority = url_priority cfg url, qi_counter = en_counter en + 1, qi_url = url, qi_depth = depth,
                          qi_domain_id = domain_id, qi_is_seed = is_seed, qi_page_hops = page_hops, qi_chain = chain\<rparr>
              in (en\<lparr>en_visited := (if is_seed then en_visited en else insert key (en_visited en)),
                     en_counter := en_counter en + 1,
                     en_pending := en_pending en @ [item],
                     en_queue := en_queue en @ [item]\<rparr>, None))))"

text \<open>\<open>PriorityQueue.get\<close>: the item of least priority and counter.\<close>

definition before_in_queue :: "queue_item \<Rightarrow> queue_item \<Rightarrow> bool" where
  "before_in_queue a b =
     (qi_priority a < qi_priority b \<or> (qi_priority a = qi_priority b \<and> qi_counter a < qi_counter b))"

fun least_item :: "queue_item \<Rightarrow> queue_item list \<Rightarrow> queue_item" where
  "least_item a [] = a"
| "least_item a (b # bs) = least_item (if before_in_queue b a then b else a) bs"

definition queue_get :: "engine \<Rightarrow> (queue_item \<times> engine) option" where
  "queue_get en =
     (case en_queue en of
        [] \<Rightarrow> None
      | a # bs \<Rightarrow> (let i = least_item a bs in Some (i, en\<lparr>en_queue := remove1 i (en_queue en)\<rparr>)))"

section \<open>Link discovery\<close>

text \<open>What \<open>_enqueue_links\<close> fixes for one page before its loop.\<close>

record link_ctx =
  lc_depth :: nat
  lc_domain_id :: "nat option"
  lc_priority_page :: bool
  lc_page_hops :: nat
  lc_chain :: "nat option"
  lc_max_links :: int
  lc_target :: "string option"
  lc_max_pagination_pages :: int
  lc_max_chain_children :: int

text \<open>The body of the loop: the engine, whether a link was added to the page's own count.\<close>

definition follow_link :: "engine_cfg \<Rightarrow> link_ctx \<Rightarrow> string \<Rightarrow> string \<Rightarrow> engine \<Rightarrow> (engine \<times> py_exn option) \<times> nat" where
  "follow_link cfg c absolute text en =
     (if lc_target c = Some absolute
      then
        (if lc_max_pagination_pages c \<le> int (lc_page_hops c) then ((skip 1 en, None), 0)
         else case lc_chain c of
                Some a \<Rightarrow> (enqueue_url cfg absolute (lc_depth c) (lc_domain_id c) False (lc_page_hops c + 1) (Some a) en, 0)
              | None \<Rightarrow> (enqueue_url cfg absolute (lc_depth c) (lc_domain_id c) False (lc_page_hops c + 1)
                   (Some (length (en_cells en))) (en\<lparr>en_cells := en_cells en @ [0]\<rparr>), 0))
      else if \<not> lc_priority_page c \<and> \<not> is_priority_url cfg absolute text then ((skip 1 en, None), 0)
      else
        (case lc_chain c of
           Some a \<Rightarrow>
             if lc_max_chain_children c \<le> int (en_cells en ! a) then ((skip 1 en, None), 0)
             else (enqueue_url cfg absolute (lc_depth c + 1) (lc_domain_id c) False (lc_page_hops c) None
                     (en\<lparr>en_cells := (en_cells en)[a := en_cells en ! a + 1]\<rparr>), 0)
         | None \<Rightarrow> (enqueue_url cfg absolute (lc_depth c + 1) (lc_domain_id c) False (lc_page_hops c) None en, 1)))"

fun link_loop :: "engine_cfg \<Rightarrow> link_ctx \<Rightarrow> nat \<Rightarrow> raw_link list \<Rightarrow> engine \<Rightarrow> engine \<times> py_exn option" where
  "link_loop cfg c links_added [] en = (en, None)"
| "link_loop cfg c links_added ((absolute, text, rel) # links) en =
     (if lc_target c \<noteq> Some absolute \<and> lc_chain c = None \<and> 0 < lc_max_links c \<and> lc_max_links c \<le> int links_added
      then (if lc_target c \<noteq> None then link_loop cfg c links_added links (skip 1 en) else (skip 1 en, None))
      else
        (case in_scope cfg absolute of
           Inl x \<Rightarrow> (en, Some x)
         | Inr ok \<Rightarrow>
             if \<not> ok \<or> url_key absolute \<in> en_visited en then link_loop cfg c links_added links (skip 1 en)
             else
               (case follow_link cfg c absolute text en of
                  ((en1, Some x), _) \<Rightarrow> (en1, Some x)
                | ((en1, None), n) \<Rightarrow> link_loop cfg c (links_added + n) links en1)))"

definition max_links :: "engine_cfg \<Rightarrow> nat \<Rightarrow> int" where
  "max_links cfg depth =
     (case ec_max_links_per_page cfg (py_str_nat depth) of
        Some n \<Rightarrow> n
      | None \<Rightarrow> the_default 5 (ec_max_links_per_page cfg ''default''))"

definition enqueue_links ::
  "engine_cfg \<Rightarrow> bool \<Rightarrow> raw_link list \<Rightarrow> string \<Rightarrow> nat \<Rightarrow> nat option \<Rightarrow> bool \<Rightarrow> nat \<Rightarrow> nat option \<Rightarrow> engine \<Rightarrow> engine \<times> py_exn option" where
  "enqueue_links cfg backpressured raw_links base_url depth domain_id is_seed_page page_hops chain en =
     (if backpressured then (skip (length raw_links) en, None)
      else
        (case elect_pagination_target (ec_pagination cfg) raw_links (pg_enabled (ec_pagination cfg)) of
           Inl x \<Rightarrow> (en, Some x)
         | Inr target \<Rightarrow>
             link_loop cfg
               \<lparr>lc_depth = depth, lc_domain_id = domain_id,
                lc_priority_page = (is_seed_page \<or> is_priority_url cfg base_url []),
                lc_page_hops = page_hops, lc_chain = chain, lc_max_links = max_links cfg depth, lc_target = target,
                lc_max_pagination_pages = safe_int (pg_max_pagination_pages (ec_pagination cfg)) 50,
                lc_max_chain_children = safe_int (pg_max_chain_children (ec_pagination cfg)) 100\<rparr> 0 raw_links en))"

section \<open>Workers\<close>

text \<open>
  \<open>_process\<close> cut at its awaits. \<open>E_take\<close>: a worker gets an item. \<open>E_fetched\<close>: the fetch answered,
  with or without a page. \<open>E_parsed\<close>: the parser answered and the leads were saved. \<open>E_links\<close>: the
  links are queued and the item is done. \<open>E_drop\<close>: the timeout of the worker or an exception ended
  the item where it stood. The effects outside the engine are answered: the URL marked as visited
  in the history of the machine, and the leads saved into the outbox.
\<close>

datatype engine_event =
  E_take
| E_fetched nat bool
| E_parsed nat "parsed_lead list" "raw_link list"
| E_links nat bool
| E_drop nat

record engine_effect =
  ef_visited :: "string list"
  ef_leads :: "lead_item list"

definition no_effect :: engine_effect where
  "no_effect = \<lparr>ef_visited = [], ef_leads = []\<rparr>"

definition lead_payload :: "nat \<Rightarrow> nat option \<Rightarrow> nat \<Rightarrow> parsed_lead \<Rightarrow> lead_item" where
  "lead_payload job_id snapshot_id depth l =
     \<lparr>li_job_id = job_id, li_snapshot_id = snapshot_id, li_email = pl_email l, li_person_name = pl_person_name l,
      li_designation = pl_designation l, li_department = pl_department l, li_source_url = Some (pl_source_url l),
      li_source_title = Some (pl_source_title l), li_context_snippet = Some (pl_context_snippet l),
      li_entity_kind = pl_entity_kind l, li_phone = pl_phone l, li_channel_tag = pl_channel_tag l,
      li_confidence_band = pl_confidence_band l, li_field_provenance = pl_field_provenance l, li_depth = int depth\<rparr>"

text \<open>\<open>_save_leads\<close>: every lead with an email goes into the outbox.\<close>

definition save_leads :: "nat \<Rightarrow> parsed_lead list \<Rightarrow> nat option \<Rightarrow> bool \<Rightarrow> nat \<Rightarrow> engine \<Rightarrow> engine \<times> lead_item list" where
  "save_leads job_id found snapshot_id is_seed depth en =
     (let saved = map (lead_payload job_id snapshot_id depth) (filter (\<lambda>l. truthy (pl_email l)) found)
      in (en\<lparr>en_leads_found := en_leads_found en + length saved,
             en_crawled_domains := en_crawled_domains en + (if is_seed then 1 else 0)\<rparr>, saved))"

text \<open>\<open>domain_id\<close> of a page: of its item, or of its host; a snapshot id 0 counts as none.\<close>

definition nonzero :: "nat option \<Rightarrow> nat option" where
  "nonzero v = (if v = Some 0 then None else v)"

definition page_domain :: "queue_item \<Rightarrow> engine \<Rightarrow> py_exn + nat option" where
  "page_domain item en =
     (case qi_domain_id item of
        Some d \<Rightarrow> Inr (Some d)
      | None \<Rightarrow>
          (case url_netloc (qi_url item) of
             Inl x \<Rightarrow> Inl x
           | Inr n \<Rightarrow> Inr (case nonzero (en_netloc en n) of Some d \<Rightarrow> Some d | None \<Rightarrow> en_netloc en (strip_www n))))"

definition taken_of :: "nat \<Rightarrow> engine \<Rightarrow> (queue_item \<times> phase) option" where
  "taken_of n en = List.find (\<lambda>t. qi_counter (fst t) = n) (en_taken en)"

definition set_phase :: "nat \<Rightarrow> phase \<Rightarrow> engine \<Rightarrow> engine" where
  "set_phase n ph en = en\<lparr>en_taken := map (\<lambda>t. if qi_counter (fst t) = n then (fst t, ph) else t) (en_taken en)\<rparr>"

text \<open>The item is popped from the pending ones and acknowledged to the queue.\<close>

definition item_done :: "nat \<Rightarrow> engine \<Rightarrow> engine" where
  "item_done n en = en\<lparr>en_taken := filter (\<lambda>t. qi_counter (fst t) \<noteq> n) (en_taken en),
     en_pending := filter (\<lambda>i. qi_counter i \<noteq> n) (en_pending en)\<rparr>"

definition take_item :: "engine \<Rightarrow> engine option" where
  "take_item en =
     (case queue_get en of
        None \<Rightarrow> None
      | Some (i, en1) \<Rightarrow> Some (en1\<lparr>en_taken := en_taken en1 @ [(i, Fetching)],
          en_max_depth_seen := max (en_max_depth_seen en1) (qi_depth i)\<rparr>))"

definition fetched :: "queue_item \<Rightarrow> bool \<Rightarrow> engine \<Rightarrow> engine \<times> engine_effect" where
  "fetched i html en =
     (if \<not> html
      then (item_done (qi_counter i)
              (en\<lparr>en_crawled_domains := en_crawled_domains en + (if qi_is_seed i then 1 else 0)\<rparr>), no_effect)
      else (set_phase (qi_counter i) Parsing (en\<lparr>en_session_visited := en_session_visited en + 1\<rparr>),
            no_effect\<lparr>ef_visited := (if qi_is_seed i then [] else [qi_url i])\<rparr>))"

definition parsed :: "nat \<Rightarrow> queue_item \<Rightarrow> parsed_lead list \<Rightarrow> raw_link list \<Rightarrow> engine \<Rightarrow> engine \<times> engine_effect" where
  "parsed job_id i found links en =
     (case page_domain i en of
        Inl _ \<Rightarrow> (item_done (qi_counter i) en, no_effect)
      | Inr d \<Rightarrow>
          (let (en1, saved) = save_leads job_id found d (qi_is_seed i) (qi_depth i) en
           in (set_phase (qi_counter i) (Linking links d) en1, no_effect\<lparr>ef_leads := saved\<rparr>)))"

definition linked :: "engine_cfg \<Rightarrow> queue_item \<Rightarrow> raw_link list \<Rightarrow> nat option \<Rightarrow> bool \<Rightarrow> engine \<Rightarrow> engine" where
  "linked cfg i links d backpressured en =
     item_done (qi_counter i)
       (if ec_max_depth cfg = 0 \<or> int (qi_depth i) < ec_max_depth cfg
        then fst (enqueue_links cfg backpressured links (qi_url i) (qi_depth i) d (qi_is_seed i) (qi_page_hops i) (qi_chain i) en)
        else en)"

fun engine_step :: "nat \<Rightarrow> engine_cfg \<Rightarrow> engine_event \<Rightarrow> engine \<Rightarrow> (engine \<times> engine_effect) option" where
  "engine_step job_id cfg E_take en = map_option (\<lambda>e. (e, no_effect)) (take_item en)"
| "engine_step job_id cfg (E_fetched n html) en =
     (case taken_of n en of Some (i, Fetching) \<Rightarrow> Some (fetched i html en) | _ \<Rightarrow> None)"
| "engine_step job_id cfg (E_parsed n found links) en =
     (case taken_of n en of Some (i, Parsing) \<Rightarrow> Some (parsed job_id i found links en) | _ \<Rightarrow> None)"
| "engine_step job_id cfg (E_links n backpressured) en =
     (case taken_of n en of Some (i, Linking links d) \<Rightarrow> Some (linked cfg i links d backpressured en, no_effect) | _ \<Rightarrow> None)"
| "engine_step job_id cfg (E_drop n) en =
     (case taken_of n en of Some (i, ph) \<Rightarrow> Some (item_done n en, no_effect) | None \<Rightarrow> None)"

text \<open>A run: the events in order, None when one of them cannot happen.\<close>

fun engine_run :: "nat \<Rightarrow> engine_cfg \<Rightarrow> engine_event list \<Rightarrow> engine \<Rightarrow> (engine \<times> engine_effect list) option" where
  "engine_run job_id cfg [] en = Some (en, [])"
| "engine_run job_id cfg (ev # evs) en =
     (case engine_step job_id cfg ev en of
        None \<Rightarrow> None
      | Some (en1, ef) \<Rightarrow> map_option (\<lambda>(en2, efs). (en2, ef # efs)) (engine_run job_id cfg evs en1))"

text \<open>\<open>queue.join()\<close> returns: nothing queued and nothing in the hands of a worker.\<close>

definition crawl_over :: "engine \<Rightarrow> bool" where
  "crawl_over en \<longleftrightarrow> en_queue en = [] \<and> en_taken en = []"

section \<open>Start of a run\<close>

definition seed_url :: "string \<Rightarrow> string" where
  "seed_url url = (if py_contains url ''://'' then url else ''http://'' @ url)"

fun map_netlocs :: "(string \<times> nat option) list \<Rightarrow> engine \<Rightarrow> engine \<times> py_exn option" where
  "map_netlocs [] en = (en, None)"
| "map_netlocs ((url, did) # seeds) en =
     (case url_netloc (seed_url url) of
        Inl x \<Rightarrow> (en, Some x)
      | Inr n \<Rightarrow>
          (case did of
             None \<Rightarrow> map_netlocs seeds en
           | Some d \<Rightarrow> map_netlocs seeds (en\<lparr>en_netloc := (en_netloc en)(py_lower n \<mapsto> d, strip_www (py_lower n) \<mapsto> d)\<rparr>)))"

fun enqueue_seeds :: "engine_cfg \<Rightarrow> (string \<times> nat option) list \<Rightarrow> engine \<Rightarrow> engine \<times> py_exn option" where
  "enqueue_seeds cfg [] en = (en, None)"
| "enqueue_seeds cfg ((url, did) # seeds) en =
     (case enqueue_url cfg url 0 did True 0 None en of
        (en1, Some x) \<Rightarrow> (en1, Some x)
      | (en1, None) \<Rightarrow> enqueue_seeds cfg seeds en1)"

section \<open>The frontier\<close>

record frontier_item =
  fi_priority :: nat
  fi_counter :: nat
  fi_url :: string
  fi_depth :: nat
  fi_domain_id :: "nat option"
  fi_is_seed :: bool
  fi_page_hops :: nat
  fi_chain_key :: "nat option"

record frontier =
  fr_visited :: "string set"
  fr_counter :: nat
  fr_skipped :: nat
  fr_max_depth_seen :: nat
  fr_session_visited :: nat
  fr_chains :: "(nat \<times> nat) list"
  fr_items :: "frontier_item list"

definition frontier_item :: "nat option \<Rightarrow> queue_item \<Rightarrow> frontier_item" where
  "frontier_item chain_key i =
     \<lparr>fi_priority = qi_priority i, fi_counter = qi_counter i, fi_url = qi_url i, fi_depth = qi_depth i,
      fi_domain_id = qi_domain_id i, fi_is_seed = qi_is_seed i, fi_page_hops = qi_page_hops i, fi_chain_key = chain_key\<rparr>"

text \<open>The cells met so far; the key of a cell is its place among them.\<close>

fun index_of :: "nat \<Rightarrow> nat list \<Rightarrow> nat" where
  "index_of a [] = 0"
| "index_of a (b # bs) = (if a = b then 0 else Suc (index_of a bs))"

fun checkpoint_loop :: "queue_item list \<Rightarrow> nat list \<Rightarrow> frontier_item list \<times> nat list" where
  "checkpoint_loop [] keys = ([], keys)"
| "checkpoint_loop (i # items) keys =
     (let keys1 = (case qi_chain i of None \<Rightarrow> keys | Some a \<Rightarrow> if a \<in> set keys then keys else keys @ [a]);
          (fis, keys2) = checkpoint_loop items keys1
      in (frontier_item (map_option (\<lambda>a. index_of a keys1) (qi_chain i)) i # fis, keys2))"

text \<open>
  \<open>_save_checkpoint\<close> runs on its own thread: the items are read first and the visited set and the
  counters afterwards, of a state the event loop may have changed in between.
\<close>

definition save_checkpoint :: "engine \<Rightarrow> engine \<Rightarrow> frontier" where
  "save_checkpoint en en' =
     (let (fis, keys) = checkpoint_loop (en_pending en) []
      in \<lparr>fr_visited = en_visited en', fr_counter = en_counter en', fr_skipped = en_skipped en',
          fr_max_depth_seen = en_max_depth_seen en', fr_session_visited = en_session_visited en',
          fr_chains = map (\<lambda>k. (k, en_cells en ! (keys ! k))) [0..<length keys], fr_items = fis\<rparr>)"

definition thaw_item :: "nat \<Rightarrow> (nat \<times> nat) list \<Rightarrow> frontier_item \<Rightarrow> queue_item" where
  "thaw_item base budgets f =
     \<lparr>qi_priority = fi_priority f, qi_counter = fi_counter f, qi_url = fi_url f, qi_depth = fi_depth f,
      qi_domain_id = fi_domain_id f, qi_is_seed = fi_is_seed f, qi_page_hops = fi_page_hops f,
      qi_chain = (case fi_chain_key f of
          None \<Rightarrow> None
        | Some k \<Rightarrow> if k \<in> set (map fst budgets) then Some (base + index_of k (map fst budgets)) else None)\<rparr>"

definition rehydrate_frontier :: "frontier \<Rightarrow> engine \<Rightarrow> engine" where
  "rehydrate_frontier fr en =
     (let items = map (thaw_item (length (en_cells en)) (fr_chains fr)) (fr_items fr)
      in en\<lparr>en_visited := en_visited en \<union> fr_visited fr, en_counter := max (en_counter en) (fr_counter fr),
            en_skipped := fr_skipped fr, en_max_depth_seen := fr_max_depth_seen fr,
            en_session_visited := fr_session_visited fr, en_cells := en_cells en @ map snd (fr_chains fr),
            en_pending := en_pending en @ items, en_queue := en_queue en @ items\<rparr>)"

text \<open>
  The part of \<open>run\<close> before the workers start: the host map, the URLs the machine visited
  recently, and the frontier of an interrupted run or else the seeds.
\<close>

definition start_run ::
  "engine_cfg \<Rightarrow> (string \<times> nat option) list \<Rightarrow> string list \<Rightarrow> frontier option \<Rightarrow> engine \<Rightarrow> engine \<times> py_exn option" where
  "start_run cfg seeds bootstrap fr en =
     (case map_netlocs seeds en of
        (en1, Some x) \<Rightarrow> (en1, Some x)
      | (en1, None) \<Rightarrow>
          (let en2 = en1\<lparr>en_visited := en_visited en1 \<union> set (map url_key bootstrap)\<rparr>
           in case fr of
                Some f \<Rightarrow> (rehydrate_frontier f en2, None)
              | None \<Rightarrow> enqueue_seeds cfg seeds en2))"

end
