(* ===== verification/EngineProps.thy ===== *)
theory EngineProps
  imports Engine
begin

text \<open>
  Properties of the crawl engine: its invariant, the end of every crawl over a finite web, the
  caps of link discovery, and what a checkpoint preserves.
\<close>

section \<open>Rules for the queue and the link loop\<close>

lemma skip_sel [simp]:
  "en_queue (skip n en) = en_queue en" "en_taken (skip n en) = en_taken en" "en_pending (skip n en) = en_pending en"
  "en_visited (skip n en) = en_visited en" "en_counter (skip n en) = en_counter en" "en_cells (skip n en) = en_cells en"
  "en_netloc (skip n en) = en_netloc en"
  by (simp_all add: skip_def)

definition new_item :: "engine_cfg \<Rightarrow> string \<Rightarrow> nat \<Rightarrow> nat option \<Rightarrow> bool \<Rightarrow> nat \<Rightarrow> nat option \<Rightarrow> engine \<Rightarrow> queue_item" where
  "new_item cfg url depth domain_id is_seed page_hops chain en =
     \<lparr>qi_priority = url_priority cfg url, qi_counter = en_counter en + 1, qi_url = url, qi_depth = depth,
      qi_domain_id = domain_id, qi_is_seed = is_seed, qi_page_hops = page_hops, qi_chain = chain\<rparr>"

lemma new_item_sel [simp]:
  "qi_counter (new_item cfg url d did s h ch en) = Suc (en_counter en)" "qi_url (new_item cfg url d did s h ch en) = url"
  "qi_depth (new_item cfg url d did s h ch en) = d" "qi_is_seed (new_item cfg url d did s h ch en) = s"
  "qi_page_hops (new_item cfg url d did s h ch en) = h" "qi_chain (new_item cfg url d did s h ch en) = ch"
  by (simp_all add: new_item_def)

definition add_item :: "queue_item \<Rightarrow> engine \<Rightarrow> engine" where
  "add_item i en = en\<lparr>en_visited := (if qi_is_seed i then en_visited en else insert (url_key (qi_url i)) (en_visited en)),
     en_counter := en_counter en + 1, en_pending := en_pending en @ [i], en_queue := en_queue en @ [i]\<rparr>"

lemma add_item_sel [simp]:
  "en_queue (add_item i en) = en_queue en @ [i]" "en_taken (add_item i en) = en_taken en"
  "en_pending (add_item i en) = en_pending en @ [i]" "en_counter (add_item i en) = Suc (en_counter en)"
  "en_cells (add_item i en) = en_cells en" "en_netloc (add_item i en) = en_netloc en"
  "en_visited (add_item i en) = (if qi_is_seed i then en_visited en else insert (url_key (qi_url i)) (en_visited en))"
  by (simp_all add: add_item_def)

lemma enqueue_url_cases:
  obtains (raised) x where "enqueue_url cfg url d did s h ch en = (en, Some x)" "in_scope cfg url = Inl x"
  | (skipped) "enqueue_url cfg url d did s h ch en = (skip 1 en, None)"
  | (added) "enqueue_url cfg url d did s h ch en = (add_item (new_item cfg url d did s h ch en) en, None)"
      "in_scope cfg url = Inr True" "url_key url \<notin> en_visited en"
proof (cases "in_scope cfg url")
  case (Inl x)
  then show ?thesis using raised by (simp add: enqueue_url_def)
next
  case (Inr b)
  show ?thesis
  proof (cases "b \<and> url_key url \<notin> en_visited en")
    case True
    with Inr show ?thesis
      using added by (simp add: enqueue_url_def Let_def add_item_def new_item_def)
  next
    case False
    with Inr show ?thesis
      using skipped by (cases b) (simp_all add: enqueue_url_def Let_def)
  qed
qed

lemma enqueue_fresh:
  "in_scope cfg url = Inr True \<Longrightarrow> url_key url \<notin> en_visited en \<Longrightarrow>
   enqueue_url cfg url d did s h ch en = (add_item (new_item cfg url d did s h ch en) en, None)"
  by (simp add: enqueue_url_def Let_def add_item_def new_item_def)

text \<open>An assertion that survives skips, new cells, spent budgets and new items survives the loop.\<close>

lemma link_loop_rule:
  assumes "P en" and valid: "\<And>a. lc_chain c = Some a \<Longrightarrow> a < length (en_cells en)"
    and skips: "\<And>n en. P en \<Longrightarrow> P (skip n en)"
    and mint: "\<And>en. P en \<Longrightarrow> P (en\<lparr>en_cells := en_cells en @ [0]\<rparr>)"
    and spend: "\<And>a en. P en \<Longrightarrow> lc_chain c = Some a \<Longrightarrow> a < length (en_cells en) \<Longrightarrow>
      int (en_cells en ! a) < lc_max_chain_children c \<Longrightarrow> P (en\<lparr>en_cells := (en_cells en)[a := en_cells en ! a + 1]\<rparr>)"
    and pages: "\<And>url a en. P en \<Longrightarrow> lc_target c = Some url \<Longrightarrow> url \<in> fst ` set links \<Longrightarrow> a < length (en_cells en) \<Longrightarrow>
      int (lc_page_hops c) < lc_max_pagination_pages c \<Longrightarrow> in_scope cfg url = Inr True \<Longrightarrow> url_key url \<notin> en_visited en \<Longrightarrow>
      P (add_item (new_item cfg url (lc_depth c) (lc_domain_id c) False (lc_page_hops c + 1) (Some a) en) en)"
    and children: "\<And>url en. P en \<Longrightarrow> url \<in> fst ` set links \<Longrightarrow> in_scope cfg url = Inr True \<Longrightarrow> url_key url \<notin> en_visited en \<Longrightarrow>
      P (add_item (new_item cfg url (lc_depth c + 1) (lc_domain_id c) False (lc_page_hops c) None en) en)"
  shows "P (fst (link_loop cfg c n links en))"
  using assms(1,2) pages children
proof (induction links arbitrary: n en)
  case Nil
  then show ?case by simp
next
  case (Cons l links)
  obtain url tx rel where l: "l = (url, tx, rel)" by (rule prod_cases3)
  have IH: "P (fst (link_loop cfg c m links en1))"
    if "P en1" "length (en_cells en) \<le> length (en_cells en1)" for m en1
  proof (rule Cons.IH [OF that(1)])
    show "a < length (en_cells en1)" if "lc_chain c = Some a" for a
      using Cons.prems(2) [OF that] \<open>length (en_cells en) \<le> length (en_cells en1)\<close> by simp
  qed (rule Cons.prems(3,4); simp)+
  let ?capped = "lc_target c \<noteq> Some url \<and> lc_chain c = None \<and> 0 < lc_max_links c \<and> lc_max_links c \<le> int n"
  have skipped: "P (skip 1 en)" by (rule skips [OF Cons.prems(1)])
  show ?case
  proof (cases "?capped \<or> in_scope cfg url \<noteq> Inr True \<or> url_key url \<in> en_visited en")
    case True
    then show ?thesis
      using IH [OF skipped] skipped Cons.prems(1) by (auto simp: l split: sum.split)
  next
    case False
    then have fresh: "in_scope cfg url = Inr True" "url_key url \<notin> en_visited en" by auto
    have added: "P (fst (fst (follow_link cfg c url tx en)))" "length (en_cells en) \<le> length (en_cells (fst (fst (follow_link cfg c url tx en))))"
      "snd (fst (follow_link cfg c url tx en)) = None"
      using Cons.prems(1) skipped fresh Cons.prems(2) mint [OF Cons.prems(1)]
        spend [OF Cons.prems(1)] Cons.prems(3) Cons.prems(4)
      by (auto simp: follow_link_def enqueue_fresh l split: option.split)
    obtain en1 m where step: "follow_link cfg c url tx en = ((en1, None), m)"
      using added(3) by (metis prod.collapse)
    have "\<not> ?capped" using False by blast
    then have "link_loop cfg c n (l # links) en = link_loop cfg c (n + m) links en1"
      unfolding l link_loop.simps if_not_P [OF \<open>\<not> ?capped\<close>] using fresh step by simp
    with added IH step show ?thesis by simp
  qed
qed

section \<open>The invariant\<close>

text \<open>
  The pending items are the queued and the taken ones; counters are fresh; the pages that are no
  seeds have keys of their own, all marked as visited; everything is in scope; depth and the
  pages of a chain stay within their bounds; the cells of the items exist.
\<close>

definition page_items :: "queue_item list \<Rightarrow> queue_item list" where
  "page_items items = filter (\<lambda>i. \<not> qi_is_seed i) items"

definition item_key :: "queue_item \<Rightarrow> string" where
  "item_key i = url_key (qi_url i)"

definition max_pages :: "engine_cfg \<Rightarrow> int" where
  "max_pages cfg = safe_int (pg_max_pagination_pages (ec_pagination cfg)) 50"

definition max_children :: "engine_cfg \<Rightarrow> int" where
  "max_children cfg = safe_int (pg_max_chain_children (ec_pagination cfg)) 100"

definition item_ok :: "engine_cfg \<Rightarrow> nat \<Rightarrow> queue_item \<Rightarrow> bool" where
  "item_ok cfg cells i \<longleftrightarrow>
     in_scope cfg (qi_url i) = Inr True \<and> (ec_max_depth cfg = 0 \<or> int (qi_depth i) \<le> max 0 (ec_max_depth cfg)) \<and>
     int (qi_page_hops i) \<le> max 0 (max_pages cfg) \<and> (\<forall>a. qi_chain i = Some a \<longrightarrow> a < cells)"

definition engine_ok :: "engine_cfg \<Rightarrow> engine \<Rightarrow> bool" where
  "engine_ok cfg en \<longleftrightarrow>
     mset (en_pending en) = mset (en_queue en) + mset (map fst (en_taken en)) \<and>
     distinct (map qi_counter (en_pending en)) \<and> (\<forall>i \<in> set (en_pending en). qi_counter i \<le> en_counter en) \<and>
     distinct (map item_key (page_items (en_pending en))) \<and>
     item_key ` set (page_items (en_pending en)) \<subseteq> en_visited en \<and>
     (\<forall>i \<in> set (en_pending en). item_ok cfg (length (en_cells en)) i)"

lemma page_items_simps [simp]:
  "page_items [] = []" "page_items (xs @ ys) = page_items xs @ page_items ys"
  "page_items (i # xs) = (if qi_is_seed i then page_items xs else i # page_items xs)"
  "set (page_items xs) = {i \<in> set xs. \<not> qi_is_seed i}"
  by (simp_all add: page_items_def)

lemma engine_ok_skip [simp]: "engine_ok cfg (skip n en) = engine_ok cfg en"
  by (simp add: engine_ok_def)

lemma item_ok_mono: "item_ok cfg m i \<Longrightarrow> m \<le> n \<Longrightarrow> item_ok cfg n i"
  by (auto simp: item_ok_def)

lemma engine_ok_cells:
  "engine_ok cfg en \<Longrightarrow> length (en_cells en) \<le> length cells \<Longrightarrow> engine_ok cfg (en\<lparr>en_cells := cells\<rparr>)"
  by (auto simp: engine_ok_def intro: item_ok_mono)

lemma engine_ok_add:
  assumes "engine_ok cfg en" "item_ok cfg (length (en_cells en)) i" "qi_counter i = Suc (en_counter en)"
    and "\<not> qi_is_seed i \<Longrightarrow> item_key i \<notin> en_visited en"
  shows "engine_ok cfg (add_item i en)"
proof -
  have "qi_counter i \<notin> qi_counter ` set (en_pending en)"
    using assms(1,3) by (fastforce simp: engine_ok_def)
  moreover have "\<not> qi_is_seed i \<Longrightarrow> item_key i \<notin> item_key ` set (page_items (en_pending en))"
    using assms(1,4) by (auto simp: engine_ok_def)
  ultimately show ?thesis
    using assms by (fastforce simp: engine_ok_def item_key_def)
qed

lemma least_item_in: "least_item a bs \<in> set (a # bs)"
  by (induction bs arbitrary: a) auto

lemma queue_get_in: "queue_get en = Some (i, en1) \<Longrightarrow> i \<in> set (en_queue en) \<and> en1 = en\<lparr>en_queue := remove1 i (en_queue en)\<rparr>"
  using least_item_in by (auto simp: queue_get_def Let_def split: list.splits)

lemma taken_of_in:
  assumes "taken_of n en = Some (i, ph)"
  shows "(i, ph) \<in> set (en_taken en)" "qi_counter i = n"
proof -
  have "(i, ph) \<in> set ts \<and> qi_counter i = n" if "List.find (\<lambda>t. qi_counter (fst t) = n) ts = Some (i, ph)" for ts
    using that by (induction ts) (auto split: if_splits)
  with assms show "(i, ph) \<in> set (en_taken en)" "qi_counter i = n" by (auto simp: taken_of_def)
qed

lemma counters_distinct:
  assumes "engine_ok cfg en"
  shows "distinct (map qi_counter (en_queue en @ map fst (en_taken en)))"
proof -
  have "mset (map qi_counter (en_queue en @ map fst (en_taken en))) = mset (map qi_counter (en_pending en))"
    using assms unfolding engine_ok_def by (metis mset_append mset_map)
  with assms show ?thesis
    by (metis engine_ok_def mset_eq_imp_distinct_iff)
qed

lemma pending_taken: "engine_ok cfg en \<Longrightarrow> (i, ph) \<in> set (en_taken en) \<Longrightarrow> i \<in> set (en_pending en)"
  by (metis engine_ok_def fst_conv imageI list.set_map set_mset_mset set_mset_union Un_iff)

lemma pending_queue: "engine_ok cfg en \<Longrightarrow> i \<in> set (en_queue en) \<Longrightarrow> i \<in> set (en_pending en)"
  by (metis engine_ok_def set_mset_mset set_mset_union Un_iff)

lemma engine_ok_done:
  assumes "engine_ok cfg en" "(i, ph) \<in> set (en_taken en)"
  shows "engine_ok cfg (item_done (qi_counter i) en)"
proof -
  let ?p = "\<lambda>j. qi_counter j \<noteq> qi_counter i"
  have "qi_counter i \<notin> qi_counter ` set (en_queue en)"
    using counters_distinct [OF assms(1)] assms(2) by force
  then have queue: "filter ?p (en_queue en) = en_queue en"
    by (intro filter_True) (metis imageI)
  have "mset (filter ?p (en_pending en)) = mset (filter ?p (en_queue en)) + mset (filter ?p (map fst (en_taken en)))"
    using assms(1) by (simp add: engine_ok_def)
  then have "mset (filter ?p (en_pending en)) = mset (en_queue en) + mset (map fst (filter (\<lambda>t. ?p (fst t)) (en_taken en)))"
    unfolding queue by (simp add: filter_map comp_def)
  moreover have "distinct (map item_key (page_items (filter ?p (en_pending en))))"
    using assms(1) by (simp add: engine_ok_def page_items_def distinct_map filter_filter inj_on_def)
  ultimately show ?thesis
    using assms(1) by (auto simp: engine_ok_def item_done_def distinct_map_filter)
qed

lemma engine_ok_phase [simp]: "engine_ok cfg (set_phase n ph en) = engine_ok cfg en"
proof -
  have "map fst (map (\<lambda>t. if qi_counter (fst t) = n then (fst t, ph) else t) ts) = map fst ts" for ts :: "(queue_item \<times> phase) list"
    by simp
  then show ?thesis by (simp add: engine_ok_def set_phase_def del: map_map)
qed

lemma engine_ok_take:
  assumes "take_item en = Some en'" "engine_ok cfg en"
  shows "engine_ok cfg en'"
proof -
  obtain i where i: "i \<in> set (en_queue en)"
    "en' = en\<lparr>en_queue := remove1 i (en_queue en), en_taken := en_taken en @ [(i, Fetching)],
       en_max_depth_seen := max (en_max_depth_seen en) (qi_depth i)\<rparr>"
    using assms(1) by (auto simp: take_item_def dest!: queue_get_in split: option.splits)
  then have "mset (remove1 i (en_queue en)) + {#i#} = mset (en_queue en)" by simp
  with i assms(2) show ?thesis
    by (simp add: engine_ok_def ac_simps)
qed

lemma enqueue_links_rule:
  assumes "P en" "\<And>n. P (skip n en)"
    and "\<And>c. lc_depth c = depth \<Longrightarrow> lc_chain c = chain \<Longrightarrow> lc_page_hops c = hops \<Longrightarrow>
      lc_max_pagination_pages c = max_pages cfg \<Longrightarrow> lc_max_chain_children c = max_children cfg \<Longrightarrow>
      lc_max_links c = max_links cfg depth \<Longrightarrow> P (fst (link_loop cfg c 0 links en))"
  shows "P (fst (enqueue_links cfg bp links url depth d s hops chain en))"
  using assms by (simp add: enqueue_links_def max_pages_def max_children_def split: sum.split)

lemma engine_ok_links:
  assumes "engine_ok cfg en" "item_ok cfg (length (en_cells en)) i" "ec_max_depth cfg = 0 \<or> int (qi_depth i) < ec_max_depth cfg"
  shows "engine_ok cfg (fst (enqueue_links cfg bp links (qi_url i) (qi_depth i) d s (qi_page_hops i) (qi_chain i) en))"
proof -
  note item = assms(2) [unfolded item_ok_def]
  have "engine_ok cfg (fst (link_loop cfg c 0 links en))"
    if c: "lc_depth c = qi_depth i" "lc_page_hops c = qi_page_hops i" "lc_chain c = qi_chain i"
      "lc_max_pagination_pages c = max_pages cfg" for c
  proof (rule link_loop_rule [where P = "engine_ok cfg"])
    show "engine_ok cfg (add_item (new_item cfg url (lc_depth c) (lc_domain_id c) False (lc_page_hops c + 1) (Some a) e) e)"
      if "engine_ok cfg e" "a < length (en_cells e)" "int (lc_page_hops c) < lc_max_pagination_pages c"
        "in_scope cfg url = Inr True" "url_key url \<notin> en_visited e" for url a e
      using that item by (intro engine_ok_add) (auto simp: item_ok_def item_key_def c)
    show "engine_ok cfg (add_item (new_item cfg url (lc_depth c + 1) (lc_domain_id c) False (lc_page_hops c) None e) e)"
      if "engine_ok cfg e" "in_scope cfg url = Inr True" "url_key url \<notin> en_visited e" for url e
      using that item assms(3) by (intro engine_ok_add) (auto simp: item_ok_def item_key_def c)
  qed (use assms(1) item in \<open>auto simp: c intro: engine_ok_cells\<close>)
  with assms(1) show ?thesis
    by (intro enqueue_links_rule [where P = "engine_ok cfg"]) simp_all
qed

lemma engine_ok_frame:
  assumes "engine_ok cfg en" "en_queue en' = en_queue en" "en_taken en' = en_taken en" "en_pending en' = en_pending en"
    "en_visited en' = en_visited en" "en_counter en' = en_counter en" "en_cells en' = en_cells en"
  shows "engine_ok cfg en'"
  using assms by (simp add: engine_ok_def)

lemma links_taken: "en_taken (fst (enqueue_links cfg bp links url dep d s h None en)) = en_taken en"
  "a < length (en_cells en) \<Longrightarrow> en_taken (fst (enqueue_links cfg bp links url dep d s h (Some a) en)) = en_taken en"
  by (auto simp: enqueue_links_def split: sum.split intro!: link_loop_rule [where P = "\<lambda>e. en_taken e = en_taken en"])

lemma taken_links:
  "item_ok cfg (length (en_cells en)) i \<Longrightarrow>
   en_taken (fst (enqueue_links cfg bp links url dep d s h (qi_chain i) en)) = en_taken en"
  by (cases "qi_chain i") (auto simp: links_taken item_ok_def)

lemma engine_ok_step:
  assumes "engine_step job_id cfg ev en = Some (en', ef)" "engine_ok cfg en"
  shows "engine_ok cfg en'"
proof (cases ev)
  case E_take
  with assms show ?thesis by (auto intro: engine_ok_take)
next
  case (E_fetched n html)
  with assms(1) obtain i where i: "taken_of n en = Some (i, Fetching)" "fetched i html en = (en', ef)"
    by (auto split: option.splits phase.splits)
  note mem = taken_of_in(1) [OF i(1)]
  have "engine_ok cfg (item_done (qi_counter i) (en\<lparr>en_crawled_domains := m\<rparr>))" for m
    by (rule engine_ok_done [of _ _ _ Fetching]) (use assms(2) mem in \<open>auto simp: engine_ok_def\<close>)
  moreover have "engine_ok cfg (item_done (qi_counter i) en)"
    by (rule engine_ok_done [OF assms(2) mem])
  moreover have "engine_ok cfg (en\<lparr>en_session_visited := m\<rparr>)" for m
    using assms(2) by (simp add: engine_ok_def)
  ultimately show ?thesis
    using i(2) by (auto simp: fetched_def split: if_splits)
next
  case (E_parsed n found links)
  with assms(1) obtain i where i: "taken_of n en = Some (i, Parsing)" "parsed job_id i found links en = (en', ef)"
    by (auto split: option.splits phase.splits)
  have "engine_ok cfg (item_done (qi_counter i) en)"
    by (rule engine_ok_done [OF assms(2) taken_of_in(1) [OF i(1)]])
  moreover have "engine_ok cfg (fst (save_leads job_id found d (qi_is_seed i) (qi_depth i) en))" for d
    using assms(2) by (simp add: save_leads_def Let_def engine_ok_def)
  ultimately show ?thesis
    using i(2) by (auto simp: parsed_def split: sum.splits prod.splits) (metis fst_conv)
next
  case (E_links n bp)
  with assms(1) obtain i links d where i: "taken_of n en = Some (i, Linking links d)" "en' = linked cfg i links d bp en"
    by (auto split: option.splits phase.splits)
  note mem = taken_of_in(1) [OF i(1)]
  have ok: "item_ok cfg (length (en_cells en)) i"
    using assms(2) pending_taken [OF assms(2) mem] by (simp add: engine_ok_def)
  show ?thesis
    unfolding i(2) linked_def
    by (intro engine_ok_done [of _ _ _ "Linking links d"]) (use mem ok assms(2) in \<open>auto simp: taken_links intro: engine_ok_links\<close>)
next
  case (E_drop n)
  with assms(1) obtain i ph where i: "taken_of n en = Some (i, ph)" "en' = item_done n en"
    by (auto split: option.splits)
  with engine_ok_done [OF assms(2) taken_of_in(1) [OF i(1)]] taken_of_in(2) [OF i(1)] show ?thesis by simp
qed

lemma engine_ok_run: "engine_run job_id cfg evs en = Some (en', efs) \<Longrightarrow> engine_ok cfg en \<Longrightarrow> engine_ok cfg en'"
  by (induction evs arbitrary: en efs) (auto split: option.splits dest: engine_ok_step)

section \<open>Every page at most once\<close>

definition waiting :: "engine \<Rightarrow> queue_item list" where
  "waiting en = page_items (en_queue en @ map fst (filter (\<lambda>t. snd t = Fetching) (en_taken en)))"

definition waiting_keys :: "engine \<Rightarrow> string set" where
  "waiting_keys en = item_key ` set (waiting en)"

lemma waiting_pending: "engine_ok cfg en \<Longrightarrow> set (waiting en) \<subseteq> set (page_items (en_pending en))"
  using pending_queue pending_taken by (fastforce simp: waiting_def)

lemma waiting_visited: "engine_ok cfg en \<Longrightarrow> waiting_keys en \<subseteq> en_visited en"
  using waiting_pending [of cfg en] by (force simp: waiting_keys_def engine_ok_def)

lemma waiting_keys_skip [simp]: "waiting_keys (skip n en) = waiting_keys en"
  by (simp add: waiting_keys_def waiting_def)

lemma links_waiting:
  assumes "item_ok cfg (length (en_cells en)) i"
    and en'_def: "en' = fst (enqueue_links cfg bp links url dep d s h (qi_chain i) en)"
  shows "en_visited en \<subseteq> en_visited en' \<and> (\<forall>k \<in> waiting_keys en'. k \<in> waiting_keys en \<or> k \<notin> en_visited en)"
proof -
  let ?P = "\<lambda>e. en_visited en \<subseteq> en_visited e \<and> (\<forall>k \<in> waiting_keys e. k \<in> waiting_keys en \<or> k \<notin> en_visited en)"
  have "?P (fst (link_loop cfg c 0 links en))" if "lc_chain c = qi_chain i" for c
  proof (rule link_loop_rule [where P = ?P])
    show "a < length (en_cells en)" if "lc_chain c = Some a" for a
      using that assms \<open>lc_chain c = qi_chain i\<close> by (simp add: item_ok_def)
  qed (auto simp: waiting_keys_def waiting_def item_key_def)
  then show ?thesis
    unfolding en'_def by (intro enqueue_links_rule [where P = ?P]) (auto simp: waiting_keys_skip)
qed

text \<open>What one event does to the pages that wait to be fetched.\<close>

lemma same_key_same_item:
  assumes "engine_ok cfg en" "i \<in> set (en_pending en)" "j \<in> set (en_pending en)" "\<not> qi_is_seed i" "\<not> qi_is_seed j"
    and "item_key i = item_key j"
  shows "i = j"
proof -
  have "inj_on item_key (set (page_items (en_pending en)))"
    using assms(1) by (simp add: engine_ok_def distinct_map)
  with assms show ?thesis by (auto dest: inj_onD)
qed

lemma waiting_done: "waiting_keys (item_done n en) \<subseteq> waiting_keys en"
  by (auto simp: waiting_keys_def waiting_def item_done_def)

lemma waiting_frame:
  "en_queue en' = en_queue en \<Longrightarrow> en_taken en' = en_taken en \<Longrightarrow> waiting_keys en' = waiting_keys en"
  by (simp add: waiting_keys_def waiting_def)

lemma waiting_phase: "ph \<noteq> Fetching \<Longrightarrow> waiting_keys (set_phase n ph en) \<subseteq> waiting_keys en"
  by (force simp: waiting_keys_def waiting_def set_phase_def)

lemma fetched_waiting:
  assumes "engine_ok cfg en" "(i, Fetching) \<in> set (en_taken en)" "\<not> qi_is_seed i"
  shows "item_key i \<in> waiting_keys en" "item_key i \<notin> waiting_keys (set_phase (qi_counter i) Parsing en)"
proof -
  show "item_key i \<in> waiting_keys en"
    using assms(2,3) by (force simp: waiting_keys_def waiting_def)
  show "item_key i \<notin> waiting_keys (set_phase (qi_counter i) Parsing en)"
  proof
    assume "item_key i \<in> waiting_keys (set_phase (qi_counter i) Parsing en)"
    then obtain j where j: "item_key j = item_key i" "\<not> qi_is_seed j"
      "j \<in> set (en_queue en) \<or> ((j, Fetching) \<in> set (en_taken en) \<and> qi_counter j \<noteq> qi_counter i)"
      by (auto simp: waiting_keys_def waiting_def set_phase_def split: if_splits)
    then have "j = i"
      using same_key_same_item [OF assms(1), of j i] assms pending_queue [OF assms(1)] pending_taken [OF assms(1)] by metis
    with j(3) have "i \<in> set (en_queue en)" by simp
    with counters_distinct [OF assms(1)] assms(2) show False by force
  qed
qed

text \<open>What one event does to the pages that wait to be fetched.\<close>

definition waiting_step :: "engine \<Rightarrow> engine \<Rightarrow> engine_effect \<Rightarrow> bool" where
  "waiting_step en en' ef \<longleftrightarrow> en_visited en \<subseteq> en_visited en' \<and>
     (\<forall>k \<in> waiting_keys en'. k \<in> waiting_keys en \<or> k \<notin> en_visited en) \<and>
     distinct (map url_key (ef_visited ef)) \<and>
     (\<forall>u \<in> set (ef_visited ef). url_key u \<in> waiting_keys en \<and> url_key u \<notin> waiting_keys en')"

lemma item_done_sel [simp]: "en_visited (item_done n en) = en_visited en" "en_queue (item_done n en) = en_queue en"
  by (simp_all add: item_done_def)

lemma set_phase_sel [simp]: "en_visited (set_phase n ph en) = en_visited en" "en_queue (set_phase n ph en) = en_queue en"
  by (simp_all add: set_phase_def)

lemma take_waiting: "take_item en = Some en' \<Longrightarrow> en_visited en' = en_visited en \<and> waiting_keys en' \<subseteq> waiting_keys en"
  by (force simp: take_item_def waiting_keys_def waiting_def dest!: queue_get_in split: option.splits
      dest: set_remove1_subset [THEN subsetD])

lemma step_waiting:
  assumes "engine_step job_id cfg ev en = Some (en', ef)" "engine_ok cfg en"
  shows "waiting_step en en' ef"
proof (cases ev)
  case E_take
  with assms(1) take_waiting [of en en'] show ?thesis by (auto simp: waiting_step_def no_effect_def)
next
  case (E_fetched n html)
  with assms(1) obtain i where i: "taken_of n en = Some (i, Fetching)" "fetched i html en = (en', ef)"
    by (auto split: option.splits phase.splits)
  note mem = taken_of_in(1) [OF i(1)]
  have keys: "waiting_keys (set_phase (qi_counter i) Parsing (en\<lparr>en_session_visited := m\<rparr>)) =
      waiting_keys (set_phase (qi_counter i) Parsing en)" for m
    by (rule waiting_frame) (simp_all add: set_phase_def)
  show ?thesis
  proof (cases html)
    case True
    with i(2) fetched_waiting [OF assms(2) mem] waiting_phase [of Parsing "qi_counter i" en] show ?thesis
      by (auto simp: fetched_def waiting_step_def keys item_key_def no_effect_def split: if_splits)
  next
    case False
    have "waiting_keys (item_done (qi_counter i) (en\<lparr>en_crawled_domains := m\<rparr>)) \<subseteq> waiting_keys en" for m
      using waiting_done [of "qi_counter i" "en\<lparr>en_crawled_domains := m\<rparr>"] by (simp add: waiting_keys_def waiting_def)
    with False i(2) show ?thesis
      by (fastforce simp: fetched_def waiting_step_def no_effect_def)
  qed
next
  case (E_parsed n found links)
  with assms(1) obtain i where i: "taken_of n en = Some (i, Parsing)" "parsed job_id i found links en = (en', ef)"
    by (auto split: option.splits phase.splits)
  have saved: "waiting_keys (fst (save_leads job_id found d sd dep en)) = waiting_keys en"
    "en_visited (fst (save_leads job_id found d sd dep en)) = en_visited en" for d sd dep
    by (simp_all add: save_leads_def Let_def waiting_keys_def waiting_def)
  show ?thesis
  proof (cases "page_domain i en")
    case (Inl x)
    with i(2) waiting_done [of "qi_counter i" en] show ?thesis
      by (auto simp: parsed_def waiting_step_def no_effect_def)
  next
    case (Inr d)
    let ?en = "fst (save_leads job_id found d (qi_is_seed i) (qi_depth i) en)"
    have "en' = set_phase (qi_counter i) (Linking links d) ?en" "ef_visited ef = []"
      using i(2) Inr by (auto simp: parsed_def no_effect_def split: prod.splits)
    with waiting_phase [of "Linking links d" "qi_counter i" ?en] saved show ?thesis
      by (auto simp: waiting_step_def)
  qed
next
  case (E_links n bp)
  with assms(1) obtain i links d where i: "taken_of n en = Some (i, Linking links d)" "en' = linked cfg i links d bp en" "ef = no_effect"
    by (auto split: option.splits phase.splits)
  have "item_ok cfg (length (en_cells en)) i"
    using assms(2) pending_taken [OF assms(2) taken_of_in(1) [OF i(1)]] by (simp add: engine_ok_def)
  from links_waiting [OF this refl, of bp links "qi_url i" "qi_depth i" d "qi_is_seed i" "qi_page_hops i"] waiting_done
  show ?thesis by (fastforce simp: waiting_step_def i linked_def no_effect_def)
next
  case (E_drop n)
  with assms(1) waiting_done [of n en] show ?thesis
    by (auto simp: waiting_step_def no_effect_def split: option.splits)
qed

lemma run_fetches_once:
  assumes "engine_run job_id cfg evs en = Some (en', efs)" "engine_ok cfg en"
  defines "pages \<equiv> map url_key (concat (map ef_visited efs))"
  shows "distinct pages \<and> (\<forall>k \<in> set pages. k \<in> waiting_keys en \<or> k \<notin> en_visited en)"
  using assms(1,2) unfolding pages_def
proof (induction evs arbitrary: en efs)
  case Nil
  then show ?case by simp
next
  case (Cons ev evs)
  then obtain en1 ef rest where step: "engine_step job_id cfg ev en = Some (en1, ef)"
    and run: "engine_run job_id cfg evs en1 = Some (en', rest)" and efs: "efs = ef # rest"
    by (auto split: option.splits)
  note w = step_waiting [OF step Cons.prems(2), unfolded waiting_step_def]
  have IH: "distinct (map url_key (concat (map ef_visited rest)))"
    "\<forall>k \<in> set (map url_key (concat (map ef_visited rest))). k \<in> waiting_keys en1 \<or> k \<notin> en_visited en1"
    using Cons.IH [OF run engine_ok_step [OF step Cons.prems(2)]] by auto
  have "url_key u \<notin> set (map url_key (concat (map ef_visited rest)))" if "u \<in> set (ef_visited ef)" for u
    using that w IH(2) waiting_visited [OF Cons.prems(2)] by blast
  moreover have "k \<in> waiting_keys en \<or> k \<notin> en_visited en" if "k \<in> set (map url_key (concat (map ef_visited rest)))" for k
    using that w IH(2) by blast
  ultimately show ?case
    using w IH(1) by (auto simp: efs)
qed

lemma enqueue_seeds_rule:
  assumes "enqueue_seeds cfg seeds en = (en', None)" "P k en"
    and "\<And>k n e. P k e \<Longrightarrow> P (Suc k) (skip n e)"
    and "\<And>k url did e. P k e \<Longrightarrow> in_scope cfg url = Inr True \<Longrightarrow> url_key url \<notin> en_visited e \<Longrightarrow>
      P (Suc k) (add_item (new_item cfg url 0 did True 0 None e) e)"
  shows "P (k + length seeds) en'"
  using assms(1,2)
proof (induction seeds arbitrary: k en)
  case Nil
  then show ?case by simp
next
  case (Cons s seeds)
  obtain url did where s: "s = (url, did)" by fastforce
  show ?case
  proof (cases rule: enqueue_url_cases [of cfg url 0 did True 0 None en])
    case (raised x)
    with Cons.prems show ?thesis by (simp add: s)
  next
    case skipped
    with Cons.prems Cons.IH [OF _ assms(3) [OF Cons.prems(2)], of 1] show ?thesis by (simp add: s)
  next
    case added
    with Cons.prems Cons.IH [OF _ assms(4) [OF Cons.prems(2) added(2,3)], of did] show ?thesis by (simp add: s)
  qed
qed

lemma map_netlocs_frame:
  "map_netlocs seeds en = (en', r) \<Longrightarrow> en_queue en' = en_queue en \<and> en_taken en' = en_taken en \<and>
     en_pending en' = en_pending en \<and> en_visited en' = en_visited en \<and> en_counter en' = en_counter en \<and> en_cells en' = en_cells en"
  by (induction seeds arbitrary: en) (auto split: sum.splits option.splits)

text \<open>A run that starts from its seeds: only seeds are queued, at most one item for each.\<close>

definition fresh_start :: "engine_cfg \<Rightarrow> nat \<Rightarrow> string set \<Rightarrow> engine \<Rightarrow> bool" where
  "fresh_start cfg n boot en \<longleftrightarrow> engine_ok cfg en \<and> en_taken en = [] \<and> en_visited en = boot \<and>
     list_all qi_is_seed (en_queue en) \<and> length (en_queue en) \<le> n"

lemma start_run_fresh:
  assumes "start_run cfg seeds bootstrap None new_engine = (en, None)"
  shows "fresh_start cfg (length seeds) (url_key ` set bootstrap) en"
proof -
  from assms obtain en1 where netlocs: "map_netlocs seeds new_engine = (en1, None)"
    and enq: "enqueue_seeds cfg seeds (en1\<lparr>en_visited := en_visited en1 \<union> set (map url_key bootstrap)\<rparr>) = (en, None)"
    by (auto simp: start_run_def Let_def split: prod.splits option.splits)
  note frame = map_netlocs_frame [OF netlocs]
  let ?en = "en1\<lparr>en_visited := en_visited en1 \<union> set (map url_key bootstrap)\<rparr>"
  have "fresh_start cfg (0 + length seeds) (en_visited ?en) en"
  proof (rule enqueue_seeds_rule [OF enq])
    show "fresh_start cfg 0 (en_visited ?en) ?en"
      using frame by (simp add: fresh_start_def engine_ok_def new_engine_def)
    show "fresh_start cfg (Suc k) (en_visited ?en) (add_item (new_item cfg url 0 did True 0 None e) e)"
      if "fresh_start cfg k (en_visited ?en) e" "in_scope cfg url = Inr True" "url_key url \<notin> en_visited e" for k url did e
      using that by (auto simp: fresh_start_def item_ok_def intro: engine_ok_add)
  qed (auto simp: fresh_start_def)
  then show ?thesis using frame by (simp add: new_engine_def)
qed

text \<open>Every page the run marks as visited was queued within the scope.\<close>

lemma step_in_scope:
  assumes "engine_step job_id cfg ev en = Some (en', ef)" "engine_ok cfg en" "u \<in> set (ef_visited ef)"
  shows "in_scope cfg u = Inr True"
proof -
  obtain n html i where "ev = E_fetched n html" "taken_of n en = Some (i, Fetching)" "u = qi_url i"
    using assms(1,3) by (cases ev) (auto simp: no_effect_def fetched_def parsed_def
        split: option.splits phase.splits sum.splits prod.splits if_splits)
  then have "i \<in> set (en_pending en)"
    using pending_taken [OF assms(2)] taken_of_in(1) by blast
  with assms(2) \<open>u = qi_url i\<close> show ?thesis by (simp add: engine_ok_def item_ok_def)
qed

lemma run_in_scope:
  "engine_run job_id cfg evs en = Some (en', efs) \<Longrightarrow> engine_ok cfg en \<Longrightarrow>
   list_all (\<lambda>u. in_scope cfg u = Inr True) (concat (map ef_visited efs))"
proof (induction evs arbitrary: en efs)
  case (Cons ev evs)
  then obtain en1 ef rest where step: "engine_step job_id cfg ev en = Some (en1, ef)"
    and run: "engine_run job_id cfg evs en1 = Some (en', rest)" and efs: "efs = ef # rest"
    by (auto split: option.splits)
  show ?case
    using Cons.IH [OF run engine_ok_step [OF step Cons.prems(2)]] step_in_scope [OF step Cons.prems(2)]
    by (simp add: efs list_all_iff) blast
qed simp

text \<open>C2.
  A crawl fetches no page twice. Of the pages a run visits beyond its seeds, no two are the same
  up to scheme, \<open>www.\<close> and trailing slashes, none was on the list of recently visited URLs, and
  every one is within the configured suffixes and extensions, whatever the workers, the pages and
  the timeouts do.
\<close>

theorem crawl_fetches_each_page_once:
  assumes "start_run cfg seeds bootstrap None new_engine = (en, None)"
    and "engine_run job_id cfg evs en = Some (en', efs)"
  shows "let pages = concat (map ef_visited efs) in distinct (map url_key pages) \<and> list_all (\<lambda>u. url_key u \<notin> url_key ` set bootstrap) pages \<and>
    list_all (\<lambda>u. in_scope cfg u = Inr True) pages"
proof -
  note start = start_run_fresh [OF assms(1), unfolded fresh_start_def]
  have "waiting_keys en = {}"
    using start by (auto simp: waiting_keys_def waiting_def list_all_iff)
  with start run_fetches_once [OF assms(2)] run_in_scope [OF assms(2)] show ?thesis
    by (auto simp: Let_def list_all_iff)
qed

section \<open>The end of a crawl\<close>

fun phase_steps :: "phase \<Rightarrow> nat" where
  "phase_steps Fetching = 3"
| "phase_steps Parsing = 2"
| "phase_steps (Linking links d) = 1"

text \<open>An upper bound on the events left, where \<open>K\<close> holds the keys of the web.\<close>

definition steps_left :: "string set \<Rightarrow> engine \<Rightarrow> nat" where
  "steps_left K en = 4 * length (en_queue en) + sum_list (map (phase_steps \<circ> snd) (en_taken en)) + 4 * card (K - en_visited en)"

definition phase_within :: "string set \<Rightarrow> phase \<Rightarrow> bool" where
  "phase_within K ph = (case ph of Linking links d \<Rightarrow> url_key ` fst ` set links \<subseteq> K | _ \<Rightarrow> True)"

definition links_within :: "string set \<Rightarrow> engine \<Rightarrow> bool" where
  "links_within K en = list_all (phase_within K \<circ> snd) (en_taken en)"

definition event_within :: "string set \<Rightarrow> engine_event \<Rightarrow> bool" where
  "event_within K ev = (case ev of E_parsed n found links \<Rightarrow> url_key ` fst ` set links \<subseteq> K | _ \<Rightarrow> True)"

lemma taken_split:
  assumes "engine_ok cfg en" "taken_of n en = Some (i, ph)"
  obtains xs ys where "en_taken en = xs @ (i, ph) # ys" "qi_counter i = n"
    "\<And>ph' en'. en_taken en' = en_taken en \<Longrightarrow> en_taken (set_phase n ph' en') = xs @ (i, ph') # ys"
    "\<And>en'. en_taken en' = en_taken en \<Longrightarrow> en_taken (item_done n en') = xs @ ys"
proof -
  note mem = taken_of_in [OF assms(2)]
  from mem(1) obtain xs ys where split: "en_taken en = xs @ (i, ph) # ys" by (metis split_list)
  have "n \<notin> qi_counter ` fst ` set (xs @ ys)"
    using counters_distinct [OF assms(1)] mem(2) by (auto simp: split image_image)
  then have other: "qi_counter (fst t) \<noteq> n" if "t \<in> set (xs @ ys)" for t using that by blast
  have "filter (\<lambda>t. qi_counter (fst t) \<noteq> n) xs = xs" "filter (\<lambda>t. qi_counter (fst t) \<noteq> n) ys = ys"
    using other by (auto intro: filter_True)
  moreover have "map (\<lambda>t. if qi_counter (fst t) = n then (fst t, ph') else t) xs = xs"
    "map (\<lambda>t. if qi_counter (fst t) = n then (fst t, ph') else t) ys = ys" for ph'
    by (rule map_idI, use other in auto)+
  ultimately show ?thesis
    using mem(2) by (intro that [OF split mem(2)]) (simp_all add: split set_phase_def item_done_def)
qed

lemma links_steps_left:
  assumes "finite K" "url_key ` fst ` set links \<subseteq> K" "item_ok cfg (length (en_cells en)) i"
    and en'_def: "en' = fst (enqueue_links cfg bp links (qi_url i) (qi_depth i) d (qi_is_seed i) (qi_page_hops i) (qi_chain i) en)"
  shows "4 * length (en_queue en') + 4 * card (K - en_visited en') \<le> 4 * length (en_queue en) + 4 * card (K - en_visited en)"
proof -
  let ?P = "\<lambda>e. length (en_queue e) + card (K - en_visited e) \<le> length (en_queue en) + card (K - en_visited en)"
  have add: "?P (add_item (new_item cfg url a b False h ch e) e)"
    if "?P e" "url \<in> fst ` set links" "url_key url \<notin> en_visited e" for url a b h ch e
  proof -
    have "url_key url \<in> K - en_visited e" using that(2,3) assms(2) by auto
    then have "Suc (card (K - en_visited e - {url_key url})) = card (K - en_visited e)"
      using assms(1) by (intro card_Suc_Diff1) auto
    moreover have "K - insert (url_key url) (en_visited e) = K - en_visited e - {url_key url}" by blast
    ultimately have "card (K - en_visited e) = Suc (card (K - insert (url_key url) (en_visited e)))" by simp
    with that(1) show ?thesis by simp
  qed
  have "?P en'"
    unfolding en'_def
  proof (rule enqueue_links_rule [where P = ?P])
    show "?P (fst (link_loop cfg c 0 links en))" if "lc_chain c = qi_chain i" for c
    proof (rule link_loop_rule [where P = ?P])
      show "?P (add_item (new_item cfg url (lc_depth c) (lc_domain_id c) False (lc_page_hops c + 1) (Some a) e) e)"
        if "?P e" "url \<in> fst ` set links" "url_key url \<notin> en_visited e" for url a e
        by (rule add [OF that])
      show "?P (add_item (new_item cfg url (lc_depth c + 1) (lc_domain_id c) False (lc_page_hops c) None e) e)"
        if "?P e" "url \<in> fst ` set links" "url_key url \<notin> en_visited e" for url e
        by (rule add [OF that])
    qed (use that assms(3) in \<open>auto simp: item_ok_def\<close>)
  qed auto
  then show ?thesis by simp
qed


lemma step_bound:
  assumes "engine_step job_id cfg ev en = Some (en', ef)" "engine_ok cfg en" "finite K" "links_within K en" "event_within K ev"
  shows "steps_left K en' < steps_left K en" "links_within K en'"
proof -
  have "steps_left K en' < steps_left K en \<and> links_within K en'"
  proof (cases ev)
    case E_take
    then obtain i where i: "i \<in> set (en_queue en)" "en_queue en' = remove1 i (en_queue en)"
      "en_taken en' = en_taken en @ [(i, Fetching)]" "en_visited en' = en_visited en"
      using assms(1) by (auto simp: take_item_def dest!: queue_get_in split: option.splits)
    moreover from i(1) obtain m where "length (en_queue en) = Suc m" by (cases "en_queue en") auto
    ultimately show ?thesis
      using assms(4) by (auto simp: steps_left_def length_remove1 links_within_def phase_within_def)
  next
    case (E_fetched n html)
    with assms(1) obtain i where i: "taken_of n en = Some (i, Fetching)" "fetched i html en = (en', ef)"
      by (auto split: option.splits phase.splits)
    obtain xs ys where sp: "en_taken en = xs @ (i, Fetching) # ys" "qi_counter i = n"
      "\<And>ph' en'. en_taken en' = en_taken en \<Longrightarrow> en_taken (set_phase n ph' en') = xs @ (i, ph') # ys"
      "\<And>en'. en_taken en' = en_taken en \<Longrightarrow> en_taken (item_done n en') = xs @ ys"
      by (rule taken_split [OF assms(2) i(1)]) blast
    show ?thesis
      using i(2) assms(4) by (auto simp: fetched_def sp steps_left_def links_within_def phase_within_def split: if_splits)
  next
    case (E_parsed n found links)
    with assms(1) obtain i where i: "taken_of n en = Some (i, Parsing)" "parsed job_id i found links en = (en', ef)"
      by (auto split: option.splits phase.splits)
    obtain xs ys where sp: "en_taken en = xs @ (i, Parsing) # ys" "qi_counter i = n"
      "\<And>ph' en'. en_taken en' = en_taken en \<Longrightarrow> en_taken (set_phase n ph' en') = xs @ (i, ph') # ys"
      "\<And>en'. en_taken en' = en_taken en \<Longrightarrow> en_taken (item_done n en') = xs @ ys"
      by (rule taken_split [OF assms(2) i(1)]) blast
    have "url_key ` fst ` set links \<subseteq> K" using assms(5) E_parsed by (simp add: event_within_def)
    with i(2) assms(4) show ?thesis
      by (auto simp: parsed_def save_leads_def Let_def sp steps_left_def links_within_def phase_within_def split: sum.splits)
  next
    case (E_links n bp)
    with assms(1) obtain i links d where i: "taken_of n en = Some (i, Linking links d)" "en' = linked cfg i links d bp en"
      by (auto split: option.splits phase.splits)
    obtain xs ys where sp: "en_taken en = xs @ (i, Linking links d) # ys" "qi_counter i = n"
      "\<And>ph' en'. en_taken en' = en_taken en \<Longrightarrow> en_taken (set_phase n ph' en') = xs @ (i, ph') # ys"
      "\<And>en'. en_taken en' = en_taken en \<Longrightarrow> en_taken (item_done n en') = xs @ ys"
      by (rule taken_split [OF assms(2) i(1)]) blast
    have ok: "item_ok cfg (length (en_cells en)) i"
      using assms(2) pending_taken [OF assms(2) taken_of_in(1) [OF i(1)]] by (simp add: engine_ok_def)
    have "url_key ` fst ` set links \<subseteq> K" using assms(4) by (simp add: links_within_def phase_within_def sp)
    from links_steps_left [OF assms(3) this ok refl, of bp d] taken_links [OF ok] assms(4) show ?thesis
      by (auto simp: i linked_def sp steps_left_def links_within_def)
  next
    case (E_drop n)
    with assms(1) obtain i ph where i: "taken_of n en = Some (i, ph)" "en' = item_done n en"
      by (auto split: option.splits)
    obtain xs ys where sp: "en_taken en = xs @ (i, ph) # ys" "qi_counter i = n"
      "\<And>ph' en'. en_taken en' = en_taken en \<Longrightarrow> en_taken (set_phase n ph' en') = xs @ (i, ph') # ys"
      "\<And>en'. en_taken en' = en_taken en \<Longrightarrow> en_taken (item_done n en') = xs @ ys"
      by (rule taken_split [OF assms(2) i(1)]) blast
    have "0 < phase_steps ph" by (cases ph) auto
    then show ?thesis
      using i(2) assms(4) by (auto simp: sp steps_left_def links_within_def)
  qed
  then show "steps_left K en' < steps_left K en" "links_within K en'" by auto
qed

lemma run_bound:
  assumes "engine_run job_id cfg evs en = Some (en', efs)" "engine_ok cfg en" "finite K" "links_within K en"
    and "list_all (event_within K) evs"
  shows "length evs + steps_left K en' \<le> steps_left K en"
  using assms
proof (induction evs arbitrary: en efs)
  case Nil
  then show ?case by simp
next
  case (Cons ev evs)
  then obtain en1 ef rest where step: "engine_step job_id cfg ev en = Some (en1, ef)"
    and run: "engine_run job_id cfg evs en1 = Some (en', rest)"
    by (auto split: option.splits)
  have "event_within K ev" "list_all (event_within K) evs" using Cons.prems(5) by auto
  with step_bound [OF step Cons.prems(2-4)] Cons.IH [OF run engine_ok_step [OF step Cons.prems(2)] Cons.prems(3)]
  show ?case by simp
qed

lemma some_step:
  assumes "\<not> crawl_over en"
  shows "\<exists>ev. engine_step job_id cfg ev en \<noteq> None"
proof (cases "en_queue en")
  case Nil
  with assms obtain i ph ts where "en_taken en = (i, ph) # ts"
    by (auto simp: crawl_over_def neq_Nil_conv)
  then have "taken_of (qi_counter i) en = Some (i, ph)" by (simp add: taken_of_def)
  then have "engine_step job_id cfg (E_drop (qi_counter i)) en \<noteq> None" by simp
  then show ?thesis by blast
next
  case (Cons i items)
  then have "engine_step job_id cfg E_take en \<noteq> None" by (simp add: take_item_def queue_get_def Let_def)
  then show ?thesis by blast
qed

text \<open>C3.
  Every crawl over a finite web ends. When the links of all pages have their keys in a finite set,
  a run takes at most four steps for every seed and for every unvisited key, however the workers
  interleave, also with the depth limit switched off; and as long as the crawl is not over some
  step is possible.
\<close>

theorem crawl_ends:
  assumes "start_run cfg seeds bootstrap None new_engine = (en, None)"
    and "engine_run job_id cfg evs en = Some (en', efs)"
    and "finite K" "list_all (event_within K) evs"
  shows "length evs \<le> 4 * (length seeds + card (K - url_key ` set bootstrap)) \<and>
    ((\<forall>ev. engine_step job_id cfg ev en' = None) \<longleftrightarrow> crawl_over en')"
proof
  note start = start_run_fresh [OF assms(1), unfolded fresh_start_def]
  have "links_within K en" using start by (simp add: links_within_def)
  with run_bound [OF assms(2) _ assms(3) _ assms(4)] start
  show "length evs \<le> 4 * (length seeds + card (K - url_key ` set bootstrap))"
    by (simp add: steps_left_def)
  have "engine_step job_id cfg ev en' = None" if "crawl_over en'" for ev
    using that by (cases ev) (simp_all add: crawl_over_def take_item_def queue_get_def taken_of_def)
  then show "(\<forall>ev. engine_step job_id cfg ev en' = None) \<longleftrightarrow> crawl_over en'"
    using some_step by metis
qed

definition demo_crawl_cfg :: engine_cfg where
  "demo_crawl_cfg = \<lparr>ec_priority_keywords = [], ec_skip_extensions = [''.pdf''], ec_target_suffixes = [],
     ec_max_links_per_page = Map.empty, ec_max_depth = 3,
     ec_pagination = \<lparr>pg_enabled = True, pg_param_signals = None, pg_text_signals = Some (Inl [''more'']),
       pg_max_pagination_pages = JInt 50, pg_max_chain_children = JInt 100\<rparr>, ec_request_delay = 2\<rparr>"

definition demo_start :: engine where
  "demo_start = fst (start_run demo_crawl_cfg [(''http://a.in'', Some 7)] [''http://o.in/x''] None new_engine)"

definition demo_events :: "engine_event list" where
  "demo_events = [E_take, E_fetched 1 True, E_parsed 1 []
      [(''http://a.in/b'', ''b'', []), (''http://a.in/b/'', ''b'', []), (''http://o.in/x'', ''x'', []), (''http://a.in/p'', ''more'', [''next''])],
     E_links 1 False, E_take, E_fetched 2 True, E_take, E_fetched 3 False, E_parsed 2 [] [], E_links 2 False]"

lemma demo_start_ok: "start_run demo_crawl_cfg [(''http://a.in'', Some 7)] [''http://o.in/x''] None new_engine = (demo_start, None)"
proof -
  have "snd (start_run demo_crawl_cfg [(''http://a.in'', Some 7)] [''http://o.in/x''] None new_engine) = None" by code_simp
  then show ?thesis by (simp add: demo_start_def prod_eq_iff)
qed

lemma demo_crawl_run: "\<exists>en' efs. engine_run 1 demo_crawl_cfg demo_events demo_start = Some (en', efs) \<and>
  concat (map ef_visited efs) = [''http://a.in/b'']"
proof -
  have "map_option (concat \<circ> map ef_visited \<circ> snd) (engine_run 1 demo_crawl_cfg demo_events demo_start) = Some [''http://a.in/b'']"
    by code_simp
  then show ?thesis by auto
qed


lemma crawl_fetches_each_page_once_witness:
  "\<exists>en' efs. engine_run 1 demo_crawl_cfg demo_events demo_start = Some (en', efs) \<and>
     concat (map ef_visited efs) = [''http://a.in/b''] \<and>
     (let pages = concat (map ef_visited efs) in distinct (map url_key pages) \<and>
        list_all (\<lambda>u. url_key u \<notin> url_key ` set [''http://o.in/x'']) pages \<and> list_all (\<lambda>u. in_scope demo_crawl_cfg u = Inr True) pages)"
  using demo_crawl_run crawl_fetches_each_page_once [OF demo_start_ok, of 1 demo_events] by metis

definition demo_keys :: "string set" where
  "demo_keys = set [''a.in/b'', ''a.in/f'', ''o.in/x'', ''a.in/p'']"

lemma demo_keys_unvisited: "card (demo_keys - url_key ` set [''http://o.in/x'']) = 3"
proof -
  have "url_key ''http://o.in/x'' = ''o.in/x''" by code_simp
  then have "demo_keys - url_key ` set [''http://o.in/x''] = set [''a.in/b'', ''a.in/f'', ''a.in/p'']"
    by (auto simp: demo_keys_def)
  then show ?thesis by simp
qed

lemma crawl_ends_witness:
  "\<exists>en' efs. engine_run 1 demo_crawl_cfg demo_events demo_start = Some (en', efs) \<and>
     length demo_events \<le> 4 * (length [(''http://a.in'', Some 7 :: nat option)] + card (demo_keys - url_key ` set [''http://o.in/x''])) \<and>
     ((\<forall>ev. engine_step 1 demo_crawl_cfg ev en' = None) \<longleftrightarrow> crawl_over en')"
proof -
  have "map url_key [''http://a.in/b'', ''http://a.in/b/'', ''http://o.in/x'', ''http://a.in/p''] =
    [''a.in/b'', ''a.in/b'', ''o.in/x'', ''a.in/p'']" by code_simp
  then have within: "list_all (event_within demo_keys) demo_events"
    by (auto simp: demo_events_def event_within_def demo_keys_def)
  have "finite demo_keys" by (simp add: demo_keys_def)
  with crawl_ends [OF demo_start_ok _ _ within, of 1] demo_crawl_run show ?thesis by metis
qed

section \<open>Caps of link discovery\<close>

text \<open>The pages a page adds to the queue.\<close>

definition added :: "engine \<Rightarrow> engine \<Rightarrow> nat" where
  "added en en' = length (en_queue en') - length (en_queue en)"

definition target_bonus :: "link_ctx \<Rightarrow> engine \<Rightarrow> int" where
  "target_bonus c en = (case lc_target c of None \<Rightarrow> 0 | Some t \<Rightarrow> if url_key t \<in> en_visited en then 0 else 1)"

lemma target_bonus_mono: "en_visited en \<subseteq> en_visited en' \<Longrightarrow> target_bonus c en' \<le> target_bonus c en"
  by (auto simp: target_bonus_def split: option.split)

lemma target_bonus_skip [simp]: "target_bonus c (skip n en) = target_bonus c en"
  by (simp add: target_bonus_def cong: option.case_cong)

lemma target_bonus_nonneg: "0 \<le> target_bonus c en"
  by (simp add: target_bonus_def split: option.split)

lemma link_loop_capped:
  assumes "lc_chain c = None" "0 < lc_max_links c"
  shows "length (en_queue en) \<le> length (en_queue (fst (link_loop cfg c n links en))) \<and>
    int (length (en_queue (fst (link_loop cfg c n links en)))) \<le> int (length (en_queue en)) +
      max 0 (lc_max_links c - int n) + target_bonus c en"
proof (induction links arbitrary: n en)
  case Nil
  then show ?case using target_bonus_nonneg [of c en] by simp
next
  case (Cons l links)
  obtain url tx rel where l: "l = (url, tx, rel)" by (rule prod_cases3)
  let ?capped = "lc_target c \<noteq> Some url \<and> lc_chain c = None \<and> 0 < lc_max_links c \<and> lc_max_links c \<le> int n"
  show ?case
  proof (cases "?capped \<or> in_scope cfg url \<noteq> Inr True \<or> url_key url \<in> en_visited en")
    case True
    then show ?thesis
      using Cons.IH [of "skip 1 en" n] target_bonus_nonneg [of c en] by (auto simp: l split: sum.split)
  next
    case False
    then have fresh: "in_scope cfg url = Inr True" "url_key url \<notin> en_visited en" and uncapped: "\<not> ?capped" by auto
    have "snd (fst (follow_link cfg c url tx en)) = None"
      using fresh by (simp add: follow_link_def enqueue_fresh split: option.split)
    then obtain en1 m where step: "follow_link cfg c url tx en = ((en1, None), m)"
      by (metis prod.collapse)
    have eq: "link_loop cfg c n (l # links) en = link_loop cfg c (n + m) links en1"
      unfolding l link_loop.simps if_not_P [OF uncapped] using fresh step by simp
    have "length (en_queue en) \<le> length (en_queue en1) \<and>
      int (length (en_queue en1)) + max 0 (lc_max_links c - int (n + m)) + target_bonus c en1 \<le>
      int (length (en_queue en)) + max 0 (lc_max_links c - int n) + target_bonus c en"
      using step fresh uncapped assms
      by (auto simp: follow_link_def enqueue_fresh target_bonus_def split: if_splits option.splits)
    with Cons.IH [of en1 "n + m"] show ?thesis unfolding eq by linarith
  qed
qed

text \<open>A page of a chain spends one unit of the shared budget for every child.\<close>

lemma link_loop_budget:
  assumes "lc_chain c = Some a" "a < length (en_cells en)"
  shows "length (en_cells (fst (link_loop cfg c n links en))) = length (en_cells en) \<and>
    length (en_queue en) \<le> length (en_queue (fst (link_loop cfg c n links en))) \<and>
    int (length (en_queue (fst (link_loop cfg c n links en)))) - int (en_cells (fst (link_loop cfg c n links en)) ! a) \<le>
      int (length (en_queue en)) - int (en_cells en ! a) + target_bonus c en \<and>
    int (en_cells (fst (link_loop cfg c n links en)) ! a) \<le> max (int (en_cells en ! a)) (lc_max_chain_children c)"
  using assms(2)
proof (induction links arbitrary: n en)
  case Nil
  then show ?case using target_bonus_nonneg [of c en] by simp
next
  case (Cons l links)
  obtain url tx rel where l: "l = (url, tx, rel)" by (rule prod_cases3)
  show ?case
  proof (cases "in_scope cfg url \<noteq> Inr True \<or> url_key url \<in> en_visited en")
    case True
    then show ?thesis
      using Cons.IH [of "skip 1 en" n] Cons.prems assms(1) target_bonus_nonneg [of c en] by (auto simp: l split: sum.split)
  next
    case False
    then have fresh: "in_scope cfg url = Inr True" "url_key url \<notin> en_visited en" by auto
    have "snd (fst (follow_link cfg c url tx en)) = None"
      using fresh by (simp add: follow_link_def enqueue_fresh split: option.split)
    then obtain en1 m where step: "follow_link cfg c url tx en = ((en1, None), m)"
      by (metis prod.collapse)
    have eq: "link_loop cfg c n (l # links) en = link_loop cfg c (n + m) links en1"
      using fresh step assms(1) by (simp add: l)
    have "length (en_cells en1) = length (en_cells en) \<and> length (en_queue en) \<le> length (en_queue en1) \<and>
      int (length (en_queue en1)) - int (en_cells en1 ! a) + target_bonus c en1 \<le>
        int (length (en_queue en)) - int (en_cells en ! a) + target_bonus c en \<and>
      int (en_cells en1 ! a) \<le> max (int (en_cells en ! a)) (lc_max_chain_children c)"
      using step fresh assms(1) Cons.prems
      by (auto simp: follow_link_def enqueue_fresh target_bonus_def split: if_splits option.splits)
    with Cons.IH [of en1 "n + m"] Cons.prems show ?thesis unfolding eq by auto
  qed
qed

lemma fan_out_parts:
  assumes "0 < max_links cfg depth" "a < length (en_cells en)"
  shows "let en' = fst (enqueue_links cfg bp links url depth d s hops None en) in
      int (length (en_queue en')) \<le> int (length (en_queue en)) + max_links cfg depth + 1"
    and "let en' = fst (enqueue_links cfg bp links url depth d s hops (Some a) en) in
      int (length (en_queue en')) \<le> int (length (en_queue en)) + (int (en_cells en' ! a) - int (en_cells en ! a)) + 1 \<and>
      int (en_cells en' ! a) \<le> max (int (en_cells en ! a)) (max_children cfg)"
proof -
  have bonus: "target_bonus c en \<le> 1" for c
    by (simp add: target_bonus_def split: option.split)
  show "let en' = fst (enqueue_links cfg bp links url depth d s hops None en) in
      int (length (en_queue en')) \<le> int (length (en_queue en)) + max_links cfg depth + 1"
    unfolding Let_def
  proof (rule enqueue_links_rule [where P = "\<lambda>e. int (length (en_queue e)) \<le> int (length (en_queue en)) + max_links cfg depth + 1"])
    show "int (length (en_queue (fst (link_loop cfg c 0 links en)))) \<le> int (length (en_queue en)) + max_links cfg depth + 1"
      if "lc_chain c = None" "lc_max_links c = max_links cfg depth" for c
      using link_loop_capped [of c en cfg 0 links] that assms(1) bonus [of c] by simp
  qed (use assms(1) in simp_all)
  let ?Q = "\<lambda>e. int (length (en_queue e)) \<le> int (length (en_queue en)) + (int (en_cells e ! a) - int (en_cells en ! a)) + 1 \<and>
    int (en_cells e ! a) \<le> max (int (en_cells en ! a)) (max_children cfg)"
  show "let en' = fst (enqueue_links cfg bp links url depth d s hops (Some a) en) in ?Q en'"
    unfolding Let_def
  proof (rule enqueue_links_rule [where P = ?Q])
    show "?Q (fst (link_loop cfg c 0 links en))" if "lc_chain c = Some a" "lc_max_chain_children c = max_children cfg" for c
      using link_loop_budget [OF that(1) assms(2), of cfg 0 links] that(2) bonus [of c] by linarith
  qed simp_all
qed

text \<open>C19.
  The fan-out of a page is capped. A page outside any pagination chain queues at most
  \<open>max_links_per_page\<close> pages, when that is positive, and one page of a chain. A page of a chain
  queues at most one next page and as many others as it takes from the budget cell the whole
  chain shares, and no page takes the cell above \<open>max_chain_children\<close>.
\<close>

theorem fan_out_is_capped:
  assumes "0 < max_links cfg depth" "a < length (en_cells en)"
  shows "(let en' = fst (enqueue_links cfg bp links url depth d s hops None en) in
      int (length (en_queue en')) \<le> int (length (en_queue en)) + max_links cfg depth + 1) \<and>
    (let en' = fst (enqueue_links cfg bp links url depth d s hops (Some a) en) in
      int (length (en_queue en')) \<le> int (length (en_queue en)) + (int (en_cells en' ! a) - int (en_cells en ! a)) + 1 \<and>
      int (en_cells en' ! a) \<le> max (int (en_cells en ! a)) (max_children cfg))"
  using fan_out_parts [OF assms] by blast

lemma fan_out_is_capped_witness:
  "let links = [(''http://a.in/1'', [], []), (''http://a.in/2'', [], []), (''http://a.in/3'', [], [])];
       cfg = demo_crawl_cfg\<lparr>ec_max_links_per_page := [''0'' \<mapsto> 2]\<rparr>; en = new_engine\<lparr>en_cells := [99]\<rparr>;
       en1 = fst (enqueue_links cfg False links ''http://a.in'' 0 None True 0 None en);
       en2 = fst (enqueue_links cfg False links ''http://a.in'' 0 None True 0 (Some 0) en)
   in length (en_queue en1) = 2 \<and> length (en_queue en2) = 1 \<and> en_cells en2 = [100] \<and>
      int (length (en_queue en1)) \<le> int (length (en_queue en)) + max_links cfg 0 + 1"
proof -
  let ?links = "[(''http://a.in/1'', [], []), (''http://a.in/2'', [], []), (''http://a.in/3'', [], [])] :: raw_link list"
  let ?cfg = "demo_crawl_cfg\<lparr>ec_max_links_per_page := [''0'' \<mapsto> 2]\<rparr>" let ?en = "new_engine\<lparr>en_cells := [99]\<rparr>"
  have "length (en_queue (fst (enqueue_links ?cfg False ?links ''http://a.in'' 0 None True 0 None ?en))) = 2"
    "length (en_queue (fst (enqueue_links ?cfg False ?links ''http://a.in'' 0 None True 0 (Some 0) ?en))) = 1"
    "en_cells (fst (enqueue_links ?cfg False ?links ''http://a.in'' 0 None True 0 (Some 0) ?en)) = [100]"
    by code_simp+
  moreover have "0 < max_links ?cfg 0" by code_simp
  note fan_out_is_capped [OF this, of 0 ?en False ?links "''http://a.in''" None True 0]
  ultimately show ?thesis by (simp add: Let_def)
qed

section \<open>Checkpoints\<close>

lemma index_of_nth: "a \<in> set xs \<Longrightarrow> index_of a xs < length xs \<and> xs ! index_of a xs = a"
  by (induction xs) auto

lemma index_of_append: "a \<in> set xs \<Longrightarrow> index_of a (xs @ ys) = index_of a xs"
  by (induction xs) auto

lemma index_of_upt: "k < n \<Longrightarrow> index_of k [0..<n] = k"
  using index_of_nth [of k "[0..<n]"] nth_upt [of 0 "index_of k [0..<n]" n] by simp

definition cells_of :: "queue_item list \<Rightarrow> nat set" where
  "cells_of items = {a. \<exists>i \<in> set items. qi_chain i = Some a}"

lemma checkpoint_loop_eq:
  "checkpoint_loop items keys = (fis, keys2) \<Longrightarrow>
   (\<exists>ext. keys2 = keys @ ext) \<and> set keys2 = set keys \<union> cells_of items \<and>
   fis = map (\<lambda>i. frontier_item (map_option (\<lambda>a. index_of a keys2) (qi_chain i)) i) items"
proof (induction items arbitrary: keys fis)
  case Nil
  then show ?case by (simp add: cells_of_def)
next
  case (Cons i items)
  let ?keys1 = "case qi_chain i of None \<Rightarrow> keys | Some a \<Rightarrow> if a \<in> set keys then keys else keys @ [a]"
  obtain fis1 where rest: "checkpoint_loop items ?keys1 = (fis1, keys2)"
    and fis: "fis = frontier_item (map_option (\<lambda>a. index_of a ?keys1) (qi_chain i)) i # fis1"
    using Cons.prems by (auto simp: Let_def split: prod.splits)
  obtain ext where ext: "keys2 = ?keys1 @ ext" using Cons.IH [OF rest] by blast
  have "\<exists>ext. keys2 = keys @ ext" using ext by (auto split: option.splits)
  moreover have "set keys2 = set keys \<union> cells_of (i # items)"
    using Cons.IH [OF rest] by (auto simp: cells_of_def split: option.splits)
  moreover have "map_option (\<lambda>a. index_of a ?keys1) (qi_chain i) = map_option (\<lambda>a. index_of a keys2) (qi_chain i)"
  proof (cases "qi_chain i")
    case (Some a)
    then have "a \<in> set ?keys1" by simp
    then show ?thesis unfolding ext Some by (simp add: index_of_append)
  qed simp
  ultimately show ?case using Cons.IH [OF rest] fis by simp
qed

definition move_cell :: "(nat \<Rightarrow> nat) \<Rightarrow> queue_item \<Rightarrow> queue_item" where
  "move_cell r i = i\<lparr>qi_chain := map_option r (qi_chain i)\<rparr>"

lemma thaw_frontier_item:
  assumes "\<And>a. qi_chain i = Some a \<Longrightarrow> a \<in> set keys"
  shows "thaw_item base (map (\<lambda>k. (k, f k)) [0..<length keys]) (frontier_item (map_option (\<lambda>a. index_of a keys) (qi_chain i)) i) =
    move_cell (\<lambda>a. base + index_of a keys) i"
proof (cases "qi_chain i")
  case None
  then show ?thesis by (simp add: thaw_item_def frontier_item_def move_cell_def)
next
  case (Some a)
  then have "index_of a keys < length keys" using assms index_of_nth by blast
  moreover have "map (fst \<circ> (\<lambda>k. (k, f k))) [0..<length keys] = [0..<length keys]" by (simp add: comp_def)
  ultimately show ?thesis
    using Some by (simp add: thaw_item_def frontier_item_def move_cell_def index_of_upt)
qed

text \<open>C12.
  A checkpoint that is taken at one moment loses nothing. An engine rebuilt from it has the pending
  items of the old one in its queue, taken ones included, with the same counters and visited URLs;
  items that shared a budget cell share one again, others do not, and every cell holds its old
  value. The rebuilt engine satisfies the invariant, so that the other properties hold for the
  resumed run.
\<close>

theorem frontier_roundtrip:
  assumes "engine_ok cfg en"
  shows "\<exists>r. let en' = rehydrate_frontier (save_checkpoint en en) (new_engine\<lparr>en_visited := boot\<rparr>) in
    en_queue en' = map (move_cell r) (en_pending en) \<and> inj_on r (cells_of (en_pending en)) \<and>
    (\<forall>a \<in> cells_of (en_pending en). r a < length (en_cells en') \<and> en_cells en' ! r a = en_cells en ! a) \<and>
    en_visited en' = boot \<union> en_visited en \<and> en_counter en' = en_counter en \<and> engine_ok cfg en'"
proof -
  obtain fis keys where loop: "checkpoint_loop (en_pending en) [] = (fis, keys)" by fastforce
  have keys: "set keys = cells_of (en_pending en)"
    and fis: "fis = map (\<lambda>i. frontier_item (map_option (\<lambda>a. index_of a keys) (qi_chain i)) i) (en_pending en)"
    using checkpoint_loop_eq [OF loop] by auto
  define r where "r = (\<lambda>a. index_of a keys)"
  define en' where "en' = rehydrate_frontier (save_checkpoint en en) (new_engine\<lparr>en_visited := boot\<rparr>)"
  have thaw: "map (thaw_item 0 (map (\<lambda>k. (k, en_cells en ! (keys ! k))) [0..<length keys])) fis = map (move_cell r) (en_pending en)"
    unfolding fis r_def map_map
  proof (rule map_cong [OF refl])
    fix i assume "i \<in> set (en_pending en)"
    then have "a \<in> set keys" if "qi_chain i = Some a" for a
      using that keys by (auto simp: cells_of_def)
    from thaw_frontier_item [OF this, where base = 0] show "(thaw_item 0 (map (\<lambda>k. (k, en_cells en ! (keys ! k))) [0..<length keys]) \<circ>
        (\<lambda>i. frontier_item (map_option (\<lambda>a. index_of a keys) (qi_chain i)) i)) i = move_cell (\<lambda>a. index_of a keys) i"
      by simp
  qed
  have en': "en_queue en' = map (move_cell r) (en_pending en)" "en_pending en' = map (move_cell r) (en_pending en)"
    "en_taken en' = []" "en_visited en' = boot \<union> en_visited en" "en_counter en' = en_counter en"
    "en_cells en' = map (\<lambda>k. en_cells en ! (keys ! k)) [0..<length keys]"
    using thaw by (simp_all add: en'_def rehydrate_frontier_def save_checkpoint_def loop new_engine_def comp_def Let_def)
  have cell: "r a < length keys \<and> keys ! r a = a" if "a \<in> cells_of (en_pending en)" for a
    using that index_of_nth [of a keys] keys by (simp add: r_def)
  then have "inj_on r (cells_of (en_pending en))" by (metis inj_onI)
  moreover have "\<forall>a \<in> cells_of (en_pending en). r a < length (en_cells en') \<and> en_cells en' ! r a = en_cells en ! a"
    using cell by (simp add: en')
  moreover have "engine_ok cfg en'"
  proof -
    have "map qi_counter (map (move_cell r) xs) = map qi_counter xs"
      "map item_key (page_items (map (move_cell r) xs)) = map item_key (page_items xs)" for xs
      by (induction xs) (simp_all add: move_cell_def item_key_def)
    moreover have "item_ok cfg (length keys) (move_cell r i)" if "i \<in> set (en_pending en)" for i
    proof -
      have "item_ok cfg (length (en_cells en)) i" using assms that by (simp add: engine_ok_def)
      moreover have "r a < length keys" if "qi_chain i = Some a" for a
        using cell [of a] that \<open>i \<in> set (en_pending en)\<close> by (auto simp: cells_of_def)
      ultimately show ?thesis by (auto simp: item_ok_def move_cell_def)
    qed
    moreover have "item_key (move_cell r i) \<in> boot \<union> en_visited en" if "i \<in> set (en_pending en)" "\<not> qi_is_seed i" for i
    proof -
      have "item_key i \<in> en_visited en" using assms that by (auto simp: engine_ok_def)
      then show ?thesis by (simp add: item_key_def move_cell_def)
    qed
    moreover have "qi_is_seed (move_cell r i) = qi_is_seed i" "qi_counter (move_cell r i) = qi_counter i" for i
      by (simp_all add: move_cell_def)
    ultimately show ?thesis
      using assms by (auto simp: engine_ok_def en' simp del: map_map) blast
  qed
  ultimately show ?thesis
    using en'(1,4,5) unfolding en'_def Let_def by blast
qed

definition demo_mid :: engine where
  "demo_mid = fst (the (engine_run 1 demo_crawl_cfg (take 4 demo_events) demo_start))"

lemma demo_mid: "\<exists>efs. engine_run 1 demo_crawl_cfg (take 4 demo_events) demo_start = Some (demo_mid, efs)"
  "map qi_url (en_queue demo_mid) = [''http://a.in/b'', ''http://a.in/p'']"
  "map qi_url (en_pending demo_mid) = [''http://a.in/b'', ''http://a.in/p'']" "map qi_chain (en_pending demo_mid) = [None, Some 0]"
proof -
  have "map_option (\<lambda>(e, _). (map qi_url (en_queue e), map qi_url (en_pending e), map qi_chain (en_pending e)))
      (engine_run 1 demo_crawl_cfg (take 4 demo_events) demo_start) =
    Some ([''http://a.in/b'', ''http://a.in/p''], [''http://a.in/b'', ''http://a.in/p''], [None, Some 0])" by code_simp
  then obtain e efs where run: "engine_run 1 demo_crawl_cfg (take 4 demo_events) demo_start = Some (e, efs)"
    and "map qi_url (en_queue e) = [''http://a.in/b'', ''http://a.in/p'']"
      "map qi_url (en_pending e) = [''http://a.in/b'', ''http://a.in/p'']" "map qi_chain (en_pending e) = [None, Some 0]"
    by auto
  moreover have "demo_mid = e" by (simp only: demo_mid_def run option.sel fst_conv)
  ultimately show "\<exists>efs. engine_run 1 demo_crawl_cfg (take 4 demo_events) demo_start = Some (demo_mid, efs)"
    "map qi_url (en_queue demo_mid) = [''http://a.in/b'', ''http://a.in/p'']"
    "map qi_url (en_pending demo_mid) = [''http://a.in/b'', ''http://a.in/p'']" "map qi_chain (en_pending demo_mid) = [None, Some 0]"
    by simp_all
qed

lemma demo_mid_ok: "engine_ok demo_crawl_cfg demo_mid"
  using demo_mid(1) start_run_fresh [OF demo_start_ok] by (auto simp: fresh_start_def dest: engine_ok_run)

lemma frontier_roundtrip_witness:
  "\<exists>r. let en' = rehydrate_frontier (save_checkpoint demo_mid demo_mid) (new_engine\<lparr>en_visited := {}\<rparr>) in
     en_queue en' = map (move_cell r) (en_pending demo_mid) \<and> length (en_queue en') = 2 \<and> engine_ok demo_crawl_cfg en'"
proof -
  have "length (map qi_url (en_pending demo_mid)) = 2" unfolding demo_mid(3) by simp
  with frontier_roundtrip [OF demo_mid_ok, of "{}"] show ?thesis by (auto simp: Let_def)
qed

definition demo_before :: engine where
  "demo_before = fst (the (engine_run 1 demo_crawl_cfg (take 3 demo_events) demo_start))"

definition demo_resumed :: engine where
  "demo_resumed = rehydrate_frontier (save_checkpoint demo_before demo_mid) new_engine"

lemma engine_run_snoc:
  "engine_run job_id cfg (evs @ [ev]) en =
     (case engine_run job_id cfg evs en of
        None \<Rightarrow> None
      | Some (e, efs) \<Rightarrow> map_option (\<lambda>(e2, ef). (e2, efs @ [ef])) (engine_step job_id cfg ev e))"
  by (induction evs arbitrary: en) (auto simp: option.map_comp comp_def case_prod_unfold split: option.split)

lemma demo_before_step: "engine_step 1 demo_crawl_cfg (demo_events ! 3) demo_before = Some (demo_mid, no_effect)"
proof -
  have "take 4 demo_events = take 3 demo_events @ [demo_events ! 3]" by (simp add: demo_events_def)
  then obtain e efs ef where "engine_run 1 demo_crawl_cfg (take 3 demo_events) demo_start = Some (e, efs)"
    "engine_step 1 demo_crawl_cfg (demo_events ! 3) e = Some (demo_mid, ef)"
    using demo_mid(1) by (auto simp: engine_run_snoc split: option.splits)
  then have "engine_step 1 demo_crawl_cfg (demo_events ! 3) demo_before = Some (demo_mid, ef)"
    by (simp add: demo_before_def)
  then show ?thesis by (auto simp: demo_events_def split: option.splits phase.splits)
qed

lemma demo_resumed_run:
  "\<exists>over efs. engine_run 1 demo_crawl_cfg (take 4 demo_events) demo_resumed = Some (over, efs) \<and> crawl_over over \<and>
     concat (map ef_visited efs) = []" "map qi_url (en_queue demo_resumed) = [''http://a.in'']"
proof -
  have "(let r = demo_resumed in (map qi_url (en_queue r), map_option (\<lambda>(e, efs). (en_queue e, en_taken e, concat (map ef_visited efs)))
    (engine_run 1 demo_crawl_cfg (take 4 demo_events) r))) = ([''http://a.in''], Some ([], [], []))" by code_simp
  then show "\<exists>over efs. engine_run 1 demo_crawl_cfg (take 4 demo_events) demo_resumed = Some (over, efs) \<and> crawl_over over \<and>
     concat (map ef_visited efs) = []" "map qi_url (en_queue demo_resumed) = [''http://a.in'']"
    by (auto simp: crawl_over_def Let_def)
qed

text \<open>
  A torn checkpoint strands a page. In this run the checkpoint thread reads the pending items
  before a worker queues the links of a page, and the visited set afterwards. The run resumed from
  that checkpoint takes the page it finds on the same link for visited: it ends without ever
  fetching it, where the undisturbed run fetches it.
\<close>

theorem torn_checkpoint_strands_page:
  "engine_step 1 demo_crawl_cfg (demo_events ! 3) demo_before = Some (demo_mid, no_effect) \<and>
   map qi_url (en_queue demo_mid) = [''http://a.in/b'', ''http://a.in/p''] \<and>
   map qi_url (en_queue demo_resumed) = [''http://a.in''] \<and>
   (\<exists>over efs. engine_run 1 demo_crawl_cfg (take 4 demo_events) demo_resumed = Some (over, efs) \<and> crawl_over over \<and>
      concat (map ef_visited efs) = [])"
proof (intro conjI)
  show "engine_step 1 demo_crawl_cfg (demo_events ! 3) demo_before = Some (demo_mid, no_effect)" by (rule demo_before_step)
  show "map qi_url (en_queue demo_mid) = [''http://a.in/b'', ''http://a.in/p'']" by (rule demo_mid(2))
  show "map qi_url (en_queue demo_resumed) = [''http://a.in'']" by (rule demo_resumed_run(2))
  show "\<exists>over efs. engine_run 1 demo_crawl_cfg (take 4 demo_events) demo_resumed = Some (over, efs) \<and> crawl_over over \<and>
      concat (map ef_visited efs) = []" by (rule demo_resumed_run(1))
qed

end
