(* ===== verification/AgentRuntime.thy ===== *)
theory AgentRuntime
  imports EngineProps AuthProps Coordination
begin

text \<open>
  The agent around the engine: its local settings and URL history (\<open>agent/localdb.py\<close>), the
  operator's standing session (\<open>agent/identity.py\<close>), the guards of its loopback server
  (\<open>agent/bff/security.py\<close>), and the life of a crawl job on the machine (\<open>agent/api.py\<close>).
\<close>

section \<open>Local settings and history\<close>

record local_db =
  ld_settings :: "string \<rightharpoonup> string"
  ld_history :: "(string \<times> datetime) list"

definition empty_local_db :: local_db where
  "empty_local_db = \<lparr>ld_settings = Map.empty, ld_history = []\<rparr>"

definition get_setting :: "string \<Rightarrow> string option \<Rightarrow> local_db \<Rightarrow> string option" where
  "get_setting key dflt db = (case ld_settings db key of Some v \<Rightarrow> Some v | None \<Rightarrow> dflt)"

definition set_setting :: "string \<Rightarrow> string \<Rightarrow> local_db \<Rightarrow> local_db" where
  "set_setting key v db = db\<lparr>ld_settings := (ld_settings db)(key \<mapsto> v)\<rparr>"

definition has_setting :: "string \<Rightarrow> local_db \<Rightarrow> bool" where
  "has_setting key db = (get_setting key None db \<noteq> None)"

text \<open>\<open>fresh\<close> is the UUID a first run mints.\<close>

definition get_agent_id :: "string \<Rightarrow> local_db \<Rightarrow> local_db \<times> string" where
  "get_agent_id fresh db =
     (let existing = get_setting ''agent_id'' None db in
      if truthy existing then (db, the existing) else (set_setting ''agent_id'' fresh db, fresh))"

definition mark_visited :: "string \<Rightarrow> datetime \<Rightarrow> local_db \<Rightarrow> local_db" where
  "mark_visited url now db =
     db\<lparr>ld_history := (if url \<in> set (map fst (ld_history db))
                       then map (\<lambda>(u, t). if u = url then (u, now) else (u, t)) (ld_history db)
                       else ld_history db @ [(url, now)])\<rparr>"

definition get_recently_visited :: "datetime \<Rightarrow> local_db \<Rightarrow> string list" where
  "get_recently_visited since db = map fst (filter (\<lambda>(u, t). since \<le> t) (ld_history db))"

section \<open>The operator's session\<close>

record identity =
  id_email :: "string option"
  id_access_token :: "string option"
  id_base_url :: "string option"
  id_permissions :: "string set"
  id_is_admin :: bool

text \<open>The keyring maps an account to its refresh token.\<close>

record agent_session =
  as_identity :: identity
  as_keyring :: "string \<rightharpoonup> string"

text \<open>\<open>Unreachable\<close> is a refused connection or a timeout, \<open>HttpError\<close> every other error of the HTTP client.\<close>

datatype agent_exn = SessionExpired string | RuntimeError string | HttpError | Unreachable

definition no_identity :: identity where
  "no_identity = \<lparr>id_email = None, id_access_token = None, id_base_url = None, id_permissions = {}, id_is_admin = False\<rparr>"

definition set_session :: "string \<Rightarrow> string \<Rightarrow> string \<Rightarrow> string set \<Rightarrow> bool \<Rightarrow> agent_session \<Rightarrow> agent_session" where
  "set_session email access_token base_url perms is_admin s =
     s\<lparr>as_identity := \<lparr>id_email = Some email, id_access_token = Some access_token, id_base_url = Some base_url,
        id_permissions = perms, id_is_admin = is_admin\<rparr>\<rparr>"

definition clear_session :: "agent_session \<Rightarrow> agent_session" where
  "clear_session s = s\<lparr>as_identity := no_identity\<rparr>"

definition has_session :: "agent_session \<Rightarrow> bool" where
  "has_session s = (id_access_token (as_identity s) \<noteq> None)"

definition get_current_refresh_token :: "agent_session \<Rightarrow> string option" where
  "get_current_refresh_token s =
     (if truthy (id_email (as_identity s)) then as_keyring s (the (id_email (as_identity s))) else None)"

record operator_context =
  oc_email :: "string option"
  oc_is_admin :: bool
  oc_permissions :: "string set"

definition operator_can :: "operator_context \<Rightarrow> string \<Rightarrow> bool" where
  "operator_can oc perm = (oc_is_admin oc \<or> perm \<in> oc_permissions oc)"

definition no_session_error :: agent_exn where
  "no_session_error = RuntimeError ''No operator session''"

definition get_operator_context :: "agent_session \<Rightarrow> agent_exn + operator_context" where
  "get_operator_context s =
     (if has_session s
      then Inr \<lparr>oc_email = id_email (as_identity s), oc_is_admin = id_is_admin (as_identity s),
                oc_permissions = id_permissions (as_identity s)\<rparr>
      else Inl no_session_error)"

definition update_access_token :: "string \<Rightarrow> string set option \<Rightarrow> bool option \<Rightarrow> agent_session \<Rightarrow> agent_session" where
  "update_access_token access_token perms is_admin s =
     (if has_session s
      then s\<lparr>as_identity := (as_identity s)\<lparr>id_access_token := Some access_token,
               id_permissions := the_default (id_permissions (as_identity s)) perms,
               id_is_admin := the_default (id_is_admin (as_identity s)) is_admin\<rparr>\<rparr>
      else s)"

definition get_valid_token :: "agent_session \<Rightarrow> agent_exn + string" where
  "get_valid_token s =
     (case id_access_token (as_identity s) of Some t \<Rightarrow> Inr t | None \<Rightarrow> Inl no_session_error)"

text \<open>
  The answer to \<open>POST /auth/refresh\<close>: \<open>Refreshed\<close>, the status 401, any other error status, or
  none: no connection, or a timeout, after which the server may have done its work. \<open>call\<close> is the
  request: the effect on the server and the answer.
\<close>

datatype refresh_reply =
  Refreshed string "string set" bool string
| Unauthorized
| Failed
| No_answer

definition refresh_session ::
  "(string \<Rightarrow> 's \<Rightarrow> 's \<times> refresh_reply) \<Rightarrow> agent_session \<Rightarrow> 's \<Rightarrow> (agent_session \<times> 's) \<times> (agent_exn + string)" where
  "refresh_session call s srv =
     (let i = as_identity s in
      if \<not> truthy (id_email i) \<or> \<not> truthy (id_base_url i)
      then ((s, srv), Inl (SessionExpired ''No operator session''))
      else
        (let email = the (id_email i) in
         if \<not> truthy (as_keyring s email)
         then ((clear_session s, srv), Inl (SessionExpired ''No refresh token found''))
         else
           (case call (the (as_keyring s email)) srv of
              (srv1, Unauthorized) \<Rightarrow>
                (((clear_session s)\<lparr>as_keyring := (as_keyring s)(email := None)\<rparr>, srv1),
                 Inl (SessionExpired ''Your session has expired''))
            | (srv1, Failed) \<Rightarrow> ((s, srv1), Inl HttpError)
            | (srv1, No_answer) \<Rightarrow> ((s, srv1), Inl Unreachable)
            | (srv1, Refreshed access perms is_admin refresh_token) \<Rightarrow>
                ((s\<lparr>as_identity := i\<lparr>id_access_token := Some access, id_permissions := perms, id_is_admin := is_admin\<rparr>,
                    as_keyring := (as_keyring s)(email \<mapsto> refresh_token)\<rparr>, srv1), Inr access))))"

text \<open>\<open>logout\<close>: the revocation is attempted, its outcome ignored.\<close>

definition logout_session :: "(string \<Rightarrow> 's \<Rightarrow> 's) \<Rightarrow> agent_session \<Rightarrow> 's \<Rightarrow> agent_session \<times> 's" where
  "logout_session revoke s srv =
     (let i = as_identity s in
      if truthy (id_email i) \<and> truthy (id_base_url i)
      then (let email = the (id_email i);
                srv1 = (if truthy (as_keyring s email) then revoke (the (as_keyring s email)) srv else srv)
            in (clear_session (s\<lparr>as_keyring := (as_keyring s)(email := None)\<rparr>), srv1))
      else (clear_session s, srv))"

section \<open>Guards of the local server\<close>

definition TRUSTED_HOSTNAMES :: "string list" where
  "TRUSTED_HOSTNAMES = [''127.0.0.1'', ''localhost'', ''::1'', ''[::1]'']"

record local_request =
  lr_method :: string
  lr_client_host :: "string option"
  lr_host_header :: "string option"
  lr_session_cookie :: "string option"
  lr_csrf_cookie :: "string option"
  lr_csrf_header :: "string option"

definition require_loopback :: "local_request \<Rightarrow> http_exn option" where
  "require_loopback rq =
     (if lr_client_host rq \<in> Some ` set TRUSTED_HOSTNAMES then None
      else Some (HTTPException 403 ''This endpoint is only reachable from localhost''))"

definition hostname_from_host_header :: "string \<Rightarrow> string" where
  "hostname_from_host_header h =
     (if py_startswith h ''['' then fst (py_cut (CHR '']'') h) @ '']'' else fst (py_cut (CHR '':'') h))"

definition require_local_session :: "agent_session \<Rightarrow> local_request \<Rightarrow> http_exn option" where
  "require_local_session s rq =
     (if has_session s \<and> truthy (lr_session_cookie rq) then None
      else Some (HTTPException 401 ''Not logged in''))"

definition verify_trusted_host :: "local_request \<Rightarrow> http_exn option" where
  "verify_trusted_host rq =
     (if lr_method rq \<in> set SAFE_METHODS then None
      else if hostname_from_host_header (the_default [] (lr_host_header rq)) \<in> set TRUSTED_HOSTNAMES then None
      else Some (HTTPException 403 ''Untrusted Host header''))"

definition verify_local_csrf :: "local_request \<Rightarrow> http_exn option" where
  "verify_local_csrf rq =
     (if lr_method rq \<in> set SAFE_METHODS then None
      else case verify_trusted_host rq of
             Some x \<Rightarrow> Some x
           | None \<Rightarrow>
               if \<not> truthy (lr_csrf_cookie rq) \<or> \<not> truthy (lr_csrf_header rq) \<or> lr_csrf_cookie rq \<noteq> lr_csrf_header rq
               then Some (HTTPException 403 ''Missing or invalid CSRF token'')
               else None)"

text \<open>The dependencies of a route run in order; the first that raises ends the request.\<close>

fun first_refusal :: "http_exn option list \<Rightarrow> http_exn option" where
  "first_refusal [] = None"
| "first_refusal (None # gs) = first_refusal gs"
| "first_refusal (Some x # gs) = Some x"

text \<open>The dependencies with which the app mounts the job routes, in front of their own check.\<close>

definition router_guards :: "agent_session \<Rightarrow> local_request \<Rightarrow> http_exn option list" where
  "router_guards s rq = [require_loopback rq, require_local_session s rq, verify_local_csrf rq]"

section \<open>Jobs on the machine\<close>

definition exclusive_source :: "job_request \<Rightarrow> bool" where
  "exclusive_source req = (has_items (jq_domain_ids req) \<noteq> has_items (jq_custom_urls req))"

fun seed_roots :: "(string \<times> nat option) list \<Rightarrow> py_exn + string list" where
  "seed_roots [] = Inr []"
| "seed_roots ((url, did) # seeds) =
     (case url_netloc (seed_url url) of
        Inl x \<Rightarrow> Inl x
      | Inr n \<Rightarrow> (case seed_roots seeds of Inl x \<Rightarrow> Inl x | Inr rs \<Rightarrow> Inr (strip_www (py_lower n) # rs)))"

definition under_root :: "string list \<Rightarrow> string \<Rightarrow> bool" where
  "under_root roots host = list_ex (\<lambda>r. host = r \<or> py_endswith host (''.'' @ r)) roots"

fun bootstrap_loop :: "string list \<Rightarrow> string list \<Rightarrow> py_exn + string list" where
  "bootstrap_loop roots [] = Inr []"
| "bootstrap_loop roots (url # urls) =
     (case url_netloc url of
        Inl x \<Rightarrow> Inl x
      | Inr n \<Rightarrow>
          (case bootstrap_loop roots urls of
             Inl x \<Rightarrow> Inl x
           | Inr bs \<Rightarrow> Inr (if under_root roots (strip_www (py_lower n)) then bs else url # bs)))"

definition local_visited_bootstrap ::
  "(string \<times> nat option) list \<Rightarrow> int \<Rightarrow> datetime \<Rightarrow> local_db \<Rightarrow> py_exn + string list" where
  "local_visited_bootstrap seeds recrawl_days now db =
     (case seed_roots seeds of
        Inl x \<Rightarrow> Inl x
      | Inr roots \<Rightarrow> bootstrap_loop roots (get_recently_visited (now - seconds (86400 * recrawl_days)) db))"

record crawl_task =
  ct_job_id :: nat
  ct_seeds :: "(string option \<times> nat option) list"
  ct_bootstrap :: "string list"
  ct_policy :: engine_policy
  ct_frontier :: "frontier option"

record agent_state =
  ag_local :: local_db
  ag_running :: "nat set"
  ag_outboxes :: "nat \<Rightarrow> (lead_item, frontier) outbox"

definition recrawl_days :: "engine_policy \<Rightarrow> int" where
  "recrawl_days p = (case ep_crawler p ''recrawl_days'' of Some (JInt n) \<Rightarrow> n | _ \<Rightarrow> 30)"

text \<open>The remote call: the permission of the route, and an HTTP error as an error of the same status.\<close>

definition remote :: "current_user \<Rightarrow> (cloud_db \<Rightarrow> cloud_db \<times> (http_exn + 'a)) \<Rightarrow> cloud_db \<Rightarrow> cloud_db \<times> (http_exn + 'a)" where
  "remote me route cloud =
     (if \<not> has_all me [''crawl.run''] then (cloud, Inl (HTTPException 403 ''Insufficient permissions''))
      else case route cloud of
             (cloud1, Inl (ServerError x)) \<Rightarrow> (cloud1, Inl (HTTPException 500 ''Internal Server Error''))
           | r \<Rightarrow> r)"

text \<open>A seed without a URL makes the membership test of \<open>"://" in url\<close> raise.\<close>

definition task_bootstrap :: "(string option \<times> nat option) list \<Rightarrow> engine_policy \<Rightarrow> datetime \<Rightarrow> local_db \<Rightarrow> py_exn + string list" where
  "task_bootstrap seeds policy now db =
     (if list_ex (\<lambda>s. fst s = None) seeds then Inl TypeError
      else local_visited_bootstrap (map (\<lambda>s. (the (fst s), snd s)) seeds) (recrawl_days policy) now db)"

definition spawn_task ::
  "nat \<Rightarrow> (string option \<times> nat option) list \<Rightarrow> engine_policy \<Rightarrow> frontier option \<Rightarrow> datetime \<Rightarrow> agent_state \<Rightarrow>
   agent_state \<times> (http_exn + crawl_task)" where
  "spawn_task job_id seeds policy fr now ag =
     (case task_bootstrap seeds policy now (ag_local ag) of
        Inl x \<Rightarrow> (ag, Inl (ServerError x))
      | Inr bs \<Rightarrow>
          (ag\<lparr>ag_running := insert job_id (ag_running ag)\<rparr>,
           Inr \<lparr>ct_job_id = job_id, ct_seeds = seeds, ct_bootstrap = bs, ct_policy = policy, ct_frontier = fr\<rparr>))"

definition agent_create_job ::
  "app_config \<Rightarrow> datetime \<Rightarrow> http_request \<Rightarrow> current_user \<Rightarrow> string \<Rightarrow> agent_session \<Rightarrow> local_request \<Rightarrow> job_request \<Rightarrow>
   agent_state \<times> cloud_db \<Rightarrow> (agent_state \<times> cloud_db) \<times> (http_exn + crawl_task)" where
  "agent_create_job config now rq me fresh s local_rq req st =
     (let (ag, cloud) = st in
      case first_refusal (router_guards s local_rq) of Some x \<Rightarrow> (st, Inl x) | None \<Rightarrow>
      if \<not> exclusive_source req then (st, Inl (HTTPException 422 ''Provide exactly one of domain_ids or custom_urls''))
      else case require_loopback local_rq of
        Some x \<Rightarrow> (st, Inl x)
      | None \<Rightarrow>
          (let (ldb, agent_id) = get_agent_id fresh (ag_local ag); ag1 = ag\<lparr>ag_local := ldb\<rparr> in
           case remote me (coordination_create_job config now rq me (req\<lparr>jq_agent_id := Some agent_id\<rparr>)) cloud of
             (cloud1, Inl x) \<Rightarrow> ((ag1, cloud1), Inl x)
           | (cloud1, Inr js) \<Rightarrow>
               (case spawn_task (js_job_id js) (map (\<lambda>s. (Some (fst s), snd s)) (js_seeds js)) (js_policy js) None now ag1 of
                  (ag2, r) \<Rightarrow> ((ag2, cloud1), r))))"

definition agent_resume_job ::
  "app_config \<Rightarrow> datetime \<Rightarrow> http_request \<Rightarrow> current_user \<Rightarrow> string \<Rightarrow> agent_session \<Rightarrow> local_request \<Rightarrow> nat \<Rightarrow>
   agent_state \<times> cloud_db \<Rightarrow> (agent_state \<times> cloud_db) \<times> (http_exn + crawl_task)" where
  "agent_resume_job config now rq me fresh s local_rq job_id st =
     (let (ag, cloud) = st in
      case first_refusal (router_guards s local_rq) of Some x \<Rightarrow> (st, Inl x) | None \<Rightarrow>
      case require_loopback local_rq of
        Some x \<Rightarrow> (st, Inl x)
      | None \<Rightarrow>
          if job_id \<in> ag_running ag then (st, Inl (HTTPException 409 ''Job is already running''))
          else
            (let (ldb, agent_id) = get_agent_id fresh (ag_local ag); ag1 = ag\<lparr>ag_local := ldb\<rparr> in
             case remote me (coordination_resume_job config now rq me job_id (Some agent_id)) cloud of
               (cloud1, Inl x) \<Rightarrow> ((ag1, cloud1), Inl x)
             | (cloud1, Inr jr) \<Rightarrow>
                 (case spawn_task job_id (jr_seeds jr) (jr_policy jr) (load_frontier job_id (ag_outboxes ag1 job_id)) now ag1 of
                    (ag2, r) \<Rightarrow> ((ag2, cloud1), r))))"

definition cancel_job_if_running :: "nat \<Rightarrow> agent_state \<Rightarrow> bool" where
  "cancel_job_if_running job_id ag = (job_id \<in> ag_running ag)"

text \<open>The answer says whether the job was cancelled here; the task of the job ends by itself.\<close>

definition agent_cancel_job ::
  "datetime \<Rightarrow> http_request \<Rightarrow> current_user \<Rightarrow> agent_session \<Rightarrow> local_request \<Rightarrow> nat \<Rightarrow>
   agent_state \<times> cloud_db \<Rightarrow> (agent_state \<times> cloud_db) \<times> (http_exn + bool)" where
  "agent_cancel_job now rq me s local_rq job_id st =
     (let (ag, cloud) = st in
      case first_refusal (router_guards s local_rq) of Some x \<Rightarrow> (st, Inl x) | None \<Rightarrow>
      case require_loopback local_rq of
        Some x \<Rightarrow> (st, Inl x)
      | None \<Rightarrow>
          (case coordination_cancel_job now rq me job_id cloud of
             (cloud1, None) \<Rightarrow> ((ag, cloud1), Inr (cancel_job_if_running job_id ag))
           | (cloud1, Some (HTTPException c d)) \<Rightarrow>
               ((ag, cloud1), Inl (if c = 404 then HTTPException 404 ''Job not found''
                                   else if c = 403 then HTTPException 403 ''Insufficient permissions''
                                   else HTTPException 500 ''Internal Server Error''))
           | (cloud1, Some (ServerError x)) \<Rightarrow> ((ag, cloud1), Inl (HTTPException 500 ''Internal Server Error''))))"

text \<open>
  The end of \<open>_run_crawl\<close>: the engine returned, was cancelled, or raised. \<open>finish\<close> is the finish
  request: the effect on the server and whether its answer was a success. The flag of the result
  says whether the task ends by an exception.
\<close>

datatype crawl_end = Crawl_returned | Crawl_cancelled | Crawl_raised string

definition client_finish_job ::
  "('p list \<Rightarrow> 's \<Rightarrow> 's) \<Rightarrow> (string \<Rightarrow> string option \<Rightarrow> 's \<Rightarrow> 's \<times> bool) \<Rightarrow> nat \<Rightarrow> datetime \<Rightarrow> (datetime \<times> delivery) list \<Rightarrow>
   string \<Rightarrow> string option \<Rightarrow> ('p, 'f) outbox \<times> 's \<Rightarrow> (('p, 'f) outbox \<times> 's) \<times> bool" where
  "client_finish_job deliver finish job_id now turns status error st =
     (case drain deliver job_id (now + seconds 30) turns st of
        (bx, s) \<Rightarrow> (case finish status error s of (s1, ok) \<Rightarrow> ((bx, s1), ok)))"

definition run_crawl_end ::
  "('p list \<Rightarrow> 's \<Rightarrow> 's) \<Rightarrow> (string \<Rightarrow> string option \<Rightarrow> 's \<Rightarrow> 's \<times> bool) \<Rightarrow> nat \<Rightarrow> datetime \<Rightarrow>
   (datetime \<times> delivery) list \<Rightarrow> (datetime \<times> delivery) list \<Rightarrow> crawl_end \<Rightarrow>
   ('p, 'f) outbox \<times> 's \<Rightarrow> (('p, 'f) outbox \<times> 's) \<times> bool" where
  "run_crawl_end deliver finish job_id now turns1 turns2 how st =
     (let fail = (\<lambda>e st. case client_finish_job deliver finish job_id now turns2 ''failed'' (Some e) st of (st1, ok) \<Rightarrow> (st1, \<not> ok)) in
      case how of
        Crawl_returned \<Rightarrow>
          (case client_finish_job deliver finish job_id now turns1 ''done'' None st of
             ((bx, s), True) \<Rightarrow> ((clear_frontier job_id bx, s), False)
           | (st1, False) \<Rightarrow> fail ''error'' st1)
      | Crawl_cancelled \<Rightarrow>
          (fst (client_finish_job deliver finish job_id now turns2 ''cancelled'' None
             (drain deliver job_id (now + seconds 5) turns1 st)), True)
      | Crawl_raised e \<Rightarrow> fail e st)"

section \<open>Seeds stay crawlable\<close>

lemma bootstrap_loop_sound:
  "bootstrap_loop roots urls = Inr bs \<Longrightarrow> v \<in> set bs \<Longrightarrow>
     \<exists>n. url_netloc v = Inr n \<and> \<not> under_root roots (strip_www (py_lower n)) \<and> v \<in> set urls"
  by (induction urls arbitrary: bs) (auto split: sum.splits if_splits)

lemma seed_roots_in:
  "seed_roots seeds = Inr rs \<Longrightarrow> (url, did) \<in> set seeds \<Longrightarrow> url_netloc (seed_url url) = Inr n \<Longrightarrow> strip_www (py_lower n) \<in> set rs"
  by (induction seeds arbitrary: rs) (auto split: sum.splits)

lemma py_cut_append: "py_cut c s = (a, b) \<Longrightarrow> s = a @ (case b of None \<Rightarrow> [] | Some t \<Rightarrow> c # t)"
  by (induction s arbitrary: a b) (auto split: if_splits prod.splits)

lemma path_of_tail:
  assumes "tail = [] \<or> hd tail = CHR ''/'' \<or> hd tail = CHR ''?'' \<or> hd tail = CHR ''#''"
  shows "fst (py_cut (CHR ''?'') (fst (py_cut (CHR ''#'') tail))) = [] \<or>
    hd (fst (py_cut (CHR ''?'') (fst (py_cut (CHR ''#'') tail)))) = CHR ''/''"
  using assms by (cases tail) (auto split: prod.split)

text \<open>With a netloc the path is empty or starts with a slash, and the netloc has no slash.\<close>

lemma urlsplit_shape:
  assumes "urlsplit u = Inr p" "ur_netloc p \<noteq> []"
  shows "CHR ''/'' \<notin> set (ur_netloc p)" "ur_path p = [] \<or> hd (ur_path p) = CHR ''/''"
proof -
  define is_end where "is_end = (\<lambda>c. c \<in> {CHR ''/'', CHR ''?'', CHR ''#''})"
  define url0 where "url0 = filter (\<lambda>c. c \<notin> {CHR 0x09, CHR 0x0D, CHR 0x0A}) (dropWhile (\<lambda>c. code_point c \<le> 32) u)"
  obtain before after where cut: "py_cut (CHR '':'') url0 = (before, after)" by fastforce
  define rest where "rest = (if after \<noteq> None \<and> before \<noteq> [] \<and> is_alpha (hd before) \<and> list_all scheme_char before then the after else url0)"
  define tail where "tail = (if py_startswith rest ''//'' then dropWhile (\<lambda>c. \<not> is_end c) (drop 2 rest) else rest)"
  define netloc where "netloc = (if py_startswith rest ''//'' then takeWhile (\<lambda>c. \<not> is_end c) (drop 2 rest) else [])"
  obtain pq fragment where pq: "py_cut (CHR ''#'') tail = (pq, fragment)" by fastforce
  obtain pa query where pa: "py_cut (CHR ''?'') pq = (pa, query)" by fastforce
  have "ur_netloc p = netloc \<and> ur_path p = pa"
    using assms(1) unfolding urlsplit_def Let_def url0_def [symmetric] cut prod.case rest_def [symmetric]
      is_end_def [symmetric] tail_def [symmetric] netloc_def [symmetric] pq pa
    by (auto split: if_splits)
  then have net: "ur_netloc p = netloc" and path: "ur_path p = fst (py_cut (CHR ''?'') (fst (py_cut (CHR ''#'') tail)))"
    by (simp_all add: pq pa)
  have slashes: "py_startswith rest ''//''" using net assms(2) by (auto simp: netloc_def split: if_splits)
  show "CHR ''/'' \<notin> set (ur_netloc p)"
    by (auto simp: net netloc_def slashes is_end_def dest: set_takeWhileD)
  show "ur_path p = [] \<or> hd (ur_path p) = CHR ''/''"
    unfolding path
  proof (rule path_of_tail)
    show "tail = [] \<or> hd tail = CHR ''/'' \<or> hd tail = CHR ''?'' \<or> hd tail = CHR ''#''"
      using hd_dropWhile [of "\<lambda>c. \<not> is_end c" "drop 2 rest"] by (auto simp: is_end_def tail_def slashes)
  qed
qed

lemma lower_slash: "CHR ''/'' \<notin> set s \<Longrightarrow> CHR ''/'' \<notin> set (py_lower s)"
proof -
  have inj: "py_lower_char c = CHR ''/'' \<Longrightarrow> c = CHR ''/''" for c
  proof -
    assume eq: "py_lower_char c = CHR ''/''"
    have "code_point (py_lower_char c) = (if (65 \<le> code_point c \<and> code_point c \<le> 90) \<or> (192 \<le> code_point c \<and> code_point c \<le> 222 \<and> code_point c \<noteq> 215)
        then (code_point c + 32) mod 256 else code_point c)"
      by (simp add: py_lower_char_def Let_def code_point_def)
    moreover have "code_point CHR ''/'' = 47" by (simp add: code_point_def)
    ultimately have "code_point c = 47"
      using eq by (auto split: if_splits)
    then show "c = CHR ''/''" by (metis \<open>code_point CHR ''/'' = 47\<close> code_point_def char_of_char)
  qed
  then show "CHR ''/'' \<notin> set s \<Longrightarrow> CHR ''/'' \<notin> set (py_lower s)"
    by (auto simp: py_lower_def dest: inj [OF sym])
qed

text \<open>The key of a URL starts with its host.\<close>

lemma url_key_host:
  assumes "url_netloc u = Inr n" "n \<noteq> []"
  shows "takeWhile (\<lambda>c. c \<noteq> CHR ''/'') (url_key u) = strip_www (py_lower n)"
proof -
  obtain p where p: "urlsplit u = Inr p" "ur_netloc p = n"
    using assms(1) by (auto simp: url_netloc_def split: sum.splits)
  let ?host = "strip_www (py_lower n)"
  let ?stripped = "rev (dropWhile (\<lambda>c. c = CHR ''/'') (rev (ur_path p)))"
  have suffix: "ur_path p = ?stripped @ rev (takeWhile (\<lambda>c. c = CHR ''/'') (rev (ur_path p)))"
    by (metis rev_append rev_rev_ident takeWhile_dropWhile_id)
  have path: "hd (if ?stripped = [] then ''/'' else ?stripped) = CHR ''/''"
  proof (cases "?stripped = []")
    case False
    then have "hd ?stripped = hd (ur_path p)" by (subst (2) suffix) (rule hd_append2 [symmetric])
    moreover have "ur_path p \<noteq> []" using False by auto
    ultimately show ?thesis using False urlsplit_shape(2) [OF p(1)] p(2) assms(2) by auto
  qed simp
  have "CHR ''/'' \<notin> set ?host"
    using lower_slash [OF urlsplit_shape(1) [OF p(1)]] p(2) assms(2)
    by (auto simp: strip_www_def py_removeprefix_def dest: in_set_dropD)
  then have "takeWhile (\<lambda>c. c \<noteq> CHR ''/'') (?host @ x) = ?host @ takeWhile (\<lambda>c. c \<noteq> CHR ''/'') x" for x
    by (intro takeWhile_append2) auto
  moreover have "takeWhile (\<lambda>c. c \<noteq> CHR ''/'') ((if ?stripped = [] then ''/'' else ?stripped) @ y) = []" for y
    using path by (cases "if ?stripped = [] then ''/'' else ?stripped") (auto split: if_splits)
  ultimately show ?thesis
    by (simp add: url_key_def p strip_www_def Let_def)
qed

lemma enqueue_seeds_queues:
  assumes "enqueue_seeds cfg seeds en = (en', None)"
  shows "set (en_queue en) \<subseteq> set (en_queue en') \<and> en_visited en' = en_visited en \<and>
    ((url, did) \<in> set seeds \<and> in_scope cfg url = Inr True \<and> url_key url \<notin> en_visited en \<longrightarrow>
       (\<exists>i \<in> set (en_queue en'). qi_url i = url \<and> qi_is_seed i \<and> qi_domain_id i = did \<and> qi_depth i = 0))"
  using assms
proof (induction seeds arbitrary: en)
  case Nil
  then show ?case by simp
next
  case (Cons s seeds)
  obtain u d where s: "s = (u, d)" by fastforce
  show ?case
  proof (cases rule: enqueue_url_cases [of cfg u 0 d True 0 None en])
    case (raised x)
    with Cons.prems show ?thesis by (simp add: s)
  next
    case skipped
    then have out: "\<not> (in_scope cfg u = Inr True \<and> url_key u \<notin> en_visited en)"
      by (metis (no_types, lifting) add_item_sel(4) enqueue_fresh n_not_Suc_n prod.inject skip_sel(5))
    have "enqueue_seeds cfg seeds (skip 1 en) = (en', None)"
      using Cons.prems skipped by (simp add: s)
    from Cons.IH [OF this] out show ?thesis by (auto simp: s)
  next
    case added
    let ?i = "new_item cfg u 0 d True 0 None en"
    have "enqueue_seeds cfg seeds (add_item ?i en) = (en', None)"
      using Cons.prems added by (simp add: s)
    note IH = Cons.IH [OF this]
    have "?i \<in> set (en_queue en')" using IH by auto
    then have "\<exists>i \<in> set (en_queue en'). qi_url i = u \<and> qi_is_seed i \<and> qi_domain_id i = d \<and> qi_depth i = 0"
      by (rule bexI [rotated]) (simp add: new_item_def)
    then show ?thesis using IH by (cases "(url, did) = (u, d)") (auto simp: s)
  qed
qed

text \<open>
  The history of the machine never keeps a job from its own seeds. When a job starts with the
  bootstrap the agent computes from the recently visited URLs, every seed that is in scope is in
  the queue at depth 0, however often the machine has visited it or its site before.
\<close>

theorem seeds_are_recrawlable:
  assumes boot: "local_visited_bootstrap seeds days now db = Inr bootstrap"
    and start: "start_run cfg seeds bootstrap None new_engine = (en, None)"
    and seed: "(url, did) \<in> set seeds" "py_contains url ''://''" "in_scope cfg url = Inr True"
      "\<exists>n. url_netloc url = Inr n \<and> n \<noteq> []"
    and history: "list_all (\<lambda>(v, t). \<exists>n. url_netloc v = Inr n \<and> n \<noteq> []) (ld_history db)"
  shows "\<exists>i \<in> set (en_queue en). qi_url i = url \<and> qi_is_seed i \<and> qi_domain_id i = did \<and> qi_depth i = 0"
proof -
  obtain roots where roots: "seed_roots seeds = Inr roots"
    and loop: "bootstrap_loop roots (get_recently_visited (now - seconds (86400 * days)) db) = Inr bootstrap"
    using boot by (auto simp: local_visited_bootstrap_def split: sum.splits)
  obtain n where n: "url_netloc url = Inr n" "n \<noteq> []" using seed(4) by blast
  have root: "strip_www (py_lower n) \<in> set roots"
    using seed_roots_in [OF roots seed(1)] seed(2) n(1) by (simp add: seed_url_def)
  have "url_key url \<noteq> url_key v" if boot_v: "v \<in> set bootstrap" for v
  proof
    assume same: "url_key url = url_key v"
    obtain m where m: "url_netloc v = Inr m" "\<not> under_root roots (strip_www (py_lower m))"
      "v \<in> set (get_recently_visited (now - seconds (86400 * days)) db)"
      using bootstrap_loop_sound [OF loop boot_v] by blast
    from m(3) history m(1) have "m \<noteq> []"
      by (force simp: get_recently_visited_def list_all_iff)
    then have "strip_www (py_lower m) = strip_www (py_lower n)"
      using url_key_host [OF m(1)] url_key_host [OF n] same by simp
    with m(2) root show False by (auto simp: under_root_def list_ex_iff)
  qed
  then have fresh: "url_key url \<notin> url_key ` set bootstrap" by auto
  obtain en1 where netlocs: "map_netlocs seeds new_engine = (en1, None)"
    and enq: "enqueue_seeds cfg seeds (en1\<lparr>en_visited := en_visited en1 \<union> set (map url_key bootstrap)\<rparr>) = (en, None)"
    using start by (auto simp: start_run_def Let_def split: prod.splits option.splits)
  have "en_visited en1 = {}" using map_netlocs_frame [OF netlocs] by (simp add: new_engine_def)
  with enqueue_seeds_queues [OF enq, of url did] seed(1,3) fresh show ?thesis by auto
qed


lemma seeds_are_recrawlable_witness:
  "let seeds = [(''http://a.in'', Some 7)]; db = mark_visited ''http://a.in'' 5 (mark_visited ''http://o.in/x'' 4 empty_local_db);
       bs = [''http://o.in/x'']
   in local_visited_bootstrap seeds 30 9 db = Inr bs \<and>
     (\<exists>i \<in> set (en_queue (fst (start_run demo_crawl_cfg seeds bs None new_engine))).
        qi_url i = ''http://a.in'' \<and> qi_is_seed i \<and> qi_domain_id i = Some 7 \<and> qi_depth i = 0)"
proof -
  let ?seeds = "[(''http://a.in'', Some 7)] :: (string \<times> nat option) list"
  let ?db = "mark_visited ''http://a.in'' 5 (mark_visited ''http://o.in/x'' 4 empty_local_db)"
  have urls: "url_netloc ''http://a.in'' = Inr ''a.in''" "url_netloc ''http://o.in/x'' = Inr ''o.in''" by code_simp+
  have hist: "ld_history ?db = [(''http://o.in/x'', 4), (''http://a.in'', 5)]"
    by (simp add: mark_visited_def empty_local_db_def)
  have boot: "local_visited_bootstrap ?seeds 30 9 ?db = Inr [''http://o.in/x'']" by code_simp
  have scope: "py_contains ''http://a.in'' ''://''" "in_scope demo_crawl_cfg ''http://a.in'' = Inr True" by code_simp+
  have "\<exists>i \<in> set (en_queue demo_start). qi_url i = ''http://a.in'' \<and> qi_is_seed i \<and> qi_domain_id i = Some 7 \<and> qi_depth i = 0"
    by (rule seeds_are_recrawlable [OF boot demo_start_ok _ scope]) (simp_all add: hist urls)
  then show ?thesis using boot by (simp add: Let_def demo_start_def)
qed

end
