(* ===== verification/AgentProps.thy ===== *)
theory AgentProps
  imports AgentRuntime
begin

text \<open>
  The agent and the cloud together: what a lost answer to a token refresh costs the operator, the
  guards of the local server, who may resume a job, and what becomes of the frontier of a job.
\<close>

section \<open>The operator's session and the server's\<close>

text \<open>The refresh request as the agent sees it; \<open>arrives\<close> says whether its answer comes back.\<close>

definition refresh_call ::
  "auth_fns \<Rightarrow> auth_config \<Rightarrow> datetime \<Rightarrow> string \<Rightarrow> http_request \<Rightarrow> bool \<Rightarrow> string \<Rightarrow> auth_db \<Rightarrow> auth_db \<times> refresh_reply" where
  "refresh_call fn cfg now fresh rq arrives tok db =
     (case refresh fn cfg now fresh rq (Some tok) db of
        (db1, Inr tr) \<Rightarrow>
          (db1, if arrives then Refreshed (tr_access_token tr) (tr_permissions tr) (tr_is_admin tr) (tr_refresh_token tr) else No_answer)
      | (db1, Inl (HTTPException c _)) \<Rightarrow> (db1, if \<not> arrives then No_answer else if c = 401 then Unauthorized else Failed)
      | (db1, Inl _) \<Rightarrow> (db1, if arrives then Failed else No_answer))"

text \<open>The operator is signed in as \<open>email\<close> with refresh token \<open>tok\<close>.\<close>

definition signed_in :: "string \<Rightarrow> string \<Rightarrow> agent_session \<Rightarrow> bool" where
  "signed_in email tok s =
     (email \<noteq> [] \<and> tok \<noteq> [] \<and> id_email (as_identity s) = Some email \<and> truthy (id_base_url (as_identity s)) \<and>
      has_session s \<and> as_keyring s email = Some tok)"

text \<open>The token in the keyring opens a live session of the server until \<open>t\<close>.\<close>

definition token_live :: "auth_fns \<Rightarrow> string \<Rightarrow> datetime \<Rightarrow> auth_db \<Rightarrow> bool" where
  "token_live fn tok t db =
     (case get_session_by_hash (fn_hash_refresh fn tok) db of
        None \<Rightarrow> False
      | Some s \<Rightarrow> se_revoked_at s = None \<and> t \<le> se_expires_at s)"

text \<open>C25.
  A refresh that works keeps the two sides in step: the keyring holds the token the server has
  just issued, and it opens a live session. When the answer to the same request is lost on the
  way, the server has rotated the token all the same, and the agent is left with one that is worth
  nothing. Its next refresh is answered 401 and signs the operator out, although the server still
  holds the session, live, under a token nobody has.
\<close>

theorem lost_refresh_reply_signs_out:
  assumes "signed_in email tok s" "fresh \<noteq> []"
    and refreshed: "refresh fn cfg now fresh rq (Some tok) db = (db1, Inr tr)"
    and keys: "fn_hash_refresh fn fresh \<noteq> fn_hash_refresh fn tok"
      "\<forall>x \<in> set (rows (sessions db)). se_refresh_token_hash x \<noteq> fn_hash_refresh fn fresh"
      "distinct (map se_refresh_token_hash (rows (sessions db)))" "session_keys.keys_ok (sessions db)"
    and "t \<le> now + seconds (86400 * ac_refresh_ttl_days cfg)"
  shows "(let ((s1, srv1), r1) = refresh_session (refresh_call fn cfg now fresh rq True) s db in
            signed_in email fresh s1 \<and> token_live fn fresh t srv1 \<and> r1 = Inr (tr_access_token tr)) \<and>
    (let ((s1, srv1), r1) = refresh_session (refresh_call fn cfg now fresh rq False) s db;
         ((s2, srv2), r2) = refresh_session (refresh_call fn cfg t fresh2 rq' True) s1 srv1 in
       s1 = s \<and> r1 = Inl Unreachable \<and> srv1 = db1 \<and>
       r2 = Inl (SessionExpired ''Your session has expired'') \<and> \<not> has_session s2 \<and> as_keyring s2 email = None \<and>
       srv2 = db1 \<and> token_live fn fresh t srv2)"
proof -
  have tok: "tok \<noteq> []" using assms(1) by (simp add: signed_in_def)
  note rot = rotation_lookup [OF refreshed tok keys]
  have live: "token_live fn fresh t db1" using rot(2) assms(8) by (auto simp: token_live_def)
  have "tr_refresh_token tr = fresh" using refreshed by (elim refresh_InrD)
  then have first: "refresh_call fn cfg now fresh rq a tok db =
      (db1, if a then Refreshed (tr_access_token tr) (tr_permissions tr) (tr_is_admin tr) fresh else No_answer)" for a
    by (simp add: refresh_call_def refreshed)
  have "refresh fn cfg t fresh2 rq' (Some tok) db1 = (db1, Inl (HTTPException 401 ''Invalid or expired refresh token''))"
    using rot(1) tok by (simp add: refresh_def Let_def)
  then have second: "refresh_call fn cfg t fresh2 rq' True tok db1 = (db1, Unauthorized)" by (simp add: refresh_call_def)
  show ?thesis
    using assms(1,2) live by (simp add: refresh_session_def signed_in_def first second Let_def has_session_def clear_session_def no_identity_def)
qed

definition demo_session :: agent_session where
  "demo_session = \<lparr>as_identity = \<lparr>id_email = Some ''e'', id_access_token = Some ''t'', id_base_url = Some ''u'',
     id_permissions = {}, id_is_admin = False\<rparr>, as_keyring = [''e'' \<mapsto> ''A'']\<rparr>"

theorem lost_refresh_reply_signs_out_witness:
  "\<exists>srv. let ((s1, srv1), r1) = refresh_session (refresh_call demo_fns demo_cfg 5 ''B'' demo_request False) demo_session one_session;
       ((s2, srv2), r2) = refresh_session (refresh_call demo_fns demo_cfg 6 ''C'' demo_request True) s1 srv1 in
     srv1 = srv \<and> s1 = demo_session \<and> \<not> has_session s2 \<and> token_live demo_fns ''B'' 6 srv2"
proof -
  obtain db' tr where r: "refresh demo_fns demo_cfg 5 ''B'' demo_request (Some ''A'') one_session = (db', Inr tr)"
    using one_session_refresh by blast
  have "signed_in ''e'' ''A'' demo_session" by (simp add: signed_in_def demo_session_def has_session_def)
  moreover have "6 \<le> 5 + seconds (86400 * ac_refresh_ttl_days demo_cfg)" by (simp add: demo_cfg_def seconds_def)
  ultimately show ?thesis
    using lost_refresh_reply_signs_out [OF _ _ r one_session_keys, of "''e''" demo_session 6 "''C''" demo_request]
    by (auto simp: Let_def case_prod_unfold)
qed

section \<open>A job belongs to its machine\<close>

text \<open>
  A job is resumed only from the machine it is bound to. Whatever happens to the jobs meanwhile, a
  resume from a machine with another agent id is answered 403: nothing changes on the server, no
  task is started, and nothing changes on the machine.
\<close>

theorem resume_only_from_its_machine:
  assumes "find_job i (cd_crawl cloud) = Some j" "job_keys.keys_ok (jobs (cd_crawl cloud))" "jb_agent_hostname j = Some a"
    and "list_all (\<lambda>op. respects_job i (interference op)) ops"
    and "get_setting ''agent_id'' None (ag_local ag) = Some b" "b \<noteq> []" "b \<noteq> a"
    and "has_all me [''crawl.run'']" "first_refusal (router_guards s local_rq) = None" "i \<notin> ag_running ag"
  shows "let cloud' = cloud\<lparr>cd_crawl := foldl job_step (cd_crawl cloud) ops\<rparr> in
    \<exists>detail. agent_resume_job config now rq me fresh s local_rq i (ag, cloud') = ((ag, cloud'), Inl (HTTPException 403 detail))"
proof -
  obtain j' where j': "find_job i (foldl job_step (cd_crawl cloud) ops) = Some j'" "jb_agent_hostname j' = Some a"
    using job_run_binding [OF assms(1,2,4)] assms(3) by (auto simp: same_binding_def)
  have "get_job i None True (foldl job_step (cd_crawl cloud) ops) = Some j'"
    using j'(1) by (simp add: get_job_def find_job_def)
  moreover have "require_loopback local_rq = None"
    using assms(9) by (cases "require_loopback local_rq") (simp_all add: router_guards_def)
  ultimately show ?thesis
    using assms(5-) j' by (auto simp: agent_resume_job_def get_agent_id_def remote_def coordination_resume_job_def
        authorized_job_def claim_or_verify_job_agent_def forbid_unless_owner_def Let_def)
qed

definition demo_agent :: agent_state where
  "demo_agent = \<lparr>ag_local = set_setting ''agent_id'' ''b'' empty_local_db, ag_running = {}, ag_outboxes = (\<lambda>_. empty_outbox)\<rparr>"

definition demo_local :: local_request where
  "demo_local = \<lparr>lr_method = ''POST'', lr_client_host = Some ''127.0.0.1'', lr_host_header = Some ''localhost:8000'',
     lr_session_cookie = Some ''1'', lr_csrf_cookie = Some ''k'', lr_csrf_header = Some ''k''\<rparr>"

lemma demo_local_passes: "first_refusal (router_guards demo_session demo_local) = None"
proof -
  have "has_session demo_session" by (simp add: has_session_def demo_session_def)
  moreover have "hostname_from_host_header ''localhost:8000'' \<in> set TRUSTED_HOSTNAMES" by code_simp
  ultimately show ?thesis
    by (simp add: router_guards_def require_loopback_def require_local_session_def verify_local_csrf_def
        verify_trusted_host_def demo_local_def TRUSTED_HOSTNAMES_def)
qed

theorem resume_only_from_its_machine_witness:
  "let db = foldl job_step (fst (claim_or_verify_job_agent 1 ''a'' demo_job_db)) [J_finish id 1 ''done'' None 5, J_claim 1 ''b'']
   in \<exists>detail. agent_resume_job demo_config 9 agent_request (demo_operator 7) ''z'' demo_session demo_local 1
          (demo_agent, demo_cloud\<lparr>cd_crawl := db\<rparr>) =
        ((demo_agent, demo_cloud\<lparr>cd_crawl := db\<rparr>), Inl (HTTPException 403 detail))"
proof -
  let ?db = "fst (claim_or_verify_job_agent 1 ''a'' demo_job_db)"
  have me: "has_all (demo_operator 7) [''crawl.run'']" by (simp add: demo_operator_def has_all_def can_def)
  have id: "get_setting ''agent_id'' None (ag_local demo_agent) = Some ''b''"
    by (simp add: demo_agent_def get_setting_def set_setting_def empty_local_db_def)
  show ?thesis
    using resume_only_from_its_machine [where cloud = "demo_cloud\<lparr>cd_crawl := ?db\<rparr>" and ag = demo_agent and i = 1 and a = "''a''"
        and b = "''b''" and me = "demo_operator 7" and s = demo_session and local_rq = demo_local and config = demo_config and now = 9
        and rq = agent_request and fresh = "''z''" and ops = "[J_finish id 1 ''done'' None 5, J_claim 1 ''b'']"]
      claimed_demo_row me demo_local_passes id
    by (simp add: demo_agent_def Let_def)
qed

section \<open>The frontier of a job\<close>

lemma bx_frontier_fail_row [simp]: "bx_frontier (fail_row i j k p e now bx) = bx_frontier bx"
  by (simp add: fail_row_def Let_def)

lemma bx_frontier_fail_batch [simp]: "bx_frontier (fail_batch k now batch bx) = bx_frontier bx"
  unfolding fail_batch_def by (induction batch arbitrary: bx) simp_all

lemma bx_frontier_flush [simp]: "bx_frontier (fst (fst (flush_kind deliver k now d st))) = bx_frontier (fst st)"
  by (cases st) (simp add: flush_kind_cases Let_def ack_def)

lemma bx_frontier_drain [simp]: "bx_frontier (fst (drain deliver job_id deadline turns st)) = bx_frontier (fst st)"
  by (induction deliver job_id deadline turns st rule: drain.induct) simp_all

lemma client_finish_frontier:
  "bx_frontier (fst (fst (client_finish_job deliver finish job_id now turns status error st))) = bx_frontier (fst st)"
proof -
  obtain bx s where "drain deliver job_id (now + seconds 30) turns st = (bx, s)" by fastforce
  moreover from this have "bx_frontier bx = bx_frontier (fst st)"
    using bx_frontier_drain [of deliver job_id "now + seconds 30" turns st] by simp
  ultimately show ?thesis by (simp add: client_finish_job_def split: prod.splits)
qed

text \<open>
  The frontier of a job outlives the run. The end of a crawl drops the checkpoint of the job, and
  only of that job, exactly when the engine returned and the server has confirmed the status
  \<open>done\<close>; a cancelled or failed crawl, and one whose last request is lost, keeps it for a resume.
\<close>

theorem frontier_kept_until_done:
  "let ((bx', s'), raised) = run_crawl_end deliver finish job_id now turns1 turns2 how (bx, s);
       confirmed = (how = Crawl_returned \<and> snd (client_finish_job deliver finish job_id now turns1 ''done'' None (bx, s)))
   in load_frontier j bx' = (if j = job_id \<and> confirmed then None else load_frontier j bx)"
proof (cases how)
  case Crawl_returned
  obtain bx1 s1 ok where done1: "client_finish_job deliver finish job_id now turns1 ''done'' None (bx, s) = ((bx1, s1), ok)"
    by (metis prod.collapse)
  then have frame: "bx_frontier bx1 = bx_frontier bx"
    using client_finish_frontier [of deliver finish job_id now turns1 "''done''" None "(bx, s)"] by simp
  obtain bx2 s2 ok2 where failed: "client_finish_job deliver finish job_id now turns2 ''failed'' (Some ''error'') (bx1, s1) = ((bx2, s2), ok2)"
    by (metis prod.collapse)
  then have "bx_frontier bx2 = bx_frontier bx1"
    using client_finish_frontier [of deliver finish job_id now turns2 "''failed''" "Some ''error''" "(bx1, s1)"] by simp
  with frame show ?thesis
    by (cases ok) (simp_all add: Crawl_returned run_crawl_end_def done1 failed load_frontier_def clear_frontier_def)
next
  case Crawl_cancelled
  have "bx_frontier (fst (fst (run_crawl_end deliver finish job_id now turns1 turns2 how (bx, s)))) = bx_frontier bx"
    by (simp add: Crawl_cancelled run_crawl_end_def client_finish_frontier)
  then show ?thesis by (auto simp: Crawl_cancelled load_frontier_def split: prod.splits)
next
  case (Crawl_raised e)
  have "bx_frontier (fst (fst (run_crawl_end deliver finish job_id now turns1 turns2 how (bx, s)))) = bx_frontier bx"
    using client_finish_frontier [of deliver finish job_id now turns2 "''failed''" "Some e" "(bx, s)"]
    by (simp add: Crawl_raised run_crawl_end_def case_prod_unfold)
  then show ?thesis by (auto simp: Crawl_raised load_frontier_def split: prod.splits)
qed

end
