(* ===== verification/CampaignApi.thy ===== *)
theory CampaignApi
  imports Coordination Dispatcher
begin

text \<open>
  The campaign endpoints (\<open>cloud/api/campaigns.py\<close>) and the rendering of drafts
  (\<open>cloud/services/campaign_service.py\<close>). A handler takes the whole database of the server and
  returns it updated with an HTTP error or its answer. The Jinja2 engine is a parameter: the text
  of a template and the variables give the rendered text, or None where it raises.
\<close>

section \<open>Rendering of drafts\<close>

type_synonym jinja = "string \<Rightarrow> (string \<times> string) list \<Rightarrow> string option"

definition render_template_string :: "jinja \<Rightarrow> string \<Rightarrow> (string \<times> string) list \<Rightarrow> string" where
  "render_template_string jinja template_str vars = the_default template_str (jinja template_str vars)"

definition is_blacklisted :: "string \<Rightarrow> string set \<Rightarrow> string set \<Rightarrow> bool" where
  "is_blacklisted email blacklisted_emails blacklisted_domains =
     (let e = py_lower email; dom = (if CHR ''@'' \<in> set e then py_split (CHR ''@'') e ! 1 else [])
      in e \<in> blacklisted_emails \<or> dom \<in> blacklisted_domains)"

definition or_text :: "string \<Rightarrow> string \<Rightarrow> string" where
  "or_text s alt = (if s = [] then alt else s)"

definition missing_fields :: "export_row \<Rightarrow> string list" where
  "missing_fields l =
     (if ex_person_name l = [] then [''name''] else []) @ (if ex_designation l = [] then [''designation''] else [])"

definition draft_of :: "jinja \<Rightarrow> email_template \<Rightarrow> nat \<Rightarrow> export_row \<Rightarrow> draft_email" where
  "draft_of jinja template lead_id l =
     (let subject_vars = [(''name'', or_text (ex_person_name l) ''Official''), (''designation'', ex_designation l)];
          body_vars = [(''name'', or_text (ex_person_name l) ''[MISSING: name]''),
                       (''designation'', or_text (ex_designation l) ''[MISSING: designation]'')];
          missing = missing_fields l
      in \<lparr>de_lead_id = Some lead_id, de_recipient_email = ex_email l,
          de_subject = render_template_string jinja (tp_subject template) subject_vars,
          de_body = render_template_string jinja (tp_raw_body template) body_vars,
          de_is_selected = (missing = []),
          de_missing_fields = (if missing = [] then None else Some (py_join '','' missing))\<rparr>)"

text \<open>The drafts, the number of blacklisted leads and the number of excluded ones.\<close>

definition render_draft_emails ::
  "jinja \<Rightarrow> export_row list \<Rightarrow> email_template \<Rightarrow> string set \<Rightarrow> (string \<rightharpoonup> nat) \<Rightarrow> string set \<Rightarrow> string set \<Rightarrow>
   draft_email list \<times> nat \<times> nat" where
  "render_draft_emails jinja candidates template blacklisted_emails lead_id_by_email blacklisted_domains exclude_emails =
     (let filtered = filter (\<lambda>l. \<not> is_blacklisted (ex_email l) blacklisted_emails blacklisted_domains) candidates;
          excluded = length (filter (\<lambda>l. ex_email l \<in> exclude_emails) filtered);
          kept = filter (\<lambda>l. ex_email l \<notin> exclude_emails) filtered
      in (List.map_filter (\<lambda>l. map_option (\<lambda>i. draft_of jinja template i l) (lead_id_by_email (ex_email l))) kept,
          length candidates - length filtered, excluded))"

section \<open>Requests and guards\<close>

record server_db =
  sv_cloud :: cloud_db
  sv_outreach :: outreach_db

record dummy_details =
  dd_name :: "string option"
  dd_designation :: "string option"
  dd_email :: string
  dd_department :: "string option"

record campaign_create =
  cq_name :: string
  cq_template_id :: nat
  cq_kind :: string
  cq_lead_ids :: "nat list option"
  cq_credential_ids :: "nat list"
  cq_dummy_details :: "dummy_details list option"
  cq_test_credential_id :: "nat option"

text \<open>The model validator; None accepts the request.\<close>

definition check_kind_fields :: "campaign_create \<Rightarrow> string option" where
  "check_kind_fields req =
     (if cq_kind req \<noteq> campaign_kind_value K_PRODUCTION \<and> cq_kind req \<noteq> campaign_kind_value K_TEST
      then Some ''kind must be one of: production, test''
      else if cq_kind req = campaign_kind_value K_PRODUCTION \<and> \<not> has_items (cq_lead_ids req)
      then Some ''lead_ids is required for a production campaign''
      else if cq_kind req = campaign_kind_value K_TEST \<and> \<not> has_items (cq_dummy_details req)
      then Some ''dummy_details is required for a test campaign''
      else None)"

type_synonym 'a handler = "server_db \<Rightarrow> server_db \<times> (http_exn + 'a)"

definition with_permission :: "string \<Rightarrow> current_user \<Rightarrow> 'a handler \<Rightarrow> 'a handler" where
  "with_permission perm me f st =
     (if has_all me [perm] then f st else (st, Inl (HTTPException 403 ''Insufficient permissions'')))"

definition audited ::
  "datetime \<Rightarrow> http_request \<Rightarrow> current_user \<Rightarrow> string \<Rightarrow> string \<Rightarrow> nat \<Rightarrow> (string \<times> json) list option \<Rightarrow> server_db \<Rightarrow> server_db" where
  "audited now rq me action target_type target_id detail st =
     st\<lparr>sv_cloud := with_audit now (audit_of me action target_type target_id detail rq) (sv_cloud st)\<rparr>"

definition get_visible_campaign :: "nat \<Rightarrow> current_user \<Rightarrow> outreach_db \<Rightarrow> http_exn + campaign" where
  "get_visible_campaign campaign_id me db =
     (case get_campaign campaign_id (Some (me_id me)) (can me ''campaigns.view_all'') db of
        None \<Rightarrow> Inl (HTTPException 404 ''Campaign not found'')
      | Some c \<Rightarrow> Inr c)"

definition get_owned_campaign :: "nat \<Rightarrow> current_user \<Rightarrow> outreach_db \<Rightarrow> http_exn + campaign" where
  "get_owned_campaign campaign_id me db =
     (case get_campaign campaign_id None True db of
        None \<Rightarrow> Inl (HTTPException 404 ''Campaign not found'')
      | Some c \<Rightarrow> (case forbid_unless_owner (cp_owner_id c) me None of Some x \<Rightarrow> Inl x | None \<Rightarrow> Inr c))"

text \<open>A handler on a campaign of the caller.\<close>

definition on_owned :: "nat \<Rightarrow> current_user \<Rightarrow> (campaign \<Rightarrow> 'a handler) \<Rightarrow> 'a handler" where
  "on_owned campaign_id me f st =
     (case get_owned_campaign campaign_id me (sv_outreach st) of
        Inl x \<Rightarrow> (st, Inl x)
      | Inr c \<Rightarrow> f c st)"

definition refuse :: "nat \<Rightarrow> string \<Rightarrow> 'a handler" where
  "refuse code detail st = (st, Inl (HTTPException code detail))"

section \<open>Creation\<close>

datatype campaign_created = Test_created nat | Production_created nat nat nat

definition dummy_vars :: "dummy_details \<Rightarrow> (string \<times> string) list" where
  "dummy_vars d =
     [(''name'', or_text (the_default [] (dd_name d)) ''Official''), (''designation'', the_default [] (dd_designation d)),
      (''department'', the_default [] (dd_department d))]"

fun create_dummy_emails :: "jinja \<Rightarrow> nat \<Rightarrow> email_template \<Rightarrow> dummy_details list \<Rightarrow> outreach_db \<Rightarrow> outreach_db" where
  "create_dummy_emails jinja campaign_id template [] db = db"
| "create_dummy_emails jinja campaign_id template (d # ds) db =
     create_dummy_emails jinja campaign_id template ds
       (fst (create_campaign_email campaign_id (dd_email d)
               (render_template_string jinja (tp_subject template) (dummy_vars d))
               (render_template_string jinja (tp_raw_body template) (dummy_vars d)) None db))"

definition create_test_campaign ::
  "jinja \<Rightarrow> datetime \<Rightarrow> http_request \<Rightarrow> current_user \<Rightarrow> campaign_create \<Rightarrow> email_template \<Rightarrow> campaign_created handler" where
  "create_test_campaign jinja now rq me req template st =
     (case create_campaign now (cq_name req) (cq_template_id req) (campaign_kind_value K_TEST) (cq_test_credential_id req)
             (Some C_PAUSED) (Some (me_id me)) (sv_outreach st) of
        Inl x \<Rightarrow> (st, Inl (ServerError x))
      | Inr (db1, campaign_id) \<Rightarrow>
          (audited now rq me ''campaign.create'' ''campaign'' campaign_id (Some [(''kind'', JStr ''test'')])
             (st\<lparr>sv_outreach := create_dummy_emails jinja campaign_id template (the_default [] (cq_dummy_details req)) db1\<rparr>),
           Inr (Test_created campaign_id)))"

text \<open>With lead ids the other filters of the export query are not used.\<close>

definition export_all :: lead_filter where
  "export_all = \<lparr>lf_job_ids = [], lf_categories = [], lf_states = [], lf_search = None, lf_complete_only = False,
     lf_min_score = None, lf_org_types = [], lf_entry_type = [], lf_require_name = False,
     lf_require_designation = False, lf_require_phone = False\<rparr>"

definition leads_to_stage :: "nat list \<Rightarrow> server_db \<Rightarrow> export_row list" where
  "leads_to_stage lead_ids st = get_all_leads_for_export export_all lead_ids (cd_crawl (sv_cloud st))"

definition lead_id_by_email :: "nat list \<Rightarrow> server_db \<Rightarrow> string \<rightharpoonup> nat" where
  "lead_id_by_email lead_ids st =
     map_of (rev (map (\<lambda>l. (ld_email l, ld_id l))
       (select_where (\<lambda>l. ld_id l \<in> set lead_ids) (leads (cd_crawl (sv_cloud st))))))"

definition render_leads ::
  "jinja \<Rightarrow> nat list \<Rightarrow> email_template \<Rightarrow> string set \<Rightarrow> server_db \<Rightarrow> draft_email list \<times> nat \<times> nat" where
  "render_leads jinja lead_ids template exclude_emails st =
     render_draft_emails jinja (leads_to_stage lead_ids st) template (get_blacklisted_emails_set (sv_outreach st))
       (lead_id_by_email lead_ids st) (get_blacklisted_domains_set (sv_outreach st)) exclude_emails"

text \<open>
  The campaign, its drafts and the assignment of credentials are committed one by one: an unknown
  credential raises after the drafts are staged.
\<close>

definition create_production_campaign ::
  "jinja \<Rightarrow> datetime \<Rightarrow> http_request \<Rightarrow> current_user \<Rightarrow> campaign_create \<Rightarrow> email_template \<Rightarrow> campaign_created handler" where
  "create_production_campaign jinja now rq me req template st =
     (let lead_ids = the_default [] (cq_lead_ids req);
          rows = leads_to_stage lead_ids st;
          bl_emails = get_blacklisted_emails_set (sv_outreach st);
          bl_domains = get_blacklisted_domains_set (sv_outreach st)
      in if rows = [] then refuse 404 ''No matching leads found'' st
         else if list_all (\<lambda>l. is_blacklisted (ex_email l) bl_emails bl_domains) rows
         then refuse 422 (''All '' @ py_str_nat (length rows) @ '' leads are blacklisted. No emails to stage.'') st
         else
           (case create_campaign now (cq_name req) (cq_template_id req) (campaign_kind_value K_PRODUCTION) None
                   (Some C_PAUSED) (Some (me_id me)) (sv_outreach st) of
              Inl x \<Rightarrow> (st, Inl (ServerError x))
            | Inr (db1, campaign_id) \<Rightarrow>
                (let (drafts, blacklisted_count, _) = render_leads jinja lead_ids template {} st;
                     (db2, staged_count) = bulk_create_campaign_emails campaign_id drafts db1
                 in case (if cq_credential_ids req = [] then Inr db2
                          else set_campaign_credentials campaign_id (cq_credential_ids req) db2) of
                      Inl x \<Rightarrow> (st\<lparr>sv_outreach := db2\<rparr>, Inl (ServerError x))
                    | Inr db3 \<Rightarrow>
                        (audited now rq me ''campaign.create'' ''campaign'' campaign_id
                           (Some [(''kind'', JStr ''production''), (''staged_count'', JInt (int staged_count))])
                           (st\<lparr>sv_outreach := db3\<rparr>),
                         Inr (Production_created campaign_id staged_count blacklisted_count)))))"

definition api_create_campaign ::
  "jinja \<Rightarrow> datetime \<Rightarrow> http_request \<Rightarrow> current_user \<Rightarrow> campaign_create \<Rightarrow> campaign_created handler" where
  "api_create_campaign jinja now rq me req =
     with_permission ''campaigns.manage'' me (\<lambda>st.
       case check_kind_fields req of
         Some e \<Rightarrow> refuse 422 e st
       | None \<Rightarrow>
           (case get_template (cq_template_id req) (sv_outreach st) of
              None \<Rightarrow> refuse 404 ''Template not found'' st
            | Some template \<Rightarrow>
                if cq_kind req = campaign_kind_value K_TEST then create_test_campaign jinja now rq me req template st
                else create_production_campaign jinja now rq me req template st))"

section \<open>Dispatch\<close>

datatype dispatch_answer = Dispatch_queued | Dispatch_started

definition no_pool_detail :: "send_credential list \<Rightarrow> string" where
  "no_pool_detail raw_creds =
     (if raw_creds = []
      then ''No active SMTP credentials available for this campaign. Add or activate one in Settings.''
      else ''All SMTP credentials assigned to this campaign have hit their daily send limit, '' @
           ''are cooling down, or are disabled. Try again later, or adjust the limit in Settings.'')"

text \<open>\<open>Dispatch_started\<close> is the embedded mode: the answer to it starts a dispatch task.\<close>

definition dispatch_campaign ::
  "key_ring \<Rightarrow> string option \<Rightarrow> datetime \<Rightarrow> http_request \<Rightarrow> current_user \<Rightarrow> nat \<Rightarrow> dispatch_answer handler" where
  "dispatch_campaign kr dispatch_mode now rq me campaign_id =
     with_permission ''campaigns.dispatch'' me (on_owned campaign_id me (\<lambda>campaign st.
       let db = sv_outreach st; stats = get_campaign_stats campaign_id db in
       if st_draft stats = 0 \<and> st_queued stats = 0
       then refuse 400 ''No selected draft or queued emails to dispatch. Select at least one email first.'' st
       else if cp_status campaign = C_RUNNING then refuse 409 ''Campaign is already running'' st
       else
         (let assigned_ids = get_campaign_credential_ids campaign_id db in
          case (if assigned_ids \<noteq> [] then get_credentials_by_ids kr now assigned_ids db else get_active_credentials kr now db) of
            Inl x \<Rightarrow> (st, Inl (ServerError x))
          | Inr raw_creds \<Rightarrow>
              (case resolve_credential_pool kr now assigned_ids db of
                 Inl x \<Rightarrow> (st, Inl (ServerError x))
               | Inr usable_creds \<Rightarrow>
                   if usable_creds = [] then refuse 400 (no_pool_detail raw_creds) st
                   else
                     (audited now rq me ''campaign.dispatch'' ''campaign'' campaign_id None
                        (st\<lparr>sv_outreach := fst (update_campaign_status campaign_id C_RUNNING None db)\<rparr>),
                      Inr (if the_default ''embedded'' dispatch_mode = ''external'' then Dispatch_queued else Dispatch_started))))))"

section \<open>Reads\<close>

record 'a page =
  pg_items :: "'a list"
  pg_total :: nat
  pg_page :: nat
  pg_pages :: nat

definition page_of :: "'a list \<Rightarrow> nat \<Rightarrow> nat \<Rightarrow> nat \<Rightarrow> 'a page" where
  "page_of items n pg limit =
     \<lparr>pg_items = items, pg_total = n, pg_page = pg, pg_pages = max 1 ((n + limit - 1) div limit)\<rparr>"

definition api_list_campaigns ::
  "nat \<Rightarrow> nat \<Rightarrow> bool \<Rightarrow> current_user \<Rightarrow> outreach_db \<Rightarrow> (campaign \<times> email_stats) page" where
  "api_list_campaigns pg limit include_test me db =
     (let kind_filter = (if include_test then None else Some (campaign_kind_value K_PRODUCTION));
          (cs, n) = list_campaigns pg limit kind_filter (Some (me_id me)) (can me ''campaigns.view_all'') db
      in page_of (map (\<lambda>c. (c, get_campaign_stats (cp_id c) db)) cs) n pg limit)"

definition api_get_campaign ::
  "nat \<Rightarrow> current_user \<Rightarrow> outreach_db \<Rightarrow> http_exn + campaign \<times> email_stats \<times> nat list" where
  "api_get_campaign campaign_id me db =
     (case get_visible_campaign campaign_id me db of
        Inl x \<Rightarrow> Inl x
      | Inr c \<Rightarrow> Inr (c, get_campaign_stats campaign_id db, get_campaign_credential_ids campaign_id db))"

definition api_get_campaign_stats ::
  "nat \<Rightarrow> current_user \<Rightarrow> outreach_db \<Rightarrow> http_exn + email_stats \<times> campaign_status \<times> string option" where
  "api_get_campaign_stats campaign_id me db =
     (case get_visible_campaign campaign_id me db of
        Inl x \<Rightarrow> Inl x
      | Inr c \<Rightarrow> Inr (get_campaign_stats campaign_id db, cp_status c, cp_pause_reason c))"

definition api_get_campaign_emails ::
  "nat \<Rightarrow> string option \<Rightarrow> nat \<Rightarrow> nat \<Rightarrow> current_user \<Rightarrow> outreach_db \<Rightarrow> http_exn + campaign_email page" where
  "api_get_campaign_emails campaign_id status pg limit me db =
     (case get_visible_campaign campaign_id me db of
        Inl x \<Rightarrow> Inl x
      | Inr c \<Rightarrow>
          (case get_campaign_emails campaign_id status pg limit db of
             Inl x \<Rightarrow> Inl (ServerError x)
           | Inr (es, n) \<Rightarrow> Inr (page_of es n pg limit)))"

section \<open>Changes to a campaign\<close>

definition update_campaign_credentials ::
  "datetime \<Rightarrow> http_request \<Rightarrow> current_user \<Rightarrow> nat \<Rightarrow> nat list \<Rightarrow> unit handler" where
  "update_campaign_credentials now rq me campaign_id credential_ids =
     with_permission ''campaigns.manage'' me (on_owned campaign_id me (\<lambda>campaign st.
       if cp_status campaign \<in> {C_CANCELLED, C_COMPLETED}
       then refuse 400 ''Cannot change SMTP credentials on a cancelled or completed campaign'' st
       else
         (case set_campaign_credentials campaign_id credential_ids (sv_outreach st) of
            Inl x \<Rightarrow> (st, Inl (ServerError x))
          | Inr db1 \<Rightarrow>
              (audited now rq me ''campaign.set_credentials'' ''campaign'' campaign_id
                 (Some [(''credential_ids'', JList (map (\<lambda>k. JInt (int k)) credential_ids))]) (st\<lparr>sv_outreach := db1\<rparr>),
               Inr ()))))"

definition invalid_status_detail :: "string \<Rightarrow> string" where
  "invalid_status_detail s =
     ''Invalid status '' @ [CHR 0x27] @ s @ [CHR 0x27] @ ''. Must be one of: '' @
     ''['' @ py_join '', '' (map (\<lambda>v. [CHR 0x27] @ campaign_status_value v @ [CHR 0x27]) [C_RUNNING, C_PAUSED, C_CANCELLED, C_COMPLETED]) @ '']''"

definition api_update_campaign_status ::
  "datetime \<Rightarrow> http_request \<Rightarrow> current_user \<Rightarrow> nat \<Rightarrow> string \<Rightarrow> campaign_status handler" where
  "api_update_campaign_status now rq me campaign_id status =
     with_permission ''campaigns.dispatch'' me (on_owned campaign_id me (\<lambda>campaign st.
       case campaign_status_of status of
         None \<Rightarrow> refuse 400 (invalid_status_detail status) st
       | Some new_status \<Rightarrow>
           (audited now rq me ''campaign.set_status'' ''campaign'' campaign_id
              (Some [(''status'', JStr (campaign_status_value new_status))])
              (st\<lparr>sv_outreach := fst (update_campaign_status campaign_id new_status None (sv_outreach st))\<rparr>),
            Inr new_status)))"

text \<open>The email endpoints look the email up by its own key; the campaign of the path is not compared.\<close>

definition email_audit :: "datetime \<Rightarrow> http_request \<Rightarrow> current_user \<Rightarrow> string \<Rightarrow> nat \<Rightarrow> nat \<Rightarrow> server_db \<Rightarrow> server_db" where
  "email_audit now rq me action campaign_id email_id =
     audited now rq me action ''campaign_email'' email_id (Some [(''campaign_id'', JInt (int campaign_id))])"

definition update_campaign_email ::
  "datetime \<Rightarrow> http_request \<Rightarrow> current_user \<Rightarrow> nat \<Rightarrow> nat \<Rightarrow> string \<Rightarrow> string \<Rightarrow> unit handler" where
  "update_campaign_email now rq me campaign_id email_id subject body =
     with_permission ''campaigns.manage'' me (on_owned campaign_id me (\<lambda>campaign st.
       if cp_status campaign = C_CANCELLED then refuse 400 ''Cannot edit emails in a cancelled campaign'' st
       else if py_strip body = [] \<or> py_strip subject = [] then refuse 400 ''Subject and Body cannot be empty'' st
       else
         (case update_email email_id subject body (sv_outreach st) of
            (db1, False) \<Rightarrow> (st\<lparr>sv_outreach := db1\<rparr>, Inl (HTTPException 404 ''Email not found or not in DRAFT status''))
          | (db1, True) \<Rightarrow>
              (email_audit now rq me ''campaign.email_update'' campaign_id email_id (st\<lparr>sv_outreach := db1\<rparr>), Inr ()))))"

definition toggle_email_selection ::
  "(outreach_db \<Rightarrow> outreach_db) \<Rightarrow> current_user \<Rightarrow> nat \<Rightarrow> nat \<Rightarrow> bool \<Rightarrow> unit handler" where
  "toggle_email_selection race me campaign_id email_id is_selected =
     with_permission ''campaigns.manage'' me (on_owned campaign_id me (\<lambda>campaign st.
       if cp_status campaign = C_CANCELLED then refuse 400 ''Cannot modify emails in a cancelled campaign'' st
       else
         (case set_email_selection race email_id is_selected (sv_outreach st) of
            (db1, False) \<Rightarrow> (st\<lparr>sv_outreach := db1\<rparr>, Inl (HTTPException 404 ''Email not found or not in an editable status''))
          | (db1, True) \<Rightarrow> (st\<lparr>sv_outreach := db1\<rparr>, Inr ()))))"

definition bulk_toggle_email_selection :: "current_user \<Rightarrow> nat \<Rightarrow> bool \<Rightarrow> nat handler" where
  "bulk_toggle_email_selection me campaign_id is_selected =
     with_permission ''campaigns.manage'' me (on_owned campaign_id me (\<lambda>campaign st.
       if cp_status campaign = C_CANCELLED then refuse 400 ''Cannot modify emails in a cancelled campaign'' st
       else
         (case set_all_email_selection campaign_id is_selected (sv_outreach st) of
            (db1, updated) \<Rightarrow> (st\<lparr>sv_outreach := db1\<rparr>, Inr updated))))"

definition api_delete_campaign_email :: "datetime \<Rightarrow> http_request \<Rightarrow> current_user \<Rightarrow> nat \<Rightarrow> nat \<Rightarrow> unit handler" where
  "api_delete_campaign_email now rq me campaign_id email_id =
     with_permission ''campaigns.manage'' me (on_owned campaign_id me (\<lambda>campaign st.
       if cp_status campaign = C_CANCELLED then refuse 400 ''Cannot modify emails in a cancelled campaign'' st
       else
         (case delete_campaign_email email_id (sv_outreach st) of
            (db1, False) \<Rightarrow> (st\<lparr>sv_outreach := db1\<rparr>, Inl (HTTPException 404 ''Email not found or not in DRAFT status''))
          | (db1, True) \<Rightarrow>
              (email_audit now rq me ''campaign.email_delete'' campaign_id email_id (st\<lparr>sv_outreach := db1\<rparr>), Inr ()))))"

text \<open>The answer: added, blacklisted and already in the campaign.\<close>

definition add_emails_to_campaign ::
  "jinja \<Rightarrow> datetime \<Rightarrow> http_request \<Rightarrow> current_user \<Rightarrow> nat \<Rightarrow> nat list \<Rightarrow> (nat \<times> nat \<times> nat) handler" where
  "add_emails_to_campaign jinja now rq me campaign_id lead_ids =
     with_permission ''campaigns.manage'' me (on_owned campaign_id me (\<lambda>campaign st.
       if cp_kind campaign = campaign_kind_value K_TEST then refuse 400 ''Cannot add leads to a test campaign'' st
       else if cp_status campaign = C_CANCELLED then refuse 400 ''Cannot add emails to a cancelled campaign'' st
       else if lead_ids = [] then refuse 400 ''lead_ids is empty'' st
       else
         (case Option.bind (cp_template_id campaign) (\<lambda>t. get_template t (sv_outreach st)) of
            None \<Rightarrow> refuse 404 ''Campaign template not found'' st
          | Some template \<Rightarrow>
              if leads_to_stage lead_ids st = [] then refuse 404 ''No matching leads found'' st
              else
                (let (drafts, blacklisted_count, already_count) = render_leads jinja lead_ids template
                        (get_campaign_recipient_emails campaign_id (sv_outreach st)) st;
                     (db1, staged_count) = bulk_create_campaign_emails campaign_id drafts (sv_outreach st)
                 in (audited now rq me ''campaign.add_emails'' ''campaign'' campaign_id
                       (Some [(''added'', JInt (int staged_count))]) (st\<lparr>sv_outreach := db1\<rparr>),
                     Inr (staged_count, blacklisted_count, already_count))))))"


end
