(* ===== verification/CampaignProps.thy ===== *)
theory CampaignProps
  imports CampaignApi LeadPool Credentials
begin

text \<open>
  Properties of the campaign endpoints: who is staged and how often, what ownership protects and
  what it does not, and when a dispatch is accepted.
\<close>

section \<open>Drafts\<close>

lemma ex_email_export [simp]: "ex_email (export_row_dict db l) = ld_email l"
  by (simp add: export_row_dict_def Let_def)

lemma set_leads_to_stage:
  "lead_ids \<noteq> [] \<Longrightarrow> set (leads_to_stage lead_ids st) =
     export_row_dict (cd_crawl (sv_cloud st)) ` {l \<in> set (rows (leads (cd_crawl (sv_cloud st)))). ld_id l \<in> set lead_ids}"
  by (auto simp: leads_to_stage_def get_all_leads_for_export_def build_export_query_def select_where_def)

lemma distinct_leads_to_stage:
  assumes "distinct (map ld_email (rows (leads (cd_crawl (sv_cloud st)))))" "lead_ids \<noteq> []"
  shows "distinct (map ex_email (leads_to_stage lead_ids st))"
proof -
  let ?db = "cd_crawl (sv_cloud st)"
  let ?sel = "select_where (\<lambda>l. ld_id l \<in> set lead_ids) (leads ?db)"
  have "distinct (map ld_email ?sel)"
    using assms(1) by (simp add: select_where_def distinct_map inj_on_def)
  moreover have "mset (map ex_email (leads_to_stage lead_ids st)) = mset (map ld_email ?sel)"
    using assms(2) by (simp add: leads_to_stage_def get_all_leads_for_export_def build_export_query_def comp_def)
  ultimately show ?thesis by (metis mset_eq_imp_distinct_iff)
qed

lemma lead_id_of_staged:
  assumes "distinct (map ld_email (rows (leads (cd_crawl (sv_cloud st)))))"
    and "l \<in> set (rows (leads (cd_crawl (sv_cloud st))))" "ld_id l \<in> set lead_ids"
  shows "lead_id_by_email lead_ids st (ld_email l) = Some (ld_id l)"
proof -
  let ?kvs = "map (\<lambda>l. (ld_email l, ld_id l)) (select_where (\<lambda>l. ld_id l \<in> set lead_ids) (leads (cd_crawl (sv_cloud st))))"
  have "distinct (map fst (rev ?kvs))"
    using assms(1) by (simp add: rev_map [symmetric] select_where_def comp_def distinct_map inj_on_def)
  moreover have "(ld_email l, ld_id l) \<in> set (rev ?kvs)" using assms(2,3) by (auto simp: select_where_def)
  ultimately show ?thesis by (simp add: lead_id_by_email_def)
qed

text \<open>The recipients of the drafts: every staged lead that is neither blacklisted nor excluded.\<close>

lemma map_filter_total:
  "(\<And>x. x \<in> set xs \<Longrightarrow> f x \<noteq> None) \<Longrightarrow> List.map_filter f xs = map (the \<circ> f) xs"
proof (induction xs)
  case (Cons a xs)
  moreover obtain y where "f a = Some y" using Cons.prems [of a] by auto
  ultimately show ?case by (simp add: List.map_filter_simps)
qed (simp add: List.map_filter_simps)

definition stageable :: "string set \<Rightarrow> server_db \<Rightarrow> export_row \<Rightarrow> bool" where
  "stageable excl st l =
     (\<not> is_blacklisted (ex_email l) (get_blacklisted_emails_set (sv_outreach st)) (get_blacklisted_domains_set (sv_outreach st)) \<and>
      ex_email l \<notin> excl)"

lemma render_leads_eq:
  assumes "distinct (map ld_email (rows (leads (cd_crawl (sv_cloud st)))))" "lead_ids \<noteq> []"
  shows "fst (render_leads jinja lead_ids template excl st) =
    map (\<lambda>l. draft_of jinja template (the (lead_id_by_email lead_ids st (ex_email l))) l) (filter (stageable excl st) (leads_to_stage lead_ids st))"
proof -
  have "lead_id_by_email lead_ids st (ex_email l) \<noteq> None" if l: "l \<in> set (leads_to_stage lead_ids st)" for l
    using l lead_id_of_staged [OF assms(1)] unfolding set_leads_to_stage [OF assms(2)] by auto
  then show ?thesis
    unfolding render_leads_def render_draft_emails_def Let_def fst_conv filter_filter stageable_def
    by (subst map_filter_total) (fastforce simp: conj_commute)+
qed

lemma recipients_of_drafts:
  assumes "distinct (map ld_email (rows (leads (cd_crawl (sv_cloud st)))))" "lead_ids \<noteq> []"
  shows "map de_recipient_email (fst (render_leads jinja lead_ids template excl st)) =
      map ex_email (filter (stageable excl st) (leads_to_stage lead_ids st))"
    "distinct (map de_recipient_email (fst (render_leads jinja lead_ids template excl st)))"
proof -
  show "map de_recipient_email (fst (render_leads jinja lead_ids template excl st)) =
      map ex_email (filter (stageable excl st) (leads_to_stage lead_ids st))"
    unfolding render_leads_eq [OF assms] by (simp add: draft_of_def Let_def)
  then show "distinct (map de_recipient_email (fst (render_leads jinja lead_ids template excl st)))"
    using distinct_leads_to_stage [OF assms] by (simp add: distinct_map inj_on_def)
qed

section \<open>One email per recipient\<close>

definition recipients :: "nat \<Rightarrow> outreach_db \<Rightarrow> string list" where
  "recipients campaign_id db = map em_recipient_email (select_where (\<lambda>e. em_campaign_id e = campaign_id) (emails db))"

lemma select_add_emails:
  "select_where (\<lambda>e. em_campaign_id e = c) (add_emails campaign_id ds t) =
     select_where (\<lambda>e. em_campaign_id e = c) t @
     (if c = campaign_id then map (\<lambda>(i, d). mk_email (campaign_id, d) i) (enumerate (next_id t) ds) else [])"
  by (induction ds arbitrary: t) (auto simp: select_where_def table_simps mk_email_def)

lemma recipients_bulk_create:
  "recipients c (fst (bulk_create_campaign_emails campaign_id ds db)) =
     recipients c db @ (if c = campaign_id then map de_recipient_email ds else [])"
proof -
  have "map (em_recipient_email \<circ> (\<lambda>(i, d). mk_email (campaign_id, d) i)) (enumerate n ds) = map de_recipient_email ds" for n
    by (induction ds arbitrary: n) (simp_all add: mk_email_def)
  then show ?thesis by (simp add: recipients_def bulk_create_campaign_emails_def select_add_emails)
qed

lemma recipients_update_where:
  assumes "\<And>e. em_campaign_id (f e) = em_campaign_id e" "\<And>e. em_recipient_email (f e) = em_recipient_email e"
  shows "map em_recipient_email (select_where (\<lambda>e. em_campaign_id e = c) (update_where p f t)) =
    map em_recipient_email (select_where (\<lambda>e. em_campaign_id e = c) t)"
proof -
  have "map em_recipient_email (filter (\<lambda>e. em_campaign_id e = c) (map (\<lambda>r. if p r then f r else r) es)) =
    map em_recipient_email (filter (\<lambda>e. em_campaign_id e = c) es)" for es
    by (induction es) (auto simp: assms)
  then show ?thesis by (simp add: select_where_def table_simps)
qed

lemma recipients_update_email [simp]: "recipients c (fst (update_email i s b db)) = recipients c db"
  by (simp add: update_email_def recipients_def recipients_update_where Let_def)

lemma recipients_set_email_selection [simp]: "recipients c (fst (set_email_selection id i b db)) = recipients c db"
  by (auto simp: set_email_selection_defs recipients_def recipients_update_where Let_def split: option.splits)

lemma recipients_set_all_email_selection [simp]: "recipients c (fst (set_all_email_selection i b db)) = recipients c db"
  by (auto simp: set_all_email_selection_def recipients_def recipients_update_where Let_def)

lemma distinct_recipients_delete:
  "distinct (recipients c db) \<Longrightarrow> distinct (recipients c (fst (delete_campaign_email i db)))"
proof -
  have "select_where (\<lambda>e. em_campaign_id e = c) (delete_where p t) = filter (\<lambda>e. \<not> p e) (select_where (\<lambda>e. em_campaign_id e = c) t)"
    for p :: "campaign_email \<Rightarrow> bool" and t
    by (simp add: select_where_def table_simps conj_commute)
  then show "distinct (recipients c db) \<Longrightarrow> distinct (recipients c (fst (delete_campaign_email i db)))"
    by (simp add: delete_campaign_email_def recipients_def Let_def distinct_map_filter)
qed

text \<open>The tables as the campaign endpoints need and keep them.\<close>

definition production :: "campaign \<Rightarrow> bool" where
  "production c = (cp_kind c = campaign_kind_value K_PRODUCTION)"

definition campaigns_ok :: "outreach_db \<Rightarrow> bool" where
  "campaigns_ok db =
     (campaign_keys.keys_ok (campaigns db) \<and> list_all (\<lambda>e. em_campaign_id e < next_id (campaigns db)) (rows (emails db)) \<and>
      list_all (\<lambda>c. production c \<longrightarrow> distinct (recipients (cp_id c) db)) (rows (campaigns db)))"

definition leads_distinct :: "crawl_db \<Rightarrow> bool" where
  "leads_distinct db = distinct (map ld_email (rows (leads db)))"

lemma map_pair_zip: "map (\<lambda>x. (f x, g x)) xs = zip (map f xs) (map g xs)"
  by (induction xs) simp_all

lemma campaigns_ok_frame:
  assumes "campaigns_ok db" "\<And>c. recipients c db' = recipients c db" "next_id (campaigns db') = next_id (campaigns db)"
    and "map cp_id (rows (campaigns db')) = map cp_id (rows (campaigns db))"
    and "map cp_kind (rows (campaigns db')) = map cp_kind (rows (campaigns db))"
    and "em_campaign_id ` set (rows (emails db')) \<subseteq> em_campaign_id ` set (rows (emails db))"
  shows "campaigns_ok db'"
proof -
  have rows_eq: "map (\<lambda>c. (cp_id c, cp_kind c)) (rows (campaigns db')) = map (\<lambda>c. (cp_id c, cp_kind c)) (rows (campaigns db))"
    by (simp only: map_pair_zip assms(4,5))
  have keys: "campaign_keys.keys_ok t \<longleftrightarrow> distinct (map cp_id (rows t)) \<and> (\<forall>k \<in> set (map cp_id (rows t)). k < next_id t)" for t
    by (simp add: campaign_keys.keys_ok_def)
  have "campaign_keys.keys_ok (campaigns db')"
    using assms(1) unfolding campaigns_ok_def keys assms(3,4) by blast
  moreover have "list_all (\<lambda>e. em_campaign_id e < next_id (campaigns db')) (rows (emails db'))"
    using assms(1,3,6) by (fastforce simp: campaigns_ok_def list_all_iff)
  moreover have "list_all (\<lambda>c. production c \<longrightarrow> distinct (recipients (cp_id c) db')) (rows (campaigns db'))"
  proof -
    have "list_all (\<lambda>(i, k). k = campaign_kind_value K_PRODUCTION \<longrightarrow> distinct (recipients i db)) (map (\<lambda>c. (cp_id c, cp_kind c)) (rows (campaigns db)))"
      using assms(1) by (simp add: campaigns_ok_def production_def list_all_iff)
    then show ?thesis unfolding rows_eq [symmetric] using assms(2) by (simp add: production_def list_all_iff)
  qed
  ultimately show ?thesis by (simp add: campaigns_ok_def)
qed


lemma recipients_frame: "emails db' = emails db \<Longrightarrow> recipients c db' = recipients c db"
  by (simp add: recipients_def)

lemma campaigns_ok_same_campaigns:
  assumes "campaigns_ok db" "campaigns db' = campaigns db" "\<And>c. distinct (recipients c db) \<Longrightarrow> distinct (recipients c db')"
    and "em_campaign_id ` set (rows (emails db')) \<subseteq> em_campaign_id ` set (rows (emails db))"
  shows "campaigns_ok db'"
  using assms by (fastforce simp: campaigns_ok_def list_all_iff)

lemma email_campaigns_update_where:
  assumes "\<And>e. em_campaign_id (f e) = em_campaign_id e"
  shows "em_campaign_id ` set (rows (update_where p f t)) = em_campaign_id ` set (rows t)"
proof -
  have "em_campaign_id (if p r then f r else r) = em_campaign_id r" for r using assms by simp
  then show ?thesis by (simp only: set_update_where image_image)
qed

lemma campaigns_ok_email_ops:
  assumes "campaigns_ok db"
  shows "campaigns_ok (fst (update_email i s b db))" "campaigns_ok (fst (set_email_selection id i sel db))"
    "campaigns_ok (fst (set_all_email_selection c sel db))" "campaigns_ok (fst (delete_campaign_email i db))"
proof -
  show "campaigns_ok (fst (update_email i s b db))"
    by (rule campaigns_ok_same_campaigns [OF assms])
      (simp_all, simp_all add: update_email_def email_campaigns_update_where Let_def)
  show "campaigns_ok (fst (set_email_selection id i sel db))"
    by (rule campaigns_ok_same_campaigns [OF assms])
      (simp_all, simp_all add: set_email_selection_defs email_campaigns_update_where Let_def split: option.splits)
  show "campaigns_ok (fst (set_all_email_selection c sel db))"
    by (rule campaigns_ok_same_campaigns [OF assms])
      (simp_all, simp_all add: set_all_email_selection_def email_campaigns_update_where Let_def)
  show "campaigns_ok (fst (delete_campaign_email i db))"
    by (rule campaigns_ok_same_campaigns [OF assms], simp add: delete_campaign_email_def Let_def)
      (rule distinct_recipients_delete, assumption, auto simp: delete_campaign_email_def table_simps Let_def)
qed

lemma campaigns_ok_status: "campaigns_ok db \<Longrightarrow> campaigns_ok (fst (update_campaign_status i s r db))"
  by (erule campaigns_ok_frame)
    (auto simp: update_campaign_status_def recipients_def table_simps Let_def cong: map_cong)

lemma campaigns_ok_credentials:
  assumes "set_campaign_credentials i ks db = Inr db'" "campaigns_ok db"
  shows "campaigns_ok db'"
  using assms(1)
  by (intro campaigns_ok_frame [OF assms(2)])
    (auto simp: set_campaign_credentials_def recipients_def table_simps Let_def split: option.splits list.splits if_splits)

lemma create_campaign_InrD:
  assumes "create_campaign now name t kind tc s own db = Inr (db', i)"
  shows "i = next_id (campaigns db)"
    "db' = db\<lparr>campaigns := fst (insert_row (mk_campaign (\<lparr>nc_name = name, nc_template_id = t, nc_kind = kind,
       nc_test_credential_id = tc, nc_status = the_default C_RUNNING s, nc_owner_id = own\<rparr>, now)) (campaigns db))\<rparr>"
  using assms by (auto simp: create_campaign_def Let_def insert_row_def split: if_splits option.splits)

lemma recipients_unused: "campaigns_ok db \<Longrightarrow> next_id (campaigns db) \<le> c \<Longrightarrow> recipients c db = []"
  by (auto simp: campaigns_ok_def recipients_def select_where_def list_all_iff filter_empty_conv)

text \<open>Emails added to one campaign.\<close>

lemma campaigns_ok_added:
  assumes "campaigns_ok db" "campaigns db' = campaigns db" "i < next_id (campaigns db)"
    and "\<And>c. recipients c db' = recipients c db @ (if c = i then new else [])"
    and "em_campaign_id ` set (rows (emails db')) \<subseteq> insert i (em_campaign_id ` set (rows (emails db)))"
    and "\<And>c. c \<in> set (rows (campaigns db)) \<Longrightarrow> cp_id c = i \<Longrightarrow> production c \<Longrightarrow> distinct (recipients i db @ new)"
  shows "campaigns_ok db'"
proof -
  have "em_campaign_id e < next_id (campaigns db)" if "e \<in> set (rows (emails db'))" for e
  proof -
    have "em_campaign_id e = i \<or> (\<exists>e0 \<in> set (rows (emails db)). em_campaign_id e = em_campaign_id e0)"
      using assms(5) that by blast
    then show ?thesis using assms(1,3) by (auto simp: campaigns_ok_def list_all_iff)
  qed
  moreover have "distinct (recipients (cp_id c) db')" if "c \<in> set (rows (campaigns db))" "production c" for c
    using assms(1,6) that by (auto simp: campaigns_ok_def list_all_iff assms(4))
  ultimately show ?thesis using assms(1,2) by (simp add: campaigns_ok_def list_all_iff)
qed

lemma campaigns_ok_create:
  assumes "create_campaign now name t kind tc s own db = Inr (db', i)" "campaigns_ok db"
  shows "campaigns_ok db'" "recipients i db' = []" "i < next_id (campaigns db')"
    "c \<in> set (rows (campaigns db')) \<Longrightarrow> cp_id c = i \<Longrightarrow> cp_kind c = kind \<and> cp_owner_id c = own"
proof -
  note db' = create_campaign_InrD [OF assms(1)]
  have same: "recipients c db' = recipients c db" for c by (rule recipients_frame) (simp add: db'(2))
  show none: "recipients i db' = []" unfolding same using recipients_unused [OF assms(2)] by (simp add: db'(1))
  have keys: "campaign_keys.keys_ok (campaigns db')"
    using assms(2) by (simp add: db'(2) campaigns_ok_def campaign_keys.keys_ok_insert)
  moreover have "list_all (\<lambda>e. em_campaign_id e < next_id (campaigns db')) (rows (emails db'))"
    using assms(2) by (fastforce simp: db'(2) campaigns_ok_def table_simps list_all_iff)
  moreover have "list_all (\<lambda>c. production c \<longrightarrow> distinct (recipients (cp_id c) db')) (rows (campaigns db'))"
    using assms(2) none unfolding same by (auto simp: db' campaigns_ok_def table_simps list_all_iff mk_campaign_def)
  ultimately show "campaigns_ok db'" by (simp add: campaigns_ok_def)
  show "i < next_id (campaigns db')" by (simp add: db' table_simps)
  show "c \<in> set (rows (campaigns db')) \<Longrightarrow> cp_id c = i \<Longrightarrow> cp_kind c = kind \<and> cp_owner_id c = own"
    using assms(2) by (auto simp: db' table_simps mk_campaign_def campaigns_ok_def campaign_keys.keys_ok_def)
qed

lemma recipients_dummies:
  "recipients c (create_dummy_emails jinja i tp ds db) = recipients c db @ (if c = i then map dd_email ds else [])"
proof (induction ds arbitrary: db)
  case (Cons d ds)
  have "recipients c (fst (create_campaign_email i r s b l db)) = recipients c db @ (if c = i then [r] else [])" for r s b l
    by (simp add: recipients_def create_campaign_email_def Let_def insert_row_def select_where_def mk_email_def)
  then show ?case by (simp add: Cons.IH)
qed simp

lemma dummies_frame:
  "campaigns (create_dummy_emails jinja i tp ds db) = campaigns db"
  "em_campaign_id ` set (rows (emails (create_dummy_emails jinja i tp ds db))) \<subseteq> insert i (em_campaign_id ` set (rows (emails db)))"
proof -
  have step: "campaigns (fst (create_campaign_email i r s b l db)) = campaigns db"
    "em_campaign_id ` set (rows (emails (fst (create_campaign_email i r s b l db)))) = insert i (em_campaign_id ` set (rows (emails db)))" for r s b l db
    by (simp_all add: create_campaign_email_def Let_def insert_row_def mk_email_def)
  show "campaigns (create_dummy_emails jinja i tp ds db) = campaigns db"
    by (induction ds arbitrary: db) (simp_all add: step)
  show "em_campaign_id ` set (rows (emails (create_dummy_emails jinja i tp ds db))) \<subseteq> insert i (em_campaign_id ` set (rows (emails db)))"
  proof (induction ds arbitrary: db)
    case (Cons d ds)
    show ?case unfolding create_dummy_emails.simps
      by (rule order_trans [OF Cons.IH]) (simp add: step)
  qed auto
qed

lemma bulk_create_frame:
  "campaigns (fst (bulk_create_campaign_emails i ds db)) = campaigns db"
  "em_campaign_id ` set (rows (emails (fst (bulk_create_campaign_emails i ds db)))) \<subseteq> insert i (em_campaign_id ` set (rows (emails db)))"
proof -
  have "em_campaign_id ` set (rows (add_emails i ds t)) \<subseteq> insert i (em_campaign_id ` set (rows t))" for t
  proof (induction ds arbitrary: t)
    case (Cons d ds)
    show ?case unfolding add_emails.simps
      by (rule order_trans [OF Cons.IH]) (simp add: table_simps mk_email_def)
  qed auto
  then show "campaigns (fst (bulk_create_campaign_emails i ds db)) = campaigns db"
    "em_campaign_id ` set (rows (emails (fst (bulk_create_campaign_emails i ds db)))) \<subseteq> insert i (em_campaign_id ` set (rows (emails db)))"
    by (simp_all add: bulk_create_campaign_emails_def)
qed

text \<open>The requests to the campaign endpoints, and a change of the crawl tables by other components.\<close>

datatype campaign_op =
  CO_create datetime http_request current_user campaign_create
| CO_dispatch datetime http_request current_user nat
| CO_credentials datetime http_request current_user nat "nat list"
| CO_status datetime http_request current_user nat string
| CO_edit datetime http_request current_user nat nat string string
| CO_select current_user nat nat bool
| CO_select_all current_user nat bool
| CO_delete datetime http_request current_user nat nat
| CO_add datetime http_request current_user nat "nat list"
| CO_crawl crawl_db

fun campaign_act :: "jinja \<Rightarrow> key_ring \<Rightarrow> string option \<Rightarrow> campaign_op \<Rightarrow> server_db \<Rightarrow> server_db" where
  "campaign_act jinja kr mode (CO_create now rq me req) st = fst (api_create_campaign jinja now rq me req st)"
| "campaign_act jinja kr mode (CO_dispatch now rq me i) st = fst (dispatch_campaign kr mode now rq me i st)"
| "campaign_act jinja kr mode (CO_credentials now rq me i ks) st = fst (update_campaign_credentials now rq me i ks st)"
| "campaign_act jinja kr mode (CO_status now rq me i s) st = fst (api_update_campaign_status now rq me i s st)"
| "campaign_act jinja kr mode (CO_edit now rq me i e s b) st = fst (update_campaign_email now rq me i e s b st)"
| "campaign_act jinja kr mode (CO_select me i e b) st = fst (toggle_email_selection id me i e b st)"
| "campaign_act jinja kr mode (CO_select_all me i b) st = fst (bulk_toggle_email_selection me i b st)"
| "campaign_act jinja kr mode (CO_delete now rq me i e) st = fst (api_delete_campaign_email now rq me i e st)"
| "campaign_act jinja kr mode (CO_add now rq me i ls) st = fst (add_emails_to_campaign jinja now rq me i ls st)"
| "campaign_act jinja kr mode (CO_crawl c) st = st\<lparr>sv_cloud := (sv_cloud st)\<lparr>cd_crawl := c\<rparr>\<rparr>"

fun leads_kept_distinct :: "campaign_op \<Rightarrow> bool" where
  "leads_kept_distinct (CO_crawl c) = leads_distinct c"
| "leads_kept_distinct _ = True"

lemma audited_sel [simp]:
  "sv_outreach (audited now rq me a tt ti d st) = sv_outreach st"
  "cd_crawl (sv_cloud (audited now rq me a tt ti d st)) = cd_crawl (sv_cloud st)"
  by (simp_all add: audited_def with_audit_def)

lemma email_audit_sel [simp]:
  "sv_outreach (email_audit now rq me a i e st) = sv_outreach st"
  "cd_crawl (sv_cloud (email_audit now rq me a i e st)) = cd_crawl (sv_cloud st)"
  by (simp_all add: email_audit_def)

text \<open>A handler behind its guards either leaves the state or runs on a campaign of the caller.\<close>

lemma guarded_cases:
  "fst (with_permission perm me (on_owned i me f) st) = st \<or>
   (\<exists>c. get_owned_campaign i me (sv_outreach st) = Inr c \<and> has_all me [perm] \<and>
      with_permission perm me (on_owned i me f) st = f c st)"
  by (auto simp: with_permission_def on_owned_def split: sum.splits)

lemma get_owned_campaign_InrD:
  "get_owned_campaign i me db = Inr c \<Longrightarrow> c \<in> set (rows (campaigns db)) \<and> cp_id c = i \<and> (cp_owner_id c = Some (me_id me) \<or> me_is_admin me)"
  by (auto simp: get_owned_campaign_def get_campaign_def forbid_unless_owner_def dest!: first_where_SomeD
      split: option.splits if_splits)

lemma fst_refuse [simp]: "fst (refuse c d st) = st"
  by (simp add: refuse_def)

definition server_ok :: "server_db \<Rightarrow> bool" where
  "server_ok st = (campaigns_ok (sv_outreach st) \<and> leads_distinct (cd_crawl (sv_cloud st)))"

lemma server_ok_create_test:
  assumes "server_ok st"
  shows "server_ok (fst (create_test_campaign jinja now rq me req tp st))"
proof (cases "create_campaign now (cq_name req) (cq_template_id req) (campaign_kind_value K_TEST) (cq_test_credential_id req)
             (Some C_PAUSED) (Some (me_id me)) (sv_outreach st)")
  case (Inr r)
  then obtain db1 i where r: "create_campaign now (cq_name req) (cq_template_id req) (campaign_kind_value K_TEST)
      (cq_test_credential_id req) (Some C_PAUSED) (Some (me_id me)) (sv_outreach st) = Inr (db1, i)" by (cases r) auto
  have ok: "campaigns_ok (sv_outreach st)" using assms by (simp add: server_ok_def)
  note created = campaigns_ok_create [OF r ok]
  have "campaigns_ok (create_dummy_emails jinja i tp (the_default [] (cq_dummy_details req)) db1)"
    using created(4) by (intro campaigns_ok_added [OF created(1) dummies_frame(1) created(3) recipients_dummies dummies_frame(2)])
      (force simp: production_def)
  then show ?thesis using assms by (simp add: create_test_campaign_def r server_ok_def del: campaign_kind_value.simps)
qed (use assms in \<open>simp add: create_test_campaign_def\<close>)

lemma server_ok_create_production:
  assumes "server_ok st" "has_items (cq_lead_ids req)"
  shows "server_ok (fst (create_production_campaign jinja now rq me req tp st))"
proof -
  let ?cr = "create_campaign now (cq_name req) (cq_template_id req) (campaign_kind_value K_PRODUCTION) None
             (Some C_PAUSED) (Some (me_id me)) (sv_outreach st)"
  let ?ids = "the_default [] (cq_lead_ids req)"
  have ok: "campaigns_ok (sv_outreach st)" "leads_distinct (cd_crawl (sv_cloud st))" using assms(1) by (simp_all add: server_ok_def)
  have ids: "?ids \<noteq> []" using assms(2) by (cases "cq_lead_ids req") (simp_all add: has_items_def)
  obtain drafts n x where drafts: "render_leads jinja ?ids tp {} st = (drafts, n, x)" by (metis prod.collapse)
  have dist: "distinct (map de_recipient_email drafts)"
    using recipients_of_drafts(2) [OF ok(2) [unfolded leads_distinct_def] ids, of jinja tp "{}"] by (simp add: drafts)
  have staged: "campaigns_ok (fst (bulk_create_campaign_emails i drafts db1))" if r: "?cr = Inr (db1, i)" for db1 i
    using campaigns_ok_create(2) [OF r ok(1)] dist
    by (intro campaigns_ok_added [OF campaigns_ok_create(1) [OF r ok(1)] bulk_create_frame(1) campaigns_ok_create(3) [OF r ok(1)]
          recipients_bulk_create bulk_create_frame(2)]) simp
  show ?thesis
    using assms(1) staged
    by (auto simp: create_production_campaign_def Let_def drafts server_ok_def bulk_create_campaign_emails_def
        split: sum.splits prod.splits if_splits dest: campaigns_ok_credentials)
qed

lemma server_ok_add:
  assumes "server_ok st"
  shows "server_ok (fst (add_emails_to_campaign jinja now rq me i ls st))"
proof -
  have ok: "campaigns_ok (sv_outreach st)" "leads_distinct (cd_crawl (sv_cloud st))" using assms by (simp_all add: server_ok_def)
  obtain c where c: "fst (add_emails_to_campaign jinja now rq me i ls st) = st \<or> get_owned_campaign i me (sv_outreach st) = Inr c"
    using guarded_cases unfolding add_emails_to_campaign_def by blast
  have staged: "campaigns_ok (fst (bulk_create_campaign_emails i (fst (render_leads jinja ls tp (get_campaign_recipient_emails i (sv_outreach st)) st)) (sv_outreach st)))"
    if owned: "get_owned_campaign i me (sv_outreach st) = Inr c" and "ls \<noteq> []" for tp
  proof (rule campaigns_ok_added [OF ok(1) bulk_create_frame(1) _ recipients_bulk_create bulk_create_frame(2)])
    have "c \<in> set (rows (campaigns (sv_outreach st)))" "cp_id c = i" using get_owned_campaign_InrD [OF owned] by auto
    then show "i < next_id (campaigns (sv_outreach st))" using ok(1) by (auto simp: campaigns_ok_def campaign_keys.keys_ok_def)
    let ?excl = "get_campaign_recipient_emails i (sv_outreach st)"
    fix c' assume "c' \<in> set (rows (campaigns (sv_outreach st)))" "cp_id c' = i" "production c'"
    then have "distinct (recipients i (sv_outreach st))" using ok(1) by (auto simp: campaigns_ok_def list_all_iff)
    moreover have "?excl = set (recipients i (sv_outreach st))"
      by (simp add: get_campaign_recipient_emails_def recipients_def)
    moreover note rec = recipients_of_drafts [OF ok(2) [unfolded leads_distinct_def] \<open>ls \<noteq> []\<close>, of jinja tp ?excl]
    moreover have "set (map de_recipient_email (fst (render_leads jinja ls tp ?excl st))) \<inter> ?excl = {}"
      unfolding rec(1) by (auto simp: stageable_def)
    ultimately show "distinct (recipients i (sv_outreach st) @ map de_recipient_email (fst (render_leads jinja ls tp ?excl st)))"
      by auto
  qed
  from c show ?thesis
  proof
    assume owned: "get_owned_campaign i me (sv_outreach st) = Inr c"
    show ?thesis
      using assms staged [OF owned] ok(2)
      by (auto simp: add_emails_to_campaign_def with_permission_def on_owned_def owned server_ok_def Let_def refuse_def
          bulk_create_campaign_emails_def case_prod_unfold split: option.splits if_splits)
  qed (use assms in simp)
qed

lemma server_ok_act:
  assumes "server_ok st" "leads_kept_distinct op"
  shows "server_ok (campaign_act jinja kr mode op st)"
proof -
  have ok: "campaigns_ok (sv_outreach st)" "leads_distinct (cd_crawl (sv_cloud st))" using assms(1) by (simp_all add: server_ok_def)
  note guarded = with_permission_def on_owned_def refuse_def server_ok_def Let_def
  show ?thesis
  proof (cases op)
    case (CO_create now rq me req)
    have "has_items (cq_lead_ids req)" if "check_kind_fields req = None" "cq_kind req \<noteq> campaign_kind_value K_TEST"
      using that by (auto simp: check_kind_fields_def split: if_splits)
    then show ?thesis
      using assms(1) server_ok_create_test [OF assms(1)] server_ok_create_production [OF assms(1)]
      by (auto simp: CO_create api_create_campaign_def with_permission_def refuse_def split: option.splits)
  next
    case (CO_dispatch now rq me i)
    then show ?thesis using assms(1) ok(2) campaigns_ok_status [OF ok(1)]
      by (auto simp: dispatch_campaign_def guarded split: sum.splits)
  next
    case (CO_credentials now rq me i ks)
    then show ?thesis using assms(1) ok campaigns_ok_credentials [OF _ ok(1)]
      by (auto simp: update_campaign_credentials_def guarded split: sum.splits)
  next
    case (CO_status now rq me i s)
    then show ?thesis using assms(1) ok(2) campaigns_ok_status [OF ok(1)]
      by (auto simp: api_update_campaign_status_def guarded split: sum.splits option.splits)
  next
    case (CO_edit now rq me i e s b)
    then show ?thesis using assms(1) ok campaigns_ok_email_ops(1) [OF ok(1), of e s b]
      by (auto simp: update_campaign_email_def guarded split: sum.splits prod.splits bool.splits)
  next
    case (CO_select me i e b)
    then show ?thesis using assms(1) ok campaigns_ok_email_ops(2) [OF ok(1), of e b]
      by (auto simp: toggle_email_selection_def guarded split: sum.splits prod.splits bool.splits)
  next
    case (CO_select_all me i b)
    then show ?thesis using assms(1) ok campaigns_ok_email_ops(3) [OF ok(1), of i b]
      by (auto simp: bulk_toggle_email_selection_def guarded split: sum.splits prod.splits)
  next
    case (CO_delete now rq me i e)
    then show ?thesis using assms(1) ok campaigns_ok_email_ops(4) [OF ok(1), of e]
      by (auto simp: api_delete_campaign_email_def guarded split: sum.splits prod.splits bool.splits)
  next
    case (CO_add now rq me i ls)
    then show ?thesis using server_ok_add [OF assms(1)] by simp
  next
    case (CO_crawl c)
    then show ?thesis using assms by (simp add: server_ok_def)
  qed
qed

lemma server_ok_run:
  "server_ok st \<Longrightarrow> list_all leads_kept_distinct ops \<Longrightarrow> server_ok (foldl (\<lambda>s op. campaign_act jinja kr mode op s) st ops)"
  by (induction ops arbitrary: st) (simp_all add: server_ok_act)


definition demo_lead_row :: "nat \<Rightarrow> string \<Rightarrow> string \<Rightarrow> lead" where
  "demo_lead_row i email name =
     \<lparr>ld_id = i, ld_job_id = 1, ld_snapshot_id = None, ld_email = email, ld_person_name = Some name, ld_designation = Some ''Dir'',
      ld_department = None, ld_source_url = None, ld_source_title = None, ld_context_snippet = None, ld_manual_state = None,
      ld_entity_kind = None, ld_phone = None, ld_channel_tag = None, ld_confidence_band = None, ld_field_provenance = None,
      ld_lead_score = 0, ld_depth = 0, ld_captured_at = 0\<rparr>"

definition demo_server :: server_db where
  "demo_server =
     \<lparr>sv_cloud = \<lparr>cd_crawl = empty_crawl_db\<lparr>leads := \<lparr>rows = [demo_lead_row 1 ''a@x.in'' ''Asha'', demo_lead_row 2 ''b@x.in'' []], next_id = 3\<rparr>\<rparr>,
        cd_auth = empty_auth\<rparr>,
      sv_outreach = fst (create_template ''t'' ''Hi'' ''Dear'' empty_outreach)\<rparr>"

definition demo_manager :: "nat \<Rightarrow> current_user" where
  "demo_manager i = \<lparr>me_id = i, me_email = ''m@x.in'', me_is_admin = False, me_permissions = {''campaigns.manage'', ''campaigns.dispatch''}\<rparr>"

definition demo_create :: "nat list \<Rightarrow> campaign_create" where
  "demo_create ids = \<lparr>cq_name = ''c'', cq_template_id = 1, cq_kind = ''production'', cq_lead_ids = Some ids, cq_credential_ids = [],
     cq_dummy_details = None, cq_test_credential_id = None\<rparr>"

definition demo_jinja :: jinja where
  "demo_jinja t vars = Some (t @ concat (map snd vars))"

definition demo_campaign_ops :: "campaign_op list" where
  "demo_campaign_ops = [CO_create 0 agent_request (demo_manager 7) (demo_create [1]),
     CO_add 1 agent_request (demo_manager 7) 1 [1, 2], CO_add 2 agent_request (demo_manager 7) 1 [2]]"

definition demo_staged :: server_db where
  "demo_staged = foldl (\<lambda>s op. campaign_act demo_jinja demo_ring None op s) demo_server demo_campaign_ops"

lemma demo_staged_emails:
  "map (\<lambda>e. (em_id e, em_recipient_email e, em_is_selected e)) (rows (emails (sv_outreach demo_staged))) =
     [(1, ''a@x.in'', True), (2, ''b@x.in'', False)]"
  by code_simp

lemma demo_server_ok: "server_ok demo_server"
  by (simp add: server_ok_def demo_server_def campaigns_ok_def leads_distinct_def demo_lead_row_def create_template_def
      empty_outreach_def empty_table_def insert_row_def campaign_keys.keys_ok_def)


section \<open>Who is staged\<close>

lemma add_emails_rows:
  "rows (add_emails i ds t) = rows t @ map (\<lambda>(k, d). mk_email (i, d) k) (enumerate (next_id t) ds)"
  by (induction ds arbitrary: t) (simp_all add: table_simps)

lemma map_new_emails:
  "(\<And>k d. f (mk_email (i, d) k) = g d) \<Longrightarrow> map f (map (\<lambda>(k, d). mk_email (i, d) k) (enumerate m ds)) = map g ds"
  by (induction ds arbitrary: m) simp_all

lemma set_campaign_credentials_frame:
  assumes "set_campaign_credentials i ks db = Inr db'"
  shows "emails db' = emails db"
    "(\<And>c. first_where (\<lambda>c. cp_id c = i) (campaigns db) = Some c \<Longrightarrow> cp_kind c \<noteq> campaign_kind_value K_TEST) \<Longrightarrow>
       campaigns db' = campaigns db"
  using assms by (auto simp: set_campaign_credentials_def Let_def split: option.splits list.splits if_splits)

text \<open>C20.
  What a production campaign stages. A created campaign belongs to its creator and is paused. It
  has one draft for every chosen lead that is not blacklisted, by its address or its domain, in the
  order of the export, with the subject and body of the template rendered for that lead; a draft is
  selected for dispatch exactly when the lead has a name and a designation. Together with the
  blacklisted leads these are all the leads chosen. No other email and no other campaign changes.
\<close>

theorem production_campaign_stages:
  assumes "server_ok st"
    and created: "api_create_campaign jinja now rq me req st = (st', Inr (Production_created i staged blacklisted))"
  shows "\<exists>template c. get_template (cq_template_id req) (sv_outreach st) = Some template \<and>
    rows (campaigns (sv_outreach st')) = rows (campaigns (sv_outreach st)) @ [c] \<and>
    cp_id c = i \<and> cp_owner_id c = Some (me_id me) \<and> cp_status c = C_PAUSED \<and>
    (let chosen = leads_to_stage (the_default [] (cq_lead_ids req)) st;
         kept = filter (stageable {} st) chosen;
         new = drop (length (rows (emails (sv_outreach st)))) (rows (emails (sv_outreach st')))
     in rows (emails (sv_outreach st')) = rows (emails (sv_outreach st)) @ new \<and>
        staged = length new \<and> staged + blacklisted = length chosen \<and>
        map (\<lambda>e. (em_campaign_id e, em_recipient_email e, em_status e)) new = map (\<lambda>l. (i, ex_email l, E_DRAFT)) kept \<and>
        map em_is_selected new = map (\<lambda>l. ex_person_name l \<noteq> [] \<and> ex_designation l \<noteq> []) kept \<and>
        map em_subject new = map (\<lambda>l. render_template_string jinja (tp_subject template)
          [(''name'', or_text (ex_person_name l) ''Official''), (''designation'', ex_designation l)]) kept)"
proof -
  let ?ids = "the_default [] (cq_lead_ids req)" and ?db = "sv_outreach st"
  obtain template where template: "get_template (cq_template_id req) ?db = Some template"
    and checked: "check_kind_fields req = None" "cq_kind req \<noteq> campaign_kind_value K_TEST"
    and prod: "create_production_campaign jinja now rq me req template st = (st', Inr (Production_created i staged blacklisted))"
    using created
    by (auto simp: api_create_campaign_def with_permission_def refuse_def create_test_campaign_def split: option.splits if_splits sum.splits prod.splits)
  have ids: "?ids \<noteq> []"
    using checked by (cases "cq_lead_ids req") (auto simp: check_kind_fields_def has_items_def split: if_splits)
  obtain drafts n x where drafts: "render_leads jinja ?ids template {} st = (drafts, n, x)" by (metis prod.collapse)
  obtain db1 where cr: "create_campaign now (cq_name req) (cq_template_id req) (campaign_kind_value K_PRODUCTION) None
             (Some C_PAUSED) (Some (me_id me)) ?db = Inr (db1, i)"
    and n: "staged = length drafts" "blacklisted = n"
    and rest: "if cq_credential_ids req = [] then sv_outreach st' = fst (bulk_create_campaign_emails i drafts db1)
       else set_campaign_credentials i (cq_credential_ids req) (fst (bulk_create_campaign_emails i drafts db1)) = Inr (sv_outreach st')"
    using prod by (auto simp: create_production_campaign_def refuse_def Let_def drafts bulk_create_campaign_emails_def
        split: if_splits sum.splits prod.splits)
  note db1 = create_campaign_InrD(2) [OF cr]
  have kind: "first_where (\<lambda>c. cp_id c = i) (campaigns db1) = Some c \<Longrightarrow> cp_kind c \<noteq> campaign_kind_value K_TEST" for c
    using campaigns_ok_create(4) [OF cr, of c] assms(1) by (auto simp: server_ok_def dest: first_where_SomeD)
  have st': "emails (sv_outreach st') = add_emails i drafts (emails ?db)" "campaigns (sv_outreach st') = campaigns db1"
  proof -
    let ?db2 = "fst (bulk_create_campaign_emails i drafts db1)"
    have db2: "emails ?db2 = add_emails i drafts (emails ?db)" "campaigns ?db2 = campaigns db1"
      by (simp_all add: bulk_create_campaign_emails_def db1)
    have "emails (sv_outreach st') = emails ?db2 \<and> campaigns (sv_outreach st') = campaigns ?db2"
    proof (cases "cq_credential_ids req = []")
      case False
      then show ?thesis using rest set_campaign_credentials_frame kind unfolding db2(2) [symmetric] by auto
    qed (use rest in simp)
    then show "emails (sv_outreach st') = add_emails i drafts (emails ?db)" "campaigns (sv_outreach st') = campaigns db1"
      by (simp_all add: db2)
  qed
  have dist: "distinct (map ld_email (rows (leads (cd_crawl (sv_cloud st)))))"
    using assms(1) by (simp add: server_ok_def leads_distinct_def)
  have d: "drafts = map (\<lambda>l. draft_of jinja template (the (lead_id_by_email ?ids st (ex_email l))) l) (filter (stageable {} st) (leads_to_stage ?ids st))"
    using render_leads_eq [OF dist ids, of jinja template "{}"] by (simp add: drafts)
  have nums: "length drafts + n = length (leads_to_stage ?ids st)"
  proof -
    have "stageable {} st = (\<lambda>l. \<not> is_blacklisted (ex_email l) (get_blacklisted_emails_set ?db) (get_blacklisted_domains_set ?db))"
      by (simp add: stageable_def fun_eq_iff)
    then have "n = length (leads_to_stage ?ids st) - length (filter (stageable {} st) (leads_to_stage ?ids st))"
      using drafts by (simp add: render_leads_def render_draft_emails_def Let_def)
    then show ?thesis by (simp add: d)
  qed
  note fields = map_new_emails [where f = "\<lambda>e. (em_campaign_id e, em_recipient_email e, em_status e)" and g = "\<lambda>d. (i, de_recipient_email d, E_DRAFT)"]
    map_new_emails [where f = em_is_selected and g = de_is_selected] map_new_emails [where f = em_subject and g = de_subject]
  have new: "map (\<lambda>e. (em_campaign_id e, em_recipient_email e, em_status e)) (map (\<lambda>(k, d). mk_email (i, d) k) (enumerate m drafts)) =
        map (\<lambda>l. (i, ex_email l, E_DRAFT)) (filter (stageable {} st) (leads_to_stage ?ids st))"
    "map em_is_selected (map (\<lambda>(k, d). mk_email (i, d) k) (enumerate m drafts)) =
        map (\<lambda>l. ex_person_name l \<noteq> [] \<and> ex_designation l \<noteq> []) (filter (stageable {} st) (leads_to_stage ?ids st))"
    "map em_subject (map (\<lambda>(k, d). mk_email (i, d) k) (enumerate m drafts)) =
        map (\<lambda>l. render_template_string jinja (tp_subject template)
          [(''name'', or_text (ex_person_name l) ''Official''), (''designation'', ex_designation l)]) (filter (stageable {} st) (leads_to_stage ?ids st))" for m
    by (subst fields; simp add: mk_email_def d draft_of_def missing_fields_def Let_def comp_def)+
  have c: "rows (campaigns (sv_outreach st')) = rows (campaigns ?db) @ [mk_campaign (\<lparr>nc_name = cq_name req, nc_template_id = cq_template_id req,
       nc_kind = campaign_kind_value K_PRODUCTION, nc_test_credential_id = None, nc_status = C_PAUSED, nc_owner_id = Some (me_id me)\<rparr>, now) i]"
    unfolding st'(2) by (simp add: db1 table_simps create_campaign_InrD(1) [OF cr])
  show ?thesis
    unfolding c st'(1) add_emails_rows Let_def append_eq_conv_conj [symmetric] n
    using nums template by (intro exI [of _ template]) (simp add: mk_campaign_def new del: map_map)
qed

lemma demo_kept:
  "map (\<lambda>l. f (ex_person_name l) (ex_designation l)) (filter (stageable {} demo_server) (leads_to_stage [1, 2] demo_server)) =
      [f ''Asha'' ''Dir'', f [] ''Dir'']"
proof -
  have "map (\<lambda>l. (ex_person_name l, ex_designation l)) (filter (stageable {} demo_server) (leads_to_stage [1, 2] demo_server)) =
      [(''Asha'', ''Dir''), ([], ''Dir'')]"
    by code_simp
  from arg_cong [OF this, of "map (\<lambda>(a, b). f a b)"] show ?thesis by (simp add: comp_def del: map_eq_Cons_conv)
qed

lemma demo_render:
  "render_template_string demo_jinja ''Hi'' [(''name'', or_text ''Asha'' ''Official''), (''designation'', ''Dir'')] = ''HiAshaDir''"
  "render_template_string demo_jinja ''Hi'' [(''name'', or_text [] ''Official''), (''designation'', ''Dir'')] = ''HiOfficialDir''"
  "(''Asha'' \<noteq> [] \<and> ''Dir'' \<noteq> []) = True" "([] \<noteq> ([] :: string) \<and> ''Dir'' \<noteq> []) = False"
  by (simp_all add: render_template_string_def demo_jinja_def or_text_def)

theorem production_campaign_stages_witness:
  "\<exists>st'. api_create_campaign demo_jinja 0 agent_request (demo_manager 7) (demo_create [1, 2]) demo_server = (st', Inr (Production_created 1 2 0)) \<and>
     map em_is_selected (rows (emails (sv_outreach st'))) = [True, False] \<and>
     map em_subject (rows (emails (sv_outreach st'))) = [''HiAshaDir'', ''HiOfficialDir'']"
proof -
  obtain st' where st': "api_create_campaign demo_jinja 0 agent_request (demo_manager 7) (demo_create [1, 2]) demo_server = (st', Inr (Production_created 1 2 0))"
  proof -
    have "snd (api_create_campaign demo_jinja 0 agent_request (demo_manager 7) (demo_create [1, 2]) demo_server) = Inr (Production_created 1 2 0)"
      by code_simp
    then show thesis using that by (metis prod.collapse)
  qed
  have t: "get_template 1 (sv_outreach demo_server) = Some \<lparr>tp_id = 1, tp_name = ''t'', tp_subject = ''Hi'', tp_raw_body = ''Dear''\<rparr>" by code_simp
  have none: "rows (emails (sv_outreach demo_server)) = []" by code_simp
  have params: "cq_template_id (demo_create [1, 2]) = 1" "the_default [] (cq_lead_ids (demo_create [1, 2])) = [1, 2]"
    by (simp_all add: demo_create_def)
  have "\<exists>tp. Some \<lparr>tp_id = 1, tp_name = ''t'', tp_subject = ''Hi'', tp_raw_body = ''Dear''\<rparr> = Some tp \<and>
      map em_is_selected (rows (emails (sv_outreach st'))) = [''Asha'' \<noteq> [] \<and> ''Dir'' \<noteq> [], [] \<noteq> ([] :: string) \<and> ''Dir'' \<noteq> []] \<and>
      map em_subject (rows (emails (sv_outreach st'))) = [render_template_string demo_jinja (tp_subject tp) [(''name'', or_text ''Asha'' ''Official''), (''designation'', ''Dir'')],
        render_template_string demo_jinja (tp_subject tp) [(''name'', or_text [] ''Official''), (''designation'', ''Dir'')]]"
    using production_campaign_stages [OF demo_server_ok st']
    unfolding params t none Let_def list.size drop_0 append_Nil demo_kept [where f = "\<lambda>a b. a \<noteq> [] \<and> b \<noteq> []"]
      demo_kept [where f = "\<lambda>a b. render_template_string demo_jinja t [(''name'', or_text a ''Official''), (''designation'', b)]" for t]
    by (elim exE conjE) (intro exI conjI; assumption)
  then obtain tp where tp: "Some \<lparr>tp_id = 1, tp_name = ''t'', tp_subject = ''Hi'', tp_raw_body = ''Dear''\<rparr> = Some tp"
    and sel: "map em_is_selected (rows (emails (sv_outreach st'))) = [''Asha'' \<noteq> [] \<and> ''Dir'' \<noteq> [], [] \<noteq> ([] :: string) \<and> ''Dir'' \<noteq> []]"
    and sub: "map em_subject (rows (emails (sv_outreach st'))) = [render_template_string demo_jinja (tp_subject tp) [(''name'', or_text ''Asha'' ''Official''), (''designation'', ''Dir'')],
        render_template_string demo_jinja (tp_subject tp) [(''name'', or_text [] ''Official''), (''designation'', ''Dir'')]]"
    by (elim exE conjE)
  have hi: "tp_subject tp = ''Hi''" using tp by auto
  have "map em_is_selected (rows (emails (sv_outreach st'))) = [True, False] \<and>
      map em_subject (rows (emails (sv_outreach st'))) = [''HiAshaDir'', ''HiOfficialDir'']"
    by (simp only: sel sub hi demo_render)
  then show ?thesis by (intro exI [of _ st'] conjI st') simp_all
qed

section \<open>Ownership\<close>

text \<open>The user who sends a request, and the campaign row with its assigned credentials.\<close>

fun sender :: "campaign_op \<Rightarrow> nat option" where
  "sender (CO_create _ _ me _) = Some (me_id me)"
| "sender (CO_dispatch _ _ me _) = Some (me_id me)"
| "sender (CO_credentials _ _ me _ _) = Some (me_id me)"
| "sender (CO_status _ _ me _ _) = Some (me_id me)"
| "sender (CO_edit _ _ me _ _ _ _) = Some (me_id me)"
| "sender (CO_select me _ _ _) = Some (me_id me)"
| "sender (CO_select_all me _ _) = Some (me_id me)"
| "sender (CO_delete _ _ me _ _) = Some (me_id me)"
| "sender (CO_add _ _ me _ _) = Some (me_id me)"
| "sender (CO_crawl _) = None"

fun as_admin :: "campaign_op \<Rightarrow> bool" where
  "as_admin (CO_create _ _ me _) = me_is_admin me"
| "as_admin (CO_dispatch _ _ me _) = me_is_admin me"
| "as_admin (CO_credentials _ _ me _ _) = me_is_admin me"
| "as_admin (CO_status _ _ me _ _) = me_is_admin me"
| "as_admin (CO_edit _ _ me _ _ _ _) = me_is_admin me"
| "as_admin (CO_select me _ _ _) = me_is_admin me"
| "as_admin (CO_select_all me _ _) = me_is_admin me"
| "as_admin (CO_delete _ _ me _ _) = me_is_admin me"
| "as_admin (CO_add _ _ me _ _) = me_is_admin me"
| "as_admin (CO_crawl _) = False"

definition foreign :: "nat option \<Rightarrow> campaign_op \<Rightarrow> bool" where
  "foreign owner op = (\<not> as_admin op \<and> (sender op = None \<or> sender op \<noteq> owner))"

definition campaign_and_credentials :: "nat \<Rightarrow> outreach_db \<Rightarrow> campaign option \<times> nat list" where
  "campaign_and_credentials i db = (get_campaign i None True db, get_campaign_credential_ids i db)"

lemma campaign_and_credentials_frame:
  "campaigns db' = campaigns db \<Longrightarrow> campaign_credentials db' = campaign_credentials db \<Longrightarrow>
     campaign_and_credentials i db' = campaign_and_credentials i db"
  by (cases "first_where (\<lambda>c. cp_id c = i) (campaigns db)")
    (simp_all add: campaign_and_credentials_def get_campaign_def get_campaign_credential_ids_def)

lemma first_where_other:
  assumes "\<And>r. q (f r) = q r" "\<And>r. q r \<Longrightarrow> \<not> p r"
  shows "first_where q (update_where p f t) = first_where q t"
proof -
  have "first_where q (update_where p f t) = map_option (\<lambda>r. if p r then f r else r) (first_where q t)"
    using assms(1) by (intro first_where_update_where)
  then show ?thesis using assms(2) by (cases "first_where q t") (auto dest!: first_where_SomeD)
qed

lemma campaign_and_credentials_status:
  "j \<noteq> i \<Longrightarrow> campaign_and_credentials i (fst (update_campaign_status j s r db)) = campaign_and_credentials i db"
proof -
  assume "j \<noteq> i"
  then have "first_where (\<lambda>c. cp_id c = i) (update_where (\<lambda>c. cp_id c = j) (\<lambda>c. c\<lparr>cp_status := s, cp_pause_reason := r\<rparr>) t) =
      first_where (\<lambda>c. cp_id c = i) t" for t :: "campaign table"
    by (intro first_where_other) auto
  then show ?thesis
    by (cases "first_where (\<lambda>c. cp_id c = i) (campaigns db)")
      (simp_all add: campaign_and_credentials_def get_campaign_def get_campaign_credential_ids_def update_campaign_status_def Let_def)
qed

lemma add_credentials_other:
  "i \<noteq> j \<Longrightarrow> select_where (\<lambda>a. cc_campaign_id a = i) (add_campaign_credentials j ks t) = select_where (\<lambda>a. cc_campaign_id a = i) t"
  by (induction ks arbitrary: t) (simp_all add: select_where_def insert_row_def mk_campaign_credential_def)

lemma insert_credential_other:
  "i \<noteq> j \<Longrightarrow> select_where (\<lambda>a. cc_campaign_id a = i) (fst (insert_row (mk_campaign_credential (j, k)) t)) =
     select_where (\<lambda>a. cc_campaign_id a = i) t"
  using add_credentials_other [of i j "[k]" t] by simp

lemma campaign_and_credentials_assign:
  assumes "set_campaign_credentials j ks db = Inr db'" "j \<noteq> i"
  shows "campaign_and_credentials i db' = campaign_and_credentials i db"
proof -
  have f: "first_where (\<lambda>c. cp_id c = i) (update_where (\<lambda>c. cp_id c = j) (\<lambda>c. c\<lparr>cp_test_credential_id := x\<rparr>) t) =
      first_where (\<lambda>c. cp_id c = i) t" for x and t :: "campaign table"
    using assms(2) by (intro first_where_other) auto
  have s: "select_where (\<lambda>a. cc_campaign_id a = i) (delete_where (\<lambda>a. cc_campaign_id a = j) t) = select_where (\<lambda>a. cc_campaign_id a = i) t"
    for t :: "campaign_credential table"
  proof -
    have "filter (\<lambda>x. cc_campaign_id x \<noteq> j \<and> cc_campaign_id x = i) xs = filter (\<lambda>a. cc_campaign_id a = i) xs"
      for xs :: "campaign_credential list"
      using assms(2) by (intro filter_cong) auto
    then show ?thesis by (simp add: select_where_def table_simps)
  qed
  show ?thesis
    using assms(1) by (cases "first_where (\<lambda>c. cp_id c = i) (campaigns db)")
      (auto simp: set_campaign_credentials_def campaign_and_credentials_def get_campaign_def get_campaign_credential_ids_def
        f s add_credentials_other insert_credential_other assms(2) [symmetric] Let_def split: option.splits list.splits if_splits)
qed

lemma campaign_and_credentials_create:
  assumes "create_campaign now name t kind tc s own db = Inr (db', i)" "get_campaign j None True db = Some c" "campaigns_ok db"
  shows "campaign_and_credentials j db' = campaign_and_credentials j db" "i \<noteq> j"
proof -
  note db' = create_campaign_InrD [OF assms(1)]
  show "i \<noteq> j" using assms(2,3)
    by (auto simp: db'(1) get_campaign_def campaigns_ok_def campaign_keys.keys_ok_def dest!: first_where_SomeD)
  show "campaign_and_credentials j db' = campaign_and_credentials j db"
    using assms(2) by (simp add: campaign_and_credentials_def get_campaign_def get_campaign_credential_ids_def db'(2) first_where_insert_row)
qed

lemma email_ops_frame:
  "campaigns (fst (update_email i s b db)) = campaigns db" "campaign_credentials (fst (update_email i s b db)) = campaign_credentials db"
  "campaigns (fst (set_email_selection id i sel db)) = campaigns db" "campaign_credentials (fst (set_email_selection id i sel db)) = campaign_credentials db"
  "campaigns (fst (set_all_email_selection i sel db)) = campaigns db" "campaign_credentials (fst (set_all_email_selection i sel db)) = campaign_credentials db"
  "campaigns (fst (delete_campaign_email i db)) = campaigns db" "campaign_credentials (fst (delete_campaign_email i db)) = campaign_credentials db"
  by (auto simp: update_email_def set_email_selection_defs set_all_email_selection_def delete_campaign_email_def Let_def split: option.splits)

lemma dummy_emails_credentials: "campaign_credentials (create_dummy_emails jinja i tp ds db) = campaign_credentials db"
  by (induction ds arbitrary: db) (simp_all add: create_campaign_email_def Let_def insert_row_def)

lemma bulk_create_credentials: "campaign_credentials (fst (bulk_create_campaign_emails i ds db)) = campaign_credentials db"
  by (simp add: bulk_create_campaign_emails_def)

lemma campaign_and_credentials_emails:
  "campaign_and_credentials c (fst (update_email i s b db)) = campaign_and_credentials c db"
  "campaign_and_credentials c (fst (set_email_selection id i sel db)) = campaign_and_credentials c db"
  "campaign_and_credentials c (fst (set_all_email_selection i sel db)) = campaign_and_credentials c db"
  "campaign_and_credentials c (fst (delete_campaign_email i db)) = campaign_and_credentials c db"
  "campaign_and_credentials c (fst (bulk_create_campaign_emails i ds db)) = campaign_and_credentials c db"
  by (rule campaign_and_credentials_frame; simp add: email_ops_frame bulk_create_frame(1) bulk_create_credentials)+

lemma create_keeps_other_campaigns:
  assumes "server_ok st" "get_campaign i None True (sv_outreach st) = Some c"
  shows "campaign_and_credentials i (sv_outreach (fst (api_create_campaign jinja now rq me req st))) = campaign_and_credentials i (sv_outreach st)"
proof -
  have ok: "campaigns_ok (sv_outreach st)" using assms(1) by (simp add: server_ok_def)
  note new = campaign_and_credentials_create [OF _ assms(2) ok]
  have test: "campaign_and_credentials i (create_dummy_emails jinja j tp ds db1) = campaign_and_credentials i (sv_outreach st)"
    if "create_campaign now n t k tc s own (sv_outreach st) = Inr (db1, j)" for n t k tc s own db1 j tp ds
    using new(1) [OF that] campaign_and_credentials_frame [OF dummies_frame(1) dummy_emails_credentials] by simp
  have staged: "campaign_and_credentials i (fst (bulk_create_campaign_emails j ds db1)) = campaign_and_credentials i (sv_outreach st)"
    if "create_campaign now n t k tc s own (sv_outreach st) = Inr (db1, j)" for n t k tc s own db1 j ds
    using new(1) [OF that] campaign_and_credentials_frame [OF bulk_create_frame(1) bulk_create_credentials] by simp
  have assigned: "campaign_and_credentials i db3 = campaign_and_credentials i (sv_outreach st)"
    if "create_campaign now n t k tc s own (sv_outreach st) = Inr (db1, j)"
      "set_campaign_credentials j ks (fst (bulk_create_campaign_emails j ds db1)) = Inr db3" for n t k tc s own db1 j ds ks db3
    using campaign_and_credentials_assign [OF that(2) new(2) [OF that(1)]] staged [OF that(1)] by simp
  let ?keep = "\<lambda>st'. campaign_and_credentials i (sv_outreach st') = campaign_and_credentials i (sv_outreach st)"
  have "?keep (fst (create_test_campaign jinja now rq me req tp st))" for tp
    using test by (simp add: create_test_campaign_def case_prod_unfold split: sum.split)
  moreover have "?keep (fst (create_production_campaign jinja now rq me req tp st))" for tp
  proof -
    let ?cr = "create_campaign now (cq_name req) (cq_template_id req) (campaign_kind_value K_PRODUCTION) None
             (Some C_PAUSED) (Some (me_id me)) (sv_outreach st)"
    show ?thesis
    proof (cases ?cr)
      case (Inl x)
      then show ?thesis by (simp add: create_production_campaign_def refuse_def Let_def del: campaign_kind_value.simps)
    next
      case (Inr r)
      then obtain db1 j where r: "?cr = Inr (db1, j)" by (cases r) auto
      define drafts where "drafts = fst (render_leads jinja (the_default [] (cq_lead_ids req)) tp {} st)"
      define db2 where "db2 = fst (bulk_create_campaign_emails j drafts db1)"
      note same = staged [OF r, of drafts, folded db2_def] assigned [OF r, of "cq_credential_ids req" drafts, folded db2_def]
      show ?thesis
        using same by (cases "set_campaign_credentials j (cq_credential_ids req) db2")
          (simp_all add: create_production_campaign_def refuse_def Let_def case_prod_unfold r drafts_def [symmetric] db2_def [symmetric]
            del: campaign_kind_value.simps)
    qed
  qed
  ultimately show ?thesis
    by (simp add: api_create_campaign_def with_permission_def refuse_def split: option.split)
qed

lemma foreign_act_keeps_campaign:
  assumes "server_ok st" "get_campaign i None True (sv_outreach st) = Some c" "foreign (cp_owner_id c) op"
  shows "campaign_and_credentials i (sv_outreach (campaign_act jinja kr mode op st)) = campaign_and_credentials i (sv_outreach st)"
proof -
  let ?keep = "\<lambda>st'. campaign_and_credentials i (sv_outreach st') = campaign_and_credentials i (sv_outreach st)"
  have other: "j \<noteq> i" if "get_owned_campaign j me (sv_outreach st) = Inr c'" "\<not> me_is_admin me" "cp_owner_id c \<noteq> Some (me_id me)" for j me c'
    using that assms(2) by (auto simp: get_owned_campaign_def forbid_unless_owner_def)
  have guarded: "?keep (fst (with_permission perm me (on_owned j me f) st))"
    if "\<not> me_is_admin me" "cp_owner_id c \<noteq> Some (me_id me)" "\<And>c'. j \<noteq> i \<Longrightarrow> ?keep (fst (f c' st))" for perm me j and f :: "campaign \<Rightarrow> 'z handler"
    using guarded_cases [of perm me j f st] other [of j me] that by (metis fst_conv)
  note frames = campaign_and_credentials_emails campaign_and_credentials_status
  show ?thesis
  proof (cases op)
    case (CO_create now rq me req)
    then show ?thesis using create_keeps_other_campaigns [OF assms(1,2)] by simp
  next
    case (CO_crawl c)
    then show ?thesis by simp
  next
    case (CO_dispatch now rq me j)
    then show ?thesis using assms(3) unfolding CO_dispatch campaign_act.simps dispatch_campaign_def
      by (intro guarded) (auto simp: foreign_def Let_def frames split: sum.splits)
  next
    case (CO_credentials now rq me j ks)
    then show ?thesis using assms(3) unfolding CO_credentials campaign_act.simps update_campaign_credentials_def
      by (intro guarded) (auto simp: foreign_def campaign_and_credentials_assign split: sum.splits)
  next
    case (CO_status now rq me j s)
    then show ?thesis using assms(3) unfolding CO_status campaign_act.simps api_update_campaign_status_def
      by (intro guarded) (auto simp: foreign_def frames split: option.splits)
  next
    case (CO_edit now rq me j e s b)
    then show ?thesis using assms(3) unfolding CO_edit campaign_act.simps update_campaign_email_def
      by (intro guarded) (auto simp: foreign_def frames case_prod_unfold split: bool.splits)
  next
    case (CO_select me j e b)
    then show ?thesis using assms(3) unfolding CO_select campaign_act.simps toggle_email_selection_def
      by (intro guarded) (auto simp: foreign_def frames case_prod_unfold split: bool.splits)
  next
    case (CO_select_all me j b)
    then show ?thesis using assms(3) unfolding CO_select_all campaign_act.simps bulk_toggle_email_selection_def
      by (intro guarded) (auto simp: foreign_def frames case_prod_unfold)
  next
    case (CO_delete now rq me j e)
    then show ?thesis using assms(3) unfolding CO_delete campaign_act.simps api_delete_campaign_email_def
      by (intro guarded) (auto simp: foreign_def frames case_prod_unfold split: bool.splits)
  next
    case (CO_add now rq me j ls)
    then show ?thesis using assms(3) unfolding CO_add campaign_act.simps add_emails_to_campaign_def
      by (intro guarded) (auto simp: foreign_def frames case_prod_unfold Let_def split: option.splits)
  qed
qed

lemma foreign_acts_keep_campaign:
  assumes "server_ok st" "get_campaign i None True (sv_outreach st) = Some c"
    and "list_all leads_kept_distinct ops" "list_all (foreign (cp_owner_id c)) ops"
  shows "campaign_and_credentials i (sv_outreach (foldl (\<lambda>s op. campaign_act jinja kr mode op s) st ops)) = campaign_and_credentials i (sv_outreach st)"
  using assms
proof (induction ops arbitrary: st)
  case (Cons op ops)
  let ?st = "campaign_act jinja kr mode op st"
  have step: "campaign_and_credentials i (sv_outreach ?st) = campaign_and_credentials i (sv_outreach st)"
    using foreign_act_keeps_campaign [OF Cons.prems(1,2)] Cons.prems(4) by simp
  then have "get_campaign i None True (sv_outreach ?st) = Some c"
    using Cons.prems(2) by (simp add: campaign_and_credentials_def)
  then show ?case
    using Cons.IH [of ?st] server_ok_act [OF Cons.prems(1)] Cons.prems(3,4) step by simp
qed simp

text \<open>C23.
  A campaign and its credentials are safe from other users. Whatever requests users send who
  neither own the campaign nor are administrators, its row, status included, and the credentials
  assigned to it stay as they are.
\<close>

theorem campaign_needs_ownership:
  assumes "server_ok st" "get_campaign i None True (sv_outreach st) = Some c"
    and "list_all leads_kept_distinct ops" "list_all (foreign (cp_owner_id c)) ops"
  shows "let db = sv_outreach (foldl (\<lambda>s op. campaign_act jinja kr mode op s) st ops) in
    get_campaign i None True db = Some c \<and> get_campaign_credential_ids i db = get_campaign_credential_ids i (sv_outreach st)"
  using foreign_acts_keep_campaign [OF assms, of jinja kr mode] assms(2) by (simp add: campaign_and_credentials_def Let_def)

definition demo_row1 :: campaign where
  "demo_row1 = \<lparr>cp_id = 1, cp_name = ''c'', cp_template_id = Some 1, cp_kind = ''production'', cp_test_credential_id = None,
     cp_status = C_PAUSED, cp_owner_id = Some 7, cp_created_at = 0, cp_pause_reason = None\<rparr>"

lemma demo_staged_row: "get_campaign 1 None True (sv_outreach demo_staged) = Some demo_row1"
proof -
  have "map_option (\<lambda>c. (cp_id c, cp_name c, cp_template_id c, cp_kind c, cp_test_credential_id c, cp_status c, cp_owner_id c, cp_created_at c, cp_pause_reason c))
    (get_campaign 1 None True (sv_outreach demo_staged)) = Some (1, ''c'', Some 1, ''production'', None, C_PAUSED, Some 7, 0, None)"
    by code_simp
  then show ?thesis by (auto simp: demo_row1_def)
qed

lemma demo_staged_ok: "server_ok demo_staged"
  unfolding demo_staged_def by (rule server_ok_run [OF demo_server_ok]) (simp add: demo_campaign_ops_def)

theorem campaign_needs_ownership_witness:
  "get_campaign 1 None True (sv_outreach (foldl (\<lambda>s op. campaign_act demo_jinja demo_ring None op s) demo_staged
     [CO_status 9 agent_request (demo_manager 8) 1 ''CANCELLED'', CO_credentials 9 agent_request (demo_manager 8) 1 []])) = Some demo_row1"
  using campaign_needs_ownership [OF demo_staged_ok demo_staged_row, of "[CO_status 9 agent_request (demo_manager 8) 1 ''CANCELLED'',
      CO_credentials 9 agent_request (demo_manager 8) 1 []]" demo_jinja demo_ring None]
  by (simp add: foreign_def demo_manager_def demo_row1_def Let_def)

text \<open>
  The emails of a campaign are not. The endpoints for one email check that the caller owns the
  campaign of the path and then look the email up by its key alone. Whoever owns some campaign that
  is not cancelled can rewrite the subject and the body of any email of any campaign of anyone,
  whatever its status, also one that is being sent or was sent.
\<close>

theorem any_email_can_be_rewritten:
  assumes "has_all me [''campaigns.manage'']" "get_campaign own None True (sv_outreach st) = Some c"
    and "cp_owner_id c = Some (me_id me)" "cp_status c \<noteq> C_CANCELLED"
    and "py_strip subject \<noteq> []" "py_strip body \<noteq> []" "email_at (sv_outreach st) k = Some e"
  shows "\<exists>st'. update_campaign_email now rq me own k subject body st = (st', Inr ()) \<and>
    email_at (sv_outreach st') k = Some (e\<lparr>em_subject := subject, em_body := body\<rparr>)"
proof -
  have "0 < count_where (\<lambda>e. em_id e = k) (emails (sv_outreach st))"
    using email_at_SomeD [OF assms(7)] by (auto simp: count_where_pos_iff)
  then obtain db where db: "update_email k subject body (sv_outreach st) = (db, True)"
    by (simp add: update_email_def Let_def)
  have "email_at db k = Some (e\<lparr>em_subject := subject, em_body := body\<rparr>)"
    using email_at_update_email [of k subject body "sv_outreach st" k] email_at_SomeD [OF assms(7)] assms(7) by (simp add: db)
  then show ?thesis
    using assms db by (simp add: update_campaign_email_def with_permission_def on_owned_def get_owned_campaign_def
        forbid_unless_owner_def)
qed

definition demo_other :: server_db where
  "demo_other =
     (let st = fst (api_create_campaign demo_jinja 3 agent_request (demo_manager 8) (demo_create [1]) demo_staged)
      in st\<lparr>sv_outreach := mark_email_sent 4 1 (Some 1) (sv_outreach st)\<rparr>)"

theorem any_email_can_be_rewritten_witness:
  "\<exists>e st'. em_campaign_id e = 1 \<and> em_status e = E_SENT \<and> email_at (sv_outreach demo_other) 1 = Some e \<and>
     update_campaign_email 9 agent_request (demo_manager 8) 2 1 ''x'' ''y'' demo_other = (st', Inr ()) \<and>
     email_at (sv_outreach st') 1 = Some (e\<lparr>em_subject := ''x'', em_body := ''y''\<rparr>)"
proof -
  have "map_option (\<lambda>e. (em_campaign_id e, em_status e)) (email_at (sv_outreach demo_other) 1) = Some (1, E_SENT)" by code_simp
  then obtain e where e: "email_at (sv_outreach demo_other) 1 = Some e" "em_campaign_id e = 1" "em_status e = E_SENT" by auto
  have "map_option (\<lambda>c. (cp_owner_id c, cp_status c)) (get_campaign 2 None True (sv_outreach demo_other)) = Some (Some 8, C_PAUSED)" by code_simp
  then obtain c where c: "get_campaign 2 None True (sv_outreach demo_other) = Some c" "cp_owner_id c = Some 8" "cp_status c = C_PAUSED" by auto
  have strip: "py_strip ''x'' \<noteq> []" "py_strip ''y'' \<noteq> []" by code_simp+
  have me: "has_all (demo_manager 8) [''campaigns.manage'']" "cp_owner_id c = Some (me_id (demo_manager 8))" "cp_status c \<noteq> C_CANCELLED"
    using c by (simp_all add: has_all_def demo_manager_def)
  show ?thesis
    using any_email_can_be_rewritten [OF me(1) c(1) me(2,3) strip e(1), of 9 agent_request] e by (intro exI [of _ e]) blast
qed

section \<open>Dispatch requests\<close>

text \<open>
  When a dispatch is accepted. The request succeeds exactly when the caller may dispatch and owns
  the campaign (or is an administrator), the campaign has a selected draft or a queued email, is not
  running already, and its pool has a usable credential; then the campaign is RUNNING with its pause
  reason cleared, and nothing else of the outreach tables changes. The status is tested against
  RUNNING alone: a cancelled or completed campaign is dispatched again. In every other case the
  request changes nothing.
\<close>

theorem dispatch_accepted_iff:
  "let (st', r) = dispatch_campaign kr mode now rq me i st; db = sv_outreach st;
       accepted = (\<exists>c pool. has_all me [''campaigns.dispatch''] \<and> get_campaign i None True db = Some c \<and>
         (cp_owner_id c = Some (me_id me) \<or> me_is_admin me) \<and> cp_status c \<noteq> C_RUNNING \<and>
         \<not> (st_draft (get_campaign_stats i db) = 0 \<and> st_queued (get_campaign_stats i db) = 0) \<and>
         resolve_credential_pool kr now (get_campaign_credential_ids i db) db = Inr pool \<and> pool \<noteq> [])
   in (\<not> isl r \<longleftrightarrow> accepted) \<and>
      (if accepted then sv_outreach st' = fst (update_campaign_status i C_RUNNING None db) else st' = st)"
proof -
  let ?db = "sv_outreach st" let ?ids = "get_campaign_credential_ids i (sv_outreach st)"
  show ?thesis
  proof (cases "has_all me [''campaigns.dispatch'']")
    case False
    then show ?thesis by (simp add: dispatch_campaign_def with_permission_def)
  next
    case allowed: True
    show ?thesis
    proof (cases "get_owned_campaign i me ?db")
      case (Inl x)
      then show ?thesis using allowed
        by (auto simp: dispatch_campaign_def with_permission_def on_owned_def get_owned_campaign_def forbid_unless_owner_def
            split: option.splits if_splits)
    next
      case (Inr c)
      then have c: "get_campaign i None True ?db = Some c" "cp_owner_id c = Some (me_id me) \<or> me_is_admin me"
        by (auto simp: get_owned_campaign_def forbid_unless_owner_def split: option.splits if_splits)
      obtain raw where raw: "(if ?ids \<noteq> [] then get_credentials_by_ids kr now ?ids ?db else get_active_credentials kr now ?db) = raw" by blast
      then have pool: "resolve_credential_pool kr now ?ids ?db = (case raw of Inl x \<Rightarrow> Inl x | Inr cs \<Rightarrow> Inr (filter (\<lambda>c. \<not> over_daily_limit now ?db c) cs))"
        by (simp add: resolve_credential_pool_def)
      show ?thesis
        using allowed c unfolding dispatch_campaign_def with_permission_def on_owned_def Inr Let_def raw pool
        by (cases raw) (auto simp: refuse_def filter_empty_conv)
    qed
  qed
qed

end
