(* ===== verification/OutreachApi.thy ===== *)
theory OutreachApi
  imports CampaignApi Credentials AuthApi
begin

text \<open>
  The endpoints around campaigns: the blacklist (\<open>cloud/api/blacklist.py\<close>), templates
  (\<open>cloud/api/templates.py\<close>), SMTP credentials (\<open>cloud/api/credentials.py\<close>) and the OAuth
  callback (\<open>cloud/api/oauth.py\<close>). The Jinja2 parser, the SMTP dialogue and the provider's token
  endpoint are parameters.
\<close>

definition audited_str ::
  "datetime \<Rightarrow> http_request \<Rightarrow> nat option \<Rightarrow> string \<Rightarrow> string \<Rightarrow> string \<Rightarrow> (string \<times> json) list option \<Rightarrow> server_db \<Rightarrow> server_db" where
  "audited_str now rq uid action target_type target_id detail st =
     st\<lparr>sv_cloud := with_audit now (audit uid action target_type target_id detail (client_ip rq)) (sv_cloud st)\<rparr>"

section \<open>Blacklist\<close>

definition api_add_to_blacklist ::
  "datetime \<Rightarrow> http_request \<Rightarrow> current_user \<Rightarrow> string \<Rightarrow> string option \<Rightarrow> string handler" where
  "api_add_to_blacklist now rq me email_arg reason =
     with_permission ''blacklist.manage'' me (\<lambda>st.
       let email = py_lower (py_strip email_arg) in
       if CHR ''@'' \<notin> set email then refuse 400 ''Invalid email address'' st
       else
         (let dom = py_split (CHR ''@'') email ! 1 in
          case add_to_blacklist email dom reason (sv_outreach st) of
            (db1, False) \<Rightarrow> (st\<lparr>sv_outreach := db1\<rparr>, Inl (HTTPException 409 ''Email already blacklisted''))
          | (db1, True) \<Rightarrow>
              (audited_str now rq (Some (me_id me)) ''blacklist.add'' ''blacklist'' email
                 (Some [(''reason'', j_opt_str reason)]) (st\<lparr>sv_outreach := db1\<rparr>), Inr dom)))"

definition api_remove_from_blacklist :: "datetime \<Rightarrow> http_request \<Rightarrow> current_user \<Rightarrow> nat \<Rightarrow> unit handler" where
  "api_remove_from_blacklist now rq me blacklist_id =
     with_permission ''blacklist.manage'' me (\<lambda>st.
       case remove_from_blacklist blacklist_id (sv_outreach st) of
         (db1, False) \<Rightarrow> (st\<lparr>sv_outreach := db1\<rparr>, Inl (HTTPException 404 ''Blacklist entry not found''))
       | (db1, True) \<Rightarrow>
           (audited now rq me ''blacklist.remove'' ''blacklist'' blacklist_id None (st\<lparr>sv_outreach := db1\<rparr>), Inr ()))"

definition api_list_blacklist :: "nat \<Rightarrow> nat \<Rightarrow> outreach_db \<Rightarrow> blacklist_row page" where
  "api_list_blacklist pg limit db = (case list_blacklist pg limit db of (es, n) \<Rightarrow> page_of es n pg limit)"

section \<open>Templates\<close>

text \<open>\<open>parse\<close> is \<open>validate_jinja2\<close>: None when the text parses, else the error with its line.\<close>

type_synonym jinja_check = "string \<Rightarrow> string option"

fun first_syntax_error :: "jinja_check \<Rightarrow> (string \<times> string option) list \<Rightarrow> string option" where
  "first_syntax_error parse [] = None"
| "first_syntax_error parse ((field_name, v) # fs) =
     (case Option.bind v parse of
        None \<Rightarrow> first_syntax_error parse fs
      | Some err \<Rightarrow>
          if err = [] then first_syntax_error parse fs
          else Some (''Jinja2 syntax error in '' @ field_name @ '': '' @ err))"

definition api_create_template ::
  "jinja_check \<Rightarrow> datetime \<Rightarrow> http_request \<Rightarrow> current_user \<Rightarrow> string \<Rightarrow> string \<Rightarrow> string \<Rightarrow> nat handler" where
  "api_create_template parse now rq me name subject raw_body =
     with_permission ''templates.manage'' me (\<lambda>st.
       case first_syntax_error parse [(''subject'', Some subject), (''raw_body'', Some raw_body)] of
         Some err \<Rightarrow> refuse 400 err st
       | None \<Rightarrow>
           (case create_template name subject raw_body (sv_outreach st) of
              (db1, tid) \<Rightarrow> (audited now rq me ''template.create'' ''template'' tid None (st\<lparr>sv_outreach := db1\<rparr>), Inr tid)))"

definition given_fields :: "(string \<times> bool) list \<Rightarrow> string list" where
  "given_fields fs = map fst (filter snd fs)"

definition fields_detail :: "string list \<Rightarrow> (string \<times> json) list option" where
  "fields_detail fs = Some [(''fields'', JList (map JStr fs))]"

definition api_update_template ::
  "jinja_check \<Rightarrow> datetime \<Rightarrow> http_request \<Rightarrow> current_user \<Rightarrow> nat \<Rightarrow> string option \<Rightarrow> string option \<Rightarrow> string option \<Rightarrow> unit handler" where
  "api_update_template parse now rq me template_id name subject raw_body =
     with_permission ''templates.manage'' me (\<lambda>st.
       let updates = given_fields [(''name'', name \<noteq> None), (''subject'', subject \<noteq> None), (''raw_body'', raw_body \<noteq> None)] in
       if get_template template_id (sv_outreach st) = None then refuse 404 ''Template not found'' st
       else
         (case first_syntax_error parse [(''subject'', subject), (''raw_body'', raw_body)] of
            Some err \<Rightarrow> refuse 400 err st
          | None \<Rightarrow>
              if updates = [] then refuse 400 ''No fields to update'' st
              else (audited now rq me ''template.update'' ''template'' template_id (fields_detail updates)
                      (st\<lparr>sv_outreach := fst (update_template template_id name subject raw_body (sv_outreach st))\<rparr>), Inr ())))"

text \<open>A template that a campaign still refers to raises in the commit; nothing catches it.\<close>

definition api_delete_template :: "datetime \<Rightarrow> http_request \<Rightarrow> current_user \<Rightarrow> nat \<Rightarrow> unit handler" where
  "api_delete_template now rq me template_id =
     with_permission ''templates.manage'' me (\<lambda>st.
       case delete_template template_id (sv_outreach st) of
         Inl x \<Rightarrow> (st, Inl (ServerError x))
       | Inr (db1, False) \<Rightarrow> (st\<lparr>sv_outreach := db1\<rparr>, Inl (HTTPException 404 ''Template not found''))
       | Inr (db1, True) \<Rightarrow> (audited now rq me ''template.delete'' ''template'' template_id None (st\<lparr>sv_outreach := db1\<rparr>), Inr ()))"

section \<open>Credentials\<close>

record credential_create =
  ck_host :: string
  ck_port :: int
  ck_username :: string
  ck_provider :: string
  ck_password :: "string option"
  ck_daily_send_limit :: "int option"

definition password_required_for_basic :: "credential_create \<Rightarrow> bool" where
  "password_required_for_basic req = (ck_provider req = ''basic'' \<and> \<not> truthy (ck_password req))"

definition api_create_credential ::
  "key_ring \<Rightarrow> datetime \<Rightarrow> http_request \<Rightarrow> current_user \<Rightarrow> credential_create \<Rightarrow> nat handler" where
  "api_create_credential kr now rq me req =
     with_permission ''credentials.manage'' me (\<lambda>st.
       if password_required_for_basic req then refuse 422 (''password is required for provider '' @ [CHR 0x27] @ ''basic'' @ [CHR 0x27]) st
       else
         (case create_credential kr (ck_host req) (ck_port req) (ck_username req) (ck_password req) (ck_provider req)
                 (ck_daily_send_limit req) (sv_outreach st) of
            (db1, cid) \<Rightarrow>
              (audited now rq me ''credential.create'' ''credential'' cid
                 (Some [(''host'', JStr (ck_host req)), (''username'', JStr (ck_username req))]) (st\<lparr>sv_outreach := db1\<rparr>),
               Inr cid)))"

definition credential_fields :: "credential_update \<Rightarrow> string list" where
  "credential_fields u =
     given_fields [(''host'', cu_host u \<noteq> None), (''port'', cu_port u \<noteq> None), (''username'', cu_username u \<noteq> None),
       (''provider'', cu_provider u \<noteq> None), (''password'', cu_password u \<noteq> None), (''is_active'', cu_is_active u \<noteq> None),
       (''daily_send_limit'', cu_daily_send_limit u \<noteq> None)]"

definition api_update_credential ::
  "key_ring \<Rightarrow> datetime \<Rightarrow> http_request \<Rightarrow> current_user \<Rightarrow> nat \<Rightarrow> credential_update \<Rightarrow> unit handler" where
  "api_update_credential kr now rq me credential_id u =
     with_permission ''credentials.manage'' me (\<lambda>st.
       if credential_fields u = [] then refuse 400 ''No fields to update'' st
       else
         (case update_credential kr credential_id u (sv_outreach st) of
            (db1, False) \<Rightarrow> (st\<lparr>sv_outreach := db1\<rparr>, Inl (HTTPException 404 ''Credential not found''))
          | (db1, True) \<Rightarrow>
              (audited now rq me ''credential.update'' ''credential'' credential_id (fields_detail (credential_fields u))
                 (st\<lparr>sv_outreach := db1\<rparr>), Inr ())))"

definition api_delete_credential :: "datetime \<Rightarrow> http_request \<Rightarrow> current_user \<Rightarrow> nat \<Rightarrow> unit handler" where
  "api_delete_credential now rq me credential_id =
     with_permission ''credentials.manage'' me (\<lambda>st.
       case delete_credential credential_id (sv_outreach st) of
         Inl x \<Rightarrow> refuse 409 (''Credential is assigned to one or more campaigns and can'' @ [CHR 0x27] @ ''t be deleted.'') st
       | Inr (db1, False) \<Rightarrow> (st\<lparr>sv_outreach := db1\<rparr>, Inl (HTTPException 404 ''Credential not found''))
       | Inr (db1, True) \<Rightarrow> (audited now rq me ''credential.delete'' ''credential'' credential_id None (st\<lparr>sv_outreach := db1\<rparr>), Inr ()))"

text \<open>
  The connection test. \<open>connect\<close> opens the connection, \<open>login\<close> authenticates with a password or
  an access token and quits; the token is resolved, and refreshed, in between. The answer is the
  error, None on success.
\<close>

datatype smtp_outcome = Smtp_ok | Smtp_auth_error string | Smtp_other_error string

record smtp_server =
  ss_connect :: "send_credential \<Rightarrow> smtp_outcome"
  ss_login :: "send_credential \<Rightarrow> string option \<Rightarrow> smtp_outcome"

definition test_credential ::
  "key_ring \<Rightarrow> (string \<Rightarrow> string \<Rightarrow> oauth_token option) \<Rightarrow> smtp_server \<Rightarrow>
   datetime \<Rightarrow> http_request \<Rightarrow> current_user \<Rightarrow> nat \<Rightarrow> string option handler" where
  "test_credential kr renew smtp now rq me credential_id =
     with_permission ''credentials.manage'' me (\<lambda>st.
       let log = (\<lambda>outcome. audited now rq me ''credential.test'' ''credential'' credential_id (Some outcome));
           failed = (\<lambda>err msg st1.
             (log [(''success'', JBool False), (''error'', JStr err)]
                (st1\<lparr>sv_outreach := fst (update_credential kr credential_id (set_active False) (sv_outreach st1))\<rparr>), Inr (Some msg)));
           finish = (\<lambda>outcome is_active st1.
             case outcome of
               Smtp_ok \<Rightarrow>
                 (log [(''success'', JBool True)]
                    (if is_active then st1
                     else st1\<lparr>sv_outreach := fst (update_credential kr credential_id (set_active True) (sv_outreach st1))\<rparr>), Inr None)
             | Smtp_auth_error e \<Rightarrow> failed ''authentication_failed'' (''Authentication failed: '' @ e) st1
             | Smtp_other_error e \<Rightarrow> failed ''connection_failed'' (''Connection failed: '' @ e) st1)
       in case get_credential kr credential_id (sv_outreach st) of
            Inl x \<Rightarrow> (st, Inl (ServerError x))
          | Inr None \<Rightarrow> refuse 404 ''Credential not found'' st
          | Inr (Some (cred, is_active, _)) \<Rightarrow>
              if sc_provider cred \<noteq> ''basic'' \<and> \<not> truthy (sc_refresh_token cred)
              then (st, Inr (Some ''Not connected''))
              else
                (case ss_connect smtp cred of
                   Smtp_ok \<Rightarrow>
                     if sc_provider cred = ''basic'' then finish (ss_login smtp cred (sc_password cred)) is_active st
                     else
                       (case get_valid_access_token kr now renew cred (sv_outreach st) of
                          (db1, Inl e) \<Rightarrow> finish (Smtp_auth_error e) is_active (st\<lparr>sv_outreach := db1\<rparr>)
                        | (db1, Inr tok) \<Rightarrow> finish (ss_login smtp cred (Some tok)) is_active (st\<lparr>sv_outreach := db1\<rparr>))
                 | err \<Rightarrow> finish err is_active st))"

section \<open>OAuth\<close>

definition OAUTH_PROVIDERS :: "string list" where
  "OAUTH_PROVIDERS = [''microsoft'', ''google'']"

text \<open>The \<open>oauth\<close> section of the configuration: the redirect base and the client id of a provider.\<close>

record oauth_config =
  oc_redirect_base_url :: "string option"
  oc_client_id :: "string \<rightharpoonup> string"

text \<open>
  \<open>state\<close> and \<open>code_verifier\<close> are the random tokens of \<open>build_authorize_url\<close>, \<open>authorize\<close> the URL
  the client library makes of them; a provider without a client id is an \<open>OAuthTokenError\<close>.
\<close>

definition build_authorize_url ::
  "(string \<Rightarrow> string \<Rightarrow> string \<Rightarrow> string) \<Rightarrow> string \<Rightarrow> oauth_config \<Rightarrow> string \<Rightarrow> string \<Rightarrow> string + string" where
  "build_authorize_url authorize provider cfg redirect_uri state =
     (if \<not> truthy (oc_client_id cfg provider) then Inl (''oauth.'' @ provider @ ''.client_id is not configured'')
      else Inr (authorize provider redirect_uri state))"

definition strip_slashes :: "string \<Rightarrow> string" where
  "strip_slashes s = rev (dropWhile (\<lambda>c. c = CHR ''/'') (rev s))"

definition start_credential_oauth ::
  "key_ring \<Rightarrow> (string \<Rightarrow> string \<Rightarrow> string \<Rightarrow> string) \<Rightarrow> oauth_config \<Rightarrow> string \<Rightarrow> string \<Rightarrow>
   datetime \<Rightarrow> http_request \<Rightarrow> current_user \<Rightarrow> nat \<Rightarrow> string \<Rightarrow> string handler" where
  "start_credential_oauth kr authorize cfg state code_verifier now rq me credential_id provider =
     with_permission ''credentials.manage'' me (\<lambda>st.
       if provider \<notin> set OAUTH_PROVIDERS then refuse 400 (''Unknown provider: '' @ provider) st
       else
         (case get_credential kr credential_id (sv_outreach st) of
            Inl x \<Rightarrow> (st, Inl (ServerError x))
          | Inr None \<Rightarrow> refuse 404 ''Credential not found'' st
          | Inr (Some _) \<Rightarrow>
              if \<not> truthy (oc_redirect_base_url cfg) then refuse 400 ''oauth.redirect_base_url is not configured'' st
              else
                (let redirect_uri = strip_slashes (the (oc_redirect_base_url cfg)) @ ''/oauth/callback/'' @ provider in
                 case build_authorize_url authorize provider cfg redirect_uri state of
                   Inl e \<Rightarrow> refuse 400 e st
                 | Inr url \<Rightarrow>
                     (case create_oauth_flow now state credential_id provider code_verifier (sv_outreach st) of
                        Inl x \<Rightarrow> (st, Inl (ServerError x))
                      | Inr db1 \<Rightarrow>
                          (audited now rq me ''credential.oauth_start'' ''credential'' credential_id
                             (Some [(''provider'', JStr provider)]) (st\<lparr>sv_outreach := db1\<rparr>), Inr url)))))"

text \<open>
  The callback of the provider carries no session: the state in its query is the only link to a
  credential. \<open>exchange\<close> is the code exchange: provider, redirect URI, code and verifier give the
  tokens, or None when it fails. The result says whether the page reports a connection.
\<close>

record callback_query =
  cb_code :: "string option"
  cb_state :: "string option"
  cb_error_description :: "string option"
  cb_error :: "string option"

definition oauth_callback ::
  "key_ring \<Rightarrow> oauth_config \<Rightarrow> (string \<Rightarrow> string \<Rightarrow> string \<Rightarrow> string \<Rightarrow> oauth_token option) \<Rightarrow>
   datetime \<Rightarrow> http_request \<Rightarrow> string \<Rightarrow> callback_query \<Rightarrow> server_db \<Rightarrow> server_db \<times> bool" where
  "oauth_callback kr cfg exchange now rq provider q st =
     (if truthy (py_or (cb_error_description q) (cb_error q)) then (st, False)
      else if \<not> truthy (cb_code q) \<or> \<not> truthy (cb_state q) then (st, False)
      else
        (case consume_oauth_flow (the (cb_state q)) (sv_outreach st) of
           (db1, None) \<Rightarrow> (st\<lparr>sv_outreach := db1\<rparr>, False)
         | (db1, Some (credential_id, flow_provider, code_verifier)) \<Rightarrow>
             (let st1 = st\<lparr>sv_outreach := db1\<rparr>;
                  redirect_uri = strip_slashes (the_default [] (oc_redirect_base_url cfg)) @ ''/oauth/callback/'' @ provider
              in if flow_provider \<noteq> provider then (st1, False)
                 else
                   (case exchange provider redirect_uri (the (cb_code q)) code_verifier of
                      None \<Rightarrow> (st1, False)
                    | Some tokens \<Rightarrow>
                        if \<not> truthy (ot_refresh_token tokens) then (st1, False)
                        else
                          (let db2 = update_credential_tokens kr credential_id (ot_access_token tokens)
                                       (the (ot_refresh_token tokens)) (ot_expires_at tokens) db1;
                               db3 = fst (update_credential kr credential_id (set_active True) db2)
                           in (audited_str now rq None ''credential.oauth_connected'' ''credential'' (py_str_nat credential_id)
                                 (Some [(''provider'', JStr provider)]) (st\<lparr>sv_outreach := db3\<rparr>), True))))))"

end
