(* ===== verification/OutreachProps.thy ===== *)
theory OutreachProps
  imports OutreachApi CampaignProps
begin

text \<open>Properties of the blacklist and of the OAuth callback.\<close>

section \<open>Blacklist\<close>

definition mail_domain :: "string \<Rightarrow> string" where
  "mail_domain email = py_split (CHR ''@'') (py_lower email) ! 1"

lemma set_py_split: "w \<in> set (py_split d s) \<Longrightarrow> set w \<subseteq> set s"
proof (induction s arbitrary: w)
  case (Cons c s)
  obtain v vs where "py_split d s = v # vs" by (cases "py_split d s") simp_all
  with Cons.IH [of v] Cons.IH [of w] Cons.prems show ?case by (auto split: if_splits)
qed simp

lemma length_py_split: "d \<in> set s \<Longrightarrow> 1 < length (py_split d s)"
proof (induction s)
  case (Cons c s)
  show ?case
  proof (cases "c = d")
    case True
    then show ?thesis using py_split_nonempty [of d s] by (cases "py_split d s") simp_all
  next
    case False
    with Cons have "1 < length (py_split d s)" by simp
    then show ?thesis using False by (cases "py_split d s") simp_all
  qed
qed simp

lemma lower_part_of_lower:
  assumes "CHR ''@'' \<in> set (py_lower e)"
  shows "py_lower (py_split (CHR ''@'') (py_lower e) ! 1) = py_split (CHR ''@'') (py_lower e) ! 1"
proof -
  have "py_split (CHR ''@'') (py_lower e) ! 1 \<in> set (py_split (CHR ''@'') (py_lower e))"
    using length_py_split [OF assms] by simp
  from set_py_split [OF this] have "set (py_split (CHR ''@'') (py_lower e) ! 1) \<subseteq> set (py_lower e)" .
  then have "map py_lower_char (py_split (CHR ''@'') (py_lower e) ! 1) = map id (py_split (CHR ''@'') (py_lower e) ! 1)"
    by (intro map_cong refl) (auto simp: py_lower_def)
  then show ?thesis by (simp add: py_lower_def)
qed

text \<open>
  Blacklisting one address suppresses its whole domain. After the request has accepted an address,
  no production campaign and no addition to a campaign stages any lead whose address has the same
  domain, whatever the part before the \<open>@\<close>.
\<close>

theorem blacklisting_blocks_the_domain:
  assumes "api_add_to_blacklist now rq me email reason st = (st', Inr blocked)"
    and "CHR ''@'' \<in> set (py_lower (ex_email l))" "mail_domain (ex_email l) = mail_domain (py_strip email)"
  shows "blocked = mail_domain (py_strip email) \<and> \<not> stageable excl st' l \<and>
    l \<notin> set (filter (\<lambda>l. \<not> is_blacklisted (ex_email l) (get_blacklisted_emails_set (sv_outreach st')) (get_blacklisted_domains_set (sv_outreach st'))) ls)"
proof -
  let ?e = "py_lower (py_strip email)"
  obtain db1 where added: "add_to_blacklist ?e (py_split (CHR ''@'') ?e ! 1) reason (sv_outreach st) = (db1, True)"
    and st': "sv_outreach st' = db1" and blocked: "blocked = mail_domain (py_strip email)" and at: "CHR ''@'' \<in> set ?e"
    using assms(1) by (auto simp: api_add_to_blacklist_def with_permission_def refuse_def audited_str_def mail_domain_def Let_def
        split: if_splits prod.splits bool.splits)
  have "py_lower (py_split (CHR ''@'') ?e ! 1) \<in> get_blacklisted_domains_set db1"
    using added by (auto simp: add_to_blacklist_def get_blacklisted_domains_set_def insert_row_def mk_blacklist_def Let_def split: if_splits)
  then have "mail_domain (ex_email l) \<in> get_blacklisted_domains_set db1"
    unfolding assms(3) by (simp only: mail_domain_def lower_part_of_lower [OF at])
  then have "is_blacklisted (ex_email l) es (get_blacklisted_domains_set (sv_outreach st'))" for es
    using assms(2) by (simp add: st' is_blacklisted_def mail_domain_def Let_def)
  then show ?thesis using blocked by (simp add: stageable_def)
qed

definition demo_root :: current_user where
  "demo_root = (demo_manager 7)\<lparr>me_is_admin := True\<rparr>"

theorem blacklisting_blocks_the_domain_witness:
  "\<exists>st'. api_add_to_blacklist 0 agent_request demo_root ''Old@x.in'' None demo_server = (st', Inr ''x.in'') \<and>
     \<not> stageable {} st' (export_row_dict empty_crawl_db (demo_lead_row 1 ''new@x.in'' ''N''))"
proof -
  have "snd (api_add_to_blacklist 0 agent_request demo_root ''Old@x.in'' None demo_server) = Inr ''x.in''" by code_simp
  then obtain st' where r: "api_add_to_blacklist 0 agent_request demo_root ''Old@x.in'' None demo_server = (st', Inr ''x.in'')"
    by (metis prod.collapse)
  let ?l = "export_row_dict empty_crawl_db (demo_lead_row 1 ''new@x.in'' ''N'')"
  have "CHR ''@'' \<in> set (py_lower (ex_email ?l))" "mail_domain (ex_email ?l) = mail_domain (py_strip ''Old@x.in'')"
    by code_simp+
  from blacklisting_blocks_the_domain [OF r this, of "{}"] r show ?thesis by auto
qed

section \<open>OAuth callback\<close>

lemma update_where_other:
  "r \<in> set (rows (update_where p f t)) \<Longrightarrow> (\<And>r. p r \<Longrightarrow> q (f r)) \<Longrightarrow> \<not> q r \<Longrightarrow> r \<in> set (rows t)"
  by (auto simp: set_update_where split: if_splits)

lemma oauth_callback_TrueD:
  assumes "oauth_callback kr cfg exchange now rq provider q st = (st', True)"
  obtains db1 i v and tok :: oauth_token where "consume_oauth_flow (the (cb_state q)) (sv_outreach st) = (db1, Some (i, provider, v))"
    "cb_state q = Some (the (cb_state q))"
    "sv_outreach st' = fst (update_credential kr i (set_active True)
       (update_credential_tokens kr i (ot_access_token tok) (the (ot_refresh_token tok)) (ot_expires_at tok) db1))"
proof (cases "consume_oauth_flow (the (cb_state q)) (sv_outreach st)")
  case (Pair db1 r)
  have state: "cb_state q = Some (the (cb_state q))"
    using assms by (cases "cb_state q") (simp_all add: oauth_callback_def split: if_splits)
  obtain i p v where r: "r = Some (i, p, v)"
    using assms by (cases r) (auto simp: oauth_callback_def Pair split: if_splits)
  obtain tok where tok: "exchange provider (strip_slashes (the_default [] (oc_redirect_base_url cfg)) @ ''/oauth/callback/'' @ provider) (the (cb_code q)) v = Some tok"
    using assms by (cases "exchange provider (strip_slashes (the_default [] (oc_redirect_base_url cfg)) @ ''/oauth/callback/'' @ provider) (the (cb_code q)) v")
      (auto simp: oauth_callback_def Pair r Let_def split: if_splits)
  have "p = provider \<and> sv_outreach st' = fst (update_credential kr i (set_active True)
       (update_credential_tokens kr i (ot_access_token tok) (the (ot_refresh_token tok)) (ot_expires_at tok) db1))"
    using assms tok by (auto simp: oauth_callback_def Pair r Let_def audited_str_def split: if_splits)
  with Pair r state show thesis using that [of db1 i v tok] by auto
qed

text \<open>
  The public callback is bound to one pending flow. It changes a credential only when a flow is
  pending whose state is the one presented and whose provider is the one of the path; it changes
  the credential of that flow and no other, and consumes the flow: a second callback with the same
  state, whatever its code and provider, connects nothing and changes nothing.
\<close>

theorem oauth_callback_single_use:
  assumes "distinct (map of_state (rows (oauth_flows (sv_outreach st))))" "oauth_flow_keys.keys_ok (oauth_flows (sv_outreach st))"
    and "oauth_callback kr cfg exchange now rq provider q st = (st', True)"
  shows "\<exists>flow \<in> set (rows (oauth_flows (sv_outreach st))). cb_state q = Some (of_state flow) \<and> of_provider flow = provider \<and>
      {c \<in> set (rows (credentials (sv_outreach st'))). cr_id c \<noteq> of_credential_id flow} \<subseteq> set (rows (credentials (sv_outreach st))) \<and>
      (cb_state q2 = cb_state q \<longrightarrow> oauth_callback kr2 cfg2 exchange2 now2 rq2 provider2 q2 st' = (st', False))"
proof -
  obtain db1 i v and tok :: oauth_token where used: "consume_oauth_flow (the (cb_state q)) (sv_outreach st) = (db1, Some (i, provider, v))"
    and state: "cb_state q = Some (the (cb_state q))"
    and st': "sv_outreach st' = fst (update_credential kr i (set_active True)
         (update_credential_tokens kr i (ot_access_token tok) (the (ot_refresh_token tok)) (ot_expires_at tok) db1))"
    using assms(3) by (rule oauth_callback_TrueD)
  obtain flow where flow: "flow \<in> set (rows (oauth_flows (sv_outreach st)))" "of_state flow = the (cb_state q)"
      "of_provider flow = provider" "of_credential_id flow = i" and db1: "credentials db1 = credentials (sv_outreach st)"
    using used by (auto simp: consume_oauth_flow_def dest: first_where_SomeD split: option.splits)
  have flows: "oauth_flows (sv_outreach st') = oauth_flows db1"
    by (simp add: st' update_credential_def update_credential_tokens_def Let_def)
  have others: "{c \<in> set (rows (credentials (sv_outreach st'))). cr_id c \<noteq> i} \<subseteq> set (rows (credentials (sv_outreach st)))"
    by (auto simp: st' update_credential_def update_credential_tokens_def Let_def db1 [symmetric]
        dest!: update_where_other [where q = "\<lambda>c. cr_id c = i"])
  have "consume_oauth_flow (the (cb_state q)) db1 = (db1, None)"
    using oauth_state_single_use [OF assms(1,2) used] by simp
  then have "consume_oauth_flow (the (cb_state q)) (sv_outreach st') = (sv_outreach st', None)"
    by (simp add: consume_oauth_flow_def flows split: option.splits)
  then have "cb_state q2 = cb_state q \<Longrightarrow> oauth_callback kr2 cfg2 exchange2 now2 rq2 provider2 q2 st' = (st', False)"
    by (simp add: oauth_callback_def Let_def)
  then show ?thesis using flow others state by (intro bexI [OF _ flow(1)]) auto
qed

definition demo_oauth :: server_db where
  "demo_oauth =
     (let db1 = fst (create_credential demo_ring ''h'' 587 ''u'' None ''google'' None empty_outreach);
          flow = mk_oauth_flow (''st'', 1, ''google'', ''v'', 0) 1
      in demo_server\<lparr>sv_outreach := db1\<lparr>oauth_flows := \<lparr>rows = [flow], next_id = 2\<rparr>\<rparr>\<rparr>)"

definition demo_query :: callback_query where
  "demo_query = \<lparr>cb_code = Some ''c'', cb_state = Some ''st'', cb_error_description = None, cb_error = None\<rparr>"

definition demo_oauth_config :: oauth_config where
  "demo_oauth_config = \<lparr>oc_redirect_base_url = Some ''http://c/'', oc_client_id = Map.empty\<rparr>"

definition demo_exchange :: "string \<Rightarrow> string \<Rightarrow> string \<Rightarrow> string \<Rightarrow> oauth_token option" where
  "demo_exchange p r c v = Some \<lparr>ot_access_token = ''a'', ot_refresh_token = Some ''r'', ot_expires_at = None\<rparr>"

theorem oauth_callback_single_use_witness:
  "\<exists>st'. oauth_callback demo_ring demo_oauth_config demo_exchange 1 agent_request ''google'' demo_query demo_oauth = (st', True) \<and>
     oauth_callback demo_ring demo_oauth_config demo_exchange 2 agent_request ''google'' demo_query st' = (st', False)"
proof -
  have "snd (oauth_callback demo_ring demo_oauth_config demo_exchange 1 agent_request ''google'' demo_query demo_oauth)"
    by (simp add: oauth_callback_def demo_oauth_def demo_query_def demo_exchange_def consume_oauth_flow_def first_where_def
        mk_oauth_flow_def Let_def)
  then obtain st' where r: "oauth_callback demo_ring demo_oauth_config demo_exchange 1 agent_request ''google'' demo_query demo_oauth = (st', True)"
    by (metis prod.collapse)
  have ok: "distinct (map of_state (rows (oauth_flows (sv_outreach demo_oauth))))" "oauth_flow_keys.keys_ok (oauth_flows (sv_outreach demo_oauth))"
    by (simp_all add: demo_oauth_def oauth_flow_keys.keys_ok_def mk_oauth_flow_def Let_def)
  from oauth_callback_single_use [OF ok r, of demo_query demo_ring demo_oauth_config demo_exchange 2 agent_request "''google''"] r
  show ?thesis by blast
qed

end
