(* ===== verification/Contacts.thy ===== *)
theory Contacts
  imports Leads
begin

text \<open>
  Contact files (\<open>cloud/services/csv_import.py\<close>) with the parts of Python's \<open>csv\<close> and \<open>re\<close> modules
  they use: the reader and the writer of the excel dialect, \<open>DictReader\<close>, and the regular
  expression of an email address. The text is the decoded upload.
\<close>

section \<open>csv.reader\<close>

text \<open>
  The reader is the state machine of the \<open>csv\<close> module. It is fed the characters of a line with its
  newline, and \<open>Eol\<close> after each line; a line of \<open>StringIO\<close> ends at a line feed.
\<close>

definition LF :: char where "LF = CHR 0x0A"
definition CR :: char where "CR = CHR 0x0D"
definition DQ :: char where "DQ = CHR 0x22"
definition COMMA :: char where "COMMA = CHR '',''"

datatype csv_event = Chr char | Eol

fun csv_events :: "string \<Rightarrow> csv_event list" where
  "csv_events [] = []"
| "csv_events (c # s) = Chr c # (if c = LF \<or> s = [] then Eol # csv_events s else csv_events s)"

datatype csv_state = START_RECORD | START_FIELD | IN_FIELD | IN_QUOTED_FIELD | QUOTE_IN_QUOTED_FIELD | EAT_CRNL

record csv_reader =
  rd_state :: csv_state
  rd_field :: string
  rd_fields :: "string list"

definition parse_reset :: csv_reader where
  "parse_reset = \<lparr>rd_state = START_RECORD, rd_field = [], rd_fields = []\<rparr>"

definition field_limit :: int where
  "field_limit = 131072"

definition add_char :: "char \<Rightarrow> csv_state \<Rightarrow> csv_reader \<Rightarrow> py_exn + csv_reader" where
  "add_char c s r =
     (if field_limit \<le> int (length (rd_field r)) then Inl CsvError
      else Inr (r\<lparr>rd_field := rd_field r @ [c], rd_state := s\<rparr>))"

definition save_field :: "csv_state \<Rightarrow> csv_reader \<Rightarrow> csv_reader" where
  "save_field s r = r\<lparr>rd_field := [], rd_fields := rd_fields r @ [rd_field r], rd_state := s\<rparr>"

definition newline :: "csv_event \<Rightarrow> bool" where
  "newline e = (e = Chr LF \<or> e = Chr CR)"

definition after_newline :: "csv_event \<Rightarrow> csv_state" where
  "after_newline e = (if e = Eol then START_RECORD else EAT_CRNL)"

definition start_field :: "csv_event \<Rightarrow> csv_reader \<Rightarrow> py_exn + csv_reader" where
  "start_field e r =
     (if newline e \<or> e = Eol then Inr (save_field (after_newline e) r)
      else if e = Chr DQ then Inr (r\<lparr>rd_state := IN_QUOTED_FIELD\<rparr>)
      else if e = Chr COMMA then Inr (save_field START_FIELD r)
      else (case e of Chr c \<Rightarrow> add_char c IN_FIELD r | Eol \<Rightarrow> Inr r))"

definition process_char :: "csv_event \<Rightarrow> csv_reader \<Rightarrow> py_exn + csv_reader" where
  "process_char e r =
     (case rd_state r of
        START_RECORD \<Rightarrow>
          if e = Eol then Inr r
          else if newline e then Inr (r\<lparr>rd_state := EAT_CRNL\<rparr>)
          else start_field e (r\<lparr>rd_state := START_FIELD\<rparr>)
      | START_FIELD \<Rightarrow> start_field e r
      | IN_FIELD \<Rightarrow>
          if newline e \<or> e = Eol then Inr (save_field (after_newline e) r)
          else if e = Chr COMMA then Inr (save_field START_FIELD r)
          else (case e of Chr c \<Rightarrow> add_char c IN_FIELD r | Eol \<Rightarrow> Inr r)
      | IN_QUOTED_FIELD \<Rightarrow>
          if e = Chr DQ then Inr (r\<lparr>rd_state := QUOTE_IN_QUOTED_FIELD\<rparr>)
          else (case e of Chr c \<Rightarrow> add_char c IN_QUOTED_FIELD r | Eol \<Rightarrow> Inr r)
      | QUOTE_IN_QUOTED_FIELD \<Rightarrow>
          if e = Chr DQ then add_char DQ IN_QUOTED_FIELD r
          else if e = Chr COMMA then Inr (save_field START_FIELD r)
          else if newline e \<or> e = Eol then Inr (save_field (after_newline e) r)
          else (case e of Chr c \<Rightarrow> add_char c IN_FIELD r | Eol \<Rightarrow> Inr r)
      | EAT_CRNL \<Rightarrow>
          if newline e then Inr r
          else if e = Eol then Inr (r\<lparr>rd_state := START_RECORD\<rparr>)
          else Inl CsvError)"

text \<open>
  A record is complete when the machine is back at \<open>START_RECORD\<close> at the end of a line; at the end of
  the input a field in progress closes the last record.
\<close>

fun read_records :: "csv_reader \<Rightarrow> csv_event list \<Rightarrow> py_exn + string list list" where
  "read_records r [] =
     Inr (if rd_field r \<noteq> [] \<or> rd_state r = IN_QUOTED_FIELD then [rd_fields (save_field START_RECORD r)] else [])"
| "read_records r (e # es) =
     (case process_char e r of
        Inl x \<Rightarrow> Inl x
      | Inr r1 \<Rightarrow>
          if e = Eol \<and> rd_state r1 = START_RECORD
          then (case read_records parse_reset es of Inl x \<Rightarrow> Inl x | Inr rs \<Rightarrow> Inr (rd_fields r1 # rs))
          else read_records r1 es)"

definition csv_read :: "string \<Rightarrow> py_exn + string list list" where
  "csv_read t = read_records parse_reset (csv_events t)"

section \<open>csv.writer\<close>

definition needs_quotes :: "string \<Rightarrow> bool" where
  "needs_quotes f = list_ex (\<lambda>c. c \<in> {COMMA, DQ, CR, LF}) f"

definition double_quotes :: "string \<Rightarrow> string" where
  "double_quotes f = concat (map (\<lambda>c. if c = DQ then [DQ, DQ] else [c]) f)"

definition write_field :: "string \<Rightarrow> string" where
  "write_field f = (if needs_quotes f then DQ # double_quotes f @ [DQ] else f)"

definition writerow :: "string list \<Rightarrow> string" where
  "writerow fs = (if fs = [[]] then [DQ, DQ] else py_join [COMMA] (map write_field fs)) @ [CR, LF]"

definition csv_write :: "string list list \<Rightarrow> string" where
  "csv_write rs = concat (map writerow rs)"

section \<open>DictReader\<close>

text \<open>
  A row as a dictionary in insertion order: the header keys with their values, None for a key beyond
  the end of the row. The rest of a longer row is kept under a key that is no string; no lookup asks
  for it, so it is left out.
\<close>

definition dict_row :: "string list \<Rightarrow> string list \<Rightarrow> (string \<times> string option) list" where
  "dict_row fieldnames row =
     dict_of (zip fieldnames (map Some row) @ map (\<lambda>k. (k, None)) (drop (length row) fieldnames))"

definition dict_rows :: "string list list \<Rightarrow> (string \<times> string option) list list" where
  "dict_rows recs =
     (case recs of [] \<Rightarrow> [] | fieldnames # rs \<Rightarrow> map (dict_row fieldnames) (filter (\<lambda>r. r \<noteq> []) rs))"

section \<open>The contact file\<close>

definition MAX_ROWS :: int where
  "MAX_ROWS = 2000"

definition HEADER_ALIASES :: "(string \<times> string list) list" where
  "HEADER_ALIASES =
     [(''email'', [''email'', ''e-mail'', ''email address'', ''mail'']),
      (''name'', [''name'', ''full name'', ''person name'', ''person_name'', ''contact name'']),
      (''designation'', [''designation'', ''title'', ''job title'', ''role'']),
      (''department'', [''department'', ''dept'']),
      (''phone'', [''phone'', ''phone number'', ''mobile'', ''mobile number'', ''contact number''])]"

definition canonical_field :: "string \<Rightarrow> string option" where
  "canonical_field header =
     map_option fst (List.find (\<lambda>(f, aliases). py_lower (py_strip header) \<in> set aliases) HEADER_ALIASES)"

text \<open>
  The pattern of an email address: one or more characters that are neither an at sign nor white
  space, an at sign, again one or more, a dot, again one or more, and the end of the text or of its
  last line. \<open>match_plus\<close> lists the remainders a repeated class can leave, the longest match first.
\<close>

definition word_char :: "char \<Rightarrow> bool" where
  "word_char c = (c \<noteq> CHR ''@'' \<and> \<not> py_isspace c)"

fun match_plus :: "(char \<Rightarrow> bool) \<Rightarrow> string \<Rightarrow> string list" where
  "match_plus p [] = []"
| "match_plus p (c # s) = (if p c then match_plus p s @ [s] else [])"

fun match_char :: "char \<Rightarrow> string \<Rightarrow> string list" where
  "match_char d [] = []"
| "match_char d (c # s) = (if c = d then [s] else [])"

definition match_end :: "string \<Rightarrow> bool" where
  "match_end s = (s = [] \<or> s = [LF])"

definition email_re_match :: "string \<Rightarrow> bool" where
  "email_re_match s =
     list_ex match_end
       (concat (map (match_plus word_char)
         (concat (map (match_char (CHR ''.''))
           (concat (map (match_plus word_char)
             (concat (map (match_char (CHR ''@'')) (match_plus word_char s)))))))))"

text \<open>The state of the loop over the rows: the accepted rows, the skipped ones and the emails seen.\<close>

record contact_scan =
  cs_rows :: "contact_row list"
  cs_skipped :: "skipped_row list"
  cs_seen :: "string list"

definition normalized_row :: "(string \<times> string) list \<Rightarrow> (string \<times> string option) list \<Rightarrow> (string \<times> string) list" where
  "normalized_row field_map raw =
     dict_of (List.map_filter (\<lambda>(header, v).
       case map_of field_map header of
         Some canonical \<Rightarrow> if truthy v then Some (canonical, py_strip (the v)) else None
       | None \<Rightarrow> None) raw)"

definition row_limit_reason :: string where
  "row_limit_reason = ''row limit exceeded (max '' @ py_str_nat (nat MAX_ROWS) @ '' rows)''"

definition scan_row ::
  "(string \<times> string) list \<Rightarrow> contact_scan \<Rightarrow> nat \<times> (string \<times> string option) list \<Rightarrow> contact_scan" where
  "scan_row field_map st numbered =
     (let (line_no, raw) = numbered;
          skip = (\<lambda>e reason. st\<lparr>cs_skipped := cs_skipped st @ [\<lparr>sk_row = line_no, sk_email = e, sk_reason = reason\<rparr>]\<rparr>)
      in if MAX_ROWS \<le> int (length (cs_rows st))
         then skip (case map_of raw ''email'' of Some v \<Rightarrow> v | None \<Rightarrow> None) row_limit_reason
         else
           (let normalized = map_of (normalized_row field_map raw);
                email = py_lower (the_default [] (normalized ''email''))
            in if email = [] then skip None ''missing email''
               else if \<not> email_re_match email then skip (Some email) ''invalid email format''
               else if email \<in> set (cs_seen st) then skip (Some email) ''duplicate email in file''
               else st\<lparr>cs_seen := cs_seen st @ [email],
                       cs_rows := cs_rows st @
                         [\<lparr>cr_row = line_no, cr_email = email, cr_name = normalized ''name'',
                           cr_designation = normalized ''designation'', cr_department = normalized ''department'',
                           cr_phone = normalized ''phone''\<rparr>]\<rparr>))"

definition header_map :: "string list \<Rightarrow> (string \<times> string) list" where
  "header_map fieldnames = List.map_filter (\<lambda>h. map_option (\<lambda>c. (h, c)) (canonical_field h)) fieldnames"

definition parse_contacts_csv :: "string \<Rightarrow> py_exn + contact_row list \<times> skipped_row list" where
  "parse_contacts_csv t =
     (case csv_read t of
        Inl x \<Rightarrow> Inl x
      | Inr recs \<Rightarrow>
          (let field_map = header_map (case recs of [] \<Rightarrow> [] | fieldnames # _ \<Rightarrow> fieldnames);
               st = foldl (scan_row field_map) \<lparr>cs_rows = [], cs_skipped = [], cs_seen = []\<rparr>
                      (enumerate 2 (dict_rows recs))
           in Inr (cs_rows st, cs_skipped st)))"

definition TEMPLATE_HEADERS :: "string list" where
  "TEMPLATE_HEADERS = [''name'', ''email'', ''designation'', ''department'', ''phone'']"

definition TEMPLATE_SAMPLE_ROW :: "string list" where
  "TEMPLATE_SAMPLE_ROW =
     [''Jane Doe'', ''jane.doe@example.gov.in'', ''Under Secretary'', ''Ministry of Example'', ''9876543210'']"

definition build_template_csv :: string where
  "build_template_csv = csv_write [TEMPLATE_HEADERS, TEMPLATE_SAMPLE_ROW]"

end
