(* ===== verification/ContactsProps.thy ===== *)
theory ContactsProps
  imports Contacts
begin

text \<open>
  Properties of contact files: the email pattern against a reference on the split address, what a
  parsed file contains, and the round trip through the writer and the parser.
\<close>

section \<open>The email pattern\<close>

lemma set_match_plus: "r \<in> set (match_plus p s) \<longleftrightarrow> (\<exists>u. u \<noteq> [] \<and> list_all p u \<and> s = u @ r)"
proof (induction s arbitrary: r)
  case Nil
  then show ?case by simp
next
  case (Cons c s)
  have "(\<exists>u. u \<noteq> [] \<and> list_all p u \<and> c # s = u @ r) \<longleftrightarrow>
        p c \<and> (r = s \<or> (\<exists>u. u \<noteq> [] \<and> list_all p u \<and> s = u @ r))"
  proof
    assume "\<exists>u. u \<noteq> [] \<and> list_all p u \<and> c # s = u @ r"
    then obtain u where "u \<noteq> []" "list_all p u" "c # s = u @ r" by blast
    then show "p c \<and> (r = s \<or> (\<exists>u. u \<noteq> [] \<and> list_all p u \<and> s = u @ r))" by (cases u) auto
  next
    assume a: "p c \<and> (r = s \<or> (\<exists>u. u \<noteq> [] \<and> list_all p u \<and> s = u @ r))"
    then show "\<exists>u. u \<noteq> [] \<and> list_all p u \<and> c # s = u @ r"
    proof (elim conjE disjE exE)
      assume "p c" "r = s" then show ?thesis by (intro exI [of _ "[c]"]) simp
    next
      fix u assume "p c" "u \<noteq> []" "list_all p u" "s = u @ r" then show ?thesis by (intro exI [of _ "c # u"]) simp
    qed
  qed
  with Cons.IH show ?case by auto
qed

lemma set_match_char: "r \<in> set (match_char d s) \<longleftrightarrow> s = d # r"
  by (cases s) auto

lemma email_re_match_iff:
  "email_re_match s \<longleftrightarrow> (\<exists>u v w r. s = u @ CHR ''@'' # v @ CHR ''.'' # w @ r \<and> u \<noteq> [] \<and> v \<noteq> [] \<and> w \<noteq> [] \<and>
     list_all word_char u \<and> list_all word_char v \<and> list_all word_char w \<and> match_end r)"
proof -
  have "email_re_match s \<longleftrightarrow> (\<exists>a. a \<in> set (match_plus word_char s) \<and> (\<exists>b. b \<in> set (match_char (CHR ''@'') a) \<and>
      (\<exists>c. c \<in> set (match_plus word_char b) \<and> (\<exists>d. d \<in> set (match_char (CHR ''.'') c) \<and>
      (\<exists>r. r \<in> set (match_plus word_char d) \<and> match_end r)))))"
    by (simp add: email_re_match_def list_ex_iff Bex_def) blast
  then show ?thesis unfolding set_match_plus set_match_char by blast
qed

lemma py_split_none: "d \<notin> set s \<Longrightarrow> py_split d s = [s]"
  by (induction s) auto

lemma py_split_append: "d \<notin> set l \<Longrightarrow> py_split d (l @ d # r) = l # py_split d r"
  by (induction l) auto

lemma py_split_two_iff: "py_split d s = [l, r] \<longleftrightarrow> s = l @ d # r \<and> d \<notin> set l \<and> d \<notin> set r"
proof
  assume sp: "py_split d s = [l, r]"
  show "s = l @ d # r \<and> d \<notin> set l \<and> d \<notin> set r"
  proof (cases "d \<in> set s")
    case False
    then show ?thesis using sp by (simp add: py_split_none)
  next
    case True
    then obtain a b where ab: "s = a @ d # b" "d \<notin> set a" by (meson split_list_first)
    then have b: "l = a" "py_split d b = [r]" using sp by (simp_all add: py_split_append)
    have "d \<notin> set b"
    proof
      assume "d \<in> set b"
      then obtain x y where "b = x @ d # y" "d \<notin> set x" by (meson split_list_first)
      then show False using b(2) by (simp add: py_split_append)
    qed
    then show ?thesis using ab b by (simp add: py_split_none)
  qed
qed (simp add: py_split_append py_split_none)

text \<open>The reference: no white space, one at sign, something before it and a dot inside what follows.\<close>

definition email_shape :: "string \<Rightarrow> bool" where
  "email_shape s =
     (\<not> list_ex py_isspace s \<and>
      (case py_split (CHR ''@'') s of
         [local_part, host] \<Rightarrow> local_part \<noteq> [] \<and> CHR ''.'' \<in> set (butlast (tl host))
       | _ \<Rightarrow> False))"

lemma email_shape_iff:
  "email_shape s \<longleftrightarrow> (\<exists>u v w. s = u @ CHR ''@'' # v @ CHR ''.'' # w \<and> u \<noteq> [] \<and> v \<noteq> [] \<and> w \<noteq> [] \<and>
     list_all word_char u \<and> list_all word_char v \<and> list_all word_char w)"
proof
  assume sh: "email_shape s"
  then obtain l h where sp: "py_split (CHR ''@'') s = [l, h]" and l: "l \<noteq> []" "CHR ''.'' \<in> set (butlast (tl h))"
    and ns: "\<not> list_ex py_isspace s"
    by (auto simp: email_shape_def split: list.splits)
  then have s: "s = l @ CHR ''@'' # h" "CHR ''@'' \<notin> set l" "CHR ''@'' \<notin> set h" by (simp_all add: py_split_two_iff)
  obtain a b where ab: "butlast (tl h) = a @ CHR ''.'' # b" using l(2) by (meson split_list)
  then have "tl h \<noteq> []" by auto
  then have h: "h = (hd h # a) @ CHR ''.'' # (b @ [last (tl h)])"
    using ab by (metis Cons_eq_appendI append_assoc append_butlast_last_id hd_Cons_tl list.sel(2))
  show "\<exists>u v w. s = u @ CHR ''@'' # v @ CHR ''.'' # w \<and> u \<noteq> [] \<and> v \<noteq> [] \<and> w \<noteq> [] \<and>
     list_all word_char u \<and> list_all word_char v \<and> list_all word_char w"
  proof (intro exI conjI)
    show "s = l @ CHR ''@'' # (hd h # a) @ CHR ''.'' # (b @ [last (tl h)])" using s(1) h by metis
    have w: "list_all word_char l \<and> list_all word_char h"
      using s ns by (auto simp: list_all_iff list_ex_iff word_char_def)
    then have "list_all word_char ((hd h # a) @ CHR ''.'' # (b @ [last (tl h)]))" using h by metis
    then show "list_all word_char (hd h # a)" "list_all word_char (b @ [last (tl h)])" by simp_all
    show "list_all word_char l" using w by simp
  qed (use l in simp_all)
next
  assume "\<exists>u v w. s = u @ CHR ''@'' # v @ CHR ''.'' # w \<and> u \<noteq> [] \<and> v \<noteq> [] \<and> w \<noteq> [] \<and>
     list_all word_char u \<and> list_all word_char v \<and> list_all word_char w"
  then obtain u v w where s: "s = u @ CHR ''@'' # v @ CHR ''.'' # w" and ne: "u \<noteq> []" "v \<noteq> []" "w \<noteq> []"
    and wc: "list_all word_char u" "list_all word_char v" "list_all word_char w" by blast
  have "CHR ''@'' \<notin> set u" "CHR ''@'' \<notin> set (v @ CHR ''.'' # w)" using wc by (auto simp: list_all_iff word_char_def)
  then have "py_split (CHR ''@'') s = [u, v @ CHR ''.'' # w]" by (simp add: s py_split_append py_split_none)
  moreover have "CHR ''.'' \<in> set (butlast (tl (v @ CHR ''.'' # w)))" using ne by (cases v) (auto simp: butlast_append)
  moreover have "\<not> py_isspace (CHR ''@'')" "\<not> py_isspace (CHR ''.'')" by code_simp+
  then have "list_all (\<lambda>c. \<not> py_isspace c) s"
    using wc [unfolded word_char_def] by (simp only: s list_all_append list.pred_inject) (simp add: list_all_iff)
  then have "\<not> list_ex py_isspace s" by (simp add: list_ex_iff list_all_iff)
  ultimately show "email_shape s" using ne by (simp add: email_shape_def)
qed

text \<open>C18.
  The regular expression means what it is read as. An address matches exactly when it has no white
  space, exactly one at sign, something before it, and a dot strictly inside what follows; one line
  feed at the end is tolerated, since the dollar sign also matches before it.
\<close>

theorem email_pattern_equivalence:
  "email_re_match s = email_shape (if s \<noteq> [] \<and> last s = LF then butlast s else s)"
proof -
  have LF: "\<not> word_char LF" by code_simp
  have LFn: "LF \<noteq> CHR ''.''" "LF \<noteq> CHR ''@''" by (simp_all add: LF_def)
  show ?thesis
  proof (cases "s \<noteq> [] \<and> last s = LF")
    case True
    then obtain b where b: "s = b @ [LF]" by (metis append_butlast_last_id)
    have "(b @ [LF] = u @ CHR ''@'' # v @ CHR ''.'' # w @ r \<and> w \<noteq> [] \<and> list_all word_char w \<and> match_end r) \<longleftrightarrow>
          (b = u @ CHR ''@'' # v @ CHR ''.'' # w \<and> r = [LF] \<and> w \<noteq> [] \<and> list_all word_char w)" for u v w r
    proof
      assume a: "b @ [LF] = u @ CHR ''@'' # v @ CHR ''.'' # w @ r \<and> w \<noteq> [] \<and> list_all word_char w \<and> match_end r"
      have "r \<noteq> []"
      proof
        assume "r = []"
        then have "last (b @ [LF]) = last w" using a by (metis append_is_Nil_conv append_Nil2 last_ConsR last_appendR list.distinct(1))
        then show False using a LF by (metis last_in_set list_all_iff last_snoc)
      qed
      then have "r = [LF]" using a by (simp add: match_end_def)
      then show "b = u @ CHR ''@'' # v @ CHR ''.'' # w \<and> r = [LF] \<and> w \<noteq> [] \<and> list_all word_char w"
        using a by (metis (no_types, lifting) append_Cons append_assoc butlast_snoc)
    qed (simp add: match_end_def)
    then show ?thesis unfolding b email_re_match_iff by (simp add: email_shape_iff) blast
  next
    case False
    have "(s = u @ CHR ''@'' # v @ CHR ''.'' # w @ r \<and> match_end r) \<longleftrightarrow>
          (s = u @ CHR ''@'' # v @ CHR ''.'' # w \<and> r = [])" for u v w r
      using False by (auto simp: match_end_def)
    then show ?thesis using False unfolding email_re_match_iff email_shape_iff if_not_P [OF False] by (metis (no_types, lifting))
  qed
qed

section \<open>What a parsed file contains\<close>

lemma ext_enumerate: "map fst (enumerate n xs) = [n..<n + length xs]"
  by (simp add: enumerate_eq_zip)

text \<open>The invariant of the loop after the records with the given numbers.\<close>

definition scan_ok :: "nat list \<Rightarrow> contact_scan \<Rightarrow> bool" where
  "scan_ok ns st =
     (mset (map cr_row (cs_rows st) @ map sk_row (cs_skipped st)) = mset ns \<and>
      map cr_email (cs_rows st) = cs_seen st \<and> distinct (cs_seen st) \<and> int (length (cs_rows st)) \<le> MAX_ROWS \<and>
      list_all (\<lambda>r. email_re_match (cr_email r) \<and> py_lower (cr_email r) = cr_email r) (cs_rows st))"

lemma scan_row_ok: "scan_ok ns st \<Longrightarrow> scan_ok (ns @ [fst x]) (scan_row fm st x)"
  by (cases x) (auto simp: scan_ok_def scan_row_def Let_def)

lemma scan_rows_ok: "scan_ok ns st \<Longrightarrow> scan_ok (ns @ map fst xs) (foldl (scan_row fm) st xs)"
proof (induction xs arbitrary: ns st)
  case (Cons x xs)
  from Cons.IH [OF scan_row_ok [OF Cons.prems, of x fm]] show ?case by simp
qed simp

definition contact_valid :: "contact_row \<Rightarrow> bool" where
  "contact_valid r = (email_re_match (cr_email r) \<and> py_lower (cr_email r) = cr_email r)"

lemma parse_accounts:
  assumes "csv_read t = Inr recs" "parse_contacts_csv t = Inr (accepted, skipped)"
  shows "mset (map cr_row accepted @ map sk_row skipped) = mset [2..<2 + length (dict_rows recs)] \<and>
    distinct (map cr_email accepted) \<and> list_all contact_valid accepted \<and> length accepted \<le> 2000"
proof -
  define fm where "fm = header_map (case recs of [] \<Rightarrow> [] | fieldnames # _ \<Rightarrow> fieldnames)"
  define st where "st = foldl (scan_row fm) \<lparr>cs_rows = [], cs_skipped = [], cs_seen = []\<rparr> (enumerate 2 (dict_rows recs))"
  have "scan_ok [] \<lparr>cs_rows = [], cs_skipped = [], cs_seen = []\<rparr>" by (simp add: scan_ok_def MAX_ROWS_def)
  from scan_rows_ok [OF this, of "enumerate 2 (dict_rows recs)" fm] have "scan_ok [2..<2 + length (dict_rows recs)] st"
    unfolding ext_enumerate append_Nil st_def .
  moreover have "accepted = cs_rows st" "skipped = cs_skipped st"
    using assms by (simp_all add: parse_contacts_csv_def fm_def st_def Let_def)
  ultimately show ?thesis
    unfolding scan_ok_def contact_valid_def MAX_ROWS_def by simp
qed

text \<open>
  A parsed contact file accounts for every record. Each data record, numbered from 2 without the
  blank ones, is accepted or reported as skipped, once; the accepted rows have distinct addresses,
  lower case and of the pattern, and there are at most 2000 of them.
\<close>

theorem parsed_contacts_account_for_records:
  assumes "csv_read t = Inr recs" "parse_contacts_csv t = Inr (accepted, skipped)"
  shows "mset (map cr_row accepted @ map sk_row skipped) = mset [2..<2 + length (dict_rows recs)] \<and>
    distinct (map cr_email accepted) \<and> list_all contact_valid accepted \<and> length accepted \<le> 2000"
  by (rule parse_accounts [OF assms])

section \<open>The round trip of the reader and the writer\<close>

definition line_events :: "string \<Rightarrow> csv_event list" where
  "line_events s = concat (map (\<lambda>c. if c = LF then [Chr c, Eol] else [Chr c]) s)"

lemma line_events_simps [simp]:
  "line_events [] = []" "line_events (c # s) = Chr c # (if c = LF then Eol # line_events s else line_events s)"
  "line_events (s @ t) = line_events s @ line_events t"
  by (simp_all add: line_events_def)

lemma csv_events_line: "s = [] \<or> last s = LF \<Longrightarrow> csv_events s = line_events s"
  by (induction s) (auto split: if_splits)

lemma csv_chars [simp]:
  "LF \<noteq> CR" "LF \<noteq> DQ" "LF \<noteq> COMMA" "CR \<noteq> DQ" "CR \<noteq> COMMA" "DQ \<noteq> COMMA"
  "CR \<noteq> LF" "DQ \<noteq> LF" "COMMA \<noteq> LF" "DQ \<noteq> CR" "COMMA \<noteq> CR" "COMMA \<noteq> DQ"
  by (simp_all add: LF_def CR_def DQ_def COMMA_def)

abbreviation rd :: "csv_state \<Rightarrow> string \<Rightarrow> string list \<Rightarrow> csv_reader" where
  "rd s f fs \<equiv> \<lparr>rd_state = s, rd_field = f, rd_fields = fs\<rparr>"

lemmas reader_defs = process_char_def start_field_def add_char_def save_field_def newline_def after_newline_def

lemma read_unquoted:
  assumes "\<not> needs_quotes f" "int (length p + length f) \<le> field_limit"
  shows "read_records (rd IN_FIELD p fs) (line_events f @ es) = read_records (rd IN_FIELD (p @ f) fs) es"
  using assms
proof (induction f arbitrary: p)
  case (Cons c f)
  then have c: "c \<noteq> COMMA" "c \<noteq> DQ" "c \<noteq> CR" "c \<noteq> LF" "\<not> needs_quotes f" by (auto simp: needs_quotes_def)
  with Cons.IH [of "p @ [c]"] Cons.prems show ?case by (simp add: reader_defs)
qed simp

lemma read_quoted:
  assumes "int (length p + length f) \<le> field_limit"
  shows "read_records (rd IN_QUOTED_FIELD p fs) (line_events (double_quotes f) @ es) = read_records (rd IN_QUOTED_FIELD (p @ f) fs) es"
  using assms
proof (induction f arbitrary: p)
  case Nil
  then show ?case by (simp add: double_quotes_def)
next
  case (Cons c f)
  then show ?case using Cons.IH [of "p @ [c]"] by (simp add: double_quotes_def reader_defs)
qed

definition field_fits :: "string \<Rightarrow> bool" where
  "field_fits f = (int (length f) \<le> field_limit)"

text \<open>A written field up to the comma or the end of the line after it.\<close>

lemma read_field_comma:
  assumes "s = START_RECORD \<or> s = START_FIELD" "field_fits f"
  shows "read_records (rd s [] fs) (line_events (write_field f) @ Chr COMMA # es) = read_records (rd START_FIELD [] (fs @ [f])) es"
proof (cases "needs_quotes f")
  case True
  then show ?thesis using assms read_quoted [of "[]" f fs]
    by (auto simp: write_field_def reader_defs field_fits_def)
next
  case False
  show ?thesis
  proof (cases f)
    case Nil
    then show ?thesis using assms False by (auto simp: write_field_def reader_defs)
  next
    case (Cons c g)
    then have c: "c \<noteq> COMMA" "c \<noteq> DQ" "c \<noteq> CR" "c \<noteq> LF" "\<not> needs_quotes g" using False by (auto simp: needs_quotes_def)
    have lim: "int (length [c] + length g) \<le> field_limit" using assms(2) Cons by (simp add: field_fits_def)
    show ?thesis using assms False c read_unquoted [OF c(5) lim, of fs] lim
      by (auto simp: Cons write_field_def reader_defs)
  qed
qed

lemma read_field_eol:
  assumes "s = START_FIELD \<or> s = START_RECORD \<and> f \<noteq> []" "field_fits f"
  shows "read_records (rd s [] fs) (line_events (write_field f) @ Chr CR # es) = read_records (rd EAT_CRNL [] (fs @ [f])) es"
proof (cases "needs_quotes f")
  case True
  then show ?thesis using assms read_quoted [of "[]" f fs]
    by (auto simp: write_field_def reader_defs field_fits_def)
next
  case False
  show ?thesis
  proof (cases f)
    case Nil
    then show ?thesis using assms False by (auto simp: write_field_def reader_defs)
  next
    case (Cons c g)
    then have c: "c \<noteq> COMMA" "c \<noteq> DQ" "c \<noteq> CR" "c \<noteq> LF" "\<not> needs_quotes g" using False by (auto simp: needs_quotes_def)
    have lim: "int (length [c] + length g) \<le> field_limit" using assms(2) Cons by (simp add: field_fits_def)
    show ?thesis using assms False c read_unquoted [OF c(5) lim, of fs] lim
      by (auto simp: Cons write_field_def reader_defs)
  qed
qed

lemma read_fields:
  assumes "fs \<noteq> []" "list_all field_fits fs" "s = START_FIELD \<or> s = START_RECORD \<and> fs \<noteq> [[]]"
  shows "read_records (rd s [] gs) (line_events (py_join [COMMA] (map write_field fs)) @ Chr CR # es) =
         read_records (rd EAT_CRNL [] (gs @ fs)) es"
  using assms
proof (induction fs arbitrary: s gs)
  case (Cons f fs)
  show ?case
  proof (cases fs)
    case Nil
    have "read_records (rd s [] gs) (line_events (write_field f) @ Chr CR # es) = read_records (rd EAT_CRNL [] (gs @ [f])) es"
      by (rule read_field_eol) (use Cons.prems Nil in auto)
    then show ?thesis by (simp add: Nil)
  next
    case (Cons g hs)
    have "read_records (rd s [] gs) (line_events (write_field f) @ Chr COMMA # line_events (py_join [COMMA] (map write_field fs)) @ Chr CR # es) =
          read_records (rd START_FIELD [] (gs @ [f])) (line_events (py_join [COMMA] (map write_field fs)) @ Chr CR # es)"
      by (rule read_field_comma) (use Cons.prems in auto)
    also have "\<dots> = read_records (rd EAT_CRNL [] ((gs @ [f]) @ fs)) es"
      by (rule Cons.IH) (use Cons.prems \<open>fs = g # hs\<close> in auto)
    finally show ?thesis by (simp add: \<open>fs = g # hs\<close>)
  qed
qed simp

lemma read_row:
  assumes "list_all field_fits fs"
  shows "read_records parse_reset (line_events (writerow fs) @ es) =
    (case read_records parse_reset es of Inl x \<Rightarrow> Inl x | Inr rs \<Rightarrow> Inr (fs # rs))"
proof -
  have eol: "read_records (rd EAT_CRNL [] fs) (Chr LF # Eol # es) =
    (case read_records parse_reset es of Inl x \<Rightarrow> Inl x | Inr rs \<Rightarrow> Inr (fs # rs))"
    by (simp add: reader_defs split: sum.split)
  consider "fs = []" | "fs = [[]]" | "fs \<noteq> []" "fs \<noteq> [[]]" by blast
  then show ?thesis
  proof cases
    case 1
    then show ?thesis using eol by (simp add: writerow_def parse_reset_def reader_defs)
  next
    case 2
    then show ?thesis using eol by (simp add: writerow_def parse_reset_def reader_defs)
  next
    case 3
    have "read_records (rd START_RECORD [] []) (line_events (py_join [COMMA] (map write_field fs)) @ Chr CR # Chr LF # Eol # es) =
          read_records (rd EAT_CRNL [] ([] @ fs)) (Chr LF # Eol # es)"
      by (rule read_fields) (use 3 assms in auto)
    then show ?thesis using 3 eol by (simp add: writerow_def parse_reset_def)
  qed
qed

lemma csv_read_write: "list_all (list_all field_fits) rs \<Longrightarrow> csv_read (csv_write rs) = Inr rs"
proof -
  assume fits: "list_all (list_all field_fits) rs"
  have "csv_write rs = [] \<or> last (csv_write rs) = LF"
    by (induction rs) (auto simp: csv_write_def writerow_def last_append)
  then have "csv_read (csv_write rs) = read_records parse_reset (line_events (csv_write rs))"
    by (simp add: csv_read_def csv_events_line)
  also have "\<dots> = Inr rs" using fits
  proof (induction rs)
    case Nil
    then show ?case by (simp add: csv_write_def parse_reset_def)
  next
    case (Cons r rs)
    then show ?case using read_row [of r "line_events (csv_write rs)"] by (simp add: csv_write_def)
  qed
  finally show ?thesis .
qed

section \<open>The round trip of a contact file\<close>

definition contact_fields :: "contact_row \<Rightarrow> string list" where
  "contact_fields r =
     [the_default [] (cr_name r), cr_email r, the_default [] (cr_designation r), the_default [] (cr_department r),
      the_default [] (cr_phone r)]"

definition text_ok :: "string option \<Rightarrow> bool" where
  "text_ok v = (case v of None \<Rightarrow> True | Some s \<Rightarrow> s \<noteq> [] \<and> py_strip s = s)"

definition contact_ok :: "contact_row \<Rightarrow> bool" where
  "contact_ok r =
     (email_shape (cr_email r) \<and> py_lower (cr_email r) = cr_email r \<and> list_all field_fits (contact_fields r) \<and>
      list_all text_ok [cr_name r, cr_designation r, cr_department r, cr_phone r])"

lemma text_ok_simps [simp]: "text_ok None" "text_ok (Some s) \<longleftrightarrow> s \<noteq> [] \<and> py_strip s = s"
  by (simp_all add: text_ok_def)

lemma strip_no_space: "\<not> list_ex py_isspace s \<Longrightarrow> py_strip s = s"
proof -
  assume ns: "\<not> list_ex py_isspace s"
  have drop: "\<not> list_ex py_isspace t \<Longrightarrow> dropWhile py_isspace t = t" for t by (cases t) auto
  have "\<not> list_ex py_isspace (rev s)" using ns by (simp add: list_ex_iff)
  with ns show ?thesis by (simp add: py_strip_def py_strip_by_def drop)
qed

lemma email_shape_matches:
  assumes "email_shape s"
  shows "email_re_match s" "s \<noteq> []" "py_strip s = s"
proof -
  show "email_re_match s" using assms unfolding email_shape_iff email_re_match_iff match_end_def by (metis append_Nil2)
  show "s \<noteq> []" using assms by (auto simp: email_shape_def)
  show "py_strip s = s" using assms by (intro strip_no_space) (simp add: email_shape_def)
qed

lemma template_header_map:
  "header_map TEMPLATE_HEADERS =
     [(''name'', ''name''), (''email'', ''email''), (''designation'', ''designation''), (''department'', ''department''),
      (''phone'', ''phone'')]"
  by code_simp

lemma dict_row_template:
  "dict_row TEMPLATE_HEADERS [a, b, c, d, e] =
     [(''name'', Some a), (''email'', Some b), (''designation'', Some c), (''department'', Some d), (''phone'', Some e)]"
  by (simp add: dict_row_def TEMPLATE_HEADERS_def dict_of_def)

definition given :: "string \<Rightarrow> string option \<Rightarrow> (string \<times> string) list" where
  "given k v = (if truthy v then [(k, py_strip (the v))] else [])"

lemma normalized_template:
  "normalized_row (header_map TEMPLATE_HEADERS) (dict_row TEMPLATE_HEADERS [a, b, c, d, e]) =
     dict_of (given ''name'' (Some a) @ given ''email'' (Some b) @ given ''designation'' (Some c) @
              given ''department'' (Some d) @ given ''phone'' (Some e))"
  unfolding normalized_row_def dict_row_template template_header_map by (simp add: map_filter_simps given_def)

lemma text_ok_truthy: "text_ok v \<Longrightarrow> the_default [] v \<noteq> [] \<Longrightarrow> py_strip (the_default [] v) = the_default [] v"
  by (cases v) simp_all

lemma normalized_contact:
  assumes "contact_ok r"
  defines "m \<equiv> map_of (normalized_row (header_map TEMPLATE_HEADERS) (dict_row TEMPLATE_HEADERS (contact_fields r)))"
  shows "m ''email'' = Some (cr_email r)" "m ''name'' = cr_name r" "m ''designation'' = cr_designation r"
    "m ''department'' = cr_department r" "m ''phone'' = cr_phone r"
proof -
  have e: "cr_email r \<noteq> []" "py_strip (cr_email r) = cr_email r"
    using assms(1) email_shape_matches by (simp_all add: contact_ok_def)
  have t: "text_ok (cr_name r)" "text_ok (cr_designation r)" "text_ok (cr_department r)" "text_ok (cr_phone r)"
    using assms(1) by (simp_all add: contact_ok_def)
  have m: "m = map_of (given ''phone'' (Some (the_default [] (cr_phone r))) @ given ''department'' (Some (the_default [] (cr_department r))) @
      given ''designation'' (Some (the_default [] (cr_designation r))) @ given ''email'' (Some (cr_email r)) @
      given ''name'' (Some (the_default [] (cr_name r))))"
    by (simp add: m_def contact_fields_def normalized_template map_of_dict_of given_def)
  have g: "text_ok v \<Longrightarrow> map_of (given k (Some (the_default [] v))) k' = (if k' = k then v else None)" for v k k'
    by (cases v) (auto simp: given_def)
  have ge: "map_of (given k (Some (cr_email r))) k' = (if k' = k then Some (cr_email r) else None)" for k k'
    using e by (auto simp: given_def)
  show "m ''email'' = Some (cr_email r)" "m ''name'' = cr_name r" "m ''designation'' = cr_designation r"
    "m ''department'' = cr_department r" "m ''phone'' = cr_phone r"
    by (simp_all add: m map_add_def g [OF t(1)] g [OF t(2)] g [OF t(3)] g [OF t(4)] ge split: option.splits)
qed

lemma scan_contact:
  assumes "contact_ok r" "cr_email r \<notin> set (cs_seen st)" "int (length (cs_rows st)) < MAX_ROWS"
  shows "scan_row (header_map TEMPLATE_HEADERS) st (cr_row r, dict_row TEMPLATE_HEADERS (contact_fields r)) =
    st\<lparr>cs_seen := cs_seen st @ [cr_email r], cs_rows := cs_rows st @ [r]\<rparr>"
  using assms email_shape_matches [of "cr_email r"]
  by (simp add: scan_row_def Let_def normalized_contact [OF assms(1)] contact_ok_def)

lemma scan_contacts:
  assumes "list_all contact_ok rs" "distinct (cs_seen st @ map cr_email rs)" "int (length (cs_rows st) + length rs) \<le> MAX_ROWS"
  shows "foldl (scan_row (header_map TEMPLATE_HEADERS)) st
      (map (\<lambda>r. (cr_row r, dict_row TEMPLATE_HEADERS (contact_fields r))) rs) =
    st\<lparr>cs_seen := cs_seen st @ map cr_email rs, cs_rows := cs_rows st @ rs\<rparr>"
  using assms
proof (induction rs arbitrary: st)
  case (Cons r rs)
  then have "scan_row (header_map TEMPLATE_HEADERS) st (cr_row r, dict_row TEMPLATE_HEADERS (contact_fields r)) =
    st\<lparr>cs_seen := cs_seen st @ [cr_email r], cs_rows := cs_rows st @ [r]\<rparr>" by (intro scan_contact) auto
  with Cons.IH [of "st\<lparr>cs_seen := cs_seen st @ [cr_email r], cs_rows := cs_rows st @ [r]\<rparr>"] Cons.prems show ?case by simp
qed simp

text \<open>C11.
  A contact file written with the headers of the template is read back as it was. For at most 2000
  valid contacts with distinct addresses, numbered from 2, whose texts are stripped and not empty,
  whatever commas, quotes and line breaks they contain, the parser returns exactly these contacts
  and skips none.
\<close>

theorem contact_file_roundtrip:
  assumes "list_all contact_ok cs" "distinct (map cr_email cs)" "length cs \<le> 2000" "map cr_row cs = [2..<2 + length cs]"
  shows "parse_contacts_csv (csv_write (TEMPLATE_HEADERS # map contact_fields cs)) = Inr (cs, [])"
proof -
  let ?d = "\<lambda>r. dict_row TEMPLATE_HEADERS (contact_fields r)"
  have "list_all (list_all field_fits) (TEMPLATE_HEADERS # map contact_fields cs)"
  proof -
    have "list_all field_fits TEMPLATE_HEADERS" by (simp add: TEMPLATE_HEADERS_def field_fits_def field_limit_def)
    with assms(1) show ?thesis by (auto simp: list_all_iff contact_ok_def)
  qed
  then have read: "csv_read (csv_write (TEMPLATE_HEADERS # map contact_fields cs)) = Inr (TEMPLATE_HEADERS # map contact_fields cs)"
    by (rule csv_read_write)
  have "enumerate 2 (map ?d cs) = zip (map cr_row cs) (map ?d cs)"
    by (simp only: enumerate_eq_zip assms(4) length_map)
  also have "\<dots> = map (\<lambda>r. (cr_row r, ?d r)) cs" by (simp add: zip_map_map zip_same_conv_map)
  finally have "enumerate 2 (map ?d cs) = map (\<lambda>r. (cr_row r, ?d r)) cs" .
  moreover have "dict_rows (TEMPLATE_HEADERS # map contact_fields cs) = map ?d cs"
    by (simp add: dict_rows_def comp_def contact_fields_def)
  ultimately show ?thesis
    using scan_contacts [OF assms(1), of "\<lparr>cs_rows = [], cs_skipped = [], cs_seen = []\<rparr>"] assms(2,3)
    by (simp add: parse_contacts_csv_def read Let_def MAX_ROWS_def)
qed

definition demo_contacts :: "contact_row list" where
  "demo_contacts =
     [\<lparr>cr_row = 2, cr_email = ''a@x.in'', cr_name = Some ''Doe, Jane'', cr_designation = None, cr_department = Some [CHR ''A'', LF, DQ, CHR ''B''],
       cr_phone = None\<rparr>,
      \<lparr>cr_row = 3, cr_email = ''b@y.in'', cr_name = None, cr_designation = Some ''IT'', cr_department = None, cr_phone = Some ''1''\<rparr>]"

theorem contact_file_roundtrip_witness:
  "parse_contacts_csv (csv_write (TEMPLATE_HEADERS # map contact_fields demo_contacts)) = Inr (demo_contacts, [])"
proof (rule contact_file_roundtrip)
  show "list_all contact_ok demo_contacts" by code_simp
  show "distinct (map cr_email demo_contacts)" by (simp add: demo_contacts_def)
qed (simp_all add: demo_contacts_def upt_rec)

theorem parsed_contacts_account_for_records_witness:
  "\<exists>recs (accepted :: contact_row list) (skipped :: skipped_row list). csv_read (''Mail,title'' @ [LF] @ ''a@x.in, IT'' @ [LF] @ ''A@x.in'' @ [LF, LF]) = Inr recs \<and>
     mset (map cr_row accepted @ map sk_row skipped) = mset [2..<2 + length (dict_rows recs)] \<and>
     length accepted = 1 \<and> length skipped = 1"
proof -
  let ?t = "''Mail,title'' @ [LF] @ ''a@x.in, IT'' @ [LF] @ ''A@x.in'' @ [LF, LF]"
  have r: "csv_read ?t = Inr [[''Mail'', ''title''], [''a@x.in'', '' IT''], [''A@x.in''], []]" by code_simp
  have p: "parse_contacts_csv ?t =
      Inr ([\<lparr>cr_row = 2, cr_email = ''a@x.in'', cr_name = None, cr_designation = Some ''IT'', cr_department = None, cr_phone = None\<rparr>],
           [\<lparr>sk_row = 3, sk_email = Some ''a@x.in'', sk_reason = ''duplicate email in file''\<rparr>])" by code_simp
  from parsed_contacts_account_for_records [OF r p, THEN conjunct1] r show ?thesis
    by (intro exI conjI) (assumption | simp only: list.size add_0_left One_nat_def)+
qed

end
