(* ===== verification/LeadApi.thy ===== *)
theory LeadApi
  imports CampaignApi OutreachApi Contacts
begin

text \<open>
  The lead endpoints (\<open>cloud/api/leads.py\<close>): filtered reads, the CSV export as a stream of chunks,
  the CSV import into the shared upload job, and edits; and the CSV upload of test recipients
  (\<open>parse_campaign_csv\<close> of \<open>cloud/api/campaigns.py\<close>).
\<close>

section \<open>Reads\<close>

definition api_get_leads ::
  "lead_filter \<Rightarrow> string option \<Rightarrow> string \<Rightarrow> nat \<Rightarrow> nat \<Rightarrow> server_db \<Rightarrow> lead_view page" where
  "api_get_leads f sort_by sort_dir pg limit st =
     (case get_leads f pg limit sort_by sort_dir (cd_crawl (sv_cloud st)) of (ls, n) \<Rightarrow> page_of ls n pg limit)"

definition api_get_lead_ids :: "lead_filter \<Rightarrow> server_db \<Rightarrow> nat list \<times> nat" where
  "api_get_lead_ids f st = (let ids = get_lead_ids f (cd_crawl (sv_cloud st)) in (ids, length ids))"

section \<open>Export\<close>

definition ALL_EXPORT_FIELDS :: "string list" where
  "ALL_EXPORT_FIELDS =
     [''email'', ''person_name'', ''designation'', ''department'', ''phone'', ''domain_title'', ''domain_state'',
      ''domain_org_type'', ''category_title'', ''source_url'', ''source_title'', ''context_snippet'', ''lead_score'',
      ''depth'', ''captured_at'']"

text \<open>The export dictionary as text, as the writer shows it; \<open>isofmt\<close> is \<open>isoformat\<close>.\<close>

definition export_cells :: "(datetime \<Rightarrow> string) \<Rightarrow> export_row \<Rightarrow> (string \<times> string) list" where
  "export_cells isofmt r =
     [(''email'', ex_email r), (''person_name'', ex_person_name r), (''designation'', ex_designation r),
      (''department'', ex_department r), (''domain_title'', ex_domain_title r), (''domain_state'', ex_domain_state r),
      (''domain_org_type'', ex_domain_org_type r), (''category_title'', ex_category_title r),
      (''source_url'', ex_source_url r), (''source_title'', ex_source_title r),
      (''context_snippet'', ex_context_snippet r), (''confidence_band'', ex_confidence_band r),
      (''field_provenance'', ex_field_provenance r), (''phone'', ex_phone r),
      (''lead_score'', py_str_int (ex_lead_score r)), (''depth'', py_str_int (ex_depth r)),
      (''captured_at'', isofmt (ex_captured_at r))]"

record export_request =
  er_filter :: lead_filter
  er_lead_ids :: "nat list"
  er_wanted :: "string list"

text \<open>The requested columns in their canonical order, the email always among them; all when none is named.\<close>

definition export_fieldnames :: "string list \<Rightarrow> string list" where
  "export_fieldnames wanted =
     (if wanted \<noteq> [] then filter (\<lambda>f. f \<in> set wanted \<union> {''email''}) ALL_EXPORT_FIELDS else ALL_EXPORT_FIELDS)"

definition dict_cells :: "string list \<Rightarrow> (string \<times> string) list \<Rightarrow> string list" where
  "dict_cells fieldnames d = map (\<lambda>f. the_default [] (map_of d f)) fieldnames"

text \<open>One chunk for each lead, the header in front of the first.\<close>

definition export_chunks :: "(datetime \<Rightarrow> string) \<Rightarrow> string list \<Rightarrow> export_row list \<Rightarrow> string list" where
  "export_chunks isofmt fieldnames rs =
     (case map (\<lambda>r. writerow (dict_cells fieldnames (export_cells isofmt r))) rs of
        [] \<Rightarrow> []
      | c # cs \<Rightarrow> (writerow fieldnames @ c) # cs)"

definition audited_plain ::
  "datetime \<Rightarrow> http_request \<Rightarrow> current_user \<Rightarrow> string \<Rightarrow> (string \<times> json) list \<Rightarrow> server_db \<Rightarrow> server_db" where
  "audited_plain now rq me action detail st =
     st\<lparr>sv_cloud := with_audit now
        \<lparr>ae_user_id = Some (me_id me), ae_action = action, ae_target_type = None, ae_target_id = None,
         ae_detail = Some detail, ae_ip = client_ip rq\<rparr> (sv_cloud st)\<rparr>"

text \<open>
  The answer is a stream: \<open>taken\<close> is how often the client asks for a chunk before it disconnects. The
  audit row is written when it asks once more after the last chunk.
\<close>

definition export_leads ::
  "(datetime \<Rightarrow> string) \<Rightarrow> datetime \<Rightarrow> http_request \<Rightarrow> current_user \<Rightarrow> export_request \<Rightarrow> nat \<Rightarrow> string list handler" where
  "export_leads isofmt now rq me req taken =
     with_permission ''leads.export'' me (\<lambda>st.
       let rs = get_all_leads_for_export (er_filter req) (er_lead_ids req) (cd_crawl (sv_cloud st)) in
       if rs = [] then refuse 404 ''No leads for this job'' st
       else
         (let chunks = export_chunks isofmt (export_fieldnames (er_wanted req)) rs in
          (if length chunks < taken
           then audited_plain now rq me ''lead.export'' [(''count'', JInt (int (length rs)))] st else st,
           Inr (take taken chunks))))"

section \<open>Import\<close>

text \<open>\<open>race\<close> is what other transactions do between the check and the insert of a row.\<close>

definition import_leads_csv ::
  "(crawl_db \<Rightarrow> crawl_db) \<Rightarrow> datetime \<Rightarrow> http_request \<Rightarrow> current_user \<Rightarrow> string \<Rightarrow> upsert_result handler" where
  "import_leads_csv race now rq me content =
     with_permission ''leads.import'' me (\<lambda>st.
       case parse_contacts_csv content of
         Inl x \<Rightarrow> (st, Inl (ServerError x))
       | Inr (accepted, skipped) \<Rightarrow>
           if accepted = [] \<and> skipped = [] then refuse 400 ''CSV file is empty'' st
           else
             (let (c1, job_id) = get_or_create_manual_upload_job now (cd_crawl (sv_cloud st));
                  (c2, res) = bulk_upsert_manual_leads race job_id accepted (Some (me_id me)) now c1
              in (audited_plain now rq me ''lead.import_csv''
                    [(''imported'', JInt (int (ur_imported res))), (''updated'', JInt (int (ur_updated res)))]
                    (st\<lparr>sv_cloud := (sv_cloud st)\<lparr>cd_crawl := c2\<rparr>\<rparr>),
                  Inr (res\<lparr>ur_skipped := skipped @ ur_skipped res\<rparr>))))"

definition parse_campaign_csv :: "string \<Rightarrow> http_exn + dummy_details list \<times> skipped_row list" where
  "parse_campaign_csv content =
     (case parse_contacts_csv content of
        Inl x \<Rightarrow> Inl (ServerError x)
      | Inr (accepted, skipped) \<Rightarrow>
          (let blank = (\<lambda>v. Some (the_default [] v)) in
           Inr (map (\<lambda>r. \<lparr>dd_name = blank (cr_name r), dd_designation = blank (cr_designation r), dd_email = cr_email r,
                           dd_department = blank (cr_department r)\<rparr>) accepted, skipped)))"

section \<open>Edits\<close>

definition api_update_lead ::
  "(crawl_db \<Rightarrow> crawl_db) \<Rightarrow> datetime \<Rightarrow> http_request \<Rightarrow> current_user \<Rightarrow> nat \<Rightarrow> (string \<times> string) list \<Rightarrow> unit handler" where
  "api_update_lead race now rq me lead_id updates =
     with_permission ''leads.edit'' me (\<lambda>st.
       if updates = [] then refuse 400 ''No fields to update'' st
       else
         (case update_lead race lead_id updates (cd_crawl (sv_cloud st)) of
            (c, Not_manual) \<Rightarrow>
              refuse 400 (''State is derived from the crawl for this lead and can'' @ [CHR 0x27] @ ''t be edited'') st
          | (c, No_such_lead) \<Rightarrow> refuse 404 ''Lead not found'' st
          | (c, Updated) \<Rightarrow>
              (audited now rq me ''lead.update'' ''lead'' lead_id (Some (map (\<lambda>(k, v). (k, JStr v)) updates))
                 (st\<lparr>sv_cloud := (sv_cloud st)\<lparr>cd_crawl := c\<rparr>\<rparr>), Inr ())))"

end
