(* ===== verification/LeadProps.thy ===== *)
theory LeadProps
  imports LeadApi ContactsProps LeadPool CampaignProps
begin

text \<open>
  Properties of the lead endpoints: what an import may change and how it accounts for its records,
  and what a reader gets from an exported file.
\<close>

section \<open>Imports\<close>

definition crawled :: "crawl_db \<Rightarrow> lead list" where
  "crawled db = filter (\<lambda>l. \<not> is_manual l) (rows (leads db))"

definition leads_keyed :: "crawl_db \<Rightarrow> bool" where
  "leads_keyed db = lead_keys.keys_ok (leads db)"

text \<open>Another transaction that keeps the crawled leads and the keys.\<close>

definition spares_crawled :: "(crawl_db \<Rightarrow> crawl_db) \<Rightarrow> bool" where
  "spares_crawled race = (\<forall>db. leads_keyed db \<longrightarrow> leads_keyed (race db) \<and> set (crawled db) \<subseteq> set (crawled (race db)))"

definition outcomes :: "upsert_result \<Rightarrow> nat" where
  "outcomes res = ur_imported res + ur_updated res + length (ur_skipped res)"

lemma leads_keyed_frame: "leads db' = leads db \<Longrightarrow> leads_keyed db' = leads_keyed db" "leads db' = leads db \<Longrightarrow> crawled db' = crawled db"
  by (simp_all add: leads_keyed_def crawled_def)

lemma record_occurrence_frames [simp]:
  "leads_keyed (record_occurrence i j u c now db) = leads_keyed db" "crawled (record_occurrence i j u c now db) = crawled db"
  by (simp_all add: leads_keyed_frame [OF record_occurrence_frame(1)])

lemma manual_update_sel [simp]: "ld_id (manual_update w r l) = ld_id l" "is_manual (manual_update w r l) = is_manual l"
  by (simp_all add: manual_update_def is_manual_def)

lemma store_manual:
  assumes "leads_keyed db" "spares_crawled race" "l \<in> set (rows (leads db))" "is_manual l"
  shows "leads_keyed (store_lead race l new db)"
    "set (crawled db) \<subseteq> set (crawled (store_lead race l new db))"
proof -
  have race: "leads_keyed (race db)" "set (crawled db) \<subseteq> set (crawled (race db))"
    using assms(1,2) by (auto simp: spares_crawled_def)
  show "leads_keyed (store_lead race l new db)"
    using lead_keys.keys_ok_update [of "leads (race db)" "write_columns l new"] race(1)
    by (simp add: leads_keyed_def store_lead_def update_leads_def)
  have other: "ld_id x \<noteq> ld_id l" if "x \<in> set (crawled db)" for x
    using that assms(1,3,4) lead_keys.keys_ok_unique [of "leads db" x l] by (auto simp: crawled_def leads_keyed_def)
  show "set (crawled db) \<subseteq> set (crawled (store_lead race l new db))"
  proof
    fix x
    assume x: "x \<in> set (crawled db)"
    then have "x \<in> set (rows (leads (race db)))" "\<not> is_manual x" using race(2) by (auto simp: crawled_def)
    then show "x \<in> set (crawled (store_lead race l new db))"
      using other [OF x] by (force simp: crawled_def store_lead_def)
  qed
qed

lemma insert_manual:
  assumes "leads_keyed db" "insert_row (mk_manual_lead w a) (leads db) = (t, i)"
  shows "leads_keyed (db\<lparr>leads := t\<rparr>)" "crawled (db\<lparr>leads := t\<rparr>) = crawled db"
proof -
  have m: "is_manual (mk_manual_lead w a k)" for k
    by (cases a) (simp add: mk_manual_lead_def is_manual_def)
  show "leads_keyed (db\<lparr>leads := t\<rparr>)"
    using manual_lead_keys.keys_ok_insert [of "leads db" w a] assms by (simp add: leads_keyed_def)
  show "crawled (db\<lparr>leads := t\<rparr>) = crawled db"
    using assms(2) m by (auto simp: crawled_def insert_row_def)
qed

lemma upsert_row_spares:
  assumes "leads_keyed db" "spares_crawled race" "upsert_manual_row race j c now (db, res) r = (db', res')"
  shows "leads_keyed db' \<and> set (crawled db) \<subseteq> set (crawled db') \<and> outcomes res' = Suc (outcomes res)"
proof (cases "find_lead_by_email (cr_email r) db")
  case (Some l)
  then have l: "l \<in> set (rows (leads db))" using first_where_SomeD [of _ "leads db" l] by (simp add: find_lead_by_email_def)
  show ?thesis
  proof (cases "is_manual l")
    case True
    then show ?thesis using assms(3) Some store_manual(1) [OF assms(1,2) l True] store_manual(2) [OF assms(1,2) l True, THEN subsetD]
      by (auto simp: upsert_manual_row_def Let_def outcomes_def)
  next
    case False
    then show ?thesis using assms(1,3) Some by (auto simp: upsert_manual_row_def Let_def outcomes_def)
  qed
next
  case None
  have race: "leads_keyed (race db)" "set (crawled db) \<subseteq> set (crawled (race db))"
    using assms(1,2) by (auto simp: spares_crawled_def)
  obtain t i where ins: "insert_row (mk_manual_lead (lead_score_weights db) (j, r, now)) (leads (race db)) = (t, i)" by fastforce
  show ?thesis
    using assms(3) None race insert_manual [OF race(1) ins] ins
    by (auto simp: upsert_manual_row_def Let_def outcomes_def split: if_splits)
qed

lemma upsert_rows_spare:
  assumes "leads_keyed (fst st)" "spares_crawled race"
  shows "leads_keyed (fst (foldl (upsert_manual_row race j c now) st rs)) \<and>
    set (crawled (fst st)) \<subseteq> set (crawled (fst (foldl (upsert_manual_row race j c now) st rs))) \<and>
    outcomes (snd (foldl (upsert_manual_row race j c now) st rs)) = outcomes (snd st) + length rs"
  using assms(1)
proof (induction rs arbitrary: st)
  case (Cons r rs)
  obtain db res where st: "st = (db, res)" by (cases st)
  obtain db1 res1 where s: "upsert_manual_row race j c now (db, res) r = (db1, res1)" by fastforce
  have k: "leads_keyed db" using Cons.prems st by simp
  note step = upsert_row_spares [OF k assms(2) s]
  then have "leads_keyed (fst (db1, res1))" by simp
  from Cons.IH [OF this] step show ?case by (auto simp: st s)
qed simp

text \<open>
  An import never touches a crawled lead and accounts for every record. Whatever file is imported,
  every lead that came from a crawl is afterwards in the pool exactly as it was; and each data record
  of the file is counted once, as imported, updated or skipped. This holds under every interfering
  transaction that itself keeps the crawled leads.
\<close>

theorem import_spares_crawled_leads:
  assumes "leads_keyed (cd_crawl (sv_cloud st))" "spares_crawled race" "csv_read content = Inr recs"
    and "import_leads_csv race now rq me content st = (st', Inr res)"
  shows "set (crawled (cd_crawl (sv_cloud st))) \<subseteq> set (crawled (cd_crawl (sv_cloud st'))) \<and>
    outcomes res = length (dict_rows recs)"
proof -
  let ?c = "cd_crawl (sv_cloud st)"
  obtain accepted skipped where p: "parse_contacts_csv content = Inr (accepted, skipped)"
    using assms(4) by (cases "parse_contacts_csv content") (auto simp: import_leads_csv_def with_permission_def split: if_splits)
  obtain c1 j where j: "get_or_create_manual_upload_job now ?c = (c1, j)" by fastforce
  obtain c2 res2 where u: "bulk_upsert_manual_leads race j accepted (Some (me_id me)) now c1 = (c2, res2)" by fastforce
  have perm: "has_all me [''leads.import'']"
    using assms(4) by (cases "has_all me [''leads.import'']") (simp_all add: import_leads_csv_def with_permission_def)
  have some: "accepted = [] \<and> skipped = [] \<longleftrightarrow> False"
    using assms(4) perm by (cases "accepted = [] \<and> skipped = []") (simp_all add: import_leads_csv_def with_permission_def p refuse_def)
  note eq = assms(4) [unfolded import_leads_csv_def with_permission_def p if_P [OF perm] sum.case prod.case some if_False j u Let_def]
  have st': "cd_crawl (sv_cloud st') = c2" "res = res2\<lparr>ur_skipped := skipped @ ur_skipped res2\<rparr>"
    using arg_cong [OF eq, of "\<lambda>(s, r). cd_crawl (sv_cloud s)"] arg_cong [OF eq, of snd]
    by (simp_all add: audited_plain_def with_audit_def)
  have "leads c1 = leads ?c"
    using j by (auto simp: get_or_create_manual_upload_job_def insert_row_def split: option.splits)
  then have "leads_keyed c1" "crawled c1 = crawled ?c" using assms(1) leads_keyed_frame [of c1 ?c] by simp_all
  moreover have "length accepted + length skipped = length (dict_rows recs)"
  proof -
    have "size (mset (map cr_row accepted @ map sk_row skipped)) = size (mset [2..<2 + length (dict_rows recs)])"
      using parse_accounts [OF assms(3) p] by (simp only:)
    then show ?thesis by (simp only: size_mset length_append length_map length_upt)
  qed
  ultimately show ?thesis
    using upsert_rows_spare [of "(c1, \<lparr>ur_imported = 0, ur_updated = 0, ur_skipped = []\<rparr>)" race j "Some (me_id me)" now accepted]
      assms(2) u by (auto simp: st' bulk_upsert_manual_leads_def outcomes_def)
qed

section \<open>Exports\<close>

lemma concat_export_chunks:
  assumes "rs \<noteq> []"
  shows "concat (export_chunks isofmt fns rs) = csv_write (fns # map (\<lambda>r. dict_cells fns (export_cells isofmt r)) rs)"
  using assms by (cases rs) (simp_all add: export_chunks_def csv_write_def comp_def)

lemma length_export_chunks [simp]: "length (export_chunks isofmt fns rs) = length rs"
  by (cases rs) (simp_all add: export_chunks_def)

lemma export_fieldnames_fit: "list_all field_fits (export_fieldnames wanted)"
proof -
  have "list_all field_fits ALL_EXPORT_FIELDS" by (simp add: ALL_EXPORT_FIELDS_def field_fits_def field_limit_def)
  then show ?thesis by (auto simp: export_fieldnames_def list_all_iff)
qed

lemma email_exported: "''email'' \<in> set (export_fieldnames wanted)"
  by (simp add: export_fieldnames_def ALL_EXPORT_FIELDS_def)

definition cells_fit :: "(datetime \<Rightarrow> string) \<Rightarrow> string list \<Rightarrow> export_row \<Rightarrow> bool" where
  "cells_fit isofmt fns r = list_all field_fits (dict_cells fns (export_cells isofmt r))"

text \<open>
  What a reader gets from an export. When the client has read the whole stream, the chunks put
  together read back as the header and one record for every lead of the query, in its order, with the
  texts of its cells whatever quotes, commas and line breaks they contain; the email column is
  there in every selection of fields; and one audit row is written.
\<close>

theorem export_reads_back:
  assumes "export_leads isofmt now rq me req taken st = (st', Inr chunks)"
  defines "rs \<equiv> get_all_leads_for_export (er_filter req) (er_lead_ids req) (cd_crawl (sv_cloud st))"
    and "fns \<equiv> export_fieldnames (er_wanted req)"
  assumes "list_all (cells_fit isofmt fns) rs" "length rs < taken"
  shows "csv_read (concat chunks) = Inr (fns # map (\<lambda>r. dict_cells fns (export_cells isofmt r)) rs) \<and>
    ''email'' \<in> set fns \<and>
    map ad_action (rows (audit_log (cd_auth (sv_cloud st')))) = map ad_action (rows (audit_log (cd_auth (sv_cloud st)))) @ [''lead.export'']"
proof -
  have perm: "has_all me [''leads.export'']"
    using assms(1) by (cases "has_all me [''leads.export'']") (simp_all add: export_leads_def with_permission_def)
  have ne: "rs \<noteq> []"
    using assms(1) perm by (cases "rs = []") (simp_all add: export_leads_def with_permission_def refuse_def Let_def rs_def)
  have eq: "(audited_plain now rq me ''lead.export'' [(''count'', JInt (int (length rs)))] st, Inr (export_chunks isofmt fns rs)) = (st', Inr chunks)"
    using assms(1) perm ne assms(5) by (simp add: export_leads_def with_permission_def Let_def flip: rs_def fns_def)
  then have chunks: "chunks = export_chunks isofmt fns rs" by simp
  have fit: "list_all (list_all field_fits) (fns # map (\<lambda>r. dict_cells fns (export_cells isofmt r)) rs)"
    using assms(4) export_fieldnames_fit by (simp add: fns_def list_all_iff cells_fit_def)
  have "csv_read (concat chunks) = Inr (fns # map (\<lambda>r. dict_cells fns (export_cells isofmt r)) rs)"
    unfolding chunks concat_export_chunks [OF ne] by (rule csv_read_write [OF fit])
  moreover have "map ad_action (rows (audit_log (cd_auth (sv_cloud st')))) = map ad_action (rows (audit_log (cd_auth (sv_cloud st)))) @ [''lead.export'']"
    using arg_cong [OF eq, of "\<lambda>(s, r). map ad_action (rows (audit_log (cd_auth (sv_cloud s))))"]
    by (simp add: audited_plain_def with_audit_def write_audit_def table_simps mk_audit_def)
  ultimately show ?thesis using email_exported by (simp add: fns_def)
qed

section \<open>Witnesses\<close>

definition demo_clerk :: current_user where
  "demo_clerk = \<lparr>me_id = 5, me_email = ''c@x.in'', me_is_admin = False, me_permissions = {''leads.export'', ''leads.import''}\<rparr>"

definition demo_export :: export_request where
  "demo_export = \<lparr>er_filter = export_all, er_lead_ids = [1, 2], er_wanted = [''person_name'']\<rparr>"

theorem export_reads_back_witness:
  "\<exists>st' chunks. export_leads (\<lambda>_. []) 9 agent_request demo_clerk demo_export 3 demo_server = (st', Inr chunks) \<and>
     csv_read (concat chunks) = Inr [[''email'', ''person_name''], [''a@x.in'', ''Asha''], [''b@x.in'', '''']]"
proof -
  let ?e = "export_leads (\<lambda>_. []) 9 agent_request demo_clerk demo_export 3 demo_server"
  obtain st' r where e: "?e = (st', r)" by fastforce
  have "\<not> isl (snd ?e)" by code_simp
  then obtain chunks where chunks: "?e = (st', Inr chunks)" using e by (cases r) auto
  let ?rs = "get_all_leads_for_export (er_filter demo_export) (er_lead_ids demo_export) (cd_crawl (sv_cloud demo_server))"
  have fit: "list_all (cells_fit (\<lambda>_. []) (export_fieldnames (er_wanted demo_export))) ?rs" by code_simp
  have n: "length ?rs < 3" by code_simp
  have cells: "export_fieldnames (er_wanted demo_export) #
      map (\<lambda>r. dict_cells (export_fieldnames (er_wanted demo_export)) (export_cells (\<lambda>_. []) r)) ?rs =
      [[''email'', ''person_name''], [''a@x.in'', ''Asha''], [''b@x.in'', '''']]" by code_simp
  from export_reads_back [OF chunks fit n] cells chunks show ?thesis by metis
qed

definition demo_upload :: string where
  "demo_upload = ''Mail,name'' @ [LF] @ ''a@x.in,Z'' @ [LF] @ ''new@x.in,Ravi'' @ [LF]"

theorem import_spares_crawled_leads_witness:
  "\<exists>st' (res :: upsert_result). import_leads_csv id 9 agent_request demo_clerk demo_upload demo_server = (st', Inr res) \<and>
     outcomes res = 2 \<and> list_all (\<lambda>l. l \<in> set (crawled (cd_crawl (sv_cloud st')))) (rows (leads (cd_crawl (sv_cloud demo_server))))"
proof -
  let ?e = "import_leads_csv id 9 agent_request demo_clerk demo_upload demo_server"
  obtain st' r where e: "?e = (st', r)" by fastforce
  have "\<not> isl (snd ?e)" by code_simp
  then obtain res where res: "?e = (st', Inr res)" using e by (cases r) auto
  have keyed: "leads_keyed (cd_crawl (sv_cloud demo_server))"
    by (simp add: leads_keyed_def lead_keys.keys_ok_def demo_server_def demo_lead_row_def)
  have race: "spares_crawled id" by (simp add: spares_crawled_def)
  have recs: "csv_read demo_upload = Inr [[''Mail'', ''name''], [''a@x.in'', ''Z''], [''new@x.in'', ''Ravi'']]" by code_simp
  have two: "length (dict_rows [[''Mail'', ''name''], [''a@x.in'', ''Z''], [''new@x.in'', ''Ravi'']]) = 2" by code_simp
  have all: "crawled (cd_crawl (sv_cloud demo_server)) = rows (leads (cd_crawl (sv_cloud demo_server)))"
    by (simp add: crawled_def demo_server_def demo_lead_row_def is_manual_def)
  note all_kept = import_spares_crawled_leads [OF keyed race recs res]
  then have "list_all (\<lambda>l. l \<in> set (crawled (cd_crawl (sv_cloud st')))) (rows (leads (cd_crawl (sv_cloud demo_server))))"
    unfolding all list_all_iff by blast
  with res all_kept two show ?thesis by (metis (no_types, lifting))
qed

end
