(* ===== verification/Regex.thy ===== *)
theory Regex
  imports Urls
begin

text \<open>
  Python's \<open>re\<close> module as the parser uses it. A compiled pattern is its syntax tree; \<open>rx\<close> is the
  backtracking matcher, which lists what a pattern can match at a cursor in the order in which the
  module tries it, so that the head of the list is the match. A cursor is the character before it,
  for the word boundary, and the rest of the text.
\<close>

section \<open>Patterns and the matcher\<close>

datatype regex =
  R_eps
| R_never
| R_cls "char \<Rightarrow> bool"
| R_seq regex regex
| R_alt regex regex
| R_rep nat "nat option" regex
| R_group regex
| R_boundary

type_synonym cursor = "char option \<times> string"
type_synonym rx_result = "cursor \<times> string list"

definition word_code :: "char \<Rightarrow> bool" where
  "word_code c =
     (is_alpha c \<or> is_decimal c \<or> c = CHR ''_'' \<or>
      (let n = code_point c in n \<in> {170, 178, 179, 181, 185, 186, 188, 189, 190} \<or> (192 \<le> n \<and> n \<noteq> 215 \<and> n \<noteq> 247)))"

lemma word_code_code [code]:
  "word_code c =
     (is_alpha c \<or> is_decimal c \<or> c = CHR ''_'' \<or>
      (let n = (of_char c :: int) in n \<in> {170, 178, 179, 181, 185, 186, 188, 189, 190} \<or> (192 \<le> n \<and> n \<noteq> 215 \<and> n \<noteq> 247)))"
  by (simp add: word_code_def Let_def code_point_le_numeral)

definition opt_word :: "char option \<Rightarrow> bool" where
  "opt_word b = (case b of None \<Rightarrow> False | Some c \<Rightarrow> word_code c)"

definition head_word :: "string \<Rightarrow> bool" where
  "head_word s = (case s of [] \<Rightarrow> False | c # _ \<Rightarrow> word_code c)"

text \<open>
  A greedy repetition: \<open>lo\<close> more rounds are due and at most \<open>n\<close> allowed. Past the minimum a round that
  matches nothing ends the loop.
\<close>

fun rep_rx :: "(cursor \<Rightarrow> rx_result list) \<Rightarrow> nat \<Rightarrow> nat \<Rightarrow> cursor \<Rightarrow> rx_result list" where
  "rep_rx f lo 0 k = (if lo = 0 then [(k, [])] else [])"
| "rep_rx f lo (Suc n) k =
     concat (map (\<lambda>(k1, g1).
       if lo = 0 \<and> snd k1 = snd k then []
       else map (\<lambda>(k2, g2). (k2, g1 @ g2)) (rep_rx f (lo - 1) n k1)) (f k)) @
     (if lo = 0 then [(k, [])] else [])"

definition rounds :: "nat \<Rightarrow> nat option \<Rightarrow> cursor \<Rightarrow> nat" where
  "rounds lo hi k = (case hi of Some h \<Rightarrow> h | None \<Rightarrow> lo + length (snd k))"

fun rx :: "regex \<Rightarrow> cursor \<Rightarrow> rx_result list" where
  "rx R_eps k = [(k, [])]"
| "rx R_never k = []"
| "rx (R_cls p) k = (case snd k of [] \<Rightarrow> [] | c # s \<Rightarrow> if p c then [((Some c, s), [])] else [])"
| "rx (R_seq r1 r2) k = concat (map (\<lambda>(k1, g1). map (\<lambda>(k2, g2). (k2, g1 @ g2)) (rx r2 k1)) (rx r1 k))"
| "rx (R_alt r1 r2) k = rx r1 k @ rx r2 k"
| "rx (R_rep lo hi r) k = rep_rx (rx r) lo (rounds lo hi k) k"
| "rx (R_group r) k = map (\<lambda>(k1, g). (k1, take (length (snd k) - length (snd k1)) (snd k) # g)) (rx r k)"
| "rx R_boundary k = (if opt_word (fst k) \<noteq> head_word (snd k) then [(k, [])] else [])"

section \<open>Search, finditer, fullmatch and sub\<close>

record rx_hit =
  rh_start :: nat
  rh_end :: nat
  rh_groups :: "string list"
  rh_rest :: cursor

text \<open>\<open>adv\<close> rules out an empty match at the cursor, as after an empty match before.\<close>

definition match_at :: "bool \<Rightarrow> regex \<Rightarrow> nat \<Rightarrow> cursor \<Rightarrow> rx_hit option" where
  "match_at adv r i k =
     (case filter (\<lambda>(k1, g). \<not> adv \<or> snd k1 \<noteq> snd k) (rx r k) of
        [] \<Rightarrow> None
      | (k1, g) # _ \<Rightarrow> Some \<lparr>rh_start = i, rh_end = i + (length (snd k) - length (snd k1)), rh_groups = g, rh_rest = k1\<rparr>)"

fun search_from :: "bool \<Rightarrow> regex \<Rightarrow> nat \<Rightarrow> char option \<Rightarrow> string \<Rightarrow> rx_hit option" where
  "search_from adv r i b [] = match_at adv r i (b, [])"
| "search_from adv r i b (c # s) =
     (case match_at adv r i (b, c # s) of
        Some h \<Rightarrow> Some h
      | None \<Rightarrow> search_from False r (Suc i) (Some c) s)"

definition rx_search :: "regex \<Rightarrow> string \<Rightarrow> rx_hit option" where
  "rx_search r s = search_from False r 0 None s"

definition rx_fullmatch :: "regex \<Rightarrow> string \<Rightarrow> bool" where
  "rx_fullmatch r s = list_ex (\<lambda>(k, g). snd k = []) (rx r (None, s))"

text \<open>A match consumes a prefix of what is before it.\<close>

definition consumes :: "string \<Rightarrow> string \<Rightarrow> bool" where
  "consumes s t = (\<exists>u. s = u @ t)"

lemma consumes_refl [simp]: "consumes s s"
  by (simp add: consumes_def)

lemma consumes_trans: "consumes s t \<Longrightarrow> consumes t u \<Longrightarrow> consumes s u"
  by (auto simp: consumes_def)

lemma consumes_length: "consumes s t \<Longrightarrow> length t \<le> length s"
  by (auto simp: consumes_def)

lemma consumes_eq: "consumes s t \<Longrightarrow> length s \<le> length t \<Longrightarrow> s = t"
  by (auto simp: consumes_def)

lemma rep_rx_consumes:
  assumes "\<And>k k1 g. (k1, g) \<in> set (f k) \<Longrightarrow> consumes (snd k) (snd k1)"
  shows "(k1, g) \<in> set (rep_rx f lo n k) \<Longrightarrow> consumes (snd k) (snd k1)"
proof (induction n arbitrary: lo k g k1)
  case 0
  then show ?case by (simp split: if_splits)
next
  case (Suc n)
  then consider "k1 = k" | k2 g2 g3 where "(k2, g2) \<in> set (f k)" "(k1, g3) \<in> set (rep_rx f (lo - 1) n k2)"
    by (auto split: if_splits)
  then show ?case
  proof cases
    case 2
    then show ?thesis using assms [OF 2(1)] Suc.IH [OF 2(2)] consumes_trans by blast
  qed simp
qed

lemma rx_consumes: "(k1, g) \<in> set (rx r k) \<Longrightarrow> consumes (snd k) (snd k1)"
proof (induction r arbitrary: k k1 g)
  case (R_cls p)
  then show ?case by (cases "snd k") (auto simp: consumes_def split: if_splits)
next
  case (R_seq r1 r2)
  then obtain k2 g2 g3 where "(k2, g2) \<in> set (rx r1 k)" "(k1, g3) \<in> set (rx r2 k2)" by auto
  then show ?case using R_seq.IH consumes_trans by blast
next
  case (R_rep lo hi r)
  from R_rep.prems have "(k1, g) \<in> set (rep_rx (rx r) lo (rounds lo hi k) k)" by simp
  then show ?case using rep_rx_consumes [of "rx r"] R_rep.IH by blast
qed (auto split: if_splits)

lemma match_at_rest:
  assumes "match_at adv r i k = Some h"
  shows "consumes (snd k) (snd (rh_rest h))" "adv \<Longrightarrow> length (snd (rh_rest h)) < length (snd k)"
    "rh_start h = i" "rh_end h = i + (length (snd k) - length (snd (rh_rest h)))"
proof -
  obtain k1 g xs where f: "filter (\<lambda>(k1, g). \<not> adv \<or> snd k1 \<noteq> snd k) (rx r k) = (k1, g) # xs"
    and h: "h = \<lparr>rh_start = i, rh_end = i + (length (snd k) - length (snd k1)), rh_groups = g, rh_rest = k1\<rparr>"
    using assms by (auto simp: match_at_def split: list.splits)
  have m: "(k1, g) \<in> set (rx r k)" "\<not> adv \<or> snd k1 \<noteq> snd k"
    using filter_eq_ConsD [OF f] by auto
  note c = rx_consumes [OF m(1)]
  show "consumes (snd k) (snd (rh_rest h))" "rh_start h = i" "rh_end h = i + (length (snd k) - length (snd (rh_rest h)))"
    using c by (simp_all add: h)
  show "adv \<Longrightarrow> length (snd (rh_rest h)) < length (snd k)"
    using c m(2) consumes_length [OF c] consumes_eq [OF c] by (force simp: h)
qed

lemma search_from_rest:
  assumes "search_from adv r i b s = Some h"
  shows "consumes s (snd (rh_rest h)) \<and> (adv \<longrightarrow> length (snd (rh_rest h)) < length s)"
  using assms
proof (induction s arbitrary: adv i b)
  case Nil
  then show ?case using match_at_rest(1,2) [of adv r i "(b, [])" h] by auto
next
  case (Cons c s)
  show ?case
  proof (cases "match_at adv r i (b, c # s)")
    case None
    with Cons.prems have "search_from False r (Suc i) (Some c) s = Some h" by simp
    from Cons.IH [OF this] have k: "consumes s (snd (rh_rest h))" by simp
    have "consumes (c # s) s" by (simp add: consumes_def)
    then show ?thesis using k consumes_trans consumes_length [OF k] by force
  next
    case (Some h')
    then show ?thesis using Cons.prems match_at_rest [OF Some] by auto
  qed
qed

text \<open>The successive matches; after an empty one the next may not be empty at the same place.\<close>

function finditer_from :: "bool \<Rightarrow> regex \<Rightarrow> nat \<Rightarrow> char option \<Rightarrow> string \<Rightarrow> rx_hit list" where
  "finditer_from adv r i b s =
     (case search_from adv r i b s of
        None \<Rightarrow> []
      | Some h \<Rightarrow> h # finditer_from (rh_end h = rh_start h) r (rh_end h) (fst (rh_rest h)) (snd (rh_rest h)))"
  by pat_completeness auto

lemma search_from_end:
  assumes "search_from adv r i b s = Some h"
  shows "rh_end h = i + (length s - length (snd (rh_rest h))) \<and> rh_start h \<le> rh_end h \<and> i \<le> rh_start h"
  using assms
proof (induction s arbitrary: adv i b)
  case Nil
  then show ?case using match_at_rest [of adv r i "(b, [])" h] by simp
next
  case (Cons c s)
  show ?case
  proof (cases "match_at adv r i (b, c # s)")
    case None
    with Cons.prems have s: "search_from False r (Suc i) (Some c) s = Some h" by simp
    from Cons.IH [OF this] consumes_length [OF search_from_rest [OF s, THEN conjunct1]] show ?thesis by auto
  next
    case (Some h')
    then show ?thesis using Cons.prems match_at_rest(3,4) [OF Some] by auto
  qed
qed

termination finditer_from
proof (relation "measure (\<lambda>(adv, r, i, b, s). 2 * length s + (if adv then 0 else 1))", goal_cases)
  case 1
  show ?case by simp
next
  case (2 adv r i b s h)
  note hit = search_from_rest [OF 2] and e = search_from_end [OF 2]
  have le: "length (snd (rh_rest h)) \<le> length s" using hit consumes_length by blast
  show ?case
  proof (cases "rh_end h = rh_start h")
    case True
    then show ?thesis using hit le by (cases "rh_rest h") auto
  next
    case False
    then have "length (snd (rh_rest h)) < length s" using e by auto
    then show ?thesis using False by (cases "rh_rest h") simp
  qed
qed

declare finditer_from.simps [simp del]

definition rx_finditer :: "regex \<Rightarrow> string \<Rightarrow> rx_hit list" where
  "rx_finditer r s = finditer_from False r 0 None s"

definition hit_text :: "string \<Rightarrow> rx_hit \<Rightarrow> string" where
  "hit_text s h = take (rh_end h - rh_start h) (drop (rh_start h) s)"

text \<open>A replacement without a backslash stands for itself.\<close>

fun sub_hits :: "string \<Rightarrow> string \<Rightarrow> nat \<Rightarrow> rx_hit list \<Rightarrow> string" where
  "sub_hits replacement s i [] = drop i s"
| "sub_hits replacement s i (h # hs) =
     take (rh_start h - i) (drop i s) @ replacement @ sub_hits replacement s (rh_end h) hs"

definition rx_sub :: "regex \<Rightarrow> string \<Rightarrow> string \<Rightarrow> string" where
  "rx_sub r replacement s = sub_hits replacement s 0 (rx_finditer r s)"

section \<open>Building patterns\<close>

definition R_opt :: "regex \<Rightarrow> regex" where "R_opt r = R_rep 0 (Some 1) r"
definition R_star :: "regex \<Rightarrow> regex" where "R_star r = R_rep 0 None r"
definition R_plus :: "regex \<Rightarrow> regex" where "R_plus r = R_rep 1 None r"

definition R_seqs :: "regex list \<Rightarrow> regex" where
  "R_seqs rs = foldr R_seq rs R_eps"

definition R_alts :: "regex list \<Rightarrow> regex" where
  "R_alts rs = foldr R_alt rs R_never"

definition R_text :: "string \<Rightarrow> regex" where
  "R_text s = R_seqs (map (\<lambda>c. R_cls (\<lambda>d. d = c)) s)"

text \<open>Under \<open>re.IGNORECASE\<close> a class holds of a character when it holds of one of its cases.\<close>

definition py_upper_char :: "char \<Rightarrow> char" where
  "py_upper_char c =
     (let n = code_point c in
      if (97 \<le> n \<and> n \<le> 122) \<or> (224 \<le> n \<and> n \<le> 254 \<and> n \<noteq> 247) then char_of (n - 32) else c)"

lemma py_upper_char_code [code]:
  "py_upper_char c =
     (let n = (of_char c :: int) in
      if (97 \<le> n \<and> n \<le> 122) \<or> (224 \<le> n \<and> n \<le> 254 \<and> n \<noteq> 247) then char_of (n - 32) else c)"
proof -
  have "(of_char c :: int) - 32 = int (code_point c - 32)" if "97 \<le> code_point c"
    using that by (simp add: code_point_def of_nat_diff of_nat_of_char)
  then have "char_of ((of_char c :: int) - 32) = (char_of (code_point c - 32) :: char)" if "97 \<le> code_point c"
    using that by (simp only: char_of_int)
  then show ?thesis by (auto simp: py_upper_char_def Let_def code_point_le_numeral)
qed

definition any_case :: "(char \<Rightarrow> bool) \<Rightarrow> char \<Rightarrow> bool" where
  "any_case p c = (p c \<or> p (py_lower_char c) \<or> p (py_upper_char c))"

definition R_cls_ci :: "(char \<Rightarrow> bool) \<Rightarrow> regex" where
  "R_cls_ci p = R_cls (any_case p)"

definition R_text_ci :: "string \<Rightarrow> regex" where
  "R_text_ci s = R_seqs (map (\<lambda>c. R_cls_ci (\<lambda>d. py_lower_char d = py_lower_char c)) s)"

end
