(* ===== verification/LeadParser.thy ===== *)
theory LeadParser
  imports LeadExtraction Pagination Regex
begin

text \<open>
  The extraction pipeline of \<open>agent/crawler/parser.py\<close>: six stages from a page to flat leads. What
  BeautifulSoup answers is the record \<open>page_dom\<close>; the patterns of the configuration are compiled
  patterns, and the fixed patterns of the parser are trees of Regex.
\<close>

section \<open>Configuration and page\<close>

record extraction_config =
  xc_enabled :: bool
  xc_regex :: regex
  xc_valid_suffixes :: "string list"
  xc_obfuscation :: "(regex \<times> string) list"
  xc_context_chars :: nat
  xc_role_local_parts :: "string list"
  xc_max_input_chars :: nat
  xc_high_rungs :: "string list"
  xc_person_enabled :: bool
  xc_proximity_chars :: nat
  xc_title_prefixes :: "string list"
  xc_designation_keywords :: "string list"

record anchor =
  an_node :: nat
  an_href :: string

record item_prop =
  ip_node :: nat
  ip_prop :: string
  ip_content :: "string option"
  ip_text :: string

text \<open>A cell with its stripped text and its text with the parts separated by spaces.\<close>

record cell =
  cl_strip :: string
  cl_spaced :: string

record table_row =
  tr_node :: nat
  tr_cells :: "cell list"

text \<open>
  The page: its links with a href, the elements with an itemprop, its tables and its text before the
  script, style and noscript tags are dropped; afterwards the text, the parent of a node, the text of
  that parent, and the elements with itemprop name.
\<close>

record page_dom =
  pd_title :: "string option"
  pd_anchors :: "anchor list"
  pd_items :: "item_prop list"
  pd_tables :: "table_row list list"
  pd_text :: string
  pd_clean_text :: string
  pd_parent :: "nat \<Rightarrow> nat option"
  pd_parent_text :: "nat \<Rightarrow> string"
  pd_names :: "string list"

definition MAX_CELL_CHARS :: nat where "MAX_CELL_CHARS = 500"
definition MAX_ROW_SCAN_CHARS :: int where "MAX_ROW_SCAN_CHARS = 5000"
definition MAX_RECIPIENTS_PER_HREF :: nat where "MAX_RECIPIENTS_PER_HREF = 5"
definition MAX_MAILTO_CONTEXT_CHARS :: nat where "MAX_MAILTO_CONTEXT_CHARS = 600"

definition RUNG_ORDER :: "string list" where
  "RUNG_ORDER = [''proximity_text'', ''table_block'', ''microdata'', ''mailto_tel'']"

fun index_of :: "('a \<Rightarrow> bool) \<Rightarrow> 'a list \<Rightarrow> nat option" where
  "index_of p [] = None"
| "index_of p (x # xs) = (if p x then Some 0 else map_option Suc (index_of p xs))"

definition rung_rank :: "string \<Rightarrow> int" where
  "rung_rank r = (case index_of (\<lambda>x. x = r) RUNG_ORDER of None \<Rightarrow> -1 | Some i \<Rightarrow> int i)"

section \<open>Text helpers\<close>

text \<open>\<open>s.find(p)\<close> and \<open>s.rpartition("@")\<close>.\<close>

fun py_find :: "string \<Rightarrow> string \<Rightarrow> nat option" where
  "py_find [] p = (if p = [] then Some 0 else None)"
| "py_find (c # s) p = (if py_startswith (c # s) p then Some 0 else map_option Suc (py_find s p))"

definition rpartition_at :: "string \<Rightarrow> string \<times> string" where
  "rpartition_at s =
     (case py_cut (CHR ''@'') (rev s) of
        (a, None) \<Rightarrow> ([], s)
      | (a, Some b) \<Rightarrow> (rev b, rev a))"

definition py_slice :: "nat \<Rightarrow> nat \<Rightarrow> string \<Rightarrow> string" where
  "py_slice i j s = take (j - i) (drop i s)"

definition strip_chars :: "string \<Rightarrow> string \<Rightarrow> string" where
  "strip_chars cs = py_strip_by (\<lambda>c. c \<in> set cs)"

text \<open>A decoded code point beyond the characters of the model becomes the last of them.\<close>

definition of_points :: "nat list \<Rightarrow> string" where
  "of_points ns = map (\<lambda>n. if n < 256 then char_of n else CHR 0xFF) ns"

section \<open>Candidates\<close>

record col_map =
  cm_name :: "nat option"
  cm_designation :: "nat option"
  cm_department :: "nat option"
  cm_email :: "nat option"

record table_context =
  tc_col :: col_map
  tc_cells :: "string list"
  tc_row_text :: string

record span_context =
  sx_start :: nat
  sx_end :: nat
  sx_text :: string

text \<open>
  A candidate. The keys with an underscore come in two groups, those of a table row and those of a
  text span, with a second copy of each group for the context carried over from a displaced candidate.
\<close>

record candidate =
  cd_address :: "string option"
  cd_rung :: string
  cd_node :: "nat option"
  cd_raw_span :: string
  cd_phone :: "string option"
  cd_table :: "table_context option"
  cd_span :: "span_context option"
  cd_bracketed :: bool
  cd_fb_table :: "table_context option"
  cd_fb_span :: "span_context option"

definition plain_candidate :: "string option \<Rightarrow> string \<Rightarrow> nat option \<Rightarrow> string \<Rightarrow> string option \<Rightarrow> candidate" where
  "plain_candidate address rung node raw phone =
     \<lparr>cd_address = address, cd_rung = rung, cd_node = node, cd_raw_span = raw, cd_phone = phone, cd_table = None,
      cd_span = None, cd_bracketed = False, cd_fb_table = None, cd_fb_span = None\<rparr>"

definition EMAIL_STRIP_CHARS :: string where
  "EMAIL_STRIP_CHARS = [CHR '' '', CHR 0x09, CHR 0x0D, CHR 0x0A] @ '',;<>'' @ [CHR 0x27, CHR 0x22]"

definition clean_email_candidates :: "string \<Rightarrow> regex \<Rightarrow> string list" where
  "clean_email_candidates raw email_re =
     (if raw = [] then []
      else
        (let pieces = take MAX_RECIPIENTS_PER_HREF (py_split (CHR '','') (of_points (unquote raw)));
             clean = (\<lambda>piece. strip_chars ''.'' (py_lower (filter (\<lambda>c. c \<noteq> CHR '' '')
               (strip_chars EMAIL_STRIP_CHARS piece))))
         in filter (\<lambda>candidate. candidate \<noteq> [] \<and> rx_fullmatch email_re candidate) (map clean pieces)))"

text \<open>\<open>tel:(\+?[\d\s\-().]{7,20})\<close>, ignoring case.\<close>

definition tel_re :: regex where
  "tel_re = R_seq (R_text_ci ''tel:'')
     (R_group (R_seq (R_opt (R_cls (\<lambda>c. c = CHR ''+'')))
       (R_rep 7 (Some 20) (R_cls (\<lambda>c. is_decimal c \<or> py_isspace c \<or> c \<in> set ''-().'')))))"

definition anchor_candidates :: "regex \<Rightarrow> anchor \<Rightarrow> candidate list" where
  "anchor_candidates email_re a =
     (if py_startswith (an_href a) ''mailto:''
      then map (\<lambda>addr. plain_candidate (Some addr) ''mailto_tel'' (Some (an_node a)) addr None)
             (clean_email_candidates (hd (py_split (CHR ''?'') (drop 7 (an_href a)))) email_re)
      else if py_startswith (an_href a) ''tel:''
      then (case match_at False tel_re 0 (None, an_href a) of
              None \<Rightarrow> []
            | Some m \<Rightarrow> (let phone_num = py_strip (hd (rh_groups m)) in
                [plain_candidate None ''mailto_tel'' (Some (an_node a)) phone_num (Some phone_num)]))
      else [])"

definition item_candidates :: "regex \<Rightarrow> item_prop \<Rightarrow> candidate list" where
  "item_candidates email_re el =
     (let prop = py_lower (ip_prop el);
          content = (if truthy (ip_content el) then the (ip_content el) else ip_text el)
      in if prop = ''email''
         then map (\<lambda>addr. plain_candidate (Some addr) ''microdata'' (Some (ip_node el)) addr None)
                (clean_email_candidates content email_re)
         else if prop = ''telephone'' \<or> prop = ''phone''
         then (if content = [] then []
               else [plain_candidate None ''microdata'' (Some (ip_node el)) (py_strip content) (Some (py_strip content))])
         else [])"

section \<open>Tables\<close>

fun find_col :: "string list \<Rightarrow> string list \<Rightarrow> nat option" where
  "find_col headers [] = None"
| "find_col headers (kw # kws) =
     (case index_of (\<lambda>h. py_contains h kw) headers of Some i \<Rightarrow> Some i | None \<Rightarrow> find_col headers kws)"

text \<open>Each role in turn claims its column unless an earlier role has it.\<close>

definition claim_col :: "nat option \<Rightarrow> nat list \<Rightarrow> nat option \<times> nat list" where
  "claim_col idx seen =
     (case idx of
        None \<Rightarrow> (None, seen)
      | Some i \<Rightarrow> if i \<in> set seen then (None, seen) else (Some i, seen @ [i]))"

definition dedupe_col_map :: "col_map \<Rightarrow> col_map" where
  "dedupe_col_map c =
     (let (n, s1) = claim_col (cm_name c) [];
          (g, s2) = claim_col (cm_designation c) s1;
          (d, s3) = claim_col (cm_department c) s2;
          (e, s4) = claim_col (cm_email c) s3
      in \<lparr>cm_name = n, cm_designation = g, cm_department = d, cm_email = e\<rparr>)"

definition header_cols :: "string list \<Rightarrow> col_map" where
  "header_cols headers = dedupe_col_map
     \<lparr>cm_name = find_col headers [''name'', ''officer'', ''official'', ''contact person''],
      cm_designation = find_col headers [''designation'', ''post'', ''rank'', ''position''],
      cm_department = find_col headers [''department'', ''division'', ''ministry'', ''section''],
      cm_email = find_col headers [''email'', ''e-mail'', ''mail'']\<rparr>"

definition suffix_end :: "string \<Rightarrow> string \<Rightarrow> nat option" where
  "suffix_end host suffix = map_option (\<lambda>pos. pos + length suffix) (py_find host suffix)"

definition earliest_end :: "string \<Rightarrow> string list \<Rightarrow> nat option" where
  "earliest_end host suffixes =
     foldl (\<lambda>acc suffix.
       case suffix_end host suffix of
         None \<Rightarrow> acc
       | Some e \<Rightarrow> (case acc of None \<Rightarrow> Some e | Some a \<Rightarrow> if e < a then Some e else acc)) None suffixes"

definition truncate_at_known_suffix :: "string \<Rightarrow> string list \<Rightarrow> string" where
  "truncate_at_known_suffix address suffixes =
     (let (local_part, host) = rpartition_at address in
      if host = [] then address
      else (case earliest_end host suffixes of
              None \<Rightarrow> address
            | Some e \<Rightarrow> if e = length host then address else local_part @ ''@'' @ take e host))"

definition span_address :: "string list \<Rightarrow> string \<Rightarrow> string" where
  "span_address suffixes matched = truncate_at_known_suffix (strip_chars ''.'' (py_lower matched)) suffixes"

definition row_candidates :: "extraction_config \<Rightarrow> col_map \<Rightarrow> table_row \<Rightarrow> candidate list" where
  "row_candidates cfg col row =
     (let cell_texts = map cl_spaced (tr_cells row); row_text = py_join '' '' cell_texts in
      if tr_cells row = [] then []
      else if MAX_ROW_SCAN_CHARS < int (length row_text) then []
      else map (\<lambda>m. let addr = span_address (xc_valid_suffixes cfg) (hit_text row_text m) in
                 (plain_candidate (Some addr) ''table_block'' (Some (tr_node row)) addr None)
                   \<lparr>cd_table := Some \<lparr>tc_col = col, tc_cells = cell_texts, tc_row_text = row_text\<rparr>\<rparr>)
               (rx_finditer (xc_regex cfg) row_text))"

definition table_candidates :: "extraction_config \<Rightarrow> table_row list \<Rightarrow> candidate list" where
  "table_candidates cfg trs =
     (if length trs < 2 then []
      else concat (map (row_candidates cfg (header_cols (map (\<lambda>c. py_lower (cl_strip c)) (tr_cells (hd trs))))) (tl trs)))"

section \<open>Free text\<close>

text \<open>The detector of bracketed addresses, built from the configured markers.\<close>

definition email_char :: "char \<Rightarrow> bool" where
  "email_char c = (is_alpha c \<or> is_decimal c \<or> c \<in> set ''._%+-'')"

definition build_bracketed_email_re :: "(regex \<times> string) list \<Rightarrow> regex" where
  "build_bracketed_email_re obfuscation =
     (let at_pats = map fst (filter (\<lambda>(p, replacement). replacement = ''@'') obfuscation);
          dot_pats = map fst (filter (\<lambda>(p, replacement). replacement = ''.'') obfuscation);
          other_pats = map fst (filter (\<lambda>(p, replacement). replacement \<noteq> ''@'' \<and> replacement \<noteq> ''.'') obfuscation)
      in if at_pats = [] \<or> dot_pats = [] then R_never
         else (let chars = R_plus (R_alts (R_cls_ci email_char # other_pats)) in
               R_seqs [chars, R_alts at_pats, R_plus (R_seq chars (R_alts dot_pats)), R_rep 2 (Some 6) (R_cls_ci is_alpha)]))"

text \<open>Addresses of the text that were not seen yet, with their spans; \<open>key\<close> is what counts as seen.\<close>

fun unseen_spans :: "(string \<Rightarrow> string) \<Rightarrow> string \<Rightarrow> string list \<Rightarrow> rx_hit list \<Rightarrow> (string \<times> rx_hit) list \<times> string list" where
  "unseen_spans key t seen [] = ([], seen)"
| "unseen_spans key t seen (m # ms) =
     (let k = key (hit_text t m) in
      if k \<in> set seen then unseen_spans key t seen ms
      else (case unseen_spans key t (seen @ [k]) ms of (xs, s) \<Rightarrow> ((k, m) # xs, s)))"

definition span_candidate :: "string \<Rightarrow> string option \<Rightarrow> string \<Rightarrow> rx_hit \<Rightarrow> bool \<Rightarrow> candidate" where
  "span_candidate t address raw m bracketed =
     (plain_candidate address ''proximity_text'' None raw None)
       \<lparr>cd_span := Some \<lparr>sx_start = rh_start m, sx_end = rh_end m, sx_text = t\<rparr>, cd_bracketed := bracketed\<rparr>"

definition proximity_candidates :: "extraction_config \<Rightarrow> string \<Rightarrow> candidate list" where
  "proximity_candidates cfg t =
     (let (plain, seen) = unseen_spans (span_address (xc_valid_suffixes cfg)) t [] (rx_finditer (xc_regex cfg) t);
          (bracketed, _) = unseen_spans py_lower t seen
             (rx_finditer (build_bracketed_email_re (xc_obfuscation cfg)) t)
      in map (\<lambda>(addr, m). span_candidate t (Some addr) addr m False) plain @
         map (\<lambda>(_, m). span_candidate t None (hit_text t m) m True) bracketed)"

definition extract_candidates :: "extraction_config \<Rightarrow> page_dom \<Rightarrow> candidate list" where
  "extract_candidates cfg dom_tree =
     (if \<not> xc_enabled cfg then []
      else concat (map (anchor_candidates (xc_regex cfg)) (pd_anchors dom_tree)) @
           concat (map (item_candidates (xc_regex cfg)) (pd_items dom_tree)) @
           concat (map (table_candidates cfg) (pd_tables dom_tree)) @
           proximity_candidates cfg
             (if xc_max_input_chars cfg \<noteq> 0 then take (xc_max_input_chars cfg) (pd_text dom_tree) else pd_text dom_tree))"

section \<open>Stage 2: one entity for each address\<close>

record entity = candidate +
  en_email :: "string option"
  en_channel_tag :: "string option"
  en_entity_kind :: "string option"
  en_phone_rung :: "string option"
  en_person_name :: "string option"
  en_designation :: "string option"
  en_department :: "string option"
  en_dept_mismatch :: bool
  en_context_snippet :: string
  en_confidence_band :: "string option"
  en_field_provenance :: "string option"

definition as_entity :: "candidate \<Rightarrow> string option \<Rightarrow> string option \<Rightarrow> string option \<Rightarrow> entity" where
  "as_entity c email tag kind =
     candidate.extend c (entity.fields email tag kind None None None None False [] None None)"

definition carry_fallback_context :: "candidate \<Rightarrow> candidate \<Rightarrow> candidate" where
  "carry_fallback_context winner loser =
     winner\<lparr>cd_fb_table := (if cd_table loser = None then cd_fb_table winner else cd_table loser),
            cd_fb_span := (if cd_span loser = None then cd_fb_span winner else cd_span loser)\<rparr>"

definition has_fallback_context :: "candidate \<Rightarrow> bool" where
  "has_fallback_context c = (cd_fb_table c \<noteq> None \<or> cd_fb_span c \<noteq> None)"

text \<open>
  The map from address to its best candidate, in the order the addresses were met, with the bracketed
  candidates and the bare phone numbers aside.
\<close>

record channel_state =
  ch_emails :: "(string \<times> candidate) list"
  ch_bracketed :: "candidate list"
  ch_phones :: "candidate list"

definition contend :: "candidate \<Rightarrow> candidate \<Rightarrow> candidate" where
  "contend existing c =
     (if rung_rank (cd_rung existing) < rung_rank (cd_rung c)
      then carry_fallback_context (c\<lparr>cd_phone := py_or (cd_phone c) (cd_phone existing)\<rparr>) existing
      else if \<not> has_fallback_context existing then carry_fallback_context existing c
      else existing)"

definition bind_candidate :: "channel_state \<Rightarrow> candidate \<Rightarrow> channel_state" where
  "bind_candidate st c =
     (if cd_bracketed c \<and> cd_address c = None then st\<lparr>ch_bracketed := ch_bracketed st @ [c]\<rparr>
      else if truthy (cd_address c)
      then (let addr = the (cd_address c) in
            st\<lparr>ch_emails := dict_put addr
                 (case map_of (ch_emails st) addr of None \<Rightarrow> c | Some existing \<Rightarrow> contend existing c) (ch_emails st)\<rparr>)
      else if truthy (cd_phone c) then st\<lparr>ch_phones := ch_phones st @ [c]\<rparr>
      else st)"

definition classify_address :: "extraction_config \<Rightarrow> string \<Rightarrow> string \<times> string" where
  "classify_address cfg addr =
     (let parts = py_split (CHR ''@'') addr;
          local_part = py_lower (hd parts);
          domain_part = (if CHR ''@'' \<in> set addr then py_lower (parts ! 1) else [])
      in if local_part \<in> set (xc_role_local_parts cfg) then (''role'', ''org'')
         else if \<not> list_ex (py_endswith domain_part) (xc_valid_suffixes cfg) then (''personal-external'', ''person'')
         else (''office'', ''person''))"

definition email_entity :: "extraction_config \<Rightarrow> string \<times> candidate \<Rightarrow> entity" where
  "email_entity cfg ac =
     (case classify_address cfg (fst ac) of (tag, kind) \<Rightarrow> as_entity (snd ac) (Some (fst ac)) (Some tag) (Some kind))"

definition nodes_share_container :: "page_dom \<Rightarrow> nat \<Rightarrow> nat \<Rightarrow> bool" where
  "nodes_share_container dom_tree a b =
     (pd_parent dom_tree a \<noteq> None \<and> pd_parent dom_tree a = pd_parent dom_tree b)"

fun update_first :: "('a \<Rightarrow> bool) \<Rightarrow> ('a \<Rightarrow> 'a) \<Rightarrow> 'a list \<Rightarrow> 'a list" where
  "update_first p f [] = []"
| "update_first p f (x # xs) = (if p x then f x # xs else x # update_first p f xs)"

text \<open>A phone number goes to the first entity without one that shares its container, else to the first without one.\<close>

definition attach_phone :: "page_dom \<Rightarrow> entity list \<Rightarrow> candidate \<Rightarrow> entity list" where
  "attach_phone dom_tree es pc =
     (let free = (\<lambda>e. \<not> truthy (cd_phone e));
          near = (\<lambda>e. free e \<and>
            (case (cd_node pc, cd_node e) of (Some a, Some b) \<Rightarrow> nodes_share_container dom_tree a b | _ \<Rightarrow> False));
          attach = (\<lambda>e. e\<lparr>cd_phone := cd_phone pc, en_phone_rung := Some (cd_rung pc)\<rparr>)
      in if list_ex near es then update_first near attach es else update_first free attach es)"

definition bind_channels :: "extraction_config \<Rightarrow> page_dom \<Rightarrow> candidate list \<Rightarrow> entity list" where
  "bind_channels cfg dom_tree cs =
     (let st = foldl bind_candidate \<lparr>ch_emails = [], ch_bracketed = [], ch_phones = []\<rparr> cs
      in foldl (attach_phone dom_tree) (map (email_entity cfg) (ch_emails st)) (ch_phones st) @
         map (\<lambda>c. as_entity c None None None) (ch_bracketed st))"

section \<open>Stage 3: names, designations and departments\<close>

definition upper_az :: "char \<Rightarrow> bool" where "upper_az c = (let n = code_point c in 65 \<le> n \<and> n \<le> 90)"
definition lower_az :: "char \<Rightarrow> bool" where "lower_az c = (let n = code_point c in 97 \<le> n \<and> n \<le> 122)"

lemma az_code [code]:
  "upper_az c = (let n = (of_char c :: int) in 65 \<le> n \<and> n \<le> 90)"
  "lower_az c = (let n = (of_char c :: int) in 97 \<le> n \<and> n \<le> 122)"
  by (simp_all add: upper_az_def lower_az_def Let_def code_point_le_numeral)

definition name_re :: "string list \<Rightarrow> regex" where
  "name_re prefixes =
     (let blanks = R_plus (R_cls (\<lambda>c. c = CHR '' '' \<or> c = CHR 0x09));
          capital = R_seq (R_cls upper_az) (R_plus (R_cls lower_az))
      in R_seqs [R_boundary, R_group (R_alts (map R_text prefixes)), R_boundary, R_opt (R_cls (\<lambda>c. c = CHR ''.'')), blanks,
           R_group (R_seq capital (R_rep 0 (Some 3) (R_seq blanks capital)))])"

definition match_name :: "extraction_config \<Rightarrow> string \<Rightarrow> string option" where
  "match_name cfg t =
     (if xc_title_prefixes cfg = [] then None
      else map_option (\<lambda>m. squeeze (rh_groups m ! 0 @ '' '' @ rh_groups m ! 1)) (rx_search (name_re (xc_title_prefixes cfg)) t))"

definition designation_stop_re :: regex where
  "designation_stop_re =
     R_alts [R_cls (\<lambda>c. c = CHR ''@'' \<or> c = CHR 0x0A),
       R_seqs [R_boundary,
         R_alts [R_seqs [R_text_ci ''e'', R_opt (R_cls (\<lambda>c. c = CHR ''-'')), R_text_ci ''mail''], R_text_ci ''phone'',
                 R_seq (R_text_ci ''tel'') (R_opt (R_text_ci ''ephone''))],
         R_boundary, R_star (R_cls py_isspace), R_opt (R_cls (\<lambda>c. c = CHR '':'' \<or> c = CHR ''-''))],
       R_rep 5 None (R_cls is_decimal)]"

definition clip_designation :: "string option \<Rightarrow> string option" where
  "clip_designation v =
     (if \<not> truthy v then None
      else
        (let window = take 120 (the v);
             e = (case rx_search designation_stop_re window of Some stop \<Rightarrow> rh_start stop | None \<Rightarrow> length window);
             cleaned = strip_chars '' ,.-'' (squeeze (take e window))
         in if cleaned = [] then None else Some (take 60 cleaned)))"

definition match_designation :: "extraction_config \<Rightarrow> string \<Rightarrow> string option" where
  "match_designation cfg t =
     (if xc_designation_keywords cfg = [] then None
      else (case rx_search (R_seqs [R_boundary, R_group (R_alts (map R_text_ci (xc_designation_keywords cfg))), R_boundary]) t of
              None \<Rightarrow> None
            | Some m \<Rightarrow> clip_designation (Some (drop (rh_start m) t))))"

definition cell_value :: "string list \<Rightarrow> nat option \<Rightarrow> string option" where
  "cell_value cells idx =
     (case idx of
        None \<Rightarrow> None
      | Some i \<Rightarrow>
          if length cells \<le> i then None
          else (let v = py_strip (cells ! i) in if v = [] then None else Some (take MAX_CELL_CHARS v)))"

definition dept_from_url :: "string \<Rightarrow> string option" where
  "dept_from_url url =
     (case url_netloc url of
        Inl _ \<Rightarrow> None
      | Inr netloc \<Rightarrow>
          (let host = py_removeprefix (py_lower netloc) ''www.''
           in if host = [] then None else Some (hd (py_split (CHR ''.'') host))))"

definition dept_from_page :: "page_dom \<Rightarrow> string option" where
  "dept_from_page dom_tree = map_option (take 80) (List.find (\<lambda>t. t \<noteq> []) (pd_names dom_tree))"

definition container_text :: "page_dom \<Rightarrow> nat option \<Rightarrow> string" where
  "container_text dom_tree node =
     (case node of
        None \<Rightarrow> []
      | Some n \<Rightarrow> if pd_parent dom_tree n = None then [] else take MAX_MAILTO_CONTEXT_CHARS (pd_parent_text dom_tree n))"

text \<open>A field keeps the value it has; the name and the designation read from a table row or a span.\<close>

definition keep_or :: "string option \<Rightarrow> string option \<Rightarrow> string option" where
  "keep_or old new = (if truthy old then old else new)"

definition name_in_row :: "extraction_config \<Rightarrow> string option \<Rightarrow> string \<Rightarrow> string option" where
  "name_in_row cfg old row_text = (if xc_title_prefixes cfg = [] then old else keep_or old (match_name cfg row_text))"

definition designation_in_row :: "extraction_config \<Rightarrow> string option \<Rightarrow> string \<Rightarrow> string option" where
  "designation_in_row cfg old row_text =
     (if xc_designation_keywords cfg = [] then old else keep_or old (match_designation cfg row_text))"

definition span_window :: "nat \<Rightarrow> span_context \<Rightarrow> string" where
  "span_window n sp = py_slice (sx_start sp - n) (sx_end sp + n) (sx_text sp)"

definition apply_fallback_table :: "extraction_config \<Rightarrow> entity \<Rightarrow> entity" where
  "apply_fallback_table cfg e =
     (case cd_fb_table e of
        None \<Rightarrow> e
      | Some tc \<Rightarrow>
          (let n = keep_or (en_person_name e) (cell_value (tc_cells tc) (cm_name (tc_col tc)));
               g = keep_or (en_designation e) (clip_designation (cell_value (tc_cells tc) (cm_designation (tc_col tc))))
           in e\<lparr>en_person_name := name_in_row cfg n (tc_row_text tc),
                en_designation := designation_in_row cfg g (tc_row_text tc)\<rparr>))"

definition apply_fallback_span :: "extraction_config \<Rightarrow> entity \<Rightarrow> entity" where
  "apply_fallback_span cfg e =
     (case cd_fb_span e of
        None \<Rightarrow> e
      | Some sp \<Rightarrow>
          (let window = span_window (xc_proximity_chars cfg) sp
           in e\<lparr>en_person_name := keep_or (en_person_name e) (match_name cfg window),
                en_designation := keep_or (en_designation e) (match_designation cfg window)\<rparr>))"

definition apply_fallback_context :: "extraction_config \<Rightarrow> entity \<Rightarrow> entity" where
  "apply_fallback_context cfg e = apply_fallback_span cfg (apply_fallback_table cfg e)"

definition enrich_table :: "extraction_config \<Rightarrow> entity \<Rightarrow> entity" where
  "enrich_table cfg e =
     (let row_text = (case cd_table e of None \<Rightarrow> [] | Some tc \<Rightarrow> tc_row_text tc);
          cells = (case cd_table e of None \<Rightarrow> [] | Some tc \<Rightarrow> tc_cells tc);
          col = (\<lambda>f. Option.bind (cd_table e) (\<lambda>tc. f (tc_col tc)));
          e1 = e\<lparr>en_context_snippet := take 300 row_text\<rparr>
      in if \<not> xc_person_enabled cfg then e1
         else e1\<lparr>en_person_name := name_in_row cfg (cell_value cells (col cm_name)) row_text,
                 en_designation := designation_in_row cfg (clip_designation (cell_value cells (col cm_designation))) row_text,
                 en_department := cell_value cells (col cm_department)\<rparr>)"

definition enrich_span :: "extraction_config \<Rightarrow> page_dom \<Rightarrow> entity \<Rightarrow> entity" where
  "enrich_span cfg dom_tree e =
     (let sp = (case cd_span e of Some sp \<Rightarrow> sp | None \<Rightarrow> \<lparr>sx_start = 0, sx_end = 0, sx_text = pd_clean_text dom_tree\<rparr>);
          window = span_window (xc_proximity_chars cfg) sp;
          e1 = e\<lparr>en_context_snippet := squeeze (span_window (xc_context_chars cfg) sp)\<rparr>
      in if \<not> xc_person_enabled cfg then e1
         else e1\<lparr>en_person_name := match_name cfg window, en_designation := match_designation cfg window\<rparr>)"

definition enrich_node :: "extraction_config \<Rightarrow> page_dom \<Rightarrow> entity \<Rightarrow> entity" where
  "enrich_node cfg dom_tree e =
     (let t = container_text dom_tree (cd_node e); e1 = e\<lparr>en_context_snippet := take 300 t\<rparr>
      in if \<not> xc_person_enabled cfg then e1
         else e1\<lparr>en_person_name := match_name cfg t, en_designation := match_designation cfg t\<rparr>)"

definition dept_mismatch :: "page_dom \<Rightarrow> string \<Rightarrow> bool" where
  "dept_mismatch dom_tree source_url =
     (let page_dept = dept_from_page dom_tree; url_dept = dept_from_url source_url in
      truthy page_dept \<and> truthy url_dept \<and> py_lower (the page_dept) \<noteq> py_lower (the url_dept))"

definition enrich_entity :: "extraction_config \<Rightarrow> page_dom \<Rightarrow> string \<Rightarrow> entity \<Rightarrow> entity" where
  "enrich_entity cfg dom_tree source_url e =
     (let rung = cd_rung e;
          e1 = (if rung = ''table_block'' then enrich_table cfg e
                else if rung = ''proximity_text'' then enrich_span cfg dom_tree e
                else if rung = ''mailto_tel'' \<or> rung = ''microdata'' then enrich_node cfg dom_tree e
                else e);
          e2 = (if xc_person_enabled cfg \<and> \<not> (truthy (en_person_name e1) \<and> truthy (en_designation e1))
                then apply_fallback_context cfg e1 else e1);
          e3 = (if truthy (en_department e2) then e2 else e2\<lparr>en_department := dept_from_url source_url\<rparr>)
      in if dept_mismatch dom_tree source_url then e3\<lparr>en_dept_mismatch := True\<rparr> else e3)"

definition enrich_fields :: "extraction_config \<Rightarrow> page_dom \<Rightarrow> string \<Rightarrow> entity list \<Rightarrow> entity list" where
  "enrich_fields cfg dom_tree source_url es = map (enrich_entity cfg dom_tree source_url) es"

section \<open>Stage 4: bracketed addresses\<close>

definition deobfuscate :: "(regex \<times> string) list \<Rightarrow> string \<Rightarrow> string" where
  "deobfuscate obfuscation s = foldl (\<lambda>t (pattern, replacement). rx_sub pattern replacement t) s obfuscation"

definition resolve_span :: "extraction_config \<Rightarrow> string \<Rightarrow> string option" where
  "resolve_span cfg raw =
     (let resolved = deobfuscate (xc_obfuscation cfg) raw in
      map_option (\<lambda>m. span_address (xc_valid_suffixes cfg) (hit_text resolved m)) (rx_search (xc_regex cfg) resolved))"

definition resolved_entity :: "extraction_config \<Rightarrow> string \<Rightarrow> entity \<Rightarrow> entity" where
  "resolved_entity cfg addr e =
     (case classify_address cfg addr of (tag, kind) \<Rightarrow>
        e\<lparr>cd_address := Some addr, en_email := Some addr, en_channel_tag := Some tag, en_entity_kind := Some kind\<rparr>)"

fun normalise_loop :: "extraction_config \<Rightarrow> string list \<Rightarrow> entity list \<Rightarrow> entity list" where
  "normalise_loop cfg resolved_emails [] = []"
| "normalise_loop cfg resolved_emails (e # es) =
     (if cd_rung e \<noteq> ''proximity_text'' then e # normalise_loop cfg resolved_emails es
      else if rx_search (build_bracketed_email_re (xc_obfuscation cfg)) (cd_raw_span e) = None
      then e # normalise_loop cfg resolved_emails es
      else (case resolve_span cfg (cd_raw_span e) of
              None \<Rightarrow> normalise_loop cfg resolved_emails es
            | Some addr \<Rightarrow>
                if addr \<in> set resolved_emails then normalise_loop cfg resolved_emails es
                else resolved_entity cfg addr e # normalise_loop cfg (addr # resolved_emails) es))"

definition normalise_spans :: "extraction_config \<Rightarrow> entity list \<Rightarrow> entity list" where
  "normalise_spans cfg es =
     normalise_loop cfg (List.map_filter (\<lambda>e. if truthy (en_email e) then en_email e else None) es) es"

section \<open>Stages 5 and 6: score and emit\<close>

text \<open>\<open>json.dumps\<close> of a dictionary whose strings need no escape.\<close>

definition dumps_flat :: "(string \<times> string) list \<Rightarrow> string" where
  "dumps_flat kvs =
     ''{'' @ py_join '', '' (map (\<lambda>(k, v). [CHR 0x22] @ k @ [CHR 0x22] @ '': '' @ [CHR 0x22] @ v @ [CHR 0x22]) kvs) @ ''}''"

definition dept_rung :: "entity \<Rightarrow> string option" where
  "dept_rung e =
     (if Option.bind (cd_table e) (\<lambda>tc. cm_department (tc_col tc)) \<noteq> None \<and> truthy (en_department e) then Some (cd_rung e)
      else if truthy (en_department e) then Some ''url_default'' else None)"

definition provenance_of :: "entity \<Rightarrow> (string \<times> string) list" where
  "provenance_of e =
     List.map_filter (\<lambda>(k, v). map_option (\<lambda>x. (k, x)) v)
       [(''email'', Some (cd_rung e)),
        (''person_name'', if truthy (en_person_name e) then Some (cd_rung e) else None),
        (''designation'', if truthy (en_designation e) then Some (cd_rung e) else None),
        (''department'', dept_rung e),
        (''phone'', if truthy (cd_phone e) then en_phone_rung e else None)]"

definition score_entity :: "string list \<Rightarrow> entity \<Rightarrow> entity" where
  "score_entity high_rungs e =
     (let band = (if cd_rung e \<in> set high_rungs then ''HIGH'' else ''LOW'')
      in e\<lparr>en_confidence_band := Some (if en_dept_mismatch e \<and> band = ''HIGH'' then ''LOW'' else band),
           en_field_provenance := Some (dumps_flat (provenance_of e))\<rparr>)"

definition lead_of :: "string \<Rightarrow> string \<Rightarrow> entity \<Rightarrow> parsed_lead" where
  "lead_of source_url page_title e =
     \<lparr>pl_email = en_email e, pl_person_name = en_person_name e, pl_designation = en_designation e,
      pl_department = en_department e, pl_source_url = source_url, pl_source_title = page_title,
      pl_context_snippet = en_context_snippet e, pl_entity_kind = en_entity_kind e, pl_phone = cd_phone e,
      pl_channel_tag = en_channel_tag e, pl_confidence_band = en_confidence_band e,
      pl_field_provenance = en_field_provenance e\<rparr>"

fun flatten_emit :: "string \<Rightarrow> string \<Rightarrow> string list \<Rightarrow> entity list \<Rightarrow> parsed_lead list" where
  "flatten_emit source_url page_title seen [] = []"
| "flatten_emit source_url page_title seen (e # es) =
     (if \<not> truthy (en_email e) \<or> the (en_email e) \<in> set seen then flatten_emit source_url page_title seen es
      else lead_of source_url page_title e # flatten_emit source_url page_title (the (en_email e) # seen) es)"

definition lead_pipeline :: "extraction_config \<Rightarrow> page_dom \<Rightarrow> string \<Rightarrow> parsed_lead list" where
  "lead_pipeline cfg dom_tree source_url =
     (let page_title = (if truthy (pd_title dom_tree) then py_strip (the (pd_title dom_tree)) else []);
          candidates = extract_candidates cfg dom_tree;
          bound = bind_channels cfg dom_tree candidates;
          enriched = enrich_fields cfg dom_tree source_url bound;
          normalised = normalise_spans cfg enriched;
          scored = map (score_entity (xc_high_rungs cfg)) normalised
      in flatten_emit source_url page_title [] scored)"

text \<open>
  The pipeline runs in a \<open>try\<close>. What it reads can raise: the configuration (an entry of the wrong
  type, a pattern \<open>re.compile\<close> refuses, compiled in stages 1 and 4) and BeautifulSoup's answers (a
  tree too deep for its recursive walks). The \<open>except\<close> clause logs the error and the page has no lead.
\<close>

definition extract_leads ::
  "py_exn + extraction_config \<Rightarrow> py_exn + page_dom \<Rightarrow> string \<Rightarrow> parsed_lead list" where
  "extract_leads config soup source_url =
     (case config of
        Inl _ \<Rightarrow> []
      | Inr cfg \<Rightarrow> (case soup of Inl _ \<Rightarrow> [] | Inr dom_tree \<Rightarrow> lead_pipeline cfg dom_tree source_url))"

section \<open>Defaults\<close>

text \<open>\<open>[a-zA-Z0-9._%+\-]+@(?:[a-zA-Z0-9\-]+\.)+[a-zA-Z]{2,6}\<close>, ignoring case.\<close>

definition default_email_re :: regex where
  "default_email_re =
     R_seqs [R_plus (R_cls_ci email_char), R_cls (\<lambda>c. c = CHR ''@''),
       R_plus (R_seq (R_plus (R_cls_ci (\<lambda>c. is_alpha c \<or> is_decimal c \<or> c = CHR ''-''))) (R_cls (\<lambda>c. c = CHR ''.''))),
       R_rep 2 (Some 6) (R_cls_ci is_alpha)]"

definition default_extraction :: extraction_config where
  "default_extraction =
     \<lparr>xc_enabled = True, xc_regex = default_email_re, xc_valid_suffixes = [''.gov.in'', ''.nic.in''], xc_obfuscation = [],
      xc_context_chars = 200,
      xc_role_local_parts = [''webmaster'', ''info'', ''admin'', ''contact'', ''support'', ''helpdesk'', ''grievance''],
      xc_max_input_chars = 0, xc_high_rungs = [''mailto_tel'', ''microdata''], xc_person_enabled = True,
      xc_proximity_chars = 300, xc_title_prefixes = [], xc_designation_keywords = []\<rparr>"

end
