(* ===== verification/ParserProps.thy ===== *)
theory ParserProps
  imports LeadParser Leads
begin

text \<open>
  Properties of the extraction pipeline: one lead for every address, none lost from the structured
  sources; bounds on the fields; where the domain of an address is cut; and what the provenance says
  of a department.
\<close>

section \<open>Binding\<close>

definition addresses :: "candidate list \<Rightarrow> string list" where
  "addresses cs = map the (filter truthy (map cd_address cs))"

definition structured :: "candidate \<Rightarrow> bool" where
  "structured c = (0 < rung_rank (cd_rung c))"

lemma keys_dict_put: "map fst (dict_put k v d) = (if k \<in> set (map fst d) then map fst d else map fst d @ [k])"
  by (induction d) (force simp: image_iff)+

lemma contend_sel:
  "rung_rank (cd_rung (contend e c)) = max (rung_rank (cd_rung e)) (rung_rank (cd_rung c))"
  "cd_raw_span (contend e c) \<in> {cd_raw_span e, cd_raw_span c}"
  by (auto simp: contend_def carry_fallback_context_def)

text \<open>The state after the candidates \<open>cs\<close>.\<close>

definition bound_ok :: "candidate list \<Rightarrow> channel_state \<Rightarrow> bool" where
  "bound_ok cs st =
     (distinct (map fst (ch_emails st)) \<and> set (map fst (ch_emails st)) = set (addresses cs) \<and>
      (\<forall>c \<in> set cs. truthy (cd_address c) \<longrightarrow>
         (\<exists>k. map_of (ch_emails st) (the (cd_address c)) = Some k \<and> rung_rank (cd_rung c) \<le> rung_rank (cd_rung k))) \<and>
      (\<forall>k \<in> snd ` set (ch_emails st) \<union> set (ch_bracketed st). cd_raw_span k \<in> cd_raw_span ` set cs))"

lemma set_dict_put: "set (dict_put k v d) \<subseteq> insert (k, v) (set d)"
  by (induction d) (auto split: if_splits)

lemma bound_step:
  assumes "bound_ok cs st"
  shows "bound_ok (cs @ [c]) (bind_candidate st c)"
proof (cases "cd_bracketed c \<and> cd_address c = None")
  case True
  then show ?thesis using assms by (auto simp: bound_ok_def bind_candidate_def addresses_def)
next
  case nb: False
  show ?thesis
  proof (cases "truthy (cd_address c)")
    case False
    then show ?thesis using assms nb by (auto simp: bound_ok_def bind_candidate_def addresses_def)
  next
    case True
    define a where "a = the (cd_address c)"
    define v where "v = (case map_of (ch_emails st) a of None \<Rightarrow> c | Some e \<Rightarrow> contend e c)"
    have st: "bind_candidate st c = st\<lparr>ch_emails := dict_put a v (ch_emails st)\<rparr>"
      using nb True by (cases "cd_address c") (simp_all add: bind_candidate_def a_def v_def Let_def)
    have spans: "cd_raw_span v \<in> cd_raw_span ` set (cs @ [c])"
    proof (cases "map_of (ch_emails st) a")
      case (Some e)
      then have "cd_raw_span e \<in> cd_raw_span ` set cs"
        using assms image_eqI [of e snd "(a, e)" "set (ch_emails st)"] map_of_SomeD [OF Some]
        unfolding bound_ok_def by simp
      moreover have "cd_raw_span v = cd_raw_span e \<or> cd_raw_span v = cd_raw_span c"
        using contend_sel(2) [of e c] by (simp add: v_def Some)
      ultimately show ?thesis by (elim disjE) simp_all
    qed (simp add: v_def)
    have rank_c: "rung_rank (cd_rung c) \<le> rung_rank (cd_rung v)"
      by (simp add: v_def contend_sel(1) split: option.split)
    have rank_old: "rung_rank (cd_rung e) \<le> rung_rank (cd_rung v)" if "map_of (ch_emails st) a = Some e" for e
      using that by (simp add: v_def contend_sel(1))
    have addr: "addresses (cs @ [c]) = addresses cs @ [a]" using True by (simp add: addresses_def a_def)
    have ok: "\<exists>k. map_of (dict_put a v (ch_emails st)) (the (cd_address d)) = Some k \<and> rung_rank (cd_rung d) \<le> rung_rank (cd_rung k)"
      if d: "d \<in> set (cs @ [c])" "truthy (cd_address d)" for d
    proof (cases "the (cd_address d) = a")
      case False
      then have "d \<in> set cs" using d a_def by auto
      then show ?thesis using assms d(2) False by (auto simp: bound_ok_def map_of_dict_put)
    next
      case same: True
      have "rung_rank (cd_rung d) \<le> rung_rank (cd_rung v)"
      proof (cases "d = c")
        case False
        then have "d \<in> set cs" using d by simp
        then obtain k where "map_of (ch_emails st) a = Some k" "rung_rank (cd_rung d) \<le> rung_rank (cd_rung k)"
          using assms d(2) same by (auto simp: bound_ok_def)
        then show ?thesis using rank_old by fastforce
      qed (use rank_c in simp)
      then show ?thesis by (simp add: map_of_dict_put same)
    qed
    have "cd_raw_span k \<in> cd_raw_span ` set (cs @ [c])"
      if k: "k \<in> snd ` set (dict_put a v (ch_emails st)) \<union> set (ch_bracketed st)" for k
    proof -
      have "k = v \<or> k \<in> snd ` set (ch_emails st) \<union> set (ch_bracketed st)"
        using k image_mono [OF set_dict_put [of a v "ch_emails st"], of snd] by auto
      moreover have "cd_raw_span k \<in> cd_raw_span ` set cs" if "k \<in> snd ` set (ch_emails st) \<union> set (ch_bracketed st)"
        using assms that unfolding bound_ok_def by blast
      ultimately show ?thesis using spans by auto
    qed
    then have "\<forall>k \<in> snd ` set (dict_put a v (ch_emails st)) \<union> set (ch_bracketed st). cd_raw_span k \<in> cd_raw_span ` set (cs @ [c])"
      by blast
    moreover have "distinct (map fst (dict_put a v (ch_emails st)))"
      "set (map fst (dict_put a v (ch_emails st))) = set (addresses (cs @ [c]))"
      using assms by (auto simp: bound_ok_def keys_dict_put addr)
    ultimately show ?thesis using ok unfolding st bound_ok_def by simp
  qed
qed

definition bound :: "candidate list \<Rightarrow> channel_state" where
  "bound cs = foldl bind_candidate \<lparr>ch_emails = [], ch_bracketed = [], ch_phones = []\<rparr> cs"

lemma bound_ok: "bound_ok cs (bound cs)"
proof (induction cs rule: rev_induct)
  case Nil
  then show ?case by (simp add: bound_def bound_ok_def addresses_def)
next
  case (snoc c cs)
  then show ?case using bound_step [OF snoc] by (simp add: bound_def)
qed

text \<open>What the later stages leave alone of an entity.\<close>

definition core :: "entity \<Rightarrow> string option \<times> string \<times> string" where
  "core e = (en_email e, cd_rung e, cd_raw_span e)"

lemma update_first_core: "(\<And>e. core (f e) = core e) \<Longrightarrow> map core (update_first p f es) = map core es"
  by (induction es) auto

lemma attach_phone_core: "map core (attach_phone d es pc) = map core es"
  by (simp add: attach_phone_def Let_def update_first_core core_def)

lemma attach_phones_core: "map core (foldl (attach_phone d) es pcs) = map core es"
  by (induction pcs arbitrary: es) (simp_all add: attach_phone_core)

lemma enrich_core: "core (enrich_entity cfg d url e) = core e"
  by (simp add: enrich_entity_def core_def Let_def enrich_table_def enrich_span_def enrich_node_def
      apply_fallback_context_def apply_fallback_table_def apply_fallback_span_def split: option.split)

lemma as_entity_core: "core (as_entity c email tag kind) = (email, cd_rung c, cd_raw_span c)"
  by (simp add: core_def as_entity_def candidate.defs entity.defs)

lemma enriched_core:
  "map core (enrich_fields cfg d url (bind_channels cfg d cs)) =
     map (\<lambda>(a, c). (Some a, cd_rung c, cd_raw_span c)) (ch_emails (bound cs)) @
     map (\<lambda>c. (None, cd_rung c, cd_raw_span c)) (ch_bracketed (bound cs))"
proof -
  have "core (email_entity cfg ac) = (\<lambda>(a, c). (Some a, cd_rung c, cd_raw_span c)) ac" for ac
    by (cases ac) (simp add: email_entity_def as_entity_core split: prod.split)
  moreover have "map core (enrich_fields cfg d url es) = map core es" for es
    by (simp add: enrich_fields_def enrich_core)
  ultimately show ?thesis
    by (simp add: bind_channels_def bound_def [symmetric] Let_def attach_phones_core as_entity_core comp_def)
qed

text \<open>Every entry of the map comes from one candidate: its address, its rung and its span.\<close>

lemma contend_from:
  "(cd_rung (contend e c), cd_raw_span (contend e c)) \<in> {(cd_rung e, cd_raw_span e), (cd_rung c, cd_raw_span c)}"
  by (auto simp: contend_def carry_fallback_context_def)

lemma bound_from:
  "(\<forall>(a, k) \<in> set (ch_emails (bound cs)).
      \<exists>c \<in> set cs. cd_address c = Some a \<and> cd_rung c = cd_rung k \<and> cd_raw_span c = cd_raw_span k) \<and>
   (\<forall>k \<in> set (ch_bracketed (bound cs)). k \<in> set cs \<and> cd_bracketed k)"
proof (induction cs rule: rev_induct)
  case Nil
  then show ?case by (simp add: bound_def)
next
  case (snoc c cs)
  have st: "bound (cs @ [c]) = bind_candidate (bound cs) c" by (simp add: bound_def)
  show ?case
  proof (cases "cd_bracketed c \<and> cd_address c = None \<or> \<not> truthy (cd_address c)")
    case True
    then show ?thesis using snoc by (auto simp: st bind_candidate_def)
  next
    case False
    then obtain a where a: "cd_address c = Some a" by (cases "cd_address c") auto
    define v where "v = (case map_of (ch_emails (bound cs)) a of None \<Rightarrow> c | Some e \<Rightarrow> contend e c)"
    have new: "bind_candidate (bound cs) c = (bound cs)\<lparr>ch_emails := dict_put a v (ch_emails (bound cs))\<rparr>"
      using False a by (simp add: bind_candidate_def v_def)
    have "\<exists>d \<in> set (cs @ [c]). cd_address d = Some a \<and> cd_rung d = cd_rung v \<and> cd_raw_span d = cd_raw_span v"
    proof (cases "map_of (ch_emails (bound cs)) a")
      case None
      then show ?thesis using a by (simp add: v_def)
    next
      case (Some e)
      then obtain d where "d \<in> set cs" "cd_address d = Some a" "cd_rung d = cd_rung e" "cd_raw_span d = cd_raw_span e"
        using snoc map_of_SomeD [OF Some] by fastforce
      then show ?thesis using a contend_from [of e c] by (auto simp: v_def Some)
    qed
    then show ?thesis
      using snoc set_dict_put [of a v "ch_emails (bound cs)"] unfolding st new by fastforce
  qed
qed

section \<open>One lead for every address\<close>

text \<open>
  What a page lists, read off the page and not off the candidates: the recipients of a mailto link
  (the first five), the content of a microdata element, the cells of a table row under a header row
  (of at most 5000 characters), and the text.
\<close>

definition tidy :: "string \<Rightarrow> string" where
  "tidy piece =
     strip_chars ''.'' (py_lower (filter (\<lambda>c. c \<noteq> CHR '' '')
       (strip_chars ([CHR '' '', CHR 0x09, CHR 0x0D, CHR 0x0A] @ '',;<>'' @ [CHR 0x27, CHR 0x22]) piece)))"

definition listed :: "regex \<Rightarrow> string \<Rightarrow> string list" where
  "listed email_re s =
     filter (rx_fullmatch email_re) (filter (\<lambda>a. a \<noteq> []) (map tidy (take 5 (py_split (CHR '','') (of_points (unquote s))))))"

definition link_addresses :: "extraction_config \<Rightarrow> page_dom \<Rightarrow> string list" where
  "link_addresses cfg page_tree =
     concat (map (\<lambda>a. if take 7 (an_href a) = ''mailto:''
                      then listed (xc_regex cfg) (takeWhile (\<lambda>c. c \<noteq> CHR ''?'') (drop 7 (an_href a))) else [])
               (pd_anchors page_tree))"

definition item_addresses :: "extraction_config \<Rightarrow> page_dom \<Rightarrow> string list" where
  "item_addresses cfg page_tree =
     concat (map (\<lambda>el. if py_lower (ip_prop el) = ''email''
                       then listed (xc_regex cfg) (case ip_content el of
                              None \<Rightarrow> ip_text el | Some v \<Rightarrow> if v = [] then ip_text el else v) else [])
               (pd_items page_tree))"

definition found_in :: "extraction_config \<Rightarrow> string \<Rightarrow> string list" where
  "found_in cfg t = map (\<lambda>m. span_address (xc_valid_suffixes cfg) (hit_text t m)) (rx_finditer (xc_regex cfg) t)"

definition row_text :: "table_row \<Rightarrow> string" where
  "row_text row = py_join '' '' (map cl_spaced (tr_cells row))"

definition row_addresses :: "extraction_config \<Rightarrow> page_dom \<Rightarrow> string list" where
  "row_addresses cfg page_tree =
     concat (map (\<lambda>row. if tr_cells row \<noteq> [] \<and> length (row_text row) \<le> 5000
                        then found_in cfg (row_text row) else [])
               (concat (map (drop 1) (pd_tables page_tree))))"

definition scanned_text :: "extraction_config \<Rightarrow> page_dom \<Rightarrow> string" where
  "scanned_text cfg page_tree =
     (if xc_max_input_chars cfg = 0 then pd_text page_tree else take (xc_max_input_chars cfg) (pd_text page_tree))"

definition text_addresses :: "extraction_config \<Rightarrow> page_dom \<Rightarrow> string list" where
  "text_addresses cfg page_tree = found_in cfg (scanned_text cfg page_tree)"

text \<open>Spellings such as \<open>web[at]nic[dot]in\<close>, as the configured markers describe them.\<close>

definition bracketed_re :: "extraction_config \<Rightarrow> regex" where
  "bracketed_re cfg = build_bracketed_email_re (xc_obfuscation cfg)"

definition bracketed_spans :: "extraction_config \<Rightarrow> page_dom \<Rightarrow> string list" where
  "bracketed_spans cfg page_tree =
     map (hit_text (scanned_text cfg page_tree)) (rx_finditer (bracketed_re cfg) (scanned_text cfg page_tree))"

definition page_addresses :: "extraction_config \<Rightarrow> page_dom \<Rightarrow> string list" where
  "page_addresses cfg page_tree =
     filter (\<lambda>a. a \<noteq> [])
       (link_addresses cfg page_tree @ item_addresses cfg page_tree @ row_addresses cfg page_tree @
        filter (\<lambda>a. rx_search (bracketed_re cfg) a = None) (text_addresses cfg page_tree))"

definition resolved_addresses :: "extraction_config \<Rightarrow> page_dom \<Rightarrow> string list" where
  "resolved_addresses cfg page_tree =
     List.map_filter (resolve_span cfg)
       (filter (\<lambda>t. rx_search (bracketed_re cfg) t \<noteq> None) (text_addresses cfg page_tree @ bracketed_spans cfg page_tree))"

subsection \<open>The candidates are what the page lists\<close>

lemma hd_py_split: "hd (py_split d s) = takeWhile (\<lambda>c. c \<noteq> d) s"
  by (induction s) (auto split: list.split)

lemma clean_is_listed: "clean_email_candidates raw email_re = listed email_re raw"
  by (simp add: clean_email_candidates_def listed_def tidy_def [abs_def] EMAIL_STRIP_CHARS_def
      MAX_RECIPIENTS_PER_HREF_def Let_def filter_filter of_points_def unquote_def strip_chars_def
      py_strip_by_def py_lower_def conj_commute)

lemma addresses_simps [simp]:
  "addresses [] = []" "addresses (xs @ ys) = addresses xs @ addresses ys"
  "addresses (concat xss) = concat (map addresses xss)"
  by (simp_all add: addresses_def [abs_def] filter_concat map_concat comp_def)

lemma addresses_plain:
  "addresses (map (\<lambda>a. plain_candidate (Some a) r n (g a) p) as) = filter (\<lambda>a. a \<noteq> []) as"
  by (induction as) (auto simp: addresses_def plain_candidate_def)

lemma listed_nonempty [simp]: "filter (\<lambda>a. a \<noteq> []) (listed r s) = listed r s"
  by (auto simp: listed_def filter_filter intro!: filter_cong)

lemma mailto_prefix: "py_startswith s ''mailto:'' \<longleftrightarrow> take 7 s = ''mailto:''"
proof -
  have "length ''mailto:'' = 7" by simp
  then show ?thesis unfolding py_startswith_def by metis
qed

lemma anchor_addresses:
  "addresses (anchor_candidates r a) =
     (if take 7 (an_href a) = ''mailto:'' then listed r (takeWhile (\<lambda>c. c \<noteq> CHR ''?'') (drop 7 (an_href a))) else [])"
  by (simp add: anchor_candidates_def addresses_plain clean_is_listed hd_py_split mailto_prefix Let_def split: option.split)
    (simp add: addresses_def plain_candidate_def)

lemma item_content: "(if truthy v then the v else t) = (case v of None \<Rightarrow> t | Some w \<Rightarrow> if w = [] then t else w)"
  by (cases v) simp_all

lemma item_addresses_of:
  "addresses (item_candidates r el) =
     (if py_lower (ip_prop el) = ''email''
      then listed r (case ip_content el of None \<Rightarrow> ip_text el | Some v \<Rightarrow> if v = [] then ip_text el else v) else [])"
  by (simp add: item_candidates_def addresses_plain clean_is_listed item_content Let_def)
    (simp add: addresses_def plain_candidate_def)

lemma row_addresses_of:
  "addresses (row_candidates cfg col row) =
     (if tr_cells row \<noteq> [] \<and> length (row_text row) \<le> 5000 then filter (\<lambda>a. a \<noteq> []) (found_in cfg (row_text row)) else [])"
proof -
  have "addresses (map (\<lambda>m. let addr = f m in (plain_candidate (Some addr) ''table_block'' n addr None)\<lparr>cd_table := tc\<rparr>) ms) =
      filter (\<lambda>a. a \<noteq> []) (map f ms)" for f n tc and ms :: "rx_hit list"
    by (induction ms) (simp_all add: addresses_def plain_candidate_def Let_def)
  then show ?thesis
    by (simp add: row_candidates_def row_text_def [symmetric] found_in_def MAX_ROW_SCAN_CHARS_def Let_def)
qed

lemma table_addresses_of:
  "addresses (table_candidates cfg trs) =
     filter (\<lambda>a. a \<noteq> []) (concat (map (\<lambda>row. if tr_cells row \<noteq> [] \<and> length (row_text row) \<le> 5000
        then found_in cfg (row_text row) else []) (drop 1 trs)))"
  by (cases trs) (auto simp: table_candidates_def row_addresses_of filter_concat comp_def intro!: arg_cong [where f = concat])

lemma unseen_spans_keys:
  "set (map fst (fst (unseen_spans key t seen ms))) = set (map (key \<circ> hit_text t) ms) - set seen"
  "\<forall>(k, m) \<in> set (fst (unseen_spans key t seen ms)). m \<in> set ms \<and> k = key (hit_text t m)"
proof -
  show "set (map fst (fst (unseen_spans key t seen ms))) = set (map (key \<circ> hit_text t) ms) - set seen"
  proof (induction key t seen ms rule: unseen_spans.induct)
    case (2 key t seen m ms)
    show ?case
    proof (cases "key (hit_text t m) \<in> set seen")
      case True
      then show ?thesis using 2(1) by auto
    next
      case False
      then show ?thesis using 2(2) by (simp add: Let_def split_beta) blast
    qed
  qed simp
  show "\<forall>(k, m) \<in> set (fst (unseen_spans key t seen ms)). m \<in> set ms \<and> k = key (hit_text t m)"
    by (induction key t seen ms rule: unseen_spans.induct) (auto simp: Let_def split: prod.split)
qed

text \<open>The candidates of the text: an address found in it, or a bracketed span without an address.\<close>

lemma proximity_source:
  assumes "c \<in> set (proximity_candidates cfg t)"
  shows "cd_rung c = ''proximity_text''"
    "(\<exists>a \<in> set (found_in cfg t). cd_address c = Some a \<and> cd_raw_span c = a \<and> \<not> cd_bracketed c) \<or>
     cd_address c = None \<and> cd_bracketed c \<and> cd_raw_span c \<in> hit_text t ` set (rx_finditer (bracketed_re cfg) t)"
proof -
  obtain ps seen where u: "unseen_spans (span_address (xc_valid_suffixes cfg)) t [] (rx_finditer (xc_regex cfg) t) = (ps, seen)"
    by fastforce
  obtain bs seen' where b: "unseen_spans py_lower t seen (rx_finditer (build_bracketed_email_re (xc_obfuscation cfg)) t) = (bs, seen')"
    by fastforce
  have c: "c \<in> (\<lambda>(a, m). span_candidate t (Some a) a m False) ` set ps \<or>
      c \<in> (\<lambda>(_, m). span_candidate t None (hit_text t m) m True) ` set bs"
    using assms u b by (auto simp: proximity_candidates_def)
  then show "cd_rung c = ''proximity_text''"
    by (auto simp: span_candidate_def plain_candidate_def)
  have "a \<in> set (found_in cfg t)" if "(a, m) \<in> set ps" for a m
    using that unseen_spans_keys(2) [of "span_address (xc_valid_suffixes cfg)" t "[]" "rx_finditer (xc_regex cfg) t"] u
    by (auto simp: found_in_def)
  moreover have "m \<in> set (rx_finditer (bracketed_re cfg) t)" if "(k, m) \<in> set bs" for k m
    using that unseen_spans_keys(2) [of py_lower t seen "rx_finditer (bracketed_re cfg) t"] b
    by (auto simp: bracketed_re_def)
  ultimately show "(\<exists>a \<in> set (found_in cfg t). cd_address c = Some a \<and> cd_raw_span c = a \<and> \<not> cd_bracketed c) \<or>
     cd_address c = None \<and> cd_bracketed c \<and> cd_raw_span c \<in> hit_text t ` set (rx_finditer (bracketed_re cfg) t)"
    using c by (fastforce simp: span_candidate_def plain_candidate_def)
qed

lemma proximity_complete:
  assumes "a \<in> set (found_in cfg t)"
  shows "\<exists>c \<in> set (proximity_candidates cfg t). cd_address c = Some a"
proof -
  obtain ps seen where u: "unseen_spans (span_address (xc_valid_suffixes cfg)) t [] (rx_finditer (xc_regex cfg) t) = (ps, seen)"
    by fastforce
  have "a \<in> set (map fst ps)"
    using assms unseen_spans_keys(1) [of "span_address (xc_valid_suffixes cfg)" t "[]" "rx_finditer (xc_regex cfg) t"] u
    by (auto simp: found_in_def)
  then obtain m where "(a, m) \<in> set ps" by auto
  then have "span_candidate t (Some a) a m False \<in> set (proximity_candidates cfg t)"
    using u imageI [of "(a, m)" "set ps" "\<lambda>(a, m). span_candidate t (Some a) a m False"]
    by (cases "unseen_spans py_lower t seen (rx_finditer (build_bracketed_email_re (xc_obfuscation cfg)) t)")
      (simp add: proximity_candidates_def)
  then show ?thesis
    by (rule rev_bexI) (simp add: span_candidate_def plain_candidate_def)
qed

text \<open>The candidates of the structured sources, in the order of the stage.\<close>

definition source_candidates :: "extraction_config \<Rightarrow> page_dom \<Rightarrow> candidate list" where
  "source_candidates cfg page_tree =
     concat (map (anchor_candidates (xc_regex cfg)) (pd_anchors page_tree)) @
     concat (map (item_candidates (xc_regex cfg)) (pd_items page_tree)) @
     concat (map (table_candidates cfg) (pd_tables page_tree))"

lemma extract_split:
  "extract_candidates cfg page_tree =
     (if xc_enabled cfg then source_candidates cfg page_tree @ proximity_candidates cfg (scanned_text cfg page_tree) else [])"
  by (simp add: extract_candidates_def source_candidates_def scanned_text_def)

lemma source_addresses:
  "addresses (source_candidates cfg page_tree) =
     filter (\<lambda>a. a \<noteq> []) (link_addresses cfg page_tree @ item_addresses cfg page_tree @ row_addresses cfg page_tree)"
proof -
  have nonempty: "filter (\<lambda>a. a \<noteq> []) (concat (map f xs)) = concat (map f xs)"
    if "\<And>x. filter (\<lambda>a. a \<noteq> []) (f x) = f x" for f :: "'b \<Rightarrow> string list" and xs
    by (simp add: filter_concat comp_def that)
  have flat: "concat (concat xss) = concat (map concat xss)" for xss :: "'b list list list"
    by (induction xss) simp_all
  have tables: "filter (\<lambda>a. a \<noteq> []) (row_addresses cfg page_tree) = concat (map (addresses \<circ> table_candidates cfg) (pd_tables page_tree))"
    by (simp add: row_addresses_def table_addresses_of [abs_def] comp_def filter_concat map_concat flat)
  have "filter (\<lambda>a. a \<noteq> []) (link_addresses cfg page_tree) = link_addresses cfg page_tree"
    "filter (\<lambda>a. a \<noteq> []) (item_addresses cfg page_tree) = item_addresses cfg page_tree"
    unfolding link_addresses_def item_addresses_def by (rule nonempty; simp)+
  then show ?thesis
    by (simp add: tables source_candidates_def link_addresses_def item_addresses_def anchor_addresses item_addresses_of comp_def)
qed

lemma rank_simps: "rung_rank ''mailto_tel'' = 3" "rung_rank ''microdata'' = 2" "rung_rank ''table_block'' = 1" "rung_rank ''proximity_text'' = 0"
  by (simp_all add: rung_rank_def RUNG_ORDER_def)

lemma source_structured:
  "c \<in> set (source_candidates cfg page_tree) \<Longrightarrow> structured c"
  by (auto simp: source_candidates_def anchor_candidates_def item_candidates_def table_candidates_def row_candidates_def
      plain_candidate_def structured_def rank_simps Let_def split: if_splits option.splits)

subsection \<open>From candidates to leads\<close>

lemma normalise_keeps:
  "e \<in> set es \<Longrightarrow> cd_rung e \<noteq> ''proximity_text'' \<or> rx_search (bracketed_re cfg) (cd_raw_span e) = None \<Longrightarrow>
   e \<in> set (normalise_loop cfg r es)"
  by (induction cfg r es rule: normalise_loop.induct) (auto simp: bracketed_re_def split: option.splits)

lemma resolved_email [simp]: "en_email (resolved_entity cfg addr e) = Some addr"
  by (simp add: resolved_entity_def split: prod.split)

lemma normalise_source:
  "e' \<in> set (normalise_loop cfg r es) \<Longrightarrow>
     e' \<in> set es \<and> (cd_rung e' \<noteq> ''proximity_text'' \<or> rx_search (bracketed_re cfg) (cd_raw_span e') = None) \<or>
     (\<exists>e \<in> set es. cd_rung e = ''proximity_text'' \<and> rx_search (bracketed_re cfg) (cd_raw_span e) \<noteq> None \<and>
        en_email e' = resolve_span cfg (cd_raw_span e) \<and> en_email e' \<noteq> None)"
proof (induction es arbitrary: r)
  case (Cons e es)
  from Cons.prems consider "e' = e" "cd_rung e \<noteq> ''proximity_text'' \<or> rx_search (bracketed_re cfg) (cd_raw_span e) = None"
    | r' where "e' \<in> set (normalise_loop cfg r' es)"
    | addr where "e' = resolved_entity cfg addr e" "resolve_span cfg (cd_raw_span e) = Some addr"
        "cd_rung e = ''proximity_text''" "rx_search (bracketed_re cfg) (cd_raw_span e) \<noteq> None"
    by (auto simp: bracketed_re_def split: if_splits option.splits)
  then show ?case
  proof cases
    case 2
    then show ?thesis using Cons.IH by fastforce
  qed simp_all
qed simp

lemma flatten_emails:
  "distinct (map pl_email (flatten_emit url title seen es)) \<and>
   set (map pl_email (flatten_emit url title seen es)) = en_email ` {e \<in> set es. truthy (en_email e)} - Some ` set seen"
proof (induction url title seen es rule: flatten_emit.induct)
  case (2 url title seen e es)
  show ?case
  proof (cases "truthy (en_email e)")
    case True
    then obtain a where a: "en_email e = Some a" by (cases "en_email e") auto
    show ?thesis
    proof (cases "a \<in> set seen")
      case True
      then show ?thesis using 2(1) a by auto
    next
      case False
      have emails: "pl_email (lead_of url title e) = Some a" by (simp add: lead_of_def a)
      have here: "Some a \<in> en_email ` {x. (x = e \<or> x \<in> set es) \<and> truthy (en_email x)}"
        using True a by (intro image_eqI [of _ _ e]) simp_all
      show ?thesis using 2(2) True False here by (auto simp: a emails)
    qed
  next
    case False
    then show ?thesis using 2(1) by auto
  qed
qed simp

lemma score_email [simp]: "en_email (score_entity h e) = en_email e"
  by (simp add: score_entity_def Let_def)

text \<open>The entities that reach stage 6, and their emails: the emails of the leads.\<close>

definition entities_of :: "extraction_config \<Rightarrow> page_dom \<Rightarrow> string \<Rightarrow> entity list" where
  "entities_of cfg page_tree url = enrich_fields cfg page_tree url (bind_channels cfg page_tree (extract_candidates cfg page_tree))"

lemma found_emails:
  "distinct (map pl_email (lead_pipeline cfg page_tree url))"
  "set (map pl_email (lead_pipeline cfg page_tree url)) =
     en_email ` {e \<in> set (normalise_spans cfg (entities_of cfg page_tree url)). truthy (en_email e)}"
proof -
  have img: "en_email ` {e \<in> score_entity h ` S. truthy (en_email e)} = en_email ` {e \<in> S. truthy (en_email e)}" for h S
    by (force simp: image_iff)
  show "distinct (map pl_email (lead_pipeline cfg page_tree url))"
    using flatten_emails unfolding lead_pipeline_def Let_def by blast
  show "set (map pl_email (lead_pipeline cfg page_tree url)) =
     en_email ` {e \<in> set (normalise_spans cfg (entities_of cfg page_tree url)). truthy (en_email e)}"
    unfolding lead_pipeline_def Let_def entities_of_def [symmetric]
    using flatten_emails [of url _ "[]" "map (score_entity (xc_high_rungs cfg)) (normalise_spans cfg (entities_of cfg page_tree url))"]
    by (simp add: img)
qed

text \<open>An entity of the page comes from a candidate with its address, its rung and its span.\<close>

lemma entity_source:
  assumes "e \<in> set (entities_of cfg page_tree url)"
  shows "(\<exists>a. \<exists>c \<in> set (extract_candidates cfg page_tree).
            core e = (Some a, cd_rung c, cd_raw_span c) \<and> cd_address c = Some a) \<or>
         (\<exists>c \<in> set (extract_candidates cfg page_tree). core e = (None, cd_rung c, cd_raw_span c) \<and> cd_bracketed c)"
proof -
  let ?cs = "extract_candidates cfg page_tree"
  have "core e \<in> set (map core (entities_of cfg page_tree url))" using assms by simp
  then consider a k where "(a, k) \<in> set (ch_emails (bound ?cs))" "core e = (Some a, cd_rung k, cd_raw_span k)"
    | k where "k \<in> set (ch_bracketed (bound ?cs))" "core e = (None, cd_rung k, cd_raw_span k)"
    unfolding entities_of_def enriched_core by auto
  then show ?thesis
  proof cases
    case 1
    obtain c where c: "c \<in> set ?cs" "cd_address c = Some a" "cd_rung c = cd_rung k" "cd_raw_span c = cd_raw_span k"
      using bspec [OF conjunct1 [OF bound_from [of ?cs]] 1(1)] by auto
    have "core e = (Some a, cd_rung c, cd_raw_span c)" by (simp add: 1(2) c)
    then show ?thesis using c(1,2) by blast
  next
    case 2
    then show ?thesis using conjunct2 [OF bound_from [of ?cs]] by blast
  qed
qed

lemma entity_of_address:
  assumes "a \<in> set (addresses (extract_candidates cfg page_tree))"
  shows "\<exists>e \<in> set (entities_of cfg page_tree url). \<exists>c \<in> set (extract_candidates cfg page_tree).
           core e = (Some a, cd_rung c, cd_raw_span c) \<and> cd_address c = Some a \<and>
           (\<forall>d \<in> set (extract_candidates cfg page_tree). cd_address d = Some a \<longrightarrow> rung_rank (cd_rung d) \<le> rung_rank (cd_rung c))"
proof -
  let ?cs = "extract_candidates cfg page_tree"
  have ne: "a \<noteq> []" using assms by (auto simp: addresses_def truthy_def split: option.splits)
  have ok: "bound_ok ?cs (bound ?cs)" by (rule bound_ok)
  then have "a \<in> set (map fst (ch_emails (bound ?cs)))" using assms by (simp add: bound_ok_def)
  then obtain k where k: "map_of (ch_emails (bound ?cs)) a = Some k"
    by (metis map_of_eq_None_iff not_None_eq set_map)
  have rank: "rung_rank (cd_rung d) \<le> rung_rank (cd_rung k)" if d: "d \<in> set ?cs" "cd_address d = Some a" for d
  proof -
    have "truthy (cd_address d)" "the (cd_address d) = a" using d(2) ne by simp_all
    then show ?thesis using ok d(1) k unfolding bound_ok_def by fastforce
  qed
  obtain c where c: "c \<in> set ?cs" "cd_address c = Some a" "cd_rung c = cd_rung k" "cd_raw_span c = cd_raw_span k"
    using conjunct1 [OF bound_from [of ?cs]] map_of_SomeD [OF k] by fastforce
  have "(Some a, cd_rung k, cd_raw_span k) \<in> set (map core (entities_of cfg page_tree url))"
    using map_of_SomeD [OF k] unfolding entities_of_def enriched_core by force
  then obtain e where "e \<in> set (entities_of cfg page_tree url)" "core e = (Some a, cd_rung k, cd_raw_span k)" by auto
  then show ?thesis using c rank by (intro bexI [of _ e] bexI [of _ c]) auto
qed

lemma candidate_kinds:
  assumes "xc_enabled cfg" "c \<in> set (extract_candidates cfg page_tree)"
  shows "c \<in> set (source_candidates cfg page_tree) \<and> structured c \<or>
    cd_rung c = ''proximity_text'' \<and>
    ((\<exists>a \<in> set (text_addresses cfg page_tree). cd_address c = Some a \<and> cd_raw_span c = a \<and> \<not> cd_bracketed c) \<or>
     cd_address c = None \<and> cd_bracketed c \<and> cd_raw_span c \<in> set (bracketed_spans cfg page_tree))"
  using assms proximity_source [of c cfg "scanned_text cfg page_tree"] source_structured [of c cfg page_tree]
  by (auto simp: extract_split text_addresses_def bracketed_spans_def)

lemma structured_rung: "structured c \<Longrightarrow> cd_rung c \<noteq> ''proximity_text''"
  by (auto simp: structured_def rank_simps)

lemma source_not_bracketed: "c \<in> set (source_candidates cfg page_tree) \<Longrightarrow> \<not> cd_bracketed c"
  by (auto simp: source_candidates_def anchor_candidates_def item_candidates_def table_candidates_def row_candidates_def
      plain_candidate_def Let_def split: if_splits option.splits)

lemma page_address_found:
  assumes "xc_enabled cfg" "a \<in> set (page_addresses cfg page_tree)"
  shows "Some a \<in> set (map pl_email (lead_pipeline cfg page_tree url))"
proof -
  let ?cs = "extract_candidates cfg page_tree"
  have ne: "a \<noteq> []" using assms(2) by (auto simp: page_addresses_def)
  have src: "\<exists>c \<in> set ?cs. cd_address c = Some a \<and> (structured c \<or> rx_search (bracketed_re cfg) a = None)"
  proof (cases "a \<in> set (addresses (source_candidates cfg page_tree))")
    case True
    then obtain c where c: "c \<in> set (source_candidates cfg page_tree)" "cd_address c = Some a"
      by (auto simp: addresses_def truthy_def split: option.splits)
    then show ?thesis using source_structured [OF c(1)] assms(1) by (auto simp: extract_split)
  next
    case False
    then have t: "a \<in> set (found_in cfg (scanned_text cfg page_tree))" "rx_search (bracketed_re cfg) a = None"
      using assms(2) by (auto simp: page_addresses_def source_addresses text_addresses_def)
    then show ?thesis using proximity_complete [OF t(1)] assms(1) by (auto simp: extract_split)
  qed
  then obtain d where d: "d \<in> set ?cs" "cd_address d = Some a" "structured d \<or> rx_search (bracketed_re cfg) a = None" by blast
  have "a \<in> set (addresses ?cs)" using d(1,2) ne by (force simp: addresses_def)
  from entity_of_address [OF this, of url]
  obtain e c where e: "e \<in> set (entities_of cfg page_tree url)" "c \<in> set ?cs" "core e = (Some a, cd_rung c, cd_raw_span c)"
      "cd_address c = Some a" "\<forall>d \<in> set ?cs. cd_address d = Some a \<longrightarrow> rung_rank (cd_rung d) \<le> rung_rank (cd_rung c)"
    by blast
  have "cd_rung e \<noteq> ''proximity_text'' \<or> rx_search (bracketed_re cfg) (cd_raw_span e) = None"
  proof (cases "structured c")
    case True
    then show ?thesis using structured_rung e(3) by (auto simp: core_def)
  next
    case False
    then have "\<not> structured d" using e(5) d(1,2) by (fastforce simp: structured_def)
    moreover have "cd_raw_span c = a" using candidate_kinds [OF assms(1) e(2)] False e(4) by auto
    ultimately show ?thesis using d(3) e(3) by (auto simp: core_def)
  qed
  then have "e \<in> set (normalise_spans cfg (entities_of cfg page_tree url))"
    unfolding normalise_spans_def by (rule normalise_keeps [OF e(1)])
  moreover have "en_email e = Some a" using e(3) by (simp add: core_def)
  ultimately show ?thesis using ne unfolding found_emails(2) by (intro image_eqI [of _ _ e]) simp_all
qed

lemma set_map_filter: "set (List.map_filter f xs) = {y. \<exists>x \<in> set xs. f x = Some y}"
  by (force simp: List.map_filter_def)

lemma found_is_listed:
  assumes "xc_enabled cfg" "x \<in> set (map pl_email (lead_pipeline cfg page_tree url))"
  shows "x \<in> Some ` (set (page_addresses cfg page_tree) \<union> set (resolved_addresses cfg page_tree))"
proof -
  let ?cs = "extract_candidates cfg page_tree"
  obtain e' where e': "e' \<in> set (normalise_spans cfg (entities_of cfg page_tree url))" "en_email e' = x" "truthy x"
    using assms(2) unfolding found_emails(2) by auto
  consider "e' \<in> set (entities_of cfg page_tree url)" "cd_rung e' \<noteq> ''proximity_text'' \<or> rx_search (bracketed_re cfg) (cd_raw_span e') = None"
    | e where "e \<in> set (entities_of cfg page_tree url)" "cd_rung e = ''proximity_text''" "rx_search (bracketed_re cfg) (cd_raw_span e) \<noteq> None"
        "x = resolve_span cfg (cd_raw_span e)"
    using normalise_source [OF e'(1) [unfolded normalise_spans_def]] unfolding e'(2) by metis
  then show ?thesis
  proof cases
    case 1
    obtain a c where c: "c \<in> set ?cs" "core e' = (Some a, cd_rung c, cd_raw_span c)" "cd_address c = Some a" "x = Some a"
      using entity_source [OF 1(1)] e'(2,3) by (auto simp: core_def)
    have ne: "a \<noteq> []" using c(4) e'(3) by simp
    have "a \<in> set (page_addresses cfg page_tree)"
      using candidate_kinds [OF assms(1) c(1)]
    proof
      assume "c \<in> set (source_candidates cfg page_tree) \<and> structured c"
      then have "a \<in> set (addresses (source_candidates cfg page_tree))" using c(3) ne by (force simp: addresses_def)
      then show ?thesis by (auto simp: source_addresses page_addresses_def)
    next
      assume "cd_rung c = ''proximity_text'' \<and>
        ((\<exists>a \<in> set (text_addresses cfg page_tree). cd_address c = Some a \<and> cd_raw_span c = a \<and> \<not> cd_bracketed c) \<or>
         cd_address c = None \<and> cd_bracketed c \<and> cd_raw_span c \<in> set (bracketed_spans cfg page_tree))"
      moreover have "cd_rung e' = cd_rung c" "cd_raw_span e' = cd_raw_span c" using c(2) by (simp_all add: core_def)
      ultimately have "a \<in> set (text_addresses cfg page_tree)" "rx_search (bracketed_re cfg) a = None"
        using c(3) 1(2) by auto
      then show ?thesis using ne by (simp add: page_addresses_def)
    qed
    then show ?thesis using c(4) by simp
  next
    case 2
    obtain c where c: "c \<in> set ?cs" "cd_rung e = cd_rung c" "cd_raw_span e = cd_raw_span c"
      using entity_source [OF 2(1)] by (auto simp: core_def)
    then have "\<not> structured c" using 2(2) structured_rung by auto
    then have "cd_raw_span c \<in> set (text_addresses cfg page_tree) \<union> set (bracketed_spans cfg page_tree)"
      using candidate_kinds [OF assms(1) c(1)] by auto
    moreover obtain a where "x = Some a" using e'(3) by (cases x) auto
    ultimately have "a \<in> set (resolved_addresses cfg page_tree)"
      using 2(3,4) unfolding resolved_addresses_def set_map_filter c(3) by (intro CollectI bexI [of _ "cd_raw_span c"]) auto
    then show ?thesis using \<open>x = Some a\<close> by simp
  qed
qed

lemma nothing_when_disabled: "\<not> xc_enabled cfg \<Longrightarrow> lead_pipeline cfg page_tree url = []"
  by (simp add: lead_pipeline_def extract_candidates_def bind_channels_def enrich_fields_def normalise_spans_def)


section \<open>Designations\<close>

lemma search_before:
  assumes "j < (case search_from False r i b s of None \<Rightarrow> length s | Some h \<Rightarrow> rh_start h - i)"
  shows "\<exists>b'. rx r (b', drop j s) = []"
  using assms
proof (induction s arbitrary: i b j)
  case Nil
  then show ?case using match_at_rest(3) [of False r i "(b, [])"] by (auto split: option.splits)
next
  case (Cons c s)
  show ?case
  proof (cases "match_at False r i (b, c # s)")
    case (Some h)
    then show ?thesis using Cons.prems match_at_rest(3) [OF Some] by simp
  next
    case None
    then have here: "rx r (b, c # s) = []" by (auto simp: match_at_def split: list.splits)
    show ?thesis
    proof (cases j)
      case 0
      then show ?thesis using here by auto
    next
      case (Suc k)
      have "k < (case search_from False r (Suc i) (Some c) s of None \<Rightarrow> length s | Some h \<Rightarrow> rh_start h - Suc i)"
        using Cons.prems None Suc by (auto split: option.splits)
      from Cons.IH [OF this] show ?thesis by (simp add: Suc)
    qed
  qed
qed

definition clean_text :: "string \<Rightarrow> bool" where
  "clean_text s = (CHR ''@'' \<notin> set s \<and> CHR 0x0A \<notin> set s)"

lemma strip_by_subset: "set (py_strip_by p s) \<subseteq> set s"
  by (auto simp: py_strip_by_def dest!: set_dropWhileD)

lemma stop_rx_class: "rx designation_stop_re k = [] \<Longrightarrow> snd k = c # t \<Longrightarrow> c \<noteq> CHR ''@'' \<and> c \<noteq> CHR 0x0A"
  by (auto simp: designation_stop_re_def R_alts_def)

lemma clip_designation_clean:
  assumes "clip_designation v = Some g"
  shows "g \<noteq> []" "length g \<le> 60" "clean_text g"
proof -
  define window where "window = take 120 (the v)"
  define e where "e = (case rx_search designation_stop_re window of Some stop \<Rightarrow> rh_start stop | None \<Rightarrow> length window)"
  define cleaned where "cleaned = strip_chars '' ,.-'' (squeeze (take e window))"
  have g: "cleaned \<noteq> []" "g = take 60 cleaned"
    using assms unfolding clip_designation_def Let_def window_def [symmetric] e_def [symmetric] cleaned_def [symmetric]
    by (simp_all split: if_splits)
  have "c \<noteq> CHR ''@'' \<and> c \<noteq> CHR 0x0A" if "c \<in> set (take e window)" for c
  proof -
    obtain j where j: "j < e" "j < length window" "window ! j = c"
      using \<open>c \<in> _\<close> by (auto simp: in_set_conv_nth)
    have "j < (case search_from False designation_stop_re 0 None window of None \<Rightarrow> length window | Some h \<Rightarrow> rh_start h - 0)"
      using j(1) unfolding e_def rx_search_def by (simp split: option.splits)
    from search_before [OF this] obtain b' where b: "rx designation_stop_re (b', drop j window) = []" by blast
    have "snd (b', drop j window) = c # drop (Suc j) window" using j(3) Cons_nth_drop_Suc [OF j(2)] by simp
    from stop_rx_class [OF b this] show ?thesis .
  qed
  then have "clean_text (take e window)" by (auto simp: clean_text_def)
  moreover have "set cleaned \<subseteq> insert (CHR '' '') (set (take e window))"
    using strip_by_subset squeeze_subset unfolding cleaned_def strip_chars_def by fastforce
  moreover have "CHR '' '' \<noteq> CHR ''@''" "CHR '' '' \<noteq> CHR 0x0A" by simp_all
  ultimately have "clean_text cleaned" unfolding clean_text_def by blast
  then show "clean_text g" using set_take_subset [of 60 cleaned] g(2) unfolding clean_text_def by blast
  show "g \<noteq> []" "length g \<le> 60" using g by simp_all
qed

definition designation_ok :: "string option \<Rightarrow> bool" where
  "designation_ok v = (case v of None \<Rightarrow> True | Some g \<Rightarrow> g \<noteq> [] \<and> length g \<le> 60 \<and> clean_text g)"

lemma designation_ok_clip: "designation_ok (clip_designation v)"
  using clip_designation_clean by (auto simp: designation_ok_def split: option.split)

lemma designation_ok_simps [simp]:
  "designation_ok None" "designation_ok (match_designation cfg t)"
  "designation_ok a \<Longrightarrow> designation_ok b \<Longrightarrow> designation_ok (keep_or a b)"
proof -
  show "designation_ok None" by (simp add: designation_ok_def)
  then show "designation_ok (match_designation cfg t)" by (simp add: match_designation_def designation_ok_clip split: option.split)
  show "designation_ok a \<Longrightarrow> designation_ok b \<Longrightarrow> designation_ok (keep_or a b)" by (simp add: keep_or_def)
qed

lemma enrich_designation: "designation_ok (en_designation e) \<Longrightarrow> designation_ok (en_designation (enrich_entity cfg d url e))"
  by (simp add: enrich_entity_def Let_def enrich_table_def enrich_span_def enrich_node_def apply_fallback_context_def
      apply_fallback_table_def apply_fallback_span_def designation_in_row_def designation_ok_clip split: option.split)

lemma attach_phone_designation: "map en_designation (attach_phone d es pc) = map en_designation es"
proof -
  have "(\<And>e. en_designation (f e) = en_designation e) \<Longrightarrow> map en_designation (update_first p f es) = map en_designation es" for p f
    by (induction es) auto
  then show ?thesis by (simp add: attach_phone_def Let_def)
qed

lemma bind_designation: "list_all (\<lambda>e. en_designation e = None) (bind_channels cfg d cs)"
proof -
  have "map en_designation (foldl (attach_phone d) es pcs) = map en_designation es" for es pcs
    by (induction pcs arbitrary: es) (simp_all add: attach_phone_designation)
  moreover have "en_designation (email_entity cfg ac) = None" for ac
    by (simp add: email_entity_def as_entity_def candidate.defs entity.defs split: prod.split)
  moreover have "en_designation (as_entity c None None None) = None" for c
    by (simp add: as_entity_def candidate.defs entity.defs)
  ultimately have "en_designation e = None" if "e \<in> set (bind_channels cfg d cs)" for e
  proof -
    have "en_designation e \<in> set (map en_designation (bind_channels cfg d cs))" using that by simp
    also have "\<dots> \<subseteq> {None}"
      using \<open>\<And>es pcs. map en_designation (foldl (attach_phone d) es pcs) = map en_designation es\<close>
        \<open>\<And>ac. en_designation (email_entity cfg ac) = None\<close> \<open>\<And>c. en_designation (as_entity c None None None) = None\<close>
      by (auto simp: bind_channels_def Let_def)
    finally show ?thesis by simp
  qed
  then show ?thesis by (simp add: list_all_iff)
qed

lemma normalise_designation: "e' \<in> set (normalise_loop cfg r es) \<Longrightarrow> \<exists>e \<in> set es. en_designation e' = en_designation e"
proof (induction es arbitrary: r)
  case (Cons e es)
  have "en_designation (resolved_entity cfg a e) = en_designation e" for a
    by (simp add: resolved_entity_def split: prod.split)
  with Cons.prems consider "en_designation e' = en_designation e" | r' where "e' \<in> set (normalise_loop cfg r' es)"
    by (auto split: if_splits option.splits)
  then show ?case using Cons.IH by cases auto
qed simp

lemma flatten_source: "l \<in> set (flatten_emit url title seen es) \<Longrightarrow> \<exists>e \<in> set es. l = lead_of url title e"
  by (induction url title seen es rule: flatten_emit.induct) (auto split: if_splits)

text \<open>
  A designation never runs into contact data. The designation of an extracted lead is missing or has
  between 1 and 60 characters, and contains no at sign and no line break, whatever table cell, row or
  text it was cut from.
\<close>

theorem designations_are_clipped:
  "list_all (\<lambda>l. designation_ok (pl_designation l)) (extract_leads config soup url)"
proof -
  have pipeline: "list_all (\<lambda>l. designation_ok (pl_designation l)) (lead_pipeline cfg page_tree url)" for cfg page_tree
  proof -
    define es where "es = enrich_fields cfg page_tree url (bind_channels cfg page_tree (extract_candidates cfg page_tree))"
    have es: "designation_ok (en_designation e)" if "e \<in> set es" for e
      using that bind_designation enrich_designation by (fastforce simp: es_def enrich_fields_def list_all_iff)
    have "designation_ok (pl_designation l)" if l: "l \<in> set (lead_pipeline cfg page_tree url)" for l
    proof -
      obtain title e where "e \<in> set (map (score_entity (xc_high_rungs cfg)) (normalise_spans cfg es))" "l = lead_of url title e"
        using l flatten_source unfolding lead_pipeline_def Let_def es_def [symmetric] by blast
      then obtain n where n: "n \<in> set (normalise_spans cfg es)" "e = score_entity (xc_high_rungs cfg) n" by auto
      have "pl_designation l = en_designation n"
        using n(2) \<open>l = _\<close> by (simp add: lead_of_def score_entity_def Let_def)
      moreover obtain e0 where "e0 \<in> set es" "en_designation n = en_designation e0"
        using normalise_designation n(1) unfolding normalise_spans_def by blast
      ultimately show ?thesis using es by simp
    qed
    then show ?thesis by (simp add: list_all_iff)
  qed
  then show ?thesis by (simp add: extract_leads_def split: sum.split)
qed

section \<open>Where an address is cut\<close>

text \<open>The reference: the shortest prefix of the host that ends with a known suffix, else the host.\<close>

definition shortest_known :: "string list \<Rightarrow> string \<Rightarrow> string" where
  "shortest_known suffixes host =
     (case List.find (\<lambda>n. list_ex (py_endswith (take n host)) suffixes) [0..<Suc (length host)] of
        Some n \<Rightarrow> take n host
      | None \<Rightarrow> host)"

definition is_least :: "(nat \<Rightarrow> bool) \<Rightarrow> nat option \<Rightarrow> nat \<Rightarrow> bool" where
  "is_least p r n =
     (case r of None \<Rightarrow> (\<forall>m \<le> n. \<not> p m) | Some e \<Rightarrow> e \<le> n \<and> p e \<and> (\<forall>m < e. \<not> p m))"

lemma is_least_unique: "is_least p r n \<Longrightarrow> is_least p r' n \<Longrightarrow> r = r'"
  by (auto simp: is_least_def split: option.splits) (metis linorder_neqE_nat)+

lemma is_least_find: "is_least p (List.find p [0..<Suc n]) n"
proof (cases "List.find p [0..<Suc n]")
  case None
  then have "\<forall>m \<le> n. \<not> p m" by (auto simp: find_None_iff simp del: upt_Suc)
  then show ?thesis unfolding None is_least_def by simp
next
  case (Some e)
  then obtain i where "i < Suc n" "p e" "e = i" "\<forall>j < i. \<not> p j"
    by (auto simp: find_Some_iff simp del: upt_Suc)
  then have "e \<le> n \<and> p e \<and> (\<forall>m < e. \<not> p m)" by simp
  then show ?thesis unfolding Some is_least_def by simp
qed

lemma py_endswith_iff: "py_endswith s p \<longleftrightarrow> (\<exists>u. s = u @ p)"
proof
  assume "py_endswith s p"
  then have "s = take (length s - length p) s @ p" by (metis py_endswith_def append_take_drop_id)
  then show "\<exists>u. s = u @ p" by blast
qed auto

lemma py_startswith_iff: "py_startswith s p \<longleftrightarrow> (\<exists>u. s = p @ u)"
  by (metis append_eq_conv_conj append_take_drop_id py_startswith_def)

lemma py_find_spec:
  "case py_find s p of None \<Rightarrow> (\<forall>i \<le> length s. \<not> py_startswith (drop i s) p)
   | Some i \<Rightarrow> i \<le> length s \<and> py_startswith (drop i s) p \<and> (\<forall>j < i. \<not> py_startswith (drop j s) p)"
proof (induction s)
  case Nil
  then show ?case by (simp add: py_startswith_def)
next
  case (Cons c s)
  show ?case
  proof (cases "py_startswith (c # s) p")
    case True
    then show ?thesis by simp
  next
    case False
    have "\<not> py_startswith (drop i (c # s)) p" if "i = 0 \<or> (\<exists>k. i = Suc k \<and> \<not> py_startswith (drop k s) p)" for i
      using that False by auto
    with False Cons.IH show ?thesis
      by (auto split: option.splits) (metis Suc_le_mono not0_implies_Suc, metis Suc_less_eq not0_implies_Suc)
  qed
qed

lemma ends_at_iff:
  assumes "n \<le> length host"
  shows "py_endswith (take n host) p \<longleftrightarrow> (\<exists>i. n = i + length p \<and> py_startswith (drop i host) p)"
proof
  assume "py_endswith (take n host) p"
  then obtain u where u: "take n host = u @ p" by (auto simp: py_endswith_iff)
  then have len: "n = length u + length p" using assms by (metis length_append length_take min.absorb2)
  have "host = (u @ p) @ drop n host" using u by (metis append_take_drop_id)
  then have "drop (length u) host = p @ drop n host" by (metis append.assoc append_eq_conv_conj)
  then show "\<exists>i. n = i + length p \<and> py_startswith (drop i host) p" using len by (auto simp: py_startswith_iff)
next
  assume "\<exists>i. n = i + length p \<and> py_startswith (drop i host) p"
  then obtain i v where i: "n = i + length p" "drop i host = p @ v" by (auto simp: py_startswith_iff)
  have "take n host = take i host @ take (length p) (drop i host)" by (simp add: i(1) take_add)
  then show "py_endswith (take n host) p" by (simp add: i(2))
qed

lemma suffix_end_least: "is_least (\<lambda>n. py_endswith (take n host) s) (suffix_end host s) (length host)"
proof -
  have at: "py_endswith (take (i + length s) host) s \<longleftrightarrow> py_startswith (drop i host) s" if "i + length s \<le> length host" for i
    using ends_at_iff [OF that, of s] by auto
  have bound: "i + length s \<le> length host" if "i \<le> length host" "py_startswith (drop i host) s" for i
    using that by (auto simp: py_startswith_iff dest!: arg_cong [where f = length])
  show ?thesis
  proof (cases "py_find host s")
    case None
    then have "\<not> py_endswith (take n host) s" if "n \<le> length host" for n
      using py_find_spec [of host s] ends_at_iff [OF that, of s] that by auto
    then show ?thesis by (simp add: is_least_def suffix_end_def None)
  next
    case (Some i)
    then have i: "i \<le> length host" "py_startswith (drop i host) s" "\<forall>j < i. \<not> py_startswith (drop j host) s"
      using py_find_spec [of host s] by auto
    have "\<not> py_endswith (take n host) s" if "n < i + length s" for n
    proof
      assume e: "py_endswith (take n host) s"
      have "n \<le> length host" using that bound [OF i(1,2)] by simp
      from e [unfolded ends_at_iff [OF this]] that i(3) show False by auto
    qed
    then show ?thesis using at bound [OF i(1,2)] i(2) by (simp add: is_least_def suffix_end_def Some)
  qed
qed

lemma is_least_or:
  assumes "is_least p a n" "is_least q b n"
  shows "is_least (\<lambda>m. p m \<or> q m) (case b of None \<Rightarrow> a | Some e \<Rightarrow> (case a of None \<Rightarrow> Some e | Some d \<Rightarrow> if e < d then Some e else a)) n"
  using assms by (auto simp: is_least_def split: option.splits)

lemma earliest_end_least: "is_least (\<lambda>n. list_ex (py_endswith (take n host)) ss) (earliest_end host ss) (length host)"
proof (induction ss rule: rev_induct)
  case Nil
  then show ?case by (simp add: earliest_end_def is_least_def)
next
  case (snoc s ss)
  have "earliest_end host (ss @ [s]) = (case suffix_end host s of None \<Rightarrow> earliest_end host ss
      | Some e \<Rightarrow> (case earliest_end host ss of None \<Rightarrow> Some e | Some d \<Rightarrow> if e < d then Some e else earliest_end host ss))"
    by (simp add: earliest_end_def split: option.split)
  then show ?case using is_least_or [OF snoc suffix_end_least [of host s]] by simp
qed

lemma rpartition_at_host: "CHR ''@'' \<notin> set host \<Longrightarrow> rpartition_at (l @ CHR ''@'' # host) = (l, host)"
proof -
  assume no: "CHR ''@'' \<notin> set host"
  have "d \<notin> set a \<Longrightarrow> py_cut d (a @ d # b) = (a, Some b)" for d :: char and a b by (induction a) auto
  then show ?thesis using no by (simp add: rpartition_at_def)
qed

text \<open>
  Text glued to an address is cut off. Of an address found in text the part after the last at sign is
  cut to its shortest prefix that ends with a configured suffix, and is left alone when no suffix
  occurs in it.
\<close>

theorem address_cut_is_shortest:
  assumes "CHR ''@'' \<notin> set host"
  shows "truncate_at_known_suffix (l @ CHR ''@'' # host) suffixes = l @ CHR ''@'' # shortest_known suffixes host"
proof -
  have "List.find (\<lambda>n. list_ex (py_endswith (take n host)) suffixes) [0..<Suc (length host)] = earliest_end host suffixes"
    by (rule is_least_unique [OF is_least_find earliest_end_least])
  then show ?thesis
    by (cases "earliest_end host suffixes") (auto simp: truncate_at_known_suffix_def rpartition_at_host [OF assms] shortest_known_def)
qed

theorem address_cut_is_shortest_witness:
  "truncate_at_known_suffix ''a@x.gov.inphone'' [''.gov.in'', ''.nic.in''] = ''a@x.gov.in''"
proof -
  have h: "CHR ''@'' \<notin> set ''x.gov.inphone''" by simp
  have k: "shortest_known [''.gov.in'', ''.nic.in''] ''x.gov.inphone'' = ''x.gov.in''" by code_simp
  from address_cut_is_shortest [OF h, of "''a''" "[''.gov.in'', ''.nic.in'']"] show ?thesis unfolding k by simp
qed

section \<open>What the provenance says of a department\<close>

lemma fallback_frames [simp]:
  "en_department (apply_fallback_context cfg e) = en_department e" "cd_table (apply_fallback_context cfg e) = cd_table e"
  "cd_rung (apply_fallback_context cfg e) = cd_rung e"
  by (simp_all add: apply_fallback_context_def apply_fallback_table_def apply_fallback_span_def Let_def split: option.split)

lemma enrich_row_department:
  assumes "cd_rung e = ''table_block''" "cd_table e = Some tc" "xc_person_enabled cfg"
    and "cell_value (tc_cells tc) (cm_department (tc_col tc)) = None"
  shows "en_department (enrich_entity cfg d url e) = dept_from_url url" "cd_table (enrich_entity cfg d url e) = Some tc"
    "cd_rung (enrich_entity cfg d url e) = ''table_block''"
  using assms by (simp_all add: enrich_entity_def Let_def enrich_table_def)

lemma map_of_provenance_department: "map_of (provenance_of e) ''department'' = dept_rung e"
  by (simp add: provenance_of_def map_filter_simps split: option.split)

text \<open>C26.
  The pool recognises a department that was only guessed from the URL exactly when the table has no
  department column. For a row without a department the parser takes the first label of the host;
  when the table has a department column and the cell of the row is blank or missing, the provenance
  still names the table, so the cloud takes the guess for a department found on the page and does not
  replace it by the name of the catalog domain.
\<close>

theorem url_department_recognised_iff:
  fixes page_tree :: page_dom
  assumes "cd_rung e = ''table_block''" "cd_table e = Some tc" "xc_person_enabled cfg"
    and "cell_value (tc_cells tc) (cm_department (tc_col tc)) = None" "dept_from_url url = Some dept" "dept \<noteq> []"
  defines "e' \<equiv> enrich_entity cfg page_tree url e"
  assumes "loads (dumps_flat (provenance_of e')) = Some (JObj (map (\<lambda>(k, v). (k, JStr v)) (provenance_of e')))"
  shows "en_department (score_entity high_rungs e') = Some dept \<and>
    department_is_url_fallback loads (en_field_provenance (score_entity high_rungs e')) = Inr (cm_department (tc_col tc) = None)"
proof -
  note row = enrich_row_department [OF assms(1-4), of page_tree url, folded e'_def]
  have "map_of (map (\<lambda>(k, v). (k, JStr v)) kvs) k = map_option JStr (map_of kvs k)" for kvs :: "(string \<times> string) list" and k
    by (induction kvs) auto
  moreover have "dumps_flat kvs \<noteq> []" for kvs by (simp add: dumps_flat_def)
  ultimately show ?thesis
    using assms(5,6,8) row
    by (auto simp: score_entity_def Let_def department_is_url_fallback_def map_of_provenance_department dept_rung_def)
qed

section \<open>A page\<close>

definition demo_cells :: "string list \<Rightarrow> nat \<Rightarrow> table_row" where
  "demo_cells ts n = \<lparr>tr_node = n, tr_cells = map (\<lambda>t. \<lparr>cl_strip = t, cl_spaced = t\<rparr>) ts\<rparr>"

definition demo_page :: page_dom where
  "demo_page =
     \<lparr>pd_title = Some '' Staff '', pd_anchors = [\<lparr>an_node = 1, an_href = ''mailto:A@x.gov.in''\<rparr>], pd_items = [],
      pd_tables = [[demo_cells [''Name'', ''Department'', ''Email''] 2, demo_cells [''Asha'', [], ''b@y.in''] 3]],
      pd_text = ''b@y.in'', pd_clean_text = ''b@y.in'', pd_parent = (\<lambda>n. Some 0), pd_parent_text = (\<lambda>n. ''A@x.gov.in''),
      pd_names = []\<rparr>"

lemma demo_leads:
  "map (\<lambda>l. (pl_email l, pl_person_name l, pl_department l, pl_channel_tag l))
     (extract_leads (Inr default_extraction) (Inr demo_page) ''https://seepz.gov.in/staff'') =
   [(Some ''a@x.gov.in'', None, Some ''seepz'', Some ''office''),
    (Some ''b@y.in'', Some ''Asha'', Some ''seepz'', Some ''personal-external'')]"
  by code_simp

lemma demo_addresses:
  "page_addresses default_extraction demo_page = [''a@x.gov.in'', ''b@y.in'', ''b@y.in'']"
  by code_simp

definition demo_row_entity :: entity where
  "demo_row_entity =
     as_entity ((plain_candidate (Some ''b@y.in'') ''table_block'' (Some 3) ''b@y.in'' None)
        \<lparr>cd_table := Some \<lparr>tc_col = header_cols [''name'', ''department'', ''email''], tc_cells = [''Asha'', [], ''b@y.in''],
           tc_row_text = ''Asha  b@y.in''\<rparr>\<rparr>) (Some ''b@y.in'') None None"

theorem url_department_recognised_iff_witness:
  "\<exists>loads. en_department (score_entity [] (enrich_entity default_extraction demo_page ''https://seepz.gov.in/staff'' demo_row_entity)) = Some ''seepz'' \<and>
     department_is_url_fallback loads (en_field_provenance (score_entity [] (enrich_entity default_extraction demo_page ''https://seepz.gov.in/staff'' demo_row_entity))) = Inr False"
proof -
  let ?e = "enrich_entity default_extraction demo_page ''https://seepz.gov.in/staff'' demo_row_entity"
  let ?tc = "\<lparr>tc_col = header_cols [''name'', ''department'', ''email''], tc_cells = [''Asha'', [], ''b@y.in''], tc_row_text = ''Asha  b@y.in''\<rparr>"
  let ?loads = "\<lambda>s :: string. Some (JObj (map (\<lambda>(k, v). (k, JStr v)) (provenance_of ?e)))"
  have e: "cd_rung demo_row_entity = ''table_block''" "cd_table demo_row_entity = Some ?tc" "xc_person_enabled default_extraction"
    by (simp_all add: demo_row_entity_def as_entity_def candidate.defs entity.defs plain_candidate_def default_extraction_def)
  have col: "cm_department (tc_col ?tc) \<noteq> None" by code_simp
  have none: "cell_value (tc_cells ?tc) (cm_department (tc_col ?tc)) = None" by code_simp
  have dept: "dept_from_url ''https://seepz.gov.in/staff'' = Some ''seepz''" by code_simp
  from url_department_recognised_iff [OF e none dept, of ?loads demo_page "[]"] col show ?thesis
    by (intro exI [of _ ?loads]) simp
qed

end
