(* ===== verification/Importer.thy ===== *)
theory Importer
  imports Catalog Regex LeadApi
begin

text \<open>
  The import of the domain catalog (\<open>cloud/services/importer.py\<close>) and its endpoints
  (\<open>cloud/api/imports.py\<close>). The uploaded file is what \<open>json.load\<close> makes of it, in the documented
  format; the directory service is a record of the answers to its three queries.
\<close>

section \<open>Entries\<close>

definition TARGET_SUFFIXES :: "string list" where
  "TARGET_SUFFIXES = [''.gov.in'', ''.nic.in'']"

definition is_target :: "string \<Rightarrow> py_exn + bool" where
  "is_target url =
     (if url = [] \<or> \<not> py_startswith url ''http'' then Inr False
      else (case url_netloc url of
              Inl x \<Rightarrow> Inl x
            | Inr netloc \<Rightarrow> Inr (list_ex (py_endswith netloc) TARGET_SUFFIXES)))"

definition root_url :: "string \<Rightarrow> py_exn + string" where
  "root_url url = (case urlsplit url of Inl x \<Rightarrow> Inl x | Inr p \<Rightarrow> Inr (ur_scheme p @ ''://'' @ ur_netloc p))"

definition capitalize :: "string \<Rightarrow> string" where
  "capitalize w = (case w of [] \<Rightarrow> [] | c # cs \<Rightarrow> py_upper_char c # py_lower cs)"

fun strip_suffix :: "string list \<Rightarrow> string \<Rightarrow> string" where
  "strip_suffix [] host = host"
| "strip_suffix (suffix # ss) host =
     (if py_endswith host suffix then take (length host - length suffix) host else strip_suffix ss host)"

definition title_from_url :: "string \<Rightarrow> string" where
  "title_from_url url =
     (case url_netloc url of
        Inl _ \<Rightarrow> []
      | Inr netloc \<Rightarrow>
          (let host = strip_suffix [''.gov.in'', ''.nic.in'', ''.res.in'', ''.ac.in'', ''.edu.in''] (py_lower netloc);
               name = map (\<lambda>c. if c = CHR ''.'' \<or> c = CHR ''-'' then CHR '' '' else c) host
           in py_join '' '' (map capitalize (py_words_acc [] name))))"

text \<open>The pair of URLs that is stored: the root of the main or else of the contact URL.\<close>

definition target_urls :: "string \<Rightarrow> string \<Rightarrow> py_exn + string option \<times> string option" where
  "target_urls raw_main raw_contact =
     (case is_target raw_main of
        Inl x \<Rightarrow> Inl x
      | Inr True \<Rightarrow>
          (case (root_url raw_main, is_target raw_contact) of
             (Inl x, _) \<Rightarrow> Inl x
           | (_, Inl x) \<Rightarrow> Inl x
           | (Inr root, Inr t) \<Rightarrow> Inr (Some root, if t then Some raw_contact else None))
      | Inr False \<Rightarrow>
          (case is_target raw_contact of
             Inl x \<Rightarrow> Inl x
           | Inr True \<Rightarrow> (case root_url raw_contact of Inl x \<Rightarrow> Inl x | Inr root \<Rightarrow> Inr (Some root, None))
           | Inr False \<Rightarrow> Inr (None, None)))"

datatype json_entry =
  is_url: Url_entry string
| Org_entry "string option" "string option" "string option" "string option"

record resolved_entry =
  re_title :: string
  re_main_url :: "string option"
  re_contact_url :: "string option"
  re_external_id :: "string option"

definition or_none :: "string option \<Rightarrow> string option" where
  "or_none v = (if truthy v then v else None)"

text \<open>\<open>Org_entry\<close> carries title, url, contact_url and external_id, each missing or null as None.\<close>

definition resolve_json_entry :: "json_entry \<Rightarrow> py_exn + resolved_entry" where
  "resolve_json_entry entry =
     (let (title, raw_main, raw_contact, ext) =
            (case entry of
               Url_entry u \<Rightarrow> ([], u, [], None)
             | Org_entry t u c x \<Rightarrow> (the_default [] t, the_default [] u, the_default [] c, or_none x))
      in case target_urls raw_main raw_contact of
           Inl x \<Rightarrow> Inl x
         | Inr (main_url, contact_url) \<Rightarrow>
             Inr \<lparr>re_title = (if title \<noteq> [] then title else case main_url of Some u \<Rightarrow> title_from_url u | None \<Rightarrow> []),
                  re_main_url = main_url, re_contact_url = contact_url, re_external_id = ext\<rparr>)"

section \<open>The JSON import\<close>

datatype import_error = Not_found | Failed py_exn

record import_status =
  is_running :: bool
  is_source :: "string option"
  is_total_categories :: nat
  is_done_categories :: nat
  is_total_entries :: nat
  is_inserted :: nat
  is_error :: "import_error option"

definition started :: "string \<Rightarrow> import_status" where
  "started source =
     \<lparr>is_running = True, is_source = Some source, is_total_categories = 0, is_done_categories = 0, is_total_entries = 0,
      is_inserted = 0, is_error = None\<rparr>"

text \<open>What an import has gathered: the categories and organisation types as dictionaries, and the entries.\<close>

record harvest =
  hv_categories :: "(string \<times> string) list"
  hv_org_types :: "(string \<times> string) list"
  hv_entries :: "domain_entry list"
  hv_status :: import_status

definition CAT_CODE :: "(string \<times> string) list" where
  "CAT_CODE =
     [(''State / UT Government'', ''sg''), (''Union Government'', ''ug''), (''Judiciary'', ''jud''), (''Legislature'', ''leg''),
      (''Indian Missions Abroad'', ''ims''), (''Apex Bodies'', ''apex''), (''Districts'', ''dist'')]"

definition underscores :: "char list \<Rightarrow> string \<Rightarrow> string" where
  "underscores cs s = map (\<lambda>c. if c \<in> set cs then CHR ''_'' else c) (py_lower s)"

definition cat_code_of :: "string \<Rightarrow> string" where
  "cat_code_of title = (case map_of CAT_CODE title of Some c \<Rightarrow> c | None \<Rightarrow> take 20 (underscores '' '' title))"

definition org_code_of :: "string \<Rightarrow> string" where
  "org_code_of title = take 30 (underscores '' /'' title)"

type_synonym org_map = "(string \<times> json_entry list) list"
type_synonym directory = "(string \<times> (string \<times> org_map) list) list"

definition json_domain :: "string \<Rightarrow> string \<Rightarrow> string \<Rightarrow> resolved_entry \<Rightarrow> domain_entry" where
  "json_domain cat_title state org_title r =
     \<lparr>de_category_code = cat_code_of cat_title, de_category_title = Some cat_title, de_state = Some state,
      de_org_type = Some (org_code_of org_title), de_org_type_title = Some org_title, de_title = Some (re_title r),
      de_main_url = re_main_url r, de_contact_url = re_contact_url r, de_external_id = re_external_id r\<rparr>"

definition add_entry :: "domain_entry \<Rightarrow> harvest \<Rightarrow> harvest" where
  "add_entry d h =
     h\<lparr>hv_entries := hv_entries h @ [d], hv_status := (hv_status h)\<lparr>is_inserted := is_inserted (hv_status h) + 1\<rparr>\<rparr>"

text \<open>A plain URL that is no target is dropped; an entry with a title or an id is kept without a URL.\<close>

fun import_entries :: "string \<Rightarrow> string \<Rightarrow> string \<Rightarrow> json_entry list \<Rightarrow> harvest \<Rightarrow> harvest \<times> py_exn option" where
  "import_entries cat_title state org_title [] h = (h, None)"
| "import_entries cat_title state org_title (entry # es) h =
     (case resolve_json_entry entry of
        Inl x \<Rightarrow> (h, Some x)
      | Inr r \<Rightarrow>
          import_entries cat_title state org_title es
            (if is_url entry \<and> re_main_url r = None then h
             else add_entry (json_domain cat_title state org_title r) h))"

fun import_org_map :: "string \<Rightarrow> string \<Rightarrow> org_map \<Rightarrow> harvest \<Rightarrow> harvest \<times> py_exn option" where
  "import_org_map cat_title state [] h = (h, None)"
| "import_org_map cat_title state ((org_title, urls) # ots) h =
     (let h1 = h\<lparr>hv_org_types := dict_put (org_code_of org_title) org_title (hv_org_types h),
                 hv_status := (hv_status h)\<lparr>is_total_entries := is_total_entries (hv_status h) + length urls\<rparr>\<rparr>
      in case import_entries cat_title state org_title urls h1 of
           (h2, Some x) \<Rightarrow> (h2, Some x)
         | (h2, None) \<Rightarrow> import_org_map cat_title state ots h2)"

definition state_of :: "string \<Rightarrow> string" where
  "state_of state_name = (if state_name = ''National / Unknown'' then ''National'' else state_name)"

fun import_states :: "string \<Rightarrow> (string \<times> org_map) list \<Rightarrow> harvest \<Rightarrow> harvest \<times> py_exn option" where
  "import_states cat_title [] h = (h, None)"
| "import_states cat_title ((state_name, orgs) # ss) h =
     (case import_org_map cat_title (state_of state_name) orgs h of
        (h1, Some x) \<Rightarrow> (h1, Some x)
      | (h1, None) \<Rightarrow> import_states cat_title ss h1)"

definition category_done :: "harvest \<Rightarrow> harvest" where
  "category_done h = h\<lparr>hv_status := (hv_status h)\<lparr>is_done_categories := is_done_categories (hv_status h) + 1\<rparr>\<rparr>"

fun import_directory :: "directory \<Rightarrow> harvest \<Rightarrow> harvest \<times> py_exn option" where
  "import_directory [] h = (h, None)"
| "import_directory ((cat_title, states) # cats) h =
     (case import_states cat_title states
             (h\<lparr>hv_categories := dict_put (cat_code_of cat_title) cat_title (hv_categories h)\<rparr>) of
        (h1, Some x) \<Rightarrow> (h1, Some x)
      | (h1, None) \<Rightarrow> import_directory cats (category_done h1))"

text \<open>The end of both imports: the catalog is replaced in one transaction, or the error is kept.\<close>

definition conclude :: "datetime \<Rightarrow> crawl_db \<Rightarrow> harvest \<times> py_exn option \<Rightarrow> crawl_db \<times> import_status" where
  "conclude now db r =
     (case r of
        (h, Some x) \<Rightarrow> (db, (hv_status h)\<lparr>is_error := Some (Failed x), is_running := False\<rparr>)
      | (h, None) \<Rightarrow>
          (fst (replace_catalog (hv_entries h) (hv_categories h) (hv_org_types h) now db),
           (hv_status h)\<lparr>is_running := False\<rparr>))"

definition harvest_start :: "string \<Rightarrow> nat \<Rightarrow> harvest" where
  "harvest_start source n =
     \<lparr>hv_categories = [], hv_org_types = [], hv_entries = [], hv_status = (started source)\<lparr>is_total_categories := n\<rparr>\<rparr>"

datatype import_file = Missing | Unreadable py_exn | Directory directory

definition import_from_json :: "import_file \<Rightarrow> datetime \<Rightarrow> import_status \<Rightarrow> crawl_db \<Rightarrow> crawl_db \<times> import_status" where
  "import_from_json file now status db =
     (case file of
        Missing \<Rightarrow> (db, status\<lparr>is_error := Some Not_found\<rparr>)
      | Unreadable x \<Rightarrow> conclude now db (harvest_start ''json'' 0, Some x)
      | Directory cats \<Rightarrow> conclude now db (import_directory cats (harvest_start ''json'' (length cats))))"

section \<open>The live import\<close>

record live_entry =
  le_url :: "string option"
  le_url_1 :: "string option"
  le_title :: "string option"
  le_state_name :: "string option"
  le_organization_type :: "string option"
  le_npi_sanitized_id :: "string option"

text \<open>
  The answers of the directory service: categories, organisation types of one, and pages of entries with a
  total. Of an organisation type the outer None is a missing key; its code may also be null (\<open>Some None\<close>).
\<close>

record directory_api =
  da_categories :: "py_exn + (string \<times> string option) list"
  da_org_types :: "string \<Rightarrow> py_exn + (string option option \<times> string option) list"
  da_page :: "string \<Rightarrow> string option \<Rightarrow> nat \<Rightarrow> py_exn + live_entry list \<times> nat"

text \<open>The pagination loop; it ends when a page is empty or the total is reached.\<close>

partial_function (option) entries_loop ::
  "(nat \<Rightarrow> py_exn + live_entry list \<times> nat) \<Rightarrow> nat \<Rightarrow> live_entry list \<Rightarrow> (py_exn + live_entry list) option" where
  [code]: "entries_loop fetch pg fetched =
     (case fetch pg of
        Inl x \<Rightarrow> Some (Inl x)
      | Inr (results, n) \<Rightarrow>
          if results = [] \<or> n \<le> length (fetched @ results) then Some (Inr (fetched @ results))
          else entries_loop fetch (pg + 1) (fetched @ results))"

definition get_entries_for_category :: "directory_api \<Rightarrow> string \<Rightarrow> string option \<Rightarrow> (py_exn + live_entry list) option" where
  "get_entries_for_category api code org_type = entries_loop (da_page api code org_type) 1 []"

definition live_domain :: "string \<Rightarrow> string \<Rightarrow> (string \<rightharpoonup> string) \<Rightarrow> live_entry \<Rightarrow> string option \<times> string option \<Rightarrow> domain_entry" where
  "live_domain code title org_map e urls =
     (let org_code = the_default ''UNKNOWN'' (or_none (le_organization_type e)) in
      \<lparr>de_category_code = code, de_category_title = Some title,
       de_state = Some (the_default ''National / Unknown'' (or_none (le_state_name e))), de_org_type = Some org_code,
       de_org_type_title = Some (case org_map org_code of Some t \<Rightarrow> t | None \<Rightarrow> org_code),
       de_title = Some (the_default [] (le_title e)), de_main_url = fst urls, de_contact_url = snd urls,
       de_external_id = or_none (le_npi_sanitized_id e)\<rparr>)"

fun live_entries :: "string \<Rightarrow> string \<Rightarrow> (string \<rightharpoonup> string) \<Rightarrow> live_entry list \<Rightarrow> harvest \<Rightarrow> harvest \<times> py_exn option" where
  "live_entries code title org_map [] h = (h, None)"
| "live_entries code title org_map (e # es) h =
     (let org_code = the_default ''UNKNOWN'' (or_none (le_organization_type e));
          h1 = h\<lparr>hv_org_types := dict_put org_code (case org_map org_code of Some t \<Rightarrow> t | None \<Rightarrow> org_code) (hv_org_types h)\<rparr>
      in case target_urls (the_default [] (le_url e)) (the_default [] (le_url_1 e)) of
           Inl x \<Rightarrow> (h1, Some x)
         | Inr urls \<Rightarrow> live_entries code title org_map es (add_entry (live_domain code title org_map e urls) h1))"

definition live_org_map :: "directory_api \<Rightarrow> string \<Rightarrow> (string \<rightharpoonup> string)" where
  "live_org_map api code =
     (case da_org_types api code of
        Inl x \<Rightarrow> Map.empty
      | Inr ots \<Rightarrow>
          (let named = filter (\<lambda>(t, title). truthy (Option.bind t id)) ots
           in if list_ex (\<lambda>(t, title). title = None) named then Map.empty
              else map_of (rev (map (\<lambda>(t, title). (the (the t), the title)) named))))"

text \<open>None: the pagination of a category does not end.\<close>

fun live_categories ::
  "directory_api \<Rightarrow> string \<Rightarrow> string \<Rightarrow> (string \<times> string option) list \<Rightarrow> harvest \<Rightarrow> (harvest \<times> py_exn option) option" where
  "live_categories api cat_filter org_filter [] h = Some (h, None)"
| "live_categories api cat_filter org_filter ((code, cat_title) # cats) h =
     (if cat_filter \<noteq> [] \<and> code \<noteq> cat_filter then live_categories api cat_filter org_filter cats (category_done h)
      else
        (let title = the_default code cat_title; h1 = h\<lparr>hv_categories := dict_put code title (hv_categories h)\<rparr>
         in case get_entries_for_category api code (if org_filter \<noteq> [] then Some org_filter else None) of
              None \<Rightarrow> None
            | Some (Inl x) \<Rightarrow> live_categories api cat_filter org_filter cats (category_done h1)
            | Some (Inr es) \<Rightarrow>
                (case live_entries code title (live_org_map api code) es
                        (h1\<lparr>hv_status := (hv_status h1)\<lparr>is_total_entries := is_total_entries (hv_status h1) + length es\<rparr>\<rparr>) of
                   (h2, Some x) \<Rightarrow> Some (h2, Some x)
                 | (h2, None) \<Rightarrow> live_categories api cat_filter org_filter cats (category_done h2))))"

definition import_all ::
  "directory_api \<Rightarrow> string \<Rightarrow> string \<Rightarrow> datetime \<Rightarrow> crawl_db \<Rightarrow> (crawl_db \<times> import_status) option" where
  "import_all api cat_filter org_filter now db =
     (case da_categories api of
        Inl x \<Rightarrow> Some (conclude now db (harvest_start ''api'' 0, Some x))
      | Inr cats \<Rightarrow>
          map_option (conclude now db) (live_categories api cat_filter org_filter cats (harvest_start ''api'' (length cats))))"

section \<open>The endpoints\<close>

datatype import_task = Json_task import_file | Live_task

record import_service =
  im_server :: server_db
  im_locked :: bool
  im_status :: import_status
  im_tasks :: "import_task list"

datatype import_answer = Import_started | Import_already_running import_status

text \<open>The lock is taken before the upload is read; an exception of the read leaves it locked.\<close>

definition trigger_json_import ::
  "datetime \<Rightarrow> http_request \<Rightarrow> current_user \<Rightarrow> string \<Rightarrow> py_exn + import_file \<Rightarrow> import_service \<Rightarrow>
   import_service \<times> (http_exn + import_answer)" where
  "trigger_json_import now rq me filename content sv =
     (if \<not> has_all me [''domains.import''] then (sv, Inl (HTTPException 403 ''Insufficient permissions''))
      else if im_locked sv then (sv, Inr (Import_already_running (im_status sv)))
      else
        (case content of
           Inl x \<Rightarrow> (sv\<lparr>im_locked := True\<rparr>, Inl (ServerError x))
         | Inr file \<Rightarrow>
             (sv\<lparr>im_locked := True, im_tasks := im_tasks sv @ [Json_task file],
                 im_server := audited_plain now rq me ''domain.import_json'' [(''filename'', JStr filename)] (im_server sv)\<rparr>,
              Inr Import_started)))"

definition trigger_import ::
  "datetime \<Rightarrow> http_request \<Rightarrow> current_user \<Rightarrow> import_service \<Rightarrow> import_service \<times> (http_exn + import_answer)" where
  "trigger_import now rq me sv =
     (if \<not> has_all me [''domains.import''] then (sv, Inl (HTTPException 403 ''Insufficient permissions''))
      else if im_locked sv then (sv, Inr (Import_already_running (im_status sv)))
      else
        (sv\<lparr>im_locked := True, im_tasks := im_tasks sv @ [Live_task],
            im_server := (im_server sv)\<lparr>sv_cloud := with_audit now
              \<lparr>ae_user_id = Some (me_id me), ae_action = ''domain.import_live'', ae_target_type = None, ae_target_id = None,
               ae_detail = None, ae_ip = client_ip rq\<rparr> (sv_cloud (im_server sv))\<rparr>\<rparr>,
         Inr Import_started))"

text \<open>The task runs to its end and releases the lock; None: it never ends.\<close>

definition run_import_task :: "directory_api \<Rightarrow> string \<Rightarrow> string \<Rightarrow> datetime \<Rightarrow> import_service \<Rightarrow> import_service option" where
  "run_import_task api cat_filter org_filter now sv =
     (let db = cd_crawl (sv_cloud (im_server sv));
          finish = (\<lambda>ts r. sv\<lparr>im_server := (im_server sv)\<lparr>sv_cloud := (sv_cloud (im_server sv))\<lparr>cd_crawl := fst r\<rparr>\<rparr>,
                                im_status := snd r, im_locked := False, im_tasks := ts\<rparr>)
      in case im_tasks sv of
           [] \<Rightarrow> Some sv
         | Json_task file # ts \<Rightarrow> Some (finish ts (import_from_json file now (im_status sv) db))
         | Live_task # ts \<Rightarrow> map_option (finish ts) (import_all api cat_filter org_filter now db))"

end
