(* ===== verification/ImporterProps.thy ===== *)
theory ImporterProps
  imports Importer LeadProps
begin

text \<open>
  Properties of the catalog import: a file is imported as a whole or not at all, the pagination of the
  live import ends, what a live import leaves in the catalog, and the lock of the endpoints.
\<close>

section \<open>The JSON import\<close>

text \<open>The reference: the entries of the file in order, without the plain URLs that are no target.\<close>

definition kept_entries :: "string \<Rightarrow> string \<Rightarrow> string \<Rightarrow> json_entry list \<Rightarrow> domain_entry list" where
  "kept_entries cat state org urls =
     List.map_filter (\<lambda>e. case resolve_json_entry e of
         Inl _ \<Rightarrow> None
       | Inr r \<Rightarrow> if is_url e \<and> re_main_url r = None then None else Some (json_domain cat state org r)) urls"

definition directory_entries :: "directory \<Rightarrow> domain_entry list" where
  "directory_entries dir =
     concat (map (\<lambda>(cat, states). concat (map (\<lambda>(s, orgs).
       concat (map (\<lambda>(org, urls). kept_entries cat (state_of s) org urls) orgs)) states)) dir)"

text \<open>What a loop adds to the harvest when it ends without an exception; the error is left alone.\<close>

definition adds :: "domain_entry list \<Rightarrow> nat \<Rightarrow> harvest \<Rightarrow> harvest \<times> py_exn option \<Rightarrow> bool" where
  "adds ds n h r =
     (is_error (hv_status (fst r)) = is_error (hv_status h) \<and>
      (case snd r of
         Some _ \<Rightarrow> True
       | None \<Rightarrow>
           hv_entries (fst r) = hv_entries h @ ds \<and>
           is_inserted (hv_status (fst r)) = is_inserted (hv_status h) + length ds \<and>
           is_done_categories (hv_status (fst r)) = is_done_categories (hv_status h) + n))"

text \<open>The step of every loop: the body adds \<open>ds\<close>, and the rest adds the remainder when the body went well.\<close>

lemma adds_step:
  assumes "adds ds m h (h1, x)" "x = None \<Longrightarrow> adds es n h1 r"
  shows "adds (ds @ es) (m + n) h (case x of Some e \<Rightarrow> (h1, Some e) | None \<Rightarrow> r)"
  using assms by (cases x) (auto simp: adds_def split: option.splits)

lemma add_entry_adds: "adds [d] 0 h (add_entry d h, None)"
  by (simp add: adds_def add_entry_def)

lemma import_entries_adds: "adds (kept_entries cat state org es) 0 h (import_entries cat state org es h)"
proof (induction es arbitrary: h)
  case Nil
  then show ?case by (simp add: adds_def kept_entries_def map_filter_simps)
next
  case (Cons e es)
  show ?case
  proof (cases "resolve_json_entry e")
    case (Inl x)
    then show ?thesis by (simp add: adds_def)
  next
    case (Inr r)
    have "kept_entries cat state org (e # es) =
        (if is_url e \<and> re_main_url r = None then [] else [json_domain cat state org r]) @ kept_entries cat state org es"
      by (simp add: kept_entries_def map_filter_simps Inr)
    moreover have "adds ([json_domain cat state org r] @ kept_entries cat state org es) (0 + 0) h
        (case None of Some x \<Rightarrow> (add_entry (json_domain cat state org r) h, Some x)
          | None \<Rightarrow> import_entries cat state org es (add_entry (json_domain cat state org r) h))"
      by (rule adds_step [OF add_entry_adds Cons.IH])
    ultimately show ?thesis using Cons.IH [of h] by (simp add: Inr)
  qed
qed

lemma adds_status:
  assumes "adds ds n h1 r" "hv_entries h1 = hv_entries h" "is_error (hv_status h1) = is_error (hv_status h)"
    "is_inserted (hv_status h1) = is_inserted (hv_status h)" "is_done_categories (hv_status h1) = is_done_categories (hv_status h)"
  shows "adds ds n h r"
  using assms by (simp add: adds_def split: option.splits)

lemma import_org_map_adds:
  "adds (concat (map (\<lambda>(org, urls). kept_entries cat state org urls) orgs)) 0 h (import_org_map cat state orgs h)"
proof (induction orgs arbitrary: h)
  case Nil
  then show ?case by (simp add: adds_def)
next
  case (Cons o1 orgs)
  obtain org urls where o1: "o1 = (org, urls)" by (cases o1)
  let ?h1 = "h\<lparr>hv_org_types := dict_put (org_code_of org) org (hv_org_types h),
      hv_status := (hv_status h)\<lparr>is_total_entries := is_total_entries (hv_status h) + length urls\<rparr>\<rparr>"
  obtain h2 x where body: "import_entries cat state org urls ?h1 = (h2, x)" by fastforce
  have "adds (kept_entries cat state org urls) 0 h (h2, x)"
    by (rule adds_status [OF import_entries_adds [of cat state org urls ?h1, unfolded body]]) simp_all
  from adds_step [OF this Cons.IH] show ?case by (cases x) (simp_all add: o1 body Let_def)
qed

lemma import_states_adds:
  "adds (concat (map (\<lambda>(s, orgs). concat (map (\<lambda>(org, urls). kept_entries cat (state_of s) org urls) orgs)) states)) 0 h
     (import_states cat states h)"
proof (induction states arbitrary: h)
  case Nil
  then show ?case by (simp add: adds_def)
next
  case (Cons s1 states)
  obtain s orgs where s1: "s1 = (s, orgs)" by (cases s1)
  obtain h2 x where body: "import_org_map cat (state_of s) orgs h = (h2, x)" by fastforce
  from adds_step [OF import_org_map_adds [of cat "state_of s" orgs h, unfolded body] Cons.IH]
  show ?case by (cases x) (simp_all add: s1 body)
qed

lemma import_directory_adds: "adds (directory_entries dir) (length dir) h (import_directory dir h)"
proof (induction dir arbitrary: h)
  case Nil
  then show ?case by (simp add: adds_def directory_entries_def)
next
  case (Cons c1 dir)
  obtain cat states where c1: "c1 = (cat, states)" by (cases c1)
  let ?h1 = "h\<lparr>hv_categories := dict_put (cat_code_of cat) cat (hv_categories h)\<rparr>"
  let ?ds = "concat (map (\<lambda>(s, orgs). concat (map (\<lambda>(org, urls). kept_entries cat (state_of s) org urls) orgs)) states)"
  obtain h2 x where body: "import_states cat states ?h1 = (h2, x)" by fastforce
  have one: "adds ?ds 0 h (h2, x)"
    by (rule adds_status [OF import_states_adds [of cat states ?h1, unfolded body]]) simp_all
  have "adds ?ds 1 h (category_done h2, None)" if "x = None"
    using one that by (simp add: adds_def category_done_def)
  then have "adds ?ds 1 h (case x of None \<Rightarrow> category_done h2 | Some _ \<Rightarrow> h2, x)"
    using one by (cases x) (simp_all add: adds_def)
  from adds_step [OF this Cons.IH [of "case x of None \<Rightarrow> category_done h2 | Some _ \<Rightarrow> h2"]]
  show ?case by (cases x) (simp_all add: c1 body directory_entries_def)
qed

lemma replace_catalog_rows:
  "map domain_entry.truncate (rows (domains (fst (replace_catalog es cats orgs now db)))) = deduped es"
  "leads (fst (replace_catalog es cats orgs now db)) = leads db"
  "snapshots (fst (replace_catalog es cats orgs now db)) = snapshots db"
proof -
  have ext: "map domain_entry.truncate (map (\<lambda>(i, a). mk_domain a i) zs) = map fst (map snd zs)" for zs
    by (simp add: mk_domain_def domain_entry.defs split_def)
  have rows: "rows (domains (fst (replace_catalog es cats orgs now db))) =
      map (\<lambda>(i, a). mk_domain a i) (enumerate (next_id (domains db)) (map (\<lambda>e. (e, now)) (deduped es)))"
    by (simp add: replace_catalog_def Let_def invalidate_netloc_domain_map_def delete_all_domains_def table_simps)
  show "map domain_entry.truncate (rows (domains (fst (replace_catalog es cats orgs now db)))) = deduped es"
    unfolding rows ext by (simp add: comp_def)
qed (simp_all add: replace_catalog_def Let_def invalidate_netloc_domain_map_def delete_all_domains_def)

text \<open>C27.
  A file is imported as a whole or not at all. When the import reports an error the database is as it
  was. When it reports none, the file was a readable directory, the catalog holds exactly its entries,
  the last one of every key, plain URLs that are no target left out, the counters have counted them,
  and leads and snapshots are untouched.
\<close>

theorem json_import_all_or_nothing:
  fixes upload :: import_file
  shows
  "let (db', s') = import_from_json upload now s db
   in case is_error s' of
        Some _ \<Rightarrow> db' = db
      | None \<Rightarrow> (\<exists>dir. upload = Directory dir \<and>
          map domain_entry.truncate (rows (domains db')) = deduped (directory_entries dir) \<and>
          is_inserted s' = length (directory_entries dir) \<and> is_done_categories s' = length dir \<and>
          leads db' = leads db \<and> snapshots db' = snapshots db)"
proof (cases upload)
  case (Directory dir)
  let ?h = "harvest_start ''json'' (length dir)"
  obtain h x where r: "import_directory dir ?h = (h, x)" by fastforce
  have a: "adds (directory_entries dir) (length dir) ?h (h, x)" using import_directory_adds [of dir ?h] by (simp only: r)
  have start: "hv_entries ?h = []" "is_error (hv_status ?h) = None" "is_inserted (hv_status ?h) = 0" "is_done_categories (hv_status ?h) = 0"
    by (simp_all add: harvest_start_def started_def)
  show ?thesis
    using a start replace_catalog_rows [of "directory_entries dir"]
    by (cases x) (simp_all add: import_from_json_def Directory r conclude_def adds_def Let_def)
qed (simp_all add: import_from_json_def conclude_def)

section \<open>The live import\<close>

text \<open>The pages of a category after its first \<open>k\<close> requests, and the page it stops at.\<close>

definition pages_of :: "directory_api \<Rightarrow> string \<Rightarrow> string option \<Rightarrow> nat \<Rightarrow> live_entry list" where
  "pages_of api code org k =
     concat (map (\<lambda>p. case da_page api code org p of Inl _ \<Rightarrow> [] | Inr (es, _) \<Rightarrow> es) [1..<Suc k])"

definition last_page :: "directory_api \<Rightarrow> string \<Rightarrow> string option \<Rightarrow> nat \<Rightarrow> bool" where
  "last_page api code org k =
     (case da_page api code org k of
        Inl _ \<Rightarrow> True
      | Inr (es, n) \<Rightarrow> es = [] \<or> n \<le> length (pages_of api code org k))"

lemma pages_of_Suc:
  "pages_of api code org (Suc k) =
   pages_of api code org k @ (case da_page api code org (Suc k) of Inl _ \<Rightarrow> [] | Inr (es, _) \<Rightarrow> es)"
  by (simp add: pages_of_def)

lemma entries_loop_ends:
  assumes "\<And>p es n. da_page api code org p = Inr (es, n) \<Longrightarrow> n \<le> N" "k \<le> length (pages_of api code org k)" "k < max 1 N"
    "\<And>i. 1 \<le> i \<Longrightarrow> i \<le> k \<Longrightarrow> \<not> last_page api code org i"
  shows "\<exists>m r. entries_loop (da_page api code org) (Suc k) (pages_of api code org k) = Some r \<and> 1 \<le> m \<and> m \<le> max 1 N \<and>
      last_page api code org m \<and> list_all (\<lambda>i. \<not> last_page api code org i) [1..<m] \<and>
      (case da_page api code org m of Inl x \<Rightarrow> r = Inl x | Inr _ \<Rightarrow> r = Inr (pages_of api code org m))"
  using assms(2-)
proof (induction "max 1 N - k" arbitrary: k rule: less_induct)
  case less
  have before: "list_all (\<lambda>i. \<not> last_page api code org i) [1..<Suc k]"
    using less.prems(3) by (simp add: list_all_iff del: upt_Suc)
  show ?case
  proof (cases "last_page api code org (Suc k)")
    case True
    then show ?thesis using less.prems(2) before
      by (intro exI [of _ "Suc k"])
        (auto simp del: upt_Suc simp: entries_loop.simps [of _ "Suc k"] last_page_def pages_of_Suc split: sum.splits)
  next
    case False
    obtain es n where answer: "da_page api code org (Suc k) = Inr (es, n)"
      using False by (cases "da_page api code org (Suc k)") (auto simp: last_page_def)
    then have page: "da_page api code org (Suc k) = Inr (es, n)" "es \<noteq> []" "length (pages_of api code org (Suc k)) < n"
      using False by (auto simp: last_page_def)
    have grown: "Suc k \<le> length (pages_of api code org (Suc k))"
      using less.prems(1) page(1,2) by (cases es) (simp_all add: pages_of_Suc)
    have bound: "Suc k < max 1 N" using grown page(3) assms(1) [OF page(1)] by simp
    have "entries_loop (da_page api code org) (Suc k) (pages_of api code org k) =
        entries_loop (da_page api code org) (Suc (Suc k)) (pages_of api code org (Suc k))"
      using page by (simp add: entries_loop.simps [of _ "Suc k"] pages_of_Suc)
    moreover have "\<not> last_page api code org i" if "1 \<le> i" "i \<le> Suc k" for i
      using less.prems(3) [of i] False that by (cases "i = Suc k") simp_all
    ultimately show ?thesis using less.hyps [of "Suc k", OF _ grown bound] bound by auto
  qed
qed

text \<open>
  The pagination of a category ends when the directory service never announces more than N entries:
  after at most N requests, and at least one. It stops at the first page that fails, is empty or
  reaches the announced total, and returns the entries of all the pages up to it, or the failure.
\<close>

theorem pagination_ends:
  assumes "\<And>p es n. da_page api code org p = Inr (es, n) \<Longrightarrow> n \<le> N"
  shows "\<exists>m r. get_entries_for_category api code org = Some r \<and> 1 \<le> m \<and> m \<le> max 1 N \<and>
      last_page api code org m \<and> list_all (\<lambda>i. \<not> last_page api code org i) [1..<m] \<and>
      (case da_page api code org m of Inl x \<Rightarrow> r = Inl x | Inr _ \<Rightarrow> r = Inr (pages_of api code org m))"
  using entries_loop_ends [where k = 0, OF assms] by (simp add: get_entries_for_category_def pages_of_def)

text \<open>A service with a total of two entries that serves one entry a page, and fails from the third page on.\<close>

definition demo_live_entry :: "string \<Rightarrow> live_entry" where
  "demo_live_entry u =
     \<lparr>le_url = Some u, le_url_1 = None, le_title = None, le_state_name = None, le_organization_type = None, le_npi_sanitized_id = None\<rparr>"

definition demo_directory :: directory_api where
  "demo_directory =
     \<lparr>da_categories = Inr [(''ug'', None), (''sg'', None)], da_org_types = (\<lambda>_. Inl KeyError),
      da_page = (\<lambda>code org p. if code \<noteq> ''ug'' \<or> 2 < p then Inl KeyError else Inr ([demo_live_entry (if p = 1 then ''http://a.gov.in/'' else ''http://b.nic.in/x'')], 2))\<rparr>"

theorem pagination_ends_witness:
  "\<exists>m r. get_entries_for_category demo_directory ''ug'' None = Some r \<and> 1 \<le> m \<and> m \<le> max 1 (2::nat) \<and>
      last_page demo_directory ''ug'' None m \<and> list_all (\<lambda>i. \<not> last_page demo_directory ''ug'' None i) [1..<m] \<and>
      (case da_page demo_directory ''ug'' None m of Inl x \<Rightarrow> r = Inl x | Inr _ \<Rightarrow> r = Inr (pages_of demo_directory ''ug'' None m))"
  by (rule pagination_ends) (auto simp: demo_directory_def split: if_splits)

text \<open>The reference of a live import: the entries of the categories that pass the filter and were fetched.\<close>

definition category_entries :: "directory_api \<Rightarrow> string \<Rightarrow> string \<Rightarrow> string \<times> string option \<Rightarrow> domain_entry list" where
  "category_entries api cat_filter org_filter c =
     (if cat_filter \<noteq> [] \<and> fst c \<noteq> cat_filter then []
      else case get_entries_for_category api (fst c) (if org_filter \<noteq> [] then Some org_filter else None) of
             Some (Inr es) \<Rightarrow>
               List.map_filter (\<lambda>e. case target_urls (the_default [] (le_url e)) (the_default [] (le_url_1 e)) of
                   Inl _ \<Rightarrow> None
                 | Inr urls \<Rightarrow> Some (live_domain (fst c) (the_default (fst c) (snd c)) (live_org_map api (fst c)) e urls)) es
           | _ \<Rightarrow> [])"

lemma live_entries_adds:
  "adds (List.map_filter (\<lambda>e. case target_urls (the_default [] (le_url e)) (the_default [] (le_url_1 e)) of
       Inl _ \<Rightarrow> None | Inr urls \<Rightarrow> Some (live_domain code title m e urls)) es) 0 h (live_entries code title m es h)"
proof (induction es arbitrary: h)
  case Nil
  then show ?case by (simp add: adds_def map_filter_simps)
next
  case (Cons e es)
  show ?case
  proof (cases "target_urls (the_default [] (le_url e)) (the_default [] (le_url_1 e))")
    case (Inl x)
    then show ?thesis by (simp add: adds_def Let_def)
  next
    case (Inr urls)
    let ?o = "the_default ''UNKNOWN'' (or_none (le_organization_type e))"
    let ?h = "h\<lparr>hv_org_types := dict_put ?o (case m ?o of Some t \<Rightarrow> t | None \<Rightarrow> ?o) (hv_org_types h)\<rparr>"
    have "adds [live_domain code title m e urls] 0 h (add_entry (live_domain code title m e urls) ?h, None)"
      by (rule adds_status [OF add_entry_adds]) simp_all
    from adds_step [OF this Cons.IH] show ?thesis by (simp add: Inr map_filter_simps Let_def)
  qed
qed

lemma adds_done: "adds ds n h (h1, x) \<Longrightarrow> adds ds (Suc n) h (case x of None \<Rightarrow> category_done h1 | Some _ \<Rightarrow> h1, x)"
  by (cases x) (simp_all add: adds_def category_done_def)

lemma category_done_adds: "adds [] (Suc 0) h (category_done h, None)"
  by (simp add: adds_def category_done_def)

lemma live_categories_adds:
  "live_categories api cf orgf cats h = Some r \<Longrightarrow>
   adds (concat (map (category_entries api cf orgf) cats)) (length cats) h r"
proof (induction cats arbitrary: h r)
  case Nil
  then show ?case by (auto simp: adds_def)
next
  case (Cons c cats)
  obtain code t where c: "c = (code, t)" by (cases c)
  let ?t = "the_default code t" and ?o = "if orgf \<noteq> [] then Some orgf else None"
  let ?h1 = "h\<lparr>hv_categories := dict_put code ?t (hv_categories h)\<rparr>"
  have skip: "adds (concat (map (category_entries api cf orgf) (c # cats))) (length (c # cats)) h r"
    if none: "category_entries api cf orgf c = []" and rest: "live_categories api cf orgf cats (category_done h1) = Some r"
      and same: "hv_entries h1 = hv_entries h" "hv_status h1 = hv_status h" for h1
    using adds_step [OF adds_status [OF category_done_adds [of h1], of h] Cons.IH [OF rest]] same none by simp
  show ?case
  proof (cases "cf \<noteq> [] \<and> code \<noteq> cf")
    case True
    then have "category_entries api cf orgf c = []" by (simp add: c category_entries_def)
    moreover have "live_categories api cf orgf cats (category_done h) = Some r" using True Cons.prems by (simp add: c)
    ultimately show ?thesis by (rule skip) simp_all
  next
    case visited: False
    show ?thesis
    proof (cases "get_entries_for_category api code ?o")
      case None
      then show ?thesis using Cons.prems visited by (simp add: c Let_def)
    next
      case (Some answer)
      show ?thesis
      proof (cases answer)
        case (Inl x)
        then have "category_entries api cf orgf c = []" using Some by (simp add: c category_entries_def)
        moreover have "live_categories api cf orgf cats (category_done ?h1) = Some r"
          using Inl Cons.prems visited Some by (simp add: c Let_def)
        ultimately show ?thesis by (rule skip) simp_all
      next
        case (Inr es)
        let ?h2 = "?h1\<lparr>hv_status := (hv_status ?h1)\<lparr>is_total_entries := is_total_entries (hv_status ?h1) + length es\<rparr>\<rparr>"
        obtain h3 x where body: "live_entries code ?t (live_org_map api code) es ?h2 = (h3, x)" by fastforce
        have ce: "category_entries api cf orgf c = List.map_filter (\<lambda>e. case target_urls (the_default [] (le_url e)) (the_default [] (le_url_1 e)) of
            Inl _ \<Rightarrow> None | Inr urls \<Rightarrow> Some (live_domain code ?t (live_org_map api code) e urls)) es"
          unfolding category_entries_def c fst_conv snd_conv using visited Some Inr by auto
        have one: "adds (category_entries api cf orgf c) 0 h (h3, x)"
          by (rule adds_status [OF live_entries_adds [of code ?t "live_org_map api code" es ?h2, unfolded body, folded ce]]) simp_all
        show ?thesis
        proof (cases x)
          case (Some e)
          have r: "r = (h3, x)" using Cons.prems visited \<open>get_entries_for_category api code ?o = Some answer\<close> Inr body Some
            by (simp add: c Let_def)
          show ?thesis using one by (simp add: r Some adds_def)
        next
          case None
          have "live_categories api cf orgf cats (category_done h3) = Some r"
            using Cons.prems visited \<open>get_entries_for_category api code ?o = Some answer\<close> Inr body None by (simp add: c Let_def)
          from adds_step [OF adds_done [OF one, unfolded None option.case] Cons.IH [OF this]] show ?thesis by simp
        qed
      qed
    qed
  qed
qed

text \<open>Every entry of a category keeps the code of the category.\<close>

lemma category_entries_code:
  "de_category_code ` set (concat (map (category_entries api cf orgf) cats)) \<subseteq>
   {code. \<exists>t es. (code, t) \<in> set cats \<and> (cf = [] \<or> code = cf) \<and>
      get_entries_for_category api code (if orgf \<noteq> [] then Some orgf else None) = Some (Inr es)}"
  by (auto simp: category_entries_def live_domain_def Let_def List.map_filter_def split: if_splits option.splits sum.splits) metis+

lemma live_categories_stuck:
  "live_categories api cf orgf cats h = None \<Longrightarrow>
   \<exists>code. get_entries_for_category api code (if orgf \<noteq> [] then Some orgf else None) = None"
  by (induction api cf orgf cats h rule: live_categories.induct)
    (auto simp: Let_def split: if_splits option.splits sum.splits prod.splits)

lemma deduped_subset: "set (deduped es) \<subseteq> set es"
proof -
  obtain order m where d: "dedupe_entries 0 es ([], Map.empty) = (order, m)" by fastforce
  have spec: "set order = dom m" "m = map_of (rev (zip (catalog_keys 0 es) es))"
    using dedupe_entries_spec [OF d] by auto
  have "the (m k) \<in> set es" if k: "k \<in> set order" for k
  proof -
    obtain e where e: "m k = Some e" using k spec(1) by auto
    then have "(k, e) \<in> set (zip (catalog_keys 0 es) es)" using map_of_SomeD spec(2) by fastforce
    then show ?thesis using e by (simp add: set_zip_rightD)
  qed
  then show ?thesis by (auto simp: deduped_def d)
qed

text \<open>C28.
  A live import replaces the catalog by what it has fetched. When it reports an error the database is as
  it was. When it reports none the catalog holds exactly the entries of the categories that pass the
  filter and whose pages could be fetched, so a category that is filtered out, or whose fetch failed,
  has no domain left afterwards, whatever the catalog held before. It does not end only when the
  pagination of a category does not.
\<close>

theorem live_import_replaces_catalog:
  "case import_all api cf orgf now db of
     None \<Rightarrow> (\<exists>code. get_entries_for_category api code (if orgf \<noteq> [] then Some orgf else None) = None)
   | Some (db', s') \<Rightarrow>
       (case is_error s' of
          Some _ \<Rightarrow> db' = db
        | None \<Rightarrow> (\<exists>cats. da_categories api = Inr cats \<and>
            map domain_entry.truncate (rows (domains db')) = deduped (concat (map (category_entries api cf orgf) cats)) \<and>
            de_category_code ` set (map domain_entry.truncate (rows (domains db'))) \<subseteq>
              {code. \<exists>t es. (code, t) \<in> set cats \<and> (cf = [] \<or> code = cf) \<and>
                 get_entries_for_category api code (if orgf \<noteq> [] then Some orgf else None) = Some (Inr es)} \<and>
            is_done_categories s' = length cats \<and> leads db' = leads db \<and> snapshots db' = snapshots db))"
proof (cases "da_categories api")
  case (Inl x)
  then show ?thesis by (simp add: import_all_def conclude_def)
next
  case (Inr cats)
  let ?h = "harvest_start ''api'' (length cats)"
  show ?thesis
  proof (cases "live_categories api cf orgf cats ?h")
    case None
    then show ?thesis using live_categories_stuck [OF None] by (simp add: import_all_def Inr)
  next
    case (Some r)
    obtain h x where r: "r = (h, x)" by (cases r)
    have a: "adds (concat (map (category_entries api cf orgf) cats)) (length cats) ?h (h, x)"
      using live_categories_adds [OF Some] by (simp add: r)
    have start: "hv_entries ?h = []" "is_error (hv_status ?h) = None" "is_done_categories (hv_status ?h) = 0"
      by (simp_all add: harvest_start_def started_def)
    have sub: "de_category_code ` set (deduped (concat (map (category_entries api cf orgf) cats))) \<subseteq>
        {code. \<exists>t es. (code, t) \<in> set cats \<and> (cf = [] \<or> code = cf) \<and>
           get_entries_for_category api code (if orgf \<noteq> [] then Some orgf else None) = Some (Inr es)}"
      using image_mono [OF deduped_subset] category_entries_code by (rule subset_trans)
    show ?thesis
    proof (cases x)
      case None
      then have "hv_entries h = concat (map (category_entries api cf orgf) cats)" "is_error (hv_status h) = None"
          "is_done_categories (hv_status h) = length cats"
        using a start by (simp_all add: adds_def)
      with None show ?thesis
        unfolding import_all_def Inr sum.case Some r option.map conclude_def prod.case option.case
        using sub replace_catalog_rows [of "hv_entries h" "hv_categories h" "hv_org_types h" now db] by simp
    next
      case (Some e)
      with \<open>live_categories api cf orgf cats ?h = Some r\<close> show ?thesis by (simp add: import_all_def Inr r conclude_def)
    qed
  qed
qed

section \<open>The lock\<close>

text \<open>What reaches the import service: the two triggers, and the task of the running import.\<close>

datatype import_event =
  Trigger_json datetime http_request current_user string "py_exn + import_file"
| Trigger_live datetime http_request current_user
| Run_import directory_api string string datetime

fun import_event_step :: "import_event \<Rightarrow> import_service \<Rightarrow> import_service" where
  "import_event_step (Trigger_json now rq me filename content) sv = fst (trigger_json_import now rq me filename content sv)"
| "import_event_step (Trigger_live now rq me) sv = fst (trigger_import now rq me sv)"
| "import_event_step (Run_import api cf orgf now) sv = (case run_import_task api cf orgf now sv of None \<Rightarrow> sv | Some sv' \<Rightarrow> sv')"

definition single_flight :: "import_service \<Rightarrow> bool" where
  "single_flight sv = (length (im_tasks sv) \<le> 1 \<and> (im_tasks sv \<noteq> [] \<longrightarrow> im_locked sv))"

definition lock_leaked :: "import_service \<Rightarrow> bool" where
  "lock_leaked sv = (im_locked sv \<and> im_tasks sv = [])"

lemma import_event_step_single_flight: "single_flight sv \<Longrightarrow> single_flight (import_event_step e sv)"
  by (cases e)
    (auto simp: single_flight_def trigger_json_import_def trigger_import_def run_import_task_def Let_def
      split: option.splits list.splits import_task.splits sum.splits)

lemma import_events_single_flight: "single_flight sv \<Longrightarrow> single_flight (fold import_event_step es sv)"
  by (induction es arbitrary: sv) (simp_all add: import_event_step_single_flight)

lemma lock_leaked_step: "lock_leaked sv \<Longrightarrow> import_event_step e sv = sv"
  by (cases e)
    (auto simp: lock_leaked_def trigger_json_import_def trigger_import_def run_import_task_def split: option.splits)

lemma lock_leaked_steps: "lock_leaked sv \<Longrightarrow> fold import_event_step es sv = sv"
  by (induction es) (simp_all add: lock_leaked_step)

text \<open>C29.
  At most one import runs at a time, and only under the lock, after every sequence of triggers and task
  ends from a service without a running import. But an upload whose content cannot be read leaves the
  lock behind: from then on no sequence of events changes the service any more, so that no import is
  ever started again.
\<close>

theorem import_single_flight:
  assumes "im_tasks sv = []" "\<not> im_locked sv" "has_all me [''domains.import'']"
  shows "single_flight (fold import_event_step es sv) \<and>
    fold import_event_step (Trigger_json now rq me filename (Inl x) # es) sv = sv\<lparr>im_locked := True\<rparr>"
proof
  show "single_flight (fold import_event_step es sv)"
    by (rule import_events_single_flight) (simp add: single_flight_def assms)
  have "import_event_step (Trigger_json now rq me filename (Inl x)) sv = sv\<lparr>im_locked := True\<rparr>"
    using assms by (simp add: trigger_json_import_def)
  moreover have "lock_leaked (sv\<lparr>im_locked := True\<rparr>)" using assms by (simp add: lock_leaked_def)
  ultimately show "fold import_event_step (Trigger_json now rq me filename (Inl x) # es) sv = sv\<lparr>im_locked := True\<rparr>"
    by (simp add: lock_leaked_steps)
qed

definition demo_service :: import_service where
  "demo_service = \<lparr>im_server = demo_server, im_locked = False, im_status = started ''json'', im_tasks = []\<rparr>"

definition demo_importer :: current_user where
  "demo_importer = \<lparr>me_id = 3, me_email = ''i@x.in'', me_is_admin = False, me_permissions = {''domains.import''}\<rparr>"

definition demo_import_events :: "import_event list" where
  "demo_import_events = [Trigger_live 1 agent_request demo_importer, Trigger_live 2 agent_request demo_importer,
     Run_import demo_directory [] [] 3]"

theorem import_single_flight_witness:
  "single_flight (fold import_event_step demo_import_events demo_service) \<and>
   fold import_event_step (Trigger_json 0 agent_request demo_importer ''f.json'' (Inl ValueError) # demo_import_events) demo_service =
     demo_service\<lparr>im_locked := True\<rparr>"
  by (rule import_single_flight) (simp_all add: demo_service_def demo_importer_def has_all_def)

end
