(* ===== verification/Config.thy ===== *)
theory Config
  imports Pagination
begin

text \<open>
  The configuration of both tiers (\<open>portal/config.py\<close>): the built-in defaults of the cloud, the deep merge
  of \<open>config.yaml\<close> over them, the overrides from the environment and the loader of the agent. A YAML
  document is the tree \<open>yaml.safe_load\<close> returns; characters outside ASCII are their UTF-8 bytes.
\<close>

section \<open>YAML values\<close>

datatype ykey = KStr string | KInt int

datatype yaml =
  YNull
| YBool bool
| YInt int
| YDec int nat
| YStr string
| YList "yaml list"
| YDict "(ykey \<times> yaml) list"

type_synonym ydict = "(ykey \<times> yaml) list"

fun y_truthy :: "yaml \<Rightarrow> bool" where
  "y_truthy YNull = False"
| "y_truthy (YBool b) = b"
| "y_truthy (YInt i) = (i \<noteq> 0)"
| "y_truthy (YDec m e) = (m \<noteq> 0)"
| "y_truthy (YStr s) = (s \<noteq> [])"
| "y_truthy (YList xs) = (xs \<noteq> [])"
| "y_truthy (YDict d) = (d \<noteq> [])"

abbreviation strings :: "string list \<Rightarrow> yaml" where
  "strings xs \<equiv> YList (map YStr xs)"

abbreviation QUOT :: string where
  "QUOT \<equiv> [CHR 0x22]"

abbreviation BSL :: string where
  "BSL \<equiv> [CHR 0x5C]"

text \<open>The defaults are complete: every key the cloud reads is there.\<close>

definition CLOUD_DEFAULTS :: ydict where
  "CLOUD_DEFAULTS =
    [(KStr ''database'', YDict [(KStr ''uri'', YStr ''sqlite:///portal/data/govcrawler.db'')]),
     (KStr ''api'', YDict [(KStr ''host'', YStr ''127.0.0.1''), (KStr ''port'', YInt 8001)]),
     (KStr ''scraper'', YDict [(KStr ''category_filter'', YStr []), (KStr ''org_type_filter'', YStr [])]),
     (KStr ''crawler'', YDict
       [(KStr ''workers'', YInt 10),
        (KStr ''max_depth'', YInt 4),
        (KStr ''recrawl_days'', YInt 30),
        (KStr ''httpx_first'', YBool True),
        (KStr ''playwright_fallback'', YBool False),
        (KStr ''httpx_timeout'', YDict [(KStr ''connect'', YInt 10), (KStr ''read'', YInt 30)]),
        (KStr ''playwright_timeout'', YInt 45),
        (KStr ''js_settle_time'', YDec 30 1),
        (KStr ''per_url_timeout'', YInt 100),
        (KStr ''request_delay'', YDec 15 1),
        (KStr ''max_links_per_page'', YDict
         [(KInt 0, YInt 100),
          (KInt 1, YInt 50),
          (KInt 2, YInt 40),
          (KStr ''default'', YInt 20)]),
        (KStr ''target_suffixes'', strings [''.gov.in'', ''.nic.in'']),
        (KStr ''max_custom_urls'', YInt 50),
        (KStr ''priority_keywords'', strings [''contact'', ''officer'', ''directory'', ''whos-who'', ''who-is-who'',
            ''staff'', ''personnel'', ''secretariat'', ''about-us'', ''division'', ''minister'', ''committee'',
            ''administration'', ''team'', ''telephone'', ''tele-directory'', ''phone-directory'', ''email'']),
        (KStr ''skip_extensions'', strings [''.pdf'', ''.doc'', ''.docx'', ''.xls'', ''.xlsx'', ''.ppt'', ''.pptx'',
            ''.zip'', ''.rar'', ''.7z'', ''.tar'', ''.gz'', ''.jpg'', ''.jpeg'', ''.png'', ''.gif'', ''.svg'',
            ''.ico'', ''.mp4'', ''.mp3'', ''.avi'', ''.mov'']),
        (KStr ''js_indicators'', strings [''<div id='' @ QUOT @ ''__next'' @ QUOT,
            ''<div id='' @ QUOT @ ''root'' @ QUOT, ''Please enable JavaScript'',
            ''You need to enable JavaScript'', ''This page requires JavaScript'']),
        (KStr ''user_agent'', YStr ''Mozilla/5.0 (X11; Linux x86_64) AppleWebKit/537.36 (KHTML, like Gecko) Chrome/124.0.0.0 Safari/537.36''),
        (KStr ''pagination'', YDict
         [(KStr ''enabled'', YBool True),
          (KStr ''max_pagination_pages'', YInt 50),
          (KStr ''max_chain_children'', YInt 100),
          (KStr ''text_signals'', strings [''next'', [CHR 0xC2] @ [CHR 0xBB], [CHR 0xE2] @ [CHR 0x80] @ [CHR 0xBA],
              ''more'', ''last'']),
          (KStr ''param_signals'', strings [''page'', ''pageno'', ''start'', ''offset'', ''p''])])]),
     (KStr ''extraction'', YDict
       [(KStr ''email'', YDict
         [(KStr ''enabled'', YBool True),
          (KStr ''regex'', YStr (''[a-zA-Z0-9._%+'' @ BSL @ ''-]+@(?:[a-zA-Z0-9'' @ BSL @ ''-]+'' @ BSL @ ''.)+[a-zA-Z]{2,6}'')),
          (KStr ''valid_suffixes'', strings [''.gov.in'', ''.nic.in'', ''.res.in'', ''.ac.in'', ''.com'']),
          (KStr ''obfuscation'', YList
            [strings [BSL @ ''s*'' @ BSL @ ''[at'' @ BSL @ '']'' @ BSL @ ''s*'', ''@''],
             strings [BSL @ ''s*'' @ BSL @ ''(at'' @ BSL @ '')'' @ BSL @ ''s*'', ''@''],
             strings [BSL @ ''s*'' @ BSL @ ''[dot'' @ BSL @ '']'' @ BSL @ ''s*'', ''.''],
             strings [BSL @ ''s*'' @ BSL @ ''(dot'' @ BSL @ '')'' @ BSL @ ''s*'', ''.''],
             strings [BSL @ ''s*'' @ BSL @ ''[hyphen'' @ BSL @ '']'' @ BSL @ ''s*'',
                 ''-''],
             strings [BSL @ ''s*'' @ BSL @ ''(hyphen'' @ BSL @ '')'' @ BSL @ ''s*'',
                 ''-'']]),
          (KStr ''context_chars'', YInt 200)]),
        (KStr ''max_input_chars'', YInt 200000),
        (KStr ''role_local_parts'', strings [''webmaster'', ''info'', ''admin'', ''contact'', ''support'',
            ''helpdesk'', ''grievance'']),
        (KStr ''confidence'', YDict [(KStr ''high_rungs'', strings [''mailto_tel'', ''microdata''])]),
        (KStr ''person'', YDict
         [(KStr ''enabled'', YBool True),
          (KStr ''title_prefixes'', strings [''Shri'', ''Smt'', ''Dr'', ''Mr'', ''Mrs'', ''Ms'', ''Prof'', ''Sh'',
              ''Shrimati'', ''Km'']),
          (KStr ''designation_keywords'', strings [''Secretary'', ''Director'', ''Commissioner'', ''Collector'',
              ''Superintendent'', ''Inspector'', ''Officer'', ''Manager'', ''Chairman'', ''President'', ''Minister'',
              ''Deputy'', ''Additional'', ''Principal'', ''Chief'', ''Joint'', ''Under Secretary'', ''IAS'', ''IPS'',
              ''IFS'', ''IRS'', ''Jt'', ''Jr'', ''Junior'']),
          (KStr ''proximity_chars'', YInt 300)])]),
     (KStr ''lead_score'', YDict
       [(KStr ''weights'', YDict
         [(KStr ''email_high'', YInt 20),
          (KStr ''email_low'', YInt 10),
          (KStr ''person_name'', YInt 40),
          (KStr ''designation'', YInt 30),
          (KStr ''phone'', YInt 10)])]),
     (KStr ''auth'', YDict
       [(KStr ''jwt_secret'', YStr []),
        (KStr ''access_ttl_minutes'', YInt 15),
        (KStr ''refresh_ttl_days'', YInt 14),
        (KStr ''cookie_secure'', YBool False),
        (KStr ''lockout_threshold'', YInt 5),
        (KStr ''lockout_minutes'', YInt 15),
        (KStr ''login_rate_limit_attempts'', YInt 20),
        (KStr ''login_rate_limit_window_minutes'', YInt 15)]),
     (KStr ''dispatch'', YDict [(KStr ''mode'', YStr ''embedded'')]),
     (KStr ''oauth'', YDict
       [(KStr ''redirect_base_url'', YStr []),
        (KStr ''microsoft'', YDict [(KStr ''client_id'', YStr [])]),
        (KStr ''google'', YDict [(KStr ''client_id'', YStr []), (KStr ''client_secret'', YStr [])])])]"

section \<open>The merge\<close>

fun deep_merge :: "ydict \<Rightarrow> ydict \<Rightarrow> ydict" where
  "deep_merge result [] = result"
| "deep_merge result ((k, v) # overlay) =
     deep_merge
       (dict_put k
          (case v of
             YDict o1 \<Rightarrow> (case map_of result k of Some (YDict b1) \<Rightarrow> YDict (deep_merge b1 o1) | _ \<Rightarrow> v)
           | _ \<Rightarrow> v) result)
       overlay"

text \<open>What an assignment below a key does when the value there is no dictionary, and when the key is missing.\<close>

definition in_dict :: "ykey \<Rightarrow> (ydict \<Rightarrow> py_exn + ydict) \<Rightarrow> ydict \<Rightarrow> py_exn + ydict" where
  "in_dict k f d =
     (case map_of d k of
        None \<Rightarrow> Inl KeyError
      | Some (YDict s) \<Rightarrow> (case f s of Inl x \<Rightarrow> Inl x | Inr s1 \<Rightarrow> Inr (dict_put k (YDict s1) d))
      | Some _ \<Rightarrow> Inl TypeError)"

definition in_default :: "ykey \<Rightarrow> py_exn \<Rightarrow> (ydict \<Rightarrow> py_exn + ydict) \<Rightarrow> ydict \<Rightarrow> py_exn + ydict" where
  "in_default k no_dict f d =
     (case (case map_of d k of None \<Rightarrow> YDict [] | Some v \<Rightarrow> v) of
        YDict s \<Rightarrow> (case f s of Inl x \<Rightarrow> Inl x | Inr s1 \<Rightarrow> Inr (dict_put k (YDict s1) d))
      | _ \<Rightarrow> Inl no_dict)"

definition assign :: "ykey \<Rightarrow> yaml \<Rightarrow> ydict \<Rightarrow> py_exn + ydict" where
  "assign k v d = Inr (dict_put k v d)"

section \<open>The environment\<close>

type_synonym environ = "string \<rightharpoonup> string"

definition override :: "environ \<Rightarrow> string \<Rightarrow> (string \<Rightarrow> ydict \<Rightarrow> py_exn + ydict) \<Rightarrow> ydict \<Rightarrow> py_exn + ydict" where
  "override env name f d = (if truthy (env name) then f (the (env name)) d else Inr d)"

fun in_turn :: "(ydict \<Rightarrow> py_exn + ydict) list \<Rightarrow> ydict \<Rightarrow> py_exn + ydict" where
  "in_turn [] d = Inr d"
| "in_turn (f # fs) d = (case f d of Inl x \<Rightarrow> Inl x | Inr d1 \<Rightarrow> in_turn fs d1)"

definition set_port :: "string \<Rightarrow> ydict \<Rightarrow> py_exn + ydict" where
  "set_port s d =
     (case int_of_string s of
        None \<Rightarrow> Inl ValueError
      | Some n \<Rightarrow> in_dict (KStr ''api'') (assign (KStr ''port'') (YInt n)) d)"

definition set_oauth :: "string \<Rightarrow> string \<Rightarrow> string \<Rightarrow> ydict \<Rightarrow> py_exn + ydict" where
  "set_oauth provider field v =
     in_default (KStr ''oauth'') AttributeError (in_default (KStr provider) TypeError (assign (KStr field) (YStr v)))"

definition env_overrides :: "environ \<Rightarrow> (ydict \<Rightarrow> py_exn + ydict) list" where
  "env_overrides env =
     [(\<lambda>d. if truthy (env ''DATABASE_URL_APP'')
           then in_dict (KStr ''database'') (assign (KStr ''uri'') (YStr (the (env ''DATABASE_URL_APP'')))) d
           else override env ''DATABASE_URL'' (\<lambda>v. in_dict (KStr ''database'') (assign (KStr ''uri'') (YStr v))) d),
      override env ''API_HOST'' (\<lambda>v. in_dict (KStr ''api'') (assign (KStr ''host'') (YStr v))),
      override env ''API_PORT'' set_port,
      override env ''DISPATCH_MODE'' (\<lambda>v. in_default (KStr ''dispatch'') TypeError (assign (KStr ''mode'') (YStr v))),
      override env ''ADMIN_ORIGIN'' (\<lambda>v. in_default (KStr ''auth'') TypeError (assign (KStr ''admin_origin'') (YStr v))),
      override env ''COOKIE_SECURE'' (\<lambda>v. in_default (KStr ''auth'') TypeError
        (assign (KStr ''cookie_secure'') (YBool (py_lower v = ''true'')))),
      override env ''OAUTH_REDIRECT_BASE_URL'' (\<lambda>v. in_default (KStr ''oauth'') TypeError (assign (KStr ''redirect_base_url'') (YStr v))),
      override env ''OAUTH_MS_CLIENT_ID'' (set_oauth ''microsoft'' ''client_id''),
      override env ''OAUTH_GOOGLE_CLIENT_ID'' (set_oauth ''google'' ''client_id''),
      override env ''OAUTH_GOOGLE_CLIENT_SECRET'' (set_oauth ''google'' ''client_secret'')]"

section \<open>The loaders\<close>

text \<open>What reading a file answers: it is missing, \<open>safe_load\<close> raises, or its document.\<close>

datatype yaml_file = No_file | Bad_yaml py_exn | Document yaml

text \<open>\<open>bootstrap\<close>: a frozen build copies the bundled default, when there is one, to a missing live path.\<close>

definition bootstrap :: "bool \<Rightarrow> yaml_file \<Rightarrow> yaml_file \<Rightarrow> yaml_file" where
  "bootstrap is_frozen default_file live = (if is_frozen \<and> live = No_file then default_file else live)"

definition try_read_yaml :: "yaml_file \<Rightarrow> py_exn + yaml option" where
  "try_read_yaml f =
     (case f of
        No_file \<Rightarrow> Inr None
      | Bad_yaml x \<Rightarrow> Inl x
      | Document v \<Rightarrow> Inr (Some (if y_truthy v then v else YDict [])))"

text \<open>A document that is no mapping has no \<open>items\<close>.\<close>

definition layered :: "yaml_file \<Rightarrow> py_exn + ydict" where
  "layered live =
     (case try_read_yaml live of
        Inl x \<Rightarrow> Inl x
      | Inr None \<Rightarrow> Inr CLOUD_DEFAULTS
      | Inr (Some (YDict overlay)) \<Rightarrow> Inr (deep_merge CLOUD_DEFAULTS overlay)
      | Inr (Some _) \<Rightarrow> Inl AttributeError)"

definition load_config :: "environ \<Rightarrow> bool \<Rightarrow> yaml_file \<Rightarrow> yaml_file \<Rightarrow> py_exn + ydict" where
  "load_config env is_frozen default_file live =
     (case layered (bootstrap is_frozen default_file live) of
        Inl x \<Rightarrow> Inl x
      | Inr config \<Rightarrow> in_turn (env_overrides env) config)"

text \<open>
  The agent falls back to the file beside the module, and to a copy of the default when that is missing
  too; \<open>shutil.copy\<close> of a missing default raises.
\<close>

definition read_yaml :: "yaml_file \<Rightarrow> yaml_file \<Rightarrow> yaml_file \<Rightarrow> py_exn + yaml" where
  "read_yaml live beside default_file =
     (let target = (if live \<noteq> No_file then live else if beside \<noteq> No_file then beside else default_file)
      in case target of No_file \<Rightarrow> Inl OSError | Bad_yaml x \<Rightarrow> Inl x | Document v \<Rightarrow> Inr v)"

definition load_agent_config :: "bool \<Rightarrow> yaml_file \<Rightarrow> yaml_file \<Rightarrow> yaml_file \<Rightarrow> py_exn + yaml" where
  "load_agent_config is_frozen default_file beside live =
     read_yaml (bootstrap is_frozen default_file live) beside default_file"

end
