(* ===== verification/ConfigProps.thy ===== *)
theory ConfigProps
  imports Config
begin

text \<open>
  Properties of the configuration: what the merge returns for every key, the type of a loaded
  configuration, and which layer wins.
\<close>

section \<open>What the merge returns\<close>

text \<open>The value of one key after a merge, over the values of the two layers.\<close>

definition merged_value :: "yaml option \<Rightarrow> yaml option \<Rightarrow> yaml option" where
  "merged_value b o1 =
     (case o1 of
        None \<Rightarrow> b
      | Some (YDict kvs) \<Rightarrow> (case b of Some (YDict bs) \<Rightarrow> Some (YDict (deep_merge bs kvs)) | _ \<Rightarrow> o1)
      | Some _ \<Rightarrow> o1)"

lemma deep_merge_untouched: "k \<notin> fst ` set overlay \<Longrightarrow> map_of (deep_merge result overlay) k = map_of result k"
  by (induction result overlay rule: deep_merge.induct) (auto simp: map_of_dict_put)

lemma map_of_deep_merge:
  "distinct (map fst overlay) \<Longrightarrow>
   map_of (deep_merge result overlay) k = merged_value (map_of result k) (map_of overlay k)"
proof (induction overlay arbitrary: result)
  case Nil
  then show ?case by (simp add: merged_value_def)
next
  case (Cons kv overlay)
  obtain k1 v where kv: "kv = (k1, v)" by (cases kv)
  show ?case
  proof (cases "k = k1")
    case True
    then have "k \<notin> fst ` set overlay" using Cons.prems by (simp add: kv)
    then show ?thesis
      by (simp add: kv True deep_merge_untouched map_of_dict_put merged_value_def split: yaml.split option.split)
  next
    case False
    then show ?thesis using Cons by (simp add: kv map_of_dict_put)
  qed
qed

text \<open>The value at the end of a path of keys.\<close>

fun at_path :: "yaml \<Rightarrow> ykey list \<Rightarrow> yaml option" where
  "at_path v [] = Some v"
| "at_path (YDict d) (k # ks) = (case map_of d k of None \<Rightarrow> None | Some v \<Rightarrow> at_path v ks)"
| "at_path v (k # ks) = None"

fun unique_keys :: "yaml \<Rightarrow> bool" where
  "unique_keys (YDict d) = (distinct (map fst d) \<and> list_all (\<lambda>(k, v). unique_keys v) d)"
| "unique_keys (YList xs) = list_all unique_keys xs"
| "unique_keys v = True"

text \<open>The overlay leaves a path alone when it stops at a missing key before the path ends.\<close>

fun leaves_alone :: "yaml \<Rightarrow> ykey list \<Rightarrow> bool" where
  "leaves_alone v [] = False"
| "leaves_alone (YDict d) (k # ks) = (case map_of d k of None \<Rightarrow> True | Some v \<Rightarrow> leaves_alone v ks)"
| "leaves_alone v (k # ks) = False"

definition is_dict :: "yaml \<Rightarrow> bool" where
  "is_dict v = (case v of YDict _ \<Rightarrow> True | _ \<Rightarrow> False)"

lemma unique_keys_lookup: "unique_keys (YDict d) \<Longrightarrow> map_of d k = Some v \<Longrightarrow> unique_keys v"
  by (auto simp: list_all_iff dest: map_of_SomeD)

lemma leaves_alone_None: "leaves_alone v ks \<Longrightarrow> at_path v ks = None"
  by (induction v ks rule: leaves_alone.induct) (simp_all split: option.splits)

lemma overlay_wins:
  "unique_keys (YDict overlay) \<Longrightarrow> at_path (YDict overlay) ks = Some v \<Longrightarrow> \<not> is_dict v \<Longrightarrow>
   at_path (YDict (deep_merge result overlay)) ks = Some v"
proof (induction ks arbitrary: overlay result)
  case Nil
  then show ?case by (auto simp: is_dict_def)
next
  case (Cons k ks)
  obtain w where w: "map_of overlay k = Some w" "at_path w ks = Some v" using Cons.prems(2) by (auto split: option.splits)
  have m: "map_of (deep_merge result overlay) k = merged_value (map_of result k) (Some w)"
    using Cons.prems(1) w by (simp add: map_of_deep_merge)
  show ?case
  proof (cases w)
    case (YDict os)
    then show ?thesis
      using Cons.IH [OF unique_keys_lookup [OF Cons.prems(1) w(1), unfolded YDict] _ Cons.prems(3)] w m
      by (auto simp: merged_value_def split: option.splits yaml.splits)
  qed (use w m in \<open>simp_all add: merged_value_def\<close>)
qed

lemma base_kept:
  "unique_keys (YDict overlay) \<Longrightarrow> leaves_alone (YDict overlay) ks \<Longrightarrow>
   at_path (YDict (deep_merge result overlay)) ks = at_path (YDict result) ks"
proof (induction ks arbitrary: overlay result)
  case Nil
  then show ?case by simp
next
  case (Cons k ks)
  show ?case
  proof (cases "map_of overlay k")
    case None
    then show ?thesis using Cons.prems(1) by (simp add: map_of_deep_merge merged_value_def)
  next
    case (Some w)
    have m: "map_of (deep_merge result overlay) k = merged_value (map_of result k) (Some w)"
      using Cons.prems(1) Some by (simp add: map_of_deep_merge)
    have alone: "leaves_alone w ks" using Cons.prems(2) Some by simp
    then obtain os where w: "w = YDict os" by (cases ks; cases w) simp_all
    show ?thesis
      using Cons.IH [OF unique_keys_lookup [OF Cons.prems(1) Some, unfolded w] alone [unfolded w]] m
        leaves_alone_None [OF alone]
      by (cases ks) (auto simp: w merged_value_def split: option.splits yaml.splits)
  qed
qed

section \<open>The type of a configuration\<close>

text \<open>
  A dictionary type lists the keys that must be there; other keys are free. \<open>TList\<close> holds elements of
  one type and \<open>TNum\<close> an integer or a decimal.
\<close>

datatype ytype = TBool | TInt | TNum | TStr | TList ytype | TDict "(ykey \<times> ytype) list"

fun has_type :: "yaml \<Rightarrow> ytype \<Rightarrow> bool" where
  "has_type v TBool = (case v of YBool _ \<Rightarrow> True | _ \<Rightarrow> False)"
| "has_type v TInt = (case v of YInt _ \<Rightarrow> True | _ \<Rightarrow> False)"
| "has_type v TNum = (case v of YInt _ \<Rightarrow> True | YDec _ _ \<Rightarrow> True | _ \<Rightarrow> False)"
| "has_type v TStr = (case v of YStr _ \<Rightarrow> True | _ \<Rightarrow> False)"
| "has_type v (TList t) = (case v of YList xs \<Rightarrow> list_all (\<lambda>x. has_type x t) xs | _ \<Rightarrow> False)"
| "has_type v (TDict fs) =
     (case v of
        YDict d \<Rightarrow> list_all (\<lambda>(k, t). case map_of d k of None \<Rightarrow> False | Some x \<Rightarrow> has_type x t) fs
      | _ \<Rightarrow> False)"

text \<open>An overlay fits a type when every value it gives for a key of the type fits; keys may be missing.\<close>

fun fits :: "yaml \<Rightarrow> ytype \<Rightarrow> bool" where
  "fits (YDict d) t =
     (case t of
        TDict fs \<Rightarrow> list_all (\<lambda>(k, x). list_all (\<lambda>(k1, t1). k1 = k \<longrightarrow> fits x t1) fs) d
      | _ \<Rightarrow> False)"
| "fits v t = has_type v t"

lemma has_type_dict:
  "has_type (YDict d) (TDict fs) \<longleftrightarrow> (\<forall>k t. (k, t) \<in> set fs \<longrightarrow> (\<exists>x. map_of d k = Some x \<and> has_type x t))"
  by (fastforce simp: list_all_iff split: option.splits)

lemma fits_dict:
  "fits (YDict d) (TDict fs) \<longleftrightarrow> (\<forall>k x t. (k, x) \<in> set d \<longrightarrow> (k, t) \<in> set fs \<longrightarrow> fits x t)"
  by (auto simp: list_all_iff)

lemma has_type_put:
  assumes "has_type (YDict d) (TDict fs)" "\<And>t. (k, t) \<in> set fs \<Longrightarrow> has_type v t"
  shows "has_type (YDict (dict_put k v d)) (TDict fs)"
  using assms by (auto simp: has_type_dict map_of_dict_put simp del: has_type.simps)

lemma fits_leaf: "\<not> is_dict v \<Longrightarrow> fits v t = has_type v t"
  by (cases v) (simp_all add: is_dict_def)

lemma fits_dict_type: "fits (YDict d) t \<Longrightarrow> \<exists>fs. t = TDict fs"
  by (cases t) simp_all

lemma has_type_is_dict: "has_type v (TDict fs) \<Longrightarrow> \<exists>d. v = YDict d"
  by (cases v) simp_all

text \<open>A merge keeps the type of the lower layer when the upper layer fits it.\<close>

lemma deep_merge_typed:
  "has_type (YDict result) (TDict fs) \<Longrightarrow> fits (YDict overlay) (TDict fs) \<Longrightarrow>
   has_type (YDict (deep_merge result overlay)) (TDict fs)"
proof (induction result overlay arbitrary: fs rule: deep_merge.induct)
  case (1 result)
  then show ?case by simp
next
  case (2 result k v overlay)
  let ?v = "case v of YDict o1 \<Rightarrow> (case map_of result k of Some (YDict b1) \<Rightarrow> YDict (deep_merge b1 o1) | _ \<Rightarrow> v) | _ \<Rightarrow> v"
  have "has_type ?v t" if t: "(k, t) \<in> set fs" for t
  proof -
    obtain b where b: "map_of result k = Some b" "has_type b t"
      using "2.prems"(1) t by (auto simp: has_type_dict simp del: has_type.simps)
    have v: "fits v t" using "2.prems"(2) t by (auto simp: fits_dict simp del: fits.simps)
    show ?thesis
    proof (cases "is_dict v")
      case True
      then obtain o1 where o1: "v = YDict o1" by (cases v) (simp_all add: is_dict_def)
      obtain fs1 where fs1: "t = TDict fs1" using fits_dict_type v o1 by blast
      obtain b1 where b1: "b = YDict b1" using has_type_is_dict b(2) fs1 by blast
      show ?thesis using "2.IH"(1) [OF o1 b(1) [unfolded b1]] b v by (simp add: o1 b1 fs1 del: has_type.simps fits.simps)
    next
      case False
      then show ?thesis using v fits_leaf by (cases v) (auto simp: is_dict_def)
    qed
  qed
  then have "has_type (YDict (dict_put k ?v result)) (TDict fs)" by (rule has_type_put [OF "2.prems"(1)])
  moreover have "fits (YDict overlay) (TDict fs)" using "2.prems"(2) by (auto simp: fits_dict simp del: fits.simps)
  ultimately show ?case unfolding deep_merge.simps by (rule "2.IH"(2))
qed

text \<open>The type of the defaults, key by key.\<close>

fun shape :: "yaml \<Rightarrow> ytype" where
  "shape (YBool b) = TBool"
| "shape (YInt i) = TInt"
| "shape (YDec m e) = TNum"
| "shape (YList (x # xs)) = TList (shape x)"
| "shape (YDict d) = TDict (map (\<lambda>(k, v). (k, shape v)) d)"
| "shape v = TStr"

definition CONFIG_FIELDS :: "(ykey \<times> ytype) list" where
  "CONFIG_FIELDS = map (\<lambda>(k, v). (k, shape v)) CLOUD_DEFAULTS"

lemma defaults_typed: "has_type (YDict CLOUD_DEFAULTS) (TDict CONFIG_FIELDS)"
  by code_simp

lemma config_fields [simp]:
  "distinct (map fst CONFIG_FIELDS)"
  "map_of CONFIG_FIELDS (KStr ''database'') = Some (TDict [(KStr ''uri'', TStr)])"
  "map_of CONFIG_FIELDS (KStr ''api'') = Some (TDict [(KStr ''host'', TStr), (KStr ''port'', TInt)])"
  "map_of CONFIG_FIELDS (KStr ''dispatch'') = Some (TDict [(KStr ''mode'', TStr)])"
  "map_of CONFIG_FIELDS (KStr ''auth'') = Some (TDict
     [(KStr ''jwt_secret'', TStr), (KStr ''access_ttl_minutes'', TInt), (KStr ''refresh_ttl_days'', TInt),
      (KStr ''cookie_secure'', TBool), (KStr ''lockout_threshold'', TInt), (KStr ''lockout_minutes'', TInt),
      (KStr ''login_rate_limit_attempts'', TInt), (KStr ''login_rate_limit_window_minutes'', TInt)])"
  "map_of CONFIG_FIELDS (KStr ''oauth'') = Some (TDict
     [(KStr ''redirect_base_url'', TStr), (KStr ''microsoft'', TDict [(KStr ''client_id'', TStr)]),
      (KStr ''google'', TDict [(KStr ''client_id'', TStr), (KStr ''client_secret'', TStr)])])"
  by code_simp+

section \<open>The environment keeps the type\<close>

definition keeps :: "(ykey \<times> ytype) list \<Rightarrow> (ydict \<Rightarrow> py_exn + ydict) \<Rightarrow> bool" where
  "keeps T f \<longleftrightarrow> (\<forall>d. has_type (YDict d) (TDict T) \<longrightarrow> (\<exists>d1. f d = Inr d1 \<and> has_type (YDict d1) (TDict T)))"

named_theorems keeps_intros "operations that keep the type of a dictionary"

lemma keeps_assign [keeps_intros]: "list_all (\<lambda>(k1, t). k1 = k \<longrightarrow> has_type v t) T \<Longrightarrow> keeps T (assign k v)"
  using has_type_put by (force simp: keeps_def assign_def list_all_iff simp del: has_type.simps)

lemma keeps_below:
  assumes "map_of T k = Some (TDict T1)" "distinct (map fst T)" "keeps T1 f" "has_type (YDict d) (TDict T)"
  shows "\<exists>s s1. map_of d k = Some (YDict s) \<and> f s = Inr s1 \<and> has_type (YDict (dict_put k (YDict s1) d)) (TDict T)"
proof -
  have k: "(k, TDict T1) \<in> set T" using assms(1) by (rule map_of_SomeD)
  then obtain v where v: "map_of d k = Some v" "has_type v (TDict T1)"
    using assms(4) by (auto simp: has_type_dict simp del: has_type.simps)
  then obtain s where s: "v = YDict s" using has_type_is_dict by blast
  obtain s1 where s1: "f s = Inr s1" "has_type (YDict s1) (TDict T1)" using assms(3) v(2) s unfolding keeps_def by blast
  have "has_type (YDict (dict_put k (YDict s1) d)) (TDict T)"
    by (rule has_type_put [OF assms(4)]) (use s1(2) k assms(2) in \<open>auto dest: eq_key_imp_eq_value simp del: has_type.simps\<close>)
  then show ?thesis using v s s1 by blast
qed

lemma keeps_in_dict [keeps_intros]:
  assumes "map_of T k = Some (TDict T1)" "distinct (map fst T)" "keeps T1 f"
  shows "keeps T (in_dict k f)"
  unfolding keeps_def using keeps_below [OF assms] by (fastforce simp: in_dict_def simp del: has_type.simps)

lemma keeps_in_default [keeps_intros]:
  assumes "map_of T k = Some (TDict T1)" "distinct (map fst T)" "keeps T1 f"
  shows "keeps T (in_default k x f)"
  unfolding keeps_def using keeps_below [OF assms] by (fastforce simp: in_default_def simp del: has_type.simps)

lemma keeps_override [keeps_intros]: "(truthy (env n) \<Longrightarrow> keeps T (f (the (env n)))) \<Longrightarrow> keeps T (override env n f)"
  by (auto simp: keeps_def override_def)

lemma keeps_in_turn: "list_all (keeps T) fs \<Longrightarrow> keeps T (in_turn fs)"
  by (induction fs) (auto simp: keeps_def split: sum.split)

lemma keeps_if [keeps_intros]: "keeps T f \<Longrightarrow> keeps T g \<Longrightarrow> keeps T (\<lambda>d. if b then f d else g d)"
  by (simp add: keeps_def)

lemma keeps_port:
  "int_of_string s \<noteq> None \<Longrightarrow> keeps CONFIG_FIELDS (set_port s)"
  unfolding set_port_def by (cases "int_of_string s") (auto intro!: keeps_intros)

lemma keeps_oauth:
  "keeps CONFIG_FIELDS (set_oauth ''microsoft'' ''client_id'' v)"
  "keeps CONFIG_FIELDS (set_oauth ''google'' ''client_id'' v)"
  "keeps CONFIG_FIELDS (set_oauth ''google'' ''client_secret'' v)"
  unfolding set_oauth_def by (auto intro!: keeps_intros)

lemma keeps_environment:
  assumes "truthy (env ''API_PORT'') \<Longrightarrow> int_of_string (the (env ''API_PORT'')) \<noteq> None"
  shows "keeps CONFIG_FIELDS (in_turn (env_overrides env))"
  unfolding env_overrides_def
  by (rule keeps_in_turn) (auto intro!: keeps_intros keeps_oauth keeps_port assms)

section \<open>A loaded configuration\<close>

text \<open>The file is missing, empty, or a document that fits the type of the defaults.\<close>

definition file_fits :: "yaml_file \<Rightarrow> bool" where
  "file_fits f =
     (case f of
        No_file \<Rightarrow> True
      | Bad_yaml x \<Rightarrow> False
      | Document v \<Rightarrow> \<not> y_truthy v \<or> fits v (TDict CONFIG_FIELDS))"

definition bad_port :: "environ \<Rightarrow> bool" where
  "bad_port env = (truthy (env ''API_PORT'') \<and> int_of_string (the (env ''API_PORT'')) = None)"

lemma layered_typed:
  assumes "file_fits f"
  shows "\<exists>d. layered f = Inr d \<and> has_type (YDict d) (TDict CONFIG_FIELDS)"
proof (cases f)
  case (Document v)
  show ?thesis
  proof (cases "y_truthy v")
    case False
    then show ?thesis using Document defaults_typed by (simp add: layered_def try_read_yaml_def del: has_type.simps)
  next
    case True
    then have fits: "fits v (TDict CONFIG_FIELDS)" using assms Document by (simp add: file_fits_def)
    then obtain overlay where "v = YDict overlay" by (cases v) simp_all
    then show ?thesis using Document True deep_merge_typed [OF defaults_typed] fits
      by (simp add: layered_def try_read_yaml_def del: has_type.simps fits.simps)
  qed
qed (use assms defaults_typed in \<open>simp_all add: file_fits_def layered_def try_read_yaml_def del: has_type.simps\<close>)

lemma in_turn_append: "in_turn (fs @ gs) d = (case in_turn fs d of Inl x \<Rightarrow> Inl x | Inr d1 \<Rightarrow> in_turn gs d1)"
  by (induction fs arbitrary: d) (simp_all split: sum.split)

lemma bad_port_raises:
  assumes "bad_port env" "has_type (YDict d) (TDict CONFIG_FIELDS)"
  shows "in_turn (env_overrides env) d = Inl ValueError"
proof -
  define before where "before = take 2 (env_overrides env)"
  define after where "after = drop 3 (env_overrides env)"
  have split: "env_overrides env = before @ override env ''API_PORT'' set_port # after"
    by (simp add: before_def after_def env_overrides_def)
  have "list_all (keeps CONFIG_FIELDS) before"
    unfolding before_def env_overrides_def by (auto intro!: keeps_intros)
  from keeps_in_turn [OF this] obtain d1 where "in_turn before d = Inr d1" using assms(2) unfolding keeps_def by blast
  then show ?thesis using assms(1) by (simp add: split in_turn_append override_def set_port_def bad_port_def)
qed

text \<open>C13.
  When the file fits the types of the defaults, a loaded configuration has every key of the defaults with
  a value of its type, under every environment: the lookups of the cloud below it cannot fail. The only
  failure is a port in the environment that is no number, which raises ValueError.
\<close>

theorem loaded_config_is_typed:
  assumes "file_fits (bootstrap is_frozen default_file live)"
  shows "if bad_port env then load_config env is_frozen default_file live = Inl ValueError
    else \<exists>config. load_config env is_frozen default_file live = Inr config \<and> has_type (YDict config) (TDict CONFIG_FIELDS)"
proof -
  obtain d where d: "layered (bootstrap is_frozen default_file live) = Inr d" "has_type (YDict d) (TDict CONFIG_FIELDS)"
    using layered_typed [OF assms] by blast
  show ?thesis
  proof (cases "bad_port env")
    case True
    then show ?thesis using d bad_port_raises by (simp add: load_config_def del: has_type.simps)
  next
    case False
    then have "keeps CONFIG_FIELDS (in_turn (env_overrides env))"
      by (intro keeps_environment) (auto simp: bad_port_def)
    then show ?thesis using False d unfolding keeps_def by (auto simp: load_config_def simp del: has_type.simps)
  qed
qed

definition demo_file :: yaml_file where
  "demo_file = Document (YDict [(KStr ''crawler'', YDict [(KStr ''workers'', YInt 3), (KStr ''js_settle_time'', YInt 1)]),
     (KStr ''extra'', YNull)])"

definition demo_env :: environ where
  "demo_env = [''API_PORT'' \<mapsto> ''80'', ''COOKIE_SECURE'' \<mapsto> ''True'', ''OAUTH_MS_CLIENT_ID'' \<mapsto> ''m'']"

lemma demo_file_fits: "file_fits (bootstrap True demo_file No_file)"
  by code_simp

theorem loaded_config_is_typed_witness:
  "(if bad_port demo_env then load_config demo_env True demo_file No_file = Inl ValueError
    else \<exists>config. load_config demo_env True demo_file No_file = Inr config \<and> has_type (YDict config) (TDict CONFIG_FIELDS)) \<and>
   \<not> bad_port demo_env"
proof
  show "\<not> bad_port demo_env" by code_simp
qed (rule loaded_config_is_typed [OF demo_file_fits])

text \<open>
  Under the merge every leaf the file gives is the value of its path, and a path the file does not
  reach keeps the value of the defaults: single settings can be overridden without their siblings.
\<close>

theorem file_overrides_single_settings:
  assumes "layered (Document (YDict overlay)) = Inr config" "unique_keys (YDict overlay)"
  shows "(case at_path (YDict overlay) ks of
        Some v \<Rightarrow> is_dict v \<or> at_path (YDict config) ks = Some v
      | None \<Rightarrow> (if leaves_alone (YDict overlay) ks then at_path (YDict config) ks = at_path (YDict CLOUD_DEFAULTS) ks else True))"
proof -
  have c: "config = deep_merge CLOUD_DEFAULTS overlay" using assms(1) by (cases overlay) (auto simp: layered_def try_read_yaml_def)
  show ?thesis
    using overlay_wins [OF assms(2), of ks _ CLOUD_DEFAULTS] base_kept [OF assms(2), of ks CLOUD_DEFAULTS]
      leaves_alone_None [of "YDict overlay" ks]
    by (auto simp: c split: option.split)
qed

theorem file_overrides_single_settings_witness:
  "\<exists>config. layered (Document (YDict [(KStr ''api'', YDict [(KStr ''port'', YInt 9)])])) = Inr config \<and>
     at_path (YDict config) [KStr ''api'', KStr ''port''] = Some (YInt 9) \<and>
     at_path (YDict config) [KStr ''api'', KStr ''host''] = Some (YStr ''127.0.0.1'')"
proof -
  let ?o = "[(KStr ''api'', YDict [(KStr ''port'', YInt 9)])]"
  obtain config where c: "layered (Document (YDict ?o)) = Inr config"
    by (simp add: layered_def try_read_yaml_def)
  have u: "unique_keys (YDict ?o)" by simp
  have "at_path (YDict CLOUD_DEFAULTS) [KStr ''api'', KStr ''host''] = Some (YStr ''127.0.0.1'')" by code_simp
  then show ?thesis
    using c file_overrides_single_settings [OF c u, of "[KStr ''api'', KStr ''port'']"]
      file_overrides_single_settings [OF c u, of "[KStr ''api'', KStr ''host'']"]
    by (simp add: is_dict_def)
qed

end
