(* ===== verification/SettingsApi.thy ===== *)
theory SettingsApi
  imports Config LeadApi
begin

text \<open>
  The settings endpoints (\<open>cloud/api/config.py\<close>). Settings live in two places: the configuration of the
  process with its file, and the crawl policy in the settings table. A stored policy always has weights,
  as the seed and every save write them.
\<close>

section \<open>Conversions\<close>

text \<open>\<open>int\<close>, \<open>bool\<close> and \<open>float\<close> of a JSON value; \<open>float_text\<close> is \<open>float\<close> of a text, None when it raises.\<close>

definition py_int :: "json \<Rightarrow> py_exn + json" where
  "py_int v =
     (case v of
        JInt i \<Rightarrow> Inr (JInt i)
      | JBool b \<Rightarrow> Inr (JInt (if b then 1 else 0))
      | JDec m e \<Rightarrow> Inr (JInt (if 0 \<le> m then m div 10 ^ e else - ((- m) div 10 ^ e)))
      | JStr s \<Rightarrow> (case int_of_string s of None \<Rightarrow> Inl ValueError | Some i \<Rightarrow> Inr (JInt i))
      | _ \<Rightarrow> Inl TypeError)"

definition py_bool :: "json \<Rightarrow> py_exn + json" where
  "py_bool v = Inr (JBool (j_truthy v))"

type_synonym float_parser = "string \<Rightarrow> (int \<times> nat) option"

definition py_float :: "float_parser \<Rightarrow> json \<Rightarrow> py_exn + json" where
  "py_float float_text v =
     (case v of
        JInt i \<Rightarrow> Inr (JDec i 0)
      | JBool b \<Rightarrow> Inr (JDec (if b then 1 else 0) 0)
      | JDec m e \<Rightarrow> Inr (JDec m e)
      | JStr s \<Rightarrow> (case float_text s of None \<Rightarrow> Inl ValueError | Some (m, e) \<Rightarrow> Inr (JDec m e))
      | _ \<Rightarrow> Inl TypeError)"

definition parse_list :: "json \<Rightarrow> py_exn + json" where
  "parse_list v =
     (case v of
        JStr s \<Rightarrow>
          Inr (JList (map JStr (filter (\<lambda>x. x \<noteq> [])
            (map py_strip (py_split LF (map (\<lambda>c. if c = CHR '','' then LF else c) s))))))
      | _ \<Rightarrow> Inl AttributeError)"

text \<open>Between the two kinds of value: a configuration is written with \<open>yaml.dump\<close> and answered as JSON.\<close>

definition key_text :: "ykey \<Rightarrow> string" where
  "key_text k = (case k of KStr s \<Rightarrow> s | KInt i \<Rightarrow> py_str_int i)"

fun to_json :: "yaml \<Rightarrow> json" where
  "to_json YNull = JNull"
| "to_json (YBool b) = JBool b"
| "to_json (YInt i) = JInt i"
| "to_json (YDec m e) = JDec m e"
| "to_json (YStr s) = JStr s"
| "to_json (YList xs) = JList (map to_json xs)"
| "to_json (YDict d) = JObj (map (\<lambda>(k, v). (key_text k, to_json v)) d)"

fun of_json :: "json \<Rightarrow> yaml" where
  "of_json JNull = YNull"
| "of_json (JBool b) = YBool b"
| "of_json (JInt i) = YInt i"
| "of_json (JDec m e) = YDec m e"
| "of_json (JStr s) = YStr s"
| "of_json (JList xs) = YList (map of_json xs)"
| "of_json (JObj d) = YDict (map (\<lambda>(k, v). (KStr k, of_json v)) d)"

section \<open>Where a setting lives\<close>

text \<open>
  \<open>Local k\<close> is \<open>config["crawler"][k]\<close>; the others are keys of the policy: of its crawler section, of a
  subsection of the extraction section, of the weights, and of a subsection of the crawler section.
\<close>

datatype place = Local string | Crawler string | Extraction string string | Weight string | Sub string string

record settings_copy =
  sc_cfg :: ydict
  sc_policy :: crawl_policy

definition weight_fields :: "(string \<times> ((int \<Rightarrow> int) \<Rightarrow> weights \<Rightarrow> weights) \<times> (weights \<Rightarrow> int)) list" where
  "weight_fields =
     [(''email_high'', w_email_high_update, w_email_high), (''email_low'', w_email_low_update, w_email_low),
      (''person_name'', w_person_name_update, w_person_name), (''designation'', w_designation_update, w_designation),
      (''phone'', w_phone_update, w_phone)]"

text \<open>\<open>d.setdefault(sub, {})[k] = v\<close> on a JSON object.\<close>

definition put_below :: "string \<Rightarrow> string \<Rightarrow> json \<Rightarrow> json option \<Rightarrow> py_exn + json" where
  "put_below sub k v d =
     (case (case d of None \<Rightarrow> JObj [] | Some x \<Rightarrow> x) of
        JObj s \<Rightarrow> Inr (JObj (dict_put k v s))
      | _ \<Rightarrow> Inl TypeError)"

fun place_put :: "place \<Rightarrow> json \<Rightarrow> settings_copy \<Rightarrow> py_exn + settings_copy" where
  "place_put (Local k) v s =
     (case in_dict (KStr ''crawler'') (assign (KStr k) (of_json v)) (sc_cfg s) of
        Inl x \<Rightarrow> Inl x
      | Inr d \<Rightarrow> Inr (s\<lparr>sc_cfg := d\<rparr>))"
| "place_put (Crawler k) v s =
     Inr (s\<lparr>sc_policy := (sc_policy s)\<lparr>cp_crawler := map_option (\<lambda>c. c(k \<mapsto> v)) (cp_crawler (sc_policy s))\<rparr>\<rparr>)"
| "place_put (Extraction sub k) v s =
     (case cp_extraction (sc_policy s) of
        Some (JObj ex) \<Rightarrow>
          (case put_below sub k v (map_of ex sub) of
             Inl x \<Rightarrow> Inl x
           | Inr o1 \<Rightarrow> Inr (s\<lparr>sc_policy := (sc_policy s)\<lparr>cp_extraction := Some (JObj (dict_put sub o1 ex))\<rparr>\<rparr>))
      | _ \<Rightarrow> Inl AttributeError)"
| "place_put (Weight k) v s =
     (case (v, map_of weight_fields k) of
        (JInt i, Some (put, get)) \<Rightarrow>
          Inr (s\<lparr>sc_policy := (sc_policy s)\<lparr>cp_weights := map_option (put (\<lambda>_. i)) (cp_weights (sc_policy s))\<rparr>\<rparr>)
      | _ \<Rightarrow> Inl TypeError)"
| "place_put (Sub sub k) v s =
     (case cp_crawler (sc_policy s) of
        None \<Rightarrow> Inl KeyError
      | Some c \<Rightarrow>
          (case put_below sub k v (c sub) of
             Inl x \<Rightarrow> Inl x
           | Inr o1 \<Rightarrow> Inr (s\<lparr>sc_policy := (sc_policy s)\<lparr>cp_crawler := Some (c(sub \<mapsto> o1))\<rparr>\<rparr>)))"

section \<open>Saving\<close>

text \<open>The statements of the handler in order: an edit for a key of the body, or a \<open>setdefault\<close> of a subsection.\<close>

datatype step = Edit string "json \<Rightarrow> py_exn + json" place | Ensure string

definition save_steps :: "float_parser \<Rightarrow> step list" where
  "save_steps float_text =
     [Edit ''workers'' py_int (Local ''workers''), Edit ''per_url_timeout'' py_int (Local ''per_url_timeout''),
      Edit ''playwright_timeout'' py_int (Local ''playwright_timeout''),
      Edit ''js_settle_time'' (py_float float_text) (Local ''js_settle_time''),
      Edit ''httpx_first'' py_bool (Local ''httpx_first''),
      Edit ''playwright_fallback'' py_bool (Local ''playwright_fallback''),
      Edit ''max_depth'' py_int (Crawler ''max_depth''), Edit ''recrawl_days'' py_int (Crawler ''recrawl_days''),
      Edit ''request_delay'' (py_float float_text) (Crawler ''request_delay''),
      Edit ''email_enabled'' py_bool (Extraction ''email'' ''enabled''),
      Edit ''email_context_chars'' py_int (Extraction ''email'' ''context_chars''),
      Edit ''person_enabled'' py_bool (Extraction ''person'' ''enabled''),
      Edit ''person_proximity_chars'' py_int (Extraction ''person'' ''proximity_chars''),
      Edit ''weight_email_high'' py_int (Weight ''email_high''), Edit ''weight_email_low'' py_int (Weight ''email_low''),
      Edit ''weight_person_name'' py_int (Weight ''person_name''),
      Edit ''weight_designation'' py_int (Weight ''designation''), Edit ''weight_phone'' py_int (Weight ''phone''),
      Edit ''target_suffixes'' parse_list (Crawler ''target_suffixes''),
      Edit ''priority_keywords'' parse_list (Crawler ''priority_keywords''),
      Edit ''skip_extensions'' parse_list (Crawler ''skip_extensions''),
      Edit ''valid_suffixes'' parse_list (Extraction ''email'' ''valid_suffixes''),
      Edit ''title_prefixes'' parse_list (Extraction ''person'' ''title_prefixes''),
      Edit ''designation_keywords'' parse_list (Extraction ''person'' ''designation_keywords''),
      Ensure ''max_links_per_page'',
      Edit ''max_links_per_page_0'' py_int (Sub ''max_links_per_page'' ''0''),
      Edit ''max_links_per_page_1'' py_int (Sub ''max_links_per_page'' ''1''),
      Edit ''max_links_per_page_2'' py_int (Sub ''max_links_per_page'' ''2''),
      Edit ''max_links_per_page_default'' py_int (Sub ''max_links_per_page'' ''default''),
      Ensure ''pagination'',
      Edit ''pagination_enabled'' py_bool (Sub ''pagination'' ''enabled''),
      Edit ''pagination_max_pages'' py_int (Sub ''pagination'' ''max_pagination_pages''),
      Edit ''pagination_max_chain_children'' py_int (Sub ''pagination'' ''max_chain_children'')]"

fun run_step :: "(string \<rightharpoonup> json) \<Rightarrow> step \<Rightarrow> settings_copy \<Rightarrow> py_exn + settings_copy" where
  "run_step body (Edit key conv p) s =
     (case body key of
        None \<Rightarrow> Inr s
      | Some v \<Rightarrow> (case conv v of Inl x \<Rightarrow> Inl x | Inr j \<Rightarrow> place_put p j s))"
| "run_step body (Ensure sub) s =
     Inr (s\<lparr>sc_policy := (sc_policy s)\<lparr>cp_crawler :=
            map_option (\<lambda>c. if c sub = None then c(sub \<mapsto> JObj []) else c) (cp_crawler (sc_policy s))\<rparr>\<rparr>)"

fun run_steps :: "(string \<rightharpoonup> json) \<Rightarrow> step list \<Rightarrow> settings_copy \<Rightarrow> py_exn + settings_copy" where
  "run_steps body [] s = Inr s"
| "run_steps body (st # sts) s = (case run_step body st s of Inl x \<Rightarrow> Inl x | Inr s1 \<Rightarrow> run_steps body sts s1)"

definition policy_copy :: "crawl_policy \<Rightarrow> crawl_policy" where
  "policy_copy p =
     \<lparr>cp_extraction = Some (the_default (JObj []) (cp_extraction p)),
      cp_weights = Some (the_default DEFAULT_WEIGHTS (cp_weights p)),
      cp_crawler = Some (the_default Map.empty (cp_crawler p))\<rparr>"

record settings_service =
  ss_server :: server_db
  ss_config :: ydict
  ss_file :: yaml_file
  ss_recompute :: bool

text \<open>
  \<open>c.update(cfg)\<close> replaces every key of the copy. \<open>write\<close> is what the two writes of the file answer; the
  last statement queues the recomputation that runs after the answer.
\<close>

definition save_config ::
  "datetime \<Rightarrow> http_request \<Rightarrow> current_user \<Rightarrow> float_parser \<Rightarrow> py_exn option \<Rightarrow> (string \<times> json) list \<Rightarrow> settings_service \<Rightarrow>
   settings_service \<times> http_exn option" where
  "save_config now rq me float_text write body sv =
     (if \<not> has_all me [''settings.manage''] then (sv, Some (HTTPException 403 ''Insufficient permissions''))
      else
        (let crawl = cd_crawl (sv_cloud (ss_server sv));
             start = \<lparr>sc_cfg = ss_config sv, sc_policy = policy_copy (get_crawl_policy crawl)\<rparr>
         in case run_steps (map_of body) (save_steps float_text) start of
              Inl x \<Rightarrow> (sv, Some (ServerError x))
            | Inr done \<Rightarrow>
                (let stored = fst (set_app_setting ''crawl_policy'' (sc_policy done) (Some (me_id me)) None now crawl);
                     sv1 = sv\<lparr>ss_server := (ss_server sv)\<lparr>sv_cloud := (sv_cloud (ss_server sv))\<lparr>cd_crawl := stored\<rparr>\<rparr>\<rparr>
                 in case write of
                      Some x \<Rightarrow> (sv1, Some (ServerError x))
                    | None \<Rightarrow>
                        (sv1\<lparr>ss_file := Document (YDict (sc_cfg done)),
                             ss_config := foldl (\<lambda>d (k, v). dict_put k v d) (ss_config sv) (sc_cfg done),
                             ss_server := audited_plain now rq me ''settings.update''
                               [(''fields'', JList (map JStr (sorted_list_of_set (set (map fst body)))))] (ss_server sv1),
                             ss_recompute := ss_recompute sv \<or> cp_weights (sc_policy done) \<noteq> cp_weights (sc_policy start)\<rparr>,
                         None))))"
text \<open>The queued task, after the answer, beside the requests that come in meanwhile.\<close>

definition run_recompute :: "(crawl_db \<Rightarrow> crawl_db) \<Rightarrow> settings_service \<Rightarrow> settings_service" where
  "run_recompute race sv =
     (if ss_recompute sv
      then sv\<lparr>ss_recompute := False,
              ss_server := (ss_server sv)\<lparr>sv_cloud := (sv_cloud (ss_server sv))\<lparr>cd_crawl :=
                recompute_lead_scores race (cd_crawl (sv_cloud (ss_server sv)))\<rparr>\<rparr>\<rparr>
      else sv)"

section \<open>Reading\<close>

text \<open>\<open>d.get(k, default)\<close>, and the lookups of the policy sections with their defaults.\<close>

definition j_get :: "string \<Rightarrow> json \<Rightarrow> json \<Rightarrow> py_exn + json" where
  "j_get k dflt v = (case v of JObj d \<Rightarrow> Inr (the_default dflt (map_of d k)) | _ \<Rightarrow> Inl AttributeError)"

fun place_get :: "place \<Rightarrow> json \<Rightarrow> settings_copy \<Rightarrow> py_exn + json" where
  "place_get (Local k) dflt s =
     (case map_of (sc_cfg s) (KStr ''crawler'') of
        None \<Rightarrow> Inl KeyError
      | Some (YDict c) \<Rightarrow> Inr (case map_of c (KStr k) of Some v \<Rightarrow> to_json v | None \<Rightarrow> dflt)
      | Some _ \<Rightarrow> Inl TypeError)"
| "place_get (Crawler k) dflt s = Inr (the_default dflt (the_default Map.empty (cp_crawler (sc_policy s)) k))"
| "place_get (Extraction sub k) dflt s =
     (case j_get sub (JObj []) (the_default (JObj []) (cp_extraction (sc_policy s))) of
        Inl x \<Rightarrow> Inl x
      | Inr v \<Rightarrow> j_get k dflt v)"
| "place_get (Weight k) dflt s =
     (case (cp_weights (sc_policy s), map_of weight_fields k) of
        (Some w, Some (put, get)) \<Rightarrow> Inr (JInt (get w))
      | _ \<Rightarrow> Inr dflt)"
| "place_get (Sub sub k) dflt s = j_get k dflt (the_default (JObj []) (the_default Map.empty (cp_crawler (sc_policy s)) sub))"

text \<open>\<open>config["crawler"][k]\<close> without a default: a missing key raises.\<close>

definition require_local :: "string \<Rightarrow> settings_copy \<Rightarrow> py_exn + json" where
  "require_local k s =
     (case map_of (sc_cfg s) (KStr ''crawler'') of
        None \<Rightarrow> Inl KeyError
      | Some (YDict c) \<Rightarrow> (case map_of c (KStr k) of Some v \<Rightarrow> Inr (to_json v) | None \<Rightarrow> Inl KeyError)
      | Some _ \<Rightarrow> Inl TypeError)"

fun texts_of :: "json list \<Rightarrow> string list option" where
  "texts_of [] = Some []"
| "texts_of (JStr s # xs) = map_option ((#) s) (texts_of xs)"
| "texts_of (x # xs) = None"

text \<open>\<open>"\n".join\<close> over a list of texts, over the characters of a text or over the keys of an object.\<close>

definition join_lines :: "json \<Rightarrow> py_exn + json" where
  "join_lines v =
     (case v of
        JList xs \<Rightarrow> (case texts_of xs of None \<Rightarrow> Inl TypeError | Some ss \<Rightarrow> Inr (JStr (py_join [LF] ss)))
      | JStr s \<Rightarrow> Inr (JStr (py_join [LF] (map (\<lambda>c. [c]) s)))
      | JObj d \<Rightarrow> Inr (JStr (py_join [LF] (map fst d)))
      | _ \<Rightarrow> Inl TypeError)"

text \<open>A field of the answer: its place, the default of the lookup (None when a key must be there) and the rendering.\<close>

type_synonym field = "string \<times> place \<times> json option \<times> (json \<Rightarrow> py_exn + json)"

definition settings_fields :: "(json \<Rightarrow> string) \<Rightarrow> field list" where
  "settings_fields yaml_dump =
     [(''workers'', Local ''workers'', None, Inr), (''per_url_timeout'', Local ''per_url_timeout'', None, Inr),
      (''httpx_first'', Local ''httpx_first'', Some (JBool True), Inr),
      (''playwright_fallback'', Local ''playwright_fallback'', Some (JBool True), Inr),
      (''playwright_timeout'', Local ''playwright_timeout'', None, Inr),
      (''js_settle_time'', Local ''js_settle_time'', None, Inr),
      (''max_depth'', Crawler ''max_depth'', Some (JInt 4), Inr),
      (''recrawl_days'', Crawler ''recrawl_days'', Some (JInt 30), Inr),
      (''request_delay'', Crawler ''request_delay'', Some (JDec 15 1), Inr),
      (''email_enabled'', Extraction ''email'' ''enabled'', Some (JBool True), Inr),
      (''email_context_chars'', Extraction ''email'' ''context_chars'', Some (JInt 200), Inr),
      (''person_enabled'', Extraction ''person'' ''enabled'', Some (JBool True), Inr),
      (''person_proximity_chars'', Extraction ''person'' ''proximity_chars'', Some (JInt 300), Inr),
      (''weight_email_high'', Weight ''email_high'', Some (JInt 20), Inr),
      (''weight_email_low'', Weight ''email_low'', Some (JInt 10), Inr),
      (''weight_person_name'', Weight ''person_name'', Some (JInt 40), Inr),
      (''weight_designation'', Weight ''designation'', Some (JInt 30), Inr),
      (''weight_phone'', Weight ''phone'', Some (JInt 10), Inr),
      (''target_suffixes'', Crawler ''target_suffixes'', Some (JList []), join_lines),
      (''priority_keywords'', Crawler ''priority_keywords'', Some (JList []), join_lines),
      (''skip_extensions'', Crawler ''skip_extensions'', Some (JList []), join_lines),
      (''valid_suffixes'', Extraction ''email'' ''valid_suffixes'', Some (JList []), join_lines),
      (''title_prefixes'', Extraction ''person'' ''title_prefixes'', Some (JList []), join_lines),
      (''designation_keywords'', Extraction ''person'' ''designation_keywords'', Some (JList []), join_lines),
      (''max_links_per_page_0'', Sub ''max_links_per_page'' ''0'', Some (JInt 30), Inr),
      (''max_links_per_page_1'', Sub ''max_links_per_page'' ''1'', Some (JInt 15), Inr),
      (''max_links_per_page_2'', Sub ''max_links_per_page'' ''2'', Some (JInt 8), Inr),
      (''max_links_per_page_default'', Sub ''max_links_per_page'' ''default'', Some (JInt 5), Inr),
      (''user_agent'', Crawler ''user_agent'', Some (JStr []), Inr),
      (''js_indicators'', Crawler ''js_indicators'', Some (JList []), join_lines),
      (''email_regex'', Extraction ''email'' ''regex'', Some (JStr []), Inr),
      (''email_obfuscation'', Extraction ''email'' ''obfuscation'', Some (JList []), \<lambda>v. Inr (JStr (yaml_dump v))),
      (''pagination_enabled'', Sub ''pagination'' ''enabled'', Some (JBool False), Inr),
      (''pagination_max_pages'', Sub ''pagination'' ''max_pagination_pages'', Some (JInt 50), Inr),
      (''pagination_max_chain_children'', Sub ''pagination'' ''max_chain_children'', Some (JInt 100), Inr),
      (''pagination_text_signals'', Sub ''pagination'' ''text_signals'', Some (JList []), join_lines),
      (''pagination_param_signals'', Sub ''pagination'' ''param_signals'', Some (JList []), join_lines)]"

definition read_place :: "place \<Rightarrow> json option \<Rightarrow> settings_copy \<Rightarrow> py_exn + json" where
  "read_place p dflt s =
     (case (p, dflt) of
        (Local k, None) \<Rightarrow> require_local k s
      | _ \<Rightarrow> place_get p (the_default JNull dflt) s)"

fun read_all :: "field list \<Rightarrow> settings_copy \<Rightarrow> py_exn + (string \<times> json) list" where
  "read_all [] s = Inr []"
| "read_all ((name, p, dflt, render) # fs) s =
     (case read_place p dflt s of
        Inl x \<Rightarrow> Inl x
      | Inr v \<Rightarrow>
          (case render v of
             Inl x \<Rightarrow> Inl x
           | Inr j \<Rightarrow> (case read_all fs s of Inl x \<Rightarrow> Inl x | Inr js \<Rightarrow> Inr ((name, j) # js))))"

definition service_copy :: "settings_service \<Rightarrow> settings_copy" where
  "service_copy sv = \<lparr>sc_cfg = ss_config sv, sc_policy = get_crawl_policy (cd_crawl (sv_cloud (ss_server sv)))\<rparr>"

definition get_config :: "(json \<Rightarrow> string) \<Rightarrow> settings_service \<Rightarrow> py_exn + (string \<times> json) list" where
  "get_config yaml_dump sv = read_all (settings_fields yaml_dump) (service_copy sv)"

section \<open>The secret of the access tokens\<close>

text \<open>\<open>_ensure_jwt_secret\<close> of \<open>api/server.py\<close>: the configuration and, when a secret is generated, the written file.\<close>

definition ensure_jwt_secret :: "environ \<Rightarrow> string \<Rightarrow> ydict \<Rightarrow> py_exn + ydict \<times> yaml_file option" where
  "ensure_jwt_secret env fresh config =
     (case override env ''JWT_SECRET_PREV'' (\<lambda>v. in_default (KStr ''auth'') TypeError (assign (KStr ''jwt_secret_prev'') (YStr v))) config of
        Inl x \<Rightarrow> Inl x
      | Inr c1 \<Rightarrow>
          if truthy (env ''JWT_SECRET'')
          then map_sum id (\<lambda>c. (c, None))
                 (in_default (KStr ''auth'') TypeError (assign (KStr ''jwt_secret'') (YStr (the (env ''JWT_SECRET'')))) c1)
          else
            (case (case map_of c1 (KStr ''auth'') of None \<Rightarrow> YDict [] | Some a \<Rightarrow> a) of
               YDict a \<Rightarrow>
                 if (case map_of a (KStr ''jwt_secret'') of None \<Rightarrow> False | Some v \<Rightarrow> y_truthy v) then Inr (c1, None)
                 else map_sum id (\<lambda>c. (c, Some (Document (YDict c))))
                        (in_default (KStr ''auth'') TypeError (assign (KStr ''jwt_secret'') (YStr fresh)) c1)
             | _ \<Rightarrow> Inl AttributeError))"

end
