(* ===== verification/SettingsProps.thy ===== *)
theory SettingsProps
  imports SettingsApi ConfigProps CampaignProps
begin

text \<open>
  Properties of the settings: a saved value is the value that is read, everything else is read as before,
  and what an interrupted save leaves behind.
\<close>

section \<open>Places\<close>

text \<open>Two places that do not overlap: a key of the crawler section contains its subsection.\<close>

fun apart :: "place \<Rightarrow> place \<Rightarrow> bool" where
  "apart (Crawler a) (Sub b k) = (a \<noteq> b)"
| "apart (Sub b k) (Crawler a) = (a \<noteq> b)"
| "apart p q = (p \<noteq> q)"

lemma to_json_of_json [simp]: "to_json (of_json v) = v"
  by (induction v) (auto simp: key_text_def intro!: map_idI)

lemma in_dict_assign:
  "in_dict k (assign k1 v) d = Inr d1 \<Longrightarrow>
   \<exists>s. map_of d k = Some (YDict s) \<and> d1 = dict_put k (YDict (dict_put k1 v s)) d"
  by (auto simp: in_dict_def assign_def split: option.splits yaml.splits)

lemma put_below_SomeD:
  "put_below sub k v d = Inr j \<Longrightarrow>
   \<exists>s. (d = None \<and> s = [] \<or> d = Some (JObj s)) \<and> j = JObj (dict_put k v s)"
  by (auto simp: put_below_def split: option.splits json.splits)

lemma weight_laws:
  assumes "map_of weight_fields k = Some (put, get)"
  shows "get (put (\<lambda>_. i) w) = i"
    and "map_of weight_fields k1 = Some (put1, get1) \<Longrightarrow> k1 \<noteq> k \<Longrightarrow> get1 (put (\<lambda>_. i) w) = get1 w"
  using assms by (auto simp: weight_fields_def split: if_splits)

definition weights_set :: "settings_copy \<Rightarrow> bool" where
  "weights_set s = (cp_weights (sc_policy s) \<noteq> None \<and> cp_crawler (sc_policy s) \<noteq> None)"

lemma place_put_weights_set: "place_put p v s = Inr s1 \<Longrightarrow> weights_set s \<Longrightarrow> weights_set s1"
  by (cases p) (auto simp: weights_set_def split: sum.splits option.splits json.splits prod.splits)

lemma read_place_written:
  assumes "place_put p v s = Inr s1" "weights_set s"
  shows "read_place p dflt s1 = Inr v"
proof (cases p)
  case (Local k)
  then show ?thesis using assms(1)
    by (auto simp: read_place_def require_local_def map_of_dict_put dest!: in_dict_assign split: sum.splits option.splits)
next
  case (Crawler k)
  then show ?thesis using assms by (auto simp: read_place_def weights_set_def)
next
  case (Extraction sub k)
  then show ?thesis using assms(1)
    by (auto simp: read_place_def j_get_def map_of_dict_put dest!: put_below_SomeD split: sum.splits option.splits json.splits)
next
  case (Weight k)
  then show ?thesis using assms
    by (auto simp: read_place_def weights_set_def weight_laws(1) split: option.splits json.splits)
next
  case (Sub sub k)
  then show ?thesis using assms(1)
    by (auto simp: read_place_def j_get_def map_of_dict_put dest!: put_below_SomeD split: sum.splits option.splits)
qed

lemma read_place_other:
  assumes "place_put p v s = Inr s1" "apart p q"
  shows "read_place q dflt s1 = read_place q dflt s"
proof (cases p)
  case (Local k)
  then obtain c where c: "map_of (sc_cfg s) (KStr ''crawler'') = Some (YDict c)"
      "s1 = s\<lparr>sc_cfg := dict_put (KStr ''crawler'') (YDict (dict_put (KStr k) (of_json v) c)) (sc_cfg s)\<rparr>"
    using assms(1) by (auto dest!: in_dict_assign split: sum.splits)
  show ?thesis using assms(2) Local
    by (cases q) (auto simp: c read_place_def require_local_def map_of_dict_put split: option.splits)
next
  case (Crawler k)
  then show ?thesis using assms
    by (cases q; cases "cp_crawler (sc_policy s)") (auto simp: read_place_def require_local_def split: option.splits)
next
  case (Extraction sub k)
  then obtain ex j where ex: "cp_extraction (sc_policy s) = Some (JObj ex)" "put_below sub k v (map_of ex sub) = Inr j"
      "s1 = s\<lparr>sc_policy := (sc_policy s)\<lparr>cp_extraction := Some (JObj (dict_put sub j ex))\<rparr>\<rparr>"
    using assms(1) by (auto split: sum.splits option.splits json.splits)
  show ?thesis using assms(2) Extraction put_below_SomeD [OF ex(2)]
    by (cases q) (auto simp: ex(1,3) read_place_def require_local_def j_get_def map_of_dict_put split: option.splits)
next
  case (Weight k)
  then obtain i put get where w: "map_of weight_fields k = Some (put, get)"
      "s1 = s\<lparr>sc_policy := (sc_policy s)\<lparr>cp_weights := map_option (put (\<lambda>_. i)) (cp_weights (sc_policy s))\<rparr>\<rparr>"
    using assms(1) by (auto split: json.splits option.splits)
  show ?thesis using assms(2) Weight weight_laws(2) [OF w(1)]
    by (cases q) (auto simp: w(2) read_place_def require_local_def split: option.splits)
next
  case (Sub sub k)
  then obtain c j where c: "cp_crawler (sc_policy s) = Some c" "put_below sub k v (c sub) = Inr j"
      "s1 = s\<lparr>sc_policy := (sc_policy s)\<lparr>cp_crawler := Some (c(sub \<mapsto> j))\<rparr>\<rparr>"
    using assms(1) by (auto split: sum.splits option.splits)
  show ?thesis using assms(2) Sub put_below_SomeD [OF c(2)]
    by (cases q) (auto simp: c(1,3) read_place_def require_local_def j_get_def map_of_dict_put split: option.splits)
qed
lemma read_place_ensured: "run_step body (Ensure sub) s = Inr s1 \<Longrightarrow> apart (Crawler sub) q \<or> (\<exists>k. q = Sub sub k) \<Longrightarrow>
    read_place q dflt s1 = read_place q dflt s"
  by (cases q; cases "cp_crawler (sc_policy s)")
    (auto simp: read_place_def require_local_def j_get_def split: option.splits)

section \<open>A run of the handler\<close>

fun step_keys :: "step list \<Rightarrow> string list" where
  "step_keys [] = []"
| "step_keys (Edit key conv p # sts) = key # step_keys sts"
| "step_keys (Ensure sub # sts) = step_keys sts"

fun conv_of :: "string \<Rightarrow> step list \<Rightarrow> (json \<Rightarrow> py_exn + json) option" where
  "conv_of name [] = None"
| "conv_of name (Edit key conv p # sts) = (if key = name then Some conv else conv_of name sts)"
| "conv_of name (Ensure sub # sts) = conv_of name sts"

text \<open>A step either edits exactly this name at this place, or leaves the place alone.\<close>

fun tidy :: "string \<Rightarrow> place \<Rightarrow> step \<Rightarrow> bool" where
  "tidy name q (Edit key conv p) = (if key = name then p = q else apart p q)"
| "tidy name q (Ensure sub) = (apart (Crawler sub) q \<or> (case q of Sub s k \<Rightarrow> s = sub | _ \<Rightarrow> False))"

lemma conv_of_None: "name \<notin> set (step_keys sts) \<Longrightarrow> conv_of name sts = None"
  by (induction name sts rule: conv_of.induct) auto

lemma run_step_weights_set: "run_step body st s = Inr s1 \<Longrightarrow> weights_set s \<Longrightarrow> weights_set s1"
proof (cases st)
  case (Edit key conv p)
  then show "run_step body st s = Inr s1 \<Longrightarrow> weights_set s \<Longrightarrow> weights_set s1"
    by (auto dest: place_put_weights_set split: option.splits sum.splits)
qed (auto simp: weights_set_def)

lemma run_steps_weights_set: "run_steps body sts s = Inr s1 \<Longrightarrow> weights_set s \<Longrightarrow> weights_set s1"
  by (induction body sts s rule: run_steps.induct) (auto dest: run_step_weights_set split: sum.splits)

lemma run_steps_read:
  "run_steps body sts s = Inr s1 \<Longrightarrow> list_all (tidy name q) sts \<Longrightarrow> distinct (step_keys sts) \<Longrightarrow> weights_set s \<Longrightarrow>
   read_place q dflt s1 =
     (case (conv_of name sts, body name) of (Some conv, Some v) \<Rightarrow> conv v | _ \<Rightarrow> read_place q dflt s)"
proof (induction sts arbitrary: s)
  case Nil
  then show ?case by simp
next
  case (Cons st sts)
  obtain s2 where s2: "run_step body st s = Inr s2" "run_steps body sts s2 = Inr s1"
    using Cons.prems(1) by (auto split: sum.splits)
  have ws: "weights_set s2" using run_step_weights_set [OF s2(1)] Cons.prems(4) .
  have rest: "list_all (tidy name q) sts" "distinct (step_keys sts)"
    using Cons.prems(2,3) by (cases st; simp)+
  note IH = Cons.IH [OF s2(2) rest ws]
  show ?case
  proof (cases st)
    case (Ensure sub)
    then have "read_place q dflt s2 = read_place q dflt s"
      using s2(1) Cons.prems(2) by (intro read_place_ensured [of body sub]) (auto split: place.splits)
    then show ?thesis using IH by (simp add: Ensure cong: option.case_cong)
  next
    case (Edit key conv p)
    show ?thesis
    proof (cases "body key")
      case None
      then show ?thesis using IH s2(1) conv_of_None [of name sts] Cons.prems(3)
        by (auto simp: Edit split: option.splits)
    next
      case (Some v)
      then obtain j where j: "conv v = Inr j" "place_put p j s = Inr s2" using s2(1) by (auto simp: Edit split: sum.splits)
      show ?thesis
      proof (cases "key = name")
        case True
        then have "conv_of name sts = None" using Cons.prems(3) conv_of_None by (simp add: Edit)
        then show ?thesis using IH True Some j Cons.prems(2) read_place_written [OF j(2) Cons.prems(4)] by (simp add: Edit)
      next
        case False
        then have "read_place q dflt s2 = read_place q dflt s"
          using read_place_other [OF j(2)] Cons.prems(2) by (simp add: Edit)
        then show ?thesis using IH False by (simp add: Edit cong: option.case_cong)
      qed
    qed
  qed
qed

text \<open>Every field of the answer is tidy for every statement of the handler.\<close>

lemma save_steps_tidy:
  "list_all (\<lambda>(name, q, dflt, render). list_all (tidy name q) (save_steps float_text)) (settings_fields yaml_dump)"
  by code_simp

lemma save_steps_distinct: "distinct (step_keys (save_steps float_text))"
  by code_simp

section \<open>The stored policy\<close>

lemma get_crawl_policy_set: "get_crawl_policy (fst (set_app_setting ''crawl_policy'' v u None now db)) = v"
proof (cases "get_app_setting ''crawl_policy'' db")
  case None
  have "List.find P rs = None \<Longrightarrow> P r \<Longrightarrow> List.find P (rs @ [r]) = Some r" for P rs and r :: app_setting
    by (induction rs) (auto split: if_splits)
  then show ?thesis using None by (simp add: set_app_setting_def get_crawl_policy_def get_app_setting_def)
next
  case (Some row)
  have upd: "List.find (\<lambda>r. as_key r = k) (map (\<lambda>r. if as_key r = k then r\<lparr>as_value := v, as_updated_by := u, as_updated_at := now\<rparr> else r) rs) =
      map_option (\<lambda>r. r\<lparr>as_value := v, as_updated_by := u, as_updated_at := now\<rparr>) (List.find (\<lambda>r. as_key r = k) rs)" for rs k
    by (induction rs) auto
  from upd [of "''crawl_policy''" "settings db"] show ?thesis using Some
    by (auto simp: set_app_setting_def get_crawl_policy_def get_app_setting_def simp del: list.inject char.inject)
qed

section \<open>What is read after a save\<close>

lemma read_place_cong:
  "sc_policy s1 = sc_policy s \<Longrightarrow> map_of (sc_cfg s1) (KStr ''crawler'') = map_of (sc_cfg s) (KStr ''crawler'') \<Longrightarrow>
   read_place q dflt s1 = read_place q dflt s"
  by (cases q) (auto simp: read_place_def require_local_def split: option.split)

lemma read_place_policy_copy:
  "cp_weights p \<noteq> None \<Longrightarrow>
   read_place q dflt \<lparr>sc_cfg = cfg, sc_policy = policy_copy p\<rparr> = read_place q dflt \<lparr>sc_cfg = cfg, sc_policy = p\<rparr>"
  by (cases q) (auto simp: read_place_def require_local_def policy_copy_def split: option.split)

lemma dict_put_keys: "k \<in> set (map fst d) \<Longrightarrow> map fst (dict_put k v d) = map fst d"
proof (induction d)
  case (Cons kv d)
  then show ?case by (cases kv) auto
qed simp

lemma in_dict_keys: "in_dict k f d = Inr d1 \<Longrightarrow> map fst d1 = map fst d"
proof -
  assume "in_dict k f d = Inr d1"
  then obtain v w where "map_of d k = Some v" "d1 = dict_put k w d" by (auto simp: in_dict_def split: option.splits yaml.splits sum.splits)
  moreover from this have "k \<in> set (map fst d)" by (force dest: map_of_SomeD)
  ultimately show ?thesis by (simp only: dict_put_keys)
qed

lemma place_put_keys: "place_put p v s = Inr s1 \<Longrightarrow> map fst (sc_cfg s1) = map fst (sc_cfg s)"
  by (cases p) (auto dest!: in_dict_keys split: sum.splits option.splits json.splits prod.splits)

lemma run_steps_keys: "run_steps body sts s = Inr s1 \<Longrightarrow> map fst (sc_cfg s1) = map fst (sc_cfg s)"
proof (induction body sts s rule: run_steps.induct)
  case (2 body st sts s)
  then obtain s2 where s2: "run_step body st s = Inr s2" "map fst (sc_cfg s1) = map fst (sc_cfg s2)"
    by (auto split: sum.splits)
  have "map fst (sc_cfg s2) = map fst (sc_cfg s)" using s2(1) by (cases st) (auto dest: place_put_keys split: option.splits sum.splits)
  then show ?case using s2(2) by simp
qed simp

lemma map_of_update: "map_of (foldl (\<lambda>d (k, v). dict_put k v d) d kvs) = map_of d ++ map_of (rev kvs)"
proof (induction kvs arbitrary: d)
  case (Cons kv kvs)
  obtain k v where "kv = (k, v)" by (cases kv)
  then show ?case using Cons.IH [of "dict_put k v d"] by (simp add: map_of_dict_put del: fun_upd_apply)
qed simp

lemma map_of_rev_distinct: "distinct (map fst kvs) \<Longrightarrow> map_of (rev kvs) = map_of kvs"
  by (rule map_of_eqI) (auto simp: rev_map [symmetric] image_iff intro!: ext dest: map_of_SomeD)

lemma updated_config:
  assumes "run_steps body sts s = Inr s1" "distinct (map fst (sc_cfg s))"
  shows "map_of (foldl (\<lambda>d (k, v). dict_put k v d) (sc_cfg s) (sc_cfg s1)) = map_of (sc_cfg s1)"
proof -
  have keys: "map fst (sc_cfg s1) = map fst (sc_cfg s)" by (rule run_steps_keys [OF assms(1)])
  then have "distinct (map fst (sc_cfg s1))" using assms(2) by simp
  moreover have "dom (map_of (sc_cfg s)) = dom (map_of (sc_cfg s1))"
    using keys by (metis dom_map_of_conv_image_fst set_map)
  ultimately show ?thesis by (simp add: map_of_update map_of_rev_distinct) (simp add: map_add_def fun_eq_iff domIff split: option.split, metis domIff)
qed

lemma run_steps_converts:
  "run_steps body sts s = Inr s1 \<Longrightarrow> distinct (step_keys sts) \<Longrightarrow> conv_of name sts = Some conv \<Longrightarrow> body name = Some v \<Longrightarrow>
   \<exists>x. conv v = Inr x"
proof (induction sts arbitrary: s)
  case (Cons st sts)
  obtain s2 where s2: "run_step body st s = Inr s2" "run_steps body sts s2 = Inr s1"
    using Cons.prems(1) by (auto split: sum.splits)
  show ?case
  proof (cases st)
    case (Edit key c p)
    then show ?thesis
      using s2 Cons.prems Cons.IH [OF s2(2)] by (cases "key = name") (auto split: sum.splits)
  qed (use s2 Cons in simp)
qed simp

text \<open>A value converted for a field can be rendered again.\<close>

lemma texts_of_JStr: "texts_of (map JStr ss) = Some ss"
  by (induction ss) simp_all

lemma parsed_list_renders: "parse_list v = Inr x \<Longrightarrow> \<exists>y. join_lines x = Inr y"
  by (auto simp: parse_list_def join_lines_def texts_of_JStr split: json.splits)

lemma save_steps_render:
  "list_all (\<lambda>(name, q, dflt, render). case conv_of name (save_steps float_text) of
       None \<Rightarrow> True
     | Some conv \<Rightarrow> (\<forall>v x. conv v = Inr x \<longrightarrow> (\<exists>y. render x = Inr y))) (settings_fields yaml_dump)"
  by (simp add: settings_fields_def save_steps_def parsed_list_renders)

text \<open>
  The reference: the settings a save may edit and what it makes of their values, independently of the
  statements of the handler, and the answer with the posted values, converted and rendered, in the place of
  the old ones. The other fields of the answer are read only: the user agent, the JavaScript indicators, the
  pattern and the obfuscations of addresses, and the signals of the pagination.
\<close>

definition editable :: "float_parser \<Rightarrow> (string \<times> (json \<Rightarrow> py_exn + json)) list" where
  "editable float_text =
     [(''workers'', py_int), (''per_url_timeout'', py_int), (''playwright_timeout'', py_int),
      (''js_settle_time'', py_float float_text), (''httpx_first'', py_bool), (''playwright_fallback'', py_bool),
      (''max_depth'', py_int), (''recrawl_days'', py_int), (''request_delay'', py_float float_text),
      (''email_enabled'', py_bool), (''email_context_chars'', py_int),
      (''person_enabled'', py_bool), (''person_proximity_chars'', py_int),
      (''weight_email_high'', py_int), (''weight_email_low'', py_int), (''weight_person_name'', py_int),
      (''weight_designation'', py_int), (''weight_phone'', py_int),
      (''target_suffixes'', parse_list), (''priority_keywords'', parse_list), (''skip_extensions'', parse_list),
      (''valid_suffixes'', parse_list), (''title_prefixes'', parse_list), (''designation_keywords'', parse_list),
      (''max_links_per_page_0'', py_int), (''max_links_per_page_1'', py_int), (''max_links_per_page_2'', py_int),
      (''max_links_per_page_default'', py_int), (''pagination_enabled'', py_bool),
      (''pagination_max_pages'', py_int), (''pagination_max_chain_children'', py_int)]"

lemma save_steps_editable:
  "list_all (\<lambda>(name, q, dflt, render). conv_of name (save_steps float_text) = map_of (editable float_text) name) (settings_fields yaml_dump)"
  by (simp add: settings_fields_def save_steps_def editable_def)

definition answered :: "float_parser \<Rightarrow> (string \<rightharpoonup> json) \<Rightarrow> string \<times> place \<times> json option \<times> (json \<Rightarrow> py_exn + json) \<Rightarrow> json \<Rightarrow> json" where
  "answered float_text body f old =
     (case f of (name, q, dflt, render) \<Rightarrow>
        (case (map_of (editable float_text) name, body name) of
           (Some conv, Some v) \<Rightarrow> (case conv v of Inl _ \<Rightarrow> old | Inr x \<Rightarrow> (case render x of Inl _ \<Rightarrow> old | Inr y \<Rightarrow> y))
         | _ \<Rightarrow> old))"

definition answer_after ::
  "float_parser \<Rightarrow> (json \<Rightarrow> string) \<Rightarrow> (string \<rightharpoonup> json) \<Rightarrow> (string \<times> json) list \<Rightarrow> (string \<times> json) list" where
  "answer_after float_text yaml_dump body ans =
     map (\<lambda>(f, (name, old)). (name, answered float_text body f old)) (zip (settings_fields yaml_dump) ans)"

lemma read_all_after:
  assumes "read_all fs s = Inr ans"
    "list_all (\<lambda>(name, q, dflt, render). \<forall>v y. read_place q dflt s = Inr v \<longrightarrow> render v = Inr y \<longrightarrow>
       (\<exists>x. read_place q dflt s1 = Inr x \<and> render x = Inr (g (name, q, dflt, render) y))) fs"
  shows "read_all fs s1 = Inr (map (\<lambda>(f, (name, old)). (name, g f old)) (zip fs ans))"
  using assms
proof (induction fs arbitrary: ans)
  case (Cons f fs)
  obtain name q dflt render where f: "f = (name, q, dflt, render)" by (cases f)
  obtain v j js where v: "read_place q dflt s = Inr v" "render v = Inr j" "read_all fs s = Inr js" "ans = (name, j) # js"
    using Cons.prems(1) by (auto simp: f split: sum.splits)
  show ?case using Cons.IH [OF v(3)] Cons.prems(2) v by (auto simp: f)
qed simp

lemma save_config_success:
  assumes "save_config now rq me float_text write body sv = (sv1, None)"
  shows "write = None \<and> (\<exists>done.
    run_steps (map_of body) (save_steps float_text)
      \<lparr>sc_cfg = ss_config sv, sc_policy = policy_copy (get_crawl_policy (cd_crawl (sv_cloud (ss_server sv))))\<rparr> = Inr done \<and>
    ss_config sv1 = foldl (\<lambda>d (k, v). dict_put k v d) (ss_config sv) (sc_cfg done) \<and>
    get_crawl_policy (cd_crawl (sv_cloud (ss_server sv1))) = sc_policy done \<and>
    ss_file sv1 = Document (YDict (sc_cfg done)) \<and>
    ss_recompute sv1 = (ss_recompute sv \<or>
      cp_weights (sc_policy done) \<noteq> cp_weights (policy_copy (get_crawl_policy (cd_crawl (sv_cloud (ss_server sv)))))))"
  using assms
  by (auto simp: save_config_def Let_def audited_plain_def get_crawl_policy_set with_audit_def split: if_splits sum.splits option.splits)

text \<open>C14.
  A save that is answered with success is read back: each of the 31 editable fields that was posted is
  answered as posted, after its conversion to a number, a truth value or a list of lines, and every
  other field of the answer, the read-only ones among them, is as it was before.
\<close>

theorem saved_settings_are_read:
  assumes save: "save_config now rq me float_text write body sv = (sv1, None)"
    and before: "get_config yaml_dump sv = Inr ans"
    and dict: "distinct (map fst (ss_config sv))"
    and weights: "cp_weights (get_crawl_policy (cd_crawl (sv_cloud (ss_server sv)))) \<noteq> None"
  shows "get_config yaml_dump sv1 = Inr (answer_after float_text yaml_dump (map_of body) ans)"
proof -
  let ?p = "get_crawl_policy (cd_crawl (sv_cloud (ss_server sv)))"
  let ?start = "\<lparr>sc_cfg = ss_config sv, sc_policy = policy_copy ?p\<rparr>"
  obtain fin where fin: "run_steps (map_of body) (save_steps float_text) ?start = Inr fin"
      "ss_config sv1 = foldl (\<lambda>d (k, v). dict_put k v d) (ss_config sv) (sc_cfg fin)"
      "get_crawl_policy (cd_crawl (sv_cloud (ss_server sv1))) = sc_policy fin"
    using save_config_success [OF save] by blast
  have after: "read_place q dflt (service_copy sv1) = read_place q dflt fin" for q dflt
    using updated_config [OF fin(1)] dict fin(2,3) by (intro read_place_cong) (simp_all add: service_copy_def)
  have start: "read_place q dflt ?start = read_place q dflt (service_copy sv)" for q dflt
    using read_place_policy_copy [OF weights] by (simp add: service_copy_def)
  have ws: "weights_set ?start" by (simp add: weights_set_def policy_copy_def)
  have field: "\<exists>x. read_place q dflt fin = Inr x \<and> render x = Inr (answered float_text (map_of body) (name, q, dflt, render) y)"
    if f: "(name, q, dflt, render) \<in> set (settings_fields yaml_dump)"
      and v: "read_place q dflt (service_copy sv) = Inr v" "render v = Inr y" for name q dflt render v y
  proof -
    have "list_all (tidy name q) (save_steps float_text)"
      using save_steps_tidy [of float_text yaml_dump] f by (auto simp: list_all_iff)
    note read = run_steps_read [OF fin(1) this save_steps_distinct ws, of dflt]
    have ed: "map_of (editable float_text) name = conv_of name (save_steps float_text)"
      using save_steps_editable [of float_text yaml_dump] f by (auto simp: list_all_iff)
    show ?thesis
    proof (cases "\<exists>conv w. conv_of name (save_steps float_text) = Some conv \<and> map_of body name = Some w")
      case True
      then obtain conv w where c: "conv_of name (save_steps float_text) = Some conv" "map_of body name = Some w" by blast
      obtain x where x: "conv w = Inr x" using run_steps_converts [OF fin(1) save_steps_distinct c] by blast
      have "\<exists>y. render x = Inr y" using save_steps_render [of float_text yaml_dump] f c(1) x by (fastforce simp: list_all_iff)
      then show ?thesis using read c x ed by (auto simp: answered_def)
    next
      case False
      then have "read_place q dflt fin = Inr v" using read v(1) start by (auto split: option.splits)
      then show ?thesis using v(2) False ed by (auto simp: answered_def split: option.splits)
    qed
  qed
  show ?thesis
    unfolding get_config_def answer_after_def
    by (rule read_all_after [OF before [unfolded get_config_def]]) (use field after in \<open>auto simp: list_all_iff\<close>)
qed

lemma save_config_succeeds:
  assumes "has_all me [''settings.manage'']"
    "run_steps (map_of body) (save_steps float_text)
      \<lparr>sc_cfg = ss_config sv, sc_policy = policy_copy (get_crawl_policy (cd_crawl (sv_cloud (ss_server sv))))\<rparr> = Inr fin"
  shows "\<exists>sv1. save_config now rq me float_text None body sv = (sv1, None)"
  using assms by (simp add: save_config_def Let_def)

definition demo_settings :: settings_service where
  "demo_settings = \<lparr>ss_server = demo_server, ss_config = CLOUD_DEFAULTS, ss_file = No_file, ss_recompute = False\<rparr>"

definition demo_settings_body :: "(string \<times> json) list" where
  "demo_settings_body = [(''workers'', JStr ''4''), (''weight_phone'', JInt 5), (''target_suffixes'', JStr ''.gov.in, .in'')]"

definition demo_keeper :: current_user where
  "demo_keeper = \<lparr>me_id = 2, me_email = ''s@x.in'', me_is_admin = False, me_permissions = {''settings.manage''}\<rparr>"

lemma demo_policy: "get_crawl_policy (cd_crawl (sv_cloud (ss_server demo_settings))) = EMPTY_POLICY"
  by (simp add: demo_settings_def demo_server_def get_crawl_policy_def get_app_setting_def empty_crawl_db_def)

theorem saved_settings_are_read_witness:
  "\<exists>sv1 ans. save_config 5 agent_request demo_keeper (\<lambda>_. None) None demo_settings_body demo_settings = (sv1, None) \<and>
     get_config (\<lambda>_. []) demo_settings = Inr ans \<and>
     get_config (\<lambda>_. []) sv1 = Inr (answer_after (\<lambda>_. None) (\<lambda>_. []) (map_of demo_settings_body) ans)"
proof -
  have ok: "\<exists>x. r = Inr x" if "\<not> isl r" for r :: "py_exn + 'x" using that by (cases r) simp_all
  have "\<not> isl (run_steps (map_of demo_settings_body) (save_steps (\<lambda>_. None))
      \<lparr>sc_cfg = CLOUD_DEFAULTS, sc_policy = policy_copy EMPTY_POLICY\<rparr>)" by code_simp
  from ok [OF this] obtain fin where fin: "run_steps (map_of demo_settings_body) (save_steps (\<lambda>_. None))
      \<lparr>sc_cfg = CLOUD_DEFAULTS, sc_policy = policy_copy EMPTY_POLICY\<rparr> = Inr fin" by blast
  have c: "ss_config demo_settings = CLOUD_DEFAULTS" by (simp add: demo_settings_def)
  have "has_all demo_keeper [''settings.manage'']" by (simp add: has_all_def demo_keeper_def)
  from save_config_succeeds [OF this, of demo_settings_body "\<lambda>_. None" demo_settings fin 5 agent_request]
  obtain sv1 where sv1: "save_config 5 agent_request demo_keeper (\<lambda>_. None) None demo_settings_body demo_settings = (sv1, None)"
    using fin by (auto simp: demo_policy c)
  have "\<not> isl (read_all (settings_fields (\<lambda>_. [])) \<lparr>sc_cfg = CLOUD_DEFAULTS, sc_policy = EMPTY_POLICY\<rparr>)" by code_simp
  from ok [OF this] obtain ans where ans: "get_config (\<lambda>_. []) demo_settings = Inr ans"
    by (auto simp: get_config_def service_copy_def demo_policy c)
  have "distinct (map fst (ss_config demo_settings))" unfolding c by code_simp
  then show ?thesis
    using sv1 ans saved_settings_are_read [OF sv1 ans] by (auto simp: demo_policy EMPTY_POLICY_def)
qed

section \<open>An interrupted save\<close>

definition weight_names :: "(string \<times> string) list" where
  "weight_names =
     [(''weight_email_high'', ''email_high''), (''weight_email_low'', ''email_low''), (''weight_person_name'', ''person_name''),
      (''weight_designation'', ''designation''), (''weight_phone'', ''phone'')]"

lemma weight_names_tidy:
  "list_all (\<lambda>(name, k). list_all (tidy name (Weight k)) (save_steps float_text)) weight_names"
  by code_simp

lemma weights_determined:
  fixes w w1 :: weights
  assumes "cp_weights (sc_policy s) = Some w" "cp_weights (sc_policy s1) = Some w1"
    "\<And>name k. (name, k) \<in> set weight_names \<Longrightarrow> read_place (Weight k) None s1 = read_place (Weight k) None s"
  shows "w1 = w"
proof -
  have "w_email_high w1 = w_email_high w" "w_email_low w1 = w_email_low w" "w_person_name w1 = w_person_name w"
    "w_designation w1 = w_designation w" "w_phone w1 = w_phone w"
    using assms(3) [of "''weight_email_high''" "''email_high''"] assms(3) [of "''weight_email_low''" "''email_low''"]
      assms(3) [of "''weight_person_name''" "''person_name''"] assms(3) [of "''weight_designation''" "''designation''"]
      assms(3) [of "''weight_phone''" "''phone''"] assms(1,2)
    by (simp_all add: read_place_def weight_fields_def weight_names_def)
  then show ?thesis by (cases w; cases w1) simp
qed

text \<open>Posting a body again does not change the weights.\<close>

lemma run_steps_weights_again:
  assumes "run_steps body (save_steps float_text) s = Inr s1" "weights_set s"
    "run_steps body (save_steps float_text) s2 = Inr s3" "cp_weights (sc_policy s2) = cp_weights (sc_policy s1)" "weights_set s2"
  shows "cp_weights (sc_policy s3) = cp_weights (sc_policy s1)"
proof -
  have sets: "weights_set s1" "weights_set s3"
    using assms run_steps_weights_set by blast+
  then obtain w w3 where w: "cp_weights (sc_policy s1) = Some w" "cp_weights (sc_policy s3) = Some w3"
    by (auto simp: weights_set_def)
  have "read_place (Weight k) None s3 = read_place (Weight k) None s1" if "(name, k) \<in> set weight_names" for name k
  proof -
    have t: "list_all (tidy name (Weight k)) (save_steps float_text)"
      using weight_names_tidy [of float_text] that by (fastforce simp: list_all_iff)
    have same: "read_place (Weight k) None s2 = read_place (Weight k) None s1"
      using assms(4) by (simp add: read_place_def)
    show ?thesis
      using run_steps_read [OF assms(1) t save_steps_distinct assms(2), of None]
        run_steps_read [OF assms(3) t save_steps_distinct assms(5), of None] same
      by (auto split: option.splits)
  qed
  then show ?thesis using weights_determined [OF w] w by simp
qed

lemma set_app_setting_leads [simp]: "leads (fst (set_app_setting k v u t now db)) = leads db"
  by (simp add: set_app_setting_def split: option.split)

lemma save_config_interrupted:
  assumes "has_all me [''settings.manage'']"
    "run_steps (map_of body) (save_steps float_text)
      \<lparr>sc_cfg = ss_config sv, sc_policy = policy_copy (get_crawl_policy (cd_crawl (sv_cloud (ss_server sv))))\<rparr> = Inr s1"
    "save_config now rq me float_text (Some x) body sv = (sv1, e)"
  shows "e = Some (ServerError x) \<and> get_crawl_policy (cd_crawl (sv_cloud (ss_server sv1))) = sc_policy s1 \<and>
     ss_config sv1 = ss_config sv \<and> ss_file sv1 = ss_file sv \<and> ss_recompute sv1 = ss_recompute sv \<and>
     cd_auth (sv_cloud (ss_server sv1)) = cd_auth (sv_cloud (ss_server sv)) \<and>
     leads (cd_crawl (sv_cloud (ss_server sv1))) = leads (cd_crawl (sv_cloud (ss_server sv)))"
  using assms
  by (auto simp: save_config_def Let_def get_crawl_policy_set)

lemma save_config_leads:
  "leads (cd_crawl (sv_cloud (ss_server (fst (save_config now rq me float_text write body sv))))) =
   leads (cd_crawl (sv_cloud (ss_server sv)))"
  by (simp add: save_config_def Let_def audited_plain_def with_audit_def split: sum.split option.split)

text \<open>
  When the file cannot be written the policy is stored all the same: the request is answered with an
  error, neither the configuration of the process nor the file nor the audit trail changes, and the
  scores are not recomputed. Posting the same body again, now with success, does not repair them: the
  weights equal the stored ones, so no recomputation is queued and the leads keep the scores of the old
  weights.
\<close>

theorem interrupted_save_leaves_stale_scores:
  assumes allowed: "has_all me [''settings.manage'']"
    and fin: "run_steps (map_of body) (save_steps float_text)
      \<lparr>sc_cfg = ss_config sv, sc_policy = policy_copy (get_crawl_policy (cd_crawl (sv_cloud (ss_server sv))))\<rparr> = Inr s1"
    and first: "save_config now rq me float_text (Some x) body sv = (sv1, e)"
    and second: "save_config now2 rq2 me2 float_text None body sv1 = (sv2, None)"
  shows "e = Some (ServerError x) \<and> get_crawl_policy (cd_crawl (sv_cloud (ss_server sv1))) = sc_policy s1 \<and>
     ss_config sv1 = ss_config sv \<and> ss_file sv1 = ss_file sv \<and>
     cd_auth (sv_cloud (ss_server sv1)) = cd_auth (sv_cloud (ss_server sv)) \<and>
     ss_recompute sv2 = ss_recompute sv \<and>
     leads (cd_crawl (sv_cloud (ss_server sv2))) = leads (cd_crawl (sv_cloud (ss_server sv)))"
proof -
  note i = save_config_interrupted [OF allowed fin first]
  obtain s3 where s3: "run_steps (map_of body) (save_steps float_text)
      \<lparr>sc_cfg = ss_config sv1, sc_policy = policy_copy (get_crawl_policy (cd_crawl (sv_cloud (ss_server sv1))))\<rparr> = Inr s3"
    "ss_recompute sv2 = (ss_recompute sv1 \<or>
       cp_weights (sc_policy s3) \<noteq> cp_weights (policy_copy (get_crawl_policy (cd_crawl (sv_cloud (ss_server sv1))))))"
    using save_config_success [OF second] by blast
  have ws: "weights_set s1" by (rule run_steps_weights_set [OF fin]) (simp add: weights_set_def policy_copy_def)
  then have copy: "cp_weights (policy_copy (sc_policy s1)) = cp_weights (sc_policy s1)"
    by (auto simp: policy_copy_def weights_set_def)
  have "cp_weights (sc_policy s3) = cp_weights (sc_policy s1)"
    by (rule run_steps_weights_again [OF fin _ s3(1)]) (use i copy ws in \<open>auto simp: weights_set_def policy_copy_def\<close>)
  then have "ss_recompute sv2 = ss_recompute sv" using s3(2) i copy by simp
  moreover have "leads (cd_crawl (sv_cloud (ss_server sv2))) = leads (cd_crawl (sv_cloud (ss_server sv)))"
    using save_config_leads [of now2 rq2 me2 float_text None body sv1] second i by simp
  ultimately show ?thesis using i by simp
qed

theorem interrupted_save_leaves_stale_scores_witness:
  "\<exists>sv1 sv2 e. save_config 5 agent_request demo_keeper (\<lambda>_. None) (Some OSError) demo_settings_body demo_settings = (sv1, e) \<and>
     save_config 6 agent_request demo_keeper (\<lambda>_. None) None demo_settings_body sv1 = (sv2, None) \<and>
     e = Some (ServerError OSError) \<and> ss_recompute sv2 = ss_recompute demo_settings \<and>
     leads (cd_crawl (sv_cloud (ss_server sv2))) = leads (cd_crawl (sv_cloud (ss_server demo_settings)))"
proof -
  have ok: "\<exists>x. r = Inr x" if "\<not> isl r" for r :: "py_exn + 'x" using that by (cases r) simp_all
  let ?run = "\<lambda>p. run_steps (map_of demo_settings_body) (save_steps (\<lambda>_. None)) \<lparr>sc_cfg = CLOUD_DEFAULTS, sc_policy = policy_copy p\<rparr>"
  have "\<not> isl (?run EMPTY_POLICY)" by code_simp
  from ok [OF this] obtain fin where fin: "?run EMPTY_POLICY = Inr fin" by blast
  have "\<not> isl (?run (sc_policy (projr (?run EMPTY_POLICY))))" by code_simp
  from ok [OF this] obtain fin2 where fin2: "?run (sc_policy fin) = Inr fin2" using fin by auto
  have c: "ss_config demo_settings = CLOUD_DEFAULTS" by (simp add: demo_settings_def)
  have may: "has_all demo_keeper [''settings.manage'']" by (simp add: has_all_def demo_keeper_def)
  note run = fin [folded c, folded demo_policy]
  obtain sv1 e where first: "save_config 5 agent_request demo_keeper (\<lambda>_. None) (Some OSError) demo_settings_body demo_settings = (sv1, e)"
    by fastforce
  note i = save_config_interrupted [OF may run first]
  obtain sv2 where second: "save_config 6 agent_request demo_keeper (\<lambda>_. None) None demo_settings_body sv1 = (sv2, None)"
    using save_config_succeeds [OF may, of demo_settings_body "\<lambda>_. None" sv1 fin2 6 agent_request] i fin2 c by auto
  show ?thesis using first second interrupted_save_leaves_stale_scores [OF may run first second] by blast
qed

end
