(* ===== verification/AdminApi.thy ===== *)
theory AdminApi
  imports LeadApi
begin

text \<open>
  The endpoints over the catalog (\<open>cloud/api/domains.py\<close>), the audit log (\<open>cloud/api/audit.py\<close>) and the
  activity of the system (\<open>cloud/api/system.py\<close>).
\<close>

section \<open>Domains\<close>

definition normalize_domain_url :: "string \<Rightarrow> http_exn + string" where
  "normalize_domain_url raw =
     (let candidate = py_strip raw in
      if candidate = [] then Inl (HTTPException 422 ''URL cannot be empty'')
      else
        (let candidate = default_scheme candidate in
         case url_netloc candidate of
           Inl x \<Rightarrow> Inl (ServerError x)
         | Inr netloc \<Rightarrow>
             if netloc = [] then Inl (HTTPException 422 (''Invalid URL: '' @ raw)) else Inr candidate))"

text \<open>An empty query parameter is no filter.\<close>

definition no_empty :: "string option \<Rightarrow> string option" where
  "no_empty v = (if truthy v then v else None)"

definition domain_query :: "string option \<Rightarrow> string option \<Rightarrow> string option \<Rightarrow> string option \<Rightarrow> domain_filter" where
  "domain_query category state org_type search =
     \<lparr>df_category = no_empty category, df_state = no_empty state, df_org_type = no_empty org_type, df_search = no_empty search\<rparr>"

definition api_get_states :: "string option \<Rightarrow> crawl_db \<Rightarrow> string list" where
  "api_get_states category db = get_states (no_empty category) db"

definition api_get_org_types :: "string option \<Rightarrow> string option \<Rightarrow> crawl_db \<Rightarrow> facet list" where
  "api_get_org_types category state db = get_org_types (no_empty category) (no_empty state) db"

definition api_get_domains :: "domain_filter \<Rightarrow> string option \<Rightarrow> string \<Rightarrow> nat \<Rightarrow> nat \<Rightarrow> crawl_db \<Rightarrow> domain_dict page" where
  "api_get_domains f sort_by sort_dir pg limit db =
     (case get_domains f pg limit sort_by sort_dir db of (items, total_count) \<Rightarrow> page_of items total_count pg limit)"

definition api_get_domain_ids :: "domain_filter \<Rightarrow> crawl_db \<Rightarrow> nat list \<times> nat" where
  "api_get_domain_ids f db = (let ids = get_domain_ids f db in (ids, length ids))"

definition api_update_domain_url ::
  "datetime \<Rightarrow> http_request \<Rightarrow> current_user \<Rightarrow> nat \<Rightarrow> string \<Rightarrow> string option \<Rightarrow> domain_dict handler" where
  "api_update_domain_url now rq me domain_id raw_main raw_contact st =
     (if \<not> has_all me [''domains.import''] then refuse 403 ''Insufficient permissions'' st
      else
        (case normalize_domain_url raw_main of
           Inl x \<Rightarrow> (st, Inl x)
         | Inr main_url \<Rightarrow>
             (case (if truthy raw_contact then map_sum id Some (normalize_domain_url (the raw_contact)) else Inr None) of
                Inl x \<Rightarrow> (st, Inl x)
              | Inr contact_url \<Rightarrow>
                  (case update_domain_url domain_id main_url contact_url (cd_crawl (sv_cloud st)) of
                     (db, None) \<Rightarrow> refuse 404 ''Domain not found'' st
                   | (db, Some d) \<Rightarrow>
                       (audited now rq me ''domain.set_url'' ''domain'' domain_id
                          (Some [(''main_url'', JStr main_url), (''contact_url'', j_opt_str contact_url)])
                          (st\<lparr>sv_cloud := (sv_cloud st)\<lparr>cd_crawl := db\<rparr>\<rparr>),
                        Inr d)))))"

section \<open>The audit log\<close>

definition get_audit_log ::
  "current_user \<Rightarrow> nat option \<Rightarrow> string option \<Rightarrow> datetime option \<Rightarrow> datetime option \<Rightarrow> nat \<Rightarrow> nat \<Rightarrow> auth_db \<Rightarrow>
   http_exn + (audit_row \<times> string option) page" where
  "get_audit_log me user_id action_prefix date_from date_to pg limit db =
     (if \<not> has_all me [''audit.view''] then Inl (HTTPException 403 ''Insufficient permissions'')
      else
        (case list_audit_log user_id action_prefix date_from date_to pg limit db of
           (entries, total_count) \<Rightarrow> Inr (page_of entries total_count pg limit)))"

section \<open>Activity\<close>

definition running_campaigns_without_task :: "nat list \<Rightarrow> outreach_db \<Rightarrow> (nat \<times> string) list" where
  "running_campaigns_without_task known db =
     map (\<lambda>c. (cp_id c, cp_name c))
       (select_where (\<lambda>c. cp_status c = C_RUNNING \<and> (known \<noteq> [] \<longrightarrow> cp_id c \<notin> set known)) (campaigns db))"

record admin_activity =
  aa_crawl_jobs :: "(nat \<times> string \<times> string option) list"
  aa_campaigns :: "(nat \<times> string \<times> email_stats) list"
  aa_total_active :: nat
  aa_recent_jobs :: "crawl_job list"
  aa_recent_campaigns :: "campaign list"

definition job_label :: "crawl_job \<Rightarrow> string" where
  "job_label j =
     ''Job #'' @ py_str_nat (jb_id j) @ '' ('' @ py_str_int (cm_crawled_domains j) @ ''/'' @ py_str_nat (jb_total_domains j) @
     '' domains, '' @ py_str_int (cm_leads_found j) @ '' leads)''"

text \<open>The registry of dispatch tasks is a list of campaign ids with whether the task is done.\<close>

definition tracked_campaigns :: "(nat \<times> bool) list \<Rightarrow> outreach_db \<Rightarrow> (nat \<times> string) list" where
  "tracked_campaigns tasks db =
     map (\<lambda>(i, _). (i, case get_campaign i None True db of Some c \<Rightarrow> cp_name c | None \<Rightarrow> ''Campaign #'' @ py_str_nat i))
       (filter (\<lambda>(_, finished). \<not> finished) tasks)"

definition get_admin_activity :: "(nat \<times> bool) list \<Rightarrow> server_db \<Rightarrow> admin_activity" where
  "get_admin_activity tasks st =
     (let crawl = cd_crawl (sv_cloud st); out = sv_outreach st;
          crawl_jobs = map (\<lambda>j. (jb_id j, job_label j, jb_agent_hostname j)) (get_running_jobs crawl);
          tracked = tracked_campaigns tasks out;
          active = tracked @ running_campaigns_without_task (map fst tracked) out
      in \<lparr>aa_crawl_jobs = crawl_jobs,
          aa_campaigns = map (\<lambda>(i, name). (i, name, get_campaign_stats i out)) active,
          aa_total_active = length crawl_jobs + length active,
          aa_recent_jobs = filter (\<lambda>j. jb_status j \<notin> {''pending'', ''running''}) (fst (list_jobs 5 1 None True crawl)),
          aa_recent_campaigns = filter (\<lambda>c. cp_status c \<noteq> C_RUNNING) (fst (list_campaigns 1 5 None None True out))\<rparr>)"

definition api_get_admin_activity :: "current_user \<Rightarrow> (nat \<times> bool) list \<Rightarrow> server_db \<Rightarrow> http_exn + admin_activity" where
  "api_get_admin_activity me tasks st =
     (if \<not> has_all me [''jobs.view_all''] then Inl (HTTPException 403 ''Insufficient permissions'')
      else Inr (get_admin_activity tasks st))"

text \<open>Every campaign that runs, or has a live task, is listed, and no campaign twice.\<close>

lemma tracked_ids:
  "map fst (tracked_campaigns tasks db) = map fst (filter (\<lambda>(_, finished). \<not> finished) tasks)"
  "set (map fst (tracked_campaigns tasks db)) = {i. (i, False) \<in> set tasks}"
  by (force simp: tracked_campaigns_def split_def)+

lemma activity_ids:
  "map fst (aa_campaigns (get_admin_activity tasks st)) =
   map fst (tracked_campaigns tasks (sv_outreach st)) @
   map cp_id (filter (\<lambda>c. cp_status c = C_RUNNING \<and> (cp_id c, False) \<notin> set tasks) (rows (campaigns (sv_outreach st))))"
proof -
  have "(tracked_campaigns tasks (sv_outreach st) \<noteq> [] \<longrightarrow> (i, False) \<notin> set tasks) \<longleftrightarrow> (i, False) \<notin> set tasks" for i
    using tracked_ids(2) [of tasks "sv_outreach st"] by fastforce
  then show ?thesis
    by (simp add: get_admin_activity_def Let_def split_def comp_def running_campaigns_without_task_def select_where_def
        tracked_ids(2) del: set_map)
qed

theorem active_campaigns_listed_once:
  assumes "distinct (map fst tasks)" "distinct (map cp_id (rows (campaigns (sv_outreach st))))"
  shows "distinct (map fst (aa_campaigns (get_admin_activity tasks st))) \<and>
    set (map fst (aa_campaigns (get_admin_activity tasks st))) =
      {i. (i, False) \<in> set tasks} \<union> {cp_id c |c. c \<in> set (rows (campaigns (sv_outreach st))) \<and> cp_status c = C_RUNNING}"
  unfolding activity_ids
  using distinct_map_filter [OF assms(1)] distinct_map_filter [OF assms(2)] tracked_ids(2) [of tasks "sv_outreach st"]
  by (auto simp: tracked_ids(1) simp del: set_map) (auto simp: image_iff)

end
