(* ===== verification/Maintenance.thy ===== *)
theory Maintenance
  imports Credentials LeadPool
begin

text \<open>
  The maintenance scripts: the rotation of the encryption key
  (\<open>scripts/rotate_credential_encryption_key.py\<close>) and the repair of the attribution of leads
  (\<open>scripts/backfill_lead_attribution.py\<close>).
\<close>

section \<open>Rotation of the encryption key\<close>

text \<open>\<open>MultiFernet.decrypt(None)\<close> raises TypeError; the session is committed after the last row only.\<close>

fun rotate_rows :: "fernet \<Rightarrow> string list \<Rightarrow> smtp_credential list \<Rightarrow> py_exn + smtp_credential list" where
  "rotate_rows fe keys [] = Inr []"
| "rotate_rows fe keys (c # cs) =
     (case cr_password_encrypted c of
        None \<Rightarrow> Inl TypeError
      | Some blob \<Rightarrow>
          (case decrypt_password fe keys blob of
             Inl x \<Rightarrow> Inl x
           | Inr plain \<Rightarrow>
               (case rotate_rows fe keys cs of
                  Inl x \<Rightarrow> Inl x
                | Inr cs1 \<Rightarrow> Inr (c\<lparr>cr_password_encrypted := Some (encrypt_password fe [hd keys] plain)\<rparr> # cs1))))"

datatype rotation = Not_configured | Rotation_failed py_exn | Rotated nat

definition rotate_credential_encryption_key ::
  "fernet \<Rightarrow> string option \<Rightarrow> string list \<Rightarrow> smtp_credential table \<Rightarrow> smtp_credential table \<times> rotation" where
  "rotate_credential_encryption_key fe env_prev keys creds =
     (if \<not> truthy env_prev then (creds, Not_configured)
      else
        (case rotate_rows fe keys (rows creds) of
           Inl x \<Rightarrow> (creds, Rotation_failed x)
         | Inr rs \<Rightarrow> (creds\<lparr>rows := rs\<rparr>, Rotated (length rs))))"

section \<open>Repair of the attribution\<close>

definition crawled_lead :: "lead \<Rightarrow> bool" where
  "crawled_lead l = (ld_channel_tag l \<noteq> None \<and> ld_channel_tag l \<noteq> Some ''manual'')"

text \<open>One round of the loop: the database with its new snapshot, the lead and whether it was changed.\<close>

definition repair_lead ::
  "(string \<rightharpoonup> domain_dict) \<Rightarrow> string list \<Rightarrow> datetime \<Rightarrow> crawl_db \<Rightarrow> lead \<Rightarrow> crawl_db \<times> (py_exn + lead \<times> bool)" where
  "repair_lead netloc_map target_suffixes now db l =
     (case resolve_domain_for_url (ld_source_url l) netloc_map target_suffixes of
        None \<Rightarrow> (db, Inr (l\<lparr>ld_snapshot_id := None\<rparr>, ld_snapshot_id l \<noteq> None))
      | Some d \<Rightarrow>
          if Some (dm_id d) = inherited_source_domain (ld_snapshot_id l) db then (db, Inr (l, False))
          else
            (case create_crawl_snapshot id (ld_job_id l) d False now db of
               (db1, Inl x) \<Rightarrow> (db1, Inl x)
             | (db1, Inr i) \<Rightarrow> (db1, Inr (l\<lparr>ld_snapshot_id := Some i\<rparr>, True))))"

text \<open>The loop over the crawled leads; other rows of the table are carried along. An exception loses the leads, not the snapshots.\<close>

fun repair_loop ::
  "(string \<rightharpoonup> domain_dict) \<Rightarrow> string list \<Rightarrow> datetime \<Rightarrow> lead list \<Rightarrow> crawl_db \<Rightarrow> crawl_db \<times> (py_exn + lead list \<times> nat)" where
  "repair_loop m sfx now [] db = (db, Inr ([], 0))"
| "repair_loop m sfx now (l # ls) db =
     (if crawled_lead l
      then
        (case repair_lead m sfx now db l of
           (db1, Inl x) \<Rightarrow> (db1, Inl x)
         | (db1, Inr (l1, changed)) \<Rightarrow>
             (case repair_loop m sfx now ls db1 of
                (db2, Inl x) \<Rightarrow> (db2, Inl x)
              | (db2, Inr (ls1, n)) \<Rightarrow> (db2, Inr (l1 # ls1, (if changed then n + 1 else n)))))
      else
        (case repair_loop m sfx now ls db of
           (db2, Inl x) \<Rightarrow> (db2, Inl x)
         | (db2, Inr (ls1, n)) \<Rightarrow> (db2, Inr (l # ls1, n))))"

definition backfill_lead_attribution :: "datetime \<Rightarrow> crawl_db \<Rightarrow> crawl_db \<times> (py_exn + nat)" where
  "backfill_lead_attribution now db =
     (case get_netloc_domain_map db of
        (db1, m) \<Rightarrow>
          (case repair_loop m (policy_suffixes db1) now (rows (leads db1)) db1 of
             (db2, Inl x) \<Rightarrow> (db2, Inl x)
           | (db2, Inr (ls, n)) \<Rightarrow> (db2\<lparr>leads := (leads db2)\<lparr>rows := ls\<rparr>\<rparr>, Inr n)))"

section \<open>What the rotation does\<close>

definition opens :: "fernet \<Rightarrow> string list \<Rightarrow> string option \<Rightarrow> string \<Rightarrow> bool" where
  "opens fe keys blob plain = (case blob of None \<Rightarrow> False | Some b \<Rightarrow> decrypt_password fe keys b = Inr plain)"

text \<open>The rows keep everything but the password, and the passwords open under the new key alone.\<close>

lemma rotate_rows_Inr:
  assumes "fernet_authentic fe" "rotate_rows fe (k # ks) cs = Inr cs1"
  shows "list_all2 (\<lambda>c c1. c1 = c\<lparr>cr_password_encrypted := cr_password_encrypted c1\<rparr> \<and>
      (\<exists>plain. opens fe (k # ks) (cr_password_encrypted c) plain \<and> opens fe [k] (cr_password_encrypted c1) plain)) cs cs1"
  using assms(2)
proof (induction cs arbitrary: cs1)
  case (Cons c cs)
  obtain blob plain cs2 where c: "cr_password_encrypted c = Some blob" "decrypt_password fe (k # ks) blob = Inr plain"
      "rotate_rows fe (k # ks) cs = Inr cs2" "cs1 = c\<lparr>cr_password_encrypted := Some (encrypt_password fe [k] plain)\<rparr> # cs2"
    using Cons.prems by (auto split: option.splits sum.splits)
  have "decrypt_password fe [k] (encrypt_password fe [k] plain) = Inr plain"
    using assms(1) by (simp add: decrypt_password_def encrypt_password_def multi_fernet_decrypt_authentic del: multi_fernet_decrypt.simps)
  then show ?case using Cons.IH [OF c(3)] c by (auto simp: opens_def)
qed simp

lemma rotate_rows_without_password:
  "list_ex (\<lambda>c. cr_password_encrypted c = None) cs \<Longrightarrow> isl (rotate_rows fe keys cs)"
  by (induction cs) (auto split: option.split sum.split)

text \<open>C30.
  A rotation that succeeds leaves passwords that open under the new key alone, to the same text as before,
  and touches nothing else: tokens of an OAuth credential stay encrypted under the key they had. As soon
  as one credential has no password, as every OAuth credential, the rotation fails and changes nothing.
\<close>

theorem rotation_reencrypts_passwords_only:
  assumes "fernet_authentic fe"
  shows "case rotate_credential_encryption_key fe (Some prev) (k # ks) creds of
      (creds1, Rotated n) \<Rightarrow> n = length (rows creds) \<and>
        list_all2 (\<lambda>c c1. c1 = c\<lparr>cr_password_encrypted := cr_password_encrypted c1\<rparr> \<and>
          (\<exists>plain. opens fe (k # ks) (cr_password_encrypted c) plain \<and> opens fe [k] (cr_password_encrypted c1) plain))
          (rows creds) (rows creds1) \<and>
        \<not> list_ex (\<lambda>c. cr_password_encrypted c = None) (rows creds)
    | (creds1, _) \<Rightarrow> creds1 = creds"
proof (cases "rotate_rows fe (k # ks) (rows creds)")
  case (Inl x)
  then show ?thesis by (simp add: rotate_credential_encryption_key_def)
next
  case (Inr rs)
  have "\<not> list_ex (\<lambda>c. cr_password_encrypted c = None) (rows creds)"
    using rotate_rows_without_password [of "rows creds" fe "k # ks"] Inr by auto
  then show ?thesis using rotate_rows_Inr [OF assms Inr]
    by (auto simp: rotate_credential_encryption_key_def Inr list_all2_lengthD)
qed

text \<open>After the runbook dropped the old key, a token that was encrypted under it cannot be read.\<close>

lemma token_lost_after_rotation:
  assumes "fernet_authentic fe" "new_key \<noteq> old_key" "truthy (Some (fernet_encrypt fe old_key token))"
    "cr_refresh_token_encrypted c = Some (fernet_encrypt fe old_key token)" "c \<in> set cs"
  shows "isl (send_dicts \<lparr>kr_fernet = fe, kr_keys = [new_key]\<rparr> cs)"
proof -
  have "isl (credential_send_dict \<lparr>kr_fernet = fe, kr_keys = [new_key]\<rparr> c)"
  proof -
    have "decrypt_password fe [new_key] (fernet_encrypt fe old_key token) = Inl ValueError"
      using assms(1,2) by (simp add: decrypt_password_def multi_fernet_decrypt_authentic del: multi_fernet_decrypt.simps)
    then have "decrypt_optional fe [new_key] (cr_refresh_token_encrypted c) = Inl ValueError"
      using assms(3,4) by (simp add: decrypt_optional_def)
    then show ?thesis by (simp add: credential_send_dict_def Let_def split: sum.split)
  qed
  then show ?thesis using assms(5) by (induction cs) (auto split: sum.split)
qed
section \<open>What the repair does\<close>

text \<open>Snapshots are only added, and nothing else of the database changes.\<close>

definition grows :: "crawl_db \<Rightarrow> crawl_db \<Rightarrow> bool" where
  "grows db db1 =
     (snapshot_keys.keys_ok (snapshots db1) \<and> (\<exists>t. db1 = db\<lparr>snapshots := t\<rparr>) \<and>
      (\<forall>i s. snapshot_by_id i db = Some s \<longrightarrow> snapshot_by_id i db1 = Some s))"

lemma grows_refl: "snapshot_keys.keys_ok (snapshots db) \<Longrightarrow> grows db db"
  by (auto simp: grows_def intro: exI [of _ "snapshots db"])

lemma grows_trans: "grows db db1 \<Longrightarrow> grows db1 db2 \<Longrightarrow> grows db db2"
proof -
  assume a: "grows db db1" "grows db1 db2"
  then obtain t u where "db1 = db\<lparr>snapshots := t\<rparr>" "db2 = db1\<lparr>snapshots := u\<rparr>" unfolding grows_def by blast
  then have "db2 = db\<lparr>snapshots := u\<rparr>" by simp
  then show ?thesis using a unfolding grows_def by blast
qed

lemma grows_frame:
  assumes "grows db db1"
  shows "leads db1 = leads db" "policy_suffixes db1 = policy_suffixes db" "domains db1 = domains db"
    "netloc_cache db1 = netloc_cache db" "snapshot_keys.keys_ok (snapshots db1)"
proof -
  obtain t where t: "db1 = db\<lparr>snapshots := t\<rparr>" using assms unfolding grows_def by blast
  show "policy_suffixes db1 = policy_suffixes db" by (rule policy_suffixes_frame) (simp add: t)
  show "leads db1 = leads db" "domains db1 = domains db" "netloc_cache db1 = netloc_cache db" by (simp_all add: t)
qed (use assms in \<open>simp add: grows_def\<close>)

lemma grows_attributed: "grows db db1 \<Longrightarrow> attributed r sid db \<Longrightarrow> attributed r sid db1"
  by (cases sid) (auto simp: grows_def attributed_def split: option.splits)

lemma create_snapshot_grows:
  assumes "create_crawl_snapshot id j d b now db = (db1, r)" "snapshot_keys.keys_ok (snapshots db)"
  shows "grows db db1"
proof (cases "find_snapshot j (dm_id d) db = None \<and> job_exists j db")
  case True
  then have db1: "db1 = db\<lparr>snapshots := fst (insert_row (mk_snapshot (d, j, b, now)) (snapshots db))\<rparr>"
    using assms(1) by (auto simp: create_crawl_snapshot_def Let_def insert_row_def)
  show ?thesis using snapshot_keys.keys_ok_insert [OF assms(2)]
    by (auto simp: grows_def db1 snapshot_by_id_def first_where_insert_row)
next
  case False
  then have "db1 = db" using assms(1) by (auto simp: create_crawl_snapshot_def Let_def split: option.splits)
  then show ?thesis using grows_refl assms(2) by simp
qed

text \<open>The lead is attributed to the domain of its page, and the flag says whether it was before.\<close>

definition well_attributed :: "(string \<rightharpoonup> domain_dict) \<Rightarrow> string list \<Rightarrow> crawl_db \<Rightarrow> lead \<Rightarrow> bool" where
  "well_attributed m sfx db l =
     (\<not> crawled_lead l \<or> attributed (resolve_domain_for_url (ld_source_url l) m sfx) (ld_snapshot_id l) db)"

lemma inherited_is_attributed: "Some (dm_id d) = inherited_source_domain sid db \<longleftrightarrow> attributed (Some d) sid db"
  by (cases sid; cases "snapshot_by_id (the sid) db") (auto simp: inherited_source_domain_def attributed_def)

lemma repair_lead_spec:
  assumes "repair_lead m sfx now db l = (db1, r)" "snapshot_keys.keys_ok (snapshots db)"
  shows "grows db db1"
    and "r = Inr (l1, changed) \<Longrightarrow> (\<exists>i. l1 = l\<lparr>ld_snapshot_id := i\<rparr>) \<and>
      attributed (resolve_domain_for_url (ld_source_url l) m sfx) (ld_snapshot_id l1) db1 \<and>
      (\<not> changed \<longleftrightarrow> attributed (resolve_domain_for_url (ld_source_url l) m sfx) (ld_snapshot_id l) db)"
proof -
  show "grows db db1" using assms create_snapshot_grows grows_refl
    by (auto simp: repair_lead_def split: option.splits if_splits prod.splits sum.splits)
  assume r: "r = Inr (l1, changed)"
  show "(\<exists>i. l1 = l\<lparr>ld_snapshot_id := i\<rparr>) \<and>
      attributed (resolve_domain_for_url (ld_source_url l) m sfx) (ld_snapshot_id l1) db1 \<and>
      (\<not> changed \<longleftrightarrow> attributed (resolve_domain_for_url (ld_source_url l) m sfx) (ld_snapshot_id l) db)"
  proof (cases "resolve_domain_for_url (ld_source_url l) m sfx")
    case None
    then show ?thesis using assms(1) r by (auto simp: repair_lead_def attributed_def)
  next
    case (Some d)
    show ?thesis
    proof (cases "Some (dm_id d) = inherited_source_domain (ld_snapshot_id l) db")
      case True
      then have "l1 = l" "\<not> changed" "db1 = db" using assms(1) r Some by (auto simp: repair_lead_def)
      then show ?thesis using True by (auto simp: Some inherited_is_attributed intro: exI [of _ "ld_snapshot_id l"])
    next
      case False
      then obtain i where i: "create_crawl_snapshot id (ld_job_id l) d False now db = (db1, Inr i)"
          "l1 = l\<lparr>ld_snapshot_id := Some i\<rparr>" "changed"
        using assms(1) r Some by (auto simp: repair_lead_def split: prod.splits sum.splits)
      then show ?thesis using False create_snapshot_result [OF i(1) assms(2)]
        by (auto simp: Some inherited_is_attributed) (simp add: attributed_def)
    qed
  qed
qed

lemma well_attributed_frame: "snapshots db1 = snapshots db \<Longrightarrow> well_attributed m sfx db1 = well_attributed m sfx db"
proof -
  assume "snapshots db1 = snapshots db"
  then have "snapshot_by_id i db1 = snapshot_by_id i db" for i by (simp add: snapshot_by_id_def)
  then have "attributed r sid db1 = attributed r sid db" for r sid by (simp add: attributed_def split: option.split)
  then show ?thesis by (simp add: fun_eq_iff well_attributed_def)
qed

lemma repair_loop_spec:
  "repair_loop m sfx now ls db = (db2, Inr (ls1, n)) \<Longrightarrow> snapshot_keys.keys_ok (snapshots db) \<Longrightarrow>
   grows db db2 \<and> list_all2 (\<lambda>l l1. (\<exists>i. l1 = l\<lparr>ld_snapshot_id := i\<rparr>) \<and> (crawled_lead l \<or> l1 = l)) ls ls1 \<and>
   list_all (well_attributed m sfx db2) ls1"
proof (induction ls arbitrary: db ls1 n)
  case Nil
  then show ?case using grows_refl by simp
next
  case (Cons l ls)
  show ?case
  proof (cases "crawled_lead l")
    case True
    then obtain db1 l1 c ls2 k where s: "repair_lead m sfx now db l = (db1, Inr (l1, c))"
        "repair_loop m sfx now ls db1 = (db2, Inr (ls2, k))" "ls1 = l1 # ls2"
      using Cons.prems(1) by (auto split: prod.splits sum.splits)
    note one = repair_lead_spec(1) [OF s(1) Cons.prems(2)] repair_lead_spec(2) [OF s(1) Cons.prems(2) refl]
    note rest = Cons.IH [OF s(2) grows_frame(5) [OF one(1)]]
    have "well_attributed m sfx db2 l1"
      using one(2) rest grows_attributed [of db1 db2] by (auto simp: well_attributed_def)
    then show ?thesis using one rest grows_trans [OF one(1)] True by (auto simp: s(3))
  next
    case False
    then obtain ls2 where s: "repair_loop m sfx now ls db = (db2, Inr (ls2, n))" "ls1 = l # ls2"
      using Cons.prems(1) by (auto split: prod.splits sum.splits)
    show ?thesis using Cons.IH [OF s(1) Cons.prems(2)] False
      by (auto simp: s(2) well_attributed_def intro: exI [of _ "ld_snapshot_id l"])
  qed
qed

lemma repair_loop_settled:
  "list_all (well_attributed m sfx db) ls \<Longrightarrow> repair_loop m sfx now ls db = (db, Inr (ls, 0))"
proof (induction ls)
  case (Cons l ls)
  have "repair_lead m sfx now db l = (db, Inr (l, False))" if "crawled_lead l"
  proof (cases "resolve_domain_for_url (ld_source_url l) m sfx")
    case None
    then show ?thesis using Cons.prems that by (simp add: repair_lead_def well_attributed_def attributed_def)
  next
    case (Some d)
    then show ?thesis using Cons.prems that inherited_is_attributed [of d "ld_snapshot_id l" db]
      by (simp add: repair_lead_def well_attributed_def)
  qed
  then show ?case using Cons by simp
qed simp

text \<open>C31.
  After a repair every crawled lead points at a snapshot of the catalog domain its page belongs to, or at
  none when there is no such domain; nothing else of a lead changes, and other leads not at all. The
  repair is idempotent: running it again changes no lead.
\<close>

theorem backfill_attributes_every_crawled_lead:
  assumes run: "backfill_lead_attribution now db = (db2, Inr n)"
    and fresh: "cache_fresh db" and keys: "snapshot_keys.keys_ok (snapshots db)"
  shows "list_all (well_attributed (build_netloc_domain_map db) (policy_suffixes db) db2) (rows (leads db2)) \<and>
    list_all2 (\<lambda>l l1. (\<exists>i. l1 = l\<lparr>ld_snapshot_id := i\<rparr>) \<and> (crawled_lead l \<or> l1 = l)) (rows (leads db)) (rows (leads db2)) \<and>
    snd (backfill_lead_attribution now2 db2) = Inr 0 \<and> leads (fst (backfill_lead_attribution now2 db2)) = leads db2"
proof -
  obtain db1 m where g: "get_netloc_domain_map db = (db1, m)" by fastforce
  note f = get_netloc_domain_map_fresh [OF fresh, unfolded g fst_conv snd_conv]
  have same: "policy_suffixes db1 = policy_suffixes db" "leads db1 = leads db" "snapshots db1 = snapshots db"
    using g by (auto simp: get_netloc_domain_map_def Let_def intro!: policy_suffixes_frame split: option.splits)
  obtain db3 ls where loop: "repair_loop m (policy_suffixes db1) now (rows (leads db1)) db1 = (db3, Inr (ls, n))"
      "db2 = db3\<lparr>leads := (leads db3)\<lparr>rows := ls\<rparr>\<rparr>"
    using run g by (auto simp: backfill_lead_attribution_def split: prod.splits sum.splits)
  note spec = repair_loop_spec [OF loop(1), unfolded same(3), OF keys]
  note frame = grows_frame [OF conjunct1 [OF spec]]
  have sfx: "policy_suffixes db2 = policy_suffixes db"
    using policy_suffixes_frame [of db2 db3] loop(2) frame(2) same(1) by simp
  have well: "list_all (well_attributed m (policy_suffixes db) db2) (rows (leads db2))"
    using spec well_attributed_frame [of db2 db3] by (simp add: loop(2) same(1))
  have fresh2: "cache_fresh db2" using f(2) cache_fresh_frame [of db2 db1] loop(2) frame(3,4) by simp
  obtain db4 m2 where g2: "get_netloc_domain_map db2 = (db4, m2)" by fastforce
  note f2 = get_netloc_domain_map_fresh [OF fresh2, unfolded g2 fst_conv snd_conv]
  have m2: "m2 = m" using f(1,3) f2(1) build_cong [of db2 db] loop(2) frame(3) by simp
  have db4: "policy_suffixes db4 = policy_suffixes db2" "leads db4 = leads db2" "snapshots db4 = snapshots db2"
    using g2 by (auto simp: get_netloc_domain_map_def Let_def intro!: policy_suffixes_frame split: option.splits)
  have "list_all (well_attributed m2 (policy_suffixes db4) db4) (rows (leads db4))"
    using well well_attributed_frame [OF db4(3)] by (simp add: m2 db4(1,2) sfx)
  from repair_loop_settled [OF this] have "backfill_lead_attribution now2 db2 = (db4, Inr 0)"
    by (simp add: backfill_lead_attribution_def g2)
  then show ?thesis using well spec db4 f(1) same(2) by (simp add: loop(2))
qed

definition demo_unattributed :: crawl_db where
  "demo_unattributed = demo_job_db\<lparr>leads := \<lparr>rows = [\<lparr>ld_id = 1, ld_job_id = 1, ld_snapshot_id = Some 9, ld_email = ''a@x.gov.in'',
      ld_person_name = None, ld_designation = None, ld_department = None, ld_source_url = Some ''http://x.gov.in/p'',
      ld_source_title = None, ld_context_snippet = None, ld_manual_state = None, ld_entity_kind = None, ld_phone = None,
      ld_channel_tag = Some ''mailto'', ld_confidence_band = None, ld_field_provenance = None, ld_lead_score = 0, ld_depth = 0,
      ld_captured_at = 0\<rparr>], next_id = 2\<rparr>\<rparr>"

theorem backfill_attributes_every_crawled_lead_witness:
  "\<exists>db2 n. backfill_lead_attribution 5 demo_unattributed = (db2, Inr n) \<and>
     list_all (well_attributed (build_netloc_domain_map demo_unattributed) (policy_suffixes demo_unattributed) db2) (rows (leads db2)) \<and>
     snd (backfill_lead_attribution 6 db2) = Inr 0"
proof -
  have "\<not> isl (snd (backfill_lead_attribution 5 demo_unattributed))" by code_simp
  then obtain n where "snd (backfill_lead_attribution 5 demo_unattributed) = Inr n"
    by (cases "snd (backfill_lead_attribution 5 demo_unattributed)") simp_all
  then have run: "backfill_lead_attribution 5 demo_unattributed = (fst (backfill_lead_attribution 5 demo_unattributed), Inr n)"
    by (metis prod.collapse)
  have "cache_fresh demo_unattributed" "snapshot_keys.keys_ok (snapshots demo_unattributed)"
    by (simp_all add: demo_unattributed_def cache_fresh_def demo_job_db_def create_job_def insert_row_def Let_def
        empty_crawl_db_def snapshot_keys.keys_ok_def)
  from backfill_attributes_every_crawled_lead [OF run this] run show ?thesis by blast
qed

definition demo_credential_row :: smtp_credential where
  "demo_credential_row = \<lparr>cr_id = 1, cr_host = ''h'', cr_port = 587, cr_username = ''u'',
     cr_password_encrypted = Some (encrypt_password tagged_fernet [''old''] ''pw''), cr_is_active = True, cr_cooldown_until = None,
     cr_daily_send_limit = None, cr_provider = ''basic'', cr_refresh_token_encrypted = None, cr_access_token_encrypted = None,
     cr_token_expires_at = None\<rparr>"

theorem rotation_reencrypts_passwords_only_witness:
  "\<exists>creds1. rotate_credential_encryption_key tagged_fernet (Some ''old'') [''new'', ''old''] \<lparr>rows = [demo_credential_row], next_id = 2\<rparr> =
      (creds1, Rotated 1) \<and>
    list_all2 (\<lambda>c c1. c1 = c\<lparr>cr_password_encrypted := cr_password_encrypted c1\<rparr> \<and>
          (\<exists>plain. opens tagged_fernet [''new'', ''old''] (cr_password_encrypted c) plain \<and>
             opens tagged_fernet [''new''] (cr_password_encrypted c1) plain)) [demo_credential_row] (rows creds1)"
proof -
  let ?creds = "\<lparr>rows = [demo_credential_row], next_id = 2\<rparr>"
  let ?r = "rotate_credential_encryption_key tagged_fernet (Some ''old'') [''new'', ''old''] ?creds"
  have "snd ?r = Rotated 1" by code_simp
  then obtain creds1 where r: "?r = (creds1, Rotated 1)" by (cases ?r) simp
  have "list_all2 (\<lambda>c c1. c1 = c\<lparr>cr_password_encrypted := cr_password_encrypted c1\<rparr> \<and>
          (\<exists>plain. opens tagged_fernet [''new'', ''old''] (cr_password_encrypted c) plain \<and>
             opens tagged_fernet [''new''] (cr_password_encrypted c1) plain)) [demo_credential_row] (rows creds1)"
    using rotation_reencrypts_passwords_only [OF tagged_fernet_authentic, where prev = "''old''" and k = "''new''" and
        ks = "[''old'']" and creds = ?creds] unfolding r prod.case rotation.case by simp
  then show ?thesis using r by blast
qed

end
