(* ===== verification/Migration.thy ===== *)
theory Migration
  imports Prelude
begin

text \<open>
  The one-time copy of a SQLite database into Postgres (\<open>scripts/migrate_sqlite_to_pg.py\<close>), over rows of
  named cells. The source is what \<open>SELECT *\<close> answers for each of its tables; the target is one transaction
  in which an insert checks the foreign keys of the schema (\<open>cloud/db/tables\<close>). \<open>reject\<close> is what the
  other constraints of the target answer to an insert.
\<close>

section \<open>Rows and the schema\<close>

datatype db_cell = Null | Num int | Text string

type_synonym row = "(string \<times> db_cell) list"
type_synonym source = "string \<rightharpoonup> row list"

definition col :: "row \<Rightarrow> string \<Rightarrow> db_cell" where
  "col r c = (case map_of r c of None \<Rightarrow> Null | Some v \<Rightarrow> v)"

definition without :: "string \<Rightarrow> row \<Rightarrow> row" where
  "without c r = filter (\<lambda>kv. fst kv \<noteq> c) r"

definition METADATA :: "string list" where
  "METADATA =
     [''roles'', ''permissions'', ''users'', ''role_permissions'', ''user_permissions'', ''user_sessions'', ''audit_log'',
      ''domains'', ''crawl_snapshots'', ''crawl_jobs'', ''crawl_job_domains'', ''job_custom_urls'', ''leads'',
      ''lead_occurrences'', ''categories'', ''org_types'', ''campaigns'', ''email_templates'', ''smtp_credentials'',
      ''oauth_pending_flows'', ''campaign_credentials'', ''campaign_emails'', ''blacklist'', ''app_settings'']"

definition NO_ID :: "string list" where
  "NO_ID = [''permissions'', ''crawl_job_domains'', ''categories'', ''org_types'', ''app_settings'']"

text \<open>Column, referenced table and referenced column of every foreign key, by table.\<close>

definition FOREIGN_KEYS :: "(string \<times> string \<times> string \<times> string) list" where
  "FOREIGN_KEYS =
     [(''users'', ''role_id'', ''roles'', ''id''), (''users'', ''created_by'', ''users'', ''id''),
      (''role_permissions'', ''role_id'', ''roles'', ''id''), (''role_permissions'', ''permission_key'', ''permissions'', ''key''),
      (''user_permissions'', ''user_id'', ''users'', ''id''), (''user_permissions'', ''permission_key'', ''permissions'', ''key''),
      (''user_sessions'', ''user_id'', ''users'', ''id''), (''audit_log'', ''user_id'', ''users'', ''id''),
      (''crawl_snapshots'', ''job_id'', ''crawl_jobs'', ''id''), (''crawl_jobs'', ''owner_id'', ''users'', ''id''),
      (''crawl_job_domains'', ''job_id'', ''crawl_jobs'', ''id''), (''crawl_job_domains'', ''domain_id'', ''domains'', ''id''),
      (''job_custom_urls'', ''job_id'', ''crawl_jobs'', ''id''), (''leads'', ''job_id'', ''crawl_jobs'', ''id''),
      (''leads'', ''snapshot_id'', ''crawl_snapshots'', ''id''), (''lead_occurrences'', ''lead_id'', ''leads'', ''id''),
      (''lead_occurrences'', ''job_id'', ''crawl_jobs'', ''id''), (''lead_occurrences'', ''captured_by'', ''users'', ''id''),
      (''campaigns'', ''template_id'', ''email_templates'', ''id''),
      (''campaigns'', ''test_credential_id'', ''smtp_credentials'', ''id''), (''campaigns'', ''owner_id'', ''users'', ''id''),
      (''oauth_pending_flows'', ''credential_id'', ''smtp_credentials'', ''id''),
      (''campaign_credentials'', ''campaign_id'', ''campaigns'', ''id''),
      (''campaign_credentials'', ''credential_id'', ''smtp_credentials'', ''id''),
      (''campaign_emails'', ''campaign_id'', ''campaigns'', ''id''), (''campaign_emails'', ''lead_id'', ''leads'', ''id''),
      (''campaign_emails'', ''credential_id'', ''smtp_credentials'', ''id''), (''app_settings'', ''updated_by'', ''users'', ''id'')]"

record target =
  tg_rows :: "string \<Rightarrow> row list"
  tg_next :: "string \<Rightarrow> int"

definition references_ok :: "string \<Rightarrow> row \<Rightarrow> target \<Rightarrow> bool" where
  "references_ok table values tg =
     list_all (\<lambda>(t, c, ref, ref_col). t \<noteq> table \<or> col values c = Null \<or>
        list_ex (\<lambda>r. col r ref_col = col values c) (tg_rows tg ref)) FOREIGN_KEYS"

type_synonym constraints = "string \<Rightarrow> row \<Rightarrow> target \<Rightarrow> py_exn option"

text \<open>An insert answers the new id, \<open>Num 0\<close> for a table without one.\<close>

definition insert_into :: "constraints \<Rightarrow> string \<Rightarrow> row \<Rightarrow> target \<Rightarrow> py_exn + target \<times> db_cell" where
  "insert_into reject table values tg =
     (if table \<notin> set METADATA then Inl KeyError
      else if \<not> references_ok table values tg then Inl IntegrityError
      else
        (case reject table values tg of
           Some x \<Rightarrow> Inl x
         | None \<Rightarrow>
             if table \<in> set NO_ID
             then Inr (tg\<lparr>tg_rows := (tg_rows tg)(table := tg_rows tg table @ [values])\<rparr>, Num 0)
             else
               (let i = tg_next tg table in
                Inr (tg\<lparr>tg_rows := (tg_rows tg)(table := tg_rows tg table @ [(''id'', Num i) # values]),
                        tg_next := (tg_next tg)(table := i + 1)\<rparr>, Num i))))"

definition update_by_id :: "string \<Rightarrow> db_cell \<Rightarrow> string \<Rightarrow> db_cell \<Rightarrow> target \<Rightarrow> target" where
  "update_by_id table i c v tg =
     tg\<lparr>tg_rows := (tg_rows tg)(table := map (\<lambda>r. if col r ''id'' = i then dict_put c v r else r) (tg_rows tg table))\<rparr>"

definition select_all :: "string \<Rightarrow> source \<Rightarrow> py_exn + row list" where
  "select_all table src = (case src table of None \<Rightarrow> Inl OperationalError | Some rs \<Rightarrow> Inr rs)"

section \<open>Copying a table\<close>

type_synonym id_map = "db_cell \<rightharpoonup> db_cell"

text \<open>The foreign keys of a row, remapped in turn; None when a hard one has no mapping.\<close>

fun remap :: "(string \<times> string) list \<Rightarrow> string list \<Rightarrow> (string \<rightharpoonup> id_map) \<Rightarrow> row \<Rightarrow> row option" where
  "remap [] soft id_maps values = Some values"
| "remap ((c, ref) # fks) soft id_maps values =
     (if col values c = Null then remap fks soft id_maps values
      else
        (case (case id_maps ref of None \<Rightarrow> None | Some m \<Rightarrow> m (col values c)) of
           None \<Rightarrow> if c \<in> set soft then remap fks soft id_maps (dict_put c Null values) else None
         | Some v \<Rightarrow> remap fks soft id_maps (dict_put c v values)))"

fun copy_rows ::
  "constraints \<Rightarrow> string \<Rightarrow> (string \<rightharpoonup> id_map) \<Rightarrow> (string \<times> string) list \<Rightarrow> string list \<Rightarrow> row list \<Rightarrow> target \<Rightarrow>
   py_exn + target \<times> id_map" where
  "copy_rows reject table id_maps fks soft [] tg = Inr (tg, Map.empty)"
| "copy_rows reject table id_maps fks soft (r # rs) tg =
     (case remap fks soft id_maps (without ''id'' r) of
        None \<Rightarrow> copy_rows reject table id_maps fks soft rs tg
      | Some values \<Rightarrow>
          (case insert_into reject table values tg of
             Inl x \<Rightarrow> Inl x
           | Inr (tg1, i) \<Rightarrow>
               (case copy_rows reject table id_maps fks soft rs tg1 of
                  Inl x \<Rightarrow> Inl x
                | Inr (tg2, m) \<Rightarrow>
                    Inr (tg2, if col r ''id'' = Null then m else if col r ''id'' \<in> dom m then m else m(col r ''id'' \<mapsto> i)))))"

definition copy_table ::
  "constraints \<Rightarrow> source \<Rightarrow> string \<Rightarrow> (string \<rightharpoonup> id_map) \<Rightarrow> (string \<times> string) list \<Rightarrow> string list \<Rightarrow> target \<Rightarrow>
   py_exn + target \<times> id_map" where
  "copy_table reject src table id_maps fks soft tg =
     (if table \<notin> set METADATA then Inl KeyError
      else (case select_all table src of Inl x \<Rightarrow> Inl x | Inr rs \<Rightarrow> copy_rows reject table id_maps fks soft rs tg))"
section \<open>The tables with their own rules\<close>

definition and_then :: "py_exn + 'a \<Rightarrow> ('a \<Rightarrow> py_exn + 'b) \<Rightarrow> py_exn + 'b" where
  "and_then r f = (case r of Inl x \<Rightarrow> Inl x | Inr a \<Rightarrow> f a)"

text \<open>Users are inserted without their creator, who is filled in when every user has a new id.\<close>

fun insert_users :: "constraints \<Rightarrow> row list \<Rightarrow> target \<Rightarrow> py_exn + target \<times> (db_cell \<times> db_cell) list \<times> (db_cell \<times> db_cell) list" where
  "insert_users reject [] tg = Inr (tg, [], [])"
| "insert_users reject (r # rs) tg =
     and_then (insert_into reject ''users'' (dict_put ''created_by'' Null (without ''id'' r)) tg) (\<lambda>(tg1, i).
       and_then (insert_users reject rs tg1) (\<lambda>(tg2, m, pending).
         Inr (tg2, (col r ''id'', i) # m,
              if col r ''created_by'' = Null then pending else (i, col r ''created_by'') # pending)))"

definition copy_users :: "constraints \<Rightarrow> source \<Rightarrow> target \<Rightarrow> py_exn + target \<times> (db_cell \<times> db_cell) list" where
  "copy_users reject src tg =
     and_then (select_all ''users'' src) (\<lambda>rs.
       and_then (insert_users reject rs tg) (\<lambda>(tg1, m, pending).
         Inr (foldl (\<lambda>t (i, old_creator). case map_of m old_creator of None \<Rightarrow> t | Some c \<Rightarrow> update_by_id ''users'' i ''created_by'' c t)
                tg1 pending, m)))"

fun copy_new_keys :: "constraints \<Rightarrow> string \<Rightarrow> string \<Rightarrow> db_cell list \<Rightarrow> row list \<Rightarrow> target \<Rightarrow> py_exn + target" where
  "copy_new_keys reject table key_col existing [] tg = Inr tg"
| "copy_new_keys reject table key_col existing (r # rs) tg =
     (if col r key_col \<in> set existing then copy_new_keys reject table key_col existing rs tg
      else and_then (insert_into reject table r tg) (\<lambda>(tg1, _). copy_new_keys reject table key_col existing rs tg1))"

definition copy_natural_key_table :: "constraints \<Rightarrow> source \<Rightarrow> string \<Rightarrow> string \<Rightarrow> target \<Rightarrow> py_exn + target" where
  "copy_natural_key_table reject src table key_col tg =
     and_then (select_all table src) (\<lambda>rs. copy_new_keys reject table key_col (map (\<lambda>r. col r key_col) (tg_rows tg table)) rs tg)"

text \<open>Roles are matched by name.\<close>

fun copy_new_roles :: "constraints \<Rightarrow> (db_cell \<rightharpoonup> db_cell) \<Rightarrow> row list \<Rightarrow> target \<Rightarrow> py_exn + target \<times> (db_cell \<times> db_cell) list" where
  "copy_new_roles reject existing [] tg = Inr (tg, [])"
| "copy_new_roles reject existing (r # rs) tg =
     (case existing (col r ''name'') of
        Some i \<Rightarrow> and_then (copy_new_roles reject existing rs tg) (\<lambda>(tg1, m). Inr (tg1, (col r ''id'', i) # m))
      | None \<Rightarrow>
          and_then (insert_into reject ''roles'' (without ''id'' r) tg) (\<lambda>(tg1, i).
            and_then (copy_new_roles reject existing rs tg1) (\<lambda>(tg2, m). Inr (tg2, (col r ''id'', i) # m))))"

definition copy_roles :: "constraints \<Rightarrow> source \<Rightarrow> target \<Rightarrow> py_exn + target \<times> (db_cell \<times> db_cell) list" where
  "copy_roles reject src tg =
     and_then (select_all ''roles'' src)
       (\<lambda>rs. copy_new_roles reject (map_of (rev (map (\<lambda>r. (col r ''name'', col r ''id'')) (tg_rows tg ''roles'')))) rs tg)"

fun copy_grants :: "constraints \<Rightarrow> (db_cell \<rightharpoonup> db_cell) \<Rightarrow> row list \<Rightarrow> target \<Rightarrow> py_exn + target" where
  "copy_grants reject role_ids [] tg = Inr tg"
| "copy_grants reject role_ids (r # rs) tg =
     (case role_ids (col r ''role_id'') of
        None \<Rightarrow> copy_grants reject role_ids rs tg
      | Some i \<Rightarrow>
          if list_ex (\<lambda>g. col g ''role_id'' = i \<and> col g ''permission_key'' = col r ''permission_key'') (tg_rows tg ''role_permissions'')
          then copy_grants reject role_ids rs tg
          else and_then (insert_into reject ''role_permissions'' (dict_put ''role_id'' i (without ''id'' r)) tg)
                 (\<lambda>(tg1, _). copy_grants reject role_ids rs tg1))"

definition copy_role_permissions :: "constraints \<Rightarrow> source \<Rightarrow> (db_cell \<rightharpoonup> db_cell) \<Rightarrow> target \<Rightarrow> py_exn + target" where
  "copy_role_permissions reject src role_ids tg =
     and_then (select_all ''role_permissions'' src) (\<lambda>rs. copy_grants reject role_ids rs tg)"

fun seed_pairs :: "constraints \<Rightarrow> string \<Rightarrow> (db_cell \<times> db_cell) list \<Rightarrow> db_cell list \<Rightarrow> target \<Rightarrow> py_exn + target" where
  "seed_pairs reject table [] existing tg = Inr tg"
| "seed_pairs reject table ((code, title) # ps) existing tg =
     (if code \<in> set existing \<or> title = Null then seed_pairs reject table ps existing tg
      else and_then (insert_into reject table [(''code'', code), (''title'', title)] tg)
             (\<lambda>(tg1, _). seed_pairs reject table ps (code # existing) tg1))"

definition seed_lookup ::
  "constraints \<Rightarrow> source \<Rightarrow> string \<times> string \<times> string \<times> string \<Rightarrow> target \<Rightarrow> py_exn + target" where
  "seed_lookup reject src l tg =
     (case l of (lookup, source_table, code_col, title_col) \<Rightarrow>
        and_then (select_all source_table src) (\<lambda>rs.
          seed_pairs reject lookup
            (rev (remdups (rev (map (\<lambda>r. (col r code_col, col r title_col)) (filter (\<lambda>r. col r code_col \<noteq> Null) rs)))))
            (map (\<lambda>r. col r ''code'') (tg_rows tg lookup)) tg))"

definition seed_lookups_from_domains :: "constraints \<Rightarrow> source \<Rightarrow> target \<Rightarrow> py_exn + target" where
  "seed_lookups_from_domains reject src tg =
     foldl (\<lambda>r l. and_then r (seed_lookup reject src l)) (Inr tg)
       [(''categories'', ''domains'', ''category_code'', ''category_title''),
        (''org_types'', ''domains'', ''org_type'', ''org_type_title''),
        (''categories'', ''crawl_snapshots'', ''category_code'', ''category_title''),
        (''org_types'', ''crawl_snapshots'', ''org_type'', ''org_type_title'')]"

text \<open>\<open>load_ids\<close> is \<open>json.loads\<close> of a list of ids, None when it raises; the fallback reads the column of the jobs.\<close>

fun copy_job_domains ::
  "constraints \<Rightarrow> (db_cell \<rightharpoonup> db_cell) \<Rightarrow> (db_cell \<rightharpoonup> db_cell) \<Rightarrow> (db_cell \<times> db_cell) list \<Rightarrow> target \<Rightarrow> py_exn + target" where
  "copy_job_domains reject dom_ids job_ids [] tg = Inr tg"
| "copy_job_domains reject dom_ids job_ids ((j, d) # ps) tg =
     (case (job_ids j, dom_ids d) of
        (Some j1, Some d1) \<Rightarrow>
          and_then (insert_into reject ''crawl_job_domains'' [(''job_id'', j1), (''domain_id'', d1)] tg)
            (\<lambda>(tg1, _). copy_job_domains reject dom_ids job_ids ps tg1)
      | _ \<Rightarrow> copy_job_domains reject dom_ids job_ids ps tg)"

definition backfill_job_domains ::
  "(string \<Rightarrow> db_cell list option) \<Rightarrow> constraints \<Rightarrow> source \<Rightarrow> (db_cell \<rightharpoonup> db_cell) \<Rightarrow> (db_cell \<rightharpoonup> db_cell) \<Rightarrow> target \<Rightarrow> py_exn + target" where
  "backfill_job_domains load_ids reject src dom_ids job_ids tg =
     and_then (select_all ''crawl_job_domains'' src) (\<lambda>rs.
       if rs \<noteq> [] then copy_job_domains reject dom_ids job_ids (map (\<lambda>r. (col r ''job_id'', col r ''domain_id'')) rs) tg
       else
         and_then (select_all ''crawl_jobs'' src) (\<lambda>js.
           copy_job_domains reject dom_ids job_ids
             (concat (map (\<lambda>j. case col j ''domain_ids'' of
                  Text t \<Rightarrow> (case load_ids (if t = [] then ''[]'' else t) of None \<Rightarrow> [] | Some ds \<Rightarrow> map (Pair (col j ''id'')) ds)
                | _ \<Rightarrow> []) js)) tg))"

section \<open>The migration\<close>

definition counted :: "source \<Rightarrow> string \<Rightarrow> py_exn + 'a \<Rightarrow> py_exn + 'a" where
  "counted src table k = and_then (select_all table src) (\<lambda>_. k)"

text \<open>The second pass over the users: the role id they were inserted with is replaced by the new one.\<close>

definition remap_user_roles :: "source \<Rightarrow> (db_cell \<times> db_cell) list \<Rightarrow> (db_cell \<rightharpoonup> db_cell) \<Rightarrow> target \<Rightarrow> py_exn + target" where
  "remap_user_roles src users_map role_ids tg =
     and_then (select_all ''users'' src) (\<lambda>rs.
       Inr (foldl (\<lambda>t (old_id, new_id).
              case List.find (\<lambda>r. col r ''id'' = old_id) rs of
                None \<Rightarrow> t
              | Some r \<Rightarrow> (case role_ids (col r ''role_id'') of None \<Rightarrow> t | Some i \<Rightarrow> update_by_id ''users'' new_id ''role_id'' i t))
            tg users_map))"

text \<open>The tables that follow the users are copied in this order; each adds its map of ids.\<close>

datatype table_step =
  Copy string "(string \<times> string) list" "string list"
| Job_domains

definition TABLE_STEPS :: "table_step list" where
  "TABLE_STEPS =
     [Copy ''user_permissions'' [(''user_id'', ''users'')] [], Copy ''user_sessions'' [(''user_id'', ''users'')] [],
      Copy ''audit_log'' [(''user_id'', ''users'')] [''user_id''], Copy ''domains'' [] [], Copy ''crawl_jobs'' [] [],
      Job_domains, Copy ''job_custom_urls'' [(''job_id'', ''crawl_jobs'')] [],
      Copy ''crawl_snapshots'' [(''job_id'', ''crawl_jobs''), (''source_domain_id'', ''domains'')] [''source_domain_id''],
      Copy ''visited_urls'' [(''job_id'', ''crawl_jobs'')] [],
      Copy ''leads'' [(''job_id'', ''crawl_jobs''), (''domain_id'', ''domains''), (''snapshot_id'', ''crawl_snapshots'')]
        [''domain_id'', ''snapshot_id''],
      Copy ''email_templates'' [] [], Copy ''smtp_credentials'' [] [],
      Copy ''campaigns'' [(''template_id'', ''email_templates'')] [''template_id''],
      Copy ''campaign_credentials'' [(''campaign_id'', ''campaigns''), (''credential_id'', ''smtp_credentials'')] [],
      Copy ''campaign_emails'' [(''campaign_id'', ''campaigns''), (''lead_id'', ''leads''), (''credential_id'', ''smtp_credentials'')]
        [''credential_id''],
      Copy ''blacklist'' [] []]"

fun run_table_steps ::
  "(string \<Rightarrow> db_cell list option) \<Rightarrow> constraints \<Rightarrow> source \<Rightarrow> table_step list \<Rightarrow> (string \<rightharpoonup> id_map) \<Rightarrow> target \<Rightarrow> py_exn + target" where
  "run_table_steps load_ids reject src [] maps tg = Inr tg"
| "run_table_steps load_ids reject src (Copy table fks soft # sts) maps tg =
     counted src table (and_then (copy_table reject src table maps fks soft tg)
       (\<lambda>(tg1, m). run_table_steps load_ids reject src sts (maps(table \<mapsto> m)) tg1))"
| "run_table_steps load_ids reject src (Job_domains # sts) maps tg =
     counted src ''crawl_job_domains''
       (and_then (backfill_job_domains load_ids reject src (the_default Map.empty (maps ''domains''))
                    (the_default Map.empty (maps ''crawl_jobs'')) tg)
          (\<lambda>tg1. run_table_steps load_ids reject src sts maps tg1))"

definition migrate_in_transaction :: "(string \<Rightarrow> db_cell list option) \<Rightarrow> constraints \<Rightarrow> source \<Rightarrow> target \<Rightarrow> py_exn + target" where
  "migrate_in_transaction load_ids reject src tg =
     and_then (seed_lookups_from_domains reject src tg) (\<lambda>tg1.
     counted src ''roles'' (and_then (copy_roles reject src tg1) (\<lambda>(tg2, role_ids).
     counted src ''permissions'' (and_then (copy_natural_key_table reject src ''permissions'' ''key'' tg2) (\<lambda>tg3.
     counted src ''role_permissions'' (and_then (copy_role_permissions reject src (map_of role_ids) tg3) (\<lambda>tg4.
     counted src ''users'' (and_then (copy_users reject src tg4) (\<lambda>(tg5, users_map).
     and_then (remap_user_roles src users_map (map_of role_ids) tg5) (\<lambda>tg6.
     run_table_steps load_ids reject src TABLE_STEPS [''users'' \<mapsto> map_of users_map] tg6))))))))))"

text \<open>The counts and dangling references the script logs at the end.\<close>

definition dangling :: "string \<times> string \<times> string \<times> string \<Rightarrow> target \<Rightarrow> nat" where
  "dangling c tg =
     (case c of (child, fk_col, parent, parent_col) \<Rightarrow>
        length (filter (\<lambda>r. col r fk_col \<noteq> Null \<and> \<not> list_ex (\<lambda>p. col p parent_col = col r fk_col) (tg_rows tg parent))
          (tg_rows tg child)))"

definition verify :: "(string \<times> nat) list \<Rightarrow> target \<Rightarrow> (string \<times> bool) list \<times> nat list" where
  "verify expected tg =
     (map (\<lambda>(t, n). (t, length (tg_rows tg t) = n)) expected,
      map (\<lambda>c. dangling c tg)
        [(''leads'', ''job_id'', ''crawl_jobs'', ''id''), (''campaign_emails'', ''campaign_id'', ''campaigns'', ''id''),
         (''campaign_emails'', ''lead_id'', ''leads'', ''id''), (''users'', ''role_id'', ''roles'', ''id'')])"

text \<open>The transaction commits when the whole block ends, and is rolled back by an exception.\<close>

definition migrate :: "(string \<Rightarrow> db_cell list option) \<Rightarrow> constraints \<Rightarrow> source \<Rightarrow> target \<Rightarrow> target \<times> py_exn option" where
  "migrate load_ids reject src tg =
     (case migrate_in_transaction load_ids reject src tg of Inl x \<Rightarrow> (tg, Some x) | Inr tg1 \<Rightarrow> (tg1, None))"

section \<open>What a migration does\<close>

lemma copy_visited_urls_fails: "isl (copy_table reject src ''visited_urls'' maps fks soft tg)"
  by (simp add: copy_table_def METADATA_def)

lemma and_then_isl: "isl r \<or> (\<forall>a. r = Inr a \<longrightarrow> isl (f a)) \<Longrightarrow> isl (and_then r f)"
  by (auto simp: and_then_def split: sum.split)

lemma run_table_steps_fails:
  "Copy ''visited_urls'' fks soft \<in> set sts \<Longrightarrow> isl (run_table_steps load_ids reject src sts maps tg)"
proof (induction sts arbitrary: maps tg)
  case (Cons st sts)
  show ?case
  proof (cases st)
    case (Copy table fks1 soft1)
    show ?thesis
    proof (cases "table = ''visited_urls''")
      case True
      then show ?thesis using copy_visited_urls_fails [of reject src maps fks1 soft1 tg]
        by (auto simp: Copy counted_def intro!: and_then_isl)
    next
      case False
      then show ?thesis using Cons by (auto simp: Copy counted_def intro!: and_then_isl)
    qed
  next
    case Job_domains
    then show ?thesis using Cons by (auto simp: counted_def intro!: and_then_isl)
  qed
qed simp

text \<open>C32.
  No migration commits: the table of visited URLs is in the list of tables to copy but not in the schema
  any more, so every run ends with an exception, whatever the source and the target hold, and leaves the
  target as it was.
\<close>

theorem migration_never_commits:
  "fst (migrate load_ids reject src tg) = tg \<and> snd (migrate load_ids reject src tg) \<noteq> None"
proof -
  have "isl (run_table_steps load_ids reject src TABLE_STEPS maps t)" for maps t
    by (rule run_table_steps_fails [of "[(''job_id'', ''crawl_jobs'')]" "[]"]) (simp add: TABLE_STEPS_def)
  then have "isl (migrate_in_transaction load_ids reject src tg)"
    unfolding migrate_in_transaction_def counted_def by (auto intro!: and_then_isl)
  then show ?thesis by (auto simp: migrate_def split: sum.split)
qed

section \<open>A copied table\<close>

lemma insert_into_Inr:
  assumes "insert_into reject table values tg = Inr (tg1, i)" "table \<notin> set NO_ID"
  shows "i = Num (tg_next tg table)" "tg_rows tg1 = (tg_rows tg)(table := tg_rows tg table @ [(''id'', i) # values])"
    "tg_next tg1 table = tg_next tg table + 1" "references_ok table values tg"
  using assms by (auto simp: insert_into_def Let_def split: if_splits option.splits)

text \<open>What the copy of a row keeps: every column, and a foreign key as its image under the map of its table.\<close>

definition same_row :: "(string \<times> string) list \<Rightarrow> (string \<rightharpoonup> id_map) \<Rightarrow> row \<Rightarrow> row \<Rightarrow> bool" where
  "same_row fks id_maps r r1 =
     (\<forall>c. c \<noteq> ''id'' \<longrightarrow>
        (case map_of fks c of
           None \<Rightarrow> col r1 c = col r c
         | Some ref \<Rightarrow> col r1 c = Null \<or> (\<exists>m. id_maps ref = Some m \<and> m (col r c) = Some (col r1 c))))"

lemma col_dict_put: "col (dict_put c v r) c1 = (if c1 = c then v else col r c1)"
  by (simp add: col_def map_of_dict_put)

lemma col_without: "c1 \<noteq> c \<Longrightarrow> col (without c r) c1 = col r c1"
proof -
  assume "c1 \<noteq> c"
  then have "map_of (without c r) c1 = map_of r c1" by (induction r) (auto simp: without_def)
  then show ?thesis by (simp add: col_def)
qed

lemma remap_col:
  "remap fks soft id_maps r = Some v \<Longrightarrow> distinct (map fst fks) \<Longrightarrow>
   (case map_of fks c of
      None \<Rightarrow> col v c = col r c
    | Some ref \<Rightarrow> col v c = Null \<or> (\<exists>m. id_maps ref = Some m \<and> m (col r c) = Some (col v c)))"
proof (induction fks arbitrary: r)
  case (Cons fk fks)
  obtain c1 ref1 where fk: "fk = (c1, ref1)" by (cases fk)
  have rest: "map_of fks c1 = None" using Cons.prems(2) by (simp add: fk map_of_eq_None_iff)
  obtain r1 where r1: "remap fks soft id_maps r1 = Some v" "\<And>c2. c2 \<noteq> c1 \<Longrightarrow> col r1 c2 = col r c2"
      "col r1 c1 = Null \<or> (\<exists>m. id_maps ref1 = Some m \<and> m (col r c1) = Some (col r1 c1))"
    using Cons.prems(1) by (fastforce simp: fk col_dict_put split: if_splits option.splits)
  have IH: "case map_of fks c of None \<Rightarrow> col v c = col r1 c
      | Some ref \<Rightarrow> col v c = Null \<or> (\<exists>m. id_maps ref = Some m \<and> m (col r1 c) = Some (col v c))"
    using Cons.IH [OF r1(1)] Cons.prems(2) by simp
  show ?case
  proof (cases "c = c1")
    case True
    then show ?thesis using IH r1(3) rest by (simp add: fk)
  next
    case False
    then show ?thesis using IH r1(2) [OF False] by (simp add: fk cong: option.case_cong)
  qed
qed simp

lemma remap_same_row:
  assumes "remap fks soft id_maps (without ''id'' r) = Some v" "distinct (map fst fks)"
  shows "same_row fks id_maps r ((''id'', i) # v)"
  unfolding same_row_def
proof (intro allI impI)
  fix c :: string
  assume c: "c \<noteq> ''id''"
  then have "col ((''id'', i) # v) c = col v c" by (simp add: col_def)
  then show "case map_of fks c of None \<Rightarrow> col ((''id'', i) # v) c = col r c
      | Some ref \<Rightarrow> col ((''id'', i) # v) c = Null \<or> (\<exists>m. id_maps ref = Some m \<and> m (col r c) = Some (col ((''id'', i) # v) c))"
    using remap_col [OF assms, of c] col_without [OF c, of r] by (simp only:)
qed

definition resolvable :: "(string \<times> string) list \<Rightarrow> string list \<Rightarrow> (string \<rightharpoonup> id_map) \<Rightarrow> row \<Rightarrow> bool" where
  "resolvable fks soft id_maps r = (remap fks soft id_maps (without ''id'' r) \<noteq> None)"

lemma copy_rows_spec:
  assumes "table \<notin> set NO_ID" "distinct (map fst fks)"
  shows "copy_rows reject table id_maps fks soft rs tg = Inr (tg1, m) \<Longrightarrow> distinct (map (\<lambda>r. col r ''id'') rs) \<Longrightarrow>
    list_all (\<lambda>r. col r ''id'' \<noteq> Null) rs \<Longrightarrow>
    \<exists>news. tg_rows tg1 = (tg_rows tg)(table := tg_rows tg table @ news) \<and> dom m \<subseteq> (\<lambda>r. col r ''id'') ` set rs \<and>
      list_all2 (\<lambda>r r1. m (col r ''id'') = Some (col r1 ''id'') \<and> same_row fks id_maps r r1) (filter (resolvable fks soft id_maps) rs) news"
proof (induction rs arbitrary: tg tg1 m)
  case Nil
  then show ?case by (auto intro: exI [of _ "[]"])
next
  case (Cons r rs)
  have d: "distinct (map (\<lambda>r. col r ''id'') rs)" "list_all (\<lambda>r. col r ''id'' \<noteq> Null) rs" using Cons.prems(2,3) by simp_all
  show ?case
  proof (cases "remap fks soft id_maps (without ''id'' r)")
    case None
    then have skip: "filter (resolvable fks soft id_maps) (r # rs) = filter (resolvable fks soft id_maps) rs"
      "copy_rows reject table id_maps fks soft rs tg = Inr (tg1, m)"
      using Cons.prems(1) by (simp_all add: resolvable_def)
    obtain news where "tg_rows tg1 = (tg_rows tg)(table := tg_rows tg table @ news)" "dom m \<subseteq> (\<lambda>r. col r ''id'') ` set rs"
        "list_all2 (\<lambda>r r1. m (col r ''id'') = Some (col r1 ''id'') \<and> same_row fks id_maps r r1) (filter (resolvable fks soft id_maps) rs) news"
      using Cons.IH [OF skip(2) d] by blast
    then show ?thesis unfolding skip(1) by (intro exI [of _ news]) auto
  next
    case (Some v)
    obtain tg0 i m0 where s: "insert_into reject table v tg = Inr (tg0, i)"
        "copy_rows reject table id_maps fks soft rs tg0 = Inr (tg1, m0)"
      using Cons.prems(1) Some by (auto split: sum.splits prod.splits)
    note ins = insert_into_Inr [OF s(1) assms(1)]
    obtain news where news: "tg_rows tg1 = (tg_rows tg0)(table := tg_rows tg0 table @ news)"
        "dom m0 \<subseteq> (\<lambda>r. col r ''id'') ` set rs"
        "list_all2 (\<lambda>r r1. m0 (col r ''id'') = Some (col r1 ''id'') \<and> same_row fks id_maps r r1) (filter (resolvable fks soft id_maps) rs) news"
      using Cons.IH [OF s(2) d] by blast
    have fresh: "col r ''id'' \<notin> dom m0" using news(2) Cons.prems(2) by auto
    have "col r ''id'' \<noteq> Null" using Cons.prems(3) by simp
    then have "copy_rows reject table id_maps fks soft (r # rs) tg = Inr (tg1, m0(col r ''id'' \<mapsto> i))"
      using fresh by (simp add: Some s del: fun_upd_apply)
    then have m: "m = m0(col r ''id'' \<mapsto> i)" using Cons.prems(1) by (simp del: fun_upd_apply)
    let ?r1 = "(''id'', i) # v"
    have "list_all2 (\<lambda>r r1. m (col r ''id'') = Some (col r1 ''id'') \<and> same_row fks id_maps r r1) (filter (resolvable fks soft id_maps) rs) news"
      using news(3) by (rule list.rel_mono_strong) (use fresh in \<open>auto simp: m\<close>)
    moreover have "m (col r ''id'') = Some (col ?r1 ''id'')" by (simp add: m col_def)
    ultimately have "list_all2 (\<lambda>r r1. m (col r ''id'') = Some (col r1 ''id'') \<and> same_row fks id_maps r r1)
        (filter (resolvable fks soft id_maps) (r # rs)) (?r1 # news)"
      using remap_same_row [OF Some assms(2)] by (simp add: resolvable_def Some)
    moreover have "tg_rows tg1 = (tg_rows tg)(table := tg_rows tg table @ ?r1 # news)" using news(1) ins(2) by simp
    moreover have "dom m \<subseteq> (\<lambda>r. col r ''id'') ` set (r # rs)" using news(2) by (auto simp: m)
    ultimately show ?thesis by blast
  qed
qed

text \<open>
  When a table is copied without an exception, exactly the rows whose hard foreign keys have a mapping are
  appended, in order, other tables do not change, the map of ids leads from every copied row to its copy,
  and the copy agrees with the row in every column, a foreign key being the image of the old one under
  the map of its table or null. A column that is not named as a foreign key keeps its old value.
\<close>

theorem copied_table_keeps_rows:
  assumes "copy_table reject src table id_maps fks soft tg = Inr (tg1, m)" "src table = Some rs" "table \<notin> set NO_ID"
    "distinct (map fst fks)" "distinct (map (\<lambda>r. col r ''id'') rs)" "list_all (\<lambda>r. col r ''id'' \<noteq> Null) rs"
  shows "\<exists>news. tg_rows tg1 = (tg_rows tg)(table := tg_rows tg table @ news) \<and>
      list_all2 (\<lambda>r r1. m (col r ''id'') = Some (col r1 ''id'') \<and> same_row fks id_maps r r1) (filter (resolvable fks soft id_maps) rs) news"
proof -
  have "copy_rows reject table id_maps fks soft rs tg = Inr (tg1, m)"
    using assms(1,2) by (simp add: copy_table_def select_all_def split: if_splits)
  from copy_rows_spec [OF assms(3,4) this assms(5,6)] show ?thesis by blast
qed

definition demo_source :: source where
  "demo_source = [''job_custom_urls'' \<mapsto>
     [[(''id'', Num 4), (''job_id'', Num 7), (''url'', Text ''http://a.gov.in'')], [(''id'', Num 5), (''job_id'', Num 8), (''url'', Text ''x'')]]]"

definition demo_target :: target where
  "demo_target = \<lparr>tg_rows = (\<lambda>t. if t = ''crawl_jobs'' then [[(''id'', Num 1)]] else []), tg_next = (\<lambda>_. 1)\<rparr>"

theorem copied_table_keeps_rows_witness:
  "\<exists>tg1 m news. copy_table (\<lambda>_ _ _. None) demo_source ''job_custom_urls'' [''crawl_jobs'' \<mapsto> [Num 7 \<mapsto> Num 1]] [(''job_id'', ''crawl_jobs'')] [] demo_target =
      Inr (tg1, m) \<and> tg_rows tg1 ''job_custom_urls'' = news \<and> length news = 1 \<and> m (Num 4) = Some (col (hd news) ''id'') \<and>
      col (hd news) ''job_id'' = Num 1"
proof -
  let ?maps = "[''crawl_jobs'' \<mapsto> [Num 7 \<mapsto> Num 1]] :: string \<rightharpoonup> id_map" and ?fks = "[(''job_id'', ''crawl_jobs'')]"
  let ?r = "copy_table (\<lambda>_ _ _. None) demo_source ''job_custom_urls'' ?maps ?fks [] demo_target"
  have "\<not> isl ?r \<and> map (\<lambda>r. col r ''job_id'') (tg_rows (fst (projr ?r)) ''job_custom_urls'') = [Num 1]" by code_simp
  then obtain tg1 m where r: "?r = Inr (tg1, m)" "map (\<lambda>r. col r ''job_id'') (tg_rows tg1 ''job_custom_urls'') = [Num 1]"
    by (cases ?r) auto
  obtain rs where rs: "demo_source ''job_custom_urls'' = Some rs" by (simp add: demo_source_def)
  have ids: "map (\<lambda>r. col r ''id'') rs = [Num 4, Num 5]"
    using rs by (auto simp: demo_source_def col_def)
  have kept: "filter (resolvable ?fks [] ?maps) rs = [hd rs]"
    using rs by (auto simp: demo_source_def resolvable_def without_def col_def)
  have empty: "tg_rows demo_target ''job_custom_urls'' = []" by (simp add: demo_target_def)
  obtain news where "tg_rows tg1 = (tg_rows demo_target)(''job_custom_urls'' := tg_rows demo_target ''job_custom_urls'' @ news)"
      "list_all2 (\<lambda>r r1. m (col r ''id'') = Some (col r1 ''id'') \<and> same_row ?fks ?maps r r1) (filter (resolvable ?fks [] ?maps) rs) news"
    using copied_table_keeps_rows [OF r(1) rs] ids by (fastforce simp: NO_ID_def list_all_iff)
  moreover have "col (hd rs) ''id'' = Num 4" using ids by (cases rs) auto
  ultimately show ?thesis using r empty by (fastforce simp: kept list_all2_Cons1)
qed

end
