(* ===== verification/Fetch.thy ===== *)
theory Fetch
  imports Engine
begin

text \<open>
  Fetching a page (\<open>_throttle\<close>, \<open>_fetch\<close> and the heartbeat of \<open>agent/crawler/engine.py\<close>). What httpx and
  Playwright answer is an argument; times are in microseconds, and a sleep ends no earlier than asked.
\<close>

section \<open>Spacing of page visits\<close>

text \<open>
  One passage through the lock of a host: the clock when the lock is taken, by how much the sleep
  overshoots, and the table of the next free times. The answer is when the visit may start.
\<close>

definition throttle :: "int \<Rightarrow> string \<Rightarrow> int \<Rightarrow> nat \<Rightarrow> (string \<rightharpoonup> int) \<Rightarrow> (string \<rightharpoonup> int) \<times> int" where
  "throttle delay netloc now late domain_next =
     (let nxt = (case domain_next netloc of None \<Rightarrow> 0 | Some t \<Rightarrow> t);
          start = (if now < nxt then nxt + int late else now)
      in (domain_next(netloc \<mapsto> start + delay), start))"

text \<open>Passages in the order of the lock of each host; every one records its host and its start.\<close>

fun throttle_all :: "int \<Rightarrow> (string \<times> int \<times> nat) list \<Rightarrow> (string \<rightharpoonup> int) \<Rightarrow> (string \<times> int) list" where
  "throttle_all delay [] m = []"
| "throttle_all delay ((netloc, now, late) # ps) m =
     (case throttle delay netloc now late m of (m1, start) \<Rightarrow> (netloc, start) # throttle_all delay ps m1)"

section \<open>One page\<close>

datatype http_answer = Transport_error | Other_error | Response nat string string

record fetch_cfg =
  fc_httpx_first :: bool
  fc_playwright_fallback :: bool
  fc_js_indicators :: "string list"

definition needs_js :: "fetch_cfg \<Rightarrow> string \<Rightarrow> bool" where
  "needs_js fc html = list_ex (\<lambda>ind. py_contains html ind) (fc_js_indicators fc)"

text \<open>A response is accepted with status 200 and a final URL in scope, or without a host.\<close>

definition accepted :: "engine_cfg \<Rightarrow> http_answer \<Rightarrow> py_exn + string option" where
  "accepted cfg r =
     (case r of
        Response status url body \<Rightarrow>
          if status \<noteq> 200 then Inr None
          else
            (case url_netloc url of
               Inl x \<Rightarrow> Inl x
             | Inr final_netloc \<Rightarrow>
                 (case is_gov_domain cfg url of
                    Inl x \<Rightarrow> Inl x
                  | Inr b \<Rightarrow> Inr (if b \<or> final_netloc = [] then Some body else None)))
      | _ \<Rightarrow> Inr None)"

text \<open>One retry, after a transport error of the first attempt only.\<close>

definition fetch_httpx :: "engine_cfg \<Rightarrow> http_answer \<Rightarrow> http_answer \<Rightarrow> py_exn + string option" where
  "fetch_httpx cfg first second = accepted cfg (if first = Transport_error then second else first)"

text \<open>Playwright: a navigation that times out is retried once; any other failure of the page gives nothing.\<close>

datatype navigation = Loaded | Nav_timeout | Nav_failed

definition fetch_playwright :: "bool \<Rightarrow> navigation \<Rightarrow> navigation \<Rightarrow> string option \<Rightarrow> string option" where
  "fetch_playwright page_opened first second content =
     (if \<not> page_opened then None
      else
        (case (if first = Nav_timeout then second else first) of
           Loaded \<Rightarrow> content
         | _ \<Rightarrow> None))"

definition nonempty :: "string option \<Rightarrow> bool" where
  "nonempty v = (v \<noteq> None \<and> v \<noteq> Some [])"

definition fetch ::
  "engine_cfg \<Rightarrow> fetch_cfg \<Rightarrow> bool \<Rightarrow> http_answer \<Rightarrow> http_answer \<Rightarrow> string option \<Rightarrow> py_exn + string option" where
  "fetch cfg fc has_context first second by_browser =
     (case (if fc_httpx_first fc then fetch_httpx cfg first second else Inr None) of
        Inl x \<Rightarrow> Inl x
      | Inr html \<Rightarrow>
          if nonempty html \<and> \<not> needs_js fc (the html) then Inr html
          else if fc_playwright_fallback fc \<and> has_context \<and> nonempty by_browser then Inr by_browser
          else Inr html)"

section \<open>The heartbeat\<close>

definition metrics_snapshot :: "engine \<Rightarrow> int \<Rightarrow> crawl_metrics" where
  "metrics_snapshot en active_workers =
     \<lparr>cm_queued_urls = int (length (en_queue en)), cm_visited_urls = int (en_session_visited en),
      cm_skipped_urls = int (en_skipped en), cm_leads_found = int (en_leads_found en),
      cm_crawled_domains = int (en_crawled_domains en), cm_current_depth = int (en_max_depth_seen en),
      cm_active_workers = active_workers\<rparr>"

text \<open>The loop over the answers of the cloud: a failed beat is skipped, a cancel request ends the crawl.\<close>

fun reporter :: "(py_exn + bool) list \<Rightarrow> nat \<Rightarrow> nat \<times> bool" where
  "reporter [] sent = (sent, False)"
| "reporter (Inl x # answers) sent = reporter answers sent"
| "reporter (Inr cancel_requested # answers) sent =
     (if cancel_requested then (sent + 1, True) else reporter answers (sent + 1))"

section \<open>Properties\<close>

lemma throttle_all_after:
  "0 \<le> delay \<Longrightarrow> (h, s) \<in> set (throttle_all delay ps m) \<Longrightarrow> m h = Some t \<Longrightarrow> t \<le> s"
proof (induction ps arbitrary: m t)
  case (Cons p ps)
  obtain netloc now late where p: "p = (netloc, now, late)" by (cases p)
  obtain m1 s1 where th: "throttle delay netloc now late m = (m1, s1)" by fastforce
  have s1: "m1 = m(netloc \<mapsto> s1 + delay)" "netloc = h \<Longrightarrow> t \<le> s1"
    using th Cons.prems(3) by (auto simp: throttle_def Let_def)
  show ?case
  proof (cases "(h, s) \<in> set (throttle_all delay ps m1)")
    case True
    then have "(if h = netloc then s1 + delay else t) \<le> s"
      using Cons.IH [OF Cons.prems(1) True] s1(1) Cons.prems(3) by auto
    then show ?thesis using s1(2) Cons.prems(1) by (auto split: if_splits)
  next
    case False
    then show ?thesis using Cons.prems(2) s1(2) by (auto simp: p th)
  qed
qed simp

text \<open>C33.
  Visits of one host keep their distance. The passages through \<open>_throttle\<close>, one before the fetch of each
  page, start at least the delay apart for one host, in the order in which they take its lock, however the
  passages of other hosts lie between them and however long the sleeps overshoot. It is the visit that is
  spaced: the second attempt of httpx, the redirects it follows and the fallback to the browser send
  their requests within the visit, without another passage.
\<close>

theorem throttle_spaces_requests:
  assumes "0 \<le> delay"
  shows "sorted_wrt (\<lambda>a b. fst a \<noteq> fst b \<or> snd a + delay \<le> snd b) (throttle_all delay ps m)"
proof (induction ps arbitrary: m)
  case (Cons p ps)
  obtain netloc now late where p: "p = (netloc, now, late)" by (cases p)
  obtain m1 s1 where th: "throttle delay netloc now late m = (m1, s1)" by fastforce
  have m1: "m1 netloc = Some (s1 + delay)" using th by (auto simp: throttle_def Let_def)
  have "s1 + delay \<le> s" if "(netloc, s) \<in> set (throttle_all delay ps m1)" for s
    by (rule throttle_all_after [OF assms that m1])
  then show ?case using Cons.IH by (auto simp: p th)
qed simp

text \<open>
  Without the browser only a response with status 200 whose final URL is in scope is taken. With it the
  check is void: a page whose httpx response was refused, for its status or for a redirect out of
  scope, is taken as the browser shows it.
\<close>

theorem browser_bypasses_the_scope:
  assumes "fc_httpx_first fc" "nonempty by_browser"
  shows "fetch cfg fc True first second by_browser =
     (case fetch_httpx cfg first second of
        Inl x \<Rightarrow> Inl x
      | Inr None \<Rightarrow> Inr (if fc_playwright_fallback fc then by_browser else None)
      | Inr (Some html) \<Rightarrow>
          if fc_playwright_fallback fc \<and> (html = [] \<or> needs_js fc html) then Inr by_browser else Inr (Some html))"
  using assms by (auto simp: fetch_def nonempty_def split: sum.split option.split)
theorem throttle_spaces_requests_witness:
  "throttle_all 1500 [(''a.in'', 10, 0), (''b.in'', 11, 0), (''a.in'', 20, 7)] Map.empty = [(''a.in'', 10), (''b.in'', 11), (''a.in'', 1517)] \<and>
   sorted_wrt (\<lambda>a b. fst a \<noteq> fst b \<or> snd a + 1500 \<le> snd b)
     (throttle_all 1500 [(''a.in'', 10, 0), (''b.in'', 11, 0), (''a.in'', 20, 7)] Map.empty)"
proof
  show "throttle_all 1500 [(''a.in'', 10, 0), (''b.in'', 11, 0), (''a.in'', 20, 7)] Map.empty = [(''a.in'', 10), (''b.in'', 11), (''a.in'', 1517)]"
    by (simp add: throttle_def)
qed (rule throttle_spaces_requests, simp)

definition demo_fetch :: fetch_cfg where
  "demo_fetch = \<lparr>fc_httpx_first = True, fc_playwright_fallback = True, fc_js_indicators = [''enable'']\<rparr>"

definition demo_scope :: engine_cfg where
  "demo_scope = \<lparr>ec_priority_keywords = [], ec_skip_extensions = [], ec_target_suffixes = [''.gov.in''], ec_max_links_per_page = Map.empty,
     ec_max_depth = 3, ec_pagination = \<lparr>pg_enabled = False, pg_param_signals = None, pg_text_signals = None,
       pg_max_pagination_pages = JInt 50, pg_max_chain_children = JInt 100\<rparr>, ec_request_delay = 2\<rparr>"

theorem browser_bypasses_the_scope_witness:
  "fetch demo_scope demo_fetch True (Response 200 ''http://evil.example/'' ''x'') Other_error (Some ''shown'') = Inr (Some ''shown'')"
proof -
  have "fetch_httpx demo_scope (Response 200 ''http://evil.example/'' ''x'') Other_error = Inr None" by code_simp
  then show ?thesis
    using browser_bypasses_the_scope [of demo_fetch "Some ''shown''" demo_scope "Response 200 ''http://evil.example/'' ''x''" Other_error]
    by (simp add: demo_fetch_def nonempty_def)
qed

end
