(* ===== verification/Dedupe.thy ===== *)
theory Dedupe
  imports LeadPool Outreach
begin

text \<open>
  The schema revision that makes the email of a lead unique
  (\<open>alembic/versions/0028_dedupe_lead_email_global.py\<close>): leads that share an address are merged
  into one, which takes over their campaign emails and occurrences, before the constraint is
  created. The three tables it touches are kept in one state.
\<close>

section \<open>The revision\<close>

record lead_store =
  dd_leads :: "lead table"
  dd_occurrences :: "lead_occurrence table"
  dd_emails :: "campaign_email table"

type_synonym field_access = "(lead \<Rightarrow> string option) \<times> ((string option \<Rightarrow> string option) \<Rightarrow> lead \<Rightarrow> lead)"

definition MERGED_FIELDS :: "field_access list" where
  "MERGED_FIELDS =
     [(ld_person_name, ld_person_name_update), (ld_designation, ld_designation_update),
      (ld_department, ld_department_update), (ld_source_title, ld_source_title_update),
      (ld_context_snippet, ld_context_snippet_update), (ld_phone, ld_phone_update),
      (ld_entity_kind, ld_entity_kind_update)]"

text \<open>\<open>max\<close> with a key returns the first of the largest.\<close>

fun pick_max :: "lead \<Rightarrow> lead list \<Rightarrow> lead" where
  "pick_max best [] = best"
| "pick_max best (r # rs) =
     pick_max (if (band_rank (ld_confidence_band best), - int (ld_id best)) < (band_rank (ld_confidence_band r), - int (ld_id r))
               then r else best) rs"

definition pick_canonical :: "lead list \<Rightarrow> lead" where
  "pick_canonical rs = pick_max (hd rs) (tl rs)"

text \<open>The value of a field of the duplicate fills the field of the canonical row when that is blank.\<close>

definition fill_field :: "nat \<Rightarrow> lead \<Rightarrow> lead table \<Rightarrow> field_access \<Rightarrow> lead table" where
  "fill_field canonical dup t f =
     (if truthy (fst f dup)
      then update_where (\<lambda>l. ld_id l = canonical \<and> \<not> truthy (fst f l)) (snd f (\<lambda>_. fst f dup)) t
      else t)"

definition raise_band :: "lead \<Rightarrow> lead \<Rightarrow> lead table \<Rightarrow> lead table" where
  "raise_band canonical dup t =
     (if band_rank (ld_confidence_band canonical) < band_rank (ld_confidence_band dup)
      then update_where (\<lambda>l. ld_id l = ld_id canonical) (\<lambda>l. l\<lparr>ld_confidence_band := ld_confidence_band dup\<rparr>) t
      else t)"

text \<open>An occurrence of the duplicate is deleted when the canonical row has one of the job, else it moves.\<close>

definition move_occurrence :: "nat \<Rightarrow> lead_occurrence table \<Rightarrow> lead_occurrence \<Rightarrow> lead_occurrence table" where
  "move_occurrence canonical t occ =
     (if first_where (\<lambda>x. lo_lead_id x = canonical \<and> lo_job_id x = lo_job_id occ) t \<noteq> None
      then delete_where (\<lambda>x. lo_id x = lo_id occ) t
      else update_where (\<lambda>x. lo_id x = lo_id occ) (\<lambda>x. x\<lparr>lo_lead_id := canonical\<rparr>) t)"

definition merge_row :: "lead \<Rightarrow> lead_store \<Rightarrow> lead \<Rightarrow> lead_store" where
  "merge_row canonical st row =
     (let filled = raise_band canonical row (foldl (fill_field (ld_id canonical) row) (dd_leads st) MERGED_FIELDS);
          occ_rows = select_where (\<lambda>x. lo_lead_id x = ld_id row) (dd_occurrences st)
      in \<lparr>dd_leads = delete_where (\<lambda>l. ld_id l = ld_id row) filled,
          dd_occurrences = foldl (move_occurrence (ld_id canonical)) (dd_occurrences st) occ_rows,
          dd_emails = update_where (\<lambda>e. em_lead_id e = Some (ld_id row))
                        (\<lambda>e. e\<lparr>em_lead_id := Some (ld_id canonical)\<rparr>) (dd_emails st)\<rparr>)"

definition same_email :: "string \<Rightarrow> lead_store \<Rightarrow> lead list" where
  "same_email email st = select_where (\<lambda>l. ld_email l = email) (dd_leads st)"

definition merge_email :: "lead_store \<times> nat \<Rightarrow> string \<Rightarrow> lead_store \<times> nat" where
  "merge_email st_n email =
     (let rs = same_email email (fst st_n);
          canonical = pick_canonical rs;
          dups = filter (\<lambda>r. ld_id r \<noteq> ld_id canonical) rs
      in (foldl (merge_row canonical) (fst st_n) dups, snd st_n + length dups))"

text \<open>\<open>SELECT email FROM leads GROUP BY email HAVING COUNT(*) > 1\<close>.\<close>

definition dupe_emails :: "lead_store \<Rightarrow> string list" where
  "dupe_emails st =
     remdups (map ld_email (filter (\<lambda>l. 1 < length (same_email (ld_email l) st)) (rows (dd_leads st))))"

definition dedupe_leads :: "lead_store \<Rightarrow> lead_store \<times> nat" where
  "dedupe_leads st = foldl merge_email (st, 0) (dupe_emails st)"

text \<open>
  The schema as the tables it has and the unique constraints of \<open>leads\<close>; creating a constraint
  fails when the rows violate it.
\<close>

record schema =
  sc_has_leads :: bool
  sc_uniques :: "string set"

definition upgrade_0028 :: "schema \<times> lead_store \<Rightarrow> py_exn + (schema \<times> lead_store)" where
  "upgrade_0028 s =
     (let (sc, st) = s in
      if \<not> sc_has_leads sc then Inr s
      else
        (let st1 = fst (dedupe_leads st);
             kept = sc_uniques sc - {''uq_lead_job_email''}
         in if ''uq_lead_email'' \<in> sc_uniques sc then Inr (sc\<lparr>sc_uniques := kept\<rparr>, st1)
            else if \<not> distinct (map ld_email (rows (dd_leads st1))) then Inl IntegrityError
            else Inr (sc\<lparr>sc_uniques := insert ''uq_lead_email'' kept\<rparr>, st1)))"

definition downgrade_0028 :: "schema \<times> lead_store \<Rightarrow> py_exn + (schema \<times> lead_store)" where
  "downgrade_0028 s =
     (let (sc, st) = s in
      if \<not> sc_has_leads sc then Inr s
      else
        (let kept = sc_uniques sc - {''uq_lead_email''}
         in if ''uq_lead_job_email'' \<in> sc_uniques sc then Inr (sc\<lparr>sc_uniques := kept\<rparr>, st)
            else if \<not> distinct (map (\<lambda>l. (ld_job_id l, ld_email l)) (rows (dd_leads st))) then Inl IntegrityError
            else Inr (sc\<lparr>sc_uniques := insert ''uq_lead_job_email'' kept\<rparr>, st)))"

section \<open>What a merge keeps\<close>

text \<open>
  The three tables seen through the addresses of the leads: which address has an occurrence in
  which job, and which address each campaign email was written for.
\<close>

definition addr :: "lead_store \<Rightarrow> nat \<Rightarrow> string option" where
  "addr st = map_of (map (\<lambda>l. (ld_id l, ld_email l)) (rows (dd_leads st)))"

definition occ_view :: "lead_store \<Rightarrow> (string option \<times> nat) set" where
  "occ_view st = (\<lambda>x. (addr st (lo_lead_id x), lo_job_id x)) ` set (rows (dd_occurrences st))"

definition campaign_view :: "lead_store \<Rightarrow> (campaign_email \<times> string option) list" where
  "campaign_view st = map (\<lambda>e. (e\<lparr>em_lead_id := None\<rparr>, Option.bind (em_lead_id e) (addr st))) (rows (dd_emails st))"

definition store_ok :: "lead_store \<Rightarrow> bool" where
  "store_ok st =
     (distinct (map ld_id (rows (dd_leads st))) \<and> distinct (map lo_id (rows (dd_occurrences st))) \<and>
      distinct (map (\<lambda>x. (lo_lead_id x, lo_job_id x)) (rows (dd_occurrences st))))"

lemma addr_iff: "store_ok st \<Longrightarrow> addr st i = Some e \<longleftrightarrow> (\<exists>l \<in> set (rows (dd_leads st)). ld_id l = i \<and> ld_email l = e)"
  unfolding addr_def store_ok_def
  by (subst map_of_eq_Some_iff) (auto simp: comp_def)

text \<open>The lead that is left: the canonical one of its group, each merged field filled from the group.\<close>

definition unmerged :: "lead \<Rightarrow> lead" where
  "unmerged l = foldl (\<lambda>l f. snd f (\<lambda>_. None) l) l MERGED_FIELDS"

definition merged_from :: "lead list \<Rightarrow> lead \<Rightarrow> bool" where
  "merged_from grp l' =
     (\<exists>l \<in> set grp. unmerged l' = unmerged l \<and> list_all (\<lambda>x. band_rank (ld_confidence_band x) \<le> band_rank (ld_confidence_band l)) grp \<and>
        list_all (\<lambda>f. (truthy (fst f l') = list_ex (\<lambda>x. truthy (fst f x)) grp) \<and>
                      fst f l' \<in> fst f ` set grp \<and> (if truthy (fst f l) then fst f l' = fst f l else True)) MERGED_FIELDS)"

section \<open>One row\<close>

definition fill_from :: "lead \<Rightarrow> lead \<Rightarrow> lead" where
  "fill_from d l =
     foldl (\<lambda>l f. if truthy (fst f d) \<and> \<not> truthy (fst f l) then snd f (\<lambda>_. fst f d) l else l) l MERGED_FIELDS"

lemma fill_from_eq:
  "fill_from d l = l\<lparr>ld_person_name := fill (ld_person_name d) (ld_person_name l),
     ld_designation := fill (ld_designation d) (ld_designation l),
     ld_department := fill (ld_department d) (ld_department l),
     ld_source_title := fill (ld_source_title d) (ld_source_title l),
     ld_context_snippet := fill (ld_context_snippet d) (ld_context_snippet l),
     ld_phone := fill (ld_phone d) (ld_phone l),
     ld_entity_kind := fill (ld_entity_kind d) (ld_entity_kind l)\<rparr>"
proof -
  have "(if truthy (fst f d) \<and> \<not> truthy (fst f l) then snd f (\<lambda>_. fst f d) l else l) = snd f (fill (fst f d)) l"
    if "f \<in> set MERGED_FIELDS" for f l
    using that by (cases l) (auto simp: MERGED_FIELDS_def fill_def fills_def)
  then have "fill_from d l = foldl (\<lambda>l f. snd f (fill (fst f d)) l) l MERGED_FIELDS"
    unfolding fill_from_def by (intro foldl_cong) auto
  then show ?thesis by (cases l) (simp add: MERGED_FIELDS_def)
qed

lemma fill_from_id [simp]: "ld_id (fill_from d l) = ld_id l" "ld_email (fill_from d l) = ld_email l"
  "ld_confidence_band (fill_from d l) = ld_confidence_band l"
  by (simp_all add: fill_from_eq)

lemma fill_from_unmerged [simp]: "unmerged (fill_from d l) = unmerged l"
  by (simp add: unmerged_def MERGED_FIELDS_def fill_from_eq)

lemma fill_from_field: "f \<in> set MERGED_FIELDS \<Longrightarrow> fst f (fill_from d l) = fill (fst f d) (fst f l)"
  by (auto simp: MERGED_FIELDS_def fill_from_eq)

lemma truthy_fill: "truthy (fill v old) \<longleftrightarrow> truthy v \<or> truthy old" "truthy old \<Longrightarrow> fill v old = old" "fill v old \<in> {v, old}"
  by (auto simp: fill_def fills_def)

definition fill_all :: "lead list \<Rightarrow> lead \<Rightarrow> lead" where
  "fill_all ds l = foldl (\<lambda>l d. fill_from d l) l ds"

lemma fill_all_simps [simp]: "fill_all [] l = l" "fill_all (d # ds) l = fill_all ds (fill_from d l)"
  by (simp_all add: fill_all_def)

lemma fill_all_id [simp]: "ld_id (fill_all ds l) = ld_id l" "ld_email (fill_all ds l) = ld_email l" "unmerged (fill_all ds l) = unmerged l"
  by (induction ds arbitrary: l) simp_all

lemma fill_all_field:
  assumes "f \<in> set MERGED_FIELDS"
  shows "truthy (fst f (fill_all ds l)) \<longleftrightarrow> truthy (fst f l) \<or> list_ex (\<lambda>x. truthy (fst f x)) ds"
    and "truthy (fst f l) \<Longrightarrow> fst f (fill_all ds l) = fst f l"
    and "fst f (fill_all ds l) \<in> fst f ` set (l # ds)"
proof -
  show "truthy (fst f (fill_all ds l)) \<longleftrightarrow> truthy (fst f l) \<or> list_ex (\<lambda>x. truthy (fst f x)) ds"
    by (induction ds arbitrary: l) (auto simp: fill_from_field [OF assms] truthy_fill)
  show "truthy (fst f l) \<Longrightarrow> fst f (fill_all ds l) = fst f l"
    by (induction ds arbitrary: l) (auto simp: fill_from_field [OF assms] truthy_fill)
  show "fst f (fill_all ds l) \<in> fst f ` set (l # ds)"
  proof (induction ds arbitrary: l)
    case (Cons d ds)
    have "fst f (fill_from d l) \<in> {fst f d, fst f l}"
      unfolding fill_from_field [OF assms] by (rule truthy_fill)
    with Cons [of "fill_from d l"] show ?case by auto
  qed simp
qed

lemma merged_fields_keep_id: "f \<in> set MERGED_FIELDS \<Longrightarrow> ld_id (snd f h l) = ld_id l"
  by (auto simp: MERGED_FIELDS_def)

lemma rows_fill_fields:
  assumes "\<And>f h l. f \<in> set fs \<Longrightarrow> ld_id (snd f h l) = ld_id l"
  shows "rows (foldl (fill_field c d) t fs) =
    map (\<lambda>l. if ld_id l = c
             then foldl (\<lambda>l f. if truthy (fst f d) \<and> \<not> truthy (fst f l) then snd f (\<lambda>_. fst f d) l else l) l fs else l) (rows t)"
  using assms
proof (induction fs arbitrary: t)
  case (Cons f fs)
  have "rows (fill_field c d t f) =
      map (\<lambda>l. if ld_id l = c then (if truthy (fst f d) \<and> \<not> truthy (fst f l) then snd f (\<lambda>_. fst f d) l else l) else l) (rows t)"
    by (cases "truthy (fst f d)") (simp_all add: fill_field_def table_simps cong: if_cong)
  with Cons show ?case by (auto simp: Cons.prems)
qed (simp cong: if_cong)

lemma rows_merge_leads:
  assumes "band_rank (ld_confidence_band d) \<le> band_rank (ld_confidence_band c)"
  shows "rows (dd_leads (merge_row c st d)) =
    map (\<lambda>l. if ld_id l = ld_id c then fill_from d l else l) (filter (\<lambda>l. ld_id l \<noteq> ld_id d) (rows (dd_leads st)))"
proof -
  have fill: "rows (foldl (fill_field (ld_id c) d) t MERGED_FIELDS) = map (\<lambda>l. if ld_id l = ld_id c then fill_from d l else l) (rows t)" for t
    unfolding fill_from_def by (rule rows_fill_fields [OF merged_fields_keep_id])
  have "rows (dd_leads (merge_row c st d)) = filter (\<lambda>l. ld_id l \<noteq> ld_id d)
      (map (\<lambda>l. if ld_id l = ld_id c then fill_from d l else l) (rows (dd_leads st)))"
    using assms by (simp add: merge_row_def Let_def raise_band_def table_simps fill)
  also have "\<dots> = map (\<lambda>l. if ld_id l = ld_id c then fill_from d l else l) (filter (\<lambda>l. ld_id l \<noteq> ld_id d) (rows (dd_leads st)))"
    by (simp add: filter_map comp_def) (rule arg_cong [where f = "map _"], rule filter_cong, auto)
  finally show ?thesis .
qed

section \<open>The occurrences of one row\<close>

definition moved :: "nat \<Rightarrow> nat \<Rightarrow> nat \<Rightarrow> nat" where
  "moved c d i = (if i = d then c else i)"

definition occ_pairs :: "nat \<Rightarrow> nat \<Rightarrow> lead_occurrence table \<Rightarrow> (nat \<times> nat) set" where
  "occ_pairs c d t = (\<lambda>x. (moved c d (lo_lead_id x), lo_job_id x)) ` set (rows t)"

definition occs_ok :: "lead_occurrence table \<Rightarrow> bool" where
  "occs_ok t = (distinct (map lo_id (rows t)) \<and> distinct (map (\<lambda>x. (lo_lead_id x, lo_job_id x)) (rows t)))"

text \<open>One occurrence leaves the duplicate; the pairs of canonical lead and job stay what they are.\<close>

lemma move_occurrence_step:
  assumes ok: "occs_ok t" and occ: "occ \<in> set (rows t)" "lo_lead_id occ = d" and "c \<noteq> d"
  shows "occs_ok (move_occurrence c t occ)" "occ_pairs c d (move_occurrence c t occ) = occ_pairs c d t"
    "filter (\<lambda>x. lo_lead_id x = d) (rows (move_occurrence c t occ)) =
       filter (\<lambda>x. lo_id x \<noteq> lo_id occ) (filter (\<lambda>x. lo_lead_id x = d) (rows t))"
proof -
  have only: "x = occ" if "x \<in> set (rows t)" "lo_id x = lo_id occ" for x
    using ok occ(1) that by (auto simp: occs_ok_def distinct_map dest: inj_onD)
  consider (dup) y where "y \<in> set (rows t)" "lo_lead_id y = c" "lo_job_id y = lo_job_id occ"
      and "move_occurrence c t occ = delete_where (\<lambda>x. lo_id x = lo_id occ) t"
    | (free) "\<forall>x \<in> set (rows t). \<not> (lo_lead_id x = c \<and> lo_job_id x = lo_job_id occ)"
      and "move_occurrence c t occ = update_where (\<lambda>x. lo_id x = lo_id occ) (\<lambda>x. x\<lparr>lo_lead_id := c\<rparr>) t"
    by (cases "first_where (\<lambda>x. lo_lead_id x = c \<and> lo_job_id x = lo_job_id occ) t")
      (auto simp: move_occurrence_def first_where_None_iff dest: first_where_SomeD)
  note cases = this
  show "occs_ok (move_occurrence c t occ)"
  proof (cases rule: cases)
    case (dup y)
    then show ?thesis using ok by (auto simp: occs_ok_def table_simps distinct_map intro: inj_on_subset)
  next
    case free
    have "lo_id \<circ> (\<lambda>x. if lo_id x = lo_id occ then x\<lparr>lo_lead_id := c\<rparr> else x) = lo_id" by auto
    moreover have "inj_on (\<lambda>x. (lo_lead_id (if lo_id x = lo_id occ then x\<lparr>lo_lead_id := c\<rparr> else x), lo_job_id x)) (set (rows t))"
    proof (rule inj_onI)
      fix x y
      assume xy: "x \<in> set (rows t)" "y \<in> set (rows t)"
        "(lo_lead_id (if lo_id x = lo_id occ then x\<lparr>lo_lead_id := c\<rparr> else x), lo_job_id x) =
         (lo_lead_id (if lo_id y = lo_id occ then y\<lparr>lo_lead_id := c\<rparr> else y), lo_job_id y)"
      have inj: "inj_on (\<lambda>x. (lo_lead_id x, lo_job_id x)) (set (rows t))" using ok by (simp add: occs_ok_def distinct_map)
      show "x = y"
        using xy free(1) only [OF xy(1)] only [OF xy(2)] inj_onD [OF inj, of x y]
        by (cases "lo_id x = lo_id occ"; cases "lo_id y = lo_id occ") auto
    qed
    ultimately show ?thesis
      using ok free(2) by (auto simp: occs_ok_def table_simps distinct_map comp_def inj_on_def)
  qed
  show "occ_pairs c d (move_occurrence c t occ) = occ_pairs c d t"
  proof (cases rule: cases)
    case (dup y)
    have "lo_id y \<noteq> lo_id occ" using only [OF dup(1)] dup(2) occ(2) assms(4) by auto
    then show ?thesis
      unfolding occ_pairs_def dup(4) using dup(1-3) only occ assms(4)
      by (auto simp: table_simps moved_def image_iff) (metis (full_types))+
  next
    case free
    show ?thesis
      unfolding occ_pairs_def free(2) rows_update_where set_map image_image
      by (rule image_cong) (use only occ in \<open>auto simp: moved_def\<close>)
  qed
  show "filter (\<lambda>x. lo_lead_id x = d) (rows (move_occurrence c t occ)) =
       filter (\<lambda>x. lo_id x \<noteq> lo_id occ) (filter (\<lambda>x. lo_lead_id x = d) (rows t))"
  proof (cases rule: cases)
    case (dup y)
    then show ?thesis by (auto simp: table_simps intro: filter_cong)
  next
    case free
    have "filter (\<lambda>x. lo_lead_id x = d) (map (\<lambda>x. if lo_id x = lo_id occ then x\<lparr>lo_lead_id := c\<rparr> else x) xs) =
        filter (\<lambda>x. lo_lead_id x = d \<and> lo_id x \<noteq> lo_id occ) xs" for xs
      using assms(4) by (induction xs) auto
    then show ?thesis by (simp add: free(2) table_simps)
  qed
qed

lemma move_occurrences:
  assumes "occs_ok t" "filter (\<lambda>x. lo_lead_id x = d) (rows t) = occs" "c \<noteq> d"
  shows "occs_ok (foldl (move_occurrence c) t occs) \<and> occ_pairs c d (foldl (move_occurrence c) t occs) = occ_pairs c d t \<and>
    (\<forall>x \<in> set (rows (foldl (move_occurrence c) t occs)). lo_lead_id x \<noteq> d)"
  using assms(1,2)
proof (induction occs arbitrary: t)
  case Nil
  then show ?case by (auto simp: filter_empty_conv)
next
  case (Cons o1 occs)
  have o1: "o1 \<in> set (rows t)" "lo_lead_id o1 = d"
    using arg_cong [OF Cons.prems(2), of set] by auto
  note step = move_occurrence_step [OF Cons.prems(1) o1 assms(3)]
  have "distinct (map lo_id (filter (\<lambda>x. lo_lead_id x = d) (rows t)))"
    using Cons.prems(1) by (simp add: occs_ok_def distinct_map_filter)
  then have "filter (\<lambda>x. lo_id x \<noteq> lo_id o1) (o1 # occs) = occs"
    unfolding Cons.prems(2) by (auto simp: filter_id_conv) (metis image_eqI)
  with step(3) Cons.prems(2) have "filter (\<lambda>x. lo_lead_id x = d) (rows (move_occurrence c t o1)) = occs" by simp
  from Cons.IH [OF step(1) this] step(2) show ?case by simp
qed

section \<open>A row, a group, all groups\<close>

lemma merge_row_step:
  assumes ok: "store_ok st" and ids: "addr st (ld_id c) = Some e" "addr st (ld_id d) = Some e" "ld_id c \<noteq> ld_id d"
    and band: "band_rank (ld_confidence_band d) \<le> band_rank (ld_confidence_band c)"
  shows "store_ok (merge_row c st d)" "addr (merge_row c st d) = (addr st)(ld_id d := None)"
    "occ_view (merge_row c st d) = occ_view st" "campaign_view (merge_row c st d) = campaign_view st"
proof -
  let ?st = "merge_row c st d"
  note lead_rows = rows_merge_leads [OF band, of st]
  have occ_rows: "dd_occurrences ?st =
      foldl (move_occurrence (ld_id c)) (dd_occurrences st) (filter (\<lambda>x. lo_lead_id x = ld_id d) (rows (dd_occurrences st)))"
    by (simp add: merge_row_def Let_def select_where_def)
  have mail_rows: "rows (dd_emails ?st) =
      map (\<lambda>e. if em_lead_id e = Some (ld_id d) then e\<lparr>em_lead_id := Some (ld_id c)\<rparr> else e) (rows (dd_emails st))"
    by (simp add: merge_row_def Let_def table_simps)
  have "occs_ok (dd_occurrences st)" using ok by (simp add: store_ok_def occs_ok_def)
  note occs = move_occurrences [OF this refl ids(3), folded occ_rows]
  have "map ld_id (rows (dd_leads ?st)) = map ld_id (filter (\<lambda>l. ld_id l \<noteq> ld_id d) (rows (dd_leads st)))"
    by (simp add: lead_rows)
  then show ok': "store_ok ?st"
    using ok occs by (simp add: store_ok_def occs_ok_def distinct_map_filter)
  have "map (\<lambda>l. (ld_id l, ld_email l)) (rows (dd_leads ?st)) =
      filter (\<lambda>(i, m). i \<noteq> ld_id d) (map (\<lambda>l. (ld_id l, ld_email l)) (rows (dd_leads st)))"
    by (simp add: lead_rows filter_map comp_def)
  moreover have "map_of (filter (\<lambda>(i, m). i \<noteq> k) kvs) = (map_of kvs)(k := None)" for k :: nat and kvs :: "(nat \<times> string) list"
    by (induction kvs) auto
  ultimately show addr: "addr ?st = (addr st)(ld_id d := None)" by (simp add: addr_def)
  have moved_addr: "addr ?st (moved (ld_id c) (ld_id d) i) = addr st i" for i
    using ids by (simp add: addr moved_def)
  have "occ_view ?st = (\<lambda>(i, j). (addr ?st i, j)) ` occ_pairs (ld_id c) (ld_id d) (dd_occurrences ?st)"
    unfolding occ_view_def occ_pairs_def image_image prod.case
    by (rule image_cong) (use occs in \<open>auto simp: moved_def\<close>)
  also have "\<dots> = (\<lambda>(i, j). (addr ?st i, j)) ` occ_pairs (ld_id c) (ld_id d) (dd_occurrences st)"
    using occs by simp
  also have "\<dots> = occ_view st"
    by (simp add: occ_pairs_def occ_view_def image_image moved_addr)
  finally show "occ_view ?st = occ_view st" .
  show "campaign_view ?st = campaign_view st"
    unfolding campaign_view_def mail_rows map_map comp_def addr
    by (rule map_cong [OF refl]) (use ids in \<open>auto split: Option.bind_split\<close>)
qed

lemma merge_rows:
  assumes "store_ok st" "addr st (ld_id c) = Some e" "distinct (map ld_id ds)"
    and "\<And>d. d \<in> set ds \<Longrightarrow> addr st (ld_id d) = Some e \<and> ld_id d \<noteq> ld_id c \<and>
           band_rank (ld_confidence_band d) \<le> band_rank (ld_confidence_band c)"
  shows "store_ok (foldl (merge_row c) st ds) \<and> occ_view (foldl (merge_row c) st ds) = occ_view st \<and>
    campaign_view (foldl (merge_row c) st ds) = campaign_view st \<and>
    rows (dd_leads (foldl (merge_row c) st ds)) =
      map (\<lambda>l. if ld_id l = ld_id c then fill_all ds l else l)
        (filter (\<lambda>l. ld_id l \<notin> ld_id ` set ds) (rows (dd_leads st)))"
  using assms
proof (induction ds arbitrary: st)
  case Nil
  then show ?case by (simp add: map_idI)
next
  case (Cons d ds)
  have d: "addr st (ld_id d) = Some e" "ld_id c \<noteq> ld_id d" "band_rank (ld_confidence_band d) \<le> band_rank (ld_confidence_band c)"
    using Cons.prems(4) [of d] by auto
  note step = merge_row_step [OF Cons.prems(1,2) d]
  have "addr (merge_row c st d) (ld_id c) = Some e" using Cons.prems(2) d(2) by (simp add: step(2))
  moreover have "addr (merge_row c st d) (ld_id x) = Some e \<and> ld_id x \<noteq> ld_id c \<and>
      band_rank (ld_confidence_band x) \<le> band_rank (ld_confidence_band c)" if "x \<in> set ds" for x
    using Cons.prems(3) Cons.prems(4) [of x] that by (auto simp: step(2) image_iff)
  ultimately have IH: "store_ok (foldl (merge_row c) (merge_row c st d) ds) \<and>
      occ_view (foldl (merge_row c) (merge_row c st d) ds) = occ_view (merge_row c st d) \<and>
      campaign_view (foldl (merge_row c) (merge_row c st d) ds) = campaign_view (merge_row c st d) \<and>
      rows (dd_leads (foldl (merge_row c) (merge_row c st d) ds)) =
        map (\<lambda>l. if ld_id l = ld_id c then fill_all ds l else l)
          (filter (\<lambda>l. ld_id l \<notin> ld_id ` set ds) (rows (dd_leads (merge_row c st d))))"
    using Cons.prems(3) by (intro Cons.IH [OF step(1)]) auto
  have "map (\<lambda>l. if ld_id l = ld_id c then fill_all ds l else l)
          (filter (\<lambda>l. ld_id l \<notin> ld_id ` set ds) (rows (dd_leads (merge_row c st d)))) =
        map (\<lambda>l. if ld_id l = ld_id c then fill_all (d # ds) l else l)
          (filter (\<lambda>l. ld_id l \<notin> ld_id ` set (d # ds)) (rows (dd_leads st)))"
  proof -
    have id_eq: "ld_id (if ld_id l = ld_id c then fill_from d l else l) = ld_id l" for l by simp
    show ?thesis
      unfolding rows_merge_leads [OF d(3)] filter_map comp_def id_eq map_map filter_filter
      by (intro map_cong filter_cong) auto
  qed
  with IH step show ?case by simp
qed

lemma pick_max_props:
  "pick_max b rs \<in> insert b (set rs) \<and>
   (\<forall>r \<in> insert b (set rs). band_rank (ld_confidence_band r) \<le> band_rank (ld_confidence_band (pick_max b rs)))"
proof (induction b rs rule: pick_max.induct)
  case (2 best r rs)
  define new where "new = (if (band_rank (ld_confidence_band best), - int (ld_id best)) < (band_rank (ld_confidence_band r), - int (ld_id r)) then r else best)"
  have IH: "pick_max new rs \<in> insert new (set rs)"
    "\<And>x. x \<in> insert new (set rs) \<Longrightarrow> band_rank (ld_confidence_band x) \<le> band_rank (ld_confidence_band (pick_max new rs))"
    using 2 unfolding new_def by blast+
  have "new \<in> {best, r}" "band_rank (ld_confidence_band best) \<le> band_rank (ld_confidence_band new)"
    "band_rank (ld_confidence_band r) \<le> band_rank (ld_confidence_band new)"
    by (auto simp: new_def less_prod_def)
  moreover have "pick_max best (r # rs) = pick_max new rs" by (simp add: new_def)
  ultimately show ?case using IH by (auto intro: order_trans)
qed simp

lemma pick_canonical_props:
  assumes "rs \<noteq> []"
  shows "pick_canonical rs \<in> set rs" "r \<in> set rs \<Longrightarrow> band_rank (ld_confidence_band r) \<le> band_rank (ld_confidence_band (pick_canonical rs))"
proof -
  obtain b bs where "rs = b # bs" using assms by (cases rs) auto
  then show "pick_canonical rs \<in> set rs"
    "r \<in> set rs \<Longrightarrow> band_rank (ld_confidence_band r) \<le> band_rank (ld_confidence_band (pick_canonical rs))"
    using pick_max_props [of b bs] unfolding pick_canonical_def by auto
qed

lemma filter_eq_single: "distinct xs \<Longrightarrow> c \<in> set xs \<Longrightarrow> filter (\<lambda>l. l = c) xs = [c]"
  by (induction xs) (auto simp: filter_empty_conv)

lemma merge_email_step:
  assumes ok: "store_ok st" and some: "same_email e st \<noteq> []"
  shows "store_ok (fst (merge_email (st, n) e))" "occ_view (fst (merge_email (st, n) e)) = occ_view st"
    "campaign_view (fst (merge_email (st, n) e)) = campaign_view st"
    "length (rows (dd_leads (fst (merge_email (st, n) e)))) + snd (merge_email (st, n) e) = length (rows (dd_leads st)) + n"
    "\<exists>l'. same_email e (fst (merge_email (st, n) e)) = [l'] \<and> merged_from (same_email e st) l'"
    "e' \<noteq> e \<Longrightarrow> same_email e' (fst (merge_email (st, n) e)) = same_email e' st"
proof -
  define rs c where "rs = same_email e st" and "c = pick_canonical rs"
  define ds where "ds = filter (\<lambda>r. ld_id r \<noteq> ld_id c) rs"
  have rs: "rs = filter (\<lambda>l. ld_email l = e) (rows (dd_leads st))" by (simp add: rs_def same_email_def select_where_def)
  have out: "merge_email (st, n) e = (foldl (merge_row c) st ds, n + length ds)"
    by (simp add: merge_email_def Let_def rs_def c_def ds_def)
  have ne: "rs \<noteq> []" using some by (simp add: rs_def)
  have c: "c \<in> set rs" using pick_canonical_props(1) [OF ne] by (simp add: c_def)
  have only: "x = y" if "x \<in> set (rows (dd_leads st))" "y \<in> set (rows (dd_leads st))" "ld_id x = ld_id y" for x y
    using ok that by (auto simp: store_ok_def distinct_map dest: inj_onD)
  have dist: "distinct (map ld_id ds)" using ok by (simp add: store_ok_def ds_def rs distinct_map_filter)
  have "addr st (ld_id c) = Some e" using c by (auto simp: addr_iff [OF ok] rs)
  moreover have "addr st (ld_id d) = Some e \<and> ld_id d \<noteq> ld_id c \<and>
      band_rank (ld_confidence_band d) \<le> band_rank (ld_confidence_band c)" if "d \<in> set ds" for d
    using that pick_canonical_props(2) [OF ne, of d] by (auto simp: addr_iff [OF ok] ds_def rs c_def)
  ultimately have fold: "store_ok (foldl (merge_row c) st ds) \<and> occ_view (foldl (merge_row c) st ds) = occ_view st \<and>
    campaign_view (foldl (merge_row c) st ds) = campaign_view st \<and>
    rows (dd_leads (foldl (merge_row c) st ds)) =
      map (\<lambda>l. if ld_id l = ld_id c then fill_all ds l else l)
        (filter (\<lambda>l. ld_id l \<notin> ld_id ` set ds) (rows (dd_leads st)))"
    by (intro merge_rows [OF ok _ dist]) auto
  show "store_ok (fst (merge_email (st, n) e))" "occ_view (fst (merge_email (st, n) e)) = occ_view st"
    "campaign_view (fst (merge_email (st, n) e)) = campaign_view st"
    using fold by (simp_all add: out)
  have out_ids: "ld_id l \<in> ld_id ` set ds \<longleftrightarrow> ld_email l = e \<and> ld_id l \<noteq> ld_id c" if "l \<in> set (rows (dd_leads st))" for l
    using that by (auto simp: ds_def rs image_iff) (metis only)+
  have "filter (\<lambda>l. \<not> ld_id l \<notin> ld_id ` set ds) (rows (dd_leads st)) = ds"
  proof -
    have "filter (\<lambda>l. \<not> ld_id l \<notin> ld_id ` set ds) (rows (dd_leads st)) =
        filter (\<lambda>l. ld_email l = e \<and> ld_id l \<noteq> ld_id c) (rows (dd_leads st))"
      by (rule filter_cong) (simp_all add: out_ids)
    also have "\<dots> = ds" by (simp add: ds_def rs)
    finally show ?thesis .
  qed
  then have "length (filter (\<lambda>l. ld_id l \<notin> ld_id ` set ds) (rows (dd_leads st))) + length ds = length (rows (dd_leads st))"
    using sum_length_filter_compl [of "\<lambda>l. ld_id l \<notin> ld_id ` set ds" "rows (dd_leads st)"] by simp
  then show "length (rows (dd_leads (fst (merge_email (st, n) e)))) + snd (merge_email (st, n) e) = length (rows (dd_leads st)) + n"
    using fold by (simp add: out)
  have grp: "same_email m (fst (merge_email (st, n) e)) =
      map (\<lambda>l. if ld_id l = ld_id c then fill_all ds l else l)
        (filter (\<lambda>l. ld_email l = m \<and> (ld_email l = e \<longrightarrow> ld_id l = ld_id c)) (rows (dd_leads st)))" for m
    using fold by (simp add: out same_email_def select_where_def filter_map comp_def if_distrib [of ld_email] cong: if_cong)
      (rule arg_cong [where f = "map _"], rule filter_cong, auto simp: out_ids)
  show "same_email e' (fst (merge_email (st, n) e)) = same_email e' st" if "e' \<noteq> e"
  proof -
    have "ld_id l \<noteq> ld_id c" if "l \<in> set (rows (dd_leads st))" "ld_email l = e'" for l
      using that \<open>e' \<noteq> e\<close> c only by (auto simp: rs)
    moreover have "filter (\<lambda>l. ld_email l = e' \<and> (ld_email l = e \<longrightarrow> ld_id l = ld_id c)) (rows (dd_leads st)) =
        filter (\<lambda>l. ld_email l = e') (rows (dd_leads st))"
      by (rule filter_cong) (use that in auto)
    ultimately show ?thesis unfolding grp by (auto simp: same_email_def select_where_def intro!: map_idI)
  qed
  have "filter (\<lambda>l. ld_email l = e \<and> (ld_email l = e \<longrightarrow> ld_id l = ld_id c)) (rows (dd_leads st)) = [c]"
  proof -
    have "c \<in> set (rows (dd_leads st))" "ld_email c = e" using c by (auto simp: rs)
    moreover have "distinct (rows (dd_leads st))" using ok by (auto simp: store_ok_def distinct_map)
    ultimately have "filter (\<lambda>l. l = c) (rows (dd_leads st)) = [c]"
      by (intro filter_eq_single) auto
    moreover have "filter (\<lambda>l. ld_email l = e \<and> (ld_email l = e \<longrightarrow> ld_id l = ld_id c)) (rows (dd_leads st)) = filter (\<lambda>l. l = c) (rows (dd_leads st))"
      by (rule filter_cong [OF refl]) (metis only \<open>ld_email c = e\<close> \<open>c \<in> set (rows (dd_leads st))\<close>)
    ultimately show ?thesis by simp
  qed
  then have single: "same_email e (fst (merge_email (st, n) e)) = [fill_all ds c]" by (simp add: grp)
  have set_rs: "set rs = insert c (set ds)" using c only by (auto simp: ds_def rs)
  have "merged_from rs (fill_all ds c)"
    unfolding merged_from_def
  proof (intro bexI [OF _ c] conjI)
    show "list_all (\<lambda>x. band_rank (ld_confidence_band x) \<le> band_rank (ld_confidence_band c)) rs"
      using pick_canonical_props(2) [OF ne] by (auto simp: list_all_iff c_def)
    show "list_all (\<lambda>f. truthy (fst f (fill_all ds c)) = list_ex (\<lambda>x. truthy (fst f x)) rs \<and>
        fst f (fill_all ds c) \<in> fst f ` set rs \<and> (if truthy (fst f c) then fst f (fill_all ds c) = fst f c else True)) MERGED_FIELDS"
      using fill_all_field [where ds = ds and l = c] by (auto simp: list_all_iff list_ex_iff set_rs simp del: image_insert insert_iff)
  qed simp
  with single show "\<exists>l'. same_email e (fst (merge_email (st, n) e)) = [l'] \<and> merged_from (same_email e st) l'"
    by (simp add: rs_def)
qed

lemma merge_emails:
  assumes "store_ok st" "distinct es" "\<forall>e \<in> set es. same_email e st \<noteq> []"
  shows "\<exists>st' n'. foldl merge_email (st, n) es = (st', n') \<and> store_ok st' \<and> occ_view st' = occ_view st \<and>
    campaign_view st' = campaign_view st \<and> length (rows (dd_leads st')) + n' = length (rows (dd_leads st)) + n \<and>
    (\<forall>e. if e \<in> set es then \<exists>l'. same_email e st' = [l'] \<and> merged_from (same_email e st) l'
         else same_email e st' = same_email e st)"
  using assms
proof (induction es arbitrary: st n)
  case (Cons e es)
  obtain st1 n1 where out: "merge_email (st, n) e = (st1, n1)" by fastforce
  have some: "same_email e st \<noteq> []" using Cons.prems(3) by simp
  note step = merge_email_step [OF Cons.prems(1) some, where n = n, unfolded out fst_conv snd_conv]
  have "same_email m st1 = same_email m st" if "m \<in> set es" for m
    using step(6) [where e' = m] that Cons.prems(2) by auto
  then have "\<forall>m \<in> set es. same_email m st1 \<noteq> []" using Cons.prems(3) by simp
  with Cons.prems(2) obtain st' n' where IH: "foldl merge_email (st1, n1) es = (st', n') \<and> store_ok st' \<and>
      occ_view st' = occ_view st1 \<and> campaign_view st' = campaign_view st1 \<and>
      length (rows (dd_leads st')) + n' = length (rows (dd_leads st1)) + n1 \<and>
      (\<forall>e. if e \<in> set es then \<exists>l'. same_email e st' = [l'] \<and> merged_from (same_email e st1) l'
           else same_email e st' = same_email e st1)"
    using Cons.IH [OF step(1), of n1] by auto
  have "if m \<in> set (e # es) then \<exists>l'. same_email m st' = [l'] \<and> merged_from (same_email m st) l'
         else same_email m st' = same_email m st" for m
  proof (cases "m = e")
    case True
    then show ?thesis using IH step(5) Cons.prems(2) by (metis distinct.simps(2) list.set_intros(1))
  next
    case False
    then show ?thesis using IH step(6) [where e' = m, OF False] by (metis set_ConsD list.set_intros(2))
  qed
  with IH step show ?case by (simp add: out)
qed simp

lemma merged_from_single: "merged_from [l] l"
  by (simp add: merged_from_def list_all_iff)

lemma set_dupe_emails: "set (dupe_emails st) = {e. 1 < length (same_email e st)}"
proof -
  have "\<exists>l \<in> set (rows (dd_leads st)). ld_email l = e" if "1 < length (same_email e st)" for e
  proof -
    obtain l where "l \<in> set (same_email e st)" using \<open>1 < length (same_email e st)\<close> by (cases "same_email e st") auto
    then show ?thesis by (auto simp: same_email_def select_where_def)
  qed
  then show ?thesis by (auto simp: dupe_emails_def)
qed

lemma dedupe_leads_props:
  assumes "store_ok st"
  shows "\<exists>st' n. dedupe_leads st = (st', n) \<and> store_ok st' \<and> occ_view st' = occ_view st \<and>
    campaign_view st' = campaign_view st \<and> length (rows (dd_leads st')) + n = length (rows (dd_leads st)) \<and>
    (\<forall>e. case same_email e st of [] \<Rightarrow> same_email e st' = []
         | l # ls \<Rightarrow> \<exists>l'. same_email e st' = [l'] \<and> merged_from (l # ls) l')"
proof -
  have "\<forall>e \<in> set (dupe_emails st). same_email e st \<noteq> []" unfolding set_dupe_emails by auto
  moreover have "distinct (dupe_emails st)" by (simp add: dupe_emails_def)
  ultimately obtain st' n where fold: "foldl merge_email (st, 0) (dupe_emails st) = (st', n) \<and> store_ok st' \<and>
      occ_view st' = occ_view st \<and> campaign_view st' = campaign_view st \<and>
      length (rows (dd_leads st')) + n = length (rows (dd_leads st)) + 0 \<and>
      (\<forall>e. if e \<in> set (dupe_emails st) then \<exists>l'. same_email e st' = [l'] \<and> merged_from (same_email e st) l'
           else same_email e st' = same_email e st)"
    using merge_emails [OF assms, of "dupe_emails st" 0] by blast
  have "case same_email e st of [] \<Rightarrow> same_email e st' = []
         | l # ls \<Rightarrow> \<exists>l'. same_email e st' = [l'] \<and> merged_from (l # ls) l'" for e
  proof (cases "e \<in> set (dupe_emails st)")
    case True
    have "if e \<in> set (dupe_emails st) then \<exists>l'. same_email e st' = [l'] \<and> merged_from (same_email e st) l'
         else same_email e st' = same_email e st" using fold by blast
    with True have "\<exists>l'. same_email e st' = [l'] \<and> merged_from (same_email e st) l'" by simp
    then show ?thesis by (cases "same_email e st") (auto simp: merged_from_def)
  next
    case False
    then have "length (same_email e st) \<le> 1" by (simp add: set_dupe_emails)
    moreover have "same_email e st' = same_email e st" using fold False by meson
    ultimately show ?thesis by (cases "same_email e st") (auto simp: merged_from_single)
  qed
  with fold show ?thesis unfolding dedupe_leads_def by auto
qed

lemma distinct_emails_iff: "distinct (map ld_email (rows (dd_leads st))) \<longleftrightarrow> (\<forall>e. length (same_email e st) \<le> 1)"
proof -
  have count: "count (mset (map ld_email xs)) e = length (filter (\<lambda>l. ld_email l = e) xs)" for xs e
    by (induction xs) auto
  have "distinct ys \<longleftrightarrow> (\<forall>a. count (mset ys) a \<le> 1)" for ys :: "string list"
    unfolding distinct_count_atmost_1 by (metis One_nat_def count_eq_zero_iff le_Suc_eq le_zero_eq set_mset_mset le_numeral_extra(4))
  then show ?thesis by (simp add: count same_email_def select_where_def del: mset_map)
qed

section \<open>The revision as a whole\<close>

text \<open>C34.
  The revision succeeds and no contact history is lost. For every address that leads share, one
  lead is left: the canonical row of the group, with each merged field non-blank exactly when some
  row of the group had a value, its own values kept. Every other lead is as it was, every address
  has an occurrence in exactly the jobs it had one in, once each, every campaign email belongs to
  the address it was written for, and a second run merges nothing.
\<close>

theorem dedupe_keeps_history:
  assumes "store_ok st" "sc_has_leads sc"
  shows "\<exists>st' n. dedupe_leads st = (st', n) \<and> length (rows (dd_leads st')) + n = length (rows (dd_leads st)) \<and>
    upgrade_0028 (sc, st) =
      Inr (sc\<lparr>sc_uniques := (sc_uniques sc - {''uq_lead_job_email''}) \<union> {''uq_lead_email''}\<rparr>, st') \<and>
    (\<forall>e. case same_email e st of [] \<Rightarrow> same_email e st' = []
         | l # ls \<Rightarrow> \<exists>l'. same_email e st' = [l'] \<and> merged_from (l # ls) l' \<and> (if ls = [] then l' = l else True)) \<and>
    occ_view st' = occ_view st \<and> campaign_view st' = campaign_view st \<and> store_ok st' \<and> dedupe_leads st' = (st', 0)"
proof -
  obtain st' n where dd: "dedupe_leads st = (st', n)" "store_ok st'" "occ_view st' = occ_view st"
      "campaign_view st' = campaign_view st" "length (rows (dd_leads st')) + n = length (rows (dd_leads st))"
    and grps: "\<And>e. case same_email e st of [] \<Rightarrow> same_email e st' = []
         | l # ls \<Rightarrow> \<exists>l'. same_email e st' = [l'] \<and> merged_from (l # ls) l'"
    using dedupe_leads_props [OF assms(1)] by blast
  have single: "length (same_email e st') \<le> 1" for e
    using grps [of e] by (cases "same_email e st") auto
  then have dist: "distinct (map ld_email (rows (dd_leads st')))" by (simp add: distinct_emails_iff)
  have "dupe_emails st' = []" using single set_dupe_emails [of st'] by (auto simp: not_less [symmetric])
  then have again: "dedupe_leads st' = (st', 0)" by (simp add: dedupe_leads_def)
  have "upgrade_0028 (sc, st) = Inr (sc\<lparr>sc_uniques := (sc_uniques sc - {''uq_lead_job_email''}) \<union> {''uq_lead_email''}\<rparr>, st')"
    using assms(2) dist by (auto simp: upgrade_0028_def dd(1) Let_def intro!: arg_cong [where f = "\<lambda>x. sc\<lparr>sc_uniques := x\<rparr>"])
  moreover have "case same_email e st of [] \<Rightarrow> same_email e st' = []
      | l # ls \<Rightarrow> \<exists>l'. same_email e st' = [l'] \<and> merged_from (l # ls) l' \<and> (if ls = [] then l' = l else True)" for e
  proof (cases "same_email e st")
    case Nil
    then show ?thesis using grps [of e] by simp
  next
    case (Cons l ls)
    then obtain l' where l': "same_email e st' = [l']" "merged_from (l # ls) l'" using grps [of e] by auto
    moreover have "l' = l" if "ls = []"
    proof -
      have "unmerged l' = unmerged l" "list_all (\<lambda>f. fst f l' = fst f l) MERGED_FIELDS"
      proof -
        have "merged_from [l] l'" using l'(2) that by simp
        then obtain x where x: "x \<in> set [l]" "unmerged l' = unmerged x" "\<forall>f \<in> set MERGED_FIELDS. fst f l' \<in> fst f ` set [l]"
          unfolding merged_from_def list_all_iff by blast
        then show "unmerged l' = unmerged l" by simp
        show "list_all (\<lambda>f. fst f l' = fst f l) MERGED_FIELDS" unfolding list_all_iff using x(3) by auto
      qed
      then show ?thesis by (cases l; cases l') (simp add: unmerged_def MERGED_FIELDS_def)
    qed
    ultimately show ?thesis by (simp add: Cons)
  qed
  ultimately show ?thesis using dd again by blast
qed

text \<open>Two leads of an address, of which the second is the canonical one and the first has a job title.\<close>

definition demo_dup :: "nat \<Rightarrow> nat \<Rightarrow> string option \<Rightarrow> string option \<Rightarrow> string option \<Rightarrow> int \<Rightarrow> lead" where
  "demo_dup i j name desig band score =
     \<lparr>ld_id = i, ld_job_id = j, ld_snapshot_id = None, ld_email = ''d@x.gov.in'', ld_person_name = name,
      ld_designation = desig, ld_department = None, ld_source_url = None, ld_source_title = None,
      ld_context_snippet = None, ld_manual_state = None, ld_entity_kind = None, ld_phone = None, ld_channel_tag = None,
      ld_confidence_band = band, ld_field_provenance = None, ld_lead_score = score, ld_depth = 0, ld_captured_at = 0\<rparr>"

definition demo_store :: lead_store where
  "demo_store =
     \<lparr>dd_leads = \<lparr>rows = [demo_dup 1 1 None (Some ''Officer'') (Some ''LOW'') 10, demo_dup 2 2 (Some ''Real Name'') None (Some ''HIGH'') 20],
                  next_id = 3\<rparr>,
      dd_occurrences = \<lparr>rows = [mk_occurrence (1, 1, None, None, 0) 1, mk_occurrence (2, 2, None, None, 0) 2,
                               mk_occurrence (1, 2, None, None, 0) 3], next_id = 4\<rparr>,
      dd_emails = \<lparr>rows = [], next_id = 1\<rparr>\<rparr>"

lemma demo_store_ok: "store_ok demo_store"
  by (simp add: store_ok_def demo_store_def demo_dup_def mk_occurrence_def)

theorem dedupe_keeps_history_witness:
  "\<exists>st' l'. dedupe_leads demo_store = (st', 1) \<and> same_email ''d@x.gov.in'' st' = [l'] \<and>
     truthy (ld_designation l') \<and> occ_view st' = occ_view demo_store \<and>
     upgrade_0028 (\<lparr>sc_has_leads = True, sc_uniques = {''uq_lead_job_email''}\<rparr>, demo_store) =
       Inr (\<lparr>sc_has_leads = True, sc_uniques = {''uq_lead_email''}\<rparr>, st')"
proof -
  let ?sc = "\<lparr>sc_has_leads = True, sc_uniques = {''uq_lead_job_email''}\<rparr>"
  obtain st' n where st': "dedupe_leads demo_store = (st', n)" "length (rows (dd_leads st')) + n = length (rows (dd_leads demo_store))"
      "upgrade_0028 (?sc, demo_store) =
         Inr (?sc\<lparr>sc_uniques := (sc_uniques ?sc - {''uq_lead_job_email''}) \<union> {''uq_lead_email''}\<rparr>, st')"
      "occ_view st' = occ_view demo_store"
    and grps: "\<forall>e. case same_email e demo_store of [] \<Rightarrow> same_email e st' = []
         | l # ls \<Rightarrow> \<exists>l'. same_email e st' = [l'] \<and> merged_from (l # ls) l' \<and> (if ls = [] then l' = l else True)"
    using dedupe_keeps_history [OF demo_store_ok, of ?sc] by auto
  have grp: "same_email ''d@x.gov.in'' demo_store = rows (dd_leads demo_store)"
    by (simp add: same_email_def select_where_def demo_store_def demo_dup_def)
  then obtain l' where l': "same_email ''d@x.gov.in'' st' = [l']" "merged_from (rows (dd_leads demo_store)) l'"
    using spec [OF grps, of "''d@x.gov.in''"] by (auto simp: demo_store_def)
  have "truthy (ld_designation l')"
    using l'(2) by (auto simp: merged_from_def MERGED_FIELDS_def demo_store_def demo_dup_def)
  moreover have "n = 1"
  proof -
    have "dupe_emails demo_store = [''d@x.gov.in'']" by code_simp
    then have "snd (dedupe_leads demo_store) = 1"
      by (simp add: dedupe_leads_def merge_email_def Let_def) code_simp
    then show ?thesis by (simp add: st'(1))
  qed
  ultimately show ?thesis using st' l'(1) by (auto simp: insert_commute)
qed

text \<open>The score is not computed again: the merged lead has a name and a title and the score of a lead without the title.\<close>

lemma merged_score_is_stale:
  "map (\<lambda>l. (ld_person_name l, ld_designation l, ld_lead_score l)) (rows (dd_leads (fst (dedupe_leads demo_store)))) =
     [(Some ''Real Name'', Some ''Officer'', 20)]"
  by code_simp

end
