(* ===== verification/AgentRelay.thy ===== *)
theory AgentRelay
  imports AgentProps
begin

text \<open>
  The local web server of the agent: the relay of browser requests to the cloud under the operator's
  session (\<open>agent/bff/proxy.py\<close> with \<open>request_with_retry\<close> of \<open>agent/cloud_client.py\<close>), its own
  login, logout and session endpoints (\<open>agent/bff/local_auth.py\<close>), activity and emergency stop
  (\<open>agent/bff/local_system.py\<close>), the pages (\<open>agent/bff/pages.py\<close>) and the exception handlers of
  the app (\<open>agent/bff/app.py\<close>). The cloud is a function \<open>cloud\<close> from a request to its effect and
  its answer; \<open>call\<close> is the refresh request of \<open>AgentRuntime\<close>; \<open>loads\<close> is \<open>json.loads\<close>, None where
  it raises.
\<close>

section \<open>Requests to the cloud\<close>

type_synonym header_list = "(string \<times> string) list"

record cloud_request =
  cl_method :: string
  cl_path :: string
  cl_params :: "(string \<times> string) list"
  cl_headers :: header_list
  cl_cookies :: header_list
  cl_body :: string

record cloud_reply =
  rp_status :: nat
  rp_headers :: header_list
  rp_content :: string

type_synonym 's cloud_fn = "cloud_request \<Rightarrow> 's \<Rightarrow> 's \<times> (agent_exn + cloud_reply)"
type_synonym 's refresh_fn = "string \<Rightarrow> 's \<Rightarrow> 's \<times> refresh_reply"

definition with_bearer :: "string \<Rightarrow> cloud_request \<Rightarrow> cloud_request" where
  "with_bearer token rq = rq\<lparr>cl_headers := dict_put ''Authorization'' (''Bearer '' @ token) (cl_headers rq)\<rparr>"

text \<open>One request with the cached token, and a second one after a refresh when the first was answered 401.\<close>

definition authorized_request ::
  "'s cloud_fn \<Rightarrow> 's refresh_fn \<Rightarrow> cloud_request \<Rightarrow> agent_session \<Rightarrow> 's \<Rightarrow> (agent_session \<times> 's) \<times> (agent_exn + cloud_reply)" where
  "authorized_request cloud call rq s srv =
     (case get_valid_token s of
        Inl x \<Rightarrow> ((s, srv), Inl x)
      | Inr token \<Rightarrow>
          (case cloud (with_bearer token rq) srv of
             (srv1, Inl x) \<Rightarrow> ((s, srv1), Inl x)
           | (srv1, Inr r) \<Rightarrow>
               if rp_status r \<noteq> 401 then ((s, srv1), Inr r)
               else
                 (case refresh_session call s srv1 of
                    (st2, Inl x) \<Rightarrow> (st2, Inl x)
                  | ((s2, srv2), Inr _) \<Rightarrow>
                      (case get_valid_token s2 of
                         Inl x \<Rightarrow> ((s2, srv2), Inl x)
                       | Inr token2 \<Rightarrow> (case cloud (with_bearer token2 rq) srv2 of (srv3, a) \<Rightarrow> ((s2, srv3), a))))))"

section \<open>Answers of the local server\<close>

datatype relay_exn = Refused nat json | Session_ended string | Cloud_unreachable string | Uncaught

datatype local_body = Raw string | Json json

text \<open>A cookie of the answer is set to a value, or deleted.\<close>

record local_reply =
  lp_status :: nat
  lp_headers :: header_list
  lp_body :: local_body
  lp_set_cookies :: "(string \<times> string option) list"

definition json_reply :: "nat \<Rightarrow> json \<Rightarrow> local_reply" where
  "json_reply status body = \<lparr>lp_status = status, lp_headers = [], lp_body = Json body, lp_set_cookies = []\<rparr>"

definition detail_reply :: "nat \<Rightarrow> string \<Rightarrow> string \<Rightarrow> local_reply" where
  "detail_reply status detail code = json_reply status (JObj [(''detail'', JStr detail), (''code'', JStr code)])"

text \<open>The exception handlers of the app.\<close>

definition answer :: "relay_exn + local_reply \<Rightarrow> local_reply" where
  "answer r =
     (case r of
        Inr reply \<Rightarrow> reply
      | Inl (Refused status detail) \<Rightarrow> json_reply status (JObj [(''detail'', detail)])
      | Inl (Cloud_unreachable message) \<Rightarrow> detail_reply 502 message ''cloud_unreachable''
      | Inl (Session_ended message) \<Rightarrow> detail_reply 401 message ''session_expired''
      | Inl Uncaught \<Rightarrow> detail_reply 500 ''Something went wrong on the agent.'' ''internal_error'')"

definition refusal :: "http_exn \<Rightarrow> relay_exn" where
  "refusal x = (case x of HTTPException c d \<Rightarrow> Refused c (JStr d) | ServerError _ \<Rightarrow> Uncaught)"

definition raised :: "agent_exn \<Rightarrow> relay_exn" where
  "raised x = (case x of SessionExpired d \<Rightarrow> Session_ended d | _ \<Rightarrow> Uncaught)"

section \<open>The state of the agent\<close>

record browser_request = local_request +
  br_path :: string
  br_params :: "(string \<times> string) list"
  br_headers :: header_list
  br_body :: string

record 's bff =
  bf_agent :: agent_state
  bf_session :: agent_session
  bf_cloud :: 's

type_synonym 's local_handler = "'s bff \<Rightarrow> 's bff \<times> (relay_exn + local_reply)"

definition guarded :: "(agent_session \<Rightarrow> http_exn option list) \<Rightarrow> 's local_handler \<Rightarrow> 's local_handler" where
  "guarded guards h b =
     (case first_refusal (guards (bf_session b)) of Some x \<Rightarrow> (b, Inl (refusal x)) | None \<Rightarrow> h b)"

definition cloud_base_url :: "local_db \<Rightarrow> http_exn + string" where
  "cloud_base_url db =
     (let url = get_setting ''cloud_api_base_url'' None db in
      if truthy url then Inr (the url)
      else Inl (HTTPException 500 ''No cloud server configured''))"

definition with_cloud :: "(string \<Rightarrow> 's local_handler) \<Rightarrow> 's local_handler" where
  "with_cloud h b =
     (case cloud_base_url (ag_local (bf_agent b)) of Inl x \<Rightarrow> (b, Inl (refusal x)) | Inr url \<Rightarrow> h url b)"

definition relayed ::
  "'s cloud_fn \<Rightarrow> 's refresh_fn \<Rightarrow> cloud_request \<Rightarrow> (agent_exn + cloud_reply \<Rightarrow> relay_exn + local_reply) \<Rightarrow> 's local_handler" where
  "relayed cloud call rq finish b =
     (case authorized_request cloud call rq (bf_session b) (bf_cloud b) of
        ((s, srv), r) \<Rightarrow> (b\<lparr>bf_session := s, bf_cloud := srv\<rparr>, finish r))"

section \<open>The reverse proxy\<close>

definition STRIP_REQUEST_HEADERS :: "string list" where
  "STRIP_REQUEST_HEADERS = [''host'', ''authorization'', ''cookie'', ''content-length'']"

definition STRIP_RESPONSE_HEADERS :: "string list" where
  "STRIP_RESPONSE_HEADERS = [''content-length'', ''transfer-encoding'', ''connection'', ''content-encoding'']"

text \<open>A dict comprehension over the items that are not stripped.\<close>

definition strip_headers :: "string list \<Rightarrow> header_list \<Rightarrow> header_list" where
  "strip_headers names hs = dict_of (filter (\<lambda>(k, v). py_lower k \<notin> set names) hs)"

definition proxied_request :: "browser_request \<Rightarrow> cloud_request" where
  "proxied_request rq =
     \<lparr>cl_method = lr_method rq, cl_path = ''/api/'' @ br_path rq, cl_params = br_params rq,
      cl_headers = strip_headers STRIP_REQUEST_HEADERS (br_headers rq), cl_cookies = [], cl_body = br_body rq\<rparr>"

definition proxied_reply :: "string \<Rightarrow> agent_exn + cloud_reply \<Rightarrow> relay_exn + local_reply" where
  "proxied_reply url r =
     (case r of
        Inl Unreachable \<Rightarrow> Inl (Cloud_unreachable (''Cannot reach the cloud server at '' @ url))
      | Inl x \<Rightarrow> Inl (raised x)
      | Inr rp \<Rightarrow> Inr \<lparr>lp_status = rp_status rp, lp_headers = strip_headers STRIP_RESPONSE_HEADERS (rp_headers rp),
                       lp_body = Raw (rp_content rp), lp_set_cookies = []\<rparr>)"

definition proxy :: "'s cloud_fn \<Rightarrow> 's refresh_fn \<Rightarrow> browser_request \<Rightarrow> 's local_handler" where
  "proxy cloud call rq =
     guarded (\<lambda>s. [require_loopback (local_request.truncate rq), require_local_session s (local_request.truncate rq),
                   verify_local_csrf (local_request.truncate rq)])
       (with_cloud (\<lambda>url. relayed cloud call (proxied_request rq) (proxied_reply url)))"

section \<open>The session of the browser\<close>

text \<open>\<open>csrf\<close> is the random token of the response.\<close>

definition set_local_session_cookies :: "string \<Rightarrow> local_reply \<Rightarrow> local_reply" where
  "set_local_session_cookies csrf r =
     r\<lparr>lp_set_cookies := lp_set_cookies r @ [(''session'', Some ''1''), (''csrf'', Some csrf)]\<rparr>"

definition clear_local_session_cookies :: "local_reply \<Rightarrow> local_reply" where
  "clear_local_session_cookies r = r\<lparr>lp_set_cookies := lp_set_cookies r @ [(''session'', None), (''csrf'', None)]\<rparr>"

definition relay_error_detail :: "(string \<Rightarrow> json option) \<Rightarrow> cloud_reply \<Rightarrow> py_exn + json" where
  "relay_error_detail loads r =
     (case loads (rp_content r) of
        None \<Rightarrow> Inr (JStr (rp_content r))
      | Some (JObj kvs) \<Rightarrow> Inr (case map_of kvs ''detail'' of Some d \<Rightarrow> d | None \<Rightarrow> JStr (rp_content r))
      | Some _ \<Rightarrow> Inl AttributeError)"

definition relay_error :: "(string \<Rightarrow> json option) \<Rightarrow> cloud_reply \<Rightarrow> relay_exn" where
  "relay_error loads r =
     (case relay_error_detail loads r of Inl _ \<Rightarrow> Uncaught | Inr d \<Rightarrow> Refused (rp_status r) d)"

text \<open>What login reads of a successful answer; a missing key or a value of another type raises.\<close>

record login_data =
  lg_user :: json
  lg_email :: string
  lg_permissions :: "string set"
  lg_is_admin :: bool
  lg_access_token :: string
  lg_refresh_token :: string

definition read_login :: "json option \<Rightarrow> login_data option" where
  "read_login j =
     (case j of
        Some (JObj kvs) \<Rightarrow>
          (case (map_of kvs ''user'', map_of kvs ''access_token'', map_of kvs ''refresh_token'') of
             (Some (JObj u), Some (JStr a), Some (JStr t)) \<Rightarrow>
               (case (map_of u ''email'', map_of u ''permissions'', map_of u ''is_admin'') of
                  (Some (JStr e), Some (JList ps), Some (JBool adm)) \<Rightarrow>
                    Some \<lparr>lg_user = JObj u, lg_email = e, lg_permissions = set [p. JStr p \<leftarrow> ps], lg_is_admin = adm,
                          lg_access_token = a, lg_refresh_token = t\<rparr>
                | _ \<Rightarrow> None)
           | _ \<Rightarrow> None)
      | _ \<Rightarrow> None)"

definition login_request :: "string \<Rightarrow> cloud_request" where
  "login_request body =
     \<lparr>cl_method = ''POST'', cl_path = ''/auth/login'', cl_params = [], cl_headers = [], cl_cookies = [], cl_body = body\<rparr>"

definition local_login ::
  "'s cloud_fn \<Rightarrow> (string \<Rightarrow> json option) \<Rightarrow> string \<Rightarrow> browser_request \<Rightarrow> 's local_handler" where
  "local_login cloud loads csrf rq =
     guarded (\<lambda>s. [require_loopback (local_request.truncate rq), verify_trusted_host (local_request.truncate rq)])
       (with_cloud (\<lambda>url b.
          case cloud (login_request (br_body rq)) (bf_cloud b) of
            (srv, Inl x) \<Rightarrow> (b\<lparr>bf_cloud := srv\<rparr>, Inl (raised x))
          | (srv, Inr r) \<Rightarrow>
              if rp_status r \<noteq> 200 then (b\<lparr>bf_cloud := srv\<rparr>, Inl (relay_error loads r))
              else
                (case read_login (loads (rp_content r)) of
                   None \<Rightarrow> (b\<lparr>bf_cloud := srv\<rparr>, Inl Uncaught)
                 | Some d \<Rightarrow>
                     (let s = bf_session b;
                          s1 = s\<lparr>as_keyring := (as_keyring s)(lg_email d \<mapsto> lg_refresh_token d)\<rparr>
                      in (b\<lparr>bf_cloud := srv,
                            bf_session := set_session (lg_email d) (lg_access_token d) url (lg_permissions d) (lg_is_admin d) s1\<rparr>,
                          Inr (set_local_session_cookies csrf (json_reply 200 (JObj [(''user'', lg_user d)]))))))))"

definition redirect_reply :: "string \<Rightarrow> nat \<Rightarrow> local_reply" where
  "redirect_reply location status =
     \<lparr>lp_status = status, lp_headers = [(''location'', location)], lp_body = Raw [], lp_set_cookies = []\<rparr>"

definition local_bootstrap :: "string \<Rightarrow> browser_request \<Rightarrow> 's local_handler" where
  "local_bootstrap csrf rq =
     guarded (\<lambda>s. [require_loopback (local_request.truncate rq)])
       (\<lambda>b. if \<not> has_session (bf_session b) then (b, Inl (Refused 401 (JStr ''Not logged in'')))
            else (b, Inr (set_local_session_cookies csrf (redirect_reply ''/'' 307))))"

definition local_logout :: "(string \<Rightarrow> 's \<Rightarrow> 's) \<Rightarrow> browser_request \<Rightarrow> 's local_handler" where
  "local_logout revoke rq =
     guarded (\<lambda>s. [require_loopback (local_request.truncate rq), verify_local_csrf (local_request.truncate rq)])
       (\<lambda>b. case logout_session revoke (bf_session b) (bf_cloud b) of
              (s, srv) \<Rightarrow> (b\<lparr>bf_session := s, bf_cloud := srv\<rparr>,
                           Inr (clear_local_session_cookies (json_reply 200 (JObj [(''message'', JStr ''Logged out'')])))))"

definition local_me :: "browser_request \<Rightarrow> 's local_handler" where
  "local_me rq =
     guarded (\<lambda>s. [require_loopback (local_request.truncate rq), require_local_session s (local_request.truncate rq)])
       (\<lambda>b. (b, case get_operator_context (bf_session b) of
                  Inl x \<Rightarrow> Inl (raised x)
                | Inr oc \<Rightarrow> Inr (json_reply 200 (JObj [(''email'', j_opt_str (oc_email oc)), (''is_admin'', JBool (oc_is_admin oc)),
                               (''permissions'', JList (map JStr (sorted_list_of_set (oc_permissions oc))))]))))"

text \<open>The refresh cookie is read from the keyring before the request is made, and sent with both attempts.\<close>

definition session_request :: "string \<Rightarrow> string \<Rightarrow> bool \<Rightarrow> agent_session \<Rightarrow> cloud_request" where
  "session_request meth path with_cookie s =
     (let token = get_current_refresh_token s in
      \<lparr>cl_method = meth, cl_path = path, cl_params = [], cl_headers = [],
       cl_cookies = (if with_cookie \<and> truthy token then [(''refresh'', the token)] else []), cl_body = []\<rparr>)"

definition finish_relay :: "(string \<Rightarrow> json option) \<Rightarrow> (nat \<Rightarrow> bool) \<Rightarrow> agent_exn + cloud_reply \<Rightarrow> relay_exn + local_reply" where
  "finish_relay loads bad r =
     (case r of
        Inl x \<Rightarrow> Inl (raised x)
      | Inr rp \<Rightarrow>
          if bad (rp_status rp) then Inl (relay_error loads rp)
          else (case loads (rp_content rp) of None \<Rightarrow> Inl Uncaught | Some j \<Rightarrow> Inr (json_reply 200 j)))"

definition relay_list_sessions ::
  "'s cloud_fn \<Rightarrow> 's refresh_fn \<Rightarrow> (string \<Rightarrow> json option) \<Rightarrow> browser_request \<Rightarrow> 's local_handler" where
  "relay_list_sessions cloud call loads rq =
     guarded (\<lambda>s. [require_loopback (local_request.truncate rq), require_local_session s (local_request.truncate rq)])
       (with_cloud (\<lambda>url b.
          relayed cloud call (session_request ''GET'' ''/auth/sessions'' True (bf_session b)) (finish_relay loads (\<lambda>c. c \<noteq> 200)) b))"

definition relay_revoke_session ::
  "'s cloud_fn \<Rightarrow> 's refresh_fn \<Rightarrow> (string \<Rightarrow> json option) \<Rightarrow> nat \<Rightarrow> browser_request \<Rightarrow> 's local_handler" where
  "relay_revoke_session cloud call loads session_id rq =
     guarded (\<lambda>s. [require_loopback (local_request.truncate rq), verify_local_csrf (local_request.truncate rq)])
       (with_cloud (\<lambda>url b.
          relayed cloud call (session_request ''DELETE'' (''/auth/sessions/'' @ py_str_nat session_id) False (bf_session b))
            (finish_relay loads (\<lambda>c. 400 \<le> c)) b))"

definition relay_revoke_others ::
  "'s cloud_fn \<Rightarrow> 's refresh_fn \<Rightarrow> (string \<Rightarrow> json option) \<Rightarrow> browser_request \<Rightarrow> 's local_handler" where
  "relay_revoke_others cloud call loads rq =
     guarded (\<lambda>s. [require_loopback (local_request.truncate rq), verify_local_csrf (local_request.truncate rq)])
       (with_cloud (\<lambda>url b.
          relayed cloud call (session_request ''POST'' ''/auth/sessions/revoke-others'' True (bf_session b))
            (finish_relay loads (\<lambda>c. 400 \<le> c)) b))"

section \<open>Activity, logs and the emergency stop\<close>

definition running_jobs :: "agent_state \<Rightarrow> nat list" where
  "running_jobs ag = sorted_list_of_set (ag_running ag)"

definition local_guards :: "browser_request \<Rightarrow> agent_session \<Rightarrow> http_exn option list" where
  "local_guards rq s = [require_loopback (local_request.truncate rq), require_local_session s (local_request.truncate rq)]"

definition local_activity :: "browser_request \<Rightarrow> 's local_handler" where
  "local_activity rq =
     guarded (local_guards rq)
       (\<lambda>b. (b, Inr (json_reply 200 (JObj
          [(''crawl_jobs'', JList (map (\<lambda>i. JObj [(''id'', JInt (int i)), (''label'', JStr (''Job #'' @ py_str_nat i))])
              (running_jobs (bf_agent b)))),
           (''total_active'', JInt (int (length (running_jobs (bf_agent b)))))]))))"

text \<open>The log file: missing, unreadable with a message, or its lines.\<close>

definition tail_logs :: "(string + string list) option \<Rightarrow> string" where
  "tail_logs log =
     (case log of
        None \<Rightarrow> ''Log file not found.''
      | Some (Inl e) \<Rightarrow> ''Failed to read logs: '' @ e
      | Some (Inr lines) \<Rightarrow> concat (drop (length lines - 1000) lines))"

definition local_logs :: "(string + string list) option \<Rightarrow> browser_request \<Rightarrow> 's local_handler" where
  "local_logs log rq =
     guarded (local_guards rq) (\<lambda>b. (b, Inr (json_reply 200 (JObj [(''logs'', JStr (tail_logs log))]))))"

definition cancel_request :: "nat \<Rightarrow> cloud_request" where
  "cancel_request job_id =
     \<lparr>cl_method = ''POST'', cl_path = ''/api/coordination/jobs/'' @ py_str_nat job_id @ ''/cancel'', cl_params = [],
      cl_headers = [], cl_cookies = [], cl_body = []\<rparr>"

text \<open>The signals to the cloud are best effort: whatever they raise is logged.\<close>

fun signal_cancel :: "'s cloud_fn \<Rightarrow> 's refresh_fn \<Rightarrow> nat list \<Rightarrow> agent_session \<Rightarrow> 's \<Rightarrow> agent_session \<times> 's" where
  "signal_cancel cloud call [] s srv = (s, srv)"
| "signal_cancel cloud call (i # ids) s srv =
     (case authorized_request cloud call (cancel_request i) s srv of
        ((s1, srv1), _) \<Rightarrow> signal_cancel cloud call ids s1 srv1)"

definition local_cancel_all :: "'s cloud_fn \<Rightarrow> 's refresh_fn \<Rightarrow> browser_request \<Rightarrow> 's local_handler" where
  "local_cancel_all cloud call rq =
     guarded (\<lambda>s. local_guards rq s @ [verify_local_csrf (local_request.truncate rq)])
       (with_cloud (\<lambda>url b.
          let ids = running_jobs (bf_agent b) in
          case signal_cancel cloud call ids (bf_session b) (bf_cloud b) of
            (s, srv) \<Rightarrow>
              (b\<lparr>bf_session := s, bf_cloud := srv\<rparr>,
               Inr (json_reply 200 (JObj
                 [(''crawl_jobs_cancelled'', JInt (int (length (filter (\<lambda>i. cancel_job_if_running i (bf_agent b)) ids)))),
                  (''message'', JStr ''Cancellation signalled for all locally-running jobs.'')])))))"

section \<open>Pages\<close>

datatype local_page = Page string | Operator_page string operator_context string | Page_moved string | Page_refused http_exn

definition login_page :: "browser_request \<Rightarrow> local_page" where
  "login_page rq = (case require_loopback (local_request.truncate rq) of Some x \<Rightarrow> Page_refused x | None \<Rightarrow> Page ''login.html'')"

definition current_operator_or_redirect :: "agent_session \<Rightarrow> browser_request \<Rightarrow> operator_context option" where
  "current_operator_or_redirect s rq =
     (case require_local_session s (local_request.truncate rq) of
        Some _ \<Rightarrow> None
      | None \<Rightarrow> (case get_operator_context s of Inl _ \<Rightarrow> None | Inr oc \<Rightarrow> Some oc))"

definition cloud_admin_url :: "local_db \<Rightarrow> string" where
  "cloud_admin_url db = (case cloud_base_url db of Inl _ \<Rightarrow> [] | Inr url \<Rightarrow> url)"

definition operator_page :: "string \<Rightarrow> 's bff \<Rightarrow> browser_request \<Rightarrow> local_page" where
  "operator_page template b rq =
     (case require_loopback (local_request.truncate rq) of
        Some x \<Rightarrow> Page_refused x
      | None \<Rightarrow>
          (case current_operator_or_redirect (bf_session b) rq of
             None \<Rightarrow> Page_moved ''/login''
           | Some oc \<Rightarrow> Operator_page template oc (cloud_admin_url (ag_local (bf_agent b)))))"

end
