(* ===== verification/AgentRelayProps.thy ===== *)
theory AgentRelayProps
  imports AgentRelay
begin

text \<open>
  Properties of the local server: what the proxy sends and to whom it answers, which guard a forged
  Host header meets, that an expired token is renewed behind a relayed request, and what the renewal
  does to the one request that names the session it is made in.
\<close>

section \<open>The renewal of a token\<close>

text \<open>
  The contract of a source of tokens: from a \<open>ready\<close> session a refresh yields a token that is
  accepted. A client that meets 401 only with tokens that are not accepted then never sees one.
\<close>

locale token_source =
  fixes call :: "'s refresh_fn"
    and accepts :: "string \<Rightarrow> 's \<Rightarrow> bool"
    and ready :: "agent_session \<Rightarrow> 's \<Rightarrow> bool"
  assumes renews: "ready s srv \<Longrightarrow>
    \<exists>s' srv' t. refresh_session call s srv = ((s', srv'), Inr t) \<and> id_access_token (as_identity s') = Some t \<and> accepts t srv'"
begin

lemma never_unauthorized:
  assumes "ready s srv" "has_session s"
    and fair: "\<And>t srv srv' r. cloud (with_bearer t rq) srv = (srv', Inr r) \<Longrightarrow> rp_status r = 401 \<Longrightarrow> \<not> accepts t srv \<and> srv' = srv"
  shows "case authorized_request cloud call rq s srv of (_, Inl _) \<Rightarrow> True | (_, Inr r) \<Rightarrow> rp_status r \<noteq> 401"
proof -
  obtain t0 where t0: "get_valid_token s = Inr t0" using assms(2) by (auto simp: has_session_def get_valid_token_def)
  obtain srv1 a where first: "cloud (with_bearer t0 rq) srv = (srv1, a)" by fastforce
  consider (raised) x where "a = Inl x" | (fine) r where "a = Inr r" "rp_status r \<noteq> 401" | (expired) r where "a = Inr r" "rp_status r = 401"
    by (cases a) auto
  then show ?thesis
  proof cases
    case expired
    then have "srv1 = srv" using fair first by simp
    obtain s' srv' t where renewed: "refresh_session call s srv = ((s', srv'), Inr t)" "id_access_token (as_identity s') = Some t" "accepts t srv'"
      using renews [OF assms(1)] by blast
    obtain srv2 b where second: "cloud (with_bearer t rq) srv' = (srv2, b)" by fastforce
    have "get_valid_token s' = Inr t" using renewed(2) by (simp add: get_valid_token_def)
    moreover have "rp_status r \<noteq> 401" if "b = Inr r" for r using fair second renewed(3) that by blast
    ultimately show ?thesis
      using t0 first expired renewed(1) second \<open>srv1 = srv\<close> by (auto simp: authorized_request_def split: sum.split)
  qed (simp_all add: authorized_request_def t0 first)
qed

end

text \<open>The cloud's side: a token is accepted when it makes a current user, and a session is ready when its refresh succeeds with a token that decodes.\<close>

definition bearer_request :: "string \<Rightarrow> http_request" where
  "bearer_request t =
     \<lparr>rq_method = ''GET'', rq_authorization = Some (''Bearer '' @ t), rq_access_cookie = None, rq_refresh_cookie = None,
      rq_csrf_cookie = None, rq_csrf_header = None, rq_forwarded_for = None, rq_user_agent = None, rq_client_host = None\<rparr>"

definition token_accepted :: "auth_fns \<Rightarrow> auth_config \<Rightarrow> datetime \<Rightarrow> string \<Rightarrow> auth_db \<Rightarrow> bool" where
  "token_accepted fn cfg now t db = (case get_current_user fn cfg now (bearer_request t) db of Inl _ \<Rightarrow> False | Inr _ \<Rightarrow> True)"

definition session_ready :: "auth_fns \<Rightarrow> auth_config \<Rightarrow> datetime \<Rightarrow> string \<Rightarrow> http_request \<Rightarrow> agent_session \<Rightarrow> auth_db \<Rightarrow> bool" where
  "session_ready fn cfg now fresh rq s db =
     (\<exists>email tok db1 tr p. signed_in email tok s \<and> refresh fn cfg now fresh rq (Some tok) db = (db1, Inr tr) \<and>
        tr_access_token tr \<noteq> [] \<and> decode_token_with_rotation fn cfg now (tr_access_token tr) = Some p \<and>
        jp_type p = Some ''access'' \<and> jp_sub p = tr_user_id tr \<and>
        jp_tv p = map_option us_token_version (get_user_by_id (tr_user_id tr) db))"

lemma get_user_rotate_session [simp]: "get_user_by_id u (rotate_session now i h e db) = get_user_by_id u db"
  by (simp add: rotate_session_def get_user_by_id_def)

interpretation auth_tokens: token_source "refresh_call fn cfg now fresh rq True" "token_accepted fn cfg now" "session_ready fn cfg now fresh rq"
proof
  fix s db
  assume "session_ready fn cfg now fresh rq s db"
  then obtain email tok db1 tr p where ready: "signed_in email tok s" "refresh fn cfg now fresh rq (Some tok) db = (db1, Inr tr)"
      "tr_access_token tr \<noteq> []" "decode_token_with_rotation fn cfg now (tr_access_token tr) = Some p"
      "jp_type p = Some ''access''" "jp_sub p = tr_user_id tr" "jp_tv p = map_option us_token_version (get_user_by_id (tr_user_id tr) db)"
    unfolding session_ready_def by blast
  obtain user where user: "get_user_by_id (tr_user_id tr) db1 = Some user" "get_user_by_id (tr_user_id tr) db = Some user" "us_is_active user"
    using ready(2) by (elim refresh_InrD) simp
  have "extract_token (bearer_request (tr_access_token tr)) = Some (tr_access_token tr)"
    by (simp add: extract_token_def bearer_request_def py_startswith_def Let_def)
  then have accepted: "token_accepted fn cfg now (tr_access_token tr) db1"
    using ready(3-7) user by (simp add: token_accepted_def get_current_user_def Let_def)
  have "refresh_call fn cfg now fresh rq True tok db =
      (db1, Refreshed (tr_access_token tr) (tr_permissions tr) (tr_is_admin tr) (tr_refresh_token tr))"
    by (simp add: refresh_call_def ready(2))
  with ready(1) accepted show "\<exists>s' db' t. refresh_session (refresh_call fn cfg now fresh rq True) s db = ((s', db'), Inr t) \<and>
      id_access_token (as_identity s') = Some t \<and> token_accepted fn cfg now t db'"
    by (auto simp: refresh_session_def signed_in_def Let_def)
qed

section \<open>The session the request is made in\<close>

definition find_header :: "string \<Rightarrow> header_list \<Rightarrow> string option" where
  "find_header name hs = map_option snd (List.find (\<lambda>(k, v). py_lower k = name) hs)"

definition as_http :: "cloud_request \<Rightarrow> http_request" where
  "as_http rq =
     \<lparr>rq_method = cl_method rq, rq_authorization = find_header ''authorization'' (cl_headers rq),
      rq_access_cookie = map_of (cl_cookies rq) ''access'', rq_refresh_cookie = map_of (cl_cookies rq) ''refresh'',
      rq_csrf_cookie = map_of (cl_cookies rq) ''csrf'', rq_csrf_header = find_header ''x-csrf-token'' (cl_headers rq),
      rq_forwarded_for = None, rq_user_agent = find_header ''user-agent'' (cl_headers rq), rq_client_host = None\<rparr>"

definition http_reply :: "nat \<Rightarrow> cloud_reply" where
  "http_reply c = \<lparr>rp_status = c, rp_headers = [], rp_content = []\<rparr>"

definition error_status :: "http_exn \<Rightarrow> nat" where
  "error_status x = (case x of HTTPException c _ \<Rightarrow> c | ServerError _ \<Rightarrow> 500)"

text \<open>The route \<open>POST /auth/sessions/revoke-others\<close> of the cloud.\<close>

definition revoke_others_route :: "auth_fns \<Rightarrow> auth_config \<Rightarrow> datetime \<Rightarrow> auth_db cloud_fn" where
  "revoke_others_route fn cfg now rq db =
     (case verify_csrf (as_http rq) of
        Some x \<Rightarrow> (db, Inr (http_reply (error_status x)))
      | None \<Rightarrow>
          (case get_current_user fn cfg now (as_http rq) db of
             Inl x \<Rightarrow> (db, Inr (http_reply (error_status x)))
           | Inr u \<Rightarrow> (fst (revoke_other_sessions fn now (as_http rq) u db), Inr (http_reply 200))))"

abbreviation revoke_others_request :: "agent_session \<Rightarrow> cloud_request" where
  "revoke_others_request \<equiv> session_request ''POST'' ''/auth/sessions/revoke-others'' True"

lemma lower_authorization: "py_lower ''Authorization'' = ''authorization''"
  by code_simp

lemma bearer_route:
  assumes "get_current_user fn cfg now (as_http (with_bearer t (revoke_others_request s))) db = r"
  shows "revoke_others_route fn cfg now (with_bearer t (revoke_others_request s)) db =
    (case r of Inl x \<Rightarrow> (db, Inr (http_reply (error_status x)))
     | Inr u \<Rightarrow> (fst (revoke_other_sessions fn now (as_http (with_bearer t (revoke_others_request s))) u db), Inr (http_reply 200)))"
proof -
  have "truthy (rq_authorization (as_http (with_bearer t (revoke_others_request s))))"
    by (simp add: as_http_def with_bearer_def session_request_def find_header_def lower_authorization Let_def)
  then have "verify_csrf (as_http (with_bearer t (revoke_others_request s))) = None" by (simp add: verify_csrf_def)
  then show ?thesis by (simp add: revoke_others_route_def assms)
qed

lemma sessions_revoke_others:
  "sessions (fst (revoke_other_sessions fn now rq u db)) =
     update_where (\<lambda>x. se_user_id x = me_id u \<and> se_revoked_at x = None \<and>
         (case current_session_id fn rq db of None \<Rightarrow> True | Some k \<Rightarrow> se_id x \<noteq> k))
       (\<lambda>x. x\<lparr>se_revoked_at := Some now\<rparr>) (sessions db)"
  by (simp add: revoke_other_sessions_def revoke_sessions_except_def Let_def)

lemma session_cookie:
  "signed_in email tok s \<Longrightarrow> rq_refresh_cookie (as_http (with_bearer t (revoke_others_request s))) = Some tok"
  by (simp add: as_http_def with_bearer_def session_request_def get_current_refresh_token_def signed_in_def Let_def)

text \<open>C35.
  Sign out everywhere else. As long as the operator's access token is accepted, the request spares
  the session the agent holds and revokes every other session of the user. When the token has
  expired, the agent renews it and repeats the request with the refresh token it read before, which
  the renewal has just replaced: the cloud recognises no current session and revokes all of them.
  The request is answered 200, the agent still holds a session, and its next refresh signs the
  operator out.
\<close>

theorem revoke_others_after_expiry:
  assumes signed: "signed_in email tok s" "id_access_token (as_identity s) = Some at"
    and first: "get_current_user fn cfg now (as_http (with_bearer at (revoke_others_request s))) db = r"
    and own: "get_session_by_hash (fn_hash_refresh fn tok) db = Some x"
    and ids: "session_keys.keys_ok (sessions db)"
    and refreshed: "refresh fn cfg now fresh rq (Some tok) db = (db1, Inr tr)" "fresh \<noteq> []"
    and keys: "fn_hash_refresh fn fresh \<noteq> fn_hash_refresh fn tok"
      "\<forall>y \<in> set (rows (sessions db)). se_refresh_token_hash y \<noteq> fn_hash_refresh fn fresh"
      "distinct (map se_refresh_token_hash (rows (sessions db)))"
    and second: "get_current_user fn cfg now (as_http (with_bearer (tr_access_token tr) (revoke_others_request s))) db1 = Inr me"
      "me_id me = tr_user_id tr"
  shows "case authorized_request (revoke_others_route fn cfg now) (refresh_call fn cfg now fresh rq True)
           (revoke_others_request s) s db of
      ((s', db'), reply) \<Rightarrow>
        (case r of
           Inr u \<Rightarrow> reply = Inr (http_reply 200) \<and> s' = s \<and> get_session_by_hash (fn_hash_refresh fn tok) db' = Some x \<and>
             (\<forall>y \<in> set (rows (sessions db')). if se_user_id y = me_id u \<and> se_id y \<noteq> se_id x then se_revoked_at y \<noteq> None else True)
         | Inl e \<Rightarrow>
             if error_status e = 401 then
               reply = Inr (http_reply 200) \<and> signed_in email fresh s' \<and>
               (\<forall>y \<in> set (rows (sessions db')). if se_user_id y = tr_user_id tr then se_revoked_at y \<noteq> None else True) \<and>
               (case refresh_session (refresh_call fn cfg t fresh2 rq' True) s' db' of
                  ((s2, _), outcome) \<Rightarrow> outcome = Inl (SessionExpired ''Your session has expired'') \<and> \<not> has_session s2)
             else db' = db \<and> s' = s)"
proof (cases r)
  case (Inr u)
  have tok: "tok \<noteq> []" using signed(1) by (simp add: signed_in_def)
  let ?rq = "with_bearer at (revoke_others_request s)"
  have current: "current_session_id fn (as_http ?rq) db = Some (se_id x)"
    using session_cookie [OF signed(1), of at] tok own by (simp add: current_session_id_def)
  have route: "revoke_others_route fn cfg now ?rq db = (fst (revoke_other_sessions fn now (as_http ?rq) u db), Inr (http_reply 200))"
    using bearer_route [OF first] by (simp add: Inr)
  have out: "authorized_request (revoke_others_route fn cfg now) (refresh_call fn cfg now fresh rq True) (revoke_others_request s) s db =
      ((s, fst (revoke_other_sessions fn now (as_http ?rq) u db)), Inr (http_reply 200))"
    using signed(2) by (simp add: authorized_request_def get_valid_token_def route http_reply_def)
  have "get_session_by_hash (fn_hash_refresh fn tok) (fst (revoke_other_sessions fn now (as_http ?rq) u db)) = Some x"
    using own unfolding get_session_by_hash_def sessions_revoke_others
    by (subst first_where_update_where) (auto simp: current)
  then show ?thesis
    unfolding out using Inr by (auto simp: sessions_revoke_others current ball_update_where)
next
  case (Inl e)
  have tok: "tok \<noteq> []" using signed(1) by (simp add: signed_in_def)
  let ?rq = "\<lambda>t. with_bearer t (revoke_others_request s)"
  have route: "revoke_others_route fn cfg now (?rq at) db = (db, Inr (http_reply (error_status e)))"
    using bearer_route [OF first] by (simp add: Inl)
  show ?thesis
  proof (cases "error_status e = 401")
    case False
    then show ?thesis
      using signed(2) by (simp add: Inl authorized_request_def get_valid_token_def route http_reply_def)
  next
    case True
    note rot = rotation_lookup [OF refreshed(1) tok keys ids]
    obtain y where y: "get_session_by_hash (fn_hash_refresh fn fresh) db1 = Some y" "se_user_id y = tr_user_id tr" using rot(2) by blast
    have trt: "tr_refresh_token tr = fresh" using refreshed(1) by (elim refresh_InrD)
    let ?s1 = "s\<lparr>as_identity := (as_identity s)\<lparr>id_access_token := Some (tr_access_token tr),
        id_permissions := tr_permissions tr, id_is_admin := tr_is_admin tr\<rparr>, as_keyring := (as_keyring s)(email \<mapsto> fresh)\<rparr>"
    have renewed: "refresh_session (refresh_call fn cfg now fresh rq True) s db = ((?s1, db1), Inr (tr_access_token tr))"
      using signed(1) by (simp add: refresh_session_def refresh_call_def refreshed(1) trt signed_in_def Let_def)
    have none: "current_session_id fn (as_http (?rq (tr_access_token tr))) db1 = None"
      using session_cookie [OF signed(1), of "tr_access_token tr"] tok rot(1) by (simp add: current_session_id_def)
    let ?db2 = "fst (revoke_other_sessions fn now (as_http (?rq (tr_access_token tr))) me db1)"
    have out: "authorized_request (revoke_others_route fn cfg now) (refresh_call fn cfg now fresh rq True) (revoke_others_request s) s db =
        ((?s1, ?db2), Inr (http_reply 200))"
      using signed(2) True renewed bearer_route [OF second(1)]
      by (simp add: authorized_request_def get_valid_token_def route http_reply_def)
    have all: "\<forall>z \<in> set (rows (sessions ?db2)). se_user_id z = tr_user_id tr \<longrightarrow> se_revoked_at z \<noteq> None"
      using second(2) by (auto simp: sessions_revoke_others none ball_update_where)
    have held: "signed_in email fresh ?s1"
      using signed(1) refreshed(2) by (simp add: signed_in_def has_session_def)
    have "get_session_by_hash (fn_hash_refresh fn fresh) ?db2 = Some (if se_revoked_at y = None then y\<lparr>se_revoked_at := Some now\<rparr> else y)"
      using y second(2) unfolding get_session_by_hash_def sessions_revoke_others
      by (subst first_where_update_where) (auto simp: none)
    then have "snd (refresh fn cfg t fresh2 rq' (Some fresh) ?db2) = Inl (HTTPException 401 ''Invalid or expired refresh token'')"
      using refreshed(2) by (auto simp: refresh_def Let_def split: if_splits)
    then have "snd (refresh_call fn cfg t fresh2 rq' True fresh ?db2) = Unauthorized"
      by (cases "refresh fn cfg t fresh2 rq' (Some fresh) ?db2") (simp add: refresh_call_def)
    then obtain db3 where "refresh_call fn cfg t fresh2 rq' True fresh ?db2 = (db3, Unauthorized)"
      by (metis prod.collapse)
    then have "\<exists>s2 db3. refresh_session (refresh_call fn cfg t fresh2 rq' True) ?s1 ?db2 =
        ((s2, db3), Inl (SessionExpired ''Your session has expired'')) \<and> \<not> has_session s2"
      using signed(1) refreshed(2) by (auto simp: refresh_session_def signed_in_def has_session_def clear_session_def no_identity_def Let_def)
    with all held show ?thesis unfolding out using True by (auto simp: Inl)
  qed
qed

definition demo_expired :: agent_session where
  "demo_expired = demo_session\<lparr>as_identity := (as_identity demo_session)\<lparr>id_access_token := Some ''x''\<rparr>\<rparr>"

theorem revoke_others_after_expiry_witness:
  "case authorized_request (revoke_others_route demo_fns demo_cfg 5) (refresh_call demo_fns demo_cfg 5 ''B'' demo_request True)
      (revoke_others_request demo_expired) demo_expired one_session of
     ((s', db'), reply) \<Rightarrow> reply = Inr (http_reply 200) \<and> has_session s' \<and> list_all (\<lambda>y. if se_user_id y = 1 then se_revoked_at y \<noteq> None else True) (rows (sessions db')) \<and>
       (case refresh_session (refresh_call demo_fns demo_cfg 6 ''C'' demo_request True) s' db' of
          ((s2, _), outcome) \<Rightarrow> \<not> has_session s2)"
proof -
  let ?rq = "\<lambda>t. as_http (with_bearer t (revoke_others_request demo_expired))"
  let ?x = "hd (rows (sessions one_session))"
  have auth: "rq_authorization (?rq t) = Some (''Bearer '' @ t)" for t
    by (simp add: as_http_def with_bearer_def session_request_def find_header_def lower_authorization Let_def)
  then have token: "extract_token (?rq t) = Some t" for t by (simp add: extract_token_def py_startswith_def Let_def)
  have user: "get_user_by_id 1 one_session = Some demo_user"
    using one_user_get by (simp add: one_session_def get_user_by_id_def)
  have own: "get_session_by_hash (fn_hash_refresh demo_fns ''A'') one_session = Some ?x"
    by (simp add: demo_fns_def one_session_def get_session_by_hash_def first_where_def mk_session_def)
  have first: "get_current_user demo_fns demo_cfg 5 (?rq ''x'') one_session = Inl (HTTPException 401 ''Invalid or expired token'')"
    by (simp add: get_current_user_def token decode_token_with_rotation_def demo_fns_def demo_cfg_def)
  let ?db1 = "rotate_session 5 1 (fn_hash_refresh demo_fns ''B'') (5 + seconds (86400 * 14)) one_session"
  let ?tr = "user_out ?db1 demo_user ''t'' ''B''"
  have refreshed: "refresh demo_fns demo_cfg 5 ''B'' demo_request (Some ''A'') one_session = (?db1, Inr ?tr)"
    using own user by (simp add: refresh_def Let_def one_session_def mk_session_def demo_user_def mk_user_def
        create_access_token_def demo_fns_def demo_cfg_def)
  have tr: "tr_access_token (user_out d demo_user a r) = a" "tr_user_id (user_out d demo_user a r) = 1" for d a r
    by (simp_all add: user_out_def demo_user_def mk_user_def)
  have "get_user_by_id 1 ?db1 = Some demo_user" using user by simp
  then obtain me where me: "get_current_user demo_fns demo_cfg 5 (?rq (tr_access_token ?tr)) ?db1 = Inr me" "me_id me = tr_user_id ?tr"
    unfolding tr by (simp add: get_current_user_def token decode_token_with_rotation_def demo_fns_def demo_cfg_def demo_user_def mk_user_def)
  have signed: "signed_in ''e'' ''A'' demo_expired" "id_access_token (as_identity demo_expired) = Some ''x''"
    by (simp_all add: signed_in_def demo_expired_def demo_session_def has_session_def)
  have status: "error_status (HTTPException 401 d) = 401" for d by (simp add: error_status_def)
  have "demo_B": "''B'' \<noteq> []" by simp
  show ?thesis
    using revoke_others_after_expiry [OF signed first own one_session_keys(4) refreshed demo_B one_session_keys(1-3) me,
        of 6 "''C''" demo_request]
    by (simp add: status tr signed_in_def list_all_iff split: prod.splits del: One_nat_def) auto
qed

section \<open>What the proxy sends, and for whom\<close>

text \<open>
  A request that carries the token \<open>t\<close> and nothing of the connection between the browser and this
  machine: no cookie, no other authentication, not the local host name, no stale length.
\<close>

definition only_bearer :: "string \<Rightarrow> cloud_request \<Rightarrow> bool" where
  "only_bearer t rq =
     (cl_cookies rq = [] \<and>
      filter (\<lambda>(k, v). py_lower k \<in> {''authorization'', ''cookie'', ''host'', ''content-length''}) (cl_headers rq) =
        [(''Authorization'', ''Bearer '' @ t)])"

lemma fst_dict_put: "fst ` set (dict_put k v d) = insert k (fst ` set d)"
  by (induction k v d rule: dict_put.induct) auto

lemma keys_dict_of: "fst ` set (dict_of kvs) = fst ` set kvs"
proof -
  have "fst ` set (foldl (\<lambda>d (k, v). dict_put k v d) acc kvs) = fst ` set acc \<union> fst ` set kvs" for acc :: "('a \<times> 'b) list"
  proof (induction kvs arbitrary: acc)
    case (Cons kv kvs)
    then show ?case by (cases kv) (simp add: fst_dict_put)
  qed simp
  then show ?thesis by (simp add: dict_of_def)
qed

lemma filter_dict_put_fresh:
  "k \<notin> fst ` set d \<Longrightarrow> filter P (dict_put k v d) = filter P d @ (if P (k, v) then [(k, v)] else [])"
  by (induction k v d rule: dict_put.induct) auto

lemma proxied_only_bearer: "only_bearer t (with_bearer t (proxied_request rq))"
proof -
  let ?d = "strip_headers STRIP_REQUEST_HEADERS (br_headers rq)"
  let ?local = "\<lambda>(k, v). py_lower k \<in> {''authorization'', ''cookie'', ''host'', ''content-length''}"
  have clean: "py_lower (fst h) \<notin> {''authorization'', ''cookie'', ''host'', ''content-length''}" if "h \<in> set ?d" for h
  proof -
    have "fst h \<in> fst ` set ?d" using that by blast
    then have "fst h \<in> fst ` set (filter (\<lambda>(k, v). py_lower k \<notin> set STRIP_REQUEST_HEADERS) (br_headers rq))"
      by (simp add: strip_headers_def keys_dict_of)
    then show ?thesis by (auto simp: STRIP_REQUEST_HEADERS_def)
  qed
  then have none: "filter ?local ?d = []"
    by (auto simp: filter_empty_conv)
  have "''Authorization'' \<notin> fst ` set ?d"
    using clean lower_authorization by force
  then show ?thesis
    using none by (simp add: only_bearer_def with_bearer_def proxied_request_def filter_dict_put_fresh lower_authorization)
qed

text \<open>The tokens a request can carry: the cached one, or one that a refresh has returned.\<close>

definition operator_token :: "'s refresh_fn \<Rightarrow> agent_session \<Rightarrow> string \<Rightarrow> bool" where
  "operator_token call s t =
     (id_access_token (as_identity s) = Some t \<or> (\<exists>tok srv srv' perms adm rt. call tok srv = (srv', Refreshed t perms adm rt)))"

lemma refresh_session_token:
  "refresh_session call s srv = ((s', srv'), Inr t) \<Longrightarrow> id_access_token (as_identity s') = Some t \<and> operator_token call s0 t"
  by (auto simp: refresh_session_def operator_token_def Let_def split: if_splits prod.splits refresh_reply.splits)

lemma authorized_request_cong:
  assumes "\<And>t srv. operator_token call s t \<Longrightarrow> cloud (with_bearer t rq) srv = cloud' (with_bearer t rq) srv"
  shows "authorized_request cloud call rq s srv = authorized_request cloud' call rq s srv"
proof (cases "get_valid_token s")
  case (Inr t)
  then have "operator_token call s t" by (auto simp: get_valid_token_def operator_token_def split: option.splits)
  then have eq: "cloud (with_bearer t rq) srv = cloud' (with_bearer t rq) srv" by (rule assms)
  have "cloud (with_bearer t' rq) srv2 = cloud' (with_bearer t' rq) srv2"
    if "refresh_session call s srv1 = ((s2, srv2), Inr r)" "get_valid_token s2 = Inr t'" for srv1 s2 srv2 r t'
  proof -
    have "id_access_token (as_identity s2) = Some r" "operator_token call s r" using refresh_session_token [OF that(1), of s] by simp_all
    moreover from this(1) that(2) have "t' = r" by (simp add: get_valid_token_def)
    ultimately show ?thesis using assms by simp
  qed
  with Inr eq show ?thesis by (auto simp: authorized_request_def split: prod.splits sum.splits)
qed (simp add: authorized_request_def)

text \<open>C36.
  The proxy speaks for the operator and for nobody else. What it does depends on the cloud only
  through requests that carry the operator's token and no cookie, no other authentication and no host
  name of the browser, and it does nothing at all for a peer that is not on this machine, for a browser
  without a session, and for a request that may change something and comes under another host name or
  without the matching pair of CSRF tokens.
\<close>

theorem proxy_speaks_for_operator:
  assumes "\<And>t cl srv. operator_token call (bf_session b) t \<Longrightarrow> only_bearer t cl \<Longrightarrow> cloud cl srv = cloud' cl srv"
  shows "proxy cloud call rq b = proxy cloud' call rq b \<and>
    (if lr_client_host rq \<notin> Some ` set TRUSTED_HOSTNAMES \<or> \<not> has_session (bf_session b) \<or> \<not> truthy (lr_session_cookie rq) \<or>
        lr_method rq \<notin> set SAFE_METHODS \<and>
          (hostname_from_host_header (the_default [] (lr_host_header rq)) \<notin> set TRUSTED_HOSTNAMES \<or>
           \<not> truthy (lr_csrf_cookie rq) \<or> lr_csrf_cookie rq \<noteq> lr_csrf_header rq)
     then \<exists>c d. c \<in> {401, 403} \<and> proxy cloud call rq b = (b, Inl (Refused c (JStr d)))
     else proxy cloud call rq b = with_cloud (\<lambda>url. relayed cloud call (proxied_request rq) (proxied_reply url)) b)"
proof
  have "cloud (with_bearer t (proxied_request rq)) srv = cloud' (with_bearer t (proxied_request rq)) srv"
    if "operator_token call (bf_session b) t" for t srv
    using assms [OF that proxied_only_bearer] .
  then have "authorized_request cloud call (proxied_request rq) (bf_session b) srv =
      authorized_request cloud' call (proxied_request rq) (bf_session b) srv" for srv
    by (rule authorized_request_cong)
  then show "proxy cloud call rq b = proxy cloud' call rq b"
    by (simp add: proxy_def guarded_def with_cloud_def relayed_def split: option.split sum.split)
  show "if lr_client_host rq \<notin> Some ` set TRUSTED_HOSTNAMES \<or> \<not> has_session (bf_session b) \<or> \<not> truthy (lr_session_cookie rq) \<or>
        lr_method rq \<notin> set SAFE_METHODS \<and>
          (hostname_from_host_header (the_default [] (lr_host_header rq)) \<notin> set TRUSTED_HOSTNAMES \<or>
           \<not> truthy (lr_csrf_cookie rq) \<or> lr_csrf_cookie rq \<noteq> lr_csrf_header rq)
     then \<exists>c d. c \<in> {401, 403} \<and> proxy cloud call rq b = (b, Inl (Refused c (JStr d)))
     else proxy cloud call rq b = with_cloud (\<lambda>url. relayed cloud call (proxied_request rq) (proxied_reply url)) b"
    by (auto simp: proxy_def guarded_def require_loopback_def require_local_session_def verify_local_csrf_def
        verify_trusted_host_def refusal_def local_request.defs)
qed

definition demo_bff :: "nat bff" where
  "demo_bff = \<lparr>bf_agent = demo_agent\<lparr>ag_local := set_setting ''cloud_api_base_url'' ''https://c'' (ag_local demo_agent)\<rparr>,
     bf_session = demo_session, bf_cloud = 0\<rparr>"

definition demo_browser :: "string \<Rightarrow> string \<Rightarrow> browser_request" where
  "demo_browser meth host =
     \<lparr>lr_method = meth, lr_client_host = Some ''127.0.0.1'', lr_host_header = Some host, lr_session_cookie = Some ''1'',
      lr_csrf_cookie = Some ''k'', lr_csrf_header = Some ''k'', br_path = ''leads'', br_params = [],
      br_headers = [(''host'', host), (''cookie'', ''session=1''), (''accept'', ''*'')], br_body = []\<rparr>"

text \<open>A cloud that counts its requests, and one that answers a request with any other authentication differently.\<close>

definition counting_cloud :: "bool \<Rightarrow> nat cloud_fn" where
  "counting_cloud strict rq n =
     (n + 1, if strict \<and> \<not> only_bearer ''t'' rq then Inl HttpError else Inr (http_reply 200))"

theorem proxy_speaks_for_operator_witness:
  "proxy (counting_cloud False) (\<lambda>_ n. (n, Failed)) (demo_browser ''GET'' ''localhost:8000'') demo_bff =
     proxy (counting_cloud True) (\<lambda>_ n. (n, Failed)) (demo_browser ''GET'' ''localhost:8000'') demo_bff \<and>
   (\<exists>c d. proxy (counting_cloud True) (\<lambda>_ n. (n, Failed)) (demo_browser ''POST'' ''evil.example'') demo_bff =
      (demo_bff, Inl (Refused c (JStr d))))"
proof -
  have same: "counting_cloud False cl srv = counting_cloud True cl srv"
    if "operator_token (\<lambda>_ n. (n, Failed)) (bf_session demo_bff) t" "only_bearer t cl" for t cl srv
  proof -
    have "t = ''t''" using that(1) by (simp add: operator_token_def demo_bff_def demo_session_def)
    with that(2) show ?thesis by (simp add: counting_cloud_def)
  qed
  have evil: "hostname_from_host_header ''evil.example'' \<notin> set TRUSTED_HOSTNAMES" by code_simp
  have sel: "lr_method (demo_browser m h) = m" "lr_host_header (demo_browser m h) = Some h" for m h
    by (simp_all add: demo_browser_def)
  show ?thesis
  proof
    show "proxy (counting_cloud False) (\<lambda>_ n. (n, Failed)) (demo_browser ''GET'' ''localhost:8000'') demo_bff =
        proxy (counting_cloud True) (\<lambda>_ n. (n, Failed)) (demo_browser ''GET'' ''localhost:8000'') demo_bff"
      by (rule conjunct1 [OF proxy_speaks_for_operator]) (rule same)
    show "\<exists>c d. proxy (counting_cloud True) (\<lambda>_ n. (n, Failed)) (demo_browser ''POST'' ''evil.example'') demo_bff =
        (demo_bff, Inl (Refused c (JStr d)))"
      using conjunct2 [OF proxy_speaks_for_operator [where cloud = "counting_cloud True" and cloud' = "counting_cloud True"
          and call = "\<lambda>_ n. (n, Failed)" and b = demo_bff and rq = "demo_browser ''POST'' ''evil.example''", OF refl]] evil
      by (auto simp: sel SAFE_METHODS_def)
  qed
qed

section \<open>The Host header guards writes only\<close>

text \<open>The request ends in a guard: it is refused and nothing has changed, here or on the cloud.\<close>

definition turned_away :: "'s bff \<Rightarrow> 's bff \<times> (relay_exn + local_reply) \<Rightarrow> bool" where
  "turned_away b r = (\<exists>c d. c \<in> {401, 403} \<and> r = (b, Inl (Refused c (JStr d))))"

lemma guarded_turned_away:
  assumes "list_all (\<lambda>g. case g of None \<Rightarrow> True | Some (HTTPException c d) \<Rightarrow> c \<in> {401, 403} | Some (ServerError x) \<Rightarrow> False) (guards (bf_session b))"
    and "first_refusal (guards (bf_session b)) \<noteq> None"
  shows "turned_away b (guarded guards h b)"
proof -
  have "\<exists>c d. x = HTTPException c d \<and> c \<in> {401, 403}"
    if "list_all (\<lambda>g. case g of None \<Rightarrow> True | Some (HTTPException c d) \<Rightarrow> c \<in> {401, 403} | Some (ServerError x) \<Rightarrow> False) gs"
      "first_refusal gs = Some x" for gs x
    using that by (induction gs rule: first_refusal.induct) (auto split: http_exn.splits)
  from this [OF assms(1)] assms(2) show ?thesis
    by (auto simp: guarded_def turned_away_def refusal_def)
qed

lemmas guard_defs = require_loopback_def require_local_session_def verify_local_csrf_def verify_trusted_host_def
  local_guards_def router_guards_def local_request.defs

text \<open>C37.
  A page whose host name resolves to the loopback address (DNS rebinding) is refused every request
  that may change something: the relay to the cloud, the login, the logout, the revocation of one
  session or of all others, the emergency stop, and the creation, the resumption and the cancellation of a
  job each end in a guard and change nothing. But it can sign itself in and read. Whatever Host header it
  sends, the bootstrap route hands it the session and CSRF cookies of a signed-in operator, and a GET with
  that cookie is relayed to the cloud with the operator's token and answered.
\<close>

theorem host_guards_writes_only:
  assumes "has_session (bf_session b)" "cloud_base_url (ag_local (bf_agent b)) = Inr url"
    and "require_loopback (local_request.truncate rq) = None"
  shows "if lr_method rq \<in> set SAFE_METHODS then
      (\<exists>r. local_bootstrap csrf rq b = (b, Inr r) \<and> (''session'', Some ''1'') \<in> set (lp_set_cookies r) \<and> (''csrf'', Some csrf) \<in> set (lp_set_cookies r)) \<and>
      proxy cloud call (rq\<lparr>lr_session_cookie := Some ''1''\<rparr>) b = relayed cloud call (proxied_request rq) (proxied_reply url) b
    else if hostname_from_host_header (the_default [] (lr_host_header rq)) \<in> set TRUSTED_HOSTNAMES then True
    else
      turned_away b (proxy cloud call rq b) \<and>
      turned_away b (local_login cloud loads csrf rq b) \<and>
      turned_away b (local_logout revoke rq b) \<and>
      turned_away b (relay_revoke_session cloud call loads sid rq b) \<and>
      turned_away b (relay_revoke_others cloud call loads rq b) \<and>
      turned_away b (local_cancel_all cloud call rq b) \<and>
      (\<exists>x. agent_create_job config now hrq me fresh (bf_session b) (local_request.truncate rq) req st = (st, Inl x) \<and>
           agent_resume_job config now hrq me fresh (bf_session b) (local_request.truncate rq) i st = (st, Inl x) \<and>
           agent_cancel_job now hrq me (bf_session b) (local_request.truncate rq) i st = (st, Inl x) \<and>
           (\<exists>c d. x = HTTPException c d \<and> c \<in> {401, 403}))"
proof (cases "lr_method rq \<in> set SAFE_METHODS")
  case True
  with assms show ?thesis
    by (auto simp: local_bootstrap_def guarded_def redirect_reply_def set_local_session_cookies_def proxy_def with_cloud_def
        guard_defs proxied_request_def)
next
  case unsafe: False
  show ?thesis
  proof (cases "hostname_from_host_header (the_default [] (lr_host_header rq)) \<in> set TRUSTED_HOSTNAMES")
    case foreign: False
    note facts = unsafe foreign assms
    have "turned_away b (proxy cloud call rq b)"
      unfolding proxy_def by (rule guarded_turned_away) (use facts in \<open>auto simp: guard_defs\<close>)
    moreover have "turned_away b (local_login cloud loads csrf rq b)"
      unfolding local_login_def by (rule guarded_turned_away) (use facts in \<open>auto simp: guard_defs\<close>)
    moreover have "turned_away b (local_logout revoke rq b)"
      unfolding local_logout_def by (rule guarded_turned_away) (use facts in \<open>auto simp: guard_defs\<close>)
    moreover have "turned_away b (relay_revoke_session cloud call loads sid rq b)"
      unfolding relay_revoke_session_def by (rule guarded_turned_away) (use facts in \<open>auto simp: guard_defs\<close>)
    moreover have "turned_away b (relay_revoke_others cloud call loads rq b)"
      unfolding relay_revoke_others_def by (rule guarded_turned_away) (use facts in \<open>auto simp: guard_defs\<close>)
    moreover have "turned_away b (local_cancel_all cloud call rq b)"
      unfolding local_cancel_all_def by (rule guarded_turned_away) (use facts in \<open>auto simp: guard_defs\<close>)
    moreover obtain c d where "first_refusal (router_guards (bf_session b) (local_request.truncate rq)) = Some (HTTPException c d)"
      "c \<in> {401, 403}"
      using facts by (cases "truthy (lr_session_cookie rq)") (auto simp: guard_defs)
    ultimately show ?thesis
      using unsafe foreign by (auto simp: agent_create_job_def agent_resume_job_def agent_cancel_job_def split: prod.split)
  next
    case True
    with unsafe show ?thesis by simp
  qed
qed

theorem host_guards_writes_only_witness:
  "\<exists>r. local_bootstrap ''k'' (demo_browser ''GET'' ''evil.example'') demo_bff = (demo_bff, Inr r) \<and>
     (''session'', Some ''1'') \<in> set (lp_set_cookies r) \<and>
     bf_cloud (fst (proxy (counting_cloud True) (\<lambda>_ n. (n, Failed)) (demo_browser ''GET'' ''evil.example'') demo_bff)) = 1"
proof -
  have "has_session (bf_session demo_bff)" by (simp add: demo_bff_def demo_session_def has_session_def)
  moreover have "cloud_base_url (ag_local (bf_agent demo_bff)) = Inr ''https://c''"
    by (simp add: demo_bff_def cloud_base_url_def get_setting_def set_setting_def)
  moreover have "require_loopback (local_request.truncate (demo_browser ''GET'' ''evil.example'')) = None"
    by (simp add: demo_browser_def require_loopback_def local_request.defs TRUSTED_HOSTNAMES_def)
  ultimately have served: "(\<exists>r. local_bootstrap ''k'' (demo_browser ''GET'' ''evil.example'') demo_bff = (demo_bff, Inr r) \<and>
        (''session'', Some ''1'') \<in> set (lp_set_cookies r) \<and> (''csrf'', Some ''k'') \<in> set (lp_set_cookies r)) \<and>
      proxy (counting_cloud True) (\<lambda>_ n. (n, Failed)) ((demo_browser ''GET'' ''evil.example'')\<lparr>lr_session_cookie := Some ''1''\<rparr>) demo_bff =
        relayed (counting_cloud True) (\<lambda>_ n. (n, Failed)) (proxied_request (demo_browser ''GET'' ''evil.example'')) (proxied_reply ''https://c'') demo_bff"
    using host_guards_writes_only [of demo_bff "''https://c''" "demo_browser ''GET'' ''evil.example''" "''k''" "counting_cloud True"
        "\<lambda>_ n. (n, Failed)"] by (simp add: demo_browser_def SAFE_METHODS_def)
  have "authorized_request (counting_cloud True) (\<lambda>_ n. (n, Failed)) (proxied_request (demo_browser ''GET'' ''evil.example'')) demo_session 0 =
      ((demo_session, 1), Inr (http_reply 200))"
    using proxied_only_bearer [of "''t''" "demo_browser ''GET'' ''evil.example''"]
    by (simp add: authorized_request_def get_valid_token_def demo_session_def counting_cloud_def http_reply_def)
  then have "bf_cloud (fst (relayed (counting_cloud True) (\<lambda>_ n. (n, Failed)) (proxied_request (demo_browser ''GET'' ''evil.example''))
      (proxied_reply ''https://c'') demo_bff)) = 1"
    by (simp add: relayed_def demo_bff_def)
  moreover have "(demo_browser ''GET'' ''evil.example'')\<lparr>lr_session_cookie := Some ''1''\<rparr> = demo_browser ''GET'' ''evil.example''"
    by (simp add: demo_browser_def)
  ultimately show ?thesis using served by auto
qed

end
