(* ===== verification/Scraper.thy ===== *)
theory Scraper
  imports ImporterProps
begin

text \<open>
  The stand-alone scraper of the web directory (\<open>GovScraper/api\<close>, \<open>GovScraper/runner.py\<close>) and the
  way of its file into the catalog: what it writes is what the JSON import of the portal reads. The
  directory service and its pagination are those of \<open>Importer\<close>; \<open>_is_target_domain\<close> and
  \<open>_root_domain\<close> are the functions \<open>is_target\<close> and \<open>root_url\<close> there. A missing key of an entry is
  None, as there (a title that is null and not missing is not told apart from it).
\<close>

section \<open>Extraction\<close>

record scraped =
  sd_title :: string
  sd_url :: "string option"
  sd_contact_url :: "string option"
  sd_external_id :: "string option"

definition scraped_urls :: "string \<Rightarrow> string \<Rightarrow> py_exn + string option \<times> string option" where
  "scraped_urls raw_main raw_contact =
     (case is_target raw_main of
        Inl x \<Rightarrow> Inl x
      | Inr True \<Rightarrow>
          (case root_url raw_main of
             Inl x \<Rightarrow> Inl x
           | Inr url \<Rightarrow> (case is_target raw_contact of
                           Inl x \<Rightarrow> Inl x
                         | Inr t \<Rightarrow> Inr (Some url, if t then Some raw_contact else None)))
      | Inr False \<Rightarrow>
          (case is_target raw_contact of
             Inl x \<Rightarrow> Inl x
           | Inr True \<Rightarrow> (case root_url raw_contact of Inl x \<Rightarrow> Inl x | Inr url \<Rightarrow> Inr (Some url, None))
           | Inr False \<Rightarrow> Inr (None, None)))"

definition record_key :: "string option \<Rightarrow> string \<Rightarrow> string option \<Rightarrow> string" where
  "record_key external_id title url =
     (if truthy external_id then the external_id else title @ ''|'' @ the_default [] (or_none url))"

text \<open>The place of an entry: its state, its organisation type and its key there, and the record.\<close>

definition extract_entry :: "live_entry \<Rightarrow> py_exn + (string \<times> string \<times> string \<times> scraped)" where
  "extract_entry e =
     (case scraped_urls (the_default [] (le_url e)) (the_default [] (le_url_1 e)) of
        Inl x \<Rightarrow> Inl x
      | Inr (url, contact_url) \<Rightarrow>
          (let external_id = or_none (le_npi_sanitized_id e); title = the_default [] (le_title e) in
           Inr (the_default ''National / Unknown'' (or_none (le_state_name e)),
                the_default ''UNKNOWN'' (or_none (le_organization_type e)),
                record_key external_id title url,
                \<lparr>sd_title = title, sd_url = url, sd_contact_url = contact_url, sd_external_id = external_id\<rparr>)))"

type_synonym 'v grouping = "(string \<times> (string \<times> 'v) list) list"

text \<open>\<open>d.setdefault(k, [])\<close> followed by an update of the value there.\<close>

definition update_default :: "'k \<Rightarrow> ('v list \<Rightarrow> 'v list) \<Rightarrow> ('k \<times> 'v list) list \<Rightarrow> ('k \<times> 'v list) list" where
  "update_default k f d = dict_put k (f (the_default [] (map_of d k))) d"

definition place_record :: "string \<Rightarrow> string \<Rightarrow> string \<Rightarrow> 'r \<Rightarrow> (string \<times> 'r) list grouping \<Rightarrow> (string \<times> 'r) list grouping" where
  "place_record state org key r g = update_default state (update_default org (dict_put key r)) g"

fun extract_loop :: "live_entry list \<Rightarrow> (string \<times> scraped) list grouping \<Rightarrow> py_exn + (string \<times> scraped) list grouping" where
  "extract_loop [] g = Inr g"
| "extract_loop (e # es) g =
     (case extract_entry e of
        Inl x \<Rightarrow> Inl x
      | Inr (state, org, key, r) \<Rightarrow> extract_loop es (place_record state org key r g))"

definition extract_from_entries :: "live_entry list \<Rightarrow> py_exn + scraped list grouping" where
  "extract_from_entries entries =
     (case extract_loop entries [] of
        Inl x \<Rightarrow> Inl x
      | Inr g \<Rightarrow> Inr (map (\<lambda>(state, orgs). (state, map (\<lambda>(org, rs). (org, map snd rs)) orgs)) g))"

section \<open>The run over all categories\<close>

record organisation =
  og_title :: string
  og_url :: "string option"
  og_contact_url :: "string option"
  og_category :: string
  og_state :: string
  og_org_type :: string

type_synonym discovered = "(string \<times> organisation) list"

text \<open>A key that has been seen keeps its first record.\<close>

definition add_organisation :: "string \<Rightarrow> string \<Rightarrow> string \<Rightarrow> discovered \<Rightarrow> scraped \<Rightarrow> discovered" where
  "add_organisation category state org_title found r =
     (let key = record_key (sd_external_id r) (sd_title r) (sd_url r) in
      if key \<in> set (map fst found) then found
      else found @ [(key, \<lparr>og_title = sd_title r, og_url = sd_url r, og_contact_url = sd_contact_url r,
                           og_category = category, og_state = state, og_org_type = org_title\<rparr>)])"

definition add_grouped :: "string \<Rightarrow> (string \<rightharpoonup> string) \<Rightarrow> scraped list grouping \<Rightarrow> discovered \<Rightarrow> discovered" where
  "add_grouped category org_mapping g found =
     foldl (\<lambda>found (state, orgs).
        foldl (\<lambda>found (o_code, rs).
          foldl (add_organisation category state (case org_mapping o_code of Some t \<Rightarrow> t | None \<Rightarrow> o_code)) found rs)
          found orgs)
       found g"

text \<open>
  An organisation type without the key of its code or its title spoils the titles of its category: the
  codes are used instead. A null code is a key like any other, but no entry has it.
\<close>

definition scraper_org_map :: "directory_api \<Rightarrow> string \<Rightarrow> (string \<rightharpoonup> string)" where
  "scraper_org_map api code =
     (case da_org_types api code of
        Inl x \<Rightarrow> Map.empty
      | Inr ots \<Rightarrow>
          if list_ex (\<lambda>(t, title). t = None \<or> title = None) ots then Map.empty
          else map_of (rev (List.map_filter (\<lambda>(t, title). map_option (\<lambda>c. (c, the title)) (the t)) ots)))"

text \<open>None: the pagination of a category does not end. A category that fails is logged and skipped.\<close>

fun scrape_categories ::
  "directory_api \<Rightarrow> string \<Rightarrow> string \<Rightarrow> (string \<times> string option) list \<Rightarrow> discovered \<Rightarrow> (py_exn + discovered) option" where
  "scrape_categories api cat_filter org_filter [] found = Some (Inr found)"
| "scrape_categories api cat_filter org_filter ((code, cat_title) # cats) found =
     (case cat_title of
        None \<Rightarrow> Some (Inl KeyError)
      | Some category \<Rightarrow>
          if cat_filter \<noteq> [] \<and> code \<noteq> cat_filter then scrape_categories api cat_filter org_filter cats found
          else
            (case get_entries_for_category api code (if org_filter \<noteq> [] then Some org_filter else None) of
               None \<Rightarrow> None
             | Some (Inl _) \<Rightarrow> scrape_categories api cat_filter org_filter cats found
             | Some (Inr entries) \<Rightarrow>
                 (case extract_from_entries entries of
                    Inl _ \<Rightarrow> scrape_categories api cat_filter org_filter cats found
                  | Inr g \<Rightarrow>
                      scrape_categories api cat_filter org_filter cats
                        (add_grouped category (scraper_org_map api code) g found))))"

definition run_all_domains :: "directory_api \<Rightarrow> string \<Rightarrow> string \<Rightarrow> (py_exn + discovered) option" where
  "run_all_domains api cat_filter org_filter =
     (case da_categories api of
        Inl _ \<Rightarrow> Some (Inr [])
      | Inr cats \<Rightarrow> scrape_categories api cat_filter org_filter cats [])"

definition json_record :: "string \<times> organisation \<Rightarrow> json_entry" where
  "json_record kr = Org_entry (Some (og_title (snd kr))) (og_url (snd kr)) (og_contact_url (snd kr)) (Some (fst kr))"

definition add_json_record :: "directory \<Rightarrow> string \<times> organisation \<Rightarrow> directory" where
  "add_json_record dir kr =
     (let r = snd kr; state = the_default ''National / Unknown'' (or_none (Some (og_state r)))
      in update_default (og_category r) (update_default state (update_default (og_org_type r) (\<lambda>rs. rs @ [json_record kr]))) dir)"

definition build_gov_domains :: "discovered \<Rightarrow> directory" where
  "build_gov_domains flat = foldl add_json_record [] flat"

definition build_gov_domains_json :: "directory_api \<Rightarrow> string \<Rightarrow> string \<Rightarrow> (py_exn + directory) option" where
  "build_gov_domains_json api cat_filter org_filter =
     (case run_all_domains api cat_filter org_filter of
        None \<Rightarrow> None
      | Some (Inl x) \<Rightarrow> Some (Inl x)
      | Some (Inr flat) \<Rightarrow> Some (Inr (build_gov_domains flat)))"

end
