(* ===== verification/ScraperProps.thy ===== *)
theory ScraperProps
  imports Scraper AgentRuntime ParserProps
begin

text \<open>
  Properties of the scraper: the root of a target URL is a target URL and its own root, every
  organisation of a fetched category is in the file, and the file is imported completely.
\<close>

section \<open>The root of a URL\<close>

lemma takeWhile_all: "list_all P xs \<Longrightarrow> takeWhile P xs = xs \<and> dropWhile P xs = []"
  by (induction xs) auto

lemma scheme_char_lower: "scheme_char c \<Longrightarrow> scheme_char (py_lower_char c) \<and> is_alpha c = is_alpha (py_lower_char c)"
proof -
  assume sc: "scheme_char c"
  have "code_point (py_lower_char c) = (if 65 \<le> code_point c \<and> code_point c \<le> 90 then code_point c + 32 else code_point c)"
    if "code_point c \<le> 191"
    using that by (auto simp: py_lower_char_def Let_def code_point_char_of)
  moreover have "code_point c \<le> 122"
    using sc by (auto simp: scheme_char_def is_alpha_def is_decimal_def Let_def code_point_def)
  ultimately have low: "code_point (py_lower_char c) = (if 65 \<le> code_point c \<and> code_point c \<le> 90 then code_point c + 32 else code_point c)"
    by simp
  show ?thesis
  proof (cases "65 \<le> code_point c \<and> code_point c \<le> 90")
    case True
    then have "is_alpha (py_lower_char c)" "is_alpha c" using low by (simp_all add: is_alpha_def Let_def)
    then show ?thesis by (simp add: scheme_char_def)
  next
    case False
    then have "py_lower_char c = c" using \<open>code_point c \<le> 122\<close> by (auto simp: py_lower_char_def Let_def)
    with sc show ?thesis by simp
  qed
qed

lemma scheme_char_plain: "scheme_char c \<Longrightarrow> 32 < code_point c \<and> c \<notin> {CHR '':'', CHR 0x09, CHR 0x0D, CHR 0x0A}"
  by (auto simp: scheme_char_def is_alpha_def is_decimal_def Let_def code_point_def)

lemma py_cut_none: "c \<notin> set a \<Longrightarrow> py_cut c (a @ c # s) = (a, Some s)"
  by (induction a) auto

lemma py_cut_prefix: "py_cut c s = (a, b) \<Longrightarrow> c \<notin> set a"
  by (induction s arbitrary: a b) (auto split: if_splits prod.splits)

lemma startswith_split: "py_startswith u pre \<Longrightarrow> \<exists>us. u = pre @ us"
  unfolding py_startswith_def by (metis append_take_drop_id)

lemma scheme_lower:
  "list_all scheme_char s \<Longrightarrow> s \<noteq> [] \<Longrightarrow>
     list_all scheme_char (py_lower s) \<and> py_lower s \<noteq> [] \<and> is_alpha (hd (py_lower s)) = is_alpha (hd s)"
proof -
  assume s: "list_all scheme_char s" "s \<noteq> []"
  have "list_all scheme_char (py_lower t)" if "list_all scheme_char t" for t
    using that scheme_char_lower [THEN conjunct1] by (induction t) (simp_all add: py_lower_def)
  moreover obtain c t where "s = c # t" using s(2) by (cases s) auto
  moreover from this s have "is_alpha c = is_alpha (py_lower_char c)" using scheme_char_lower [of c] by simp
  ultimately show ?thesis using s by (simp add: py_lower_def scheme_char_lower [THEN conjunct1])
qed

definition root_of :: "split_result \<Rightarrow> string" where
  "root_of p = ur_scheme p @ ''://'' @ ur_netloc p"

lemma urlsplit_root:
  assumes split: "urlsplit u = Inr p" and http: "py_startswith u ''http''" and net: "ur_netloc p \<noteq> []"
  shows "urlsplit (root_of p) = Inr \<lparr>ur_scheme = ur_scheme p, ur_netloc = ur_netloc p, ur_path = [], ur_query = [], ur_fragment = []\<rparr>"
    and "py_startswith (root_of p) ''http''"
proof -
  let ?drop = "\<lambda>c. c \<notin> {CHR 0x09, CHR 0x0D, CHR 0x0A}"
  define is_end where "is_end = (\<lambda>c. c \<in> {CHR ''/'', CHR ''?'', CHR ''#''})"
  define url where "url = filter ?drop (dropWhile (\<lambda>c. code_point c \<le> 32) u)"
  obtain before after where cut: "py_cut (CHR '':'') url = (before, after)" by fastforce
  define has_scheme where "has_scheme = (after \<noteq> None \<and> before \<noteq> [] \<and> is_alpha (hd before) \<and> list_all scheme_char before)"
  define rest where "rest = (if has_scheme then the after else url)"
  define tail where "tail = (if py_startswith rest ''//'' then dropWhile (\<lambda>c. \<not> is_end c) (drop 2 rest) else rest)"
  define netloc where "netloc = (if py_startswith rest ''//'' then takeWhile (\<lambda>c. \<not> is_end c) (drop 2 rest) else [])"
  define bad where "bad = ((CHR ''['' \<in> set netloc) \<noteq> (CHR '']'' \<in> set netloc))"
  define bad_host where "bad_host = (CHR ''['' \<in> set netloc \<and> \<not> check_bracketed_host (bracketed_host netloc))"
  obtain pq fragment where pq: "py_cut (CHR ''#'') tail = (pq, fragment)" by fastforce
  obtain pa query where pa: "py_cut (CHR ''?'') pq = (pa, query)" by fastforce
  have "(if bad then Inl ValueError else if bad_host then Inl ValueError
         else Inr \<lparr>ur_scheme = (if has_scheme then py_lower before else []), ur_netloc = netloc, ur_path = pa,
                   ur_query = the_default [] query, ur_fragment = the_default [] fragment\<rparr>) = Inr p"
    using split unfolding urlsplit_def Let_def url_def [symmetric] cut prod.case has_scheme_def [symmetric] rest_def [symmetric]
      is_end_def [symmetric] tail_def [symmetric] netloc_def [symmetric] bad_def [symmetric] bad_host_def [symmetric] pq pa .
  then have parts: "\<not> bad" "\<not> bad_host" and N: "ur_netloc p = netloc"
    and sc: "ur_scheme p = (if has_scheme then py_lower before else [])"
    by (auto split: if_splits)
  have nl: "ur_netloc p = (if py_startswith rest ''//'' then takeWhile (\<lambda>c. \<not> is_end c) (drop 2 rest) else [])"
    by (simp add: N netloc_def)
  obtain us where us: "u = ''http'' @ us" using startswith_split [OF http] by blast
  then have url: "url = ''http'' @ filter ?drop us" by (simp add: url_def us code_point_def)
  have slashes: "py_startswith rest ''//''" using nl net by (auto split: if_splits)
  have scheme: has_scheme
  proof (rule ccontr)
    assume "\<not> has_scheme"
    then show False using slashes by (simp add: rest_def url py_startswith_def)
  qed
  have "\<exists>bs. before = ''http'' @ bs" using cut scheme by (auto simp: url has_scheme_def split: prod.splits)
  then obtain bs where bs: "before = ''http'' @ bs" by blast
  have lower: "py_lower ''http'' = ''http''" by code_simp
  have S: "ur_scheme p = py_lower before" using sc scheme by simp
  have letters: "before \<noteq> []" "is_alpha (hd before)" "list_all scheme_char before"
    using scheme by (simp_all add: has_scheme_def)
  have chars: "list_all scheme_char (ur_scheme p)" "ur_scheme p \<noteq> []" "is_alpha (hd (ur_scheme p))"
    using scheme_lower [OF letters(3,1)] letters(2) unfolding S by simp_all
  have plain: "32 < code_point c \<and> c \<notin> {CHR '':'', CHR 0x09, CHR 0x0D, CHR 0x0A}" if "c \<in> set (ur_scheme p)" for c
    using chars(1) that scheme_char_plain by (auto simp: list_all_iff)
  have net_chars: "list_all (\<lambda>c. ?drop c \<and> \<not> is_end c) (ur_netloc p)"
  proof -
    have "set (ur_netloc p) \<subseteq> set rest" using nl slashes by (auto dest: set_takeWhileD in_set_dropD)
    also have "set rest \<subseteq> set url" using py_cut_append [OF cut] scheme by (auto simp: rest_def has_scheme_def)
    finally have "\<forall>c \<in> set (ur_netloc p). ?drop c" by (auto simp: url_def)
    moreover have "\<forall>c \<in> set (ur_netloc p). \<not> is_end c" using nl slashes by (auto dest: set_takeWhileD)
    ultimately show ?thesis by (simp add: list_all_iff)
  qed
  have lower_lower: "py_lower (ur_scheme p) = ur_scheme p" by (simp add: S)
  obtain s0 ss where s0: "ur_scheme p = s0 # ss" using chars(2) by (cases "ur_scheme p") auto
  have stripped: "filter ?drop (dropWhile (\<lambda>c. code_point c \<le> 32) (root_of p)) = root_of p"
  proof -
    have "dropWhile (\<lambda>c. code_point c \<le> 32) (root_of p) = root_of p" using plain [of s0] by (simp add: root_of_def s0)
    moreover have "filter ?drop (root_of p) = root_of p"
      using plain net_chars by (auto simp: root_of_def filter_id_conv list_all_iff)
    ultimately show ?thesis by simp
  qed
  have cut': "py_cut (CHR '':'') (root_of p) = (ur_scheme p, Some (''//'' @ ur_netloc p))"
    using py_cut_none [of "CHR '':''" "ur_scheme p" "''//'' @ ur_netloc p"] plain by (auto simp: root_of_def)
  have net': "takeWhile (\<lambda>c. \<not> is_end c) (ur_netloc p) = ur_netloc p" "dropWhile (\<lambda>c. \<not> is_end c) (ur_netloc p) = []"
    using takeWhile_all [of "\<lambda>c. \<not> is_end c" "ur_netloc p"] net_chars by (auto simp: list_all_iff)
  have cut_empty: "py_cut c [] = ([], None)" for c by simp
  show "urlsplit (root_of p) = Inr \<lparr>ur_scheme = ur_scheme p, ur_netloc = ur_netloc p, ur_path = [], ur_query = [], ur_fragment = []\<rparr>"
    unfolding urlsplit_def Let_def stripped cut' prod.case is_end_def [symmetric]
    using parts [unfolded bad_def bad_host_def N [symmetric]]
    by (simp add: py_startswith_def chars lower_lower net' cut_empty
        del: takeWhile_eq_all_conv dropWhile_eq_Nil_conv)
  show "py_startswith (root_of p) ''http''"
    unfolding root_of_def S bs by (simp only: py_lower_append lower append_assoc py_startswith_append)
qed

lemma root_url_is_root:
  assumes "is_target u = Inr True" "root_url u = Inr r"
  shows "is_target r = Inr True" "root_url r = Inr r"
proof -
  obtain p where p: "urlsplit u = Inr p" "r = root_of p" using assms(2) by (auto simp: root_url_def root_of_def split: sum.splits)
  have http: "py_startswith u ''http''" and suffix: "list_ex (py_endswith (ur_netloc p)) TARGET_SUFFIXES"
    using assms(1) p(1) by (auto simp: is_target_def url_netloc_def split: if_splits sum.splits)
  then have "ur_netloc p \<noteq> []" by (auto simp: TARGET_SUFFIXES_def py_endswith_def)
  note root = urlsplit_root [OF p(1) http this]
  have "root_of p \<noteq> []" by (simp add: root_of_def)
  then show "is_target r = Inr True" using root suffix by (simp add: is_target_def url_netloc_def p(2))
  show "root_url r = Inr r" using root by (simp add: root_url_def p(2)) (simp add: root_of_def)
qed

section \<open>Extraction\<close>

definition urls_ok :: "string option \<Rightarrow> string option \<Rightarrow> bool" where
  "urls_ok url contact =
     (case url of
        None \<Rightarrow> contact = None
      | Some u \<Rightarrow> is_target u = Inr True \<and> root_url u = Inr u \<and>
          (case contact of None \<Rightarrow> True | Some c \<Rightarrow> is_target c = Inr True))"

lemma scraped_urls_ok: "scraped_urls m c = Inr (url, contact) \<Longrightarrow> urls_ok url contact"
proof -
  assume s: "scraped_urls m c = Inr (url, contact)"
  consider (main) r where "is_target m = Inr True" "root_url m = Inr r" "url = Some r"
      "contact = None \<or> contact = Some c \<and> is_target c = Inr True"
    | (contact) r where "is_target c = Inr True" "root_url c = Inr r" "url = Some r" "contact = None"
    | (none) "url = None" "contact = None"
    using s by (fastforce simp: scraped_urls_def split: sum.splits bool.splits if_splits)
  then show ?thesis
  proof cases
    case main
    with root_url_is_root [OF main(1,2)] show ?thesis by (auto simp: urls_ok_def)
  next
    case contact
    with root_url_is_root [OF contact(1,2)] show ?thesis by (auto simp: urls_ok_def)
  qed (simp add: urls_ok_def)
qed

lemma is_target_empty: "is_target [] = Inr False"
  by (simp add: is_target_def)

lemma target_urls_of_ok:
  "urls_ok url contact \<Longrightarrow> target_urls (the_default [] url) (the_default [] contact) = Inr (url, contact)"
  by (auto simp: urls_ok_def target_urls_def is_target_empty split: option.splits)

text \<open>A record that stands under its own key, and is resolved to itself.\<close>

definition scraped_ok :: "string \<times> scraped \<Rightarrow> bool" where
  "scraped_ok kr =
     (fst kr = record_key (sd_external_id (snd kr)) (sd_title (snd kr)) (sd_url (snd kr)) \<and>
      urls_ok (sd_url (snd kr)) (sd_contact_url (snd kr)))"

lemma extract_entry_ok: "extract_entry e = Inr (state, org, key, r) \<Longrightarrow> scraped_ok (key, r)"
  using scraped_urls_ok by (auto simp: extract_entry_def scraped_ok_def Let_def split: sum.splits)

lemma map_of_dict_put_default: "the_default [] (map_of (dict_put k v d) k) = v"
  by (induction k v d rule: dict_put.induct) auto

text \<open>What an update of the value of a key does to a collection over all the values.\<close>

lemma update_default_mset:
  assumes "F k [] = []" "\<And>v. mset (F k (g v)) = mset (F k v) + M"
  shows "mset (concat (map (\<lambda>(k, v). F k v) (update_default k g d))) = mset (concat (map (\<lambda>(k, v). F k v) d)) + M"
  unfolding update_default_def
proof (induction d)
  case Nil
  then show ?case using assms(2) [of "[]"] by (simp add: assms(1))
next
  case (Cons kv d)
  then show ?case using assms(2) by (cases kv) (simp add: add.assoc add.commute add.left_commute)
qed

lemma update_default_set:
  assumes "F [] = {}" "\<And>v. F (g v) \<subseteq> F v \<union> M"
  shows "(\<Union>kv \<in> set (update_default k g d). F (snd kv)) \<subseteq> (\<Union>kv \<in> set d. F (snd kv)) \<union> M"
  unfolding update_default_def
proof (induction d)
  case Nil
  then show ?case using assms(2) [of "[]"] by (simp add: assms(1))
next
  case (Cons kv d)
  then show ?case using assms(2) by (cases kv) auto
qed

lemma update_default_union:
  assumes "F [] = {}" "\<And>v. F (g v) = F v \<union> M"
  shows "(\<Union>kv \<in> set d. F (snd kv)) \<union> M = (\<Union>kv \<in> set (update_default k g d). F (snd kv))"
  unfolding update_default_def
proof (induction d)
  case Nil
  then show ?case using assms(2) [of "[]"] by (simp add: assms(1))
next
  case (Cons kv d)
  then show ?case using assms(2) by (cases kv) auto
qed

text \<open>The records of a grouping with their keys, and the keys alone.\<close>

definition grouped :: "(string \<times> 'r) list grouping \<Rightarrow> (string \<times> 'r) set" where
  "grouped g = (\<Union>so \<in> set g. \<Union>oc \<in> set (snd so). set (snd oc))"

definition grouped_keys :: "(string \<times> 'r) list grouping \<Rightarrow> string set" where
  "grouped_keys g = (\<Union>so \<in> set g. \<Union>oc \<in> set (snd so). fst ` set (snd oc))"

lemma place_record_grouped: "grouped (place_record state org key r g) \<subseteq> grouped g \<union> {(key, r)}"
proof -
  have "set (dict_put key r v) \<subseteq> set v \<union> {(key, r)}" for v
    using set_dict_put [of key r v] by simp
  then show ?thesis
    unfolding grouped_def place_record_def by (intro update_default_set) simp_all
qed

lemma fst_set_dict_put: "fst ` set (dict_put k v d) = fst ` set d \<union> {k}"
  by (induction k v d rule: dict_put.induct) auto

lemma place_record_keys: "grouped_keys (place_record state org key r g) = grouped_keys g \<union> {key}"
  unfolding grouped_keys_def place_record_def
  by (intro update_default_union [symmetric]) (simp_all add: fst_set_dict_put update_default_union [symmetric])

definition entry_keys :: "live_entry list \<Rightarrow> string set" where
  "entry_keys es = {key. \<exists>e \<in> set es. \<exists>state org r. extract_entry e = Inr (state, org, key, r)}"

lemma extract_loop_grouped:
  assumes "extract_loop es g = Inr g'" "\<forall>kr \<in> grouped g. scraped_ok kr"
  shows "(\<forall>kr \<in> grouped g'. scraped_ok kr) \<and> grouped_keys g' = grouped_keys g \<union> entry_keys es"
  using assms
proof (induction es arbitrary: g)
  case Nil
  then show ?case by (simp add: entry_keys_def)
next
  case (Cons e es)
  obtain state org key r where e: "extract_entry e = Inr (state, org, key, r)"
    using Cons.prems(1) by (auto split: sum.splits)
  have "\<forall>kr \<in> grouped (place_record state org key r g). scraped_ok kr"
    using place_record_grouped [of state org key r g] extract_entry_ok [OF e] Cons.prems(2) by auto
  moreover have "entry_keys (e # es) = {key} \<union> entry_keys es" by (auto simp: entry_keys_def e)
  ultimately show ?case
    using Cons.IH [of "place_record state org key r g"] Cons.prems(1) by (simp add: e place_record_keys)
qed

text \<open>The records of an extraction, and their keys: those of all the entries.\<close>

definition grouping_records :: "scraped list grouping \<Rightarrow> scraped set" where
  "grouping_records g = (\<Union>so \<in> set g. \<Union>oc \<in> set (snd so). set (snd oc))"

definition key_of :: "scraped \<Rightarrow> string" where
  "key_of r = record_key (sd_external_id r) (sd_title r) (sd_url r)"

lemma extract_from_entries_records:
  assumes "extract_from_entries es = Inr g"
  shows "(\<forall>r \<in> grouping_records g. urls_ok (sd_url r) (sd_contact_url r)) \<and> key_of ` grouping_records g = entry_keys es"
proof -
  obtain g0 where g0: "extract_loop es [] = Inr g0"
    and g: "g = map (\<lambda>(state, orgs). (state, map (\<lambda>(org, rs). (org, map snd rs)) orgs)) g0"
    using assms by (auto simp: extract_from_entries_def split: sum.splits)
  have ok: "\<forall>kr \<in> grouped g0. scraped_ok kr" and keys: "grouped_keys g0 = entry_keys es"
    using extract_loop_grouped [OF g0] by (simp_all add: grouped_def grouped_keys_def)
  have records: "grouping_records g = snd ` grouped g0"
    by (simp add: grouping_records_def grouped_def g image_UN split_def)
  have "grouped_keys g0 = fst ` grouped g0" by (simp add: grouped_keys_def grouped_def image_UN)
  moreover have "key_of ` snd ` grouped g0 = fst ` grouped g0"
    unfolding image_image using ok by (intro image_cong) (auto simp: scraped_ok_def key_of_def)
  ultimately show ?thesis using ok keys by (auto simp: records scraped_ok_def)
qed

section \<open>The run\<close>

definition organisations_ok :: "discovered \<Rightarrow> bool" where
  "organisations_ok found =
     (distinct (map fst found) \<and>
      (\<forall>kr \<in> set found. fst kr \<noteq> [] \<and> urls_ok (og_url (snd kr)) (og_contact_url (snd kr))))"

abbreviation keys :: "discovered \<Rightarrow> string set" where
  "keys found \<equiv> set (map fst found)"

lemma key_of_nonempty: "key_of r \<noteq> []"
  by (cases "sd_external_id r") (auto simp: key_of_def record_key_def truthy_def)

lemma add_organisation_adds:
  assumes "urls_ok (sd_url r) (sd_contact_url r)" "organisations_ok found"
  shows "organisations_ok (add_organisation cat state org found r) \<and>
    keys (add_organisation cat state org found r) = keys found \<union> {key_of r}"
  using assms key_of_nonempty [of r]
  by (auto simp: add_organisation_def Let_def organisations_ok_def key_of_def [symmetric])

lemma foldl_collects:
  assumes "\<And>x f. x \<in> set xs \<Longrightarrow> organisations_ok f \<Longrightarrow> organisations_ok (h f x) \<and> keys (h f x) = keys f \<union> K x"
    "organisations_ok found"
  shows "organisations_ok (foldl h found xs) \<and> keys (foldl h found xs) = keys found \<union> (\<Union>x \<in> set xs. K x)"
  using assms
proof (induction xs arbitrary: found)
  case Nil
  then show ?case by simp
next
  case (Cons x xs)
  have "organisations_ok (h found x)" "keys (h found x) = keys found \<union> K x"
    using Cons.prems by simp_all
  with Cons.IH [of "h found x"] Cons.prems(1) show ?case by auto
qed

lemma add_grouped_adds:
  assumes "\<forall>r \<in> grouping_records g. urls_ok (sd_url r) (sd_contact_url r)" "organisations_ok found"
  shows "organisations_ok (add_grouped cat m g found) \<and>
    keys (add_grouped cat m g found) = keys found \<union> key_of ` grouping_records g"
proof -
  let ?K = "\<lambda>so. \<Union>oc \<in> set (snd so). key_of ` set (snd oc)"
  have "organisations_ok (add_grouped cat m g found) \<and> keys (add_grouped cat m g found) = keys found \<union> (\<Union>so \<in> set g. ?K so)"
    unfolding add_grouped_def
  proof (rule foldl_collects [OF _ assms(2)])
    fix so f
    assume so: "so \<in> set g" and f: "organisations_ok f"
    obtain state orgs where p: "so = (state, orgs)" by (cases so)
    have "organisations_ok (foldl (\<lambda>found (o_code, rs).
        foldl (add_organisation cat state (case m o_code of Some t \<Rightarrow> t | None \<Rightarrow> o_code)) found rs) f orgs) \<and>
      keys (foldl (\<lambda>found (o_code, rs).
        foldl (add_organisation cat state (case m o_code of Some t \<Rightarrow> t | None \<Rightarrow> o_code)) found rs) f orgs) =
      keys f \<union> ?K so"
      unfolding p snd_conv
    proof (rule foldl_collects [OF _ f])
      fix oc f1
      assume oc: "oc \<in> set orgs" and f1: "organisations_ok f1"
      obtain o_code rs where q: "oc = (o_code, rs)" by (cases oc)
      have "urls_ok (sd_url r) (sd_contact_url r)" if "r \<in> set rs" for r
        using assms(1) so oc that by (fastforce simp: grouping_records_def p q)
      then show "organisations_ok (case oc of (o_code, rs) \<Rightarrow>
            foldl (add_organisation cat state (case m o_code of Some t \<Rightarrow> t | None \<Rightarrow> o_code)) f1 rs) \<and>
          keys (case oc of (o_code, rs) \<Rightarrow>
            foldl (add_organisation cat state (case m o_code of Some t \<Rightarrow> t | None \<Rightarrow> o_code)) f1 rs) =
          keys f1 \<union> key_of ` set (snd oc)"
        using foldl_collects [of rs _ "\<lambda>r. {key_of r}", OF add_organisation_adds f1]
        by (simp add: q UNION_singleton_eq_range)
    qed
    then show "organisations_ok (case so of (state, orgs) \<Rightarrow> foldl (\<lambda>found (o_code, rs).
          foldl (add_organisation cat state (case m o_code of Some t \<Rightarrow> t | None \<Rightarrow> o_code)) found rs) f orgs) \<and>
        keys (case so of (state, orgs) \<Rightarrow> foldl (\<lambda>found (o_code, rs).
          foldl (add_organisation cat state (case m o_code of Some t \<Rightarrow> t | None \<Rightarrow> o_code)) found rs) f orgs) =
        keys f \<union> ?K so"
      by (simp add: p)
  qed
  then show ?thesis by (simp add: grouping_records_def image_UN)
qed

text \<open>The keys a category contributes: those of its entries when it passes the filter, was fetched and could be extracted.\<close>

definition category_keys :: "directory_api \<Rightarrow> string \<Rightarrow> string \<Rightarrow> string \<times> string option \<Rightarrow> string set" where
  "category_keys api cf orgf c =
     (if cf \<noteq> [] \<and> fst c \<noteq> cf then {}
      else case get_entries_for_category api (fst c) (if orgf \<noteq> [] then Some orgf else None) of
             Some (Inr es) \<Rightarrow> (case extract_from_entries es of Inl _ \<Rightarrow> {} | Inr _ \<Rightarrow> entry_keys es)
           | _ \<Rightarrow> {})"

lemma scrape_categories_finds:
  assumes "scrape_categories api cf orgf cats found = Some (Inr flat)" "organisations_ok found"
  shows "organisations_ok flat \<and> keys flat = keys found \<union> (\<Union>c \<in> set cats. category_keys api cf orgf c)"
  using assms
proof (induction cats arbitrary: found)
  case Nil
  then show ?case by simp
next
  case (Cons c cats)
  obtain code category where c: "c = (code, Some category)"
    using Cons.prems(1) by (cases c) (auto split: option.splits)
  let ?answer = "get_entries_for_category api code (if orgf \<noteq> [] then Some orgf else None)"
  consider (skipped) "category_keys api cf orgf c = {}" "scrape_categories api cf orgf cats found = Some (Inr flat)"
    | (added) es g where "category_keys api cf orgf c = entry_keys es" "extract_from_entries es = Inr g"
        "scrape_categories api cf orgf cats (add_grouped category (scraper_org_map api code) g found) = Some (Inr flat)"
    using Cons.prems(1)
    by (cases "cf \<noteq> [] \<and> code \<noteq> cf"; cases ?answer)
      (auto simp: c category_keys_def split: sum.splits if_splits)
  then show ?case
  proof cases
    case skipped
    with Cons.IH [OF skipped(2) Cons.prems(2)] show ?thesis by simp
  next
    case added
    note records = extract_from_entries_records [OF added(2)]
    note grown = add_grouped_adds [OF records [THEN conjunct1] Cons.prems(2), of category "scraper_org_map api code"]
    from Cons.IH [OF added(3) grown [THEN conjunct1]] grown records added(1) show ?thesis by auto
  qed
qed

section \<open>The file\<close>

definition organisation_domain :: "string \<times> organisation \<Rightarrow> domain_entry" where
  "organisation_domain kr =
     json_domain (og_category (snd kr)) (state_of (the_default ''National / Unknown'' (or_none (Some (og_state (snd kr))))))
       (og_org_type (snd kr))
       \<lparr>re_title = (if og_title (snd kr) \<noteq> [] then og_title (snd kr)
                   else case og_url (snd kr) of Some u \<Rightarrow> title_from_url u | None \<Rightarrow> []),
        re_main_url = og_url (snd kr), re_contact_url = og_contact_url (snd kr), re_external_id = Some (fst kr)\<rparr>"

lemma resolve_json_record:
  assumes "fst kr \<noteq> []" "urls_ok (og_url (snd kr)) (og_contact_url (snd kr))"
  shows "kept_entries (og_category (snd kr)) (state_of state) (og_org_type (snd kr)) [json_record kr] =
      [json_domain (og_category (snd kr)) (state_of state) (og_org_type (snd kr))
        \<lparr>re_title = (if og_title (snd kr) \<noteq> [] then og_title (snd kr)
                   else case og_url (snd kr) of Some u \<Rightarrow> title_from_url u | None \<Rightarrow> []),
         re_main_url = og_url (snd kr), re_contact_url = og_contact_url (snd kr), re_external_id = Some (fst kr)\<rparr>]"
    and "\<exists>r. resolve_json_entry (json_record kr) = Inr r"
  using assms target_urls_of_ok [OF assms(2)]
  by (simp_all add: kept_entries_def map_filter_simps json_record_def resolve_json_entry_def or_none_def truthy_def)

lemma kept_entries_append:
  "kept_entries cat state org (es @ fs) = kept_entries cat state org es @ kept_entries cat state org fs"
  by (simp add: kept_entries_def List.map_filter_def)

lemma kept_entries_Nil: "kept_entries cat state org [] = []"
  by (simp add: kept_entries_def map_filter_simps)

text \<open>A record is one more entry of the directory, whatever is gathered from the entries.\<close>

lemma add_json_record_mset:
  fixes F :: "string \<Rightarrow> string \<Rightarrow> string \<Rightarrow> json_entry list \<Rightarrow> 'b list"
  assumes "\<And>c s t. F c s t [] = []" "\<And>c s t es fs. F c s t (es @ fs) = F c s t es @ F c s t fs"
  shows "mset (concat (map (\<lambda>(c, states). concat (map (\<lambda>(s, orgs). concat (map (\<lambda>(t, es). F c s t es) orgs)) states))
      (add_json_record dir kr))) =
    mset (concat (map (\<lambda>(c, states). concat (map (\<lambda>(s, orgs). concat (map (\<lambda>(t, es). F c s t es) orgs)) states)) dir)) +
    mset (F (og_category (snd kr)) (the_default ''National / Unknown'' (or_none (Some (og_state (snd kr)))))
      (og_org_type (snd kr)) [json_record kr])"
  unfolding add_json_record_def Let_def
  by (intro update_default_mset) (simp_all add: assms)

definition all_entries :: "directory \<Rightarrow> json_entry list" where
  "all_entries dir =
     concat (map (\<lambda>(c, states). concat (map (\<lambda>(s, orgs). concat (map (\<lambda>(t, es). es) orgs)) states)) dir)"

lemma build_gov_domains_entries:
  assumes "\<forall>kr \<in> set flat. fst kr \<noteq> [] \<and> urls_ok (og_url (snd kr)) (og_contact_url (snd kr))"
  shows "mset (directory_entries (foldl add_json_record dir flat)) =
      mset (directory_entries dir) + mset (map organisation_domain flat)"
    and "mset (all_entries (foldl add_json_record dir flat)) = mset (all_entries dir) + mset (map json_record flat)"
  using assms
proof (induction flat arbitrary: dir)
  case (Cons kr flat)
  {
    case 1
    have "mset (directory_entries (add_json_record dir kr)) = mset (directory_entries dir) + {#organisation_domain kr#}"
      unfolding directory_entries_def organisation_domain_def
      using add_json_record_mset [of "\<lambda>c s t. kept_entries c (state_of s) t" dir kr]
      by (simp add: kept_entries_append kept_entries_Nil resolve_json_record 1)
    with Cons.IH(1) 1 show ?case by simp
  next
    case 2
    have "mset (all_entries (add_json_record dir kr)) = mset (all_entries dir) + {#json_record kr#}"
      unfolding all_entries_def
      using add_json_record_mset [of "\<lambda>c s t es. es" dir kr] by simp
    with Cons.IH(2) 2 show ?case by simp
  }
qed simp_all

text \<open>An import fails only on an entry that cannot be resolved.\<close>

abbreviation entry_resolves :: "json_entry \<Rightarrow> bool" where
  "entry_resolves e \<equiv> \<exists>r. resolve_json_entry e = Inr r"

lemma import_entries_ok: "\<forall>e \<in> set es. entry_resolves e \<Longrightarrow> \<exists>h1. import_entries cat state org es h = (h1, None)"
  by (induction es arbitrary: h) auto

lemma import_org_map_ok:
  "\<forall>e \<in> set (concat (map (\<lambda>(t, es). es) orgs)). entry_resolves e \<Longrightarrow> \<exists>h1. import_org_map cat state orgs h = (h1, None)"
proof (induction orgs arbitrary: h)
  case (Cons oe orgs)
  obtain t es where oe: "oe = (t, es)" by (cases oe)
  let ?h1 = "h\<lparr>hv_org_types := dict_put (org_code_of t) t (hv_org_types h),
      hv_status := (hv_status h)\<lparr>is_total_entries := is_total_entries (hv_status h) + length es\<rparr>\<rparr>"
  obtain h2 where "import_entries cat state t es ?h1 = (h2, None)"
    using import_entries_ok [of es cat state t ?h1] Cons.prems by (auto simp: oe)
  moreover have "\<exists>h3. import_org_map cat state orgs h2 = (h3, None)" using Cons by simp
  ultimately show ?case by (simp add: oe)
qed simp

lemma import_states_ok:
  "\<forall>e \<in> set (concat (map (\<lambda>(s, orgs). concat (map (\<lambda>(t, es). es) orgs)) states)). entry_resolves e \<Longrightarrow>
   \<exists>h1. import_states cat states h = (h1, None)"
proof (induction states arbitrary: h)
  case (Cons so states)
  obtain s orgs where so: "so = (s, orgs)" by (cases so)
  obtain h2 where "import_org_map cat (state_of s) orgs h = (h2, None)"
    using import_org_map_ok [of orgs cat "state_of s" h] Cons.prems by (auto simp: so)
  moreover have "\<exists>h3. import_states cat states h2 = (h3, None)" using Cons by simp
  ultimately show ?case by (simp add: so)
qed simp

lemma import_directory_ok: "\<forall>e \<in> set (all_entries dir). entry_resolves e \<Longrightarrow> \<exists>h1. import_directory dir h = (h1, None)"
proof (induction dir arbitrary: h)
  case (Cons cs dir)
  obtain cat states where cs: "cs = (cat, states)" by (cases cs)
  let ?h1 = "h\<lparr>hv_categories := dict_put (cat_code_of cat) cat (hv_categories h)\<rparr>"
  obtain h2 where "import_states cat states ?h1 = (h2, None)"
    using import_states_ok [of states cat ?h1] Cons.prems by (auto simp: cs all_entries_def)
  moreover have "\<exists>h3. import_directory dir (category_done h2) = (h3, None)" using Cons by (simp add: all_entries_def)
  ultimately show ?case by (simp add: cs)
qed simp

lemma map_of_rev_keys:
  assumes "distinct (map fst xs)"
  shows "map_of (rev xs) = map_of xs"
proof
  fix k
  have "map_of (rev xs) k = Some v \<longleftrightarrow> map_of xs k = Some v" for v
    using assms by (simp add: map_of_eq_Some_iff rev_map [symmetric])
  then show "map_of (rev xs) k = map_of xs k" by (cases "map_of xs k"; cases "map_of (rev xs) k") auto
qed

text \<open>Entries with keys of their own are all kept.\<close>

lemma deduped_distinct:
  assumes "distinct (catalog_keys 0 es)"
  shows "mset (deduped es) = mset es"
proof -
  obtain order m where d: "dedupe_entries 0 es ([], Map.empty) = (order, m)" by fastforce
  let ?ks = "catalog_keys 0 es"
  have spec: "distinct order" "set order = set ?ks" "m = map_of (rev (zip ?ks es))"
    using dedupe_entries_top [OF d] by simp_all
  have len: "length ?ks = length es" by (simp add: catalog_keys_def)
  have "mset order = mset ?ks" using spec(1,2) assms by (simp add: set_eq_iff_mset_eq_distinct)
  then have "mset (map (\<lambda>k. the (m k)) order) = mset (map (\<lambda>k. the (m k)) ?ks)" by (metis mset_map)
  moreover have "map (\<lambda>k. the (m k)) ?ks = es"
  proof (rule nth_equalityI)
    fix i
    assume "i < length (map (\<lambda>k. the (m k)) ?ks)"
    then have i: "i < length es" by (simp add: len)
    have "map_of (rev (zip ?ks es)) (?ks ! i) = map_of (zip ?ks es) (?ks ! i)"
      using assms len by (simp add: map_of_rev_keys)
    also have "\<dots> = Some (es ! i)" using map_of_zip_nth [OF len assms i] by simp
    finally show "map (\<lambda>k. the (m k)) ?ks ! i = es ! i" using i by (simp add: spec(3) len)
  qed (simp add: len)
  ultimately show ?thesis by (simp add: deduped_def d)
qed

lemma catalog_keys_external:
  "\<forall>e \<in> set es. truthy (de_external_id e) \<Longrightarrow>
   catalog_keys i es = map (\<lambda>e. ''ext:'' @ the (de_external_id e)) es"
  by (induction es arbitrary: i) (simp_all add: catalog_keys_Cons catalog_key_def catalog_keys_def)

text \<open>C38.
  The file of a run of the scraper is imported completely. Every organisation that the run has found
  is in the catalog afterwards, once and with what the file says of it, none is rejected, merged or
  lost on the way, and the import reports their number and no error. The run in turn has found the
  organisation of every entry of the categories that pass its filter, were fetched and could be
  extracted, and nothing else.
\<close>

theorem scraped_file_imports_completely:
  assumes "da_categories api = Inr cats" "run_all_domains api cf orgf = Some (Inr flat)"
  shows "set (map fst flat) = (\<Union>c \<in> set cats. category_keys api cf orgf c) \<and> distinct (map fst flat) \<and>
    (let (db', s') = import_from_json (Directory (build_gov_domains flat)) now s db
     in is_error s' = None \<and> is_inserted s' = length flat \<and>
        mset (map domain_entry.truncate (rows (domains db'))) = mset (map organisation_domain flat))"
proof -
  have run: "scrape_categories api cf orgf cats [] = Some (Inr flat)" using assms by (simp add: run_all_domains_def)
  have ok: "organisations_ok flat" and keys: "keys flat = (\<Union>c \<in> set cats. category_keys api cf orgf c)"
    using scrape_categories_finds [OF run] by (simp_all add: organisations_ok_def)
  then have each: "\<forall>kr \<in> set flat. fst kr \<noteq> [] \<and> urls_ok (og_url (snd kr)) (og_contact_url (snd kr))"
    by (simp add: organisations_ok_def)
  let ?dir = "build_gov_domains flat"
  have entries: "mset (directory_entries ?dir) = mset (map organisation_domain flat)"
    and files: "mset (all_entries ?dir) = mset (map json_record flat)"
    using build_gov_domains_entries [OF each, of "[]"] by (simp_all add: build_gov_domains_def directory_entries_def all_entries_def)
  have "entry_resolves e" if "e \<in> set (all_entries ?dir)" for e
    using that resolve_json_record(2) each unfolding mset_eq_setD [OF files] by auto
  then obtain h where "import_directory ?dir (harvest_start ''json'' (length ?dir)) = (h, None)"
    using import_directory_ok by blast
  moreover from this have h: "hv_entries h = directory_entries ?dir" "is_inserted (hv_status h) = length (directory_entries ?dir)"
      "is_error (hv_status h) = None"
    using import_directory_adds [of ?dir "harvest_start ''json'' (length ?dir)"] by (simp_all add: adds_def harvest_start_def started_def)
  moreover have "mset (deduped (directory_entries ?dir)) = mset (directory_entries ?dir)"
  proof (rule deduped_distinct)
    have "\<forall>e \<in> set (directory_entries ?dir). truthy (de_external_id e)"
      using each unfolding mset_eq_setD [OF entries] by (auto simp: organisation_domain_def json_domain_def)
    note external = catalog_keys_external [OF this, of 0]
    have "mset (map (\<lambda>e. ''ext:'' @ the (de_external_id e)) (directory_entries ?dir)) = mset (map (\<lambda>kr. ''ext:'' @ fst kr) flat)"
      using arg_cong [OF entries, of "image_mset (\<lambda>e. ''ext:'' @ the (de_external_id e))"]
      by (simp add: organisation_domain_def json_domain_def image_mset.compositionality comp_def)
    moreover have "distinct (map (\<lambda>kr. ''ext:'' @ fst kr) flat)"
      using ok by (simp add: organisations_ok_def distinct_map inj_on_def)
    ultimately show "distinct (catalog_keys 0 (directory_entries ?dir))"
      unfolding external by (metis mset_eq_imp_distinct_iff)
  qed
  moreover have "length (directory_entries ?dir) = length flat" using arg_cong [OF entries, of size] by simp
  ultimately show ?thesis
    using ok keys entries
      arg_cong [OF replace_catalog_rows(1) [of "hv_entries h" "hv_categories h" "hv_org_types h" now db], of mset]
    by (simp add: import_from_json_def conclude_def organisations_ok_def)
qed

text \<open>The service of two entries with titles for its categories; the second category cannot be fetched.\<close>

definition demo_titled_directory :: directory_api where
  "demo_titled_directory = demo_directory\<lparr>da_categories := Inr [(''ug'', Some ''Union Government''), (''sg'', Some ''States'')]\<rparr>"

definition demo_organisation :: "string \<Rightarrow> organisation" where
  "demo_organisation url =
     \<lparr>og_title = [], og_url = Some url, og_contact_url = None, og_category = ''Union Government'',
      og_state = ''National / Unknown'', og_org_type = ''UNKNOWN''\<rparr>"

definition demo_found :: discovered where
  "demo_found = [(''|http://a.gov.in'', demo_organisation ''http://a.gov.in''), (''|http://b.nic.in'', demo_organisation ''http://b.nic.in'')]"

lemma demo_scrape_run: "run_all_domains demo_titled_directory [] [] = Some (Inr demo_found)"
  by code_simp

theorem scraped_file_imports_completely_witness:
  "set (map fst demo_found) = (\<Union>c \<in> set [(''ug'', Some ''Union Government''), (''sg'', Some ''States'')]. category_keys demo_titled_directory [] [] c) \<and>
    distinct (map fst demo_found) \<and>
    (let (db', s') = import_from_json (Directory (build_gov_domains demo_found)) 7 (started ''json'') empty_crawl_db
     in is_error s' = None \<and> is_inserted s' = length demo_found \<and>
        mset (map domain_entry.truncate (rows (domains db'))) = mset (map organisation_domain demo_found))"
  by (rule scraped_file_imports_completely [OF _ demo_scrape_run]) (simp add: demo_titled_directory_def)

end
