(* ===== verification/Launcher.thy ===== *)
theory Launcher
  imports AgentRuntime
begin

text \<open>
  The control panel of the agent (\<open>agent/launcher/app.py\<close>): it starts the local server in a thread,
  signs the operator in, polls the activity and shuts down safely. All of its code runs on the Tk
  thread; what it waits for, an HTTP request in a thread of its own, a timer or a dialog, is a
  \<open>callback\<close> that has been handed out, and an event runs one of them with its outcome. A modal
  dialog runs the event loop, so its answer is a callback too, and only the buttons of the window
  are blocked by it. The outcome of a request is an argument: it may be as old as one likes,
  and open dialogs may be answered in any order. Beside the panel the local server works on the session
  of the agent while its thread serves: a refresh renews it, or clears it when it is rejected
  (\<open>refresh_session\<close>), and the browser signs the operator out or another one in (\<open>local_logout\<close> and
  \<open>local_login\<close> of AgentRelay); an event puts any session in the place of the present one. A request thread
  renews the token of the panel in two steps, its start and its end.
\<close>

section \<open>State\<close>

datatype app_state = IDLE | STARTING | RUNNING | CHECKING | CANCELLING | DRAINING | STOPPING

record activity_reply =
  ar_total_active :: nat
  ar_crawl_jobs :: "(nat \<times> string) list"

text \<open>A server thread builds its app, runs its server and ends.\<close>

datatype thread_phase = Loading | Serving | Ended

datatype callback =
  Ping nat
| Ping_timer nat
| Server_ready
| Login_dialog
| Login_request string string
| Login_error_box
| Abort_box
| Poll_timer
| Activity_request
| Job_request nat
| Check_request
| Ask_stop
| Cancel_request
| Cancel_error_box
| Drain_request
| Drain_timer
| Ask_force
| Stop_timer
| Crashed
| Download
| Info_box

record sign_in_data =
  lg_access_token :: string
  lg_refresh_token :: string
  lg_permissions :: "string set"
  lg_is_admin :: bool

text \<open>
  What a callback is run with. A reply is an error text or its data; with the answer to a login comes the
  CSRF cookie that \<open>/local-bootstrap\<close> sets, if it does.
\<close>

datatype callback_outcome =
  Done
| Pong bool
| Form "(string \<times> string) option"
| Login_reply "string + sign_in_data" "string option"
| Activity "string + activity_reply"
| Cancelled "string option"
| Answer bool
| Downloaded bool bool

text \<open>
  \<open>pn_server\<close> is the thread whose \<open>uvicorn.Server\<close> was made last, \<open>pn_exits\<close> the threads whose server was
  told to exit, \<open>pn_client\<close> the HTTP client with its CSRF cookie. \<open>self.server_thread\<close> is the last of
  \<open>pn_threads\<close>.
\<close>

record panel =
  pn_state :: app_state
  pn_browsers_ok :: bool
  pn_threads :: "thread_phase list"
  pn_server :: "nat option"
  pn_exits :: "nat set"
  pn_client :: "string option option"
  pn_tray :: bool
  pn_full_quit :: bool
  pn_drain_deadline :: "int option"
  pn_prev_jobs :: "nat list"
  pn_access_token :: "string option"
  pn_login_email :: "string option"
  pn_agent :: agent_session
  pn_settings :: local_db
  pn_renewals :: "string list"
  pn_exited :: bool
  pn_calls :: "callback list"

definition DRAIN_TIMEOUT_SECONDS :: int where
  "DRAIN_TIMEOUT_SECONDS = 180"

definition later :: "callback \<Rightarrow> panel \<Rightarrow> panel" where
  "later c p = p\<lparr>pn_calls := pn_calls p @ [c]\<rparr>"

definition cloud_url :: "panel \<Rightarrow> string" where
  "cloud_url p = the_default [] (get_setting ''cloud_api_base_url'' None (pn_settings p))"

definition clean_url :: "string option \<Rightarrow> string" where
  "clean_url answer = rev (dropWhile (\<lambda>c. c = CHR ''/'') (rev (py_strip (the_default [] answer))))"

text \<open>The first run; None: the process exits without a URL.\<close>

definition ensure_cloud_url_configured :: "string option \<Rightarrow> local_db \<Rightarrow> local_db option" where
  "ensure_cloud_url_configured answer db =
     (if has_setting ''cloud_api_base_url'' db then Some db
      else if clean_url answer = [] then None
      else Some (set_setting ''cloud_api_base_url'' (clean_url answer) db))"

definition new_panel :: "bool \<Rightarrow> agent_session \<Rightarrow> local_db \<Rightarrow> panel" where
  "new_panel browsers agent db =
     \<lparr>pn_state = IDLE, pn_browsers_ok = browsers, pn_threads = [], pn_server = None, pn_exits = {}, pn_client = None,
      pn_tray = False, pn_full_quit = False, pn_drain_deadline = None, pn_prev_jobs = [], pn_access_token = None,
      pn_login_email = None, pn_agent = agent, pn_settings = db, pn_renewals = [], pn_exited = False, pn_calls = []\<rparr>"

section \<open>Requests\<close>

definition auth_headers :: "panel \<Rightarrow> (string \<times> string) list" where
  "auth_headers p =
     (if truthy (pn_access_token p) then [(''Authorization'', ''Bearer '' @ the (pn_access_token p))] else []) @
     (case pn_client p of
        None \<Rightarrow> []
      | Some csrf \<Rightarrow> if truthy csrf then [(''X-CSRF-Token'', the csrf)] else [])"

text \<open>
  The renewal of the token on a request thread. Its start reads the email and the refresh token; at its end,
  after the answer, the panel may have been signed out or in again. Without an email the keyring raises,
  when the new token is already set.
\<close>

definition start_renewal :: "panel \<Rightarrow> string option" where
  "start_renewal p =
     (if \<not> truthy (pn_login_email p) then None
      else (let token = as_keyring (pn_agent p) (the (pn_login_email p)) in if truthy token then token else None))"

definition finish_renewal :: "refresh_reply \<Rightarrow> panel \<Rightarrow> panel \<times> bool" where
  "finish_renewal r p =
     (case r of
        Refreshed access perms is_admin refresh_token \<Rightarrow>
          (let p1 = p\<lparr>pn_access_token := Some access\<rparr> in
           case pn_login_email p of
             None \<Rightarrow> (p1, False)
           | Some email \<Rightarrow>
               (p1\<lparr>pn_agent := update_access_token access (Some perms) (Some is_admin)
                    ((pn_agent p)\<lparr>as_keyring := (as_keyring (pn_agent p))(email \<mapsto> refresh_token)\<rparr>)\<rparr>, True))
      | _ \<Rightarrow> (p, False))"

definition try_refresh :: "(string \<Rightarrow> 's \<Rightarrow> 's \<times> refresh_reply) \<Rightarrow> panel \<Rightarrow> 's \<Rightarrow> (panel \<times> 's) \<times> bool" where
  "try_refresh call p srv =
     (case start_renewal p of
        None \<Rightarrow> ((p, srv), False)
      | Some token \<Rightarrow>
          (case call token srv of
             (srv1, r) \<Rightarrow> (case finish_renewal r p of (p1, ok) \<Rightarrow> ((p1, srv1), ok))))"

text \<open>An answer of the local server: JSON, an error status with the detail of its body, or no answer.\<close>

datatype 'a api_reply = Ok_json 'a | Error_status nat "string option" string | No_reply string

fun friendly_http_error :: "'a api_reply \<Rightarrow> string" where
  "friendly_http_error (Error_status code detail t) = (if truthy detail then the detail else t)"
| "friendly_http_error (No_reply t) = t"
| "friendly_http_error (Ok_json a) = []"

definition settle :: "'a api_reply \<Rightarrow> string + 'a" where
  "settle r = (case r of Ok_json a \<Rightarrow> Inr a | _ \<Rightarrow> Inl (friendly_http_error r))"

definition api_task ::
  "(string \<Rightarrow> 's \<Rightarrow> 's \<times> refresh_reply) \<Rightarrow> ((string \<times> string) list \<Rightarrow> 's \<Rightarrow> 's \<times> 'a api_reply) \<Rightarrow>
   panel \<Rightarrow> 's \<Rightarrow> (panel \<times> 's) \<times> (string + 'a)" where
  "api_task call send p srv =
     (case send (auth_headers p) srv of
        (srv1, Error_status code detail t) \<Rightarrow>
          if code = 401
          then (case try_refresh call p srv1 of
                  ((p1, srv2), True) \<Rightarrow> (case send (auth_headers p1) srv2 of (srv3, r) \<Rightarrow> ((p1, srv3), settle r))
                | (st, False) \<Rightarrow> (st, settle (Error_status code detail t :: 'a api_reply)))
          else ((p, srv1), settle (Error_status code detail t :: 'a api_reply))
      | (srv1, r) \<Rightarrow> ((p, srv1), settle r))"

definition browser_uri :: "string \<Rightarrow> panel \<Rightarrow> string" where
  "browser_uri base p = (if truthy (pn_access_token p) then base @ ''/local-bootstrap'' else base)"

section \<open>Shutdown\<close>

definition hard_exit :: "panel \<Rightarrow> panel" where
  "hard_exit p = p\<lparr>pn_tray := False, pn_exited := True\<rparr>"

definition on_server_stopped :: "panel \<Rightarrow> panel" where
  "on_server_stopped p =
     (let p1 = p\<lparr>pn_server := None, pn_client := None, pn_access_token := None, pn_login_email := None,
                 pn_agent := clear_session (pn_agent p)\<rparr>
      in if pn_full_quit p then hard_exit p1 else p1\<lparr>pn_state := IDLE\<rparr>)"

definition begin_graceful_shutdown :: "panel \<Rightarrow> panel" where
  "begin_graceful_shutdown p =
     (let p1 = p\<lparr>pn_state := STOPPING\<rparr> in
      case pn_server p of
        Some i \<Rightarrow> later Stop_timer (p1\<lparr>pn_exits := insert i (pn_exits p)\<rparr>)
      | None \<Rightarrow> on_server_stopped p1)"

definition check_shutdown_complete :: "panel \<Rightarrow> panel" where
  "check_shutdown_complete p =
     (if pn_threads p \<noteq> [] \<and> last (pn_threads p) \<noteq> Ended then later Stop_timer p else on_server_stopped p)"

definition schedule_poll :: "panel \<Rightarrow> panel" where
  "schedule_poll p = (if pn_state p \<noteq> RUNNING then p else later Activity_request p)"

definition request_quit :: "bool \<Rightarrow> panel \<Rightarrow> panel" where
  "request_quit full p =
     (if pn_state p = IDLE then hard_exit p
      else if pn_state p \<noteq> RUNNING then p
      else later Check_request (p\<lparr>pn_full_quit := full, pn_state := CHECKING\<rparr>))"

definition on_activity_for_shutdown :: "string + activity_reply \<Rightarrow> panel \<Rightarrow> panel" where
  "on_activity_for_shutdown r p =
     (case r of
        Inl err \<Rightarrow> begin_graceful_shutdown p
      | Inr data \<Rightarrow>
          if ar_total_active data = 0 then begin_graceful_shutdown p
          else later Ask_stop (p\<lparr>pn_state := RUNNING\<rparr>))"

definition begin_cancel_and_drain :: "panel \<Rightarrow> panel" where
  "begin_cancel_and_drain p = later Cancel_request (p\<lparr>pn_state := CANCELLING\<rparr>)"

definition on_cancel_all_issued :: "string option \<Rightarrow> int \<Rightarrow> panel \<Rightarrow> panel" where
  "on_cancel_all_issued err now p =
     (case err of
        Some e \<Rightarrow> later Cancel_error_box p
      | None \<Rightarrow>
          later Drain_request
            (p\<lparr>pn_drain_deadline := Some (now + DRAIN_TIMEOUT_SECONDS), pn_state := DRAINING\<rparr>))"

definition on_drain_activity :: "string + activity_reply \<Rightarrow> int \<Rightarrow> panel \<Rightarrow> panel" where
  "on_drain_activity r now p =
     (if pn_state p \<noteq> DRAINING then p
      else
        (let drained = (case r of Inr data \<Rightarrow> ar_total_active data = 0 | Inl err \<Rightarrow> False) in
         if drained then begin_graceful_shutdown p
         else
           (case pn_drain_deadline p of
              None \<Rightarrow> p
            | Some deadline \<Rightarrow> if deadline \<le> now then later Ask_force p else later Drain_timer p)))"

definition on_force_answer :: "bool \<Rightarrow> int \<Rightarrow> panel \<Rightarrow> panel" where
  "on_force_answer yes now p =
     (if yes then begin_graceful_shutdown p
      else later Drain_timer (p\<lparr>pn_drain_deadline := Some (now + DRAIN_TIMEOUT_SECONDS)\<rparr>))"

section \<open>Start and sign-in\<close>

definition trigger_start_server :: "panel \<Rightarrow> panel" where
  "trigger_start_server p =
     (if \<not> pn_browsers_ok p then later Info_box p
      else later (Ping 15)
        (p\<lparr>pn_state := STARTING, pn_client := Some None, pn_prev_jobs := [], pn_tray := True,
           pn_threads := pn_threads p @ [Loading]\<rparr>))"

definition on_toggle_server :: "panel \<Rightarrow> panel" where
  "on_toggle_server p =
     (case pn_state p of
        IDLE \<Rightarrow> trigger_start_server p
      | RUNNING \<Rightarrow> request_quit False p
      | _ \<Rightarrow> p)"

definition on_server_crashed :: "panel \<Rightarrow> panel" where
  "on_server_crashed p = later Info_box (p\<lparr>pn_server := None, pn_client := None, pn_state := IDLE\<rparr>)"

definition wait_for_server_ready :: "bool \<Rightarrow> nat \<Rightarrow> panel \<Rightarrow> panel" where
  "wait_for_server_ready pong attempts p =
     (if pong then later Server_ready p
      else if 1 < attempts then later (Ping_timer (attempts - 1)) p
      else later Server_ready p)"

definition prompt_login :: "panel \<Rightarrow> panel" where
  "prompt_login p = later Login_dialog p"

definition on_server_ready :: "panel \<Rightarrow> panel" where
  "on_server_ready p = (if pn_state p \<noteq> STARTING then p else prompt_login p)"

definition on_login_dialog :: "(string \<times> string) option \<Rightarrow> panel \<Rightarrow> panel" where
  "on_login_dialog form p =
     (case form of
        None \<Rightarrow> later Abort_box p
      | Some (email, password) \<Rightarrow>
          if py_strip email = [] \<or> password = [] then later Abort_box p
          else later (Login_request (py_strip email) password) p)"

definition on_login_success :: "string \<Rightarrow> sign_in_data \<Rightarrow> string option \<Rightarrow> panel \<Rightarrow> panel" where
  "on_login_success email d csrf p =
     schedule_poll
       (p\<lparr>pn_access_token := Some (lg_access_token d), pn_login_email := Some email,
          pn_agent := set_session email (lg_access_token d) (cloud_url p) (lg_permissions d) (lg_is_admin d)
            ((pn_agent p)\<lparr>as_keyring := (as_keyring (pn_agent p))(''_last_email'' \<mapsto> email, email \<mapsto> lg_refresh_token d)\<rparr>),
          pn_client := map_option (\<lambda>c. if csrf = None then c else csrf) (pn_client p),
          pn_state := RUNNING\<rparr>)"

definition on_download_done :: "bool \<Rightarrow> bool \<Rightarrow> panel \<Rightarrow> panel" where
  "on_download_done ok installed p =
     (let p1 = p\<lparr>pn_browsers_ok := installed\<rparr> in if ok then p1 else later Info_box p1)"

section \<open>Activity\<close>

definition check_for_completions :: "activity_reply \<Rightarrow> panel \<Rightarrow> panel" where
  "check_for_completions data p =
     (let cur = map fst (ar_crawl_jobs data) in
      p\<lparr>pn_calls := pn_calls p @ map Job_request (filter (\<lambda>j. j \<notin> set cur) (pn_prev_jobs p)),
        pn_prev_jobs := remdups cur\<rparr>)"

definition on_activity :: "string + activity_reply \<Rightarrow> panel \<Rightarrow> panel" where
  "on_activity r p =
     (let p1 = (case r of Inl err \<Rightarrow> p | Inr data \<Rightarrow> check_for_completions data p) in
      if pn_state p1 = RUNNING then later Poll_timer p1 else p1)"

section \<open>Events\<close>

text \<open>None: the callback is not run with such an outcome.\<close>

definition run_callback :: "callback \<Rightarrow> callback_outcome \<Rightarrow> int \<Rightarrow> panel \<Rightarrow> panel option" where
  "run_callback c out now p =
     (case c of
        Ping n \<Rightarrow> (case out of Pong ok \<Rightarrow> Some (wait_for_server_ready ok n p) | _ \<Rightarrow> None)
      | Ping_timer n \<Rightarrow> (case out of Done \<Rightarrow> Some (later (Ping n) p) | _ \<Rightarrow> None)
      | Server_ready \<Rightarrow> (case out of Done \<Rightarrow> Some (on_server_ready p) | _ \<Rightarrow> None)
      | Login_dialog \<Rightarrow> (case out of Form form \<Rightarrow> Some (on_login_dialog form p) | _ \<Rightarrow> None)
      | Login_request email password \<Rightarrow>
          (case out of
             Login_reply r csrf \<Rightarrow>
               (case r of Inr d \<Rightarrow> Some (on_login_success email d csrf p) | Inl err \<Rightarrow> Some (later Login_error_box p))
           | _ \<Rightarrow> None)
      | Login_error_box \<Rightarrow> (case out of Done \<Rightarrow> Some (prompt_login p) | _ \<Rightarrow> None)
      | Abort_box \<Rightarrow> (case out of Done \<Rightarrow> Some (begin_graceful_shutdown p) | _ \<Rightarrow> None)
      | Poll_timer \<Rightarrow> (case out of Done \<Rightarrow> Some (schedule_poll p) | _ \<Rightarrow> None)
      | Activity_request \<Rightarrow> (case out of Activity r \<Rightarrow> Some (on_activity r p) | _ \<Rightarrow> None)
      | Job_request j \<Rightarrow> (case out of Done \<Rightarrow> Some p | _ \<Rightarrow> None)
      | Check_request \<Rightarrow> (case out of Activity r \<Rightarrow> Some (on_activity_for_shutdown r p) | _ \<Rightarrow> None)
      | Ask_stop \<Rightarrow>
          (case out of Answer yes \<Rightarrow> Some (if yes then begin_cancel_and_drain p else schedule_poll p) | _ \<Rightarrow> None)
      | Cancel_request \<Rightarrow> (case out of Cancelled err \<Rightarrow> Some (on_cancel_all_issued err now p) | _ \<Rightarrow> None)
      | Cancel_error_box \<Rightarrow> (case out of Done \<Rightarrow> Some (schedule_poll (p\<lparr>pn_state := RUNNING\<rparr>)) | _ \<Rightarrow> None)
      | Drain_request \<Rightarrow> (case out of Activity r \<Rightarrow> Some (on_drain_activity r now p) | _ \<Rightarrow> None)
      | Drain_timer \<Rightarrow> (case out of Done \<Rightarrow> Some (later Drain_request p) | _ \<Rightarrow> None)
      | Ask_force \<Rightarrow> (case out of Answer yes \<Rightarrow> Some (on_force_answer yes now p) | _ \<Rightarrow> None)
      | Stop_timer \<Rightarrow> (case out of Done \<Rightarrow> Some (check_shutdown_complete p) | _ \<Rightarrow> None)
      | Crashed \<Rightarrow> (case out of Done \<Rightarrow> Some (on_server_crashed p) | _ \<Rightarrow> None)
      | Download \<Rightarrow> (case out of Downloaded ok installed \<Rightarrow> Some (on_download_done ok installed p) | _ \<Rightarrow> None)
      | Info_box \<Rightarrow> (case out of Done \<Rightarrow> Some p | _ \<Rightarrow> None))"

text \<open>The dialogs that block the buttons of the window.\<close>

fun is_dialog :: "callback \<Rightarrow> bool" where
  "is_dialog Login_dialog = True"
| "is_dialog Login_error_box = True"
| "is_dialog Abort_box = True"
| "is_dialog Ask_stop = True"
| "is_dialog Cancel_error_box = True"
| "is_dialog Ask_force = True"
| "is_dialog Info_box = True"
| "is_dialog c = False"

definition has_dialog :: "panel \<Rightarrow> bool" where
  "has_dialog p = list_ex is_dialog (pn_calls p)"

definition can_toggle :: "panel \<Rightarrow> bool" where
  "can_toggle p = ((pn_state p = IDLE \<or> pn_state p = RUNNING) \<and> (pn_state p \<noteq> IDLE \<or> pn_browsers_ok p))"

text \<open>
  What happens to the panel: the buttons of the window and the tray, the life of a server thread and what
  it does to the session of the agent, the start of a renewal of the token and the end of the one at a
  position with its answer, and the run of the callback at a position.
\<close>

datatype panel_event =
  Toggle
| Close_window
| Tray_quit
| Start_download
| Change_url "string option"
| Thread_up nat
| Thread_crash nat
| Thread_end nat
| Server_session nat agent_session
| Renew_start
| Renew_finish nat refresh_reply
| Run_callback nat callback_outcome int

definition change_cloud_url :: "string option \<Rightarrow> panel \<Rightarrow> panel" where
  "change_cloud_url answer p =
     (if clean_url answer = [] \<or> clean_url answer = cloud_url p then p
      else p\<lparr>pn_settings := set_setting ''cloud_api_base_url'' (clean_url answer) (pn_settings p)\<rparr>)"

text \<open>The window is hidden, not closed, while a server runs.\<close>

definition on_window_close :: "panel \<Rightarrow> panel" where
  "on_window_close p = (if pn_state p = IDLE then hard_exit p else p)"

definition trigger_download :: "panel \<Rightarrow> panel" where
  "trigger_download p = later Download p"

definition thread_is :: "nat \<Rightarrow> (thread_phase \<Rightarrow> bool) \<Rightarrow> panel \<Rightarrow> bool" where
  "thread_is i P p = (i < length (pn_threads p) \<and> P (pn_threads p ! i))"

definition set_thread :: "nat \<Rightarrow> thread_phase \<Rightarrow> panel \<Rightarrow> panel" where
  "set_thread i ph p = p\<lparr>pn_threads := (pn_threads p)[i := ph]\<rparr>"

fun panel_event_step :: "panel_event \<Rightarrow> panel \<Rightarrow> panel option" where
  "panel_event_step Toggle p = (if has_dialog p \<or> \<not> can_toggle p then None else Some (on_toggle_server p))"
| "panel_event_step Close_window p =
     (if has_dialog p then None else Some (on_window_close p))"
| "panel_event_step Tray_quit p = (if pn_tray p then Some (request_quit True p) else None)"
| "panel_event_step Start_download p =
     (if has_dialog p \<or> pn_state p \<noteq> IDLE then None else Some (trigger_download p))"
| "panel_event_step (Change_url answer) p =
     (if has_dialog p \<or> pn_state p \<noteq> IDLE then None else Some (change_cloud_url answer p))"
| "panel_event_step (Thread_up i) p =
     (if thread_is i (\<lambda>ph. ph = Loading) p then Some ((set_thread i Serving p)\<lparr>pn_server := Some i\<rparr>) else None)"
| "panel_event_step (Thread_crash i) p =
     (if thread_is i (\<lambda>ph. ph \<noteq> Ended) p then Some (later Crashed (set_thread i Ended p)) else None)"
| "panel_event_step (Thread_end i) p =
     (if thread_is i (\<lambda>ph. ph = Serving) p then Some (set_thread i Ended p) else None)"
| "panel_event_step (Server_session i s) p =
     (if thread_is i (\<lambda>ph. ph = Serving) p then Some (p\<lparr>pn_agent := s\<rparr>) else None)"
| "panel_event_step Renew_start p =
     (case start_renewal p of None \<Rightarrow> None | Some token \<Rightarrow> Some (p\<lparr>pn_renewals := pn_renewals p @ [token]\<rparr>))"
| "panel_event_step (Renew_finish k r) p =
     (if k < length (pn_renewals p)
      then Some (fst (finish_renewal r (p\<lparr>pn_renewals := take k (pn_renewals p) @ drop (Suc k) (pn_renewals p)\<rparr>)))
      else None)"
| "panel_event_step (Run_callback k out now) p =
     (if k < length (pn_calls p)
      then run_callback (pn_calls p ! k) out now (p\<lparr>pn_calls := take k (pn_calls p) @ drop (Suc k) (pn_calls p)\<rparr>)
      else None)"

definition panel_step :: "panel_event \<Rightarrow> panel \<Rightarrow> panel option" where
  "panel_step ev p = (if pn_exited p then None else panel_event_step ev p)"

fun run_panel :: "panel_event list \<Rightarrow> panel \<Rightarrow> panel option" where
  "run_panel [] p = Some p"
| "run_panel (ev # evs) p = (case panel_step ev p of None \<Rightarrow> None | Some p1 \<Rightarrow> run_panel evs p1)"

end
