(* ===== verification/LauncherProps.thy ===== *)
theory LauncherProps
  imports Launcher
begin

text \<open>
  Properties of the control panel: in an orderly run the state, the pending callback, the server thread
  and the sign-in of the panel always agree, whatever the local server does to the session of the agent; why a server is ever told to exit; and what a crash
  during sign-in, a declined quit and a repeated question do to the panel.
\<close>

section \<open>Orderly runs\<close>

text \<open>
  A run is orderly when no server thread dies of itself, the server is up before the sign-in begins and
  the tray does not quit while a dialog is open.
\<close>

fun orderly :: "panel \<Rightarrow> panel_event \<Rightarrow> bool" where
  "orderly p (Thread_crash i) = False"
| "orderly p (Thread_end i) = (i \<in> pn_exits p)"
| "orderly p Tray_quit = (\<not> has_dialog p)"
| "orderly p (Run_callback k out now) =
     (k < length (pn_calls p) \<and> pn_calls p ! k = Server_ready \<longrightarrow> pn_server p \<noteq> None)"
| "orderly p ev = True"

inductive orderly_run :: "panel \<Rightarrow> panel \<Rightarrow> bool" where
  here: "orderly_run p p"
| step: "orderly_run p q \<Longrightarrow> orderly q ev \<Longrightarrow> panel_step ev q = Some r \<Longrightarrow> orderly_run p r"

text \<open>The callbacks that carry the life of the server on; the others poll or inform.\<close>

fun lifecycle :: "callback \<Rightarrow> bool" where
  "lifecycle Poll_timer = False"
| "lifecycle Activity_request = False"
| "lifecycle (Job_request j) = False"
| "lifecycle Download = False"
| "lifecycle Info_box = False"
| "lifecycle c = True"

definition carrying :: "panel \<Rightarrow> callback list" where
  "carrying p = filter lifecycle (pn_calls p)"

text \<open>What a state waits for.\<close>

fun awaits :: "app_state \<Rightarrow> callback \<Rightarrow> bool" where
  "awaits IDLE c = False"
| "awaits STARTING c =
     (case c of
        Ping n \<Rightarrow> True | Ping_timer n \<Rightarrow> True | Server_ready \<Rightarrow> True | Login_dialog \<Rightarrow> True
      | Login_request e pw \<Rightarrow> True | Login_error_box \<Rightarrow> True | Abort_box \<Rightarrow> True | _ \<Rightarrow> False)"
| "awaits RUNNING c = (c = Ask_stop)"
| "awaits CHECKING c = (c = Check_request)"
| "awaits CANCELLING c = (c = Cancel_request \<or> c = Cancel_error_box)"
| "awaits DRAINING c = (c = Drain_request \<or> c = Drain_timer \<or> c = Ask_force)"
| "awaits STOPPING c = (c = Stop_timer)"

text \<open>The states in which the operator is signed in and the server serves.\<close>

definition in_service :: "app_state \<Rightarrow> bool" where
  "in_service st = (st \<in> {RUNNING, CHECKING, CANCELLING, DRAINING})"

fun signing_in :: "callback \<Rightarrow> bool" where
  "signing_in Login_dialog = True"
| "signing_in (Login_request e pw) = True"
| "signing_in Login_error_box = True"
| "signing_in Abort_box = True"
| "signing_in c = False"

definition serving :: "panel \<Rightarrow> bool" where
  "serving p = (pn_threads p \<noteq> [] \<and> last (pn_threads p) = Serving \<and> pn_server p = Some (length (pn_threads p) - 1))"

definition operator_in :: "panel \<Rightarrow> bool" where
  "operator_in p = (pn_access_token p \<noteq> None \<and> pn_login_email p \<noteq> None)"

definition nobody_in :: "panel \<Rightarrow> bool" where
  "nobody_in p = (pn_login_email p = None)"

definition operator_out :: "panel \<Rightarrow> bool" where
  "operator_out p = (nobody_in p \<and> \<not> has_session (pn_agent p))"

definition told_to_exit :: "panel \<Rightarrow> bool" where
  "told_to_exit p = (length (pn_threads p) - 1 \<in> pn_exits p \<and> pn_threads p \<noteq> [])"

definition panel_inv :: "panel \<Rightarrow> bool" where
  "panel_inv p =
     (pn_exits p \<subseteq> {..<length (pn_threads p)} \<and> list_all (\<lambda>ph. ph = Ended) (butlast (pn_threads p)) \<and>
      (pn_state p = DRAINING \<longrightarrow> pn_drain_deadline p \<noteq> None) \<and>
      (case pn_state p of
         IDLE \<Rightarrow> carrying p = [] \<and> list_all (\<lambda>ph. ph = Ended) (pn_threads p) \<and> pn_server p = None \<and> operator_out p
       | STARTING \<Rightarrow>
           (\<exists>c. carrying p = [c] \<and> awaits STARTING c \<and> (signing_in c \<longrightarrow> pn_server p \<noteq> None)) \<and> nobody_in p \<and>
           pn_threads p \<noteq> [] \<and> \<not> told_to_exit p \<and>
           (if pn_server p = None then last (pn_threads p) = Loading else serving p)
       | RUNNING \<Rightarrow> (carrying p = [] \<or> carrying p = [Ask_stop]) \<and> serving p \<and> \<not> told_to_exit p \<and> operator_in p
       | STOPPING \<Rightarrow> carrying p = [Stop_timer] \<and> told_to_exit p \<and> last (pn_threads p) \<noteq> Loading
       | st \<Rightarrow> (\<exists>c. carrying p = [c] \<and> awaits st c) \<and> serving p \<and> \<not> told_to_exit p \<and> operator_in p))"

lemma later_simps [simp]:
  "pn_state (later c p) = pn_state p" "pn_threads (later c p) = pn_threads p" "pn_server (later c p) = pn_server p"
  "pn_exits (later c p) = pn_exits p" "pn_access_token (later c p) = pn_access_token p"
  "pn_login_email (later c p) = pn_login_email p" "pn_agent (later c p) = pn_agent p" "pn_exited (later c p) = pn_exited p"
  "pn_drain_deadline (later c p) = pn_drain_deadline p" "pn_calls (later c p) = pn_calls p @ [c]" "pn_full_quit (later c p) = pn_full_quit p"
  by (simp_all add: later_def)

lemma carrying_later [simp]: "carrying (later c p) = carrying p @ (if lifecycle c then [c] else [])"
  by (simp add: carrying_def)

definition without_call :: "nat \<Rightarrow> panel \<Rightarrow> panel" where
  "without_call k p = p\<lparr>pn_calls := take k (pn_calls p) @ drop (Suc k) (pn_calls p)\<rparr>"

lemma carrying_without:
  assumes "k < length (pn_calls p)"
  shows "\<not> lifecycle (pn_calls p ! k) \<Longrightarrow> carrying (without_call k p) = carrying p"
    and "lifecycle (pn_calls p ! k) \<Longrightarrow> length (carrying p) \<le> 1 \<Longrightarrow> carrying p = [pn_calls p ! k] \<and> carrying (without_call k p) = []"
proof -
  have split: "carrying p = filter lifecycle (take k (pn_calls p)) @
      (if lifecycle (pn_calls p ! k) then [pn_calls p ! k] else []) @ filter lifecycle (drop (Suc k) (pn_calls p))"
    unfolding carrying_def
    by (rule trans [OF arg_cong [OF id_take_nth_drop [OF assms], of "filter lifecycle"]]) simp
  show "carrying (without_call k p) = carrying p" if "\<not> lifecycle (pn_calls p ! k)"
    using that by (simp add: split) (simp add: carrying_def without_call_def)
  show "carrying p = [pn_calls p ! k] \<and> carrying (without_call k p) = []"
    if "lifecycle (pn_calls p ! k)" "length (carrying p) \<le> 1"
    using that by (simp add: split) (simp add: carrying_def without_call_def)
qed

lemma without_simps [simp]:
  "pn_state (without_call k p) = pn_state p" "pn_threads (without_call k p) = pn_threads p" "pn_server (without_call k p) = pn_server p"
  "pn_exits (without_call k p) = pn_exits p" "pn_access_token (without_call k p) = pn_access_token p"
  "pn_login_email (without_call k p) = pn_login_email p" "pn_agent (without_call k p) = pn_agent p" "pn_exited (without_call k p) = pn_exited p"
  "pn_full_quit (without_call k p) = pn_full_quit p" "pn_drain_deadline (without_call k p) = pn_drain_deadline p"
  by (simp_all add: without_call_def)

lemma panel_inv_single: "panel_inv p \<Longrightarrow> length (carrying p) \<le> 1"
  by (auto simp: panel_inv_def split: app_state.splits)

text \<open>The parts of the invariant depend on a few fields only.\<close>

lemma part_cong [simp]:
  "serving (later c p) = serving p" "operator_in (later c p) = operator_in p" "operator_out (later c p) = operator_out p"
  "told_to_exit (later c p) = told_to_exit p" "serving (without_call k p) = serving p" "operator_in (without_call k p) = operator_in p"
  "operator_out (without_call k p) = operator_out p" "nobody_in (later c p) = nobody_in p" "nobody_in (without_call k p) = nobody_in p" "told_to_exit (without_call k p) = told_to_exit p"
  "serving (p\<lparr>pn_state := st\<rparr>) = serving p" "operator_in (p\<lparr>pn_state := st\<rparr>) = operator_in p"
  "told_to_exit (p\<lparr>pn_state := st\<rparr>) = told_to_exit p" "carrying (p\<lparr>pn_state := st\<rparr>) = carrying p"
  "serving (p\<lparr>pn_drain_deadline := d\<rparr>) = serving p" "operator_in (p\<lparr>pn_drain_deadline := d\<rparr>) = operator_in p"
  "told_to_exit (p\<lparr>pn_drain_deadline := d\<rparr>) = told_to_exit p" "carrying (p\<lparr>pn_drain_deadline := d\<rparr>) = carrying p"
  "serving (p\<lparr>pn_full_quit := b\<rparr>) = serving p" "operator_in (p\<lparr>pn_full_quit := b\<rparr>) = operator_in p"
  "told_to_exit (p\<lparr>pn_full_quit := b\<rparr>) = told_to_exit p" "carrying (p\<lparr>pn_full_quit := b\<rparr>) = carrying p"
  by (simp_all add: serving_def operator_in_def operator_out_def nobody_in_def told_to_exit_def carrying_def)

lemma panel_inv_cong:
  assumes "pn_state q = pn_state p" "carrying q = carrying p" "pn_threads q = pn_threads p" "pn_server q = pn_server p"
    "pn_exits q = pn_exits p" "pn_access_token q = pn_access_token p" "pn_login_email q = pn_login_email p" "pn_agent q = pn_agent p"
    "pn_drain_deadline q = pn_drain_deadline p"
  shows "panel_inv q = panel_inv p"
  unfolding panel_inv_def serving_def told_to_exit_def operator_in_def operator_out_def nobody_in_def assms ..

lemma begin_graceful_shutdown_inv:
  assumes "panel_inv p" "pn_server p = Some (length (pn_threads p) - 1)" "pn_threads p \<noteq> []" "last (pn_threads p) \<noteq> Loading"
    "carrying p1 = []" "pn_threads p1 = pn_threads p" "pn_server p1 = pn_server p" "pn_exits p1 = pn_exits p"
  shows "panel_inv (begin_graceful_shutdown p1)"
  using assms
  by (auto simp: panel_inv_def begin_graceful_shutdown_def Let_def told_to_exit_def carrying_def later_def)

lemma signed_out_stopped: "operator_out (p\<lparr>pn_access_token := None, pn_login_email := None, pn_agent := clear_session a\<rparr>)"
  by (simp add: operator_out_def nobody_in_def has_session_def clear_session_def no_identity_def)

lemma list_all_butlast: "list_all P (butlast xs) \<Longrightarrow> (xs \<noteq> [] \<Longrightarrow> P (last xs)) \<Longrightarrow> list_all P xs"
  by (cases xs rule: rev_cases) simp_all

lemma on_server_stopped_inv:
  assumes "panel_inv p" "pn_threads p1 = pn_threads p" "pn_exits p1 = pn_exits p" "carrying p1 = []"
    "pn_threads p \<noteq> [] \<Longrightarrow> last (pn_threads p) = Ended"
  shows "pn_exited (on_server_stopped p1) \<or> panel_inv (on_server_stopped p1)"
proof -
  have "list_all (\<lambda>ph. ph = Ended) (pn_threads p)"
    using list_all_butlast [of "\<lambda>ph. ph = Ended" "pn_threads p"] assms(1,5) by (simp add: panel_inv_def)
  then show ?thesis
    using assms(1-4)
    by (simp add: on_server_stopped_def Let_def hard_exit_def panel_inv_def carrying_def operator_out_def nobody_in_def has_session_def
        clear_session_def no_identity_def)
qed

lemma run_callback_poll_inv:
  assumes "panel_inv p" "carrying p1 = carrying p" "\<not> lifecycle c" "run_callback c out now p1 = Some q"
    "p1 = without_call k p"
  shows "panel_inv q"
proof -
  have inv: "panel_inv p1" using panel_inv_cong [of "without_call k p" p] assms(1,2,5) by simp
  have same: "panel_inv q'" if "pn_state q' = pn_state p1" "carrying q' = carrying p1" "pn_threads q' = pn_threads p1" "pn_server q' = pn_server p1"
      "pn_exits q' = pn_exits p1" "pn_access_token q' = pn_access_token p1" "pn_login_email q' = pn_login_email p1" "pn_agent q' = pn_agent p1" "pn_drain_deadline q' = pn_drain_deadline p1" for q'
    using panel_inv_cong [OF that] inv by simp
  have jobs: "filter lifecycle (map Job_request js) = []" for js by (induction js) simp_all
  show ?thesis
    using assms(3,4)
    by (cases c)
      (auto intro!: same simp: run_callback_def schedule_poll_def on_activity_def check_for_completions_def on_download_done_def Let_def
        carrying_def jobs split: callback_outcome.splits sum.splits if_splits)
qed

text \<open>What a state owes, read off and established.\<close>

lemma awaited: "panel_inv p \<Longrightarrow> carrying p = [c] \<Longrightarrow> awaits (pn_state p) c"
  by (auto simp: panel_inv_def split: app_state.splits)

lemma threads_ok: "panel_inv p \<Longrightarrow> pn_exits p \<subseteq> {..<length (pn_threads p)} \<and> list_all (\<lambda>ph. ph = Ended) (butlast (pn_threads p))"
  by (simp add: panel_inv_def)

lemma service_ok: "panel_inv p \<Longrightarrow> in_service (pn_state p) \<Longrightarrow> serving p \<and> \<not> told_to_exit p \<and> operator_in p"
  by (auto simp: panel_inv_def in_service_def split: app_state.splits)

lemma starting_ok:
  "panel_inv p \<Longrightarrow> pn_state p = STARTING \<Longrightarrow> carrying p = [c] \<Longrightarrow>
   (signing_in c \<longrightarrow> pn_server p \<noteq> None) \<and> nobody_in p \<and> pn_threads p \<noteq> [] \<and> \<not> told_to_exit p \<and>
   (if pn_server p = None then last (pn_threads p) = Loading else serving p)"
  by (auto simp: panel_inv_def)

lemma service_inv:
  assumes "panel_inv p" "pn_threads q = pn_threads p" "pn_exits q = pn_exits p"
    "in_service (pn_state q)" "serving q" "\<not> told_to_exit q" "operator_in q" "pn_state q = DRAINING \<longrightarrow> pn_drain_deadline q \<noteq> None"
    "case carrying q of [] \<Rightarrow> pn_state q = RUNNING | [c] \<Rightarrow> awaits (pn_state q) c | _ \<Rightarrow> False"
  shows "panel_inv q"
  using assms threads_ok [OF assms(1)]
  by (cases "pn_state q") (auto simp: panel_inv_def in_service_def split: list.splits)

lemma starting_inv:
  assumes "panel_inv p" "pn_state p = STARTING" "carrying p = [c]" "carrying q = [c1]" "awaits STARTING c1" "pn_state q = STARTING"
    "pn_threads q = pn_threads p" "pn_exits q = pn_exits p" "pn_server q = pn_server p" "nobody_in q"
    "signing_in c1 \<longrightarrow> pn_server p \<noteq> None"
  shows "panel_inv q"
  using assms threads_ok [OF assms(1)] starting_ok [OF assms(1-3)]
  by (auto simp: panel_inv_def serving_def told_to_exit_def)

lemma shutdown_inv:
  assumes "panel_inv p" "serving p" "carrying p1 = []" "pn_threads p1 = pn_threads p" "pn_server p1 = pn_server p" "pn_exits p1 = pn_exits p"
  shows "panel_inv (begin_graceful_shutdown p1)"
  by (rule begin_graceful_shutdown_inv [OF assms(1) _ _ _ assms(3-6)]) (use assms(2) in \<open>simp_all add: serving_def\<close>)

lemma run_callback_starting_inv:
  assumes inv: "panel_inv p" "pn_state p = STARTING" "carrying p = [c]" "carrying (without_call k p) = []"
    and run: "run_callback c out now (without_call k p) = Some q" and up: "c = Server_ready \<Longrightarrow> pn_server p \<noteq> None"
  shows "panel_inv q"
proof -
  note st = starting_ok [OF inv(1-3)]
  have next_step: "panel_inv q'"
    if "\<exists>c1. carrying q' = [c1] \<and> awaits STARTING c1 \<and> (signing_in c1 \<longrightarrow> pn_server p \<noteq> None)" "pn_state q' = STARTING"
      "pn_threads q' = pn_threads p" "pn_exits q' = pn_exits p" "pn_server q' = pn_server p" "nobody_in q'" for q'
    using that(1) by (elim exE conjE) (rule starting_inv [OF inv(1-3) _ _ that(2-6)])
  have aw: "awaits STARTING c" using awaited [OF inv(1,3)] inv(2) by simp
  show ?thesis
  proof (cases "c = Abort_box \<or> (\<exists>e pw d csrf. c = Login_request e pw \<and> out = Login_reply (Inr d) csrf)")
    case True
    then have serving: "serving p" using st by (auto split: if_splits)
    from True show ?thesis
    proof
      assume "c = Abort_box"
      then show ?thesis using run shutdown_inv [OF inv(1) serving inv(4)]
        by (auto simp: run_callback_def split: callback_outcome.splits)
    next
      assume "\<exists>e pw d csrf. c = Login_request e pw \<and> out = Login_reply (Inr d) csrf"
      then obtain e d csrf where q: "q = on_login_success e d csrf (without_call k p)" using run by (auto simp: run_callback_def)
      show ?thesis
        by (rule service_inv [OF inv(1)])
          (use st serving inv(4) in \<open>auto simp: q on_login_success_def schedule_poll_def in_service_def serving_def told_to_exit_def
             operator_in_def has_session_def set_session_def carrying_def\<close>)
    qed
  next
    case False
    then show ?thesis
      using run aw st inv(2,4) up
      by (cases c)
        (auto intro!: next_step simp: run_callback_def wait_for_server_ready_def on_server_ready_def prompt_login_def on_login_dialog_def
          split: callback_outcome.splits sum.splits if_splits option.splits)
  qed
qed

lemma run_callback_service_inv:
  assumes inv: "panel_inv p" "in_service (pn_state p)" "carrying p = [c]" "carrying (without_call k p) = []"
    and run: "run_callback c out now (without_call k p) = Some q"
  shows "panel_inv q"
proof -
  note st = service_ok [OF inv(1,2)]
  note stop = shutdown_inv [OF inv(1) st [THEN conjunct1] inv(4)]
  have next_step: "panel_inv q'"
    if "carrying q' = [] \<and> pn_state q' = RUNNING \<or> (\<exists>c1. carrying q' = [c1] \<and> awaits (pn_state q') c1)"
      "in_service (pn_state q')" "pn_threads q' = pn_threads p" "pn_exits q' = pn_exits p" "pn_server q' = pn_server p"
      "pn_access_token q' = pn_access_token p" "pn_login_email q' = pn_login_email p" "pn_agent q' = pn_agent p" "pn_state q' = DRAINING \<longrightarrow> pn_drain_deadline q' \<noteq> None" for q'
  proof (rule service_inv [OF inv(1) that(3,4,2) _ _ _ that(9)])
    have "serving q' = serving p" "told_to_exit q' = told_to_exit p" "operator_in q' = operator_in p"
      unfolding serving_def told_to_exit_def operator_in_def that(3-8) by (rule refl)+
    then show "serving q'" "\<not> told_to_exit q'" "operator_in q'" using st by simp_all
    show "case carrying q' of [] \<Rightarrow> pn_state q' = RUNNING | [c] \<Rightarrow> awaits (pn_state q') c | _ \<Rightarrow> False"
      using that(1) by (elim disjE conjE exE) simp_all
  qed
  have aw: "awaits (pn_state p) c" using awaited [OF inv(1,3)] .
  have out: "\<exists>q'. run_callback c out now p1 = Some q' \<Longrightarrow>
      (c = Ask_stop \<longrightarrow> (\<exists>yes. out = Answer yes)) \<and> (c = Check_request \<longrightarrow> (\<exists>r. out = Activity r)) \<and>
      (c = Cancel_request \<longrightarrow> (\<exists>e. out = Cancelled e)) \<and> (c = Cancel_error_box \<longrightarrow> out = Done) \<and>
      (c = Drain_request \<longrightarrow> (\<exists>r. out = Activity r)) \<and> (c = Drain_timer \<longrightarrow> out = Done) \<and>
      (c = Ask_force \<longrightarrow> (\<exists>yes. out = Answer yes))" for p1
    by (cases out) (auto simp: run_callback_def)
  consider (stop) yes where "c = Ask_stop" "out = Answer yes" "pn_state p = RUNNING"
    | (check) r where "c = Check_request" "out = Activity r" "pn_state p = CHECKING"
    | (cancel) e where "c = Cancel_request" "out = Cancelled e" "pn_state p = CANCELLING"
    | (error) "c = Cancel_error_box" "out = Done" "pn_state p = CANCELLING"
    | (drain) r where "c = Drain_request" "out = Activity r" "pn_state p = DRAINING"
    | (wait) "c = Drain_timer" "out = Done" "pn_state p = DRAINING"
    | (force) yes where "c = Ask_force" "out = Answer yes" "pn_state p = DRAINING"
    using aw inv(2) out [OF exI, OF run] by (cases "pn_state p") (auto simp: in_service_def)
  then show ?thesis
  proof cases
    case stop
    then show ?thesis using run inv(4)
      by (cases yes) (auto intro!: next_step simp: run_callback_def begin_cancel_and_drain_def schedule_poll_def in_service_def)
  next
    case check
    then show ?thesis using run inv(4) stop
      by (cases r) (auto intro!: next_step simp: run_callback_def on_activity_for_shutdown_def in_service_def split: if_splits)
  next
    case cancel
    then show ?thesis using run inv(4)
      by (cases e) (auto intro!: next_step simp: run_callback_def on_cancel_all_issued_def in_service_def carrying_def)
  next
    case error
    then show ?thesis using run inv(4)
      by (auto intro!: next_step simp: run_callback_def schedule_poll_def in_service_def)
  next
    case drain
    then have "pn_drain_deadline p \<noteq> None" using inv(1) by (simp add: panel_inv_def)
    then show ?thesis using drain run inv(4) stop
      by (cases r)
        (auto intro!: next_step simp: run_callback_def on_drain_activity_def in_service_def Let_def split: if_splits)
  next
    case wait
    then have "pn_drain_deadline p \<noteq> None" using inv(1) by (simp add: panel_inv_def)
    with wait show ?thesis using run inv(4)
      by (auto intro!: next_step simp: run_callback_def in_service_def)
  next
    case force
    then show ?thesis using run inv(4) stop
      by (cases yes) (auto intro!: next_step simp: run_callback_def on_force_answer_def in_service_def)
  qed
qed

lemma run_callback_inv:
  assumes inv: "panel_inv p" and k: "k < length (pn_calls p)"
    and run: "run_callback (pn_calls p ! k) out now (without_call k p) = Some q"
    and up: "pn_calls p ! k = Server_ready \<Longrightarrow> pn_server p \<noteq> None"
  shows "pn_exited q \<or> panel_inv q"
proof (cases "lifecycle (pn_calls p ! k)")
  case False
  then show ?thesis using run_callback_poll_inv [OF inv carrying_without(1) [OF k False] False run refl] by simp
next
  case True
  note c = carrying_without(2) [OF k True panel_inv_single [OF inv]]
  have aw: "awaits (pn_state p) (pn_calls p ! k)" using awaited [OF inv] c by simp
  consider "pn_state p = STARTING" | "in_service (pn_state p)" | "pn_state p = STOPPING"
    using aw by (cases "pn_state p") (auto simp: in_service_def)
  then show ?thesis
  proof cases
    case 1
    then show ?thesis using run_callback_starting_inv [OF inv 1 c [THEN conjunct1] c [THEN conjunct2] run up] by simp
  next
    case 2
    then show ?thesis using run_callback_service_inv [OF inv 2 c [THEN conjunct1] c [THEN conjunct2] run] by simp
  next
    case 3
    then have stop: "pn_calls p ! k = Stop_timer" "out = Done"
      using aw run by (simp, cases out, auto simp: run_callback_def)
    have told: "told_to_exit p" "last (pn_threads p) \<noteq> Loading" using inv 3 by (simp_all add: panel_inv_def)
    have q: "q = check_shutdown_complete (without_call k p)" using run by (simp add: stop run_callback_def)
    show ?thesis
    proof (cases "last (pn_threads p) = Ended")
      case True
      then show ?thesis
        using on_server_stopped_inv [OF inv, of "without_call k p"] c by (simp add: q check_shutdown_complete_def)
    next
      case False
      then have "q = later Stop_timer (without_call k p)" using told by (simp add: q check_shutdown_complete_def told_to_exit_def)
      then show ?thesis using inv 3 c told by (simp add: panel_inv_def)
    qed
  qed
qed

lemma dialog_free: "\<not> has_dialog p \<Longrightarrow> carrying p \<noteq> [Ask_stop]"
proof
  assume "\<not> has_dialog p" "carrying p = [Ask_stop]"
  moreover from this have "Ask_stop \<in> set (pn_calls p)" by (metis carrying_def filter_is_subset list.set_intros(1) subsetD)
  ultimately show False by (auto simp: has_dialog_def list_ex_iff)
qed

lemma request_quit_inv:
  assumes "panel_inv p" "\<not> has_dialog p"
  shows "pn_exited (request_quit full p) \<or> panel_inv (request_quit full p)"
proof (cases "pn_state p = RUNNING")
  case True
  then have "carrying p = []" using assms dialog_free by (auto simp: panel_inv_def)
  with True service_ok [OF assms(1)] have "panel_inv (request_quit full p)"
    by (intro service_inv [OF assms(1)]) (simp_all add: request_quit_def in_service_def)
  then show ?thesis ..
next
  case False
  then show ?thesis using assms by (simp add: request_quit_def hard_exit_def)
qed

lemma trigger_start_server_inv:
  assumes "panel_inv p" "pn_state p = IDLE" "pn_browsers_ok p"
  shows "panel_inv (trigger_start_server p)"
  using assms by (auto simp: panel_inv_def trigger_start_server_def carrying_def later_def operator_out_def nobody_in_def told_to_exit_def list_all_iff)

lemma thread_position:
  assumes "panel_inv p" "thread_is i (\<lambda>ph. ph \<noteq> Ended) p"
  shows "i = length (pn_threads p) - 1 \<and> pn_threads p \<noteq> [] \<and> last (pn_threads p) = pn_threads p ! i"
proof -
  have "i < length (pn_threads p)" "pn_threads p ! i \<noteq> Ended" using assms(2) by (simp_all add: thread_is_def)
  moreover have "pn_threads p ! j = Ended" if "j < length (pn_threads p) - 1" for j
    using threads_ok [OF assms(1)] that by (simp add: list_all_length nth_butlast)
  ultimately have "i = length (pn_threads p) - 1" by (metis Suc_diff_1 less_Suc_eq not_less_zero length_greater_0_conv list.size(3))
  then show ?thesis using \<open>i < length (pn_threads p)\<close> by (cases "pn_threads p" rule: rev_cases) auto
qed

lemma set_last:
  "xs \<noteq> [] \<Longrightarrow> butlast (xs[length xs - 1 := x]) = butlast xs \<and> last (xs[length xs - 1 := x]) = x"
  by (cases xs rule: rev_cases) simp_all

lemma thread_up_inv:
  assumes "panel_inv p" "thread_is i (\<lambda>ph. ph = Loading) p"
  shows "panel_inv ((set_thread i Serving p)\<lparr>pn_server := Some i\<rparr>)"
proof -
  have pos: "i = length (pn_threads p) - 1" "pn_threads p \<noteq> []" "last (pn_threads p) = Loading"
    using thread_position [OF assms(1), of i] assms(2) by (auto simp: thread_is_def)
  then have st: "pn_state p = STARTING"
    using assms(1) last_in_set [OF pos(2)] by (cases "pn_state p") (auto simp: panel_inv_def serving_def list_all_iff)
  show ?thesis
    using assms(1) st pos set_last [OF pos(2), of Serving]
    by (auto simp: panel_inv_def set_thread_def serving_def carrying_def told_to_exit_def operator_out_def nobody_in_def)
qed

lemma thread_end_inv:
  assumes "panel_inv p" "thread_is i (\<lambda>ph. ph = Serving) p" "i \<in> pn_exits p"
  shows "panel_inv (set_thread i Ended p)"
proof -
  have pos: "i = length (pn_threads p) - 1" "pn_threads p \<noteq> []" "last (pn_threads p) = Serving"
    using thread_position [OF assms(1), of i] assms(2) by (auto simp: thread_is_def)
  then have "told_to_exit p" using assms(3) by (simp add: told_to_exit_def)
  then have st: "pn_state p = STOPPING"
    using assms(1) pos last_in_set [OF pos(2)] by (cases "pn_state p") (auto simp: panel_inv_def list_all_iff)
  show ?thesis
    using assms(1) st pos set_last [OF pos(2), of Ended]
    by (auto simp: panel_inv_def set_thread_def carrying_def told_to_exit_def)
qed

text \<open>Steps that change neither the state nor the threads nor who is signed in.\<close>

lemma session_step_inv:
  assumes "panel_inv p" "pn_state q = pn_state p" "carrying q = carrying p" "pn_threads q = pn_threads p" "pn_server q = pn_server p"
    "pn_exits q = pn_exits p" "pn_drain_deadline q = pn_drain_deadline p" "pn_login_email q = pn_login_email p"
    "pn_access_token p \<noteq> None \<Longrightarrow> pn_access_token q \<noteq> None" "pn_state p = IDLE \<Longrightarrow> operator_out p \<Longrightarrow> operator_out q"
  shows "panel_inv q"
proof -
  have parts: "serving q = serving p" "told_to_exit q = told_to_exit p" "nobody_in q = nobody_in p"
    unfolding serving_def told_to_exit_def nobody_in_def assms(2-8) by (rule refl)+
  have signed: "operator_in p \<Longrightarrow> operator_in q" using assms(8,9) by (simp add: operator_in_def)
  show ?thesis
    using assms(1,10) signed unfolding panel_inv_def assms(2-7) parts by (cases "pn_state p") auto
qed

lemma finish_renewal_frame [simp]:
  "pn_state (fst (finish_renewal r p)) = pn_state p" "pn_calls (fst (finish_renewal r p)) = pn_calls p"
  "pn_threads (fst (finish_renewal r p)) = pn_threads p" "pn_server (fst (finish_renewal r p)) = pn_server p"
  "pn_exits (fst (finish_renewal r p)) = pn_exits p" "pn_drain_deadline (fst (finish_renewal r p)) = pn_drain_deadline p"
  "pn_login_email (fst (finish_renewal r p)) = pn_login_email p" "pn_exited (fst (finish_renewal r p)) = pn_exited p"
  by (simp_all add: finish_renewal_def Let_def split: refresh_reply.split option.split)

lemma finish_renewal_inv:
  assumes "panel_inv p"
  shows "panel_inv (fst (finish_renewal r (p\<lparr>pn_renewals := rs\<rparr>)))"
  by (rule session_step_inv [OF assms])
    (auto simp: carrying_def finish_renewal_def operator_out_def nobody_in_def Let_def split: refresh_reply.split option.split)

lemma server_session_inv:
  assumes "panel_inv p" "thread_is i (\<lambda>ph. ph = Serving) p"
  shows "panel_inv (p\<lparr>pn_agent := s\<rparr>)"
proof (rule session_step_inv [OF assms(1)])
  assume "pn_state p = IDLE"
  then have "list_all (\<lambda>ph. ph = Ended) (pn_threads p)" using assms(1) by (simp add: panel_inv_def)
  then have False using assms(2) by (auto simp: thread_is_def list_all_length)
  then show "operator_out (p\<lparr>pn_agent := s\<rparr>)" ..
qed (simp_all add: carrying_def)

lemma panel_step_inv:
  assumes "panel_inv p" "orderly p ev" "panel_step ev p = Some q"
  shows "pn_exited q \<or> panel_inv q"
proof (cases ev)
  case Toggle
  then have "\<not> has_dialog p" "can_toggle p" "q = on_toggle_server p"
    using assms(3) by (auto simp: panel_step_def split: if_splits)
  then show ?thesis
    using request_quit_inv [OF assms(1)] trigger_start_server_inv [OF assms(1)] assms(1)
    by (cases "pn_state p") (auto simp: on_toggle_server_def can_toggle_def)
next
  case Close_window
  then show ?thesis using assms by (auto simp: panel_step_def on_window_close_def hard_exit_def split: if_splits)
next
  case Tray_quit
  then show ?thesis using assms request_quit_inv [OF assms(1)] by (auto simp: panel_step_def split: if_splits)
next
  case Start_download
  then have "q = later Download p" using assms(3) by (auto simp: panel_step_def trigger_download_def split: if_splits)
  then show ?thesis using panel_inv_cong [of q p] assms(1) by simp
next
  case (Change_url u)
  then have "q = change_cloud_url u p" using assms(3) by (auto simp: panel_step_def split: if_splits)
  then show ?thesis using panel_inv_cong [of q p] assms(1) by (simp add: change_cloud_url_def carrying_def split: if_splits)
next
  case (Thread_up i)
  then show ?thesis using assms thread_up_inv [OF assms(1)] by (auto simp: panel_step_def split: if_splits)
next
  case (Thread_crash i)
  then show ?thesis using assms(2) by simp
next
  case (Thread_end i)
  then show ?thesis using assms thread_end_inv [OF assms(1)] by (auto simp: panel_step_def split: if_splits)
next
  case (Server_session i s)
  then show ?thesis using assms(3) server_session_inv [OF assms(1), of i s] by (auto simp: panel_step_def split: if_splits)
next
  case Renew_start
  then obtain rs where "q = p\<lparr>pn_renewals := rs\<rparr>" using assms(3) by (auto simp: panel_step_def split: if_splits option.splits)
  then show ?thesis using panel_inv_cong [of q p] assms(1) by (simp add: carrying_def)
next
  case (Renew_finish k r)
  then show ?thesis using assms(3) finish_renewal_inv [OF assms(1)] by (auto simp: panel_step_def split: if_splits)
next
  case (Run_callback k out now)
  then have "k < length (pn_calls p)" "run_callback (pn_calls p ! k) out now (without_call k p) = Some q"
    "pn_calls p ! k = Server_ready \<Longrightarrow> pn_server p \<noteq> None"
    using assms(2,3) by (auto simp: panel_step_def without_call_def split: if_splits)
  then show ?thesis by (rule run_callback_inv [OF assms(1)])
qed

section \<open>The life of the server\<close>

lemma orderly_run_inv: "orderly_run p q \<Longrightarrow> panel_inv p \<Longrightarrow> pn_exited q \<or> panel_inv q"
proof (induction rule: orderly_run.induct)
  case (step p q ev r)
  then show ?case using panel_step_inv [of q ev r] by (auto simp: panel_step_def split: if_splits)
qed simp


section \<open>Why a server is told to exit\<close>

text \<open>The outcomes that justify it: no job is active, the activity is unknown, or the operator wants it.\<close>

definition ends_server :: "callback \<Rightarrow> callback_outcome \<Rightarrow> bool" where
  "ends_server c out =
     (case c of
        Abort_box \<Rightarrow> True
      | Check_request \<Rightarrow> (case out of Activity (Inl err) \<Rightarrow> True | Activity (Inr d) \<Rightarrow> ar_total_active d = 0 | _ \<Rightarrow> False)
      | Drain_request \<Rightarrow> (case out of Activity (Inr d) \<Rightarrow> ar_total_active d = 0 | _ \<Rightarrow> False)
      | Ask_force \<Rightarrow> out = Answer True
      | _ \<Rightarrow> False)"

definition starts_event :: "(callback \<Rightarrow> callback_outcome \<Rightarrow> bool) \<Rightarrow> panel_event \<Rightarrow> panel \<Rightarrow> bool" where
  "starts_event P ev p = (case ev of Run_callback k out now \<Rightarrow> k < length (pn_calls p) \<and> P (pn_calls p ! k) out | _ \<Rightarrow> False)"

lemma exits_kept [simp]:
  "pn_exits (on_server_stopped p) = pn_exits p" "pn_exits (request_quit full p) = pn_exits p"
  "pn_exits (check_shutdown_complete p) = pn_exits p" "pn_exits (schedule_poll p) = pn_exits p"
  "pn_exits (on_login_success e d csrf p) = pn_exits p" "pn_exits (on_activity r p) = pn_exits p"
  "pn_exits (on_login_dialog form p) = pn_exits p" "pn_exits (on_server_ready p) = pn_exits p"
  "pn_exits (wait_for_server_ready ok n p) = pn_exits p" "pn_exits (on_cancel_all_issued err now p) = pn_exits p"
  "pn_exits (on_server_crashed p) = pn_exits p" "pn_exits (on_download_done ok b p) = pn_exits p"
  "pn_exits (on_toggle_server p) = pn_exits p" "pn_exits (begin_cancel_and_drain p) = pn_exits p"
  by (simp_all add: on_server_stopped_def hard_exit_def request_quit_def check_shutdown_complete_def schedule_poll_def on_login_success_def
      on_activity_def check_for_completions_def on_login_dialog_def on_server_ready_def prompt_login_def wait_for_server_ready_def
      on_cancel_all_issued_def on_server_crashed_def on_download_done_def on_toggle_server_def trigger_start_server_def
      begin_cancel_and_drain_def Let_def split: option.split sum.split prod.split refresh_reply.split app_state.split)

lemma run_callback_exits:
  assumes "run_callback c out now p = Some q" "pn_exits q \<noteq> pn_exits p"
  shows "ends_server c out"
  using assms
  by (cases c; cases out)
    (auto simp: run_callback_def ends_server_def on_activity_for_shutdown_def on_drain_activity_def on_force_answer_def prompt_login_def Let_def
      split: sum.splits if_splits option.splits)

lemma request_quit_calls: "set (pn_calls (request_quit full p)) \<subseteq> insert Check_request (set (pn_calls p))"
  by (auto simp: request_quit_def hard_exit_def)

text \<open>The two callbacks that matter to the operator's work come from one place each.\<close>

lemma run_callback_asks:
  assumes "run_callback c out now p = Some q"
  shows "Cancel_request \<in> set (pn_calls q) \<Longrightarrow> Cancel_request \<notin> set (pn_calls p) \<Longrightarrow> c = Ask_stop \<and> out = Answer True"
    and "Ask_stop \<in> set (pn_calls q) \<Longrightarrow> Ask_stop \<notin> set (pn_calls p) \<Longrightarrow>
      c = Check_request \<and> (\<exists>d. out = Activity (Inr d) \<and> 0 < ar_total_active d)"
  using assms
  by (cases c; cases out;
      force simp: run_callback_def on_activity_for_shutdown_def on_drain_activity_def on_force_answer_def prompt_login_def Let_def
        on_server_stopped_def hard_exit_def begin_graceful_shutdown_def check_shutdown_complete_def schedule_poll_def on_login_success_def
        on_activity_def check_for_completions_def on_login_dialog_def on_server_ready_def wait_for_server_ready_def
        on_cancel_all_issued_def on_server_crashed_def on_download_done_def begin_cancel_and_drain_def later_def
        split: sum.splits if_splits option.splits)+

lemma quiet_event:
  assumes "panel_step ev p = Some q" "\<not> (case ev of Run_callback k out now \<Rightarrow> True | _ \<Rightarrow> False)"
  shows "pn_exits q = pn_exits p \<and> (\<forall>c \<in> {Cancel_request, Ask_stop}. c \<in> set (pn_calls q) \<longrightarrow> c \<in> set (pn_calls p))"
  using assms
  by (cases ev)
    (auto simp: panel_step_def on_toggle_server_def trigger_start_server_def request_quit_def hard_exit_def change_cloud_url_def set_thread_def
      on_window_close_def trigger_download_def finish_renewal_def later_def Let_def split: if_splits app_state.splits prod.splits refresh_reply.splits option.splits)

text \<open>C39.
  The control panel never stops work unasked, in any state whatever. A server is told to exit only when
  an answer says that no job is active, when the activity could not be read, when the operator chooses to
  force the stop, or when the sign-in was given up. Jobs are cancelled only on the operator's yes to the
  question, and the question is put only when an answer has named active jobs.
\<close>

theorem no_unasked_stop:
  assumes "panel_step ev p = Some q"
  shows "(if pn_exits q \<noteq> pn_exits p then starts_event ends_server ev p else True) \<and>
    (if Cancel_request \<in> set (pn_calls q) \<and> Cancel_request \<notin> set (pn_calls p)
     then starts_event (\<lambda>c out. c = Ask_stop \<and> out = Answer True) ev p else True) \<and>
    (if Ask_stop \<in> set (pn_calls q) \<and> Ask_stop \<notin> set (pn_calls p)
     then starts_event (\<lambda>c out. c = Check_request \<and> (\<exists>d. out = Activity (Inr d) \<and> 0 < ar_total_active d)) ev p else True)"
proof (cases "case ev of Run_callback k out now \<Rightarrow> True | _ \<Rightarrow> False")
  case False
  then show ?thesis using quiet_event [OF assms False] by auto
next
  case True
  then obtain k out now where ev: "ev = Run_callback k out now" by (cases ev) auto
  have k: "k < length (pn_calls p)" and run: "run_callback (pn_calls p ! k) out now (without_call k p) = Some q"
    using assms by (auto simp: ev panel_step_def without_call_def split: if_splits)
  have sub: "set (pn_calls (without_call k p)) \<subseteq> set (pn_calls p)"
    by (auto simp: without_call_def dest: in_set_takeD in_set_dropD)
  show ?thesis
    using run_callback_exits [OF run] run_callback_asks [OF run] sub k by (auto simp: starts_event_def ev)
qed

definition demo_panel :: panel where
  "demo_panel = new_panel True \<lparr>as_identity = no_identity, as_keyring = Map.empty\<rparr> empty_local_db"

definition demo_login :: sign_in_data where
  "demo_login = \<lparr>lg_access_token = ''a'', lg_refresh_token = ''r'', lg_permissions = {}, lg_is_admin = False\<rparr>"

text \<open>The start of the server up to the running panel, the stop that finds one active job, and the answer yes.\<close>

definition demo_panel_start :: "panel_event list" where
  "demo_panel_start = [Toggle, Thread_up 0, Run_callback 0 (Pong True) 0, Run_callback 0 Done 0, Run_callback 0 (Form (Some (''o@x.in'', ''pw''))) 0,
     Run_callback 0 (Login_reply (Inr demo_login) None) 0]"

definition demo_busy :: callback_outcome where
  "demo_busy = Activity (Inr \<lparr>ar_total_active = 1, ar_crawl_jobs = [(5, ''job'')]\<rparr>)"

definition demo_running :: panel where
  "demo_running =
     demo_panel\<lparr>pn_state := RUNNING, pn_threads := [Serving], pn_server := Some 0, pn_client := Some None, pn_tray := True,
       pn_access_token := Some ''a'', pn_login_email := Some ''o@x.in'',
       pn_agent := set_session ''o@x.in'' ''a'' [] {} False
         \<lparr>as_identity = no_identity, as_keyring = Map.empty(''_last_email'' \<mapsto> ''o@x.in'', ''o@x.in'' \<mapsto> ''r'')\<rparr>,
       pn_calls := [Activity_request]\<rparr>"

lemmas panel_run_defs = panel_step_def run_callback_def later_def has_dialog_def can_toggle_def on_toggle_server_def trigger_start_server_def
  request_quit_def thread_is_def set_thread_def wait_for_server_ready_def on_server_ready_def prompt_login_def on_login_dialog_def
  on_login_success_def schedule_poll_def on_activity_for_shutdown_def begin_cancel_and_drain_def begin_graceful_shutdown_def
  on_server_stopped_def hard_exit_def on_server_crashed_def Let_def

lemma demo_start_runs: "run_panel demo_panel_start demo_panel = Some demo_running"
  by (simp add: demo_panel_start_def demo_panel_def demo_running_def new_panel_def panel_run_defs demo_login_def cloud_url_def get_setting_def
      empty_local_db_def set_session_def py_strip_def py_strip_by_def py_isspace_def code_point_def)

section \<open>Witnesses and runs\<close>

fun orderly_trace :: "panel_event list \<Rightarrow> panel \<Rightarrow> bool" where
  "orderly_trace [] p = True"
| "orderly_trace (ev # evs) p = (orderly p ev \<and> (case panel_step ev p of None \<Rightarrow> False | Some q \<Rightarrow> orderly_trace evs q))"

lemma orderly_trace_run: "run_panel evs p = Some q \<Longrightarrow> orderly_trace evs p \<Longrightarrow> orderly_run p0 p \<Longrightarrow> orderly_run p0 q"
  by (induction evs arbitrary: p) (auto split: option.splits intro: orderly_run.step)

lemma demo_orderly: "orderly_run demo_panel demo_running"
proof (rule orderly_trace_run [OF demo_start_runs _ orderly_run.here])
  show "orderly_trace demo_panel_start demo_panel"
    by (simp add: demo_panel_start_def demo_panel_def new_panel_def panel_run_defs py_strip_def py_strip_by_def py_isspace_def code_point_def)
qed


definition demo_checking :: panel where
  "demo_checking = demo_running\<lparr>pn_state := CHECKING, pn_calls := [Activity_request, Check_request]\<rparr>"

theorem no_unasked_stop_witness:
  "pn_exits (begin_graceful_shutdown (without_call 1 demo_checking)) \<noteq> pn_exits demo_checking \<and>
   starts_event ends_server (Run_callback 1 (Activity (Inl ''timed out'')) 0) demo_checking"
proof -
  let ?q = "begin_graceful_shutdown (without_call 1 demo_checking)"
  have "panel_step (Run_callback 1 (Activity (Inl ''timed out'')) 0) demo_checking = Some ?q"
    by (simp add: panel_step_def demo_checking_def demo_running_def demo_panel_def new_panel_def run_callback_def
        on_activity_for_shutdown_def without_call_def)
  note stop = no_unasked_stop [OF this]
  have "pn_exits ?q \<noteq> pn_exits demo_checking"
    by (simp add: begin_graceful_shutdown_def without_call_def demo_checking_def demo_running_def demo_panel_def new_panel_def later_def)
  then show ?thesis using stop by simp
qed

section \<open>Where the panel goes wrong\<close>

lemma run_at: "k < length (pn_calls p) \<Longrightarrow> \<not> pn_exited p \<Longrightarrow>
    panel_step (Run_callback k out now) p = run_callback (pn_calls p ! k) out now (without_call k p)"
  by (simp add: panel_step_def without_call_def)

text \<open>C40.
  A server that crashes while the operator is being signed in leaves the panel claiming the opposite.
  From every such moment of an orderly run, when the crash is reported first and the login is answered
  then, the panel shows a running server and the agent has its session, although no server thread is
  alive and there is no client to reach one.
\<close>

theorem crash_during_sign_in_shows_running:
  assumes "orderly_run (new_panel browsers agent db) p" "\<not> has_session agent" "\<not> pn_exited p" "pn_state p = STARTING"
    and "k < length (pn_calls p)" "pn_calls p ! k = Login_request e pw"
  shows "\<exists>q. run_panel [Thread_crash (length (pn_threads p) - 1), Run_callback (length (pn_calls p)) Done t,
        Run_callback k (Login_reply (Inr d) csrf) t] p = Some q \<and>
      pn_state q = RUNNING \<and> list_all (\<lambda>ph. ph = Ended) (pn_threads q) \<and> pn_server q = None \<and> pn_client q = None \<and>
      has_session (pn_agent q)"
proof -
  have "panel_inv (new_panel browsers agent db)"
    using assms(2) by (simp add: panel_inv_def new_panel_def carrying_def operator_out_def nobody_in_def)
  then have inv: "panel_inv p" using orderly_run_inv [OF assms(1)] assms(3) by simp
  have "carrying p = [Login_request e pw]"
    using carrying_without(2) [OF assms(5) _ panel_inv_single [OF inv]] assms(6) by simp
  then have up: "serving p" "pn_threads p \<noteq> []" using starting_ok [OF inv assms(4)] by (auto split: if_splits)
  let ?n = "length (pn_threads p) - 1" and ?m = "length (pn_calls p)"
  let ?p1 = "later Crashed (set_thread ?n Ended p)" and ?p2 = "on_server_crashed (set_thread ?n Ended p)"
  have alive: "thread_is ?n (\<lambda>ph. ph \<noteq> Ended) p" using up by (simp add: serving_def thread_is_def last_conv_nth)
  have s1: "panel_step (Thread_crash ?n) p = Some ?p1" using alive assms(3) by (simp add: panel_step_def)
  have p1: "pn_calls ?p1 = pn_calls p @ [Crashed]" "\<not> pn_exited ?p1" using assms(3) by (simp_all add: set_thread_def)
  have "without_call ?m ?p1 = set_thread ?n Ended p" by (simp add: without_call_def later_def set_thread_def)
  then have s2: "panel_step (Run_callback ?m Done t) ?p1 = Some ?p2" using p1 by (simp add: run_at run_callback_def)
  have p2: "pn_calls ?p2 ! k = Login_request e pw" "k < length (pn_calls ?p2)" "\<not> pn_exited ?p2"
    using assms(3,5,6) by (simp_all add: on_server_crashed_def set_thread_def nth_append)
  then have s3: "panel_step (Run_callback k (Login_reply (Inr d) csrf) t) ?p2 = Some (on_login_success e d csrf (without_call k ?p2))"
    by (simp add: run_at run_callback_def)
  have ended: "list_all (\<lambda>ph. ph = Ended) ((pn_threads p)[?n := Ended])"
    using list_all_butlast [of "\<lambda>ph. ph = Ended" "(pn_threads p)[?n := Ended]"] set_last [OF up(2), of Ended] threads_ok [OF inv] by simp
  show ?thesis
    using ended unfolding run_panel.simps s1 option.case s2 s3
    by (simp add: on_login_success_def schedule_poll_def on_server_crashed_def set_thread_def without_call_def later_def has_session_def set_session_def)
qed

lemma demo_signing_in:
  "run_panel (butlast demo_panel_start) demo_panel = Some (demo_panel\<lparr>pn_state := STARTING, pn_threads := [Serving], pn_server := Some 0,
     pn_client := Some None, pn_tray := True, pn_calls := [Login_request ''o@x.in'' ''pw'']\<rparr>)"
  "orderly_trace (butlast demo_panel_start) demo_panel"
  by (simp_all add: demo_panel_start_def demo_panel_def new_panel_def panel_run_defs py_strip_def py_strip_by_def py_isspace_def code_point_def)

theorem crash_during_sign_in_shows_running_witness:
  "\<exists>p q. orderly_run demo_panel p \<and> run_panel [Thread_crash 0, Run_callback 1 Done 0, Run_callback 0 (Login_reply (Inr demo_login) None) 0] p = Some q \<and>
     pn_state q = RUNNING \<and> pn_server q = None \<and> has_session (pn_agent q)"
proof -
  let ?p = "demo_panel\<lparr>pn_state := STARTING, pn_threads := [Serving], pn_server := Some 0,
     pn_client := Some None, pn_tray := True, pn_calls := [Login_request ''o@x.in'' ''pw'']\<rparr>"
  have run: "orderly_run demo_panel ?p"
    by (rule orderly_trace_run [OF demo_signing_in orderly_run.here])
  have agent: "\<not> has_session \<lparr>as_identity = no_identity, as_keyring = Map.empty\<rparr>" by (simp add: has_session_def no_identity_def)
  have "\<not> pn_exited ?p" "pn_state ?p = STARTING" "0 < length (pn_calls ?p)" "pn_calls ?p ! 0 = Login_request ''o@x.in'' ''pw''"
    by (simp_all add: demo_panel_def new_panel_def)
  from crash_during_sign_in_shows_running [OF run [unfolded demo_panel_def] agent this [unfolded demo_panel_def], of 0 demo_login None]
  show ?thesis using run unfolding demo_panel_def by auto
qed

text \<open>
  A refresh that the cloud rejects clears the session of the agent: the running jobs and the pages have no
  operator any more, and the panel goes on showing a running server with its operator.
\<close>

lemma rejected_refresh_is_not_shown:
  "let s = fst (fst (refresh_session (\<lambda>_ u. (u, Unauthorized)) ((pn_agent demo_running)\<lparr>as_identity :=
         (as_identity (pn_agent demo_running))\<lparr>id_base_url := Some ''https://c''\<rparr>\<rparr>) ()));
       q = demo_running\<lparr>pn_agent := s\<rparr>
   in panel_step (Server_session 0 s) demo_running = Some q \<and> \<not> has_session s \<and> pn_state q = RUNNING \<and> operator_in q"
  by (simp add: demo_running_def demo_panel_def new_panel_def panel_step_def thread_is_def refresh_session_def set_session_def
      has_session_def clear_session_def no_identity_def operator_in_def Let_def)

text \<open>
  A renewal that ends after a stop and the sign-in of another operator puts the token of the first one into
  the panel and the agent, under the email of the second, and stores its refresh token for the second.
\<close>

lemma late_renewal_mixes_operators:
  "\<exists>p q. panel_step Renew_start demo_running = Some p \<and> pn_renewals p = [''r''] \<and>
     run_panel [Toggle, Run_callback 1 (Activity (Inr \<lparr>ar_total_active = 0, ar_crawl_jobs = []\<rparr>)) 0, Thread_end 0,
        Run_callback 1 Done 0, Toggle, Thread_up 1, Run_callback 1 (Pong True) 0, Run_callback 1 Done 0,
        Run_callback 1 (Form (Some (''b@x.in'', ''pw''))) 0, Run_callback 1 (Login_reply (Inr demo_login) None) 0,
        Renew_finish 0 (Refreshed ''of the first'' {} True ''r2'')] p = Some q \<and>
     pn_login_email q = Some ''b@x.in'' \<and> pn_access_token q = Some ''of the first'' \<and>
     id_email (as_identity (pn_agent q)) = Some ''b@x.in'' \<and> id_access_token (as_identity (pn_agent q)) = Some ''of the first'' \<and>
     as_keyring (pn_agent q) ''b@x.in'' = Some ''r2''"
  by (simp add: demo_running_def demo_panel_def new_panel_def panel_run_defs start_renewal_def finish_renewal_def demo_login_def
      check_shutdown_complete_def cloud_url_def get_setting_def empty_local_db_def set_session_def update_access_token_def has_session_def
      clear_session_def no_identity_def py_strip_def py_strip_by_def py_isspace_def code_point_def)

text \<open>
  A quit that is declined starts another poll beside the pending one: after n of them n more requests
  poll the activity, each of which starts its successor.
\<close>

definition polls :: "panel \<Rightarrow> nat" where
  "polls p = length (filter (\<lambda>c. c = Activity_request \<or> c = Poll_timer) (pn_calls p))"

definition declined_quit :: "nat \<Rightarrow> panel_event list" where
  "declined_quit m = [Tray_quit, Run_callback m demo_busy 0, Run_callback m (Answer False) 0]"

lemma declined_quits_pile_up_polls:
  assumes "pn_state p = RUNNING" "pn_tray p" "\<not> pn_exited p"
  shows "\<exists>q. run_panel (concat (map (\<lambda>i. declined_quit (length (pn_calls p) + i)) [0..<n])) p = Some q \<and>
    pn_state q = RUNNING \<and> pn_tray q \<and> \<not> pn_exited q \<and> polls q = polls p + n"
  using assms
proof (induction n arbitrary: p)
  case 0
  then show ?case by simp
next
  case (Suc n)
  let ?m = "length (pn_calls p)"
  let ?q = "p\<lparr>pn_full_quit := True, pn_state := RUNNING, pn_calls := pn_calls p @ [Activity_request]\<rparr>"
  have round: "run_panel (declined_quit ?m @ evs) p = run_panel evs ?q" for evs
    using Suc.prems
    by (simp add: declined_quit_def demo_busy_def panel_step_def request_quit_def run_callback_def on_activity_for_shutdown_def
        schedule_poll_def later_def)
  have events: "concat (map (\<lambda>i. declined_quit (?m + i)) [0..<Suc n]) =
      declined_quit ?m @ concat (map (\<lambda>i. declined_quit (length (pn_calls ?q) + i)) [0..<n])"
    by (subst upt_conv_Cons) (simp_all add: map_Suc_upt [symmetric] comp_def del: upt_Suc)
  show ?case
    using Suc.IH [of ?q] Suc.prems unfolding events round by (simp add: polls_def)
qed

text \<open>
  The wish to quit survives the declined question: after a crash, the next start that is not signed in
  closes the whole program.
\<close>

lemma stale_quit_closes_the_panel:
  "map_option pn_exited (run_panel (declined_quit 1 @
     [Thread_crash 0, Run_callback 2 Done 0, Run_callback 2 Done 0,
      Toggle, Thread_up 1, Run_callback 2 (Pong True) 0, Run_callback 2 Done 0, Run_callback 2 (Form None) 0, Run_callback 2 Done 0,
      Thread_end 1, Run_callback 2 Done 0]) demo_running) = Some True"
  by (simp add: demo_running_def demo_panel_def new_panel_def declined_quit_def demo_busy_def panel_run_defs check_shutdown_complete_def)

end
