(* ===== verification/Spec2Isabelle.thy ===== *)
theory Spec2Isabelle
  imports Prelude Shared Outreach Credentials Dispatcher Interleaving ClaimSteps DispatchRun Auth Deps AuthApi AuthProps
    Urls CrawlTables Catalog Jobs Leads LeadPool Coordination Outbox Delivery Pagination LeadExtraction Engine EngineProps AgentRuntime AgentProps
    CampaignApi CampaignProps OutreachApi OutreachProps Contacts ContactsProps LeadApi LeadProps
    Regex LeadParser ParserProps Importer ImporterProps
    Config ConfigProps SettingsApi SettingsProps AdminApi Maintenance Migration Fetch Dedupe AgentRelay AgentRelayProps Scraper ScraperProps Launcher LauncherProps
begin

text \<open>
  GovCrawler collects contact leads from Indian government web sites and mails campaigns to them. The
  program has two tiers. The cloud (\<open>src/cloud\<close>) is a FastAPI service over Postgres that owns users,
  the catalog of domains, crawl jobs, leads and campaigns. The agent (\<open>src/agent\<close>) runs on the machine of
  an operator: it crawls, extracts leads, keeps them in a durable outbox and drains that into the cloud;
  a loopback web server and a control panel are its surface. Both use \<open>src/shared\<close> and \<open>src/portal\<close>;
  \<open>src/GovScraper\<close> and \<open>src/scripts\<close> are tools beside them.

  \<^bold>\<open>Conventions.\<close> A Python string is a HOL string whose characters are code points below 256; an exception
  is the left side of a sum or an option component, and an HTTP answer of an endpoint is the left or right
  side of one. A database session is a function from the tables to the tables; a table is its rows in key
  order with the next key, and an operation that reads first and writes later takes what other
  transactions commit in between as an argument (\<open>race\<close>); the argument is \<open>id\<close> where a theory lets whole
  sessions follow one another. A failing database is an argument too where the code goes on after it
  (\<open>save_point\<close>). Code that is not in the repository is a
  parameter: the SMTP dialogue, the HTTP answers of pages and services, Fernet, argon2, PyJWT, Jinja2,
  \<open>json.loads\<close>, BeautifulSoup. Of the standard library \<open>urlsplit\<close>, \<open>parse_qs\<close>, \<open>csv\<close> and \<open>re\<close> are modelled as
  far as the program uses them. Identifiers keep the names of the source where HOL allows it; a clash is
  resolved with a prefix (\<open>api_\<close>, \<open>agent_\<close>, \<open>local_\<close>) or with the prefix of the record (\<open>ld_\<close>, \<open>em_\<close>).

  \<^bold>\<open>Theories and code.\<close>
  \<^item> Prelude, Shared: strings, tables and their queries; the enums, permissions, scoring and errors of
    \<open>shared/\<close>. The locale \<open>keyed_rows\<close> states what an insert, update and delete owe to a table with a
    primary key; it is interpreted for every table next to its definition.
  \<^item> Outreach, Credentials: \<open>db/mixins/outreach_mixin.py\<close> with its tables, \<open>security/crypto.py\<close> and
    \<open>security/oauth.py\<close>. Dispatcher, Interleaving, ClaimSteps, DispatchRun:
    \<open>api/dispatcher.py\<close> and \<open>dispatch_service.py\<close> as a machine between two awaits, any number of them
    interleaved with sweeps, screens and crashes (the inductive relation \<open>reach\<close>); the same with the SQL
    statements of the claim, the selection and the sweep as separate steps (\<open>claim_reach\<close>); and one dispatch
    from start to end.
  \<^item> Auth, Deps, AuthApi, AuthProps: \<open>db/mixins/auth_mixin.py\<close>, \<open>api/deps.py\<close>, \<open>api/auth.py\<close>, \<open>api/admin.py\<close>,
    \<open>api/roles.py\<close>.
  \<^item> Urls, CrawlTables, Catalog, Jobs, Leads, LeadPool, Coordination: the crawl side of the cloud, that is
    \<open>domain_mixin\<close>, \<open>crawl_snapshot_mixin\<close>, \<open>app_settings_mixin\<close>, \<open>job_mixin\<close>, \<open>lead_mixin\<close> and
    \<open>domain_resolution\<close> under \<open>cloud/db\<close>, \<open>api/coordination.py\<close> and \<open>api/jobs.py\<close>.
  \<^item> Outbox, Delivery: \<open>agent/local_store.py\<close> and \<open>agent/cloud_client.py\<close>. The locale \<open>lead_sink\<close> is what the client
    relies on; Delivery interprets it on the coordination endpoint.
  \<^item> Pagination, LeadExtraction, Engine, EngineProps, Fetch: \<open>agent/crawler/pagination.py\<close> and
    \<open>agent/crawler/engine.py\<close>. Regex, LeadParser, ParserProps: \<open>agent/crawler/parser.py\<close> over a backtracking matcher.
  \<^item> AgentRuntime, AgentProps, AgentRelay, AgentRelayProps: \<open>agent/localdb.py\<close>, \<open>agent/identity.py\<close>, \<open>agent/api.py\<close> and
    the modules of \<open>agent/bff\<close>. The locale \<open>token_source\<close> is what a relayed request relies on; it is interpreted
    on the operator session.
  \<^item> CampaignApi, CampaignProps, OutreachApi, OutreachProps: \<open>api/campaigns.py\<close>, \<open>services/campaign_service.py\<close>,
    \<open>api/blacklist.py\<close>, \<open>api/templates.py\<close>, \<open>api/credentials.py\<close>, \<open>api/oauth.py\<close>.
  \<^item> Contacts, ContactsProps, LeadApi, LeadProps: \<open>services/csv_import.py\<close> and \<open>api/leads.py\<close>.
  \<^item> Importer, ImporterProps, Scraper, ScraperProps: \<open>services/importer.py\<close>, \<open>api/imports.py\<close> and \<open>GovScraper\<close>.
  \<^item> Config, ConfigProps, SettingsApi, SettingsProps: \<open>portal/config.py\<close> and \<open>api/config.py\<close>.
  \<^item> AdminApi, Maintenance, Migration, Dedupe: \<open>api/domains.py\<close>, \<open>api/audit.py\<close>, \<open>api/system.py\<close>, \<open>src/scripts\<close> and the
    revision 0028 of \<open>alembic/versions\<close>.
  \<^item> Launcher, LauncherProps: \<open>agent/launcher/app.py\<close>, the control panel as a state machine whose pending
    callbacks run in any order; \<open>orderly_run\<close> is the inductive closure of its steps under the named discipline.

  \<^bold>\<open>What is shown.\<close>
  \<^item> Mail: no two live tasks hold one email, at the level of the statements of the claim, as long as the two
    updates without a guard (a deselection checked before the claim, a sweep) do not hit a held email, and
    \<open>deselection_overwrites_claim\<close> shows what they do otherwise; a message is accepted once, as long as the
    sweep spares live claims and every accepted message is recorded; the dispatch of a campaign without an
    owner completes over a steady pool; nobody is staged twice in a production campaign, which stages exactly
    its selection.
  \<^item> Crawl: a page is fetched once, every crawl of a finite web ends, fan-out is capped, a checkpoint
    restores the queue, the page visits of one host keep their distance. Every address a page lists in a link, a
    microdata element, a table row or its text has one lead, and no lead has another address. Every lead that
    the engine saved is pending, dead-lettered, in the pool or refused by a failing database, in which case it is
    lost (\<open>refused_lead_is_lost\<close>). In the pool an email has one row under all interference, its score fits as
    long as nobody writes between a read and its write (\<open>racing_captures_leave_wrong_score\<close>), a recapture loses
    nothing and a URL belongs to its most specific domain. A finished job stays as it is through every operation
    that begins after its end, but for a restart.
  \<^item> Control panel: its state agrees with the server thread and with the sign-in of the operator in every orderly
    run, in which the local server may clear the session and a renewal may end late. The server is told to
    exit only for an activity that is idle or cannot be read, a forced stop or a given-up sign-in, and jobs are
    cancelled only on the yes of the operator; an unreadable activity counts as idle, so it can stop running jobs.
  \<^item> Access: an active administrator always remains, a password reset ends every session and token, jobs
    and campaigns are written by their owners and administrators only (but for \<open>crawl.cancel_all\<close>), the proxy speaks for the operator and for nobody else.
  \<^item> Data in and out: contact files, settings and the file of the scraper survive their round trips, a
    JSON import is applied as a whole or not at all, a loaded configuration has the types of its defaults,
    a merge of duplicate leads keeps their history.
  \<^item> Limits of the code, proved as they are: what a lost refresh answer, an interrupted save, a leaked
    import lock, a rotation of the key or the migration script do.

  \<^bold>\<open>Termination and bounds.\<close> Loops are structural recursion or functions with a measure. The pagination of
  the directory service (\<open>entries_loop\<close>) is a partial function into option: \<open>pagination_ends\<close> shows that it
  returns when the announced totals are bounded. The crawl loop is a step function; \<open>crawl_ends\<close> bounds its steps by the
  number of pages of the web and the seeds. The draining of the outbox is a step per flush, with a bound in Delivery.

  \<^bold>\<open>Not modelled.\<close> The JavaScript, HTML and templates of \<open>frontend\<close>, the pages of \<open>cloud/api/frontend.py\<close>, the
  assembly of the applications (routing, middleware, logging, static files), the connection set-up of
  \<open>database.py\<close> and the schema revisions other than 0028, which are DDL and backfills of older schemas. The
  command lines of \<open>run.py\<close>, \<open>portal/main.py\<close> and the scraper, the build scripts and the tests. Of the engine
  the start and the teardown of Playwright, of the parser the construction of the soup, of the control
  panel its widgets. Time is an integer argument, never a clock that is read.
\<close>

end
